(* ===== verification/Prelude.thy ===== *)
theory Prelude
  imports Main "HOL-Library.Word" "HOL-Library.List_Lexorder" "HOL-Library.Char_ord"
begin

text \<open>
  Shared vocabulary of the development: Rust's \<open>Result\<close> and its \<open>?\<close> operator, loops that
  stop at the first error, checked arithmetic on machine integers, Rust strings as their
  UTF-8 bytes, and string newtypes with the derived order.
\<close>

named_theorems result_simps \<open>inversion of results: what a success or an error of a composed call says\<close>

section \<open>Results\<close>

text \<open>
  A Rust \<open>Result<T, E>\<close> is \<open>'e + 'a\<close>: \<open>Inl\<close> is \<open>Err\<close>, \<open>Inr\<close> is \<open>Ok\<close>.
  \<open>and_then r (\<lambda>x. b)\<close> is \<open>let x = r?; b\<close>.
\<close>

definition and_then :: "'e + 'a \<Rightarrow> ('a \<Rightarrow> 'e + 'b) \<Rightarrow> 'e + 'b" where
  "and_then r f = (case r of Inl e \<Rightarrow> Inl e | Inr x \<Rightarrow> f x)"

definition ok_or :: "'a option \<Rightarrow> 'e \<Rightarrow> 'e + 'a" where
  "ok_or x e = (case x of None \<Rightarrow> Inl e | Some y \<Rightarrow> Inr y)"

definition map_err :: "('e \<Rightarrow> 'f) \<Rightarrow> 'e + 'a \<Rightarrow> 'f + 'a" where
  "map_err f r = (case r of Inl e \<Rightarrow> Inl (f e) | Inr x \<Rightarrow> Inr x)"

definition is_ok :: "'e + 'a \<Rightarrow> bool" where
  "is_ok r = (case r of Inl _ \<Rightarrow> False | Inr _ \<Rightarrow> True)"

lemma and_then_simps [simp]:
  "and_then (Inl e) f = Inl e"
  "and_then (Inr x) f = f x"
  by (simp_all add: and_then_def)

lemma and_then_Inr_iff [result_simps]:
  "and_then r f = Inr y \<longleftrightarrow> (\<exists>x. r = Inr x \<and> f x = Inr y)"
  by (cases r) auto

lemma and_then_Inl_iff [result_simps]:
  "and_then r f = Inl e \<longleftrightarrow> r = Inl e \<or> (\<exists>x. r = Inr x \<and> f x = Inl e)"
  by (cases r) auto

lemma and_then_assoc: "and_then (and_then r f) g = and_then r (\<lambda>x. and_then (f x) g)"
  by (cases r) auto

lemma and_then_cong [fundef_cong]:
  "r = r' \<Longrightarrow> (\<And>x. r' = Inr x \<Longrightarrow> f x = g x) \<Longrightarrow> and_then r f = and_then r' g"
  by (cases r') auto

lemma ok_or_simps [simp]: "ok_or None e = Inl e" "ok_or (Some x) e = Inr x"
  by (simp_all add: ok_or_def)

lemma ok_or_Inr_iff [result_simps]: "ok_or m e = Inr x \<longleftrightarrow> m = Some x"
  by (cases m) auto

lemma ok_or_Inl_iff [result_simps]: "ok_or m e = Inl e' \<longleftrightarrow> m = None \<and> e' = e"
  by (cases m) auto

lemma map_err_simps [simp]: "map_err f (Inl e) = Inl (f e)" "map_err f (Inr x) = Inr x"
  by (simp_all add: map_err_def)

lemma map_err_Inr_iff [result_simps]: "map_err f r = Inr x \<longleftrightarrow> r = Inr x"
  by (cases r) auto

lemma is_ok_simps [simp]: "\<not> is_ok (Inl e)" "is_ok (Inr x)"
  by (simp_all add: is_ok_def)

lemma is_ok_iff: "is_ok r \<longleftrightarrow> (\<exists>x. r = Inr x)"
  by (cases r) auto

lemma if_Inl_eq_Inr_iff [result_simps]: "(if c then Inl e else r) = Inr x \<longleftrightarrow> \<not> c \<and> r = Inr x"
  by auto

section \<open>Loops that stop at the first error\<close>

text \<open>
  \<open>try_each f xs\<close> is \<open>for x in xs { f(x)?; }\<close>; \<open>try_fold f s xs\<close> is the same loop with
  mutable locals \<open>s\<close>.
\<close>

primrec try_each :: "('a \<Rightarrow> 'e + unit) \<Rightarrow> 'a list \<Rightarrow> 'e + unit" where
  "try_each f [] = Inr ()"
| "try_each f (x # xs) = and_then (f x) (\<lambda>_. try_each f xs)"

primrec try_fold :: "('s \<Rightarrow> 'a \<Rightarrow> 'e + 's) \<Rightarrow> 's \<Rightarrow> 'a list \<Rightarrow> 'e + 's" where
  "try_fold f s [] = Inr s"
| "try_fold f s (x # xs) = and_then (f s x) (\<lambda>s'. try_fold f s' xs)"

lemma try_each_ok_iff: "try_each f xs = Inr u \<longleftrightarrow> (\<forall>x\<in>set xs. f x = Inr ())"
  by (induction xs) (auto simp: result_simps)

lemma try_each_error: "try_each f xs = Inl e \<Longrightarrow> \<exists>x\<in>set xs. f x = Inl e"
  by (induction xs) (auto simp: result_simps)

lemma try_fold_append:
  "try_fold f s (xs @ ys) = and_then (try_fold f s xs) (\<lambda>s'. try_fold f s' ys)"
  by (induction xs arbitrary: s) (auto simp: and_then_assoc)

section \<open>Machine integers\<close>

type_synonym u16 = "16 word"
type_synonym u32 = "32 word"
type_synonym u64 = "64 word"

text \<open>\<open>checked_add\<close> on a word, and on \<open>usize\<close> values kept as natural numbers below \<open>2 ^ 64\<close>.\<close>

definition checked_add :: "'w::len word \<Rightarrow> 'w word \<Rightarrow> 'w word option" where
  "checked_add a b = (if unat a + unat b < 2 ^ LENGTH('w) then Some (a + b) else None)"

definition checked_mul :: "'w::len word \<Rightarrow> 'w word \<Rightarrow> 'w word option" where
  "checked_mul a b = (if unat a * unat b < 2 ^ LENGTH('w) then Some (a * b) else None)"

definition checked_add_usize :: "nat \<Rightarrow> nat \<Rightarrow> nat option" where
  "checked_add_usize a b = (if a + b < 2 ^ 64 then Some (a + b) else None)"

text \<open>Evaluation compares the values as integers, never as unary numbers.\<close>

lemma checked_add_code [code]:
  "checked_add (a :: 'w::len word) b =
     (if uint a + uint b < 2 ^ LENGTH('w) then Some (a + b) else None)"
proof -
  have "int (unat a + unat b) < int (2 ^ LENGTH('w)) \<longleftrightarrow> uint a + uint b < 2 ^ LENGTH('w)"
    by simp
  then show ?thesis unfolding checked_add_def of_nat_less_iff by simp
qed

lemma checked_mul_code [code]:
  "checked_mul (a :: 'w::len word) b =
     (if uint a * uint b < 2 ^ LENGTH('w) then Some (a * b) else None)"
proof -
  have "int (unat a * unat b) < int (2 ^ LENGTH('w)) \<longleftrightarrow> uint a * uint b < 2 ^ LENGTH('w)"
    by simp
  then show ?thesis unfolding checked_mul_def of_nat_less_iff by simp
qed

lemma checked_add_Some: "checked_add a b = Some c \<Longrightarrow> unat c = unat a + unat b"
  by (auto simp: checked_add_def unat_word_ariths split: if_splits)

lemma checked_add_None_iff:
  "checked_add (a :: 'w::len word) b = None \<longleftrightarrow> 2 ^ LENGTH('w) \<le> unat a + unat b"
  by (auto simp: checked_add_def)

lemma checked_mul_Some: "checked_mul a b = Some c \<Longrightarrow> unat c = unat a * unat b"
  by (auto simp: checked_mul_def unat_word_ariths split: if_splits)

lemma checked_add_usize_Some: "checked_add_usize a b = Some c \<longleftrightarrow> c = a + b \<and> a + b < 2 ^ 64"
  by (auto simp: checked_add_usize_def)

section \<open>Rust strings\<close>

text \<open>
  A Rust \<open>str\<close> is the \<open>string\<close> of its UTF-8 bytes: \<open>len\<close> is \<open>length\<close>, \<open>bytes\<close> is the
  list itself, and the derived order of \<open>String\<close> is the lexicographic order on bytes.
\<close>

definition byte :: "char \<Rightarrow> nat" where
  "byte c = of_char c"

definition ascii_alphanumeric :: "char \<Rightarrow> bool" where
  "ascii_alphanumeric c =
     (let n = byte c in (48 \<le> n \<and> n \<le> 57) \<or> (65 \<le> n \<and> n \<le> 90) \<or> (97 \<le> n \<and> n \<le> 122))"

text \<open>
  \<open>chars().any(char::is_control)\<close>: U+0000 to U+001F, U+007F, and U+0080 to U+009F, whose
  UTF-8 encodings are the byte \<open>0xC2\<close> (always a lead byte) followed by \<open>0x80\<close> to \<open>0x9F\<close>.
\<close>

fun has_control :: "string \<Rightarrow> bool" where
  "has_control [] = False"
| "has_control [c] = (byte c < 32 \<or> byte c = 127)"
| "has_control (c # d # s) =
     (byte c < 32 \<or> byte c = 127 \<or> (byte c = 194 \<and> 128 \<le> byte d \<and> byte d \<le> 159)
      \<or> has_control (d # s))"

lemma has_control_ascii:
  assumes "\<forall>c\<in>set s. 32 \<le> byte c \<and> byte c < 127"
  shows "\<not> has_control s"
  using assms by (induction s rule: has_control.induct) auto

lemma ascii_alphanumeric_printable:
  "ascii_alphanumeric c \<Longrightarrow> 32 \<le> byte c \<and> byte c < 127"
  by (auto simp: ascii_alphanumeric_def Let_def)

lemma byte_literals [simp]:
  "byte (CHR ''-'') = 45" "byte (CHR ''_'') = 95" "byte (CHR ''.'') = 46"
  "byte (CHR 0x2F) = 47" "byte (CHR 0x5C) = 92"
  by (simp_all add: byte_def)

lemma has_control_append:
  assumes "\<not> has_control s" "\<not> has_control t" "t \<noteq> []" "byte (hd t) < 128"
  shows "\<not> has_control (s @ t)"
  using assms
proof (induction s rule: has_control.induct)
  case (2 c)
  then show ?case by (cases t) auto
qed auto

section \<open>String newtypes\<close>

text \<open>
  \<open>struct Name(String)\<close> with a private field: every macro-generated identifier type of the
  program. The type argument only keeps the kinds apart, as distinct Rust types do; the
  derived \<open>Ord\<close> compares the text.
\<close>

datatype 'k name = Name (as_str: string)

instantiation name :: (type) linorder
begin

definition less_eq_name :: "'a name \<Rightarrow> 'a name \<Rightarrow> bool" where
  "less_eq_name a b \<longleftrightarrow> as_str a \<le> as_str b"

definition less_name :: "'a name \<Rightarrow> 'a name \<Rightarrow> bool" where
  "less_name a b \<longleftrightarrow> as_str a < as_str b"

instance
  by standard (auto simp: less_eq_name_def less_name_def intro: name.expand)

end

end
