(* ===== verification/Collections.thy ===== *)
theory Collections
  imports Prelude
begin

text \<open>
  Rust's ordered collections. A \<open>BTreeMap\<close> is the association list of its entries in key
  order, a \<open>BTreeSet\<close> the list of its elements in order; both are canonical, so equality
  of the collections is equality of the lists. A set that is only inserted into and queried
  is an Isabelle set.
\<close>

section \<open>Ordered maps\<close>

type_synonym ('k, 'v) btree_map = "('k \<times> 'v) list"

definition bt_wf :: "('k::linorder, 'v) btree_map \<Rightarrow> bool" where
  "bt_wf m \<longleftrightarrow> sorted_wrt (<) (map fst m)"

definition bt_get :: "('k, 'v) btree_map \<Rightarrow> 'k \<Rightarrow> 'v option" where
  "bt_get m k = map_of m k"

fun bt_insert :: "'k::linorder \<Rightarrow> 'v \<Rightarrow> ('k, 'v) btree_map \<Rightarrow> ('k, 'v) btree_map" where
  "bt_insert k v [] = [(k, v)]"
| "bt_insert k v ((k', v') # m) =
     (if k < k' then (k, v) # (k', v') # m
      else if k = k' then (k, v) # m
      else (k', v') # bt_insert k v m)"

text \<open>\<open>get_mut\<close> followed by an assignment through the reference, and \<open>values_mut\<close>.\<close>

definition bt_modify :: "'k \<Rightarrow> ('v \<Rightarrow> 'v) \<Rightarrow> ('k, 'v) btree_map \<Rightarrow> ('k, 'v) btree_map" where
  "bt_modify k f m = map (\<lambda>(k', v). if k' = k then (k', f v) else (k', v)) m"

definition bt_map_values :: "('v \<Rightarrow> 'v) \<Rightarrow> ('k, 'v) btree_map \<Rightarrow> ('k, 'v) btree_map" where
  "bt_map_values f m = map (\<lambda>(k, v). (k, f v)) m"

definition bt_keys :: "('k, 'v) btree_map \<Rightarrow> 'k list" where
  "bt_keys m = map fst m"

definition bt_values :: "('k, 'v) btree_map \<Rightarrow> 'v list" where
  "bt_values m = map snd m"

text \<open>\<open>into_iter().collect()\<close>: later entries replace earlier ones.\<close>

definition bt_collect :: "('k::linorder \<times> 'v) list \<Rightarrow> ('k, 'v) btree_map" where
  "bt_collect xs = fold (\<lambda>(k, v) m. bt_insert k v m) xs []"

text \<open>What a client of an ordered map relies on.\<close>

locale ordered_map =
  fixes lookup :: "'m \<Rightarrow> 'k::linorder \<Rightarrow> 'v option"
    and upd :: "'k \<Rightarrow> 'v \<Rightarrow> 'm \<Rightarrow> 'm"
    and emp :: 'm
    and wf :: "'m \<Rightarrow> bool"
    and keys :: "'m \<Rightarrow> 'k list"
  assumes lookup_emp: "lookup emp k = None"
    and wf_emp: "wf emp"
    and wf_upd: "wf m \<Longrightarrow> wf (upd k v m)"
    and lookup_upd: "wf m \<Longrightarrow> lookup (upd k v m) k' = (if k' = k then Some v else lookup m k')"
    and keys_lookup: "wf m \<Longrightarrow> set (keys m) = {k. lookup m k \<noteq> None}"
    and keys_sorted: "wf m \<Longrightarrow> sorted_wrt (<) (keys m)"
begin

definition build :: "('k \<times> 'v) list \<Rightarrow> 'm \<Rightarrow> 'm" where
  "build xs m = fold (\<lambda>(k, v) m. upd k v m) xs m"

lemma wf_build: "wf m \<Longrightarrow> wf (build xs m)"
  unfolding build_def by (induction xs arbitrary: m) (auto simp: wf_upd)

lemma lookup_build:
  "wf m \<Longrightarrow> lookup (build xs m) k = (case map_of (rev xs) k of None \<Rightarrow> lookup m k | Some v \<Rightarrow> Some v)"
  unfolding build_def
  by (induction xs rule: rev_induct)
    (auto simp: lookup_upd wf_build [unfolded build_def])

lemma lookup_build_distinct:
  assumes "wf m" "distinct (map fst xs)" "\<forall>k\<in>fst ` set xs. lookup m k = None"
  shows "lookup (build xs m) k = (case map_of xs k of None \<Rightarrow> lookup m k | Some v \<Rightarrow> Some v)"
proof -
  have "map_of (rev xs) = map_of xs"
    using assms(2) by (intro map_of_inject_set [THEN iffD2])
      (simp_all add: distinct_rev rev_map [symmetric])
  then show ?thesis using assms(1) by (simp add: lookup_build)
qed

lemma keys_distinct: "wf m \<Longrightarrow> distinct (keys m)"
  using keys_sorted strict_sorted_iff by blast

end

lemma bt_insert_keys: "set (map fst (bt_insert k v m)) = insert k (set (map fst m))"
  by (induction k v m rule: bt_insert.induct) auto

lemma bt_insert_wf: "bt_wf m \<Longrightarrow> bt_wf (bt_insert k v m)"
  unfolding bt_wf_def
proof (induction k v m rule: bt_insert.induct)
  case (2 k v k' v' m)
  have "\<forall>x\<in>set (map fst (bt_insert k v m)). x = k \<or> x \<in> set (map fst m)"
    using bt_insert_keys [of k v m] by blast
  with 2 show ?case by (fastforce simp del: set_map)
qed auto

lemma bt_insert_get:
  "bt_wf m \<Longrightarrow> bt_get (bt_insert k v m) k' = (if k' = k then Some v else bt_get m k')"
  unfolding bt_wf_def bt_get_def
proof (induction k v m rule: bt_insert.induct)
  case (2 k v k0 v0 m)
  then show ?case
    by (cases "k < k0") (auto simp: map_of_eq_None_iff)
qed auto

interpretation btm: ordered_map bt_get bt_insert "[]" bt_wf bt_keys
proof
  show "bt_get [] k = None" for k :: 'a by (simp add: bt_get_def)
  show "bt_wf []" by (simp add: bt_wf_def)
  show "bt_wf m \<Longrightarrow> set (bt_keys m) = {k. bt_get m k \<noteq> None}" for m :: "('a \<times> 'b) list"
    by (auto simp: bt_keys_def bt_get_def map_of_eq_None_iff)
  show "bt_wf m \<Longrightarrow> sorted_wrt (<) (bt_keys m)" for m :: "('a \<times> 'b) list"
    by (simp add: bt_wf_def bt_keys_def)
qed (simp_all add: bt_insert_wf bt_insert_get)

lemma bt_collect_build: "bt_collect xs = btm.build xs []"
  by (simp add: bt_collect_def btm.build_def)

lemma bt_collect_wf: "bt_wf (bt_collect xs)"
  by (simp add: bt_collect_build btm.wf_build btm.wf_emp)

lemma bt_collect_keys: "set (map fst (bt_collect xs)) = set (map fst xs)"
proof -
  have "set (map fst (fold (\<lambda>(k, v) m. bt_insert k v m) xs m)) = set (map fst xs) \<union> set (map fst m)" for m
  proof (induction xs arbitrary: m)
    case (Cons x xs)
    obtain k v where "x = (k, v)" by (cases x)
    with Cons.IH [of "bt_insert k v m"] show ?case
      by (simp add: bt_insert_keys del: set_map)
  qed simp
  then show ?thesis by (simp add: bt_collect_def)
qed

lemma bt_collect_get_distinct:
  "distinct (map fst xs) \<Longrightarrow> bt_get (bt_collect xs) k = map_of xs k"
  by (simp add: bt_collect_build btm.lookup_build_distinct btm.wf_emp btm.lookup_emp
      split: option.split)

lemma bt_get_Cons: "bt_get ((k, v) # m) k' = (if k' = k then Some v else bt_get m k')"
  by (simp add: bt_get_def)

lemma bt_modify_Nil [simp]: "bt_modify p f [] = []"
  by (simp add: bt_modify_def)

lemma bt_modify_Cons [simp]:
  "bt_modify p f ((k, v) # m) = (k, if k = p then f v else v) # bt_modify p f m"
  by (simp add: bt_modify_def)

lemma bt_modify_get [simp]:
  "bt_get (bt_modify k f m) k' = (if k' = k then map_option f (bt_get m k) else bt_get m k')"
  unfolding bt_get_def bt_modify_def by (induction m) auto

lemma bt_modify_keys [simp]: "map fst (bt_modify k f m) = map fst m"
  by (auto simp: bt_modify_def)

lemma bt_modify_wf [simp]: "bt_wf (bt_modify k f m) = bt_wf m"
  by (simp add: bt_wf_def)

lemma bt_map_values_get [simp]: "bt_get (bt_map_values f m) k = map_option f (bt_get m k)"
  unfolding bt_get_def bt_map_values_def by (induction m) auto

lemma bt_map_values_keys [simp]: "map fst (bt_map_values f m) = map fst m"
  by (auto simp: bt_map_values_def)

lemma bt_map_values_wf [simp]: "bt_wf (bt_map_values f m) = bt_wf m"
  by (simp add: bt_wf_def)

lemma bt_keys_modify [simp]: "bt_keys (bt_modify k f m) = bt_keys m"
  by (simp add: bt_keys_def)

lemma bt_keys_map_values [simp]: "bt_keys (bt_map_values f m) = bt_keys m"
  by (simp add: bt_keys_def)

lemma bt_get_empty [simp]: "bt_get [] k = None"
  by (simp add: bt_get_def)

lemma bt_get_key: "bt_get m k = Some v \<Longrightarrow> k \<in> set (map fst m)"
  by (auto simp: bt_get_def dest: map_of_SomeD intro: rev_image_eqI)

lemma bt_key_get: "k \<in> set (map fst m) \<Longrightarrow> \<exists>v. bt_get m k = Some v"
  by (auto simp: bt_get_def intro: weak_map_of_SomeI)

lemma bt_get_in_values: "bt_get m k = Some v \<Longrightarrow> v \<in> set (bt_values m)"
  by (auto simp: bt_get_def bt_values_def dest: map_of_SomeD intro: rev_image_eqI)

lemma bt_in_values_get: "bt_wf m \<Longrightarrow> v \<in> set (bt_values m) \<Longrightarrow> \<exists>k. bt_get m k = Some v"
proof -
  assume wf: "bt_wf m" and v: "v \<in> set (bt_values m)"
  then obtain k where "(k, v) \<in> set m" by (auto simp: bt_values_def)
  moreover have "distinct (map fst m)"
    using wf by (auto simp: bt_wf_def strict_sorted_iff)
  ultimately show ?thesis by (auto simp: bt_get_def)
qed

lemma bt_values_iff: "bt_wf m \<Longrightarrow> v \<in> set (bt_values m) \<longleftrightarrow> (\<exists>k. bt_get m k = Some v)"
  using bt_get_in_values bt_in_values_get by metis

section \<open>Ordered sets\<close>

type_synonym 'a btree_set = "'a list"

text \<open>\<open>collect::<BTreeSet<_>>()\<close>: the distinct elements in order.\<close>

fun bts_insert :: "'a::linorder \<Rightarrow> 'a btree_set \<Rightarrow> 'a btree_set" where
  "bts_insert x [] = [x]"
| "bts_insert x (y # ys) =
     (if x < y then x # y # ys else if x = y then y # ys else y # bts_insert x ys)"

definition bts_collect :: "'a::linorder list \<Rightarrow> 'a btree_set" where
  "bts_collect xs = fold bts_insert xs []"

definition bts_wf :: "'a::linorder btree_set \<Rightarrow> bool" where
  "bts_wf xs \<longleftrightarrow> sorted_wrt (<) xs"

lemma bts_insert_set [simp]: "set (bts_insert x ys) = insert x (set ys)"
  by (induction x ys rule: bts_insert.induct) auto

lemma bts_insert_wf: "bts_wf ys \<Longrightarrow> bts_wf (bts_insert x ys)"
  unfolding bts_wf_def
  by (induction x ys rule: bts_insert.induct) auto

lemma bts_collect_set [simp]: "set (bts_collect xs) = set xs"
proof -
  have "set (fold bts_insert xs acc) = set xs \<union> set acc" for acc
    by (induction xs arbitrary: acc) auto
  then show ?thesis by (simp add: bts_collect_def)
qed

lemma bts_collect_wf [simp]: "bts_wf (bts_collect xs)"
proof -
  have "bts_wf acc \<Longrightarrow> bts_wf (fold bts_insert xs acc)" for acc
    by (induction xs arbitrary: acc) (auto simp: bts_insert_wf)
  then show ?thesis by (simp add: bts_collect_def bts_wf_def)
qed

lemma bts_eq_iff: "bts_wf xs \<Longrightarrow> bts_wf ys \<Longrightarrow> xs = ys \<longleftrightarrow> set xs = set ys"
  unfolding bts_wf_def using strict_sorted_equal by blast

lemma bts_collect_cong: "set xs = set ys \<Longrightarrow> bts_collect xs = bts_collect ys"
  by (simp add: bts_eq_iff)

end
