(* ===== verification/Identifiers.thy ===== *)
theory Identifiers
  imports Collections
begin

text \<open>
  Validated identifiers and compatibility versions (\<^verbatim>\<open>orchestrator-core/src/lib.rs\<close>): the
  \<^verbatim>\<open>identifier!\<close> macro and its instances, worker directory names, event identities with
  their two acceptance boundaries, and the non-zero version carried by an envelope.
\<close>

section \<open>Errors and validators\<close>

text \<open>The fields of \<open>InvalidIdentifier\<close> are the identifier category, the rejected text and the
  reason; those of \<open>UnsupportedCompatibilityVersion\<close> the surface, the version found and the
  version expected.\<close>

datatype CoreError =
    InvalidIdentifier string string string
  | ZeroCompatibilityVersion
  | UnsupportedCompatibilityVersion string u32 u32

definition MAX_PERSISTED_EVENT_ID_BYTES :: nat where
  "MAX_PERSISTED_EVENT_ID_BYTES = 256"

definition MAX_WORKER_ID_BYTES :: nat where
  "MAX_WORKER_ID_BYTES = 255"

definition identifier_byte :: "char \<Rightarrow> bool" where
  "identifier_byte c \<longleftrightarrow> ascii_alphanumeric c \<or> c = CHR ''-'' \<or> c = CHR ''_''"

definition validate_identifier :: "string \<Rightarrow> string \<Rightarrow> CoreError + unit" where
  "validate_identifier k s =
     (if s = [] then Inl (InvalidIdentifier k s ''identifier is empty'')
      else if \<not> list_all identifier_byte s
      then Inl (InvalidIdentifier k s ''only ASCII letters, digits, '-' and '_' are allowed'')
      else Inr ())"

definition path_separator :: "char \<Rightarrow> bool" where
  "path_separator c \<longleftrightarrow> c = CHR 0x2F \<or> c = CHR 0x5C"

definition validate_persisted_event_identifier :: "string \<Rightarrow> CoreError + unit" where
  "validate_persisted_event_identifier s =
     (let why =
        (if s = [] then Some ''identifier is empty''
         else if MAX_PERSISTED_EVENT_ID_BYTES < length s
         then Some ''persisted event identifier exceeds 256 bytes''
         else if has_control s
         then Some ''persisted event identifier contains a control character''
         else None)
      in case why of Some r \<Rightarrow> Inl (InvalidIdentifier ''event'' s r) | None \<Rightarrow> Inr ())"

definition validate_worker_identifier :: "string \<Rightarrow> CoreError + unit" where
  "validate_worker_identifier s =
     (let why =
        (if s = [] then Some ''identifier is empty''
         else if MAX_WORKER_ID_BYTES < length s
         then Some ''worker identifier exceeds 255 bytes''
         else if s = ''.'' \<or> s = ''..''
         then Some ''worker identifier is a reserved path segment''
         else if list_ex path_separator s
         then Some ''worker identifier contains a path separator''
         else if has_control s
         then Some ''worker identifier contains a control character''
         else None)
      in case why of Some r \<Rightarrow> Inl (InvalidIdentifier ''worker'' s r) | None \<Rightarrow> Inr ())"

definition validate_worker_persona_stem :: "string \<Rightarrow> CoreError + unit" where
  "validate_worker_persona_stem s =
     (let why =
        (if s = [] then Some ''identifier is empty''
         else if list_ex path_separator s
         then Some ''worker identifier contains a path separator''
         else if has_control s
         then Some ''worker identifier contains a control character''
         else None)
      in case why of Some r \<Rightarrow> Inl (InvalidIdentifier ''worker'' s r) | None \<Rightarrow> Inr ())"

section \<open>The identifier types\<close>

datatype mission_kind = MissionKind
datatype phase_kind = PhaseKind
datatype contract_kind = ContractKind
datatype worker_kind = WorkerKind
datatype event_kind = EventKind

type_synonym MissionId = "mission_kind name"
type_synonym PhaseId = "phase_kind name"
type_synonym ContractId = "contract_kind name"
type_synonym WorkerId = "worker_kind name"
type_synonym EventId = "event_kind name"

text \<open>The constructor the \<^verbatim>\<open>identifier!\<close> macro generates, and its three instances.\<close>

definition identifier_new :: "string \<Rightarrow> string \<Rightarrow> CoreError + 'k name" where
  "identifier_new k s = and_then (validate_identifier k s) (\<lambda>_. Inr (Name s))"

definition MissionId_new :: "string \<Rightarrow> CoreError + MissionId" where
  "MissionId_new = identifier_new ''mission''"

definition PhaseId_new :: "string \<Rightarrow> CoreError + PhaseId" where
  "PhaseId_new = identifier_new ''phase''"

definition ContractId_new :: "string \<Rightarrow> CoreError + ContractId" where
  "ContractId_new = identifier_new ''contract''"

definition WorkerId_new :: "string \<Rightarrow> CoreError + WorkerId" where
  "WorkerId_new s = and_then (validate_worker_identifier s) (\<lambda>_. Inr (Name s))"

definition WorkerId_for_phase :: "string \<Rightarrow> PhaseId \<Rightarrow> CoreError + WorkerId" where
  "WorkerId_for_phase persona phase =
     and_then (validate_worker_persona_stem persona) (\<lambda>_.
       case Option.bind (checked_add_usize (length persona) 1)
              (\<lambda>n. checked_add_usize n (length (as_str phase))) of
         None \<Rightarrow> Inl (InvalidIdentifier ''worker'' persona ''worker identifier exceeds 255 bytes'')
       | Some composed_len \<Rightarrow>
           if MAX_WORKER_ID_BYTES < composed_len
           then Inl (InvalidIdentifier ''worker'' persona ''worker identifier exceeds 255 bytes'')
           else WorkerId_new (persona @ ''-'' @ as_str phase))"

definition EventId_new :: "string \<Rightarrow> CoreError + EventId" where
  "EventId_new s = and_then (validate_identifier ''event'' s) (\<lambda>_. Inr (Name s))"

definition EventId_from_persisted :: "string \<Rightarrow> CoreError + EventId" where
  "EventId_from_persisted s =
     and_then (validate_persisted_event_identifier s) (\<lambda>_. Inr (Name s))"

text \<open>The wire form of an event identity: serialised as its text, read back as persisted.\<close>

definition EventId_serialize :: "EventId \<Rightarrow> string" where
  "EventId_serialize e = as_str e"

definition EventId_deserialize :: "string \<Rightarrow> CoreError + EventId" where
  "EventId_deserialize s = EventId_from_persisted s"

section \<open>Compatibility versions\<close>

datatype CompatibilityVersion = CompatibilityVersion u32

definition CompatibilityVersion_new :: "u32 \<Rightarrow> CoreError + CompatibilityVersion" where
  "CompatibilityVersion_new v =
     (if v = 0 then Inl ZeroCompatibilityVersion else Inr (CompatibilityVersion v))"

fun CompatibilityVersion_get :: "CompatibilityVersion \<Rightarrow> u32" where
  "CompatibilityVersion_get (CompatibilityVersion v) = v"

datatype EnvelopeVersionV1 = EnvelopeVersionV1

definition EnvelopeVersionV1_serialize :: "EnvelopeVersionV1 \<Rightarrow> u32" where
  "EnvelopeVersionV1_serialize v = 1"

definition EnvelopeVersionV1_deserialize :: "u32 \<Rightarrow> CoreError + EnvelopeVersionV1" where
  "EnvelopeVersionV1_deserialize n =
     (if n = 1 then Inr EnvelopeVersionV1
      else Inl (UnsupportedCompatibilityVersion ''compatibility envelope'' n 1))"

record 'p CompatibilityEnvelopeV1 =
  env_version :: EnvelopeVersionV1
  env_payload :: 'p

definition CompatibilityEnvelopeV1_new :: "'p \<Rightarrow> 'p CompatibilityEnvelopeV1" where
  "CompatibilityEnvelopeV1_new p = \<lparr>env_version = EnvelopeVersionV1, env_payload = p\<rparr>"

section \<open>The contract every validated newtype keeps\<close>

locale newtype =
  fixes new :: "string \<Rightarrow> CoreError + 'k name"
    and valid :: "string \<Rightarrow> bool"
  assumes accepts: "valid s \<Longrightarrow> new s = Inr (Name s)"
    and rejects: "\<not> valid s \<Longrightarrow> \<exists>e. new s = Inl e"
begin

lemma new_Inr_iff: "new s = Inr n \<longleftrightarrow> valid s \<and> n = Name s"
  using accepts [of s] rejects [of s] by (cases "valid s") auto

lemma new_as_str: "new s = Inr n \<Longrightarrow> as_str n = s"
  by (simp add: new_Inr_iff)

lemma new_roundtrip: "new s = Inr n \<Longrightarrow> new (as_str n) = Inr n"
  by (simp add: new_Inr_iff)

lemma new_injective: "new s = Inr n \<Longrightarrow> new t = Inr n \<Longrightarrow> s = t"
  by (simp add: new_Inr_iff)

lemma new_is_ok: "is_ok (new s) \<longleftrightarrow> valid s"
  using accepts [of s] rejects [of s] by (cases "valid s") auto

end

definition identifier_text :: "string \<Rightarrow> bool" where
  "identifier_text s \<longleftrightarrow> s \<noteq> [] \<and> list_all identifier_byte s"

definition persisted_event_text :: "string \<Rightarrow> bool" where
  "persisted_event_text s \<longleftrightarrow> s \<noteq> [] \<and> length s \<le> 256 \<and> \<not> has_control s"

definition worker_text :: "string \<Rightarrow> bool" where
  "worker_text s \<longleftrightarrow> s \<noteq> [] \<and> length s \<le> 255 \<and> s \<noteq> ''.'' \<and> s \<noteq> ''..''
     \<and> \<not> list_ex path_separator s \<and> \<not> has_control s"

lemma validate_identifier_iff: "validate_identifier k s = Inr () \<longleftrightarrow> identifier_text s"
  by (auto simp: validate_identifier_def identifier_text_def)

interpretation mission_ids: newtype MissionId_new identifier_text
  by standard (auto simp: MissionId_new_def identifier_new_def validate_identifier_def identifier_text_def)

interpretation phase_ids: newtype PhaseId_new identifier_text
  by standard (auto simp: PhaseId_new_def identifier_new_def validate_identifier_def identifier_text_def)

interpretation contract_ids: newtype ContractId_new identifier_text
  by standard (auto simp: ContractId_new_def identifier_new_def validate_identifier_def identifier_text_def)

interpretation event_ids: newtype EventId_new identifier_text
  by standard (auto simp: EventId_new_def validate_identifier_def identifier_text_def)

interpretation persisted_event_ids: newtype EventId_from_persisted persisted_event_text
  by standard
    (auto simp: EventId_from_persisted_def validate_persisted_event_identifier_def
      persisted_event_text_def MAX_PERSISTED_EVENT_ID_BYTES_def)

interpretation worker_ids: newtype WorkerId_new worker_text
  by standard
    (auto simp: WorkerId_new_def validate_worker_identifier_def worker_text_def
      MAX_WORKER_ID_BYTES_def)

lemma identifier_byte_printable: "identifier_byte c \<Longrightarrow> 32 \<le> byte c \<and> byte c < 127"
  by (auto simp: identifier_byte_def dest: ascii_alphanumeric_printable)

lemma identifier_byte_not_separator: "identifier_byte c \<Longrightarrow> \<not> path_separator c"
  by (auto simp: identifier_byte_def path_separator_def ascii_alphanumeric_def Let_def)

lemma identifier_text_no_control: "identifier_text s \<Longrightarrow> \<not> has_control s"
  by (rule has_control_ascii) (auto simp: identifier_text_def list_all_iff dest: identifier_byte_printable)

lemma identifier_text_no_separator: "identifier_text s \<Longrightarrow> \<not> list_ex path_separator s"
  by (auto simp: identifier_text_def list_all_iff list_ex_iff dest: identifier_byte_not_separator)

lemma persona_stem_iff:
  "validate_worker_persona_stem s = Inr () \<longleftrightarrow>
     s \<noteq> [] \<and> \<not> list_ex path_separator s \<and> \<not> has_control s"
  by (auto simp: validate_worker_persona_stem_def)

lemma composed_worker_text:
  assumes "s \<noteq> []" "\<not> list_ex path_separator s" "\<not> has_control s" "identifier_text p"
    and "length s + 1 + length p \<le> 255"
  shows "worker_text (s @ ''-'' @ p)"
proof -
  have "\<not> has_control (''-'' @ p)"
    using assms(4) identifier_text_no_control [OF assms(4)] by (cases p) auto
  then have "\<not> has_control (s @ ''-'' @ p)"
    using has_control_append [OF assms(3), of "''-'' @ p"] by simp
  moreover have "s @ ''-'' @ p \<noteq> ''.''" "s @ ''-'' @ p \<noteq> ''..''"
    using assms(1) by (auto simp: append_eq_Cons_conv)
  ultimately show ?thesis
    using assms identifier_text_no_separator [OF assms(4)]
    by (simp add: worker_text_def path_separator_def)
qed

text \<open>
  C15. A phase identifier is accepted exactly when it is a non-empty string of ASCII letters,
  digits, \<open>-\<close> and \<open>_\<close>, and the accepted identifier keeps the text unchanged.
\<close>

theorem phase_id_accepts_iff:
  "PhaseId_new s = Inr p \<longleftrightarrow> s \<noteq> [] \<and> (\<forall>c\<in>set s. identifier_byte c) \<and> p = Name s"
  by (auto simp: phase_ids.new_Inr_iff identifier_text_def list_all_iff)

theorem phase_id_accepts_iff_witness:
  "PhaseId_new ''phase-1'' = Inr (Name ''phase-1'')"
  by (subst phase_id_accepts_iff)
    (simp add: identifier_byte_def ascii_alphanumeric_def byte_def)

text \<open>
  C13. The worker directory name of a phase is \<open>persona-phase\<close> exactly when the persona is
  non-empty, free of path separators and control characters, and the composed name fits in 255
  bytes: the second validation never rejects a name the first checks let through, so a worker
  name is always one path segment.
\<close>

theorem worker_for_phase_iff:
  assumes "PhaseId_new p = Inr phase"
  shows "WorkerId_for_phase persona phase = Inr w \<longleftrightarrow>
     persona \<noteq> [] \<and> \<not> list_ex path_separator persona \<and> \<not> has_control persona
     \<and> length persona + 1 + length p \<le> 255 \<and> w = Name (persona @ ''-'' @ p)"
proof -
  have p: "identifier_text p" "phase = Name p"
    using assms by (simp_all add: phase_ids.new_Inr_iff)
  have "worker_text (persona @ ''-'' @ p)"
    if "persona \<noteq> []" "\<not> list_ex path_separator persona" "\<not> has_control persona"
      "length persona + 1 + length p \<le> 255"
    using composed_worker_text [OF that(1-3) p(1) that(4)] .
  then show ?thesis
    by (auto simp: WorkerId_for_phase_def p(2) result_simps persona_stem_iff
        checked_add_usize_def MAX_WORKER_ID_BYTES_def worker_ids.new_Inr_iff)
qed

theorem worker_for_phase_iff_witness:
  "WorkerId_for_phase ''C++'' (Name ''phase-1'') = Inr (Name ''C++-phase-1'')"
proof -
  have "PhaseId_new ''phase-1'' = Inr (Name ''phase-1'')"
    by (simp add: phase_ids.new_Inr_iff identifier_text_def identifier_byte_def
        ascii_alphanumeric_def byte_def)
  then show ?thesis
    by (simp add: worker_for_phase_iff [of "''phase-1''"] path_separator_def byte_def)
qed

text \<open>
  C11. A live event identifier survives a round trip through its persisted form exactly when it is
  at most 256 bytes long: \<open>EventId::new\<close> has no length bound, while deserialisation has one.
\<close>

theorem event_id_roundtrip_iff:
  assumes "EventId_new s = Inr e"
  shows "EventId_deserialize (EventId_serialize e) = Inr e \<longleftrightarrow> length s \<le> 256"
proof -
  have s: "identifier_text s" "e = Name s"
    using assms by (simp_all add: event_ids.new_Inr_iff)
  then show ?thesis
    using identifier_text_no_control [OF s(1)]
    by (simp add: EventId_deserialize_def EventId_serialize_def persisted_event_ids.new_Inr_iff
        persisted_event_text_def identifier_text_def)
qed

theorem event_id_roundtrip_iff_witness:
  "is_ok (EventId_new (replicate 257 CHR ''e''))
   \<and> EventId_deserialize (EventId_serialize (Name (replicate 257 CHR ''e'')))
       \<noteq> Inr (Name (replicate 257 CHR ''e''))"
proof -
  have new: "EventId_new (replicate 257 CHR ''e'') = Inr (Name (replicate 257 CHR ''e''))"
    by (simp add: event_ids.new_Inr_iff identifier_text_def identifier_byte_def
        ascii_alphanumeric_def byte_def list_all_iff)
  show ?thesis
    using event_id_roundtrip_iff [OF new] new by simp
qed

end
