(* ===== verification/Dependency_Graph.thy ===== *)
theory Dependency_Graph
  imports Identifiers
begin

text \<open>
  The plan's dependency graph (\<^verbatim>\<open>orchestrator-core/src/reducer.rs\<close>): phase definitions,
  the errors of building a mission, and the depth-first cycle detector shared by the reducer
  and the proposal compiler. The detector is proved terminating, and its verdict is proved to
  be exactly the existence of a cycle.
\<close>

record PhaseDefinition =
  def_id :: PhaseId
  def_dependencies :: "PhaseId list"

datatype MissionStateBuildError =
    EmptyPlan
  | DuplicatePhase PhaseId
  | DuplicateDependency PhaseId PhaseId
  | UnknownDependency PhaseId PhaseId
  | DependencyCycle PhaseId

type_synonym dep_map = "(PhaseId, PhaseId list) btree_map"

section \<open>The depth-first visit\<close>

text \<open>
  \<open>visit\<close> threads the two mutable sets of the source: the phases on the current path
  (\<open>visiting\<close>) and the phases fully explored (\<open>visited\<close>). \<open>visit_edges\<close> is its inner loop.
\<close>

function (sequential) visit ::
    "dep_map \<Rightarrow> PhaseId \<Rightarrow> PhaseId set \<Rightarrow> PhaseId set
       \<Rightarrow> MissionStateBuildError + (PhaseId set \<times> PhaseId set)"
  and visit_edges ::
    "dep_map \<Rightarrow> PhaseId list \<Rightarrow> PhaseId set \<Rightarrow> PhaseId set
       \<Rightarrow> MissionStateBuildError + (PhaseId set \<times> PhaseId set)"
where
  "visit deps p visiting visited =
     (if p \<in> visited then Inr (visiting, visited)
      else if p \<in> visiting then Inl (DependencyCycle p)
      else case (case bt_get deps p of
                   Some edges \<Rightarrow> visit_edges deps edges (insert p visiting) visited
                 | None \<Rightarrow> Inr (insert p visiting, visited)) of
             Inl e \<Rightarrow> Inl e
           | Inr (visiting', visited') \<Rightarrow> Inr (visiting' - {p}, insert p visited'))"
| "visit_edges deps [] visiting visited = Inr (visiting, visited)"
| "visit_edges deps (d # ds) visiting visited =
     (case visit deps d visiting visited of
        Inl e \<Rightarrow> Inl e
      | Inr (visiting', visited') \<Rightarrow> visit_edges deps ds visiting' visited')"
  by pat_completeness auto

text \<open>A successful visit leaves the path as it found it; the termination proof needs this.\<close>

lemma visit_restores_path_dom:
  "visit_visit_edges_dom (Inl (deps, p, vg, vd)) \<Longrightarrow>
     visit deps p vg vd = Inr (vg', vd') \<Longrightarrow> vg' = vg"
  "visit_visit_edges_dom (Inr (deps, ds, vg, vd)) \<Longrightarrow>
     visit_edges deps ds vg vd = Inr (vg', vd') \<Longrightarrow> vg' = vg"
proof (induction arbitrary: vg' vd' and vg' vd' rule: visit_visit_edges.pinduct)
  case (1 deps p vg vd)
  note dom = "1.hyps" and prem = "1.prems"
  show ?case
  proof (cases "p \<in> vd \<or> p \<in> vg")
    case True
    with prem show ?thesis by (auto simp: visit.psimps [OF dom] split: if_splits)
  next
    case False
    then have new: "p \<notin> vd" "p \<notin> vg" by auto
    show ?thesis
    proof (cases "bt_get deps p")
      case None
      with prem new show ?thesis by (simp add: visit.psimps [OF dom])
    next
      case (Some edges)
      with prem new obtain vg1 vd1
        where run: "visit_edges deps edges (insert p vg) vd = Inr (vg1, vd1)"
          and eq: "vg' = vg1 - {p}"
        by (simp add: visit.psimps [OF dom] split: sum.splits prod.splits)
      have "vg1 = insert p vg"
        by (rule "1.IH" [OF new Some run])
      with eq new show ?thesis by simp
    qed
  qed
next
  case (2 deps vg vd)
  then show ?case by (simp add: visit_edges.psimps)
next
  case (3 deps d ds vg vd)
  note dom = "3.hyps" and prem = "3.prems"
  from prem obtain vg1 vd1 where d: "visit deps d vg vd = Inr (vg1, vd1)"
      and ds: "visit_edges deps ds vg1 vd1 = Inr (vg', vd')"
    by (simp add: visit_edges.psimps(2) [OF dom] split: sum.splits prod.splits)
  have "vg1 = vg" by (rule "3.IH"(1) [OF d])
  moreover have "vg' = vg1" by (rule "3.IH"(2) [OF d refl ds])
  ultimately show ?case by simp
qed

definition visit_rank :: "dep_map \<Rightarrow> PhaseId set \<Rightarrow> nat" where
  "visit_rank deps visiting = card (set (bt_keys deps) - visiting)"

lemma visit_rank_insert:
  assumes "bt_get deps p = Some edges" "p \<notin> visiting"
  shows "visit_rank deps (insert p visiting) < visit_rank deps visiting"
proof -
  have "p \<in> set (bt_keys deps)"
    using assms(1) by (auto simp: bt_get_def bt_keys_def dest: map_of_SomeD intro: rev_image_eqI)
  then show ?thesis
    using assms(2) unfolding visit_rank_def by (intro psubset_card_mono) auto
qed

termination visit
proof (relation "measures
    [\<lambda>a. case a of Inl (deps, p, vg, vd) \<Rightarrow> visit_rank deps vg
                 | Inr (deps, ds, vg, vd) \<Rightarrow> visit_rank deps vg,
     \<lambda>a. case a of Inl _ \<Rightarrow> 0 | Inr (deps, ds, vg, vd) \<Rightarrow> Suc (length ds)]", goal_cases)
  case 1
  show ?case by simp
next
  case (2 deps p visiting visited edges)
  then show ?case by (simp add: visit_rank_insert)
next
  case (3 deps d ds visiting visited)
  then show ?case by simp
next
  case (4 deps d ds visiting visited xa visiting' visited')
  then have "visiting' = visiting" by (auto dest: visit_restores_path_dom(1))
  then show ?case by simp
qed

declare visit.simps [simp del]

text \<open>How one visit of a new phase runs, for the proofs below.\<close>

lemma visit_old: "p \<in> vd \<Longrightarrow> visit deps p vg vd = Inr (vg, vd)"
  by (simp add: visit.simps)

lemma visit_on_path: "p \<notin> vd \<Longrightarrow> p \<in> vg \<Longrightarrow> visit deps p vg vd = Inl (DependencyCycle p)"
  by (simp add: visit.simps)

lemma visit_leaf:
  "p \<notin> vd \<Longrightarrow> p \<notin> vg \<Longrightarrow> bt_get deps p = None \<Longrightarrow>
     visit deps p vg vd = Inr (vg, insert p vd)"
  by (simp add: visit.simps)

lemma visit_inner:
  "p \<notin> vd \<Longrightarrow> p \<notin> vg \<Longrightarrow> bt_get deps p = Some edges \<Longrightarrow>
     visit deps p vg vd =
       map_sum id (\<lambda>(vg', vd'). (vg' - {p}, insert p vd'))
         (visit_edges deps edges (insert p vg) vd)"
  by (simp add: visit.simps split: sum.split)

lemma visit_edges_Cons:
  "visit_edges deps (d # ds) vg vd =
     and_then (visit deps d vg vd) (\<lambda>(vg', vd'). visit_edges deps ds vg' vd')"
  by (simp split: sum.split)

declare visit_edges.simps(2) [simp del]

lemma visit_restores_path_both:
  "visit deps p vg vd = Inr (vg', vd') \<Longrightarrow> vg' = vg"
  "visit_edges deps ds vg vd = Inr (vg', vd') \<Longrightarrow> vg' = vg"
proof (induction deps p vg vd and deps ds vg vd arbitrary: vg' vd' and vg' vd'
    rule: visit_visit_edges.induct)
  case (1 deps p vg vd)
  show ?case
  proof (cases "p \<in> vd \<or> p \<in> vg \<or> bt_get deps p = None")
    case True
    with "1.prems" show ?thesis
      by (cases "p \<in> vd"; cases "p \<in> vg") (auto simp: visit_old visit_on_path visit_leaf)
  next
    case False
    then obtain edges where new: "p \<notin> vd" "p \<notin> vg" "bt_get deps p = Some edges" by auto
    with "1.prems" obtain vg1 vd1
      where "visit_edges deps edges (insert p vg) vd = Inr (vg1, vd1)" "vg' = vg1 - {p}"
      by (cases "visit_edges deps edges (insert p vg) vd") (auto simp: visit_inner)
    with "1.IH" [OF new] new show ?thesis by blast
  qed
next
  case (3 deps d ds vg vd)
  from "3.prems" obtain vg1 vd1 where d: "visit deps d vg vd = Inr (vg1, vd1)"
      and ds: "visit_edges deps ds vg1 vd1 = Inr (vg', vd')"
    by (auto simp: visit_edges_Cons result_simps)
  show ?case using "3.IH"(1) [OF d] "3.IH"(2) [OF d refl ds] by simp
qed simp

lemmas visit_restores_path = visit_restores_path_both(1)

fun visit_keys :: "dep_map \<Rightarrow> PhaseId list \<Rightarrow> PhaseId set \<Rightarrow> PhaseId set
    \<Rightarrow> MissionStateBuildError + unit" where
  "visit_keys deps [] visiting visited = Inr ()"
| "visit_keys deps (k # ks) visiting visited =
     and_then (visit deps k visiting visited) (\<lambda>(visiting', visited').
       visit_keys deps ks visiting' visited')"

definition detect_cycle :: "PhaseDefinition list \<Rightarrow> MissionStateBuildError + unit" where
  "detect_cycle defs =
     (let dependencies = bt_collect (map (\<lambda>d. (def_id d, def_dependencies d)) defs)
      in visit_keys dependencies (bt_keys dependencies) {} {})"

section \<open>The graph the detector explores\<close>

text \<open>\<open>(p, d)\<close> is an edge when \<open>d\<close> is a dependency of \<open>p\<close>.\<close>

definition dep_edges :: "dep_map \<Rightarrow> (PhaseId \<times> PhaseId) set" where
  "dep_edges deps = {(p, d). \<exists>ds. bt_get deps p = Some ds \<and> d \<in> set ds}"

text \<open>The phases from which no infinite dependency chain starts.\<close>

inductive grounded :: "dep_map \<Rightarrow> PhaseId \<Rightarrow> bool" for deps where
  "(\<And>d. (p, d) \<in> dep_edges deps \<Longrightarrow> grounded deps d) \<Longrightarrow> grounded deps p"

lemma grounded_no_cycle: "grounded deps p \<Longrightarrow> (p, p) \<notin> (dep_edges deps)\<^sup>+"
proof (induction rule: grounded.induct)
  case (1 p)
  show ?case
  proof
    assume "(p, p) \<in> (dep_edges deps)\<^sup>+"
    then obtain d where d: "(p, d) \<in> dep_edges deps" "(d, p) \<in> (dep_edges deps)\<^sup>*"
      by (auto dest: tranclD)
    then have "(d, d) \<in> (dep_edges deps)\<^sup>+" by (auto intro: rtrancl_into_trancl1)
    with 1 d(1) show False by blast
  qed
qed

lemma visit_sound:
  "visit deps p vg vd = Inr (vg', vd') \<Longrightarrow> \<forall>v\<in>vd. grounded deps v \<Longrightarrow>
     vd \<subseteq> vd' \<and> p \<in> vd' \<and> (\<forall>v\<in>vd'. grounded deps v)"
  "visit_edges deps ds vg vd = Inr (vg', vd') \<Longrightarrow> \<forall>v\<in>vd. grounded deps v \<Longrightarrow>
     vd \<subseteq> vd' \<and> set ds \<subseteq> vd' \<and> (\<forall>v\<in>vd'. grounded deps v)"
proof (induction deps p vg vd and deps ds vg vd arbitrary: vg' vd' and vg' vd'
    rule: visit_visit_edges.induct)
  case (1 deps p vg vd)
  show ?case
  proof (cases "p \<in> vd \<or> p \<in> vg")
    case True
    with 1 show ?thesis by (cases "p \<in> vd") (auto simp: visit_old visit_on_path)
  next
    case False
    then have new: "p \<notin> vd" "p \<notin> vg" by auto
    show ?thesis
    proof (cases "bt_get deps p")
      case None
      have "grounded deps p"
        by (rule grounded.intros) (use None in \<open>simp add: dep_edges_def\<close>)
      with None new "1.prems" show ?thesis by (auto simp: visit_leaf)
    next
      case (Some edges)
      with new "1.prems"(1) obtain vg1 vd1
        where run: "visit_edges deps edges (insert p vg) vd = Inr (vg1, vd1)"
          and vd': "vd' = insert p vd1"
        by (cases "visit_edges deps edges (insert p vg) vd") (auto simp: visit_inner)
      have vd1: "vd \<subseteq> vd1" "set edges \<subseteq> vd1" "\<forall>v\<in>vd1. grounded deps v"
        using "1.IH" [OF new Some run "1.prems"(2)] by auto
      have "grounded deps p"
        by (rule grounded.intros) (use Some vd1 in \<open>auto simp: dep_edges_def\<close>)
      with vd1 vd' show ?thesis by auto
    qed
  qed
next
  case (2 deps vg vd)
  then show ?case by simp
next
  case (3 deps d ds vg vd)
  from "3.prems"(1) obtain vg1 vd1 where d: "visit deps d vg vd = Inr (vg1, vd1)"
      and ds: "visit_edges deps ds vg1 vd1 = Inr (vg', vd')"
    by (auto simp: visit_edges_Cons result_simps)
  have vd1: "vd \<subseteq> vd1" "d \<in> vd1" "\<forall>v\<in>vd1. grounded deps v"
    using "3.IH"(1) [OF d "3.prems"(2)] by auto
  show ?case
    using "3.IH"(2) [OF d refl ds vd1(3)] vd1 by auto
qed

lemma visit_complete:
  "visit deps p vg vd = Inl e \<Longrightarrow> \<forall>v\<in>vg. (v, p) \<in> (dep_edges deps)\<^sup>+ \<Longrightarrow>
     \<exists>q. e = DependencyCycle q \<and> (q, q) \<in> (dep_edges deps)\<^sup>+"
  "visit_edges deps ds vg vd = Inl e \<Longrightarrow> \<forall>v\<in>vg. \<forall>d\<in>set ds. (v, d) \<in> (dep_edges deps)\<^sup>+ \<Longrightarrow>
     \<exists>q. e = DependencyCycle q \<and> (q, q) \<in> (dep_edges deps)\<^sup>+"
proof (induction deps p vg vd and deps ds vg vd rule: visit_visit_edges.induct)
  case (1 deps p vg vd)
  show ?case
  proof (cases "p \<in> vd \<or> p \<in> vg")
    case True
    with 1 show ?thesis by (cases "p \<in> vd") (auto simp: visit_old visit_on_path)
  next
    case False
    then have new: "p \<notin> vd" "p \<notin> vg" by auto
    with "1.prems"(1) obtain edges where Some: "bt_get deps p = Some edges"
        and run: "visit_edges deps edges (insert p vg) vd = Inl e"
      by (cases "bt_get deps p"; cases "visit_edges deps (the (bt_get deps p)) (insert p vg) vd")
        (auto simp: visit_leaf visit_inner)
    have "\<forall>v\<in>insert p vg. \<forall>d\<in>set edges. (v, d) \<in> (dep_edges deps)\<^sup>+"
    proof (intro ballI)
      fix v d assume v: "v \<in> insert p vg" and "d \<in> set edges"
      then have edge: "(p, d) \<in> dep_edges deps" using Some by (auto simp: dep_edges_def)
      then show "(v, d) \<in> (dep_edges deps)\<^sup>+"
        using v "1.prems"(2) by (cases "v = p") (auto intro: trancl_into_trancl)
    qed
    then show ?thesis by (rule "1.IH" [OF new Some run])
  qed
next
  case (2 deps vg vd)
  then show ?case by simp
next
  case (3 deps d ds vg vd)
  have reach: "\<forall>v\<in>vg. (v, d) \<in> (dep_edges deps)\<^sup>+" using "3.prems"(2) by simp
  show ?case
  proof (cases "visit deps d vg vd")
    case (Inl e')
    with "3.prems"(1) have "visit deps d vg vd = Inl e" by (simp add: visit_edges_Cons)
    then show ?thesis using reach by (rule "3.IH"(1))
  next
    case (Inr r)
    obtain vg1 vd1 where r: "r = (vg1, vd1)" by (cases r)
    with Inr have path: "vg1 = vg" by (simp add: visit_restores_path)
    have "visit_edges deps ds vg1 vd1 = Inl e"
      using "3.prems"(1) Inr r by (simp add: visit_edges_Cons)
    then show ?thesis
      using "3.IH"(2) [OF Inr r [symmetric]] "3.prems"(2) path by simp
  qed
qed

lemma visit_keys_ok:
  "visit_keys deps ks {} vd = Inr () \<Longrightarrow> \<forall>v\<in>vd. grounded deps v \<Longrightarrow>
     \<forall>k\<in>set ks. grounded deps k"
proof (induction ks arbitrary: vd)
  case (Cons k ks)
  then obtain vg1 vd1 where k: "visit deps k {} vd = Inr (vg1, vd1)"
      and ks: "visit_keys deps ks vg1 vd1 = Inr ()"
    by (auto simp: result_simps)
  have "vg1 = {}" using visit_restores_path [OF k] .
  with ks Cons show ?case using visit_sound(1) [OF k] by auto
qed simp

lemma visit_keys_err:
  "visit_keys deps ks {} vd = Inl e \<Longrightarrow> \<exists>q. e = DependencyCycle q \<and> (q, q) \<in> (dep_edges deps)\<^sup>+"
proof (induction ks arbitrary: vd)
  case (Cons k ks)
  show ?case
  proof (cases "visit deps k {} vd")
    case (Inl e')
    with Cons.prems have "visit deps k {} vd = Inl e" by simp
    then show ?thesis using visit_complete(1) by fastforce
  next
    case (Inr r)
    obtain vg1 vd1 where r: "r = (vg1, vd1)" by (cases r)
    with Inr have "vg1 = {}" by (simp add: visit_restores_path)
    with Inr r Cons show ?thesis by auto
  qed
qed simp

lemma grounded_keys_acyclic:
  assumes "\<forall>k\<in>set (bt_keys deps). grounded deps k"
  shows "acyclic (dep_edges deps)"
proof (rule acyclicI, rule allI, rule notI)
  fix x assume cyc: "(x, x) \<in> (dep_edges deps)\<^sup>+"
  then obtain y where "(x, y) \<in> dep_edges deps" by (blast dest: tranclD)
  then have "x \<in> set (bt_keys deps)"
    by (auto simp: dep_edges_def bt_get_def bt_keys_def dest: map_of_SomeD intro: rev_image_eqI)
  with assms cyc show False using grounded_no_cycle by blast
qed

definition plan_edges :: "PhaseDefinition list \<Rightarrow> (PhaseId \<times> PhaseId) set" where
  "plan_edges defs = dep_edges (bt_collect (map (\<lambda>d. (def_id d, def_dependencies d)) defs))"

lemma detect_cycle_ok_iff: "detect_cycle defs = Inr () \<longleftrightarrow> acyclic (plan_edges defs)"
proof
  assume "detect_cycle defs = Inr ()"
  then show "acyclic (plan_edges defs)"
    unfolding detect_cycle_def plan_edges_def Let_def
    by (intro grounded_keys_acyclic visit_keys_ok) auto
next
  assume ac: "acyclic (plan_edges defs)"
  show "detect_cycle defs = Inr ()"
  proof (cases "detect_cycle defs")
    case (Inl e)
    then obtain q where "(q, q) \<in> (plan_edges defs)\<^sup>+"
      unfolding detect_cycle_def plan_edges_def Let_def using visit_keys_err by blast
    with ac show ?thesis by (simp add: acyclic_def)
  qed simp
qed

lemma detect_cycle_error:
  "detect_cycle defs = Inl e \<Longrightarrow> \<exists>q. e = DependencyCycle q \<and> (q, q) \<in> (plan_edges defs)\<^sup>+"
  unfolding detect_cycle_def plan_edges_def Let_def by (rule visit_keys_err)

lemma plan_edges_distinct:
  assumes "distinct (map def_id defs)"
  shows "(p, d) \<in> plan_edges defs \<longleftrightarrow>
    (\<exists>df\<in>set defs. def_id df = p \<and> d \<in> set (def_dependencies df))"
proof -
  have "bt_get (bt_collect (map (\<lambda>d. (def_id d, def_dependencies d)) defs)) p =
      map_of (map (\<lambda>d. (def_id d, def_dependencies d)) defs) p"
    using assms by (intro bt_collect_get_distinct) (simp add: comp_def)
  moreover have "map_of (map (\<lambda>d. (def_id d, def_dependencies d)) defs) p = Some ds \<longleftrightarrow>
      (p, ds) \<in> set (map (\<lambda>d. (def_id d, def_dependencies d)) defs)" for ds
    using assms by (intro map_of_eq_Some_iff) (simp add: comp_def)
  ultimately show ?thesis by (auto simp: plan_edges_def dep_edges_def)
qed

text \<open>
  C6. The cycle detector always terminates and is exact: it accepts a plan precisely when the
  dependency graph has no cycle, and the phase it blames lies on a cycle.
\<close>

theorem detect_cycle_exact:
  "(detect_cycle defs = Inr () \<longleftrightarrow> acyclic (plan_edges defs)) \<and>
   (\<forall>e. detect_cycle defs = Inl e \<longrightarrow>
      (\<exists>q. e = DependencyCycle q \<and> (q, q) \<in> (plan_edges defs)\<^sup>+))"
  using detect_cycle_ok_iff detect_cycle_error by blast

theorem detect_cycle_exact_witness:
  "\<exists>q. detect_cycle
     [\<lparr>def_id = Name ''a'', def_dependencies = [Name ''b'']\<rparr>,
      \<lparr>def_id = Name ''b'', def_dependencies = [Name ''a'']\<rparr>] = Inl (DependencyCycle q)"
proof -
  let ?defs = "[\<lparr>def_id = Name ''a'', def_dependencies = [Name ''b'']\<rparr>,
      \<lparr>def_id = Name ''b'', def_dependencies = [Name ''a'']\<rparr>]"
  have e: "(Name ''a'', Name ''b'') \<in> plan_edges ?defs" "(Name ''b'', Name ''a'') \<in> plan_edges ?defs"
    by (simp_all add: plan_edges_distinct)
  have "(Name ''a'', Name ''a'') \<in> (plan_edges ?defs)\<^sup>+"
    by (rule trancl_into_trancl [OF r_into_trancl [OF e(1)] e(2)])
  then have "\<not> acyclic (plan_edges ?defs)" by (auto simp: acyclic_def)
  then have "detect_cycle ?defs \<noteq> Inr ()" using detect_cycle_exact by blast
  then obtain e where e: "detect_cycle ?defs = Inl e" by (cases "detect_cycle ?defs") auto
  then show ?thesis using detect_cycle_exact [of ?defs] by metis
qed

end
