(* ===== verification/Reducer.thy ===== *)
theory Reducer
  imports Dependency_Graph
begin

text \<open>
  The mission lifecycle reducer (\<^verbatim>\<open>orchestrator-core/src/reducer.rs\<close>): the state of one
  mission and its phases, the construction of a validated initial state, and \<open>reduce\<close>, which
  applies one recorded event. \<open>serde_json::Value\<close> is only compared for equality here, so it is
  the type argument \<open>'v\<close> of the events.
\<close>

section \<open>Statuses and transitions\<close>

datatype MissionStatus = NotStarted | InProgress | Completed | Failed | Cancelled

definition mission_terminal :: "MissionStatus \<Rightarrow> bool" where
  "mission_terminal s \<longleftrightarrow>
     s = MissionStatus.Completed \<or> s = MissionStatus.Failed \<or> s = MissionStatus.Cancelled"

datatype PhaseStatus = Pending | Running | Completed | Failed | Skipped

definition phase_terminal :: "PhaseStatus \<Rightarrow> bool" where
  "phase_terminal s \<longleftrightarrow>
     s = PhaseStatus.Completed \<or> s = PhaseStatus.Failed \<or> s = PhaseStatus.Skipped"

record PhaseState =
  ph_id :: PhaseId
  ph_dependencies :: "PhaseId list"
  ph_status :: PhaseStatus
  ph_started_at :: "string option"
  ph_finished_at :: "string option"
  ph_error :: "string option"
  ph_skip_reason :: "string option"
  ph_retry_observations :: u64

datatype 'v ReducerTransition =
    MissionStarted
  | MissionCompleted
  | MissionFailed
  | MissionCancelled string
  | PhaseStarted
  | PhaseCompleted
  | PhaseFailed string
  | PhaseSkipped string
  | PhaseRetrying
  | Unknown string 'v

definition is_lifecycle :: "'v ReducerTransition \<Rightarrow> bool" where
  "is_lifecycle t = (case t of Unknown _ _ \<Rightarrow> False | _ \<Rightarrow> True)"

definition requires_phase :: "'v ReducerTransition \<Rightarrow> bool" where
  "requires_phase t = (case t of PhaseStarted \<Rightarrow> True | PhaseCompleted \<Rightarrow> True
     | PhaseFailed _ \<Rightarrow> True | PhaseSkipped _ \<Rightarrow> True | PhaseRetrying \<Rightarrow> True | _ \<Rightarrow> False)"

section \<open>Events and mission state\<close>

record 'v AppliedEvent =
  ap_sequence :: int
  ap_timestamp :: string
  ap_mission_id :: MissionId
  ap_phase_id :: "PhaseId option"
  ap_worker_id :: "string option"
  ap_data :: 'v
  ap_extra :: "(string, 'v) btree_map"
  ap_transition :: "'v ReducerTransition"

record 'v ReducerInput =
  in_event_id :: EventId
  in_sequence :: int
  in_timestamp :: string
  in_mission_id :: MissionId
  in_phase_id :: "PhaseId option"
  in_worker_id :: "string option"
  in_data :: 'v
  in_extra :: "(string, 'v) btree_map"
  in_transition :: "'v ReducerTransition"

definition fingerprint :: "'v ReducerInput \<Rightarrow> 'v AppliedEvent" where
  "fingerprint i =
     \<lparr>ap_sequence = in_sequence i, ap_timestamp = in_timestamp i,
      ap_mission_id = in_mission_id i, ap_phase_id = in_phase_id i,
      ap_worker_id = in_worker_id i, ap_data = in_data i, ap_extra = in_extra i,
      ap_transition = in_transition i\<rparr>"

record 'v MissionState =
  ms_mission_id :: MissionId
  ms_status :: MissionStatus
  ms_started_at :: "string option"
  ms_finished_at :: "string option"
  ms_phase_order :: "PhaseId list"
  ms_phases :: "(PhaseId, PhaseState) btree_map"
  ms_greatest_applied_sequence :: "int option"
  ms_applied_events :: "(EventId, 'v AppliedEvent) btree_map"
  ms_applied_sequences :: "(int, EventId) btree_map"

section \<open>Building the initial state\<close>

fun find_duplicate :: "PhaseDefinition list \<Rightarrow> PhaseId set \<Rightarrow> PhaseId option" where
  "find_duplicate [] seen = None"
| "find_duplicate (d # ds) seen =
     (if def_id d \<in> seen then Some (def_id d) else find_duplicate ds (insert (def_id d) seen))"

fun check_dependencies ::
    "PhaseId set \<Rightarrow> PhaseId \<Rightarrow> PhaseId list \<Rightarrow> PhaseId set \<Rightarrow> MissionStateBuildError + unit" where
  "check_dependencies known p [] seen = Inr ()"
| "check_dependencies known p (d # ds) seen =
     (if d \<notin> known then Inl (UnknownDependency p d)
      else if d \<in> seen then Inl (DuplicateDependency p d)
      else check_dependencies known p ds (insert d seen))"

definition initial_phase :: "PhaseDefinition \<Rightarrow> PhaseState" where
  "initial_phase d =
     \<lparr>ph_id = def_id d, ph_dependencies = def_dependencies d, ph_status = Pending,
      ph_started_at = None, ph_finished_at = None, ph_error = None, ph_skip_reason = None,
      ph_retry_observations = 0\<rparr>"

definition MissionState_new ::
    "MissionId \<Rightarrow> PhaseDefinition list \<Rightarrow> MissionStateBuildError + 'v MissionState" where
  "MissionState_new mid defs =
     (if defs = [] then Inl EmptyPlan
      else
        let known = set (map def_id defs) in
        if card known \<noteq> length defs
        then (case find_duplicate defs {} of
                Some p \<Rightarrow> Inl (DuplicatePhase p)
              | None \<Rightarrow> Inl EmptyPlan)
        else
          and_then (try_each (\<lambda>d. check_dependencies known (def_id d) (def_dependencies d) {}) defs)
            (\<lambda>_. and_then (detect_cycle defs) (\<lambda>_.
              Inr \<lparr>ms_mission_id = mid, ms_status = NotStarted, ms_started_at = None,
                   ms_finished_at = None, ms_phase_order = map def_id defs,
                   ms_phases = bt_collect (map (\<lambda>d. (def_id d, initial_phase d)) defs),
                   ms_greatest_applied_sequence = None, ms_applied_events = [],
                   ms_applied_sequences = []\<rparr>)))"

text \<open>The accessors clients use: one phase, and the phases in authored plan order.\<close>

definition ms_phase :: "'v MissionState \<Rightarrow> PhaseId \<Rightarrow> PhaseState option" where
  "ms_phase s p = bt_get (ms_phases s) p"

definition ms_phases_in_order :: "'v MissionState \<Rightarrow> PhaseState list" where
  "ms_phases_in_order s = List.map_filter (bt_get (ms_phases s)) (ms_phase_order s)"

definition ms_applied_event :: "'v MissionState \<Rightarrow> EventId \<Rightarrow> 'v AppliedEvent option" where
  "ms_applied_event s e = bt_get (ms_applied_events s) e"

section \<open>Applying one event\<close>

record 'v Reduction =
  rd_state :: "'v MissionState"
  rd_released_phases :: "PhaseId list"

datatype TransitionError =
    EventIdentityConflict EventId
  | SequenceConflict int EventId
  | OutOfOrder int int
  | MissionMismatch MissionId MissionId
  | AlreadyStarted
  | MissionTerminal MissionStatus
  | MissionNotInProgress MissionStatus
  | MissionPhasesIncomplete
  | MissionHasFailedPhase
  | MissingPhaseId
  | UnknownPhase PhaseId
  | PhaseAlreadyRunning PhaseId
  | PhaseNotRunning PhaseId PhaseStatus
  | PhaseTerminal PhaseId PhaseStatus
  | DependencyNotReady PhaseId PhaseId
  | DependencyFailed PhaseId PhaseId PhaseStatus
  | RetryCountOverflow PhaseId

definition require_in_progress :: "'v MissionState \<Rightarrow> TransitionError + unit" where
  "require_in_progress s =
     (if ms_status s = InProgress then Inr () else Inl (MissionNotInProgress (ms_status s)))"

definition required_phase_id :: "'v ReducerInput \<Rightarrow> TransitionError + PhaseId" where
  "required_phase_id i = ok_or (in_phase_id i) MissingPhaseId"

definition active :: "PhaseStatus \<Rightarrow> bool" where
  "active s \<longleftrightarrow> s = Pending \<or> s = Running"

definition mark_skipped :: "string \<Rightarrow> string \<Rightarrow> PhaseState \<Rightarrow> PhaseState" where
  "mark_skipped ts reason ph =
     ph\<lparr>ph_status := Skipped, ph_finished_at := Some ts, ph_skip_reason := Some reason\<rparr>"

definition skip_all_active :: "'v MissionState \<Rightarrow> string \<Rightarrow> string \<Rightarrow> 'v MissionState" where
  "skip_all_active s ts reason =
     s\<lparr>ms_phases :=
         bt_map_values (\<lambda>ph. if active (ph_status ph) then mark_skipped ts reason ph else ph)
           (ms_phases s)\<rparr>"

text \<open>
  One pass of \<open>skip_pending_dependents\<close> over the plan order, with the phases, the blocked set
  and the \<open>changed\<close> flag as its mutable locals, and the outer loop around it.
\<close>

definition should_skip :: "(PhaseId, PhaseState) btree_map \<Rightarrow> PhaseId set \<Rightarrow> PhaseId \<Rightarrow> bool" where
  "should_skip phases blocked p =
     (case bt_get phases p of
        None \<Rightarrow> False
      | Some ph \<Rightarrow> ph_status ph = Pending \<and> list_ex (\<lambda>d. d \<in> blocked) (ph_dependencies ph))"

fun skip_pass ::
    "string \<Rightarrow> string \<Rightarrow> PhaseId list \<Rightarrow> (PhaseId, PhaseState) btree_map \<Rightarrow> PhaseId set \<Rightarrow> bool
      \<Rightarrow> (PhaseId, PhaseState) btree_map \<times> PhaseId set \<times> bool" where
  "skip_pass ts reason [] phases blocked changed = (phases, blocked, changed)"
| "skip_pass ts reason (p # ps) phases blocked changed =
     (if should_skip phases blocked p
      then skip_pass ts reason ps (bt_modify p (mark_skipped ts reason) phases)
             (insert p blocked) (changed \<or> p \<notin> blocked)
      else skip_pass ts reason ps phases blocked changed)"

fun pending_count :: "(PhaseId, PhaseState) btree_map \<Rightarrow> nat" where
  "pending_count [] = 0"
| "pending_count ((k, ph) # phases) =
     (if ph_status ph = Pending then Suc (pending_count phases) else pending_count phases)"

lemma mark_skipped_status [simp]: "ph_status (mark_skipped ts r ph) = Skipped"
  by (simp add: mark_skipped_def)

lemma pending_count_modify_le:
  "pending_count (bt_modify p (mark_skipped ts r) phases) \<le> pending_count phases"
  by (induction phases rule: pending_count.induct) auto

lemma pending_count_modify_less:
  "bt_get phases p = Some ph \<Longrightarrow> ph_status ph = Pending \<Longrightarrow>
     pending_count (bt_modify p (mark_skipped ts r) phases) < pending_count phases"
proof (induction phases rule: pending_count.induct)
  case (2 k v phases)
  then show ?case
    using pending_count_modify_le [of p ts r phases]
    by (auto simp: bt_get_Cons split: if_splits)
qed simp

lemma skip_pass_pending_le:
  "skip_pass ts r ps phases blocked c = (phases', blocked', c') \<Longrightarrow>
     pending_count phases' \<le> pending_count phases"
proof (induction ps arbitrary: phases blocked c)
  case (Cons p ps)
  show ?case
  proof (cases "should_skip phases blocked p")
    case True
    with Cons.prems
    have "pending_count phases' \<le> pending_count (bt_modify p (mark_skipped ts r) phases)"
      by (intro Cons.IH) simp
    then show ?thesis using pending_count_modify_le order_trans by blast
  next
    case False
    with Cons show ?thesis by simp
  qed
qed simp

lemma skip_pass_pending_less:
  "skip_pass ts r ps phases blocked False = (phases', blocked', True) \<Longrightarrow>
     pending_count phases' < pending_count phases"
proof (induction ps arbitrary: phases blocked)
  case (Cons p ps)
  show ?case
  proof (cases "should_skip phases blocked p")
    case True
    then obtain ph where "bt_get phases p = Some ph" "ph_status ph = Pending"
      by (auto simp: should_skip_def split: option.splits)
    then have "pending_count (bt_modify p (mark_skipped ts r) phases) < pending_count phases"
      by (rule pending_count_modify_less)
    with Cons.prems True show ?thesis by (auto dest!: skip_pass_pending_le)
  next
    case False
    with Cons show ?thesis by simp
  qed
qed simp

function skip_loop ::
    "string \<Rightarrow> string \<Rightarrow> PhaseId list \<Rightarrow> (PhaseId, PhaseState) btree_map \<Rightarrow> PhaseId set
      \<Rightarrow> (PhaseId, PhaseState) btree_map" where
  "skip_loop ts reason order phases blocked =
     (case skip_pass ts reason order phases blocked False of
        (phases', blocked', changed) \<Rightarrow>
          if changed then skip_loop ts reason order phases' blocked' else phases')"
  by pat_completeness auto
termination
proof (relation "measure (\<lambda>(ts, r, order, phases, blocked). pending_count phases)", goal_cases)
  case 1
  show ?case by simp
next
  case (2 ts reason order phases blocked x phases' y blocked')
  then show ?case by (auto intro: skip_pass_pending_less [OF sym])
qed

declare skip_loop.simps [simp del]

definition skip_pending_dependents ::
    "'v MissionState \<Rightarrow> PhaseId \<Rightarrow> string \<Rightarrow> string \<Rightarrow> 'v MissionState" where
  "skip_pending_dependents s root ts reason =
     s\<lparr>ms_phases := skip_loop ts reason (ms_phase_order s) (ms_phases s) {root}\<rparr>"

definition complete_mission :: "'v MissionState \<Rightarrow> string \<Rightarrow> TransitionError + 'v MissionState" where
  "complete_mission s ts =
     and_then (require_in_progress s) (\<lambda>_.
       if list_ex (\<lambda>ph. ph_status ph = PhaseStatus.Failed) (bt_values (ms_phases s))
       then Inl MissionHasFailedPhase
       else if list_ex (\<lambda>ph. \<not> (ph_status ph = PhaseStatus.Completed \<or> ph_status ph = Skipped))
                 (bt_values (ms_phases s))
       then Inl MissionPhasesIncomplete
       else Inr (s\<lparr>ms_status := MissionStatus.Completed, ms_finished_at := Some ts\<rparr>))"

fun check_ready ::
    "'v MissionState \<Rightarrow> PhaseId \<Rightarrow> PhaseId list \<Rightarrow> TransitionError + unit" where
  "check_ready s p [] = Inr ()"
| "check_ready s p (d # ds) =
     and_then (ok_or (map_option ph_status (bt_get (ms_phases s) d)) (UnknownPhase d)) (\<lambda>st.
       case st of
         PhaseStatus.Completed \<Rightarrow> check_ready s p ds
       | PhaseStatus.Failed \<Rightarrow> Inl (DependencyFailed p d st)
       | Skipped \<Rightarrow> Inl (DependencyFailed p d st)
       | Pending \<Rightarrow> Inl (DependencyNotReady p d)
       | Running \<Rightarrow> Inl (DependencyNotReady p d))"

definition start_phase :: "'v MissionState \<Rightarrow> 'v ReducerInput \<Rightarrow> TransitionError + 'v MissionState" where
  "start_phase s i =
     and_then (require_in_progress s) (\<lambda>_.
     and_then (required_phase_id i) (\<lambda>p.
     and_then (ok_or (bt_get (ms_phases s) p) (UnknownPhase p)) (\<lambda>ph.
     and_then (case ph_status ph of
                 Pending \<Rightarrow> Inr ()
               | Running \<Rightarrow> Inl (PhaseAlreadyRunning p)
               | st \<Rightarrow> Inl (PhaseTerminal p st)) (\<lambda>_.
     and_then (check_ready s p (ph_dependencies ph)) (\<lambda>_.
       Inr (s\<lparr>ms_phases := bt_modify p
              (\<lambda>ph. ph\<lparr>ph_status := Running, ph_started_at := Some (in_timestamp i)\<rparr>)
              (ms_phases s)\<rparr>))))))"

definition finish_phase ::
    "'v MissionState \<Rightarrow> 'v ReducerInput \<Rightarrow> PhaseStatus \<Rightarrow> string option \<Rightarrow> string option
      \<Rightarrow> TransitionError + 'v MissionState" where
  "finish_phase s i status err skip =
     and_then (require_in_progress s) (\<lambda>_.
     and_then (required_phase_id i) (\<lambda>p.
     and_then (ok_or (bt_get (ms_phases s) p) (UnknownPhase p)) (\<lambda>ph.
     and_then (case ph_status ph of
                 Running \<Rightarrow> Inr ()
               | Pending \<Rightarrow> Inl (PhaseNotRunning p (ph_status ph))
               | terminal \<Rightarrow> Inl (PhaseTerminal p terminal)) (\<lambda>_.
       Inr (s\<lparr>ms_phases := bt_modify p
              (\<lambda>ph. ph\<lparr>ph_status := status, ph_finished_at := Some (in_timestamp i),
                        ph_error := err, ph_skip_reason := skip\<rparr>)
              (ms_phases s)\<rparr>)))))"

text \<open>The pending phases whose last unfinished dependency was the completed phase.\<close>

definition newly_released :: "'v MissionState \<Rightarrow> PhaseId \<Rightarrow> PhaseId list" where
  "newly_released s completed =
     filter (\<lambda>c. case bt_get (ms_phases s) c of
         None \<Rightarrow> False
       | Some ph \<Rightarrow> ph_status ph = Pending \<and> completed \<in> set (ph_dependencies ph)
           \<and> list_all (\<lambda>d. case bt_get (ms_phases s) d of
                 None \<Rightarrow> False
               | Some dep \<Rightarrow> ph_status dep = PhaseStatus.Completed) (ph_dependencies ph))
       (ms_phase_order s)"

definition complete_phase ::
    "'v MissionState \<Rightarrow> 'v ReducerInput \<Rightarrow> TransitionError + ('v MissionState \<times> PhaseId list)" where
  "complete_phase s i =
     and_then (finish_phase s i PhaseStatus.Completed None None) (\<lambda>s'.
     and_then (required_phase_id i) (\<lambda>completed.
       Inr (s', newly_released s' completed)))"

definition skip_phase ::
    "'v MissionState \<Rightarrow> 'v ReducerInput \<Rightarrow> string \<Rightarrow> TransitionError + 'v MissionState" where
  "skip_phase s i reason =
     and_then (required_phase_id i) (\<lambda>p.
     and_then (ok_or (bt_get (ms_phases s) p) (UnknownPhase p)) (\<lambda>ph.
       if phase_terminal (ph_status ph) then Inl (PhaseTerminal p (ph_status ph))
       else Inr (s\<lparr>ms_phases := bt_modify p (mark_skipped (in_timestamp i) reason) (ms_phases s)\<rparr>)))"

definition retry_phase :: "'v MissionState \<Rightarrow> 'v ReducerInput \<Rightarrow> TransitionError + 'v MissionState" where
  "retry_phase s i =
     and_then (require_in_progress s) (\<lambda>_.
     and_then (required_phase_id i) (\<lambda>p.
     and_then (ok_or (bt_get (ms_phases s) p) (UnknownPhase p)) (\<lambda>ph.
       if ph_status ph \<noteq> Running
       then (if phase_terminal (ph_status ph) then Inl (PhaseTerminal p (ph_status ph))
             else Inl (PhaseNotRunning p (ph_status ph)))
       else
         and_then (ok_or (checked_add (ph_retry_observations ph) 1) (RetryCountOverflow p)) (\<lambda>n.
           Inr (s\<lparr>ms_phases := bt_modify p (\<lambda>ph. ph\<lparr>ph_retry_observations := n\<rparr>) (ms_phases s)\<rparr>)))))"

definition apply_transition ::
    "'v MissionState \<Rightarrow> 'v ReducerInput \<Rightarrow> TransitionError + ('v MissionState \<times> PhaseId list)" where
  "apply_transition s i =
     (if mission_terminal (ms_status s) \<and> is_lifecycle (in_transition i)
      then Inl (MissionTerminal (ms_status s))
      else
        and_then
          (if requires_phase (in_transition i)
           then and_then (ok_or (in_phase_id i) MissingPhaseId) (\<lambda>p.
                  if bt_get (ms_phases s) p = None then Inl (UnknownPhase p) else Inr ())
           else Inr ())
          (\<lambda>_. case in_transition i of
             MissionStarted \<Rightarrow>
               if ms_status s \<noteq> NotStarted then Inl AlreadyStarted
               else Inr (s\<lparr>ms_status := InProgress, ms_started_at := Some (in_timestamp i)\<rparr>, [])
           | MissionCompleted \<Rightarrow>
               and_then (complete_mission s (in_timestamp i)) (\<lambda>s'. Inr (s', []))
           | MissionFailed \<Rightarrow>
               and_then (require_in_progress s) (\<lambda>_.
                 Inr (skip_all_active
                        (s\<lparr>ms_status := MissionStatus.Failed,
                           ms_finished_at := Some (in_timestamp i)\<rparr>)
                        (in_timestamp i) ''mission failed'', []))
           | MissionCancelled r \<Rightarrow>
               Inr (skip_all_active
                      (s\<lparr>ms_status := Cancelled, ms_finished_at := Some (in_timestamp i)\<rparr>)
                      (in_timestamp i) r, [])
           | PhaseStarted \<Rightarrow> and_then (start_phase s i) (\<lambda>s'. Inr (s', []))
           | PhaseCompleted \<Rightarrow> complete_phase s i
           | PhaseFailed err \<Rightarrow>
               and_then (finish_phase s i PhaseStatus.Failed (Some err) None) (\<lambda>s'.
               and_then (required_phase_id i) (\<lambda>p.
                 Inr (skip_pending_dependents s' p (in_timestamp i)
                        (''dependency '' @ as_str p @ '' failed''), [])))
           | PhaseSkipped r \<Rightarrow>
               and_then (skip_phase s i r) (\<lambda>s'.
               and_then (required_phase_id i) (\<lambda>p.
                 Inr (skip_pending_dependents s' p (in_timestamp i)
                        (''dependency '' @ as_str p @ '' skipped''), [])))
           | PhaseRetrying \<Rightarrow> and_then (retry_phase s i) (\<lambda>s'. Inr (s', []))
           | Unknown _ _ \<Rightarrow> Inr (s, [])))"

definition record_event :: "'v MissionState \<Rightarrow> 'v ReducerInput \<Rightarrow> 'v MissionState" where
  "record_event s i =
     s\<lparr>ms_greatest_applied_sequence := Some (in_sequence i),
       ms_applied_sequences := bt_insert (in_sequence i) (in_event_id i) (ms_applied_sequences s),
       ms_applied_events := bt_insert (in_event_id i) (fingerprint i) (ms_applied_events s)\<rparr>"

definition reduce :: "'v MissionState \<Rightarrow> 'v ReducerInput \<Rightarrow> TransitionError + 'v Reduction" where
  "reduce s i =
     (case bt_get (ms_applied_events s) (in_event_id i) of
        Some applied \<Rightarrow>
          if applied = fingerprint i
          then Inr \<lparr>rd_state = s, rd_released_phases = []\<rparr>
          else Inl (EventIdentityConflict (in_event_id i))
      | None \<Rightarrow>
          (case bt_get (ms_applied_sequences s) (in_sequence i) of
             Some existing \<Rightarrow> Inl (SequenceConflict (in_sequence i) existing)
           | None \<Rightarrow>
               and_then (case ms_greatest_applied_sequence s of
                           Some greatest \<Rightarrow>
                             if in_sequence i < greatest
                             then Inl (OutOfOrder (in_sequence i) greatest) else Inr ()
                         | None \<Rightarrow> Inr ()) (\<lambda>_.
                 if in_mission_id i \<noteq> ms_mission_id s
                 then Inl (MissionMismatch (ms_mission_id s) (in_mission_id i))
                 else
                   and_then (apply_transition s i) (\<lambda>(next, released).
                     Inr \<lparr>rd_state = record_event next i, rd_released_phases = released\<rparr>))))"

end
