(* ===== verification/Lifecycle_Spec.thy ===== *)
theory Lifecycle_Spec
  imports Reducer
begin

text \<open>
  What a mission's lifecycle promises, independent of how the reducer stores it: an abstract
  step relation on the mission status and the phase statuses over a fixed dependency graph, the
  invariant every step keeps, and progress. The reducer is proved to refine it in
  \<open>Reducer_Correct\<close>.
\<close>

section \<open>The abstract machine\<close>

type_synonym phase_map = "PhaseId \<Rightarrow> PhaseStatus option"
type_synonym dep_graph = "PhaseId \<Rightarrow> PhaseId set"

definition halt :: "phase_map \<Rightarrow> phase_map" where
  "halt \<sigma> = (\<lambda>p. case \<sigma> p of Some st \<Rightarrow> Some (if active st then Skipped else st) | None \<Rightarrow> None)"

text \<open>The pending phases that can no longer run once \<open>root\<close> has failed or been skipped.\<close>

inductive doomed :: "dep_graph \<Rightarrow> phase_map \<Rightarrow> PhaseId \<Rightarrow> PhaseId \<Rightarrow> bool"
  for D \<sigma> root where
  direct: "\<sigma> p = Some Pending \<Longrightarrow> root \<in> D p \<Longrightarrow> doomed D \<sigma> root p"
| transitive: "\<sigma> p = Some Pending \<Longrightarrow> d \<in> D p \<Longrightarrow> doomed D \<sigma> root d \<Longrightarrow> doomed D \<sigma> root p"

definition cascade :: "dep_graph \<Rightarrow> PhaseId \<Rightarrow> phase_map \<Rightarrow> phase_map" where
  "cascade D root \<sigma> = (\<lambda>p. if doomed D \<sigma> root p then Some Skipped else \<sigma> p)"

inductive life_step ::
    "dep_graph \<Rightarrow> MissionStatus \<times> phase_map \<Rightarrow> MissionStatus \<times> phase_map \<Rightarrow> bool"
  for D where
  observe: "life_step D a a"
| start_mission: "life_step D (NotStarted, \<sigma>) (InProgress, \<sigma>)"
| complete_mission: "(\<And>p st. \<sigma> p = Some st \<Longrightarrow> st = PhaseStatus.Completed \<or> st = Skipped) \<Longrightarrow>
     life_step D (InProgress, \<sigma>) (MissionStatus.Completed, \<sigma>)"
| fail_mission: "life_step D (InProgress, \<sigma>) (MissionStatus.Failed, halt \<sigma>)"
| cancel_mission: "\<not> mission_terminal m \<Longrightarrow> life_step D (m, \<sigma>) (Cancelled, halt \<sigma>)"
| start_phase: "\<sigma> p = Some Pending \<Longrightarrow> (\<And>d. d \<in> D p \<Longrightarrow> \<sigma> d = Some PhaseStatus.Completed) \<Longrightarrow>
     life_step D (InProgress, \<sigma>) (InProgress, \<sigma>(p \<mapsto> Running))"
| complete_phase: "\<sigma> p = Some Running \<Longrightarrow>
     life_step D (InProgress, \<sigma>) (InProgress, \<sigma>(p \<mapsto> PhaseStatus.Completed))"
| fail_phase: "\<sigma> p = Some Running \<Longrightarrow>
     life_step D (InProgress, \<sigma>) (InProgress, cascade D p (\<sigma>(p \<mapsto> PhaseStatus.Failed)))"
| skip_phase: "\<sigma> p = Some st \<Longrightarrow> active st \<Longrightarrow> \<not> mission_terminal m \<Longrightarrow>
     life_step D (m, \<sigma>) (m, cascade D p (\<sigma>(p \<mapsto> Skipped)))"

inductive_cases life_step_completedE: "life_step D (MissionStatus.Completed, \<sigma>) b"
inductive_cases life_step_pairE: "life_step D (m, \<sigma>) (m', \<sigma>')"
inductive_simps doomed_iff: "doomed D \<sigma> root p"

lemma doomed_pending: "doomed D \<sigma> root p \<Longrightarrow> \<sigma> p = Some Pending"
  by (induction rule: doomed.induct) auto

lemma halt_simps: "halt \<sigma> p = None \<longleftrightarrow> \<sigma> p = None"
  "halt \<sigma> p \<noteq> Some Pending" "halt \<sigma> p \<noteq> Some Running"
  "halt \<sigma> p = Some PhaseStatus.Completed \<longleftrightarrow> \<sigma> p = Some PhaseStatus.Completed"
  "halt \<sigma> p = Some PhaseStatus.Failed \<longleftrightarrow> \<sigma> p = Some PhaseStatus.Failed"
  by (auto simp: halt_def active_def split: option.splits if_splits)

section \<open>The lifecycle invariant\<close>

definition deps_completed :: "dep_graph \<Rightarrow> phase_map \<Rightarrow> bool" where
  "deps_completed D \<sigma> \<longleftrightarrow>
     (\<forall>p st. \<sigma> p = Some st \<longrightarrow>
        st = Running \<or> st = PhaseStatus.Completed \<or> st = PhaseStatus.Failed \<longrightarrow>
        (\<forall>d\<in>D p. \<sigma> d = Some PhaseStatus.Completed))"

definition no_dead_dependency :: "dep_graph \<Rightarrow> phase_map \<Rightarrow> bool" where
  "no_dead_dependency D \<sigma> \<longleftrightarrow>
     (\<forall>p. \<sigma> p = Some Pending \<longrightarrow>
        (\<forall>d\<in>D p. \<sigma> d \<noteq> Some PhaseStatus.Failed \<and> \<sigma> d \<noteq> Some Skipped))"

definition status_agrees :: "MissionStatus \<Rightarrow> phase_map \<Rightarrow> bool" where
  "status_agrees m \<sigma> \<longleftrightarrow>
     (m = NotStarted \<longrightarrow> (\<forall>p st. \<sigma> p = Some st \<longrightarrow> st = Pending \<or> st = Skipped)) \<and>
     (mission_terminal m \<longrightarrow> (\<forall>p st. \<sigma> p = Some st \<longrightarrow> phase_terminal st)) \<and>
     (m = MissionStatus.Completed \<longrightarrow> (\<forall>p. \<sigma> p \<noteq> Some PhaseStatus.Failed))"

definition life_inv :: "dep_graph \<Rightarrow> MissionStatus \<times> phase_map \<Rightarrow> bool" where
  "life_inv D a \<longleftrightarrow>
     deps_completed D (snd a) \<and> no_dead_dependency D (snd a) \<and> status_agrees (fst a) (snd a)"

lemma life_invI:
  "deps_completed D \<sigma> \<Longrightarrow> no_dead_dependency D \<sigma> \<Longrightarrow> status_agrees m \<sigma> \<Longrightarrow> life_inv D (m, \<sigma>)"
  by (simp add: life_inv_def)

lemma deps_completed_halt: "deps_completed D \<sigma> \<Longrightarrow> deps_completed D (halt \<sigma>)"
  unfolding deps_completed_def by (metis halt_simps)

lemma no_dead_dependency_halt: "no_dead_dependency D (halt \<sigma>)"
  by (simp add: no_dead_dependency_def halt_simps)

lemma halt_phase_terminal: "halt \<sigma> p = Some st \<Longrightarrow> phase_terminal st"
  using halt_simps(2,3) [of \<sigma> p] by (cases st) (auto simp: phase_terminal_def)

lemma cascade_not_doomed: "\<sigma> p \<noteq> Some Pending \<Longrightarrow> cascade D r \<sigma> p = \<sigma> p"
  using doomed_pending by (fastforce simp: cascade_def)

lemma cascade_cases:
  "cascade D r \<sigma> p = Some st \<Longrightarrow> st \<noteq> Skipped \<Longrightarrow> \<sigma> p = Some st \<and> \<not> doomed D \<sigma> r p"
  by (auto simp: cascade_def split: if_splits)

lemma cascade_keeps_completed:
  "\<sigma> d = Some PhaseStatus.Completed \<Longrightarrow> cascade D r \<sigma> d = Some PhaseStatus.Completed"
  by (simp add: cascade_not_doomed)

text \<open>Failing or skipping an active phase: its dependents are the only phases at risk.\<close>

lemma deps_completed_cascade:
  assumes inv: "deps_completed D \<sigma>"
    and p: "\<sigma> p = Some old" "active old"
    and new: "new = Skipped \<or> new = PhaseStatus.Failed \<and> old = Running"
  shows "deps_completed D (cascade D p (\<sigma>(p \<mapsto> new)))"
  unfolding deps_completed_def
proof (intro allI impI ballI)
  fix q st d
  let ?\<sigma> = "\<sigma>(p \<mapsto> new)"
  assume q: "cascade D p ?\<sigma> q = Some st"
    and st: "st = Running \<or> st = PhaseStatus.Completed \<or> st = PhaseStatus.Failed"
    and d: "d \<in> D q"
  have "\<exists>st'. \<sigma> q = Some st' \<and> (st' = Running \<or> st' = PhaseStatus.Completed \<or> st' = PhaseStatus.Failed)"
    using cascade_cases [OF q] st new p by (auto split: if_splits)
  then have dep: "\<sigma> d = Some PhaseStatus.Completed"
    using inv d unfolding deps_completed_def by blast
  then have "d \<noteq> p" using p by (auto simp: active_def)
  with dep show "cascade D p ?\<sigma> d = Some PhaseStatus.Completed"
    by (simp add: cascade_keeps_completed)
qed

lemma no_dead_dependency_cascade:
  assumes inv: "no_dead_dependency D \<sigma>"
    and new: "new \<noteq> Pending"
  shows "no_dead_dependency D (cascade D p (\<sigma>(p \<mapsto> new)))"
  unfolding no_dead_dependency_def
proof (intro allI impI ballI)
  fix q d
  let ?\<sigma> = "\<sigma>(p \<mapsto> new)"
  assume q: "cascade D p ?\<sigma> q = Some Pending" and d: "d \<in> D q"
  have pend: "?\<sigma> q = Some Pending" and safe: "\<not> doomed D ?\<sigma> p q"
    using cascade_cases [OF q] by auto
  have "q \<noteq> p" using pend new by auto
  with pend have "\<sigma> q = Some Pending" by simp
  have "d \<noteq> p" using safe pend d by (auto intro: doomed.direct)
  moreover have "\<not> doomed D ?\<sigma> p d" using safe pend d by (auto intro: doomed.transitive)
  ultimately show "cascade D p ?\<sigma> d \<noteq> Some PhaseStatus.Failed \<and> cascade D p ?\<sigma> d \<noteq> Some Skipped"
    using inv \<open>\<sigma> q = Some Pending\<close> d by (auto simp: cascade_def no_dead_dependency_def)
qed

lemma status_agrees_cascade:
  assumes "status_agrees m \<sigma>" "\<not> mission_terminal m"
    and "new = Skipped \<or> m = InProgress"
  shows "status_agrees m (cascade D p (\<sigma>(p \<mapsto> new)))"
  using assms by (auto simp: status_agrees_def cascade_def mission_terminal_def)

lemma deps_completed_step:
  assumes "deps_completed D \<sigma>" "\<sigma> p = Some old" "active old"
    and "new = Running \<and> (\<forall>d\<in>D p. \<sigma> d = Some PhaseStatus.Completed)
      \<or> new = PhaseStatus.Completed \<and> old = Running"
  shows "deps_completed D (\<sigma>(p \<mapsto> new))"
  unfolding deps_completed_def
proof (intro allI impI ballI)
  fix q st d
  assume q: "(\<sigma>(p \<mapsto> new)) q = Some st"
    and st: "st = Running \<or> st = PhaseStatus.Completed \<or> st = PhaseStatus.Failed"
    and d: "d \<in> D q"
  have dep: "\<sigma> d = Some PhaseStatus.Completed"
  proof (cases "q = p")
    case True
    from assms(4) show ?thesis
    proof
      assume "new = Running \<and> (\<forall>d\<in>D p. \<sigma> d = Some PhaseStatus.Completed)"
      with d True show ?thesis by blast
    next
      assume "new = PhaseStatus.Completed \<and> old = Running"
      with assms(1,2) d True show ?thesis unfolding deps_completed_def by blast
    qed
  next
    case False
    with q have "\<sigma> q = Some st" by simp
    with assms(1) st d show ?thesis unfolding deps_completed_def by blast
  qed
  with assms(2,3) have "d \<noteq> p" by (auto simp: active_def)
  with dep show "(\<sigma>(p \<mapsto> new)) d = Some PhaseStatus.Completed" by simp
qed

lemma life_step_inv: "life_step D a b \<Longrightarrow> life_inv D a \<Longrightarrow> life_inv D b"
proof (induction rule: life_step.induct)
  case (start_mission \<sigma>)
  then show ?case by (auto simp: life_inv_def status_agrees_def mission_terminal_def)
next
  case (complete_mission \<sigma>)
  then show ?case
    by (auto simp: life_inv_def status_agrees_def phase_terminal_def)
next
  case (fail_mission \<sigma>)
  then show ?case
    by (auto simp: life_inv_def deps_completed_halt no_dead_dependency_halt status_agrees_def
        halt_phase_terminal mission_terminal_def)
next
  case (cancel_mission m \<sigma>)
  then show ?case
    by (auto simp: life_inv_def deps_completed_halt no_dead_dependency_halt status_agrees_def
        halt_phase_terminal mission_terminal_def)
next
  case (start_phase \<sigma> p)
  then show ?case
    by (auto simp: life_inv_def status_agrees_def no_dead_dependency_def mission_terminal_def
        active_def intro!: deps_completed_step)
next
  case (complete_phase \<sigma> p)
  then show ?case
    by (auto simp: life_inv_def status_agrees_def no_dead_dependency_def mission_terminal_def
        active_def intro!: deps_completed_step)
next
  case (fail_phase \<sigma> p)
  then show ?case
    by (auto simp: life_inv_def active_def mission_terminal_def intro: deps_completed_cascade
        no_dead_dependency_cascade status_agrees_cascade)
next
  case (skip_phase \<sigma> p st m)
  then show ?case
    by (auto simp: life_inv_def intro: deps_completed_cascade
        no_dead_dependency_cascade status_agrees_cascade)
qed simp

section \<open>Monotonicity and progress\<close>

text \<open>Terminal statuses are final, one step at a time.\<close>

lemma life_step_phase_final:
  "life_step D a b \<Longrightarrow> snd a p = Some st \<Longrightarrow> phase_terminal st \<Longrightarrow> snd b p = Some st"
  by (induction rule: life_step.induct)
    (auto simp: halt_def active_def phase_terminal_def cascade_not_doomed)

lemma life_step_mission_final:
  "life_step D a b \<Longrightarrow> mission_terminal (fst a) \<Longrightarrow> life_inv D a \<Longrightarrow> b = a"
  by (induction rule: life_step.induct) (auto simp: mission_terminal_def)

text \<open>
  Progress: over a finite acyclic graph, a state with a pending phase and no running phase has
  a pending phase whose dependencies are all completed.
\<close>

lemma some_phase_ready:
  assumes inv: "life_inv D (m, \<sigma>)"
    and fin: "finite {p. \<sigma> p \<noteq> None}"
    and known: "\<And>p d. \<sigma> p \<noteq> None \<Longrightarrow> d \<in> D p \<Longrightarrow> \<sigma> d \<noteq> None"
    and ac: "acyclic {(p, d). \<sigma> p \<noteq> None \<and> d \<in> D p}"
    and pend: "\<sigma> q = Some Pending"
    and idle: "\<And>p. \<sigma> p \<noteq> Some Running"
  shows "\<exists>p. \<sigma> p = Some Pending \<and> (\<forall>d\<in>D p. \<sigma> d = Some PhaseStatus.Completed)"
proof -
  let ?E = "{(p, d). \<sigma> p \<noteq> None \<and> d \<in> D p}"
  let ?P = "{p. \<sigma> p = Some Pending}"
  have "?E \<subseteq> {p. \<sigma> p \<noteq> None} \<times> {p. \<sigma> p \<noteq> None}" using known by auto
  then have "finite ?E" by (rule finite_subset) (use fin in simp)
  then have "wf (?E\<inverse>)" using ac by (simp add: finite_acyclic_wf_converse)
  then obtain p where p: "p \<in> ?P" and least: "\<And>d. (d, p) \<in> ?E\<inverse> \<Longrightarrow> d \<notin> ?P"
    using pend by (auto elim: wfE_min [of _ q ?P])
  have "\<sigma> d = Some PhaseStatus.Completed" if d: "d \<in> D p" for d
  proof -
    have "\<sigma> d \<noteq> None" using known p d by auto
    moreover have "\<sigma> d \<noteq> Some Pending" using least p d by auto
    moreover have "\<sigma> d \<noteq> Some PhaseStatus.Failed \<and> \<sigma> d \<noteq> Some Skipped"
      using inv p d by (auto simp: life_inv_def no_dead_dependency_def)
    ultimately show ?thesis using idle [of d] by (cases "\<sigma> d") (auto intro: PhaseStatus.exhaust)
  qed
  with p show ?thesis by auto
qed

text \<open>
  The fixpoint loop of \<open>skip_pending_dependents\<close>: it stops (its definition carries the
  termination proof) and skips exactly the pending phases the abstract machine calls doomed,
  leaving every other phase as it was.
\<close>

definition st_of :: "(PhaseId, PhaseState) btree_map \<Rightarrow> phase_map" where
  "st_of phases p = map_option ph_status (bt_get phases p)"

definition dep_of :: "(PhaseId, PhaseState) btree_map \<Rightarrow> dep_graph" where
  "dep_of phases p = (case bt_get phases p of None \<Rightarrow> {} | Some ph \<Rightarrow> set (ph_dependencies ph))"

definition skip_inv ::
    "(PhaseId, PhaseState) btree_map \<Rightarrow> PhaseId \<Rightarrow> string \<Rightarrow> string
      \<Rightarrow> (PhaseId, PhaseState) btree_map \<Rightarrow> PhaseId set \<Rightarrow> bool" where
  "skip_inv phases0 root ts r phases blocked \<longleftrightarrow>
     root \<in> blocked \<and>
     (\<forall>q\<in>blocked. q \<noteq> root \<longrightarrow> doomed (dep_of phases0) (st_of phases0) root q) \<and>
     (\<forall>q. bt_get phases q =
        (if q \<in> blocked \<and> q \<noteq> root then map_option (mark_skipped ts r) (bt_get phases0 q)
         else bt_get phases0 q)) \<and>
     map fst phases = map fst phases0"

lemma skip_inv_start: "skip_inv phases root ts r phases {root}"
  by (simp add: skip_inv_def)

lemma skip_inv_get:
  "skip_inv phases0 root ts r phases blocked \<Longrightarrow> q \<notin> blocked \<or> q = root \<Longrightarrow>
     bt_get phases q = bt_get phases0 q"
  by (auto simp: skip_inv_def)

lemma should_skip_inv:
  assumes inv: "skip_inv phases0 root ts r phases blocked"
    and root: "st_of phases0 root \<noteq> Some Pending"
    and skip: "should_skip phases blocked p"
  shows "p \<notin> blocked" "p \<noteq> root" "doomed (dep_of phases0) (st_of phases0) root p"
proof -
  obtain ph where ph: "bt_get phases p = Some ph" "ph_status ph = Pending"
      and dep: "\<exists>d\<in>set (ph_dependencies ph). d \<in> blocked"
    using skip by (auto simp: should_skip_def list_ex_iff split: option.splits)
  have p: "p \<notin> blocked \<or> p = root"
    using inv ph by (auto simp: skip_inv_def split: if_splits)
  then have ph0: "bt_get phases0 p = Some ph" using skip_inv_get [OF inv] ph by simp
  then have pend: "st_of phases0 p = Some Pending" using ph by (simp add: st_of_def)
  with root show root: "p \<noteq> root" by auto
  with p show "p \<notin> blocked" by simp
  from dep obtain d where d: "d \<in> dep_of phases0 p" "d \<in> blocked"
    using ph0 by (auto simp: dep_of_def)
  show "doomed (dep_of phases0) (st_of phases0) root p"
    using inv d pend by (cases "d = root") (auto simp: skip_inv_def intro: doomed.intros)
qed

lemma skip_inv_step:
  assumes inv: "skip_inv phases0 root ts r phases blocked"
    and root: "st_of phases0 root \<noteq> Some Pending"
    and skip: "should_skip phases blocked p"
  shows "skip_inv phases0 root ts r (bt_modify p (mark_skipped ts r) phases) (insert p blocked)"
  using inv should_skip_inv [OF assms] by (auto simp: skip_inv_def)

lemma skip_pass_inv:
  assumes "st_of phases0 root \<noteq> Some Pending"
    and "skip_inv phases0 root ts r phases blocked"
    and "skip_pass ts r ps phases blocked c = (phases', blocked', c')"
  shows "skip_inv phases0 root ts r phases' blocked' \<and>
    (\<not> c' \<longrightarrow> \<not> c \<and> phases' = phases \<and> blocked' = blocked
       \<and> (\<forall>p\<in>set ps. \<not> should_skip phases blocked p))"
  using assms(2,3)
proof (induction ps arbitrary: phases blocked c)
  case (Cons p ps)
  show ?case
  proof (cases "should_skip phases blocked p")
    case True
    have new: "p \<notin> blocked" by (rule should_skip_inv [OF Cons.prems(1) assms(1) True])
    have "skip_inv phases0 root ts r (bt_modify p (mark_skipped ts r) phases) (insert p blocked)"
      by (rule skip_inv_step [OF Cons.prems(1) assms(1) True])
    from Cons.IH [OF this, of True] Cons.prems(2) True new show ?thesis by simp
  next
    case False
    with Cons.IH [OF Cons.prems(1), of c] Cons.prems(2) show ?thesis by simp
  qed
qed simp

lemma skip_loop_inv:
  "skip_inv phases0 root ts r phases blocked \<Longrightarrow> st_of phases0 root \<noteq> Some Pending \<Longrightarrow>
     \<exists>blocked'. skip_inv phases0 root ts r (skip_loop ts r order phases blocked) blocked' \<and>
       (\<forall>p\<in>set order. \<not> should_skip (skip_loop ts r order phases blocked) blocked' p)"
proof (induction ts r order phases blocked rule: skip_loop.induct)
  case (1 ts r order phases blocked)
  obtain phases' blocked' c' where
    pass: "skip_pass ts r order phases blocked False = (phases', blocked', c')"
    by (cases "skip_pass ts r order phases blocked False") auto
  note step = skip_pass_inv [OF "1.prems"(2,1) pass]
  show ?case
  proof (cases c')
    case True
    then have "skip_loop ts r order phases blocked = skip_loop ts r order phases' blocked'"
      by (simp add: skip_loop.simps [of ts r order phases] pass)
    then show ?thesis using "1.IH" [OF pass [symmetric] refl True] step "1.prems"(2) by simp
  next
    case False
    then have "skip_loop ts r order phases blocked = phases'"
      by (simp add: skip_loop.simps [of ts r order phases] pass)
    then show ?thesis using step False by auto
  qed
qed

lemma skip_loop_get:
  assumes root: "st_of phases root \<noteq> Some Pending"
    and order: "set (map fst phases) \<subseteq> set order"
  shows "bt_get (skip_loop ts r order phases {root}) q =
     (if doomed (dep_of phases) (st_of phases) root q
      then map_option (mark_skipped ts r) (bt_get phases q) else bt_get phases q)"
    and "map fst (skip_loop ts r order phases {root}) = map fst phases"
proof -
  let ?res = "skip_loop ts r order phases {root}"
  obtain blocked where inv: "skip_inv phases root ts r ?res blocked"
      and closed: "\<forall>p\<in>set order. \<not> should_skip ?res blocked p"
    using skip_loop_inv [OF skip_inv_start root] by blast
  have absorb: "q \<in> blocked"
    if dep: "st_of phases q = Some Pending" "d \<in> dep_of phases q" "d \<in> blocked" for q d
  proof (rule ccontr)
    assume q: "q \<notin> blocked"
    obtain ph where ph: "bt_get phases q = Some ph" using dep(1) by (auto simp: st_of_def)
    have "q \<in> set order"
      by (rule subsetD [OF order bt_get_key [OF ph]])
    moreover have "should_skip ?res blocked q"
      using dep ph q skip_inv_get [OF inv]
      by (auto simp: should_skip_def st_of_def dep_of_def list_ex_iff)
    ultimately show False using closed by blast
  qed
  have root_in: "root \<in> blocked" using inv by (simp add: skip_inv_def)
  have below: "q \<in> blocked" if "doomed (dep_of phases) (st_of phases) root q"
    using that by (induction rule: doomed.induct) (auto intro: absorb root_in)
  have above: "doomed (dep_of phases) (st_of phases) root q" if "q \<in> blocked" "q \<noteq> root"
    using inv that by (simp add: skip_inv_def)
  have "q \<noteq> root" if "doomed (dep_of phases) (st_of phases) root q"
    using doomed_pending [OF that] root by blast
  with below above
  have same: "q \<in> blocked \<and> q \<noteq> root \<longleftrightarrow> doomed (dep_of phases) (st_of phases) root q"
    by blast
  have "bt_get ?res q =
     (if q \<in> blocked \<and> q \<noteq> root then map_option (mark_skipped ts r) (bt_get phases q)
      else bt_get phases q)"
    using inv unfolding skip_inv_def by blast
  then show "bt_get ?res q =
     (if doomed (dep_of phases) (st_of phases) root q
      then map_option (mark_skipped ts r) (bt_get phases q) else bt_get phases q)"
    by (simp only: same)
  show "map fst ?res = map fst phases" using inv by (simp add: skip_inv_def)
qed

lemma skip_loop_status:
  assumes "st_of phases root \<noteq> Some Pending" "set (map fst phases) \<subseteq> set order"
  shows "st_of (skip_loop ts r order phases {root}) = cascade (dep_of phases) root (st_of phases)"
proof
  fix q
  show "st_of (skip_loop ts r order phases {root}) q = cascade (dep_of phases) root (st_of phases) q"
    using doomed_pending [of "dep_of phases" "st_of phases" root q]
    by (auto simp: st_of_def cascade_def skip_loop_get(1) [OF assms])
qed

end
