(* ===== verification/Machine.thy ===== *)
theory Machine
  imports Prelude
begin

text \<open>
  The contract of a component that consumes a stream of inputs and may refuse one: a fallible
  step function with an invariant, and, where the component has one, an order its states only
  climb. The program's folds over a stream (\<open>try_fold\<close> of the step) inherit both.
\<close>

locale fallible_machine =
  fixes step :: "'s \<Rightarrow> 'i \<Rightarrow> 'e + 's"
    and inv :: "'s \<Rightarrow> bool"
  assumes step_inv: "inv s \<Longrightarrow> step s i = Inr s' \<Longrightarrow> inv s'"
begin

lemma run_inv: "inv s \<Longrightarrow> try_fold step s is = Inr s' \<Longrightarrow> inv s'"
  by (induction "is" arbitrary: s) (auto simp: result_simps dest: step_inv)

lemma run_split:
  assumes "inv s" "try_fold step s (is @ js) = Inr s'"
  obtains t where "try_fold step s is = Inr t" "inv t" "try_fold step t js = Inr s'"
  using assms run_inv by (auto simp: try_fold_append result_simps)

end

locale climbing_machine = fallible_machine step inv
  for step :: "'s \<Rightarrow> 'i \<Rightarrow> 'e + 's" and inv :: "'s \<Rightarrow> bool" +
  fixes below :: "'s \<Rightarrow> 's \<Rightarrow> bool"
  assumes below_refl: "below s s"
    and below_trans: "below s t \<Longrightarrow> below t u \<Longrightarrow> below s u"
    and step_below: "inv s \<Longrightarrow> step s i = Inr s' \<Longrightarrow> below s s'"
begin

lemma run_below: "inv s \<Longrightarrow> try_fold step s is = Inr s' \<Longrightarrow> below s s'"
proof (induction "is" arbitrary: s)
  case Nil
  then show ?case by (simp add: below_refl)
next
  case (Cons i "is")
  then obtain t where t: "step s i = Inr t" "try_fold step t is = Inr s'"
    by (auto simp: result_simps)
  then have "inv t" using Cons.prems(1) step_inv by blast
  then have "below t s'" using Cons.IH t(2) by blast
  then show ?case using step_below [OF Cons.prems(1) t(1)] below_trans by blast
qed

end

end
