(* ===== verification/Reducer_Correct.thy ===== *)
theory Reducer_Correct
  imports Lifecycle_Spec Machine
begin

text \<open>
  The reducer keeps its invariant and refines the abstract lifecycle: every successful
  \<open>reduce\<close> is one abstract step (or none, for a replayed or purely observational event), the
  event ledger stays strictly ordered and consistent, and replaying a log is idempotent.
\<close>

named_theorems op_simps \<open>when each operation of the reducer succeeds, and with what state\<close>

section \<open>Views of a mission state\<close>

definition status_of :: "'v MissionState \<Rightarrow> phase_map" where
  "status_of s = st_of (ms_phases s)"

definition deps_of :: "'v MissionState \<Rightarrow> dep_graph" where
  "deps_of s = dep_of (ms_phases s)"

definition abs_life :: "'v MissionState \<Rightarrow> MissionStatus \<times> phase_map" where
  "abs_life s = (ms_status s, status_of s)"

definition plan_ok :: "'v MissionState \<Rightarrow> bool" where
  "plan_ok s \<longleftrightarrow>
     bt_wf (ms_phases s) \<and> distinct (ms_phase_order s) \<and> ms_phase_order s \<noteq> [] \<and>
     set (ms_phase_order s) = set (map fst (ms_phases s)) \<and>
     (\<forall>p ph. bt_get (ms_phases s) p = Some ph \<longrightarrow> ph_id ph = p \<and> distinct (ph_dependencies ph)) \<and>
     (\<forall>p. deps_of s p \<subseteq> set (ms_phase_order s)) \<and>
     acyclic {(p, d). d \<in> deps_of s p}"

definition plan_view :: "'v MissionState \<Rightarrow> PhaseId \<Rightarrow> (PhaseId \<times> PhaseId list) option" where
  "plan_view s p = map_option (\<lambda>ph. (ph_id ph, ph_dependencies ph)) (bt_get (ms_phases s) p)"

definition same_plan :: "'v MissionState \<Rightarrow> 'v MissionState \<Rightarrow> bool" where
  "same_plan s s' \<longleftrightarrow>
     ms_mission_id s' = ms_mission_id s \<and> ms_phase_order s' = ms_phase_order s \<and>
     map fst (ms_phases s') = map fst (ms_phases s) \<and> plan_view s' = plan_view s"

definition same_ledger :: "'v MissionState \<Rightarrow> 'v MissionState \<Rightarrow> bool" where
  "same_ledger s s' \<longleftrightarrow>
     ms_greatest_applied_sequence s' = ms_greatest_applied_sequence s \<and>
     ms_applied_events s' = ms_applied_events s \<and>
     ms_applied_sequences s' = ms_applied_sequences s"

definition ledger_ok :: "'v MissionState \<Rightarrow> bool" where
  "ledger_ok s \<longleftrightarrow>
     bt_wf (ms_applied_events s) \<and> bt_wf (ms_applied_sequences s) \<and>
     (\<forall>e ev. bt_get (ms_applied_events s) e = Some ev \<longrightarrow>
        bt_get (ms_applied_sequences s) (ap_sequence ev) = Some e \<and>
        ap_mission_id ev = ms_mission_id s) \<and>
     (\<forall>n e. bt_get (ms_applied_sequences s) n = Some e \<longrightarrow>
        (\<exists>ev. bt_get (ms_applied_events s) e = Some ev \<and> ap_sequence ev = n) \<and>
        (\<exists>g. ms_greatest_applied_sequence s = Some g \<and> n \<le> g)) \<and>
     (\<forall>g. ms_greatest_applied_sequence s = Some g \<longrightarrow>
        bt_get (ms_applied_sequences s) g \<noteq> None)"

definition mission_inv :: "'v MissionState \<Rightarrow> bool" where
  "mission_inv s \<longleftrightarrow> plan_ok s \<and> ledger_ok s \<and> life_inv (deps_of s) (abs_life s)"

lemma deps_of_view: "deps_of s p = (case plan_view s p of None \<Rightarrow> {} | Some (_, ds) \<Rightarrow> set ds)"
  by (simp add: deps_of_def dep_of_def plan_view_def split: option.split)

lemma same_plan_deps: "same_plan s s' \<Longrightarrow> deps_of s' = deps_of s"
  by (rule ext) (simp add: deps_of_view same_plan_def)

lemma bt_wf_keys: "map fst m' = map fst m \<Longrightarrow> bt_wf m' = bt_wf m"
  by (simp add: bt_wf_def)

lemma plan_ok_phase_view:
  "(\<forall>p ph. bt_get (ms_phases s) p = Some ph \<longrightarrow> ph_id ph = p \<and> distinct (ph_dependencies ph))
    \<longleftrightarrow> (\<forall>p q ds. plan_view s p = Some (q, ds) \<longrightarrow> q = p \<and> distinct ds)"
proof -
  have "(\<forall>ph. bt_get (ms_phases s) p = Some ph \<longrightarrow> ph_id ph = p \<and> distinct (ph_dependencies ph))
    \<longleftrightarrow> (\<forall>q ds. plan_view s p = Some (q, ds) \<longrightarrow> q = p \<and> distinct ds)" for p
    by (cases "bt_get (ms_phases s) p") (auto simp: plan_view_def)
  then show ?thesis by simp
qed

lemma same_plan_ok: "same_plan s s' \<Longrightarrow> plan_ok s \<Longrightarrow> plan_ok s'"
proof -
  assume same: "same_plan s s'" and ok: "plan_ok s"
  have deps: "deps_of s' = deps_of s" by (rule same_plan_deps [OF same])
  have keys: "map fst (ms_phases s') = map fst (ms_phases s)"
    and order: "ms_phase_order s' = ms_phase_order s" and view: "plan_view s' = plan_view s"
    using same by (simp_all add: same_plan_def)
  have wf: "bt_wf (ms_phases s') = bt_wf (ms_phases s)" by (rule bt_wf_keys [OF keys])
  show "plan_ok s'"
    using ok unfolding plan_ok_def plan_ok_phase_view deps keys order view wf .
qed

lemma status_of_get: "status_of s p = map_option ph_status (bt_get (ms_phases s) p)"
  by (simp add: status_of_def st_of_def)

lemma status_of_some: "status_of s p = Some st \<longleftrightarrow> (\<exists>ph. bt_get (ms_phases s) p = Some ph \<and> ph_status ph = st)"
  by (auto simp: status_of_get)

section \<open>When each operation succeeds\<close>

lemma require_in_progress_Inr [op_simps]:
  "require_in_progress s = Inr u \<longleftrightarrow> ms_status s = InProgress"
  by (simp add: require_in_progress_def)

lemma required_phase_id_Inr [op_simps]: "required_phase_id i = Inr p \<longleftrightarrow> in_phase_id i = Some p"
  by (simp add: required_phase_id_def result_simps)

lemma phase_case_Inr [op_simps]:
  "(case st of Pending \<Rightarrow> Inr x | Running \<Rightarrow> Inl a | PhaseStatus.Completed \<Rightarrow> Inl b
      | PhaseStatus.Failed \<Rightarrow> Inl c | Skipped \<Rightarrow> Inl d) = Inr u \<longleftrightarrow> st = Pending \<and> u = x"
  "(case st of Pending \<Rightarrow> Inl a | Running \<Rightarrow> Inr x | PhaseStatus.Completed \<Rightarrow> Inl b
      | PhaseStatus.Failed \<Rightarrow> Inl c | Skipped \<Rightarrow> Inl d) = Inr u \<longleftrightarrow> st = Running \<and> u = x"
  "(case st of Pending \<Rightarrow> Inl a | Running \<Rightarrow> Inl b | PhaseStatus.Completed \<Rightarrow> r
      | PhaseStatus.Failed \<Rightarrow> Inl c | Skipped \<Rightarrow> Inl d) = Inr v \<longleftrightarrow>
     st = PhaseStatus.Completed \<and> r = Inr v"
  by (cases st; auto)+

lemma check_ready_Inr [op_simps]:
  "check_ready s p ds = Inr u \<longleftrightarrow> (\<forall>d\<in>set ds. status_of s d = Some PhaseStatus.Completed)"
  by (induction ds)
    (auto simp: result_simps op_simps status_of_get)

lemma start_phase_Inr [op_simps]:
  "start_phase s i = Inr s' \<longleftrightarrow> ms_status s = InProgress \<and>
     (\<exists>p ph. in_phase_id i = Some p \<and> bt_get (ms_phases s) p = Some ph \<and> ph_status ph = Pending \<and>
        (\<forall>d\<in>set (ph_dependencies ph). status_of s d = Some PhaseStatus.Completed) \<and>
        s' = s\<lparr>ms_phases := bt_modify p
              (\<lambda>ph. ph\<lparr>ph_status := Running, ph_started_at := Some (in_timestamp i)\<rparr>)
              (ms_phases s)\<rparr>)"
  by (auto simp: start_phase_def result_simps op_simps)

lemma finish_phase_Inr [op_simps]:
  "finish_phase s i st err skip = Inr s' \<longleftrightarrow> ms_status s = InProgress \<and>
     (\<exists>p ph. in_phase_id i = Some p \<and> bt_get (ms_phases s) p = Some ph \<and> ph_status ph = Running \<and>
        s' = s\<lparr>ms_phases := bt_modify p
              (\<lambda>ph. ph\<lparr>ph_status := st, ph_finished_at := Some (in_timestamp i),
                        ph_error := err, ph_skip_reason := skip\<rparr>)
              (ms_phases s)\<rparr>)"
  by (auto simp: finish_phase_def result_simps op_simps)

lemma not_phase_terminal: "\<not> phase_terminal st \<longleftrightarrow> active st"
  by (cases st) (auto simp: phase_terminal_def active_def)

lemma skip_phase_Inr [op_simps]:
  "skip_phase s i r = Inr s' \<longleftrightarrow>
     (\<exists>p ph. in_phase_id i = Some p \<and> bt_get (ms_phases s) p = Some ph \<and> active (ph_status ph) \<and>
        s' = s\<lparr>ms_phases := bt_modify p (mark_skipped (in_timestamp i) r) (ms_phases s)\<rparr>)"
  by (auto simp: skip_phase_def result_simps op_simps not_phase_terminal [symmetric])

lemma retry_phase_Inr [op_simps]:
  "retry_phase s i = Inr s' \<longleftrightarrow> ms_status s = InProgress \<and>
     (\<exists>p ph n. in_phase_id i = Some p \<and> bt_get (ms_phases s) p = Some ph \<and> ph_status ph = Running \<and>
        checked_add (ph_retry_observations ph) 1 = Some n \<and>
        s' = s\<lparr>ms_phases := bt_modify p (\<lambda>ph. ph\<lparr>ph_retry_observations := n\<rparr>) (ms_phases s)\<rparr>)"
  by (auto simp: retry_phase_def result_simps op_simps split: if_splits)

lemma complete_mission_Inr [op_simps]:
  assumes "bt_wf (ms_phases s)"
  shows "complete_mission s ts = Inr s' \<longleftrightarrow> ms_status s = InProgress \<and>
     (\<forall>p st. status_of s p = Some st \<longrightarrow> st = PhaseStatus.Completed \<or> st = Skipped) \<and>
     s' = s\<lparr>ms_status := MissionStatus.Completed, ms_finished_at := Some ts\<rparr>"
proof -
  have "(\<forall>ph\<in>set (bt_values (ms_phases s)). P (ph_status ph)) \<longleftrightarrow>
      (\<forall>p st. status_of s p = Some st \<longrightarrow> P st)" for P
    using bt_values_iff [OF assms] by (fastforce simp: status_of_some)
  from this [of "\<lambda>st. st \<noteq> PhaseStatus.Failed"]
    this [of "\<lambda>st. st = PhaseStatus.Completed \<or> st = Skipped"]
  show ?thesis
    by (auto simp: complete_mission_def result_simps op_simps list_ex_iff)
qed

section \<open>The effect of an operation on the plan, the ledger and the statuses\<close>

lemma same_plan_modify:
  assumes "\<And>ph. ph_id (f ph) = ph_id ph" "\<And>ph. ph_dependencies (f ph) = ph_dependencies ph"
  shows "same_plan s (s\<lparr>ms_phases := bt_modify p f (ms_phases s)\<rparr>)"
  by (auto simp: same_plan_def plan_view_def option.map_comp comp_def assms fun_eq_iff)

lemma same_plan_refl: "same_plan s s"
  by (simp add: same_plan_def)

lemma same_plan_trans: "same_plan s t \<Longrightarrow> same_plan t u \<Longrightarrow> same_plan s u"
  by (simp add: same_plan_def)

lemma same_plan_status_fields:
  "same_plan s (s\<lparr>ms_status := m, ms_finished_at := t\<rparr>)"
  "same_plan s (s\<lparr>ms_status := m, ms_started_at := t\<rparr>)"
  by (simp_all add: same_plan_def plan_view_def fun_eq_iff)

lemma same_plan_skip_all: "same_plan s (skip_all_active s ts r)"
  by (auto simp: same_plan_def plan_view_def skip_all_active_def option.map_comp comp_def
      mark_skipped_def fun_eq_iff intro!: option.map_cong)

lemma status_modify:
  "status_of (s\<lparr>ms_phases := bt_modify p f (ms_phases s)\<rparr>) =
     (status_of s)(p := map_option (\<lambda>ph. ph_status (f ph)) (bt_get (ms_phases s) p))"
  by (auto simp: status_of_get option.map_comp comp_def fun_eq_iff)

lemma status_skip_all: "status_of (skip_all_active s ts r) = halt (status_of s)"
  by (auto simp: status_of_get skip_all_active_def halt_def fun_eq_iff split: option.split)

lemma status_skip_dependents:
  assumes "plan_ok s" "status_of s root \<noteq> Some Pending"
  shows "status_of (skip_pending_dependents s root ts r) = cascade (deps_of s) root (status_of s)"
  using assms by (simp add: status_of_def deps_of_def skip_pending_dependents_def
      skip_loop_status plan_ok_def)

lemma same_plan_skip_dependents:
  assumes "plan_ok s" "status_of s root \<noteq> Some Pending"
  shows "same_plan s (skip_pending_dependents s root ts r)"
proof -
  have hyp: "st_of (ms_phases s) root \<noteq> Some Pending"
    "set (map fst (ms_phases s)) \<subseteq> set (ms_phase_order s)"
    using assms by (simp_all add: status_of_def plan_ok_def)
  show ?thesis
    by (auto simp: same_plan_def plan_view_def skip_pending_dependents_def skip_loop_get [OF hyp]
        option.map_comp comp_def mark_skipped_def fun_eq_iff)
qed

section \<open>Every transition refines one abstract step\<close>

definition refines :: "'v MissionState \<Rightarrow> 'v MissionState \<Rightarrow> bool" where
  "refines s s' \<longleftrightarrow>
     same_plan s s' \<and> same_ledger s s' \<and> life_step (deps_of s) (abs_life s) (abs_life s')"

lemma refinesI:
  "same_plan s s' \<Longrightarrow> same_ledger s s' \<Longrightarrow>
   life_step (deps_of s) (ms_status s, status_of s) (ms_status s', status_of s') \<Longrightarrow> refines s s'"
  by (simp add: refines_def abs_life_def)

lemma deps_of_get: "bt_get (ms_phases s) p = Some ph \<Longrightarrow> deps_of s p = set (ph_dependencies ph)"
  by (simp add: deps_of_def dep_of_def)

lemma status_of_get_Some: "bt_get (ms_phases s) p = Some ph \<Longrightarrow> status_of s p = Some (ph_status ph)"
  by (simp add: status_of_get)

lemma start_phase_refines: "start_phase s i = Inr s' \<Longrightarrow> refines s s'"
proof -
  assume "start_phase s i = Inr s'"
  then obtain p ph where run: "ms_status s = InProgress"
    and p: "bt_get (ms_phases s) p = Some ph" and pend: "ph_status ph = Pending"
    and ready: "\<forall>d\<in>set (ph_dependencies ph). status_of s d = Some PhaseStatus.Completed"
    and s': "s' = s\<lparr>ms_phases := bt_modify p
        (\<lambda>ph. ph\<lparr>ph_status := Running, ph_started_at := Some (in_timestamp i)\<rparr>) (ms_phases s)\<rparr>"
    by (auto simp: op_simps)
  have "life_step (deps_of s) (InProgress, status_of s) (InProgress, (status_of s)(p \<mapsto> Running))"
    using status_of_get_Some [OF p] pend deps_of_get [OF p] ready
    by (intro life_step.start_phase) auto
  then show ?thesis
    using p by (intro refinesI)
      (simp_all add: s' run status_modify same_plan_modify same_ledger_def)
qed

lemma retry_phase_refines: "retry_phase s i = Inr s' \<Longrightarrow> refines s s'"
proof -
  assume "retry_phase s i = Inr s'"
  then obtain p n ph where p: "bt_get (ms_phases s) p = Some ph"
    and s': "s' = s\<lparr>ms_phases := bt_modify p (\<lambda>ph. ph\<lparr>ph_retry_observations := n\<rparr>) (ms_phases s)\<rparr>"
    by (auto simp: op_simps)
  have "status_of s' = status_of s"
    using status_of_get_Some [OF p] p by (simp add: s' status_modify fun_upd_idem)
  then show ?thesis
    by (intro refinesI) (simp_all add: s' same_plan_modify same_ledger_def life_step.observe)
qed

text \<open>A phase that finishes: its new status, with the plan and the ledger untouched.\<close>

lemma finish_phase_effect:
  assumes "finish_phase s i st err skip = Inr s'"
  obtains p where "in_phase_id i = Some p" "ms_status s = InProgress" "ms_status s' = InProgress"
    "status_of s p = Some Running" "status_of s' = (status_of s)(p \<mapsto> st)"
    "same_plan s s'" "same_ledger s s'"
proof -
  from assms obtain p ph where "in_phase_id i = Some p" "ms_status s = InProgress"
    "bt_get (ms_phases s) p = Some ph" "ph_status ph = Running"
    "s' = s\<lparr>ms_phases := bt_modify p
              (\<lambda>ph. ph\<lparr>ph_status := st, ph_finished_at := Some (in_timestamp i),
                        ph_error := err, ph_skip_reason := skip\<rparr>) (ms_phases s)\<rparr>"
    by (auto simp: op_simps)
  then show ?thesis
    by (intro that [of p])
      (simp_all add: status_modify same_plan_modify same_ledger_def status_of_get_Some)
qed

lemma skip_phase_effect:
  assumes "skip_phase s i r = Inr s'"
  obtains p st where "in_phase_id i = Some p" "ms_status s' = ms_status s"
    "status_of s p = Some st" "active st" "status_of s' = (status_of s)(p \<mapsto> Skipped)"
    "same_plan s s'" "same_ledger s s'"
proof -
  from assms obtain p ph where "in_phase_id i = Some p" "bt_get (ms_phases s) p = Some ph"
    "active (ph_status ph)"
    "s' = s\<lparr>ms_phases := bt_modify p (mark_skipped (in_timestamp i) r) (ms_phases s)\<rparr>"
    by (auto simp: op_simps)
  then show ?thesis
    by (intro that [of p "ph_status ph"])
      (simp_all add: status_modify same_plan_modify same_ledger_def status_of_get_Some mark_skipped_def)
qed

text \<open>Finishing a phase and then skipping what depended on it.\<close>

lemma skip_dependents_refines:
  assumes ok: "plan_ok s" and same: "same_plan s t" "same_ledger s t"
    and st: "status_of t = (status_of s)(p \<mapsto> new)" "new \<noteq> Pending"
    and step: "life_step (deps_of s) (ms_status s, status_of s)
                 (ms_status t, cascade (deps_of s) p ((status_of s)(p \<mapsto> new)))"
  shows "refines s (skip_pending_dependents t p ts r)"
proof -
  have ok': "plan_ok t" by (rule same_plan_ok [OF same(1) ok])
  have root: "status_of t p \<noteq> Some Pending" using st by simp
  have "same_plan s (skip_pending_dependents t p ts r)"
    by (rule same_plan_trans [OF same(1) same_plan_skip_dependents [OF ok' root]])
  moreover have "same_ledger s (skip_pending_dependents t p ts r)"
    using same(2) by (simp add: same_ledger_def skip_pending_dependents_def)
  moreover have "ms_status (skip_pending_dependents t p ts r) = ms_status t"
    by (simp add: skip_pending_dependents_def)
  moreover have "status_of (skip_pending_dependents t p ts r) =
      cascade (deps_of s) p ((status_of s)(p \<mapsto> new))"
    by (simp only: status_skip_dependents [OF ok' root] same_plan_deps [OF same(1)] st(1))
  ultimately show ?thesis using step by (intro refinesI) simp_all
qed

lemma complete_phase_Inr:
  "complete_phase s i = Inr (s', rel) \<longleftrightarrow>
     finish_phase s i PhaseStatus.Completed None None = Inr s' \<and>
     (\<exists>p. in_phase_id i = Some p \<and> rel = newly_released s' p)"
  by (auto simp: complete_phase_def result_simps op_simps)

lemma apply_transition_Inr:
  assumes "apply_transition s i = Inr (s', rel)"
  shows "mission_terminal (ms_status s) \<longrightarrow> \<not> is_lifecycle (in_transition i)"
    and "in_transition i = MissionStarted \<Longrightarrow> ms_status s = NotStarted \<and>
           s' = s\<lparr>ms_status := InProgress, ms_started_at := Some (in_timestamp i)\<rparr>"
    and "in_transition i = MissionCompleted \<Longrightarrow> complete_mission s (in_timestamp i) = Inr s'"
    and "in_transition i = MissionFailed \<Longrightarrow> ms_status s = InProgress \<and>
           s' = skip_all_active (s\<lparr>ms_status := MissionStatus.Failed,
                  ms_finished_at := Some (in_timestamp i)\<rparr>) (in_timestamp i) ''mission failed''"
    and "in_transition i = MissionCancelled r \<Longrightarrow>
           s' = skip_all_active (s\<lparr>ms_status := Cancelled, ms_finished_at := Some (in_timestamp i)\<rparr>)
                  (in_timestamp i) r"
    and "in_transition i = PhaseStarted \<Longrightarrow> start_phase s i = Inr s'"
    and "in_transition i = PhaseCompleted \<Longrightarrow> complete_phase s i = Inr (s', rel)"
    and "in_transition i = PhaseFailed e \<Longrightarrow> \<exists>t p. in_phase_id i = Some p \<and>
           finish_phase s i PhaseStatus.Failed (Some e) None = Inr t \<and>
           s' = skip_pending_dependents t p (in_timestamp i) (''dependency '' @ as_str p @ '' failed'')"
    and "in_transition i = PhaseSkipped r \<Longrightarrow> \<exists>t p. in_phase_id i = Some p \<and>
           skip_phase s i r = Inr t \<and>
           s' = skip_pending_dependents t p (in_timestamp i) (''dependency '' @ as_str p @ '' skipped'')"
    and "in_transition i = PhaseRetrying \<Longrightarrow> retry_phase s i = Inr s'"
    and "in_transition i = Unknown x v \<Longrightarrow> s' = s"
    and "(\<forall>r. in_transition i \<noteq> PhaseCompleted) \<Longrightarrow> rel = []"
  using assms
  by (auto simp: apply_transition_def result_simps is_lifecycle_def required_phase_id_def
      require_in_progress_def split: if_splits ReducerTransition.splits)

lemma apply_transition_refines:
  assumes ok: "plan_ok s" and app: "apply_transition s i = Inr (s', rel)"
  shows "refines s s'"
proof -
  note cases = apply_transition_Inr [OF app]
  have live: "\<not> mission_terminal (ms_status s)" if "is_lifecycle (in_transition i)"
    using cases(1) that by blast
  show ?thesis
  proof (cases "in_transition i")
    case MissionStarted
    with cases(2) show ?thesis
      by (auto intro!: refinesI same_plan_status_fields simp: same_ledger_def status_of_def
          intro: life_step.start_mission)
  next
    case MissionCompleted
    have wf: "bt_wf (ms_phases s)" using ok by (simp add: plan_ok_def)
    from cases(3) MissionCompleted have run: "ms_status s = InProgress"
      and finished: "\<And>p st. status_of s p = Some st \<Longrightarrow> st = PhaseStatus.Completed \<or> st = Skipped"
      and s': "s' = s\<lparr>ms_status := MissionStatus.Completed, ms_finished_at := Some (in_timestamp i)\<rparr>"
      by (simp_all add: complete_mission_Inr [OF wf])
    have "life_step (deps_of s) (InProgress, status_of s) (MissionStatus.Completed, status_of s)"
      by (rule life_step.complete_mission [OF finished])
    with run show ?thesis
      by (intro refinesI)
        (simp_all add: s' same_plan_status_fields same_ledger_def, simp add: status_of_def)
  next
    case MissionFailed
    with cases(4) show ?thesis
      by (auto intro!: refinesI same_plan_trans [OF same_plan_status_fields(1) same_plan_skip_all]
          simp: status_skip_all, auto simp: same_ledger_def skip_all_active_def status_of_def
          intro: life_step.fail_mission)
  next
    case (MissionCancelled r)
    with live have "\<not> mission_terminal (ms_status s)" by (simp add: is_lifecycle_def)
    with cases(5) [of r] MissionCancelled show ?thesis
      by (auto intro!: refinesI same_plan_trans [OF same_plan_status_fields(1) same_plan_skip_all]
          simp: status_skip_all, auto simp: same_ledger_def skip_all_active_def status_of_def
          intro: life_step.cancel_mission)
  next
    case PhaseStarted
    with cases(6) show ?thesis by (simp add: start_phase_refines)
  next
    case PhaseCompleted
    with cases(7) have fin: "finish_phase s i PhaseStatus.Completed None None = Inr s'"
      by (simp add: complete_phase_Inr)
    from fin show ?thesis
      by (rule finish_phase_effect) (auto intro!: refinesI life_step.complete_phase)
  next
    case (PhaseFailed e)
    with cases(8) obtain t p where p: "in_phase_id i = Some p"
      and fin: "finish_phase s i PhaseStatus.Failed (Some e) None = Inr t"
      and s': "s' = skip_pending_dependents t p (in_timestamp i) (''dependency '' @ as_str p @ '' failed'')"
      by blast
    from fin show ?thesis
    proof (rule finish_phase_effect)
      fix q
      assume "in_phase_id i = Some q" and run: "ms_status s = InProgress" "ms_status t = InProgress"
        and q: "status_of s q = Some Running" "status_of t = (status_of s)(q \<mapsto> PhaseStatus.Failed)"
        and same: "same_plan s t" "same_ledger s t"
      then have "q = p" using p by simp
      with q run show "refines s s'" unfolding s'
        by (intro skip_dependents_refines [OF ok same])
          (auto intro: life_step.fail_phase)
    qed
  next
    case (PhaseSkipped r)
    with cases(9) obtain t p where p: "in_phase_id i = Some p"
      and fin: "skip_phase s i r = Inr t"
      and s': "s' = skip_pending_dependents t p (in_timestamp i) (''dependency '' @ as_str p @ '' skipped'')"
      by blast
    have going: "\<not> mission_terminal (ms_status s)"
      using live PhaseSkipped by (simp add: is_lifecycle_def)
    from fin show ?thesis
    proof (rule skip_phase_effect)
      fix q st
      assume "in_phase_id i = Some q" and run: "ms_status t = ms_status s"
        and q: "status_of s q = Some st" "active st" "status_of t = (status_of s)(q \<mapsto> Skipped)"
        and same: "same_plan s t" "same_ledger s t"
      then have "q = p" using p by simp
      with q run going show "refines s s'" unfolding s'
        by (intro skip_dependents_refines [OF ok same])
          (auto intro: life_step.skip_phase)
    qed
  next
    case PhaseRetrying
    with cases(10) show ?thesis by (simp add: retry_phase_refines)
  next
    case (Unknown x v)
    with cases(11) show ?thesis
      by (auto intro!: refinesI life_step.observe simp: same_plan_refl same_ledger_def)
  qed
qed

end
