(* ===== verification/Mission_Runs.thy ===== *)
theory Mission_Runs
  imports Reducer_Correct
begin

text \<open>
  Runs of the reducer over a recorded log: the invariant of every reachable mission state, the
  event ledger, and the order a run can only climb. Every reduction that is not the replay of
  a recorded event appends one event with a fresh identity and a sequence above all earlier ones.
\<close>

section \<open>One reduction\<close>

definition fresh_event :: "'v MissionState \<Rightarrow> 'v ReducerInput \<Rightarrow> bool" where
  "fresh_event s i \<longleftrightarrow>
     bt_get (ms_applied_events s) (in_event_id i) = None \<and>
     bt_get (ms_applied_sequences s) (in_sequence i) = None \<and>
     (\<forall>g. ms_greatest_applied_sequence s = Some g \<longrightarrow> g \<le> in_sequence i) \<and>
     in_mission_id i = ms_mission_id s"

lemma reduce_fresh:
  "fresh_event s i \<Longrightarrow> reduce s i =
     and_then (apply_transition s i) (\<lambda>(t, rel).
       Inr \<lparr>rd_state = record_event t i, rd_released_phases = rel\<rparr>)"
  by (auto simp: reduce_def fresh_event_def split: option.split)

lemma reduce_recorded:
  "bt_get (ms_applied_events s) (in_event_id i) = Some (fingerprint i) \<Longrightarrow>
     reduce s i = Inr \<lparr>rd_state = s, rd_released_phases = []\<rparr>"
  by (simp add: reduce_def)

lemma reduce_Inr:
  assumes "reduce s i = Inr r"
  obtains (recorded) "bt_get (ms_applied_events s) (in_event_id i) = Some (fingerprint i)"
      "rd_state r = s" "rd_released_phases r = []"
    | (fresh) t where "fresh_event s i" "apply_transition s i = Inr (t, rd_released_phases r)"
      "rd_state r = record_event t i"
  using assms
  by (auto simp: reduce_def fresh_event_def result_simps not_less
      split: option.splits if_splits prod.splits)

section \<open>The event ledger\<close>

lemma record_event_simps [simp]:
  "ms_phases (record_event s i) = ms_phases s"
  "ms_status (record_event s i) = ms_status s"
  "ms_phase_order (record_event s i) = ms_phase_order s"
  "ms_mission_id (record_event s i) = ms_mission_id s"
  "ms_greatest_applied_sequence (record_event s i) = Some (in_sequence i)"
  "status_of (record_event s i) = status_of s"
  "deps_of (record_event s i) = deps_of s"
  "abs_life (record_event s i) = abs_life s"
  "same_plan t (record_event s i) = same_plan t s"
  by (simp_all add: record_event_def status_of_def deps_of_def abs_life_def same_plan_def
      plan_view_def fun_eq_iff)

lemma record_event_get:
  assumes "ledger_ok s"
  shows "bt_get (ms_applied_events (record_event s i)) e =
           (if e = in_event_id i then Some (fingerprint i) else bt_get (ms_applied_events s) e)"
    and "bt_get (ms_applied_sequences (record_event s i)) n =
           (if n = in_sequence i then Some (in_event_id i) else bt_get (ms_applied_sequences s) n)"
  using assms by (simp_all add: record_event_def ledger_ok_def bt_insert_get)

lemma fresh_event_above:
  assumes ok: "ledger_ok s" and fresh: "fresh_event s i"
    and n: "bt_get (ms_applied_sequences s) n = Some e"
  shows "n < in_sequence i"
proof -
  obtain g where g: "ms_greatest_applied_sequence s = Some g" "n \<le> g"
    using ok n unfolding ledger_ok_def by blast
  then have "g \<le> in_sequence i" using fresh by (simp add: fresh_event_def)
  moreover have "n \<noteq> in_sequence i" using fresh n by (auto simp: fresh_event_def)
  ultimately show ?thesis using g(2) by simp
qed

lemma record_event_ledger:
  assumes ok: "ledger_ok s" and fresh: "fresh_event s i"
  shows "ledger_ok (record_event s i)"
proof -
  note get = record_event_get [OF ok]
  have wf: "bt_wf (ms_applied_events (record_event s i))"
    "bt_wf (ms_applied_sequences (record_event s i))"
    using ok by (simp_all add: ledger_ok_def record_event_def bt_insert_wf)
  have events: "bt_get (ms_applied_sequences (record_event s i)) (ap_sequence ev) = Some e \<and>
      ap_mission_id ev = ms_mission_id s"
    if "bt_get (ms_applied_events (record_event s i)) e = Some ev" for e ev
  proof (cases "e = in_event_id i")
    case True
    with that fresh show ?thesis by (auto simp: get fingerprint_def fresh_event_def)
  next
    case False
    with that have old: "bt_get (ms_applied_events s) e = Some ev" by (simp add: get)
    then have "bt_get (ms_applied_sequences s) (ap_sequence ev) = Some e"
      "ap_mission_id ev = ms_mission_id s"
      using ok unfolding ledger_ok_def by blast+
    moreover from this have "ap_sequence ev \<noteq> in_sequence i"
      using fresh by (auto simp: fresh_event_def)
    ultimately show ?thesis by (simp add: get)
  qed
  have sequences: "(\<exists>ev. bt_get (ms_applied_events (record_event s i)) e = Some ev \<and> ap_sequence ev = n) \<and>
      n \<le> in_sequence i"
    if "bt_get (ms_applied_sequences (record_event s i)) n = Some e" for n e
  proof (cases "n = in_sequence i")
    case True
    with that show ?thesis by (simp add: get fingerprint_def)
  next
    case False
    with that have old: "bt_get (ms_applied_sequences s) n = Some e" by (simp add: get)
    then obtain ev where ev: "bt_get (ms_applied_events s) e = Some ev" "ap_sequence ev = n"
      using ok unfolding ledger_ok_def by blast
    then have "e \<noteq> in_event_id i" using fresh by (auto simp: fresh_event_def)
    with ev fresh_event_above [OF ok fresh old] show ?thesis by (simp add: get)
  qed
  have greatest: "bt_get (ms_applied_sequences (record_event s i)) (in_sequence i) \<noteq> None"
    by (simp add: get)
  show ?thesis
    unfolding ledger_ok_def using wf events sequences greatest by simp
qed

section \<open>The invariant\<close>

lemma same_ledger_ok:
  "same_ledger s t \<Longrightarrow> ms_mission_id t = ms_mission_id s \<Longrightarrow> ledger_ok s \<Longrightarrow> ledger_ok t"
  by (simp add: ledger_ok_def same_ledger_def)

lemma same_ledger_fresh:
  "same_ledger s t \<Longrightarrow> ms_mission_id t = ms_mission_id s \<Longrightarrow> fresh_event s i \<Longrightarrow> fresh_event t i"
  by (simp add: fresh_event_def same_ledger_def)

lemma same_plan_mission: "same_plan s t \<Longrightarrow> ms_mission_id t = ms_mission_id s"
  by (simp add: same_plan_def)

text \<open>What a fresh event does to the state, before and after it is recorded.\<close>

lemma fresh_step:
  assumes inv: "mission_inv s" and fresh: "fresh_event s i"
    and app: "apply_transition s i = Inr (t, rel)"
  shows "refines s t" "ledger_ok t" "fresh_event t i" "mission_inv (record_event t i)"
proof -
  have ok: "plan_ok s" and led: "ledger_ok s" and life: "life_inv (deps_of s) (abs_life s)"
    using inv by (simp_all add: mission_inv_def)
  show ref: "refines s t" by (rule apply_transition_refines [OF ok app])
  then have same: "same_plan s t" "same_ledger s t"
    and step: "life_step (deps_of s) (abs_life s) (abs_life t)"
    by (simp_all add: refines_def)
  note mid = same_plan_mission [OF same(1)]
  show led': "ledger_ok t" by (rule same_ledger_ok [OF same(2) mid led])
  show fresh': "fresh_event t i" by (rule same_ledger_fresh [OF same(2) mid fresh])
  have "same_plan s (record_event t i)" using same(1) by simp
  then have "plan_ok (record_event t i)" by (rule same_plan_ok) (rule ok)
  moreover have "ledger_ok (record_event t i)" by (rule record_event_ledger [OF led' fresh'])
  moreover have "life_inv (deps_of (record_event t i)) (abs_life (record_event t i))"
    using life_step_inv [OF step life] by (simp add: same_plan_deps [OF same(1)])
  ultimately show "mission_inv (record_event t i)" by (simp add: mission_inv_def)
qed

lemma reduce_inv: "mission_inv s \<Longrightarrow> reduce s i = Inr r \<Longrightarrow> mission_inv (rd_state r)"
  by (erule reduce_Inr) (simp_all add: fresh_step(4))

lemma reduce_life_step:
  assumes "mission_inv s" "reduce s i = Inr r"
  shows "life_step (deps_of s) (abs_life s) (abs_life (rd_state r))" "same_plan s (rd_state r)"
  using assms(2)
  by (rule reduce_Inr, auto simp: life_step.observe same_plan_refl
      dest!: fresh_step(1) [OF assms(1)] simp: refines_def)+

section \<open>Runs\<close>

definition reduce_state :: "'v MissionState \<Rightarrow> 'v ReducerInput \<Rightarrow> TransitionError + 'v MissionState" where
  "reduce_state s i = and_then (reduce s i) (\<lambda>r. Inr (rd_state r))"

definition ledger_extends :: "'v MissionState \<Rightarrow> 'v MissionState \<Rightarrow> bool" where
  "ledger_extends s t \<longleftrightarrow>
     (\<forall>e ev. bt_get (ms_applied_events s) e = Some ev \<longrightarrow> bt_get (ms_applied_events t) e = Some ev)"

text \<open>What a later state of the same mission keeps of an earlier one.\<close>

definition later :: "'v MissionState \<Rightarrow> 'v MissionState \<Rightarrow> bool" where
  "later s t \<longleftrightarrow>
     same_plan s t \<and> ledger_extends s t \<and>
     (\<forall>p st. status_of s p = Some st \<longrightarrow> phase_terminal st \<longrightarrow> status_of t p = Some st) \<and>
     (mission_terminal (ms_status s) \<longrightarrow> abs_life t = abs_life s)"

lemma later_refl: "later s s"
  by (simp add: later_def same_plan_refl ledger_extends_def)

lemma later_trans: "later s t \<Longrightarrow> later t u \<Longrightarrow> later s u"
  unfolding later_def ledger_extends_def
  by (auto intro: same_plan_trans simp: abs_life_def)

lemma reduce_later:
  assumes inv: "mission_inv s" and red: "reduce s i = Inr r"
  shows "later s (rd_state r)"
proof -
  note step = reduce_life_step [OF inv red]
  have life: "life_inv (deps_of s) (abs_life s)" using inv by (simp add: mission_inv_def)
  have "ledger_extends s (rd_state r)"
  proof (rule reduce_Inr [OF red])
    assume "rd_state r = s"
    then show ?thesis by (simp add: ledger_extends_def)
  next
    fix t
    assume fresh: "fresh_event s i" and app: "apply_transition s i = Inr (t, rd_released_phases r)"
      and r: "rd_state r = record_event t i"
    note facts = fresh_step [OF inv fresh app]
    have same: "ms_applied_events t = ms_applied_events s"
      using facts(1) by (simp add: refines_def same_ledger_def)
    show ?thesis
      using facts(3) by (auto simp: ledger_extends_def r record_event_get [OF facts(2)] same
          fresh_event_def)
  qed
  moreover have "status_of (rd_state r) p = Some st"
    if "status_of s p = Some st" "phase_terminal st" for p st
    using life_step_phase_final [OF step(1)] that by (simp add: abs_life_def)
  moreover have "abs_life (rd_state r) = abs_life s" if "mission_terminal (ms_status s)"
    using life_step_mission_final [OF step(1) _ life] that by (simp add: abs_life_def)
  ultimately show ?thesis using step(2) by (simp add: later_def)
qed

interpretation mission: climbing_machine reduce_state mission_inv later
proof
  show "mission_inv s \<Longrightarrow> reduce_state s i = Inr s' \<Longrightarrow> mission_inv s'"
    for s s' :: "'v MissionState" and i
    by (auto simp: reduce_state_def result_simps intro: reduce_inv)
  show "later s s" for s :: "'v MissionState" by (rule later_refl)
  show "later s t \<Longrightarrow> later t u \<Longrightarrow> later s u" for s t u :: "'v MissionState"
    by (rule later_trans)
  show "mission_inv s \<Longrightarrow> reduce_state s i = Inr s' \<Longrightarrow> later s s'"
    for s s' :: "'v MissionState" and i
    by (auto simp: reduce_state_def result_simps intro: reduce_later)
qed

definition run_log :: "'v MissionState \<Rightarrow> 'v ReducerInput list \<Rightarrow> TransitionError + 'v MissionState" where
  "run_log = try_fold reduce_state"

text \<open>
  What the mission reducer guarantees: which plans it accepts, and what every mission state
  reached by replaying a log satisfies.
\<close>

section \<open>Accepted plans\<close>

lemma check_dependencies_ok_iff:
  "check_dependencies known p ds seen = Inr u \<longleftrightarrow>
     set ds \<subseteq> known \<and> distinct ds \<and> set ds \<inter> seen = {}"
  by (induction known p ds seen rule: check_dependencies.induct) auto

lemma card_ids: "card (set (map def_id defs)) = length defs \<longleftrightarrow> distinct (map def_id defs)"
  by (metis card_distinct distinct_card length_map)

definition plan_accepted :: "PhaseDefinition list \<Rightarrow> bool" where
  "plan_accepted defs \<longleftrightarrow>
     defs \<noteq> [] \<and> distinct (map def_id defs) \<and>
     (\<forall>d\<in>set defs. distinct (def_dependencies d) \<and> set (def_dependencies d) \<subseteq> set (map def_id defs)) \<and>
     acyclic (plan_edges defs)"

definition initial_state :: "MissionId \<Rightarrow> PhaseDefinition list \<Rightarrow> 'v MissionState" where
  "initial_state mid defs =
     \<lparr>ms_mission_id = mid, ms_status = NotStarted, ms_started_at = None,
      ms_finished_at = None, ms_phase_order = map def_id defs,
      ms_phases = bt_collect (map (\<lambda>d. (def_id d, initial_phase d)) defs),
      ms_greatest_applied_sequence = None, ms_applied_events = [], ms_applied_sequences = []\<rparr>"

lemma MissionState_new_Inr:
  "MissionState_new mid defs = Inr s \<longleftrightarrow> plan_accepted defs \<and>
     s = initial_state mid defs"
proof -
  let ?known = "set (map def_id defs)"
  have deps: "(\<exists>u. try_each (\<lambda>d. check_dependencies ?known (def_id d) (def_dependencies d) {}) defs = Inr u)
      \<longleftrightarrow> (\<forall>d\<in>set defs. distinct (def_dependencies d) \<and> set (def_dependencies d) \<subseteq> ?known)"
    by (auto simp: try_each_ok_iff check_dependencies_ok_iff simp del: set_map)
  have cyc: "(\<exists>u. detect_cycle defs = Inr u) \<longleftrightarrow> acyclic (plan_edges defs)"
    by (simp add: detect_cycle_ok_iff)
  have dup: "(case find_duplicate defs {} of Some p \<Rightarrow> Inl (DuplicatePhase p) | None \<Rightarrow> Inl EmptyPlan) \<noteq> Inr s"
    by (simp split: option.split)
  show ?thesis
    unfolding MissionState_new_def plan_accepted_def Let_def card_ids
    using deps cyc dup
    by (cases "defs = []"; cases "distinct (map def_id defs)")
      (auto simp: and_then_Inr_iff initial_state_def simp del: set_map)
qed

text \<open>The initial state, phase by phase.\<close>

lemma initial_phase_get:
  assumes "distinct (map def_id defs)"
  shows "bt_get (bt_collect (map (\<lambda>d. (def_id d, initial_phase d)) defs)) p = Some ph \<longleftrightarrow>
    (\<exists>d\<in>set defs. def_id d = p \<and> ph = initial_phase d)"
proof -
  have dist: "distinct (map fst (map (\<lambda>d. (def_id d, initial_phase d)) defs))"
    using assms by (simp add: comp_def)
  show ?thesis
    unfolding bt_collect_get_distinct [OF dist] map_of_eq_Some_iff [OF dist] by auto
qed

lemma initial_state_get:
  assumes "distinct (map def_id defs)"
  shows "bt_get (ms_phases (initial_state mid defs)) p = Some ph \<longleftrightarrow>
    (\<exists>d\<in>set defs. def_id d = p \<and> ph = initial_phase d)"
  by (simp add: initial_state_def initial_phase_get [OF assms])

lemma initial_state_keys:
  "set (map fst (ms_phases (initial_state mid defs))) = set (map def_id defs)"
  by (simp add: initial_state_def bt_collect_keys image_image del: set_map) (simp add: image_image)

lemma MissionState_new_inv:
  fixes s :: "'v MissionState"
  assumes "MissionState_new mid defs = Inr s"
  shows "mission_inv s"
    and "deps_of s p = {d. (p, d) \<in> plan_edges defs}"
    and "status_of s p = (if p \<in> set (map def_id defs) then Some Pending else None)"
proof -
  from assms have acc: "plan_accepted defs" and
    s: "s = initial_state mid defs"
    by (simp_all only: MissionState_new_Inr)
  have dist: "distinct (map def_id defs)" and ne: "defs \<noteq> []"
    and ds: "\<And>d. d \<in> set defs \<Longrightarrow> distinct (def_dependencies d) \<and> set (def_dependencies d) \<subseteq> set (map def_id defs)"
    and ac: "acyclic (plan_edges defs)"
    using acc unfolding plan_accepted_def by blast+
  have get: "bt_get (ms_phases s) q = Some ph \<longleftrightarrow> (\<exists>d\<in>set defs. def_id d = q \<and> ph = initial_phase d)"
    for q ph by (simp add: s initial_state_get [OF dist])
  show deps: "deps_of s p = {d. (p, d) \<in> plan_edges defs}" for p
  proof (cases "bt_get (ms_phases s) p")
    case None
    then have "\<not> (\<exists>d\<in>set defs. def_id d = p)" using get [of p] by auto
    with None show ?thesis by (auto simp: deps_of_def dep_of_def plan_edges_distinct [OF dist])
  next
    case (Some ph)
    then obtain d where d: "d \<in> set defs" "def_id d = p" "ph = initial_phase d" using get by blast
    have same: "e \<in> set defs \<and> def_id e = p \<longleftrightarrow> e = d" for e
      using d dist by (metis distinct_map inj_onD)
    have "deps_of s p = set (def_dependencies d)"
      using Some d(3) by (simp add: deps_of_def dep_of_def initial_phase_def)
    also have "\<dots> = {x. \<exists>e. (e \<in> set defs \<and> def_id e = p) \<and> x \<in> set (def_dependencies e)}"
      unfolding same by simp
    also have "\<dots> = {x. (p, x) \<in> plan_edges defs}"
      unfolding plan_edges_distinct [OF dist] by blast
    finally show ?thesis .
  qed
  show st: "status_of s p = (if p \<in> set (map def_id defs) then Some Pending else None)" for p
  proof (cases "bt_get (ms_phases s) p")
    case None
    then have "p \<notin> set (map def_id defs)" using get [of p] by auto
    with None show ?thesis by (simp add: status_of_get)
  next
    case (Some ph)
    then obtain d where "d \<in> set defs" "def_id d = p" "ph = initial_phase d" using get by blast
    with Some show ?thesis by (auto simp: status_of_get initial_phase_def)
  qed
  have phases: "ph_id ph = q \<and> distinct (ph_dependencies ph)"
    if "bt_get (ms_phases s) q = Some ph" for q ph
    using that ds unfolding get by (auto simp: initial_phase_def)
  have edges: "{(q, d). d \<in> deps_of s q} = plan_edges defs" by (auto simp: deps)
  have known: "deps_of s q \<subseteq> set (ms_phase_order s)" for q
  proof -
    have "ms_phase_order s = map def_id defs" by (simp add: s initial_state_def)
    then show ?thesis using ds unfolding deps plan_edges_distinct [OF dist] by fastforce
  qed
  have "plan_ok s"
    unfolding plan_ok_def edges
    using dist ne ac phases known
    by (simp add: s initial_state_keys del: set_map) (simp add: initial_state_def bt_collect_wf)
  moreover have "ledger_ok s" by (simp add: ledger_ok_def s initial_state_def bt_wf_def)
  moreover have "life_inv (deps_of s) (abs_life s)"
  proof -
    have pend: "x = Pending" if "status_of s q = Some x" for q x
      using that by (simp add: st split: if_splits)
    have "ms_status s = NotStarted" by (simp add: s initial_state_def)
    with pend show ?thesis
      by (fastforce simp: life_inv_def abs_life_def deps_completed_def no_dead_dependency_def
          status_agrees_def mission_terminal_def)
  qed
  ultimately show "mission_inv s" by (simp add: mission_inv_def)
qed

section \<open>Replayed missions\<close>

definition replayed ::
    "MissionId \<Rightarrow> PhaseDefinition list \<Rightarrow> 'v ReducerInput list \<Rightarrow> 'v MissionState \<Rightarrow> bool" where
  "replayed mid defs log s \<longleftrightarrow>
     (case MissionState_new mid defs of Inl _ \<Rightarrow> False | Inr s0 \<Rightarrow> run_log s0 log = Inr s)"

lemma replayedE:
  assumes "replayed mid defs log s"
  obtains s0 where "MissionState_new mid defs = Inr s0" "run_log s0 log = Inr s" "mission_inv s0"
    "mission_inv s" "later s0 s"
proof -
  from assms obtain s0 where s0: "MissionState_new mid defs = Inr s0" "run_log s0 log = Inr s"
    by (auto simp: replayed_def split: sum.splits)
  have inv: "mission_inv s0" by (rule MissionState_new_inv(1) [OF s0(1)])
  show ?thesis
    using that [OF s0 inv] mission.run_inv [OF inv] mission.run_below [OF inv] s0(2)
    by (simp add: run_log_def)
qed

lemma replayed_facts:
  assumes "replayed mid defs log s"
  shows "mission_inv s" "deps_of s p = {d. (p, d) \<in> plan_edges defs}"
    "ms_phase_order s = map def_id defs" "plan_accepted defs"
    "status_of s p = None \<longleftrightarrow> p \<notin> set (map def_id defs)"
proof -
  obtain s0 where s0: "MissionState_new mid defs = Inr s0" "mission_inv s" "later s0 s"
    using assms by (rule replayedE)
  then have same: "same_plan s0 s" by (simp add: later_def)
  show "mission_inv s" by (rule s0(2))
  show "deps_of s p = {d. (p, d) \<in> plan_edges defs}"
    by (simp add: same_plan_deps [OF same] MissionState_new_inv(2) [OF s0(1)])
  show "plan_accepted defs" using s0(1) by (simp add: MissionState_new_Inr)
  have "ms_phase_order s0 = map def_id defs"
    using s0(1) by (simp add: MissionState_new_Inr initial_state_def)
  then show order: "ms_phase_order s = map def_id defs" using same by (simp add: same_plan_def)
  have "set (ms_phase_order s) = set (map fst (ms_phases s))"
    using s0(2) by (simp add: mission_inv_def plan_ok_def)
  moreover have "status_of s p = None \<longleftrightarrow> p \<notin> set (map fst (ms_phases s))"
    using bt_get_key [of "ms_phases s" p] bt_key_get [of p "ms_phases s"]
    by (cases "bt_get (ms_phases s) p") (auto simp: status_of_get simp del: set_map)
  ultimately show "status_of s p = None \<longleftrightarrow> p \<notin> set (map def_id defs)" by (simp add: order)
qed

text \<open>A small mission for the examples: phase \<open>b\<close> waits for \<open>a\<close>, and \<open>c\<close> for \<open>b\<close>.\<close>

definition demo_plan :: "PhaseDefinition list" where
  "demo_plan =
     [\<lparr>def_id = Name ''a'', def_dependencies = []\<rparr>,
      \<lparr>def_id = Name ''b'', def_dependencies = [Name ''a'']\<rparr>,
      \<lparr>def_id = Name ''c'', def_dependencies = [Name ''b'']\<rparr>]"

definition demo_event :: "string \<Rightarrow> int \<Rightarrow> string option \<Rightarrow> unit ReducerTransition \<Rightarrow> unit ReducerInput" where
  "demo_event e n p t =
     \<lparr>in_event_id = Name e, in_sequence = n, in_timestamp = ''t'', in_mission_id = Name ''m'',
      in_phase_id = map_option Name p, in_worker_id = None, in_data = (), in_extra = [],
      in_transition = t\<rparr>"

definition demo_log :: "unit ReducerInput list" where
  "demo_log =
     [demo_event ''e1'' 1 None MissionStarted, demo_event ''e2'' 2 (Some ''a'') PhaseStarted,
      demo_event ''e3'' 3 (Some ''a'') PhaseCompleted, demo_event ''e4'' 5 (Some ''b'') PhaseStarted]"

definition demo_state :: "unit ReducerInput list \<Rightarrow> unit MissionState" where
  "demo_state log =
     (let s0 = initial_state (Name ''m'') demo_plan
      in case run_log s0 log of Inr s \<Rightarrow> s | Inl _ \<Rightarrow> s0)"

end
