(* ===== verification/Mission_Guarantees.thy ===== *)
theory Mission_Guarantees
  imports Mission_Runs
begin

text \<open>
  The guarantees of the mission reducer, stated over plans, logs and single reductions. Each
  rests on the invariant and the order of \<open>Mission_Runs\<close> and on the abstract lifecycle.
\<close>

section \<open>Errors of the plan\<close>

lemma find_duplicate_count:
  "find_duplicate ds seen = Some p \<Longrightarrow>
     p \<in> set (map def_id ds) \<and> (p \<in> seen \<or> 1 < count_list (map def_id ds) p)"
proof (induction ds seen rule: find_duplicate.induct)
  case (2 d ds seen)
  show ?case
  proof (cases "def_id d \<in> seen")
    case True
    with "2.prems" show ?thesis by auto
  next
    case False
    with "2.prems" have some: "find_duplicate ds (insert (def_id d) seen) = Some p" by simp
    note ih = "2.IH" [OF False some]
    then have "0 < count_list (map def_id ds) p" by (metis count_list_0_iff gr0I)
    with ih show ?thesis by auto
  qed
qed simp

lemma find_duplicate_none: "find_duplicate ds seen = None \<Longrightarrow>
     distinct (map def_id ds) \<and> set (map def_id ds) \<inter> seen = {}"
  by (induction ds seen rule: find_duplicate.induct) (auto split: if_splits)

definition build_error_justified ::
    "PhaseDefinition list \<Rightarrow> MissionStateBuildError \<Rightarrow> bool" where
  "build_error_justified defs e =
     (case e of
        EmptyPlan \<Rightarrow> defs = []
      | DuplicatePhase p \<Rightarrow> 1 < count_list (map def_id defs) p
      | UnknownDependency p d \<Rightarrow>
          (\<exists>df\<in>set defs. def_id df = p \<and> d \<in> set (def_dependencies df)) \<and> d \<notin> set (map def_id defs)
      | DuplicateDependency p d \<Rightarrow>
          (\<exists>df\<in>set defs. def_id df = p \<and> 1 < count_list (def_dependencies df) d)
      | DependencyCycle q \<Rightarrow> (q, q) \<in> (plan_edges defs)\<^sup>+)"

lemma check_dependencies_error:
  "check_dependencies known p ds seen = Inl e \<Longrightarrow>
     (\<exists>d\<in>set ds. e = UnknownDependency p d \<and> d \<notin> known) \<or>
     (\<exists>d\<in>set ds. e = DuplicateDependency p d \<and> (d \<in> seen \<or> 1 < count_list ds d))"
proof (induction known p ds seen rule: check_dependencies.induct)
  case (2 known p d ds seen)
  consider "d \<notin> known" | "d \<in> known" "d \<in> seen" | "d \<in> known" "d \<notin> seen" by blast
  then show ?case
  proof cases
    case 3
    with "2.prems" have "check_dependencies known p ds (insert d seen) = Inl e" by simp
    from "2.IH" [OF _ 3(2) this] 3(1)
    show ?thesis by (auto simp: Suc_lessI count_list_0_iff intro: gr0I)
  qed (use "2.prems" in auto)
qed simp

lemma two_checks_Inl: "and_then a (\<lambda>_. and_then b (\<lambda>_. Inr c)) = Inl e \<Longrightarrow> a = Inl e \<or> b = Inl e"
  by (cases a; cases b) auto

lemma MissionState_new_Inl:
  assumes "(MissionState_new mid defs :: MissionStateBuildError + 'v MissionState) = Inl e"
  shows "build_error_justified defs e"
proof -
  let ?known = "set (map def_id defs)"
  show ?thesis
  proof (cases "defs = []")
    case True
    with assms show ?thesis by (simp add: MissionState_new_def build_error_justified_def)
  next
    case ne: False
    show ?thesis
    proof (cases "distinct (map def_id defs)")
      case False
      then obtain p where p: "find_duplicate defs {} = Some p"
        using find_duplicate_none [of defs "{}"] by (cases "find_duplicate defs {}") auto
      with assms ne False have "e = DuplicatePhase p"
        by (simp add: MissionState_new_def Let_def card_ids del: set_map)
      with find_duplicate_count [OF p] show ?thesis by (simp add: build_error_justified_def)
    next
      case True
      with ne have "(MissionState_new mid defs :: MissionStateBuildError + 'v MissionState) =
          and_then (try_each (\<lambda>d. check_dependencies ?known (def_id d) (def_dependencies d) {}) defs)
            (\<lambda>_. and_then (detect_cycle defs) (\<lambda>_. Inr (initial_state mid defs)))"
        by (simp add: MissionState_new_def Let_def card_ids initial_state_def del: set_map)
      from two_checks_Inl [OF this [symmetric, unfolded assms]]
      consider "try_each (\<lambda>d. check_dependencies ?known (def_id d) (def_dependencies d) {}) defs = Inl e"
        | "detect_cycle defs = Inl e"
        by blast
      then show ?thesis
      proof cases
        case 1
        obtain df where df: "df \<in> set defs"
          and err: "check_dependencies ?known (def_id df) (def_dependencies df) {} = Inl e"
          using try_each_error [OF 1] by (elim bexE)
        from check_dependencies_error [OF err] show ?thesis
        proof (elim disjE bexE conjE)
          fix d
          assume "d \<in> set (def_dependencies df)" "e = UnknownDependency (def_id df) d" "d \<notin> ?known"
          with df show ?thesis by (simp add: build_error_justified_def del: set_map) blast
        next
          fix d
          assume "1 < count_list (def_dependencies df) d" "e = DuplicateDependency (def_id df) d"
          with df show ?thesis by (simp add: build_error_justified_def) blast
        qed simp
      next
        case 2
        from detect_cycle_error [OF 2] show ?thesis by (auto simp: build_error_justified_def)
      qed
    qed
  qed
qed

text \<open>
  C7. A mission can be built from a plan exactly when the plan is non-empty, its phase ids are
  distinct, each phase lists distinct known dependencies and the dependency graph is acyclic;
  when it cannot, the reported error names a defect the plan really has.
\<close>

theorem mission_plan_acceptance:
  "(is_ok (MissionState_new mid defs :: MissionStateBuildError + 'v MissionState) \<longleftrightarrow> plan_accepted defs) \<and>
   (\<forall>e. (MissionState_new mid defs :: MissionStateBuildError + 'v MissionState) = Inl e \<longrightarrow>
      build_error_justified defs e)"
  by (simp add: is_ok_iff MissionState_new_Inr MissionState_new_Inl)

theorem mission_plan_acceptance_witness:
  "is_ok (MissionState_new (Name ''m'') demo_plan :: MissionStateBuildError + unit MissionState) \<and>
   build_error_justified [\<lparr>def_id = Name ''a'', def_dependencies = [Name ''x'']\<rparr>]
     (UnknownDependency (Name ''a'') (Name ''x''))"
proof
  have "(MissionState_new (Name ''m'') [\<lparr>def_id = Name ''a'', def_dependencies = [Name ''x'']\<rparr>]
      :: MissionStateBuildError + unit MissionState) = Inl (UnknownDependency (Name ''a'') (Name ''x''))"
    by code_simp
  then show "build_error_justified [\<lparr>def_id = Name ''a'', def_dependencies = [Name ''x'']\<rparr>]
     (UnknownDependency (Name ''a'') (Name ''x''))"
    using mission_plan_acceptance by blast
qed code_simp

section \<open>Refinement and the invariant\<close>

text \<open>
  C2. Every successful reduction of a mission reached from a plan is one step of the abstract
  lifecycle machine (possibly the idle one), on the plan's own dependency graph.
\<close>

theorem reduce_refines_lifecycle:
  assumes "replayed mid defs log s" "reduce s i = Inr r"
  shows "life_step (\<lambda>p. {d. (p, d) \<in> plan_edges defs}) (ms_status s, status_of s)
           (ms_status (rd_state r), status_of (rd_state r))"
proof -
  have "deps_of s = (\<lambda>p. {d. (p, d) \<in> plan_edges defs})"
    using replayed_facts(2) [OF assms(1)] by (rule ext)
  with reduce_life_step(1) [OF replayed_facts(1) [OF assms(1)] assms(2)] show ?thesis
    by (simp add: abs_life_def)
qed

lemma demo_replayed: "replayed (Name ''m'') demo_plan demo_log (demo_state demo_log)"
  by code_simp

theorem reduce_refines_lifecycle_witness:
  "\<exists>r. reduce (demo_state demo_log) (demo_event ''e5'' 6 (Some ''b'') PhaseCompleted) = Inr r \<and>
     life_step (\<lambda>p. {d. (p, d) \<in> plan_edges demo_plan})
       (ms_status (demo_state demo_log), status_of (demo_state demo_log))
       (ms_status (rd_state r), status_of (rd_state r))"
proof -
  have "is_ok (reduce (demo_state demo_log) (demo_event ''e5'' 6 (Some ''b'') PhaseCompleted))"
    by code_simp
  then obtain r where "reduce (demo_state demo_log) (demo_event ''e5'' 6 (Some ''b'') PhaseCompleted) = Inr r"
    by (auto simp: is_ok_iff)
  with reduce_refines_lifecycle [OF demo_replayed] show ?thesis by blast
qed

lemma replayed_life_inv:
  assumes "replayed mid defs log s"
  shows "deps_completed (deps_of s) (status_of s)" "no_dead_dependency (deps_of s) (status_of s)"
    "status_agrees (ms_status s) (status_of s)"
  using replayed_facts(1) [OF assms] by (simp_all add: mission_inv_def life_inv_def abs_life_def)

text \<open>
  C5. In every mission state reached from a plan, a phase that runs, has completed or has failed
  had all its dependencies completed; a completed mission has only completed or skipped phases;
  and a mission that ended in any way has no pending or running phase left.
\<close>

theorem dependencies_before_dependents:
  assumes "replayed mid defs log s" "status_of s p = Some st"
  shows "(st = Running \<or> st = PhaseStatus.Completed \<or> st = PhaseStatus.Failed \<longrightarrow>
       (\<forall>d. (p, d) \<in> plan_edges defs \<longrightarrow> status_of s d = Some PhaseStatus.Completed)) \<and>
     (ms_status s = MissionStatus.Completed \<longrightarrow> st = PhaseStatus.Completed \<or> st = Skipped) \<and>
     (mission_terminal (ms_status s) \<longrightarrow> phase_terminal st)"
proof -
  note inv = replayed_life_inv [OF assms(1)]
  have "(st = Running \<or> st = PhaseStatus.Completed \<or> st = PhaseStatus.Failed \<longrightarrow>
       (\<forall>d. (p, d) \<in> plan_edges defs \<longrightarrow> status_of s d = Some PhaseStatus.Completed))"
    using inv(1) assms(2) replayed_facts(2) [OF assms(1), of p]
    unfolding deps_completed_def by blast
  moreover have ended: "mission_terminal (ms_status s) \<longrightarrow> phase_terminal st"
    using inv(3) assms(2) by (auto simp: status_agrees_def)
  moreover have "ms_status s = MissionStatus.Completed \<longrightarrow> st \<noteq> PhaseStatus.Failed"
    using inv(3) assms(2) by (auto simp: status_agrees_def)
  ultimately show ?thesis by (auto simp: phase_terminal_def mission_terminal_def)
qed

theorem dependencies_before_dependents_witness:
  "(Name ''b'', Name ''a'') \<in> plan_edges demo_plan \<and>
   status_of (demo_state demo_log) (Name ''a'') = Some PhaseStatus.Completed"
proof -
  have edge: "(Name ''b'', Name ''a'') \<in> plan_edges demo_plan"
    by (subst plan_edges_distinct) (simp_all add: demo_plan_def)
  have "status_of (demo_state demo_log) (Name ''b'') = Some Running"
    unfolding status_of_def by code_simp
  from dependencies_before_dependents [OF demo_replayed this] edge show ?thesis by simp
qed

section \<open>Errors that cannot happen, and events that must\<close>

lemma check_ready_error:
  "check_ready s p ds = Inl e \<Longrightarrow>
     \<exists>d\<in>set ds. (status_of s d = None \<and> e = UnknownPhase d) \<or>
       (\<exists>st. status_of s d = Some st \<and>
          (e = DependencyFailed p d st \<and> (st = PhaseStatus.Failed \<or> st = Skipped) \<or>
           e = DependencyNotReady p d \<and> active st))"
proof (induction ds)
  case (Cons d ds)
  then show ?case
    by (cases "bt_get (ms_phases s) d")
      (auto simp: status_of_get active_def split: PhaseStatus.splits)
qed simp

lemma start_phase_error:
  "start_phase s i = Inl (DependencyFailed a b st) \<Longrightarrow>
     \<exists>p ph. bt_get (ms_phases s) p = Some ph \<and> ph_status ph = Pending \<and>
       check_ready s p (ph_dependencies ph) = Inl (DependencyFailed a b st)"
proof -
  assume err: "start_phase s i = Inl (DependencyFailed a b st)"
  then have run: "ms_status s = InProgress"
    by (auto simp: start_phase_def require_in_progress_def result_simps split: if_splits)
  obtain p where p: "in_phase_id i = Some p"
    using err run by (cases "in_phase_id i") (auto simp: start_phase_def require_in_progress_def required_phase_id_def)
  obtain ph where ph: "bt_get (ms_phases s) p = Some ph"
    using err run p by (cases "bt_get (ms_phases s) p")
      (auto simp: start_phase_def require_in_progress_def required_phase_id_def)
  with err run p show ?thesis
    by (cases "ph_status ph")
      (auto simp: start_phase_def require_in_progress_def required_phase_id_def result_simps)
qed

lemma other_ops_error:
  "finish_phase s i x y z \<noteq> Inl (DependencyFailed a b st)"
  "skip_phase s i r \<noteq> Inl (DependencyFailed a b st)"
  "retry_phase s i \<noteq> Inl (DependencyFailed a b st)"
  "complete_mission s ts \<noteq> Inl (DependencyFailed a b st)"
  "require_in_progress s \<noteq> Inl (DependencyFailed a b st)"
  "required_phase_id i \<noteq> Inl (DependencyFailed a b st)"
  by (auto simp: finish_phase_def skip_phase_def retry_phase_def complete_mission_def result_simps
      require_in_progress_def required_phase_id_def split: if_splits PhaseStatus.splits)

lemma apply_transition_error:
  "apply_transition s i = Inl (DependencyFailed a b st) \<Longrightarrow>
     start_phase s i = Inl (DependencyFailed a b st)"
  by (auto simp: apply_transition_def complete_phase_def result_simps other_ops_error
      split: if_splits ReducerTransition.splits)

text \<open>
  The reducer never reports that a dependency of a phase to be started has failed or been
  skipped: in every state reached from a plan, such a phase has itself been skipped already.
\<close>

theorem dependency_failed_unreachable:
  assumes "replayed mid defs log s"
  shows "reduce s i \<noteq> Inl (DependencyFailed p d st)"
proof
  assume "reduce s i = Inl (DependencyFailed p d st)"
  then have "apply_transition s i = Inl (DependencyFailed p d st)"
    by (auto simp: reduce_def result_simps split: option.splits if_splits)
  then obtain q ph where q: "bt_get (ms_phases s) q = Some ph" "ph_status ph = Pending"
    and err: "check_ready s q (ph_dependencies ph) = Inl (DependencyFailed p d st)"
    using start_phase_error apply_transition_error by blast
  from check_ready_error [OF err] have "d \<in> deps_of s q"
    "status_of s d = Some PhaseStatus.Failed \<or> status_of s d = Some Skipped"
    by (auto simp: deps_of_get [OF q(1)])
  moreover have "status_of s q = Some Pending" using q by (simp add: status_of_get)
  ultimately show False using replayed_life_inv(2) [OF assms] unfolding no_dead_dependency_def by blast
qed

theorem dependency_failed_unreachable_witness:
  "reduce (demo_state (demo_log @ [demo_event ''e5'' 6 (Some ''b'') (PhaseFailed ''x'')]))
     (demo_event ''e6'' 7 (Some ''c'') PhaseStarted)
   \<noteq> Inl (DependencyFailed (Name ''c'') (Name ''b'') PhaseStatus.Failed)"
  by (rule dependency_failed_unreachable
      [where mid = "Name ''m''" and defs = demo_plan and
        log = "demo_log @ [demo_event ''e5'' 6 (Some ''b'') (PhaseFailed ''x'')]"]) code_simp

lemma finite_status: "finite {p. status_of s p \<noteq> None}"
proof (rule finite_subset)
  show "{p. status_of s p \<noteq> None} \<subseteq> set (map fst (ms_phases s))"
    using bt_get_key by (fastforce simp: status_of_get)
qed simp

text \<open>
  C3. A mission in progress is never stuck: when no phase is running and some phase is pending,
  there is a phase for which a start event (with an identity and a sequence not seen before)
  is accepted and makes it run.
\<close>

theorem mission_never_stuck:
  fixes s :: "'v MissionState"
  assumes rep: "replayed mid defs log s" and run: "ms_status s = InProgress"
    and idle: "\<forall>p. status_of s p \<noteq> Some Running" and pend: "status_of s q = Some Pending"
  shows "\<exists>p. \<forall>i. fresh_event s i \<and> in_transition i = PhaseStarted \<and> in_phase_id i = Some p \<longrightarrow>
     (\<exists>r. reduce s i = Inr r \<and> status_of (rd_state r) = (status_of s)(p \<mapsto> Running))"
proof -
  note facts = replayed_facts [OF rep]
  have inv: "life_inv (deps_of s) (ms_status s, status_of s)" and ok: "plan_ok s"
    using facts(1) by (simp_all add: mission_inv_def abs_life_def)
  have known: "status_of s d \<noteq> None" if "status_of s p \<noteq> None" "d \<in> deps_of s p" for p d
  proof -
    have "d \<in> set (ms_phase_order s)" using ok that(2) unfolding plan_ok_def by blast
    then show ?thesis using facts(3,5) by simp
  qed
  have "acyclic {(p, d). d \<in> deps_of s p}" using ok by (simp add: plan_ok_def)
  then have ac: "acyclic {(p, d). status_of s p \<noteq> None \<and> d \<in> deps_of s p}"
    by (rule acyclic_subset) auto
  obtain p where p: "status_of s p = Some Pending"
    and ready: "\<forall>d\<in>deps_of s p. status_of s d = Some PhaseStatus.Completed"
    using some_phase_ready [OF inv finite_status _ ac pend] known idle by metis
  obtain ph where ph: "bt_get (ms_phases s) p = Some ph" "ph_status ph = Pending"
    using p by (auto simp: status_of_some)
  have "\<exists>r. reduce s i = Inr r \<and> status_of (rd_state r) = (status_of s)(p \<mapsto> Running)"
    if "fresh_event s i" "in_transition i = PhaseStarted" "in_phase_id i = Some p" for i
  proof -
    let ?t = "s\<lparr>ms_phases := bt_modify p
        (\<lambda>ph. ph\<lparr>ph_status := Running, ph_started_at := Some (in_timestamp i)\<rparr>) (ms_phases s)\<rparr>"
    have start: "start_phase s i = Inr ?t"
      using run that(3) ph ready by (simp add: start_phase_Inr deps_of_get)
    have "apply_transition s i = Inr (?t, [])"
      using start run that(2,3) ph(1)
      by (simp add: apply_transition_def mission_terminal_def requires_phase_def)
    then have "reduce s i = Inr \<lparr>rd_state = record_event ?t i, rd_released_phases = []\<rparr>"
      by (simp add: reduce_fresh [OF that(1)])
    then show ?thesis using ph by (auto simp: status_modify)
  qed
  then show ?thesis by blast
qed

lemma demo_a_pending: "status_of (demo_state [demo_event ''e1'' 1 None MissionStarted]) (Name ''a'') = Some Pending"
  unfolding status_of_def by code_simp

theorem mission_never_stuck_witness:
  "\<exists>p. \<forall>i. fresh_event (demo_state [demo_event ''e1'' 1 None MissionStarted]) i \<and>
       in_transition i = PhaseStarted \<and> in_phase_id i = Some p \<longrightarrow>
     (\<exists>r. reduce (demo_state [demo_event ''e1'' 1 None MissionStarted]) i = Inr r \<and>
        status_of (rd_state r) = (status_of (demo_state [demo_event ''e1'' 1 None MissionStarted]))(p \<mapsto> Running))"
proof (rule mission_never_stuck
    [where mid = "Name ''m''" and defs = demo_plan and log = "[demo_event ''e1'' 1 None MissionStarted]"])
  let ?s = "demo_state [demo_event ''e1'' 1 None MissionStarted]"
  show "replayed (Name ''m'') demo_plan [demo_event ''e1'' 1 None MissionStarted] ?s" by code_simp
  show "ms_status ?s = InProgress" by code_simp
  have "\<forall>ph\<in>set (bt_values (ms_phases ?s)). ph_status ph \<noteq> Running" by code_simp
  then show "\<forall>p. status_of ?s p \<noteq> Some Running"
    using bt_get_in_values by (fastforce simp: status_of_some)
qed (rule demo_a_pending)

end
