(* ===== verification/Mission_Events.thy ===== *)
theory Mission_Events
  imports Mission_Guarantees
begin

text \<open>
  The event side of the reducer: replays are idempotent, identities and sequences are never
  reused, a completed phase releases exactly the phases that became ready, a failed phase skips
  exactly what depended on it, and a finished mission accepts nothing more.
\<close>

section \<open>Replaying a log\<close>

lemma reduce_records:
  assumes "mission_inv s" "reduce s i = Inr r"
  shows "bt_get (ms_applied_events (rd_state r)) (in_event_id i) = Some (fingerprint i)"
  using assms(2)
proof (cases rule: reduce_Inr)
  case (fresh t)
  then show ?thesis using record_event_get(1) [OF fresh_step(2) [OF assms(1) fresh(1,2)]] by simp
qed simp

lemma run_log_records:
  assumes "mission_inv s" "run_log s log = Inr s'" "i \<in> set log"
  shows "bt_get (ms_applied_events s') (in_event_id i) = Some (fingerprint i)"
proof -
  obtain xs ys where log: "log = (xs @ [i]) @ ys"
    using split_list [OF assms(3)] by auto
  obtain t where t: "try_fold reduce_state s (xs @ [i]) = Inr t" "mission_inv t"
      "try_fold reduce_state t ys = Inr s'"
    using mission.run_split [OF assms(1)] assms(2) unfolding run_log_def log by metis
  obtain u where u: "try_fold reduce_state s xs = Inr u" "mission_inv u"
      "try_fold reduce_state u [i] = Inr t"
    using mission.run_split [OF assms(1) t(1)] by metis
  then obtain r where "reduce u i = Inr r" "rd_state r = t"
    by (auto simp: reduce_state_def result_simps)
  then have "bt_get (ms_applied_events t) (in_event_id i) = Some (fingerprint i)"
    using reduce_records [OF u(2)] by blast
  moreover have "later t s'" by (rule mission.run_below [OF t(2,3)])
  ultimately show ?thesis unfolding later_def ledger_extends_def by blast
qed

lemma run_log_recorded:
  "(\<And>i. i \<in> set log \<Longrightarrow> bt_get (ms_applied_events s) (in_event_id i) = Some (fingerprint i)) \<Longrightarrow>
     run_log s log = Inr s"
  by (induction log) (simp_all add: run_log_def reduce_state_def reduce_recorded)

text \<open>
  C4. Replay is idempotent: delivering events of the log again, in any order and any number of
  times, is accepted and leaves the mission exactly as it was.
\<close>

theorem replay_idempotent:
  assumes "replayed mid defs log s" "set again \<subseteq> set log"
  shows "replayed mid defs (log @ again) s"
proof -
  obtain s0 where s0: "MissionState_new mid defs = Inr s0" "run_log s0 log = Inr s" "mission_inv s0"
    using assms(1) by (rule replayedE)
  have "run_log s again = Inr s"
    by (rule run_log_recorded) (use run_log_records [OF s0(3,2)] assms(2) in blast)
  with s0 show ?thesis by (simp add: replayed_def run_log_def try_fold_append)
qed

theorem replay_idempotent_witness:
  "replayed (Name ''m'') demo_plan (demo_log @ rev demo_log) (demo_state demo_log)"
  by (rule replay_idempotent [OF demo_replayed]) simp

text \<open>
  An event accepted under a new identity has a sequence strictly above every recorded one,
  and is recorded without disturbing the others; an event that reuses an identity with any
  different content is refused.
\<close>

theorem event_ledger_grows:
  assumes "replayed mid defs log s"
  shows "(\<forall>r. reduce s i = Inr r \<and> ms_applied_event s (in_event_id i) = None \<longrightarrow>
       (\<forall>e ev. ms_applied_event s e = Some ev \<longrightarrow> ap_sequence ev < in_sequence i) \<and>
       ms_applied_event (rd_state r) = (ms_applied_event s)(in_event_id i \<mapsto> fingerprint i)) \<and>
     (\<forall>ev. ms_applied_event s (in_event_id i) = Some ev \<and> ev \<noteq> fingerprint i \<longrightarrow>
       reduce s i = Inl (EventIdentityConflict (in_event_id i)))"
proof (intro conjI allI impI; (elim conjE)?)
  fix r
  assume red: "reduce s i = Inr r" and new: "ms_applied_event s (in_event_id i) = None"
  have inv: "mission_inv s" by (rule replayed_facts(1) [OF assms])
  then have led: "ledger_ok s" by (simp add: mission_inv_def)
  from red new obtain t where fresh: "fresh_event s i"
    and app: "apply_transition s i = Inr (t, rd_released_phases r)" and r: "rd_state r = record_event t i"
    by (cases rule: reduce_Inr) (auto simp: ms_applied_event_def)
  note facts = fresh_step [OF inv fresh app]
  have same: "ms_applied_events t = ms_applied_events s"
    using facts(1) by (simp add: refines_def same_ledger_def)
  show "ms_applied_event (rd_state r) = (ms_applied_event s)(in_event_id i \<mapsto> fingerprint i)"
    by (auto simp: ms_applied_event_def r record_event_get(1) [OF facts(2)] same)
  show "ap_sequence ev < in_sequence i" if "ms_applied_event s e = Some ev" for e ev
  proof -
    have "bt_get (ms_applied_sequences s) (ap_sequence ev) = Some e"
      using led that by (simp add: ledger_ok_def ms_applied_event_def)
    then show ?thesis by (rule fresh_event_above [OF led fresh])
  qed
qed (simp add: reduce_def ms_applied_event_def)

theorem event_ledger_grows_witness:
  "ms_applied_event (demo_state demo_log) (Name ''e9'') = None \<and>
   ms_applied_event (demo_state (demo_log @ [demo_event ''e9'' 9 None (Unknown ''x'' ())])) =
     (ms_applied_event (demo_state demo_log))(Name ''e9'' \<mapsto>
        fingerprint (demo_event ''e9'' 9 None (Unknown ''x'' ())))"
proof
  let ?i = "demo_event ''e9'' 9 None (Unknown ''x'' ())"
  show new: "ms_applied_event (demo_state demo_log) (Name ''e9'') = None" by code_simp
  have "reduce (demo_state demo_log) ?i =
      Inr \<lparr>rd_state = demo_state (demo_log @ [?i]), rd_released_phases = []\<rparr>"
    by code_simp
  with event_ledger_grows [OF demo_replayed, of ?i] new
  show "ms_applied_event (demo_state (demo_log @ [?i])) =
     (ms_applied_event (demo_state demo_log))(Name ''e9'' \<mapsto> fingerprint ?i)"
    by (auto simp: demo_event_def)
qed

section \<open>What one event changes\<close>

lemma reduce_new:
  assumes "reduce s i = Inr r" "ms_applied_event s (in_event_id i) = None"
  obtains t where "fresh_event s i" "apply_transition s i = Inr (t, rd_released_phases r)"
    "rd_state r = record_event t i"
  using assms by (cases rule: reduce_Inr) (auto simp: ms_applied_event_def)

definition ready_phase :: "PhaseDefinition list \<Rightarrow> 'v MissionState \<Rightarrow> PhaseId \<Rightarrow> bool" where
  "ready_phase defs s c \<longleftrightarrow>
     status_of s c = Some Pending \<and>
     (\<forall>d. (c, d) \<in> plan_edges defs \<longrightarrow> status_of s d = Some PhaseStatus.Completed)"

lemma newly_released_status:
  "newly_released s p =
     filter (\<lambda>c. status_of s c = Some Pending \<and> p \<in> deps_of s c \<and>
        (\<forall>d\<in>deps_of s c. status_of s d = Some PhaseStatus.Completed)) (ms_phase_order s)"
proof -
  have "(case bt_get (ms_phases s) d of None \<Rightarrow> False | Some dep \<Rightarrow> ph_status dep = PhaseStatus.Completed)
      \<longleftrightarrow> status_of s d = Some PhaseStatus.Completed" for d
    by (simp add: status_of_get split: option.split)
  then show ?thesis
    unfolding newly_released_def
    by (intro filter_cong)
      (auto simp: status_of_get deps_of_def dep_of_def list_all_iff split: option.splits)
qed

text \<open>
  Completing a phase releases exactly the phases that this event made ready to start:
  those that are pending with every dependency completed now, and were not so before, in plan
  order. No other transition releases anything.
\<close>

theorem released_phases_exact:
  assumes rep: "replayed mid defs log s" and red: "reduce s i = Inr r"
    and new: "ms_applied_event s (in_event_id i) = None"
  shows "rd_released_phases r =
    (if in_transition i = PhaseCompleted
     then filter (\<lambda>c. ready_phase defs (rd_state r) c \<and> \<not> ready_phase defs s c) (map def_id defs)
     else [])"
proof -
  note facts = replayed_facts [OF rep]
  obtain t where fresh: "fresh_event s i"
    and app: "apply_transition s i = Inr (t, rd_released_phases r)" and r: "rd_state r = record_event t i"
    using red new by (rule reduce_new)
  show ?thesis
  proof (cases "in_transition i = PhaseCompleted")
    case False
    then show ?thesis using apply_transition_Inr(12) [OF app] by simp
  next
    case True
    obtain p where fin: "finish_phase s i PhaseStatus.Completed None None = Inr t"
      and p: "in_phase_id i = Some p" and rel: "rd_released_phases r = newly_released t p"
      using apply_transition_Inr(7) [OF app True] by (auto simp: complete_phase_Inr)
    from fin obtain q where q: "in_phase_id i = Some q" "status_of s q = Some Running"
      "status_of t = (status_of s)(q \<mapsto> PhaseStatus.Completed)" and same: "same_plan s t"
      by (rule finish_phase_effect)
    have edges: "deps_of t c = {d. (c, d) \<in> plan_edges defs}" for c
      using facts(2) by (simp add: same_plan_deps [OF same])
    have order: "ms_phase_order t = map def_id defs"
      using same facts(3) by (simp add: same_plan_def)
    have "(status_of t c = Some Pending \<and> p \<in> deps_of t c \<and>
        (\<forall>d\<in>deps_of t c. status_of t d = Some PhaseStatus.Completed)) \<longleftrightarrow>
      ready_phase defs t c \<and> \<not> ready_phase defs s c" for c
      using p q by (auto simp: ready_phase_def edges)
    moreover have "ready_phase defs (rd_state r) = ready_phase defs t"
      by (simp add: r ready_phase_def fun_eq_iff)
    ultimately show ?thesis
      by (simp add: rel newly_released_status order True)
  qed
qed

theorem released_phases_exact_witness:
  "\<exists>r. reduce (demo_state demo_log) (demo_event ''e5'' 6 (Some ''b'') PhaseCompleted) = Inr r \<and>
     [Name ''c''] = filter (\<lambda>c. ready_phase demo_plan (rd_state r) c \<and>
        \<not> ready_phase demo_plan (demo_state demo_log) c) (map def_id demo_plan)"
proof -
  let ?i = "demo_event ''e5'' 6 (Some ''b'') PhaseCompleted"
  let ?r = "\<lparr>rd_state = demo_state (demo_log @ [?i]), rd_released_phases = [Name ''c'']\<rparr>"
  have red: "reduce (demo_state demo_log) ?i = Inr ?r" by code_simp
  have new: "ms_applied_event (demo_state demo_log) (in_event_id ?i) = None" by code_simp
  have "in_transition ?i = PhaseCompleted" by (simp add: demo_event_def)
  with released_phases_exact [OF demo_replayed red new] red show ?thesis by auto
qed

section \<open>Failure and the end of a mission\<close>

lemma doomed_settled:
  assumes "\<sigma> p \<noteq> Some Pending" "st \<noteq> Pending"
  shows "doomed D (\<sigma>(p \<mapsto> st)) p q \<longleftrightarrow> doomed D \<sigma> p q"
proof
  assume "doomed D (\<sigma>(p \<mapsto> st)) p q"
  then show "doomed D \<sigma> p q"
    by (induction rule: doomed.induct)
      (use assms(2) in \<open>auto intro: doomed.direct doomed.transitive split: if_splits\<close>)
next
  assume "doomed D \<sigma> p q"
  then show "doomed D (\<sigma>(p \<mapsto> st)) p q"
    by (induction rule: doomed.induct)
      (use assms(1) in \<open>auto intro: doomed.direct doomed.transitive simp: fun_upd_def\<close>)
qed

lemma skip_dependents_get:
  assumes "plan_ok s" "status_of s root \<noteq> Some Pending"
  shows "bt_get (ms_phases (skip_pending_dependents s root ts why)) q =
     (if doomed (deps_of s) (status_of s) root q
      then map_option (mark_skipped ts why) (bt_get (ms_phases s) q) else bt_get (ms_phases s) q)"
proof -
  have hyp: "st_of (ms_phases s) root \<noteq> Some Pending"
    "set (map fst (ms_phases s)) \<subseteq> set (ms_phase_order s)"
    using assms by (simp_all add: status_of_def plan_ok_def)
  show ?thesis
    by (simp add: skip_pending_dependents_def skip_loop_get(1) [OF hyp] deps_of_def status_of_def)
qed

text \<open>
  C1. When a new event fails a phase, nothing is released and the state changes in its phases and its
  ledger only: the event is entered under its identity and its sequence, which becomes the greatest one
  applied. Of the phases, the failed one gets the failure; the pending ones that
  depend on it, directly or through other pending phases, are skipped with the reason naming it; and no
  other phase record changes.
\<close>

theorem phase_failure_cascade:
  assumes rep: "replayed mid defs log s" and red: "reduce s i = Inr r"
    and new: "ms_applied_event s (in_event_id i) = None"
    and ev: "in_transition i = PhaseFailed err" "in_phase_id i = Some p"
  shows "\<exists>phases. rd_released_phases r = [] \<and>
    rd_state r = s\<lparr>ms_phases := phases,
      ms_greatest_applied_sequence := Some (in_sequence i),
      ms_applied_events := bt_insert (in_event_id i) (fingerprint i) (ms_applied_events s),
      ms_applied_sequences := bt_insert (in_sequence i) (in_event_id i) (ms_applied_sequences s)\<rparr> \<and>
    (\<forall>q. bt_get phases q =
      (if q = p then map_option (\<lambda>ph. ph\<lparr>ph_status := PhaseStatus.Failed,
           ph_finished_at := Some (in_timestamp i), ph_error := Some err, ph_skip_reason := None\<rparr>)
         (ms_phase s p)
       else if doomed (\<lambda>x. {d. (x, d) \<in> plan_edges defs}) (status_of s) p q
       then map_option (mark_skipped (in_timestamp i) (''dependency '' @ as_str p @ '' failed''))
         (ms_phase s q)
       else ms_phase s q))"
proof -
  note facts = replayed_facts [OF rep]
  have ok: "plan_ok s" using facts(1) by (simp add: mission_inv_def)
  have deps: "deps_of s = (\<lambda>x. {d. (x, d) \<in> plan_edges defs})" using facts(2) by (rule ext)
  obtain t where app: "apply_transition s i = Inr (t, rd_released_phases r)"
    and r: "rd_state r = record_event t i"
    using red new by (rule reduce_new)
  obtain u where fin: "finish_phase s i PhaseStatus.Failed (Some err) None = Inr u"
    and t: "t = skip_pending_dependents u p (in_timestamp i) (''dependency '' @ as_str p @ '' failed'')"
    using apply_transition_Inr(8) [OF app ev(1)] ev(2) by auto
  from fin have running: "status_of s p = Some Running"
    and u: "u = s\<lparr>ms_phases := bt_modify p
              (\<lambda>ph. ph\<lparr>ph_status := PhaseStatus.Failed, ph_finished_at := Some (in_timestamp i),
                        ph_error := Some err, ph_skip_reason := None\<rparr>) (ms_phases s)\<rparr>"
    using ev(2) by (auto simp: finish_phase_Inr status_of_get)
  from fin have st: "status_of u = (status_of s)(p \<mapsto> PhaseStatus.Failed)" and same: "same_plan s u"
    by (rule finish_phase_effect, use ev(2) in auto)+
  have root: "status_of u p \<noteq> Some Pending" by (simp add: st)
  have failed: "ms_phases u = bt_modify p
      (\<lambda>ph. ph\<lparr>ph_status := PhaseStatus.Failed, ph_finished_at := Some (in_timestamp i),
                ph_error := Some err, ph_skip_reason := None\<rparr>) (ms_phases s)"
    by (simp add: u)
  have "\<not> doomed (deps_of s) (status_of s) p p"
    using doomed_pending [of "deps_of s" "status_of s" p p] running by auto
  then have phases: "bt_get (ms_phases t) q =
      (if q = p then map_option (\<lambda>ph. ph\<lparr>ph_status := PhaseStatus.Failed,
           ph_finished_at := Some (in_timestamp i), ph_error := Some err, ph_skip_reason := None\<rparr>)
         (ms_phase s p)
       else if doomed (\<lambda>x. {d. (x, d) \<in> plan_edges defs}) (status_of s) p q
       then map_option (mark_skipped (in_timestamp i) (''dependency '' @ as_str p @ '' failed''))
         (ms_phase s q)
       else ms_phase s q)" for q
    using running
    by (auto simp: ms_phase_def t skip_dependents_get [OF same_plan_ok [OF same ok] root]
        same_plan_deps [OF same] st doomed_settled failed deps [symmetric])
  have "t = s\<lparr>ms_phases := ms_phases t\<rparr>" by (simp add: t u skip_pending_dependents_def)
  then have "rd_state r = record_event (s\<lparr>ms_phases := ms_phases t\<rparr>) i" using r by simp
  moreover have "rd_released_phases r = []" using apply_transition_Inr(12) [OF app] ev(1) by simp
  ultimately show ?thesis
    using phases by (intro exI [of _ "ms_phases t"]) (simp add: record_event_def)
qed

theorem phase_failure_cascade_witness:
  "let s = demo_state (demo_log @ [demo_event ''e5'' 6 (Some ''b'') (PhaseFailed ''x'')]) in
    map_option ph_status (ms_phase s (Name ''c'')) = Some Skipped \<and> ms_status s = ms_status (demo_state demo_log)"
proof -
  let ?i = "demo_event ''e5'' 6 (Some ''b'') (PhaseFailed ''x'')"
  let ?r = "\<lparr>rd_state = demo_state (demo_log @ [?i]), rd_released_phases = []\<rparr>"
  have red: "reduce (demo_state demo_log) ?i = Inr ?r" by code_simp
  have new: "ms_applied_event (demo_state demo_log) (in_event_id ?i) = None" by code_simp
  have edge: "(Name ''c'', Name ''b'') \<in> plan_edges demo_plan"
    by (subst plan_edges_distinct) (simp_all add: demo_plan_def)
  have "status_of (demo_state demo_log) (Name ''c'') = Some Pending"
    unfolding status_of_def by code_simp
  with edge have doomed: "doomed (\<lambda>x. {d. (x, d) \<in> plan_edges demo_plan}) (status_of (demo_state demo_log))
      (Name ''b'') (Name ''c'')"
    by (auto intro: doomed.direct)
  have known: "ms_phase (demo_state demo_log) (Name ''c'') \<noteq> None" by code_simp
  have ev: "in_transition ?i = PhaseFailed ''x''" "in_phase_id ?i = Some (Name ''b'')"
    by (simp_all add: demo_event_def)
  from phase_failure_cascade [OF demo_replayed red new ev] obtain phases where
    state: "ms_phases (demo_state (demo_log @ [?i])) = phases" "ms_status (demo_state (demo_log @ [?i])) = ms_status (demo_state demo_log)"
    and phases: "\<forall>q. bt_get phases q =
      (if q = Name ''b'' then map_option (\<lambda>ph. ph\<lparr>ph_status := PhaseStatus.Failed,
           ph_finished_at := Some (in_timestamp ?i), ph_error := Some ''x'', ph_skip_reason := None\<rparr>)
         (ms_phase (demo_state demo_log) (Name ''b''))
       else if doomed (\<lambda>x. {d. (x, d) \<in> plan_edges demo_plan}) (status_of (demo_state demo_log)) (Name ''b'') q
       then map_option (mark_skipped (in_timestamp ?i) (''dependency '' @ as_str (Name ''b'') @ '' failed''))
         (ms_phase (demo_state demo_log) q)
       else ms_phase (demo_state demo_log) q)"
    by auto
  have "ms_phase (demo_state (demo_log @ [?i])) (Name ''c'') = bt_get phases (Name ''c'')"
    by (simp add: ms_phase_def state(1))
  then show ?thesis using phases doomed known state(2) by (auto simp: mark_skipped_def Let_def)
qed

lemma reduce_terminal:
  assumes "mission_terminal (ms_status s)" "is_lifecycle (in_transition i)"
    "ms_applied_event s (in_event_id i) = None"
  shows "\<not> is_ok (reduce s i)"
proof
  assume "is_ok (reduce s i)"
  then obtain r where "reduce s i = Inr r" by (auto simp: is_ok_iff)
  then obtain t where "apply_transition s i = Inr (t, rd_released_phases r)"
    using assms(3) by (rule reduce_new)
  with apply_transition_Inr(1) assms(1,2) show False by blast
qed

text \<open>
  A mission that has completed, failed or been cancelled is final: a new lifecycle event is
  refused, and an event that is still accepted (a replay, or one of a kind the reducer does not
  know) changes neither the mission status nor any phase.
\<close>

theorem terminal_mission_final:
  assumes rep: "replayed mid defs log s" and ended: "mission_terminal (ms_status s)"
  shows "(is_lifecycle (in_transition i) \<and> ms_applied_event s (in_event_id i) = None \<longrightarrow>
       \<not> is_ok (reduce s i)) \<and>
     (\<forall>r. reduce s i = Inr r \<longrightarrow>
       ms_status (rd_state r) = ms_status s \<and> ms_phases (rd_state r) = ms_phases s)"
proof (intro conjI impI allI; (elim conjE)?)
  fix r
  assume red: "reduce s i = Inr r"
  have "rd_state r = s \<or> rd_state r = record_event s i"
    using red
  proof (cases rule: reduce_Inr)
    case (fresh t)
    have "\<not> is_lifecycle (in_transition i)" using apply_transition_Inr(1) [OF fresh(2)] ended by blast
    then obtain x v where "in_transition i = Unknown x v"
      by (auto simp: is_lifecycle_def split: ReducerTransition.splits)
    then have "t = s" using apply_transition_Inr(11) [OF fresh(2)] by blast
    with fresh show ?thesis by simp
  qed simp
  then show "ms_status (rd_state r) = ms_status s" "ms_phases (rd_state r) = ms_phases s" by auto
qed (use reduce_terminal [OF ended] in blast)

theorem terminal_mission_final_witness:
  "\<not> is_ok (reduce (demo_state (demo_log @ [demo_event ''e5'' 6 None (MissionCancelled ''stop'')]))
     (demo_event ''e6'' 7 (Some ''a'') PhaseStarted))"
proof -
  let ?log = "demo_log @ [demo_event ''e5'' 6 None (MissionCancelled ''stop'')]"
  let ?i = "demo_event ''e6'' 7 (Some ''a'') PhaseStarted"
  have "replayed (Name ''m'') demo_plan ?log (demo_state ?log)" by code_simp
  moreover have "mission_terminal (ms_status (demo_state ?log))" by code_simp
  moreover have "is_lifecycle (in_transition ?i)" by code_simp
  moreover have "ms_applied_event (demo_state ?log) (in_event_id ?i) = None" by code_simp
  ultimately show ?thesis using terminal_mission_final by blast
qed

text \<open>
  Nothing that happened is undone: extending the log keeps every finished phase as it
  finished and every recorded event, and keeps the whole lifecycle once the mission ended.
\<close>

theorem history_is_final:
  assumes "replayed mid defs log s" "replayed mid defs (log @ later_log) s'"
  shows "(\<forall>p st. status_of s p = Some st \<and> phase_terminal st \<longrightarrow> status_of s' p = Some st) \<and>
     (\<forall>e ev. ms_applied_event s e = Some ev \<longrightarrow> ms_applied_event s' e = Some ev) \<and>
     (mission_terminal (ms_status s) \<longrightarrow> ms_status s' = ms_status s \<and> status_of s' = status_of s)"
proof -
  obtain s0 where "MissionState_new mid defs = Inr s0" "run_log s0 log = Inr s"
    using assms(1) by (rule replayedE)
  with assms(2) have "try_fold reduce_state s later_log = Inr s'"
    by (simp add: replayed_def run_log_def try_fold_append)
  then have "later s s'" by (rule mission.run_below [OF replayed_facts(1) [OF assms(1)]])
  then show ?thesis
    by (auto simp: later_def ledger_extends_def ms_applied_event_def abs_life_def)
qed

theorem history_is_final_witness:
  "status_of (demo_state demo_log) (Name ''a'') = Some PhaseStatus.Completed"
proof -
  have "replayed (Name ''m'') demo_plan (take 3 demo_log) (demo_state (take 3 demo_log))" by code_simp
  moreover have "replayed (Name ''m'') demo_plan (take 3 demo_log @ drop 3 demo_log) (demo_state demo_log)"
    by code_simp
  moreover have "status_of (demo_state (take 3 demo_log)) (Name ''a'') = Some PhaseStatus.Completed"
    unfolding status_of_def by code_simp
  moreover have "phase_terminal PhaseStatus.Completed" by (simp add: phase_terminal_def)
  ultimately show ?thesis using history_is_final by blast
qed

end
