(* ===== verification/Watchdog.thy ===== *)
theory Watchdog
  imports Machine
begin

text \<open>
  The monotonic watchdog and the ordered supervisor turn
  (\<^verbatim>\<open>orchestrator-core/src/watchdog.rs\<close>). The injected clock is the reading it returns, the
  injected activity source the snapshot it returns; a \<open>Duration\<close> is its number of nanoseconds.
  \<open>evaluate_at\<close> takes \<open>&mut self\<close>, so it returns the watchdog beside its result, in the error
  case too.
\<close>

section \<open>Instants and snapshots\<close>

datatype MonoInstant = MonoInstant (as_nanos: u64)

definition MonoInstant_checked_add :: "MonoInstant \<Rightarrow> nat \<Rightarrow> MonoInstant option" where
  "MonoInstant_checked_add t duration =
     (if duration < 2 ^ 64
      then map_option MonoInstant (checked_add (as_nanos t) (of_nat duration)) else None)"

definition std_clock_now :: "nat \<Rightarrow> MonoInstant" where
  "std_clock_now elapsed = MonoInstant (if elapsed < 2 ^ 64 then of_nat elapsed else - 1)"

datatype ActivityKind = Spawn | Stdout | Stderr | Heartbeat | Progress

record ActivitySnapshot =
  act_generation :: u64
  act_at :: MonoInstant
  act_kind :: ActivityKind

datatype WatchdogDecision =
    Continue MonoInstant
  | Stalled MonoInstant MonoInstant

datatype WatchdogError =
    InvalidTimeout
  | ClockMovedBackward
  | ActivityMovedBackward
  | ActivityFromFuture
  | ActivityConflict
  | DeadlineOverflow

section \<open>The watchdog\<close>

record Watchdog =
  wd_timeout :: nat
  wd_last_activity :: ActivitySnapshot
  wd_last_now :: MonoInstant

definition Watchdog_new :: "nat \<Rightarrow> ActivitySnapshot \<Rightarrow> WatchdogError + Watchdog" where
  "Watchdog_new timeout initial =
     (if timeout = 0 \<or> \<not> timeout < 2 ^ 64 then Inl InvalidTimeout
      else Inr \<lparr>wd_timeout = timeout, wd_last_activity = initial, wd_last_now = act_at initial\<rparr>)"

definition evaluate_at ::
    "Watchdog \<Rightarrow> MonoInstant \<Rightarrow> ActivitySnapshot \<Rightarrow> (WatchdogError + WatchdogDecision) \<times> Watchdog" where
  "evaluate_at w now latest =
     (let last = wd_last_activity w in
      if as_nanos now < as_nanos (wd_last_now w) \<or> as_nanos now < as_nanos (act_at last)
      then (Inl ClockMovedBackward, w)
      else if act_generation latest < act_generation last
        \<or> as_nanos (act_at latest) < as_nanos (act_at last)
      then (Inl ActivityMovedBackward, w)
      else if as_nanos now < as_nanos (act_at latest) then (Inl ActivityFromFuture, w)
      else if act_generation latest = act_generation last \<and> latest \<noteq> last
      then (Inl ActivityConflict, w)
      else
        let effective = (if act_generation last < act_generation latest then latest else last) in
        case MonoInstant_checked_add (act_at effective) (wd_timeout w) of
          None \<Rightarrow> (Inl DeadlineOverflow, w)
        | Some deadline \<Rightarrow>
            let w' = w\<lparr>wd_last_activity := effective, wd_last_now := now\<rparr> in
            if as_nanos deadline \<le> as_nanos now
            then (Inr (Stalled (act_at effective) deadline), w')
            else (Inr (Continue deadline), w'))"

section \<open>One supervisor turn\<close>

record SupervisorTurnInput =
  external_cancelled :: bool
  direct_exit_observed :: bool
  hard_deadline :: MonoInstant
  latest_activity :: ActivitySnapshot

datatype SupervisorTurnDecision =
    TurnCancel
  | TurnExitObserved
  | TurnHardTimeout
  | TurnContinue MonoInstant
  | TurnStalled MonoInstant MonoInstant

definition evaluate_supervisor_turn ::
    "Watchdog \<Rightarrow> MonoInstant \<Rightarrow> SupervisorTurnInput
      \<Rightarrow> (WatchdogError + SupervisorTurnDecision) \<times> Watchdog" where
  "evaluate_supervisor_turn w now input =
     (if external_cancelled input then (Inr TurnCancel, w)
      else if direct_exit_observed input then (Inr TurnExitObserved, w)
      else if as_nanos (hard_deadline input) \<le> as_nanos now then (Inr TurnHardTimeout, w)
      else
        case evaluate_at w now (latest_activity input) of
          (Inl e, w') \<Rightarrow> (Inl e, w')
        | (Inr (Continue deadline), w') \<Rightarrow> (Inr (TurnContinue deadline), w')
        | (Inr (Stalled activity deadline), w') \<Rightarrow> (Inr (TurnStalled activity deadline), w'))"

section \<open>The verdict\<close>

definition wd_inv :: "Watchdog \<Rightarrow> bool" where
  "wd_inv w \<longleftrightarrow> 0 < wd_timeout w \<and> wd_timeout w < 2 ^ 64 \<and>
     as_nanos (act_at (wd_last_activity w)) \<le> as_nanos (wd_last_now w)"

lemma Watchdog_new_inv: "Watchdog_new d a = Inr w \<Longrightarrow> wd_inv w"
  by (auto simp: Watchdog_new_def wd_inv_def split: if_splits)

definition admissible :: "Watchdog \<Rightarrow> MonoInstant \<Rightarrow> ActivitySnapshot \<Rightarrow> bool" where
  "admissible w now a \<longleftrightarrow>
     as_nanos (wd_last_now w) \<le> as_nanos now \<and> as_nanos (act_at a) \<le> as_nanos now \<and>
     (a = wd_last_activity w \<or>
      act_generation (wd_last_activity w) < act_generation a \<and>
      as_nanos (act_at (wd_last_activity w)) \<le> as_nanos (act_at a)) \<and>
     unat (as_nanos (act_at a)) + wd_timeout w < 2 ^ 64"

lemma MonoInstant_checked_add_Some:
  "d < 2 ^ 64 \<Longrightarrow> MonoInstant_checked_add t d = Some t' \<longleftrightarrow>
     unat (as_nanos t) + d < 2 ^ 64 \<and> t' = MonoInstant (as_nanos t + of_nat d)"
  by (auto simp: MonoInstant_checked_add_def checked_add_def unat_of_nat)

lemma MonoInstant_checked_add_None:
  "d < 2 ^ 64 \<Longrightarrow> MonoInstant_checked_add t d = None \<longleftrightarrow> \<not> unat (as_nanos t) + d < 2 ^ 64"
  by (auto simp: MonoInstant_checked_add_def checked_add_def unat_of_nat)

lemma deadline_unat:
  "unat (as_nanos t) + d < 2 ^ 64 \<Longrightarrow> unat (as_nanos t + of_nat d) = unat (as_nanos t) + d"
  by (simp add: unat_word_ariths unat_of_nat)

lemma evaluate_at_admissible:
  assumes "wd_inv w" "admissible w now a"
  shows "evaluate_at w now a =
    (Inr (if unat (as_nanos (act_at a)) + wd_timeout w \<le> unat (as_nanos now)
          then Stalled (act_at a) (MonoInstant (as_nanos (act_at a) + of_nat (wd_timeout w)))
          else Continue (MonoInstant (as_nanos (act_at a) + of_nat (wd_timeout w)))),
     w\<lparr>wd_last_activity := a, wd_last_now := now\<rparr>)"
proof -
  let ?last = "wd_last_activity w"
  have d: "wd_timeout w < 2 ^ 64" using assms(1) by (simp add: wd_inv_def)
  have room: "unat (as_nanos (act_at a)) + wd_timeout w < 2 ^ 64"
    using assms(2) by (simp add: admissible_def)
  have add: "MonoInstant_checked_add (act_at a) (wd_timeout w) =
      Some (MonoInstant (as_nanos (act_at a) + of_nat (wd_timeout w)))"
    using room by (simp add: MonoInstant_checked_add_Some [OF d])
  have clock: "\<not> as_nanos now < as_nanos (wd_last_now w)" "\<not> as_nanos now < as_nanos (act_at ?last)"
    "\<not> as_nanos now < as_nanos (act_at a)"
    using assms by (auto simp: admissible_def wd_inv_def)
  have eff: "(if act_generation ?last < act_generation a then a else ?last) = a"
    "\<not> (act_generation a < act_generation ?last \<or> as_nanos (act_at a) < as_nanos (act_at ?last))"
    "\<not> (act_generation a = act_generation ?last \<and> a \<noteq> ?last)"
    using assms(2) by (auto simp: admissible_def)
  show ?thesis
    using clock(1,2) eff
    by (simp add: evaluate_at_def Let_def clock(3) add word_le_nat_alt deadline_unat [OF room])
qed

lemma evaluate_at_refused:
  assumes "wd_inv w" "\<not> admissible w now a"
  shows "\<exists>e. evaluate_at w now a = (Inl e, w)"
proof -
  let ?last = "wd_last_activity w"
  have d: "wd_timeout w < 2 ^ 64" using assms(1) by (simp add: wd_inv_def)
  show ?thesis
  proof (cases "as_nanos now < as_nanos (wd_last_now w) \<or> as_nanos now < as_nanos (act_at ?last)
      \<or> act_generation a < act_generation ?last \<or> as_nanos (act_at a) < as_nanos (act_at ?last)
      \<or> as_nanos now < as_nanos (act_at a)
      \<or> act_generation a = act_generation ?last \<and> a \<noteq> ?last")
    case True
    then show ?thesis unfolding evaluate_at_def Let_def by (elim disjE) simp_all
  next
    case False
    then have c: "\<not> as_nanos now < as_nanos (wd_last_now w)" "\<not> as_nanos now < as_nanos (act_at ?last)"
      "\<not> act_generation a < act_generation ?last" "\<not> as_nanos (act_at a) < as_nanos (act_at ?last)"
      "\<not> as_nanos now < as_nanos (act_at a)" "\<not> (act_generation a = act_generation ?last \<and> a \<noteq> ?last)"
      by blast+
    have eff: "(if act_generation ?last < act_generation a then a else ?last) = a"
      using c(3,6) by (auto simp: not_less)
    have "\<not> unat (as_nanos (act_at a)) + wd_timeout w < 2 ^ 64"
      using assms(2) c by (auto simp: admissible_def not_less)
    then have "MonoInstant_checked_add (act_at a) (wd_timeout w) = None"
      by (simp add: MonoInstant_checked_add_None [OF d])
    with c eff show ?thesis by (simp add: evaluate_at_def Let_def)
  qed
qed

lemma evaluate_at_Inr:
  assumes "wd_inv w"
  shows "(\<exists>v w'. evaluate_at w now a = (Inr v, w')) \<longleftrightarrow> admissible w now a"
  using evaluate_at_admissible [OF assms] evaluate_at_refused [OF assms]
  by (cases "admissible w now a") fastforce+

text \<open>
  A watchdog turn is accepted exactly when the clock has not moved back, the snapshot is the
  last one or a newer generation not from the future, and the deadline is representable. It then
  reports a stall exactly when the timeout has elapsed since that snapshot, as computed without
  wrap-around; a refused turn leaves the watchdog unchanged.
\<close>

theorem watchdog_verdict_exact:
  assumes "wd_inv w"
  shows "if admissible w now a
    then \<exists>d. unat d = unat (as_nanos (act_at a)) + wd_timeout w \<and>
      evaluate_at w now a =
        (Inr (if unat d \<le> unat (as_nanos now) then Stalled (act_at a) (MonoInstant d)
              else Continue (MonoInstant d)),
         w\<lparr>wd_last_activity := a, wd_last_now := now\<rparr>)
    else \<exists>e. evaluate_at w now a = (Inl e, w)"
proof (cases "admissible w now a")
  case True
  then have "unat (as_nanos (act_at a)) + wd_timeout w < 2 ^ 64" by (simp add: admissible_def)
  then have d: "unat (as_nanos (act_at a) + of_nat (wd_timeout w)) =
      unat (as_nanos (act_at a)) + wd_timeout w"
    by (rule deadline_unat)
  have "evaluate_at w now a =
        (Inr (if unat (as_nanos (act_at a) + of_nat (wd_timeout w)) \<le> unat (as_nanos now)
              then Stalled (act_at a) (MonoInstant (as_nanos (act_at a) + of_nat (wd_timeout w)))
              else Continue (MonoInstant (as_nanos (act_at a) + of_nat (wd_timeout w)))),
         w\<lparr>wd_last_activity := a, wd_last_now := now\<rparr>)"
    unfolding d by (rule evaluate_at_admissible [OF assms True])
  with d show ?thesis unfolding if_P [OF True] by (intro exI conjI)
next
  case False
  with evaluate_at_refused [OF assms False] show ?thesis by simp
qed

definition demo_snapshot :: "u64 \<Rightarrow> u64 \<Rightarrow> ActivitySnapshot" where
  "demo_snapshot g t = \<lparr>act_generation = g, act_at = MonoInstant t, act_kind = Stdout\<rparr>"

definition demo_watchdog :: Watchdog where
  "demo_watchdog =
     \<lparr>wd_timeout = 10, wd_last_activity = demo_snapshot 1 5, wd_last_now = MonoInstant 5\<rparr>"

lemma demo_watchdog_inv: "wd_inv demo_watchdog"
  by (simp add: wd_inv_def demo_watchdog_def demo_snapshot_def)

theorem watchdog_verdict_exact_witness:
  "\<exists>d. unat d = 15 \<and> evaluate_at demo_watchdog (MonoInstant 15) (demo_snapshot 1 5) =
     (Inr (Stalled (MonoInstant 5) (MonoInstant d)),
      demo_watchdog\<lparr>wd_last_activity := demo_snapshot 1 5, wd_last_now := MonoInstant 15\<rparr>)"
proof -
  have "admissible demo_watchdog (MonoInstant 15) (demo_snapshot 1 5)"
    by (simp add: admissible_def demo_watchdog_def demo_snapshot_def)
  with watchdog_verdict_exact [OF demo_watchdog_inv, of "MonoInstant 15" "demo_snapshot 1 5"]
  show ?thesis by (auto simp: demo_watchdog_def demo_snapshot_def)
qed

section \<open>Sequences of turns\<close>

definition wd_step :: "Watchdog \<Rightarrow> MonoInstant \<times> ActivitySnapshot \<Rightarrow> WatchdogError + Watchdog" where
  "wd_step w i =
     (case evaluate_at w (fst i) (snd i) of (Inl e, w') \<Rightarrow> Inl e | (Inr v, w') \<Rightarrow> Inr w')"

text \<open>What never moves back: the clock, the activity time and the activity generation.\<close>

definition wd_below :: "Watchdog \<Rightarrow> Watchdog \<Rightarrow> bool" where
  "wd_below w w' \<longleftrightarrow>
     wd_timeout w' = wd_timeout w \<and>
     as_nanos (wd_last_now w) \<le> as_nanos (wd_last_now w') \<and>
     as_nanos (act_at (wd_last_activity w)) \<le> as_nanos (act_at (wd_last_activity w')) \<and>
     (wd_last_activity w' = wd_last_activity w \<or>
      act_generation (wd_last_activity w) < act_generation (wd_last_activity w'))"

lemma wd_step_Inr:
  "wd_inv w \<Longrightarrow> wd_step w i = Inr w' \<longleftrightarrow>
     admissible w (fst i) (snd i) \<and> w' = w\<lparr>wd_last_activity := snd i, wd_last_now := fst i\<rparr>"
  using evaluate_at_admissible [of w "fst i" "snd i"] evaluate_at_refused [of w "fst i" "snd i"]
  by (cases "admissible w (fst i) (snd i)") (auto simp: wd_step_def)

interpretation watchdog: climbing_machine wd_step wd_inv wd_below
proof
  show "wd_inv w \<Longrightarrow> wd_step w i = Inr w' \<Longrightarrow> wd_inv w'" for w w' i
    by (auto simp: wd_step_Inr wd_inv_def admissible_def)
  show "wd_inv w \<Longrightarrow> wd_step w i = Inr w' \<Longrightarrow> wd_below w w'" for w w' i
    by (auto simp: wd_step_Inr wd_below_def admissible_def)
  show "wd_below w w" for w by (simp add: wd_below_def)
  show "wd_below w u \<Longrightarrow> wd_below u v \<Longrightarrow> wd_below w v" for w u v
    unfolding wd_below_def by (elim conjE) (intro conjI, auto intro: order_trans less_trans)
qed

text \<open>
  The readings and snapshots a watchdog has accepted, from the first on: a later reading is never
  before an earlier one, and a later snapshot is the earlier one or a newer generation that is not older.
\<close>

definition forward :: "MonoInstant \<times> ActivitySnapshot \<Rightarrow> MonoInstant \<times> ActivitySnapshot \<Rightarrow> bool" where
  "forward x y \<longleftrightarrow>
     as_nanos (fst x) \<le> as_nanos (fst y) \<and>
     (snd y = snd x \<or>
      act_generation (snd x) < act_generation (snd y) \<and> as_nanos (act_at (snd x)) \<le> as_nanos (act_at (snd y)))"

definition accepted_ok :: "nat \<Rightarrow> (MonoInstant \<times> ActivitySnapshot) list \<Rightarrow> Watchdog \<Rightarrow> bool" where
  "accepted_ok timeout xs w \<longleftrightarrow>
     xs \<noteq> [] \<and> last xs = (wd_last_now w, wd_last_activity w) \<and> wd_timeout w = timeout \<and> wd_inv w \<and>
     sorted_wrt forward xs \<and> list_all (\<lambda>x. as_nanos (act_at (snd x)) \<le> as_nanos (fst x)) xs"

lemma forward_trans: "forward x y \<Longrightarrow> forward y z \<Longrightarrow> forward x z"
  by (auto simp: forward_def)

lemma accepted_step:
  assumes ok: "accepted_ok timeout xs w" and step: "wd_step w i = Inr w'"
  shows "accepted_ok timeout (xs @ [i]) w'"
proof -
  have inv: "wd_inv w" and xs: "xs \<noteq> []" "last xs = (wd_last_now w, wd_last_activity w)"
    using ok by (simp_all add: accepted_ok_def)
  from step have adm: "admissible w (fst i) (snd i)" and w': "w' = w\<lparr>wd_last_activity := snd i, wd_last_now := fst i\<rparr>"
    by (simp_all add: wd_step_Inr [OF inv])
  have next_one: "forward (last xs) i" using adm by (auto simp: forward_def admissible_def xs(2))
  have "forward x i" if "x \<in> set xs" for x
  proof (cases "x = last xs")
    case False
    have "xs = butlast xs @ [last xs]" using xs(1) by simp
    with ok have "sorted_wrt forward (butlast xs @ [last xs])" unfolding accepted_ok_def by metis
    moreover have "x \<in> set (butlast xs)" using that False xs(1) by (metis in_set_butlast_appendI append_butlast_last_id
          in_set_conv_decomp set_ConsD butlast_append snoc_eq_iff_butlast Un_iff set_append)
    ultimately have "forward x (last xs)" by (simp add: sorted_wrt_append)
    then show ?thesis using next_one by (rule forward_trans)
  qed (use next_one in simp)
  moreover have "wd_inv w'" using watchdog.run_inv [OF inv, of "[i]" w'] step by simp
  ultimately show ?thesis
    using ok adm by (auto simp: accepted_ok_def w' sorted_wrt_append admissible_def)
qed

lemma accepted_run:
  "accepted_ok timeout xs w \<Longrightarrow> try_fold wd_step w turns = Inr w' \<Longrightarrow> accepted_ok timeout (xs @ turns) w'"
proof (induction turns arbitrary: xs w)
  case (Cons i turns)
  then obtain v where v: "wd_step w i = Inr v" "try_fold wd_step v turns = Inr w'"
    by (auto simp: and_then_Inr_iff)
  show ?case using Cons.IH [OF accepted_step [OF Cons.prems(1) v(1)] v(2)] by simp
qed simp

text \<open>
  C8. Over any sequence of accepted turns, no reading of the clock is before an earlier one, and every
  snapshot of activity is the one before it or a newer generation that is not older and never from the
  future of its turn. After them a turn stalls exactly when the configured timeout has passed since its
  activity, counted without wrap-around, else it continues to that deadline; a refused turn leaves the
  watchdog as it was.
\<close>

theorem watchdog_never_stalls_early:
  assumes new: "Watchdog_new timeout initial = Inr w0" and run: "try_fold wd_step w0 turns = Inr w"
  shows "sorted_wrt forward ((act_at initial, initial) # turns) \<and>
     list_all (\<lambda>(now, a). as_nanos (act_at a) \<le> as_nanos now) turns \<and>
     (case evaluate_at w now a of
        (Inl e, w') \<Rightarrow> w' = w
      | (Inr verdict, w') \<Rightarrow>
          sorted_wrt forward ((act_at initial, initial) # turns @ [(now, a)]) \<and>
          (\<exists>deadline. unat deadline = unat (as_nanos (act_at a)) + timeout \<and>
             verdict = (if deadline \<le> as_nanos now then Stalled (act_at a) (MonoInstant deadline)
                        else Continue (MonoInstant deadline))))"
proof -
  let ?xs = "(act_at initial, initial) # turns"
  have "accepted_ok timeout [(act_at initial, initial)] w0"
    using new Watchdog_new_inv [OF new] by (auto simp: accepted_ok_def Watchdog_new_def split: if_splits)
  from accepted_run [OF this run] have ok: "accepted_ok timeout ?xs w" by simp
  then have inv: "wd_inv w" and timeout: "wd_timeout w = timeout" by (simp_all add: accepted_ok_def)
  show ?thesis
  proof (cases "admissible w now a")
    case True
    note eq = evaluate_at_admissible [OF inv True]
    have "wd_step w (now, a) = Inr (w\<lparr>wd_last_activity := a, wd_last_now := now\<rparr>)"
      using True by (simp add: wd_step_Inr [OF inv])
    from accepted_step [OF ok this] have "sorted_wrt forward (?xs @ [(now, a)])" by (simp add: accepted_ok_def)
    moreover have room: "unat (as_nanos (act_at a)) + wd_timeout w < 2 ^ 64" using True by (simp add: admissible_def)
    moreover have "(as_nanos (act_at a) + of_nat (wd_timeout w) \<le> as_nanos now) =
        (unat (as_nanos (act_at a)) + wd_timeout w \<le> unat (as_nanos now))"
      by (simp add: word_le_nat_alt deadline_unat [OF room])
    ultimately show ?thesis
      using ok timeout deadline_unat [OF room]
      by (auto simp: eq accepted_ok_def list_all_iff intro!: exI [of _ "as_nanos (act_at a) + of_nat timeout"])
  next
    case False
    then obtain e where "evaluate_at w now a = (Inl e, w)" using evaluate_at_refused [OF inv] by blast
    then show ?thesis using ok by (auto simp: accepted_ok_def list_all_iff)
  qed
qed

theorem watchdog_never_stalls_early_witness:
  "let w = demo_watchdog\<lparr>wd_last_activity := demo_snapshot 2 8, wd_last_now := MonoInstant 9\<rparr> in
   \<exists>d. unat d = 18 \<and> fst (evaluate_at w (MonoInstant 18) (demo_snapshot 2 8)) = Inr (Stalled (MonoInstant 8) (MonoInstant d))"
proof -
  have new: "Watchdog_new 10 (demo_snapshot 1 5) = Inr demo_watchdog"
    by (simp add: Watchdog_new_def demo_watchdog_def demo_snapshot_def)
  let ?w = "demo_watchdog\<lparr>wd_last_activity := demo_snapshot 2 8, wd_last_now := MonoInstant 9\<rparr>"
  have run: "try_fold wd_step demo_watchdog [(MonoInstant 9, demo_snapshot 2 8)] = Inr ?w"
  proof -
    have "wd_step demo_watchdog (MonoInstant 9, demo_snapshot 2 8) = Inr ?w"
      unfolding wd_step_Inr [OF demo_watchdog_inv]
      by (simp add: admissible_def) (simp add: demo_watchdog_def demo_snapshot_def)
    then show ?thesis by simp
  qed
  have "wd_inv ?w" by (simp add: wd_inv_def demo_watchdog_def demo_snapshot_def)
  moreover have "admissible ?w (MonoInstant 18) (demo_snapshot 2 8)"
    by (simp add: admissible_def demo_watchdog_def demo_snapshot_def)
  ultimately obtain verdict w' where verdict: "evaluate_at ?w (MonoInstant 18) (demo_snapshot 2 8) = (Inr verdict, w')"
    using evaluate_at_Inr by blast
  from watchdog_never_stalls_early [OF new run, of "MonoInstant 18" "demo_snapshot 2 8"] verdict
  obtain d where "unat d = 18"
    "verdict = (if d \<le> 18 then Stalled (MonoInstant 8) (MonoInstant d) else Continue (MonoInstant d))"
    by (auto simp: demo_snapshot_def)
  then show ?thesis using verdict by (auto simp: word_le_nat_alt)
qed

text \<open>
  A supervisor turn decides in a fixed order: cancellation, then an observed exit, then the
  hard deadline, and only then the watchdog, whose state no earlier decision touches. A turn that
  reports a stall was therefore neither cancelled nor finished nor past its hard deadline.
\<close>

theorem supervisor_precedence:
  "let (r, w') = evaluate_supervisor_turn w now input in
     (r = Inr TurnCancel \<longleftrightarrow> external_cancelled input) \<and>
     (r = Inr TurnExitObserved \<longleftrightarrow> \<not> external_cancelled input \<and> direct_exit_observed input) \<and>
     (r = Inr TurnHardTimeout \<longleftrightarrow> \<not> external_cancelled input \<and> \<not> direct_exit_observed input \<and>
        as_nanos (hard_deadline input) \<le> as_nanos now) \<and>
     (\<forall>t d. r = Inr (TurnStalled t d) \<longrightarrow>
        fst (evaluate_at w now (latest_activity input)) = Inr (Stalled t d)) \<and>
     (wd_inv w \<longrightarrow> w' \<noteq> w \<longrightarrow>
        \<not> external_cancelled input \<and> \<not> direct_exit_observed input \<and>
        as_nanos now < as_nanos (hard_deadline input) \<and> admissible w now (latest_activity input))"
proof -
  obtain r0 w0 where at: "evaluate_at w now (latest_activity input) = (r0, w0)" by fastforce
  have "wd_inv w \<Longrightarrow> w0 \<noteq> w \<Longrightarrow> admissible w now (latest_activity input)"
    using evaluate_at_refused [of w now "latest_activity input"] at by fastforce
  then show ?thesis
    by (auto simp: evaluate_supervisor_turn_def at Let_def not_le
        split: if_splits sum.splits WatchdogDecision.splits)
qed

theorem supervisor_precedence_witness:
  "\<exists>d. fst (evaluate_at demo_watchdog (MonoInstant 15) (demo_snapshot 1 5)) =
     Inr (Stalled (MonoInstant 5) d)"
proof -
  let ?i = "\<lparr>external_cancelled = False, direct_exit_observed = False,
    hard_deadline = MonoInstant 20, latest_activity = demo_snapshot 1 5\<rparr>"
  have "admissible demo_watchdog (MonoInstant 15) (demo_snapshot 1 5)"
    by (simp add: admissible_def demo_watchdog_def demo_snapshot_def)
  note at = evaluate_at_admissible [OF demo_watchdog_inv this]
  have "\<exists>d w'. evaluate_supervisor_turn demo_watchdog (MonoInstant 15) ?i =
      (Inr (TurnStalled (MonoInstant 5) d), w')"
    by (simp add: evaluate_supervisor_turn_def at) (simp add: demo_watchdog_def demo_snapshot_def)
  then obtain d w' where "evaluate_supervisor_turn demo_watchdog (MonoInstant 15) ?i =
      (Inr (TurnStalled (MonoInstant 5) d), w')"
    by blast
  then show ?thesis
    using supervisor_precedence [of demo_watchdog "MonoInstant 15" ?i] by (auto simp: Let_def)
qed

end
