(* ===== verification/Verification_Gate.thy ===== *)
theory Verification_Gate
  imports Prelude
begin

text \<open>
  Verification classification and the block/warn policy
  (\<^verbatim>\<open>orchestrator-core/src/verification.rs\<close>): how a supervised check run and its structured
  summary become one of the six quality classes, and what the policy does with it.
\<close>

section \<open>Summaries and outcomes\<close>

definition MAX_CHECK_COUNT :: u64 where
  "MAX_CHECK_COUNT = 1000000"

record VerificationSummary =
  vs_discovered :: u64
  vs_executed :: u64
  vs_passed :: u64
  vs_failed :: u64
  vs_required_skipped :: u64

definition summary_is_valid :: "VerificationSummary \<Rightarrow> bool" where
  "summary_is_valid s =
     (if list_ex (\<lambda>count. MAX_CHECK_COUNT < count)
           [vs_discovered s, vs_executed s, vs_passed s, vs_failed s, vs_required_skipped s]
      then False
      else checked_add (vs_executed s) (vs_required_skipped s) = Some (vs_discovered s)
        \<and> checked_add (vs_passed s) (vs_failed s) = Some (vs_executed s))"

datatype VerificationTermination =
    Exited "32 word"
  | Signaled "32 word"
  | TimedOut
  | Stalled
  | Cancelled
  | InfrastructureError

datatype VerificationClass = Pass | Fail | Skip | NoTests | Timeout | InfraError

datatype VerificationOutcome = Classified VerificationClass | OutcomeCancelled

definition outcome_gate_passed :: "VerificationOutcome \<Rightarrow> bool" where
  "outcome_gate_passed outcome \<longleftrightarrow> outcome = Classified Pass"

text \<open>
  The two \<open>match\<close> expressions of the source: the first returns early for everything but an exit,
  the second orders the guards on the exit code and the counts.
\<close>

definition classify_exit :: "32 word \<Rightarrow> VerificationSummary \<Rightarrow> VerificationOutcome" where
  "classify_exit code s =
     (if code \<noteq> 0 \<and> 0 < vs_failed s then Classified Fail
      else if code \<noteq> 0 then Classified InfraError
      else if code = 0 \<and> 0 < vs_failed s then Classified InfraError
      else if code = 0 \<and> vs_discovered s = 0 then Classified NoTests
      else if code = 0 \<and> 0 < vs_required_skipped s then Classified Skip
      else if code = 0 \<and> 0 < vs_executed s \<and> vs_passed s = vs_executed s then Classified Pass
      else Classified InfraError)"

definition classify_verification ::
    "VerificationTermination \<Rightarrow> VerificationSummary option \<Rightarrow> VerificationOutcome" where
  "classify_verification termination summary =
     (case termination of
        TimedOut \<Rightarrow> Classified Timeout
      | Stalled \<Rightarrow> Classified Timeout
      | InfrastructureError \<Rightarrow> Classified InfraError
      | Signaled _ \<Rightarrow> Classified InfraError
      | Cancelled \<Rightarrow> OutcomeCancelled
      | Exited code \<Rightarrow>
          (case summary of
             None \<Rightarrow> Classified InfraError
           | Some s \<Rightarrow> if summary_is_valid s then classify_exit code s else Classified InfraError))"

datatype VerificationMode = ModeBlock | ModeWarn

datatype VerificationAction = ActContinue | ActBlock | ActCancelled

record VerificationDecision =
  vd_outcome :: VerificationOutcome
  vd_action :: VerificationAction
  vd_gate_passed :: bool
  vd_warning :: bool

definition decide_verification :: "VerificationOutcome \<Rightarrow> VerificationMode \<Rightarrow> VerificationDecision" where
  "decide_verification outcome mode =
     (let passed = outcome_gate_passed outcome;
          action = (case (outcome, mode) of
              (OutcomeCancelled, _) \<Rightarrow> ActCancelled
            | (Classified Pass, _) \<Rightarrow> ActContinue
            | (Classified _, ModeBlock) \<Rightarrow> ActBlock
            | (Classified _, ModeWarn) \<Rightarrow> ActContinue)
      in \<lparr>vd_outcome = outcome, vd_action = action, vd_gate_passed = passed,
          vd_warning = (\<not> passed \<and> action = ActContinue)\<rparr>)"

section \<open>The gate\<close>

text \<open>A summary of a run: the counts add up, in the natural numbers.\<close>

lemma summary_is_valid_iff:
  "summary_is_valid s \<longleftrightarrow>
     (\<forall>n \<in> {vs_discovered s, vs_executed s, vs_passed s, vs_failed s, vs_required_skipped s}.
        unat n \<le> 1000000) \<and>
     unat (vs_discovered s) = unat (vs_executed s) + unat (vs_required_skipped s) \<and>
     unat (vs_executed s) = unat (vs_passed s) + unat (vs_failed s)"
proof -
  have add: "checked_add a b = Some c \<longleftrightarrow> unat c = unat a + unat b"
    if "unat a \<le> 1000000" "unat b \<le> 1000000" for a b c :: u64
    using that by (auto simp: checked_add_def unat_word_ariths word_unat_eq_iff)
  have large: "MAX_CHECK_COUNT < n \<longleftrightarrow> \<not> unat n \<le> 1000000" for n
    by (simp add: MAX_CHECK_COUNT_def word_less_nat_alt not_le)
  show ?thesis
    unfolding summary_is_valid_def large by (simp add: add; linarith)
qed

text \<open>The shape of a valid summary, in words.\<close>

lemma summary_valid_words:
  assumes "summary_is_valid s"
  shows "vs_failed s = 0 \<Longrightarrow> vs_passed s = vs_executed s"
    and "vs_required_skipped s = 0 \<Longrightarrow> vs_executed s = vs_discovered s"
    and "vs_discovered s = 0 \<Longrightarrow> vs_passed s = 0"
  using assms unfolding summary_is_valid_iff
  by (simp_all add: word_unat_eq_iff)

lemma word_pos: "0 < (a :: 'w::len word) \<longleftrightarrow> a \<noteq> 0"
  by (rule word_neq_0_conv [symmetric])

lemma classify_exit_pass:
  assumes "summary_is_valid s"
  shows "classify_exit code s = Classified Pass \<longleftrightarrow>
    code = 0 \<and> vs_discovered s \<noteq> 0 \<and> vs_failed s = 0 \<and> vs_required_skipped s = 0"
  using summary_valid_words [OF assms] by (auto simp: classify_exit_def word_pos)

text \<open>
  The required gate passes exactly when the checks ran to exit code 0 with a consistent
  summary in which at least one check was executed, every executed check passed and none was
  skipped; a timeout, stall, signal, cancellation or infrastructure failure never passes.
\<close>

theorem verification_gate_exact:
  "outcome_gate_passed (classify_verification t summary) \<longleftrightarrow>
     t = Exited 0 \<and> (\<exists>s. summary = Some s \<and> summary_is_valid s \<and> vs_discovered s \<noteq> 0 \<and>
       vs_passed s = vs_discovered s \<and> vs_failed s = 0 \<and> vs_required_skipped s = 0)"
  using summary_valid_words
  by (cases t; cases summary)
    (auto simp: outcome_gate_passed_def classify_verification_def classify_exit_pass)

theorem verification_gate_exact_witness:
  "outcome_gate_passed (classify_verification (Exited 0)
     (Some \<lparr>vs_discovered = 3, vs_executed = 3, vs_passed = 3, vs_failed = 0, vs_required_skipped = 0\<rparr>))"
  unfolding verification_gate_exact by (simp add: summary_is_valid_iff)

text \<open>
  The policy never turns a run that did not pass into a passed gate: the recorded gate is the
  outcome's, work continues past a non-passing outcome only in warn mode and then with a warning,
  and a cancellation is never continued.
\<close>

theorem decision_never_promotes:
  "let d = decide_verification outcome mode in
     vd_outcome d = outcome \<and> (vd_gate_passed d \<longleftrightarrow> outcome = Classified Pass) \<and>
     (vd_action d = ActContinue \<longleftrightarrow>
        outcome = Classified Pass \<or> (mode = ModeWarn \<and> outcome \<noteq> OutcomeCancelled)) \<and>
     (vd_warning d \<longleftrightarrow> vd_action d = ActContinue \<and> \<not> vd_gate_passed d) \<and>
     (vd_action d = ActCancelled \<longleftrightarrow> outcome = OutcomeCancelled)"
  by (cases outcome; cases mode)
    (auto simp: decide_verification_def outcome_gate_passed_def Let_def split: VerificationClass.splits)

text \<open>
  The last arm of the exit classification, an exit with code 0 that is neither failed nor
  empty nor skipped nor passed, cannot be reached with a valid summary: such a run has passed.
\<close>

theorem exit_classification_total:
  assumes "summary_is_valid s"
  shows "classify_verification (Exited 0) (Some s) =
     Classified (if 0 < vs_failed s then InfraError else if vs_discovered s = 0 then NoTests
       else if 0 < vs_required_skipped s then Skip else Pass)"
  using assms summary_valid_words [OF assms]
  by (auto simp: classify_verification_def classify_exit_def word_pos)

theorem exit_classification_total_witness:
  "classify_verification (Exited 0)
     (Some \<lparr>vs_discovered = 3, vs_executed = 2, vs_passed = 2, vs_failed = 0, vs_required_skipped = 1\<rparr>)
   = Classified Skip"
  by (subst exit_classification_total) (simp_all add: summary_is_valid_iff)

end
