(* ===== verification/Configuration.thy ===== *)
theory Configuration
  imports Collections Rust_Strings
begin

text \<open>
  Configuration precedence (\<^verbatim>\<open>orchestrator-core/src/configuration.rs\<close>): which runtime, model
  and stall timeout apply, the advisor defaults, and the parser of Go durations with its
  \<open>f64\<close> fractions. \<open>u128\<close> values are integers with the overflow checks written out.
\<close>

section \<open>Runtime and model\<close>

definition SUPPORTED_RUNTIMES :: "string list" where
  "SUPPORTED_RUNTIMES =
     [''claude'', ''codex'', ''both'', ''anthropic-api'', ''openai-api'', ''openrouter'', ''gemini-api'']"

record RoutingTier =
  tier_provider :: string
  tier_model :: string
  tier_runtime :: string

record RoutingMap =
  model_tiers :: "(string, RoutingTier) btree_map"

record RuntimeResolutionInput =
  authored_runtime :: "string option"
  runtime_policy_applied :: bool
  forced_runtime :: "string option"
  environment_runtime :: "string option"
  configured_tier_runtime :: "string option"
  policy_runtime :: "string option"

datatype RuntimeSource = Authored | Forced | FromEnvironment | ConfiguredTier | Policy | EmptyDefault

record RuntimeResolution =
  res_runtime :: string
  res_source :: RuntimeSource
  unknown_fell_back_to_claude :: bool

definition non_empty :: "string \<Rightarrow> string option" where
  "non_empty s = (if s \<noteq> [] then Some s else None)"

definition resolve_runtime :: "RuntimeResolutionInput \<Rightarrow> RuntimeResolution" where
  "resolve_runtime i =
     (let authored = Option.bind (if \<not> runtime_policy_applied i then authored_runtime i else None) non_empty;
          policy_applied = (runtime_policy_applied i \<or> authored = None);
          (requested, source) =
            (case authored of
               Some r \<Rightarrow> (r, Authored)
             | None \<Rightarrow>
                 if policy_applied then
                   (case Option.bind (forced_runtime i) non_empty of
                      Some r \<Rightarrow> (r, Forced)
                    | None \<Rightarrow>
                   (case Option.bind (environment_runtime i) non_empty of
                      Some r \<Rightarrow> (r, FromEnvironment)
                    | None \<Rightarrow>
                   (case Option.bind (configured_tier_runtime i) non_empty of
                      Some r \<Rightarrow> (r, ConfiguredTier)
                    | None \<Rightarrow>
                   (case Option.bind (policy_runtime i) non_empty of
                      Some r \<Rightarrow> (r, Policy)
                    | None \<Rightarrow> (''claude'', EmptyDefault)))))
                 else (''claude'', EmptyDefault));
          supported = (requested \<in> set SUPPORTED_RUNTIMES)
      in \<lparr>res_runtime = (if supported then requested else ''claude''), res_source = source,
          unknown_fell_back_to_claude = (\<not> supported)\<rparr>)"

record ModelResolutionInput =
  forced_model :: "string option"
  mri_tier :: string
  effective_runtime :: string
  routing_map :: RoutingMap
  built_in_model :: string

definition resolve_model :: "ModelResolutionInput \<Rightarrow> string" where
  "resolve_model i =
     (case Option.bind (forced_model i) non_empty of
        Some m \<Rightarrow> m
      | None \<Rightarrow>
          (case bt_get (model_tiers (routing_map i)) (mri_tier i) of
             Some entry \<Rightarrow>
               if tier_runtime entry = effective_runtime i \<and> tier_model entry \<noteq> []
               then tier_model entry else built_in_model i
           | None \<Rightarrow> built_in_model i))"

record AdvisorConfig =
  unattended_glm_enabled :: bool
  emergency_stop :: bool

definition AdvisorConfig_default_off :: AdvisorConfig where
  "AdvisorConfig_default_off = \<lparr>unattended_glm_enabled = False, emergency_stop = True\<rparr>"

definition unwrap_or :: "'a option \<Rightarrow> 'a \<Rightarrow> 'a" where
  "unwrap_or m d = (case m of Some x \<Rightarrow> x | None \<Rightarrow> d)"

definition resolve_advisor_config :: "bool option \<Rightarrow> bool option \<Rightarrow> AdvisorConfig" where
  "resolve_advisor_config enabled_field emergency_stop_field =
     \<lparr>unattended_glm_enabled = unwrap_or enabled_field False,
      emergency_stop = unwrap_or emergency_stop_field True\<rparr>"

section \<open>Positive binary floating point\<close>

text \<open>
  The \<open>f64\<close> operations the duration parser performs, on positive values: \<open>F64 m e\<close> is
  \<open>m * 2 ^ e\<close> with at most 53 significant bits (54 only when rounding carried to \<open>2 ^ 53\<close>),
  rounded to nearest, ties to even. The values stay between \<open>10 ^ -19\<close> and \<open>10 ^ 32\<close>, far from
  the overflow and subnormal ranges. The division keeps 120 extra quotient bits and a sticky bit.
\<close>

datatype f64 = F64 int int

function bit_count :: "int \<Rightarrow> nat" where
  "bit_count n = (if n \<le> 0 then 0 else Suc (bit_count (n div 2)))"
  by pat_completeness auto
termination by (relation "measure nat") auto

declare bit_count.simps [simp del]

definition f64_round :: "int \<Rightarrow> int \<Rightarrow> f64" where
  "f64_round m e =
     (let k = bit_count m - 53 in
      if k = 0 then F64 m e
      else
        let q = m div 2 ^ k; r = m mod 2 ^ k; half = 2 ^ (k - 1);
            up = (half < r \<or> r = half \<and> odd q)
        in F64 (if up then q + 1 else q) (e + int k))"

definition f64_of_int :: "int \<Rightarrow> f64" where
  "f64_of_int n = f64_round n 0"

fun f64_mul :: "f64 \<Rightarrow> f64 \<Rightarrow> f64" where
  "f64_mul (F64 m e) (F64 n f) = f64_round (m * n) (e + f)"

fun f64_div :: "f64 \<Rightarrow> f64 \<Rightarrow> f64" where
  "f64_div (F64 m e) (F64 n f) =
     (let a = m * 2 ^ 120; q = a div n; sticky = (if a mod n = 0 then 0 else 1)
      in f64_round (2 * q + sticky) (e - f - 121))"

fun f64_as_u128 :: "f64 \<Rightarrow> int" where
  "f64_as_u128 (F64 m e) =
     min (2 ^ 128 - 1) (if 0 \<le> e then m * 2 ^ nat e else m div 2 ^ nat (- e))"

section \<open>Go durations\<close>

definition digit_value :: "char \<Rightarrow> int" where
  "digit_value c = int (byte c) - 48"

fun scan_number :: "string \<Rightarrow> bool \<Rightarrow> bool \<Rightarrow> string \<times> bool \<times> string" where
  "scan_number [] dot_seen digit_seen = ([], digit_seen, [])"
| "scan_number (c # cs) dot_seen digit_seen =
     (if is_digit c
      then (case scan_number cs dot_seen True of (n, d, rest) \<Rightarrow> (c # n, d, rest))
      else if c = CHR ''.'' \<and> \<not> dot_seen
      then (case scan_number cs True digit_seen of (n, d, rest) \<Rightarrow> (c # n, d, rest))
      else ([], digit_seen, c # cs))"

definition duration_units :: "(string \<times> int) list" where
  "duration_units =
     [(''ns'', 1), (''us'', 1000), ([CHR 0xC2, CHR 0xB5, CHR ''s''], 1000),
      ([CHR 0xCE, CHR 0xBC, CHR ''s''], 1000), (''ms'', 1000000), (''s'', 1000000000),
      (''m'', 60000000000), (''h'', 3600000000000)]"

definition checked_u128 :: "int \<Rightarrow> int option" where
  "checked_u128 n = (if n < 2 ^ 128 then Some n else None)"

definition parse_u128 :: "string \<Rightarrow> int option" where
  "parse_u128 ds =
     (if ds = [] \<or> \<not> list_all is_digit ds then None
      else checked_u128 (fold (\<lambda>c n. n * 10 + digit_value c) ds 0))"

text \<open>The fraction loop: the value so far, the scale \<open>10 ^ k\<close> as \<open>f64\<close>, and the overflow flag.\<close>

fun fraction_loop :: "string \<Rightarrow> u64 \<Rightarrow> f64 \<Rightarrow> bool \<Rightarrow> u64 \<times> f64" where
  "fraction_loop [] v scale overflowed = (v, scale)"
| "fraction_loop (c # cs) v scale overflowed =
     (if overflowed then fraction_loop cs v scale overflowed
      else if 9223372036854775807 div 10 < v then fraction_loop cs v scale True
      else
        let candidate = v * 10 + of_int (digit_value c) in
        if 9223372036854775808 < candidate then fraction_loop cs v scale True
        else fraction_loop cs candidate (f64_mul scale (f64_of_int 10)) False)"

definition fraction_nanos :: "string \<Rightarrow> int \<Rightarrow> int" where
  "fraction_nanos fraction multiplier =
     (case fraction_loop fraction 0 (f64_of_int 1) False of
        (v, scale) \<Rightarrow>
          if v = 0 then 0
          else f64_as_u128 (f64_mul (f64_of_int (uint v)) (f64_div (f64_of_int multiplier) scale)))"

definition split_once_dot :: "string \<Rightarrow> string \<times> string" where
  "split_once_dot n = (takeWhile (\<lambda>c. c \<noteq> CHR ''.'') n, drop 1 (dropWhile (\<lambda>c. c \<noteq> CHR ''.'') n))"

definition whole_nanos :: "string \<Rightarrow> int \<Rightarrow> int option" where
  "whole_nanos whole multiplier =
     Option.bind (if whole = [] then Some 0 else parse_u128 whole)
       (\<lambda>w. checked_u128 (w * multiplier))"

definition find_unit :: "string \<Rightarrow> (string \<times> int) option" where
  "find_unit rest = find (\<lambda>u. starts_with rest (fst u)) duration_units"

lemma scan_number_rest:
  "scan_number s dot digit = (n, d, rest) \<Longrightarrow> length rest \<le> length s"
  by (induction s dot digit arbitrary: n d rest rule: scan_number.induct)
    (fastforce split: if_splits prod.splits)+

lemma find_unit_Some:
  "find_unit rest = Some x \<Longrightarrow> x \<in> set duration_units \<and> starts_with rest (fst x)"
  unfolding find_unit_def find_Some_iff by auto

lemma duration_units_nonempty: "\<forall>x\<in>set duration_units. 0 < length (fst x)"
  by (simp add: duration_units_def)

lemma find_unit_shorter:
  assumes "find_unit rest = Some (u, m)"
  shows "0 < length u \<and> length u \<le> length rest"
proof -
  note u = find_unit_Some [OF assms]
  have "0 < length (fst (u, m))" by (rule bspec [OF duration_units_nonempty conjunct1 [OF u]])
  with starts_with_length [OF conjunct2 [OF u]] show ?thesis by simp
qed

lemma unit_step: "find_unit after = Some (u, m) \<Longrightarrow> length after \<le> n \<Longrightarrow> length after - length u < n"
  by (drule find_unit_shorter) linarith

function parse_components :: "string \<Rightarrow> int \<Rightarrow> nat \<Rightarrow> int option" where
  "parse_components rest acc components =
     (if rest = [] then
        (if components = 0 \<or> acc = 0 \<or> 9223372036854775807 < acc then None else Some acc)
      else
        case scan_number rest False False of (number, digit_seen, after) \<Rightarrow>
          if \<not> digit_seen \<or> after = [] then None
          else
            case find_unit after of
              None \<Rightarrow> None
            | Some (u, multiplier) \<Rightarrow>
                let (whole, fraction) = split_once_dot number in
                case whole_nanos whole multiplier of
                  None \<Rightarrow> None
                | Some w \<Rightarrow>
                    case checked_u128 (acc + w) of
                      None \<Rightarrow> None
                    | Some t \<Rightarrow>
                        case checked_u128 (t + fraction_nanos fraction multiplier) of
                          None \<Rightarrow> None
                        | Some t' \<Rightarrow>
                            parse_components (drop (length u) after) t' (Suc components))"
  by pat_completeness auto
termination
  by (relation "measure (\<lambda>(rest, acc, components). length rest)")
    (auto dest!: scan_number_rest [OF sym] intro: unit_step)

declare parse_components.simps [simp del]

definition parse_go_duration :: "string \<Rightarrow> int option" where
  "parse_go_duration raw =
     (let raw = (if starts_with raw ''+'' then drop 1 raw else raw) in
      if raw = [] \<or> starts_with raw ''+'' \<or> starts_with raw ''-'' then None
      else parse_components raw 0 0)"

section \<open>Stall timeout\<close>

datatype ConfigError =
    InvalidStallFlag string
  | InvalidStallEnvironment string

record StallResolutionInput =
  phase_timeout :: "int option"
  flag_value :: "string option"
  environment_value :: "string option"

datatype StallSource = StallPhase | StallFlag | StallEnvironment | StallWorkerDefault

datatype StallTimeoutValue = StallDuration int | WorkerDefault

record StallTimeoutResolution =
  stall_value :: StallTimeoutValue
  stall_source :: StallSource

definition stall :: "int \<Rightarrow> StallSource \<Rightarrow> StallTimeoutResolution" where
  "stall duration source = \<lparr>stall_value = StallDuration duration, stall_source = source\<rparr>"

definition resolve_stall_timeout :: "StallResolutionInput \<Rightarrow> ConfigError + StallTimeoutResolution" where
  "resolve_stall_timeout i =
     (case (case phase_timeout i of Some d \<Rightarrow> if d \<noteq> 0 then Some d else None | None \<Rightarrow> None) of
        Some duration \<Rightarrow> Inr (stall duration StallPhase)
      | None \<Rightarrow>
     (case flag_value i of
        Some raw \<Rightarrow>
          (case parse_go_duration raw of
             None \<Rightarrow> Inl (InvalidStallFlag raw)
           | Some duration \<Rightarrow> Inr (stall duration StallFlag))
      | None \<Rightarrow>
     (case environment_value i of
        Some raw \<Rightarrow>
          (case parse_go_duration raw of
             None \<Rightarrow> Inl (InvalidStallEnvironment raw)
           | Some duration \<Rightarrow> Inr (stall duration StallEnvironment))
      | None \<Rightarrow> Inr \<lparr>stall_value = WorkerDefault, stall_source = StallWorkerDefault\<rparr>)))"

section \<open>Precedence\<close>

text \<open>The rungs of the runtime precedence, highest first.\<close>

definition runtime_rungs :: "RuntimeResolutionInput \<Rightarrow> (string option \<times> RuntimeSource) list" where
  "runtime_rungs i =
     (if runtime_policy_applied i then [] else [(authored_runtime i, Authored)]) @
     [(forced_runtime i, Forced), (environment_runtime i, FromEnvironment),
      (configured_tier_runtime i, ConfiguredTier), (policy_runtime i, Policy)]"

fun first_rung :: "(string option \<times> RuntimeSource) list \<Rightarrow> string \<times> RuntimeSource" where
  "first_rung [] = (''claude'', EmptyDefault)"
| "first_rung ((Some (c # cs), source) # _) = (c # cs, source)"
| "first_rung ((_, _) # rungs) = first_rung rungs"

lemma first_rung_Cons:
  "first_rung ((v, source) # rungs) =
     (case Option.bind v non_empty of Some r \<Rightarrow> (r, source) | None \<Rightarrow> first_rung rungs)"
  by (cases v; cases "the v") (auto simp: non_empty_def)

text \<open>
  The runtime that executes is always a supported one. It is the first non-empty value of the
  precedence authored (unless the policy applied), forced, environment, configured tier, policy;
  when that value is not a supported name the run falls back to Claude and says so, keeping the
  source of the value it replaced.
\<close>

theorem runtime_precedence_exact:
  "let r = resolve_runtime i; (requested, source) = first_rung (runtime_rungs i) in
     res_runtime r \<in> set SUPPORTED_RUNTIMES \<and> res_source r = source \<and>
     res_runtime r = (if requested \<in> set SUPPORTED_RUNTIMES then requested else ''claude'') \<and>
     (unknown_fell_back_to_claude r \<longleftrightarrow> requested \<notin> set SUPPORTED_RUNTIMES)"
proof -
  have supported: "''claude'' \<in> set SUPPORTED_RUNTIMES" by (simp add: SUPPORTED_RUNTIMES_def)
  have "resolve_runtime i =
      (let (requested, source) = first_rung (runtime_rungs i); ok = (requested \<in> set SUPPORTED_RUNTIMES)
       in \<lparr>res_runtime = (if ok then requested else ''claude''), res_source = source,
           unknown_fell_back_to_claude = (\<not> ok)\<rparr>)"
    by (cases "runtime_policy_applied i"; cases "Option.bind (authored_runtime i) non_empty")
      (simp_all add: resolve_runtime_def runtime_rungs_def first_rung_Cons Let_def split: option.split)
  with supported show ?thesis by (simp add: Let_def split: prod.split)
qed

section \<open>Durations\<close>

lemma bit_count_nonneg: "0 \<le> m \<Longrightarrow> 0 \<le> m div 2 ^ k" for m :: int
  by (simp add: pos_imp_zdiv_nonneg_iff)

lemma f64_round_nonneg: "0 \<le> m \<Longrightarrow> f64_round m e = F64 q f \<Longrightarrow> 0 \<le> q"
  by (auto simp: f64_round_def Let_def pos_imp_zdiv_nonneg_iff split: if_splits)

lemma f64_mul_nonneg: "0 \<le> m \<Longrightarrow> 0 \<le> n \<Longrightarrow> f64_mul (F64 m e) (F64 n f) = F64 q g \<Longrightarrow> 0 \<le> q"
  by (auto intro: f64_round_nonneg [of "m * n" "e + f"])

lemma f64_div_nonneg:
  assumes "0 \<le> m" "0 \<le> n" "f64_div (F64 m e) (F64 n f) = F64 q g"
  shows "0 \<le> q"
proof -
  let ?a = "m * 2 ^ 120"
  have "0 \<le> 2 * (?a div n) + (if ?a mod n = 0 then 0 else 1)"
    using assms(1,2) by (cases "n = 0") (auto simp: pos_imp_zdiv_nonneg_iff)
  then show ?thesis using assms(3) by (auto simp: Let_def intro: f64_round_nonneg)
qed

lemma f64_as_u128_nonneg: "0 \<le> m \<Longrightarrow> 0 \<le> f64_as_u128 (F64 m e)"
  by (simp add: pos_imp_zdiv_nonneg_iff)

fun f64_nonneg :: "f64 \<Rightarrow> bool" where
  "f64_nonneg (F64 m e) \<longleftrightarrow> 0 \<le> m"

lemma f64_nonneg_intros:
  "0 \<le> n \<Longrightarrow> f64_nonneg (f64_of_int n)"
  "f64_nonneg x \<Longrightarrow> f64_nonneg y \<Longrightarrow> f64_nonneg (f64_mul x y)"
  "f64_nonneg x \<Longrightarrow> f64_nonneg y \<Longrightarrow> f64_nonneg (f64_div x y)"
proof -
  show "0 \<le> n \<Longrightarrow> f64_nonneg (f64_of_int n)"
    by (cases "f64_round n 0") (auto simp: f64_of_int_def dest: f64_round_nonneg)
  show "f64_nonneg x \<Longrightarrow> f64_nonneg y \<Longrightarrow> f64_nonneg (f64_mul x y)"
    by (cases x; cases y; cases "f64_mul x y") (auto dest: f64_round_nonneg [rotated])
  show "f64_nonneg x \<Longrightarrow> f64_nonneg y \<Longrightarrow> f64_nonneg (f64_div x y)"
    by (cases x; cases y; cases "f64_div x y") (simp del: f64_div.simps, blast intro: f64_div_nonneg)
qed

lemma fraction_loop_nonneg: "f64_nonneg scale \<Longrightarrow> f64_nonneg (snd (fraction_loop ds v scale ov))"
  by (induction ds v scale ov rule: fraction_loop.induct)
    (simp_all add: Let_def f64_nonneg_intros)

lemma fraction_nanos_nonneg: "0 \<le> mult \<Longrightarrow> 0 \<le> fraction_nanos fraction mult"
proof -
  assume mult: "0 \<le> mult"
  obtain v scale where loop: "fraction_loop fraction 0 (f64_of_int 1) False = (v, scale)" by fastforce
  have "f64_nonneg scale"
    using fraction_loop_nonneg [of "f64_of_int 1" fraction 0 False] loop
    by (simp add: f64_nonneg_intros)
  then have "f64_nonneg (f64_mul (f64_of_int (uint v)) (f64_div (f64_of_int mult) scale))"
    using mult by (intro f64_nonneg_intros) auto
  then have "0 \<le> f64_as_u128 (f64_mul (f64_of_int (uint v)) (f64_div (f64_of_int mult) scale))"
    by (cases "f64_mul (f64_of_int (uint v)) (f64_div (f64_of_int mult) scale)")
      (simp only: f64_nonneg.simps f64_as_u128_nonneg)
  then show ?thesis by (simp add: fraction_nanos_def loop)
qed

lemma digits_value_nonneg: "list_all is_digit ds \<Longrightarrow> 0 \<le> n \<Longrightarrow> 0 \<le> fold (\<lambda>c n. n * 10 + digit_value c) ds n"
  by (induction ds arbitrary: n) (auto simp: digit_value_def is_digit_def)

lemma whole_nanos_nonneg: "0 \<le> mult \<Longrightarrow> whole_nanos ds mult = Some w \<Longrightarrow> 0 \<le> w"
  by (auto simp: whole_nanos_def parse_u128_def checked_u128_def bind_eq_Some_conv digits_value_nonneg
      split: if_splits)

lemma parse_components_range:
  "0 \<le> acc \<Longrightarrow> parse_components rest acc n = Some d \<Longrightarrow> 0 < d \<and> d \<le> 9223372036854775807"
proof (induction rest acc n rule: parse_components.induct)
  case (1 rest acc n)
  show ?case
  proof (cases "rest = []")
    case True
    have "parse_components [] acc n =
        (if n = 0 \<or> acc = 0 \<or> 9223372036854775807 < acc then None else Some acc)"
      by (simp add: parse_components.simps [of "[]"])
    with "1.prems" True show ?thesis by (auto split: if_splits)
  next
    case False
    obtain number digit after where scan: "scan_number rest False False = (number, digit, after)"
      by (metis prod_cases3)
    obtain whole fraction where split: "split_once_dot number = (whole, fraction)" by fastforce
    have ok: "digit" "after \<noteq> []"
      using "1.prems"(2) False by (auto simp: parse_components.simps [of rest] scan split: if_splits)
    obtain u mult where unit: "find_unit after = Some (u, mult)"
      using "1.prems"(2) False ok by (cases "find_unit after")
        (auto simp: parse_components.simps [of rest] scan)
    have mult: "0 \<le> mult"
      using find_unit_Some [OF unit] by (auto simp: duration_units_def)
    obtain w t t' where w: "whole_nanos whole mult = Some w" "checked_u128 (acc + w) = Some t"
      "checked_u128 (t + fraction_nanos fraction mult) = Some t'"
      and rec: "parse_components (drop (length u) after) t' (Suc n) = Some d"
      using "1.prems"(2) False ok
      by (auto simp: parse_components.simps [of rest] scan unit split split: option.splits)
    have "0 \<le> t'"
      using w whole_nanos_nonneg [OF mult w(1)] fraction_nanos_nonneg [OF mult, of fraction] "1.prems"(1)
      by (auto simp: checked_u128_def split: if_splits)
    from "1.IH" [OF False scan [symmetric] refl _ unit refl split [symmetric] refl w this rec] ok
    show ?thesis by simp
  qed
qed

lemma parse_go_duration_range: "parse_go_duration raw = Some d \<Longrightarrow> 0 < d \<and> d \<le> 9223372036854775807"
  unfolding parse_go_duration_def Let_def
  by (split if_split_asm, simp) (erule parse_components_range [rotated], simp)

end
