(* ===== verification/Durations.thy ===== *)
theory Durations
  imports Configuration
begin

text \<open>
  What the duration parser accepts: every rendering of whole-number components is read back
  exactly; a resolved stall timeout is positive and representable.
\<close>

section \<open>Rendered durations\<close>

definition digit_char :: "nat \<Rightarrow> char" where
  "digit_char d = char_of (48 + d)"

fun decimal :: "nat \<Rightarrow> string" where
  "decimal n = (if n < 10 then [digit_char n] else decimal (n div 10) @ [digit_char (n mod 10)])"

declare decimal.simps [simp del]

definition render_components :: "(nat \<times> nat) list \<Rightarrow> string" where
  "render_components cs = concat (map (\<lambda>(n, k). decimal n @ fst (duration_units ! k)) cs)"

definition components_total :: "(nat \<times> nat) list \<Rightarrow> int" where
  "components_total cs = sum_list (map (\<lambda>(n, k). int n * snd (duration_units ! k)) cs)"

lemma digit_char_byte: "d < 10 \<Longrightarrow> byte (digit_char d) = 48 + d"
  by (simp add: byte_def digit_char_def take_bit_eq_mod)

lemma digit_char_facts:
  "d < 10 \<Longrightarrow> is_digit (digit_char d)" "d < 10 \<Longrightarrow> digit_value (digit_char d) = int d"
  by (simp_all add: is_digit_def digit_value_def digit_char_byte)

lemma decimal_digits: "list_all is_digit (decimal n)"
  by (induction n rule: decimal.induct) (simp add: decimal.simps digit_char_facts)

lemma decimal_nonempty: "decimal n \<noteq> []"
  by (simp add: decimal.simps)

lemma decimal_value: "fold (\<lambda>c n. n * 10 + digit_value c) (decimal n) 0 = int n"
proof (induction n rule: decimal.induct)
  case (1 n)
  show ?case
  proof (cases "n < 10")
    case True
    then show ?thesis by (simp add: decimal.simps [of n] digit_char_facts)
  next
    case False
    have "int (n div 10) * 10 + int (n mod 10) = int n"
      by (metis div_mult_mod_eq of_nat_add of_nat_mult of_nat_numeral)
    with 1 [OF False] False show ?thesis
      by (simp add: decimal.simps [of n] digit_char_facts)
  qed
qed

lemma parse_u128_decimal: "parse_u128 (decimal n) = checked_u128 (int n)"
  using decimal_digits [of n] decimal_nonempty [of n] by (simp add: parse_u128_def decimal_value)

lemma digit_not_dot: "is_digit c \<Longrightarrow> c \<noteq> CHR ''.''"
  by (auto simp: is_digit_def)

lemma split_once_dot_digits: "list_all is_digit ds \<Longrightarrow> split_once_dot ds = (ds, [])"
  by (induction ds) (auto simp: split_once_dot_def digit_not_dot)

definition number_ends :: "string \<Rightarrow> bool" where
  "number_ends s \<longleftrightarrow> s \<noteq> [] \<and> \<not> is_digit (hd s) \<and> hd s \<noteq> CHR ''.''"

lemma scan_number_digits:
  "list_all is_digit ds \<Longrightarrow> number_ends rest \<Longrightarrow>
     scan_number (ds @ rest) False seen = (ds, seen \<or> ds \<noteq> [], rest)"
proof (induction ds arbitrary: seen)
  case Nil
  then show ?case by (cases rest) (auto simp: number_ends_def)
qed auto

text \<open>After a unit comes the end or the next number, so no longer unit matches by accident.\<close>

definition unit_ends :: "string \<Rightarrow> bool" where
  "unit_ends s \<longleftrightarrow> s = [] \<or> is_digit (hd s)"

lemma unit_number_ends: "k < length duration_units \<Longrightarrow> number_ends (fst (duration_units ! k) @ rest)"
proof -
  assume "k < length duration_units"
  then have "k \<in> {0, 1, 2, 3, 4, 5, 6, 7}" by (auto simp: duration_units_def)
  then show ?thesis
    by (auto simp: number_ends_def duration_units_def is_digit_def byte_def)
qed

lemma find_unit_rendered:
  assumes "k < length duration_units" "unit_ends rest"
  shows "find_unit (fst (duration_units ! k) @ rest) = Some (duration_units ! k)"
proof -
  have "rest = [] \<or> hd rest \<noteq> CHR ''s''"
    using assms(2) by (auto simp: unit_ends_def is_digit_def byte_def)
  then have "\<not> starts_with rest ''s''" by (cases rest) auto
  moreover have "k \<in> {0, 1, 2, 3, 4, 5, 6, 7}" using assms(1) by (auto simp: duration_units_def)
  ultimately show ?thesis
    by (elim insertE emptyE) (simp_all add: find_unit_def duration_units_def)
qed

lemma render_unit_ends: "unit_ends (render_components cs)"
proof (cases cs)
  case (Cons c cs')
  obtain n k where "c = (n, k)" by (cases c)
  moreover have "is_digit (hd (decimal n))"
    using decimal_digits [of n] decimal_nonempty [of n] by (cases "decimal n") auto
  ultimately show ?thesis
    using Cons decimal_nonempty [of n] by (simp add: render_components_def unit_ends_def)
qed (simp add: render_components_def unit_ends_def)

lemma fraction_nanos_empty [simp]: "fraction_nanos [] m = 0"
  by (simp add: fraction_nanos_def)

lemma parse_component_rendered:
  assumes k: "k < length duration_units" and rest: "unit_ends rest"
  shows "parse_components (decimal n @ fst (duration_units ! k) @ rest) acc c =
    Option.bind (checked_u128 (int n)) (\<lambda>w.
    Option.bind (checked_u128 (w * snd (duration_units ! k))) (\<lambda>w.
    Option.bind (checked_u128 (acc + w)) (\<lambda>t.
    Option.bind (checked_u128 t) (\<lambda>t. parse_components rest t (Suc c)))))"
proof -
  let ?u = "duration_units ! k"
  have scan: "scan_number (decimal n @ fst ?u @ rest) False False = (decimal n, True, fst ?u @ rest)"
    using scan_number_digits [OF decimal_digits unit_number_ends [OF k]] decimal_nonempty by auto
  obtain u m where u: "?u = (u, m)" by (cases ?u)
  have une: "u \<noteq> []"
    using bspec [OF duration_units_nonempty nth_mem [OF k]] u by simp
  note scan = scan [unfolded u fst_conv]
  have unit: "find_unit (u @ rest) = Some (u, m)"
    using find_unit_rendered [OF k rest] u by simp
  have whole: "whole_nanos (decimal n) m = Option.bind (checked_u128 (int n)) (\<lambda>w. checked_u128 (w * m))"
    using decimal_nonempty by (simp add: whole_nanos_def parse_u128_decimal)
  have "parse_components (decimal n @ u @ rest) acc c =
      (case whole_nanos (decimal n) m of None \<Rightarrow> None
       | Some w \<Rightarrow> case checked_u128 (acc + w) of None \<Rightarrow> None
       | Some t \<Rightarrow> case checked_u128 t of None \<Rightarrow> None
       | Some t' \<Rightarrow> parse_components rest t' (Suc c))"
    using une scan unit decimal_nonempty [of n]
    by (subst parse_components.simps)
      (simp add: split_once_dot_digits [OF decimal_digits] cong: option.case_cong)
  then show ?thesis
    unfolding whole u by (cases "checked_u128 (int n)") (simp_all add: Option.bind_def split: option.split)
qed

lemma unit_positive: "k < length duration_units \<Longrightarrow> 1 \<le> snd (duration_units ! k)"
proof -
  assume "k < length duration_units"
  then have "k \<in> {0, 1, 2, 3, 4, 5, 6, 7}" by (auto simp: duration_units_def)
  then show ?thesis by (elim insertE emptyE) (simp_all add: duration_units_def)
qed

lemma components_total_Cons:
  "components_total ((n, k) # cs) = int n * snd (duration_units ! k) + components_total cs"
  by (simp add: components_total_def)

lemma components_total_nonneg:
  "\<forall>(n, k)\<in>set cs. k < length duration_units \<Longrightarrow> 0 \<le> components_total cs"
proof (induction cs)
  case (Cons c cs)
  obtain n k where c: "c = (n, k)" by (cases c)
  with Cons have "0 \<le> components_total cs" and "1 \<le> snd (duration_units ! k)"
    using unit_positive by auto
  then show ?case by (simp add: c components_total_Cons)
qed (simp add: components_total_def)

definition in_range :: "int \<Rightarrow> bool" where
  "in_range d \<longleftrightarrow> 0 < d \<and> d \<le> 9223372036854775807"

lemma parse_rendered:
  "0 \<le> acc \<Longrightarrow> \<forall>(n, k)\<in>set cs. k < length duration_units \<Longrightarrow> cs \<noteq> [] \<or> 0 < c \<Longrightarrow>
   parse_components (render_components cs) acc c =
     (if in_range (acc + components_total cs) then Some (acc + components_total cs) else None)"
proof (induction cs arbitrary: acc c)
  case Nil
  then show ?case
    by (simp add: render_components_def components_total_def parse_components.simps [of "[]"] in_range_def)
next
  case (Cons x cs)
  obtain n k where x: "x = (n, k)" by (cases x)
  have k: "k < length duration_units" and cs: "\<forall>(n, k)\<in>set cs. k < length duration_units"
    using Cons.prems(2) x by auto
  let ?m = "snd (duration_units ! k)"
  let ?T = "components_total cs"
  have pos: "1 \<le> ?m" "0 \<le> ?T" using unit_positive [OF k] components_total_nonneg [OF cs] .
  then have grow: "int n \<le> int n * ?m" by (simp add: mult_le_cancel_left1)
  have split: "render_components (x # cs) = decimal n @ fst (duration_units ! k) @ render_components cs"
    by (simp add: render_components_def x)
  note step = parse_component_rendered [OF k render_unit_ends, of n cs acc c]
  show ?case
  proof (cases "acc + int n * ?m < 2 ^ 128")
    case True
    then have "int n < 2 ^ 128" "int n * ?m < 2 ^ 128" using Cons.prems(1) grow by linarith+
    then have "parse_components (render_components (x # cs)) acc c =
        parse_components (render_components cs) (acc + int n * ?m) (Suc c)"
      using True unfolding split step by (simp add: checked_u128_def)
    also have "\<dots> = (if in_range (acc + int n * ?m + ?T) then Some (acc + int n * ?m + ?T) else None)"
      using Cons.prems(1) pos by (intro Cons.IH cs) auto
    finally show ?thesis by (simp add: x components_total_Cons add.assoc)
  next
    case False
    then have "\<not> in_range (acc + components_total (x # cs))"
      using pos by (simp add: x components_total_Cons in_range_def)
    moreover have "parse_components (render_components (x # cs)) acc c = None"
      unfolding split step using False by (simp add: checked_u128_def Option.bind_def split: option.split)
    ultimately show ?thesis by simp
  qed
qed

text \<open>
  C9. A duration written as whole-number components with any of the eight unit spellings, in any
  order and number, is read back as exactly its total in nanoseconds, and refused precisely when
  that total is zero or exceeds the largest signed 64-bit value: no intermediate overflow is
  misread.
\<close>

theorem duration_roundtrip:
  assumes "cs \<noteq> []" "\<forall>(n, k)\<in>set cs. k < length duration_units"
  shows "parse_go_duration (render_components cs) =
    (if 0 < components_total cs \<and> components_total cs \<le> 9223372036854775807
     then Some (components_total cs) else None)"
proof -
  have "render_components cs \<noteq> []"
    using assms(1) decimal_nonempty by (cases cs) (auto simp: render_components_def)
  moreover from this have "is_digit (hd (render_components cs))"
    using render_unit_ends [of cs] by (simp add: unit_ends_def)
  moreover have "\<not> is_digit CHR ''+''" "\<not> is_digit CHR ''-''"
    by (simp_all add: is_digit_def byte_def)
  ultimately have "\<not> starts_with (render_components cs) ''+''" "\<not> starts_with (render_components cs) ''-''"
    by (cases "render_components cs"; force)+
  then show ?thesis
    using parse_rendered [of 0 cs 0] assms \<open>render_components cs \<noteq> []\<close>
    by (simp add: parse_go_duration_def in_range_def)
qed

theorem duration_roundtrip_witness:
  "parse_go_duration (render_components [(1, 7), (30, 6)]) = Some 5400000000000"
  by (subst duration_roundtrip) (simp_all add: components_total_def duration_units_def)

text \<open>
  No resolved stall timeout is zero, whichever rung of the precedence it comes from, and a parsed one
  fits a signed 64-bit count of nanoseconds.
\<close>

lemma stall_timeout_positive:
  assumes "resolve_stall_timeout i = Inr (stall d source)" and "\<forall>p. phase_timeout i = Some p \<longrightarrow> 0 \<le> p"
  shows "0 < d \<and> (source = StallPhase \<longrightarrow> phase_timeout i = Some d) \<and>
    (source \<noteq> StallPhase \<longrightarrow> (phase_timeout i = None \<or> phase_timeout i = Some 0) \<and> d \<le> 9223372036854775807)"
  using assms
  by (auto simp: resolve_stall_timeout_def stall_def split: option.splits if_splits dest!: parse_go_duration_range)

end
