(* ===== verification/Adaptive_Values.thy ===== *)
theory Adaptive_Values
  imports Identifiers Rust_Strings
begin

text \<open>
  The values of the adaptive routing kernel (\<^verbatim>\<open>orchestrator-core/src/adaptive_routing.rs\<close>):
  its bounds and errors, stable identifiers, bounded text, basis points, instants and durations.
  The fields of the newtypes are private in the source, so every value satisfies the constructor's
  check; the predicates \<open>stable_text\<close>, \<open>bps_ok\<close> and \<open>duration_ok\<close> name those checks.
\<close>

section \<open>Bounds and errors\<close>

definition ADAPTIVE_ROUTING_SCHEMA_V1 :: u32 where
  "ADAPTIVE_ROUTING_SCHEMA_V1 = 1"

definition ADAPTIVE_POLICY_VERSION_V1 :: u32 where
  "ADAPTIVE_POLICY_VERSION_V1 = 1"

definition ADAPTIVE_MAX_DURATION_MS_V1 :: u64 where
  "ADAPTIVE_MAX_DURATION_MS_V1 = 31622400000"

definition BASIS_POINTS_SCALE :: u16 where "BASIS_POINTS_SCALE = 10000"

definition MAX_ROUTE_TEXT_BYTES :: nat where "MAX_ROUTE_TEXT_BYTES = 256"
definition MAX_SOURCE_TEXT_BYTES :: nat where "MAX_SOURCE_TEXT_BYTES = 128"
definition MAX_PROVIDER_RESERVES :: nat where "MAX_PROVIDER_RESERVES = 64"
definition MAX_CANDIDATES :: nat where "MAX_CANDIDATES = 128"
definition MAX_USAGE_SNAPSHOTS :: nat where "MAX_USAGE_SNAPSHOTS = 256"
definition MAX_WINDOWS_PER_SNAPSHOT :: nat where "MAX_WINDOWS_PER_SNAPSHOT = 32"
definition MAX_MODELS_PER_WINDOW :: nat where "MAX_MODELS_PER_WINDOW = 128"
definition MAX_CAPABILITIES :: nat where "MAX_CAPABILITIES = 64"
definition MAX_FIXED_PROVENANCES :: nat where "MAX_FIXED_PROVENANCES = 6"

text \<open>The aggregate bounds are compared with running totals, so they are kept as integers.\<close>

definition MAX_TOTAL_WINDOWS :: int where "MAX_TOTAL_WINDOWS = 512"
definition MAX_TOTAL_MODEL_REFERENCES :: int where "MAX_TOTAL_MODEL_REFERENCES = 4096"
definition MAX_TOTAL_ROUTING_ELEMENTS :: int where "MAX_TOTAL_ROUTING_ELEMENTS = 8192"
definition MAX_TOTAL_ROUTING_TEXT_BYTES :: int where "MAX_TOTAL_ROUTING_TEXT_BYTES = 1048576"
definition MAX_TOTAL_CONSIDERED_SNAPSHOT_REFERENCES :: int where
  "MAX_TOTAL_CONSIDERED_SNAPSHOT_REFERENCES = 8192"
definition MAX_USAGE_WINDOW_EVALUATIONS :: int where "MAX_USAGE_WINDOW_EVALUATIONS = 32768"

datatype AdaptiveRoutingError =
    BasisPointsOutOfRange u16
  | ZeroDuration
  | DurationOutOfRange u64 u64
  | UnsupportedSchemaVersion string u32 u32
  | UnsupportedPolicyVersion u32 u32
  | InvalidText string string
  | InvalidInvariant string string
  | DuplicateCandidate
  | DuplicateExecutableRoute
  | DuplicateSnapshot
  | DuplicateUsageLimit
  | DuplicateProviderReserve
  | MissingProviderReserve
  | ScoreOverflow
  | ReplayMismatch

text \<open>\<open>if condition { return Err(e) }\<close>, the shape of every check of the kernel.\<close>

definition reject_if :: "bool \<Rightarrow> 'e \<Rightarrow> 'e + unit" where
  "reject_if b e = (if b then Inl e else Inr ())"

lemma reject_if_Inr [result_simps]: "reject_if b e = Inr u \<longleftrightarrow> \<not> b"
  by (simp add: reject_if_def)

lemma reject_if_Inl [result_simps]: "reject_if b e = Inl e' \<longleftrightarrow> b \<and> e' = e"
  by (auto simp: reject_if_def)

section \<open>Texts\<close>

definition validate_stable_id :: "string \<Rightarrow> string \<Rightarrow> AdaptiveRoutingError + unit" where
  "validate_stable_id field s =
     (if s = [] then Inl (InvalidText field ''identifier is empty'')
      else if MAX_SOURCE_TEXT_BYTES < length s then Inl (InvalidText field ''identifier is too long'')
      else if \<not> list_all identifier_byte s
      then Inl (InvalidText field ''only ASCII letters, digits, '-' and '_' are allowed'')
      else Inr ())"

definition printable :: "char \<Rightarrow> bool" where
  "printable c \<longleftrightarrow> 0x20 \<le> byte c \<and> byte c \<le> 0x7E"

definition validate_bounded_text :: "string \<Rightarrow> string \<Rightarrow> nat \<Rightarrow> AdaptiveRoutingError + unit" where
  "validate_bounded_text field s maximum_bytes =
     (if trim s = [] then Inl (InvalidText field ''value is empty'')
      else if trim s \<noteq> s
      then Inl (InvalidText field ''leading or trailing whitespace is not allowed'')
      else if maximum_bytes < length s then Inl (InvalidText field ''value is too long'')
      else if \<not> list_all printable s
      then Inl (InvalidText field ''only printable ASCII bytes are allowed'')
      else Inr ())"

definition stable_id_new :: "string \<Rightarrow> string \<Rightarrow> AdaptiveRoutingError + 'k name" where
  "stable_id_new field s = and_then (validate_stable_id field s) (\<lambda>_. Inr (Name s))"

definition stable_text :: "string \<Rightarrow> bool" where
  "stable_text s \<longleftrightarrow> s \<noteq> [] \<and> length s \<le> 128 \<and> list_all identifier_byte s"

lemma stable_id_new_Inr: "stable_id_new field s = Inr n \<longleftrightarrow> stable_text s \<and> n = Name s"
  by (auto simp: stable_id_new_def validate_stable_id_def stable_text_def MAX_SOURCE_TEXT_BYTES_def)

datatype candidate_kind = CandidateKind
datatype snapshot_kind = SnapshotKind
datatype provider_kind = ProviderKind
datatype runtime_kind = RuntimeKind
datatype usage_account_kind = UsageAccountKind
datatype capability_kind = CapabilityKind
datatype usage_limit_kind = UsageLimitKind
datatype usage_reason_kind = UsageReasonKind
datatype usage_source_kind = UsageSourceKind
datatype usage_window_kind = UsageWindowKind

type_synonym CandidateIdV1 = "candidate_kind name"
type_synonym SnapshotIdV1 = "snapshot_kind name"
type_synonym ProviderIdV1 = "provider_kind name"
type_synonym RuntimeIdV1 = "runtime_kind name"
type_synonym UsageAccountIdV1 = "usage_account_kind name"
type_synonym CapabilityIdV1 = "capability_kind name"
type_synonym UsageLimitIdV1 = "usage_limit_kind name"
type_synonym UsageReasonCodeV1 = "usage_reason_kind name"
type_synonym UsageSourceIdV1 = "usage_source_kind name"
type_synonym UsageWindowKindV1 = "usage_window_kind name"

definition CandidateIdV1_new :: "string \<Rightarrow> AdaptiveRoutingError + CandidateIdV1" where
  "CandidateIdV1_new = stable_id_new ''candidate_id''"
definition SnapshotIdV1_new :: "string \<Rightarrow> AdaptiveRoutingError + SnapshotIdV1" where
  "SnapshotIdV1_new = stable_id_new ''snapshot_id''"
definition ProviderIdV1_new :: "string \<Rightarrow> AdaptiveRoutingError + ProviderIdV1" where
  "ProviderIdV1_new = stable_id_new ''provider_id''"
definition RuntimeIdV1_new :: "string \<Rightarrow> AdaptiveRoutingError + RuntimeIdV1" where
  "RuntimeIdV1_new = stable_id_new ''runtime_id''"
definition UsageAccountIdV1_new :: "string \<Rightarrow> AdaptiveRoutingError + UsageAccountIdV1" where
  "UsageAccountIdV1_new = stable_id_new ''usage_account_id''"
definition CapabilityIdV1_new :: "string \<Rightarrow> AdaptiveRoutingError + CapabilityIdV1" where
  "CapabilityIdV1_new = stable_id_new ''capability_id''"
definition UsageLimitIdV1_new :: "string \<Rightarrow> AdaptiveRoutingError + UsageLimitIdV1" where
  "UsageLimitIdV1_new = stable_id_new ''usage_limit_id''"
definition UsageReasonCodeV1_new :: "string \<Rightarrow> AdaptiveRoutingError + UsageReasonCodeV1" where
  "UsageReasonCodeV1_new = stable_id_new ''usage_reason_code''"
definition UsageSourceIdV1_new :: "string \<Rightarrow> AdaptiveRoutingError + UsageSourceIdV1" where
  "UsageSourceIdV1_new = stable_id_new ''usage_source_id''"
definition UsageWindowKindV1_new :: "string \<Rightarrow> AdaptiveRoutingError + UsageWindowKindV1" where
  "UsageWindowKindV1_new = stable_id_new ''usage_window_kind''"

section \<open>Basis points, instants and durations\<close>

datatype BasisPointsV1 = BasisPointsV1 (bps_get: u16)

definition BasisPointsV1_new :: "u16 \<Rightarrow> AdaptiveRoutingError + BasisPointsV1" where
  "BasisPointsV1_new v =
     (if BASIS_POINTS_SCALE < v then Inl (BasisPointsOutOfRange v) else Inr (BasisPointsV1 v))"

definition bps_ok :: "BasisPointsV1 \<Rightarrow> bool" where
  "bps_ok b \<longleftrightarrow> bps_get b \<le> 10000"

lemma BasisPointsV1_new_Inr: "BasisPointsV1_new v = Inr b \<longleftrightarrow> v \<le> 10000 \<and> b = BasisPointsV1 v"
  by (auto simp: BasisPointsV1_new_def BASIS_POINTS_SCALE_def)

datatype UtcMillisV1 = UtcMillisV1 (utc_get: u64)

datatype DurationMillisV1 = DurationMillisV1 (dur_get: u64)

definition DurationMillisV1_new :: "u64 \<Rightarrow> AdaptiveRoutingError + DurationMillisV1" where
  "DurationMillisV1_new v =
     (if v = 0 then Inl ZeroDuration
      else if ADAPTIVE_MAX_DURATION_MS_V1 < v
      then Inl (DurationOutOfRange v ADAPTIVE_MAX_DURATION_MS_V1)
      else Inr (DurationMillisV1 v))"

definition duration_ok :: "DurationMillisV1 \<Rightarrow> bool" where
  "duration_ok d \<longleftrightarrow> 0 < dur_get d \<and> dur_get d \<le> 31622400000"

definition validate_schema :: "string \<Rightarrow> u32 \<Rightarrow> AdaptiveRoutingError + unit" where
  "validate_schema surface found =
     (if found \<noteq> ADAPTIVE_ROUTING_SCHEMA_V1
      then Inl (UnsupportedSchemaVersion surface found ADAPTIVE_ROUTING_SCHEMA_V1) else Inr ())"

lemma DurationMillisV1_new_Inr:
  "DurationMillisV1_new v = Inr d \<longleftrightarrow> duration_ok d \<and> d = DurationMillisV1 v"
  by (auto simp: DurationMillisV1_new_def duration_ok_def ADAPTIVE_MAX_DURATION_MS_V1_def
      word_neq_0_conv)

lemma unat_u16_less: "unat (a :: u16) < 65536"
  using unsigned_less [of a, where 'a = nat] by simp

text \<open>Widening a \<open>u16\<close> keeps its value.\<close>

lemma unat_widen [simp]:
  "unat (ucast (a :: u16) :: u32) = unat a"
  "unat (ucast (a :: u16) :: u64) = unat a"
  using unat_u16_less [of a] by (simp_all add: unsigned_ucast_eq take_bit_eq_mod)

lemma bps_ok_unat: "bps_ok b \<Longrightarrow> unat (bps_get b) \<le> 10000"
  by (simp add: bps_ok_def word_le_nat_alt)

text \<open>
  Routes, candidates, usage snapshots, policy and input of the adaptive routing kernel
  (\<^verbatim>\<open>orchestrator-core/src/adaptive_routing.rs\<close>), each with its validator. A stored
  \<open>BTreeSet\<close> is the ordered list of its elements; a set that a validator only fills and queries
  is an Isabelle set.
\<close>

section \<open>Routes and authorities\<close>

record RouteTargetV1 =
  rt_candidate_id :: CandidateIdV1
  rt_provider :: ProviderIdV1
  rt_usage_account_id :: UsageAccountIdV1
  rt_runtime :: RuntimeIdV1
  rt_model :: string
  rt_effort :: "string option"

definition RouteTargetV1_validate :: "RouteTargetV1 \<Rightarrow> AdaptiveRoutingError + unit" where
  "RouteTargetV1_validate r =
     and_then (validate_bounded_text ''route.model'' (rt_model r) MAX_ROUTE_TEXT_BYTES) (\<lambda>_.
       case rt_effort r of
         Some effort \<Rightarrow> validate_bounded_text ''route.effort'' effort MAX_ROUTE_TEXT_BYTES
       | None \<Rightarrow> Inr ())"

definition same_executable_target :: "RouteTargetV1 \<Rightarrow> RouteTargetV1 \<Rightarrow> bool" where
  "same_executable_target a b \<longleftrightarrow>
     rt_provider a = rt_provider b \<and> rt_usage_account_id a = rt_usage_account_id b \<and>
     rt_runtime a = rt_runtime b \<and> rt_model a = rt_model b \<and> rt_effort a = rt_effort b"

datatype FixedAuthorityProvenanceV1 =
    AuthoredRuntime | RuntimeFlag | EnvironmentRuntime | ModelFlag | FixedProviderMode | LegacyMode

fun provenance_rank :: "FixedAuthorityProvenanceV1 \<Rightarrow> nat" where
  "provenance_rank AuthoredRuntime = 0"
| "provenance_rank RuntimeFlag = 1"
| "provenance_rank EnvironmentRuntime = 2"
| "provenance_rank ModelFlag = 3"
| "provenance_rank FixedProviderMode = 4"
| "provenance_rank LegacyMode = 5"

lemma provenance_rank_inject: "provenance_rank a = provenance_rank b \<Longrightarrow> a = b"
  by (cases a; cases b) auto

instantiation FixedAuthorityProvenanceV1 :: linorder
begin

definition less_eq_FixedAuthorityProvenanceV1 ::
    "FixedAuthorityProvenanceV1 \<Rightarrow> FixedAuthorityProvenanceV1 \<Rightarrow> bool" where
  "less_eq_FixedAuthorityProvenanceV1 a b \<longleftrightarrow> provenance_rank a \<le> provenance_rank b"

definition less_FixedAuthorityProvenanceV1 ::
    "FixedAuthorityProvenanceV1 \<Rightarrow> FixedAuthorityProvenanceV1 \<Rightarrow> bool" where
  "less_FixedAuthorityProvenanceV1 a b \<longleftrightarrow> provenance_rank a < provenance_rank b"

instance
  by standard (auto simp: less_eq_FixedAuthorityProvenanceV1_def less_FixedAuthorityProvenanceV1_def
      intro: provenance_rank_inject)

end

fun insert_unique ::
    "FixedAuthorityProvenanceV1 list \<Rightarrow> FixedAuthorityProvenanceV1 btree_set
      \<Rightarrow> string + FixedAuthorityProvenanceV1 btree_set" where
  "insert_unique [] unique = Inr unique"
| "insert_unique (v # vs) unique =
     (if v \<in> set unique then Inl ''duplicate fixed authority provenance''
      else insert_unique vs (bts_insert v unique))"

definition deserialize_unique_fixed_provenances ::
    "FixedAuthorityProvenanceV1 list \<Rightarrow> string + FixedAuthorityProvenanceV1 btree_set" where
  "deserialize_unique_fixed_provenances vs = insert_unique vs []"

record FixedRouteV1 =
  fr_composition_version :: u32
  fr_provenances :: "FixedAuthorityProvenanceV1 btree_set"
  fr_route :: RouteTargetV1

definition FixedRouteV1_validate :: "FixedRouteV1 \<Rightarrow> AdaptiveRoutingError + unit" where
  "FixedRouteV1_validate f =
     and_then (validate_schema ''fixed route composition'' (fr_composition_version f)) (\<lambda>_.
     if fr_provenances f = []
     then Inl (InvalidInvariant ''fixed_route.provenances''
                 ''resolved fixed route must retain at least one authority source'')
     else if MAX_FIXED_PROVENANCES < length (fr_provenances f)
     then Inl (InvalidInvariant ''fixed_route.provenances'' ''too many fixed-route provenance sources'')
     else RouteTargetV1_validate (fr_route f))"

record RoutingAuthorityV1 =
  au_resolved_fixed_route :: "FixedRouteV1 option"
  au_legacy_route :: RouteTargetV1

section \<open>Requirements and candidates\<close>

datatype AutomaticEligibilityV1 = Automatic | EligAdvisoryOnly | EligExplicitOnly

datatype QualityTierV1 = Economy | Standard | Premium | Frontier

fun quality_rank :: "QualityTierV1 \<Rightarrow> nat" where
  "quality_rank Economy = 0"
| "quality_rank Standard = 1"
| "quality_rank Premium = 2"
| "quality_rank Frontier = 3"

datatype TaskPriorityV1 = P0 | P1 | P2 | P3

record RouteRequirementsV1 =
  rq_priority :: TaskPriorityV1
  rq_required_capabilities :: "CapabilityIdV1 btree_set"
  rq_minimum_quality :: QualityTierV1

record AdaptiveCandidateV1 =
  ca_route :: RouteTargetV1
  ca_capabilities :: "CapabilityIdV1 btree_set"
  ca_automatic_eligibility :: AutomaticEligibilityV1
  ca_quality :: QualityTierV1
  ca_task_fit_bps :: BasisPointsV1
  ca_latency_bps :: BasisPointsV1
  ca_configured_preference_bps :: BasisPointsV1

section \<open>Usage observations\<close>

datatype UsageHealthV1 = Healthy | Partial | Unavailable

record UsageWindowV1 =
  uw_limit_id :: UsageLimitIdV1
  uw_kind :: UsageWindowKindV1
  uw_applicable_models :: "string btree_set"
  uw_used_bps :: BasisPointsV1
  uw_remaining_bps :: BasisPointsV1
  uw_recent_capacity_bps :: BasisPointsV1
  uw_resets_at_utc_ms :: UtcMillisV1
  uw_duration_ms :: DurationMillisV1

definition UsageWindowV1_validate :: "UsageWindowV1 \<Rightarrow> UtcMillisV1 \<Rightarrow> AdaptiveRoutingError + unit" where
  "UsageWindowV1_validate w observed_at =
     (let total = (ucast (bps_get (uw_used_bps w)) + ucast (bps_get (uw_remaining_bps w)) :: u32) in
      and_then (reject_if (total \<noteq> ucast BASIS_POINTS_SCALE)
        (InvalidInvariant ''usage_window.basis_points''
           ''used and remaining basis points must total 10000'')) (\<lambda>_.
      and_then (reject_if (utc_get (uw_resets_at_utc_ms w) \<le> utc_get observed_at)
        (InvalidInvariant ''usage_window.resets_at_utc_ms''
           ''reset must be later than observation time'')) (\<lambda>_.
      and_then (reject_if
          (dur_get (uw_duration_ms w) < utc_get (uw_resets_at_utc_ms w) - utc_get observed_at)
        (InvalidInvariant ''usage_window.resets_at_utc_ms''
           ''reset horizon exceeds declared window duration'')) (\<lambda>_.
      and_then (reject_if (MAX_MODELS_PER_WINDOW < length (uw_applicable_models w))
        (InvalidInvariant ''usage_window.applicable_models'' ''too many applicable model names'')) (\<lambda>_.
      try_each (\<lambda>model. validate_bounded_text ''usage_window.applicable_model'' model MAX_ROUTE_TEXT_BYTES)
        (uw_applicable_models w))))))"

record UsageSnapshotV1 =
  us_schema_version :: u32
  us_snapshot_id :: SnapshotIdV1
  us_provider :: ProviderIdV1
  us_usage_account_id :: UsageAccountIdV1
  us_source :: UsageSourceIdV1
  us_observed_at_utc_ms :: UtcMillisV1
  us_received_at_utc_ms :: UtcMillisV1
  us_ttl_ms :: DurationMillisV1
  us_confidence_bps :: BasisPointsV1
  us_health :: UsageHealthV1
  us_reason_code :: "UsageReasonCodeV1 option"
  us_windows :: "UsageWindowV1 list"

text \<open>The loop over the windows, with the set of limit identifiers seen so far.\<close>

fun validate_windows ::
    "UtcMillisV1 \<Rightarrow> UsageWindowV1 list \<Rightarrow> UsageLimitIdV1 set \<Rightarrow> AdaptiveRoutingError + unit" where
  "validate_windows observed_at [] limits = Inr ()"
| "validate_windows observed_at (w # ws) limits =
     (if uw_limit_id w \<in> limits then Inl DuplicateUsageLimit
      else and_then (UsageWindowV1_validate w observed_at) (\<lambda>_.
             validate_windows observed_at ws (insert (uw_limit_id w) limits)))"

definition UsageSnapshotV1_validate :: "UsageSnapshotV1 \<Rightarrow> AdaptiveRoutingError + unit" where
  "UsageSnapshotV1_validate s =
     and_then (validate_schema ''usage snapshot'' (us_schema_version s)) (\<lambda>_.
     and_then (reject_if (utc_get (us_received_at_utc_ms s) < utc_get (us_observed_at_utc_ms s))
       (InvalidInvariant ''usage_snapshot.observed_at_utc_ms''
          ''observation cannot be later than receipt'')) (\<lambda>_.
     and_then (case us_health s of
         Healthy \<Rightarrow>
           and_then (reject_if (bps_get (us_confidence_bps s) = 0)
             (InvalidInvariant ''usage_snapshot.confidence_bps''
                ''a healthy snapshot must have non-zero confidence'')) (\<lambda>_.
           reject_if (us_windows s = [])
             (InvalidInvariant ''usage_snapshot.windows''
                ''a healthy snapshot requires at least one window''))
       | _ \<Rightarrow>
           reject_if (us_reason_code s = None)
             (InvalidInvariant ''usage_snapshot.reason_code''
                ''an unhealthy snapshot requires a stable reason code'')) (\<lambda>_.
     and_then (reject_if (MAX_WINDOWS_PER_SNAPSHOT < length (us_windows s))
       (InvalidInvariant ''usage_snapshot.windows'' ''too many usage windows'')) (\<lambda>_.
     validate_windows (us_observed_at_utc_ms s) (us_windows s) {}))))"

section \<open>Policy\<close>

record ProviderReserveV1 =
  pr_provider :: ProviderIdV1
  pr_usage_account_id :: UsageAccountIdV1
  pr_reserve_bps :: BasisPointsV1

record ScoreWeightsV1 =
  sw_task_fit_bps :: BasisPointsV1
  sw_usable_headroom_bps :: BasisPointsV1
  sw_reset_proximity_bps :: BasisPointsV1
  sw_recent_capacity_bps :: BasisPointsV1
  sw_latency_bps :: BasisPointsV1
  sw_health_bps :: BasisPointsV1
  sw_configured_preference_bps :: BasisPointsV1

definition weight_list :: "ScoreWeightsV1 \<Rightarrow> BasisPointsV1 list" where
  "weight_list w =
     [sw_task_fit_bps w, sw_usable_headroom_bps w, sw_reset_proximity_bps w,
      sw_recent_capacity_bps w, sw_latency_bps w, sw_health_bps w, sw_configured_preference_bps w]"

definition ScoreWeightsV1_validate :: "ScoreWeightsV1 \<Rightarrow> AdaptiveRoutingError + unit" where
  "ScoreWeightsV1_validate w =
     (let total = sum_list (map (\<lambda>b. ucast (bps_get b) :: u32) (weight_list w)) in
      reject_if (total \<noteq> ucast BASIS_POINTS_SCALE)
        (InvalidInvariant ''adaptive_policy.score_weights'' ''weights must total 10000 basis points''))"

datatype UnknownUsagePolicyV1 = Defer | StaticFallback | HoldIncumbent

datatype AdaptiveEvaluationModeV1 = Enforce | Shadow

record AdaptivePolicyV1 =
  ap_policy_version :: u32
  ap_maximum_snapshot_age_ms :: DurationMillisV1
  ap_provider_reserves :: "ProviderReserveV1 list"
  ap_score_weights :: ScoreWeightsV1
  ap_switch_margin_bps :: BasisPointsV1
  ap_unknown_usage_policy :: UnknownUsagePolicyV1
  ap_evaluation_mode :: AdaptiveEvaluationModeV1

fun unique_reserves ::
    "ProviderReserveV1 list \<Rightarrow> (ProviderIdV1 \<times> UsageAccountIdV1) set \<Rightarrow> AdaptiveRoutingError + unit" where
  "unique_reserves [] seen = Inr ()"
| "unique_reserves (r # rs) seen =
     (if (pr_provider r, pr_usage_account_id r) \<in> seen then Inl DuplicateProviderReserve
      else unique_reserves rs (insert (pr_provider r, pr_usage_account_id r) seen))"

definition validate_provider_reserves :: "AdaptivePolicyV1 \<Rightarrow> AdaptiveRoutingError + unit" where
  "validate_provider_reserves p =
     and_then (reject_if (MAX_PROVIDER_RESERVES < length (ap_provider_reserves p))
       (InvalidInvariant ''adaptive_policy.provider_reserves'' ''too many provider reserves'')) (\<lambda>_.
     unique_reserves (ap_provider_reserves p) {})"

definition AdaptivePolicyV1_validate :: "AdaptivePolicyV1 \<Rightarrow> AdaptiveRoutingError + unit" where
  "AdaptivePolicyV1_validate p =
     (if ap_policy_version p \<noteq> ADAPTIVE_POLICY_VERSION_V1
      then Inl (UnsupportedPolicyVersion (ap_policy_version p) ADAPTIVE_POLICY_VERSION_V1)
      else and_then (ScoreWeightsV1_validate (ap_score_weights p)) (\<lambda>_.
             validate_provider_reserves p))"

definition reserve_for ::
    "AdaptivePolicyV1 \<Rightarrow> ProviderIdV1 \<Rightarrow> UsageAccountIdV1 \<Rightarrow> BasisPointsV1 option" where
  "reserve_for p provider account =
     map_option pr_reserve_bps
       (find (\<lambda>r. pr_provider r = provider \<and> pr_usage_account_id r = account) (ap_provider_reserves p))"

text \<open>\<open>sort_by\<close> is stable; the key is the provider, then the account.\<close>

definition reserve_key :: "ProviderReserveV1 \<Rightarrow> string list" where
  "reserve_key r = [as_str (pr_provider r), as_str (pr_usage_account_id r)]"

definition policy_canonicalized :: "AdaptivePolicyV1 \<Rightarrow> AdaptivePolicyV1" where
  "policy_canonicalized p = p\<lparr>ap_provider_reserves := sort_key reserve_key (ap_provider_reserves p)\<rparr>"

section \<open>The routing input\<close>

record RoutingInputV1 =
  ri_schema_version :: u32
  ri_mission_id :: MissionId
  ri_phase_id :: PhaseId
  ri_attempt :: u32
  ri_evaluated_at_utc_ms :: UtcMillisV1
  ri_authority :: RoutingAuthorityV1
  ri_requirements :: RouteRequirementsV1
  ri_candidates :: "AdaptiveCandidateV1 list"
  ri_usage_snapshots :: "UsageSnapshotV1 list"
  ri_incumbent_candidate_id :: "CandidateIdV1 option"
  ri_existing_session_runtime :: "RuntimeIdV1 option"

section \<open>What the validators establish\<close>

text \<open>The invariants of the private fields: what every constructed value satisfies.\<close>

definition window_typed :: "UsageWindowV1 \<Rightarrow> bool" where
  "window_typed w \<longleftrightarrow>
     bps_ok (uw_used_bps w) \<and> bps_ok (uw_remaining_bps w) \<and> bps_ok (uw_recent_capacity_bps w) \<and>
     duration_ok (uw_duration_ms w)"

definition snapshot_typed :: "UsageSnapshotV1 \<Rightarrow> bool" where
  "snapshot_typed s \<longleftrightarrow>
     duration_ok (us_ttl_ms s) \<and> bps_ok (us_confidence_bps s) \<and> list_all window_typed (us_windows s)"

definition weights_typed :: "ScoreWeightsV1 \<Rightarrow> bool" where
  "weights_typed w \<longleftrightarrow> list_all bps_ok (weight_list w)"

definition policy_typed :: "AdaptivePolicyV1 \<Rightarrow> bool" where
  "policy_typed p \<longleftrightarrow>
     duration_ok (ap_maximum_snapshot_age_ms p) \<and> weights_typed (ap_score_weights p) \<and>
     bps_ok (ap_switch_margin_bps p) \<and> list_all (\<lambda>r. bps_ok (pr_reserve_bps r)) (ap_provider_reserves p)"

definition candidate_typed :: "AdaptiveCandidateV1 \<Rightarrow> bool" where
  "candidate_typed c \<longleftrightarrow>
     bps_ok (ca_task_fit_bps c) \<and> bps_ok (ca_latency_bps c) \<and> bps_ok (ca_configured_preference_bps c)"

text \<open>In the natural numbers: used and remaining add up, and the reset lies in the window.\<close>

definition window_sound :: "UtcMillisV1 \<Rightarrow> UsageWindowV1 \<Rightarrow> bool" where
  "window_sound observed_at w \<longleftrightarrow>
     unat (bps_get (uw_used_bps w)) + unat (bps_get (uw_remaining_bps w)) = 10000 \<and>
     unat (utc_get observed_at) < unat (utc_get (uw_resets_at_utc_ms w)) \<and>
     unat (utc_get (uw_resets_at_utc_ms w)) \<le> unat (utc_get observed_at) + unat (dur_get (uw_duration_ms w))"

lemma ucast_sum_16:
  "unat (ucast (a :: u16) + ucast (b :: u16) :: u32) = unat a + unat b"
  using unat_u16_less [of a] unat_u16_less [of b] by (simp add: unat_word_ariths)

lemma UsageWindowV1_validate_sound:
  assumes "UsageWindowV1_validate w t = Inr ()"
  shows "window_sound t w"
proof -
  have total: "(ucast (bps_get (uw_used_bps w)) + ucast (bps_get (uw_remaining_bps w)) :: u32)
      = ucast BASIS_POINTS_SCALE"
    and later: "utc_get t < utc_get (uw_resets_at_utc_ms w)"
    and horizon: "utc_get (uw_resets_at_utc_ms w) - utc_get t \<le> dur_get (uw_duration_ms w)"
    using assms by (auto simp: UsageWindowV1_validate_def Let_def result_simps not_le not_less)
  have "unat (bps_get (uw_used_bps w)) + unat (bps_get (uw_remaining_bps w)) = 10000"
    using arg_cong [OF total, of unat] by (simp add: ucast_sum_16 BASIS_POINTS_SCALE_def)
  moreover have "unat (utc_get (uw_resets_at_utc_ms w)) - unat (utc_get t) \<le> unat (dur_get (uw_duration_ms w))"
    using horizon unat_sub [OF order_less_imp_le [OF later]] by (simp add: word_le_nat_alt)
  ultimately show ?thesis
    using later by (auto simp: window_sound_def word_less_nat_alt)
qed

lemma validate_windows_sound:
  "validate_windows t ws seen = Inr u \<Longrightarrow>
     (\<forall>w\<in>set ws. window_sound t w) \<and> distinct (map uw_limit_id ws) \<and>
     set (map uw_limit_id ws) \<inter> seen = {}"
  by (induction t ws seen rule: validate_windows.induct)
    (auto simp: result_simps split: if_splits dest: UsageWindowV1_validate_sound)

definition snapshot_sound :: "UsageSnapshotV1 \<Rightarrow> bool" where
  "snapshot_sound s \<longleftrightarrow>
     utc_get (us_observed_at_utc_ms s) \<le> utc_get (us_received_at_utc_ms s) \<and>
     (us_health s = Healthy \<longrightarrow> bps_get (us_confidence_bps s) \<noteq> 0 \<and> us_windows s \<noteq> []) \<and>
     (us_health s \<noteq> Healthy \<longrightarrow> us_reason_code s \<noteq> None) \<and>
     (\<forall>w\<in>set (us_windows s). window_sound (us_observed_at_utc_ms s) w) \<and>
     distinct (map uw_limit_id (us_windows s))"

lemma UsageSnapshotV1_validate_sound:
  assumes "UsageSnapshotV1_validate s = Inr ()"
  shows "snapshot_sound s"
proof -
  have "utc_get (us_observed_at_utc_ms s) \<le> utc_get (us_received_at_utc_ms s)"
    and "us_health s = Healthy \<longrightarrow> bps_get (us_confidence_bps s) \<noteq> 0 \<and> us_windows s \<noteq> []"
    and "us_health s \<noteq> Healthy \<longrightarrow> us_reason_code s \<noteq> None"
    and "validate_windows (us_observed_at_utc_ms s) (us_windows s) {} = Inr ()"
    using assms by (cases "us_health s";
        auto simp: UsageSnapshotV1_validate_def result_simps not_less)+
  then show ?thesis
    using validate_windows_sound [of "us_observed_at_utc_ms s" "us_windows s" "{}" "()"]
    unfolding snapshot_sound_def by blast
qed

lemma ScoreWeightsV1_validate_sum:
  assumes "weights_typed w" "ScoreWeightsV1_validate w = Inr ()"
  shows "sum_list (map (\<lambda>b. unat (bps_get b)) (weight_list w)) = 10000"
proof -
  have small: "\<forall>b\<in>set (weight_list w). unat (bps_get b) \<le> 10000"
    using assms(1) bps_ok_unat by (auto simp: weights_typed_def list_all_iff)
  have total: "sum_list (map (\<lambda>b. ucast (bps_get b) :: u32) (weight_list w)) = 10000"
    using assms(2) by (simp add: ScoreWeightsV1_validate_def Let_def result_simps BASIS_POINTS_SCALE_def)
  have "unat (sum_list (map (\<lambda>b. ucast (bps_get b) :: u32) (weight_list w))) =
      sum_list (map (\<lambda>b. unat (bps_get b)) (weight_list w))"
    using small by (simp add: weight_list_def unat_word_ariths)
  with total show ?thesis by simp
qed

end
