(* ===== verification/Adaptive_Budget.thy ===== *)
theory Adaptive_Budget
  imports Adaptive_Values
begin

text \<open>
  The aggregate budget of a routing request and the validation of the request
  (\<^verbatim>\<open>orchestrator-core/src/adaptive_routing.rs\<close>): running totals of elements, text bytes, usage
  windows and model references, each checked after every addition. \<open>usize\<close> totals are integers
  with the overflow at \<open>2 ^ 64\<close> written out.
\<close>

section \<open>Counters\<close>

record RoutingBudget =
  rb_elements :: int
  rb_text_bytes :: int
  rb_windows :: int
  rb_model_references :: int

definition empty_budget :: RoutingBudget where
  "empty_budget = \<lparr>rb_elements = 0, rb_text_bytes = 0, rb_windows = 0, rb_model_references = 0\<rparr>"

definition usize_checked_add :: "int \<Rightarrow> int \<Rightarrow> int option" where
  "usize_checked_add a b = (if a + b < 2 ^ 64 then Some (a + b) else None)"

definition add_elements :: "RoutingBudget \<Rightarrow> int \<Rightarrow> AdaptiveRoutingError + RoutingBudget" where
  "add_elements b count =
     and_then (ok_or (usize_checked_add (rb_elements b) count)
       (InvalidInvariant ''adaptive_routing.aggregate_elements'' ''aggregate element count overflowed''))
     (\<lambda>n. if MAX_TOTAL_ROUTING_ELEMENTS < n
          then Inl (InvalidInvariant ''adaptive_routing.aggregate_elements''
                      ''too many aggregate routing elements'')
          else Inr (b\<lparr>rb_elements := n\<rparr>))"

definition add_text :: "RoutingBudget \<Rightarrow> string \<Rightarrow> AdaptiveRoutingError + RoutingBudget" where
  "add_text b s =
     and_then (ok_or (usize_checked_add (rb_text_bytes b) (int (length s)))
       (InvalidInvariant ''adaptive_routing.aggregate_text_bytes'' ''aggregate text byte count overflowed''))
     (\<lambda>n. if MAX_TOTAL_ROUTING_TEXT_BYTES < n
          then Inl (InvalidInvariant ''adaptive_routing.aggregate_text_bytes''
                      ''too many aggregate routing text bytes'')
          else Inr (b\<lparr>rb_text_bytes := n\<rparr>))"

definition add_windows :: "RoutingBudget \<Rightarrow> int \<Rightarrow> AdaptiveRoutingError + RoutingBudget" where
  "add_windows b count =
     and_then (ok_or (usize_checked_add (rb_windows b) count)
       (InvalidInvariant ''adaptive_routing.total_windows'' ''aggregate usage-window count overflowed''))
     (\<lambda>n. if MAX_TOTAL_WINDOWS < n
          then Inl (InvalidInvariant ''adaptive_routing.total_windows'' ''too many aggregate usage windows'')
          else Inr (b\<lparr>rb_windows := n\<rparr>))"

definition add_model_references :: "RoutingBudget \<Rightarrow> int \<Rightarrow> AdaptiveRoutingError + RoutingBudget" where
  "add_model_references b count =
     and_then (ok_or (usize_checked_add (rb_model_references b) count)
       (InvalidInvariant ''adaptive_routing.total_model_references''
          ''aggregate model-reference count overflowed''))
     (\<lambda>n. if MAX_TOTAL_MODEL_REFERENCES < n
          then Inl (InvalidInvariant ''adaptive_routing.total_model_references''
                      ''too many aggregate model references'')
          else Inr (b\<lparr>rb_model_references := n\<rparr>))"

definition account_route_budget ::
    "RoutingBudget \<Rightarrow> RouteTargetV1 \<Rightarrow> AdaptiveRoutingError + RoutingBudget" where
  "account_route_budget b r =
     and_then (add_elements b 1) (\<lambda>b.
     and_then (add_text b (as_str (rt_candidate_id r))) (\<lambda>b.
     and_then (add_text b (as_str (rt_provider r))) (\<lambda>b.
     and_then (add_text b (as_str (rt_usage_account_id r))) (\<lambda>b.
     and_then (add_text b (as_str (rt_runtime r))) (\<lambda>b.
     and_then (add_text b (rt_model r)) (\<lambda>b.
       case rt_effort r of Some effort \<Rightarrow> add_text b effort | None \<Rightarrow> Inr b))))))"

definition account_candidate_budget ::
    "RoutingBudget \<Rightarrow> AdaptiveCandidateV1 \<Rightarrow> AdaptiveRoutingError + RoutingBudget" where
  "account_candidate_budget b c =
     and_then (account_route_budget b (ca_route c)) (\<lambda>b.
     and_then (add_elements b (int (length (ca_capabilities c)))) (\<lambda>b.
       try_fold (\<lambda>b capability. add_text b (as_str capability)) b (ca_capabilities c)))"

definition account_window_budget ::
    "RoutingBudget \<Rightarrow> UsageWindowV1 \<Rightarrow> AdaptiveRoutingError + RoutingBudget" where
  "account_window_budget b w =
     and_then (add_text b (as_str (uw_limit_id w))) (\<lambda>b.
     and_then (add_text b (as_str (uw_kind w))) (\<lambda>b.
     and_then (add_model_references b (int (length (uw_applicable_models w)))) (\<lambda>b.
     and_then (add_elements b (int (length (uw_applicable_models w)))) (\<lambda>b.
       try_fold add_text b (uw_applicable_models w)))))"

definition account_snapshot_budget ::
    "RoutingBudget \<Rightarrow> UsageSnapshotV1 \<Rightarrow> AdaptiveRoutingError + RoutingBudget" where
  "account_snapshot_budget b s =
     and_then (add_elements b 1) (\<lambda>b.
     and_then (add_text b (as_str (us_snapshot_id s))) (\<lambda>b.
     and_then (add_text b (as_str (us_provider s))) (\<lambda>b.
     and_then (add_text b (as_str (us_usage_account_id s))) (\<lambda>b.
     and_then (add_text b (as_str (us_source s))) (\<lambda>b.
     and_then (case us_reason_code s of Some r \<Rightarrow> add_text b (as_str r) | None \<Rightarrow> Inr b) (\<lambda>b.
     and_then (add_windows b (int (length (us_windows s)))) (\<lambda>b.
     and_then (add_elements b (int (length (us_windows s)))) (\<lambda>b.
       try_fold account_window_budget b (us_windows s)))))))))"

section \<open>Validating a request\<close>

definition snapshot_matches :: "AdaptiveCandidateV1 \<Rightarrow> UsageSnapshotV1 \<Rightarrow> bool" where
  "snapshot_matches c s \<longleftrightarrow>
     us_provider s = rt_provider (ca_route c) \<and> us_usage_account_id s = rt_usage_account_id (ca_route c)"

text \<open>One step of the evaluation-work counters: references considered and windows evaluated.\<close>

definition count_evaluation ::
    "int \<times> int \<Rightarrow> UsageSnapshotV1 \<Rightarrow> AdaptiveRoutingError + int \<times> int" where
  "count_evaluation counts s =
     and_then (ok_or (usize_checked_add (fst counts) 1)
       (InvalidInvariant ''adaptive_routing.considered_snapshot_references''
          ''considered snapshot-reference count overflowed'')) (\<lambda>refs.
     and_then (reject_if (MAX_TOTAL_CONSIDERED_SNAPSHOT_REFERENCES < refs)
       (InvalidInvariant ''adaptive_routing.considered_snapshot_references''
          ''too many considered snapshot references'')) (\<lambda>_.
     and_then (ok_or (usize_checked_add (snd counts) (int (length (us_windows s))))
       (InvalidInvariant ''adaptive_routing.usage_window_evaluations''
          ''usage evaluation work count overflowed'')) (\<lambda>evaluations.
     and_then (reject_if (MAX_USAGE_WINDOW_EVALUATIONS < evaluations)
       (InvalidInvariant ''adaptive_routing.usage_window_evaluations''
          ''too much aggregate usage evaluation work'')) (\<lambda>_.
       Inr (refs, evaluations)))))"

definition request_budget :: "RoutingInputV1 \<Rightarrow> AdaptiveRoutingError + RoutingBudget" where
  "request_budget i =
     and_then (add_text empty_budget (as_str (ri_mission_id i))) (\<lambda>b.
     and_then (add_text b (as_str (ri_phase_id i))) (\<lambda>b.
     and_then (add_elements b (int (length (rq_required_capabilities (ri_requirements i))))) (\<lambda>b.
     and_then (try_fold (\<lambda>b c. add_text b (as_str c)) b (rq_required_capabilities (ri_requirements i))) (\<lambda>b.
     and_then (account_route_budget b (au_legacy_route (ri_authority i))) (\<lambda>b.
     and_then (case au_resolved_fixed_route (ri_authority i) of
         Some fixed \<Rightarrow> and_then (add_elements b (int (length (fr_provenances fixed)))) (\<lambda>b.
                         account_route_budget b (fr_route fixed))
       | None \<Rightarrow> Inr b) (\<lambda>b.
     and_then (case ri_incumbent_candidate_id i of Some c \<Rightarrow> add_text b (as_str c) | None \<Rightarrow> Inr b) (\<lambda>b.
     and_then (case ri_existing_session_runtime i of Some r \<Rightarrow> add_text b (as_str r) | None \<Rightarrow> Inr b) (\<lambda>b.
     and_then (try_fold account_candidate_budget b (ri_candidates i)) (\<lambda>b.
       try_fold account_snapshot_budget b (ri_usage_snapshots i))))))))))"

definition evaluation_work :: "RoutingInputV1 \<Rightarrow> AdaptiveRoutingError + int \<times> int" where
  "evaluation_work i =
     try_fold (\<lambda>counts c.
         try_fold (\<lambda>counts s. if snapshot_matches c s then count_evaluation counts s else Inr counts)
           counts (ri_usage_snapshots i))
       (0, 0) (ri_candidates i)"

definition validate_collection_bounds :: "RoutingInputV1 \<Rightarrow> AdaptiveRoutingError + unit" where
  "validate_collection_bounds i =
     and_then (reject_if (MAX_CANDIDATES < length (ri_candidates i))
       (InvalidInvariant ''routing_input.candidates'' ''too many adaptive candidates'')) (\<lambda>_.
     and_then (reject_if (MAX_USAGE_SNAPSHOTS < length (ri_usage_snapshots i))
       (InvalidInvariant ''routing_input.usage_snapshots'' ''too many usage snapshots'')) (\<lambda>_.
     and_then (reject_if (MAX_CAPABILITIES < length (rq_required_capabilities (ri_requirements i)))
       (InvalidInvariant ''routing_input.required_capabilities'' ''too many required capabilities'')) (\<lambda>_.
     and_then (try_each (\<lambda>c. reject_if (MAX_CAPABILITIES < length (ca_capabilities c))
         (InvalidInvariant ''adaptive_candidate.capabilities'' ''too many candidate capabilities''))
       (ri_candidates i)) (\<lambda>_.
     and_then (try_each (\<lambda>s.
         and_then (reject_if (MAX_WINDOWS_PER_SNAPSHOT < length (us_windows s))
           (InvalidInvariant ''usage_snapshot.windows'' ''too many usage windows'')) (\<lambda>_.
         try_each (\<lambda>w. reject_if (MAX_MODELS_PER_WINDOW < length (uw_applicable_models w))
             (InvalidInvariant ''usage_window.applicable_models'' ''too many applicable model names''))
           (us_windows s)))
       (ri_usage_snapshots i)) (\<lambda>_.
     and_then (request_budget i) (\<lambda>_.
     and_then (evaluation_work i) (\<lambda>_. Inr ())))))))"

definition validate_request_invariants :: "RoutingInputV1 \<Rightarrow> AdaptiveRoutingError + unit" where
  "validate_request_invariants i =
     and_then (validate_schema ''routing input'' (ri_schema_version i)) (\<lambda>_.
     and_then (reject_if (ri_attempt i = 0)
       (InvalidInvariant ''routing_input.attempt'' ''attempt is one-based'')) (\<lambda>_.
     and_then (case au_resolved_fixed_route (ri_authority i) of
         Some fixed \<Rightarrow> FixedRouteV1_validate fixed | None \<Rightarrow> Inr ()) (\<lambda>_.
     and_then (validate_collection_bounds i) (\<lambda>_. Inr ()))))"

text \<open>The adaptive part: the loops over candidates and snapshots carry the sets seen so far.\<close>

type_synonym executable_target =
  "ProviderIdV1 \<times> UsageAccountIdV1 \<times> RuntimeIdV1 \<times> string \<times> string option"

definition executable_target :: "RouteTargetV1 \<Rightarrow> executable_target" where
  "executable_target r =
     (rt_provider r, rt_usage_account_id r, rt_runtime r, rt_model r, rt_effort r)"

fun validate_candidates ::
    "AdaptivePolicyV1 \<Rightarrow> AdaptiveCandidateV1 list \<Rightarrow> CandidateIdV1 set \<Rightarrow> executable_target set
      \<Rightarrow> AdaptiveRoutingError + CandidateIdV1 set" where
  "validate_candidates p [] ids targets = Inr ids"
| "validate_candidates p (c # cs) ids targets =
     and_then (RouteTargetV1_validate (ca_route c)) (\<lambda>_.
       if rt_candidate_id (ca_route c) \<in> ids then Inl DuplicateCandidate
       else if executable_target (ca_route c) \<in> targets then Inl DuplicateExecutableRoute
       else if reserve_for p (rt_provider (ca_route c)) (rt_usage_account_id (ca_route c)) = None
       then Inl MissingProviderReserve
       else validate_candidates p cs (insert (rt_candidate_id (ca_route c)) ids)
              (insert (executable_target (ca_route c)) targets))"

fun validate_snapshots ::
    "UsageSnapshotV1 list \<Rightarrow> SnapshotIdV1 set \<Rightarrow> AdaptiveRoutingError + unit" where
  "validate_snapshots [] ids = Inr ()"
| "validate_snapshots (s # ss) ids =
     and_then (UsageSnapshotV1_validate s) (\<lambda>_.
       if us_snapshot_id s \<in> ids then Inl DuplicateSnapshot
       else validate_snapshots ss (insert (us_snapshot_id s) ids))"

definition validate_adaptive ::
    "RoutingInputV1 \<Rightarrow> AdaptivePolicyV1 \<Rightarrow> AdaptiveRoutingError + unit" where
  "validate_adaptive i p =
     and_then (RouteTargetV1_validate (au_legacy_route (ri_authority i))) (\<lambda>_.
     and_then (validate_candidates p (ri_candidates i) {} {}) (\<lambda>ids.
     and_then (validate_snapshots (ri_usage_snapshots i) {}) (\<lambda>_.
       case ri_incumbent_candidate_id i of
         Some incumbent \<Rightarrow>
           if incumbent \<notin> ids
           then Inl (InvalidInvariant ''routing_input.incumbent_candidate_id''
                       ''incumbent must identify a configured candidate'')
           else Inr ()
       | None \<Rightarrow> Inr ())))"

section \<open>Budgets that only grow\<close>

text \<open>
  A bounded total: costs are never negative, so a total within its limits had all its prefixes
  within them. A charge \<open>f\<close> is metered at cost \<open>c\<close> when it succeeds exactly if adding \<open>c\<close> keeps
  the total within its limits; metered charges compose, along sequences, options and loops.
\<close>

locale bounded_total =
  fixes plus :: "'b \<Rightarrow> 'b \<Rightarrow> 'b"
    and zero :: 'b
    and fits :: "'b \<Rightarrow> bool"
    and costly :: "'b \<Rightarrow> bool"
  assumes plus_assoc: "plus (plus a b) c = plus a (plus b c)"
    and plus_zero: "plus b zero = b"
    and zero_costly: "costly zero"
    and plus_costly: "costly a \<Longrightarrow> costly b \<Longrightarrow> costly (plus a b)"
    and fits_prefix: "costly c \<Longrightarrow> fits (plus b c) \<Longrightarrow> fits b"
begin

definition metered :: "('b \<Rightarrow> 'e + 'b) \<Rightarrow> 'b \<Rightarrow> bool" where
  "metered f c \<longleftrightarrow> costly c \<and> (\<forall>b b'. fits b \<longrightarrow> (f b = Inr b' \<longleftrightarrow> b' = plus b c \<and> fits b'))"

primrec total :: "('x \<Rightarrow> 'b) \<Rightarrow> 'x list \<Rightarrow> 'b" where
  "total cost [] = zero"
| "total cost (x # xs) = plus (cost x) (total cost xs)"

lemma metered_Inr: "metered f c \<Longrightarrow> fits b \<Longrightarrow> f b = Inr b' \<longleftrightarrow> b' = plus b c \<and> fits b'"
  by (simp add: metered_def)

lemma metered_skip: "metered (\<lambda>b. Inr b) zero"
  by (auto simp: metered_def zero_costly plus_zero)

lemma metered_seq:
  assumes "metered f c" "metered g d"
  shows "metered (\<lambda>b. and_then (f b) g) (plus c d)"
  unfolding metered_def
proof (intro conjI allI impI)
  show "costly (plus c d)" using assms by (simp add: metered_def plus_costly)
  fix b b'
  assume b: "fits b"
  have "(and_then (f b) g = Inr b') \<longleftrightarrow> fits (plus b c) \<and> g (plus b c) = Inr b'"
    by (auto simp: result_simps metered_Inr [OF assms(1) b])
  also have "\<dots> \<longleftrightarrow> fits (plus b c) \<and> b' = plus b (plus c d) \<and> fits b'"
    using metered_Inr [OF assms(2), of "plus b c" b'] by (auto simp: plus_assoc)
  also have "\<dots> \<longleftrightarrow> b' = plus b (plus c d) \<and> fits b'"
    using fits_prefix [of d "plus b c"] assms(2) by (auto simp: metered_def plus_assoc)
  finally show "(and_then (f b) g = Inr b') \<longleftrightarrow> b' = plus b (plus c d) \<and> fits b'" .
qed

lemma metered_option:
  assumes "\<And>x. metered (f x) (cost x)"
  shows "metered (\<lambda>b. case m of Some x \<Rightarrow> f x b | None \<Rightarrow> Inr b)
    (case m of Some x \<Rightarrow> cost x | None \<Rightarrow> zero)"
  using assms metered_skip by (cases m) auto

lemma metered_fold:
  assumes "\<And>x. metered (\<lambda>b. f b x) (cost x)"
  shows "metered (\<lambda>b. try_fold f b xs) (total cost xs)"
proof (induction xs)
  case Nil
  show ?case using metered_skip by simp
next
  case (Cons x xs)
  show ?case using metered_seq [OF assms [of x] Cons.IH] by simp
qed

lemma total_costly: "(\<And>x. costly (cost x)) \<Longrightarrow> costly (total cost xs)"
  by (induction xs) (simp_all add: zero_costly plus_costly)

end

definition rb_plus :: "RoutingBudget \<Rightarrow> RoutingBudget \<Rightarrow> RoutingBudget" where
  "rb_plus a b =
     \<lparr>rb_elements = rb_elements a + rb_elements b, rb_text_bytes = rb_text_bytes a + rb_text_bytes b,
      rb_windows = rb_windows a + rb_windows b,
      rb_model_references = rb_model_references a + rb_model_references b\<rparr>"

definition rb_fits :: "RoutingBudget \<Rightarrow> bool" where
  "rb_fits b \<longleftrightarrow> rb_elements b \<le> 8192 \<and> rb_text_bytes b \<le> 1048576 \<and> rb_windows b \<le> 512 \<and>
     rb_model_references b \<le> 4096"

definition rb_costly :: "RoutingBudget \<Rightarrow> bool" where
  "rb_costly b \<longleftrightarrow> 0 \<le> rb_elements b \<and> 0 \<le> rb_text_bytes b \<and> 0 \<le> rb_windows b \<and>
     0 \<le> rb_model_references b"

interpretation budget: bounded_total rb_plus empty_budget rb_fits rb_costly
  by unfold_locales (auto simp: rb_plus_def empty_budget_def rb_fits_def rb_costly_def)

text \<open>The two evaluation-work counters, as a pair.\<close>

definition work_plus :: "int \<times> int \<Rightarrow> int \<times> int \<Rightarrow> int \<times> int" where
  "work_plus a b = (fst a + fst b, snd a + snd b)"

definition work_fits :: "int \<times> int \<Rightarrow> bool" where
  "work_fits a \<longleftrightarrow> fst a \<le> 8192 \<and> snd a \<le> 32768"

definition work_costly :: "int \<times> int \<Rightarrow> bool" where
  "work_costly a \<longleftrightarrow> 0 \<le> fst a \<and> 0 \<le> snd a"

interpretation work: bounded_total work_plus "(0, 0)" work_fits work_costly
  by unfold_locales (auto simp: work_plus_def work_fits_def work_costly_def)

section \<open>What each item costs\<close>

definition elements_cost :: "int \<Rightarrow> RoutingBudget" where
  "elements_cost n = empty_budget\<lparr>rb_elements := n\<rparr>"

definition text_cost :: "string \<Rightarrow> RoutingBudget" where
  "text_cost s = empty_budget\<lparr>rb_text_bytes := int (length s)\<rparr>"

definition windows_cost :: "int \<Rightarrow> RoutingBudget" where
  "windows_cost n = empty_budget\<lparr>rb_windows := n\<rparr>"

definition model_references_cost :: "int \<Rightarrow> RoutingBudget" where
  "model_references_cost n = empty_budget\<lparr>rb_model_references := n\<rparr>"

lemma metered_primitives:
  "0 \<le> n \<Longrightarrow> budget.metered (\<lambda>b. add_elements b n) (elements_cost n)"
  "budget.metered (\<lambda>b. add_text b s) (text_cost s)"
  "0 \<le> n \<Longrightarrow> budget.metered (\<lambda>b. add_windows b n) (windows_cost n)"
  "0 \<le> n \<Longrightarrow> budget.metered (\<lambda>b. add_model_references b n) (model_references_cost n)"
  unfolding budget.metered_def
  by (auto simp: rb_costly_def rb_fits_def rb_plus_def result_simps usize_checked_add_def empty_budget_def
      add_elements_def elements_cost_def MAX_TOTAL_ROUTING_ELEMENTS_def
      add_text_def text_cost_def MAX_TOTAL_ROUTING_TEXT_BYTES_def
      add_windows_def windows_cost_def MAX_TOTAL_WINDOWS_def
      add_model_references_def model_references_cost_def MAX_TOTAL_MODEL_REFERENCES_def
      split: if_splits)

definition option_cost :: "('a \<Rightarrow> RoutingBudget) \<Rightarrow> 'a option \<Rightarrow> RoutingBudget" where
  "option_cost cost m = (case m of Some x \<Rightarrow> cost x | None \<Rightarrow> empty_budget)"

definition route_cost :: "RouteTargetV1 \<Rightarrow> RoutingBudget" where
  "route_cost r =
     rb_plus (elements_cost 1) (rb_plus (text_cost (as_str (rt_candidate_id r)))
    (rb_plus (text_cost (as_str (rt_provider r))) (rb_plus (text_cost (as_str (rt_usage_account_id r)))
    (rb_plus (text_cost (as_str (rt_runtime r))) (rb_plus (text_cost (rt_model r))
      (option_cost text_cost (rt_effort r)))))))"

lemma route_metered: "budget.metered (\<lambda>b. account_route_budget b r) (route_cost r)"
  unfolding account_route_budget_def route_cost_def option_cost_def
  by (intro budget.metered_seq budget.metered_option metered_primitives) simp_all

definition name_cost :: "'k name \<Rightarrow> RoutingBudget" where
  "name_cost n = text_cost (as_str n)"

definition candidate_cost :: "AdaptiveCandidateV1 \<Rightarrow> RoutingBudget" where
  "candidate_cost c =
     rb_plus (route_cost (ca_route c)) (rb_plus (elements_cost (int (length (ca_capabilities c))))
       (budget.total name_cost (ca_capabilities c)))"

lemma candidate_metered: "budget.metered (\<lambda>b. account_candidate_budget b c) (candidate_cost c)"
  unfolding account_candidate_budget_def candidate_cost_def name_cost_def
  by (intro budget.metered_seq budget.metered_fold route_metered metered_primitives) simp_all

definition window_cost :: "UsageWindowV1 \<Rightarrow> RoutingBudget" where
  "window_cost w =
     rb_plus (name_cost (uw_limit_id w)) (rb_plus (name_cost (uw_kind w))
    (rb_plus (model_references_cost (int (length (uw_applicable_models w))))
    (rb_plus (elements_cost (int (length (uw_applicable_models w))))
       (budget.total text_cost (uw_applicable_models w)))))"

lemma window_metered: "budget.metered (\<lambda>b. account_window_budget b w) (window_cost w)"
  unfolding account_window_budget_def window_cost_def name_cost_def
  by (intro budget.metered_seq budget.metered_fold metered_primitives) simp_all

definition snapshot_cost :: "UsageSnapshotV1 \<Rightarrow> RoutingBudget" where
  "snapshot_cost s =
     rb_plus (elements_cost 1) (rb_plus (name_cost (us_snapshot_id s))
    (rb_plus (name_cost (us_provider s)) (rb_plus (name_cost (us_usage_account_id s))
    (rb_plus (name_cost (us_source s)) (rb_plus (option_cost name_cost (us_reason_code s))
    (rb_plus (windows_cost (int (length (us_windows s))))
    (rb_plus (elements_cost (int (length (us_windows s)))) (budget.total window_cost (us_windows s)))))))))"

lemma snapshot_metered: "budget.metered (\<lambda>b. account_snapshot_budget b s) (snapshot_cost s)"
  unfolding account_snapshot_budget_def snapshot_cost_def name_cost_def option_cost_def
  by (intro budget.metered_seq budget.metered_option budget.metered_fold window_metered
      metered_primitives) simp_all

lemma count_metered:
  "work.metered (\<lambda>n. count_evaluation n s) (1, int (length (us_windows s)))"
  unfolding work.metered_def
  by (auto simp: work_costly_def work_fits_def work_plus_def count_evaluation_def result_simps
      usize_checked_add_def MAX_TOTAL_CONSIDERED_SNAPSHOT_REFERENCES_def
      MAX_USAGE_WINDOW_EVALUATIONS_def split: if_splits)

end
