(* ===== verification/Adaptive_Decision.thy ===== *)
theory Adaptive_Decision
  imports Adaptive_Budget "HOL-Library.Product_Lexorder"
begin

text \<open>
  The decision of the adaptive routing kernel
  (\<^verbatim>\<open>orchestrator-core/src/adaptive_routing.rs\<close>): how usage evidence is assessed, how a candidate
  is evaluated and scored, how the recommendation is selected, and \<open>decide_route\<close>.
\<close>

section \<open>Rejections, evaluations and outcomes\<close>

datatype CandidateRejectionV1 =
    AdvisoryOnly
  | ExplicitOnly
  | MissingCapability
  | BelowQualityFloor
  | MissingUsageSnapshot
  | StaleUsageSnapshot
  | UsageClockSkew
  | ResetElapsed
  | UnhealthyUsage
  | NoApplicableWindow
  | ConflictingUsageSnapshots
  | Exhausted
  | ReserveProtected

definition usage_is_unknown :: "CandidateRejectionV1 \<Rightarrow> bool" where
  "usage_is_unknown r \<longleftrightarrow>
     r \<in> {MissingUsageSnapshot, StaleUsageSnapshot, UsageClockSkew, ResetElapsed, UnhealthyUsage,
          NoApplicableWindow}"

datatype CandidateDispositionV1 = Eligible | Rejected CandidateRejectionV1

record ScoreComponentsV1 =
  sc_task_fit_bps :: BasisPointsV1
  sc_usable_headroom_bps :: BasisPointsV1
  sc_reset_proximity_bps :: BasisPointsV1
  sc_recent_capacity_bps :: BasisPointsV1
  sc_latency_bps :: BasisPointsV1
  sc_health_bps :: BasisPointsV1
  sc_configured_preference_bps :: BasisPointsV1

record CandidateEvaluationV1 =
  ev_candidate :: AdaptiveCandidateV1
  ev_disposition :: CandidateDispositionV1
  ev_considered_snapshot_ids :: "SnapshotIdV1 btree_set"
  ev_governing_snapshot_ids :: "SnapshotIdV1 btree_set"
  ev_usage_reason_code :: "UsageReasonCodeV1 option"
  ev_reported_remaining_bps :: "BasisPointsV1 option"
  ev_applied_reserve_bps :: "BasisPointsV1 option"
  ev_usable_headroom_bps :: "BasisPointsV1 option"
  ev_score_components :: "ScoreComponentsV1 option"
  ev_score_bps :: "BasisPointsV1 option"

datatype AppliedAuthorityV1 =
    AuthorityFixed "FixedAuthorityProvenanceV1 btree_set"
  | AuthorityAdaptive

datatype SwitchReasonV1 =
    FixedAuthority
  | BestCandidate
  | IncumbentBest
  | IncumbentHeldByHysteresis
  | ChallengerMetMargin
  | IncumbentIneligible CandidateRejectionV1
  | IncumbentHeldOnUnknownUsage CandidateRejectionV1
  | LegacyFallbackOnUnknownUsage
  | NoEligibleCandidate

datatype RouteDeferralReasonV1 =
    NoAdaptiveCandidate
  | DeferHardConstraint
  | DeferCapacityUnavailable
  | DeferUnknownUsage
  | DeferConflictingUsageEvidence
  | MixedIneligibility

datatype RouteOutcomeV1 = Route RouteTargetV1 | Deferred RouteDeferralReasonV1

fun outcome_route :: "RouteOutcomeV1 \<Rightarrow> RouteTargetV1 option" where
  "outcome_route (Route r) = Some r"
| "outcome_route (Deferred _) = None"

fun RouteOutcomeV1_validate :: "RouteOutcomeV1 \<Rightarrow> AdaptiveRoutingError + unit" where
  "RouteOutcomeV1_validate (Route r) = RouteTargetV1_validate r"
| "RouteOutcomeV1_validate (Deferred _) = Inr ()"

datatype ContinuationDispositionV1 =
    NoDispatch | NoSession | SameRuntimeMayResume | FreshSessionRequired

datatype RoutingDecisionModeV1 = ModeFixed | ModeAdaptive AdaptiveEvaluationModeV1

record RoutingDecisionV1 =
  rd_schema_version :: u32
  rd_applied_policy :: "AdaptivePolicyV1 option"
  rd_evaluated_at_utc_ms :: UtcMillisV1
  rd_mission_id :: MissionId
  rd_phase_id :: PhaseId
  rd_attempt :: u32
  rd_applied_authority :: AppliedAuthorityV1
  rd_requirements :: RouteRequirementsV1
  rd_incumbent_candidate_id :: "CandidateIdV1 option"
  rd_existing_session_runtime :: "RuntimeIdV1 option"
  rd_legacy_route :: "RouteTargetV1 option"
  rd_candidate_evaluations :: "CandidateEvaluationV1 list"
  rd_referenced_snapshots :: "UsageSnapshotV1 list"
  rd_recommended_outcome :: RouteOutcomeV1
  rd_dispatch_outcome :: RouteOutcomeV1
  rd_switch_reason :: SwitchReasonV1
  rd_continuation :: ContinuationDispositionV1
  rd_decision_mode :: RoutingDecisionModeV1

definition continuation_for ::
    "RuntimeIdV1 option \<Rightarrow> RouteOutcomeV1 \<Rightarrow> ContinuationDispositionV1" where
  "continuation_for existing outcome =
     (case map_option rt_runtime (outcome_route outcome) of
        None \<Rightarrow> NoDispatch
      | Some dispatch_runtime \<Rightarrow>
          (case existing of
             None \<Rightarrow> NoSession
           | Some e \<Rightarrow> if e = dispatch_runtime then SameRuntimeMayResume else FreshSessionRequired))"

section \<open>Usage evidence\<close>

record UsageAssessment =
  ua_remaining_bps :: BasisPointsV1
  ua_reset_proximity_bps :: BasisPointsV1
  ua_recent_capacity_bps :: BasisPointsV1
  ua_health_bps :: BasisPointsV1

datatype UsageProbe =
    ProbeUsable UsageAssessment "SnapshotIdV1 btree_set" "SnapshotIdV1 btree_set"
  | ProbeRejected CandidateRejectionV1 "SnapshotIdV1 btree_set" "SnapshotIdV1 btree_set"
      "UsageReasonCodeV1 option"

definition u16_try_from :: "u64 \<Rightarrow> u16 option" where
  "u16_try_from n = (if n \<le> 65535 then Some (ucast n) else None)"

text \<open>The loop over the applicable windows, with its three running minima.\<close>

fun assess_windows ::
    "UtcMillisV1 \<Rightarrow> UsageWindowV1 list \<Rightarrow> u16 \<Rightarrow> u16 \<Rightarrow> u16
      \<Rightarrow> CandidateRejectionV1 + u16 \<times> u16 \<times> u16" where
  "assess_windows t [] remaining proximity capacity = Inr (remaining, proximity, capacity)"
| "assess_windows t (w # ws) remaining proximity capacity =
     (if utc_get (uw_resets_at_utc_ms w) \<le> utc_get t then Inl ResetElapsed
      else
        let remaining' = min remaining (bps_get (uw_remaining_bps w));
            capacity' = min capacity (bps_get (uw_recent_capacity_bps w));
            horizon = utc_get (uw_resets_at_utc_ms w) - utc_get t;
            ratio = horizon * ucast BASIS_POINTS_SCALE div dur_get (uw_duration_ms w)
        in and_then (ok_or (u16_try_from (min ratio (ucast BASIS_POINTS_SCALE))) UnhealthyUsage) (\<lambda>r.
             assess_windows t ws remaining' (min proximity (BASIS_POINTS_SCALE - r)) capacity'))"

definition window_applies :: "string \<Rightarrow> UsageWindowV1 \<Rightarrow> bool" where
  "window_applies model w \<longleftrightarrow> uw_applicable_models w = [] \<or> model \<in> set (uw_applicable_models w)"

definition snapshot_assessment ::
    "UsageSnapshotV1 \<Rightarrow> string \<Rightarrow> UtcMillisV1 \<Rightarrow> DurationMillisV1
      \<Rightarrow> CandidateRejectionV1 + UsageAssessment" where
  "snapshot_assessment s model t maximum_age =
     (if utc_get t < utc_get (us_received_at_utc_ms s) then Inl UsageClockSkew
      else if min (dur_get (us_ttl_ms s)) (dur_get maximum_age)
                \<le> utc_get t - utc_get (us_observed_at_utc_ms s)
      then Inl StaleUsageSnapshot
      else if us_health s \<noteq> Healthy then Inl UnhealthyUsage
      else
        let applicable = filter (window_applies model) (us_windows s) in
        and_then (assess_windows t applicable BASIS_POINTS_SCALE BASIS_POINTS_SCALE BASIS_POINTS_SCALE)
          (\<lambda>(remaining, proximity, capacity).
            if applicable = [] then Inl NoApplicableWindow
            else
              and_then (map_err (\<lambda>_. UnhealthyUsage) (BasisPointsV1_new remaining)) (\<lambda>remaining_bps.
              and_then (map_err (\<lambda>_. UnhealthyUsage) (BasisPointsV1_new proximity)) (\<lambda>proximity_bps.
              and_then (map_err (\<lambda>_. UnhealthyUsage) (BasisPointsV1_new capacity)) (\<lambda>capacity_bps.
                Inr \<lparr>ua_remaining_bps = remaining_bps, ua_reset_proximity_bps = proximity_bps,
                     ua_recent_capacity_bps = capacity_bps, ua_health_bps = us_confidence_bps s\<rparr>)))))"

definition assessments_are_equivalent ::
    "UsageSnapshotV1 \<Rightarrow> CandidateRejectionV1 + UsageAssessment \<Rightarrow> UsageSnapshotV1
      \<Rightarrow> CandidateRejectionV1 + UsageAssessment \<Rightarrow> bool" where
  "assessments_are_equivalent ls left rs right =
     (case (left, right) of
        (Inr l, Inr r) \<Rightarrow>
          ua_remaining_bps l = ua_remaining_bps r \<and> ua_reset_proximity_bps l = ua_reset_proximity_bps r \<and>
          ua_recent_capacity_bps l = ua_recent_capacity_bps r \<and> ua_health_bps l = ua_health_bps r
      | (Inl l, Inl r) \<Rightarrow> l = r \<and> (l \<noteq> UnhealthyUsage \<or> us_reason_code ls = us_reason_code rs)
      | _ \<Rightarrow> False)"

text \<open>
  Newest observation first, then newest receipt, then the smallest identifier: the stable sort by
  this key, in the lexicographic order of triples.
\<close>

definition evidence_key :: "UsageSnapshotV1 \<Rightarrow> int \<times> int \<times> string" where
  "evidence_key s =
     (- uint (utc_get (us_observed_at_utc_ms s)), - uint (utc_get (us_received_at_utc_ms s)),
      as_str (us_snapshot_id s))"

definition sort_evidence :: "UsageSnapshotV1 list \<Rightarrow> UsageSnapshotV1 list" where
  "sort_evidence xs = sort_key evidence_key xs"

definition same_instant :: "UsageSnapshotV1 \<Rightarrow> UsageSnapshotV1 \<Rightarrow> bool" where
  "same_instant a b \<longleftrightarrow>
     us_observed_at_utc_ms a = us_observed_at_utc_ms b \<and> us_received_at_utc_ms a = us_received_at_utc_ms b"

definition ids_of :: "UsageSnapshotV1 list \<Rightarrow> SnapshotIdV1 btree_set" where
  "ids_of ss = bts_collect (map us_snapshot_id ss)"

text \<open>
  The loop over groups of equally fresh snapshots, with the first rejection seen: \<open>group_tail\<close>
  are the members of the first snapshot's group after it.
\<close>

function probe_groups ::
    "(UsageSnapshotV1 \<Rightarrow> CandidateRejectionV1 + UsageAssessment) \<Rightarrow> SnapshotIdV1 btree_set
      \<Rightarrow> UsageSnapshotV1 list
      \<Rightarrow> (UsageSnapshotV1 \<times> CandidateRejectionV1 \<times> SnapshotIdV1 btree_set) option
      \<Rightarrow> UsageProbe" where
  "probe_groups assess considered [] newest =
     (case newest of
        Some (s, reason, governing) \<Rightarrow>
          ProbeRejected reason considered governing
            (if reason = UnhealthyUsage then us_reason_code s else None)
      | None \<Rightarrow> ProbeRejected MissingUsageSnapshot considered [] None)"
| "probe_groups assess considered (first # rest) newest =
     (let group_tail = takeWhile (\<lambda>s. same_instant s first) rest;
          governing = ids_of (first # group_tail);
          a = assess first
      in if list_ex (\<lambda>s. \<not> assessments_are_equivalent first a s (assess s)) group_tail
         then ProbeRejected ConflictingUsageSnapshots considered governing None
         else case a of
             Inr assessment \<Rightarrow> ProbeUsable assessment considered governing
           | Inl reason \<Rightarrow>
               probe_groups assess considered (drop (length group_tail) rest)
                 (case newest of None \<Rightarrow> Some (first, reason, governing) | Some n \<Rightarrow> Some n))"
  by pat_completeness auto
termination
  by (relation "measure (\<lambda>(_, _, ss, _). length ss)") auto

definition usage_for_candidate ::
    "AdaptiveCandidateV1 \<Rightarrow> UsageSnapshotV1 list \<Rightarrow> UtcMillisV1 \<Rightarrow> DurationMillisV1 \<Rightarrow> UsageProbe" where
  "usage_for_candidate c snapshots t maximum_age =
     (let ordered = sort_evidence (filter (snapshot_matches c) snapshots) in
      probe_groups (\<lambda>s. snapshot_assessment s (rt_model (ca_route c)) t maximum_age)
        (ids_of ordered) ordered None)"

section \<open>Scoring\<close>

definition weighted_components ::
    "AdaptivePolicyV1 \<Rightarrow> ScoreComponentsV1 \<Rightarrow> (BasisPointsV1 \<times> BasisPointsV1) list" where
  "weighted_components p c =
     (let w = ap_score_weights p in
      [(sc_task_fit_bps c, sw_task_fit_bps w),
       (sc_usable_headroom_bps c, sw_usable_headroom_bps w),
       (sc_reset_proximity_bps c, sw_reset_proximity_bps w),
       (sc_recent_capacity_bps c, sw_recent_capacity_bps w),
       (sc_latency_bps c, sw_latency_bps w),
       (sc_health_bps c, sw_health_bps w),
       (sc_configured_preference_bps c, sw_configured_preference_bps w)])"

definition add_term ::
    "u64 \<Rightarrow> BasisPointsV1 \<times> BasisPointsV1 \<Rightarrow> AdaptiveRoutingError + u64" where
  "add_term acc t =
     and_then (ok_or (checked_mul (ucast (bps_get (fst t)) :: u64) (ucast (bps_get (snd t)))) ScoreOverflow)
       (\<lambda>term. ok_or (checked_add acc term) ScoreOverflow)"

definition weighted_score ::
    "AdaptivePolicyV1 \<Rightarrow> ScoreComponentsV1 \<Rightarrow> AdaptiveRoutingError + BasisPointsV1" where
  "weighted_score p components =
     and_then (try_fold add_term 0 (weighted_components p components)) (\<lambda>weighted_total.
     and_then (ok_or (u16_try_from (weighted_total div ucast BASIS_POINTS_SCALE)) ScoreOverflow)
       BasisPointsV1_new)"

section \<open>Evaluating a candidate\<close>

definition reject ::
    "AdaptiveCandidateV1 \<Rightarrow> CandidateRejectionV1 \<Rightarrow> SnapshotIdV1 btree_set \<Rightarrow> SnapshotIdV1 btree_set
      \<Rightarrow> UsageReasonCodeV1 option \<Rightarrow> CandidateEvaluationV1" where
  "reject c reason considered governing code =
     \<lparr>ev_candidate = c, ev_disposition = Rejected reason, ev_considered_snapshot_ids = considered,
      ev_governing_snapshot_ids = governing, ev_usage_reason_code = code,
      ev_reported_remaining_bps = None, ev_applied_reserve_bps = None, ev_usable_headroom_bps = None,
      ev_score_components = None, ev_score_bps = None\<rparr>"

definition reject_with_budget ::
    "AdaptiveCandidateV1 \<Rightarrow> CandidateRejectionV1 \<Rightarrow> SnapshotIdV1 btree_set \<Rightarrow> SnapshotIdV1 btree_set
      \<Rightarrow> BasisPointsV1 \<Rightarrow> BasisPointsV1 \<Rightarrow> CandidateEvaluationV1" where
  "reject_with_budget c reason considered governing remaining reserve =
     \<lparr>ev_candidate = c, ev_disposition = Rejected reason, ev_considered_snapshot_ids = considered,
      ev_governing_snapshot_ids = governing, ev_usage_reason_code = None,
      ev_reported_remaining_bps = Some remaining, ev_applied_reserve_bps = Some reserve,
      ev_usable_headroom_bps = None, ev_score_components = None, ev_score_bps = None\<rparr>"

definition evaluate_budget ::
    "AdaptivePolicyV1 \<Rightarrow> RoutingInputV1 \<Rightarrow> AdaptiveCandidateV1 \<Rightarrow> UsageAssessment
      \<Rightarrow> SnapshotIdV1 btree_set \<Rightarrow> SnapshotIdV1 btree_set
      \<Rightarrow> AdaptiveRoutingError + CandidateEvaluationV1" where
  "evaluate_budget p i c assessment considered governing =
     (let remaining = bps_get (ua_remaining_bps assessment) in
      and_then (ok_or (reserve_for p (rt_provider (ca_route c)) (rt_usage_account_id (ca_route c)))
                  MissingProviderReserve) (\<lambda>reserve.
      if remaining = 0
      then Inr (reject_with_budget c Exhausted considered governing (ua_remaining_bps assessment) reserve)
      else if rq_priority (ri_requirements i) \<noteq> P0 \<and> remaining \<le> bps_get reserve
      then Inr (reject_with_budget c ReserveProtected considered governing
                  (ua_remaining_bps assessment) reserve)
      else
        and_then (if rq_priority (ri_requirements i) = P0 then Inr (ua_remaining_bps assessment)
                  else BasisPointsV1_new (remaining - bps_get reserve)) (\<lambda>usable.
        let components =
          \<lparr>sc_task_fit_bps = ca_task_fit_bps c, sc_usable_headroom_bps = usable,
           sc_reset_proximity_bps = ua_reset_proximity_bps assessment,
           sc_recent_capacity_bps = ua_recent_capacity_bps assessment,
           sc_latency_bps = ca_latency_bps c, sc_health_bps = ua_health_bps assessment,
           sc_configured_preference_bps = ca_configured_preference_bps c\<rparr>
        in and_then (weighted_score p components) (\<lambda>score.
             Inr \<lparr>ev_candidate = c, ev_disposition = Eligible,
                  ev_considered_snapshot_ids = considered, ev_governing_snapshot_ids = governing,
                  ev_usage_reason_code = None,
                  ev_reported_remaining_bps = Some (ua_remaining_bps assessment),
                  ev_applied_reserve_bps = Some reserve, ev_usable_headroom_bps = Some usable,
                  ev_score_components = Some components, ev_score_bps = Some score\<rparr>))))"

definition evaluate_candidate ::
    "AdaptivePolicyV1 \<Rightarrow> RoutingInputV1 \<Rightarrow> AdaptiveCandidateV1
      \<Rightarrow> AdaptiveRoutingError + CandidateEvaluationV1" where
  "evaluate_candidate p i c =
     (case ca_automatic_eligibility c of
        EligAdvisoryOnly \<Rightarrow> Inr (reject c AdvisoryOnly [] [] None)
      | EligExplicitOnly \<Rightarrow> Inr (reject c ExplicitOnly [] [] None)
      | Automatic \<Rightarrow>
          if \<not> set (rq_required_capabilities (ri_requirements i)) \<subseteq> set (ca_capabilities c)
          then Inr (reject c MissingCapability [] [] None)
          else if quality_rank (ca_quality c) < quality_rank (rq_minimum_quality (ri_requirements i))
          then Inr (reject c BelowQualityFloor [] [] None)
          else
            case usage_for_candidate c (ri_usage_snapshots i) (ri_evaluated_at_utc_ms i)
                   (ap_maximum_snapshot_age_ms p) of
              ProbeRejected reason considered governing code \<Rightarrow>
                Inr (reject c reason considered governing code)
            | ProbeUsable assessment considered governing \<Rightarrow>
                evaluate_budget p i c assessment considered governing)"

section \<open>Selecting the recommendation\<close>

definition eligible_score :: "CandidateEvaluationV1 \<Rightarrow> BasisPointsV1 option" where
  "eligible_score e = (if ev_disposition e = Eligible then ev_score_bps e else None)"

definition preserves_existing_runtime :: "RoutingInputV1 \<Rightarrow> CandidateEvaluationV1 \<Rightarrow> bool" where
  "preserves_existing_runtime i e =
     (case ri_existing_session_runtime i of
        None \<Rightarrow> False
      | Some runtime \<Rightarrow> rt_runtime (ca_route (ev_candidate e)) = runtime)"

datatype RejectionClass =
    HardConstraint | UnknownUsage | CapacityUnavailable | ConflictingUsageEvidence

fun rejection_class :: "CandidateRejectionV1 \<Rightarrow> RejectionClass" where
  "rejection_class AdvisoryOnly = HardConstraint"
| "rejection_class ExplicitOnly = HardConstraint"
| "rejection_class MissingCapability = HardConstraint"
| "rejection_class BelowQualityFloor = HardConstraint"
| "rejection_class MissingUsageSnapshot = UnknownUsage"
| "rejection_class StaleUsageSnapshot = UnknownUsage"
| "rejection_class UsageClockSkew = UnknownUsage"
| "rejection_class ResetElapsed = UnknownUsage"
| "rejection_class UnhealthyUsage = UnknownUsage"
| "rejection_class NoApplicableWindow = UnknownUsage"
| "rejection_class ConflictingUsageSnapshots = ConflictingUsageEvidence"
| "rejection_class Exhausted = CapacityUnavailable"
| "rejection_class ReserveProtected = CapacityUnavailable"

text \<open>The loop of \<open>deferral_reason\<close>: the class so far, or an early return on a second class.\<close>

fun deferral_loop ::
    "CandidateEvaluationV1 list \<Rightarrow> RejectionClass option \<Rightarrow> RouteDeferralReasonV1" where
  "deferral_loop [] None = NoAdaptiveCandidate"
| "deferral_loop [] (Some HardConstraint) = DeferHardConstraint"
| "deferral_loop [] (Some UnknownUsage) = DeferUnknownUsage"
| "deferral_loop [] (Some CapacityUnavailable) = DeferCapacityUnavailable"
| "deferral_loop [] (Some ConflictingUsageEvidence) = DeferConflictingUsageEvidence"
| "deferral_loop (e # es) cls =
     (case ev_disposition e of
        Eligible \<Rightarrow> deferral_loop es cls
      | Rejected reason \<Rightarrow>
          (case cls of
             None \<Rightarrow> deferral_loop es (Some (rejection_class reason))
           | Some current \<Rightarrow>
               if current = rejection_class reason then deferral_loop es cls else MixedIneligibility))"

definition deferral_reason :: "CandidateEvaluationV1 list \<Rightarrow> RouteDeferralReasonV1" where
  "deferral_reason es = deferral_loop es None"

definition canonical_legacy_candidate :: "RoutingInputV1 \<Rightarrow> AdaptiveCandidateV1 option" where
  "canonical_legacy_candidate i =
     find (\<lambda>c. same_executable_target (ca_route c) (au_legacy_route (ri_authority i))) (ri_candidates i)"

fun best_loop ::
    "RoutingInputV1 \<Rightarrow> CandidateEvaluationV1 list \<Rightarrow> CandidateEvaluationV1 option
      \<Rightarrow> AdaptiveRoutingError + CandidateEvaluationV1 option" where
  "best_loop i [] best = Inr best"
| "best_loop i (e # es) best =
     (case eligible_score e of
        None \<Rightarrow> best_loop i es best
      | Some score \<Rightarrow>
          (case best of
             None \<Rightarrow> best_loop i es (Some e)
           | Some current \<Rightarrow>
               and_then (ok_or (eligible_score current) ScoreOverflow) (\<lambda>current_score.
                 if bps_get current_score < bps_get score
                   \<or> (score = current_score \<and> preserves_existing_runtime i e
                        \<and> \<not> preserves_existing_runtime i current)
                 then best_loop i es (Some e) else best_loop i es best)))"

definition ev_id :: "CandidateEvaluationV1 \<Rightarrow> CandidateIdV1" where
  "ev_id e = rt_candidate_id (ca_route (ev_candidate e))"

definition ev_route :: "CandidateEvaluationV1 \<Rightarrow> RouteOutcomeV1" where
  "ev_route e = Route (ca_route (ev_candidate e))"

definition compare_incumbent ::
    "AdaptivePolicyV1 \<Rightarrow> CandidateEvaluationV1 \<Rightarrow> CandidateEvaluationV1
      \<Rightarrow> AdaptiveRoutingError + RouteOutcomeV1 \<times> SwitchReasonV1" where
  "compare_incumbent p best incumbent =
     (if ev_id best = ev_id incumbent then Inr (ev_route incumbent, IncumbentBest)
      else
        and_then (ok_or (eligible_score best) ScoreOverflow) (\<lambda>best_score.
        and_then (ok_or (eligible_score incumbent) ScoreOverflow) (\<lambda>incumbent_score.
        and_then (ok_or (checked_add (ucast (bps_get incumbent_score) :: u32)
                     (ucast (bps_get (ap_switch_margin_bps p)))) ScoreOverflow) (\<lambda>threshold.
          if threshold \<le> ucast (bps_get best_score) then Inr (ev_route best, ChallengerMetMargin)
          else Inr (ev_route incumbent, IncumbentHeldByHysteresis)))))"

definition static_fallback ::
    "AdaptivePolicyV1 \<Rightarrow> RoutingInputV1 \<Rightarrow> CandidateEvaluationV1 list
      \<Rightarrow> AdaptiveRoutingError + RouteOutcomeV1 \<times> SwitchReasonV1" where
  "static_fallback p i es =
     (let deferred = (Deferred (deferral_reason es), NoEligibleCandidate) in
      if ap_unknown_usage_policy p = StaticFallback then
        (case canonical_legacy_candidate i of
           None \<Rightarrow> Inr deferred
         | Some c \<Rightarrow>
             and_then (ok_or (find (\<lambda>e. ev_id e = rt_candidate_id (ca_route c)) es)
               (InvalidInvariant ''routing_input.authority.legacy_route''
                  ''canonical legacy candidate has no evaluation'')) (\<lambda>e.
               case ev_disposition e of
                 Rejected reason \<Rightarrow>
                   if usage_is_unknown reason
                   then Inr (Route (ca_route c), LegacyFallbackOnUnknownUsage)
                   else Inr deferred
               | Eligible \<Rightarrow> Inr deferred))
      else Inr deferred)"

definition select_recommendation ::
    "AdaptivePolicyV1 \<Rightarrow> RoutingInputV1 \<Rightarrow> CandidateEvaluationV1 list
      \<Rightarrow> AdaptiveRoutingError + RouteOutcomeV1 \<times> SwitchReasonV1" where
  "select_recommendation p i es =
     and_then (best_loop i es None) (\<lambda>best.
       let incumbent = Option.bind (ri_incumbent_candidate_id i) (\<lambda>c. find (\<lambda>e. ev_id e = c) es) in
       case best of
         Some b \<Rightarrow>
           (case incumbent of
              Some inc \<Rightarrow>
                if eligible_score inc \<noteq> None then compare_incumbent p b inc
                else
                  (case ev_disposition inc of
                     Rejected reason \<Rightarrow> Inr (ev_route b, IncumbentIneligible reason)
                   | Eligible \<Rightarrow>
                       Inl (InvalidInvariant ''routing_input.incumbent_candidate_id''
                              ''incumbent evaluation has no eligible score or rejection''))
            | None \<Rightarrow> Inr (ev_route b, BestCandidate))
       | None \<Rightarrow>
           (case (ap_unknown_usage_policy p, map_option ev_disposition incumbent, incumbent) of
              (HoldIncumbent, Some (Rejected reason), Some inc) \<Rightarrow>
                if usage_is_unknown reason
                then Inr (ev_route inc, IncumbentHeldOnUnknownUsage reason)
                else static_fallback p i es
            | _ \<Rightarrow> static_fallback p i es))"

section \<open>The decision\<close>

definition fixed_decision :: "RoutingInputV1 \<Rightarrow> FixedRouteV1 \<Rightarrow> RoutingDecisionV1" where
  "fixed_decision i fixed =
     (let dispatch = Route (fr_route fixed) in
      \<lparr>rd_schema_version = ADAPTIVE_ROUTING_SCHEMA_V1, rd_applied_policy = None,
       rd_evaluated_at_utc_ms = ri_evaluated_at_utc_ms i, rd_mission_id = ri_mission_id i,
       rd_phase_id = ri_phase_id i, rd_attempt = ri_attempt i,
       rd_applied_authority = AuthorityFixed (fr_provenances fixed),
       rd_requirements = ri_requirements i, rd_incumbent_candidate_id = ri_incumbent_candidate_id i,
       rd_existing_session_runtime = ri_existing_session_runtime i, rd_legacy_route = None,
       rd_candidate_evaluations = [], rd_referenced_snapshots = [],
       rd_recommended_outcome = dispatch, rd_dispatch_outcome = dispatch,
       rd_switch_reason = FixedAuthority,
       rd_continuation = continuation_for (ri_existing_session_runtime i) dispatch,
       rd_decision_mode = ModeFixed\<rparr>)"

definition referenced_snapshots ::
    "RoutingInputV1 \<Rightarrow> CandidateEvaluationV1 list \<Rightarrow> UsageSnapshotV1 list" where
  "referenced_snapshots i es =
     (let ids = \<Union> (set (map (\<lambda>e. set (ev_considered_snapshot_ids e)) es)) in
      sort_key us_snapshot_id
        (map (\<lambda>s. s\<lparr>us_windows := sort_key uw_limit_id (us_windows s)\<rparr>)
          (filter (\<lambda>s. us_snapshot_id s \<in> ids) (ri_usage_snapshots i))))"

definition adaptive_decision ::
    "AdaptivePolicyV1 \<Rightarrow> RoutingInputV1 \<Rightarrow> CandidateEvaluationV1 list
      \<Rightarrow> RouteOutcomeV1 \<times> SwitchReasonV1 \<Rightarrow> RoutingDecisionV1" where
  "adaptive_decision p i es selection =
     (let dispatch = (case ap_evaluation_mode p of
                        Enforce \<Rightarrow> fst selection
                      | Shadow \<Rightarrow> Route (au_legacy_route (ri_authority i))) in
      \<lparr>rd_schema_version = ADAPTIVE_ROUTING_SCHEMA_V1, rd_applied_policy = Some p,
       rd_evaluated_at_utc_ms = ri_evaluated_at_utc_ms i, rd_mission_id = ri_mission_id i,
       rd_phase_id = ri_phase_id i, rd_attempt = ri_attempt i,
       rd_applied_authority = AuthorityAdaptive,
       rd_requirements = ri_requirements i, rd_incumbent_candidate_id = ri_incumbent_candidate_id i,
       rd_existing_session_runtime = ri_existing_session_runtime i,
       rd_legacy_route = Some (au_legacy_route (ri_authority i)),
       rd_candidate_evaluations = es, rd_referenced_snapshots = referenced_snapshots i es,
       rd_recommended_outcome = fst selection, rd_dispatch_outcome = dispatch,
       rd_switch_reason = snd selection,
       rd_continuation = continuation_for (ri_existing_session_runtime i) dispatch,
       rd_decision_mode = ModeAdaptive (ap_evaluation_mode p)\<rparr>)"

primrec try_map :: "('a \<Rightarrow> 'e + 'b) \<Rightarrow> 'a list \<Rightarrow> 'e + 'b list" where
  "try_map f [] = Inr []"
| "try_map f (x # xs) = and_then (f x) (\<lambda>y. and_then (try_map f xs) (\<lambda>ys. Inr (y # ys)))"

definition decide_adaptive ::
    "AdaptivePolicyV1 \<Rightarrow> RoutingInputV1 \<Rightarrow> AdaptiveRoutingError + RoutingDecisionV1" where
  "decide_adaptive p i =
     and_then (AdaptivePolicyV1_validate p) (\<lambda>_.
     and_then (validate_adaptive i p) (\<lambda>_.
       let p' = policy_canonicalized p;
           candidates = sort_key (\<lambda>c. rt_candidate_id (ca_route c)) (ri_candidates i)
       in and_then (try_map (evaluate_candidate p' i) candidates) (\<lambda>es.
          and_then (select_recommendation p' i es) (\<lambda>selection.
            Inr (adaptive_decision p' i es selection)))))"

definition decide_route ::
    "AdaptivePolicyV1 \<Rightarrow> RoutingInputV1 \<Rightarrow> AdaptiveRoutingError + RoutingDecisionV1" where
  "decide_route p i =
     and_then (validate_request_invariants i) (\<lambda>_.
       case au_resolved_fixed_route (ri_authority i) of
         Some fixed \<Rightarrow> Inr (fixed_decision i fixed)
       | None \<Rightarrow> decide_adaptive p i)"

end
