(* ===== verification/Adaptive_Scoring.thy ===== *)
theory Adaptive_Scoring
  imports Adaptive_Decision "HOL-Library.Multiset"
begin

text \<open>
  Exactness of the kernel's arithmetic: on validated observations and weights no subtraction,
  multiplication or conversion wraps, the assessment is what the natural numbers give, and the
  weighted score is a true weighted mean. The overflow errors of the source are unreachable.
\<close>

section \<open>Assessing a snapshot\<close>

text \<open>Reset relief of one window: how little of it remains, as a share of its duration.\<close>

definition relief_nat :: "nat \<Rightarrow> UsageWindowV1 \<Rightarrow> nat" where
  "relief_nat t w =
     10000 - min 10000 ((unat (utc_get (uw_resets_at_utc_ms w)) - t) * 10000
                        div unat (dur_get (uw_duration_ms w)))"

definition min_over :: "(UsageWindowV1 \<Rightarrow> nat) \<Rightarrow> UsageWindowV1 list \<Rightarrow> nat \<Rightarrow> nat" where
  "min_over f ws n = fold (\<lambda>w m. min m (f w)) ws n"

text \<open>A window as the assessment meets it: typed, and its reset at most its duration ahead.\<close>

definition window_ready :: "UtcMillisV1 \<Rightarrow> UsageWindowV1 \<Rightarrow> bool" where
  "window_ready t w \<longleftrightarrow>
     window_typed w \<and>
     unat (utc_get (uw_resets_at_utc_ms w)) \<le> unat (utc_get t) + unat (dur_get (uw_duration_ms w))"

lemma u16_try_from_min: "\<exists>r. u16_try_from (min n 10000) = Some r \<and> unat r = min (unat n) 10000"
proof -
  have le: "unat (min n 10000) = min (unat n) 10000"
    by (simp add: min_def word_le_nat_alt)
  then have "min n 10000 \<le> 65535" by (simp add: word_le_nat_alt)
  moreover have "unat (ucast (min n 10000) :: u16) = min (unat n) 10000"
    using le by (simp add: unsigned_ucast_eq take_bit_nat_eq_self)
  ultimately show ?thesis by (simp add: u16_try_from_def)
qed

lemma unat_mult_small: "unat a * unat b < 2 ^ 64 \<Longrightarrow> unat (a * b :: u64) = unat a * unat b"
  by (simp add: unat_word_ariths)

lemma unat_ten_thousand: "unat (10000 :: u64) = 10000"
  by simp

lemma relief_exact:
  assumes ready: "window_ready t w" and later: "\<not> utc_get (uw_resets_at_utc_ms w) \<le> utc_get t"
  shows "\<exists>r. u16_try_from (min ((utc_get (uw_resets_at_utc_ms w) - utc_get t) * ucast BASIS_POINTS_SCALE
        div dur_get (uw_duration_ms w)) (ucast BASIS_POINTS_SCALE)) = Some r \<and>
      unat (BASIS_POINTS_SCALE - r) = relief_nat (unat (utc_get t)) w"
proof -
  let ?reset = "utc_get (uw_resets_at_utc_ms w)" and ?d = "dur_get (uw_duration_ms w)"
  have sub: "unat (?reset - utc_get t) = unat ?reset - unat (utc_get t)"
    using later by (intro unat_sub) simp
  have d: "unat ?d \<le> 31622400000"
    using ready by (simp add: window_ready_def window_typed_def duration_ok_def word_le_nat_alt)
  have "unat ?reset - unat (utc_get t) \<le> unat ?d"
    using ready unfolding window_ready_def by linarith
  then have small: "(unat ?reset - unat (utc_get t)) * 10000 < 2 ^ 64" using d by simp
  have scale: "ucast BASIS_POINTS_SCALE = (10000 :: u64)" by (simp add: BASIS_POINTS_SCALE_def)
  have "unat ((?reset - utc_get t) * 10000) = (unat ?reset - unat (utc_get t)) * 10000"
    using unat_mult_small [of "?reset - utc_get t" 10000] small by (simp only: sub unat_ten_thousand)
  then have ratio: "unat ((?reset - utc_get t) * 10000 div ?d) =
      (unat ?reset - unat (utc_get t)) * 10000 div unat ?d"
    by (simp add: unat_div)
  obtain r where r: "u16_try_from (min ((?reset - utc_get t) * 10000 div ?d) 10000) = Some r"
    "unat r = min ((unat ?reset - unat (utc_get t)) * 10000 div unat ?d) 10000"
    using u16_try_from_min [of "(?reset - utc_get t) * 10000 div ?d"] ratio by auto
  then have "r \<le> 10000" by (simp add: word_le_nat_alt)
  then have "unat (BASIS_POINTS_SCALE - r) = relief_nat (unat (utc_get t)) w"
    using r(2) by (simp add: unat_sub BASIS_POINTS_SCALE_def relief_nat_def min.commute)
  with r(1) show ?thesis by (simp add: scale)
qed

lemma unat_min: "unat (min a b) = min (unat a) (unat b)"
  by (simp add: min_def word_le_nat_alt)

text \<open>The loop either meets an elapsed window or computes the three minima.\<close>

lemma assess_windows_exact:
  assumes "\<forall>w\<in>set ws. window_ready t w"
  shows "(\<exists>w\<in>set ws. utc_get (uw_resets_at_utc_ms w) \<le> utc_get t) \<and>
      assess_windows t ws a b c = Inl ResetElapsed \<or>
    (\<forall>w\<in>set ws. \<not> utc_get (uw_resets_at_utc_ms w) \<le> utc_get t) \<and>
      (\<exists>a' b' c'. assess_windows t ws a b c = Inr (a', b', c') \<and>
        unat a' = min_over (\<lambda>w. unat (bps_get (uw_remaining_bps w))) ws (unat a) \<and>
        unat b' = min_over (relief_nat (unat (utc_get t))) ws (unat b) \<and>
        unat c' = min_over (\<lambda>w. unat (bps_get (uw_recent_capacity_bps w))) ws (unat c))"
  using assms
proof (induction ws arbitrary: a b c)
  case (Cons w ws)
  show ?case
  proof (cases "utc_get (uw_resets_at_utc_ms w) \<le> utc_get t")
    case False
    obtain r where r: "u16_try_from (min ((utc_get (uw_resets_at_utc_ms w) - utc_get t)
          * ucast BASIS_POINTS_SCALE div dur_get (uw_duration_ms w)) (ucast BASIS_POINTS_SCALE)) = Some r"
      "unat (BASIS_POINTS_SCALE - r) = relief_nat (unat (utc_get t)) w"
      using relief_exact [OF _ False] Cons.prems by auto
    have step: "assess_windows t (w # ws) a b c =
        assess_windows t ws (min a (bps_get (uw_remaining_bps w))) (min b (BASIS_POINTS_SCALE - r))
          (min c (bps_get (uw_recent_capacity_bps w)))"
      using False r(1) by (simp add: Let_def)
    have ready: "\<forall>w\<in>set ws. window_ready t w" using Cons.prems by simp
    from Cons.IH [OF ready, of "min a (bps_get (uw_remaining_bps w))" "min b (BASIS_POINTS_SCALE - r)"
        "min c (bps_get (uw_recent_capacity_bps w))"] False
    show ?thesis unfolding step by (auto simp: min_over_def unat_min r(2))
  qed simp
qed (simp add: min_over_def)

lemma min_over_le: "min_over f ws n \<le> n"
proof (induction ws arbitrary: n)
  case (Cons w ws)
  have "min_over f (w # ws) n = min_over f ws (min n (f w))" by (simp add: min_over_def)
  also have "\<dots> \<le> min n (f w)" by (rule Cons.IH)
  finally show ?case by simp
qed (simp add: min_over_def)

lemma snapshot_windows_ready:
  assumes "snapshot_typed s" "snapshot_sound s" "utc_get (us_received_at_utc_ms s) \<le> utc_get t"
  shows "\<forall>w\<in>set (us_windows s). window_ready t w"
proof
  fix w
  assume w: "w \<in> set (us_windows s)"
  have "window_sound (us_observed_at_utc_ms s) w" using assms(2) w by (simp add: snapshot_sound_def)
  moreover have "unat (utc_get (us_observed_at_utc_ms s)) \<le> unat (utc_get t)"
    using assms(2,3) unfolding snapshot_sound_def word_le_nat_alt by linarith
  moreover have "window_typed w" using assms(1) w by (simp add: snapshot_typed_def list_all_iff)
  ultimately show "window_ready t w" by (auto simp: window_ready_def window_sound_def)
qed

text \<open>What an observation is worth, computed in the natural numbers.\<close>

datatype assessment_verdict = Unusable CandidateRejectionV1 | Usable nat nat nat nat

definition assess_nat ::
    "UsageSnapshotV1 \<Rightarrow> string \<Rightarrow> nat \<Rightarrow> nat \<Rightarrow> assessment_verdict" where
  "assess_nat s model t maximum_age =
     (let applicable = filter (window_applies model) (us_windows s) in
      if t < unat (utc_get (us_received_at_utc_ms s)) then Unusable UsageClockSkew
      else if min (unat (dur_get (us_ttl_ms s))) maximum_age \<le> t - unat (utc_get (us_observed_at_utc_ms s))
      then Unusable StaleUsageSnapshot
      else if us_health s \<noteq> Healthy then Unusable UnhealthyUsage
      else if applicable = [] then Unusable NoApplicableWindow
      else if \<exists>w\<in>set applicable. unat (utc_get (uw_resets_at_utc_ms w)) \<le> t then Unusable ResetElapsed
      else Usable (min_over (\<lambda>w. unat (bps_get (uw_remaining_bps w))) applicable 10000)
             (min_over (relief_nat t) applicable 10000)
             (min_over (\<lambda>w. unat (bps_get (uw_recent_capacity_bps w))) applicable 10000)
             (unat (bps_get (us_confidence_bps s))))"

definition verdict_of :: "CandidateRejectionV1 + UsageAssessment \<Rightarrow> assessment_verdict" where
  "verdict_of r =
     (case r of
        Inl reason \<Rightarrow> Unusable reason
      | Inr a \<Rightarrow> Usable (unat (bps_get (ua_remaining_bps a))) (unat (bps_get (ua_reset_proximity_bps a)))
          (unat (bps_get (ua_recent_capacity_bps a))) (unat (bps_get (ua_health_bps a))))"

lemma BasisPointsV1_new_small: "unat n \<le> 10000 \<Longrightarrow> BasisPointsV1_new n = Inr (BasisPointsV1 n)"
  by (simp add: BasisPointsV1_new_Inr word_le_nat_alt)

lemma snapshot_assessment_fresh:
  assumes ready: "\<forall>w\<in>set (filter (window_applies model) (us_windows s)). window_ready t w"
    and health: "us_health s = Healthy"
    and fresh: "\<not> utc_get t < utc_get (us_received_at_utc_ms s)"
      "\<not> min (dur_get (us_ttl_ms s)) (dur_get maximum_age) \<le> utc_get t - utc_get (us_observed_at_utc_ms s)"
  shows "verdict_of (snapshot_assessment s model t maximum_age) =
     (let applicable = filter (window_applies model) (us_windows s) in
      if applicable = [] then Unusable NoApplicableWindow
      else if \<exists>w\<in>set applicable. utc_get (uw_resets_at_utc_ms w) \<le> utc_get t then Unusable ResetElapsed
      else Usable (min_over (\<lambda>w. unat (bps_get (uw_remaining_bps w))) applicable 10000)
             (min_over (relief_nat (unat (utc_get t))) applicable 10000)
             (min_over (\<lambda>w. unat (bps_get (uw_recent_capacity_bps w))) applicable 10000)
             (unat (bps_get (us_confidence_bps s))))"
proof -
  let ?ws = "filter (window_applies model) (us_windows s)"
  let ?S = BASIS_POINTS_SCALE
  have scale: "unat ?S = 10000" by (simp add: BASIS_POINTS_SCALE_def)
  have base: "snapshot_assessment s model t maximum_age =
      and_then (assess_windows t ?ws ?S ?S ?S) (\<lambda>(remaining, proximity, capacity).
            if ?ws = [] then Inl NoApplicableWindow
            else
              and_then (map_err (\<lambda>_. UnhealthyUsage) (BasisPointsV1_new remaining)) (\<lambda>remaining_bps.
              and_then (map_err (\<lambda>_. UnhealthyUsage) (BasisPointsV1_new proximity)) (\<lambda>proximity_bps.
              and_then (map_err (\<lambda>_. UnhealthyUsage) (BasisPointsV1_new capacity)) (\<lambda>capacity_bps.
                Inr \<lparr>ua_remaining_bps = remaining_bps, ua_reset_proximity_bps = proximity_bps,
                     ua_recent_capacity_bps = capacity_bps, ua_health_bps = us_confidence_bps s\<rparr>))))"
    using fresh health by (simp add: snapshot_assessment_def Let_def)
  from assess_windows_exact [OF ready, of ?S ?S ?S] show ?thesis
  proof (elim disjE conjE exE)
    assume elapsed: "\<exists>w\<in>set ?ws. utc_get (uw_resets_at_utc_ms w) \<le> utc_get t"
      and run: "assess_windows t ?ws ?S ?S ?S = Inl ResetElapsed"
    then have "?ws \<noteq> []" by (cases ?ws) simp_all
    with elapsed show ?thesis by (simp only: base run and_then_simps Let_def if_False if_True)
        (simp add: verdict_of_def)
  next
    fix a b c
    assume later: "\<forall>w\<in>set ?ws. \<not> utc_get (uw_resets_at_utc_ms w) \<le> utc_get t"
      and run: "assess_windows t ?ws ?S ?S ?S = Inr (a, b, c)"
      and mins: "unat a = min_over (\<lambda>w. unat (bps_get (uw_remaining_bps w))) ?ws (unat ?S)"
        "unat b = min_over (relief_nat (unat (utc_get t))) ?ws (unat ?S)"
        "unat c = min_over (\<lambda>w. unat (bps_get (uw_recent_capacity_bps w))) ?ws (unat ?S)"
    have small: "unat a \<le> 10000" "unat b \<le> 10000" "unat c \<le> 10000"
      using min_over_le unfolding mins scale by blast+
    have none: "\<not> (\<exists>w\<in>set ?ws. utc_get (uw_resets_at_utc_ms w) \<le> utc_get t)" using later by blast
    show ?thesis
    proof (cases "?ws = []")
      case True
      then show ?thesis by (simp only: base run and_then_simps Let_def prod.case if_True)
          (simp add: verdict_of_def)
    next
      case False
      show ?thesis
        unfolding base run Let_def if_not_P [OF False] if_not_P [OF none]
        by (simp only: and_then_simps prod.case if_not_P [OF False] map_err_simps
            BasisPointsV1_new_small [OF small(1)] BasisPointsV1_new_small [OF small(2)]
            BasisPointsV1_new_small [OF small(3)])
          (simp add: verdict_of_def mins scale)
    qed
  qed
qed

text \<open>The kernel's assessment of a validated snapshot is the assessment in the naturals.\<close>

lemma snapshot_assessment_nat:
  assumes typed: "snapshot_typed s" and sound: "snapshot_sound s"
  shows "verdict_of (snapshot_assessment s model t maximum_age) =
    assess_nat s model (unat (utc_get t)) (unat (dur_get maximum_age))"
proof (cases "utc_get t < utc_get (us_received_at_utc_ms s)")
  case True
  then show ?thesis
    by (simp add: snapshot_assessment_def assess_nat_def verdict_of_def word_less_nat_alt)
next
  case False
  then have received: "utc_get (us_received_at_utc_ms s) \<le> utc_get t" by simp
  have observed: "utc_get (us_observed_at_utc_ms s) \<le> utc_get t"
    using sound received unfolding snapshot_sound_def by (meson order_trans)
  have age: "unat (utc_get t - utc_get (us_observed_at_utc_ms s)) =
      unat (utc_get t) - unat (utc_get (us_observed_at_utc_ms s))"
    using observed by (rule unat_sub)
  have stale: "min (dur_get (us_ttl_ms s)) (dur_get maximum_age) \<le> utc_get t - utc_get (us_observed_at_utc_ms s)
      \<longleftrightarrow> min (unat (dur_get (us_ttl_ms s))) (unat (dur_get maximum_age))
            \<le> unat (utc_get t) - unat (utc_get (us_observed_at_utc_ms s))"
    by (simp add: word_le_nat_alt age unat_min)
  have nat_received: "\<not> unat (utc_get t) < unat (utc_get (us_received_at_utc_ms s))"
    using received by (simp add: word_le_nat_alt)
  show ?thesis
  proof (cases "min (dur_get (us_ttl_ms s)) (dur_get maximum_age) \<le> utc_get t - utc_get (us_observed_at_utc_ms s)
      \<or> us_health s \<noteq> Healthy")
    case True
    then show ?thesis
      using False nat_received stale
      by (auto simp: snapshot_assessment_def assess_nat_def verdict_of_def)
  next
    case fresh: False
    have ready: "\<forall>w\<in>set (filter (window_applies model) (us_windows s)). window_ready t w"
      using snapshot_windows_ready [OF typed sound received] by simp
    show ?thesis
      using snapshot_assessment_fresh [OF ready _ False, of maximum_age] fresh stale nat_received
      by (simp add: assess_nat_def Let_def word_le_nat_alt)
  qed
qed

section \<open>The weighted score\<close>

definition component_list :: "ScoreComponentsV1 \<Rightarrow> BasisPointsV1 list" where
  "component_list c =
     [sc_task_fit_bps c, sc_usable_headroom_bps c, sc_reset_proximity_bps c,
      sc_recent_capacity_bps c, sc_latency_bps c, sc_health_bps c, sc_configured_preference_bps c]"

definition components_typed :: "ScoreComponentsV1 \<Rightarrow> bool" where
  "components_typed c \<longleftrightarrow> list_all bps_ok (component_list c)"

definition bps_nat :: "BasisPointsV1 \<Rightarrow> nat" where
  "bps_nat b = unat (bps_get b)"

definition score_sum :: "(BasisPointsV1 \<times> BasisPointsV1) list \<Rightarrow> nat" where
  "score_sum cws = sum_list (map (\<lambda>(c, w). bps_nat c * bps_nat w) cws)"

lemma weighted_components_zip:
  "weighted_components p c = zip (component_list c) (weight_list (ap_score_weights p))"
  by (simp add: weighted_components_def component_list_def weight_list_def Let_def)

lemma add_term_exact:
  assumes "unat acc + bps_nat (fst t) * bps_nat (snd t) < 2 ^ 64"
  shows "\<exists>r. add_term acc t = Inr r \<and> unat r = unat acc + bps_nat (fst t) * bps_nat (snd t)"
proof -
  have prod: "unat (ucast (bps_get (fst t)) :: u64) * unat (ucast (bps_get (snd t)) :: u64) =
      bps_nat (fst t) * bps_nat (snd t)" by (simp add: bps_nat_def)
  have mul: "checked_mul (ucast (bps_get (fst t)) :: u64) (ucast (bps_get (snd t))) =
      Some (ucast (bps_get (fst t)) * ucast (bps_get (snd t)))"
    using assms unfolding checked_mul_def prod by simp
  note val = checked_mul_Some [OF mul, unfolded prod]
  have add: "checked_add acc (ucast (bps_get (fst t)) * ucast (bps_get (snd t))) =
      Some (acc + ucast (bps_get (fst t)) * ucast (bps_get (snd t)))"
    using assms unfolding checked_add_def val by simp
  show ?thesis
    using checked_add_Some [OF add] by (simp add: add_term_def mul add val)
qed

lemma add_terms_exact:
  "unat acc + score_sum ts < 2 ^ 64 \<Longrightarrow>
     \<exists>r. try_fold add_term acc ts = Inr r \<and> unat r = unat acc + score_sum ts"
proof (induction ts arbitrary: acc)
  case (Cons t ts)
  have split: "score_sum (t # ts) = bps_nat (fst t) * bps_nat (snd t) + score_sum ts"
    by (simp add: score_sum_def case_prod_beta)
  obtain r where r: "add_term acc t = Inr r" "unat r = unat acc + bps_nat (fst t) * bps_nat (snd t)"
    using add_term_exact [of acc t] Cons.prems split by auto
  with Cons.IH [of r] Cons.prems show ?case by (simp add: split add.assoc)
qed (simp add: score_sum_def)

text \<open>A sum weighted by weights of a known total lies between its extremes.\<close>

lemma weighted_bounds:
  assumes "length cs = length ws" "\<forall>c\<in>set cs. lo \<le> bps_nat c \<and> bps_nat c \<le> hi"
  shows "lo * sum_list (map bps_nat ws) \<le> score_sum (zip cs ws) \<and>
    score_sum (zip cs ws) \<le> hi * sum_list (map bps_nat ws)"
  using assms
proof (induction cs ws rule: list_induct2)
  case (Cons c cs w ws)
  have head: "lo * bps_nat w \<le> bps_nat c * bps_nat w" "bps_nat c * bps_nat w \<le> hi * bps_nat w"
    using Cons.prems by (auto intro: mult_le_mono1)
  have tail: "lo * sum_list (map bps_nat ws) \<le> score_sum (zip cs ws)"
    "score_sum (zip cs ws) \<le> hi * sum_list (map bps_nat ws)"
    using Cons.IH Cons.prems by simp_all
  have split: "score_sum (zip (c # cs) (w # ws)) = bps_nat c * bps_nat w + score_sum (zip cs ws)"
    by (simp add: score_sum_def)
  show ?case
    using add_mono [OF head(1) tail(1)] add_mono [OF head(2) tail(2)]
    unfolding split by (simp add: algebra_simps)
qed (simp add: score_sum_def)

definition weights_total :: "AdaptivePolicyV1 \<Rightarrow> bool" where
  "weights_total p \<longleftrightarrow> sum_list (map bps_nat (weight_list (ap_score_weights p))) = 10000"

lemma policy_weights_total:
  assumes "policy_typed p" "AdaptivePolicyV1_validate p = Inr ()"
  shows "weights_total p"
  using ScoreWeightsV1_validate_sum [of "ap_score_weights p"] assms
  by (auto simp: weights_total_def policy_typed_def AdaptivePolicyV1_validate_def result_simps
      bps_nat_def [abs_def] split: if_splits)

lemma weighted_score_nat:
  assumes weights: "weights_total p"
    and comps: "\<forall>b\<in>set (component_list c). lo \<le> bps_nat b \<and> bps_nat b \<le> hi" "hi \<le> 10000"
  shows "\<exists>b. weighted_score p c = Inr b \<and>
    bps_nat b = score_sum (weighted_components p c) div 10000 \<and> lo \<le> bps_nat b \<and> bps_nat b \<le> hi"
proof -
  let ?n = "score_sum (weighted_components p c)"
  have len: "length (component_list c) = length (weight_list (ap_score_weights p))"
    by (simp add: component_list_def weight_list_def)
  have bounds: "lo * 10000 \<le> ?n" "?n \<le> hi * 10000"
    using weighted_bounds [OF len comps(1)] weights
    by (simp_all add: weighted_components_zip weights_total_def)
  then have div: "lo \<le> ?n div 10000" "?n div 10000 \<le> hi" by simp_all
  have "unat (0 :: u64) + ?n < 2 ^ 64" using bounds(2) comps(2) by simp
  from add_terms_exact [OF this] obtain r where r: "try_fold add_term 0 (weighted_components p c) = Inr r"
    "unat r = ?n" by auto
  let ?q = "r div ucast BASIS_POINTS_SCALE :: u64"
  have q: "unat ?q = ?n div 10000" by (simp add: unat_div r(2) BASIS_POINTS_SCALE_def)
  have "?q \<le> 65535" using div comps(2) by (simp add: word_le_nat_alt q)
  moreover have val: "unat (ucast ?q :: u16) = ?n div 10000"
    using div comps(2) q by (simp add: unsigned_ucast_eq take_bit_nat_eq_self)
  ultimately have "weighted_score p c = BasisPointsV1_new (ucast ?q)"
    by (simp add: weighted_score_def r(1) u16_try_from_def)
  also have "\<dots> = Inr (BasisPointsV1 (ucast ?q))"
    using val div comps(2) by (intro BasisPointsV1_new_small) simp
  finally show ?thesis using val div by (simp add: bps_nat_def)
qed

text \<open>
  What the validation of a routing request establishes, as closed conditions instead of loops:
  the aggregate budget is one sum of costs, the candidates and snapshots are unique, every
  candidate has a reserve. The conditions do not depend on the order of the collections.
\<close>

section \<open>The budget of a request\<close>

definition request_cost :: "RoutingInputV1 \<Rightarrow> RoutingBudget" where
  "request_cost i =
     rb_plus (name_cost (ri_mission_id i)) (rb_plus (name_cost (ri_phase_id i))
    (rb_plus (elements_cost (int (length (rq_required_capabilities (ri_requirements i)))))
    (rb_plus (budget.total name_cost (rq_required_capabilities (ri_requirements i)))
    (rb_plus (route_cost (au_legacy_route (ri_authority i)))
    (rb_plus (option_cost (\<lambda>f. rb_plus (elements_cost (int (length (fr_provenances f))))
                (route_cost (fr_route f))) (au_resolved_fixed_route (ri_authority i)))
    (rb_plus (option_cost name_cost (ri_incumbent_candidate_id i))
    (rb_plus (option_cost name_cost (ri_existing_session_runtime i))
    (rb_plus (budget.total candidate_cost (ri_candidates i))
       (budget.total snapshot_cost (ri_usage_snapshots i))))))))))"

lemma rb_plus_empty: "rb_plus empty_budget c = c"
  by (cases c) (simp add: rb_plus_def empty_budget_def)

lemma empty_budget_fits: "rb_fits empty_budget"
  by (simp add: rb_fits_def empty_budget_def)

lemma request_budget_Inr: "request_budget i = Inr b \<longleftrightarrow> b = request_cost i \<and> rb_fits b"
proof -
  have "budget.metered (\<lambda>b. and_then (add_text b (as_str (ri_mission_id i))) (\<lambda>b.
     and_then (add_text b (as_str (ri_phase_id i))) (\<lambda>b.
     and_then (add_elements b (int (length (rq_required_capabilities (ri_requirements i))))) (\<lambda>b.
     and_then (try_fold (\<lambda>b c. add_text b (as_str c)) b (rq_required_capabilities (ri_requirements i))) (\<lambda>b.
     and_then (account_route_budget b (au_legacy_route (ri_authority i))) (\<lambda>b.
     and_then (case au_resolved_fixed_route (ri_authority i) of
         Some fixed \<Rightarrow> and_then (add_elements b (int (length (fr_provenances fixed)))) (\<lambda>b.
                         account_route_budget b (fr_route fixed))
       | None \<Rightarrow> Inr b) (\<lambda>b.
     and_then (case ri_incumbent_candidate_id i of Some c \<Rightarrow> add_text b (as_str c) | None \<Rightarrow> Inr b) (\<lambda>b.
     and_then (case ri_existing_session_runtime i of Some r \<Rightarrow> add_text b (as_str r) | None \<Rightarrow> Inr b) (\<lambda>b.
     and_then (try_fold account_candidate_budget b (ri_candidates i)) (\<lambda>b.
       try_fold account_snapshot_budget b (ri_usage_snapshots i)))))))))))
    (request_cost i)"
    unfolding request_cost_def option_cost_def name_cost_def
    by (intro budget.metered_seq budget.metered_option budget.metered_fold candidate_metered
        snapshot_metered route_metered metered_primitives) simp_all
  from budget.metered_Inr [OF this, of empty_budget b]
  show ?thesis
    unfolding request_budget_def by (simp add: empty_budget_fits rb_plus_empty)
qed

definition pair_cost :: "AdaptiveCandidateV1 \<Rightarrow> UsageSnapshotV1 \<Rightarrow> int \<times> int" where
  "pair_cost c s = (if snapshot_matches c s then (1, int (length (us_windows s))) else (0, 0))"

definition work_cost :: "RoutingInputV1 \<Rightarrow> int \<times> int" where
  "work_cost i = work.total (\<lambda>c. work.total (pair_cost c) (ri_usage_snapshots i)) (ri_candidates i)"

lemma evaluation_work_Inr: "evaluation_work i = Inr n \<longleftrightarrow> n = work_cost i \<and> work_fits n"
proof -
  have "work.metered (\<lambda>n. if snapshot_matches c s then count_evaluation n s else Inr n) (pair_cost c s)" for c s
    using count_metered work.metered_skip by (cases "snapshot_matches c s") (auto simp: pair_cost_def)
  then have "work.metered (\<lambda>n. try_fold (\<lambda>counts c.
         try_fold (\<lambda>counts s. if snapshot_matches c s then count_evaluation counts s else Inr counts)
           counts (ri_usage_snapshots i)) n (ri_candidates i)) (work_cost i)"
    unfolding work_cost_def by (intro work.metered_fold)
  from work.metered_Inr [OF this, of "(0, 0)" n]
  show ?thesis by (simp add: evaluation_work_def work_fits_def work_plus_def)
qed

text \<open>The bounds that are checked one collection at a time.\<close>

definition collections_bounded :: "RoutingInputV1 \<Rightarrow> bool" where
  "collections_bounded i \<longleftrightarrow>
     length (ri_candidates i) \<le> 128 \<and> length (ri_usage_snapshots i) \<le> 256 \<and>
     length (rq_required_capabilities (ri_requirements i)) \<le> 64 \<and>
     (\<forall>c\<in>set (ri_candidates i). length (ca_capabilities c) \<le> 64) \<and>
     (\<forall>s\<in>set (ri_usage_snapshots i). length (us_windows s) \<le> 32 \<and>
        (\<forall>w\<in>set (us_windows s). length (uw_applicable_models w) \<le> 128))"

lemma validate_collection_bounds_Inr:
  "validate_collection_bounds i = Inr u \<longleftrightarrow>
     collections_bounded i \<and> rb_fits (request_cost i) \<and> work_fits (work_cost i)"
  by (auto simp: validate_collection_bounds_def collections_bounded_def result_simps try_each_ok_iff
      request_budget_Inr evaluation_work_Inr not_less MAX_CANDIDATES_def MAX_USAGE_SNAPSHOTS_def
      MAX_CAPABILITIES_def MAX_WINDOWS_PER_SNAPSHOT_def MAX_MODELS_PER_WINDOW_def)

definition request_sound :: "RoutingInputV1 \<Rightarrow> bool" where
  "request_sound i \<longleftrightarrow>
     ri_schema_version i = 1 \<and> ri_attempt i \<noteq> 0 \<and>
     (\<forall>f. au_resolved_fixed_route (ri_authority i) = Some f \<longrightarrow> FixedRouteV1_validate f = Inr ()) \<and>
     collections_bounded i \<and> rb_fits (request_cost i) \<and> work_fits (work_cost i)"

lemma validate_schema_Inr: "validate_schema surface v = Inr u \<longleftrightarrow> v = 1"
  by (simp add: validate_schema_def ADAPTIVE_ROUTING_SCHEMA_V1_def)

lemma validate_request_invariants_Inr:
  "validate_request_invariants i = Inr u \<longleftrightarrow> request_sound i"
  by (auto simp: validate_request_invariants_def request_sound_def result_simps validate_schema_Inr
      validate_collection_bounds_Inr split: option.splits)

section \<open>The adaptive part of a request\<close>

definition candidate_id :: "AdaptiveCandidateV1 \<Rightarrow> CandidateIdV1" where
  "candidate_id c = rt_candidate_id (ca_route c)"

definition candidate_target :: "AdaptiveCandidateV1 \<Rightarrow> executable_target" where
  "candidate_target c = executable_target (ca_route c)"

definition candidate_reserve :: "AdaptivePolicyV1 \<Rightarrow> AdaptiveCandidateV1 \<Rightarrow> BasisPointsV1 option" where
  "candidate_reserve p c = reserve_for p (rt_provider (ca_route c)) (rt_usage_account_id (ca_route c))"

lemma validate_candidates_Inr:
  "validate_candidates p cs ids targets = Inr ids' \<longleftrightarrow>
     (\<forall>c\<in>set cs. RouteTargetV1_validate (ca_route c) = Inr () \<and> candidate_reserve p c \<noteq> None) \<and>
     distinct (map candidate_id cs) \<and> set (map candidate_id cs) \<inter> ids = {} \<and>
     distinct (map candidate_target cs) \<and> set (map candidate_target cs) \<inter> targets = {} \<and>
     ids' = set (map candidate_id cs) \<union> ids"
proof (induction cs arbitrary: ids targets)
  case (Cons c cs)
  have "validate_candidates p (c # cs) ids targets = Inr ids' \<longleftrightarrow>
      RouteTargetV1_validate (ca_route c) = Inr () \<and> candidate_id c \<notin> ids \<and>
      candidate_target c \<notin> targets \<and> candidate_reserve p c \<noteq> None \<and>
      validate_candidates p cs (insert (candidate_id c) ids) (insert (candidate_target c) targets) = Inr ids'"
    by (auto simp: result_simps candidate_id_def candidate_target_def candidate_reserve_def
        split: if_splits)
  then show ?case unfolding Cons.IH by auto
qed auto

lemma validate_snapshots_Inr:
  "validate_snapshots ss ids = Inr u \<longleftrightarrow>
     (\<forall>s\<in>set ss. UsageSnapshotV1_validate s = Inr ()) \<and>
     distinct (map us_snapshot_id ss) \<and> set (map us_snapshot_id ss) \<inter> ids = {}"
proof (induction ss ids rule: validate_snapshots.induct)
  case (2 s ss ids)
  then show ?case by (cases "us_snapshot_id s \<in> ids") (auto simp: result_simps)
qed auto

definition adaptive_sound :: "AdaptivePolicyV1 \<Rightarrow> RoutingInputV1 \<Rightarrow> bool" where
  "adaptive_sound p i \<longleftrightarrow>
     RouteTargetV1_validate (au_legacy_route (ri_authority i)) = Inr () \<and>
     (\<forall>c\<in>set (ri_candidates i).
        RouteTargetV1_validate (ca_route c) = Inr () \<and> candidate_reserve p c \<noteq> None) \<and>
     distinct (map candidate_id (ri_candidates i)) \<and>
     distinct (map candidate_target (ri_candidates i)) \<and>
     (\<forall>s\<in>set (ri_usage_snapshots i). UsageSnapshotV1_validate s = Inr ()) \<and>
     distinct (map us_snapshot_id (ri_usage_snapshots i)) \<and>
     (\<forall>c. ri_incumbent_candidate_id i = Some c \<longrightarrow> c \<in> set (map candidate_id (ri_candidates i)))"

lemma validate_adaptive_Inr: "validate_adaptive i p = Inr u \<longleftrightarrow> adaptive_sound p i"
  unfolding validate_adaptive_def adaptive_sound_def
  by (cases "ri_incumbent_candidate_id i")
    (auto simp: result_simps validate_candidates_Inr validate_snapshots_Inr split: if_splits)

section \<open>The policy\<close>

definition reserve_pair :: "ProviderReserveV1 \<Rightarrow> ProviderIdV1 \<times> UsageAccountIdV1" where
  "reserve_pair r = (pr_provider r, pr_usage_account_id r)"

lemma unique_reserves_Inr:
  "unique_reserves rs seen = Inr u \<longleftrightarrow>
     distinct (map reserve_pair rs) \<and> set (map reserve_pair rs) \<inter> seen = {}"
  by (induction rs seen rule: unique_reserves.induct) (auto simp: reserve_pair_def)

lemma validate_provider_reserves_Inr:
  "validate_provider_reserves p = Inr u \<longleftrightarrow>
     length (ap_provider_reserves p) \<le> 64 \<and> distinct (map reserve_pair (ap_provider_reserves p))"
  by (auto simp: validate_provider_reserves_def result_simps unique_reserves_Inr MAX_PROVIDER_RESERVES_def)

lemma find_unique:
  assumes "distinct (map f xs)" "x \<in> set xs" "\<And>y. P y \<longleftrightarrow> f y = k" "f x = k"
  shows "find P xs = Some x"
  using assms(1,2)
proof (induction xs)
  case (Cons y ys)
  show ?case
  proof (cases "f y = k")
    case True
    with Cons.prems assms(4) have "x = y" by (auto simp: image_iff)
    with True assms(3) show ?thesis by simp
  next
    case False
    with Cons.prems Cons.IH assms(3,4) show ?thesis by auto
  qed
qed simp

lemma reserve_for_Some:
  assumes "distinct (map reserve_pair (ap_provider_reserves p))"
  shows "reserve_for p provider account = Some b \<longleftrightarrow>
    (\<exists>r\<in>set (ap_provider_reserves p). reserve_pair r = (provider, account) \<and> pr_reserve_bps r = b)"
proof
  assume "reserve_for p provider account = Some b"
  then show "\<exists>r\<in>set (ap_provider_reserves p). reserve_pair r = (provider, account) \<and> pr_reserve_bps r = b"
    by (auto simp: reserve_for_def reserve_pair_def find_Some_iff)
next
  assume "\<exists>r\<in>set (ap_provider_reserves p). reserve_pair r = (provider, account) \<and> pr_reserve_bps r = b"
  then obtain r where r: "r \<in> set (ap_provider_reserves p)" "reserve_pair r = (provider, account)"
    "pr_reserve_bps r = b" by blast
  have "find (\<lambda>r. pr_provider r = provider \<and> pr_usage_account_id r = account) (ap_provider_reserves p) = Some r"
    by (rule find_unique [OF assms r(1) _ r(2)]) (auto simp: reserve_pair_def)
  with r(3) show "reserve_for p provider account = Some b" by (simp add: reserve_for_def)
qed

lemma policy_canonicalized_simps [simp]:
  "set (ap_provider_reserves (policy_canonicalized p)) = set (ap_provider_reserves p)"
  "length (ap_provider_reserves (policy_canonicalized p)) = length (ap_provider_reserves p)"
  "ap_score_weights (policy_canonicalized p) = ap_score_weights p"
  "ap_maximum_snapshot_age_ms (policy_canonicalized p) = ap_maximum_snapshot_age_ms p"
  "ap_switch_margin_bps (policy_canonicalized p) = ap_switch_margin_bps p"
  "ap_unknown_usage_policy (policy_canonicalized p) = ap_unknown_usage_policy p"
  "ap_evaluation_mode (policy_canonicalized p) = ap_evaluation_mode p"
  "ap_policy_version (policy_canonicalized p) = ap_policy_version p"
  by (simp_all add: policy_canonicalized_def)

lemma distinct_sort_key:
  "distinct (map f (sort_key k xs)) \<longleftrightarrow> distinct (map f xs)"
  by (metis mset_map mset_sort mset_eq_imp_distinct_iff)

lemma policy_canonicalized_distinct:
  "distinct (map reserve_pair (ap_provider_reserves (policy_canonicalized p))) \<longleftrightarrow>
     distinct (map reserve_pair (ap_provider_reserves p))"
  by (simp add: policy_canonicalized_def distinct_sort_key)

lemma reserve_for_canonicalized:
  assumes "distinct (map reserve_pair (ap_provider_reserves p))"
  shows "reserve_for (policy_canonicalized p) provider account = reserve_for p provider account"
proof -
  have "reserve_for (policy_canonicalized p) provider account = Some b \<longleftrightarrow>
      reserve_for p provider account = Some b" for b
    using assms policy_canonicalized_distinct by (simp add: reserve_for_Some)
  then show ?thesis by (metis option.exhaust)
qed

lemma policy_canonicalized_validate:
  "AdaptivePolicyV1_validate (policy_canonicalized p) = Inr u \<longleftrightarrow> AdaptivePolicyV1_validate p = Inr u"
  by (simp add: AdaptivePolicyV1_validate_def validate_provider_reserves_Inr result_simps
      policy_canonicalized_distinct)

lemma policy_validate_reserves:
  "AdaptivePolicyV1_validate p = Inr u \<Longrightarrow> distinct (map reserve_pair (ap_provider_reserves p))"
  by (auto simp: AdaptivePolicyV1_validate_def result_simps validate_provider_reserves_Inr split: if_splits)

end
