(* ===== verification/Adaptive_Evaluation.thy ===== *)
theory Adaptive_Evaluation
  imports Adaptive_Scoring
begin

text \<open>
  What the evaluation of one candidate says: which snapshot a usable probe rests on, when a probe
  is rejected, and the exact conditions of an eligible evaluation. Evaluation of a validated
  request never fails.
\<close>

section \<open>Probing the usage evidence\<close>

lemma equivalent_Inl:
  "assessments_are_equivalent s (Inl r) s' x \<Longrightarrow> \<exists>r'. x = Inl r'"
  by (cases x) (auto simp: assessments_are_equivalent_def)

lemma group_split: "rest = takeWhile P rest @ drop (length (takeWhile P rest)) rest"
  by (metis append_take_drop_id takeWhile_eq_take)

text \<open>A usable probe rests on one snapshot, and every snapshot before it was rejected.\<close>

lemma probe_groups_usable:
  "probe_groups assess considered ss newest = ProbeUsable a considered' governing \<Longrightarrow>
     considered' = considered \<and> set governing \<subseteq> us_snapshot_id ` set ss \<and>
     (\<exists>before s after. ss = before @ s # after \<and> assess s = Inr a \<and> us_snapshot_id s \<in> set governing \<and>
        (\<forall>s'\<in>set before. \<exists>r. assess s' = Inl r))"
proof (induction assess considered ss newest rule: probe_groups.induct)
  case (1 assess considered newest)
  then show ?case by (auto split: option.splits)
next
  case (2 assess considered first rest newest)
  let ?tail = "takeWhile (\<lambda>s. same_instant s first) rest"
  let ?rest = "drop (length ?tail) rest"
  let ?conflict = "list_ex (\<lambda>s. \<not> assessments_are_equivalent first (assess first) s (assess s)) ?tail"
  have split: "rest = ?tail @ ?rest" by (rule group_split)
  have ids: "us_snapshot_id ` set ?tail \<subseteq> us_snapshot_id ` set rest"
    "us_snapshot_id ` set ?rest \<subseteq> us_snapshot_id ` set rest"
    by (auto dest: set_takeWhileD in_set_dropD)
  have calm: "\<not> ?conflict" using 2(2) by (auto simp: Let_def split: if_splits)
  show ?case
  proof (cases "assess first")
    case (Inr a')
    then have "a' = a" "considered' = considered" "governing = ids_of (first # ?tail)"
      using 2(2) calm by (auto simp: Let_def)
    with Inr ids(1) show ?thesis
      by (intro conjI exI [of _ "[]"] exI [of _ first] exI [of _ rest]) (auto simp: ids_of_def)
  next
    case (Inl r)
    let ?newest = "case newest of None \<Rightarrow> Some (first, r, ids_of (first # ?tail)) | Some n \<Rightarrow> Some n"
    have run: "probe_groups assess considered ?rest ?newest = ProbeUsable a considered' governing"
      using 2(2) calm Inl by (auto simp: Let_def)
    from 2(1) [OF refl refl refl calm Inl run] obtain before s after where
      IH: "considered' = considered" "set governing \<subseteq> us_snapshot_id ` set ?rest"
        "?rest = before @ s # after" "assess s = Inr a" "us_snapshot_id s \<in> set governing"
        "\<forall>s'\<in>set before. \<exists>r. assess s' = Inl r" by blast
    have tail: "\<forall>s'\<in>set ?tail. \<exists>r. assess s' = Inl r"
      using calm Inl equivalent_Inl by (fastforce simp: list_ex_iff)
    have "first # rest = (first # ?tail @ before) @ s # after" using split IH(3) by simp
    moreover have "\<forall>s'\<in>set (first # ?tail @ before). \<exists>r. assess s' = Inl r"
      using tail IH(6) Inl by auto
    moreover have "set governing \<subseteq> us_snapshot_id ` set (first # rest)" using IH(2) ids(2) by auto
    ultimately show ?thesis using IH(1,4,5) by blast
  qed
qed

lemma two_ids:
  assumes "distinct (map us_snapshot_id (first # tail))" "tail \<noteq> []"
  shows "2 \<le> length (ids_of (first # tail))"
proof -
  obtain s ss where tail: "tail = s # ss" using assms(2) by (cases tail) auto
  have "distinct (ids_of (first # tail))"
    using bts_collect_wf [of "map us_snapshot_id (first # tail)"]
    by (auto simp: ids_of_def bts_wf_def strict_sorted_iff)
  then have "length (ids_of (first # tail)) = card (set (ids_of (first # tail)))"
    by (simp add: distinct_card)
  also have "\<dots> = card (us_snapshot_id ` set (first # tail))" by (simp add: ids_of_def)
  also have "\<dots> \<ge> card {us_snapshot_id first, us_snapshot_id s}"
    using tail by (intro card_mono) auto
  finally show ?thesis using assms(1) tail by auto
qed

text \<open>Why a probe was rejected, and what its audit fields say.\<close>

definition rejection_sound ::
    "(UsageSnapshotV1 \<Rightarrow> CandidateRejectionV1 + UsageAssessment) \<Rightarrow> UsageSnapshotV1 set
      \<Rightarrow> CandidateRejectionV1 \<Rightarrow> SnapshotIdV1 btree_set \<Rightarrow> UsageReasonCodeV1 option \<Rightarrow> bool" where
  "rejection_sound assess snapshots reason governing code \<longleftrightarrow>
     set governing \<subseteq> us_snapshot_id ` snapshots \<and>
     (reason = ConflictingUsageSnapshots \<and> code = None \<and> 2 \<le> length governing
      \<or> (\<exists>s\<in>snapshots. assess s = Inl reason \<and>
            code = (if reason = UnhealthyUsage then us_reason_code s else None))
      \<or> reason = MissingUsageSnapshot \<and> code = None)"

lemma probe_groups_rejected:
  assumes "probe_groups assess considered ss newest = ProbeRejected reason considered' governing code"
    and "distinct (map us_snapshot_id ss)" "set ss \<subseteq> snapshots"
    and "\<And>s r g. newest = Some (s, r, g) \<Longrightarrow> s \<in> snapshots \<and> assess s = Inl r \<and> set g \<subseteq> us_snapshot_id ` snapshots"
  shows "considered' = considered \<and> rejection_sound assess snapshots reason governing code"
  using assms
proof (induction assess considered ss newest rule: probe_groups.induct)
  case (1 assess considered newest)
  then show ?case by (auto simp: rejection_sound_def split: option.splits)
next
  case (2 assess considered first rest newest)
  let ?tail = "takeWhile (\<lambda>s. same_instant s first) rest"
  let ?rest = "drop (length ?tail) rest"
  let ?conflict = "list_ex (\<lambda>s. \<not> assessments_are_equivalent first (assess first) s (assess s)) ?tail"
  have sub: "set ?tail \<subseteq> set rest" "set ?rest \<subseteq> set rest"
    by (auto dest: set_takeWhileD in_set_dropD)
  have ids: "set (ids_of (first # ?tail)) \<subseteq> us_snapshot_id ` snapshots"
    using sub(1) 2(4) by (auto simp: ids_of_def)
  show ?case
  proof (cases ?conflict)
    case True
    have "distinct (map us_snapshot_id (?tail @ ?rest))"
      using 2(3) group_split [of rest "\<lambda>s. same_instant s first"] by simp
    moreover have "us_snapshot_id first \<notin> us_snapshot_id ` set ?tail" using 2(3) sub(1) by auto
    ultimately have "2 \<le> length (ids_of (first # ?tail))"
      using True by (intro two_ids) auto
    moreover have "reason = ConflictingUsageSnapshots" "considered' = considered"
      "governing = ids_of (first # ?tail)" "code = None"
      using 2(2) True by (auto simp: Let_def)
    ultimately show ?thesis using ids by (simp add: rejection_sound_def)
  next
    case False
    show ?thesis
    proof (cases "assess first")
      case (Inr a)
      then show ?thesis using 2(2) False by (auto simp: Let_def)
    next
      case (Inl r)
      let ?newest = "case newest of None \<Rightarrow> Some (first, r, ids_of (first # ?tail)) | Some n \<Rightarrow> Some n"
      have run: "probe_groups assess considered ?rest ?newest = ProbeRejected reason considered' governing code"
        using 2(2) False Inl by (auto simp: Let_def)
      have dist: "distinct (map us_snapshot_id ?rest)"
        using 2(3) by (simp add: drop_map [symmetric])
      have new: "s \<in> snapshots \<and> assess s = Inl r' \<and> set g \<subseteq> us_snapshot_id ` snapshots"
        if "?newest = Some (s, r', g)" for s r' g
        using that 2(4) 2(5) [of s r' g] Inl ids by (cases newest) auto
      show ?thesis
        using 2(1) [OF refl refl refl False Inl run dist _ new] sub(2) 2(4) by auto
    qed
  qed
qed

lemma sort_evidence_set [simp]: "set (sort_evidence ss) = set ss"
  by (simp add: sort_evidence_def)

lemma distinct_evidence [simp]: "distinct (map f (sort_evidence ss)) \<longleftrightarrow> distinct (map f ss)"
  by (simp add: sort_evidence_def distinct_sort_key)

text \<open>Strictly fresher: observed later, or observed at the same instant and received later.\<close>

definition fresher :: "UsageSnapshotV1 \<Rightarrow> UsageSnapshotV1 \<Rightarrow> bool" where
  "fresher s' s \<longleftrightarrow>
     utc_get (us_observed_at_utc_ms s) < utc_get (us_observed_at_utc_ms s') \<or>
     us_observed_at_utc_ms s = us_observed_at_utc_ms s' \<and>
     utc_get (us_received_at_utc_ms s) < utc_get (us_received_at_utc_ms s')"

lemma fresher_key: "fresher s' s \<Longrightarrow> evidence_key s' < evidence_key s"
  by (auto simp: fresher_def evidence_key_def less_prod_def' word_less_def)

lemma usage_for_candidate_usable:
  assumes "usage_for_candidate c ss t age = ProbeUsable a considered governing"
  shows "set considered = us_snapshot_id ` {s \<in> set ss. snapshot_matches c s} \<and> bts_wf considered \<and>
    set governing \<subseteq> set considered \<and>
    (\<exists>s\<in>set ss. snapshot_matches c s \<and> us_snapshot_id s \<in> set governing \<and>
       snapshot_assessment s (rt_model (ca_route c)) t age = Inr a \<and>
       (\<forall>s'\<in>set ss. snapshot_matches c s' \<and> fresher s' s \<longrightarrow>
          (\<exists>r. snapshot_assessment s' (rt_model (ca_route c)) t age = Inl r)))"
proof -
  let ?ordered = "sort_evidence (filter (snapshot_matches c) ss)"
  let ?assess = "\<lambda>s. snapshot_assessment s (rt_model (ca_route c)) t age"
  from assms have "probe_groups ?assess (ids_of ?ordered) ?ordered None = ProbeUsable a considered governing"
    by (simp add: usage_for_candidate_def Let_def)
  from probe_groups_usable [OF this] obtain before s after where
    p: "considered = ids_of ?ordered" "set governing \<subseteq> us_snapshot_id ` set ?ordered"
      "?ordered = before @ s # after" "?assess s = Inr a" "us_snapshot_id s \<in> set governing"
      "\<forall>s'\<in>set before. \<exists>r. ?assess s' = Inl r" by blast
  have member: "s \<in> set ss" "snapshot_matches c s"
    using arg_cong [OF p(3), of set] by auto
  have order: "\<exists>r. ?assess s' = Inl r" if "s' \<in> set ss" "snapshot_matches c s'" "fresher s' s" for s'
  proof -
    have "sorted (map evidence_key ?ordered)" by (simp add: sort_evidence_def)
    then have "\<forall>x\<in>set (s # after). evidence_key s \<le> evidence_key x"
      unfolding p(3) by (auto simp: sorted_append)
    moreover have "s' \<in> set before \<union> set (s # after)"
      using that arg_cong [OF p(3), of set] by auto
    ultimately show ?thesis using p(6) fresher_key [OF that(3)] by fastforce
  qed
  show ?thesis
    using p(1,2,4,5) member order by (fastforce simp: ids_of_def)
qed

lemma usage_for_candidate_rejected:
  assumes "usage_for_candidate c ss t age = ProbeRejected reason considered governing code"
    and "distinct (map us_snapshot_id ss)"
  shows "set considered = us_snapshot_id ` {s \<in> set ss. snapshot_matches c s} \<and> bts_wf considered \<and>
    rejection_sound (\<lambda>s. snapshot_assessment s (rt_model (ca_route c)) t age)
      {s \<in> set ss. snapshot_matches c s} reason governing code"
proof -
  let ?ordered = "sort_evidence (filter (snapshot_matches c) ss)"
  have run: "probe_groups (\<lambda>s. snapshot_assessment s (rt_model (ca_route c)) t age) (ids_of ?ordered)
      ?ordered None = ProbeRejected reason considered governing code"
    using assms(1) by (simp add: usage_for_candidate_def Let_def)
  have dist: "distinct (map us_snapshot_id ?ordered)"
    using assms(2) by (simp add: distinct_map_filter)
  have "considered = ids_of ?ordered \<and>
      rejection_sound (\<lambda>s. snapshot_assessment s (rt_model (ca_route c)) t age)
        {s \<in> set ss. snapshot_matches c s} reason governing code"
    by (rule probe_groups_rejected [OF run dist]) auto
  then show ?thesis by (auto simp: ids_of_def)
qed

section \<open>Evaluating a candidate\<close>

text \<open>The hard constraints, checked before any usage evidence is read.\<close>

definition qualifies :: "RoutingInputV1 \<Rightarrow> AdaptiveCandidateV1 \<Rightarrow> bool" where
  "qualifies i c \<longleftrightarrow>
     ca_automatic_eligibility c = Automatic \<and>
     set (rq_required_capabilities (ri_requirements i)) \<subseteq> set (ca_capabilities c) \<and>
     quality_rank (rq_minimum_quality (ri_requirements i)) \<le> quality_rank (ca_quality c)"

definition candidate_usage :: "AdaptivePolicyV1 \<Rightarrow> RoutingInputV1 \<Rightarrow> AdaptiveCandidateV1 \<Rightarrow> UsageProbe" where
  "candidate_usage p i c =
     usage_for_candidate c (ri_usage_snapshots i) (ri_evaluated_at_utc_ms i) (ap_maximum_snapshot_age_ms p)"

lemma evaluate_candidate_unqualified:
  assumes "\<not> qualifies i c"
  shows "\<exists>reason. rejection_class reason = HardConstraint \<and>
    evaluate_candidate p i c = Inr (reject c reason [] [] None)"
proof (cases "ca_automatic_eligibility c")
  case Automatic
  with assms show ?thesis
    by (intro exI [of _ "if \<not> set (rq_required_capabilities (ri_requirements i)) \<subseteq> set (ca_capabilities c)
        then MissingCapability else BelowQualityFloor"])
      (auto simp: evaluate_candidate_def qualifies_def not_le)
qed (force simp: evaluate_candidate_def)+

lemma evaluate_candidate_qualified:
  "qualifies i c \<Longrightarrow> evaluate_candidate p i c =
     (case candidate_usage p i c of
        ProbeRejected reason considered governing code \<Rightarrow> Inr (reject c reason considered governing code)
      | ProbeUsable a considered governing \<Rightarrow> evaluate_budget p i c a considered governing)"
  by (simp add: evaluate_candidate_def qualifies_def candidate_usage_def not_less)

definition components_of ::
    "AdaptiveCandidateV1 \<Rightarrow> UsageAssessment \<Rightarrow> BasisPointsV1 \<Rightarrow> ScoreComponentsV1" where
  "components_of c a usable =
     \<lparr>sc_task_fit_bps = ca_task_fit_bps c, sc_usable_headroom_bps = usable,
      sc_reset_proximity_bps = ua_reset_proximity_bps a,
      sc_recent_capacity_bps = ua_recent_capacity_bps a,
      sc_latency_bps = ca_latency_bps c, sc_health_bps = ua_health_bps a,
      sc_configured_preference_bps = ca_configured_preference_bps c\<rparr>"

text \<open>The headroom a phase of the request's priority may use, above the reserve unless it is P0.\<close>

definition usable_headroom ::
    "RoutingInputV1 \<Rightarrow> UsageAssessment \<Rightarrow> BasisPointsV1 \<Rightarrow> BasisPointsV1 \<Rightarrow> bool" where
  "usable_headroom i a reserve usable \<longleftrightarrow>
     0 < bps_nat (ua_remaining_bps a) \<and>
     (if rq_priority (ri_requirements i) = P0 then usable = ua_remaining_bps a
      else bps_nat reserve < bps_nat (ua_remaining_bps a) \<and>
           bps_nat usable = bps_nat (ua_remaining_bps a) - bps_nat reserve)"

definition eligible_spec ::
    "AdaptivePolicyV1 \<Rightarrow> RoutingInputV1 \<Rightarrow> CandidateEvaluationV1 \<Rightarrow> bool" where
  "eligible_spec p i e \<longleftrightarrow> qualifies i (ev_candidate e) \<and>
     (\<exists>a reserve usable score.
        candidate_usage p i (ev_candidate e) =
          ProbeUsable a (ev_considered_snapshot_ids e) (ev_governing_snapshot_ids e) \<and>
        candidate_reserve p (ev_candidate e) = Some reserve \<and> usable_headroom i a reserve usable \<and>
        weighted_score p (components_of (ev_candidate e) a usable) = Inr score \<and>
        ev_usage_reason_code e = None \<and> ev_reported_remaining_bps e = Some (ua_remaining_bps a) \<and>
        ev_applied_reserve_bps e = Some reserve \<and> ev_usable_headroom_bps e = Some usable \<and>
        ev_score_components e = Some (components_of (ev_candidate e) a usable) \<and>
        ev_score_bps e = Some score)"

definition rejected_spec ::
    "AdaptivePolicyV1 \<Rightarrow> RoutingInputV1 \<Rightarrow> CandidateEvaluationV1 \<Rightarrow> CandidateRejectionV1 \<Rightarrow> bool" where
  "rejected_spec p i e reason \<longleftrightarrow>
     ev_score_bps e = None \<and> ev_score_components e = None \<and> ev_usable_headroom_bps e = None \<and>
     (\<not> qualifies i (ev_candidate e) \<and> rejection_class reason = HardConstraint \<and>
        ev_considered_snapshot_ids e = [] \<and> ev_governing_snapshot_ids e = [] \<and>
        ev_usage_reason_code e = None
      \<or> qualifies i (ev_candidate e) \<and>
        candidate_usage p i (ev_candidate e) = ProbeRejected reason (ev_considered_snapshot_ids e)
          (ev_governing_snapshot_ids e) (ev_usage_reason_code e)
      \<or> qualifies i (ev_candidate e) \<and> rejection_class reason = CapacityUnavailable \<and>
        ev_usage_reason_code e = None \<and>
        (\<exists>a. candidate_usage p i (ev_candidate e) = ProbeUsable a (ev_considered_snapshot_ids e)
          (ev_governing_snapshot_ids e)))"

definition evaluation_spec ::
    "AdaptivePolicyV1 \<Rightarrow> RoutingInputV1 \<Rightarrow> CandidateEvaluationV1 \<Rightarrow> bool" where
  "evaluation_spec p i e \<longleftrightarrow>
     (case ev_disposition e of Eligible \<Rightarrow> eligible_spec p i e | Rejected r \<Rightarrow> rejected_spec p i e r)"

lemma reject_fields [simp]:
  "ev_candidate (reject c r cs gs code) = c" "ev_disposition (reject c r cs gs code) = Rejected r"
  "ev_considered_snapshot_ids (reject c r cs gs code) = cs"
  "ev_governing_snapshot_ids (reject c r cs gs code) = gs"
  "ev_usage_reason_code (reject c r cs gs code) = code"
  "ev_usable_headroom_bps (reject c r cs gs code) = None"
  "ev_score_components (reject c r cs gs code) = None" "ev_score_bps (reject c r cs gs code) = None"
  by (simp_all add: reject_def)

lemma reject_with_budget_fields [simp]:
  "ev_candidate (reject_with_budget c r cs gs m v) = c"
  "ev_disposition (reject_with_budget c r cs gs m v) = Rejected r"
  "ev_considered_snapshot_ids (reject_with_budget c r cs gs m v) = cs"
  "ev_governing_snapshot_ids (reject_with_budget c r cs gs m v) = gs"
  "ev_usage_reason_code (reject_with_budget c r cs gs m v) = None"
  "ev_usable_headroom_bps (reject_with_budget c r cs gs m v) = None"
  "ev_score_components (reject_with_budget c r cs gs m v) = None"
  "ev_score_bps (reject_with_budget c r cs gs m v) = None"
  by (simp_all add: reject_with_budget_def)

lemma headroom_above_reserve:
  assumes "\<not> bps_get m \<le> bps_get v" "BasisPointsV1_new (bps_get m - bps_get v) = Inr usable"
  shows "bps_nat v < bps_nat m \<and> bps_nat usable = bps_nat m - bps_nat v"
  using assms unat_sub [of "bps_get v" "bps_get m"]
  by (auto simp: BasisPointsV1_new_Inr bps_nat_def word_le_nat_alt)

lemma evaluate_budget_spec:
  assumes run: "evaluate_budget p i c a cs gs = Inr e" and q: "qualifies i c"
    and usage: "candidate_usage p i c = ProbeUsable a cs gs"
  shows "ev_candidate e = c \<and> evaluation_spec p i e"
proof -
  obtain reserve where reserve: "candidate_reserve p c = Some reserve"
    using run by (auto simp: evaluate_budget_def candidate_reserve_def Let_def result_simps)
  let ?m = "ua_remaining_bps a"
  consider (exhausted) "e = reject_with_budget c Exhausted cs gs ?m reserve"
    | (protected) "e = reject_with_budget c ReserveProtected cs gs ?m reserve"
    | (eligible) usable score where
        "bps_get ?m \<noteq> 0"
        "rq_priority (ri_requirements i) = P0 \<or> \<not> bps_get ?m \<le> bps_get reserve"
        "(if rq_priority (ri_requirements i) = P0 then Inr ?m
          else BasisPointsV1_new (bps_get ?m - bps_get reserve)) = Inr usable"
        "weighted_score p (components_of c a usable) = Inr score"
        "e = \<lparr>ev_candidate = c, ev_disposition = Eligible,
              ev_considered_snapshot_ids = cs, ev_governing_snapshot_ids = gs,
              ev_usage_reason_code = None, ev_reported_remaining_bps = Some ?m,
              ev_applied_reserve_bps = Some reserve, ev_usable_headroom_bps = Some usable,
              ev_score_components = Some (components_of c a usable), ev_score_bps = Some score\<rparr>"
    using run reserve
    by (auto simp: evaluate_budget_def candidate_reserve_def Let_def result_simps components_of_def
        split: if_splits)
  then show ?thesis
  proof cases
    case exhausted
    then show ?thesis using q usage by (auto simp: evaluation_spec_def rejected_spec_def)
  next
    case protected
    then show ?thesis using q usage by (auto simp: evaluation_spec_def rejected_spec_def)
  next
    case eligible
    have "usable_headroom i a reserve usable"
      using eligible(1-3) headroom_above_reserve [of ?m reserve usable]
      by (auto simp: usable_headroom_def bps_nat_def unat_gt_0 split: if_splits)
    then show ?thesis
      using eligible(4,5) q usage reserve by (auto simp: evaluation_spec_def eligible_spec_def)
  qed
qed

lemma evaluate_candidate_spec:
  assumes "evaluate_candidate p i c = Inr e"
  shows "ev_candidate e = c \<and> evaluation_spec p i e"
proof (cases "qualifies i c")
  case False
  then show ?thesis
    using assms evaluate_candidate_unqualified [OF False, of p]
    by (auto simp: evaluation_spec_def rejected_spec_def)
next
  case True
  show ?thesis
  proof (cases "candidate_usage p i c")
    case (ProbeUsable a cs gs)
    then show ?thesis using assms evaluate_budget_spec [OF _ True ProbeUsable]
      by (simp add: evaluate_candidate_qualified [OF True])
  next
    case (ProbeRejected r cs gs code)
    then have "e = reject c r cs gs code"
      using assms by (simp add: evaluate_candidate_qualified [OF True])
    with True ProbeRejected show ?thesis by (simp add: evaluation_spec_def rejected_spec_def)
  qed
qed

section \<open>Evaluation never fails\<close>

definition assessment_typed :: "UsageAssessment \<Rightarrow> bool" where
  "assessment_typed a \<longleftrightarrow>
     bps_ok (ua_remaining_bps a) \<and> bps_ok (ua_reset_proximity_bps a) \<and>
     bps_ok (ua_recent_capacity_bps a) \<and> bps_ok (ua_health_bps a)"

lemma snapshot_assessment_typed:
  assumes "snapshot_typed s" "snapshot_assessment s model t age = Inr a"
  shows "assessment_typed a"
  using assms
  by (auto simp: snapshot_assessment_def Let_def result_simps BasisPointsV1_new_Inr assessment_typed_def
      snapshot_typed_def bps_ok_def split: if_splits prod.splits)

definition input_typed :: "RoutingInputV1 \<Rightarrow> bool" where
  "input_typed i \<longleftrightarrow> list_all candidate_typed (ri_candidates i) \<and> list_all snapshot_typed (ri_usage_snapshots i)"

lemma components_small:
  assumes "candidate_typed c" "assessment_typed a" "bps_nat usable \<le> 10000"
  shows "\<forall>b\<in>set (component_list (components_of c a usable)). 0 \<le> bps_nat b \<and> bps_nat b \<le> 10000"
  using assms bps_ok_unat
  by (auto simp: component_list_def components_of_def candidate_typed_def assessment_typed_def bps_nat_def)

lemma evaluate_budget_total:
  assumes weights: "weights_total p" and typed: "candidate_typed c" "assessment_typed a"
    and reserve: "candidate_reserve p c = Some reserve"
  shows "\<exists>e. evaluate_budget p i c a cs gs = Inr e"
proof -
  let ?m = "ua_remaining_bps a"
  have m: "unat (bps_get ?m) \<le> 10000"
    using typed(2) bps_ok_unat by (simp add: assessment_typed_def)
  have score: "\<exists>score. weighted_score p (components_of c a usable) = Inr score" if "bps_nat usable \<le> 10000" for usable
    using weighted_score_nat [OF weights components_small [OF typed that]] by auto
  have new: "\<exists>b. BasisPointsV1_new (bps_get ?m - bps_get reserve) = Inr b \<and> bps_nat b \<le> 10000"
    if "\<not> bps_get ?m \<le> bps_get reserve"
  proof -
    have "unat (bps_get ?m - bps_get reserve) = unat (bps_get ?m) - unat (bps_get reserve)"
      using that by (intro unat_sub) simp
    with m have "unat (bps_get ?m - bps_get reserve) \<le> 10000" by simp
    then show ?thesis by (auto simp: BasisPointsV1_new_small bps_nat_def)
  qed
  consider "bps_get ?m = 0"
    | "bps_get ?m \<noteq> 0" "rq_priority (ri_requirements i) \<noteq> P0" "bps_get ?m \<le> bps_get reserve"
    | "bps_get ?m \<noteq> 0" "rq_priority (ri_requirements i) = P0"
    | "bps_get ?m \<noteq> 0" "rq_priority (ri_requirements i) \<noteq> P0" "\<not> bps_get ?m \<le> bps_get reserve"
    by blast
  then show ?thesis
  proof cases
    case 3
    obtain score where "weighted_score p (components_of c a ?m) = Inr score"
      using score [of ?m] m by (auto simp: bps_nat_def)
    with 3 reserve show ?thesis
      by (simp add: evaluate_budget_def candidate_reserve_def Let_def components_of_def)
  next
    case 4
    obtain b score where "BasisPointsV1_new (bps_get ?m - bps_get reserve) = Inr b"
      "weighted_score p (components_of c a b) = Inr score"
      using new [OF 4(3)] score by blast
    with 4 reserve show ?thesis
      by (simp add: evaluate_budget_def candidate_reserve_def Let_def components_of_def)
  qed (use reserve in \<open>simp_all add: evaluate_budget_def candidate_reserve_def Let_def\<close>)
qed

lemma evaluate_candidate_total:
  assumes "weights_total p" "input_typed i" "c \<in> set (ri_candidates i)" "candidate_reserve p c \<noteq> None"
  shows "\<exists>e. evaluate_candidate p i c = Inr e"
proof (cases "qualifies i c")
  case False
  then show ?thesis using evaluate_candidate_unqualified by blast
next
  case True
  show ?thesis
  proof (cases "candidate_usage p i c")
    case (ProbeUsable a cs gs)
    then obtain s where "s \<in> set (ri_usage_snapshots i)"
      "snapshot_assessment s (rt_model (ca_route c)) (ri_evaluated_at_utc_ms i)
         (ap_maximum_snapshot_age_ms p) = Inr a"
      using usage_for_candidate_usable unfolding candidate_usage_def by blast
    with assms(2) have "assessment_typed a"
      by (auto simp: input_typed_def list_all_iff intro: snapshot_assessment_typed)
    with assms ProbeUsable show ?thesis
      using evaluate_budget_total [of p c a _ i cs gs]
      by (auto simp: evaluate_candidate_qualified [OF True] input_typed_def list_all_iff)
  next
    case (ProbeRejected r cs gs code)
    then show ?thesis by (simp add: evaluate_candidate_qualified [OF True])
  qed
qed

lemma try_map_Inr:
  "try_map f xs = Inr ys \<longleftrightarrow> list_all2 (\<lambda>x y. f x = Inr y) xs ys"
  by (induction xs arbitrary: ys) (auto simp: result_simps list_all2_Cons1)

lemma try_map_total: "(\<And>x. x \<in> set xs \<Longrightarrow> \<exists>y. f x = Inr y) \<Longrightarrow> \<exists>ys. try_map f xs = Inr ys"
  by (induction xs) (force simp: result_simps)+

end
