(* ===== verification/Adaptive_Selection.thy ===== *)
theory Adaptive_Selection
  imports Adaptive_Evaluation
begin

text \<open>
  The specification of the recommendation as a relation, one rule per reason the kernel gives,
  and the refinement: on the evaluations of a validated request \<open>select_recommendation\<close> always
  returns, and what it returns is what the relation allows.
\<close>

section \<open>The best candidate\<close>

definition eligible :: "CandidateEvaluationV1 \<Rightarrow> bool" where
  "eligible e \<longleftrightarrow> eligible_score e \<noteq> None"

definition score_of :: "CandidateEvaluationV1 \<Rightarrow> nat" where
  "score_of e = (case eligible_score e of Some b \<Rightarrow> bps_nat b | None \<Rightarrow> 0)"

text \<open>Score first; among equal scores the runtime of the existing session.\<close>

definition eval_rank :: "RoutingInputV1 \<Rightarrow> CandidateEvaluationV1 \<Rightarrow> nat \<times> nat" where
  "eval_rank i e = (score_of e, if preserves_existing_runtime i e then 1 else 0)"

definition is_best ::
    "RoutingInputV1 \<Rightarrow> CandidateEvaluationV1 list \<Rightarrow> CandidateEvaluationV1 \<Rightarrow> bool" where
  "is_best i es b \<longleftrightarrow> b \<in> set es \<and> eligible b \<and>
     (\<forall>e\<in>set es. eligible e \<longrightarrow>
        eval_rank i e < eval_rank i b \<or> eval_rank i e = eval_rank i b \<and> ev_id b \<le> ev_id e)"

lemma bps_nat_inject: "bps_nat a = bps_nat b \<longleftrightarrow> a = b"
  by (cases a; cases b) (simp add: bps_nat_def word_unat_eq_iff)

text \<open>The state of the loop: the best of the evaluations seen so far.\<close>

definition best_of ::
    "RoutingInputV1 \<Rightarrow> CandidateEvaluationV1 list \<Rightarrow> CandidateEvaluationV1 option \<Rightarrow> bool" where
  "best_of i es best \<longleftrightarrow>
     (case best of None \<Rightarrow> \<forall>e\<in>set es. \<not> eligible e | Some b \<Rightarrow> is_best i es b)"

lemma best_loop_step:
  assumes "best_of i seen best" "\<forall>x\<in>set seen. ev_id x \<le> ev_id e"
  shows "\<exists>best'. best_loop i (e # es) best = best_loop i es best' \<and> best_of i (seen @ [e]) best'"
proof (cases "eligible_score e")
  case None
  with assms(1) show ?thesis
    by (intro exI [of _ best]) (auto simp: best_of_def is_best_def eligible_def split: option.splits)
next
  case (Some score)
  show ?thesis
  proof (cases best)
    case None
    with assms(1) Some show ?thesis
      by (intro exI [of _ "Some e"]) (auto simp: best_of_def is_best_def eligible_def)
  next
    case (Some current)
    obtain cur where cur: "eligible_score current = Some cur"
      using assms(1) Some by (auto simp: best_of_def is_best_def eligible_def)
    have replace: "(bps_get cur < bps_get score \<or>
        (score = cur \<and> preserves_existing_runtime i e \<and> \<not> preserves_existing_runtime i current))
      \<longleftrightarrow> eval_rank i current < eval_rank i e"
      using \<open>eligible_score e = Some score\<close> cur bps_nat_inject
      by (auto simp: eval_rank_def score_of_def less_prod_def' word_less_nat_alt bps_nat_def)
    have best: "is_best i seen current" using assms(1) Some by (simp add: best_of_def)
    have run: "best_loop i (e # es) best =
        best_loop i es (Some (if eval_rank i current < eval_rank i e then e else current))"
      using \<open>eligible_score e = Some score\<close> Some cur replace by simp
    have elig: "eligible e" using \<open>eligible_score e = Some score\<close> by (simp add: eligible_def)
    show ?thesis
    proof (cases "eval_rank i current < eval_rank i e")
      case True
      then have "is_best i (seen @ [e]) e"
        using best elig by (fastforce simp: is_best_def)
      with run True show ?thesis by (intro exI [of _ "Some e"]) (simp add: best_of_def)
    next
      case False
      then have "eval_rank i e < eval_rank i current \<or> eval_rank i e = eval_rank i current"
        by (metis linorder_neqE)
      moreover have "ev_id current \<le> ev_id e" using best assms(2) by (simp add: is_best_def)
      ultimately have "is_best i (seen @ [e]) current" using best by (auto simp: is_best_def)
      with run False show ?thesis by (intro exI [of _ "Some current"]) (simp add: best_of_def)
    qed
  qed
qed

lemma best_loop_spec:
  assumes "best_of i seen best" "sorted (map ev_id (seen @ es))"
  shows "\<exists>best'. best_loop i es best = Inr best' \<and> best_of i (seen @ es) best'"
  using assms
proof (induction es arbitrary: seen best)
  case (Cons e es)
  have "\<forall>x\<in>set seen. ev_id x \<le> ev_id e" using Cons.prems(2) by (auto simp: sorted_append)
  from best_loop_step [OF Cons.prems(1) this, of es] obtain best'
    where step: "best_loop i (e # es) best = best_loop i es best'" "best_of i (seen @ [e]) best'" by blast
  have "sorted (map ev_id ((seen @ [e]) @ es))" using Cons.prems(2) by simp
  from Cons.IH [OF step(2) this] step(1) show ?case by simp
qed simp

section \<open>The specification\<close>

definition incumbent_of ::
    "RoutingInputV1 \<Rightarrow> CandidateEvaluationV1 list \<Rightarrow> CandidateEvaluationV1 option" where
  "incumbent_of i es =
     Option.bind (ri_incumbent_candidate_id i) (\<lambda>c. find (\<lambda>e. ev_id e = c) es)"

definition unknown_usage :: "CandidateEvaluationV1 \<Rightarrow> CandidateRejectionV1 \<Rightarrow> bool" where
  "unknown_usage e reason \<longleftrightarrow> ev_disposition e = Rejected reason \<and> usage_is_unknown reason"

definition legacy_on_unknown ::
    "RoutingInputV1 \<Rightarrow> CandidateEvaluationV1 list \<Rightarrow> AdaptiveCandidateV1 \<Rightarrow> bool" where
  "legacy_on_unknown i es c \<longleftrightarrow> canonical_legacy_candidate i = Some c \<and>
     (\<exists>e reason. find (\<lambda>e. ev_id e = candidate_id c) es = Some e \<and> unknown_usage e reason)"

text \<open>
  With an eligible candidate the best one is recommended, unless an eligible incumbent is within
  the switch margin. With none, the policy for unknown usage may hold the incumbent or fall back
  to the legacy route; everything else is deferred.
\<close>

inductive selects ::
    "AdaptivePolicyV1 \<Rightarrow> RoutingInputV1 \<Rightarrow> CandidateEvaluationV1 list \<Rightarrow> RouteOutcomeV1
      \<Rightarrow> SwitchReasonV1 \<Rightarrow> bool"
  for p i es where
  best_candidate: "is_best i es b \<Longrightarrow> incumbent_of i es = None \<Longrightarrow>
    selects p i es (ev_route b) BestCandidate"
| incumbent_best: "is_best i es b \<Longrightarrow> incumbent_of i es = Some inc \<Longrightarrow> eligible inc \<Longrightarrow>
    ev_id b = ev_id inc \<Longrightarrow> selects p i es (ev_route inc) IncumbentBest"
| challenger: "is_best i es b \<Longrightarrow> incumbent_of i es = Some inc \<Longrightarrow> eligible inc \<Longrightarrow>
    ev_id b \<noteq> ev_id inc \<Longrightarrow> score_of inc + bps_nat (ap_switch_margin_bps p) \<le> score_of b \<Longrightarrow>
    selects p i es (ev_route b) ChallengerMetMargin"
| hysteresis: "is_best i es b \<Longrightarrow> incumbent_of i es = Some inc \<Longrightarrow> eligible inc \<Longrightarrow>
    ev_id b \<noteq> ev_id inc \<Longrightarrow> score_of b < score_of inc + bps_nat (ap_switch_margin_bps p) \<Longrightarrow>
    selects p i es (ev_route inc) IncumbentHeldByHysteresis"
| incumbent_ineligible: "is_best i es b \<Longrightarrow> incumbent_of i es = Some inc \<Longrightarrow>
    ev_disposition inc = Rejected reason \<Longrightarrow> selects p i es (ev_route b) (IncumbentIneligible reason)"
| hold_unknown: "\<forall>e\<in>set es. \<not> eligible e \<Longrightarrow> ap_unknown_usage_policy p = HoldIncumbent \<Longrightarrow>
    incumbent_of i es = Some inc \<Longrightarrow> unknown_usage inc reason \<Longrightarrow>
    selects p i es (ev_route inc) (IncumbentHeldOnUnknownUsage reason)"
| legacy_unknown: "\<forall>e\<in>set es. \<not> eligible e \<Longrightarrow> ap_unknown_usage_policy p = StaticFallback \<Longrightarrow>
    legacy_on_unknown i es c \<Longrightarrow> selects p i es (Route (ca_route c)) LegacyFallbackOnUnknownUsage"
| deferred: "\<forall>e\<in>set es. \<not> eligible e \<Longrightarrow>
    \<not> (ap_unknown_usage_policy p = HoldIncumbent \<and>
        (\<exists>inc reason. incumbent_of i es = Some inc \<and> unknown_usage inc reason)) \<Longrightarrow>
    \<not> (ap_unknown_usage_policy p = StaticFallback \<and> (\<exists>c. legacy_on_unknown i es c)) \<Longrightarrow>
    selects p i es (Deferred (deferral_reason es)) NoEligibleCandidate"

section \<open>The selection meets it\<close>

text \<open>The evaluations of a validated request, in the order the kernel makes them.\<close>

definition evaluations_wf :: "RoutingInputV1 \<Rightarrow> CandidateEvaluationV1 list \<Rightarrow> bool" where
  "evaluations_wf i es \<longleftrightarrow>
     set (map ev_candidate es) = set (ri_candidates i) \<and> sorted (map ev_id es) \<and>
     distinct (map ev_id es) \<and>
     (\<forall>e\<in>set es. ev_disposition e = Eligible \<longleftrightarrow> ev_score_bps e \<noteq> None)"

lemma eligible_disposition:
  "evaluations_wf i es \<Longrightarrow> e \<in> set es \<Longrightarrow> eligible e \<longleftrightarrow> ev_disposition e = Eligible"
  by (auto simp: evaluations_wf_def eligible_def eligible_score_def)

lemma find_member: "find P xs = Some x \<Longrightarrow> x \<in> set xs \<and> P x"
  by (auto simp: find_Some_iff)

lemma incumbent_of_Some:
  "incumbent_of i es = Some inc \<Longrightarrow> inc \<in> set es \<and> ri_incumbent_candidate_id i = Some (ev_id inc)"
  by (auto simp: incumbent_of_def bind_eq_Some_conv dest: find_member)

lemma compare_incumbent_selects:
  assumes "is_best i es b" "incumbent_of i es = Some inc" "eligible inc"
  shows "\<exists>r. compare_incumbent p b inc = Inr r \<and> selects p i es (fst r) (snd r)"
proof (cases "ev_id b = ev_id inc")
  case True
  then show ?thesis using assms incumbent_best by (auto simp: compare_incumbent_def)
next
  case False
  obtain sb si where score: "eligible_score b = Some sb" "eligible_score inc = Some si"
    using assms by (auto simp: is_best_def eligible_def)
  let ?m = "ap_switch_margin_bps p"
  have "unat (bps_get si) + unat (bps_get ?m) < 2 ^ 32"
    using unat_u16_less [of "bps_get si"] unat_u16_less [of "bps_get ?m"] by simp
  then have add: "checked_add (ucast (bps_get si) :: u32) (ucast (bps_get ?m)) =
      Some (ucast (bps_get si) + ucast (bps_get ?m))"
    by (simp add: checked_add_def)
  have threshold: "(ucast (bps_get si) + ucast (bps_get ?m) :: u32) \<le> ucast (bps_get sb) \<longleftrightarrow>
      score_of inc + bps_nat ?m \<le> score_of b"
    using checked_add_Some [OF add] score by (simp add: word_le_nat_alt score_of_def bps_nat_def)
  show ?thesis
  proof (cases "score_of inc + bps_nat ?m \<le> score_of b")
    case True
    with False score add threshold have "compare_incumbent p b inc = Inr (ev_route b, ChallengerMetMargin)"
      by (simp add: compare_incumbent_def)
    with challenger [OF assms False True] show ?thesis by simp
  next
    case below: False
    with False score add threshold
    have "compare_incumbent p b inc = Inr (ev_route inc, IncumbentHeldByHysteresis)"
      by (simp add: compare_incumbent_def)
    with hysteresis [OF assms False] below show ?thesis by simp
  qed
qed

lemma canonical_legacy_candidate_Some:
  "canonical_legacy_candidate i = Some c \<Longrightarrow> c \<in> set (ri_candidates i) \<and>
     same_executable_target (ca_route c) (au_legacy_route (ri_authority i))"
  unfolding canonical_legacy_candidate_def by (auto dest: find_member)

lemma static_fallback_selects:
  assumes wf: "evaluations_wf i es" and none: "\<forall>e\<in>set es. \<not> eligible e"
    and nohold: "\<not> (ap_unknown_usage_policy p = HoldIncumbent \<and>
        (\<exists>inc reason. incumbent_of i es = Some inc \<and> unknown_usage inc reason))"
  shows "\<exists>r. static_fallback p i es = Inr r \<and> selects p i es (fst r) (snd r)"
proof (cases "ap_unknown_usage_policy p = StaticFallback \<and> canonical_legacy_candidate i \<noteq> None")
  case False
  then have "static_fallback p i es = Inr (Deferred (deferral_reason es), NoEligibleCandidate)"
    by (auto simp: static_fallback_def Let_def)
  moreover have "selects p i es (Deferred (deferral_reason es)) NoEligibleCandidate"
    using False by (intro selects.deferred none nohold) (auto simp: legacy_on_unknown_def)
  ultimately show ?thesis by simp
next
  case True
  then obtain c where c: "canonical_legacy_candidate i = Some c" by auto
  then have "c \<in> ev_candidate ` set es"
    using canonical_legacy_candidate_Some wf by (auto simp: evaluations_wf_def)
  then have "\<exists>e\<in>set es. ev_id e = candidate_id c" by (auto simp: ev_id_def candidate_id_def)
  then obtain e where e: "find (\<lambda>e. ev_id e = candidate_id c) es = Some e"
    by (cases "find (\<lambda>e. ev_id e = candidate_id c) es") (auto simp: find_None_iff)
  then have "e \<in> set es" by (blast dest: find_member)
  with none wf have "ev_disposition e \<noteq> Eligible" by (simp add: eligible_disposition)
  then obtain reason where rej: "ev_disposition e = Rejected reason" by (cases "ev_disposition e") auto
  have run: "static_fallback p i es =
      (if usage_is_unknown reason then Inr (Route (ca_route c), LegacyFallbackOnUnknownUsage)
       else Inr (Deferred (deferral_reason es), NoEligibleCandidate))"
    using True c e rej by (simp add: static_fallback_def candidate_id_def)
  show ?thesis
  proof (cases "usage_is_unknown reason")
    case unknown: True
    have "legacy_on_unknown i es c"
      using c e rej unknown by (auto simp: legacy_on_unknown_def unknown_usage_def)
    with legacy_unknown [OF none _ this] True run unknown show ?thesis by simp
  next
    case known: False
    have "selects p i es (Deferred (deferral_reason es)) NoEligibleCandidate"
      using c e rej known
      by (intro selects.deferred none nohold) (auto simp: legacy_on_unknown_def unknown_usage_def)
    with run known show ?thesis by simp
  qed
qed

theorem select_recommendation_selects:
  assumes wf: "evaluations_wf i es"
  shows "\<exists>outcome reason. select_recommendation p i es = Inr (outcome, reason) \<and>
    selects p i es outcome reason"
proof -
  have "best_of i [] None" by (simp add: best_of_def)
  then obtain best where best: "best_loop i es None = Inr best" "best_of i es best"
    using best_loop_spec [of i "[]" None es] wf by (auto simp: evaluations_wf_def)
  have inc: "Option.bind (ri_incumbent_candidate_id i) (\<lambda>c. find (\<lambda>e. ev_id e = c) es) = incumbent_of i es"
    by (simp add: incumbent_of_def)
  note run = select_recommendation_def [of p i es, unfolded best(1) and_then_simps inc Let_def]
  show ?thesis
  proof (cases best)
    case (Some b)
    then have b: "is_best i es b" using best(2) by (simp add: best_of_def)
    show ?thesis
    proof (cases "incumbent_of i es")
      case None
      with Some run best_candidate [OF b None] show ?thesis by simp
    next
      case inc: (Some inc)
      show ?thesis
      proof (cases "eligible inc")
        case True
        with compare_incumbent_selects [OF b inc True, of p] Some inc run show ?thesis
          by (auto simp: eligible_def)
      next
        case False
        then obtain reason where "ev_disposition inc = Rejected reason"
          using eligible_disposition [OF wf] incumbent_of_Some [OF inc]
          by (cases "ev_disposition inc") auto
        with incumbent_ineligible [OF b inc this] Some inc run False show ?thesis
          by (auto simp: eligible_def)
      qed
    qed
  next
    case None
    then have none: "\<forall>e\<in>set es. \<not> eligible e" using best(2) by (simp add: best_of_def)
    show ?thesis
    proof (cases "ap_unknown_usage_policy p = HoldIncumbent \<and>
        (\<exists>inc reason. incumbent_of i es = Some inc \<and> unknown_usage inc reason)")
      case True
      then obtain inc reason where hold: "incumbent_of i es = Some inc" "unknown_usage inc reason" by blast
      with hold_unknown [OF none _ hold] True None run show ?thesis by (simp add: unknown_usage_def)
    next
      case False
      then have "select_recommendation p i es = static_fallback p i es"
        unfolding run None
        by (auto simp: unknown_usage_def split: UnknownUsagePolicyV1.split option.split
            CandidateDispositionV1.split)
      with static_fallback_selects [OF wf none False] show ?thesis by simp
    qed
  qed
qed

end
