(* ===== verification/Adaptive_Decide.thy ===== *)
theory Adaptive_Decide
  imports Adaptive_Selection
begin

text \<open>
  The decision as a whole: what a successful \<open>decide_route\<close> is made of, and when it succeeds.
\<close>

section \<open>The evaluations of a request\<close>

definition evaluations_of ::
    "AdaptivePolicyV1 \<Rightarrow> RoutingInputV1 \<Rightarrow> AdaptiveRoutingError + CandidateEvaluationV1 list" where
  "evaluations_of p i =
     try_map (evaluate_candidate (policy_canonicalized p) i) (sort_key candidate_id (ri_candidates i))"

lemma decide_adaptive_alt:
  "decide_adaptive p i =
     and_then (AdaptivePolicyV1_validate p) (\<lambda>_. and_then (validate_adaptive i p) (\<lambda>_.
     and_then (evaluations_of p i) (\<lambda>es.
     and_then (select_recommendation (policy_canonicalized p) i es) (\<lambda>selection.
       Inr (adaptive_decision (policy_canonicalized p) i es selection)))))"
  by (simp add: decide_adaptive_def evaluations_of_def candidate_id_def [abs_def] Let_def)

lemma ev_id_candidate: "ev_id e = candidate_id (ev_candidate e)"
  by (simp add: ev_id_def candidate_id_def)

lemma evaluations_of_facts:
  assumes "evaluations_of p i = Inr es"
  shows "map ev_candidate es = sort_key candidate_id (ri_candidates i) \<and>
    (\<forall>e\<in>set es. evaluation_spec (policy_canonicalized p) i e)"
proof -
  have "list_all2 (\<lambda>c e. ev_candidate e = c \<and> evaluation_spec (policy_canonicalized p) i e)
      (sort_key candidate_id (ri_candidates i)) es"
    using assms unfolding evaluations_of_def try_map_Inr
    by (rule list_all2_mono) (auto dest: evaluate_candidate_spec)
  then show ?thesis
    by (induction rule: list_all2_induct) auto
qed

lemma evaluation_spec_disposition:
  "evaluation_spec p i e \<Longrightarrow> ev_disposition e = Eligible \<longleftrightarrow> ev_score_bps e \<noteq> None"
  by (auto simp: evaluation_spec_def eligible_spec_def rejected_spec_def
      split: CandidateDispositionV1.splits)

lemma evaluations_of_wf:
  assumes "evaluations_of p i = Inr es" "distinct (map candidate_id (ri_candidates i))"
  shows "evaluations_wf i es"
proof -
  note facts = evaluations_of_facts [OF assms(1)]
  have ids: "map ev_id es = map candidate_id (sort_key candidate_id (ri_candidates i))"
    using facts by (metis (no_types, lifting) map_map comp_def map_eq_conv ev_id_candidate)
  have "set (map ev_candidate es) = set (ri_candidates i)" using facts by simp
  moreover have "sorted (map ev_id es)" unfolding ids by simp
  moreover have "distinct (map ev_id es)" unfolding ids using assms(2) by (simp add: distinct_sort_key)
  ultimately show ?thesis
    using facts evaluation_spec_disposition by (auto simp: evaluations_wf_def)
qed

lemma adaptive_sound_canonicalized:
  "distinct (map reserve_pair (ap_provider_reserves p)) \<Longrightarrow>
     adaptive_sound (policy_canonicalized p) i \<longleftrightarrow> adaptive_sound p i"
  by (simp add: adaptive_sound_def candidate_reserve_def reserve_for_canonicalized)

lemma weights_total_canonicalized: "weights_total (policy_canonicalized p) = weights_total p"
  by (simp add: weights_total_def)

section \<open>A successful adaptive decision\<close>

definition adaptive_admissible :: "AdaptivePolicyV1 \<Rightarrow> RoutingInputV1 \<Rightarrow> bool" where
  "adaptive_admissible p i \<longleftrightarrow> AdaptivePolicyV1_validate p = Inr () \<and> adaptive_sound p i"

lemma decide_route_fixed:
  "au_resolved_fixed_route (ri_authority i) = Some fixed \<Longrightarrow>
     decide_route p i = Inr d \<longleftrightarrow> request_sound i \<and> d = fixed_decision i fixed"
  by (auto simp: decide_route_def result_simps validate_request_invariants_Inr)

lemma decide_route_adaptive:
  assumes "au_resolved_fixed_route (ri_authority i) = None"
  shows "decide_route p i = Inr d \<longleftrightarrow>
    request_sound i \<and> adaptive_admissible p i \<and>
    (\<exists>es selection. evaluations_of p i = Inr es \<and>
       select_recommendation (policy_canonicalized p) i es = Inr selection \<and>
       d = adaptive_decision (policy_canonicalized p) i es selection)"
  using assms
  by (auto simp: decide_route_def decide_adaptive_alt result_simps validate_request_invariants_Inr
      validate_adaptive_Inr adaptive_admissible_def)

lemma adaptive_admissible_reserves:
  "adaptive_admissible p i \<Longrightarrow> distinct (map reserve_pair (ap_provider_reserves p))"
  by (simp add: adaptive_admissible_def policy_validate_reserves)

lemma adaptive_admissible_wf:
  "adaptive_admissible p i \<Longrightarrow> evaluations_of p i = Inr es \<Longrightarrow> evaluations_wf i es"
  by (auto simp: adaptive_admissible_def adaptive_sound_def intro: evaluations_of_wf)

lemma evaluations_of_total:
  assumes "policy_typed p" "input_typed i" "adaptive_admissible p i"
  shows "\<exists>es. evaluations_of p i = Inr es"
  unfolding evaluations_of_def
proof (rule try_map_total)
  fix c
  assume "c \<in> set (sort_key candidate_id (ri_candidates i))"
  then have c: "c \<in> set (ri_candidates i)" by simp
  have "weights_total (policy_canonicalized p)"
    using assms policy_weights_total by (simp add: adaptive_admissible_def weights_total_canonicalized)
  moreover have "candidate_reserve (policy_canonicalized p) c \<noteq> None"
    using assms(3) c adaptive_admissible_reserves [OF assms(3)]
    by (simp add: adaptive_admissible_def adaptive_sound_def candidate_reserve_def reserve_for_canonicalized)
  ultimately show "\<exists>e. evaluate_candidate (policy_canonicalized p) i c = Inr e"
    using assms(2) c by (intro evaluate_candidate_total)
qed

lemma decide_route_succeeds:
  assumes "policy_typed p" "input_typed i"
  shows "is_ok (decide_route p i) \<longleftrightarrow>
    request_sound i \<and> (au_resolved_fixed_route (ri_authority i) = None \<longrightarrow> adaptive_admissible p i)"
proof (cases "au_resolved_fixed_route (ri_authority i)")
  case None
  have "\<exists>d. decide_route p i = Inr d" 
    if sound: "request_sound i" and adm: "adaptive_admissible p i"
  proof -
    obtain es where es: "evaluations_of p i = Inr es"
      using evaluations_of_total [OF assms adm] by blast
    obtain outcome reason where "select_recommendation (policy_canonicalized p) i es = Inr (outcome, reason)"
      using select_recommendation_selects adaptive_admissible_wf [OF adm es] by blast
    with es sound adm show ?thesis by (auto simp: decide_route_adaptive [OF None])
  qed
  then show ?thesis using None by (auto simp: is_ok_iff decide_route_adaptive [OF None])
next
  case (Some fixed)
  then show ?thesis by (auto simp: is_ok_iff decide_route_fixed)
qed

lemma decide_route_selects:
  assumes "au_resolved_fixed_route (ri_authority i) = None" "decide_route p i = Inr d"
  shows "evaluations_of p i = Inr (rd_candidate_evaluations d) \<and>
    evaluations_wf i (rd_candidate_evaluations d) \<and>
    (\<forall>e\<in>set (rd_candidate_evaluations d). evaluation_spec (policy_canonicalized p) i e) \<and>
    selects p i (rd_candidate_evaluations d) (rd_recommended_outcome d) (rd_switch_reason d)"
proof -
  obtain es selection where run: "adaptive_admissible p i" "evaluations_of p i = Inr es"
    "select_recommendation (policy_canonicalized p) i es = Inr selection"
    "d = adaptive_decision (policy_canonicalized p) i es selection"
    using assms by (auto simp: decide_route_adaptive)
  note wf = adaptive_admissible_wf [OF run(1,2)]
  have "selects (policy_canonicalized p) i es (fst selection) (snd selection)"
    using select_recommendation_selects [OF wf, of "policy_canonicalized p"] run(3) by auto
  then have "selects p i es (fst selection) (snd selection)"
    by (cases rule: selects.cases) (auto intro: selects.intros)
  with run wf evaluations_of_facts [OF run(2)] show ?thesis
    by (simp add: adaptive_decision_def Let_def)
qed

lemma decide_route_dispatch:
  assumes "au_resolved_fixed_route (ri_authority i) = None" "decide_route p i = Inr d"
  shows "rd_dispatch_outcome d =
    (case ap_evaluation_mode p of
       Enforce \<Rightarrow> rd_recommended_outcome d | Shadow \<Rightarrow> Route (au_legacy_route (ri_authority i)))"
  using assms by (auto simp: decide_route_adaptive adaptive_decision_def Let_def
      split: AdaptiveEvaluationModeV1.split)

text \<open>Every recommended route is the route of a candidate that meets the hard constraints.\<close>

lemma unknown_usage_qualifies:
  assumes "evaluation_spec p i e" "unknown_usage e reason"
  shows "qualifies i (ev_candidate e)"
proof -
  have "rejection_class reason \<noteq> HardConstraint"
    using assms(2) by (auto simp: unknown_usage_def usage_is_unknown_def)
  with assms show ?thesis
    by (auto simp: evaluation_spec_def unknown_usage_def rejected_spec_def)
qed

lemma eligible_qualifies:
  "evaluation_spec p i e \<Longrightarrow> eligible e \<Longrightarrow> qualifies i (ev_candidate e)"
  by (auto simp: evaluation_spec_def eligible_def eligible_score_def eligible_spec_def split: if_splits)

lemma selects_qualifies:
  assumes wf: "evaluations_wf i es" and spec: "\<forall>e\<in>set es. evaluation_spec p' i e"
    and sel: "selects p i es outcome reason" and route: "outcome = Route r"
  shows "\<exists>e\<in>set es. ca_route (ev_candidate e) = r \<and> qualifies i (ev_candidate e)"
proof -
  have chosen: "\<exists>e\<in>set es. ca_route (ev_candidate e) = r \<and> qualifies i (ev_candidate e)"
    if "e \<in> set es" "eligible e \<or> (\<exists>reason. unknown_usage e reason)" "outcome = ev_route e" for e
    using that spec route unknown_usage_qualifies [of p' i e] eligible_qualifies [of p' i e]
    by (intro bexI [of _ e]) (auto simp: ev_route_def)
  show ?thesis
    using sel
  proof cases
    case (best_candidate b)
    then show ?thesis using chosen [of b] by (simp add: is_best_def)
  next
    case (incumbent_best b inc)
    then show ?thesis using chosen [of inc] incumbent_of_Some by blast
  next
    case (challenger b inc)
    then show ?thesis using chosen [of b] by (simp add: is_best_def)
  next
    case (hysteresis b inc)
    then show ?thesis using chosen [of inc] incumbent_of_Some by blast
  next
    case (incumbent_ineligible b inc rej)
    then show ?thesis using chosen [of b] by (simp add: is_best_def)
  next
    case (hold_unknown inc rej)
    then show ?thesis using chosen [of inc] incumbent_of_Some by blast
  next
    case (legacy_unknown c)
    then obtain e rej where e: "find (\<lambda>e. ev_id e = candidate_id c) es = Some e" "unknown_usage e rej"
      and c: "canonical_legacy_candidate i = Some c" by (auto simp: legacy_on_unknown_def)
    have mem: "e \<in> set es" "ev_id e = candidate_id c" using find_member [OF e(1)] by simp_all
    have "c \<in> ev_candidate ` set es"
      using canonical_legacy_candidate_Some [OF c] wf by (auto simp: evaluations_wf_def)
    then obtain e' where e': "e' \<in> set es" "ev_candidate e' = c" by auto
    then have "ev_id e = ev_id e'" using mem(2) by (simp add: ev_id_candidate)
    moreover have "inj_on ev_id (set es)" using wf by (simp add: evaluations_wf_def distinct_map)
    ultimately have "e = e'" using mem(1) e'(1) by (blast dest: inj_onD)
    then have "outcome = ev_route e" "\<exists>reason. unknown_usage e reason"
      using legacy_unknown(1) e'(2) e(2) by (auto simp: ev_route_def)
    then show ?thesis using chosen mem(1) by blast
  next
    case deferred
    then show ?thesis using route by simp
  qed
qed

text \<open>
  The decision does not depend on the order in which candidates, snapshots and reserves are
  listed: budgets are commutative sums, every sort is by a key that identifies its element, and
  every search has at most one hit.
\<close>

section \<open>Totals of reordered lists\<close>

locale commutative_total = bounded_total +
  assumes plus_comm: "plus a b = plus b a"
begin

lemma plus_left_comm: "plus a (plus b c) = plus b (plus a c)"
  by (metis plus_assoc plus_comm)

lemma total_append: "total cost (xs @ ys) = plus (total cost xs) (total cost ys)"
  by (induction xs) (simp_all add: plus_assoc plus_comm [of zero] plus_zero)

lemma total_perm: "mset xs = mset ys \<Longrightarrow> total cost xs = total cost ys"
proof (induction xs arbitrary: ys)
  case (Cons x xs)
  then have "x \<in> set ys" by (metis list.set_intros(1) mset_eq_setD)
  then obtain us vs where ys: "ys = us @ x # vs" by (meson split_list)
  with Cons.prems have "mset xs = mset (us @ vs)" by simp
  from Cons.IH [OF this] show ?case by (simp add: ys total_append plus_left_comm)
qed simp

end

interpretation budget_sum: commutative_total rb_plus empty_budget rb_fits rb_costly
  by unfold_locales (simp add: rb_plus_def add.commute)

interpretation work_sum: commutative_total work_plus "(0, 0)" work_fits work_costly
  by unfold_locales (simp add: work_plus_def add.commute)

section \<open>Sorts and searches of reordered lists\<close>

lemma sort_key_perm:
  assumes "mset xs = mset ys" "distinct (map f xs)" "\<And>x y. k x = k y \<Longrightarrow> f x = f y"
  shows "sort_key k xs = sort_key k ys"
proof (rule sort_key_inj_key_eq)
  have "inj_on f (set xs)" using assms(2) by (simp add: distinct_map)
  then show "inj_on k (set xs)"
    by (intro inj_onI) (blast dest: inj_onD intro: assms(3))
qed (simp_all add: assms(1))

lemma distinct_map_perm: "mset xs = mset ys \<Longrightarrow> distinct (map f xs) \<longleftrightarrow> distinct (map f ys)"
  by (rule mset_eq_imp_distinct_iff) (simp add: mset_map)

lemma find_perm:
  assumes "mset xs = mset ys" "distinct (map f xs)" "\<And>x. P x \<longleftrightarrow> f x = k"
  shows "find P xs = find P ys"
proof (cases "\<exists>x\<in>set xs. f x = k")
  case True
  then obtain x where x: "x \<in> set xs" "f x = k" by blast
  have "find P xs = Some x" by (rule find_unique [OF assms(2) x(1) assms(3) x(2)])
  moreover have "find P ys = Some x"
    using assms x by (intro find_unique [of f ys x]) (auto simp: distinct_map_perm [of xs ys] dest: mset_eq_setD)
  ultimately show ?thesis by simp
next
  case False
  then have "find P xs = None" "find P ys = None"
    using assms(1,3) by (auto simp: find_None_iff dest: mset_eq_setD)
  then show ?thesis by simp
qed

section \<open>Reordered requests and policies\<close>

definition reordered :: "RoutingInputV1 \<Rightarrow> RoutingInputV1 \<Rightarrow> bool" where
  "reordered i j \<longleftrightarrow>
     mset (ri_candidates j) = mset (ri_candidates i) \<and>
     mset (ri_usage_snapshots j) = mset (ri_usage_snapshots i) \<and>
     j = i\<lparr>ri_candidates := ri_candidates j, ri_usage_snapshots := ri_usage_snapshots j\<rparr>"

definition reordered_policy :: "AdaptivePolicyV1 \<Rightarrow> AdaptivePolicyV1 \<Rightarrow> bool" where
  "reordered_policy p q \<longleftrightarrow>
     mset (ap_provider_reserves q) = mset (ap_provider_reserves p) \<and>
     q = p\<lparr>ap_provider_reserves := ap_provider_reserves q\<rparr>"

lemma reordered_fields:
  assumes "reordered i j"
  shows "ri_schema_version j = ri_schema_version i" "ri_attempt j = ri_attempt i"
    "ri_mission_id j = ri_mission_id i" "ri_phase_id j = ri_phase_id i"
    "ri_evaluated_at_utc_ms j = ri_evaluated_at_utc_ms i" "ri_authority j = ri_authority i"
    "ri_requirements j = ri_requirements i"
    "ri_incumbent_candidate_id j = ri_incumbent_candidate_id i"
    "ri_existing_session_runtime j = ri_existing_session_runtime i"
    "set (ri_candidates j) = set (ri_candidates i)"
    "set (ri_usage_snapshots j) = set (ri_usage_snapshots i)"
    "length (ri_candidates j) = length (ri_candidates i)"
    "length (ri_usage_snapshots j) = length (ri_usage_snapshots i)"
proof -
  have j: "j = i\<lparr>ri_candidates := ri_candidates j, ri_usage_snapshots := ri_usage_snapshots j\<rparr>"
    using assms by (simp add: reordered_def)
  show "ri_schema_version j = ri_schema_version i" "ri_attempt j = ri_attempt i"
    "ri_mission_id j = ri_mission_id i" "ri_phase_id j = ri_phase_id i"
    "ri_evaluated_at_utc_ms j = ri_evaluated_at_utc_ms i" "ri_authority j = ri_authority i"
    "ri_requirements j = ri_requirements i"
    "ri_incumbent_candidate_id j = ri_incumbent_candidate_id i"
    "ri_existing_session_runtime j = ri_existing_session_runtime i"
    by (subst j, simp)+
  show "set (ri_candidates j) = set (ri_candidates i)"
    "set (ri_usage_snapshots j) = set (ri_usage_snapshots i)"
    "length (ri_candidates j) = length (ri_candidates i)"
    "length (ri_usage_snapshots j) = length (ri_usage_snapshots i)"
    using assms by (auto simp: reordered_def dest: mset_eq_setD mset_eq_length)
qed

lemma request_sound_reordered:
  assumes "reordered i j"
  shows "request_sound j = request_sound i"
proof -
  have perm: "mset (ri_candidates j) = mset (ri_candidates i)"
    "mset (ri_usage_snapshots j) = mset (ri_usage_snapshots i)"
    using assms by (simp_all add: reordered_def)
  have "request_cost j = request_cost i"
    by (simp add: request_cost_def reordered_fields [OF assms] budget_sum.total_perm [OF perm(1)]
        budget_sum.total_perm [OF perm(2)])
  moreover have "work_cost j = work_cost i"
    by (simp add: work_cost_def work_sum.total_perm [OF perm(1)] work_sum.total_perm [OF perm(2)])
  ultimately show ?thesis
    by (simp add: request_sound_def collections_bounded_def reordered_fields [OF assms])
qed

lemma reordered_policy_facts:
  assumes "reordered_policy p q"
  shows "AdaptivePolicyV1_validate q = Inr () \<longleftrightarrow> AdaptivePolicyV1_validate p = Inr ()"
    "distinct (map reserve_pair (ap_provider_reserves p)) \<Longrightarrow>
       policy_canonicalized q = policy_canonicalized p"
proof -
  have perm: "mset (ap_provider_reserves q) = mset (ap_provider_reserves p)"
    and q: "q = p\<lparr>ap_provider_reserves := ap_provider_reserves q\<rparr>"
    using assms by (simp_all add: reordered_policy_def)
  have fields: "ap_policy_version q = ap_policy_version p" "ap_score_weights q = ap_score_weights p"
    by (subst q, simp)+
  show "AdaptivePolicyV1_validate q = Inr () \<longleftrightarrow> AdaptivePolicyV1_validate p = Inr ()"
    using perm by (auto simp: AdaptivePolicyV1_validate_def validate_provider_reserves_Inr result_simps fields
        distinct_map_perm [OF perm] dest: mset_eq_length)
  assume dist: "distinct (map reserve_pair (ap_provider_reserves p))"
  have "sort_key reserve_key (ap_provider_reserves p) = sort_key reserve_key (ap_provider_reserves q)"
    by (rule sort_key_perm [OF perm [symmetric] dist])
      (auto simp: reserve_key_def reserve_pair_def intro: name.expand)
  then show "policy_canonicalized q = policy_canonicalized p"
    by (subst q) (simp add: policy_canonicalized_def)
qed

section \<open>The decision on reordered requests\<close>

lemma candidate_usage_reordered:
  assumes "reordered i j" "distinct (map us_snapshot_id (ri_usage_snapshots i))"
  shows "candidate_usage p j c = candidate_usage p i c"
proof -
  have perm: "mset (ri_usage_snapshots i) = mset (ri_usage_snapshots j)"
    using assms(1) by (simp add: reordered_def)
  have "sort_evidence (filter (snapshot_matches c) (ri_usage_snapshots i)) =
      sort_evidence (filter (snapshot_matches c) (ri_usage_snapshots j))"
    unfolding sort_evidence_def
  proof (rule sort_key_perm [where f = us_snapshot_id])
    show "mset (filter (snapshot_matches c) (ri_usage_snapshots i)) =
        mset (filter (snapshot_matches c) (ri_usage_snapshots j))" using perm by simp
    show "distinct (map us_snapshot_id (filter (snapshot_matches c) (ri_usage_snapshots i)))"
      using assms(2) by (rule distinct_map_filter)
  qed (auto simp: evidence_key_def intro: name.expand)
  then show ?thesis
    by (simp add: candidate_usage_def usage_for_candidate_def Let_def reordered_fields [OF assms(1)])
qed

lemma evaluate_candidate_reordered:
  assumes "reordered i j" "distinct (map us_snapshot_id (ri_usage_snapshots i))"
  shows "evaluate_candidate p j c = evaluate_candidate p i c"
proof -
  have budget: "evaluate_budget p j c a cs gs = evaluate_budget p i c a cs gs" for a cs gs
    unfolding evaluate_budget_def reordered_fields [OF assms(1)] by (rule refl)
  note usage = candidate_usage_reordered [OF assms, of p c, unfolded candidate_usage_def
      reordered_fields [OF assms(1)]]
  show ?thesis
    unfolding evaluate_candidate_def reordered_fields [OF assms(1)] usage budget by (rule refl)
qed

lemma best_loop_cong:
  assumes "ri_existing_session_runtime j = ri_existing_session_runtime i"
  shows "best_loop j es best = best_loop i es best"
proof (induction es arbitrary: best)
  case (Cons e es)
  have runtime: "preserves_existing_runtime j x = preserves_existing_runtime i x" for x
    by (simp add: preserves_existing_runtime_def assms)
  show ?case unfolding best_loop.simps Cons.IH runtime by (rule refl)
qed simp

lemma select_recommendation_reordered:
  assumes "reordered i j" "distinct (map candidate_target (ri_candidates i))"
  shows "select_recommendation p j es = select_recommendation p i es"
proof -
  have "find (\<lambda>c. same_executable_target (ca_route c) (au_legacy_route (ri_authority i))) (ri_candidates i) =
      find (\<lambda>c. same_executable_target (ca_route c) (au_legacy_route (ri_authority i))) (ri_candidates j)"
    using assms
    by (intro find_perm [where f = candidate_target and
          k = "executable_target (au_legacy_route (ri_authority i))"])
      (auto simp: reordered_def candidate_target_def executable_target_def same_executable_target_def)
  then have legacy: "canonical_legacy_candidate j = canonical_legacy_candidate i"
    by (simp add: canonical_legacy_candidate_def reordered_fields [OF assms(1)])
  have fallback: "static_fallback p j es = static_fallback p i es"
    unfolding static_fallback_def legacy by (rule refl)
  show ?thesis
    unfolding select_recommendation_def reordered_fields [OF assms(1)] fallback
      best_loop_cong [OF reordered_fields(9) [OF assms(1)]] by (rule refl)
qed

lemma referenced_snapshots_reordered:
  assumes "reordered i j" "distinct (map us_snapshot_id (ri_usage_snapshots i))"
  shows "referenced_snapshots j es = referenced_snapshots i es"
proof -
  let ?sorted = "\<lambda>s. s\<lparr>us_windows := sort_key uw_limit_id (us_windows s)\<rparr>"
  let ?keep = "\<lambda>s. us_snapshot_id s \<in> \<Union> (set (map (\<lambda>e. set (ev_considered_snapshot_ids e)) es))"
  have perm: "mset (ri_usage_snapshots i) = mset (ri_usage_snapshots j)"
    using assms(1) by (simp add: reordered_def)
  have ids: "map us_snapshot_id (map ?sorted xs) = map us_snapshot_id xs" for xs by simp
  have "sort_key us_snapshot_id (map ?sorted (filter ?keep (ri_usage_snapshots i))) =
      sort_key us_snapshot_id (map ?sorted (filter ?keep (ri_usage_snapshots j)))"
  proof (rule sort_key_perm [where f = us_snapshot_id])
    show "mset (map ?sorted (filter ?keep (ri_usage_snapshots i))) =
        mset (map ?sorted (filter ?keep (ri_usage_snapshots j)))" using perm by simp
    show "distinct (map us_snapshot_id (map ?sorted (filter ?keep (ri_usage_snapshots i))))"
      unfolding ids using assms(2) by (rule distinct_map_filter)
  qed
  then show ?thesis by (simp add: referenced_snapshots_def Let_def)
qed

lemma adaptive_sound_reordered:
  assumes "reordered i j" "\<And>c. candidate_reserve q c = candidate_reserve p c"
  shows "adaptive_sound q j \<longleftrightarrow> adaptive_sound p i"
proof -
  have perm: "mset (ri_candidates j) = mset (ri_candidates i)"
    "mset (ri_usage_snapshots j) = mset (ri_usage_snapshots i)"
    using assms(1) by (simp_all add: reordered_def)
  show ?thesis
    using assms(2) by (simp add: adaptive_sound_def reordered_fields [OF assms(1)]
        distinct_map_perm [OF perm(1)] distinct_map_perm [OF perm(2)])
qed

lemma decide_route_reordered:
  assumes input: "reordered i j" and policy: "reordered_policy p q" and run: "decide_route p i = Inr d"
  shows "decide_route q j = Inr d"
proof (cases "au_resolved_fixed_route (ri_authority i)")
  case (Some fixed)
  then show ?thesis
    using run request_sound_reordered [OF input]
    by (simp add: decide_route_fixed reordered_fields [OF input] fixed_decision_def)
next
  case None
  then obtain es selection where ok: "request_sound i" "adaptive_admissible p i"
    "evaluations_of p i = Inr es" "select_recommendation (policy_canonicalized p) i es = Inr selection"
    "d = adaptive_decision (policy_canonicalized p) i es selection"
    using run by (auto simp: decide_route_adaptive)
  note distinct = adaptive_admissible_reserves [OF ok(2)]
  note canon = reordered_policy_facts(2) [OF policy distinct]
  have reserve: "candidate_reserve q c = candidate_reserve p c" for c
    using reserve_for_canonicalized [OF distinct] reserve_for_canonicalized [of q] canon distinct
      policy_canonicalized_distinct [of q] policy_canonicalized_distinct [of p]
    by (simp add: candidate_reserve_def)
  have sound: "adaptive_sound p i" using ok(2) by (simp add: adaptive_admissible_def)
  have ids: "distinct (map us_snapshot_id (ri_usage_snapshots i))"
    "distinct (map candidate_id (ri_candidates i))" "distinct (map candidate_target (ri_candidates i))"
    using sound by (simp_all add: adaptive_sound_def)
  have "sort_key candidate_id (ri_candidates i) = sort_key candidate_id (ri_candidates j)"
    using input ids(2) by (intro sort_key_perm [where f = candidate_id]) (auto simp: reordered_def)
  then have "evaluations_of q j = Inr es"
    using ok(3)
    unfolding evaluations_of_def canon ext [OF evaluate_candidate_reordered [OF input ids(1)]] by simp
  moreover have "adaptive_admissible q j"
    using ok(2) adaptive_sound_reordered [OF input reserve] reordered_policy_facts(1) [OF policy]
    by (simp add: adaptive_admissible_def)
  moreover have "select_recommendation (policy_canonicalized q) j es = Inr selection"
    using ok(4) select_recommendation_reordered [OF input ids(3)] canon by simp
  moreover have "adaptive_decision (policy_canonicalized q) j es selection = d"
    unfolding ok(5) adaptive_decision_def reordered_fields [OF input] canon
      referenced_snapshots_reordered [OF input ids(1)] by (rule refl)
  moreover have "request_sound j" using ok(1) request_sound_reordered [OF input] by simp
  moreover have none: "au_resolved_fixed_route (ri_authority j) = None"
    using None by (simp add: reordered_fields [OF input])
  ultimately show ?thesis unfolding decide_route_adaptive [OF none] by blast
qed

end
