(* ===== verification/Adaptive_Replay.thy ===== *)
theory Adaptive_Replay
  imports Adaptive_Decision
begin

text \<open>
  Replay of routing decisions (\<^verbatim>\<open>orchestrator-core/src/adaptive_routing.rs\<close>): the shape every
  recorded decision must have, the replay record with its constructor and its deserialisation,
  and \<open>replay_route\<close>, which recomputes the decision and compares.
\<close>

section \<open>The shape of a recorded decision\<close>

definition shape_error :: "string \<Rightarrow> string \<Rightarrow> AdaptiveRoutingError" where
  "shape_error field reason = InvalidInvariant (''routing_decision.'' @ field) reason"

definition shape_budget :: "RoutingDecisionV1 \<Rightarrow> AdaptiveRoutingError + RoutingBudget" where
  "shape_budget d =
     and_then (add_text empty_budget (as_str (rd_mission_id d))) (\<lambda>b.
     and_then (add_text b (as_str (rd_phase_id d))) (\<lambda>b.
     and_then (add_elements b (int (length (rq_required_capabilities (rd_requirements d))))) (\<lambda>b.
     and_then (try_fold (\<lambda>b c. add_text b (as_str c)) b (rq_required_capabilities (rd_requirements d))) (\<lambda>b.
     and_then (case rd_incumbent_candidate_id d of Some c \<Rightarrow> add_text b (as_str c) | None \<Rightarrow> Inr b) (\<lambda>b.
     and_then (case rd_existing_session_runtime d of Some r \<Rightarrow> add_text b (as_str r) | None \<Rightarrow> Inr b) (\<lambda>b.
       case rd_legacy_route d of Some r \<Rightarrow> account_route_budget b r | None \<Rightarrow> Inr b))))))"

text \<open>The loop over the referenced snapshots: its budget, the previous identifier, those seen.\<close>

fun shape_snapshots ::
    "UsageSnapshotV1 list \<Rightarrow> RoutingBudget \<Rightarrow> SnapshotIdV1 option \<Rightarrow> SnapshotIdV1 set
      \<Rightarrow> AdaptiveRoutingError + RoutingBudget \<times> SnapshotIdV1 set" where
  "shape_snapshots [] b previous ids = Inr (b, ids)"
| "shape_snapshots (s # ss) b previous ids =
     and_then (UsageSnapshotV1_validate s) (\<lambda>_.
     and_then (reject_if (\<not> sorted_wrt (\<lambda>u v. as_str u < as_str v) (map uw_limit_id (us_windows s)))
       (shape_error ''referenced_snapshots.windows''
          ''referenced snapshot windows must be sorted by limit identifier'')) (\<lambda>_.
     and_then (reject_if (case previous of Some q \<Rightarrow> us_snapshot_id s \<le> q | None \<Rightarrow> False)
       (shape_error ''referenced_snapshots''
          ''referenced snapshots must be uniquely sorted by identifier'')) (\<lambda>_.
       if us_snapshot_id s \<in> ids then Inl DuplicateSnapshot
       else and_then (account_snapshot_budget b s) (\<lambda>b.
              shape_snapshots ss b (Some (us_snapshot_id s)) (insert (us_snapshot_id s) ids)))))"

text \<open>The inner loop over the considered identifiers of one evaluation.\<close>

fun shape_considered ::
    "UsageSnapshotV1 list \<Rightarrow> SnapshotIdV1 list \<Rightarrow> int \<times> int \<Rightarrow> SnapshotIdV1 set
      \<Rightarrow> AdaptiveRoutingError + (int \<times> int) \<times> SnapshotIdV1 set" where
  "shape_considered referenced [] counts seen = Inr (counts, seen)"
| "shape_considered referenced (q # qs) counts seen =
     and_then (ok_or (usize_checked_add (fst counts) 1)
       (InvalidInvariant ''adaptive_routing.considered_snapshot_references''
          ''considered snapshot-reference count overflowed'')) (\<lambda>refs.
     and_then (reject_if (MAX_TOTAL_CONSIDERED_SNAPSHOT_REFERENCES < refs)
       (InvalidInvariant ''adaptive_routing.considered_snapshot_references''
          ''too many considered snapshot references'')) (\<lambda>_.
     and_then (ok_or (find (\<lambda>s. us_snapshot_id s = q) referenced)
       (shape_error ''referenced_snapshots'' ''considered snapshot evidence is missing'')) (\<lambda>s.
     and_then (ok_or (usize_checked_add (snd counts) (int (length (us_windows s))))
       (InvalidInvariant ''adaptive_routing.usage_window_evaluations''
          ''usage evaluation work count overflowed'')) (\<lambda>evaluations.
     and_then (reject_if (MAX_USAGE_WINDOW_EVALUATIONS < evaluations)
       (InvalidInvariant ''adaptive_routing.usage_window_evaluations''
          ''too much aggregate usage evaluation work'')) (\<lambda>_.
       shape_considered referenced qs (refs, evaluations) (insert q seen))))))"

definition eligible_shape :: "CandidateEvaluationV1 \<Rightarrow> bool" where
  "eligible_shape e \<longleftrightarrow>
     ev_score_bps e \<noteq> None \<and> ev_score_components e \<noteq> None \<and> ev_governing_snapshot_ids e \<noteq> [] \<and>
     ev_usage_reason_code e = None \<and> ev_reported_remaining_bps e \<noteq> None \<and>
     ev_applied_reserve_bps e \<noteq> None \<and> ev_usable_headroom_bps e \<noteq> None"

definition shape_disposition :: "CandidateEvaluationV1 \<Rightarrow> AdaptiveRoutingError + unit" where
  "shape_disposition e =
     (case ev_disposition e of
        Eligible \<Rightarrow>
          reject_if (\<not> eligible_shape e)
            (shape_error ''candidate_evaluations'' ''eligible evaluation is missing audit components'')
      | Rejected reason \<Rightarrow>
          reject_if (ev_score_bps e \<noteq> None \<or> ev_score_components e \<noteq> None
              \<or> ev_usable_headroom_bps e \<noteq> None
              \<or> (reason = UnhealthyUsage) \<noteq> (ev_usage_reason_code e \<noteq> None)
              \<or> (reason = ConflictingUsageSnapshots \<and> length (ev_governing_snapshot_ids e) < 2))
            (shape_error ''candidate_evaluations''
               ''rejected evaluation has an invalid score, headroom, or reason code''))"

record shape_state =
  sh_budget :: RoutingBudget
  sh_previous :: "CandidateIdV1 option"
  sh_candidate_ids :: "CandidateIdV1 set"
  sh_considered :: "SnapshotIdV1 set"
  sh_counts :: "int \<times> int"

definition shape_evaluation ::
    "UsageSnapshotV1 list \<Rightarrow> shape_state \<Rightarrow> CandidateEvaluationV1 \<Rightarrow> AdaptiveRoutingError + shape_state" where
  "shape_evaluation referenced st e =
     and_then (RouteTargetV1_validate (ca_route (ev_candidate e))) (\<lambda>_.
     and_then (reject_if (MAX_CAPABILITIES < length (ca_capabilities (ev_candidate e)))
       (shape_error ''candidate.capabilities'' ''too many candidate capabilities'')) (\<lambda>_.
     and_then (reject_if (case sh_previous st of Some q \<Rightarrow> ev_id e \<le> q | None \<Rightarrow> False)
       (shape_error ''candidate_evaluations''
          ''candidate evaluations must be uniquely sorted by identifier'')) (\<lambda>_.
     and_then (reject_if (ev_id e \<in> sh_candidate_ids st) DuplicateCandidate) (\<lambda>_.
     and_then (account_candidate_budget (sh_budget st) (ev_candidate e)) (\<lambda>b.
     and_then (reject_if (\<not> set (ev_governing_snapshot_ids e) \<subseteq> set (ev_considered_snapshot_ids e))
       (shape_error ''candidate_evaluations''
          ''governing snapshots must be a subset of considered snapshots'')) (\<lambda>_.
     and_then (shape_considered referenced (ev_considered_snapshot_ids e) (sh_counts st) (sh_considered st))
       (\<lambda>(counts, considered).
     and_then (shape_disposition e) (\<lambda>_.
       Inr \<lparr>sh_budget = b, sh_previous = Some (ev_id e),
            sh_candidate_ids = insert (ev_id e) (sh_candidate_ids st), sh_considered = considered,
            sh_counts = counts\<rparr>))))))))"

definition shape_fixed ::
    "RoutingDecisionV1 \<Rightarrow> FixedAuthorityProvenanceV1 btree_set \<Rightarrow> AdaptiveRoutingError + unit" where
  "shape_fixed d provenances =
     and_then (reject_if (rd_decision_mode d \<noteq> ModeFixed)
       (shape_error ''decision_mode'' ''fixed authority requires fixed decision mode'')) (\<lambda>_.
     and_then (reject_if (rd_applied_policy d \<noteq> None)
       (shape_error ''applied_policy'' ''fixed decision cannot claim an applied adaptive policy'')) (\<lambda>_.
     and_then (reject_if (rd_legacy_route d \<noteq> None)
       (shape_error ''legacy_route'' ''fixed decision cannot claim an unused legacy route'')) (\<lambda>_.
     and_then (reject_if (provenances = [] \<or> MAX_FIXED_PROVENANCES < length provenances)
       (shape_error ''applied_authority.provenances'' ''fixed authority provenance count is invalid'')) (\<lambda>_.
     and_then (reject_if (rd_candidate_evaluations d \<noteq> [] \<or> rd_referenced_snapshots d \<noteq> [])
       (shape_error ''applied_authority'' ''fixed decision cannot contain adaptive evaluations'')) (\<lambda>_.
     and_then (reject_if (outcome_route (rd_recommended_outcome d) = None
           \<or> outcome_route (rd_dispatch_outcome d) = None)
       (shape_error ''fixed_outcome'' ''fixed authority must contain executable route outcomes'')) (\<lambda>_.
     reject_if (rd_switch_reason d \<noteq> FixedAuthority)
       (shape_error ''switch_reason''
          ''fixed authority requires the fixed-authority switch reason'')))))))"

definition shape_typed_reason ::
    "RoutingDecisionV1 \<Rightarrow> CandidateRejectionV1 \<Rightarrow> bool \<Rightarrow> AdaptiveRoutingError + unit" where
  "shape_typed_reason d rejection held =
     and_then (ok_or (rd_incumbent_candidate_id d)
       (shape_error ''switch_reason'' ''typed incumbent reason requires an incumbent'')) (\<lambda>incumbent.
     and_then (ok_or (find (\<lambda>e. ev_id e = incumbent) (rd_candidate_evaluations d))
       (shape_error ''switch_reason'' ''typed incumbent reason has no incumbent evaluation'')) (\<lambda>e.
     and_then (reject_if (ev_disposition e \<noteq> Rejected rejection)
       (shape_error ''switch_reason'' ''typed incumbent reason does not match its evaluation'')) (\<lambda>_.
     reject_if (held \<and> (\<not> usage_is_unknown rejection
           \<or> map_option rt_candidate_id (outcome_route (rd_recommended_outcome d)) \<noteq> Some incumbent))
       (shape_error ''switch_reason''
          ''incumbent hold requires unknown usage and the incumbent route''))))"

definition shape_switch_reason :: "RoutingDecisionV1 \<Rightarrow> AdaptiveRoutingError + unit" where
  "shape_switch_reason d =
     (case rd_switch_reason d of
        FixedAuthority \<Rightarrow>
          Inl (shape_error ''switch_reason'' ''adaptive authority cannot claim a fixed switch reason'')
      | BestCandidate \<Rightarrow>
          reject_if (rd_incumbent_candidate_id d \<noteq> None)
            (shape_error ''switch_reason'' ''best-candidate reason requires no incumbent'')
      | IncumbentIneligible rejection \<Rightarrow> shape_typed_reason d rejection False
      | IncumbentHeldOnUnknownUsage rejection \<Rightarrow> shape_typed_reason d rejection True
      | LegacyFallbackOnUnknownUsage \<Rightarrow> Inr ()
      | NoEligibleCandidate \<Rightarrow> Inr ()
      | _ \<Rightarrow>
          reject_if (rd_incumbent_candidate_id d = None)
            (shape_error ''switch_reason'' ''incumbent comparison reason requires an incumbent''))"

definition shape_adaptive ::
    "RoutingDecisionV1 \<Rightarrow> CandidateIdV1 set \<Rightarrow> AdaptiveRoutingError + unit" where
  "shape_adaptive d candidate_ids =
     and_then (ok_or (rd_applied_policy d)
       (shape_error ''applied_policy'' ''adaptive decision must retain the canonical applied policy'')) (\<lambda>p.
     and_then (reject_if (rd_legacy_route d = None)
       (shape_error ''legacy_route'' ''adaptive decision must retain the exact legacy route'')) (\<lambda>_.
     and_then (AdaptivePolicyV1_validate p) (\<lambda>_.
     and_then (reject_if (ap_provider_reserves p \<noteq> ap_provider_reserves (policy_canonicalized p))
       (shape_error ''applied_policy.provider_reserves''
          ''applied provider reserves must be canonically sorted'')) (\<lambda>_.
     and_then (reject_if (rd_decision_mode d \<noteq> ModeAdaptive (ap_evaluation_mode p))
       (shape_error ''decision_mode'' ''adaptive decision mode does not match the applied policy'')) (\<lambda>_.
     and_then (reject_if (case rd_incumbent_candidate_id d of
           Some incumbent \<Rightarrow> incumbent \<notin> candidate_ids | None \<Rightarrow> False)
       (shape_error ''incumbent_candidate_id''
          ''incumbent has no corresponding candidate evaluation'')) (\<lambda>_.
     shape_switch_reason d))))))"

definition validate_replay_shape :: "RoutingDecisionV1 \<Rightarrow> AdaptiveRoutingError + unit" where
  "validate_replay_shape d =
     and_then (validate_schema ''routing decision'' (rd_schema_version d)) (\<lambda>_.
     and_then (reject_if (rd_attempt d = 0) (shape_error ''attempt'' ''attempt is one-based'')) (\<lambda>_.
     and_then (reject_if (MAX_CANDIDATES < length (rd_candidate_evaluations d))
       (shape_error ''candidate_evaluations'' ''too many candidate evaluations'')) (\<lambda>_.
     and_then (reject_if (MAX_USAGE_SNAPSHOTS < length (rd_referenced_snapshots d))
       (shape_error ''referenced_snapshots'' ''too many referenced snapshots'')) (\<lambda>_.
     and_then (reject_if (MAX_CAPABILITIES < length (rq_required_capabilities (rd_requirements d)))
       (shape_error ''requirements.required_capabilities'' ''too many required capabilities'')) (\<lambda>_.
     and_then (case rd_legacy_route d of Some r \<Rightarrow> RouteTargetV1_validate r | None \<Rightarrow> Inr ()) (\<lambda>_.
     and_then (RouteOutcomeV1_validate (rd_recommended_outcome d)) (\<lambda>_.
     and_then (RouteOutcomeV1_validate (rd_dispatch_outcome d)) (\<lambda>_.
     and_then (reject_if
         (continuation_for (rd_existing_session_runtime d) (rd_dispatch_outcome d) \<noteq> rd_continuation d)
       (shape_error ''continuation''
          ''continuation does not match its recorded input and dispatch outcome'')) (\<lambda>_.
     and_then (shape_budget d) (\<lambda>b.
     and_then (shape_snapshots (rd_referenced_snapshots d) b None {}) (\<lambda>(b, referenced_ids).
     and_then (try_fold (shape_evaluation (rd_referenced_snapshots d))
         \<lparr>sh_budget = b, sh_previous = None, sh_candidate_ids = {}, sh_considered = {},
          sh_counts = (0, 0)\<rparr> (rd_candidate_evaluations d)) (\<lambda>st.
     and_then (reject_if (sh_considered st \<noteq> referenced_ids)
       (shape_error ''referenced_snapshots''
          ''referenced snapshots do not match considered candidate evidence'')) (\<lambda>_.
       case rd_applied_authority d of
         AuthorityFixed provenances \<Rightarrow> shape_fixed d provenances
       | AuthorityAdaptive \<Rightarrow> shape_adaptive d (sh_candidate_ids st))))))))))))))"

section \<open>Replay records\<close>

record RoutingReplayRecordV1 =
  rr_schema_version :: u32
  rr_policy :: AdaptivePolicyV1
  rr_input :: RoutingInputV1
  rr_expected_decision :: RoutingDecisionV1

definition recompute_and_validate ::
    "RoutingReplayRecordV1 \<Rightarrow> AdaptiveRoutingError + RoutingDecisionV1" where
  "recompute_and_validate r =
     and_then (validate_schema ''routing replay'' (rr_schema_version r)) (\<lambda>_.
     and_then (validate_provider_reserves (rr_policy r)) (\<lambda>_.
     and_then (reject_if (ap_provider_reserves (rr_policy r)
           \<noteq> ap_provider_reserves (policy_canonicalized (rr_policy r)))
       (InvalidInvariant ''routing_replay.policy.provider_reserves''
          ''source provider reserves must be canonically sorted'')) (\<lambda>_.
     and_then (validate_replay_shape (rr_expected_decision r)) (\<lambda>_.
     and_then (decide_route (rr_policy r) (rr_input r)) (\<lambda>decision.
       if decision \<noteq> rr_expected_decision r then Inl ReplayMismatch else Inr decision)))))"

definition RoutingReplayRecordV1_new ::
    "AdaptivePolicyV1 \<Rightarrow> RoutingInputV1 \<Rightarrow> RoutingDecisionV1 \<Rightarrow> AdaptiveRoutingError + RoutingReplayRecordV1"
  where
  "RoutingReplayRecordV1_new p i expected =
     and_then (validate_provider_reserves p) (\<lambda>_.
       let r = \<lparr>rr_schema_version = ADAPTIVE_ROUTING_SCHEMA_V1, rr_policy = policy_canonicalized p,
                rr_input = i, rr_expected_decision = expected\<rparr>
       in and_then (recompute_and_validate r) (\<lambda>_. Inr r))"

text \<open>
  Deserialisation checks the wire record again before it recomputes; its error is serde's, here
  the error it wraps.
\<close>

definition RoutingReplayRecordV1_deserialize ::
    "RoutingReplayRecordV1 \<Rightarrow> AdaptiveRoutingError + RoutingReplayRecordV1" where
  "RoutingReplayRecordV1_deserialize wire =
     and_then (validate_schema ''routing replay'' (rr_schema_version wire)) (\<lambda>_.
     and_then (validate_provider_reserves (rr_policy wire)) (\<lambda>_.
     and_then (reject_if (ap_provider_reserves (rr_policy wire)
           \<noteq> ap_provider_reserves (policy_canonicalized (rr_policy wire)))
       (InvalidInvariant ''routing_replay.policy.provider_reserves''
          ''source provider reserves must be canonically sorted'')) (\<lambda>_.
     and_then (recompute_and_validate wire) (\<lambda>_. Inr wire))))"

definition replay_route :: "RoutingReplayRecordV1 \<Rightarrow> AdaptiveRoutingError + RoutingDecisionV1" where
  "replay_route r = recompute_and_validate r"

end
