(* ===== verification/Adaptive_Shape.thy ===== *)
theory Adaptive_Shape
  imports Adaptive_Decide Adaptive_Replay
begin

text \<open>
  When the loops of \<open>validate_replay_shape\<close> accept: the evidence and the evaluations of a decision,
  the budget they use, and the audit fields of one evaluation.
\<close>

section \<open>Totals of parts\<close>

context commutative_total
begin

definition within :: "'a \<Rightarrow> 'a \<Rightarrow> bool" where
  "within a b \<longleftrightarrow> (\<exists>c. costly c \<and> b = plus a c)"

lemma within_refl: "within a a"
  unfolding within_def using zero_costly by (metis plus_zero)

lemma within_fits: "within a b \<Longrightarrow> fits b \<Longrightarrow> fits a"
  by (auto simp: within_def dest: fits_prefix)

lemma within_zero: "costly a \<Longrightarrow> within zero a"
  unfolding within_def by (metis plus_comm plus_zero)

lemma within_plus: "within a b \<Longrightarrow> within c d \<Longrightarrow> within (plus a c) (plus b d)"
  unfolding within_def using plus_costly by (metis plus_assoc plus_comm)

lemma within_plus_left: "within a b \<Longrightarrow> within (plus c a) (plus c b)"
  by (rule within_plus [OF within_refl])

lemma within_total: "(\<And>x. x \<in> set xs \<Longrightarrow> within (f x) (g x)) \<Longrightarrow> within (total f xs) (total g xs)"
  by (induction xs) (simp_all add: within_refl within_plus)

lemma total_filter: "total (\<lambda>x. if P x then f x else zero) xs = total f (filter P xs)"
proof -
  have "plus zero a = a" for a by (metis plus_comm plus_zero)
  then show ?thesis by (induction xs) simp_all
qed

lemma total_map: "total f (map g xs) = total (\<lambda>x. f (g x)) xs"
  by (induction xs) simp_all

lemma total_cong: "(\<And>x. x \<in> set xs \<Longrightarrow> f x = g x) \<Longrightarrow> total f xs = total g xs"
  by (induction xs) simp_all

lemma within_total_filter:
  assumes "\<And>x. costly (f x)"
  shows "within (total f (filter P xs)) (total f xs)"
proof -
  have "within (total (\<lambda>x. if P x then f x else zero) xs) (total f xs)"
    by (rule within_total) (simp add: within_refl within_zero assms)
  then show ?thesis by (simp add: total_filter)
qed

end

section \<open>Referenced snapshots\<close>

definition sort_windows :: "UsageSnapshotV1 \<Rightarrow> UsageSnapshotV1" where
  "sort_windows s = s\<lparr>us_windows := sort_key uw_limit_id (us_windows s)\<rparr>"

lemma sort_windows_fields [simp]:
  "us_snapshot_id (sort_windows s) = us_snapshot_id s"
  "us_provider (sort_windows s) = us_provider s"
  "us_usage_account_id (sort_windows s) = us_usage_account_id s"
  "us_source (sort_windows s) = us_source s" "us_health (sort_windows s) = us_health s"
  "us_schema_version (sort_windows s) = us_schema_version s"
  "us_reason_code (sort_windows s) = us_reason_code s"
  "us_confidence_bps (sort_windows s) = us_confidence_bps s"
  "us_observed_at_utc_ms (sort_windows s) = us_observed_at_utc_ms s"
  "us_received_at_utc_ms (sort_windows s) = us_received_at_utc_ms s"
  "us_windows (sort_windows s) = sort_key uw_limit_id (us_windows s)"
  "length (us_windows (sort_windows s)) = length (us_windows s)"
  by (simp_all add: sort_windows_def)

lemma validate_windows_Inr:
  "validate_windows t ws seen = Inr u \<longleftrightarrow>
     (\<forall>w\<in>set ws. UsageWindowV1_validate w t = Inr ()) \<and> distinct (map uw_limit_id ws) \<and>
     set (map uw_limit_id ws) \<inter> seen = {}"
proof (induction ws arbitrary: seen)
  case (Cons w ws)
  then show ?case by (cases "uw_limit_id w \<in> seen") (auto simp: result_simps)
qed simp

lemma sort_key_empty: "sort_key k xs = [] \<longleftrightarrow> xs = []"
  by (metis length_0_conv length_sort)

lemma sort_windows_validate:
  "UsageSnapshotV1_validate (sort_windows s) = Inr () \<longleftrightarrow> UsageSnapshotV1_validate s = Inr ()"
  unfolding UsageSnapshotV1_validate_def
  by (simp add: result_simps validate_windows_Inr sort_key_empty distinct_sort_key del: set_map
      cong: UsageHealthV1.case_cong)

lemma sort_windows_cost: "snapshot_cost (sort_windows s) = snapshot_cost s"
proof -
  have "budget.total window_cost (sort_key uw_limit_id (us_windows s)) = budget.total window_cost (us_windows s)"
    by (rule budget_sum.total_perm) simp
  then show ?thesis by (simp add: snapshot_cost_def)
qed

lemma sort_windows_strict:
  assumes "distinct (map uw_limit_id (us_windows s))"
  shows "sorted_wrt (\<lambda>u v. as_str u < as_str v) (map uw_limit_id (us_windows (sort_windows s)))"
proof -
  have "sorted (map uw_limit_id (us_windows (sort_windows s)))"
    "distinct (map uw_limit_id (us_windows (sort_windows s)))"
    using assms by (simp_all add: distinct_sort_key)
  then have "sorted_wrt (<) (map uw_limit_id (us_windows (sort_windows s)))"
    by (simp add: strict_sorted_iff)
  then show ?thesis by (simp add: less_name_def sorted_wrt_map)
qed

text \<open>A snapshot as a recorded decision may carry it.\<close>

definition snapshot_recorded :: "UsageSnapshotV1 \<Rightarrow> bool" where
  "snapshot_recorded s \<longleftrightarrow> UsageSnapshotV1_validate s = Inr () \<and>
     sorted_wrt (\<lambda>u v. as_str u < as_str v) (map uw_limit_id (us_windows s))"

lemma shape_snapshots_ok:
  assumes "\<forall>s\<in>set ss. snapshot_recorded s" "sorted_wrt (<) (map us_snapshot_id ss)"
    and "\<forall>q. previous = Some q \<longrightarrow> (\<forall>s\<in>set ss. q < us_snapshot_id s)"
    and "set (map us_snapshot_id ss) \<inter> ids = {}"
    and "rb_fits b" "rb_fits (rb_plus b (budget.total snapshot_cost ss))"
  shows "shape_snapshots ss b previous ids =
    Inr (rb_plus b (budget.total snapshot_cost ss), set (map us_snapshot_id ss) \<union> ids)"
  using assms
proof (induction ss arbitrary: b previous ids)
  case Nil
  then show ?case by (simp add: budget.plus_zero)
next
  case (Cons s ss)
  have whole: "rb_fits (rb_plus (rb_plus b (snapshot_cost s)) (budget.total snapshot_cost ss))"
    using Cons.prems(6) by (simp add: budget.plus_assoc)
  have costly: "rb_costly (budget.total snapshot_cost ss)"
    using snapshot_metered by (intro budget.total_costly) (simp add: budget.metered_def)
  have head: "rb_fits (rb_plus b (snapshot_cost s))" by (rule budget.fits_prefix [OF costly whole])
  have account: "account_snapshot_budget b s = Inr (rb_plus b (snapshot_cost s))"
    using budget.metered_Inr [OF snapshot_metered Cons.prems(5)] head by simp
  have prev: "\<not> (case previous of Some q \<Rightarrow> us_snapshot_id s \<le> q | None \<Rightarrow> False)"
    using Cons.prems(3) by (auto simp: not_le split: option.split)
  have fresh: "us_snapshot_id s \<notin> ids" using Cons.prems(4) by auto
  have "shape_snapshots ss (rb_plus b (snapshot_cost s)) (Some (us_snapshot_id s)) (insert (us_snapshot_id s) ids) =
      Inr (rb_plus (rb_plus b (snapshot_cost s)) (budget.total snapshot_cost ss),
        set (map us_snapshot_id ss) \<union> insert (us_snapshot_id s) ids)"
  proof (rule Cons.IH [OF _ _ _ _ head whole])
    show "set (map us_snapshot_id ss) \<inter> insert (us_snapshot_id s) ids = {}"
      using Cons.prems(2,4) by fastforce
  qed (use Cons.prems(1,2) in auto)
  then show ?case
    using Cons.prems(1) prev fresh
    by (simp add: snapshot_recorded_def reject_if_def account budget.plus_assoc)
qed

section \<open>Considered evidence\<close>

definition ref_windows :: "UsageSnapshotV1 list \<Rightarrow> SnapshotIdV1 \<Rightarrow> int" where
  "ref_windows referenced q =
     (case find (\<lambda>s. us_snapshot_id s = q) referenced of Some s \<Rightarrow> int (length (us_windows s)) | None \<Rightarrow> 0)"

definition considered_cost :: "UsageSnapshotV1 list \<Rightarrow> SnapshotIdV1 \<Rightarrow> int \<times> int" where
  "considered_cost referenced q = (1, ref_windows referenced q)"

lemma considered_costly: "work_costly (considered_cost referenced q)"
  by (auto simp: work_costly_def considered_cost_def ref_windows_def split: option.split)

lemma shape_considered_ok:
  assumes "set qs \<subseteq> us_snapshot_id ` set referenced"
    and "work_fits (work_plus counts (work.total (considered_cost referenced) qs))"
  shows "shape_considered referenced qs counts seen =
    Inr (work_plus counts (work.total (considered_cost referenced) qs), set qs \<union> seen)"
  using assms
proof (induction qs arbitrary: counts seen)
  case Nil
  then show ?case by (simp add: work.plus_zero)
next
  case (Cons q qs)
  let ?next = "work_plus counts (considered_cost referenced q)"
  have whole: "work_fits (work_plus ?next (work.total (considered_cost referenced) qs))"
    using Cons.prems(2) by (simp add: work.plus_assoc)
  then have fits: "work_fits ?next"
    by (rule work.fits_prefix [OF work.total_costly, rotated]) (rule considered_costly)
  obtain s where s: "find (\<lambda>s. us_snapshot_id s = q) referenced = Some s"
    using Cons.prems(1) by (cases "find (\<lambda>s. us_snapshot_id s = q) referenced") (auto simp: find_None_iff)
  have "?next = (fst counts + 1, snd counts + int (length (us_windows s)))"
    using s by (simp add: work_plus_def considered_cost_def ref_windows_def)
  with fits have bounds: "fst counts + 1 \<le> 8192" "snd counts + int (length (us_windows s)) \<le> 32768"
    and next_eq: "(fst counts + 1, snd counts + int (length (us_windows s))) = ?next"
    by (simp_all add: work_fits_def)
  have "shape_considered referenced (q # qs) counts seen =
      shape_considered referenced qs ?next (insert q seen)"
    using s bounds by (simp add: usize_checked_add_def reject_if_def next_eq
        MAX_TOTAL_CONSIDERED_SNAPSHOT_REFERENCES_def MAX_USAGE_WINDOW_EVALUATIONS_def)
  also have "\<dots> = Inr (work_plus ?next (work.total (considered_cost referenced) qs), set qs \<union> insert q seen)"
    using Cons.prems(1) by (intro Cons.IH whole) simp
  finally show ?case by (simp add: work.plus_assoc)
qed

section \<open>Evaluations\<close>

definition evaluation_recorded :: "UsageSnapshotV1 list \<Rightarrow> CandidateEvaluationV1 \<Rightarrow> bool" where
  "evaluation_recorded referenced e \<longleftrightarrow>
     RouteTargetV1_validate (ca_route (ev_candidate e)) = Inr () \<and>
     length (ca_capabilities (ev_candidate e)) \<le> 64 \<and>
     set (ev_governing_snapshot_ids e) \<subseteq> set (ev_considered_snapshot_ids e) \<and>
     set (ev_considered_snapshot_ids e) \<subseteq> us_snapshot_id ` set referenced \<and>
     shape_disposition e = Inr ()"

definition evaluation_work_cost :: "UsageSnapshotV1 list \<Rightarrow> CandidateEvaluationV1 \<Rightarrow> int \<times> int" where
  "evaluation_work_cost referenced e =
     work.total (considered_cost referenced) (ev_considered_snapshot_ids e)"

lemma shape_evaluation_ok:
  assumes "evaluation_recorded referenced e"
    and "\<forall>q. sh_previous st = Some q \<longrightarrow> q < ev_id e" "ev_id e \<notin> sh_candidate_ids st"
    and "rb_fits (sh_budget st)" "rb_fits (rb_plus (sh_budget st) (candidate_cost (ev_candidate e)))"
    and "work_fits (work_plus (sh_counts st) (evaluation_work_cost referenced e))"
  shows "shape_evaluation referenced st e =
    Inr \<lparr>sh_budget = rb_plus (sh_budget st) (candidate_cost (ev_candidate e)),
         sh_previous = Some (ev_id e), sh_candidate_ids = insert (ev_id e) (sh_candidate_ids st),
         sh_considered = set (ev_considered_snapshot_ids e) \<union> sh_considered st,
         sh_counts = work_plus (sh_counts st) (evaluation_work_cost referenced e)\<rparr>"
proof -
  have account: "account_candidate_budget (sh_budget st) (ev_candidate e) =
      Inr (rb_plus (sh_budget st) (candidate_cost (ev_candidate e)))"
    using budget.metered_Inr [OF candidate_metered assms(4)] assms(5) by simp
  have prev: "\<not> (case sh_previous st of Some q \<Rightarrow> ev_id e \<le> q | None \<Rightarrow> False)"
    using assms(2) by (auto simp: not_le split: option.split)
  have considered: "shape_considered referenced (ev_considered_snapshot_ids e) (sh_counts st) (sh_considered st) =
      Inr (work_plus (sh_counts st) (evaluation_work_cost referenced e),
        set (ev_considered_snapshot_ids e) \<union> sh_considered st)"
    using assms(1,6) unfolding evaluation_work_cost_def evaluation_recorded_def
    by (intro shape_considered_ok) simp_all
  show ?thesis
    using assms(1,3) prev
    by (simp add: shape_evaluation_def evaluation_recorded_def account considered reject_if_def
        MAX_CAPABILITIES_def not_less)
qed

lemma shape_evaluations_ok:
  assumes "\<forall>e\<in>set es. evaluation_recorded referenced e" "sorted_wrt (<) (map ev_id es)"
    and "\<forall>q. sh_previous st = Some q \<longrightarrow> (\<forall>e\<in>set es. q < ev_id e)"
    and "set (map ev_id es) \<inter> sh_candidate_ids st = {}"
    and "rb_fits (sh_budget st)"
      "rb_fits (rb_plus (sh_budget st) (budget.total (\<lambda>e. candidate_cost (ev_candidate e)) es))"
    and "work_fits (work_plus (sh_counts st) (work.total (evaluation_work_cost referenced) es))"
  shows "\<exists>st'. try_fold (shape_evaluation referenced) st es = Inr st' \<and>
    sh_candidate_ids st' = set (map ev_id es) \<union> sh_candidate_ids st \<and>
    sh_considered st' = (\<Union>e\<in>set es. set (ev_considered_snapshot_ids e)) \<union> sh_considered st"
  using assms
proof (induction es arbitrary: st)
  case (Cons e es)
  let ?b = "rb_plus (sh_budget st) (candidate_cost (ev_candidate e))"
  let ?n = "work_plus (sh_counts st) (evaluation_work_cost referenced e)"
  have budget: "rb_fits (rb_plus ?b (budget.total (\<lambda>e. candidate_cost (ev_candidate e)) es))"
    using Cons.prems(6) by (simp add: budget.plus_assoc)
  have work: "work_fits (work_plus ?n (work.total (evaluation_work_cost referenced) es))"
    using Cons.prems(7) by (simp add: work.plus_assoc)
  have b: "rb_fits ?b"
    by (rule budget.fits_prefix [OF budget.total_costly budget])
      (use candidate_metered in \<open>simp add: budget.metered_def\<close>)
  have n: "work_fits ?n"
    by (rule work.fits_prefix [OF work.total_costly work])
      (simp add: evaluation_work_cost_def work.total_costly considered_costly)
  let ?st = "\<lparr>sh_budget = ?b, sh_previous = Some (ev_id e),
      sh_candidate_ids = insert (ev_id e) (sh_candidate_ids st),
      sh_considered = set (ev_considered_snapshot_ids e) \<union> sh_considered st, sh_counts = ?n\<rparr>"
  have step: "shape_evaluation referenced st e = Inr ?st"
    using Cons.prems by (intro shape_evaluation_ok b n) auto
  have "\<exists>st'. try_fold (shape_evaluation referenced) ?st es = Inr st' \<and>
      sh_candidate_ids st' = set (map ev_id es) \<union> sh_candidate_ids ?st \<and>
      sh_considered st' = (\<Union>e\<in>set es. set (ev_considered_snapshot_ids e)) \<union> sh_considered ?st"
  proof (rule Cons.IH)
    show "set (map ev_id es) \<inter> sh_candidate_ids ?st = {}"
      using Cons.prems(2,4) by fastforce
    show "rb_fits (sh_budget ?st)" using b by simp
    show "rb_fits (rb_plus (sh_budget ?st) (budget.total (\<lambda>e. candidate_cost (ev_candidate e)) es))"
      using budget by simp
    show "work_fits (work_plus (sh_counts ?st) (work.total (evaluation_work_cost referenced) es))"
      using work by simp
  qed (use Cons.prems(1,2) in auto)
  then show ?case using step by auto
qed simp

text \<open>
  Every decision the kernel makes passes its own replay validation and replays to itself: the
  recorded evidence fits the budgets of the request, and the audit fields are consistent.
\<close>

section \<open>Audit fields of one evaluation\<close>

text \<open>What an assessment can report, and the reason code behind an unhealthy one.\<close>

lemma snapshot_assessment_Inl:
  assumes "snapshot_typed s" "snapshot_sound s" "snapshot_assessment s model t age = Inl reason"
  shows "reason \<in> {UsageClockSkew, StaleUsageSnapshot, UnhealthyUsage, NoApplicableWindow, ResetElapsed} \<and>
    (reason = UnhealthyUsage \<longrightarrow> us_reason_code s \<noteq> None)"
proof -
  have "assess_nat s model (unat (utc_get t)) (unat (dur_get age)) = Unusable reason"
    using snapshot_assessment_nat [OF assms(1,2), of model t age] assms(3) by (simp add: verdict_of_def)
  then have "reason \<in> {UsageClockSkew, StaleUsageSnapshot, UnhealthyUsage, NoApplicableWindow, ResetElapsed} \<and>
      (reason = UnhealthyUsage \<longrightarrow> us_health s \<noteq> Healthy)"
    by (auto simp: assess_nat_def Let_def split: if_splits)
  with assms(2) show ?thesis by (simp add: snapshot_sound_def)
qed

definition evidence_of :: "RoutingInputV1 \<Rightarrow> AdaptiveCandidateV1 \<Rightarrow> SnapshotIdV1 set" where
  "evidence_of i c = us_snapshot_id ` {s \<in> set (ri_usage_snapshots i). snapshot_matches c s}"

definition audit_ok :: "RoutingInputV1 \<Rightarrow> CandidateEvaluationV1 \<Rightarrow> bool" where
  "audit_ok i e \<longleftrightarrow>
     set (ev_governing_snapshot_ids e) \<subseteq> set (ev_considered_snapshot_ids e) \<and>
     bts_wf (ev_considered_snapshot_ids e) \<and>
     (ev_considered_snapshot_ids e = [] \<or> set (ev_considered_snapshot_ids e) = evidence_of i (ev_candidate e)) \<and>
     shape_disposition e = Inr ()"

definition snapshots_valid :: "RoutingInputV1 \<Rightarrow> bool" where
  "snapshots_valid i \<longleftrightarrow> distinct (map us_snapshot_id (ri_usage_snapshots i)) \<and>
     (\<forall>s\<in>set (ri_usage_snapshots i). snapshot_typed s \<and> snapshot_sound s)"

lemma eligible_audit:
  assumes "eligible_spec p i e" "ev_disposition e = Eligible"
  shows "audit_ok i e"
proof -
  from assms(1) obtain a where "candidate_usage p i (ev_candidate e) =
      ProbeUsable a (ev_considered_snapshot_ids e) (ev_governing_snapshot_ids e)"
    by (auto simp: eligible_spec_def)
  from usage_for_candidate_usable [OF this [unfolded candidate_usage_def]]
  have usage: "set (ev_governing_snapshot_ids e) \<subseteq> set (ev_considered_snapshot_ids e)"
    "bts_wf (ev_considered_snapshot_ids e)"
    "set (ev_considered_snapshot_ids e) = evidence_of i (ev_candidate e)"
    "ev_governing_snapshot_ids e \<noteq> []"
    unfolding evidence_of_def by auto
  have "shape_disposition e = Inr ()"
    using assms usage(4) by (auto simp: shape_disposition_def eligible_shape_def eligible_spec_def reject_if_def)
  with usage show ?thesis by (simp add: audit_ok_def)
qed

lemma unhealthy_iff_code:
  assumes "rejection_sound (\<lambda>s. snapshot_assessment s model t age) snapshots reason governing code"
    and "\<forall>s\<in>snapshots. snapshot_typed s \<and> snapshot_sound s"
  shows "(reason = UnhealthyUsage \<longleftrightarrow> code \<noteq> None) \<and>
    (reason = ConflictingUsageSnapshots \<longrightarrow> 2 \<le> length governing)"
  using assms(1) unfolding rejection_sound_def
proof (elim conjE disjE bexE)
  fix s
  assume "s \<in> snapshots" "snapshot_assessment s model t age = Inl reason"
    "code = (if reason = UnhealthyUsage then us_reason_code s else None)"
  with snapshot_assessment_Inl [of s model t age reason] assms(2) show ?thesis by auto
qed simp_all

lemma other_class_codes:
  "rejection_class r = HardConstraint \<or> rejection_class r = CapacityUnavailable \<Longrightarrow>
     r \<noteq> UnhealthyUsage \<and> r \<noteq> ConflictingUsageSnapshots"
  by (cases r) auto

lemma rejected_audit:
  assumes spec: "rejected_spec p i e reason" and disp: "ev_disposition e = Rejected reason"
    and valid: "snapshots_valid i"
  shows "audit_ok i e"
proof -
  have none: "ev_score_bps e = None" "ev_score_components e = None" "ev_usable_headroom_bps e = None"
    using spec by (simp_all add: rejected_spec_def)
  have shape: "shape_disposition e = Inr ()"
    if "reason = UnhealthyUsage \<longleftrightarrow> ev_usage_reason_code e \<noteq> None"
      "reason = ConflictingUsageSnapshots \<longrightarrow> 2 \<le> length (ev_governing_snapshot_ids e)"
    using that none disp by (auto simp: shape_disposition_def reject_if_def)
  from spec show ?thesis
    unfolding rejected_spec_def
  proof (elim conjE disjE exE)
    assume hard: "rejection_class reason = HardConstraint" "ev_considered_snapshot_ids e = []"
      "ev_governing_snapshot_ids e = []" "ev_usage_reason_code e = None"
    then have "shape_disposition e = Inr ()" using other_class_codes [of reason] by (intro shape) auto
    with hard show ?thesis by (simp add: audit_ok_def bts_wf_def)
  next
    assume "candidate_usage p i (ev_candidate e) = ProbeRejected reason (ev_considered_snapshot_ids e)
        (ev_governing_snapshot_ids e) (ev_usage_reason_code e)"
    then have usage: "set (ev_considered_snapshot_ids e) = evidence_of i (ev_candidate e)"
      "bts_wf (ev_considered_snapshot_ids e)"
      "rejection_sound (\<lambda>s. snapshot_assessment s (rt_model (ca_route (ev_candidate e)))
          (ri_evaluated_at_utc_ms i) (ap_maximum_snapshot_age_ms p))
        {s \<in> set (ri_usage_snapshots i). snapshot_matches (ev_candidate e) s} reason
        (ev_governing_snapshot_ids e) (ev_usage_reason_code e)"
      using usage_for_candidate_rejected valid
      unfolding candidate_usage_def snapshots_valid_def evidence_of_def by blast+
    have "set (ev_governing_snapshot_ids e) \<subseteq> evidence_of i (ev_candidate e)"
      using usage(3) by (simp add: rejection_sound_def evidence_of_def)
    moreover have "shape_disposition e = Inr ()"
      using unhealthy_iff_code [OF usage(3)] valid by (intro shape) (auto simp: snapshots_valid_def)
    ultimately show ?thesis using usage(1,2) by (simp add: audit_ok_def)
  next
    fix a
    assume capacity: "rejection_class reason = CapacityUnavailable" "ev_usage_reason_code e = None"
      and usage: "candidate_usage p i (ev_candidate e) =
        ProbeUsable a (ev_considered_snapshot_ids e) (ev_governing_snapshot_ids e)"
    have "shape_disposition e = Inr ()" using capacity other_class_codes [of reason] by (intro shape) auto
    with usage_for_candidate_usable [OF usage [unfolded candidate_usage_def]] show ?thesis
      unfolding audit_ok_def evidence_of_def by blast
  qed
qed

lemma evaluation_audit:
  "evaluation_spec p i e \<Longrightarrow> snapshots_valid i \<Longrightarrow> audit_ok i e"
  using eligible_audit rejected_audit
  by (auto simp: evaluation_spec_def split: CandidateDispositionV1.splits)

section \<open>The recorded evidence\<close>

lemma referenced_snapshots_alt:
  "referenced_snapshots i es =
     sort_key us_snapshot_id (map sort_windows
       (filter (\<lambda>s. \<exists>e\<in>set es. us_snapshot_id s \<in> set (ev_considered_snapshot_ids e)) (ri_usage_snapshots i)))"
  by (simp add: referenced_snapshots_def Let_def sort_windows_def [abs_def])

lemma referenced_snapshots_distinct:
  assumes "distinct (map us_snapshot_id (ri_usage_snapshots i))"
  shows "distinct (map us_snapshot_id (referenced_snapshots i es))"
proof -
  have "us_snapshot_id \<circ> sort_windows = us_snapshot_id" by (simp add: fun_eq_iff)
  then show ?thesis
    unfolding referenced_snapshots_alt distinct_sort_key map_map by (simp add: assms distinct_map_filter)
qed

lemma referenced_snapshots_recorded:
  assumes "adaptive_sound p i"
  shows "\<forall>s\<in>set (referenced_snapshots i es). snapshot_recorded s"
    "sorted_wrt (<) (map us_snapshot_id (referenced_snapshots i es))"
    "length (referenced_snapshots i es) \<le> length (ri_usage_snapshots i)"
proof -
  have "snapshot_recorded (sort_windows s)" if "s \<in> set (ri_usage_snapshots i)" for s
  proof -
    have "UsageSnapshotV1_validate s = Inr ()" using assms that by (simp add: adaptive_sound_def)
    then show ?thesis
      using UsageSnapshotV1_validate_sound sort_windows_strict
      by (simp add: snapshot_recorded_def sort_windows_validate snapshot_sound_def)
  qed
  then show "\<forall>s\<in>set (referenced_snapshots i es). snapshot_recorded s"
    by (auto simp: referenced_snapshots_alt)
  have "distinct (map us_snapshot_id (referenced_snapshots i es))"
    using assms by (intro referenced_snapshots_distinct) (simp add: adaptive_sound_def)
  then show "sorted_wrt (<) (map us_snapshot_id (referenced_snapshots i es))"
    by (simp add: strict_sorted_iff) (simp add: referenced_snapshots_alt)
  show "length (referenced_snapshots i es) \<le> length (ri_usage_snapshots i)"
    by (simp add: referenced_snapshots_alt)
qed

lemma referenced_snapshots_ids:
  assumes "\<forall>e\<in>set es. audit_ok i e"
  shows "us_snapshot_id ` set (referenced_snapshots i es) = (\<Union>e\<in>set es. set (ev_considered_snapshot_ids e))"
proof -
  have "set (ev_considered_snapshot_ids e) \<subseteq> us_snapshot_id ` set (ri_usage_snapshots i)" if "e \<in> set es" for e
    using assms that by (fastforce simp: audit_ok_def evidence_of_def)
  then show ?thesis by (fastforce simp: referenced_snapshots_alt image_iff)
qed

lemma referenced_snapshots_cost:
  "budget_sum.within (budget.total snapshot_cost (referenced_snapshots i es))
     (budget.total snapshot_cost (ri_usage_snapshots i))"
proof -
  let ?kept = "filter (\<lambda>s. \<exists>e\<in>set es. us_snapshot_id s \<in> set (ev_considered_snapshot_ids e)) (ri_usage_snapshots i)"
  have "budget.total snapshot_cost (referenced_snapshots i es) = budget.total snapshot_cost (map sort_windows ?kept)"
    unfolding referenced_snapshots_alt by (rule budget_sum.total_perm) simp
  also have "\<dots> = budget.total snapshot_cost ?kept"
    by (simp add: budget_sum.total_map sort_windows_cost)
  finally show ?thesis
    using budget_sum.within_total_filter [of snapshot_cost] snapshot_metered
    by (simp add: budget.metered_def)
qed

lemma ref_windows_referenced:
  assumes "s \<in> set (ri_usage_snapshots i)" "snapshots_valid i"
    and "\<exists>e\<in>set es. us_snapshot_id s \<in> set (ev_considered_snapshot_ids e)"
  shows "ref_windows (referenced_snapshots i es) (us_snapshot_id s) = int (length (us_windows s))"
proof -
  have mem: "sort_windows s \<in> set (referenced_snapshots i es)"
    using assms(1,3) by (auto simp: referenced_snapshots_alt)
  have "distinct (map us_snapshot_id (referenced_snapshots i es))"
    using assms(2) by (intro referenced_snapshots_distinct) (simp add: snapshots_valid_def)
  then have "find (\<lambda>x. us_snapshot_id x = us_snapshot_id s) (referenced_snapshots i es) = Some (sort_windows s)"
    by (rule find_unique [OF _ mem]) simp_all
  then show ?thesis by (simp add: ref_windows_def)
qed

text \<open>The work of replaying one evaluation is at most the work of making it.\<close>

lemma evaluation_work_within:
  assumes "audit_ok i e" "snapshots_valid i" "e \<in> set es"
  shows "work_sum.within (evaluation_work_cost (referenced_snapshots i es) e)
    (work.total (pair_cost (ev_candidate e)) (ri_usage_snapshots i))"
proof (cases "ev_considered_snapshot_ids e = []")
  case True
  have "work_costly (work.total (pair_cost (ev_candidate e)) (ri_usage_snapshots i))"
    by (rule work.total_costly) (simp add: pair_cost_def work_costly_def)
  then show ?thesis using True by (simp add: evaluation_work_cost_def work_sum.within_zero)
next
  case False
  let ?match = "filter (snapshot_matches (ev_candidate e)) (ri_usage_snapshots i)"
  let ?refs = "referenced_snapshots i es"
  have considered: "set (ev_considered_snapshot_ids e) = set (map us_snapshot_id ?match)"
    "distinct (ev_considered_snapshot_ids e)"
    using assms(1) False by (auto simp: audit_ok_def evidence_of_def bts_wf_def strict_sorted_iff)
  have "distinct (map us_snapshot_id ?match)"
    using assms(2) by (simp add: snapshots_valid_def distinct_map_filter)
  with considered have "mset (ev_considered_snapshot_ids e) = mset (map us_snapshot_id ?match)"
    by (intro iffD1 [OF set_eq_iff_mset_eq_distinct])
  then have "evaluation_work_cost ?refs e = work.total (considered_cost ?refs) (map us_snapshot_id ?match)"
    unfolding evaluation_work_cost_def by (rule work_sum.total_perm)
  also have "\<dots> = work.total (\<lambda>s. (1, int (length (us_windows s)))) ?match"
    unfolding work_sum.total_map
  proof (rule work_sum.total_cong)
    fix s
    assume s: "s \<in> set ?match"
    then have "us_snapshot_id s \<in> set (ev_considered_snapshot_ids e)" using considered(1) by auto
    with s assms show "considered_cost ?refs (us_snapshot_id s) = (1, int (length (us_windows s)))"
      unfolding considered_cost_def by (subst ref_windows_referenced) auto
  qed
  also have "\<dots> = work.total (pair_cost (ev_candidate e)) (ri_usage_snapshots i)"
    unfolding pair_cost_def [abs_def] by (rule work_sum.total_filter [symmetric])
  finally show ?thesis by (simp add: work_sum.within_refl)
qed

lemma evaluations_work_within:
  assumes "\<forall>e\<in>set es. audit_ok i e" "snapshots_valid i" "mset (map ev_candidate es) = mset (ri_candidates i)"
  shows "work_sum.within (work.total (evaluation_work_cost (referenced_snapshots i es)) es) (work_cost i)"
proof -
  have "work_sum.within (work.total (evaluation_work_cost (referenced_snapshots i es)) es)
      (work.total (\<lambda>e. work.total (pair_cost (ev_candidate e)) (ri_usage_snapshots i)) es)"
    using assms(1,2) by (intro work_sum.within_total evaluation_work_within) auto
  also have "work.total (\<lambda>e. work.total (pair_cost (ev_candidate e)) (ri_usage_snapshots i)) es =
      work.total (\<lambda>c. work.total (pair_cost c) (ri_usage_snapshots i)) (map ev_candidate es)"
    by (simp add: work_sum.total_map)
  also have "\<dots> = work_cost i"
    unfolding work_cost_def by (rule work_sum.total_perm [OF assms(3)])
  finally show ?thesis .
qed

end
