(* ===== verification/Adaptive_Replay_Roundtrip.thy ===== *)
theory Adaptive_Replay_Roundtrip
  imports Adaptive_Shape
begin

text \<open>
  The round trip: the shape of a decision is valid, the replay record of a decision can be built,
  and replaying it gives the decision back.
\<close>

section \<open>The budget of a recorded decision\<close>

definition shape_cost :: "RoutingDecisionV1 \<Rightarrow> RoutingBudget" where
  "shape_cost d =
     rb_plus (name_cost (rd_mission_id d)) (rb_plus (name_cost (rd_phase_id d))
    (rb_plus (elements_cost (int (length (rq_required_capabilities (rd_requirements d)))))
    (rb_plus (budget.total name_cost (rq_required_capabilities (rd_requirements d)))
    (rb_plus (option_cost name_cost (rd_incumbent_candidate_id d))
    (rb_plus (option_cost name_cost (rd_existing_session_runtime d))
       (option_cost route_cost (rd_legacy_route d)))))))"

lemma shape_budget_Inr: "shape_budget d = Inr b \<longleftrightarrow> b = shape_cost d \<and> rb_fits b"
proof -
  have "budget.metered (\<lambda>b. and_then (add_text b (as_str (rd_mission_id d))) (\<lambda>b.
     and_then (add_text b (as_str (rd_phase_id d))) (\<lambda>b.
     and_then (add_elements b (int (length (rq_required_capabilities (rd_requirements d))))) (\<lambda>b.
     and_then (try_fold (\<lambda>b c. add_text b (as_str c)) b (rq_required_capabilities (rd_requirements d))) (\<lambda>b.
     and_then (case rd_incumbent_candidate_id d of Some c \<Rightarrow> add_text b (as_str c) | None \<Rightarrow> Inr b) (\<lambda>b.
     and_then (case rd_existing_session_runtime d of Some r \<Rightarrow> add_text b (as_str r) | None \<Rightarrow> Inr b) (\<lambda>b.
       case rd_legacy_route d of Some r \<Rightarrow> account_route_budget b r | None \<Rightarrow> Inr b)))))))
    (shape_cost d)"
    unfolding shape_cost_def option_cost_def name_cost_def
    by (intro budget.metered_seq budget.metered_option budget.metered_fold route_metered
        metered_primitives) simp_all
  from budget.metered_Inr [OF this, of empty_budget b]
  show ?thesis unfolding shape_budget_def by (simp add: empty_budget_fits rb_plus_empty)
qed

lemma costs_costly:
  "rb_costly (route_cost r)" "rb_costly (name_cost n)" "rb_costly (candidate_cost c)"
  "rb_costly (snapshot_cost s)" "0 \<le> k \<Longrightarrow> rb_costly (elements_cost k)"
  using route_metered [of r] candidate_metered [of c] snapshot_metered [of s]
    metered_primitives(2) [of "as_str n"]
  by (simp_all add: budget.metered_def name_cost_def elements_cost_def rb_costly_def empty_budget_def)

lemma option_costly: "(\<And>x. rb_costly (cost x)) \<Longrightarrow> rb_costly (option_cost cost m)"
  by (cases m) (simp_all add: option_cost_def budget.zero_costly)

lemma rb_plus_left_comm: "rb_plus a (rb_plus b c) = rb_plus b (rb_plus a c)"
  by (rule budget_sum.plus_left_comm)

lemma rb_plus_comm: "rb_plus a b = rb_plus b a"
  by (rule budget_sum.plus_comm)

text \<open>The parts a decision takes over from its request cost at most the request.\<close>

lemma decision_cost_within:
  assumes fields: "rd_mission_id d = ri_mission_id i" "rd_phase_id d = ri_phase_id i"
      "rd_requirements d = ri_requirements i"
      "rd_incumbent_candidate_id d = ri_incumbent_candidate_id i"
      "rd_existing_session_runtime d = ri_existing_session_runtime i"
    and legacy: "rd_legacy_route d = None \<or> rd_legacy_route d = Some (au_legacy_route (ri_authority i))"
    and snapshots: "budget_sum.within S (budget.total snapshot_cost (ri_usage_snapshots i))"
    and candidates: "budget_sum.within C (budget.total candidate_cost (ri_candidates i))"
  shows "budget_sum.within (rb_plus (rb_plus (shape_cost d) S) C) (request_cost i)"
proof -
  let ?F = "option_cost (\<lambda>f. rb_plus (elements_cost (int (length (fr_provenances f))))
                (route_cost (fr_route f))) (au_resolved_fixed_route (ri_authority i))"
  have F: "budget_sum.within empty_budget ?F"
    by (intro budget_sum.within_zero option_costly budget.plus_costly costs_costly) simp
  have L: "budget_sum.within (option_cost route_cost (rd_legacy_route d))
      (route_cost (au_legacy_route (ri_authority i)))"
    using legacy budget_sum.within_zero [OF costs_costly(1)]
    by (auto simp: option_cost_def budget_sum.within_refl)
  have "rb_plus (rb_plus (shape_cost d) S) C =
     rb_plus (name_cost (ri_mission_id i)) (rb_plus (name_cost (ri_phase_id i))
    (rb_plus (elements_cost (int (length (rq_required_capabilities (ri_requirements i)))))
    (rb_plus (budget.total name_cost (rq_required_capabilities (ri_requirements i)))
    (rb_plus (option_cost route_cost (rd_legacy_route d))
    (rb_plus empty_budget
    (rb_plus (option_cost name_cost (ri_incumbent_candidate_id i))
    (rb_plus (option_cost name_cost (ri_existing_session_runtime i))
    (rb_plus C S))))))))"
    unfolding shape_cost_def fields rb_plus_empty budget.plus_assoc
    by (simp add: rb_plus_comm rb_plus_left_comm)
  then show ?thesis
    unfolding request_cost_def
    by (simp only:) (intro budget_sum.within_plus budget_sum.within_refl L F snapshots candidates)
qed

section \<open>The shape of a decision\<close>

lemma fixed_decision_shape:
  assumes sound: "request_sound i" and fixed: "au_resolved_fixed_route (ri_authority i) = Some f"
  shows "validate_replay_shape (fixed_decision i f) = Inr ()"
proof -
  let ?d = "fixed_decision i f"
  have route: "RouteTargetV1_validate (fr_route f) = Inr ()"
    and provenances: "fr_provenances f \<noteq> []" "length (fr_provenances f) \<le> 6"
    using sound fixed
    by (auto simp: request_sound_def FixedRouteV1_validate_def result_simps MAX_FIXED_PROVENANCES_def
        split: if_splits)
  have "budget_sum.within (rb_plus (rb_plus (shape_cost ?d) empty_budget) empty_budget) (request_cost i)"
    by (rule decision_cost_within)
      (simp_all add: fixed_decision_def Let_def budget_sum.within_zero budget.total_costly costs_costly)
  then have "rb_fits (rb_plus (rb_plus (shape_cost ?d) empty_budget) empty_budget)"
    using budget_sum.within_fits sound by (simp add: request_sound_def)
  then have "rb_fits (shape_cost ?d)" by (simp add: budget.plus_zero)
  then have budget: "shape_budget ?d = Inr (shape_cost ?d)" by (simp add: shape_budget_Inr)
  show ?thesis
    using sound route provenances
    unfolding validate_replay_shape_def budget and_then_simps
    by (simp add: fixed_decision_def Let_def shape_fixed_def reject_if_def
        validate_schema_def ADAPTIVE_ROUTING_SCHEMA_V1_def request_sound_def collections_bounded_def
        MAX_CAPABILITIES_def MAX_FIXED_PROVENANCES_def)
qed

lemma incumbent_of_configured:
  assumes "evaluations_wf i es" "ri_incumbent_candidate_id i = Some c"
    and "c \<in> set (map candidate_id (ri_candidates i))"
  shows "\<exists>e. incumbent_of i es = Some e"
proof -
  have "c \<in> ev_id ` set es"
    using assms by (auto simp: evaluations_wf_def ev_id_candidate [abs_def] image_image [symmetric])
  then show ?thesis
    using assms(2) by (cases "find (\<lambda>e. ev_id e = c) es") (auto simp: incumbent_of_def find_None_iff)
qed

lemma switch_reason_shape:
  assumes sel: "selects p i es (rd_recommended_outcome d) (rd_switch_reason d)"
    and wf: "evaluations_wf i es" and sound: "adaptive_sound p' i"
    and fields: "rd_incumbent_candidate_id d = ri_incumbent_candidate_id i"
      "rd_candidate_evaluations d = es"
  shows "shape_switch_reason d = Inr ()"
proof -
  have inc: "ri_incumbent_candidate_id i = None" if "incumbent_of i es = None"
    using that incumbent_of_configured [OF wf] sound
    by (cases "ri_incumbent_candidate_id i") (auto simp: adaptive_sound_def)
  have some: "ri_incumbent_candidate_id i = Some (ev_id e)"
    "find (\<lambda>x. ev_id x = ev_id e) es = Some e" if "incumbent_of i es = Some e" for e
    using incumbent_of_Some [OF that] that by (auto simp: incumbent_of_def)
  from sel show ?thesis
  proof cases
    case (incumbent_ineligible b e reason)
    then show ?thesis using some [of e] fields
      by (simp add: shape_switch_reason_def shape_typed_reason_def reject_if_def)
  next
    case (hold_unknown e reason)
    then show ?thesis using some [of e] fields
      by (simp add: shape_switch_reason_def shape_typed_reason_def reject_if_def unknown_usage_def
          ev_route_def ev_id_def)
  qed (use inc some fields in \<open>auto simp: shape_switch_reason_def reject_if_def\<close>)
qed

lemma policy_canonicalized_idem:
  "policy_canonicalized (policy_canonicalized p) = policy_canonicalized p"
  by (simp add: policy_canonicalized_def sort_key_id_if_sorted)

text \<open>The loops over the evidence and the evaluations of an adaptive decision succeed.\<close>

definition shape_start :: "RoutingBudget \<Rightarrow> shape_state" where
  "shape_start b =
     \<lparr>sh_budget = b, sh_previous = None, sh_candidate_ids = {}, sh_considered = {}, sh_counts = (0, 0)\<rparr>"

lemma adaptive_loops_ok:
  assumes sound: "request_sound i" "adaptive_sound p i" "input_typed i"
    and es: "mset (map ev_candidate es) = mset (ri_candidates i)" "evaluations_wf i es"
      "\<forall>e\<in>set es. evaluation_spec p' i e"
    and fields: "rd_mission_id d = ri_mission_id i" "rd_phase_id d = ri_phase_id i"
      "rd_requirements d = ri_requirements i"
      "rd_incumbent_candidate_id d = ri_incumbent_candidate_id i"
      "rd_existing_session_runtime d = ri_existing_session_runtime i"
      "rd_legacy_route d = Some (au_legacy_route (ri_authority i))"
  shows "\<exists>b b' st. shape_budget d = Inr b \<and>
    shape_snapshots (referenced_snapshots i es) b None {} =
      Inr (b', us_snapshot_id ` set (referenced_snapshots i es)) \<and>
    try_fold (shape_evaluation (referenced_snapshots i es)) (shape_start b') es = Inr st \<and>
    sh_candidate_ids st = ev_id ` set es \<and>
    sh_considered st = us_snapshot_id ` set (referenced_snapshots i es)"
proof -
  let ?refs = "referenced_snapshots i es"
  let ?S = "budget.total snapshot_cost ?refs"
  let ?C = "budget.total (\<lambda>e. candidate_cost (ev_candidate e)) es"
  have valid: "snapshots_valid i"
    using sound(2,3) UsageSnapshotV1_validate_sound
    by (auto simp: snapshots_valid_def adaptive_sound_def input_typed_def list_all_iff)
  have audit: "\<forall>e\<in>set es. audit_ok i e" using es(3) valid evaluation_audit by blast
  have ids: "us_snapshot_id ` set ?refs = (\<Union>e\<in>set es. set (ev_considered_snapshot_ids e))"
    by (rule referenced_snapshots_ids [OF audit])
  have "?C = budget.total candidate_cost (map ev_candidate es)"
    by (simp add: budget_sum.total_map)
  also have "\<dots> = budget.total candidate_cost (ri_candidates i)"
    by (rule budget_sum.total_perm [OF es(1)])
  finally have C: "budget_sum.within ?C (budget.total candidate_cost (ri_candidates i))"
    by (simp add: budget_sum.within_refl)
  have "budget_sum.within (rb_plus (rb_plus (shape_cost d) ?S) ?C) (request_cost i)"
    by (intro decision_cost_within fields disjI2 referenced_snapshots_cost C)
  then have whole: "rb_fits (rb_plus (rb_plus (shape_cost d) ?S) ?C)"
    using budget_sum.within_fits sound(1) by (simp add: request_sound_def)
  have base: "rb_fits (rb_plus (shape_cost d) ?S)"
    by (rule budget.fits_prefix [OF budget.total_costly whole]) (rule costs_costly)
  have start: "rb_fits (shape_cost d)"
    by (rule budget.fits_prefix [OF budget.total_costly base]) (rule costs_costly)
  have budget: "shape_budget d = Inr (shape_cost d)" using start by (simp add: shape_budget_Inr)
  have snaps: "shape_snapshots ?refs (shape_cost d) None {} =
      Inr (rb_plus (shape_cost d) ?S, us_snapshot_id ` set ?refs)"
    using shape_snapshots_ok [OF referenced_snapshots_recorded(1,2) [OF sound(2)] _ _ start base, of None "{}"]
    by simp
  have work: "work_fits (work.total (evaluation_work_cost ?refs) es)"
    using work_sum.within_fits [OF evaluations_work_within [OF audit valid es(1)]] sound(1)
    by (simp add: request_sound_def)
  have recorded: "\<forall>e\<in>set es. evaluation_recorded ?refs e"
  proof
    fix e
    assume e: "e \<in> set es"
    then have "ev_candidate e \<in> set (ri_candidates i)" using es(2) by (auto simp: evaluations_wf_def)
    then show "evaluation_recorded ?refs e"
      using sound(1,2) audit e ids
      by (auto simp: evaluation_recorded_def adaptive_sound_def request_sound_def collections_bounded_def
          audit_ok_def)
  qed
  have "sorted_wrt (<) (map ev_id es)" using es(2) by (simp add: evaluations_wf_def strict_sorted_iff)
  then have "\<exists>st. try_fold (shape_evaluation ?refs) (shape_start (rb_plus (shape_cost d) ?S)) es = Inr st \<and>
      sh_candidate_ids st = set (map ev_id es) \<union> sh_candidate_ids (shape_start (rb_plus (shape_cost d) ?S)) \<and>
      sh_considered st = (\<Union>e\<in>set es. set (ev_considered_snapshot_ids e)) \<union>
        sh_considered (shape_start (rb_plus (shape_cost d) ?S))"
    using recorded base whole work
    by (intro shape_evaluations_ok) (simp_all add: shape_start_def work_plus_def)
  then show ?thesis using budget snaps ids by (auto simp: shape_start_def)
qed

lemma outcome_route_valid:
  assumes "selects p i es outcome reason" "evaluations_wf i es" "\<forall>e\<in>set es. evaluation_spec p' i e"
    and "adaptive_sound q i"
  shows "RouteOutcomeV1_validate outcome = Inr ()"
proof (cases outcome)
  case (Route r)
  then obtain e where "e \<in> set es" "ca_route (ev_candidate e) = r"
    using selects_qualifies [OF assms(2,3,1)] by blast
  then show ?thesis using Route assms(2,4) by (auto simp: adaptive_sound_def evaluations_wf_def)
qed simp

lemma adaptive_decision_shape:
  assumes none: "au_resolved_fixed_route (ri_authority i) = None"
    and run: "decide_route p i = Inr d" and typed: "input_typed i"
  shows "validate_replay_shape d = Inr ()"
proof -
  obtain es selection where ok: "request_sound i" "adaptive_admissible p i" "evaluations_of p i = Inr es"
    and d: "d = adaptive_decision (policy_canonicalized p) i es selection"
    using run by (auto simp: decide_route_adaptive [OF none])
  have fields: "rd_schema_version d = 1" "rd_attempt d = ri_attempt i" "rd_mission_id d = ri_mission_id i"
    "rd_phase_id d = ri_phase_id i" "rd_requirements d = ri_requirements i"
    "rd_incumbent_candidate_id d = ri_incumbent_candidate_id i"
    "rd_existing_session_runtime d = ri_existing_session_runtime i"
    "rd_legacy_route d = Some (au_legacy_route (ri_authority i))" "rd_candidate_evaluations d = es"
    "rd_referenced_snapshots d = referenced_snapshots i es"
    "rd_applied_policy d = Some (policy_canonicalized p)" "rd_applied_authority d = AuthorityAdaptive"
    "rd_decision_mode d = ModeAdaptive (ap_evaluation_mode p)"
    "rd_dispatch_outcome d = rd_recommended_outcome d \<or>
       rd_dispatch_outcome d = Route (au_legacy_route (ri_authority i))"
    "rd_continuation d = continuation_for (rd_existing_session_runtime d) (rd_dispatch_outcome d)"
    by (auto simp: d adaptive_decision_def Let_def ADAPTIVE_ROUTING_SCHEMA_V1_def
        split: AdaptiveEvaluationModeV1.split)
  have sound: "adaptive_sound p i" using ok(2) by (simp add: adaptive_admissible_def)
  have wf: "evaluations_wf i es" and spec: "\<forall>e\<in>set es. evaluation_spec (policy_canonicalized p) i e"
    and sel: "selects p i es (rd_recommended_outcome d) (rd_switch_reason d)"
    using decide_route_selects [OF none run] fields(9) by auto
  have perm: "mset (map ev_candidate es) = mset (ri_candidates i)"
    using evaluations_of_facts [OF ok(3)] by simp
  then have count: "length es = length (ri_candidates i)" by (metis length_map mset_eq_length)
  obtain b b' st where loops: "shape_budget d = Inr b"
    "shape_snapshots (referenced_snapshots i es) b None {} =
      Inr (b', us_snapshot_id ` set (referenced_snapshots i es))"
    "try_fold (shape_evaluation (referenced_snapshots i es)) (shape_start b') es = Inr st"
    "sh_candidate_ids st = ev_id ` set es"
    "sh_considered st = us_snapshot_id ` set (referenced_snapshots i es)"
    using adaptive_loops_ok [OF ok(1) sound typed perm wf spec fields(3-8)] by blast
  have legacy: "RouteTargetV1_validate (au_legacy_route (ri_authority i)) = Inr ()"
    using sound by (simp add: adaptive_sound_def)
  have recommended: "RouteOutcomeV1_validate (rd_recommended_outcome d) = Inr ()"
    by (rule outcome_route_valid [OF sel wf spec sound])
  then have dispatch: "RouteOutcomeV1_validate (rd_dispatch_outcome d) = Inr ()"
    using fields(14) legacy by auto
  have bounds: "length es \<le> 128" "length (referenced_snapshots i es) \<le> 256"
    "length (rq_required_capabilities (ri_requirements i)) \<le> 64" "ri_attempt i \<noteq> 0"
    using ok(1) count referenced_snapshots_recorded(3) [OF sound, of es]
    by (auto simp: request_sound_def collections_bounded_def)
  have incumbent: "\<not> (case ri_incumbent_candidate_id i of Some c \<Rightarrow> c \<notin> ev_id ` set es | None \<Rightarrow> False)"
    using sound wf
    by (auto simp: adaptive_sound_def evaluations_wf_def ev_id_candidate [abs_def] image_image [symmetric]
        split: option.split)
  have policy: "AdaptivePolicyV1_validate (policy_canonicalized p) = Inr ()"
    using ok(2) by (simp add: adaptive_admissible_def policy_canonicalized_validate)
  have adaptive: "shape_adaptive d (sh_candidate_ids st) = Inr ()"
    using policy incumbent switch_reason_shape [OF sel wf sound fields(6,9)]
    by (simp add: shape_adaptive_def fields(6,8,11,13) reject_if_def policy_canonicalized_idem loops(4))
  show ?thesis
    using bounds legacy recommended dispatch adaptive
    unfolding validate_replay_shape_def loops(1) fields(9,10) and_then_simps loops(2)
    by (simp add: fields(1,2,5,8,12,15) reject_if_def validate_schema_def
        ADAPTIVE_ROUTING_SCHEMA_V1_def MAX_CANDIDATES_def
        MAX_USAGE_SNAPSHOTS_def MAX_CAPABILITIES_def loops(3) [unfolded shape_start_def] loops(5))
qed

lemma decision_shape:
  assumes "decide_route p i = Inr d" "input_typed i"
  shows "validate_replay_shape d = Inr ()"
proof (cases "au_resolved_fixed_route (ri_authority i)")
  case None
  then show ?thesis using assms adaptive_decision_shape by blast
next
  case (Some f)
  then show ?thesis using assms fixed_decision_shape by (auto simp: decide_route_fixed)
qed

section \<open>Replaying a decision\<close>

lemma reordered_canonicalized: "reordered_policy p (policy_canonicalized p)"
  by (simp add: reordered_policy_def policy_canonicalized_def)

lemma reordered_refl: "reordered i i"
  by (simp add: reordered_def)

lemma decide_route_canonicalized:
  "decide_route p i = Inr d \<Longrightarrow> decide_route (policy_canonicalized p) i = Inr d"
  by (rule decide_route_reordered [OF reordered_refl reordered_canonicalized])

definition replay_record_of ::
    "AdaptivePolicyV1 \<Rightarrow> RoutingInputV1 \<Rightarrow> RoutingDecisionV1 \<Rightarrow> RoutingReplayRecordV1" where
  "replay_record_of p i d =
     \<lparr>rr_schema_version = ADAPTIVE_ROUTING_SCHEMA_V1, rr_policy = policy_canonicalized p,
      rr_input = i, rr_expected_decision = d\<rparr>"

lemma reserves_canonicalized:
  "validate_provider_reserves (policy_canonicalized p) = Inr u \<longleftrightarrow> validate_provider_reserves p = Inr u"
  by (simp add: validate_provider_reserves_Inr policy_canonicalized_distinct)

lemma replay_checks:
  assumes "decide_route p i = Inr d" "validate_provider_reserves p = Inr ()" "input_typed i"
  shows "recompute_and_validate (replay_record_of p i d) = Inr d"
  using assms decision_shape [OF assms(1,3)] decide_route_canonicalized [OF assms(1)]
    reserves_canonicalized [of p "()"]
  by (simp add: recompute_and_validate_def replay_record_of_def validate_schema_def
      policy_canonicalized_idem reject_if_def)

text \<open>
  A concrete request: two candidates on two providers, fresh evidence for both, an incumbent on
  the weaker one. The decision is computed once; every witness of the routing properties uses it.
\<close>

definition demo_route :: "string \<Rightarrow> string \<Rightarrow> RouteTargetV1" where
  "demo_route c provider =
     \<lparr>rt_candidate_id = Name c, rt_provider = Name provider, rt_usage_account_id = Name ''main'',
      rt_runtime = Name provider, rt_model = ''large'', rt_effort = None\<rparr>"

definition demo_candidate :: "string \<Rightarrow> string \<Rightarrow> AdaptiveCandidateV1" where
  "demo_candidate c provider =
     \<lparr>ca_route = demo_route c provider, ca_capabilities = [Name ''code''],
      ca_automatic_eligibility = Automatic, ca_quality = Premium,
      ca_task_fit_bps = BasisPointsV1 8000, ca_latency_bps = BasisPointsV1 5000,
      ca_configured_preference_bps = BasisPointsV1 5000\<rparr>"

definition demo_window :: "u16 \<Rightarrow> UsageWindowV1" where
  "demo_window remaining =
     \<lparr>uw_limit_id = Name ''five_hour'', uw_kind = Name ''rolling'', uw_applicable_models = [],
      uw_used_bps = BasisPointsV1 (10000 - remaining), uw_remaining_bps = BasisPointsV1 remaining,
      uw_recent_capacity_bps = BasisPointsV1 7000, uw_resets_at_utc_ms = UtcMillisV1 901000,
      uw_duration_ms = DurationMillisV1 3600000\<rparr>"

definition demo_snapshot :: "string \<Rightarrow> string \<Rightarrow> u16 \<Rightarrow> UsageSnapshotV1" where
  "demo_snapshot name provider remaining =
     \<lparr>us_schema_version = 1, us_snapshot_id = Name name, us_provider = Name provider,
      us_usage_account_id = Name ''main'', us_source = Name ''poll'',
      us_observed_at_utc_ms = UtcMillisV1 1000, us_received_at_utc_ms = UtcMillisV1 1000,
      us_ttl_ms = DurationMillisV1 60000, us_confidence_bps = BasisPointsV1 9000,
      us_health = Healthy, us_reason_code = None, us_windows = [demo_window remaining]\<rparr>"

definition demo_policy :: AdaptivePolicyV1 where
  "demo_policy =
     \<lparr>ap_policy_version = 1, ap_maximum_snapshot_age_ms = DurationMillisV1 60000,
      ap_provider_reserves =
        [\<lparr>pr_provider = Name ''codex'', pr_usage_account_id = Name ''main'',
          pr_reserve_bps = BasisPointsV1 1000\<rparr>,
         \<lparr>pr_provider = Name ''claude'', pr_usage_account_id = Name ''main'',
          pr_reserve_bps = BasisPointsV1 1000\<rparr>],
      ap_score_weights =
        \<lparr>sw_task_fit_bps = BasisPointsV1 3000, sw_usable_headroom_bps = BasisPointsV1 3000,
         sw_reset_proximity_bps = BasisPointsV1 1000, sw_recent_capacity_bps = BasisPointsV1 1000,
         sw_latency_bps = BasisPointsV1 1000, sw_health_bps = BasisPointsV1 500,
         sw_configured_preference_bps = BasisPointsV1 500\<rparr>,
      ap_switch_margin_bps = BasisPointsV1 500, ap_unknown_usage_policy = HoldIncumbent,
      ap_evaluation_mode = Enforce\<rparr>"

definition demo_input :: RoutingInputV1 where
  "demo_input =
     \<lparr>ri_schema_version = 1, ri_mission_id = Name ''mission-1'', ri_phase_id = Name ''phase-1'',
      ri_attempt = 1, ri_evaluated_at_utc_ms = UtcMillisV1 2000,
      ri_authority = \<lparr>au_resolved_fixed_route = None, au_legacy_route = demo_route ''legacy'' ''codex''\<rparr>,
      ri_requirements = \<lparr>rq_priority = P2, rq_required_capabilities = [Name ''code''],
                         rq_minimum_quality = Standard\<rparr>,
      ri_candidates = [demo_candidate ''codex-large'' ''codex'', demo_candidate ''claude-large'' ''claude''],
      ri_usage_snapshots = [demo_snapshot ''snap-b'' ''codex'' 6500, demo_snapshot ''snap-a'' ''claude'' 8000],
      ri_incumbent_candidate_id = Some (Name ''codex-large''),
      ri_existing_session_runtime = Some (Name ''codex'')\<rparr>"

definition demo_decision :: RoutingDecisionV1 where
  "demo_decision =
     (case decide_route demo_policy demo_input of
        Inr d \<Rightarrow> d | Inl _ \<Rightarrow> fixed_decision demo_input
          \<lparr>fr_composition_version = 1, fr_provenances = [], fr_route = demo_route ''legacy'' ''codex''\<rparr>)"

text \<open>The better candidate scores 7150, less than 500 above the incumbent's 6700.\<close>

definition decision_summary ::
    "AdaptiveRoutingError + RoutingDecisionV1
      \<Rightarrow> (CandidateIdV1 option \<times> SwitchReasonV1 \<times> BasisPointsV1 option list) option" where
  "decision_summary r =
     (case r of
        Inl _ \<Rightarrow> None
      | Inr d \<Rightarrow> Some (map_option rt_candidate_id (outcome_route (rd_dispatch_outcome d)), rd_switch_reason d,
          map ev_score_bps (rd_candidate_evaluations d)))"

lemma demo_summary:
  "decision_summary (decide_route demo_policy demo_input) =
     Some (Some (Name ''codex-large''), IncumbentHeldByHysteresis,
       [Some (BasisPointsV1 7150), Some (BasisPointsV1 6700)])"
  by code_simp

lemma demo_decides: "decide_route demo_policy demo_input = Inr demo_decision"
  using demo_summary by (cases "decide_route demo_policy demo_input")
    (simp_all add: demo_decision_def decision_summary_def)

lemma demo_adaptive: "au_resolved_fixed_route (ri_authority demo_input) = None"
  by (simp add: demo_input_def)

lemma demo_typed: "input_typed demo_input" "policy_typed demo_policy"
  by code_simp+

lemma demo_incumbent:
  "map_option rt_candidate_id (outcome_route (rd_dispatch_outcome demo_decision)) = Some (Name ''codex-large'')"
  "rd_switch_reason demo_decision = IncumbentHeldByHysteresis"
  "map ev_score_bps (rd_candidate_evaluations demo_decision) =
     [Some (BasisPointsV1 7150), Some (BasisPointsV1 6700)]"
  using demo_summary by (simp_all add: decision_summary_def demo_decides)

text \<open>The same request with its collections listed the other way round.\<close>

definition demo_reversed_input :: RoutingInputV1 where
  "demo_reversed_input =
     demo_input\<lparr>ri_candidates := rev (ri_candidates demo_input),
       ri_usage_snapshots := rev (ri_usage_snapshots demo_input)\<rparr>"

definition demo_reversed_policy :: AdaptivePolicyV1 where
  "demo_reversed_policy =
     demo_policy\<lparr>ap_provider_reserves := rev (ap_provider_reserves demo_policy)\<rparr>"

text \<open>A request with a fixed route.\<close>

definition demo_fixed :: FixedRouteV1 where
  "demo_fixed = \<lparr>fr_composition_version = 1, fr_provenances = [RuntimeFlag],
     fr_route = demo_route ''pinned'' ''claude''\<rparr>"

definition demo_fixed_input :: RoutingInputV1 where
  "demo_fixed_input =
     demo_input\<lparr>ri_authority := \<lparr>au_resolved_fixed_route = Some demo_fixed,
       au_legacy_route = demo_route ''legacy'' ''codex''\<rparr>\<rparr>"

lemma demo_fixed_decides:
  "decide_route demo_policy demo_fixed_input = Inr (fixed_decision demo_fixed_input demo_fixed)"
proof -
  have "validate_request_invariants demo_fixed_input = Inr ()" by code_simp
  then show ?thesis by (simp add: decide_route_def demo_fixed_input_def)
qed

end
