(* ===== verification/Adaptive_Properties.thy ===== *)
theory Adaptive_Properties
  imports Adaptive_Replay_Roundtrip
begin

text \<open>
  The properties of the adaptive routing kernel: exact arithmetic, when a decision is made, what
  it is, and that it replays. \<open>policy_typed\<close> and \<open>input_typed\<close> are the invariants of the private
  fields of the newtypes (basis points at most 10000, bounded durations).
\<close>

section \<open>Arithmetic\<close>

text \<open>
  C15. The assessment of a validated usage snapshot computes, on 64-bit words, exactly what the
  natural numbers give: clock skew, staleness, health, applicable windows, elapsed resets, and
  the minima of remaining capacity, reset relief and recent capacity. Nothing wraps, and the
  conversion errors of the code are unreachable.
\<close>

theorem snapshot_assessment_exact:
  assumes "snapshot_typed s" "UsageSnapshotV1_validate s = Inr ()"
  shows "verdict_of (snapshot_assessment s model t maximum_age) =
    assess_nat s model (unat (utc_get t)) (unat (dur_get maximum_age))"
  using assms by (intro snapshot_assessment_nat UsageSnapshotV1_validate_sound)

theorem snapshot_assessment_exact_witness:
  "verdict_of (snapshot_assessment (demo_snapshot ''snap-a'' ''claude'' 8000) ''large''
     (UtcMillisV1 2000) (DurationMillisV1 60000)) =
   assess_nat (demo_snapshot ''snap-a'' ''claude'' 8000) ''large'' (unat (2000 :: u64)) (unat (60000 :: u64))"
proof -
  have "snapshot_typed (demo_snapshot ''snap-a'' ''claude'' 8000)"
    "UsageSnapshotV1_validate (demo_snapshot ''snap-a'' ''claude'' 8000) = Inr ()"
    by code_simp+
  from snapshot_assessment_exact [OF this, of "''large''" "UtcMillisV1 2000" "DurationMillisV1 60000"]
  show ?thesis by simp
qed

text \<open>
  Under a validated policy the weighted score of valid components always exists: it is the sum
  of components times weights divided by 10000, rounded down, and lies between the least and the
  greatest component. The overflow error of the code is unreachable.
\<close>

theorem weighted_score_exact:
  assumes "policy_typed p" "AdaptivePolicyV1_validate p = Inr ()"
    and "\<forall>b\<in>set (component_list c). lo \<le> bps_nat b \<and> bps_nat b \<le> hi" "hi \<le> 10000"
  shows "\<exists>b. weighted_score p c = Inr b \<and>
    bps_nat b = score_sum (weighted_components p c) div 10000 \<and> lo \<le> bps_nat b \<and> bps_nat b \<le> hi"
  using policy_weights_total [OF assms(1,2)] assms(3,4) by (rule weighted_score_nat)

definition demo_components :: ScoreComponentsV1 where
  "demo_components =
     \<lparr>sc_task_fit_bps = BasisPointsV1 8000, sc_usable_headroom_bps = BasisPointsV1 7000,
      sc_reset_proximity_bps = BasisPointsV1 7503, sc_recent_capacity_bps = BasisPointsV1 7000,
      sc_latency_bps = BasisPointsV1 5000, sc_health_bps = BasisPointsV1 9000,
      sc_configured_preference_bps = BasisPointsV1 5000\<rparr>"

theorem weighted_score_exact_witness:
  "\<exists>b. weighted_score demo_policy demo_components = Inr b \<and>
     bps_nat b = score_sum (weighted_components demo_policy demo_components) div 10000 \<and>
     5000 \<le> bps_nat b \<and> bps_nat b \<le> 9000"
proof -
  have "AdaptivePolicyV1_validate demo_policy = Inr ()" by code_simp
  from weighted_score_exact [OF demo_typed(2) this, of demo_components 5000 9000]
  show ?thesis by (simp add: demo_components_def component_list_def bps_nat_def)
qed

text \<open>
  The aggregate budget of a request, charged item by item with a check after every charge, is
  accepted exactly when the total cost fits the four limits, and is then that total: the order of
  the charges does not matter and the running totals never overflow.
\<close>

theorem request_budget_exact:
  "request_budget i = Inr b \<longleftrightarrow>
     b = request_cost i \<and> rb_elements b \<le> 8192 \<and> rb_text_bytes b \<le> 1048576 \<and>
     rb_windows b \<le> 512 \<and> rb_model_references b \<le> 4096"
  by (simp add: request_budget_Inr rb_fits_def)

section \<open>Decisions\<close>

text \<open>
  C14. A decision is made exactly when the request is well formed and, unless a route is fixed, the
  policy is valid and the candidates, snapshots and incumbent are consistent. After validation no
  internal error (score overflow, missing reserve, missing evaluation) can occur.
\<close>

theorem decide_route_total:
  assumes "policy_typed p" "input_typed i"
  shows "is_ok (decide_route p i) \<longleftrightarrow>
    request_sound i \<and>
    (au_resolved_fixed_route (ri_authority i) \<noteq> None \<or>
     AdaptivePolicyV1_validate p = Inr () \<and> adaptive_sound p i)"
  using decide_route_succeeds [OF assms] by (auto simp: adaptive_admissible_def)

theorem decide_route_total_witness:
  "request_sound demo_input \<and> AdaptivePolicyV1_validate demo_policy = Inr () \<and>
     adaptive_sound demo_policy demo_input"
  using decide_route_total [OF demo_typed(2,1)] by (simp add: demo_decides demo_adaptive)

text \<open>
  C11. The recommendation refines its specification: the best eligible candidate (score, then the
  runtime of the existing session, then the smallest identifier) unless an eligible incumbent is
  within the switch margin; without eligible candidates the policy for unknown usage, and
  otherwise a deferral. The reason recorded is the rule that applied. In shadow mode the legacy
  route is dispatched, in enforce mode the recommendation.
\<close>

theorem decide_route_refines_selects:
  assumes "decide_route p i = Inr d" "au_resolved_fixed_route (ri_authority i) = None"
  shows "selects p i (rd_candidate_evaluations d) (rd_recommended_outcome d) (rd_switch_reason d) \<and>
    rd_dispatch_outcome d =
      (case ap_evaluation_mode p of
         Enforce \<Rightarrow> rd_recommended_outcome d | Shadow \<Rightarrow> Route (au_legacy_route (ri_authority i)))"
  using decide_route_selects [OF assms(2,1)] decide_route_dispatch [OF assms(2,1)] by simp

theorem decide_route_refines_selects_witness:
  "selects demo_policy demo_input (rd_candidate_evaluations demo_decision)
     (rd_recommended_outcome demo_decision) IncumbentHeldByHysteresis"
  using decide_route_refines_selects [OF demo_decides demo_adaptive] by (simp add: demo_incumbent)

text \<open>
  C12. Every route an adaptive decision recommends, whether by score, by holding the incumbent or by
  falling back to the legacy route, is the route of a configured candidate that is eligible for
  automatic use, has all required capabilities and meets the quality floor.
\<close>

theorem recommended_route_qualifies:
  assumes "decide_route p i = Inr d" "au_resolved_fixed_route (ri_authority i) = None"
    and "rd_recommended_outcome d = Route r"
  shows "\<exists>c\<in>set (ri_candidates i). ca_route c = r \<and> ca_automatic_eligibility c = Automatic \<and>
    set (rq_required_capabilities (ri_requirements i)) \<subseteq> set (ca_capabilities c) \<and>
    quality_rank (rq_minimum_quality (ri_requirements i)) \<le> quality_rank (ca_quality c)"
proof -
  note facts = decide_route_selects [OF assms(2,1)]
  obtain e where "e \<in> set (rd_candidate_evaluations d)" "ca_route (ev_candidate e) = r"
    "qualifies i (ev_candidate e)"
    using selects_qualifies [OF _ _ _ assms(3)] facts by blast
  moreover have "ev_candidate e \<in> set (ri_candidates i)"
    using facts \<open>e \<in> set (rd_candidate_evaluations d)\<close> by (auto simp: evaluations_wf_def)
  ultimately show ?thesis unfolding qualifies_def by blast
qed

theorem recommended_route_qualifies_witness:
  "\<exists>r. rd_recommended_outcome demo_decision = Route r \<and>
     (\<exists>c\<in>set (ri_candidates demo_input). ca_route c = r \<and> ca_automatic_eligibility c = Automatic)"
proof -
  have "rd_dispatch_outcome demo_decision = rd_recommended_outcome demo_decision"
    using decide_route_dispatch [OF demo_adaptive demo_decides] by (simp add: demo_policy_def)
  then obtain r where r: "rd_recommended_outcome demo_decision = Route r"
    using demo_incumbent(1) by (cases "rd_recommended_outcome demo_decision") auto
  from recommended_route_qualifies [OF demo_decides demo_adaptive r] r show ?thesis by blast
qed

text \<open>
  An evaluation is eligible only on evidence: some snapshot of the candidate's own account is
  usable at the evaluation instant (received, fresh, healthy, with no elapsed reset), no fresher
  snapshot of the account is usable, some capacity remains, and a phase below P0 stays above the
  account's reserve and is scored on the difference only.
\<close>

theorem eligible_evaluation_evidence:
  assumes "decide_route p i = Inr d" "au_resolved_fixed_route (ri_authority i) = None" "input_typed i"
    and "e \<in> set (rd_candidate_evaluations d)" "ev_disposition e = Eligible"
  shows "\<exists>s remaining relief capacity health reserve headroom.
    s \<in> set (ri_usage_snapshots i) \<and> snapshot_matches (ev_candidate e) s \<and>
    us_snapshot_id s \<in> set (ev_governing_snapshot_ids e) \<and>
    assess_nat s (rt_model (ca_route (ev_candidate e))) (unat (utc_get (ri_evaluated_at_utc_ms i)))
      (unat (dur_get (ap_maximum_snapshot_age_ms p))) = Usable remaining relief capacity health \<and>
    0 < remaining \<and> candidate_reserve p (ev_candidate e) = Some reserve \<and>
    ev_usable_headroom_bps e = Some headroom \<and>
    (if rq_priority (ri_requirements i) = P0 then bps_nat headroom = remaining
     else bps_nat reserve < remaining \<and> bps_nat headroom = remaining - bps_nat reserve)"
proof -
  let ?p = "policy_canonicalized p"
  let ?c = "ev_candidate e"
  have adm: "adaptive_admissible p i" using assms(1) decide_route_adaptive [OF assms(2)] by blast
  have spec: "eligible_spec ?p i e"
    using decide_route_selects [OF assms(2,1)] assms(4,5) by (auto simp: evaluation_spec_def)
  then obtain a reserve usable where parts:
    "candidate_usage ?p i ?c = ProbeUsable a (ev_considered_snapshot_ids e) (ev_governing_snapshot_ids e)"
    "candidate_reserve ?p ?c = Some reserve" "usable_headroom i a reserve usable"
    "ev_usable_headroom_bps e = Some usable"
    unfolding eligible_spec_def by blast
  obtain s where s: "s \<in> set (ri_usage_snapshots i)" "snapshot_matches ?c s"
    "us_snapshot_id s \<in> set (ev_governing_snapshot_ids e)"
    "snapshot_assessment s (rt_model (ca_route ?c)) (ri_evaluated_at_utc_ms i)
       (ap_maximum_snapshot_age_ms p) = Inr a"
    using usage_for_candidate_usable [OF parts(1) [unfolded candidate_usage_def]] by auto
  have "snapshot_typed s" "snapshot_sound s"
    using s(1) adm assms(3) UsageSnapshotV1_validate_sound
    by (auto simp: input_typed_def list_all_iff adaptive_admissible_def adaptive_sound_def)
  from snapshot_assessment_nat [OF this, of "rt_model (ca_route ?c)" "ri_evaluated_at_utc_ms i"
      "ap_maximum_snapshot_age_ms p"]
  have "assess_nat s (rt_model (ca_route ?c)) (unat (utc_get (ri_evaluated_at_utc_ms i)))
      (unat (dur_get (ap_maximum_snapshot_age_ms p))) =
    Usable (bps_nat (ua_remaining_bps a)) (bps_nat (ua_reset_proximity_bps a))
      (bps_nat (ua_recent_capacity_bps a)) (bps_nat (ua_health_bps a))"
    unfolding s(4) by (simp add: verdict_of_def bps_nat_def)
  moreover have "candidate_reserve p ?c = Some reserve"
    using parts(2) reserve_for_canonicalized [OF adaptive_admissible_reserves [OF adm]]
    by (simp add: candidate_reserve_def)
  ultimately show ?thesis
    using s(1-3) parts(3,4) unfolding usable_headroom_def by (auto split: if_splits)
qed

theorem eligible_evaluation_evidence_witness:
  "\<exists>e\<in>set (rd_candidate_evaluations demo_decision).
     \<exists>reserve headroom. candidate_reserve demo_policy (ev_candidate e) = Some reserve \<and>
       ev_usable_headroom_bps e = Some headroom \<and> 0 < bps_nat headroom"
proof -
  obtain e where e: "e \<in> set (rd_candidate_evaluations demo_decision)" "ev_score_bps e = Some (BasisPointsV1 7150)"
    using demo_incumbent(3) by (cases "rd_candidate_evaluations demo_decision") auto
  then have "ev_disposition e = Eligible"
    using decide_route_selects [OF demo_adaptive demo_decides]
    by (auto dest: evaluation_spec_disposition)
  from eligible_evaluation_evidence [OF demo_decides demo_adaptive demo_typed(1) e(1) this] e(1)
  show ?thesis by (auto simp: demo_input_def split: if_splits)
qed

text \<open>
  C13. The order in which candidates, usage snapshots and provider reserves are listed does not
  matter: a reordered request under a reordered policy gets the same decision, field by field.
\<close>

theorem decide_route_order_independent:
  assumes "decide_route p i = Inr d"
    and "mset cs = mset (ri_candidates i)" "mset ss = mset (ri_usage_snapshots i)"
    and "mset rs = mset (ap_provider_reserves p)"
  shows "decide_route (p\<lparr>ap_provider_reserves := rs\<rparr>)
    (i\<lparr>ri_candidates := cs, ri_usage_snapshots := ss\<rparr>) = Inr d"
  using assms by (intro decide_route_reordered [OF _ _ assms(1)])
    (simp_all add: reordered_def reordered_policy_def)

theorem decide_route_order_independent_witness:
  "decide_route demo_reversed_policy demo_reversed_input = Inr demo_decision"
  unfolding demo_reversed_policy_def demo_reversed_input_def
  by (intro decide_route_order_independent [OF demo_decides]) simp_all

text \<open>
  A resolved fixed route bypasses the policy: for every policy, valid or not, a well-formed
  request is dispatched to exactly that route with its authorities recorded, and no evaluation,
  policy or legacy route is claimed.
\<close>

theorem fixed_route_bypasses_policy:
  assumes "au_resolved_fixed_route (ri_authority i) = Some f"
  shows "(decide_route p i = Inr d \<longleftrightarrow>
      validate_request_invariants i = Inr () \<and> d = fixed_decision i f) \<and>
    rd_dispatch_outcome (fixed_decision i f) = Route (fr_route f) \<and>
    rd_applied_authority (fixed_decision i f) = AuthorityFixed (fr_provenances f) \<and>
    rd_applied_policy (fixed_decision i f) = None \<and>
    rd_candidate_evaluations (fixed_decision i f) = []"
  using assms by (auto simp: decide_route_def result_simps fixed_decision_def Let_def)

theorem fixed_route_bypasses_policy_witness:
  "validate_request_invariants demo_fixed_input = Inr ()"
  using fixed_route_bypasses_policy [of demo_fixed_input demo_fixed demo_policy
      "fixed_decision demo_fixed_input demo_fixed"] demo_fixed_decides
  by (simp add: demo_fixed_input_def)

section \<open>Replay\<close>

lemma adaptive_policy_reserves:
  assumes "decide_route p i = Inr d" "au_resolved_fixed_route (ri_authority i) = None"
  shows "validate_provider_reserves p = Inr ()"
proof -
  have "AdaptivePolicyV1_validate p = Inr ()" using assms by (auto simp: decide_route_def decide_adaptive_def result_simps Let_def)
  then show ?thesis by (auto simp: AdaptivePolicyV1_validate_def result_simps split: if_splits)
qed

text \<open>
  C10. A decision under a policy whose provider reserves are within bounds and without repetition
  replays: its replay record can be built (the decision passes the whole shape validation, under the
  same budgets the request passed), deserialising the record accepts it, and replaying it under the
  canonical policy gives back the identical decision. Every adaptive decision is of this kind; only a
  fixed route, for which the policy is not validated, can be decided under other reserves, and then
  building its record fails with the error of the reserves.
\<close>

theorem decision_replays:
  assumes "decide_route p i = Inr d" "input_typed i"
  shows "case validate_provider_reserves p of
      Inr _ \<Rightarrow>
        RoutingReplayRecordV1_new p i d = Inr (replay_record_of p i d) \<and>
        RoutingReplayRecordV1_deserialize (replay_record_of p i d) = Inr (replay_record_of p i d) \<and>
        replay_route (replay_record_of p i d) = Inr d
    | Inl e \<Rightarrow>
        au_resolved_fixed_route (ri_authority i) \<noteq> None \<and> RoutingReplayRecordV1_new p i d = Inl e"
proof (cases "validate_provider_reserves p")
  case (Inl e)
  then show ?thesis using adaptive_policy_reserves [OF assms(1)] by (auto simp: RoutingReplayRecordV1_new_def)
next
  case (Inr u)
  then have reserves: "validate_provider_reserves p = Inr ()" by simp
  show ?thesis
    using replay_checks [OF assms(1) reserves assms(2)] reserves reserves_canonicalized [of p "()"]
    by (simp add: RoutingReplayRecordV1_new_def RoutingReplayRecordV1_deserialize_def replay_route_def
        replay_record_of_def Let_def policy_canonicalized_idem reject_if_def validate_schema_def)
qed

theorem decision_replays_witness:
  "replay_route (replay_record_of demo_policy demo_input demo_decision) = Inr demo_decision"
proof -
  have "validate_provider_reserves demo_policy = Inr ()" by code_simp
  then show ?thesis using decision_replays [OF demo_decides demo_typed(1)] by simp
qed

end
