(* ===== verification/Rust_Text.thy ===== *)
theory Rust_Text
  imports Durations Identifiers
begin

text \<open>
  More of Rust's \<open>str\<close> on UTF-8 bytes: splitting at an ASCII character, lines, ASCII case
  mapping, substring search, joining, and the \<open>phase-N\<close> identifiers built from decimal
  numbers.
\<close>

section \<open>Splitting\<close>

primrec split_on :: "char \<Rightarrow> string \<Rightarrow> string list" where
  "split_on c [] = [[]]"
| "split_on c (x # s) =
     (if x = c then [] # split_on c s
      else (case split_on c s of [] \<Rightarrow> [[x]] | p # ps \<Rightarrow> (x # p) # ps))"

primrec split_once :: "char \<Rightarrow> string \<Rightarrow> (string \<times> string) option" where
  "split_once c [] = None"
| "split_once c (x # s) =
     (if x = c then Some ([], s) else map_option (\<lambda>(a, b). (x # a, b)) (split_once c s))"

text \<open>\<open>str::lines\<close>: a final line without text is not a line, and \<open>\r\<close> goes with its \<open>\n\<close>.\<close>

definition strip_cr :: "string \<Rightarrow> string" where
  "strip_cr s = (if s \<noteq> [] \<and> last s = CHR 0x0D then butlast s else s)"

definition str_lines :: "string \<Rightarrow> string list" where
  "str_lines s =
     (let ps = split_on (CHR 0x0A) s
      in map strip_cr (butlast ps) @ (if last ps = [] then [] else [last ps]))"

definition trim_matches :: "char \<Rightarrow> string \<Rightarrow> string" where
  "trim_matches c s = rev (dropWhile (\<lambda>x. x = c) (rev (dropWhile (\<lambda>x. x = c) s)))"

primrec str_join :: "string \<Rightarrow> string list \<Rightarrow> string" where
  "str_join sep [] = []"
| "str_join sep (s # ss) = (if ss = [] then s else s @ sep @ str_join sep ss)"

primrec str_contains :: "string \<Rightarrow> string \<Rightarrow> bool" where
  "str_contains [] n = (n = [])"
| "str_contains (x # s) n = (starts_with (x # s) n \<or> str_contains s n)"

definition strip_prefix :: "string \<Rightarrow> string \<Rightarrow> string option" where
  "strip_prefix pre s = (if starts_with s pre then Some (drop (length pre) s) else None)"

section \<open>Case\<close>

definition ascii_lower :: "char \<Rightarrow> char" where
  "ascii_lower c = (if 65 \<le> byte c \<and> byte c \<le> 90 then char_of (byte c + 32) else c)"

definition ascii_upper :: "char \<Rightarrow> char" where
  "ascii_upper c = (if 97 \<le> byte c \<and> byte c \<le> 122 then char_of (byte c - 32) else c)"

definition to_ascii_lowercase :: "string \<Rightarrow> string" where
  "to_ascii_lowercase s = map ascii_lower s"

definition to_ascii_uppercase :: "string \<Rightarrow> string" where
  "to_ascii_uppercase s = map ascii_upper s"

text \<open>
  Unicode \<open>to_lowercase\<close>, as far as the search for ASCII text in the result can tell: exactly
  two characters outside ASCII have a lower case with an ASCII letter in it, the Kelvin sign
  U+212A (\<open>k\<close>) and U+0130 (\<open>i\<close> and the combining dot U+0307). Every other such character
  lowers to characters outside ASCII and is kept.
\<close>

fun to_lowercase :: "string \<Rightarrow> string" where
  "to_lowercase [] = []"
| "to_lowercase (c # s) =
     (if starts_with (c # s) [CHR 0xE2, CHR 0x84, CHR 0xAA] then CHR ''k'' # to_lowercase (drop 2 s)
      else if starts_with (c # s) [CHR 0xC4, CHR 0xB0]
        then CHR ''i'' # CHR 0xCC # CHR 0x87 # to_lowercase (drop 1 s)
      else ascii_lower c # to_lowercase s)"

section \<open>Lemmas\<close>

lemma str_contains_iff: "str_contains s n \<longleftrightarrow> (\<exists>p q. s = p @ n @ q)"
proof (induction s)
  case (Cons x s)
  show ?case
  proof
    assume "str_contains (x # s) n"
    then consider "starts_with (x # s) n" | "str_contains s n" by auto
    then show "\<exists>p q. x # s = p @ n @ q"
    proof cases
      case 1
      then have "x # s = [] @ n @ drop (length n) (x # s)"
        unfolding starts_with_def by (metis append_Nil append_take_drop_id)
      then show ?thesis by blast
    next
      case 2
      with Cons obtain p q where "s = p @ n @ q" by blast
      then have "x # s = (x # p) @ n @ q" by simp
      then show ?thesis by blast
    qed
  next
    assume "\<exists>p q. x # s = p @ n @ q"
    then obtain p q where eq: "x # s = p @ n @ q" by blast
    show "str_contains (x # s) n"
    proof (cases p)
      case Nil
      with eq have "starts_with (x # s) n" by simp
      then show ?thesis by simp
    next
      case (Cons y p')
      with eq have "s = p' @ n @ q" by simp
      with \<open>str_contains s n \<longleftrightarrow> _\<close> show ?thesis by auto
    qed
  qed
qed auto

lemma split_on_nonempty [simp]: "split_on c s \<noteq> []"
  by (induction s) (auto split: list.split)

lemma split_on_join: "str_join [c] (split_on c s) = s"
  by (induction s) (auto split: list.split)

lemma split_on_no_sep: "p \<in> set (split_on c s) \<Longrightarrow> c \<notin> set p"
  by (induction s arbitrary: p) (auto split: list.splits if_splits)

lemma split_once_eq: "split_once c s = Some (a, b) \<Longrightarrow> s = a @ c # b \<and> c \<notin> set a"
  by (induction s arbitrary: a b) (auto split: if_splits)

section \<open>Positional phase identifiers\<close>

lemma decimal_inj: "decimal m = decimal n \<Longrightarrow> m = n"
  by (metis decimal_value of_nat_eq_iff)

lemma digit_identifier_byte: "is_digit c \<Longrightarrow> identifier_byte c"
  by (simp add: is_digit_def identifier_byte_def ascii_alphanumeric_def Let_def)

definition phase_id_text :: "nat \<Rightarrow> string" where
  "phase_id_text n = ''phase-'' @ decimal n"

lemma phase_id_text_inj [simp]: "phase_id_text m = phase_id_text n \<longleftrightarrow> m = n"
  by (auto simp: phase_id_text_def dest: decimal_inj)

lemma phase_id_text_valid: "PhaseId_new (phase_id_text n) = Inr (Name (phase_id_text n))"
proof -
  have "list_all identifier_byte (decimal n)"
    using decimal_digits [of n] by (auto simp: list_all_iff digit_identifier_byte)
  then have "identifier_text (phase_id_text n)"
    by (simp add: identifier_text_def phase_id_text_def identifier_byte_def
        ascii_alphanumeric_def byte_def)
  then show ?thesis by (simp add: phase_ids.new_Inr_iff)
qed

end
