(* ===== verification/Mission.thy ===== *)
theory Mission
  imports Rust_Text Dependency_Graph
begin

text \<open>
  Authored missions (\<^verbatim>\<open>orchestrator-core/src/mission.rs\<close>): the parser of \<open>PHASE:\<close> records, the
  policy and persona a phase gets, the execution mode of a plan and the keyword fallback
  proposal. \<open>PathBuf::join\<close> is the Unix one, on a home directory that is UTF-8.
\<close>

definition MAX_PHASES :: nat where
  "MAX_PHASES = 12"

record PhasePolicyFixture =
  fallback_persona :: string
  fallback_selection_method :: string
  ppf_tier :: string
  ppf_role :: string
  ppf_runtime :: string

definition PhasePolicyFixture_default :: PhasePolicyFixture where
  "PhasePolicyFixture_default =
     \<lparr>fallback_persona = ''generalist'', fallback_selection_method = ''fixture'',
      ppf_tier = ''work'', ppf_role = ''implementer'', ppf_runtime = ''claude''\<rparr>"

record RuntimePolicyFixture =
  rpf_default :: PhasePolicyFixture
  rpf_phases :: "(string, PhasePolicyFixture) btree_map"

type_synonym TargetContextFixture = "(string, PhasePolicyFixture) btree_map"

record AuthoredParseContext =
  user_home :: "string option"
  persona_names :: "string set"
  target_context :: "TargetContextFixture option"
  context_policy :: RuntimePolicyFixture

definition AuthoredParseContext_default :: AuthoredParseContext where
  "AuthoredParseContext_default =
     \<lparr>user_home = None, persona_names = {}, target_context = None,
      context_policy = \<lparr>rpf_default = PhasePolicyFixture_default, rpf_phases = []\<rparr>\<rparr>"

datatype ExecutionMode = Sequential | Parallel

record AuthoredPhase =
  ap_id :: PhaseId
  ap_name :: string
  ap_objective :: string
  ap_persona :: string
  ap_persona_selection_method :: string
  ap_model_tier :: string
  ap_role :: string
  ap_skills :: "string list"
  ap_dependencies :: "PhaseId list"
  ap_expected :: string
  ap_workdir :: string
  ap_runtime :: string
  ap_runtime_policy_applied :: bool
  ap_stall_timeout :: "int option"
  ap_priority :: string
  ap_status :: string

record AuthoredPlanProjection =
  plan_phases :: "AuthoredPhase list"
  plan_execution_mode :: ExecutionMode

datatype MissionParseError = NoPhases | DuplicatePhaseId string

section \<open>Policy, persona, paths\<close>

definition phase_policy :: "AuthoredParseContext \<Rightarrow> string \<Rightarrow> PhasePolicyFixture" where
  "phase_policy c name =
     (case Option.bind (target_context c) (\<lambda>t. bt_get t name) of
        Some p \<Rightarrow> p
      | None \<Rightarrow>
          (case bt_get (rpf_phases (context_policy c)) name of
             Some p \<Rightarrow> p
           | None \<Rightarrow> rpf_default (context_policy c)))"

definition resolve_persona ::
    "AuthoredParseContext \<Rightarrow> PhasePolicyFixture \<Rightarrow> string \<Rightarrow> string \<times> string" where
  "resolve_persona c policy authored =
     (if authored \<in> persona_names c then (authored, ''llm'')
      else (fallback_persona policy, fallback_selection_method policy))"

definition path_join :: "string \<Rightarrow> string \<Rightarrow> string" where
  "path_join base rel =
     (if starts_with rel ''/'' then rel
      else if base = [] \<or> last base = CHR ''/'' then base @ rel
      else base @ ''/'' @ rel)"

definition expand_home :: "string \<Rightarrow> string option \<Rightarrow> string" where
  "expand_home value_text home =
     (case strip_prefix ''~/'' value_text of
        None \<Rightarrow> value_text
      | Some remainder \<Rightarrow>
          (case home of None \<Rightarrow> value_text | Some h \<Rightarrow> path_join h remainder))"

section \<open>Execution mode\<close>

fun repeats :: "string list \<Rightarrow> string set \<Rightarrow> bool" where
  "repeats [] seen = False"
| "repeats (k # ks) seen = (if k \<in> seen then True else repeats ks (insert k seen))"

definition derive_execution_mode :: "AuthoredPhase list \<Rightarrow> ExecutionMode" where
  "derive_execution_mode phases =
     (if length phases < 2 then Sequential
      else if list_ex (\<lambda>p. ap_dependencies p = []) (drop 1 phases) then Parallel
      else if repeats (map (\<lambda>p. str_join '','' (map as_str (ap_dependencies p)))
                 (filter (\<lambda>p. ap_dependencies p \<noteq> []) phases)) {}
      then Parallel
      else Sequential)"

fun validate_ids_from :: "AuthoredPhase list \<Rightarrow> string set \<Rightarrow> MissionParseError + unit" where
  "validate_ids_from [] seen = Inr ()"
| "validate_ids_from (p # ps) seen =
     (if as_str (ap_id p) \<in> seen then Inl (DuplicatePhaseId (as_str (ap_id p)))
      else validate_ids_from ps (insert (as_str (ap_id p)) seen))"

definition validate_phase_ids :: "AuthoredPhase list \<Rightarrow> MissionParseError + unit" where
  "validate_phase_ids phases = validate_ids_from phases {}"

section \<open>Authored phase records\<close>

text \<open>The fields of one record: a later duplicate of a key replaces the earlier one.\<close>

definition parse_fields :: "string \<Rightarrow> (string, string) btree_map" where
  "parse_fields line =
     fold (\<lambda>part m.
         case split_once (CHR '':'') part of
           None \<Rightarrow> m
         | Some (key, v) \<Rightarrow> if trim key \<noteq> [] then bt_insert (trim key) (trim v) m else m)
       (split_on (CHR ''|'') line) []"

definition filled :: "(string, string) btree_map \<Rightarrow> string \<Rightarrow> string option" where
  "filled entries key =
     (case bt_get entries key of Some v \<Rightarrow> if v \<noteq> [] then Some v else None | None \<Rightarrow> None)"

definition field_or_empty :: "(string, string) btree_map \<Rightarrow> string \<Rightarrow> string" where
  "field_or_empty entries key = (case bt_get entries key of Some v \<Rightarrow> v | None \<Rightarrow> [])"

text \<open>The mutable locals of the parser's loop.\<close>

record ParseState =
  ps_phases :: "AuthoredPhase list"
  ps_accepted_names :: "string set"
  ps_name_to_id :: "(string, PhaseId) btree_map"

definition authored_phase ::
    "AuthoredParseContext \<Rightarrow> (string, string) btree_map \<Rightarrow> (string, PhaseId) btree_map \<Rightarrow>
       PhaseId \<Rightarrow> string \<Rightarrow> string \<Rightarrow> AuthoredPhase" where
  "authored_phase c entries name_to_id pid name objective =
     (let policy = phase_policy c name;
          (persona, selection) = resolve_persona c policy (field_or_empty entries ''PERSONA'');
          runtime =
            (case bt_get entries ''RUNTIME'' of
               None \<Rightarrow> None
             | Some v \<Rightarrow>
                 (let r = to_ascii_lowercase (trim v)
                  in if r \<in> set SUPPORTED_RUNTIMES then Some r else None))
      in \<lparr>ap_id = pid,
          ap_name = name,
          ap_objective = objective,
          ap_persona = persona,
          ap_persona_selection_method = selection,
          ap_model_tier = ppf_tier policy,
          ap_role = ppf_role policy,
          ap_skills =
            (case bt_get entries ''SKILLS'' of
               None \<Rightarrow> []
             | Some v \<Rightarrow> filter (\<lambda>s. s \<noteq> []) (map trim (split_on (CHR '','') v))),
          ap_dependencies =
            (case bt_get entries ''DEPENDS'' of
               None \<Rightarrow> []
             | Some v \<Rightarrow> List.map_filter (\<lambda>d. bt_get name_to_id (trim d)) (split_on (CHR '','') v)),
          ap_expected = field_or_empty entries ''EXPECTED'',
          ap_workdir = expand_home (field_or_empty entries ''WORKDIR'') (user_home c),
          ap_runtime = (case runtime of Some r \<Rightarrow> r | None \<Rightarrow> ppf_runtime policy),
          ap_runtime_policy_applied = (runtime = None),
          ap_stall_timeout = Option.bind (bt_get entries ''TIMEOUT'') parse_go_duration,
          ap_priority = to_ascii_uppercase (trim (field_or_empty entries ''PRIORITY'')),
          ap_status = ''pending''\<rparr>)"

definition parse_line ::
    "AuthoredParseContext \<Rightarrow> ParseState \<Rightarrow> string \<Rightarrow> MissionParseError + ParseState" where
  "parse_line c st raw_line =
     (let line = trim_matches (CHR 0x60) (trim raw_line) in
      if \<not> starts_with line ''PHASE:'' then Inr st
      else
        let entries = parse_fields line in
        case filled entries ''PHASE'' of
          None \<Rightarrow> Inr st
        | Some name \<Rightarrow>
        case filled entries ''OBJECTIVE'' of
          None \<Rightarrow> Inr st
        | Some objective \<Rightarrow>
          if name \<in> ps_accepted_names st then Inr st
          else
            and_then (map_err (\<lambda>_. NoPhases) (PhaseId_new (''phase-'' @ decimal (length (ps_phases st) + 1))))
              (\<lambda>pid.
                let name_to_id = bt_insert name pid (ps_name_to_id st)
                in Inr \<lparr>ps_phases = ps_phases st @ [authored_phase c entries name_to_id pid name objective],
                        ps_accepted_names = insert name (ps_accepted_names st),
                        ps_name_to_id = name_to_id\<rparr>))"

text \<open>The loop over the lines; a phase that fills the plan ends it.\<close>

fun parse_lines ::
    "AuthoredParseContext \<Rightarrow> ParseState \<Rightarrow> string list \<Rightarrow> MissionParseError + ParseState" where
  "parse_lines c st [] = Inr st"
| "parse_lines c st (l # ls) =
     and_then (parse_line c st l) (\<lambda>st'.
       if length (ps_phases st') = MAX_PHASES then Inr st' else parse_lines c st' ls)"

definition parse_authored_phases ::
    "string \<Rightarrow> AuthoredParseContext \<Rightarrow> MissionParseError + AuthoredPlanProjection" where
  "parse_authored_phases source c =
     and_then (parse_lines c \<lparr>ps_phases = [], ps_accepted_names = {}, ps_name_to_id = []\<rparr> (str_lines source))
       (\<lambda>st. if ps_phases st = [] then Inl NoPhases
             else Inr \<lparr>plan_phases = ps_phases st,
                       plan_execution_mode = derive_execution_mode (ps_phases st)\<rparr>)"

section \<open>The keyword fallback\<close>

record ProposedPhase =
  prop_name :: string
  prop_objective :: string
  prop_persona :: string
  prop_skills :: "string list"
  prop_depends_on :: "string list"

type_synonym MissionProposal = "ProposedPhase list"

definition fallback_phase :: "string \<Rightarrow> string \<Rightarrow> string list \<Rightarrow> ProposedPhase" where
  "fallback_phase name objective depends =
     \<lparr>prop_name = name, prop_objective = objective, prop_persona = [], prop_skills = [],
      prop_depends_on = depends\<rparr>"

definition keyword_fallback_proposal :: "string \<Rightarrow> MissionProposal" where
  "keyword_fallback_proposal task =
     (let lowered = to_lowercase task;
          trimmed = trim task;
          summary = (if trimmed = [] then ''the requested task'' else trimmed);
          matches_any = list_ex (str_contains lowered)
      in if matches_any [''research'', ''investigate'', ''explore'', ''analyze'', ''analyse'', ''survey'']
         then [fallback_phase ''research'' (''Research '' @ summary) []]
         else fallback_phase ''implement'' (''Implement '' @ summary) [] #
           (if matches_any [''test'', ''verify'', ''validate'', ''check'']
            then [fallback_phase ''verify'' (''Verify '' @ summary) [''implement'']] else []))"

text \<open>
  The proposal compiler (\<^verbatim>\<open>orchestrator-core/src/mission_proposal.rs\<close>): an untrusted proposal
  is validated into phases with positional identifiers whose dependency graph the reducer's
  own cycle detector has accepted. The JSON reader of serde is a parameter.
\<close>

definition MAX_PROPOSAL_BYTES :: nat where
  "MAX_PROPOSAL_BYTES = 64 * 1024"

record CompiledPlan =
  cp_phases :: "AuthoredPhase list"
  cp_execution_mode :: ExecutionMode

datatype ProposalError =
    Malformed
  | EmptyProposal
  | MissingField nat string
  | DuplicateName string
  | UnknownDependencyName string string
  | SelfDependency string
  | Cycle string
  | TooManyPhases nat

definition MissionProposal_from_json_bytes ::
    "(string \<Rightarrow> 'e + MissionProposal) \<Rightarrow> string \<Rightarrow> ProposalError + MissionProposal" where
  "MissionProposal_from_json_bytes from_slice bytes =
     (if MAX_PROPOSAL_BYTES < length bytes then Inl Malformed
      else map_err (\<lambda>_. Malformed) (from_slice bytes))"

section \<open>Pass 1: names and positional identifiers\<close>

record NameTables =
  nt_name_to_id :: "(string, PhaseId) btree_map"
  nt_id_to_name :: "(PhaseId, string) btree_map"
  nt_ids :: "PhaseId list"

definition register_phase ::
    "NameTables \<Rightarrow> nat \<times> ProposedPhase \<Rightarrow> ProposalError + NameTables" where
  "register_phase t ip =
     (case ip of (index, phase) \<Rightarrow>
        if trim (prop_name phase) = [] then Inl (MissingField index ''name'')
        else if trim (prop_objective phase) = [] then Inl (MissingField index ''objective'')
        else
          and_then (map_err (\<lambda>_. Malformed) (PhaseId_new (''phase-'' @ decimal (index + 1)))) (\<lambda>pid.
            if bt_get (nt_name_to_id t) (prop_name phase) \<noteq> None
            then Inl (DuplicateName (prop_name phase))
            else Inr \<lparr>nt_name_to_id = bt_insert (prop_name phase) pid (nt_name_to_id t),
                      nt_id_to_name = bt_insert pid (prop_name phase) (nt_id_to_name t),
                      nt_ids = nt_ids t @ [pid]\<rparr>))"

definition register_phases :: "MissionProposal \<Rightarrow> ProposalError + NameTables" where
  "register_phases proposal =
     try_fold register_phase \<lparr>nt_name_to_id = [], nt_id_to_name = [], nt_ids = []\<rparr>
       (enumerate 0 proposal)"

section \<open>Pass 2: dependencies and policy\<close>

fun resolve_dependencies ::
    "(string, PhaseId) btree_map \<Rightarrow> string \<Rightarrow> string list \<Rightarrow> PhaseId set \<Rightarrow> PhaseId list
       \<Rightarrow> ProposalError + PhaseId list" where
  "resolve_dependencies name_to_id name [] seen acc = Inr acc"
| "resolve_dependencies name_to_id name (d # ds) seen acc =
     (if d = name then Inl (SelfDependency name)
      else case bt_get name_to_id d of
             None \<Rightarrow> Inl (UnknownDependencyName name d)
           | Some pid \<Rightarrow>
               resolve_dependencies name_to_id name ds (insert pid seen)
                 (if pid \<in> seen then acc else acc @ [pid]))"

definition compile_phase ::
    "AuthoredParseContext \<Rightarrow> NameTables \<Rightarrow> nat \<times> ProposedPhase \<Rightarrow> ProposalError + AuthoredPhase" where
  "compile_phase c t ip =
     (case ip of (index, phase) \<Rightarrow>
        and_then (resolve_dependencies (nt_name_to_id t) (prop_name phase) (prop_depends_on phase) {} [])
          (\<lambda>dependencies.
            let policy = phase_policy c (prop_name phase);
                (persona, selection) = resolve_persona c policy (prop_persona phase)
            in Inr
              \<lparr>ap_id = nt_ids t ! index,
               ap_name = prop_name phase,
               ap_objective = prop_objective phase,
               ap_persona = persona,
               ap_persona_selection_method = selection,
               ap_model_tier = ppf_tier policy,
               ap_role = ppf_role policy,
               ap_skills = filter (\<lambda>s. s \<noteq> []) (map trim (prop_skills phase)),
               ap_dependencies = dependencies,
               ap_expected = [],
               ap_workdir = [],
               ap_runtime = ppf_runtime policy,
               ap_runtime_policy_applied = True,
               ap_stall_timeout = None,
               ap_priority = [],
               ap_status = ''pending''\<rparr>))"

definition phase_definition :: "AuthoredPhase \<Rightarrow> PhaseDefinition" where
  "phase_definition p = \<lparr>def_id = ap_id p, def_dependencies = ap_dependencies p\<rparr>"

definition compile_phases ::
    "AuthoredParseContext \<Rightarrow> NameTables \<Rightarrow> MissionProposal
       \<Rightarrow> ProposalError + (AuthoredPhase list \<times> PhaseDefinition list)" where
  "compile_phases c t proposal =
     try_fold (\<lambda>(phases, definitions) ip.
         and_then (compile_phase c t ip) (\<lambda>p.
           Inr (phases @ [p], definitions @ [phase_definition p])))
       ([], []) (enumerate 0 proposal)"

text \<open>\<open>map_state_build_error\<close>: a reducer error in terms of the proposal's names.\<close>

definition name_of :: "(PhaseId, string) btree_map \<Rightarrow> PhaseId \<Rightarrow> string" where
  "name_of id_to_name pid = (case bt_get id_to_name pid of Some n \<Rightarrow> n | None \<Rightarrow> as_str pid)"

fun map_state_build_error ::
    "(PhaseId, string) btree_map \<Rightarrow> MissionStateBuildError \<Rightarrow> ProposalError" where
  "map_state_build_error m EmptyPlan = EmptyProposal"
| "map_state_build_error m (DuplicatePhase p) = DuplicateName (name_of m p)"
| "map_state_build_error m (UnknownDependency p d) = UnknownDependencyName (name_of m p) (name_of m d)"
| "map_state_build_error m (DuplicateDependency p d) = UnknownDependencyName (name_of m p) (name_of m d)"
| "map_state_build_error m (DependencyCycle p) = Cycle (name_of m p)"

definition compile_proposal ::
    "MissionProposal \<Rightarrow> AuthoredParseContext \<Rightarrow> ProposalError + CompiledPlan" where
  "compile_proposal proposal c =
     (if proposal = [] then Inl EmptyProposal
      else if MAX_PHASES < length proposal then Inl (TooManyPhases MAX_PHASES)
      else
        and_then (register_phases proposal) (\<lambda>t.
        and_then (compile_phases c t proposal) (\<lambda>(phases, definitions).
        and_then (map_err (map_state_build_error (nt_id_to_name t)) (detect_cycle definitions)) (\<lambda>_.
          Inr \<lparr>cp_phases = phases, cp_execution_mode = derive_execution_mode phases\<rparr>))))"

text \<open>
  The state a mission starts from: \<open>admit_mission\<close> of the mission service hands the compiled
  phases to \<open>MissionState::new\<close>.
\<close>

definition plan_definitions :: "AuthoredPhase list \<Rightarrow> PhaseDefinition list" where
  "plan_definitions phases = map phase_definition phases"

end
