(* ===== verification/Proposal_Correct.thy ===== *)
theory Proposal_Correct
  imports Mission Mission_Runs
begin

text \<open>
  What the proposal compiler accepts, stated on the names of the proposal alone, the shape of
  the compiled plan, and the reading of its errors.
\<close>

section \<open>Graphs up to renaming\<close>

lemma trancl_image_mono:
  assumes "(a, b) \<in> r\<^sup>+"
  shows "(f a, f b) \<in> (map_prod f f ` r)\<^sup>+"
  using assms
proof (induction rule: trancl_induct)
  case (base y)
  then show ?case by force
next
  case (step y z)
  then have "(f y, f z) \<in> map_prod f f ` r" by force
  with step show ?case by (simp add: trancl_into_trancl)
qed

lemma trancl_image_inv:
  assumes "inj_on f (Field r)" "(x, y) \<in> (map_prod f f ` r)\<^sup>+"
  shows "\<exists>a b. x = f a \<and> y = f b \<and> (a, b) \<in> r\<^sup>+"
  using assms(2)
proof (induction rule: trancl_induct)
  case (base y)
  then show ?case by force
next
  case (step y z)
  then obtain a b where ab: "x = f a" "y = f b" "(a, b) \<in> r\<^sup>+" by blast
  obtain b' c where c: "y = f b'" "z = f c" "(b', c) \<in> r" using step.hyps(2) by auto
  have "b \<in> Field r" using ab(3) by (metis FieldI2 tranclD2)
  moreover have "b' \<in> Field r" using c(3) by (rule FieldI1)
  ultimately have "b = b'" using assms(1) ab(2) c(1) by (metis inj_onD)
  with ab c show ?case by (auto intro: trancl_into_trancl)
qed

lemma acyclic_image:
  assumes "inj_on f (Field r)"
  shows "acyclic (map_prod f f ` r) \<longleftrightarrow> acyclic r"
proof
  assume ac: "acyclic (map_prod f f ` r)"
  show "acyclic r"
    unfolding acyclic_def using ac trancl_image_mono [of _ _ r f] by (auto simp: acyclic_def)
next
  assume ac: "acyclic r"
  show "acyclic (map_prod f f ` r)"
  proof (rule acyclicI, rule allI, rule notI)
    fix x assume "(x, x) \<in> (map_prod f f ` r)\<^sup>+"
    then obtain a b where ab: "x = f a" "x = f b" "(a, b) \<in> r\<^sup>+"
      using trancl_image_inv [OF assms] by blast
    then have "a \<in> Field r" "b \<in> Field r" by (metis FieldI1 tranclD, metis FieldI2 tranclD2)
    then have "a = b" using assms ab by (metis inj_onD)
    with ab ac show False by (simp add: acyclic_def)
  qed
qed

section \<open>The specification, on names\<close>

definition proposal_names :: "MissionProposal \<Rightarrow> string list" where
  "proposal_names proposal = map prop_name proposal"

definition name_edges :: "MissionProposal \<Rightarrow> (string \<times> string) set" where
  "name_edges proposal = {(prop_name p, d) | p d. p \<in> set proposal \<and> d \<in> set (prop_depends_on p)}"

definition fields_complete :: "ProposedPhase \<Rightarrow> bool" where
  "fields_complete p \<longleftrightarrow> trim (prop_name p) \<noteq> [] \<and> trim (prop_objective p) \<noteq> []"

definition dependencies_known :: "MissionProposal \<Rightarrow> ProposedPhase \<Rightarrow> bool" where
  "dependencies_known proposal p \<longleftrightarrow>
     prop_name p \<notin> set (prop_depends_on p) \<and> set (prop_depends_on p) \<subseteq> set (proposal_names proposal)"

definition proposal_valid :: "MissionProposal \<Rightarrow> bool" where
  "proposal_valid proposal \<longleftrightarrow>
     proposal \<noteq> [] \<and> length proposal \<le> 12 \<and>
     (\<forall>p\<in>set proposal. fields_complete p \<and> dependencies_known proposal p) \<and>
     distinct (proposal_names proposal) \<and> acyclic (name_edges proposal)"

text \<open>An error names a defect the proposal really has.\<close>

fun error_justified :: "MissionProposal \<Rightarrow> ProposalError \<Rightarrow> bool" where
  "error_justified ps Malformed = False"
| "error_justified ps EmptyProposal = (ps = [])"
| "error_justified ps (TooManyPhases n) = (n = 12 \<and> 12 < length ps)"
| "error_justified ps (MissingField i f) =
     (i < length ps \<and> (f = ''name'' \<and> trim (prop_name (ps ! i)) = [] \<or>
        f = ''objective'' \<and> trim (prop_objective (ps ! i)) = []))"
| "error_justified ps (DuplicateName n) =
     (\<exists>i j. i < j \<and> j < length ps \<and> prop_name (ps ! i) = n \<and> prop_name (ps ! j) = n)"
| "error_justified ps (SelfDependency n) = (n \<in> set (proposal_names ps) \<and> (n, n) \<in> name_edges ps)"
| "error_justified ps (UnknownDependencyName n d) =
     ((n, d) \<in> name_edges ps \<and> d \<notin> set (proposal_names ps))"
| "error_justified ps (Cycle n) = ((n, n) \<in> (name_edges ps)\<^sup>+)"

section \<open>Pass 1\<close>

definition positional :: "nat \<Rightarrow> PhaseId" where
  "positional i = Name (phase_id_text (Suc i))"

definition positional_ids :: "nat \<Rightarrow> PhaseId list" where
  "positional_ids n = map positional [0..<n]"

lemma positional_inj [simp]: "positional i = positional j \<longleftrightarrow> i = j"
  by (simp add: positional_def)

lemma positional_ids_facts [simp]:
  "length (positional_ids n) = n" "distinct (positional_ids n)"
  "positional_ids (Suc n) = positional_ids n @ [positional n]"
  by (auto simp: positional_ids_def distinct_map inj_on_def)

lemma set_positional_ids: "set (positional_ids n) = positional ` {0..<n}"
  by (simp add: positional_ids_def)

lemma PhaseId_new_positional: "PhaseId_new (''phase-'' @ decimal (i + 1)) = Inr (positional i)"
  using phase_id_text_valid [of "Suc i"] by (simp add: positional_def phase_id_text_def)

lemma map_of_zip_snoc:
  assumes "length ks = length vs" "k \<notin> set ks"
  shows "map_of (zip (ks @ [k]) (vs @ [v])) x = (if x = k then Some v else map_of (zip ks vs) x)"
proof -
  have "map_of (zip ks vs) k = None" using assms by (simp add: map_of_zip_is_None)
  then show ?thesis
    using assms(1) by (cases "map_of (zip ks vs) x"; cases "x = k") 
      (simp_all add: map_add_def del: map_of_zip_is_None)
qed

definition registered :: "MissionProposal \<Rightarrow> NameTables \<Rightarrow> bool" where
  "registered xs t \<longleftrightarrow>
     nt_ids t = positional_ids (length xs) \<and>
     bt_wf (nt_name_to_id t) \<and> bt_wf (nt_id_to_name t) \<and>
     (\<forall>n. bt_get (nt_name_to_id t) n = map_of (zip (proposal_names xs) (positional_ids (length xs))) n) \<and>
     (\<forall>p. bt_get (nt_id_to_name t) p = map_of (zip (positional_ids (length xs)) (proposal_names xs)) p)"

lemma register_phases_snoc:
  "register_phases (xs @ [x]) = and_then (register_phases xs) (\<lambda>t. register_phase t (length xs, x))"
  by (simp add: register_phases_def enumerate_append_eq try_fold_append cong: and_then_cong)
    (cases "try_fold register_phase \<lparr>nt_name_to_id = [], nt_id_to_name = [], nt_ids = []\<rparr> (enumerate 0 xs)",
      simp_all, case_tac "register_phase b (length xs, x)", simp_all)

lemma register_phase_ok:
  assumes "registered xs t"
  shows "register_phase t (length xs, x) = Inr t' \<Longrightarrow>
      fields_complete x \<and> prop_name x \<notin> set (proposal_names xs) \<and> registered (xs @ [x]) t'"
    and "fields_complete x \<Longrightarrow> prop_name x \<notin> set (proposal_names xs) \<Longrightarrow>
      \<exists>t'. register_phase t (length xs, x) = Inr t'"
proof -
  have len: "length (proposal_names xs) = length (positional_ids (length xs))"
    by (simp add: proposal_names_def)
  have known: "bt_get (nt_name_to_id t) n = None \<longleftrightarrow> n \<notin> set (proposal_names xs)" for n
    using assms len by (simp add: registered_def map_of_zip_is_None)
  have fresh: "positional (length xs) \<notin> set (positional_ids (length xs))"
    by (auto simp: set_positional_ids)
  show "\<exists>t'. register_phase t (length xs, x) = Inr t'"
    if "fields_complete x" "prop_name x \<notin> set (proposal_names xs)"
    using that by (simp add: register_phase_def fields_complete_def PhaseId_new_positional [simplified] known)
  assume run: "register_phase t (length xs, x) = Inr t'"
  then have new: "prop_name x \<notin> set (proposal_names xs)"
    by (auto simp: register_phase_def PhaseId_new_positional [simplified] known result_simps)
  have "t' = \<lparr>nt_name_to_id = bt_insert (prop_name x) (positional (length xs)) (nt_name_to_id t),
       nt_id_to_name = bt_insert (positional (length xs)) (prop_name x) (nt_id_to_name t),
       nt_ids = nt_ids t @ [positional (length xs)]\<rparr>" "fields_complete x"
    using run by (auto simp: register_phase_def PhaseId_new_positional [simplified] known
        result_simps fields_complete_def)
  with new assms len fresh show "fields_complete x \<and> prop_name x \<notin> set (proposal_names xs) \<and> registered (xs @ [x]) t'"
    by (simp add: registered_def bt_insert_wf bt_insert_get proposal_names_def map_of_zip_snoc
        del: zip_append)
qed

lemma register_phases_ok:
  "register_phases xs = Inr t \<Longrightarrow>
     registered xs t \<and> list_all fields_complete xs \<and> distinct (proposal_names xs)"
proof (induction xs arbitrary: t rule: rev_induct)
  case Nil
  then show ?case
    by (auto simp: register_phases_def registered_def proposal_names_def positional_ids_def bt_wf_def)
next
  case (snoc x xs)
  then obtain t0 where t0: "register_phases xs = Inr t0" "register_phase t0 (length xs, x) = Inr t"
    by (auto simp: register_phases_snoc result_simps)
  with snoc.IH have "registered xs t0" "list_all fields_complete xs" "distinct (proposal_names xs)"
    by auto
  with register_phase_ok(1) [OF _ t0(2)] show ?case by (simp add: proposal_names_def)
qed

lemma register_phases_complete:
  "list_all fields_complete xs \<Longrightarrow> distinct (proposal_names xs) \<Longrightarrow> \<exists>t. register_phases xs = Inr t"
proof (induction xs rule: rev_induct)
  case Nil
  show ?case by (simp add: register_phases_def)
next
  case (snoc x xs)
  then obtain t where t: "register_phases xs = Inr t" by (auto simp: proposal_names_def)
  then have "registered xs t" using register_phases_ok by blast
  with snoc.prems have "\<exists>t'. register_phase t (length xs, x) = Inr t'"
    by (intro register_phase_ok(2)) (auto simp: proposal_names_def)
  with t show ?case by (simp add: register_phases_snoc)
qed

lemma register_phase_error:
  assumes "registered xs t" "register_phase t (length xs, x) = Inl e"
  shows "error_justified (xs @ x # ys) e"
proof -
  have len: "length (proposal_names xs) = length (positional_ids (length xs))"
    by (simp add: proposal_names_def)
  have known: "bt_get (nt_name_to_id t) n = None \<longleftrightarrow> n \<notin> set (proposal_names xs)" for n
    using assms(1) len by (simp add: registered_def map_of_zip_is_None)
  consider "e = MissingField (length xs) ''name''" "trim (prop_name x) = []"
    | "e = MissingField (length xs) ''objective''" "trim (prop_objective x) = []"
    | "e = DuplicateName (prop_name x)" "prop_name x \<in> set (proposal_names xs)"
    using assms(2) by (auto simp: register_phase_def PhaseId_new_positional [simplified] known
        split: if_splits)
  then show ?thesis
  proof cases
    case 3
    then obtain i where i: "i < length xs" "prop_name (xs ! i) = prop_name x"
      by (auto simp: proposal_names_def in_set_conv_nth)
    have "i < length xs \<and> length xs < length (xs @ x # ys) \<and>
        prop_name ((xs @ x # ys) ! i) = prop_name x \<and>
        prop_name ((xs @ x # ys) ! length xs) = prop_name x"
      using i by (simp add: nth_append)
    then show ?thesis unfolding 3(1) error_justified.simps by blast
  qed (auto simp: nth_append)
qed

lemma register_phases_error:
  "register_phases xs = Inl e \<Longrightarrow> error_justified (xs @ ys) e"
proof (induction xs arbitrary: ys rule: rev_induct)
  case Nil
  then show ?case by (simp add: register_phases_def)
next
  case (snoc x xs)
  then consider "register_phases xs = Inl e"
    | t where "register_phases xs = Inr t" "register_phase t (length xs, x) = Inl e"
    by (auto simp: register_phases_snoc result_simps)
  then show ?case
  proof cases
    case 1
    with snoc.IH [of "x # ys"] show ?thesis by simp
  next
    case 2
    then show ?thesis
      using register_phases_ok register_phase_error [of xs t x e ys] by auto
  qed
qed

section \<open>Pass 2\<close>

lemma resolve_dependencies_ok:
  "resolve_dependencies m name ds seen acc = Inr r \<Longrightarrow> seen = set acc \<Longrightarrow> distinct acc \<Longrightarrow>
     name \<notin> set ds \<and> (\<forall>d\<in>set ds. bt_get m d \<noteq> None) \<and> distinct r \<and>
     set r = set acc \<union> {p. \<exists>d\<in>set ds. bt_get m d = Some p}"
proof (induction m name ds seen acc rule: resolve_dependencies.induct)
  case (2 m name d ds seen acc)
  from "2.prems"(1) obtain p where d: "d \<noteq> name" "bt_get m d = Some p"
    and run: "resolve_dependencies m name ds (insert p seen) (if p \<in> seen then acc else acc @ [p]) = Inr r"
    by (auto split: if_splits option.splits)
  have "insert p seen = set (if p \<in> seen then acc else acc @ [p])"
      "distinct (if p \<in> seen then acc else acc @ [p])"
    using "2.prems" by auto
  from "2.IH" [OF d run this] d "2.prems"(2) show ?case by auto
qed auto

lemma resolve_dependencies_total:
  "name \<notin> set ds \<Longrightarrow> \<forall>d\<in>set ds. bt_get m d \<noteq> None \<Longrightarrow>
     \<exists>r. resolve_dependencies m name ds seen acc = Inr r"
  by (induction m name ds seen acc rule: resolve_dependencies.induct) auto

lemma resolve_dependencies_error:
  "resolve_dependencies m name ds seen acc = Inl e \<Longrightarrow>
     e = SelfDependency name \<and> name \<in> set ds \<or>
     (\<exists>d\<in>set ds. e = UnknownDependencyName name d \<and> bt_get m d = None)"
  by (induction m name ds seen acc rule: resolve_dependencies.induct)
    (auto split: if_splits option.splits)

text \<open>The identifier a known name is compiled to.\<close>

definition id_of :: "MissionProposal \<Rightarrow> string \<Rightarrow> PhaseId" where
  "id_of xs n = the (map_of (zip (proposal_names xs) (positional_ids (length xs))) n)"

lemma id_of_nth:
  assumes "distinct (proposal_names xs)" "i < length xs"
  shows "id_of xs (prop_name (xs ! i)) = positional i"
proof -
  have "map_of (zip (proposal_names xs) (positional_ids (length xs))) (proposal_names xs ! i)
      = Some (positional_ids (length xs) ! i)"
    using assms by (intro map_of_zip_nth) (simp_all add: proposal_names_def)
  with assms(2) show ?thesis by (simp add: id_of_def proposal_names_def positional_ids_def)
qed

lemma id_of_inj:
  assumes "distinct (proposal_names xs)"
  shows "inj_on (id_of xs) (set (proposal_names xs))"
proof (rule inj_onI)
  fix m n assume "m \<in> set (proposal_names xs)" "n \<in> set (proposal_names xs)"
    and eq: "id_of xs m = id_of xs n"
  then obtain i j where "i < length xs" "m = prop_name (xs ! i)" "j < length xs" "n = prop_name (xs ! j)"
    by (auto simp: proposal_names_def in_set_conv_nth)
  with eq assms show "m = n" by (simp add: id_of_nth)
qed

lemma registered_get:
  assumes "registered xs t"
  shows "bt_get (nt_name_to_id t) n = (if n \<in> set (proposal_names xs) then Some (id_of xs n) else None)"
proof -
  have len: "length (proposal_names xs) = length (positional_ids (length xs))"
    by (simp add: proposal_names_def)
  show ?thesis
  proof (cases "map_of (zip (proposal_names xs) (positional_ids (length xs))) n")
    case None
    then have "n \<notin> set (proposal_names xs)" using len map_of_zip_is_None by metis
    with None assms show ?thesis by (simp add: registered_def del: map_of_zip_is_None)
  next
    case (Some p)
    then have "n \<in> set (proposal_names xs)" by (auto dest: map_of_SomeD set_zip_leftD)
    with Some assms show ?thesis by (simp add: registered_def id_of_def)
  qed
qed

lemma registered_name_of:
  assumes "registered xs t" "distinct (proposal_names xs)" "n \<in> set (proposal_names xs)"
  shows "name_of (nt_id_to_name t) (id_of xs n) = n"
proof -
  obtain i where i: "i < length xs" "n = prop_name (xs ! i)"
    using assms(3) by (auto simp: proposal_names_def in_set_conv_nth)
  have "map_of (zip (positional_ids (length xs)) (proposal_names xs)) (positional_ids (length xs) ! i)
      = Some (proposal_names xs ! i)"
    using i by (intro map_of_zip_nth) (simp_all add: proposal_names_def)
  then show ?thesis
    using i assms(1,2) by (simp add: name_of_def registered_def id_of_nth proposal_names_def positional_ids_def)
qed

text \<open>What compiling one phase yields: its own text, its position, and its dependencies.\<close>

definition compiled_from :: "AuthoredParseContext \<Rightarrow> MissionProposal \<Rightarrow> nat \<Rightarrow> AuthoredPhase \<Rightarrow> bool" where
  "compiled_from c xs i p \<longleftrightarrow>
     (let x = xs ! i in
      ap_id p = positional i \<and> ap_name p = prop_name x \<and> ap_objective p = prop_objective x \<and>
      (ap_persona p, ap_persona_selection_method p) =
         resolve_persona c (phase_policy c (prop_name x)) (prop_persona x) \<and>
      ap_runtime p = ppf_runtime (phase_policy c (prop_name x)) \<and>
      distinct (ap_dependencies p) \<and>
      set (ap_dependencies p) = id_of xs ` set (prop_depends_on x))"

lemma compile_phase_ok:
  assumes "registered xs t" "i < length xs" "compile_phase c t (i, xs ! i) = Inr p"
  shows "compiled_from c xs i p \<and> dependencies_known xs (xs ! i)"
proof -
  let ?x = "xs ! i"
  obtain persona selection where persona:
    "resolve_persona c (phase_policy c (prop_name ?x)) (prop_persona ?x) = (persona, selection)"
    by (cases "resolve_persona c (phase_policy c (prop_name ?x)) (prop_persona ?x)")
  from assms(3) obtain deps where
    deps: "resolve_dependencies (nt_name_to_id t) (prop_name ?x) (prop_depends_on ?x) {} [] = Inr deps"
    and p: "ap_id p = nt_ids t ! i" "ap_name p = prop_name ?x" "ap_objective p = prop_objective ?x"
      "(ap_persona p, ap_persona_selection_method p) =
         resolve_persona c (phase_policy c (prop_name ?x)) (prop_persona ?x)"
      "ap_runtime p = ppf_runtime (phase_policy c (prop_name ?x))" "ap_dependencies p = deps"
    by (auto simp: compile_phase_def result_simps Let_def persona)
  have "dependencies_known xs ?x \<and> distinct deps \<and> set deps = id_of xs ` set (prop_depends_on ?x)"
    using resolve_dependencies_ok [OF deps] unfolding dependencies_known_def
    by (auto simp: registered_get [OF assms(1)] split: if_splits)
  moreover have "nt_ids t ! i = positional i"
    using assms(1,2) by (simp add: registered_def positional_ids_def)
  ultimately show ?thesis using p by (simp add: compiled_from_def)
qed

lemma compile_phase_total:
  assumes "registered xs t" "dependencies_known xs x"
  shows "\<exists>p. compile_phase c t (i, x) = Inr p"
proof -
  have "\<exists>r. resolve_dependencies (nt_name_to_id t) (prop_name x) (prop_depends_on x) {} [] = Inr r"
    using assms(2) unfolding dependencies_known_def
    by (intro resolve_dependencies_total) (auto simp: registered_get [OF assms(1)])
  then show ?thesis by (auto simp: compile_phase_def Let_def split: prod.split)
qed

lemma compile_phase_error:
  assumes "registered xs t" "x \<in> set xs" "compile_phase c t (i, x) = Inl e"
  shows "error_justified xs e"
proof -
  have "resolve_dependencies (nt_name_to_id t) (prop_name x) (prop_depends_on x) {} [] = Inl e"
    using assms(3) by (auto simp: compile_phase_def result_simps Let_def split: prod.splits)
  from resolve_dependencies_error [OF this] assms(2) show ?thesis
    by (auto simp: name_edges_def registered_get [OF assms(1)] proposal_names_def split: if_splits)
qed

lemma bex_nth: "(\<exists>x\<in>set xs. P x) \<longleftrightarrow> (\<exists>i<length xs. P (xs ! i))"
  unfolding set_conv_nth by blast

lemma collect_fold:
  fixes f :: "'x \<Rightarrow> 'e + 'p" and g :: "'p \<Rightarrow> 'q"
  defines "step \<equiv> \<lambda>(a, b) x. and_then (f x) (\<lambda>p. Inr (a @ [p], b @ [g p]))"
  shows collect_fold_ok: "try_fold step (a0, map g a0) xs = Inr (ps, ds) \<Longrightarrow>
      \<exists>qs. ps = a0 @ qs \<and> ds = map g ps \<and> list_all2 (\<lambda>x q. f x = Inr q) xs qs"
    and collect_fold_total: "\<forall>x\<in>set xs. \<exists>p. f x = Inr p \<Longrightarrow> \<exists>r. try_fold step (a0, b0) xs = Inr r"
    and collect_fold_error: "try_fold step (a0, b0) xs = Inl e \<Longrightarrow> \<exists>x\<in>set xs. f x = Inl e"
proof (induction xs arbitrary: a0 b0)
  case Nil
  {
    case 1 then show ?case by auto
  next
    case 2 then show ?case by simp
  next
    case 3 then show ?case by simp
  }
next
  case (Cons x xs)
  {
    case 1
    then obtain p where p: "f x = Inr p" "try_fold step (a0 @ [p], map g (a0 @ [p])) xs = Inr (ps, ds)"
      by (auto simp: step_def result_simps)
    from Cons.IH(1) [OF p(2)] p(1) show ?case by auto
  next
    case 2
    then obtain p where p: "f x = Inr p" by auto
    with 2 Cons.IH(2) [of "a0 @ [p]" "b0 @ [g p]"] show ?case by (simp add: step_def)
  next
    case 3
    then consider "f x = Inl e" | p where "try_fold step (a0 @ [p], b0 @ [g p]) xs = Inl e"
      by (auto simp: step_def result_simps)
    then show ?case using Cons.IH(3) by cases auto
  }
qed

lemma compile_phases_ok:
  assumes "registered xs t" "compile_phases c t xs = Inr (ps, ds)"
  shows "ds = map phase_definition ps \<and> length ps = length xs \<and>
    (\<forall>i<length xs. compiled_from c xs i (ps ! i) \<and> dependencies_known xs (xs ! i))"
proof -
  have "ds = map phase_definition ps \<and> list_all2 (\<lambda>ip p. compile_phase c t ip = Inr p) (enumerate 0 xs) ps"
    using collect_fold_ok [of "compile_phase c t" phase_definition "[]"] assms(2)
    unfolding compile_phases_def by auto
  then have ds: "ds = map phase_definition ps" and len: "length ps = length xs"
    and run: "\<And>i. i < length xs \<Longrightarrow> compile_phase c t (i, xs ! i) = Inr (ps ! i)"
    by (auto simp: list_all2_conv_all_nth nth_enumerate_eq)
  show ?thesis using ds len compile_phase_ok [OF assms(1) _ run] by blast
qed

lemma compile_phases_total:
  assumes "registered xs t" "\<forall>x\<in>set xs. dependencies_known xs x"
  shows "\<exists>r. compile_phases c t xs = Inr r"
proof -
  have "\<forall>ip\<in>set (enumerate 0 xs). \<exists>p. compile_phase c t ip = Inr p"
    using assms compile_phase_total by (auto simp: in_set_enumerate_eq)
  then show ?thesis unfolding compile_phases_def by (rule collect_fold_total)
qed

lemma compile_phases_error:
  assumes "registered xs t" "compile_phases c t xs = Inl e"
  shows "error_justified xs e"
proof -
  obtain ip where ip: "ip \<in> set (enumerate 0 xs)" "compile_phase c t ip = Inl e"
    using collect_fold_error [of "compile_phase c t" phase_definition "[]"] assms(2)
    unfolding compile_phases_def by blast
  have "(fst ip, snd ip) = ip" "snd ip \<in> set xs"
    using ip(1) by (auto simp: in_set_enumerate_eq) (metis nth_mem)
  with compile_phase_error [OF assms(1), of "snd ip" c "fst ip" e] ip(2) show ?thesis by simp
qed

section \<open>The compiled graph is the proposal's graph, renamed\<close>

definition compiled_plan :: "AuthoredParseContext \<Rightarrow> MissionProposal \<Rightarrow> AuthoredPhase list \<Rightarrow> bool" where
  "compiled_plan c xs ps \<longleftrightarrow> length ps = length xs \<and> (\<forall>i<length xs. compiled_from c xs i (ps ! i))"

lemma compiled_plan_ids:
  assumes "compiled_plan c xs ps"
  shows "map ap_id ps = positional_ids (length xs)"
  using assms by (auto simp: compiled_plan_def compiled_from_def Let_def positional_ids_def intro: nth_equalityI)

lemma compiled_plan_names:
  assumes "compiled_plan c xs ps"
  shows "map ap_name ps = proposal_names xs"
  using assms by (auto simp: compiled_plan_def compiled_from_def Let_def proposal_names_def intro: nth_equalityI)

lemma plan_definitions_ids [simp]: "map def_id (plan_definitions ps) = map ap_id ps"
  by (simp add: plan_definitions_def phase_definition_def)

lemma compiled_plan_edges:
  assumes "compiled_plan c xs ps" "distinct (proposal_names xs)"
  shows "plan_edges (plan_definitions ps) = map_prod (id_of xs) (id_of xs) ` name_edges xs"
proof (rule set_eqI, clarify)
  fix p d
  have dist: "distinct (map def_id (plan_definitions ps))"
    by (simp add: compiled_plan_ids [OF assms(1)])
  have len: "length ps = length xs" and from_xs: "\<And>i. i < length xs \<Longrightarrow> compiled_from c xs i (ps ! i)"
    using assms(1) by (auto simp: compiled_plan_def)
  have "(p, d) \<in> plan_edges (plan_definitions ps) \<longleftrightarrow>
      (\<exists>x\<in>set ps. ap_id x = p \<and> d \<in> set (ap_dependencies x))"
    unfolding plan_edges_distinct [OF dist] by (simp add: plan_definitions_def phase_definition_def)
  also have "\<dots> \<longleftrightarrow> (\<exists>i<length xs. ap_id (ps ! i) = p \<and> d \<in> set (ap_dependencies (ps ! i)))"
    unfolding bex_nth len ..
  also have "\<dots> \<longleftrightarrow> (\<exists>i<length xs. positional i = p \<and> d \<in> id_of xs ` set (prop_depends_on (xs ! i)))"
    using from_xs by (auto simp: compiled_from_def Let_def)
  also have "\<dots> \<longleftrightarrow> (\<exists>i<length xs. id_of xs (prop_name (xs ! i)) = p \<and>
      d \<in> id_of xs ` set (prop_depends_on (xs ! i)))"
    using assms(2) by (auto simp: id_of_nth)
  also have "\<dots> \<longleftrightarrow> (\<exists>x\<in>set xs. id_of xs (prop_name x) = p \<and> d \<in> id_of xs ` set (prop_depends_on x))"
    unfolding bex_nth ..
  also have "\<dots> \<longleftrightarrow> (p, d) \<in> map_prod (id_of xs) (id_of xs) ` name_edges xs"
    by (auto simp: name_edges_def intro!: map_prod_imageI)
  finally show "(p, d) \<in> plan_edges (plan_definitions ps) \<longleftrightarrow>
      (p, d) \<in> map_prod (id_of xs) (id_of xs) ` name_edges xs" .
qed

lemma name_edges_field:
  assumes "\<forall>x\<in>set xs. dependencies_known xs x"
  shows "Field (name_edges xs) \<subseteq> set (proposal_names xs)"
  using assms by (auto simp: Field_def Domain_iff Range_iff name_edges_def dependencies_known_def proposal_names_def)

lemma compiled_plan_acyclic:
  assumes "compiled_plan c xs ps" "distinct (proposal_names xs)" "\<forall>x\<in>set xs. dependencies_known xs x"
  shows "acyclic (plan_edges (plan_definitions ps)) \<longleftrightarrow> acyclic (name_edges xs)"
  unfolding compiled_plan_edges [OF assms(1,2)]
  by (rule acyclic_image) (rule inj_on_subset [OF id_of_inj [OF assms(2)] name_edges_field [OF assms(3)]])

lemma compiled_plan_accepted:
  assumes "compiled_plan c xs ps" "proposal_valid xs"
  shows "plan_accepted (plan_definitions ps)"
proof -
  have valid: "xs \<noteq> []" "distinct (proposal_names xs)" "\<forall>x\<in>set xs. dependencies_known xs x"
    "acyclic (name_edges xs)" using assms(2) by (auto simp: proposal_valid_def)
  have ids: "map ap_id ps = positional_ids (length xs)" using assms(1) by (rule compiled_plan_ids)
  have deps: "distinct (ap_dependencies p) \<and> set (ap_dependencies p) \<subseteq> set (map ap_id ps)" if p_in: "p \<in> set ps" for p
  proof -
    obtain i where i: "i < length xs" "p = ps ! i"
      using p_in assms(1) by (auto simp: compiled_plan_def set_conv_nth)
    then have p: "distinct (ap_dependencies p)" "set (ap_dependencies p) = id_of xs ` set (prop_depends_on (xs ! i))"
      using assms(1) by (auto simp: compiled_plan_def compiled_from_def Let_def)
    have "id_of xs d \<in> set (map ap_id ps)" if d_in: "d \<in> set (prop_depends_on (xs ! i))" for d
    proof -
      have "d \<in> set (proposal_names xs)"
        using valid(3) i(1) d_in by (auto simp: dependencies_known_def)
      then obtain j where "j < length xs" "d = prop_name (xs ! j)"
        by (auto simp: proposal_names_def in_set_conv_nth)
      then show ?thesis using valid(2) ids by (auto simp: id_of_nth set_positional_ids)
    qed
    with p show ?thesis by auto
  qed
  have "plan_definitions ps \<noteq> []" using assms(1) valid(1) by (auto simp: plan_definitions_def compiled_plan_def)
  moreover have "\<forall>d\<in>set (plan_definitions ps). distinct (def_dependencies d) \<and>
      set (def_dependencies d) \<subseteq> set (map def_id (plan_definitions ps))"
    using deps unfolding plan_definitions_ids by (auto simp: plan_definitions_def phase_definition_def)
  ultimately show ?thesis
    unfolding plan_accepted_def
    using compiled_plan_acyclic [OF assms(1) valid(2,3)] valid(4) ids by auto
qed

end
