(* ===== verification/Mission_Planning.thy ===== *)
theory Mission_Planning
  imports Proposal_Correct
begin

text \<open>
  The compiler's contract: what it accepts, what its errors say, and that every compiled plan
  starts a mission; the keyword fallback is always compiled.
\<close>

lemma map_err_Inl_iff [result_simps]: "map_err f r = Inl e \<longleftrightarrow> (\<exists>e'. r = Inl e' \<and> f e' = e)"
  by (cases r) auto

lemma register_valid:
  assumes "register_phases xs = Inr t"
  shows "registered xs t" "\<forall>x\<in>set xs. fields_complete x" "distinct (proposal_names xs)"
  using register_phases_ok [OF assms] by (auto simp: list_all_iff)

lemma compile_proposal_ok:
  assumes "compile_proposal xs c = Inr plan"
  shows "proposal_valid xs \<and> compiled_plan c xs (cp_phases plan)"
proof -
  obtain t ps ds where t: "register_phases xs = Inr t" and c: "compile_phases c t xs = Inr (ps, ds)"
    and cyc: "detect_cycle ds = Inr ()" and plan: "cp_phases plan = ps"
    and len: "xs \<noteq> []" "length xs \<le> 12"
    using assms by (auto simp: compile_proposal_def result_simps MAX_PHASES_def split: if_splits)
  note reg = register_valid [OF t]
  have ds: "ds = plan_definitions ps" and shape: "compiled_plan c xs ps"
    and known: "\<forall>x\<in>set xs. dependencies_known xs x"
    using compile_phases_ok [OF reg(1) c] by (auto simp: plan_definitions_def compiled_plan_def in_set_conv_nth)
  have "acyclic (name_edges xs)"
    using cyc compiled_plan_acyclic [OF shape reg(3) known] by (simp add: ds detect_cycle_ok_iff)
  with len reg known shape plan show ?thesis by (auto simp: proposal_valid_def)
qed

lemma compile_proposal_total:
  assumes "proposal_valid xs"
  shows "\<exists>plan. compile_proposal xs c = Inr plan"
proof -
  have v: "xs \<noteq> []" "length xs \<le> 12" "\<forall>x\<in>set xs. fields_complete x" "\<forall>x\<in>set xs. dependencies_known xs x"
    "distinct (proposal_names xs)" "acyclic (name_edges xs)"
    using assms by (auto simp: proposal_valid_def)
  obtain t where t: "register_phases xs = Inr t"
    using register_phases_complete v(3,5) by (auto simp: list_all_iff)
  note reg = register_valid [OF t]
  obtain ps ds where c: "compile_phases c t xs = Inr (ps, ds)"
    using compile_phases_total [OF reg(1) v(4), of c] by auto
  have ds: "ds = plan_definitions ps" and shape: "compiled_plan c xs ps"
    using compile_phases_ok [OF reg(1) c] by (auto simp: plan_definitions_def compiled_plan_def)
  have "detect_cycle ds = Inr ()"
    using v(6) compiled_plan_acyclic [OF shape v(5,4)] by (simp add: ds detect_cycle_ok_iff)
  with t c v show ?thesis by (simp add: compile_proposal_def MAX_PHASES_def)
qed

lemma cycle_named:
  assumes reg: "registered xs t" and dist: "distinct (proposal_names xs)"
    and shape: "compiled_plan c xs ps" and known: "\<forall>x\<in>set xs. dependencies_known xs x"
    and err: "detect_cycle (plan_definitions ps) = Inl e"
  shows "error_justified xs (map_state_build_error (nt_id_to_name t) e)"
proof -
  obtain q where q: "e = DependencyCycle q" "(q, q) \<in> (plan_edges (plan_definitions ps))\<^sup>+"
    using detect_cycle_error [OF err] by blast
  have inj: "inj_on (id_of xs) (Field (name_edges xs))"
    by (rule inj_on_subset [OF id_of_inj [OF dist] name_edges_field [OF known]])
  obtain a b where ab: "q = id_of xs a" "q = id_of xs b" "(a, b) \<in> (name_edges xs)\<^sup>+"
    using trancl_image_inv [OF inj] q(2) unfolding compiled_plan_edges [OF shape dist] by blast
  then have field: "a \<in> Field (name_edges xs)" "b \<in> Field (name_edges xs)"
    by (metis FieldI1 tranclD, metis FieldI2 tranclD2)
  then have "a = b" using inj ab by (metis inj_onD)
  moreover have "name_of (nt_id_to_name t) q = a"
    using registered_name_of [OF reg dist] name_edges_field [OF known] field ab by blast
  ultimately show ?thesis using ab q by simp
qed

lemma compile_proposal_error:
  assumes "compile_proposal xs c = Inl e"
  shows "error_justified xs e"
proof (cases "xs = [] \<or> 12 < length xs")
  case True
  with assms show ?thesis by (auto simp: compile_proposal_def MAX_PHASES_def split: if_splits)
next
  case False
  then consider (register) "register_phases xs = Inl e"
    | (compile) t where "register_phases xs = Inr t" "compile_phases c t xs = Inl e"
    | (cycle) t ps ds e' where "register_phases xs = Inr t" "compile_phases c t xs = Inr (ps, ds)"
        "detect_cycle ds = Inl e'" "e = map_state_build_error (nt_id_to_name t) e'"
    using assms by (auto simp: compile_proposal_def MAX_PHASES_def result_simps)
  then show ?thesis
  proof cases
    case register
    then show ?thesis using register_phases_error [of xs e "[]"] by simp
  next
    case compile
    then show ?thesis using compile_phases_error register_valid(1) by blast
  next
    case cycle
    note reg = register_valid [OF cycle(1)]
    have "ds = plan_definitions ps" "compiled_plan c xs ps" "\<forall>x\<in>set xs. dependencies_known xs x"
      using compile_phases_ok [OF reg(1) cycle(2)]
      by (auto simp: plan_definitions_def compiled_plan_def in_set_conv_nth)
    then show ?thesis using cycle_named [OF reg(1,3)] cycle(3,4) by simp
  qed
qed

section \<open>The keyword fallback\<close>

lemma strip_words_keeps:
  "c \<in> set s \<Longrightarrow> \<forall>w\<in>set ws. c \<notin> set w \<Longrightarrow> c \<in> set (strip_words ws s)"
proof (induction ws s rule: strip_words.induct)
  case (1 ws s)
  show ?case
  proof (cases "find (\<lambda>w. w \<noteq> [] \<and> starts_with s w) ws")
    case None
    with 1 show ?thesis by (simp add: strip_words.simps [of ws s])
  next
    case (Some w)
    then have w: "w \<in> set ws" "take (length w) s = w"
      by (auto simp: find_Some_iff starts_with_def)
    have "c \<in> set (take (length w) s @ drop (length w) s)" using "1.prems"(1) by simp
    then have "c \<in> set (drop (length w) s)" using w "1.prems"(2) by (auto simp del: append_take_drop_id)
    with 1 Some show ?thesis by (simp add: strip_words.simps [of ws s])
  qed
qed

definition not_space :: "char \<Rightarrow> bool" where
  "not_space c \<longleftrightarrow> list_all (\<lambda>w. c \<notin> set w) unicode_spaces"

lemma trim_keeps: "c \<in> set s \<Longrightarrow> not_space c \<Longrightarrow> trim s \<noteq> []"
proof -
  assume c: "c \<in> set s" and sp: "not_space c"
  have ws: "\<forall>w\<in>set unicode_spaces. c \<notin> set w" using sp by (simp add: not_space_def list_all_iff)
  then have "c \<in> set (trim_start s)" using c by (simp add: trim_start_def strip_words_keeps)
  then have "c \<in> set (strip_words (map rev unicode_spaces) (rev (trim_start s)))"
    using ws by (intro strip_words_keeps) auto
  then show ?thesis by (auto simp: trim_def trim_end_def)
qed

lemma trim_nonempty: "list_ex not_space s \<Longrightarrow> trim s \<noteq> []"
  by (auto simp: list_ex_iff dest: trim_keeps)

lemma fallback_fields:
  "fields_complete (fallback_phase ''research'' (''Research '' @ s) ds)"
  "fields_complete (fallback_phase ''implement'' (''Implement '' @ s) ds)"
  "fields_complete (fallback_phase ''verify'' (''Verify '' @ s) ds)"
proof -
  have letters: "not_space CHR ''r''" "not_space CHR ''R''" "not_space CHR ''i''" "not_space CHR ''I''"
      "not_space CHR ''v''" "not_space CHR ''V''"
    by (simp_all add: not_space_def unicode_spaces_def)
  show "fields_complete (fallback_phase ''research'' (''Research '' @ s) ds)"
    "fields_complete (fallback_phase ''implement'' (''Implement '' @ s) ds)"
    "fields_complete (fallback_phase ''verify'' (''Verify '' @ s) ds)"
    by (simp_all add: fields_complete_def fallback_phase_def trim_nonempty letters)
qed

lemma keyword_fallback_valid: "proposal_valid (keyword_fallback_proposal task)"
proof -
  define summary where "summary = (if trim task = [] then ''the requested task'' else trim task)"
  define implement where "implement = fallback_phase ''implement'' (''Implement '' @ summary) []"
  define verify where "verify = fallback_phase ''verify'' (''Verify '' @ summary) [''implement'']"
  note defs = implement_def verify_def fallback_phase_def
  have complete: "fields_complete implement" "fields_complete verify"
    unfolding implement_def verify_def by (rule fallback_fields)+
  have edge: "name_edges [implement, verify] \<subseteq> {(''verify'', ''implement'')}"
    by (auto simp: name_edges_def defs)
  have "acyclic {(''verify'', ''implement'')}"
    by (rule acyclicI) (auto elim: tranclE dest: tranclD)
  then have two: "proposal_valid [implement, verify]"
    using complete acyclic_subset [OF _ edge]
    by (auto simp: proposal_valid_def dependencies_known_def proposal_names_def defs)
  have one: "proposal_valid [p]" if "fields_complete p" "prop_depends_on p = []" for p
    using that by (simp add: proposal_valid_def dependencies_known_def proposal_names_def name_edges_def acyclic_def)
  define research where "research = fallback_phase ''research'' (''Research '' @ summary) []"
  have "fields_complete research" unfolding research_def by (rule fallback_fields)
  then have "proposal_valid [research]" "proposal_valid [implement]"
    by (rule one, simp add: research_def fallback_phase_def) (rule one [OF complete(1)], simp add: defs)
  moreover have "keyword_fallback_proposal task \<in> {[research], [implement], [implement, verify]}"
    by (auto simp: keyword_fallback_proposal_def Let_def summary_def implement_def verify_def research_def)
  ultimately show ?thesis using two by (metis insertE singletonD)
qed

section \<open>Properties\<close>

definition demo_proposal :: MissionProposal where
  "demo_proposal =
     [fallback_phase ''build'' ''Build it'' [],
      fallback_phase ''test'' ''Test it'' [''build'', ''build''],
      fallback_phase ''ship'' ''Ship it'' [''test'', ''build'']]"

definition cyclic_proposal :: MissionProposal where
  "cyclic_proposal =
     [fallback_phase ''a'' ''Do a'' [''b''], fallback_phase ''b'' ''Do b'' [''a'']]"

text \<open>
  C16. A proposal compiles exactly when it has one to twelve phases with non-blank names and
  objectives, distinct names, dependencies that name other phases of the proposal, and no
  dependency cycle among the names; every error names a defect the proposal really has.
\<close>

theorem compile_proposal_exact:
  "(is_ok (compile_proposal xs c) \<longleftrightarrow> proposal_valid xs) \<and>
   (\<forall>e. compile_proposal xs c = Inl e \<longrightarrow> error_justified xs e)"
  using compile_proposal_ok compile_proposal_total compile_proposal_error by (auto simp: is_ok_iff)

theorem compile_proposal_exact_witness:
  "compile_proposal cyclic_proposal AuthoredParseContext_default = Inl (Cycle ''a'') \<and>
   error_justified cyclic_proposal (Cycle ''a'')"
proof -
  have run: "compile_proposal cyclic_proposal AuthoredParseContext_default = Inl (Cycle ''a'')"
    by code_simp
  with compile_proposal_exact [of cyclic_proposal AuthoredParseContext_default] show ?thesis by blast
qed

text \<open>
  C17. Every compiled plan starts a mission: \<open>MissionState::new\<close> accepts its phases, which keep
  the names of the proposal in order, carry the identifiers \<open>phase-1\<close>, \<open>phase-2\<close>, \dots and
  depend exactly on the phases the proposal names.
\<close>

theorem compiled_plan_starts_mission:
  assumes "compile_proposal xs c = Inr plan"
  shows "is_ok (MissionState_new mid (plan_definitions (cp_phases plan))) \<and>
    map ap_name (cp_phases plan) = map prop_name xs \<and>
    map ap_id (cp_phases plan) = map (\<lambda>i. Name (''phase-'' @ decimal (Suc i))) [0..<length xs] \<and>
    plan_edges (plan_definitions (cp_phases plan)) =
      {(ap_id p, ap_id q) | p q. p \<in> set (cp_phases plan) \<and> q \<in> set (cp_phases plan) \<and>
         (ap_name p, ap_name q) \<in> name_edges xs}"
proof -
  let ?ps = "cp_phases plan"
  have v: "proposal_valid xs" and shape: "compiled_plan c xs ?ps"
    using compile_proposal_ok [OF assms] by auto
  have dist: "distinct (proposal_names xs)" and known: "\<forall>x\<in>set xs. dependencies_known xs x"
    using v by (auto simp: proposal_valid_def)
  have ids: "ap_id p = id_of xs (ap_name p)" if p: "p \<in> set ?ps" for p
  proof -
    obtain i where "i < length xs" "p = ?ps ! i"
      using p shape by (auto simp: compiled_plan_def set_conv_nth)
    with shape dist show ?thesis
      by (auto simp: compiled_plan_def compiled_from_def Let_def id_of_nth)
  qed
  have names: "set (proposal_names xs) = ap_name ` set ?ps"
    using compiled_plan_names [OF shape] by (metis set_map)
  have "map_prod (id_of xs) (id_of xs) ` name_edges xs =
      {(ap_id p, ap_id q) | p q. p \<in> set ?ps \<and> q \<in> set ?ps \<and> (ap_name p, ap_name q) \<in> name_edges xs}"
    (is "?l = ?r")
  proof
    show "?r \<subseteq> ?l" using ids by (auto intro!: map_prod_imageI)
    show "?l \<subseteq> ?r"
    proof
      fix e assume "e \<in> ?l"
      then obtain m n where e: "(m, n) \<in> name_edges xs" "e = (id_of xs m, id_of xs n)" by auto
      then have "m \<in> set (proposal_names xs)" "n \<in> set (proposal_names xs)"
        using name_edges_field [OF known] by (auto simp: Field_def)
      then obtain p q where pq: "p \<in> set ?ps" "q \<in> set ?ps" "m = ap_name p" "n = ap_name q"
        unfolding names by blast
      then have "e = (ap_id p, ap_id q)" using ids e(2) by simp
      with e(1) pq show "e \<in> ?r" by blast
    qed
  qed
  then show ?thesis
    using compiled_plan_accepted [OF shape v] compiled_plan_names [OF shape] compiled_plan_ids [OF shape]
    by (simp add: is_ok_iff MissionState_new_Inr compiled_plan_edges [OF shape dist]
        proposal_names_def positional_ids_def positional_def phase_id_text_def)
qed

theorem compiled_plan_starts_mission_witness:
  "\<exists>plan. compile_proposal demo_proposal AuthoredParseContext_default = Inr plan \<and>
     is_ok (MissionState_new (Name ''m'') (plan_definitions (cp_phases plan)))"
proof -
  have "is_ok (compile_proposal demo_proposal AuthoredParseContext_default)" by code_simp
  then obtain plan where "compile_proposal demo_proposal AuthoredParseContext_default = Inr plan"
    by (auto simp: is_ok_iff)
  with compiled_plan_starts_mission [OF this] show ?thesis by blast
qed

text \<open>
  The keyword fallback never fails: for every task text and every context its proposal
  compiles.
\<close>

theorem keyword_fallback_compiles:
  "\<exists>plan. compile_proposal (keyword_fallback_proposal task) c = Inr plan"
  by (rule compile_proposal_total) (rule keyword_fallback_valid)

end
