(* ===== verification/Authored_Correct.thy ===== *)
theory Authored_Correct
  imports Mission_Planning
begin

text \<open>
  What the authored-mission parser delivers, whatever the source text: positional identifiers,
  distinct names, dependencies that point to the phase itself or to earlier ones, at most twelve
  phases; when the reducer accepts such a plan, and which execution mode it gets.
\<close>

section \<open>Execution mode\<close>

lemma repeats_iff: "repeats ks seen \<longleftrightarrow> (\<exists>k\<in>set ks. k \<in> seen) \<or> \<not> distinct ks"
  by (induction ks seen rule: repeats.induct) auto

lemma split_on_no_char: "c \<notin> set s \<Longrightarrow> split_on c s = [s]"
  by (induction s) auto

lemma split_on_append: "c \<notin> set s \<Longrightarrow> split_on c (s @ c # r) = s # split_on c r"
  by (induction s) auto

lemma split_on_str_join:
  "ss \<noteq> [] \<Longrightarrow> \<forall>s\<in>set ss. c \<notin> set s \<Longrightarrow> split_on c (str_join [c] ss) = ss"
  by (induction ss) (auto simp: split_on_no_char split_on_append)

lemma positional_no_comma: "CHR '','' \<notin> set (as_str (positional i))"
proof
  assume "CHR '','' \<in> set (as_str (positional i))"
  then have "CHR '','' \<in> set (decimal (Suc i))" by (simp add: positional_def phase_id_text_def)
  then have "is_digit CHR '',''" using decimal_digits [of "Suc i"] by (auto simp: list_all_iff)
  then show False by (simp add: is_digit_def byte_def)
qed

lemma join_positional_inj:
  assumes "xs \<noteq> []" "ys \<noteq> []" "set xs \<subseteq> range positional" "set ys \<subseteq> range positional"
    and "str_join '','' (map as_str xs) = str_join '','' (map as_str ys)"
  shows "xs = ys"
proof -
  have split: "split_on CHR '','' (str_join '','' (map as_str zs)) = map as_str zs"
    if "zs \<noteq> []" "set zs \<subseteq> range positional" for zs
    using that positional_no_comma by (intro split_on_str_join) auto
  have "map as_str xs = split_on CHR '','' (str_join '','' (map as_str xs))"
    using split [OF assms(1,3)] ..
  also have "\<dots> = map as_str ys"
    unfolding assms(5) by (rule split [OF assms(2,4)])
  finally have "map as_str xs = map as_str ys" .
  then show ?thesis using inj_map_eq_map [of as_str] by (metis injI name.expand)
qed

definition backward_plan :: "AuthoredPhase list \<Rightarrow> bool" where
  "backward_plan ps \<longleftrightarrow>
     map ap_id ps = positional_ids (length ps) \<and>
     (\<forall>i<length ps. set (ap_dependencies (ps ! i)) \<subseteq> positional ` {..i})"

lemma backward_plan_deps: "backward_plan ps \<Longrightarrow> p \<in> set ps \<Longrightarrow> set (ap_dependencies p) \<subseteq> range positional"
  by (fastforce simp: backward_plan_def set_conv_nth)

definition dependency_lists :: "AuthoredPhase list \<Rightarrow> PhaseId list list" where
  "dependency_lists ps = filter (\<lambda>ds. ds \<noteq> []) (map ap_dependencies ps)"

lemma execution_mode_exact:
  assumes "\<forall>p\<in>set ps. set (ap_dependencies p) \<subseteq> range positional"
  shows "derive_execution_mode ps = Sequential \<longleftrightarrow>
     length ps < 2 \<or>
     ((\<forall>p\<in>set (tl ps). ap_dependencies p \<noteq> []) \<and> distinct (dependency_lists ps))"
proof -
  let ?f = "\<lambda>ds. str_join '','' (map as_str ds)"
  have "inj_on ?f (set (dependency_lists ps))"
    using assms join_positional_inj by (auto simp: inj_on_def dependency_lists_def)
  then have "distinct (map ?f (dependency_lists ps)) \<longleftrightarrow> distinct (dependency_lists ps)"
    by (simp add: distinct_map)
  moreover have "map (\<lambda>p. ?f (ap_dependencies p)) (filter (\<lambda>p. ap_dependencies p \<noteq> []) ps)
      = map ?f (dependency_lists ps)"
    by (simp add: dependency_lists_def filter_map comp_def)
  ultimately show ?thesis
    by (auto simp: derive_execution_mode_def repeats_iff list_ex_iff drop_Suc)
qed

section \<open>The parser's loop\<close>

definition authored_inv :: "ParseState \<Rightarrow> bool" where
  "authored_inv st \<longleftrightarrow>
     backward_plan (ps_phases st) \<and>
     ps_accepted_names st = set (map ap_name (ps_phases st)) \<and>
     distinct (map ap_name (ps_phases st)) \<and>
     (\<forall>p\<in>set (ps_phases st). ap_name p \<noteq> [] \<and> ap_objective p \<noteq> [] \<and> ap_status p = ''pending'') \<and>
     bt_wf (ps_name_to_id st) \<and>
     (\<forall>n pid. bt_get (ps_name_to_id st) n = Some pid \<longrightarrow>
        (\<exists>i<length (ps_phases st). pid = positional i))"

lemma filled_nonempty: "filled es k = Some v \<Longrightarrow> v \<noteq> []"
  by (auto simp: filled_def split: option.splits if_splits)

lemma parse_line_cases:
  obtains (skip) "parse_line c st l = Inr st"
  | (phase) es name objective m where "name \<noteq> []" "objective \<noteq> []" "name \<notin> ps_accepted_names st"
      "m = bt_insert name (positional (length (ps_phases st))) (ps_name_to_id st)"
      "parse_line c st l = Inr
         \<lparr>ps_phases = ps_phases st @ [authored_phase c es m (positional (length (ps_phases st))) name objective],
          ps_accepted_names = insert name (ps_accepted_names st), ps_name_to_id = m\<rparr>"
proof -
  let ?line = "trim_matches (CHR 0x60) (trim l)"
  let ?es = "parse_fields ?line"
  show ?thesis
  proof (cases "starts_with ?line ''PHASE:''")
    case False
    then show ?thesis by (intro skip) (simp add: parse_line_def)
  next
    case line: True
    show ?thesis
    proof (cases "filled ?es ''PHASE''")
      case None
      with line show ?thesis by (intro skip) (simp add: parse_line_def Let_def)
    next
      case name: (Some name)
      show ?thesis
      proof (cases "filled ?es ''OBJECTIVE''")
        case None
        with line name show ?thesis by (intro skip) (simp add: parse_line_def Let_def)
      next
        case objective: (Some objective)
        show ?thesis
        proof (cases "name \<in> ps_accepted_names st")
          case True
          with line name objective show ?thesis by (intro skip) (simp add: parse_line_def Let_def)
        next
          case False
          with line name objective show ?thesis
            by (intro phase [of name objective _ ?es])
              (auto simp: parse_line_def Let_def PhaseId_new_positional [simplified] dest: filled_nonempty)
        qed
      qed
    qed
  qed
qed

lemma authored_phase_facts:
  "ap_id (authored_phase c es m pid name objective) = pid"
  "ap_name (authored_phase c es m pid name objective) = name"
  "ap_objective (authored_phase c es m pid name objective) = objective"
  "ap_status (authored_phase c es m pid name objective) = ''pending''"
  "set (ap_dependencies (authored_phase c es m pid name objective)) \<subseteq> {p. \<exists>n. bt_get m n = Some p}"
  by (auto simp: authored_phase_def Let_def split: prod.split option.splits)
    (auto simp: map_filter_def)

lemma backward_plan_snoc:
  assumes "backward_plan ps" "ap_id p = positional (length ps)"
    and "set (ap_dependencies p) \<subseteq> positional ` {..length ps}"
  shows "backward_plan (ps @ [p])"
  using assms by (auto simp: backward_plan_def nth_append less_Suc_eq)

lemma parse_line_inv:
  assumes inv: "authored_inv st" and run: "parse_line c st l = Inr st'"
  shows "authored_inv st' \<and> length (ps_phases st') \<le> Suc (length (ps_phases st))"
  using parse_line_cases [of c st l]
proof cases
  case skip
  with assms show ?thesis by simp
next
  case (phase es name objective m)
  let ?n = "length (ps_phases st)"
  let ?p = "authored_phase c es m (positional ?n) name objective"
  have st': "ps_phases st' = ps_phases st @ [?p]" "ps_accepted_names st' = insert name (ps_accepted_names st)"
    "ps_name_to_id st' = m"
    using run phase(5) by auto
  have wf: "bt_wf m" using inv phase(4) by (simp add: authored_inv_def bt_insert_wf)
  have get: "\<exists>i\<le>?n. pid = positional i" if g: "bt_get m n = Some pid" for n pid
  proof (cases "n = name")
    case True
    then show ?thesis using g inv by (auto simp: phase(4) authored_inv_def bt_insert_get)
  next
    case False
    then have "bt_get (ps_name_to_id st) n = Some pid"
      using g inv by (simp add: phase(4) authored_inv_def bt_insert_get)
    moreover have "\<forall>n pid. bt_get (ps_name_to_id st) n = Some pid \<longrightarrow> (\<exists>i<?n. pid = positional i)"
      using inv by (simp add: authored_inv_def)
    ultimately obtain i where "i < ?n" "pid = positional i" by blast
    then show ?thesis by (intro exI [of _ i]) simp
  qed
  have "set (ap_dependencies ?p) \<subseteq> positional ` {..?n}"
    using authored_phase_facts(5) [of c es m "positional ?n" name objective] get by fastforce
  then have bw: "backward_plan (ps_phases st')"
    using inv unfolding st' by (intro backward_plan_snoc) (auto simp: authored_inv_def authored_phase_facts)
  show ?thesis
    using inv bw wf get phase(1-3) unfolding authored_inv_def st'
    by (auto simp: authored_phase_facts less_Suc_eq_le)
qed

lemma parse_line_total: "\<exists>st'. parse_line c st l = Inr st'"
  using parse_line_cases [of c st l] by cases auto

lemma parse_lines_inv:
  "authored_inv st \<Longrightarrow> length (ps_phases st) < 12 \<Longrightarrow> parse_lines c st ls = Inr st' \<Longrightarrow>
     authored_inv st' \<and> length (ps_phases st') \<le> 12"
proof (induction ls arbitrary: st)
  case (Cons l ls)
  obtain st1 where run: "parse_line c st l = Inr st1" using parse_line_total by blast
  have st1: "authored_inv st1" "length (ps_phases st1) \<le> Suc (length (ps_phases st))"
    using parse_line_inv [OF Cons.prems(1) run] by auto
  show ?case
  proof (cases "length (ps_phases st1) = 12")
    case True
    then show ?thesis using Cons.prems(3) run st1 by (simp add: MAX_PHASES_def)
  next
    case False
    then have "parse_lines c st1 ls = Inr st'" "length (ps_phases st1) < 12"
      using Cons.prems run st1 by (simp_all add: MAX_PHASES_def)
    with Cons.IH [OF st1(1)] show ?thesis by blast
  qed
qed simp

lemma parse_lines_total: "\<exists>st'. parse_lines c st ls = Inr st'"
proof (induction ls arbitrary: st)
  case (Cons l ls)
  obtain st1 where "parse_line c st l = Inr st1" using parse_line_total by blast
  with Cons.IH [of st1] show ?case by auto
qed simp

lemma parse_authored_phases_inv:
  assumes "parse_authored_phases source c = Inr plan"
  shows "\<exists>st. authored_inv st \<and> ps_phases st = plan_phases plan \<and> plan_phases plan \<noteq> [] \<and>
     length (plan_phases plan) \<le> 12 \<and>
     plan_execution_mode plan = derive_execution_mode (plan_phases plan)"
proof -
  let ?init = "\<lparr>ps_phases = [], ps_accepted_names = {}, ps_name_to_id = []\<rparr>"
  obtain st where st: "parse_lines c ?init (str_lines source) = Inr st" "ps_phases st \<noteq> []"
    and plan: "plan = \<lparr>plan_phases = ps_phases st, plan_execution_mode = derive_execution_mode (ps_phases st)\<rparr>"
    using assms by (auto simp: parse_authored_phases_def result_simps)
  have "authored_inv ?init"
    by (simp add: authored_inv_def backward_plan_def positional_ids_def bt_wf_def)
  from parse_lines_inv [OF this _ st(1)] st(2) plan show ?thesis by auto
qed

section \<open>The reducer's verdict on an authored plan\<close>

lemma backward_plan_acyclic:
  assumes bw: "backward_plan ps" and self: "\<forall>p\<in>set ps. ap_id p \<notin> set (ap_dependencies p)"
  shows "acyclic (plan_edges (plan_definitions ps))"
proof -
  have ids: "map ap_id ps = positional_ids (length ps)" using bw by (simp add: backward_plan_def)
  then have id_nth: "ap_id (ps ! i) = positional i" if "i < length ps" for i
    using that nth_map [of i ps ap_id] by (simp add: positional_ids_def)
  have dist: "distinct (map def_id (plan_definitions ps))" by (simp add: ids)
  have "plan_edges (plan_definitions ps) \<subseteq> map_prod positional positional ` {(i, j). j < i}"
  proof clarify
    fix p d assume "(p, d) \<in> plan_edges (plan_definitions ps)"
    then have "\<exists>x\<in>set ps. ap_id x = p \<and> d \<in> set (ap_dependencies x)"
      unfolding plan_edges_distinct [OF dist] by (simp add: plan_definitions_def phase_definition_def)
    then obtain i where i: "i < length ps" "p = positional i" "d \<in> set (ap_dependencies (ps ! i))"
      unfolding bex_nth using id_nth by auto
    then obtain j where "j \<le> i" "d = positional j" using bw by (auto simp: backward_plan_def)
    moreover have "d \<noteq> positional i" using self i id_nth nth_mem by metis
    ultimately have "j < i" "d = positional j" by (auto simp: le_less)
    with i(2) show "(p, d) \<in> map_prod positional positional ` {(i, j). j < i}" by auto
  qed
  moreover have "acyclic (map_prod positional positional ` {(i, j). j < (i::nat)})"
  proof (subst acyclic_image)
    show "inj_on positional (Field {(i, j). j < (i::nat)})" by (simp add: inj_on_def)
    have "{(i, j). j < (i::nat)} = less_than\<inverse>" by auto
    then show "acyclic {(i, j). j < (i::nat)}" by (simp add: acyclic_converse wf_acyclic)
  qed
  ultimately show ?thesis by (rule acyclic_subset [rotated])
qed

lemma backward_plan_accepted_iff:
  assumes bw: "backward_plan ps" and ne: "ps \<noteq> []"
  shows "plan_accepted (plan_definitions ps) \<longleftrightarrow>
    (\<forall>p\<in>set ps. distinct (ap_dependencies p) \<and> ap_id p \<notin> set (ap_dependencies p))"
proof -
  have ids: "map ap_id ps = positional_ids (length ps)" using bw by (simp add: backward_plan_def)
  have dist: "distinct (map def_id (plan_definitions ps))" by (simp add: ids)
  have known: "set (ap_dependencies p) \<subseteq> set (map ap_id ps)" if p: "p \<in> set ps" for p
  proof -
    obtain i where "i < length ps" "p = ps ! i" using p by (auto simp: set_conv_nth)
    with bw have "set (ap_dependencies p) \<subseteq> positional ` {..i}" "{..i} \<subseteq> {0..<length ps}"
      by (auto simp: backward_plan_def)
    then show ?thesis unfolding ids set_positional_ids by blast
  qed
  have self: "acyclic (plan_edges (plan_definitions ps)) \<longleftrightarrow>
      (\<forall>p\<in>set ps. ap_id p \<notin> set (ap_dependencies p))"
  proof
    assume ac: "acyclic (plan_edges (plan_definitions ps))"
    show "\<forall>p\<in>set ps. ap_id p \<notin> set (ap_dependencies p)"
    proof (intro ballI notI)
      fix p assume "p \<in> set ps" "ap_id p \<in> set (ap_dependencies p)"
      then have "(ap_id p, ap_id p) \<in> plan_edges (plan_definitions ps)"
        unfolding plan_edges_distinct [OF dist] by (auto simp: plan_definitions_def phase_definition_def)
      with ac show False by (auto simp: acyclic_def)
    qed
  qed (rule backward_plan_acyclic [OF bw])
  have "plan_accepted (plan_definitions ps) \<longleftrightarrow>
      (\<forall>p\<in>set ps. distinct (ap_dependencies p)) \<and> acyclic (plan_edges (plan_definitions ps))"
    using ne known dist by (auto simp: plan_accepted_def plan_definitions_def phase_definition_def)
  then show ?thesis using self by blast
qed

section \<open>Properties\<close>

definition newline :: string where
  "newline = [CHR 0x0A]"

definition demo_source :: string where
  "demo_source =
     ''# Mission'' @ newline @
     ''PHASE: scan | OBJECTIVE: Read the code | RUNTIME: Codex'' @ newline @
     ''PHASE: fix | OBJECTIVE: Fix it | DEPENDS: scan, ghost | TIMEOUT: 5m'' @ newline @
     ''PHASE: loop | OBJECTIVE: Again | DEPENDS: loop'' @ newline"

text \<open>
  C18. Whatever the source text, a parsed plan has one to twelve phases with the identifiers
  \<open>phase-1\<close>, \<open>phase-2\<close>, \dots, distinct names, and dependencies on the phase itself or earlier
  ones only; so the reducer accepts it exactly when no phase lists itself or lists a dependency
  twice (an authored self-reference resolves, and is refused only there).
\<close>

theorem authored_plan_accepted_iff:
  assumes "parse_authored_phases source c = Inr plan"
  shows "1 \<le> length (plan_phases plan) \<and> length (plan_phases plan) \<le> 12 \<and>
    map ap_id (plan_phases plan) =
      map (\<lambda>i. Name (''phase-'' @ decimal (Suc i))) [0..<length (plan_phases plan)] \<and>
    distinct (map ap_name (plan_phases plan)) \<and>
    (\<forall>i<length (plan_phases plan).
       set (ap_dependencies (plan_phases plan ! i)) \<subseteq> set (map ap_id (take (Suc i) (plan_phases plan)))) \<and>
    (is_ok (MissionState_new mid (plan_definitions (plan_phases plan))) \<longleftrightarrow>
       (\<forall>p\<in>set (plan_phases plan). ap_id p \<notin> set (ap_dependencies p) \<and> distinct (ap_dependencies p)))"
proof -
  let ?ps = "plan_phases plan"
  obtain st where st: "authored_inv st" "ps_phases st = ?ps" "?ps \<noteq> []" "length ?ps \<le> 12"
    using parse_authored_phases_inv [OF assms] by blast
  then have bw: "backward_plan ?ps" and names: "distinct (map ap_name ?ps)"
    by (simp_all add: authored_inv_def)
  then have ids: "map ap_id ?ps = positional_ids (length ?ps)" by (simp add: backward_plan_def)
  have "set (ap_dependencies (?ps ! i)) \<subseteq> set (map ap_id (take (Suc i) ?ps))" if i: "i < length ?ps" for i
  proof -
    have "map ap_id (take (Suc i) ?ps) = positional_ids (Suc i)"
      using i unfolding take_map [symmetric] ids
      by (simp add: positional_ids_def take_map min_def del: upt_Suc)
    then have "set (map ap_id (take (Suc i) ?ps)) = positional ` {0..<Suc i}"
      by (simp only: set_positional_ids)
    moreover have "{0..<Suc i} = {..i}" by auto
    ultimately show ?thesis using bw i unfolding backward_plan_def by metis
  qed
  with st ids names backward_plan_accepted_iff [OF bw st(3)] show ?thesis
    by (auto simp: is_ok_iff MissionState_new_Inr Suc_le_eq positional_ids_def positional_def
        phase_id_text_def simp del: set_map)
qed

theorem authored_plan_accepted_iff_witness:
  "\<exists>plan. parse_authored_phases demo_source AuthoredParseContext_default = Inr plan \<and>
     \<not> is_ok (MissionState_new (Name ''m'') (plan_definitions (plan_phases plan)))"
proof -
  have "case parse_authored_phases demo_source AuthoredParseContext_default of
       Inl _ \<Rightarrow> False
     | Inr plan \<Rightarrow> \<exists>p\<in>set (plan_phases plan). ap_id p \<in> set (ap_dependencies p)"
    by code_simp
  then obtain plan where run: "parse_authored_phases demo_source AuthoredParseContext_default = Inr plan"
    and "\<exists>p\<in>set (plan_phases plan). ap_id p \<in> set (ap_dependencies p)"
    by (auto split: sum.splits)
  with authored_plan_accepted_iff [OF run] show ?thesis by blast
qed

text \<open>
  A parsed plan runs sequentially exactly when it has a single phase, or every phase after
  the first waits for something and no two phases wait for the same list: comparing the joined
  texts of the identifiers is comparing the lists.
\<close>

theorem authored_execution_mode:
  assumes "parse_authored_phases source c = Inr plan"
  shows "plan_execution_mode plan = Sequential \<longleftrightarrow>
    length (plan_phases plan) = 1 \<or>
    ((\<forall>p\<in>set (tl (plan_phases plan)). ap_dependencies p \<noteq> []) \<and>
     distinct (filter (\<lambda>ds. ds \<noteq> []) (map ap_dependencies (plan_phases plan))))"
proof -
  obtain st where st: "authored_inv st" "ps_phases st = plan_phases plan" "plan_phases plan \<noteq> []"
    "plan_execution_mode plan = derive_execution_mode (plan_phases plan)"
    using parse_authored_phases_inv [OF assms] by blast
  then have "backward_plan (plan_phases plan)" by (simp add: authored_inv_def)
  then have "\<forall>p\<in>set (plan_phases plan). set (ap_dependencies p) \<subseteq> range positional"
    using backward_plan_deps by blast
  from execution_mode_exact [OF this] st(3,4) show ?thesis
    by (cases "plan_phases plan"; cases "tl (plan_phases plan)") (simp_all add: dependency_lists_def)
qed

theorem authored_execution_mode_witness:
  "\<exists>plan. parse_authored_phases demo_source AuthoredParseContext_default = Inr plan \<and>
     plan_execution_mode plan = Sequential"
proof -
  have "case parse_authored_phases demo_source AuthoredParseContext_default of
       Inl _ \<Rightarrow> False
     | Inr plan \<Rightarrow> (\<forall>p\<in>set (tl (plan_phases plan)). ap_dependencies p \<noteq> []) \<and>
         distinct (filter (\<lambda>ds. ds \<noteq> []) (map ap_dependencies (plan_phases plan)))"
    by code_simp
  then obtain plan where run: "parse_authored_phases demo_source AuthoredParseContext_default = Inr plan"
    and "\<forall>p\<in>set (tl (plan_phases plan)). ap_dependencies p \<noteq> []"
      "distinct (filter (\<lambda>ds. ds \<noteq> []) (map ap_dependencies (plan_phases plan)))"
    by (auto split: sum.splits)
  with authored_execution_mode [OF run] show ?thesis by blast
qed

end
