(* ===== verification/Json_Scanner.thy ===== *)
theory Json_Scanner
  imports Rust_Text "HOL-Library.Sublist"
begin

text \<open>
  The validating JSON scanner that follows Go's \<open>encoding/json\<close>
  (\<^verbatim>\<open>orchestrator-core/src/codec.rs\<close>, \<open>GoJsonParser\<close>): white space, literals, strings,
  numbers, and the iterative \<open>skip_value\<close> with its explicit stack of open containers and its
  nesting bound. The parser's state, a buffer and a cursor, is the list of bytes from the
  cursor on; \<open>peek\<close> looks at its head.
\<close>

datatype EventError =
    JsonError
  | GoJson string
  | RootNotObject
  | InvalidField string string
  | InvalidTimestamp string
  | InvalidData
  | SlicePanic  \<comment> \<open>an index or slice out of bounds, which aborts the program\<close>

type_synonym 'a scan = "string \<Rightarrow> EventError + 'a \<times> string"

definition GO_JSON_MAX_NESTING_DEPTH :: nat where
  "GO_JSON_MAX_NESTING_DEPTH = 10000"

section \<open>Tokens\<close>

definition json_space :: "char \<Rightarrow> bool" where
  "json_space c \<longleftrightarrow> c = CHR '' '' \<or> c = CHR 0x0A \<or> c = CHR 0x0D \<or> c = CHR 0x09"

definition skip_whitespace :: "string \<Rightarrow> string" where
  "skip_whitespace s = dropWhile json_space s"

definition peek_is :: "char \<Rightarrow> string \<Rightarrow> bool" where
  "peek_is c s \<longleftrightarrow> s \<noteq> [] \<and> hd s = c"

definition finish :: "string \<Rightarrow> EventError + unit" where
  "finish s = (if skip_whitespace s = [] then Inr () else Inl (GoJson ''trailing data''))"

definition expect :: "char \<Rightarrow> string \<Rightarrow> EventError + string" where
  "expect c s = (if peek_is c s then Inr (tl s) else Inl (GoJson ''unexpected token''))"

definition parse_literal :: "string \<Rightarrow> string \<Rightarrow> EventError + string" where
  "parse_literal w s =
     (if take (length w) s = w then Inr (drop (length w) s) else Inl (GoJson ''invalid literal''))"

definition consume_null :: "string \<Rightarrow> EventError + (bool \<times> string)" where
  "consume_null s =
     (if peek_is CHR ''n'' s then and_then (parse_literal ''null'' s) (\<lambda>r. Inr (True, r))
      else Inr (False, s))"

definition hexdigit :: "char \<Rightarrow> bool" where
  "hexdigit c \<longleftrightarrow> is_digit c \<or> (97 \<le> byte c \<and> byte c \<le> 102) \<or> (65 \<le> byte c \<and> byte c \<le> 70)"

definition simple_escapes :: string where
  "simple_escapes = [CHR 0x22, CHR 0x5C] @ ''/bfnrt''"

fun skip_string_body :: "string \<Rightarrow> EventError + string" where
  "skip_string_body [] = Inl (GoJson ''unterminated string'')"
| "skip_string_body (c # s) =
     (if c = CHR 0x22 then Inr s
      else if c = CHR 0x5C then
        (case s of
           [] \<Rightarrow> Inl (GoJson ''unterminated escape'')
         | e # t \<Rightarrow>
             if e \<in> set simple_escapes then skip_string_body t
             else if e = CHR ''u'' then
               (if length t < 4 then Inl (GoJson ''short unicode escape'')
                else if \<not> list_all hexdigit (take 4 t) then Inl (GoJson ''invalid unicode escape'')
                else skip_string_body (drop 4 t))
             else Inl (GoJson ''invalid string escape''))
      else if byte c < 32 then Inl (GoJson ''control byte in string'')
      else skip_string_body s)"

definition skip_string :: "string \<Rightarrow> EventError + string" where
  "skip_string s = and_then (expect CHR 0x22 s) skip_string_body"

text \<open>Numbers: \<open>parse_number_range\<close> leaves what follows the number.\<close>

definition skip_digits :: "string \<Rightarrow> string" where
  "skip_digits s = dropWhile is_digit s"

definition number_exponent :: "string \<Rightarrow> EventError + string" where
  "number_exponent s =
     (if peek_is CHR ''e'' s \<or> peek_is CHR ''E'' s then
        let u = tl s;
            v = (if peek_is CHR ''+'' u \<or> peek_is CHR ''-'' u then tl u else u);
            w = skip_digits v
        in if w = v then Inl (GoJson ''empty number exponent'') else Inr w
      else Inr s)"

definition number_fraction :: "string \<Rightarrow> EventError + string" where
  "number_fraction s =
     (if peek_is CHR ''.'' s then
        let v = skip_digits (tl s)
        in if v = tl s then Inl (GoJson ''empty number fraction'') else number_exponent v
      else number_exponent s)"

definition number_tail :: "string \<Rightarrow> EventError + string" where
  "number_tail s =
     (if s \<noteq> [] \<and> is_digit (hd s) then Inl (GoJson ''leading zero in number'') else number_fraction s)"

definition parse_number_range :: "string \<Rightarrow> EventError + string" where
  "parse_number_range s =
     (let u = (if peek_is CHR ''-'' s then tl s else s)
      in if peek_is CHR ''0'' u then number_tail (tl u)
         else if u \<noteq> [] \<and> is_digit (hd u) then number_tail (skip_digits (tl u))
         else Inl (GoJson ''invalid number''))"

definition starts_number :: "string \<Rightarrow> bool" where
  "starts_number s \<longleftrightarrow> s \<noteq> [] \<and> (hd s = CHR ''-'' \<or> is_digit (hd s))"

definition skip_object_key :: "string \<Rightarrow> EventError + string" where
  "skip_object_key s =
     and_then (skip_string s) (\<lambda>u.
     and_then (expect CHR '':'' (skip_whitespace u)) (\<lambda>v. Inr (skip_whitespace v)))"

section \<open>Skipping a value\<close>

datatype SkippedContainer = SkippedArray | SkippedObject

text \<open>
  \<open>begin_container\<close> counts the containers open around the value (\<open>outer_depth\<close>) and those on
  the stack. \<open>skip_value_start\<close> returns the container it opened, or \<open>None\<close> for a complete value.
\<close>

definition begin_container :: "nat \<Rightarrow> nat \<Rightarrow> char \<Rightarrow> string \<Rightarrow> EventError + string" where
  "begin_container outer_depth stack_depth opener s =
     (if GO_JSON_MAX_NESTING_DEPTH \<le> outer_depth + stack_depth then Inl (GoJson ''exceeded max depth'')
      else expect opener s)"

definition skip_value_start :: "nat \<Rightarrow> nat \<Rightarrow> string \<Rightarrow> EventError + (SkippedContainer option \<times> string)" where
  "skip_value_start outer_depth stack_depth s =
     (if peek_is CHR ''n'' s then and_then (parse_literal ''null'' s) (\<lambda>r. Inr (None, r))
      else if peek_is CHR ''t'' s then and_then (parse_literal ''true'' s) (\<lambda>r. Inr (None, r))
      else if peek_is CHR ''f'' s then and_then (parse_literal ''false'' s) (\<lambda>r. Inr (None, r))
      else if peek_is CHR 0x22 s then and_then (skip_string s) (\<lambda>r. Inr (None, r))
      else if peek_is CHR ''['' s then
        and_then (begin_container outer_depth stack_depth CHR ''['' s) (\<lambda>u.
          let v = skip_whitespace u
          in if peek_is CHR '']'' v then Inr (None, tl v) else Inr (Some SkippedArray, v))
      else if peek_is CHR ''{'' s then
        and_then (begin_container outer_depth stack_depth CHR ''{'' s) (\<lambda>u.
          let v = skip_whitespace u
          in if peek_is CHR ''}'' v then Inr (None, tl v)
             else and_then (skip_object_key v) (\<lambda>w. Inr (Some SkippedObject, w)))
      else if starts_number s then and_then (parse_number_range s) (\<lambda>r. Inr (None, r))
      else Inl (GoJson ''invalid value''))"

section \<open>What the scanners consume\<close>

text \<open>A scanner that succeeds leaves a proper suffix of its input.\<close>

locale consuming =
  fixes sc :: "string \<Rightarrow> EventError + string"
  assumes consumes: "sc s = Inr r \<Longrightarrow> strict_suffix r s"
begin

lemma shorter: "sc s = Inr r \<Longrightarrow> length r < length s"
  using consumes suffix_length_less by blast

lemma consumed: "sc s = Inr r \<Longrightarrow> s = take (length s - length r) s @ r"
  using consumes [of s r] by (auto simp: strict_suffix_def suffix_def)

lemma below: "sc s = Inr r \<Longrightarrow> suffix t r \<Longrightarrow> strict_suffix t s"
  using consumes suffix_order.le_less_trans by blast

end

lemma strict_suffix_Cons [simp]: "strict_suffix t (c # s) \<longleftrightarrow> suffix t s"
  by (auto simp: strict_suffix_def suffix_Cons) (metis suffix_ConsD2 suffix_def not_Cons_self2 suffix_order.antisym suffix_ConsI)

lemma skip_whitespace_suffix [simp]: "suffix (skip_whitespace s) s"
  by (simp add: skip_whitespace_def suffix_dropWhile)

lemma skip_digits_suffix [simp]: "suffix (skip_digits s) s"
  by (simp add: skip_digits_def suffix_dropWhile)

lemma skip_whitespace_idem [simp]: "skip_whitespace (skip_whitespace s) = skip_whitespace s"
  unfolding skip_whitespace_def by (induction s) auto

lemma peek_is_iff: "peek_is c s \<longleftrightarrow> (\<exists>r. s = c # r)"
  by (cases s) (auto simp: peek_is_def)

lemma peek_is_Cons [simp]: "peek_is c (x # s) \<longleftrightarrow> x = c" "\<not> peek_is c []"
  by (auto simp: peek_is_def)

lemma expect_Inr_iff [result_simps]: "expect c s = Inr r \<longleftrightarrow> s = c # r"
  by (auto simp: expect_def peek_is_iff)

interpretation expect: consuming "expect c" for c
  by unfold_locales (auto simp: result_simps)

lemma parse_literal_Inr_iff [result_simps]: "parse_literal w s = Inr r \<longleftrightarrow> s = w @ r"
  unfolding parse_literal_def using append_eq_conv_conj [of w r s] by auto

interpretation literals: consuming "parse_literal (c # w)" for c w
  by unfold_locales (auto simp: result_simps suffix_def)

lemma skip_string_body_consumes: "skip_string_body s = Inr r \<Longrightarrow> strict_suffix r s"
proof (induction s rule: skip_string_body.induct)
  case (2 c s)
  show ?case
  proof (cases "c = CHR 0x5C")
    case True
    with "2.prems" obtain e t where s: "s = e # t" by (auto split: list.splits)
    consider "skip_string_body t = Inr r" "e \<in> set simple_escapes"
      | "skip_string_body (drop 4 t) = Inr r" "e \<notin> set simple_escapes" "e = CHR ''u''"
          "\<not> length t < 4" "list_all hexdigit (take 4 t)"
      using "2.prems" True s by (auto split: if_splits)
    then have "suffix r t"
    proof cases
      case 1
      then show ?thesis using "2.IH"(1) True s by auto
    next
      case 2
      then have "suffix r (drop 4 t)" using "2.IH"(2) True s by auto
      then show ?thesis by (metis suffix_drop suffix_order.trans)
    qed
    with s show ?thesis by (simp add: suffix_Cons)
  next
    case False
    show ?thesis
    proof (cases "c = CHR 0x22")
      case quote: False
      with False "2.prems" have "skip_string_body s = Inr r" "\<not> byte c < 32"
        by (auto split: if_splits)
      with "2.IH"(3) False quote show ?thesis by auto
    qed (use "2.prems" in simp)
  qed
qed simp

interpretation skip_string: consuming skip_string
  by unfold_locales (auto simp: skip_string_def result_simps dest: skip_string_body_consumes)

lemma suffix_digits_tl [simp]:
  "suffix (skip_digits (tl s)) s" "suffix (skip_digits (tl (tl s))) s"
  by (meson skip_digits_suffix suffix_tl suffix_order.trans)+

lemma number_exponent_suffix: "number_exponent s = Inr r \<Longrightarrow> suffix r s"
  by (auto simp: number_exponent_def Let_def split: if_splits)

lemma number_fraction_suffix:
  assumes "number_fraction s = Inr r"
  shows "suffix r s"
proof -
  have "number_exponent s = Inr r \<or> number_exponent (skip_digits (tl s)) = Inr r"
    using assms by (auto simp: number_fraction_def Let_def split: if_splits)
  then show ?thesis
    using number_exponent_suffix suffix_digits_tl(1) suffix_order.trans by metis
qed

lemma number_tail_suffix: "number_tail s = Inr r \<Longrightarrow> suffix r s"
  by (auto simp: number_tail_def dest: number_fraction_suffix split: if_splits)

interpretation number: consuming parse_number_range
proof
  fix s r assume run: "parse_number_range s = Inr r"
  define u where "u = (if peek_is CHR ''-'' s then tl s else s)"
  have "\<exists>c t. u = c # t \<and> (number_tail t = Inr r \<or> number_tail (skip_digits t) = Inr r)"
    using run by (cases u) (auto simp: parse_number_range_def Let_def u_def [symmetric] split: if_splits)
  then obtain c t where u: "u = c # t" and t: "suffix r t"
    using number_tail_suffix skip_digits_suffix by (metis suffix_order.trans)
  have "strict_suffix r u" using u t by simp
  moreover have "suffix u s" unfolding u_def by (simp add: suffix_tl)
  ultimately show "strict_suffix r s" by (rule suffix_order.less_le_trans)
qed

interpretation object_key: consuming skip_object_key
proof
  fix s r assume "skip_object_key s = Inr r"
  then obtain u v where u: "skip_string s = Inr u" and v: "skip_whitespace u = CHR '':'' # v" "r = skip_whitespace v"
    by (auto simp: skip_object_key_def result_simps)
  have "suffix r v" using v(2) by simp
  then have "suffix r (skip_whitespace u)" using v(1) by (simp add: suffix_Cons)
  then have "suffix r u" using skip_whitespace_suffix suffix_order.trans by blast
  then show "strict_suffix r s" by (rule skip_string.below [OF u])
qed

lemma suffix_skip_whitespace: "suffix t (skip_whitespace s) \<Longrightarrow> suffix t s"
  using skip_whitespace_suffix suffix_order.trans by blast

lemma value_start_consumes:
  assumes "skip_value_start d n s = Inr (k, r)"
  shows "strict_suffix r s"
proof -
  consider (leaf) "(\<exists>c w. parse_literal (c # w) s = Inr r) \<or> skip_string s = Inr r \<or> parse_number_range s = Inr r"
    | (container) c u where "s = c # u"
        "r = skip_whitespace u \<or> r = tl (skip_whitespace u) \<or> skip_object_key (skip_whitespace u) = Inr r"
    using assms unfolding skip_value_start_def begin_container_def
    by (auto simp: result_simps Let_def simp del: parse_literal_Inr_iff split: if_splits)
  then show ?thesis
  proof cases
    case leaf
    then show ?thesis using literals.consumes skip_string.consumes number.consumes by blast
  next
    case container
    have "suffix r (skip_whitespace u)"
      using container(2) object_key.consumes by (auto simp: suffix_tl strict_suffix_def)
    then show ?thesis using container(1) suffix_skip_whitespace by simp
  qed
qed

end
