(* ===== verification/Json_Skip.thy ===== *)
theory Json_Skip
  imports Json_Scanner
begin

text \<open>
  \<open>skip_value\<close> of \<^verbatim>\<open>orchestrator-core/src/codec.rs\<close>: two nested loops over an explicit stack.
  It terminates because every round consumes input, and it accepts exactly the values of the
  JSON grammar whose arrays and objects nest no deeper than the bound leaves room for.
\<close>

section \<open>The loops\<close>

function (sequential) skip_loop ::
    "nat \<Rightarrow> SkippedContainer list \<Rightarrow> string \<Rightarrow> EventError + string"
  and skip_unwind ::
    "nat \<Rightarrow> SkippedContainer list \<Rightarrow> string \<Rightarrow> EventError + string"
where
  "skip_loop outer_depth stack s =
     (case skip_value_start outer_depth (length stack) s of
        Inl e \<Rightarrow> Inl e
      | Inr (Some c, r) \<Rightarrow> skip_loop outer_depth (c # stack) r
      | Inr (None, r) \<Rightarrow> skip_unwind outer_depth stack r)"
| "skip_unwind outer_depth [] s = Inr s"
| "skip_unwind outer_depth (c # stack) s =
     (let u = skip_whitespace s in
      case c of
        SkippedArray \<Rightarrow>
          if peek_is CHR '','' u then skip_loop outer_depth (c # stack) (skip_whitespace (tl u))
          else if peek_is CHR '']'' u then skip_unwind outer_depth stack (tl u)
          else Inl (GoJson ''expected array delimiter'')
      | SkippedObject \<Rightarrow>
          if peek_is CHR '','' u then
            (case skip_object_key (skip_whitespace (tl u)) of
               Inl e \<Rightarrow> Inl e
             | Inr v \<Rightarrow> skip_loop outer_depth (c # stack) v)
          else if peek_is CHR ''}'' u then skip_unwind outer_depth stack (tl u)
          else Inl (GoJson ''expected object delimiter''))"
  by pat_completeness auto

lemma after_delimiter:
  assumes "peek_is c (skip_whitespace s)"
  shows "length (skip_whitespace (tl (skip_whitespace s))) < length s"
    and "length (tl (skip_whitespace s)) < length s"
proof -
  have "length (tl (skip_whitespace s)) < length (skip_whitespace s)"
    using assms by (auto simp: peek_is_iff)
  then show "length (tl (skip_whitespace s)) < length s"
    using suffix_length_le [OF skip_whitespace_suffix [of s]] by simp
  then show "length (skip_whitespace (tl (skip_whitespace s))) < length s"
    using suffix_length_le [OF skip_whitespace_suffix [of "tl (skip_whitespace s)"]] by simp
qed

termination skip_loop
proof (relation "measure (\<lambda>a. case a of Inl (d, st, s) \<Rightarrow> length s | Inr (d, st, s) \<Rightarrow> length s)",
    goal_cases)
  case 1
  show ?case by simp
qed (auto dest!: value_start_consumes suffix_length_less object_key.shorter
    intro: after_delimiter less_trans [OF _ after_delimiter(1)] simp del: length_tl)

declare skip_loop.simps [simp del] skip_unwind.simps(2) [simp del]

definition skip_value :: "nat \<Rightarrow> string \<Rightarrow> EventError + string" where
  "skip_value outer_depth s = skip_loop outer_depth [] s"

section \<open>The grammar\<close>

fun opener :: "SkippedContainer \<Rightarrow> char" where
  "opener SkippedArray = CHR ''[''"
| "opener SkippedObject = CHR ''{''"

fun closer :: "SkippedContainer \<Rightarrow> char" where
  "closer SkippedArray = CHR '']''"
| "closer SkippedObject = CHR ''}''"

text \<open>What an item of the container starts with: nothing, or a key and its colon.\<close>

fun item_start :: "SkippedContainer \<Rightarrow> string \<Rightarrow> EventError + string" where
  "item_start SkippedArray s = Inr s"
| "item_start SkippedObject s = skip_object_key s"

definition scalar :: "string \<Rightarrow> string \<Rightarrow> bool" where
  "scalar s r \<longleftrightarrow>
     s = ''null'' @ r \<or> s = ''true'' @ r \<or> s = ''false'' @ r \<or> skip_string s = Inr r \<or> parse_number_range s = Inr r"

text \<open>
  \<open>json_value k s r\<close>: the input \<open>s\<close> starts with a value that opens at most \<open>k\<close> containers inside
  one another, and \<open>r\<close> follows it. \<open>json_items c k s r\<close>: items up to and with the closing bracket.
\<close>

inductive json_value :: "nat \<Rightarrow> string \<Rightarrow> string \<Rightarrow> bool"
  and json_items :: "SkippedContainer \<Rightarrow> nat \<Rightarrow> string \<Rightarrow> string \<Rightarrow> bool"
where
  Scalar: "scalar s r \<Longrightarrow> json_value k s r"
| Empty: "skip_whitespace t = closer c # r \<Longrightarrow> json_value (Suc k) (opener c # t) r"
| Items: "item_start c (skip_whitespace t) = Inr u \<Longrightarrow> json_items c k u r \<Longrightarrow>
     json_value (Suc k) (opener c # t) r"
| Last: "json_value k s t \<Longrightarrow> skip_whitespace t = closer c # r \<Longrightarrow> json_items c k s r"
| More: "json_value k s t \<Longrightarrow> skip_whitespace t = CHR '','' # u \<Longrightarrow>
     item_start c (skip_whitespace u) = Inr v \<Longrightarrow> json_items c k v r \<Longrightarrow> json_items c k s r"


section \<open>The loops step by step\<close>

lemma expect_opener: "expect c (c # t) = Inr t"
  by (simp add: expect_def)

lemma value_start_container:
  "skip_value_start d n (opener c # t) =
     (if GO_JSON_MAX_NESTING_DEPTH \<le> d + n then Inl (GoJson ''exceeded max depth'')
      else if peek_is (closer c) (skip_whitespace t) then Inr (None, tl (skip_whitespace t))
      else and_then (item_start c (skip_whitespace t)) (\<lambda>u. Inr (Some c, u)))"
  by (cases c) (simp_all add: skip_value_start_def begin_container_def expect_opener Let_def)

lemma skip_string_quote: "skip_string s = Inr r \<Longrightarrow> \<exists>t. s = CHR 0x22 # t"
  by (auto simp: skip_string_def result_simps)

lemma number_starts: "parse_number_range s = Inr r \<Longrightarrow> starts_number s"
  by (cases s) (auto simp: parse_number_range_def starts_number_def Let_def is_digit_def byte_def split: if_splits)

lemma scalar_start: "scalar s r \<Longrightarrow> skip_value_start d n s = Inr (None, r)"
proof -
  assume "scalar s r"
  then consider "s = ''null'' @ r" | "s = ''true'' @ r" | "s = ''false'' @ r"
    | t where "s = CHR 0x22 # t" "skip_string s = Inr r"
    | "starts_number s" "parse_number_range s = Inr r"
    unfolding scalar_def using skip_string_quote number_starts by blast
  then show ?thesis
  proof cases
    case 5
    then obtain c t where "s = c # t" "c = CHR ''-'' \<or> is_digit c"
      by (cases s) (auto simp: starts_number_def)
    then have "\<not> peek_is x s" if "x \<in> {CHR ''n'', CHR ''t'', CHR ''f'', CHR 0x22, CHR ''['', CHR ''{''}" for x
      using that by (auto simp: is_digit_def byte_def)
    with 5 show ?thesis by (simp add: skip_value_start_def)
  qed (simp_all add: skip_value_start_def parse_literal_def)
qed

lemma value_start_cases:
  assumes "skip_value_start d n s = Inr (k, r)"
  obtains (scalar) "k = None" "scalar s r" | (container) c t where "s = opener c # t"
proof -
  consider t where "s = CHR ''['' # t" | t where "s = CHR ''{'' # t"
    | "\<not> peek_is CHR ''['' s" "\<not> peek_is CHR ''{'' s"
    by (auto simp: peek_is_iff)
  then show ?thesis
  proof cases
    case 1
    then show ?thesis by (intro container [of SkippedArray]) simp
  next
    case 2
    then show ?thesis by (intro container [of SkippedObject]) simp
  next
    case 3
    with assms show ?thesis
      by (intro scalar) (auto simp: skip_value_start_def scalar_def result_simps split: if_splits)
  qed
qed

lemma skip_unwind_item:
  "skip_unwind d (c # st) s =
     (let u = skip_whitespace s in
      if peek_is CHR '','' u then and_then (item_start c (skip_whitespace (tl u))) (skip_loop d (c # st))
      else if peek_is (closer c) u then skip_unwind d st (tl u)
      else Inl (GoJson (case c of SkippedArray \<Rightarrow> ''expected array delimiter'' | SkippedObject \<Rightarrow> ''expected object delimiter'')))"
  by (cases c) (simp_all add: skip_unwind.simps and_then_def Let_def)

section \<open>The grammar is accepted\<close>

lemma closer_starts_no_value: "skip_value_start d n (closer c # w) = Inl (GoJson ''invalid value'')"
  by (cases c) (simp_all add: skip_value_start_def starts_number_def is_digit_def byte_def)

lemma json_value_start:
  assumes "json_value k s r"
  shows "s \<noteq> closer c # w"
  using assms
proof (cases rule: json_value.cases)
  case Scalar
  then show ?thesis using scalar_start [of s r 0 0] closer_starts_no_value [of 0 0 c w] by auto
next
  case (Empty t c' k)
  then show ?thesis by (cases c; cases c') auto
next
  case (Items c' t u k)
  then show ?thesis by (cases c; cases c') auto
qed

lemma json_runs:
  "json_value k s r \<Longrightarrow> k + d + length st = GO_JSON_MAX_NESTING_DEPTH \<Longrightarrow>
     skip_loop d st s = skip_unwind d st r"
  "json_items c k s r \<Longrightarrow> Suc (k + d + length st) = GO_JSON_MAX_NESTING_DEPTH \<Longrightarrow>
     skip_loop d (c # st) s = skip_unwind d st r"
proof (induction arbitrary: st and st rule: json_value_json_items.inducts)
  case (Scalar s r k)
  then show ?case by (simp add: skip_loop.simps scalar_start)
next
  case (Empty t c r k)
  then show ?case by (simp add: skip_loop.simps value_start_container)
next
  case (Items c t u k r)
  have open_c: "\<not> GO_JSON_MAX_NESTING_DEPTH \<le> d + length st" using Items.prems by simp
  have "\<not> peek_is (closer c) (skip_whitespace t)"
  proof
    assume peek: "peek_is (closer c) (skip_whitespace t)"
    show False
    proof (cases c)
      case SkippedObject
      then show ?thesis using peek Items.hyps(1)
        by (auto simp: peek_is_iff skip_object_key_def skip_string_def result_simps)
    next
      case SkippedArray
      then obtain w where "u = closer SkippedArray # w"
        using peek Items.hyps(1) by (auto simp: peek_is_iff)
      moreover have "\<exists>k' t'. json_value k' u t'" using Items.hyps(2) by cases blast+
      ultimately show ?thesis using json_value_start by blast
    qed
  qed
  then have "skip_loop d st (opener c # t) = skip_loop d (c # st) u"
    using Items.hyps(1) open_c by (simp add: skip_loop.simps [of d st] value_start_container)
  then show ?case using Items.IH [of st] Items.prems by simp
next
  case (Last k s t c r)
  then have "skip_loop d (c # st) s = skip_unwind d (c # st) t" by simp
  also have "\<dots> = skip_unwind d st r"
    using Last.hyps(2) by (cases c) (simp_all add: skip_unwind_item)
  finally show ?case .
next
  case (More k s t u c v r)
  then have "skip_loop d (c # st) s = skip_unwind d (c # st) t" by simp
  also have "\<dots> = skip_loop d (c # st) v"
    using More.hyps(2,3) by (simp add: skip_unwind_item)
  finally show ?case using More.IH(2) More.prems by simp
qed

section \<open>Only the grammar is accepted\<close>

lemma scalar_consumes: "scalar s r \<Longrightarrow> strict_suffix r s"
  using scalar_start [of s r 0 0] value_start_consumes by blast

lemma item_start_suffix: "item_start c s = Inr r \<Longrightarrow> suffix r s"
  by (cases c) (auto simp: strict_suffix_def dest: object_key.consumes)

lemma json_consumes:
  "json_value k s r \<Longrightarrow> strict_suffix r s"
  "json_items c k s r \<Longrightarrow> strict_suffix r s"
proof (induction rule: json_value_json_items.inducts)
  case (Scalar s r k)
  then show ?case by (rule scalar_consumes)
next
  case (Empty t c r k)
  then have "suffix r (skip_whitespace t)" by (simp add: suffix_Cons)
  then show ?case by (simp add: suffix_skip_whitespace)
next
  case (Items c t u k r)
  then have "suffix r (skip_whitespace t)"
    using item_start_suffix by (metis strict_suffix_def suffix_order.trans)
  then show ?case by (simp add: suffix_skip_whitespace)
next
  case (Last k s t c r)
  then have "suffix r (skip_whitespace t)" by (simp add: suffix_Cons)
  then have "suffix r t" by (rule suffix_skip_whitespace)
  then show ?case using Last.IH suffix_order.le_less_trans by blast
next
  case (More k s t u c v r)
  then have "suffix r (skip_whitespace u)"
    using item_start_suffix by (metis strict_suffix_def suffix_order.trans)
  then have "suffix r (skip_whitespace t)"
    using More.hyps(2) by (metis suffix_Cons suffix_skip_whitespace)
  then have "suffix r t" by (rule suffix_skip_whitespace)
  then show ?case using More.IH(1) suffix_order.le_less_trans by blast
qed

text \<open>One induction on the input length: a value first, then the rest of an open container.\<close>

lemma runs_json:
  "(skip_loop d st s = Inr r \<longrightarrow>
      (\<exists>t. json_value (GO_JSON_MAX_NESTING_DEPTH - (d + length st)) s t \<and> skip_unwind d st t = Inr r)) \<and>
   (d + length st < GO_JSON_MAX_NESTING_DEPTH \<longrightarrow> skip_loop d (c # st) s = Inr r \<longrightarrow>
      (\<exists>t. json_items c (GO_JSON_MAX_NESTING_DEPTH - Suc (d + length st)) s t \<and> skip_unwind d st t = Inr r))"
proof (induction "length s" arbitrary: s st c rule: less_induct)
  case less
  let ?k = "\<lambda>st. GO_JSON_MAX_NESTING_DEPTH - (d + length st)"
  have "value": "\<exists>t. json_value (?k st) s t \<and> skip_unwind d st t = Inr r"
    if run: "skip_loop d st s = Inr r" for st
  proof -
    from run obtain k u where start: "skip_value_start d (length st) s = Inr (k, u)"
      by (auto simp: skip_loop.simps [of d st s] split: sum.splits)
    from start show ?thesis
    proof (cases rule: value_start_cases)
      case scalar
      then show ?thesis using run start by (auto simp: skip_loop.simps [of d st s] intro: Scalar)
    next
      case (container c t)
      from start container have depth: "d + length st < GO_JSON_MAX_NESTING_DEPTH"
        by (auto simp: value_start_container split: if_splits)
      then have k: "?k st = Suc (GO_JSON_MAX_NESTING_DEPTH - Suc (d + length st))" by simp
      show ?thesis
      proof (cases "peek_is (closer c) (skip_whitespace t)")
        case True
        then obtain v where v: "skip_whitespace t = closer c # v" by (auto simp: peek_is_iff)
        then have "skip_unwind d st v = Inr r"
          using run depth container by (simp add: skip_loop.simps [of d st "opener c # t"] value_start_container)
        with v show ?thesis unfolding k container by (blast intro: Empty)
      next
        case False
        with start container depth have item: "item_start c (skip_whitespace t) = Inr u" "k = Some c"
          by (auto simp: value_start_container result_simps)
        have "skip_loop d (c # st) u = Inr r"
          using run start item(2) by (simp add: skip_loop.simps [of d st s])
        moreover have "length u < length s"
          using value_start_consumes [OF start] by (rule suffix_length_less)
        ultimately obtain v where "json_items c (GO_JSON_MAX_NESTING_DEPTH - Suc (d + length st)) u v"
            "skip_unwind d st v = Inr r"
          using less depth by blast
        with item(1) show ?thesis unfolding k container by (blast intro: Items)
      qed
    qed
  qed
  moreover have "\<exists>t. json_items c (?k (c # st)) s t \<and> skip_unwind d st t = Inr r"
    if depth: "d + length st < GO_JSON_MAX_NESTING_DEPTH" and run: "skip_loop d (c # st) s = Inr r"
  proof -
    obtain t where t: "json_value (?k (c # st)) s t" "skip_unwind d (c # st) t = Inr r"
      using "value" [OF run] by blast
    from t(2) consider (close) v where "skip_whitespace t = closer c # v" "skip_unwind d st v = Inr r"
      | (comma) u v where "skip_whitespace t = CHR '','' # u" "item_start c (skip_whitespace u) = Inr v"
          "skip_loop d (c # st) v = Inr r"
      by (auto simp: skip_unwind_item Let_def result_simps peek_is_iff split: if_splits)
    then show ?thesis
    proof cases
      case close
      with t(1) show ?thesis by (blast intro: Last)
    next
      case comma
      have "suffix v (skip_whitespace t)"
        using comma(1) item_start_suffix [OF comma(2)] by (metis suffix_Cons suffix_skip_whitespace)
      then have "suffix v t" by (rule suffix_skip_whitespace)
      then have "length v < length s"
        using json_consumes(1) [OF t(1)] by (meson suffix_length_less suffix_order.le_less_trans)
      then obtain w where "json_items c (GO_JSON_MAX_NESTING_DEPTH - Suc (d + length st)) v w"
          "skip_unwind d st w = Inr r"
        using less depth comma(3) by blast
      with t(1) comma show ?thesis by (auto intro: More)
    qed
  qed
  ultimately show ?case by simp
qed

lemma skip_value_iff: 
  "d \<le> GO_JSON_MAX_NESTING_DEPTH \<Longrightarrow>
     skip_value d s = Inr r \<longleftrightarrow> json_value (GO_JSON_MAX_NESTING_DEPTH - d) s r"
  unfolding skip_value_def
  using json_runs(1) [of "GO_JSON_MAX_NESTING_DEPTH - d" s r d "[]"] runs_json [of d "[]" s r] by auto

end
