(* ===== verification/Json_Strings.thy ===== *)
theory Json_Strings
  imports Json_Scanner
begin

text \<open>
  The strings of the Go-compatible JSON parser (\<^verbatim>\<open>orchestrator-core/src/codec.rs\<close>): UTF-8
  validity as \<open>str::from_utf8\<close> decides it, Go's replacement of invalid bytes, and the decoding
  of escapes with surrogate pairs. Slices that would be out of bounds yield \<open>SlicePanic\<close>.
\<close>

section \<open>UTF-8\<close>

definition continuation :: "char \<Rightarrow> bool" where
  "continuation c \<longleftrightarrow> 128 \<le> byte c \<and> byte c \<le> 191"

text \<open>The second byte of three- and four-byte characters, by the first.\<close>

definition second_of_three :: "nat \<Rightarrow> char \<Rightarrow> bool" where
  "second_of_three x b \<longleftrightarrow>
     continuation b \<and> (x = 224 \<longrightarrow> 160 \<le> byte b) \<and> (x = 237 \<longrightarrow> byte b \<le> 159)"

definition second_of_four :: "nat \<Rightarrow> char \<Rightarrow> bool" where
  "second_of_four x b \<longleftrightarrow>
     continuation b \<and> (x = 240 \<longrightarrow> 144 \<le> byte b) \<and> (x = 244 \<longrightarrow> byte b \<le> 143)"

text \<open>The length of the well-formed character at the head, 0 if there is none.\<close>

definition utf8_step :: "string \<Rightarrow> nat" where
  "utf8_step s =
     (case s of
        [] \<Rightarrow> 0
      | a # s1 \<Rightarrow>
          if byte a < 128 then 1
          else if 194 \<le> byte a \<and> byte a \<le> 223 then
            (case s1 of b # _ \<Rightarrow> if continuation b then 2 else 0 | _ \<Rightarrow> 0)
          else if 224 \<le> byte a \<and> byte a \<le> 239 then
            (case s1 of b # c # _ \<Rightarrow> if second_of_three (byte a) b \<and> continuation c then 3 else 0
             | _ \<Rightarrow> 0)
          else if 240 \<le> byte a \<and> byte a \<le> 244 then
            (case s1 of
               b # c # d # _ \<Rightarrow> if second_of_four (byte a) b \<and> continuation c \<and> continuation d then 4 else 0
             | _ \<Rightarrow> 0)
          else 0)"

lemma four_bytes_cases:
  obtains "s = []" | a where "s = [a]" | a b where "s = [a, b]" | a b c where "s = [a, b, c]"
    | a b c d u where "s = a # b # c # d # u"
  by (metis list.exhaust)

lemma utf8_step_length: "utf8_step s \<le> length s"
  by (cases s rule: four_bytes_cases) (simp_all add: utf8_step_def)

lemma utf8_step_append: "0 < utf8_step s \<Longrightarrow> utf8_step (s @ t) = utf8_step s"
  by (cases s rule: four_bytes_cases) (simp_all add: utf8_step_def split: if_splits)

lemma utf8_step_take: "utf8_step (take (utf8_step s) s) = utf8_step s"
  by (cases s rule: four_bytes_cases) (simp_all add: utf8_step_def)

text \<open>\<open>Utf8Error::valid_up_to\<close>: the length of the longest prefix of well-formed characters.\<close>

function valid_up_to :: "string \<Rightarrow> nat" where
  "valid_up_to s =
     (if utf8_step s = 0 then 0 else utf8_step s + valid_up_to (drop (utf8_step s) s))"
  by pat_completeness auto
termination
proof (relation "measure length", goal_cases)
  case (2 s)
  then show ?case using utf8_step_length [of s] by simp
qed simp

declare valid_up_to.simps [simp del]

definition utf8_valid :: "string \<Rightarrow> bool" where
  "utf8_valid s \<longleftrightarrow> valid_up_to s = length s"

function append_go_utf8_replacement :: "string \<Rightarrow> string \<Rightarrow> string" where
  "append_go_utf8_replacement out bytes =
     (if bytes = [] then out
      else if utf8_valid bytes then out @ bytes
      else
        let v = valid_up_to bytes
        in append_go_utf8_replacement (out @ take v bytes @ [CHR 0xEF, CHR 0xBF, CHR 0xBD])
             (drop (v + 1) bytes))"
  by pat_completeness auto
termination by (relation "measure (\<lambda>(_, bytes). length bytes)") auto

declare append_go_utf8_replacement.simps [simp del]

text \<open>\<open>String::push\<close> of a code point, if it is a character.\<close>

definition scalar_value :: "nat \<Rightarrow> bool" where
  "scalar_value n \<longleftrightarrow> n < 55296 \<or> 57344 \<le> n \<and> n \<le> 1114111"

definition utf8_encode :: "nat \<Rightarrow> string" where
  "utf8_encode n =
     (if n < 128 then [char_of n]
      else if n < 2048 then [char_of (192 + n div 64), char_of (128 + n mod 64)]
      else if n < 65536 then
        [char_of (224 + n div 4096), char_of (128 + n div 64 mod 64), char_of (128 + n mod 64)]
      else
        [char_of (240 + n div 262144), char_of (128 + n div 4096 mod 64),
         char_of (128 + n div 64 mod 64), char_of (128 + n mod 64)])"

definition push_code :: "nat \<Rightarrow> string \<Rightarrow> string" where
  "push_code n out = (if scalar_value n then out @ utf8_encode n else out)"

section \<open>Decoding\<close>

definition hex_value :: "char \<Rightarrow> nat" where
  "hex_value c =
     (if is_digit c then byte c - 48
      else if 97 \<le> byte c \<and> byte c \<le> 102 then byte c - 97 + 10
      else if 65 \<le> byte c \<and> byte c \<le> 70 then byte c - 65 + 10
      else 0)"

definition parse_hex_u16 :: "string \<Rightarrow> nat" where
  "parse_hex_u16 ds = fold (\<lambda>c v. v * 16 + hex_value c) ds 0"

definition high_surrogate :: "nat \<Rightarrow> bool" where
  "high_surrogate n \<longleftrightarrow> 55296 \<le> n \<and> n \<le> 56319"

definition low_surrogate :: "nat \<Rightarrow> bool" where
  "low_surrogate n \<longleftrightarrow> 56320 \<le> n \<and> n \<le> 57343"

definition replacement :: string where
  "replacement = [CHR 0xEF, CHR 0xBF, CHR 0xBD]"

definition simple_escape :: "char \<Rightarrow> char" where
  "simple_escape e =
     (if e = CHR ''b'' then CHR 0x08
      else if e = CHR ''f'' then CHR 0x0C
      else if e = CHR ''n'' then CHR 0x0A
      else if e = CHR ''r'' then CHR 0x0D
      else if e = CHR ''t'' then CHR 0x09
      else e)"

text \<open>
  The loop of \<open>decode_go_json_string\<close>. Its last argument is the quoted text from the cursor to
  the closing quote, so the cursor is before the end while more than one byte is left; \<open>chunk\<close> is
  the unescaped run that ends at the cursor.
\<close>

function decode_loop :: "string \<Rightarrow> string \<Rightarrow> string \<Rightarrow> EventError + string" where
  "decode_loop out chunk t =
     (if t = [] then Inl SlicePanic
      else if tl t = [] then Inr (append_go_utf8_replacement out chunk)
      else if hd t \<noteq> CHR 0x5C then decode_loop out (chunk @ [hd t]) (tl t)
      else
        let out = append_go_utf8_replacement out chunk;
            e = hd (tl t);
            u = tl (tl t)
        in if e \<in> set simple_escapes then decode_loop (out @ [simple_escape e]) [] u
           else if e = CHR ''u'' then
             (if length u < 4 then Inl SlicePanic
              else
                let first = parse_hex_u16 (take 4 u);
                    v = drop 4 u
                in if high_surrogate first \<and> take 2 v = [CHR 0x5C, CHR ''u''] then
                     (if length v < 6 then Inl SlicePanic
                      else
                        let second = parse_hex_u16 (take 4 (drop 2 v))
                        in if low_surrogate second then
                             decode_loop
                               (push_code (65536 + (first - 55296) * 1024 + (second - 56320)) out) []
                               (drop 6 v)
                           else decode_loop (out @ replacement) [] v)
                   else if high_surrogate first \<or> low_surrogate first then
                     decode_loop (out @ replacement) [] v
                   else decode_loop (push_code first out) [] v)
           else Inl (GoJson ''invalid string escape''))"
  by pat_completeness auto
termination
  by (relation "measure (\<lambda>(_, _, t). length t)") (auto simp: neq_Nil_conv)

declare decode_loop.simps [simp del]

definition decode_go_json_string :: "string \<Rightarrow> EventError + string" where
  "decode_go_json_string raw =
     (if length raw < 2 \<or> hd raw \<noteq> CHR 0x22 \<or> last raw \<noteq> CHR 0x22
      then Inl (GoJson ''invalid quoted string'')
      else decode_loop [] [] (tl raw))"

definition parse_string :: "string scan" where
  "parse_string s =
     and_then (skip_string s) (\<lambda>r.
     and_then (decode_go_json_string (take (length s - length r) s)) (\<lambda>v. Inr (v, r)))"

text \<open>
  What the string scanner accepts, as a grammar, and what the decoder makes of it: it never
  reads out of bounds, never fails on a scanned string, and always yields valid UTF-8.
\<close>

section \<open>Valid UTF-8\<close>

lemma valid_up_to_length: "valid_up_to s \<le> length s"
proof (induction s rule: valid_up_to.induct)
  case (1 s)
  then show ?case
    using utf8_step_length [of s] by (cases "utf8_step s = 0") (auto simp: valid_up_to.simps [of s])
qed

lemma utf8_valid_Nil [simp]: "utf8_valid []"
  by (simp add: utf8_valid_def valid_up_to.simps utf8_step_def)

lemma utf8_valid_step:
  assumes "0 < utf8_step s"
  shows "utf8_valid s \<longleftrightarrow> utf8_valid (drop (utf8_step s) s)"
  using assms utf8_step_length [of s] by (auto simp: utf8_valid_def valid_up_to.simps [of s])

lemma utf8_valid_stuck: "utf8_step s = 0 \<Longrightarrow> utf8_valid s \<longleftrightarrow> s = []"
  by (auto simp: utf8_valid_def valid_up_to.simps [of s])

lemma utf8_valid_append: "utf8_valid a \<Longrightarrow> utf8_valid b \<Longrightarrow> utf8_valid (a @ b)"
proof (induction a rule: valid_up_to.induct)
  case (1 a)
  show ?case
  proof (cases "utf8_step a = 0")
    case True
    with 1 show ?thesis by (simp add: utf8_valid_stuck)
  next
    case False
    then have step: "0 < utf8_step (a @ b)" "utf8_step (a @ b) = utf8_step a"
      by (simp_all add: utf8_step_append)
    have "utf8_valid (drop (utf8_step a) a)" using 1(2) False by (simp add: utf8_valid_step)
    then have "utf8_valid (drop (utf8_step a) a @ b)" using 1(1) [OF False] 1(3) by blast
    then show ?thesis
      using step utf8_step_length [of a] by (simp add: utf8_valid_step [of "a @ b"])
  qed
qed

lemma utf8_valid_prefix: "utf8_valid (take (valid_up_to s) s)"
proof (induction s rule: valid_up_to.induct)
  case (1 s)
  show ?case
  proof (cases "utf8_step s = 0")
    case True
    then show ?thesis by (simp add: valid_up_to.simps [of s])
  next
    case False
    let ?n = "utf8_step s"
    have head: "utf8_valid (take ?n s)"
      using utf8_step_take [of s] utf8_step_length [of s] False
      by (subst utf8_valid_step) simp_all
    have "take (valid_up_to s) s = take ?n s @ take (valid_up_to (drop ?n s)) (drop ?n s)"
      using False by (simp add: valid_up_to.simps [of s] take_add)
    then show ?thesis using utf8_valid_append [OF head 1 [OF False]] by simp
  qed
qed

lemma utf8_valid_replacement: "utf8_valid [CHR 0xEF, CHR 0xBF, CHR 0xBD]"
  by (subst utf8_valid_step) (simp_all add: utf8_step_def byte_def second_of_three_def continuation_def)

lemma append_go_valid: "utf8_valid out \<Longrightarrow> utf8_valid (append_go_utf8_replacement out bytes)"
proof (induction out bytes rule: append_go_utf8_replacement.induct)
  case (1 out bytes)
  show ?case
  proof (cases "bytes = [] \<or> utf8_valid bytes")
    case True
    then show ?thesis
      using "1.prems" by (auto simp: append_go_utf8_replacement.simps [of out bytes] utf8_valid_append)
  next
    case False
    have "utf8_valid (out @ take (valid_up_to bytes) bytes @ [CHR 0xEF, CHR 0xBF, CHR 0xBD])"
      by (intro utf8_valid_append "1.prems" utf8_valid_prefix utf8_valid_replacement)
    with 1 False show ?thesis
      by (simp add: append_go_utf8_replacement.simps [of out bytes] Let_def)
  qed
qed

lemma append_go_id: "utf8_valid bytes \<Longrightarrow> append_go_utf8_replacement out bytes = out @ bytes"
  by (simp add: append_go_utf8_replacement.simps)

section \<open>Encoded characters\<close>

lemma byte_char_of: "n < 256 \<Longrightarrow> byte (char_of n) = n"
  by (simp add: byte_def)

lemma second_bytes:
  "continuation b \<Longrightarrow> byte b = 128 + m \<Longrightarrow> (k = 0 \<longrightarrow> 32 \<le> m) \<and> (k = 13 \<longrightarrow> m < 32) \<Longrightarrow>
     second_of_three (224 + k) b"
  "continuation b \<Longrightarrow> byte b = 128 + m \<Longrightarrow> (k = 0 \<longrightarrow> 16 \<le> m) \<and> (k = 4 \<longrightarrow> m < 16) \<Longrightarrow>
     second_of_four (240 + k) b"
  by (auto simp: second_of_three_def second_of_four_def)

lemma utf8_encode_step:
  assumes "scalar_value n"
  shows "utf8_step (utf8_encode n) = length (utf8_encode n)"
proof -
  have cont: "continuation (char_of (128 + m mod 64))" for m :: nat
    using byte_char_of [of "128 + m mod 64"] by (simp add: continuation_def)
  have byte_cont: "byte (char_of (128 + m mod 64)) = 128 + m mod 64" for m :: nat
    using byte_char_of [of "128 + m mod 64"] by simp
  consider "n < 128" | "128 \<le> n" "n < 2048" | "2048 \<le> n" "n < 65536" | "65536 \<le> n" "n \<le> 1114111"
    using assms by (force simp: scalar_value_def)
  then show ?thesis
  proof cases
    case 1
    then show ?thesis by (simp add: utf8_encode_def utf8_step_def byte_char_of)
  next
    case 2
    then have "byte (char_of (192 + n div 64)) = 192 + n div 64" "2 \<le> n div 64" "n div 64 < 32"
      by (auto intro: byte_char_of)
    then show ?thesis using 2 cont by (simp add: utf8_encode_def utf8_step_def)
  next
    case 3
    then have b: "byte (char_of (224 + n div 4096)) = 224 + n div 4096" "n div 4096 < 16"
      by (auto intro: byte_char_of)
    have q: "n div 4096 = n div 64 div 64" by (simp add: div_mult2_eq [symmetric])
    have "32 \<le> n div 64" "n div 64 < 864 \<or> 896 \<le> n div 64"
      using 3 assms by (auto simp: scalar_value_def)
    then have "(n div 4096 = 0 \<longrightarrow> 32 \<le> n div 64 mod 64) \<and> (n div 4096 = 13 \<longrightarrow> n div 64 mod 64 < 32)"
      unfolding q by (auto simp: minus_div_mult_eq_mod [symmetric])
    then have "second_of_three (224 + n div 4096) (char_of (128 + n div 64 mod 64))"
      by (rule second_bytes(1) [OF cont byte_cont])
    then show ?thesis using 3 cont b by (simp add: utf8_encode_def utf8_step_def)
  next
    case 4
    then have b: "byte (char_of (240 + n div 262144)) = 240 + n div 262144" "n div 262144 \<le> 4"
      by (auto intro: byte_char_of)
    have p: "n div 262144 = n div 4096 div 64" by (simp add: div_mult2_eq [symmetric])
    have "16 \<le> n div 4096" "n div 4096 \<le> 271" using 4 by auto
    then have "(n div 262144 = 0 \<longrightarrow> 16 \<le> n div 4096 mod 64) \<and> (n div 262144 = 4 \<longrightarrow> n div 4096 mod 64 < 16)"
      unfolding p by (auto simp: minus_div_mult_eq_mod [symmetric])
    then have "second_of_four (240 + n div 262144) (char_of (128 + n div 4096 mod 64))"
      by (rule second_bytes(2) [OF cont byte_cont])
    then show ?thesis using 4 cont b by (simp add: utf8_encode_def utf8_step_def)
  qed
qed

lemma push_code_valid: "utf8_valid out \<Longrightarrow> utf8_valid (push_code n out)"
proof -
  assume out: "utf8_valid out"
  have "utf8_valid (utf8_encode n)" if sv: "scalar_value n"
  proof -
    have "0 < length (utf8_encode n)" by (simp add: utf8_encode_def)
    then show ?thesis using utf8_encode_step [OF sv] by (subst utf8_valid_step) simp_all
  qed
  with out show ?thesis by (simp add: push_code_def utf8_valid_append)
qed

section \<open>Scanned strings\<close>

text \<open>What follows an opening quote, up to and with the closing one.\<close>

inductive string_rest :: "string \<Rightarrow> bool" where
  Close: "string_rest [CHR 0x22]"
| Plain: "32 \<le> byte c \<Longrightarrow> c \<noteq> CHR 0x22 \<Longrightarrow> c \<noteq> CHR 0x5C \<Longrightarrow> string_rest b \<Longrightarrow> string_rest (c # b)"
| Simple: "e \<in> set simple_escapes \<Longrightarrow> string_rest b \<Longrightarrow> string_rest (CHR 0x5C # e # b)"
| Unicode: "length h = 4 \<Longrightarrow> list_all hexdigit h \<Longrightarrow> string_rest b \<Longrightarrow>
     string_rest (CHR 0x5C # CHR ''u'' # h @ b)"

lemma simple_escapes_no_u: "CHR ''u'' \<notin> set simple_escapes"
  by (simp add: simple_escapes_def)

lemma string_rest_scanned: "string_rest b \<Longrightarrow> skip_string_body (b @ r) = Inr r"
  by (induction rule: string_rest.induct) (auto simp: simple_escapes_no_u)

lemma scanned_string_rest: "skip_string_body t = Inr r \<Longrightarrow> \<exists>b. string_rest b \<and> t = b @ r"
proof (induction t rule: skip_string_body.induct)
  case (2 c s)
  consider (close) "c = CHR 0x22" "s = r"
    | (simple) e t where "c = CHR 0x5C" "s = e # t" "e \<in> set simple_escapes" "skip_string_body t = Inr r"
    | (unicode) t where "c = CHR 0x5C" "s = CHR ''u'' # t" "4 \<le> length t" "list_all hexdigit (take 4 t)"
        "skip_string_body (drop 4 t) = Inr r"
    | (plain) "c \<noteq> CHR 0x22" "c \<noteq> CHR 0x5C" "32 \<le> byte c" "skip_string_body s = Inr r"
    using "2.prems" by (auto split: if_splits list.splits)
  then show ?case
  proof cases
    case close
    then show ?thesis by (intro exI [of _ "[c]"]) (simp add: Close)
  next
    case simple
    then obtain b where "string_rest b" "t = b @ r" using "2.IH"(1) by auto
    with simple show ?thesis by (intro exI [of _ "c # e # b"]) (simp add: Simple)
  next
    case unicode
    then obtain b where "string_rest b" "drop 4 t = b @ r"
      using "2.IH"(2) simple_escapes_no_u by (auto simp: not_less)
    moreover have "t = take 4 t @ drop 4 t" by simp
    ultimately show ?thesis
      using unicode by (intro exI [of _ "c # CHR ''u'' # take 4 t @ b"]) (simp add: Unicode)
  next
    case plain
    then obtain b where "string_rest b" "s = b @ r" using "2.IH"(3) by auto
    with plain show ?thesis by (intro exI [of _ "c # b"]) (simp add: Plain)
  qed
qed simp

lemma skip_string_iff: "skip_string s = Inr r \<longleftrightarrow> (\<exists>b. string_rest b \<and> s = CHR 0x22 # b @ r)"
  by (auto simp: skip_string_def result_simps dest: scanned_string_rest intro: string_rest_scanned)

section \<open>Decoding never fails on a scanned string\<close>

lemma string_rest_ne [simp]: "\<not> string_rest []"
  by (auto elim: string_rest.cases)

lemma string_rest_escape:
  assumes "string_rest v" "take 2 v = [CHR 0x5C, CHR ''u'']"
  shows "6 < length v" "string_rest (drop 6 v)"
  using assms
proof (induction rule: string_rest.cases)
  case (Unicode h b)
  then have "0 < length b" by auto
  { case 1 show ?case using Unicode \<open>0 < length b\<close> by simp }
  { case 2 show ?case using Unicode by simp }
qed (auto simp: simple_escapes_no_u split: if_splits dest: arg_cong [where f = length])

lemma decode_rest:
  "string_rest b \<Longrightarrow> utf8_valid out \<Longrightarrow> \<exists>v. decode_loop out chunk b = Inr v \<and> utf8_valid v"
proof (induction "length b" arbitrary: b out chunk rule: less_induct)
  case less
  let ?out = "append_go_utf8_replacement out chunk"
  have out: "utf8_valid ?out" using less.prems(2) by (rule append_go_valid)
  have repl: "utf8_valid (?out @ replacement)"
    using utf8_valid_append [OF out utf8_valid_replacement] by (simp add: replacement_def)
  from less.prems(1) show ?case
  proof cases
    case Close
    then show ?thesis using out by (simp add: decode_loop.simps [of out chunk "[CHR 0x22]"])
  next
    case (Plain c b')
    then have "b' \<noteq> []" by auto
    with Plain show ?thesis
      using less.hyps [of b' out "chunk @ [c]"] less.prems by (simp add: decode_loop.simps [of out chunk "c # b'"])
  next
    case (Simple e b')
    then have "simple_escape e = e \<or> byte (simple_escape e) < 128" "byte e < 128"
      by (auto simp: simple_escape_def simple_escapes_def byte_def)
    then have "utf8_valid [simple_escape e]"
      by (subst utf8_valid_step) (auto simp: utf8_step_def)
    then have "utf8_valid (?out @ [simple_escape e])" using out by (rule utf8_valid_append [rotated])
    with Simple show ?thesis
      using less.hyps [of b'] by (simp add: decode_loop.simps [of out chunk "CHR 0x5C # e # b'"] Let_def)
  next
    case (Unicode h b')
    have head: "length (h @ b') \<ge> 4" "take 4 (h @ b') = h" "drop 4 (h @ b') = b'" using Unicode by simp_all
    show ?thesis
    proof (cases "high_surrogate (parse_hex_u16 h) \<and> take 2 b' = [CHR 0x5C, CHR ''u'']")
      case True
      note rest = string_rest_escape [OF \<open>string_rest b'\<close> conjunct2 [OF True]]
      then have low: "\<exists>v. decode_loop (push_code n ?out) [] (drop 6 b') = Inr v \<and> utf8_valid v" for n
        using less.hyps [of "drop 6 b'" "push_code n ?out"] push_code_valid [OF out] Unicode by simp
      have other: "\<exists>v. decode_loop (?out @ replacement) [] b' = Inr v \<and> utf8_valid v"
        using less.hyps [of b'] repl Unicode by simp
      show ?thesis
        using True rest low other head Unicode simple_escapes_no_u
        by (simp add: decode_loop.simps [of out chunk "CHR 0x5C # CHR ''u'' # h @ b'"] Let_def)
    next
      case False
      have "\<exists>v. decode_loop (?out @ replacement) [] b' = Inr v \<and> utf8_valid v"
        "\<exists>v. decode_loop (push_code (parse_hex_u16 h) ?out) [] b' = Inr v \<and> utf8_valid v"
        using less.hyps [of b'] repl push_code_valid [OF out] Unicode by simp_all
      with False show ?thesis
        using head Unicode simple_escapes_no_u
        by (auto simp add: decode_loop.simps [of out chunk "CHR 0x5C # CHR ''u'' # h @ b'"] Let_def)
    qed
  qed
qed

lemma string_rest_last: "string_rest b \<Longrightarrow> last b = CHR 0x22"
  by (induction rule: string_rest.induct) (auto simp: last_append)

lemma parse_string_scanned:
  assumes "skip_string s = Inr r"
  shows "\<exists>v. parse_string s = Inr (v, r) \<and> utf8_valid v"
proof -
  obtain b where b: "string_rest b" "s = CHR 0x22 # b @ r" using assms skip_string_iff by blast
  then have raw: "take (length s - length r) s = CHR 0x22 # b" "b \<noteq> []" by auto
  then have "decode_go_json_string (take (length s - length r) s) = decode_loop [] [] b"
    using string_rest_last [OF b(1)] by (cases b) (auto simp: decode_go_json_string_def)
  moreover obtain v where "decode_loop [] [] b = Inr v" "utf8_valid v"
    using decode_rest [OF b(1) utf8_valid_Nil] by blast
  ultimately show ?thesis using assms by (simp add: parse_string_def)
qed

lemma parse_string_skip: "map_sum id snd (parse_string s) = skip_string s"
proof (cases "skip_string s")
  case (Inl e)
  then show ?thesis by (simp add: parse_string_def)
next
  case (Inr r)
  then show ?thesis using parse_string_scanned by fastforce
qed

end
