(* ===== verification/Json_Parser.thy ===== *)
theory Json_Parser
  imports Json_Skip Json_Strings Collections
begin

text \<open>
  \<open>parse_value\<close> of \<^verbatim>\<open>orchestrator-core/src/codec.rs\<close>: the same two loops as \<open>skip_value\<close>, with
  the partial arrays and objects on the stack. The JSON values are serde's; a number is what
  the parameter \<open>num\<close> makes of its text (\<open>f64\<close>'s parser and \<open>Number::from_f64\<close>, which refuses
  values out of range). An object is a \<open>BTreeMap\<close>, the last of equal keys wins.
\<close>

datatype 'n Value =
    Null
  | Bool bool
  | Number 'n
  | String string
  | Array "'n Value list"
  | Object "(string \<times> 'n Value) list"

datatype 'n ParsedContainer =
    ParsedArray "'n Value list"
  | ParsedObject "(string \<times> 'n Value) list" string

datatype 'n ValueStart = Complete "'n Value" | Nested "'n ParsedContainer"

definition parse_object_key :: "string scan" where
  "parse_object_key s =
     and_then (parse_string s) (\<lambda>(key, u).
     and_then (expect CHR '':'' (skip_whitespace u)) (\<lambda>v. Inr (key, skip_whitespace v)))"

definition parse_value_start ::
    "(string \<Rightarrow> 'n option) \<Rightarrow> nat \<Rightarrow> nat \<Rightarrow> 'n ValueStart scan" where
  "parse_value_start num outer_depth stack_depth s =
     (if peek_is CHR ''n'' s then and_then (parse_literal ''null'' s) (\<lambda>r. Inr (Complete Null, r))
      else if peek_is CHR ''t'' s then and_then (parse_literal ''true'' s) (\<lambda>r. Inr (Complete (Bool True), r))
      else if peek_is CHR ''f'' s then and_then (parse_literal ''false'' s) (\<lambda>r. Inr (Complete (Bool False), r))
      else if peek_is CHR 0x22 s then and_then (parse_string s) (\<lambda>(v, r). Inr (Complete (String v), r))
      else if peek_is CHR ''['' s then
        and_then (begin_container outer_depth stack_depth CHR ''['' s) (\<lambda>u.
          let v = skip_whitespace u
          in if peek_is CHR '']'' v then Inr (Complete (Array []), tl v)
             else Inr (Nested (ParsedArray []), v))
      else if peek_is CHR ''{'' s then
        and_then (begin_container outer_depth stack_depth CHR ''{'' s) (\<lambda>u.
          let v = skip_whitespace u
          in if peek_is CHR ''}'' v then Inr (Complete (Object []), tl v)
             else and_then (parse_object_key v) (\<lambda>(key, w). Inr (Nested (ParsedObject [] key), w)))
      else if starts_number s then
        and_then (parse_number_range s) (\<lambda>r.
          case num (take (length s - length r) s) of
            None \<Rightarrow> Inl InvalidData
          | Some n \<Rightarrow> Inr (Complete (Number n), r))
      else Inl (GoJson ''invalid value''))"

section \<open>What the parsing steps share with the skipping ones\<close>

fun container_kind :: "'n ParsedContainer \<Rightarrow> SkippedContainer" where
  "container_kind (ParsedArray _) = SkippedArray"
| "container_kind (ParsedObject _ _) = SkippedObject"

fun start_kind :: "'n ValueStart \<Rightarrow> SkippedContainer option" where
  "start_kind (Complete _) = None"
| "start_kind (Nested c) = Some (container_kind c)"

lemma parse_string_Inr: "parse_string s = Inr (v, r) \<Longrightarrow> skip_string s = Inr r"
  using parse_string_skip [of s] by simp

lemma parse_string_Inl: "parse_string s = Inl e \<longleftrightarrow> skip_string s = Inl e"
  using parse_string_skip [of s] by (cases "parse_string s"; cases "skip_string s") auto

lemma parse_object_key_skip: "map_sum id snd (parse_object_key s) = skip_object_key s"
proof (cases "parse_string s")
  case (Inl e)
  then show ?thesis by (simp add: parse_object_key_def skip_object_key_def parse_string_Inl [THEN iffD1])
next
  case (Inr vr)
  obtain v r where vr: "vr = (v, r)" by (cases vr)
  have "skip_string s = Inr r" using Inr vr by (simp add: parse_string_Inr)
  with Inr vr show ?thesis
    by (cases "expect CHR '':'' (skip_whitespace r)") (simp_all add: parse_object_key_def skip_object_key_def)
qed

lemma parse_value_start_skip:
  "parse_value_start num d n s = Inl InvalidData \<and> (\<exists>t. num t = None) \<or>
   map_sum id (map_prod start_kind id) (parse_value_start num d n s) = skip_value_start d n s"
proof -
  have key: "map_sum id (map_prod start_kind id)
       (and_then (parse_object_key v) (\<lambda>(key, w). Inr (Nested (ParsedObject [] key), w)))
     = and_then (skip_object_key v) (\<lambda>w. Inr (Some SkippedObject, w))" for v
    unfolding parse_object_key_skip [of v, symmetric] by (cases "parse_object_key v") (auto simp: map_prod_def)
  have str: "map_sum id (map_prod start_kind id)
       (and_then (parse_string s) (\<lambda>(v, r). Inr (Complete (String v), r)))
     = and_then (skip_string s) (\<lambda>r. Inr (None, r))"
    unfolding parse_string_skip [of s, symmetric] by (cases "parse_string s") (auto simp: map_prod_def)
  have lit: "map_sum id (map_prod start_kind id) (and_then (parse_literal w s) (\<lambda>r. Inr (Complete x, r)))
     = and_then (parse_literal w s) (\<lambda>r. Inr (None, r))" for w and x :: "'a Value"
    by (cases "parse_literal w s") simp_all
  have cont: "map_sum id (map_prod start_kind id) (and_then b f) = and_then b g"
    if "\<And>u. map_sum id (map_prod start_kind id) (f u) = g u"
    for b :: "EventError + string" and f g using that by (cases b) simp_all
  have num_step: "and_then (parse_number_range s)
        (\<lambda>r. case num (take (length s - length r) s) of None \<Rightarrow> Inl InvalidData
                | Some n \<Rightarrow> Inr (Complete (Number n), r)) = Inl InvalidData \<and> (\<exists>t. num t = None) \<or>
      map_sum id (map_prod start_kind id) (and_then (parse_number_range s)
        (\<lambda>r. case num (take (length s - length r) s) of None \<Rightarrow> Inl InvalidData
                | Some n \<Rightarrow> Inr (Complete (Number n), r)))
      = and_then (parse_number_range s) (\<lambda>r. Inr (None, r))"
    by (cases "parse_number_range s") (auto split: option.split)
  show ?thesis
    unfolding parse_value_start_def skip_value_start_def
    by (auto simp: lit str Let_def key num_step intro!: cont split del: if_split split: if_splits)
qed

lemma parse_value_start_consumes:
  assumes "parse_value_start num d n s = Inr (x, r)"
  shows "strict_suffix r s"
  using parse_value_start_skip [of num d n s] assms value_start_consumes [of d n s "start_kind x" r] by auto

lemma parse_object_key_shorter: "parse_object_key s = Inr (key, r) \<Longrightarrow> length r < length s"
  using parse_object_key_skip [of s] object_key.shorter [of s r] by auto

section \<open>The loops\<close>

function (sequential) parse_loop ::
    "(string \<Rightarrow> 'n option) \<Rightarrow> nat \<Rightarrow> 'n ParsedContainer list \<Rightarrow> 'n Value scan"
  and parse_unwind ::
    "(string \<Rightarrow> 'n option) \<Rightarrow> nat \<Rightarrow> 'n ParsedContainer list \<Rightarrow> 'n Value \<Rightarrow> 'n Value scan"
where
  "parse_loop num outer_depth stack s =
     (case parse_value_start num outer_depth (length stack) s of
        Inl e \<Rightarrow> Inl e
      | Inr (Nested c, r) \<Rightarrow> parse_loop num outer_depth (c # stack) r
      | Inr (Complete v, r) \<Rightarrow> parse_unwind num outer_depth stack v r)"
| "parse_unwind num outer_depth [] v s = Inr (v, s)"
| "parse_unwind num outer_depth (ParsedArray vs # stack) v s =
     (let u = skip_whitespace s in
      if peek_is CHR '','' u then
        parse_loop num outer_depth (ParsedArray (vs @ [v]) # stack) (skip_whitespace (tl u))
      else if peek_is CHR '']'' u then parse_unwind num outer_depth stack (Array (vs @ [v])) (tl u)
      else Inl (GoJson ''expected array delimiter''))"
| "parse_unwind num outer_depth (ParsedObject entries key # stack) v s =
     (let u = skip_whitespace s in
      if peek_is CHR '','' u then
        (case parse_object_key (skip_whitespace (tl u)) of
           Inl e \<Rightarrow> Inl e
         | Inr (key', w) \<Rightarrow>
             parse_loop num outer_depth (ParsedObject (bt_insert key v entries) key' # stack) w)
      else if peek_is CHR ''}'' u then
        parse_unwind num outer_depth stack (Object (bt_insert key v entries)) (tl u)
      else Inl (GoJson ''expected object delimiter''))"
  by pat_completeness auto
termination parse_loop
proof (relation "measure (\<lambda>a. case a of Inl (num, d, st, s) \<Rightarrow> length s | Inr (num, d, st, v, s) \<Rightarrow> length s)",
    goal_cases)
  case 1
  show ?case by simp
qed (auto dest!: parse_value_start_consumes suffix_length_less parse_object_key_shorter
    intro: after_delimiter less_trans [OF _ after_delimiter(1)] simp del: length_tl)

declare parse_loop.simps [simp del] parse_unwind.simps(2,3) [simp del]

definition parse_value :: "(string \<Rightarrow> 'n option) \<Rightarrow> nat \<Rightarrow> 'n Value scan" where
  "parse_value num outer_depth s = parse_loop num outer_depth [] s"

text \<open>The parser is the scanner that also builds the value; it can only fail on more numbers.\<close>

lemma parse_skip:
  "parse_loop num d st s = Inl InvalidData \<and> (\<exists>t. num t = None) \<or>
     map_sum id snd (parse_loop num d st s) = skip_loop d (map container_kind st) s"
  "parse_unwind num d st v s = Inl InvalidData \<and> (\<exists>t. num t = None) \<or>
     map_sum id snd (parse_unwind num d st v s) = skip_unwind d (map container_kind st) s"
proof (induction num d st s and num d st v s rule: parse_loop_parse_unwind.induct)
  case (1 num d st s)
  show ?case
  proof (cases "parse_value_start num d (length st) s")
    case (Inl e)
    then consider "e = InvalidData" "\<exists>t. num t = None" | "skip_value_start d (length st) s = Inl e"
      using parse_value_start_skip [of num d "length st" s] by auto
    then show ?thesis
      using Inl by cases
        (simp_all add: parse_loop.simps [of num d st s] skip_loop.simps [of d "map container_kind st" s])
  next
    case (Inr xr)
    obtain x r where xr: "xr = (x, r)" by (cases xr)
    have skip: "skip_value_start d (length st) s = Inr (start_kind x, r)"
      using parse_value_start_skip [of num d "length st" s] Inr xr by auto
    show ?thesis
    proof (cases x)
      case (Complete v)
      then show ?thesis using "1.IH"(1) [OF Inr xr [symmetric] Complete] Inr xr skip
        by (simp add: parse_loop.simps [of num d st s] skip_loop.simps [of d "map container_kind st" s])
    next
      case (Nested c)
      then show ?thesis using "1.IH"(2) [OF Inr xr [symmetric] Nested] Inr xr skip
        by (simp add: parse_loop.simps [of num d st s] skip_loop.simps [of d "map container_kind st" s])
    qed
  qed
next
  case (2 num d v s)
  show ?case by simp
next
  case (3 num d vs st v s)
  let ?u = "skip_whitespace s"
  show ?case
    using "3.IH"(1) [OF refl] "3.IH"(2) [OF refl]
    by (auto simp: parse_unwind.simps skip_unwind.simps Let_def)
next
  case (4 num d es key st v s)
  let ?u = "skip_whitespace s"
  show ?case
  proof (cases "peek_is CHR '','' ?u")
    case True
    show ?thesis
    proof (cases "parse_object_key (skip_whitespace (tl ?u))")
      case (Inl e)
      then have "skip_object_key (skip_whitespace (tl ?u)) = Inl e"
        using parse_object_key_skip [of "skip_whitespace (tl ?u)"] by simp
      with Inl True show ?thesis by (simp add: parse_unwind.simps skip_unwind.simps Let_def)
    next
      case (Inr kw)
      obtain k w where kw: "kw = (k, w)" by (cases kw)
      then have "skip_object_key (skip_whitespace (tl ?u)) = Inr w"
        using parse_object_key_skip [of "skip_whitespace (tl ?u)"] Inr by simp
      with Inr kw True "4.IH"(1) [OF refl True Inr kw [symmetric]] show ?thesis
        by (simp add: parse_unwind.simps skip_unwind.simps Let_def)
    qed
  next
    case False
    then show ?thesis
      using "4.IH"(2) [OF refl] by (auto simp: parse_unwind.simps skip_unwind.simps Let_def)
  qed
qed

section \<open>What a parsed value looks like\<close>

fun value_ok :: "nat \<Rightarrow> 'n Value \<Rightarrow> bool" where
  "value_ok k (Array vs) = (0 < k \<and> (\<forall>v\<in>set vs. value_ok (k - 1) v))"
| "value_ok k (Object es) =
     (0 < k \<and> bt_wf es \<and> (\<forall>e\<in>set es. utf8_valid (fst e) \<and> value_ok (k - 1) (snd e)))"
| "value_ok k (String s) = utf8_valid s"
| "value_ok k _ = True"

fun container_ok :: "nat \<Rightarrow> 'n ParsedContainer \<Rightarrow> bool" where
  "container_ok k (ParsedArray vs) = (\<forall>v\<in>set vs. value_ok k v)"
| "container_ok k (ParsedObject es key) =
     (utf8_valid key \<and> bt_wf es \<and> (\<forall>e\<in>set es. utf8_valid (fst e) \<and> value_ok k (snd e)))"

text \<open>The contents of a container on the stack nest as deep as its height leaves room for.\<close>

fun stack_ok :: "nat \<Rightarrow> 'n ParsedContainer list \<Rightarrow> bool" where
  "stack_ok d [] = True"
| "stack_ok d (c # st) =
     (Suc (d + length st) \<le> GO_JSON_MAX_NESTING_DEPTH \<and>
      container_ok (GO_JSON_MAX_NESTING_DEPTH - Suc (d + length st)) c \<and> stack_ok d st)"

lemma bt_insert_set: "set (bt_insert k v m) \<subseteq> insert (k, v) (set m)"
  by (induction k v m rule: bt_insert.induct) auto

lemma parse_string_valid: "parse_string s = Inr (v, r) \<Longrightarrow> utf8_valid v"
  using parse_string_Inr [of s v r] parse_string_scanned [of s r] by auto

lemma parse_object_key_valid: "parse_object_key s = Inr (key, r) \<Longrightarrow> utf8_valid key"
  by (auto simp: parse_object_key_def result_simps dest: parse_string_valid)

lemma parse_value_start_ok:
  assumes "parse_value_start num d n s = Inr (x, r)"
  shows "case x of
      Complete v \<Rightarrow> value_ok (GO_JSON_MAX_NESTING_DEPTH - (d + n)) v
    | Nested c \<Rightarrow> Suc (d + n) \<le> GO_JSON_MAX_NESTING_DEPTH \<and>
        container_ok (GO_JSON_MAX_NESTING_DEPTH - Suc (d + n)) c"
  using assms unfolding parse_value_start_def begin_container_def
  by (auto simp: result_simps Let_def bt_wf_def parse_string_valid parse_object_key_valid
      split: if_splits option.splits)

lemma parse_ok:
  "parse_loop num d st s = Inr (w, r) \<Longrightarrow> stack_ok d st \<Longrightarrow>
     value_ok (GO_JSON_MAX_NESTING_DEPTH - d) w"
  "parse_unwind num d st v s = Inr (w, r) \<Longrightarrow> stack_ok d st \<Longrightarrow>
     value_ok (GO_JSON_MAX_NESTING_DEPTH - (d + length st)) v \<Longrightarrow>
     value_ok (GO_JSON_MAX_NESTING_DEPTH - d) w"
proof (induction num d st s and num d st v s rule: parse_loop_parse_unwind.induct)
  case (1 num d st s)
  from "1.prems"(1) obtain x u where start: "parse_value_start num d (length st) s = Inr (x, u)"
    by (auto simp: parse_loop.simps [of num d st s] split: sum.splits)
  note ok = parse_value_start_ok [OF start]
  show ?case
  proof (cases x)
    case (Complete v)
    then show ?thesis
      using "1.IH"(1) [OF start refl Complete] "1.prems" start ok by (simp add: parse_loop.simps [of num d st s])
  next
    case (Nested c)
    then show ?thesis
      using "1.IH"(2) [OF start refl Nested] "1.prems" start ok by (simp add: parse_loop.simps [of num d st s])
  qed
next
  case (2 num d v s)
  then show ?case by simp
next
  case (3 num d vs st v s)
  let ?k = "GO_JSON_MAX_NESTING_DEPTH - Suc (d + length st)"
  have items: "\<forall>x\<in>set (vs @ [v]). value_ok ?k x" and room: "Suc (d + length st) \<le> GO_JSON_MAX_NESTING_DEPTH"
    using "3.prems"(2,3) by auto
  then have ok: "stack_ok d (ParsedArray (vs @ [v]) # st)"
    "value_ok (GO_JSON_MAX_NESTING_DEPTH - (d + length st)) (Array (vs @ [v]))" "stack_ok d st"
    using "3.prems"(2) by auto
  then show ?case
    using "3.IH"(1) [OF refl] "3.IH"(2) [OF refl] "3.prems"(1)
    by (auto simp del: stack_ok.simps value_ok.simps simp: parse_unwind.simps Let_def split: if_splits)
next
  case (4 num d es key st v s)
  let ?k = "GO_JSON_MAX_NESTING_DEPTH - Suc (d + length st)"
  let ?es = "bt_insert key v es"
  have room: "Suc (d + length st) \<le> GO_JSON_MAX_NESTING_DEPTH" and wf: "bt_wf ?es"
    and items: "\<forall>e\<in>set ?es. utf8_valid (fst e) \<and> value_ok ?k (snd e)"
    using "4.prems"(2,3) bt_insert_set [of key v es] by (auto intro: bt_insert_wf)
  have stack: "stack_ok d (ParsedObject ?es k # st)" if valid: "utf8_valid k" for k
    using "4.prems"(2) room wf items valid by simp
  have obj: "value_ok (GO_JSON_MAX_NESTING_DEPTH - (d + length st)) (Object ?es)"
    using room wf items by auto
  have st: "stack_ok d st" using "4.prems"(2) by simp
  consider (comma) k w w' where "peek_is CHR '','' (skip_whitespace s)"
      "parse_object_key (skip_whitespace (tl (skip_whitespace s))) = Inr (k, w)"
      "parse_loop num d (ParsedObject ?es k # st) w = Inr (w', r)"
    | (close) "\<not> peek_is CHR '','' (skip_whitespace s)" "peek_is CHR ''}'' (skip_whitespace s)"
    using "4.prems"(1) by (auto simp: parse_unwind.simps Let_def split: if_splits sum.splits)
  then show ?case
  proof cases
    case (comma k u w')
    then show ?thesis
      using "4.IH"(1) [OF refl comma(1,2) refl] stack parse_object_key_valid [OF comma(2)] "4.prems"(1)
      by (simp add: parse_unwind.simps Let_def)
  next
    case close
    then show ?thesis using "4.IH"(2) [OF refl close] st obj "4.prems"(1)
      by (simp add: parse_unwind.simps Let_def)
  qed
qed

end
