(* ===== verification/Json_Values.thy ===== *)
theory Json_Values
  imports Json_Parser
begin

text \<open>
  The stack-safe operations on JSON values of \<^verbatim>\<open>orchestrator-core/src/codec.rs\<close>: cloning and
  comparing without recursion, each a loop over explicit work lists. The numbers' equality is
  serde's, the parameter \<open>neq\<close>. A Rust \<open>Vec\<close> used as a stack has its top at the end; the model
  keeps the top at the head.
\<close>

section \<open>Cloning\<close>

datatype 'n JsonCloneFrame =
    CloneValue "'n Value"
  | CloneArray nat
  | CloneObject nat "string list"

text \<open>
  \<open>results\<close> grows at its end; a container frame remembers how many results were there when it
  was pushed and collects the ones above.
\<close>

fun clone_step :: "'n JsonCloneFrame \<Rightarrow> 'n JsonCloneFrame list \<times> 'n Value list
    \<Rightarrow> 'n JsonCloneFrame list \<times> 'n Value list" where
  "clone_step (CloneValue (Array vs)) (pending, results) =
     (map CloneValue vs @ CloneArray (length results) # pending, results)"
| "clone_step (CloneValue (Object es)) (pending, results) =
     (map CloneValue (map snd es) @ CloneObject (length results) (map fst es) # pending, results)"
| "clone_step (CloneValue v) (pending, results) = (pending, results @ [v])"
| "clone_step (CloneArray start) (pending, results) =
     (pending, take start results @ [Array (drop start results)])"
| "clone_step (CloneObject start keys) (pending, results) =
     (pending, take start results @ [Object (bt_collect (zip keys (drop start results)))])"

fun value_size :: "'n Value \<Rightarrow> nat" where
  "value_size (Array vs) = 2 + sum_list (map value_size vs)"
| "value_size (Object es) = 2 + sum_list (map (\<lambda>e. value_size (snd e)) es)"
| "value_size _ = 1"

fun frame_size :: "'n JsonCloneFrame \<Rightarrow> nat" where
  "frame_size (CloneValue v) = value_size v"
| "frame_size _ = 1"

definition frames_size :: "'n JsonCloneFrame list \<Rightarrow> nat" where
  "frames_size fs = sum_list (map frame_size fs)"

lemma frames_size_simps [simp]:
  "frames_size [] = 0" "frames_size (f # fs) = frame_size f + frames_size fs"
  "frames_size (fs @ gs) = frames_size fs + frames_size gs"
  "frames_size (map CloneValue vs) = sum_list (map value_size vs)"
  "frames_size (map (\<lambda>e. CloneValue (snd e)) es) = sum_list (map (\<lambda>e. value_size (snd e)) es)"
  by (simp_all add: frames_size_def comp_def)

lemma clone_step_smaller:
  "frames_size (fst (clone_step f (pending, results))) < frames_size (f # pending)"
  by (induction f "(pending, results)" rule: clone_step.induct) (simp_all add: comp_def)

function clone_loop :: "'n JsonCloneFrame list \<Rightarrow> 'n Value list \<Rightarrow> 'n Value list" where
  "clone_loop [] results = results"
| "clone_loop (f # pending) results =
     (case clone_step f (pending, results) of (pending', results') \<Rightarrow> clone_loop pending' results')"
  by pat_completeness auto
termination
proof (relation "measure (\<lambda>(pending, _). frames_size pending)", goal_cases)
  case (2 f pending results pending' results')
  then show ?case using clone_step_smaller [of f pending results] by (auto split: prod.splits)
qed simp

text \<open>\<open>results.pop().unwrap_or(Value::Null)\<close>\<close>

definition clone_json_value_iteratively :: "'n Value \<Rightarrow> 'n Value" where
  "clone_json_value_iteratively root =
     (let results = clone_loop [CloneValue root] [] in if results = [] then Null else last results)"

section \<open>Comparing\<close>

fun zip_entries :: "(string \<times> 'n Value) list \<Rightarrow> (string \<times> 'n Value) list \<Rightarrow>
    ('n Value \<times> 'n Value) list \<Rightarrow> ('n Value \<times> 'n Value) list option" where
  "zip_entries ((k, v) # es) ((k', v') # es') pending =
     (if k \<noteq> k' then None else zip_entries es es' ((v, v') # pending))"
| "zip_entries _ _ pending = Some pending"

fun equal_step :: "('n \<Rightarrow> 'n \<Rightarrow> bool) \<Rightarrow> 'n Value \<times> 'n Value \<Rightarrow>
    ('n Value \<times> 'n Value) list \<Rightarrow> ('n Value \<times> 'n Value) list option" where
  "equal_step neq (Null, Null) pending = Some pending"
| "equal_step neq (Bool a, Bool b) pending = (if a = b then Some pending else None)"
| "equal_step neq (Number a, Number b) pending = (if neq a b then Some pending else None)"
| "equal_step neq (String a, String b) pending = (if a = b then Some pending else None)"
| "equal_step neq (Array xs, Array ys) pending =
     (if length xs = length ys then Some (rev (zip xs ys) @ pending) else None)"
| "equal_step neq (Object es, Object es') pending =
     (if length es = length es' then zip_entries es es' pending else None)"
| "equal_step neq _ pending = None"

fun pair_size :: "'n Value \<times> 'n Value \<Rightarrow> nat" where
  "pair_size (a, b) = value_size a"

lemma zip_entries_size:
  "zip_entries es es' pending = Some p \<Longrightarrow>
     sum_list (map pair_size p) \<le> sum_list (map (\<lambda>e. value_size (snd e)) es) + sum_list (map pair_size pending)"
  by (induction es es' pending rule: zip_entries.induct) (fastforce split: if_splits)+

lemma zip_size:
  "sum_list (map pair_size (zip xs ys)) \<le> sum_list (map value_size xs)"
  by (induction xs ys rule: list_induct2') auto

lemma equal_step_smaller:
  "equal_step neq p pending = Some pending' \<Longrightarrow>
     sum_list (map pair_size pending') < sum_list (map pair_size (p # pending))"
proof (induction neq p pending rule: equal_step.induct)
  case (5 neq xs ys pending)
  then show ?case
    using zip_size [of xs ys] by (auto simp: rev_map [symmetric] sum_list_rev split: if_splits)
next
  case (6 neq es es' pending)
  then show ?case using zip_entries_size [of es es' pending pending'] by (auto split: if_splits)
qed (auto split: if_splits)

function equal_loop :: "('n \<Rightarrow> 'n \<Rightarrow> bool) \<Rightarrow> ('n Value \<times> 'n Value) list \<Rightarrow> bool" where
  "equal_loop neq [] = True"
| "equal_loop neq (p # pending) =
     (case equal_step neq p pending of None \<Rightarrow> False | Some pending' \<Rightarrow> equal_loop neq pending')"
  by pat_completeness auto
termination
  by (relation "measure (\<lambda>(_, pending). sum_list (map pair_size pending))")
    (auto dest: equal_step_smaller)

definition json_values_equal_iteratively :: "('n \<Rightarrow> 'n \<Rightarrow> bool) \<Rightarrow> 'n Value \<Rightarrow> 'n Value \<Rightarrow> bool" where
  "json_values_equal_iteratively neq left right = equal_loop neq [(left, right)]"

text \<open>\<open>EventJsonMap\<close>: the owner of an event's JSON object.\<close>

type_synonym 'n EventJsonMap = "(string, 'n Value) btree_map"

definition event_map_insert :: "string \<Rightarrow> 'n Value \<Rightarrow> 'n EventJsonMap \<Rightarrow> bool \<times> 'n EventJsonMap" where
  "event_map_insert key v m = (bt_get m key \<noteq> None, bt_insert key v m)"

definition event_map_extend :: "(string \<times> 'n Value) list \<Rightarrow> 'n EventJsonMap \<Rightarrow> 'n EventJsonMap" where
  "event_map_extend entries m = fold (\<lambda>(key, v) m. snd (event_map_insert key v m)) entries m"

definition event_map_from_iter :: "(string \<times> 'n Value) list \<Rightarrow> 'n EventJsonMap" where
  "event_map_from_iter entries = event_map_extend entries []"

definition event_map_clone :: "'n EventJsonMap \<Rightarrow> 'n EventJsonMap" where
  "event_map_clone m = event_map_from_iter (map (\<lambda>(key, v). (key, clone_json_value_iteratively v)) m)"

definition event_map_eq :: "('n \<Rightarrow> 'n \<Rightarrow> bool) \<Rightarrow> 'n EventJsonMap \<Rightarrow> 'n EventJsonMap \<Rightarrow> bool" where
  "event_map_eq neq a b \<longleftrightarrow>
     length a = length b \<and>
     list_all (\<lambda>((k, v), (k', v')). k = k' \<and> json_values_equal_iteratively neq v v') (zip a b)"

section \<open>Cloning yields the same value\<close>

text \<open>Every object inside is a map: its keys are in order, without repetition.\<close>

fun maps_wf :: "'n Value \<Rightarrow> bool" where
  "maps_wf (Array vs) = (\<forall>v\<in>set vs. maps_wf v)"
| "maps_wf (Object es) = (bt_wf es \<and> (\<forall>e\<in>set es. maps_wf (snd e)))"
| "maps_wf _ = True"

lemma value_ok_maps_wf: "value_ok k v \<Longrightarrow> maps_wf v"
  by (induction k v rule: value_ok.induct) auto

lemma bt_insert_last: "\<forall>k'\<in>set (map fst m). k' < k \<Longrightarrow> bt_insert k v m = m @ [(k, v)]"
  by (induction k v m rule: bt_insert.induct) auto

lemma bt_collect_sorted: "bt_wf es \<Longrightarrow> bt_collect es = es"
proof (induction es rule: rev_induct)
  case Nil
  show ?case by (simp add: bt_collect_def)
next
  case (snoc e es)
  obtain k v where e: "e = (k, v)" by (cases e)
  with snoc.prems have "bt_wf es" "\<forall>k'\<in>set (map fst es). k' < k"
    by (auto simp: bt_wf_def sorted_wrt_append)
  then show ?case using snoc.IH e by (simp add: bt_collect_def bt_insert_last)
qed

lemma clone_values:
  assumes "\<And>v p r. v \<in> set vs \<Longrightarrow> clone_loop (CloneValue v # p) r = clone_loop p (r @ [v])"
  shows "clone_loop (map CloneValue vs @ pending) results = clone_loop pending (results @ vs)"
  using assms
proof (induction vs arbitrary: results)
  case (Cons v vs)
  have "clone_loop (map CloneValue vs @ pending) (results @ [v]) = clone_loop pending ((results @ [v]) @ vs)"
    by (rule Cons.IH) (rule Cons.prems, simp)
  then show ?case using Cons.prems [of v "map CloneValue vs @ pending" results] by simp
qed simp

lemma clone_loop_value:
  "maps_wf v \<Longrightarrow> clone_loop (CloneValue v # pending) results = clone_loop pending (results @ [v])"
proof (induction v arbitrary: pending results)
  case (Array vs)
  have "clone_loop (map CloneValue vs @ CloneArray (length results) # pending) results
      = clone_loop (CloneArray (length results) # pending) (results @ vs)"
    using Array by (intro clone_values) auto
  then show ?case by simp
next
  case (Object es)
  have "clone_loop (map CloneValue (map snd es) @ CloneObject (length results) (map fst es) # pending) results
      = clone_loop (CloneObject (length results) (map fst es) # pending) (results @ map snd es)"
    using Object by (intro clone_values) (auto simp del: map_map)
  moreover have "zip (map fst es) (map snd es) = es" by (rule zip_map_fst_snd)
  ultimately show ?case using Object.prems by (simp add: bt_collect_sorted)
qed simp_all

lemma clone_exact: "maps_wf v \<Longrightarrow> clone_json_value_iteratively v = v"
  by (simp add: clone_json_value_iteratively_def clone_loop_value del: clone_loop.simps(2))

section \<open>Comparing decides structural equality\<close>

fun value_eq :: "('n \<Rightarrow> 'n \<Rightarrow> bool) \<Rightarrow> 'n Value \<Rightarrow> 'n Value \<Rightarrow> bool" where
  "value_eq neq Null Null = True"
| "value_eq neq (Bool a) (Bool b) = (a = b)"
| "value_eq neq (Number a) (Number b) = neq a b"
| "value_eq neq (String a) (String b) = (a = b)"
| "value_eq neq (Array xs) (Array ys) = list_all2 (value_eq neq) xs ys"
| "value_eq neq (Object es) (Object es') =
     list_all2 (\<lambda>e e'. fst e = fst e' \<and> value_eq neq (snd e) (snd e')) es es'"
| "value_eq neq _ _ = False"

lemma zip_entries_all:
  "length es = length es' \<Longrightarrow>
   (case zip_entries es es' pending of
      None \<Rightarrow> False
    | Some p \<Rightarrow> \<forall>(a, b)\<in>set p. value_eq neq a b) \<longleftrightarrow>
   list_all2 (\<lambda>e e'. fst e = fst e' \<and> value_eq neq (snd e) (snd e')) es es' \<and>
   (\<forall>(a, b)\<in>set pending. value_eq neq a b)"
  by (induction es es' pending rule: zip_entries.induct) auto

lemma equal_step_all:
  "(case equal_step neq p pending of
      None \<Rightarrow> False
    | Some q \<Rightarrow> \<forall>(a, b)\<in>set q. value_eq neq a b) \<longleftrightarrow>
   (\<forall>(a, b)\<in>set (p # pending). value_eq neq a b)"
proof (cases "(neq, p, pending)" rule: equal_step.cases)
  case (5 neq' xs ys pending')
  then show ?thesis by (auto simp: list_all2_iff)
next
  case (6 neq' es es' pending')
  then show ?thesis
    using zip_entries_all [of es es' neq pending] by (auto simp: list_all2_lengthD)
qed auto

lemma equal_loop_all: "equal_loop neq pending \<longleftrightarrow> (\<forall>(a, b)\<in>set pending. value_eq neq a b)"
proof (induction neq pending rule: equal_loop.induct)
  case (2 neq p pending)
  then show ?case using equal_step_all [of neq p pending] by (cases "equal_step neq p pending") auto
qed simp

lemma equal_exact: "json_values_equal_iteratively neq a b \<longleftrightarrow> value_eq neq a b"
  by (simp add: json_values_equal_iteratively_def equal_loop_all)

lemma value_eq_eq: "value_eq (=) (a :: 'n Value) b \<longleftrightarrow> a = b"
proof (induction "(=) :: 'n \<Rightarrow> 'n \<Rightarrow> bool" a b rule: value_eq.induct)
  case (5 xs ys)
  have "list_all2 (value_eq (=)) xs ys \<longleftrightarrow> list_all2 (=) xs ys"
    using 5 by (intro list.rel_cong) auto
  then show ?case by (simp add: list.rel_eq)
next
  case (6 es es')
  have "list_all2 (\<lambda>e e'. fst e = fst e' \<and> value_eq (=) (snd e) (snd e')) es es' \<longleftrightarrow> list_all2 (=) es es'"
    using 6 by (intro list.rel_cong) (auto simp: prod_eq_iff)
  then show ?case by (simp add: list.rel_eq)
qed auto

end
