(* ===== verification/Timestamps.thy ===== *)
theory Timestamps
  imports Rust_Text
begin

text \<open>
  The two readers of event timestamps (\<^verbatim>\<open>orchestrator-core/src/codec.rs\<close>): \<open>is_rfc3339\<close>, which
  guards stored and persisted events, and \<open>normalize_go_time_unmarshal_rfc3339\<close>, which follows
  Go's lenient \<open>time.Time.UnmarshalJSON\<close>.
\<close>

section \<open>Bytes and numbers\<close>

definition byte_at :: "string \<Rightarrow> nat \<Rightarrow> char option" where
  "byte_at s i = (if i < length s then Some (s ! i) else None)"

definition slice :: "string \<Rightarrow> nat \<Rightarrow> nat \<Rightarrow> string option" where
  "slice s a b = (if a \<le> b \<and> b \<le> length s then Some (take (b - a) (drop a s)) else None)"

definition is_ascii :: "string \<Rightarrow> bool" where
  "is_ascii s \<longleftrightarrow> list_all (\<lambda>c. byte c < 128) s"

definition digits_value :: "string \<Rightarrow> nat" where
  "digits_value ds = fold (\<lambda>c n. n * 10 + (byte c - 48)) ds 0"

text \<open>
  \<open>str::parse::<u32>\<close> of at most four bytes, so without overflow: a leading \<open>+\<close> is accepted.
\<close>

definition parse_u32 :: "string \<Rightarrow> nat option" where
  "parse_u32 s =
     (let ds = (if starts_with s ''+'' then tl s else s)
      in if ds \<noteq> [] \<and> list_all is_digit ds then Some (digits_value ds) else None)"

definition ascii_decimal :: "string option \<Rightarrow> nat option" where
  "ascii_decimal bytes =
     (case bytes of
        None \<Rightarrow> None
      | Some ds \<Rightarrow> if ds = [] \<or> \<not> list_all is_digit ds then None else Some (digits_value ds))"

definition leap_year :: "nat \<Rightarrow> bool" where
  "leap_year year \<longleftrightarrow> year mod 4 = 0 \<and> (year mod 100 \<noteq> 0 \<or> year mod 400 = 0)"

definition days_in_month :: "nat \<Rightarrow> nat \<Rightarrow> nat" where
  "days_in_month year month =
     (if month = 2 \<and> leap_year year then 29
      else if month = 2 then 28
      else if month \<in> {4, 6, 9, 11} then 30
      else if month \<in> {1, 3, 5, 7, 8, 10, 12} then 31
      else 0)"

text \<open>The end of a run of digits that starts at a position.\<close>

definition digits_end :: "string \<Rightarrow> nat \<Rightarrow> nat" where
  "digits_end s i = i + length (takeWhile is_digit (drop i s))"

section \<open>The strict reader\<close>

definition rfc3339_number :: "string \<Rightarrow> nat \<Rightarrow> nat \<Rightarrow> nat option" where
  "rfc3339_number s a b = Option.bind (slice s a b) parse_u32"

definition rfc3339_zone :: "string \<Rightarrow> nat \<Rightarrow> bool" where
  "rfc3339_zone s i =
     (case byte_at s i of
        None \<Rightarrow> False
      | Some c \<Rightarrow>
          if c = CHR ''Z'' then i + 1 = length s
          else if c = CHR ''+'' \<or> c = CHR ''-'' then
            i + 6 = length s \<and> byte_at s (i + 3) = Some CHR '':'' \<and>
            (case (rfc3339_number s (i + 1) (i + 3), rfc3339_number s (i + 4) (i + 6)) of
               (Some zone_hour, Some zone_minute) \<Rightarrow> zone_hour \<le> 23 \<and> zone_minute \<le> 59
             | _ \<Rightarrow> False)
          else False)"

definition rfc3339_separators :: "string \<Rightarrow> bool" where
  "rfc3339_separators s \<longleftrightarrow>
     byte_at s 4 = Some CHR ''-'' \<and> byte_at s 7 = Some CHR ''-'' \<and> byte_at s 10 = Some CHR ''T'' \<and>
     byte_at s 13 = Some CHR '':'' \<and> byte_at s 16 = Some CHR '':''"

definition rfc3339_in_range :: "nat \<Rightarrow> nat \<Rightarrow> nat \<Rightarrow> nat \<Rightarrow> nat \<Rightarrow> nat \<Rightarrow> bool" where
  "rfc3339_in_range year month day hour minute second \<longleftrightarrow>
     day \<noteq> 0 \<and> day \<le> days_in_month year month \<and> hour \<le> 23 \<and> minute \<le> 59 \<and> second \<le> 59"

definition is_rfc3339 :: "string \<Rightarrow> bool" where
  "is_rfc3339 s \<longleftrightarrow>
     20 \<le> length s \<and> is_ascii s \<and> rfc3339_separators s \<and>
     (case (rfc3339_number s 5 7, rfc3339_number s 8 10, rfc3339_number s 11 13,
            rfc3339_number s 14 16, rfc3339_number s 17 19) of
        (Some month, Some day, Some hour, Some minute, Some second) \<Rightarrow>
          let year = (case rfc3339_number s 0 4 of Some y \<Rightarrow> y | None \<Rightarrow> 0) in
          rfc3339_in_range year month day hour minute second \<and>
          (if byte_at s 19 = Some CHR ''.'' then
             digits_end s 20 \<noteq> 20 \<and> rfc3339_zone s (digits_end s 20)
           else rfc3339_zone s 19)
      | _ \<Rightarrow> False)"

section \<open>The reader that follows Go\<close>

definition padded :: "nat \<Rightarrow> nat \<Rightarrow> string" where
  "padded width n = replicate (width - length (decimal n)) CHR ''0'' @ decimal n"

definition go_zone :: "string \<Rightarrow> nat \<Rightarrow> string option" where
  "go_zone s cursor =
     (case byte_at s cursor of
        None \<Rightarrow> None
      | Some c \<Rightarrow>
          if c = CHR ''Z'' \<and> cursor + 1 = length s then Some ''Z''
          else if c = CHR ''+'' \<or> c = CHR ''-'' then
            (if cursor + 6 \<noteq> length s \<or> byte_at s (cursor + 3) \<noteq> Some CHR '':'' then None
             else
               (case (ascii_decimal (slice s (cursor + 1) (cursor + 3)),
                      ascii_decimal (slice s (cursor + 4) (cursor + 6))) of
                  (Some hour, Some minute) \<Rightarrow>
                    if 24 < hour \<or> 60 < minute then None
                    else
                      let total_minutes = hour * 60 + minute
                      in if total_minutes = 0 then Some ''Z''
                         else Some (c # padded 2 (total_minutes div 60) @ '':''
                                      @ padded 2 (total_minutes mod 60))
                | _ \<Rightarrow> None))
          else None)"

text \<open>At most nine digits of the fraction are kept, without trailing zeros.\<close>

definition go_fraction :: "string \<Rightarrow> string" where
  "go_fraction digits =
     (let trimmed = rev (dropWhile (\<lambda>c. c = CHR ''0'') (rev (take 9 digits)))
      in if trimmed = [] then [] else ''.'' @ trimmed)"

definition fraction_mark :: "char option \<Rightarrow> bool" where
  "fraction_mark c \<longleftrightarrow> c = Some CHR ''.'' \<or> c = Some CHR '',''"

text \<open>The first position of a byte, from a starting position on.\<close>

definition position_from :: "char \<Rightarrow> string \<Rightarrow> nat \<Rightarrow> nat option" where
  "position_from c s i =
     (let n = length (takeWhile (\<lambda>x. x \<noteq> c) (drop i s))
      in if i + n < length s then Some (i + n) else None)"

definition go_clock :: "string \<Rightarrow> nat \<Rightarrow> (nat \<times> nat \<times> nat \<times> nat) option" where
  "go_clock s hour_end =
     (let minute_start = hour_end + 1; second_start = minute_start + 3 in
      case ascii_decimal (slice s 11 hour_end) of
        None \<Rightarrow> None
      | Some hour \<Rightarrow>
          if \<not> (hour_end = 12 \<or> hour_end = 13) \<or> 23 < hour \<or>
             byte_at s (minute_start + 2) \<noteq> Some CHR '':'' then None
          else
            (case (ascii_decimal (slice s minute_start (minute_start + 2)),
                   ascii_decimal (slice s second_start (second_start + 2))) of
               (Some minute, Some second) \<Rightarrow>
                 if 59 < minute \<or> 59 < second then None
                 else Some (hour, minute, second, second_start + 2)
             | _ \<Rightarrow> None))"

definition normalize_go_time_unmarshal_rfc3339 :: "string \<Rightarrow> string option" where
  "normalize_go_time_unmarshal_rfc3339 s =
     (if \<not> is_ascii s \<or> length s < 19 \<or> byte_at s 4 \<noteq> Some CHR ''-'' \<or>
         byte_at s 7 \<noteq> Some CHR ''-'' \<or> byte_at s 10 \<noteq> Some CHR ''T'' then None
      else
        case (ascii_decimal (slice s 0 4), ascii_decimal (slice s 5 7), ascii_decimal (slice s 8 10)) of
          (Some year, Some month, Some day) \<Rightarrow>
            if day = 0 \<or> days_in_month year month < day then None
            else
              Option.bind (position_from CHR '':'' s 11) (\<lambda>hour_end.
              Option.bind (go_clock s hour_end) (\<lambda>(hour, minute, second, after).
                let cursor = (if fraction_mark (byte_at s after) then digits_end s (after + 1) else after);
                    fraction = (if fraction_mark (byte_at s after)
                                then go_fraction (take (cursor - (after + 1)) (drop (after + 1) s))
                                else [])
                in if fraction_mark (byte_at s after) \<and> cursor = after + 1 then None
                   else
                     map_option (\<lambda>zone.
                         padded 4 year @ ''-'' @ padded 2 month @ ''-'' @ padded 2 day @ ''T'' @
                         padded 2 hour @ '':'' @ padded 2 minute @ '':'' @ padded 2 second @
                         fraction @ zone)
                       (go_zone s cursor)))
        | _ \<Rightarrow> None)"

section \<open>What the strict reader accepts, the other one reads\<close>

lemma slice_starts: "slice s a b = Some t \<Longrightarrow> a < b \<Longrightarrow> t \<noteq> [] \<and> hd t = s ! a"
  by (auto simp: slice_def hd_drop_conv_nth split: if_splits)

text \<open>Without a sign in front, both readers see the same number.\<close>

lemma unsigned_number:
  assumes "rfc3339_number s a b = Some n" "a < b" "s ! a \<noteq> CHR ''+''"
  shows "ascii_decimal (slice s a b) = Some n"
proof -
  obtain t where t: "slice s a b = Some t" "parse_u32 t = Some n"
    using assms(1) by (cases "slice s a b") (auto simp: rfc3339_number_def)
  have "t \<noteq> [] \<and> hd t = s ! a" by (rule slice_starts [OF t(1) assms(2)])
  then have "\<not> starts_with t ''+''" using assms(3) by (cases t) auto
  with t show ?thesis by (auto simp: parse_u32_def ascii_decimal_def Let_def split: if_splits)
qed

lemma rfc3339_digit:
  assumes "rfc3339_number s a b = Some n" "a < i" "i < b"
  shows "is_digit (s ! i)"
proof -
  obtain t where t: "slice s a b = Some t" "parse_u32 t = Some n"
    using assms(1) by (cases "slice s a b") (auto simp: rfc3339_number_def)
  then have len: "b \<le> length s" "t = take (b - a) (drop a s)" using assms by (auto simp: slice_def split: if_splits)
  have "list_all is_digit (tl t)"
    using t(2) by (cases t) (auto simp: parse_u32_def Let_def split: if_splits)
  moreover have "tl t = take (b - Suc a) (drop (Suc a) s)"
    using len by (simp add: tl_take drop_Suc tl_drop)
  moreover have "s ! i = take (b - Suc a) (drop (Suc a) s) ! (i - Suc a)" "i - Suc a < length (take (b - Suc a) (drop (Suc a) s))"
    using assms(2,3) len(1) by auto
  ultimately show ?thesis by (metis list_all_length)
qed

lemma unsigned_first_digit:
  assumes "rfc3339_number s a b = Some n" "a < b" "s ! a \<noteq> CHR ''+''"
  shows "is_digit (s ! a)"
proof -
  have "ascii_decimal (slice s a b) = Some n" by (rule unsigned_number [OF assms])
  then obtain t where "slice s a b = Some t" "list_all is_digit t" "t \<noteq> []"
    by (cases "slice s a b") (auto simp: ascii_decimal_def split: if_splits)
  then show ?thesis using slice_starts [of s a b t] assms(2) by (cases t) auto
qed

lemma rfc3339_zone_readable:
  assumes "rfc3339_zone s i" "s ! (length s - 5) \<noteq> CHR ''+''" "s ! (length s - 2) \<noteq> CHR ''+''"
  shows "\<exists>z. go_zone s i = Some z"
proof -
  obtain c where c: "byte_at s i = Some c" using assms(1) by (cases "byte_at s i") (auto simp: rfc3339_zone_def)
  show ?thesis
  proof (cases "c = CHR ''Z''")
    case True
    then show ?thesis using assms(1) c by (simp add: rfc3339_zone_def go_zone_def)
  next
    case False
    then obtain h m where hm: "c = CHR ''+'' \<or> c = CHR ''-''" "i + 6 = length s" "byte_at s (i + 3) = Some CHR '':''"
        "rfc3339_number s (i + 1) (i + 3) = Some h" "rfc3339_number s (i + 4) (i + 6) = Some m" "h \<le> 23" "m \<le> 59"
      using assms(1) c
      by (cases "rfc3339_number s (i + 1) (i + 3)"; cases "rfc3339_number s (i + 4) (i + 6)")
        (simp_all add: rfc3339_zone_def split: if_splits)
    have "i + 1 = length s - 5" "i + 4 = length s - 2" using hm(2) by auto
    then have "ascii_decimal (slice s (i + 1) (i + 3)) = Some h" "ascii_decimal (slice s (i + 4) (i + 6)) = Some m"
      using unsigned_number [OF hm(4)] unsigned_number [OF hm(5)] assms(2,3) by simp_all
    with hm c show ?thesis by (auto simp: go_zone_def Let_def)
  qed
qed

lemma position_from_here:
  assumes "i \<le> j" "j < length s" "s ! j = c" "\<And>k. i \<le> k \<Longrightarrow> k < j \<Longrightarrow> s ! k \<noteq> c"
  shows "position_from c s i = Some j"
proof -
  have "takeWhile (\<lambda>x. x \<noteq> c) (drop i s) = take (j - i) (drop i s)"
    using assms by (intro takeWhile_eq_take_P_nth) auto
  then show ?thesis using assms(1,2) by (simp add: position_from_def Let_def)
qed

lemma rfc3339_readable:
  assumes strict: "is_rfc3339 s" and year: "list_all is_digit (take 4 s)"
    and unsigned: "\<forall>i\<in>{5, 8, 11, 14, 17, length s - 5, length s - 2}. s ! i \<noteq> CHR ''+''"
  shows "\<exists>t. normalize_go_time_unmarshal_rfc3339 s = Some t"
proof -
  obtain mo d h mi se where len: "20 \<le> length s" and ascii: "is_ascii s" and sep: "rfc3339_separators s"
    and mo: "rfc3339_number s 5 7 = Some mo" and d: "rfc3339_number s 8 10 = Some d"
    and h: "rfc3339_number s 11 13 = Some h" and mi: "rfc3339_number s 14 16 = Some mi"
    and se: "rfc3339_number s 17 19 = Some se"
    and range: "rfc3339_in_range (case rfc3339_number s 0 4 of Some y \<Rightarrow> y | None \<Rightarrow> 0) mo d h mi se"
    and zone: "if byte_at s 19 = Some CHR ''.'' then digits_end s 20 \<noteq> 20 \<and> rfc3339_zone s (digits_end s 20)
               else rfc3339_zone s 19"
    using strict by (auto simp: is_rfc3339_def Let_def split: option.splits)
  have y: "slice s 0 4 = Some (take 4 s)" "take 4 s \<noteq> []" "\<not> starts_with (take 4 s) ''+''"
    using len year by (cases s; auto simp: slice_def is_digit_def byte_def)+
  define yr where "yr = digits_value (take 4 s)"
  have yr: "ascii_decimal (slice s 0 4) = Some yr" "rfc3339_number s 0 4 = Some yr"
    using y year by (auto simp: ascii_decimal_def rfc3339_number_def parse_u32_def yr_def Let_def)
  have fields: "ascii_decimal (slice s 5 7) = Some mo" "ascii_decimal (slice s 8 10) = Some d"
      "ascii_decimal (slice s 11 13) = Some h" "ascii_decimal (slice s 14 16) = Some mi"
      "ascii_decimal (slice s 17 19) = Some se"
    using unsigned by (auto intro!: unsigned_number mo d h mi se)
  have sep_nth: "s ! 13 = CHR '':''" using sep len by (auto simp: rfc3339_separators_def byte_at_def)
  have "is_digit (s ! 11)" "is_digit (s ! 12)"
    using unsigned_first_digit [OF h] rfc3339_digit [OF h] unsigned by auto
  then have "s ! k \<noteq> CHR '':''" if "11 \<le> k" "k < 13" for k
  proof -
    have "k = 11 \<or> k = 12" using that by auto
    with \<open>is_digit (s ! 11)\<close> \<open>is_digit (s ! 12)\<close> show ?thesis by (auto simp: is_digit_def byte_def)
  qed
  then have colon: "position_from CHR '':'' s 11 = Some 13"
    using len sep_nth by (intro position_from_here) auto
  have clock: "go_clock s 13 = Some (h, mi, se, 19)"
    using fields range sep by (auto simp: go_clock_def Let_def rfc3339_in_range_def rfc3339_separators_def)
  have no_comma: "byte_at s 19 \<noteq> Some CHR '',''"
  proof
    assume "byte_at s 19 = Some CHR '',''"
    with zone show False by (simp add: rfc3339_zone_def)
  qed
  let ?cursor = "if fraction_mark (byte_at s 19) then digits_end s 20 else 19"
  have mark: "fraction_mark (byte_at s 19) \<longleftrightarrow> byte_at s 19 = Some CHR ''.''"
    using no_comma by (auto simp: fraction_mark_def)
  have "rfc3339_zone s ?cursor" using zone mark by (auto split: if_splits)
  then obtain z where z: "go_zone s ?cursor = Some z"
    using rfc3339_zone_readable unsigned by (metis insertCI)
  have "\<not> (fraction_mark (byte_at s 19) \<and> ?cursor = 20)" using zone mark by auto
  with z clock colon fields yr range len ascii sep show ?thesis
    by (auto simp: normalize_go_time_unmarshal_rfc3339_def rfc3339_separators_def
        rfc3339_in_range_def Let_def split: if_splits)
qed

end
