(* ===== verification/Event_Codec.thy ===== *)
theory Event_Codec
  imports Json_Values Timestamps
begin

text \<open>
  Event envelopes and the event log (\<^verbatim>\<open>orchestrator-core/src/codec.rs\<close>): the strict decoder of
  stored lines, the current writer, and the scan of a log that skips
  corrupt and oversized lines. serde's JSON reader and writer and \<open>Number::as_i64\<close> are the parameters
  \<open>from_slice\<close>, \<open>to_string\<close> and \<open>as_i64\<close>; \<open>i64\<close> values are integers.
\<close>

definition GO_EVENT_JSON_CONTENT_MAX_BYTES :: nat where
  "GO_EVENT_JSON_CONTENT_MAX_BYTES = 1024 * 1024 - 1"

definition I64_MAX :: int where
  "I64_MAX = 9223372036854775807"

definition STABLE_EVENT_TYPES :: "string list" where
  "STABLE_EVENT_TYPES =
     [''mission.started'', ''mission.completed'', ''mission.failed'', ''mission.cancelled'',
      ''phase.started'', ''phase.completed'', ''phase.failed'', ''phase.skipped'', ''phase.retrying'',
      ''phase.escalated'', ''worker.spawned'', ''worker.output'', ''worker.completed'', ''worker.failed'',
      ''ensemble.advisor.started'', ''ensemble.advisor.completed'', ''ensemble.advisor.failed'',
      ''decompose.started'', ''decompose.completed'', ''decompose.fallback'', ''learning.extracted'',
      ''learning.stored'', ''learning.injected'', ''dag.dependency_resolved'', ''dag.phase_dispatched'',
      ''role.handoff'', ''contract.validated'', ''contract.violated'', ''persona.contract_violation'',
      ''review.findings_emitted'', ''review.external_requested'', ''git.worktree_created'',
      ''git.committed'', ''git.pr_created'', ''system.error'', ''system.checkpoint_saved'',
      ''signal.scope_expansion'', ''signal.replan_required'', ''signal.human_decision_needed'',
      ''file_overlap.detected'', ''security.invisible_chars_stripped'', ''security.injection_detected'',
      ''zettel.written'', ''zettel.skipped'', ''zettel.write_failed'']"

record 'n EventRecord =
  er_id :: string
  er_event_type :: string
  er_timestamp :: string
  er_sequence :: int
  er_mission_id :: string
  er_phase_id :: "string option"
  er_worker_id :: "string option"
  er_data :: "'n EventJsonMap option"
  er_extra :: "'n EventJsonMap"

record 'n DecodedEvent =
  de_record :: "'n EventRecord"
  de_is_stable_type :: bool
  de_raw_line :: string

section \<open>Decoding a stored line\<close>

definition remove_field :: "string \<Rightarrow> 'n EventJsonMap \<Rightarrow> 'n EventJsonMap" where
  "remove_field name m = filter (\<lambda>e. fst e \<noteq> name) m"

definition required_event_string ::
    "string \<Rightarrow> 'n EventJsonMap \<Rightarrow> EventError + string \<times> 'n EventJsonMap" where
  "required_event_string name m =
     (case bt_get m name of
        Some (String v) \<Rightarrow>
          if v \<noteq> [] then Inr (v, remove_field name m) else Inl (InvalidField name ''non-empty string'')
      | _ \<Rightarrow> Inl (InvalidField name ''non-empty string''))"

definition optional_event_string ::
    "string \<Rightarrow> 'n EventJsonMap \<Rightarrow> EventError + string option \<times> 'n EventJsonMap" where
  "optional_event_string name m =
     (case bt_get m name of
        None \<Rightarrow> Inr (None, remove_field name m)
      | Some Null \<Rightarrow> Inr (None, remove_field name m)
      | Some (String v) \<Rightarrow> Inr (if v = [] then None else Some v, remove_field name m)
      | _ \<Rightarrow> Inl (InvalidField name ''string''))"

definition event_sequence :: "('n \<Rightarrow> int option) \<Rightarrow> 'n EventJsonMap \<Rightarrow> EventError + int \<times> 'n EventJsonMap" where
  "event_sequence as_i64 m =
     (case bt_get m ''sequence'' of
        Some (Number n) \<Rightarrow>
          (case as_i64 n of
             Some i \<Rightarrow> Inr (i, remove_field ''sequence'' m)
           | None \<Rightarrow> Inl (InvalidField ''sequence'' ''signed integer''))
      | _ \<Rightarrow> Inl (InvalidField ''sequence'' ''signed integer''))"

definition event_data :: "'n EventJsonMap \<Rightarrow> EventError + 'n EventJsonMap option \<times> 'n EventJsonMap" where
  "event_data m =
     (case bt_get m ''data'' of
        None \<Rightarrow> Inr (None, remove_field ''data'' m)
      | Some Null \<Rightarrow> Inr (None, remove_field ''data'' m)
      | Some (Object d) \<Rightarrow> Inr (Some (event_map_from_iter d), remove_field ''data'' m)
      | _ \<Rightarrow> Inl InvalidData)"

definition decode_event_object :: "('n \<Rightarrow> int option) \<Rightarrow> 'n EventJsonMap \<Rightarrow> EventError + 'n EventRecord" where
  "decode_event_object as_i64 m =
     and_then (required_event_string ''id'' m) (\<lambda>(eid, m).
     and_then (required_event_string ''type'' m) (\<lambda>(event_type, m).
     and_then (required_event_string ''timestamp'' m) (\<lambda>(timestamp, m).
       if \<not> is_rfc3339 timestamp then Inl (InvalidTimestamp timestamp)
       else
     and_then (event_sequence as_i64 m) (\<lambda>(sequence, m).
     and_then (required_event_string ''mission_id'' m) (\<lambda>(mission_id, m).
     and_then (optional_event_string ''phase_id'' m) (\<lambda>(phase_id, m).
     and_then (optional_event_string ''worker_id'' m) (\<lambda>(worker_id, m).
     and_then (event_data m) (\<lambda>(data, m).
       Inr \<lparr>er_id = eid, er_event_type = event_type, er_timestamp = timestamp,
            er_sequence = sequence, er_mission_id = mission_id, er_phase_id = phase_id,
            er_worker_id = worker_id, er_data = data, er_extra = event_map_from_iter m\<rparr>))))))))"

definition decode_event_line ::
    "(string \<Rightarrow> 'n Value option) \<Rightarrow> ('n \<Rightarrow> int option) \<Rightarrow> string \<Rightarrow> EventError + 'n DecodedEvent" where
  "decode_event_line from_slice as_i64 bytes =
     (case from_slice bytes of
        None \<Rightarrow> Inl JsonError
      | Some (Object m) \<Rightarrow>
          and_then (decode_event_object as_i64 m) (\<lambda>r.
            Inr \<lparr>de_record = r, de_is_stable_type = (er_event_type r \<in> set STABLE_EVENT_TYPES),
                 de_raw_line = bytes\<rparr>)
      | Some _ \<Rightarrow> Inl RootNotObject)"

section \<open>The current writer\<close>

definition event_reserved :: "string \<Rightarrow> bool" where
  "event_reserved key \<longleftrightarrow>
     key \<in> {''id'', ''type'', ''timestamp'', ''sequence'', ''mission_id'', ''phase_id'', ''worker_id'', ''data''}"

definition validate_event_record :: "'n EventRecord \<Rightarrow> EventError + unit" where
  "validate_event_record r =
     and_then
       (try_each (\<lambda>(field, v). if v = [] then Inl (InvalidField field ''non-empty string'') else Inr ())
          [(''id'', er_id r), (''type'', er_event_type r), (''mission_id'', er_mission_id r)])
       (\<lambda>_. if \<not> is_rfc3339 (er_timestamp r) then Inl (InvalidTimestamp (er_timestamp r)) else Inr ())"

definition optional_entry :: "string \<Rightarrow> string option \<Rightarrow> (string \<times> 'n Value) list" where
  "optional_entry key v = (case v of Some s \<Rightarrow> if s \<noteq> [] then [(key, String s)] else [] | None \<Rightarrow> [])"

text \<open>The entries \<open>CurrentEvent\<close> serialises, in order; \<open>of_i64\<close> is serde's number of an \<open>i64\<close>.\<close>

definition current_event_entries :: "(int \<Rightarrow> 'n) \<Rightarrow> 'n EventRecord \<Rightarrow> (string \<times> 'n Value) list" where
  "current_event_entries of_i64 r =
     filter (\<lambda>e. \<not> event_reserved (fst e)) (er_extra r) @
     [(''id'', String (er_id r)), (''type'', String (er_event_type r)),
      (''timestamp'', String (er_timestamp r)), (''sequence'', Number (of_i64 (er_sequence r))),
      (''mission_id'', String (er_mission_id r))] @
     optional_entry ''phase_id'' (er_phase_id r) @
     optional_entry ''worker_id'' (er_worker_id r) @
     (case er_data r of Some d \<Rightarrow> if d \<noteq> [] then [(''data'', Object d)] else [] | None \<Rightarrow> [])"

text \<open>
  \<open>escape_go_json_for_html\<close>, on the UTF-8 text: U+2028 and U+2029 are the bytes E2 80 A8 and A9.
\<close>

fun escape_go_json_for_html :: "string \<Rightarrow> string" where
  "escape_go_json_for_html [] = []"
| "escape_go_json_for_html (c # s) =
     (if c = CHR ''<'' then CHR 0x5C # ''u003c'' @ escape_go_json_for_html s
      else if c = CHR ''>'' then CHR 0x5C # ''u003e'' @ escape_go_json_for_html s
      else if c = CHR ''&'' then CHR 0x5C # ''u0026'' @ escape_go_json_for_html s
      else if starts_with (c # s) [CHR 0xE2, CHR 0x80, CHR 0xA8] then
        CHR 0x5C # ''u2028'' @ escape_go_json_for_html (drop 2 s)
      else if starts_with (c # s) [CHR 0xE2, CHR 0x80, CHR 0xA9] then
        CHR 0x5C # ''u2029'' @ escape_go_json_for_html (drop 2 s)
      else c # escape_go_json_for_html s)"

text \<open>
  The line that is written: serde's text of the entries in their order (\<open>serde_json::to_string\<close> is the
  parameter \<open>to_string\<close>, \<open>None\<close> its error), escaped as Go escapes it.
\<close>

definition encode_current_event ::
    "('n Value \<Rightarrow> string option) \<Rightarrow> (int \<Rightarrow> 'n) \<Rightarrow> 'n EventRecord \<Rightarrow> EventError + string" where
  "encode_current_event to_string of_i64 r =
     and_then (validate_event_record r) (\<lambda>_.
       case to_string (Object (current_event_entries of_i64 r)) of
         None \<Rightarrow> Inl JsonError
       | Some json \<Rightarrow> Inr (escape_go_json_for_html json))"

section \<open>Scanning a log\<close>

datatype EventScanDiagnosticKind = Corrupt EventError | Oversized

record EventScanDiagnostic =
  diag_line_index :: nat
  diag_kind :: EventScanDiagnosticKind

record 'n EventScan =
  es_events :: "'n DecodedEvent list"
  es_diagnostics :: "EventScanDiagnostic list"
  es_next_sequence :: "int option"

definition newline_char :: char where
  "newline_char = CHR 0x0A"

text \<open>The first line of the rest of the log, with its line feed, and its content.\<close>

definition first_line :: "string \<Rightarrow> string" where
  "first_line s =
     (let content = takeWhile (\<lambda>c. c \<noteq> newline_char) s
      in if length content < length s then content @ [newline_char] else content)"

definition line_content :: "string \<Rightarrow> string" where
  "line_content raw =
     (let s = (if raw \<noteq> [] \<and> last raw = newline_char then butlast raw else raw)
      in if s \<noteq> [] \<and> last s = CHR 0x0D then butlast s else s)"

record 'n ScanState =
  sc_events :: "'n DecodedEvent list"
  sc_diagnostics :: "EventScanDiagnostic list"
  sc_greatest :: "int option"

definition scan_line ::
    "(string \<Rightarrow> 'n Value option) \<Rightarrow> ('n \<Rightarrow> int option) \<Rightarrow> nat \<Rightarrow> string \<Rightarrow> 'n ScanState \<Rightarrow> 'n ScanState" where
  "scan_line from_slice as_i64 line_index raw st =
     (let content = line_content raw in
      if GO_EVENT_JSON_CONTENT_MAX_BYTES < length content then
        st\<lparr>sc_diagnostics := sc_diagnostics st @ [\<lparr>diag_line_index = line_index, diag_kind = Oversized\<rparr>]\<rparr>
      else
        case decode_event_line from_slice as_i64 content of
          Inl e \<Rightarrow>
            st\<lparr>sc_diagnostics := sc_diagnostics st @ [\<lparr>diag_line_index = line_index, diag_kind = Corrupt e\<rparr>]\<rparr>
        | Inr event \<Rightarrow>
            let seq = er_sequence (de_record event)
            in st\<lparr>sc_events := sc_events st @ [event\<lparr>de_raw_line := raw\<rparr>],
                  sc_greatest := Some (case sc_greatest st of None \<Rightarrow> seq | Some g \<Rightarrow> max g seq)\<rparr>)"

lemma first_line_length: "s \<noteq> [] \<Longrightarrow> 0 < length (first_line s)"
  by (cases s) (auto simp: first_line_def Let_def)

lemma after_first_line_shorter: "s \<noteq> [] \<Longrightarrow> length s - length (first_line s) < length s"
  using first_line_length [of s] by (simp add: diff_less)

function scan_loop ::
    "(string \<Rightarrow> 'n Value option) \<Rightarrow> ('n \<Rightarrow> int option) \<Rightarrow> nat \<Rightarrow> string \<Rightarrow> 'n ScanState \<Rightarrow> 'n ScanState" where
  "scan_loop from_slice as_i64 line_index s st =
     (if s = [] then st
      else scan_loop from_slice as_i64 (line_index + 1) (drop (length (first_line s)) s)
             (scan_line from_slice as_i64 line_index (first_line s) st))"
  by pat_completeness auto
termination
  by (relation "measure (\<lambda>(_, _, _, s, _). length s)") (simp_all add: after_first_line_shorter)

declare scan_loop.simps [simp del]

definition scan_event_log ::
    "(string \<Rightarrow> 'n Value option) \<Rightarrow> ('n \<Rightarrow> int option) \<Rightarrow> string \<Rightarrow> 'n EventScan" where
  "scan_event_log from_slice as_i64 bytes =
     (let st = scan_loop from_slice as_i64 1 bytes \<lparr>sc_events = [], sc_diagnostics = [], sc_greatest = None\<rparr>
      in \<lparr>es_events = sc_events st,
          es_diagnostics = sc_diagnostics st,
          es_next_sequence =
            (case sc_greatest st of
               None \<Rightarrow> Some 1
             | Some g \<Rightarrow> if g = I64_MAX then None else Some (g + 1))\<rparr>)"

end
