(* ===== verification/Json_Printer.thy ===== *)
theory Json_Printer
  imports Json_Values
begin

text \<open>
  A printer of JSON values as the reference for the parser: what it prints, the parser reads back,
  escapes, member order and nesting included. It prints as serde's compact writer does, and it takes the
  spelling of strings as an argument: whatever spelling the decoder of strings reads back will do.
\<close>

section \<open>UTF-8 at ASCII boundaries\<close>

lemma utf8_ascii_head: "byte c < 128 \<Longrightarrow> utf8_valid (c # b) \<longleftrightarrow> utf8_valid b"
  using utf8_valid_step [of "c # b"] by (simp add: utf8_step_def)

text \<open>A text can be cut before a byte that begins a character.\<close>

lemma utf8_step_before_start:
  assumes "\<not> continuation c" "a \<noteq> []" "0 < utf8_step (a @ c # b)"
  shows "utf8_step (a @ c # b) = utf8_step a \<and> 0 < utf8_step a \<and> utf8_step a \<le> length a"
  using assms utf8_step_length [of a]
  by (cases a rule: four_bytes_cases)
    (auto simp: utf8_step_def second_of_three_def second_of_four_def split: if_splits list.splits)

lemma utf8_valid_start_split:
  assumes "\<not> continuation c"
  shows "utf8_valid (a @ c # b) \<longleftrightarrow> utf8_valid a \<and> utf8_valid (c # b)"
proof
  assume "utf8_valid a \<and> utf8_valid (c # b)"
  then show "utf8_valid (a @ c # b)" using utf8_valid_append [of a "c # b"] by simp
next
  assume "utf8_valid (a @ c # b)"
  then show "utf8_valid a \<and> utf8_valid (c # b)"
  proof (induction "length a" arbitrary: a rule: less_induct)
    case less
    show ?case
    proof (cases "a = []")
      case False
      have "0 < utf8_step (a @ c # b)"
        using less.prems utf8_valid_stuck [of "a @ c # b"] False by (cases "utf8_step (a @ c # b) = 0") auto
      then have step: "utf8_step (a @ c # b) = utf8_step a" "0 < utf8_step a" "utf8_step a \<le> length a"
        using utf8_step_before_start [OF assms False, of b] by simp_all
      have "utf8_valid (drop (utf8_step a) a @ c # b)"
        using less.prems utf8_valid_step [of "a @ c # b"] step by simp
      then have "utf8_valid (drop (utf8_step a) a) \<and> utf8_valid (c # b)"
        using step False by (intro less.hyps) auto
      then show ?thesis using utf8_valid_step [of a] step by simp
    qed (use less.prems in simp)
  qed
qed

lemma utf8_valid_ascii_split:
  "byte c < 128 \<Longrightarrow> utf8_valid (a @ c # b) \<longleftrightarrow> utf8_valid a \<and> utf8_valid b"
  by (simp add: utf8_valid_start_split continuation_def utf8_ascii_head)

section \<open>Strings\<close>

definition hex_digit :: "nat \<Rightarrow> char" where
  "hex_digit n = (if n < 10 then char_of (48 + n) else char_of (87 + n))"

text \<open>The escapes of one letter.\<close>

definition short_escape :: "char \<Rightarrow> char option" where
  "short_escape c =
     (if c = CHR 0x22 \<or> c = CHR 0x5C then Some c
      else if c = CHR 0x08 then Some CHR ''b''
      else if c = CHR 0x0C then Some CHR ''f''
      else if c = CHR 0x0A then Some CHR ''n''
      else if c = CHR 0x0D then Some CHR ''r''
      else if c = CHR 0x09 then Some CHR ''t''
      else None)"

definition quoted_char :: "char \<Rightarrow> string" where
  "quoted_char c =
     (case short_escape c of
        Some e \<Rightarrow> [CHR 0x5C, e]
      | None \<Rightarrow>
          if byte c < 32 then CHR 0x5C # ''u00'' @ [hex_digit (byte c div 16), hex_digit (byte c mod 16)]
          else [c])"

definition quote :: "string \<Rightarrow> string" where
  "quote s = CHR 0x22 # concat (map quoted_char s) @ [CHR 0x22]"

lemma hex_digit_value:
  assumes "n < 16"
  shows "hexdigit (hex_digit n)" "hex_value (hex_digit n) = n"
  using assms by (auto simp: hex_digit_def hexdigit_def hex_value_def is_digit_def byte_char_of)

lemma control_code:
  assumes "n < 32"
  shows "parse_hex_u16 (''00'' @ [hex_digit (n div 16), hex_digit (n mod 16)]) = n"
proof -
  have "hex_value CHR ''0'' = 0" by (simp add: hex_value_def is_digit_def byte_def)
  then show ?thesis using assms by (simp add: parse_hex_u16_def hex_digit_value)
qed

lemma short_escape_Some:
  "short_escape c = Some e \<Longrightarrow> e \<in> set simple_escapes \<and> simple_escape e = c \<and> byte c < 128"
  by (auto simp: short_escape_def simple_escapes_def simple_escape_def byte_def split: if_splits)

lemma short_escape_None: "short_escape c = None \<Longrightarrow> c \<noteq> CHR 0x22 \<and> c \<noteq> CHR 0x5C"
  by (auto simp: short_escape_def split: if_splits)

text \<open>The three ways a character is spelled: by one letter, by its code, or as it is.\<close>

lemma quoted_char_cases:
  obtains (escape) e where "short_escape c = Some e" "quoted_char c = [CHR 0x5C, e]"
  | (code) "short_escape c = None" "byte c < 32"
      "quoted_char c = CHR 0x5C # ''u00'' @ [hex_digit (byte c div 16), hex_digit (byte c mod 16)]"
  | (plain) "short_escape c = None" "\<not> byte c < 32" "quoted_char c = [c]"
  by (cases "short_escape c") (auto simp: quoted_char_def)

lemma skip_escapes:
  "e \<in> set simple_escapes \<Longrightarrow> skip_string_body (CHR 0x5C # e # s) = skip_string_body s"
  "list_all hexdigit [a, b, x, y] \<Longrightarrow> skip_string_body (CHR 0x5C # CHR ''u'' # a # b # x # y # s) = skip_string_body s"
  by (simp_all add: simple_escapes_def)

lemma control_digits: "n < 32 \<Longrightarrow> list_all hexdigit (''00'' @ [hex_digit (n div 16), hex_digit (n mod 16)])"
  by (simp add: hex_digit_value) (simp add: hexdigit_def is_digit_def byte_def)

lemma skip_quoted_char: "skip_string_body (quoted_char c @ s) = skip_string_body s"
proof (cases c rule: quoted_char_cases)
  case (escape e)
  then show ?thesis using short_escape_Some [of c e] by (simp add: skip_escapes(1))
next
  case code
  then show ?thesis using control_digits [of "byte c"] by (simp add: skip_escapes(2) del: skip_string_body.simps)
next
  case plain
  then show ?thesis using short_escape_None [of c] by simp
qed

lemma skip_quoted: "skip_string_body (concat (map quoted_char s) @ CHR 0x22 # r) = Inr r"
  by (induction s) (simp_all add: skip_quoted_char)

lemma skip_string_quoted: "skip_string (quote s @ r) = Inr r"
  by (simp add: skip_string_def quote_def expect_def peek_is_def skip_quoted)

lemma decode_end: "utf8_valid chunk \<Longrightarrow> decode_loop out chunk [CHR 0x22] = Inr (out @ chunk)"
  by (simp add: decode_loop.simps [of out chunk "[CHR 0x22]"] append_go_id)

lemma decode_plain:
  "c \<noteq> CHR 0x5C \<Longrightarrow> t \<noteq> [] \<Longrightarrow> decode_loop out chunk (c # t) = decode_loop out (chunk @ [c]) t"
  by (simp add: decode_loop.simps [of out chunk "c # t"])

lemma decode_escape:
  "e \<in> set simple_escapes \<Longrightarrow> utf8_valid chunk \<Longrightarrow>
     decode_loop out chunk (CHR 0x5C # e # t) = decode_loop ((out @ chunk) @ [simple_escape e]) [] t"
  by (simp add: decode_loop.simps [of out chunk "CHR 0x5C # e # t"] append_go_id Let_def)

lemma decode_code:
  assumes "parse_hex_u16 [a, b, x, y] = n" "\<not> high_surrogate n" "\<not> low_surrogate n" "utf8_valid chunk"
  shows "decode_loop out chunk (CHR 0x5C # CHR ''u'' # a # b # x # y # t) = decode_loop (push_code n (out @ chunk)) [] t"
  using assms
  by (simp add: decode_loop.simps [of out chunk "CHR 0x5C # CHR ''u'' # a # b # x # y # t"] append_go_id Let_def
      simple_escapes_no_u)

lemma control_pushed: "byte c < 32 \<Longrightarrow> \<not> high_surrogate (byte c) \<and> \<not> low_surrogate (byte c) \<and> push_code (byte c) out = out @ [c]"
  by (simp add: high_surrogate_def low_surrogate_def push_code_def scalar_value_def utf8_encode_def byte_def)

text \<open>One spelled character on its way through the decoder.\<close>

lemma decode_quoted_char:
  assumes "utf8_valid (chunk @ c # s)" "t \<noteq> []"
  obtains chunk' out' where "decode_loop out chunk (quoted_char c @ t) = decode_loop out' chunk' t"
    "utf8_valid (chunk' @ s)" "out' @ chunk' = out @ chunk @ [c]"
proof (cases c rule: quoted_char_cases)
  case (escape e)
  note e = short_escape_Some [OF escape(1)]
  then have "utf8_valid chunk" "utf8_valid ([] @ s)" using assms(1) utf8_valid_ascii_split by auto
  then show ?thesis using that [of "(out @ chunk) @ [c]" "[]"] decode_escape [of e chunk out t] e escape(2) by simp
next
  case code
  have "byte c < 128" using code(2) by simp
  then have valid: "utf8_valid chunk" "utf8_valid ([] @ s)" using assms(1) utf8_valid_ascii_split by auto
  have "decode_loop out chunk (quoted_char c @ t) = decode_loop ((out @ chunk) @ [c]) [] t"
    using decode_code [OF control_code [OF code(2), simplified] _ _ valid(1)] control_pushed [OF code(2)] code(3) by simp
  then show ?thesis using that [of "(out @ chunk) @ [c]" "[]"] valid(2) by simp
next
  case plain
  then show ?thesis
    using that [of out "chunk @ [c]"] decode_plain [OF _ assms(2)] short_escape_None [OF plain(1)] assms(1) by simp
qed

lemma decode_quoted:
  "utf8_valid (chunk @ s) \<Longrightarrow>
     decode_loop out chunk (concat (map quoted_char s) @ [CHR 0x22]) = Inr (out @ chunk @ s)"
proof (induction s arbitrary: out chunk)
  case (Cons c s)
  obtain chunk' out' where "decode_loop out chunk (quoted_char c @ concat (map quoted_char s) @ [CHR 0x22])
        = decode_loop out' chunk' (concat (map quoted_char s) @ [CHR 0x22])"
    "utf8_valid (chunk' @ s)" "out' @ chunk' = out @ chunk @ [c]"
    by (rule decode_quoted_char [OF Cons.prems, where t = "concat (map quoted_char s) @ [CHR 0x22]" and out = out]) simp
  then show ?case using Cons.IH [of chunk' out'] by simp
qed (simp add: decode_end)

lemma parse_string_quote:
  assumes "utf8_valid s"
  shows "parse_string (quote s @ r) = Inr (s, r)"
proof -
  have "take (length (quote s @ r) - length r) (quote s @ r) = quote s" by simp
  moreover have "decode_go_json_string (quote s) = Inr s"
    using decode_quoted [of "[]" s "[]"] assms by (simp add: decode_go_json_string_def quote_def)
  ultimately show ?thesis by (simp add: parse_string_def skip_string_quoted del: take_append)
qed

section \<open>Numbers\<close>

text \<open>What may follow a number without becoming a part of it.\<close>

definition stops :: "string \<Rightarrow> bool" where
  "stops r \<longleftrightarrow> r = [] \<or> \<not> is_digit (hd r) \<and> hd r \<notin> {CHR ''.'', CHR ''e'', CHR ''E''}"

lemma stops_delimiters [simp]:
  "stops (CHR '','' # r)" "stops (CHR '']'' # r)" "stops (CHR ''}'' # r)"
  by (simp_all add: stops_def is_digit_def byte_def)

lemma skip_digits_append: "stops r \<Longrightarrow> skip_digits (s @ r) = skip_digits s @ r"
  unfolding skip_digits_def by (induction s) (auto simp: stops_def neq_Nil_conv dropWhile_eq_self_iff)

lemma peek_append: "s \<noteq> [] \<Longrightarrow> peek_is c (s @ r) = peek_is c s"
  by (simp add: peek_is_def)

lemma number_exponent_append:
  assumes "number_exponent s = Inr t" "stops r"
  shows "number_exponent (s @ r) = Inr (t @ r)"
proof (cases "peek_is CHR ''e'' s \<or> peek_is CHR ''E'' s")
  case True
  define v where "v = (if peek_is CHR ''+'' (tl s) \<or> peek_is CHR ''-'' (tl s) then tl (tl s) else tl s)"
  have v: "skip_digits v \<noteq> v" "t = skip_digits v"
    using assms(1) True by (auto simp: number_exponent_def Let_def v_def split: if_splits)
  have "v \<noteq> []" using v(1) by (auto simp: skip_digits_def)
  then have "tl s \<noteq> []" "s \<noteq> []" by (auto simp: v_def split: if_splits)
  then have v_append: "(if peek_is CHR ''+'' (tl (s @ r)) \<or> peek_is CHR ''-'' (tl (s @ r)) then tl (tl (s @ r)) else tl (s @ r)) = v @ r"
    by (simp add: v_def peek_append)
  show ?thesis
    unfolding number_exponent_def Let_def v_append
    using True \<open>s \<noteq> []\<close> v skip_digits_append [OF assms(2), of v] by (simp add: peek_append)
next
  case False
  then have "t = s" using assms(1) by (simp add: number_exponent_def)
  moreover have "\<not> (peek_is CHR ''e'' (s @ r) \<or> peek_is CHR ''E'' (s @ r))"
    using False assms(2) by (cases s) (auto simp: peek_is_def stops_def)
  ultimately show ?thesis by (simp add: number_exponent_def)
qed

lemma number_fraction_append:
  assumes "number_fraction s = Inr t" "stops r"
  shows "number_fraction (s @ r) = Inr (t @ r)"
proof (cases "peek_is CHR ''.'' s")
  case True
  then obtain u where s: "s = CHR ''.'' # u" by (auto simp: peek_is_iff)
  with assms(1) have "skip_digits u \<noteq> u" "number_exponent (skip_digits u) = Inr t"
    by (auto simp: number_fraction_def Let_def split: if_splits)
  then show ?thesis
    using number_exponent_append [OF _ assms(2)] skip_digits_append [OF assms(2)]
    by (simp add: number_fraction_def s Let_def)
next
  case False
  then have "number_exponent s = Inr t" using assms(1) by (simp add: number_fraction_def)
  moreover have "\<not> peek_is CHR ''.'' (s @ r)"
    using False assms(2) by (cases s) (auto simp: peek_is_def stops_def)
  ultimately show ?thesis using number_exponent_append [OF _ assms(2)] by (simp add: number_fraction_def)
qed

lemma number_tail_append:
  "number_tail s = Inr t \<Longrightarrow> stops r \<Longrightarrow> number_tail (s @ r) = Inr (t @ r)"
  using number_fraction_append [of s t r]
  by (cases s) (auto simp: number_tail_def stops_def split: if_splits)

lemma parse_number_range_append:
  assumes "parse_number_range s = Inr t" "stops r"
  shows "parse_number_range (s @ r) = Inr (t @ r)"
proof -
  define u where "u = (if peek_is CHR ''-'' s then tl s else s)"
  have "s \<noteq> []" using assms(1) by (auto simp: parse_number_range_def peek_is_def)
  then have u: "(if peek_is CHR ''-'' (s @ r) then tl (s @ r) else s @ r) = u @ r"
    by (simp add: u_def peek_append)
  have run: "(if peek_is CHR ''0'' u then number_tail (tl u)
      else if u \<noteq> [] \<and> is_digit (hd u) then number_tail (skip_digits (tl u))
      else Inl (GoJson ''invalid number'')) = Inr t"
    using assms(1) unfolding parse_number_range_def u_def Let_def .
  then obtain c v where cv: "u = c # v" by (cases u) (auto simp: peek_is_def)
  then show ?thesis
    unfolding parse_number_range_def u Let_def
    using run number_tail_append [OF _ assms(2)] skip_digits_append [OF assms(2)] by (auto split: if_splits)
qed

section \<open>Values\<close>

fun json_text_with :: "(string \<Rightarrow> string) \<Rightarrow> ('n \<Rightarrow> string) \<Rightarrow> 'n Value \<Rightarrow> string" where
  "json_text_with q pn Null = ''null''"
| "json_text_with q pn (Bool b) = (if b then ''true'' else ''false'')"
| "json_text_with q pn (Number n) = pn n"
| "json_text_with q pn (String s) = q s"
| "json_text_with q pn (Array []) = ''[]''"
| "json_text_with q pn (Array (v # vs)) =
     CHR ''['' # json_text_with q pn v @ concat (map (\<lambda>w. CHR '','' # json_text_with q pn w) vs) @ '']''"
| "json_text_with q pn (Object []) = ''{}''"
| "json_text_with q pn (Object (e # es)) =
     CHR ''{'' # q (fst e) @ CHR '':'' # json_text_with q pn (snd e) @
     concat (map (\<lambda>e. CHR '','' # q (fst e) @ CHR '':'' # json_text_with q pn (snd e)) es) @ ''}''"

abbreviation json_text :: "('n \<Rightarrow> string) \<Rightarrow> 'n Value \<Rightarrow> string" where
  "json_text \<equiv> json_text_with quote"

text \<open>What is assumed of the reader and the printer of numbers.\<close>

definition numbers_read_back :: "(string \<Rightarrow> 'n option) \<Rightarrow> ('n \<Rightarrow> string) \<Rightarrow> bool" where
  "numbers_read_back num pn \<longleftrightarrow> (\<forall>n. num (pn n) = Some n \<and> parse_number_range (pn n) = Inr [])"

definition reads_back :: "(string \<Rightarrow> string) \<Rightarrow> (string \<Rightarrow> 'n option) \<Rightarrow> ('n \<Rightarrow> string) \<Rightarrow> 'n Value \<Rightarrow> bool" where
  "reads_back q num pn v \<longleftrightarrow>
     (\<forall>d st r. value_ok (GO_JSON_MAX_NESTING_DEPTH - (d + length st)) v \<longrightarrow> stops r \<longrightarrow>
        parse_loop num d st (json_text_with q pn v @ r) = parse_unwind num d st v r)"

lemma number_text_starts: "parse_number_range t = Inr [] \<Longrightarrow> \<exists>c u. t = c # u \<and> (c = CHR ''-'' \<or> is_digit c)"
  using number_starts [of t "[]"] by (cases t) (auto simp: starts_number_def)

lemma digit_not: "is_digit c \<Longrightarrow> c \<notin> {CHR '' '', CHR 0x0A, CHR 0x0D, CHR 0x09, CHR '']'', CHR ''}'', CHR ''n'', CHR ''t'', CHR ''f'', CHR 0x22, CHR ''['', CHR ''{''}"
  by (auto simp: is_digit_def byte_def)

section \<open>Spellings of strings\<close>

text \<open>What a spelling of strings must guarantee: the repository's own decoder reads it back.\<close>

definition plain_string :: "string \<Rightarrow> bool" where
  "plain_string s \<longleftrightarrow> list_all (\<lambda>c. quoted_char c = [c] \<and> byte c < 128 \<and> c \<notin> {CHR ''<'', CHR ''>'', CHR ''&''}) s"

locale string_spelling =
  fixes q :: "string \<Rightarrow> string"
  assumes opens: "\<exists>u. q s = CHR 0x22 # u"
    and reads: "utf8_valid s \<Longrightarrow> parse_string (q s @ r) = Inr (s, r)"
    and bare: "plain_string s \<Longrightarrow> q s = CHR 0x22 # s @ [CHR 0x22]"

lemma plain_valid: "plain_string s \<Longrightarrow> utf8_valid s"
  by (induction s) (simp_all add: plain_string_def utf8_ascii_head)

lemma plain_quoted: "plain_string s \<Longrightarrow> concat (map quoted_char s) = s"
  unfolding plain_string_def by (induction s) simp_all

interpretation plain: string_spelling quote
proof
  show "\<exists>u. quote s = CHR 0x22 # u" for s by (simp add: quote_def)
  show "utf8_valid s \<Longrightarrow> parse_string (quote s @ r) = Inr (s, r)" for s r by (rule parse_string_quote)
  show "plain_string s \<Longrightarrow> quote s = CHR 0x22 # s @ [CHR 0x22]" for s by (simp add: quote_def plain_quoted)
qed

context string_spelling
begin

lemma skips: "utf8_valid s \<Longrightarrow> skip_string (q s @ r) = Inr r"
  using reads [of s r] by (auto simp: parse_string_def and_then_def split: sum.splits)

lemma parse_object_key_quote:
  "utf8_valid k \<Longrightarrow> parse_object_key (q k @ CHR '':'' # x) = Inr (k, skip_whitespace x)"
  by (simp add: parse_object_key_def reads skip_whitespace_def json_space_def expect_def peek_is_def)

lemma quote_no_space: "skip_whitespace (q k @ x) = q k @ x"
  using opens [of k] by (auto simp: skip_whitespace_def json_space_def)

lemma peek_quote: "peek_is c (q k @ x) \<longleftrightarrow> c = CHR 0x22"
  using opens [of k] by auto

lemma json_text_head:
  assumes "numbers_read_back num pn"
  shows "\<exists>c u. json_text_with q pn v = c # u \<and> \<not> json_space c \<and> c \<noteq> CHR '']'' \<and> c \<noteq> CHR ''}''"
proof (cases v)
  case (Number n)
  have "parse_number_range (pn n) = Inr []" using assms by (simp add: numbers_read_back_def)
  then obtain c u where "pn n = c # u" "c = CHR ''-'' \<or> is_digit c" using number_text_starts by blast
  then show ?thesis using digit_not [of c] by (auto simp: Number json_space_def)
next
  case (Array vs)
  then show ?thesis by (cases vs) (auto simp: json_space_def)
next
  case (Object es)
  then show ?thesis by (cases es) (auto simp: json_space_def)
next
  case (String s)
  then show ?thesis using opens [of s] by (auto simp: json_space_def)
qed (auto simp: json_space_def)

lemma json_text_no_space:
  assumes "numbers_read_back num pn"
  shows "skip_whitespace (json_text_with q pn v @ r) = json_text_with q pn v @ r"
    and "\<not> peek_is CHR '']'' (json_text_with q pn v @ r)"
  using json_text_head [OF assms, of v] by (auto simp: skip_whitespace_def)

text \<open>What is printed reads back.\<close>

lemma reads_backD:
  "reads_back q num pn v \<Longrightarrow> value_ok (GO_JSON_MAX_NESTING_DEPTH - (d + length st)) v \<Longrightarrow> stops r \<Longrightarrow>
     parse_loop num d st (json_text_with q pn v @ r) = parse_unwind num d st v r"
  by (simp add: reads_back_def)

lemma stops_items: "stops (concat (map (\<lambda>w. CHR '','' # f w) vs) @ CHR '']'' # r)"
  "stops (concat (map (\<lambda>w. CHR '','' # f w) vs) @ CHR ''}'' # r)"
  by (cases vs; simp)+

lemma array_items_read_back:
  assumes numbers: "numbers_read_back num pn"
    and "\<forall>w\<in>set vs. reads_back q num pn w \<and> value_ok (GO_JSON_MAX_NESTING_DEPTH - Suc (d + length st)) w"
  shows "parse_unwind num d (ParsedArray acc # st) v (concat (map (\<lambda>w. CHR '','' # json_text_with q pn w) vs) @ CHR '']'' # r)
    = parse_unwind num d st (Array (acc @ v # vs)) r"
  using assms(2)
proof (induction vs arbitrary: acc v)
  case Nil
  show ?case by (simp add: parse_unwind.simps(2) skip_whitespace_def json_space_def)
next
  case (Cons w ws)
  let ?rest = "concat (map (\<lambda>w. CHR '','' # json_text_with q pn w) ws) @ CHR '']'' # r"
  have "parse_unwind num d (ParsedArray acc # st) v (CHR '','' # json_text_with q pn w @ ?rest)
      = parse_loop num d (ParsedArray (acc @ [v]) # st) (json_text_with q pn w @ ?rest)"
    by (simp add: parse_unwind.simps(2) skip_whitespace_def [of "CHR '','' # x" for x] json_space_def
        json_text_no_space [OF numbers])
  also have "\<dots> = parse_unwind num d (ParsedArray (acc @ [v]) # st) w ?rest"
    using Cons.prems by (intro reads_backD stops_items) auto
  also have "\<dots> = parse_unwind num d st (Array ((acc @ [v]) @ w # ws)) r"
    by (rule Cons.IH) (use Cons.prems in simp)
  finally show ?case by simp
qed

lemma object_items_read_back:
  assumes numbers: "numbers_read_back num pn"
    and "\<forall>e\<in>set es. reads_back q num pn (snd e) \<and> utf8_valid (fst e) \<and>
      value_ok (GO_JSON_MAX_NESTING_DEPTH - Suc (d + length st)) (snd e)"
    and "bt_wf (acc @ (key, v) # es)"
  shows "parse_unwind num d (ParsedObject acc key # st) v
      (concat (map (\<lambda>e. CHR '','' # q (fst e) @ CHR '':'' # json_text_with q pn (snd e)) es) @ CHR ''}'' # r)
    = parse_unwind num d st (Object (acc @ (key, v) # es)) r"
  using assms(2,3)
proof (induction es arbitrary: acc key v)
  case Nil
  then have "bt_insert key v acc = acc @ [(key, v)]"
    by (intro bt_insert_last) (auto simp: bt_wf_def sorted_wrt_append)
  then show ?case by (simp add: parse_unwind.simps(3) skip_whitespace_def json_space_def)
next
  case (Cons e es)
  let ?rest = "concat (map (\<lambda>e. CHR '','' # q (fst e) @ CHR '':'' # json_text_with q pn (snd e)) es) @ CHR ''}'' # r"
  have insert: "bt_insert key v acc = acc @ [(key, v)]"
    using Cons.prems by (intro bt_insert_last) (auto simp: bt_wf_def sorted_wrt_append)
  have "utf8_valid (fst e)" using Cons.prems by simp
  then have "parse_unwind num d (ParsedObject acc key # st) v
      (CHR '','' # q (fst e) @ CHR '':'' # json_text_with q pn (snd e) @ ?rest)
      = parse_loop num d (ParsedObject (acc @ [(key, v)]) (fst e) # st) (json_text_with q pn (snd e) @ ?rest)"
    by (simp add: parse_unwind.simps(3) skip_whitespace_def [of "CHR '','' # x" for x] json_space_def
        quote_no_space parse_object_key_quote json_text_no_space [OF numbers] insert)
  also have "\<dots> = parse_unwind num d (ParsedObject (acc @ [(key, v)]) (fst e) # st) (snd e) ?rest"
    using Cons.prems by (intro reads_backD stops_items) auto
  also have "\<dots> = parse_unwind num d st (Object ((acc @ [(key, v)]) @ (fst e, snd e) # es)) r"
    by (rule Cons.IH) (use Cons.prems in simp_all)
  finally show ?case by simp
qed

lemma value_reads_back:
  assumes numbers: "numbers_read_back num pn"
  shows "reads_back q num pn v"
proof (induction v)
  case Null
  show ?case by (simp add: reads_back_def parse_loop.simps parse_value_start_def parse_literal_def and_then_def)
next
  case (Bool b)
  show ?case
    by (cases b) (simp_all add: reads_back_def parse_loop.simps parse_value_start_def parse_literal_def and_then_def)
next
  case (Number n)
  have num: "num (pn n) = Some n" and range: "parse_number_range (pn n) = Inr []"
    using numbers by (simp_all add: numbers_read_back_def)
  obtain c u where c: "pn n = c # u" "c = CHR ''-'' \<or> is_digit c" using number_text_starts [OF range] by blast
  have "parse_value_start num d k (pn n @ r) = Inr (Complete (Number n), r)" if "stops r" for d k r
  proof -
    have "c \<notin> {CHR ''n'', CHR ''t'', CHR ''f'', CHR 0x22, CHR ''['', CHR ''{''}"
      using c(2) digit_not [of c] by (cases "c = CHR ''-''") simp_all
    then have no_peek: "peek_is x (pn n @ r) = False" if "x \<in> {CHR ''n'', CHR ''t'', CHR ''f'', CHR 0x22, CHR ''['', CHR ''{''}" for x
      using c(1) that by auto
    have starts: "starts_number (pn n @ r)" using c by (simp add: starts_number_def)
    have number: "parse_number_range (pn n @ r) = Inr r" using parse_number_range_append [OF range that] by simp
    have spelled: "take (length (pn n @ r) - length r) (pn n @ r) = pn n" by simp
    show ?thesis
      unfolding parse_value_start_def and_then_def
      by (simp only: no_peek insertI1 insertI2 if_False if_True starts number spelled num sum.case option.case)
  qed
  then show ?case by (simp add: reads_back_def parse_loop.simps)
next
  case (String s)
  have "parse_value_start num d k (q s @ r) = Inr (Complete (String s), r)" if "utf8_valid s" for d k r
    using reads [OF that, of r] opens [of s]
      by (auto simp: parse_value_start_def and_then_def)
  then show ?case by (simp add: reads_back_def parse_loop.simps)
next
  case (Array vs)
  show ?case
  proof (cases vs)
    case Nil
    then show ?thesis
      by (auto simp: reads_back_def parse_loop.simps parse_value_start_def begin_container_def expect_def
          and_then_def skip_whitespace_def json_space_def)
  next
    case (Cons w ws)
    show ?thesis
      unfolding reads_back_def
    proof (intro allI impI)
      fix d :: nat and st :: "'a ParsedContainer list" and r
      assume ok: "value_ok (GO_JSON_MAX_NESTING_DEPTH - (d + length st)) (Array vs)" and "stops r"
      let ?rest = "concat (map (\<lambda>w. CHR '','' # json_text_with q pn w) ws) @ CHR '']'' # r"
      have items: "\<forall>x\<in>set vs. value_ok (GO_JSON_MAX_NESTING_DEPTH - Suc (d + length st)) x"
        and room: "\<not> GO_JSON_MAX_NESTING_DEPTH \<le> d + length st"
        using ok by auto
      have "parse_loop num d st (CHR ''['' # json_text_with q pn w @ ?rest)
          = parse_loop num d (ParsedArray [] # st) (json_text_with q pn w @ ?rest)"
        using room by (simp add: parse_loop.simps [of num d st] parse_value_start_def begin_container_def expect_def
            and_then_def json_text_no_space [OF numbers] Let_def)
      also have "\<dots> = parse_unwind num d (ParsedArray [] # st) w ?rest"
        using Array items Cons by (intro reads_backD stops_items) auto
      also have "\<dots> = parse_unwind num d st (Array ([] @ w # ws)) r"
        by (rule array_items_read_back [OF numbers]) (use Array items Cons in simp)
      finally show "parse_loop num d st (json_text_with q pn (Array vs) @ r) = parse_unwind num d st (Array vs) r"
        by (simp add: Cons)
    qed
  qed
next
  case (Object es)
  show ?case
  proof (cases es)
    case Nil
    then show ?thesis
      by (auto simp: reads_back_def parse_loop.simps parse_value_start_def begin_container_def expect_def
          and_then_def skip_whitespace_def json_space_def)
  next
    case (Cons e es')
    have vals: "reads_back q num pn (snd x)" if "x \<in> set es" for x
      using Object that by (cases x) (auto intro: snds.intros)
    show ?thesis
      unfolding reads_back_def
    proof (intro allI impI)
      fix d :: nat and st :: "'a ParsedContainer list" and r
      assume ok: "value_ok (GO_JSON_MAX_NESTING_DEPTH - (d + length st)) (Object es)" and "stops r"
      let ?rest = "concat (map (\<lambda>e. CHR '','' # q (fst e) @ CHR '':'' # json_text_with q pn (snd e)) es') @ CHR ''}'' # r"
      have items: "\<forall>x\<in>set es. utf8_valid (fst x) \<and> value_ok (GO_JSON_MAX_NESTING_DEPTH - Suc (d + length st)) (snd x)"
        and room: "\<not> GO_JSON_MAX_NESTING_DEPTH \<le> d + length st" and wf: "bt_wf es"
        using ok by auto
      have "parse_loop num d st (CHR ''{'' # q (fst e) @ CHR '':'' # json_text_with q pn (snd e) @ ?rest)
          = parse_loop num d (ParsedObject [] (fst e) # st) (json_text_with q pn (snd e) @ ?rest)"
        using room items Cons
        by (simp add: parse_loop.simps [of num d st] parse_value_start_def begin_container_def expect_def
            and_then_def quote_no_space parse_object_key_quote json_text_no_space [OF numbers] Let_def peek_quote)
      also have "\<dots> = parse_unwind num d (ParsedObject [] (fst e) # st) (snd e) ?rest"
        using vals items Cons by (intro reads_backD stops_items) auto
      also have "\<dots> = parse_unwind num d st (Object ([] @ (fst e, snd e) # es')) r"
        by (rule object_items_read_back [OF numbers]) (use vals items wf Cons in simp_all)
      finally show "parse_loop num d st (json_text_with q pn (Object es) @ r) = parse_unwind num d st (Object es) r"
        by (simp add: Cons)
    qed
  qed
qed

lemma parse_json_text:
  "numbers_read_back num pn \<Longrightarrow> value_ok GO_JSON_MAX_NESTING_DEPTH v \<Longrightarrow> stops r \<Longrightarrow>
     parse_value num 0 (json_text_with q pn v @ r) = Inr (v, r)"
  using reads_backD [OF value_reads_back, of num pn 0 "[]" v r] by (simp add: parse_value_def parse_unwind.simps)

end

end
