(* ===== verification/Go_Events.thy ===== *)
theory Go_Events
  imports Event_Codec Json_Printer
begin

text \<open>
  The decoders that observe JSON the way Go's \<open>encoding/json\<close> does
  (\<^verbatim>\<open>orchestrator-core/src/codec.rs\<close>): the event reader of the read-only paths, and the
  tokenizers of objects, arrays and scalars that keep the exact bytes of what they find.
\<close>

section \<open>Field names\<close>

text \<open>
  The next character of a UTF-8 text folded to upper case; U+017F and U+212A fold to ASCII.
\<close>

definition next_folded :: "string \<Rightarrow> (char \<times> string) option" where
  "next_folded s =
     (if s = [] then None
      else if starts_with s [CHR 0xC5, CHR 0xBF] then Some (CHR ''S'', drop 2 s)
      else if starts_with s [CHR 0xE2, CHR 0x84, CHR 0xAA] then Some (CHR ''K'', drop 3 s)
      else if byte (hd s) < 128 then Some (ascii_upper (hd s), tl s)
      else None)"

fun go_equal_fold_ascii_tag :: "string \<Rightarrow> string \<Rightarrow> bool" where
  "go_equal_fold_ascii_tag s [] = (s = [])"
| "go_equal_fold_ascii_tag s (t # tag) =
     (case next_folded s of
        None \<Rightarrow> False
      | Some (folded, r) \<Rightarrow> folded = ascii_upper t \<and> go_equal_fold_ascii_tag r tag)"

definition go_json_field_matches :: "string \<Rightarrow> string \<Rightarrow> bool" where
  "go_json_field_matches name ascii_tag \<longleftrightarrow> name = ascii_tag \<or> go_equal_fold_ascii_tag name ascii_tag"

datatype GoObservedField = FId | FType | FTimestamp | FSequence | FMissionId | FPhaseId | FWorkerId | FData

definition GO_OBSERVED_FIELDS :: "(string \<times> GoObservedField) list" where
  "GO_OBSERVED_FIELDS =
     [(''id'', FId), (''type'', FType), (''timestamp'', FTimestamp), (''sequence'', FSequence),
      (''mission_id'', FMissionId), (''phase_id'', FPhaseId), (''worker_id'', FWorkerId), (''data'', FData)]"

definition go_observed_field :: "string \<Rightarrow> GoObservedField option" where
  "go_observed_field name =
     map_option snd
       (case find (\<lambda>f. fst f = name) GO_OBSERVED_FIELDS of
          Some f \<Rightarrow> Some f
        | None \<Rightarrow> find (\<lambda>f. go_equal_fold_ascii_tag name (fst f)) GO_OBSERVED_FIELDS)"

section \<open>The observed state\<close>

definition GO_ZERO_TIME :: string where
  "GO_ZERO_TIME = ''0001-01-01T00:00:00Z''"

record 'n GoObservedState =
  gs_id :: string
  gs_event_type :: string
  gs_timestamp :: string
  gs_sequence :: int
  gs_mission_id :: string
  gs_phase_id :: string
  gs_worker_id :: string
  gs_data :: "'n EventJsonMap option"
  gs_extra :: "'n EventJsonMap"

definition GoObservedState_new :: "'n GoObservedState" where
  "GoObservedState_new =
     \<lparr>gs_id = [], gs_event_type = [], gs_timestamp = GO_ZERO_TIME, gs_sequence = 0, gs_mission_id = [],
      gs_phase_id = [], gs_worker_id = [], gs_data = None, gs_extra = []\<rparr>"

definition non_empty :: "string \<Rightarrow> string option" where
  "non_empty s = (if s = [] then None else Some s)"

definition into_record :: "'n GoObservedState \<Rightarrow> 'n EventRecord" where
  "into_record st =
     \<lparr>er_id = gs_id st, er_event_type = gs_event_type st, er_timestamp = gs_timestamp st,
      er_sequence = gs_sequence st, er_mission_id = gs_mission_id st,
      er_phase_id = non_empty (gs_phase_id st), er_worker_id = non_empty (gs_worker_id st),
      er_data = gs_data st, er_extra = gs_extra st\<rparr>"

section \<open>Members\<close>

text \<open>\<open>str::parse::<i64>\<close>\<close>

definition parse_i64 :: "string \<Rightarrow> int option" where
  "parse_i64 s =
     (let negative = starts_with s ''-'';
          ds = (if negative \<or> starts_with s ''+'' then tl s else s);
          n = (if negative then - int (digits_value ds) else int (digits_value ds))
      in if ds \<noteq> [] \<and> list_all is_digit ds \<and> - I64_MAX - 1 \<le> n \<and> n \<le> I64_MAX then Some n else None)"

text \<open>
  \<open>String::from_utf8_lossy\<close>: each maximal prefix of a character that is broken off becomes one
  replacement character. \<open>utf8_error_length\<close> is \<open>Utf8Error::error_len\<close>, or what is left at the end.
\<close>

definition utf8_error_length :: "string \<Rightarrow> nat" where
  "utf8_error_length s =
     (case s of
        a # b # t \<Rightarrow>
          if 224 \<le> byte a \<and> byte a \<le> 239 \<and> second_of_three (byte a) b then 2
          else if 240 \<le> byte a \<and> byte a \<le> 244 \<and> second_of_four (byte a) b then
            (case t of c # _ \<Rightarrow> if continuation c then 3 else 2 | [] \<Rightarrow> 2)
          else 1
      | _ \<Rightarrow> 1)"

function from_utf8_lossy :: "string \<Rightarrow> string" where
  "from_utf8_lossy s =
     (if utf8_valid s then s
      else
        let v = valid_up_to s
        in take v s @ replacement @ from_utf8_lossy (drop (v + max 1 (utf8_error_length (drop v s))) s))"
  by pat_completeness auto
termination
proof (relation "measure length", goal_cases)
  case (2 s v)
  then have "s \<noteq> []" by auto
  then show ?case by (simp add: max_def)
qed simp

declare from_utf8_lossy.simps [simp del]

definition parse_nullable_string :: "string \<Rightarrow> string \<Rightarrow> string scan" where
  "parse_nullable_string destination field s =
     and_then (consume_null s) (\<lambda>(null, r).
       if null then Inr (destination, r)
       else if \<not> peek_is CHR 0x22 r then Inl (InvalidField field ''string or null'')
       else parse_string r)"

definition parse_nullable_sequence :: "int \<Rightarrow> int scan" where
  "parse_nullable_sequence destination s =
     (let invalid = InvalidField ''sequence'' ''signed integer or null'' in
      and_then (consume_null s) (\<lambda>(null, r).
        if null then Inr (destination, r)
        else
          case parse_number_range r of
            Inl _ \<Rightarrow> Inl invalid
          | Inr w \<Rightarrow>
              (case parse_i64 (take (length r - length w) r) of
                 None \<Rightarrow> Inl invalid
               | Some n \<Rightarrow> Inr (n, w))))"

definition parse_nullable_timestamp :: "string \<Rightarrow> string scan" where
  "parse_nullable_timestamp destination s =
     and_then (consume_null s) (\<lambda>(null, r).
       if null then Inr (destination, r)
       else if \<not> peek_is CHR 0x22 r then Inl (InvalidField ''timestamp'' ''RFC3339 string or null'')
       else
         and_then (skip_string r) (\<lambda>w.
           let raw_timestamp = butlast (tl (take (length r - length w) r)) in
           case normalize_go_time_unmarshal_rfc3339 raw_timestamp of
             None \<Rightarrow> Inl (InvalidTimestamp (from_utf8_lossy raw_timestamp))
           | Some t \<Rightarrow> Inr (t, w)))"

definition parse_nullable_data ::
    "(string \<Rightarrow> 'n option) \<Rightarrow> 'n EventJsonMap option \<Rightarrow> 'n EventJsonMap option scan" where
  "parse_nullable_data num destination s =
     and_then (consume_null s) (\<lambda>(null, r).
       if null then Inr (None, r)
       else if \<not> peek_is CHR ''{'' r then Inl InvalidData
       else
         and_then (parse_value num 1 r) (\<lambda>(v, w).
           case v of
             Object entries \<Rightarrow>
               Inr (Some (case destination of
                            Some current \<Rightarrow> event_map_extend entries current
                          | None \<Rightarrow> event_map_from_iter entries), w)
           | _ \<Rightarrow> Inl InvalidData))"

definition retain_extra_value ::
    "(string \<Rightarrow> 'n option) \<Rightarrow> string \<Rightarrow> string \<Rightarrow> 'n GoObservedState \<Rightarrow> 'n GoObservedState" where
  "retain_extra_value num key raw st =
     (case parse_value num 0 raw of
        Inl _ \<Rightarrow> st
      | Inr (v, w) \<Rightarrow>
          if finish w = Inr () then st\<lparr>gs_extra := snd (event_map_insert key v (gs_extra st))\<rparr> else st)"

definition event_member ::
    "(string \<Rightarrow> 'n option) \<Rightarrow> bool \<Rightarrow> string \<Rightarrow> 'n GoObservedState \<Rightarrow> 'n GoObservedState scan" where
  "event_member num retain_extra key st s =
     (case go_observed_field key of
        Some FId \<Rightarrow>
          and_then (parse_nullable_string (gs_id st) ''id'' s) (\<lambda>(v, r). Inr (st\<lparr>gs_id := v\<rparr>, r))
      | Some FType \<Rightarrow>
          and_then (parse_nullable_string (gs_event_type st) ''type'' s) (\<lambda>(v, r). Inr (st\<lparr>gs_event_type := v\<rparr>, r))
      | Some FTimestamp \<Rightarrow>
          and_then (parse_nullable_timestamp (gs_timestamp st) s) (\<lambda>(v, r). Inr (st\<lparr>gs_timestamp := v\<rparr>, r))
      | Some FSequence \<Rightarrow>
          and_then (parse_nullable_sequence (gs_sequence st) s) (\<lambda>(v, r). Inr (st\<lparr>gs_sequence := v\<rparr>, r))
      | Some FMissionId \<Rightarrow>
          and_then (parse_nullable_string (gs_mission_id st) ''mission_id'' s)
            (\<lambda>(v, r). Inr (st\<lparr>gs_mission_id := v\<rparr>, r))
      | Some FPhaseId \<Rightarrow>
          and_then (parse_nullable_string (gs_phase_id st) ''phase_id'' s) (\<lambda>(v, r). Inr (st\<lparr>gs_phase_id := v\<rparr>, r))
      | Some FWorkerId \<Rightarrow>
          and_then (parse_nullable_string (gs_worker_id st) ''worker_id'' s)
            (\<lambda>(v, r). Inr (st\<lparr>gs_worker_id := v\<rparr>, r))
      | Some FData \<Rightarrow>
          and_then (parse_nullable_data num (gs_data st) s) (\<lambda>(v, r). Inr (st\<lparr>gs_data := v\<rparr>, r))
      | None \<Rightarrow>
          and_then (skip_value 1 s) (\<lambda>r.
            Inr (if retain_extra then retain_extra_value num key (take (length s - length r) s) st else st, r)))"

section \<open>The event object\<close>

lemma suffix_after_delimiter:
  "peek_is c (skip_whitespace s) \<Longrightarrow> suffix (tl (skip_whitespace s)) s"
  "peek_is c (skip_whitespace s) \<Longrightarrow> suffix (skip_whitespace (tl (skip_whitespace s))) s"
  by (metis skip_whitespace_suffix suffix_order.trans suffix_tl)+

lemma skip_suffix:
  "skip_loop d st s = Inr r \<Longrightarrow> suffix r s"
  "skip_unwind d st s = Inr r \<Longrightarrow> suffix r s"
proof (induction d st s and d st s rule: skip_loop_skip_unwind.induct)
  case (1 d st s)
  from "1.prems" obtain k u where start: "skip_value_start d (length st) s = Inr (k, u)"
    by (auto simp: skip_loop.simps [of d st s] split: sum.splits)
  then have "suffix u s" using value_start_consumes [OF start] by (simp add: strict_suffix_def)
  moreover have "suffix r u"
  proof (cases k)
    case None
    then show ?thesis using 1 start by (simp add: skip_loop.simps [of d st s])
  next
    case (Some c)
    then show ?thesis using 1 start by (simp add: skip_loop.simps [of d st s])
  qed
  ultimately show ?case by (rule suffix_order.trans [rotated])
next
  case (2 d s)
  then show ?case by (simp add: skip_unwind.simps(1))
next
  case (3 d c st s)
  let ?u = "skip_whitespace s"
  show ?case
  proof (cases c)
    case SkippedArray
    then consider "peek_is CHR '','' ?u" "skip_loop d (c # st) (skip_whitespace (tl ?u)) = Inr r"
      | "\<not> peek_is CHR '','' ?u" "peek_is CHR '']'' ?u" "skip_unwind d st (tl ?u) = Inr r"
      using "3.prems" by (auto simp: skip_unwind.simps(2) Let_def split: if_splits)
    then show ?thesis
    proof cases
      case 1
      then have "suffix r (skip_whitespace (tl ?u))" using "3.IH"(1) [OF refl SkippedArray] by blast
      then show ?thesis using suffix_after_delimiter(2) [OF 1(1)] suffix_order.trans by blast
    next
      case 2
      then have "suffix r (tl ?u)" using "3.IH"(2) [OF refl SkippedArray] by blast
      then show ?thesis using suffix_after_delimiter(1) [OF 2(2)] suffix_order.trans by blast
    qed
  next
    case SkippedObject
    then consider v where "peek_is CHR '','' ?u" "skip_object_key (skip_whitespace (tl ?u)) = Inr v"
        "skip_loop d (c # st) v = Inr r"
      | "\<not> peek_is CHR '','' ?u" "peek_is CHR ''}'' ?u" "skip_unwind d st (tl ?u) = Inr r"
      using "3.prems" by (auto simp: skip_unwind.simps(2) Let_def split: if_splits sum.splits)
    then show ?thesis
    proof cases
      case (1 v)
      then have "suffix r v" using "3.IH"(3) [OF refl SkippedObject] by blast
      moreover have "suffix v (skip_whitespace (tl ?u))"
        using object_key.consumes [OF 1(2)] by (simp add: strict_suffix_def)
      ultimately show ?thesis using suffix_after_delimiter(2) [OF 1(1)] suffix_order.trans by blast
    next
      case 2
      then have "suffix r (tl ?u)" using "3.IH"(4) [OF refl SkippedObject] by blast
      then show ?thesis using suffix_after_delimiter(1) [OF 2(2)] suffix_order.trans by blast
    qed
  qed
qed

lemma suffixes:
  "consume_null s = Inr (b, r) \<Longrightarrow> suffix r s"
  "parse_string s = Inr (v, r) \<Longrightarrow> suffix r s"
  "parse_value num d s = Inr (x, r) \<Longrightarrow> suffix r s"
  "skip_value d s = Inr r \<Longrightarrow> suffix r s"
proof -
  show "consume_null s = Inr (b, r) \<Longrightarrow> suffix r s"
    by (auto simp: consume_null_def result_simps suffix_def split: if_splits)
  show "parse_string s = Inr (v, r) \<Longrightarrow> suffix r s"
    using skip_string.consumes [of s r] parse_string_Inr [of s v r] by (simp add: strict_suffix_def)
  show skip: "skip_value d s = Inr r \<Longrightarrow> suffix r s" for d s r
    using skip_suffix(1) by (simp add: skip_value_def)
  show "parse_value num d s = Inr (x, r) \<Longrightarrow> suffix r s"
    using parse_skip(1) [of num d "[]" s] skip by (auto simp: parse_value_def skip_value_def)
qed

lemma object_case:
  "(case v of Object es \<Rightarrow> Inr (f es, w) | _ \<Rightarrow> Inl e) = Inr (m, r) \<Longrightarrow> \<exists>es. v = Object es \<and> m = f es \<and> w = r"
  by (cases v) auto

lemma nullable_suffixes:
  "parse_nullable_string d f s = Inr (v, r) \<Longrightarrow> suffix r s"
  "parse_nullable_sequence i s = Inr (n, r) \<Longrightarrow> suffix r s"
  "parse_nullable_timestamp d s = Inr (v, r) \<Longrightarrow> suffix r s"
  "parse_nullable_data num dat s = Inr (m, r) \<Longrightarrow> suffix r s"
proof -
  show "parse_nullable_string d f s = Inr (v, r) \<Longrightarrow> suffix r s"
    by (auto simp: parse_nullable_string_def result_simps dest!: suffixes
        intro: suffix_order.trans split: if_splits)
  show "parse_nullable_sequence i s = Inr (n, r) \<Longrightarrow> suffix r s"
    by (auto simp: parse_nullable_sequence_def result_simps Let_def strict_suffix_def
        dest!: suffixes number.consumes intro: suffix_order.trans split: if_splits sum.splits option.splits)
  { assume "parse_nullable_timestamp d s = Inr (v, r)"
    then obtain b u where "consume_null s = Inr (b, u)" "r = u \<or> skip_string u = Inr r"
      by (auto simp: parse_nullable_timestamp_def result_simps Let_def split: if_splits option.splits)
    then show "suffix r s" using suffixes(1) skip_string.consumes suffix_order.trans
      unfolding strict_suffix_def by blast }
  assume "parse_nullable_data num dat s = Inr (m, r)"
  then obtain b u where u: "consume_null s = Inr (b, u)"
    and "r = u \<or> (\<exists>v w. parse_value num 1 u = Inr (v, w) \<and>
       (case v of Object es \<Rightarrow> Inr (Some (case dat of Some c \<Rightarrow> event_map_extend es c | None \<Rightarrow> event_map_from_iter es), w)
        | _ \<Rightarrow> Inl InvalidData) = Inr (m, r))"
    by (auto simp: parse_nullable_data_def result_simps split: if_splits)
  then consider "r = u" | v where "parse_value num 1 u = Inr (v, r)"
    by (auto dest!: object_case)
  then have "suffix r u" using suffixes(3) by cases auto
  then show "suffix r s" using suffixes(1) [OF u] suffix_order.trans by blast
qed

lemma event_member_suffix: "event_member num retain key st s = Inr (st', r) \<Longrightarrow> suffix r s"
  by (auto simp: event_member_def result_simps dest: nullable_suffixes suffixes(4)
      split: option.splits GoObservedField.splits)

function event_members ::
    "(string \<Rightarrow> 'n option) \<Rightarrow> bool \<Rightarrow> 'n GoObservedState \<Rightarrow> 'n GoObservedState scan" where
  "event_members num retain_extra st s =
     (case parse_object_key s of
        Inl e \<Rightarrow> Inl e
      | Inr (key, v) \<Rightarrow>
          (case event_member num retain_extra key st v of
             Inl e \<Rightarrow> Inl e
           | Inr (st', w) \<Rightarrow>
               let x = skip_whitespace w in
               if peek_is CHR '','' x then event_members num retain_extra st' (skip_whitespace (tl x))
               else if peek_is CHR ''}'' x then Inr (st', tl x)
               else Inl (GoJson ''expected object delimiter'')))"
  by pat_completeness auto
termination
proof (relation "measure (\<lambda>(_, _, _, s). length s)", goal_cases)
  case (2 num retain_extra st s y key v z st' w x)
  have "length w \<le> length v" using 2(3,4) by (auto dest: event_member_suffix suffix_length_le)
  moreover have "length v < length s" using 2(1,2) parse_object_key_shorter by auto
  moreover have "length (skip_whitespace (tl x)) < length w" using after_delimiter(1) [of "CHR '',''" w] 2(5,6) by simp
  ultimately show ?case by simp
qed simp

declare event_members.simps [simp del]

definition parse_event_object :: "(string \<Rightarrow> 'n option) \<Rightarrow> bool \<Rightarrow> 'n GoObservedState scan" where
  "parse_event_object num retain_extra s =
     and_then (expect CHR ''{'' s) (\<lambda>u.
       let v = skip_whitespace u in
       if peek_is CHR ''}'' v then Inr (GoObservedState_new, tl v)
       else event_members num retain_extra GoObservedState_new v)"

definition parse_go_observed_event ::
    "(string \<Rightarrow> 'n option) \<Rightarrow> bool \<Rightarrow> string \<Rightarrow> EventError + 'n EventRecord" where
  "parse_go_observed_event num retain_extra bytes =
     (let s = skip_whitespace bytes in
      if peek_is CHR ''n'' s then
        and_then (parse_literal ''null'' s) (\<lambda>r.
        and_then (finish r) (\<lambda>_. Inr (into_record GoObservedState_new)))
      else if peek_is CHR ''{'' s then
        and_then (parse_event_object num retain_extra s) (\<lambda>(st, r).
        and_then (finish r) (\<lambda>_. Inr (into_record st)))
      else if s \<noteq> [] then
        and_then (skip_value 0 s) (\<lambda>r. and_then (finish r) (\<lambda>_. Inl RootNotObject))
      else Inl (GoJson ''empty input''))"

definition decode_go_observed_event_line ::
    "(string \<Rightarrow> 'n option) \<Rightarrow> string \<Rightarrow> EventError + 'n DecodedEvent" where
  "decode_go_observed_event_line num bytes =
     and_then (parse_go_observed_event num True bytes) (\<lambda>r.
       Inr \<lparr>de_record = r, de_is_stable_type = (er_event_type r \<in> set STABLE_EVENT_TYPES),
            de_raw_line = bytes\<rparr>)"

definition decode_go_observed_event_record ::
    "(string \<Rightarrow> 'n option) \<Rightarrow> string \<Rightarrow> EventError + 'n EventRecord" where
  "decode_go_observed_event_record num bytes = parse_go_observed_event num False bytes"

section \<open>Objects, arrays and scalars as exact slices\<close>

function object_members :: "(string \<times> string) list scan" where
  "object_members s =
     (case parse_object_key s of
        Inl e \<Rightarrow> Inl e
      | Inr (name, v) \<Rightarrow>
          (case skip_value 1 v of
             Inl e \<Rightarrow> Inl e
           | Inr w \<Rightarrow>
               let m = (name, take (length v - length w) v);
                   x = skip_whitespace w
               in if peek_is CHR '','' x then
                    and_then (object_members (skip_whitespace (tl x))) (\<lambda>(ms, r). Inr (m # ms, r))
                  else if peek_is CHR ''}'' x then and_then (finish (tl x)) (\<lambda>_. Inr ([m], tl x))
                  else Inl (GoJson ''expected object delimiter'')))"
  by pat_completeness auto
termination
proof (relation "measure length", goal_cases)
  case (2 s y name v w m x)
  have "length w \<le> length v" using 2(3) by (auto dest: suffixes(4) suffix_length_le)
  moreover have "length v < length s" using 2(1,2) parse_object_key_shorter by auto
  moreover have "length (skip_whitespace (tl x)) < length w" using after_delimiter(1) [of "CHR '',''" w] 2(5,6) by simp
  ultimately show ?case by simp
qed simp

declare object_members.simps [simp del]

definition decode_go_json_object_members :: "string \<Rightarrow> EventError + (string \<times> string) list option" where
  "decode_go_json_object_members bytes =
     and_then (consume_null (skip_whitespace bytes)) (\<lambda>(null, s).
       if null then and_then (finish s) (\<lambda>_. Inr None)
       else if \<not> peek_is CHR ''{'' s then
         and_then (skip_value 0 s) (\<lambda>r. and_then (finish r) (\<lambda>_. Inl RootNotObject))
       else
         let v = skip_whitespace (tl s) in
         if peek_is CHR ''}'' v then and_then (finish (tl v)) (\<lambda>_. Inr (Some []))
         else and_then (object_members v) (\<lambda>(ms, _). Inr (Some ms)))"

function array_elements :: "string list scan" where
  "array_elements v =
     (case skip_value 1 v of
        Inl e \<Rightarrow> Inl e
      | Inr w \<Rightarrow>
          let element = take (length v - length w) v;
              x = skip_whitespace w
          in if peek_is CHR '','' x then
               and_then (array_elements (skip_whitespace (tl x))) (\<lambda>(es, r). Inr (element # es, r))
             else if peek_is CHR '']'' x then and_then (finish (tl x)) (\<lambda>_. Inr ([element], tl x))
             else Inl (GoJson ''expected array delimiter''))"
  by pat_completeness auto
termination
proof (relation "measure length", goal_cases)
  case (2 v w element x)
  have "length w \<le> length v" using 2(1) by (auto dest: suffixes(4) suffix_length_le)
  moreover have "length (skip_whitespace (tl x)) < length w" using after_delimiter(1) [of "CHR '',''" w] 2(3,4) by simp
  ultimately show ?case by simp
qed simp

declare array_elements.simps [simp del]

definition decode_go_json_array_elements :: "string \<Rightarrow> EventError + string list option" where
  "decode_go_json_array_elements bytes =
     and_then (consume_null (skip_whitespace bytes)) (\<lambda>(null, s).
       if null then and_then (finish s) (\<lambda>_. Inr None)
       else if \<not> peek_is CHR ''['' s then
         and_then (skip_value 0 s) (\<lambda>r. and_then (finish r) (\<lambda>_. Inl InvalidData))
       else
         let v = skip_whitespace (tl s) in
         if peek_is CHR '']'' v then and_then (finish (tl v)) (\<lambda>_. Inr (Some []))
         else and_then (array_elements v) (\<lambda>(es, _). Inr (Some es)))"

datatype GoJsonScalar = ScalarNull | ScalarBool bool | ScalarNumber string | ScalarString string string

definition decode_go_json_scalar :: "string \<Rightarrow> EventError + GoJsonScalar" where
  "decode_go_json_scalar bytes =
     (let s = skip_whitespace bytes in
      and_then
        (if peek_is CHR ''n'' s then and_then (parse_literal ''null'' s) (\<lambda>r. Inr (ScalarNull, r))
         else if peek_is CHR ''t'' s then and_then (parse_literal ''true'' s) (\<lambda>r. Inr (ScalarBool True, r))
         else if peek_is CHR ''f'' s then and_then (parse_literal ''false'' s) (\<lambda>r. Inr (ScalarBool False, r))
         else if peek_is CHR 0x22 s then
           and_then (parse_string s) (\<lambda>(decoded, r).
             Inr (ScalarString decoded (butlast (tl (take (length s - length r) s))), r))
         else if starts_number s then
           and_then (parse_number_range s) (\<lambda>r. Inr (ScalarNumber (take (length s - length r) s), r))
         else if s \<noteq> [] then
           and_then (skip_value 0 s) (\<lambda>r. and_then (finish r) (\<lambda>_. Inl InvalidData))
         else Inl (GoJson ''empty input''))
        (\<lambda>(scalar, r). and_then (finish r) (\<lambda>_. Inr scalar)))"

end
