(* ===== verification/Event_Log.thy ===== *)
theory Event_Log
  imports Event_Codec
begin

text \<open>
  What the scan of an event log reports: the lines partition the log, each is either an event
  kept with its exact bytes or a diagnostic with its line number, and the next sequence number
  lies above every event's.
\<close>

section \<open>The scan as a fold over the lines\<close>

function log_lines :: "string \<Rightarrow> string list" where
  "log_lines s = (if s = [] then [] else first_line s # log_lines (drop (length (first_line s)) s))"
  by pat_completeness auto
termination
  by (relation "measure length") (simp_all add: after_first_line_shorter)

declare log_lines.simps [simp del]

lemma first_line_prefix: "s = first_line s @ drop (length (first_line s)) s"
proof -
  let ?p = "\<lambda>c. c \<noteq> newline_char"
  show ?thesis
  proof (cases "dropWhile ?p s")
    case Nil
    then have all: "takeWhile ?p s = s" by (simp add: takeWhile_eq_all_conv)
    show ?thesis unfolding first_line_def Let_def all by simp
  next
    case (Cons c r)
    have c: "c = newline_char" using Cons hd_dropWhile [of ?p s] by simp
    have s: "s = takeWhile ?p s @ newline_char # r"
      using takeWhile_dropWhile_id [of ?p s] by (simp only: Cons c)
    have "length s = length (takeWhile ?p s) + Suc (length r)"
      using arg_cong [where f = length, OF s] by (simp only: length_append list.size)
    then have "first_line s = takeWhile ?p s @ [newline_char]" by (simp add: first_line_def Let_def)
    then have "s = first_line s @ r" using s by simp
    then show ?thesis by (metis append_eq_conv_conj)
  qed
qed

lemma log_lines_concat: "concat (log_lines s) = s"
proof (induction s rule: log_lines.induct)
  case (1 s)
  then show ?case using first_line_prefix [of s] by (simp add: log_lines.simps [of s])
qed

definition scan_lines ::
    "(string \<Rightarrow> 'n Value option) \<Rightarrow> ('n \<Rightarrow> int option) \<Rightarrow> (nat \<times> string) list \<Rightarrow> 'n ScanState \<Rightarrow> 'n ScanState" where
  "scan_lines fs ai = fold (\<lambda>(i, raw). scan_line fs ai i raw)"

lemma scan_lines_simps [simp]:
  "scan_lines fs ai [] st = st"
  "scan_lines fs ai ((i, raw) # irs) st = scan_lines fs ai irs (scan_line fs ai i raw st)"
  by (simp_all add: scan_lines_def)

lemma scan_loop_fold:
  "scan_loop fs ai k s st = scan_lines fs ai (enumerate k (log_lines s)) st"
proof (induction fs ai k s st rule: scan_loop.induct)
  case (1 fs ai k s st)
  then show ?case by (simp add: scan_loop.simps [of fs ai k s st] log_lines.simps [of s])
qed

definition line_event ::
    "(string \<Rightarrow> 'n Value option) \<Rightarrow> ('n \<Rightarrow> int option) \<Rightarrow> string \<Rightarrow> 'n DecodedEvent option" where
  "line_event fs ai raw =
     (if GO_EVENT_JSON_CONTENT_MAX_BYTES < length (line_content raw) then None
      else case decode_event_line fs ai (line_content raw) of
             Inl _ \<Rightarrow> None | Inr e \<Rightarrow> Some (e\<lparr>de_raw_line := raw\<rparr>))"

definition sequences :: "'n DecodedEvent list \<Rightarrow> int list" where
  "sequences es = map (\<lambda>e. er_sequence (de_record e)) es"

definition greatest_of :: "int option \<Rightarrow> int list \<Rightarrow> int option" where
  "greatest_of g is = fold (\<lambda>i g. Some (case g of None \<Rightarrow> i | Some m \<Rightarrow> max m i)) is g"

text \<open>The diagnostic of a line that is not an event.\<close>

definition line_diagnostic ::
    "(string \<Rightarrow> 'n Value option) \<Rightarrow> ('n \<Rightarrow> int option) \<Rightarrow> nat \<times> string \<Rightarrow> EventScanDiagnostic option" where
  "line_diagnostic fs ai ir =
     (if GO_EVENT_JSON_CONTENT_MAX_BYTES < length (line_content (snd ir))
      then Some \<lparr>diag_line_index = fst ir, diag_kind = Oversized\<rparr>
      else case decode_event_line fs ai (line_content (snd ir)) of
             Inl e \<Rightarrow> Some \<lparr>diag_line_index = fst ir, diag_kind = Corrupt e\<rparr> | Inr _ \<Rightarrow> None)"

lemma scan_line_simps:
  "sc_events (scan_line fs ai i raw st) = sc_events st @ (case line_event fs ai raw of Some e \<Rightarrow> [e] | None \<Rightarrow> [])"
  "sc_diagnostics (scan_line fs ai i raw st) =
     sc_diagnostics st @ (case line_diagnostic fs ai (i, raw) of Some d \<Rightarrow> [d] | None \<Rightarrow> [])"
  "sc_greatest (scan_line fs ai i raw st) =
     greatest_of (sc_greatest st) (sequences (case line_event fs ai raw of Some e \<Rightarrow> [e] | None \<Rightarrow> []))"
  by (auto simp: scan_line_def line_event_def line_diagnostic_def sequences_def greatest_of_def Let_def
      split: sum.split)

lemma greatest_of_append: "greatest_of g (is @ js) = greatest_of (greatest_of g is) js"
  by (simp add: greatest_of_def)

lemma sequences_append: "sequences (es @ es') = sequences es @ sequences es'"
  by (simp add: sequences_def)

lemma map_filter_cons:
  "List.map_filter f (x # xs) = (case f x of Some y \<Rightarrow> [y] | None \<Rightarrow> []) @ List.map_filter f xs"
  by (simp add: map_filter_simps split: option.split)

lemma scan_fold:
  "sc_events (scan_lines fs ai irs st) = sc_events st @ List.map_filter (line_event fs ai) (map snd irs) \<and>
   sc_diagnostics (scan_lines fs ai irs st) =
     sc_diagnostics st @ List.map_filter (line_diagnostic fs ai) irs \<and>
   sc_greatest (scan_lines fs ai irs st) =
     greatest_of (sc_greatest st) (sequences (List.map_filter (line_event fs ai) (map snd irs)))"
proof (induction irs arbitrary: st)
  case Nil
  show ?case by (simp add: map_filter_simps greatest_of_def sequences_def)
next
  case (Cons ir irs)
  obtain i raw where ir: "ir = (i, raw)" by (cases ir)
  show ?case
    using Cons.IH [of "scan_line fs ai i raw st"]
    by (simp add: ir scan_line_simps map_filter_cons greatest_of_def sequences_def split: option.splits)
qed

lemma greatest_of_some: "greatest_of (Some m) is = Some (Max (insert m (set is)))"
proof (induction "is" arbitrary: m)
  case (Cons i js)
  have "greatest_of (Some m) (i # js) = greatest_of (Some (max m i)) js" by (simp add: greatest_of_def)
  also have "\<dots> = Some (Max (insert (max m i) (set js)))" by (rule Cons.IH)
  also have "Max (insert (max m i) (set js)) = Max (insert m (set (i # js)))"
    by (cases "js = []") (simp_all add: max.assoc)
  finally show ?case .
qed (simp add: greatest_of_def)

lemma greatest_of_spec: "greatest_of None is = (if is = [] then None else Some (Max (set is)))"
proof (cases "is")
  case (Cons i js)
  have "greatest_of None (i # js) = greatest_of (Some i) js" by (simp add: greatest_of_def)
  then show ?thesis by (simp add: Cons greatest_of_some)
qed (simp add: greatest_of_def)

lemma scan_event_log_parts:
  "es_events (scan_event_log fs ai bytes) = List.map_filter (line_event fs ai) (log_lines bytes)"
  "es_diagnostics (scan_event_log fs ai bytes) =
     List.map_filter (line_diagnostic fs ai) (enumerate 1 (log_lines bytes))"
  "es_next_sequence (scan_event_log fs ai bytes) =
     (let is = sequences (es_events (scan_event_log fs ai bytes))
      in if is = [] then Some 1 else if Max (set is) = I64_MAX then None else Some (Max (set is) + 1))"
  by (simp_all add: scan_event_log_def scan_loop_fold scan_fold greatest_of_spec Let_def)

text \<open>
  The current writer and the strict decoder agree: the entries written for a valid record,
  collected into an object, decode to the record with its empty optional fields dropped.
\<close>

section \<open>Maps are determined by their lookups\<close>

lemma sorted_entries_eq:
  fixes m m' :: "('k::linorder, 'v) btree_map"
  assumes "bt_wf m" "bt_wf m'" "\<And>k. bt_get m k = bt_get m' k"
  shows "m = m'"
proof -
  have keys: "sorted (map fst m)" "distinct (map fst m)" "sorted (map fst m')" "distinct (map fst m')"
    using assms(1, 2) by (simp_all add: bt_wf_def strict_sorted_iff)
  have "(k, v) \<in> set m \<longleftrightarrow> (k, v) \<in> set m'" for k v
  proof -
    have "(k, v) \<in> set m \<longleftrightarrow> map_of m k = Some v" by (rule map_of_eq_Some_iff [OF keys(2), symmetric])
    also have "map_of m k = map_of m' k" using assms(3) [of k] by (simp add: bt_get_def)
    also have "map_of m' k = Some v \<longleftrightarrow> (k, v) \<in> set m'" by (rule map_of_eq_Some_iff [OF keys(4)])
    finally show ?thesis .
  qed
  then have same: "set m = set m'" by (simp add: set_eq_iff split_paired_all)
  have "inj_on fst (set m \<union> set m')" using keys(2) same by (simp add: distinct_map)
  then show ?thesis using keys same by (rule map_sorted_distinct_set_unique)
qed

lemma bt_wf_filter: "bt_wf m \<Longrightarrow> bt_wf (filter p m)"
  unfolding bt_wf_def by (induction m) auto

lemma map_of_filter_key: "map_of (filter (\<lambda>e. p (fst e)) m) k = (if p k then map_of m k else None)"
  by (induction m) auto

lemma remove_field_get [simp]: "bt_get (remove_field n m) k = (if k = n then None else bt_get m k)"
  by (simp add: remove_field_def bt_get_def map_of_filter_key [where p = "\<lambda>k. k \<noteq> n"])

lemma remove_field_wf [simp]: "bt_wf m \<Longrightarrow> bt_wf (remove_field n m)"
  by (simp add: remove_field_def bt_wf_filter)

lemma event_map_from_iter_collect: "event_map_from_iter es = bt_collect es"
  by (simp add: event_map_from_iter_def event_map_extend_def event_map_insert_def bt_collect_def)

lemma event_map_from_iter_wf [simp]: "bt_wf m \<Longrightarrow> event_map_from_iter m = m"
  by (simp add: event_map_from_iter_collect bt_collect_sorted)

section \<open>The written record reads back\<close>

definition drop_empty :: "'a list option \<Rightarrow> 'a list option" where
  "drop_empty v = (case v of Some [] \<Rightarrow> None | _ \<Rightarrow> v)"

definition current_form :: "'n EventRecord \<Rightarrow> 'n EventRecord" where
  "current_form r =
     r\<lparr>er_phase_id := drop_empty (er_phase_id r), er_worker_id := drop_empty (er_worker_id r),
       er_data := drop_empty (er_data r),
       er_extra := filter (\<lambda>e. \<not> event_reserved (fst e)) (er_extra r)\<rparr>"

definition record_wf :: "'n EventRecord \<Rightarrow> bool" where
  "record_wf r \<longleftrightarrow> bt_wf (er_extra r) \<and> (\<forall>d\<in>set_option (er_data r). bt_wf d)"

lemma validate_event_record_iff:
  "validate_event_record r = Inr u \<longleftrightarrow>
     er_id r \<noteq> [] \<and> er_event_type r \<noteq> [] \<and> er_mission_id r \<noteq> [] \<and> is_rfc3339 (er_timestamp r)"
  by (simp add: validate_event_record_def and_then_def split: sum.split)

lemma kept_get:
  "map_of (filter (\<lambda>e. \<not> event_reserved (fst e)) m) k = (if event_reserved k then None else map_of m k)"
  by (induction m) auto

lemma optional_entry_keys: "map fst (optional_entry key v) = (if drop_empty v = None then [] else [key])"
  by (simp add: optional_entry_def drop_empty_def split: option.split list.split)

lemma optional_entry_get:
  "map_of (optional_entry key v) k = (if k = key then map_option String (drop_empty v) else None)"
  by (simp add: optional_entry_def drop_empty_def split: option.split list.split)

definition data_entry :: "'n EventJsonMap option \<Rightarrow> (string \<times> 'n Value) list" where
  "data_entry v = (case v of Some d \<Rightarrow> if d \<noteq> [] then [(''data'', Object d)] else [] | None \<Rightarrow> [])"

lemma data_entry_get:
  "map_of (data_entry v) k = (if k = ''data'' then map_option Object (drop_empty v) else None)"
  by (simp add: data_entry_def drop_empty_def split: option.split list.split)

lemma data_entry_keys: "map fst (data_entry v) = (if drop_empty v = None then [] else [''data''])"
  by (simp add: data_entry_def drop_empty_def split: option.split list.split)

lemma current_event_entries_alt:
  "current_event_entries of_i64 r =
     filter (\<lambda>e. \<not> event_reserved (fst e)) (er_extra r) @
     [(''id'', String (er_id r)), (''type'', String (er_event_type r)),
      (''timestamp'', String (er_timestamp r)), (''sequence'', Number (of_i64 (er_sequence r))),
      (''mission_id'', String (er_mission_id r))] @
     optional_entry ''phase_id'' (er_phase_id r) @ optional_entry ''worker_id'' (er_worker_id r) @
     data_entry (er_data r)"
  by (simp add: current_event_entries_def data_entry_def)

lemma current_entries_map:
  "map_of (current_event_entries of_i64 r) k =
     (if k = ''id'' then Some (String (er_id r))
      else if k = ''type'' then Some (String (er_event_type r))
      else if k = ''timestamp'' then Some (String (er_timestamp r))
      else if k = ''sequence'' then Some (Number (of_i64 (er_sequence r)))
      else if k = ''mission_id'' then Some (String (er_mission_id r))
      else if k = ''phase_id'' then map_option String (drop_empty (er_phase_id r))
      else if k = ''worker_id'' then map_option String (drop_empty (er_worker_id r))
      else if k = ''data'' then map_option Object (drop_empty (er_data r))
      else map_of (er_extra r) k)"
  (is "_ = ?rhs")
proof -
  have "\<not> event_reserved k \<Longrightarrow>
     k \<noteq> ''id'' \<and> k \<noteq> ''type'' \<and> k \<noteq> ''timestamp'' \<and> k \<noteq> ''sequence'' \<and> k \<noteq> ''mission_id'' \<and>
     k \<noteq> ''phase_id'' \<and> k \<noteq> ''worker_id'' \<and> k \<noteq> ''data''"
    unfolding event_reserved_def by auto
  moreover have "event_reserved k \<Longrightarrow>
     k = ''id'' \<or> k = ''type'' \<or> k = ''timestamp'' \<or> k = ''sequence'' \<or> k = ''mission_id'' \<or>
     k = ''phase_id'' \<or> k = ''worker_id'' \<or> k = ''data''"
    unfolding event_reserved_def by auto
  ultimately show ?thesis
    unfolding current_event_entries_alt map_of_append map_add_def optional_entry_get data_entry_get kept_get
    by (cases "event_reserved k") (auto split: option.split)
qed

lemma current_entries_distinct:
  assumes "bt_wf (er_extra r)"
  shows "distinct (map fst (current_event_entries of_i64 r))"
proof -
  define kept written where "kept = map fst (filter (\<lambda>e. \<not> event_reserved (fst e)) (er_extra r))"
    and "written = [''id'', ''type'', ''timestamp'', ''sequence'', ''mission_id''] @
      (if drop_empty (er_phase_id r) = None then [] else [''phase_id'']) @
      (if drop_empty (er_worker_id r) = None then [] else [''worker_id'']) @
      (if drop_empty (er_data r) = None then [] else [''data''])"
  have "map fst (current_event_entries of_i64 r) = kept @ written"
    unfolding current_event_entries_alt map_append optional_entry_keys data_entry_keys kept_def written_def
    by simp
  moreover have "distinct kept"
    using bt_wf_filter [OF assms] by (simp add: kept_def bt_wf_def strict_sorted_iff)
  moreover have "distinct written" by (simp add: written_def)
  moreover have "\<forall>k\<in>set written. event_reserved k" by (simp add: written_def event_reserved_def)
  moreover have "\<forall>k\<in>set kept. \<not> event_reserved k" by (auto simp: kept_def)
  ultimately show ?thesis by (auto simp del: set_map)
qed

lemma required_present:
  "bt_get m name = Some (String v) \<Longrightarrow> v \<noteq> [] \<Longrightarrow> required_event_string name m = Inr (v, remove_field name m)"
  by (simp add: required_event_string_def)

lemma optional_present:
  "bt_get m name = map_option String (drop_empty v) \<Longrightarrow>
     optional_event_string name m = Inr (drop_empty v, remove_field name m)"
  by (auto simp: optional_event_string_def drop_empty_def split: option.splits list.splits)

lemma data_present:
  "bt_get m ''data'' = map_option Object (drop_empty v) \<Longrightarrow> \<forall>d\<in>set_option v. bt_wf d \<Longrightarrow>
     event_data m = Inr (drop_empty v, remove_field ''data'' m)"
  by (auto simp: event_data_def drop_empty_def split: option.splits list.splits)

lemma sequence_present:
  "bt_get m ''sequence'' = Some (Number n) \<Longrightarrow> as_i64 n = Some i \<Longrightarrow>
     event_sequence as_i64 m = Inr (i, remove_field ''sequence'' m)"
  by (simp add: event_sequence_def)

lemma decode_current_entries:
  assumes valid: "validate_event_record r = Inr ()" and wf: "record_wf r"
    and number: "as_i64 (of_i64 (er_sequence r)) = Some (er_sequence r)"
  shows "decode_event_object as_i64 (bt_collect (current_event_entries of_i64 r)) = Inr (current_form r)"
proof -
  let ?m = "bt_collect (current_event_entries of_i64 r)"
  let ?m' = "remove_field ''data'' (remove_field ''worker_id'' (remove_field ''phase_id''
    (remove_field ''mission_id'' (remove_field ''sequence'' (remove_field ''timestamp''
    (remove_field ''type'' (remove_field ''id'' ?m)))))))"
  have extra: "bt_wf (er_extra r)" and data: "\<forall>d\<in>set_option (er_data r). bt_wf d"
    using wf by (simp_all add: record_wf_def)
  have get: "bt_get ?m k = map_of (current_event_entries of_i64 r) k" for k
    by (rule bt_collect_get_distinct [OF current_entries_distinct [OF extra]])
  have "?m' = filter (\<lambda>e. \<not> event_reserved (fst e)) (er_extra r)"
  proof (rule sorted_entries_eq)
    show "bt_wf ?m'" by (simp add: bt_collect_wf)
    show "bt_wf (filter (\<lambda>e. \<not> event_reserved (fst e)) (er_extra r))" by (rule bt_wf_filter [OF extra])
    show "bt_get ?m' k = bt_get (filter (\<lambda>e. \<not> event_reserved (fst e)) (er_extra r)) k" for k
      by (simp add: get current_entries_map) (simp only: bt_get_def kept_get, simp add: event_reserved_def)
  qed
  moreover have "event_map_from_iter ?m' = ?m'" by (simp add: bt_collect_wf)
  moreover have "er_timestamp r \<noteq> []" using valid by (auto simp: validate_event_record_iff is_rfc3339_def)
  ultimately show ?thesis
    using valid
    by (simp add: decode_event_object_def and_then_def required_present get current_entries_map
        sequence_present number optional_present data_present data validate_event_record_iff current_form_def)
qed

end
