(* ===== verification/Json_Html.thy ===== *)
theory Json_Html
  imports Event_Codec Json_Printer
begin

text \<open>
  The escaping of a finished JSON text as Go does it, in the documents that serde writes, compact and
  indented: it changes the spelling of strings and nothing else, the new spelling reads back, and it is one
  that JSON allows.
\<close>

section \<open>Escaped strings\<close>

definition html_quote :: "string \<Rightarrow> string" where
  "html_quote s = escape_go_json_for_html (quote s)"

definition html_char :: "char \<Rightarrow> string" where
  "html_char c =
     (if c = CHR ''<'' then CHR 0x5C # ''u003c''
      else if c = CHR ''>'' then CHR 0x5C # ''u003e''
      else if c = CHR ''&'' then CHR 0x5C # ''u0026''
      else quoted_char c)"

definition line_separator :: "string \<Rightarrow> bool" where
  "line_separator s \<longleftrightarrow> (\<exists>t. s = CHR 0xE2 # CHR 0x80 # CHR 0xA8 # t)"

definition paragraph_separator :: "string \<Rightarrow> bool" where
  "paragraph_separator s \<longleftrightarrow> (\<exists>t. s = CHR 0xE2 # CHR 0x80 # CHR 0xA9 # t)"

fun html_body :: "string \<Rightarrow> string" where
  "html_body [] = []"
| "html_body (c # s) =
     (if starts_with (c # s) [CHR 0xE2, CHR 0x80, CHR 0xA8] then CHR 0x5C # ''u2028'' @ html_body (drop 2 s)
      else if starts_with (c # s) [CHR 0xE2, CHR 0x80, CHR 0xA9] then CHR 0x5C # ''u2029'' @ html_body (drop 2 s)
      else html_char c @ html_body s)"

text \<open>The bytes that the escaping leaves as they are, whatever follows.\<close>

definition untouched :: "char \<Rightarrow> bool" where
  "untouched c \<longleftrightarrow> c \<notin> {CHR ''<'', CHR ''>'', CHR ''&'', CHR 0xE2}"

lemma escape_untouched: "list_all untouched s \<Longrightarrow> escape_go_json_for_html (s @ t) = s @ escape_go_json_for_html t"
  by (induction s) (auto simp: untouched_def)

lemma hex_digit_range: "n < 16 \<Longrightarrow> byte (hex_digit n) < 128 \<and> untouched (hex_digit n)"
proof -
  assume "n < 16"
  then have "hexdigit (hex_digit n)" by (rule hex_digit_value)
  then show ?thesis by (auto simp: hexdigit_def is_digit_def byte_def untouched_def)
qed

lemma quoted_char_ascii: "byte c < 128 \<Longrightarrow> list_all (\<lambda>x. byte x < 128) (quoted_char c)"
proof (cases c rule: quoted_char_cases)
  case (escape e)
  then have "e \<in> set simple_escapes" by (simp add: short_escape_Some)
  then have "byte e < 128" by (auto simp: simple_escapes_def byte_def)
  then show ?thesis using escape(2) by (simp add: byte_def)
next
  case code
  then show ?thesis using hex_digit_range [of "byte c div 16"] hex_digit_range [of "byte c mod 16"]
    by (simp add: byte_def [of "CHR 0x5C"] byte_def [of "CHR ''u''"] byte_def [of "CHR ''0''"])
qed simp

lemma quoted_char_high: "128 \<le> byte c \<Longrightarrow> quoted_char c = [c]"
proof (cases c rule: quoted_char_cases)
  case (escape e)
  moreover assume "128 \<le> byte c"
  ultimately show ?thesis using short_escape_Some [of c e] by simp
qed simp_all

lemma quoted_char_untouched: "untouched c \<Longrightarrow> list_all untouched (quoted_char c)"
proof (cases c rule: quoted_char_cases)
  case (escape e)
  then have "e \<in> set simple_escapes" by (simp add: short_escape_Some)
  then have "untouched e" by (auto simp: simple_escapes_def untouched_def)
  then show ?thesis using escape(2) by (simp add: untouched_def)
next
  case code
  have "untouched CHR ''u''" "untouched CHR ''0''" "untouched CHR 0x5C" by (simp_all add: untouched_def)
  then show ?thesis using code hex_digit_range [of "byte c div 16"] hex_digit_range [of "byte c mod 16"] by simp
qed simp

lemma quoted_head_high:
  assumes "128 \<le> byte d"
  shows "starts_with (concat (map quoted_char s) @ CHR 0x22 # t) (d # ds) \<longleftrightarrow>
    s \<noteq> [] \<and> hd s = d \<and> starts_with (concat (map quoted_char (tl s)) @ CHR 0x22 # t) ds"
proof (cases s)
  case Nil
  then show ?thesis using assms by (auto simp: byte_def)
next
  case (Cons c s')
  show ?thesis
  proof (cases "byte c < 128")
    case True
    have "quoted_char c \<noteq> []" by (cases c rule: quoted_char_cases) simp_all
    then obtain x xs where x: "quoted_char c = x # xs" by (cases "quoted_char c") auto
    then have "x \<noteq> d" "c \<noteq> d" using quoted_char_ascii [OF True] True assms by auto
    then show ?thesis by (simp add: Cons x)
  next
    case False
    then show ?thesis by (simp add: Cons quoted_char_high)
  qed
qed

lemma high_bytes: "128 \<le> byte CHR 0xE2" "128 \<le> byte CHR 0x80" "128 \<le> byte CHR 0xA8" "128 \<le> byte CHR 0xA9"
  by (simp_all add: byte_def)

lemma starts_two: "starts_with s [b, c] \<longleftrightarrow> s \<noteq> [] \<and> hd s = b \<and> tl s \<noteq> [] \<and> hd (tl s) = c"
  by (cases s; cases "tl s"; simp)

lemma quoted_two:
  "128 \<le> byte b \<Longrightarrow> 128 \<le> byte c \<Longrightarrow>
     starts_with (concat (map quoted_char s) @ CHR 0x22 # t) [b, c] \<longleftrightarrow> starts_with s [b, c]"
  unfolding starts_two [of s] by (simp only: quoted_head_high starts_with_Cons(1) simp_thms)

lemmas separators_quoted = quoted_two [OF high_bytes(2,3)] quoted_two [OF high_bytes(2,4)]

lemma html_char_escape:
  "c \<noteq> CHR 0xE2 \<Longrightarrow> escape_go_json_for_html (quoted_char c @ t) = html_char c @ escape_go_json_for_html t"
proof (cases "untouched c")
  case True
  then show ?thesis using escape_untouched [OF quoted_char_untouched] by (auto simp: html_char_def untouched_def)
next
  case False
  assume "c \<noteq> CHR 0xE2"
  with False have "c = CHR ''<'' \<or> c = CHR ''>'' \<or> c = CHR ''&''" by (auto simp: untouched_def)
  then show ?thesis by (auto simp: quoted_char_def short_escape_def byte_def html_char_def)
qed

lemma escape_body:
  "escape_go_json_for_html (concat (map quoted_char s) @ CHR 0x22 # t) = html_body s @ CHR 0x22 # escape_go_json_for_html t"
proof (induction s rule: html_body.induct)
  case (2 c s)
  show ?case
  proof (cases "c = CHR 0xE2")
    case False
    then show ?thesis using 2(3) html_char_escape [OF False] by simp
  next
    case True
    have q: "quoted_char c = [c]" using quoted_char_high high_bytes(1) True by simp
    show ?thesis
    proof (cases "starts_with s [CHR 0x80, CHR 0xA8] \<or> starts_with s [CHR 0x80, CHR 0xA9]")
      case False
      then have "html_body (c # s) = c # html_body s" using True q by (simp add: html_char_def)
      moreover have "escape_go_json_for_html (concat (map quoted_char s) @ CHR 0x22 # t) =
          html_body s @ CHR 0x22 # escape_go_json_for_html t"
        using 2(3) False True by simp
      ultimately show ?thesis using False True q by (simp add: separators_quoted)
    next
      case sep: True
      then obtain d u where s: "s = CHR 0x80 # d # u" "d = CHR 0xA8 \<or> d = CHR 0xA9"
        by (cases s; cases "tl s") auto
      have "escape_go_json_for_html (concat (map quoted_char u) @ CHR 0x22 # t) =
          html_body u @ CHR 0x22 # escape_go_json_for_html t"
        using s 2(1,2) True by auto
      then show ?thesis using s True q quoted_char_high high_bytes by auto
    qed
  qed
qed simp

lemma escape_quote: "escape_go_json_for_html (quote s @ t) = html_quote s @ escape_go_json_for_html t"
  using escape_body [of s t] escape_body [of s "[]"] by (simp add: html_quote_def quote_def)

lemma html_quote_body: "html_quote s = CHR 0x22 # html_body s @ [CHR 0x22]"
  using escape_body [of s "[]"] by (simp add: html_quote_def quote_def)

section \<open>What is escaped reads back\<close>

lemma html_char_cases:
  obtains (html) a b where "html_char c = CHR 0x5C # CHR ''u'' # CHR ''0'' # CHR ''0'' # [a, b]"
      "list_all hexdigit [CHR ''0'', CHR ''0'', a, b]" "parse_hex_u16 [CHR ''0'', CHR ''0'', a, b] = byte c" "byte c < 128"
  | (other) "html_char c = quoted_char c"
proof -
  have "hexdigit CHR ''0''" "hexdigit CHR ''2''" "hexdigit CHR ''3''" "hexdigit CHR ''6''" "hexdigit CHR ''c''" "hexdigit CHR ''e''"
    by (simp_all add: hexdigit_def is_digit_def byte_def)
  moreover have "parse_hex_u16 ''003c'' = byte CHR ''<''" "parse_hex_u16 ''003e'' = byte CHR ''>''"
    "parse_hex_u16 ''0026'' = byte CHR ''&''" by code_simp+
  moreover have "byte CHR ''<'' < 128" "byte CHR ''>'' < 128" "byte CHR ''&'' < 128" by (simp_all add: byte_def)
  ultimately show ?thesis
    using html other by (cases "c \<in> {CHR ''<'', CHR ''>'', CHR ''&''}") (auto simp: html_char_def)
qed

lemma skip_html_body: "skip_string_body (html_body s @ CHR 0x22 # r) = Inr r"
proof (induction s rule: html_body.induct)
  case (2 c s)
  have codes: "list_all hexdigit ''2028''" "list_all hexdigit ''2029''"
    by (simp_all add: hexdigit_def is_digit_def byte_def)
  show ?case
  proof (cases "starts_with (c # s) [CHR 0xE2, CHR 0x80, CHR 0xA8] \<or> starts_with (c # s) [CHR 0xE2, CHR 0x80, CHR 0xA9]")
    case True
    then show ?thesis using 2(1,2) codes by (auto simp: skip_escapes(2) simp del: skip_string_body.simps)
  next
    case False
    then have body: "html_body (c # s) = html_char c @ html_body s" and ih: "skip_string_body (html_body s @ CHR 0x22 # r) = Inr r"
      using 2(3) by auto
    show ?thesis
    proof (cases c rule: html_char_cases)
      case (html a b)
      then show ?thesis using ih unfolding body by (simp add: skip_escapes(2) del: skip_string_body.simps)
    next
      case other
      show ?thesis unfolding body other using skip_quoted_char [of c "html_body s @ CHR 0x22 # r"] ih by simp
    qed
  qed
qed simp

lemma push_separator:
  "push_code 8232 out = out @ [CHR 0xE2, CHR 0x80, CHR 0xA8]" "push_code 8233 out = out @ [CHR 0xE2, CHR 0x80, CHR 0xA9]"
  "parse_hex_u16 ''2028'' = 8232" "parse_hex_u16 ''2029'' = 8233"
  "\<not> high_surrogate 8232" "\<not> low_surrogate 8232" "\<not> high_surrogate 8233" "\<not> low_surrogate 8233"
proof -
  have "utf8_encode 8232 = [CHR 0xE2, CHR 0x80, CHR 0xA8]" "utf8_encode 8233 = [CHR 0xE2, CHR 0x80, CHR 0xA9]"
    using char_of_char [of "CHR 0xE2", where 'a = nat] char_of_char [of "CHR 0x80", where 'a = nat]
      char_of_char [of "CHR 0xA8", where 'a = nat] char_of_char [of "CHR 0xA9", where 'a = nat]
    by (simp_all add: utf8_encode_def)
  then show "push_code 8232 out = out @ [CHR 0xE2, CHR 0x80, CHR 0xA8]"
    "push_code 8233 out = out @ [CHR 0xE2, CHR 0x80, CHR 0xA9]"
    by (simp_all add: push_code_def scalar_value_def)
  show "parse_hex_u16 ''2028'' = 8232" "parse_hex_u16 ''2029'' = 8233"
    by (simp_all add: parse_hex_u16_def hex_value_def is_digit_def byte_def)
qed (simp_all add: high_surrogate_def low_surrogate_def)

lemma separator_split:
  assumes "utf8_valid (a @ CHR 0xE2 # CHR 0x80 # d # b)" "d = CHR 0xA8 \<or> d = CHR 0xA9"
  shows "utf8_valid a" "utf8_valid b"
proof -
  have "\<not> continuation CHR 0xE2" by (simp add: continuation_def byte_def)
  then have cut: "utf8_valid a" "utf8_valid (CHR 0xE2 # CHR 0x80 # d # b)"
    using assms(1) utf8_valid_start_split by blast+
  have "utf8_step (CHR 0xE2 # CHR 0x80 # d # b) = 3"
    using assms(2) by (auto simp: utf8_step_def continuation_def second_of_three_def byte_def)
  then show "utf8_valid a" "utf8_valid b" using cut utf8_valid_step [of "CHR 0xE2 # CHR 0x80 # d # b"] by simp_all
qed

lemma decode_html_body:
  "utf8_valid (chunk @ s) \<Longrightarrow> decode_loop out chunk (html_body s @ [CHR 0x22]) = Inr (out @ chunk @ s)"
proof (induction s arbitrary: out chunk rule: html_body.induct)
  case (2 c s)
  show ?case
  proof (cases "starts_with (c # s) [CHR 0xE2, CHR 0x80, CHR 0xA8] \<or> starts_with (c # s) [CHR 0xE2, CHR 0x80, CHR 0xA9]")
    case True
    then obtain d u where s: "c = CHR 0xE2" "s = CHR 0x80 # d # u" "d = CHR 0xA8 \<or> d = CHR 0xA9"
      by (cases s; cases "tl s") auto
    have valid: "utf8_valid chunk" "utf8_valid ([] @ u)"
      using separator_split [of chunk d u] 2(4) s by auto
    have ih: "decode_loop o' [] (html_body u @ [CHR 0x22]) = Inr (o' @ [] @ u)" for o'
      using s(3)
    proof
      assume d: "d = CHR 0xA8"
      show ?thesis using 2(1) [of "[]" o'] valid(2) s d by simp
    next
      assume d: "d = CHR 0xA9"
      show ?thesis using 2(2) [of "[]" o'] valid(2) s d by simp
    qed
    show ?thesis
      using s(3)
    proof
      assume d: "d = CHR 0xA8"
      show ?thesis using ih decode_code [OF push_separator(3,5,6) valid(1)] s d by (simp add: push_separator)
    next
      assume d: "d = CHR 0xA9"
      show ?thesis using ih decode_code [OF push_separator(4,7,8) valid(1)] s d by (simp add: push_separator)
    qed
  next
    case False
    then have body: "html_body (c # s) = html_char c @ html_body s"
      and ih: "\<And>o' k. utf8_valid (k @ s) \<Longrightarrow> decode_loop o' k (html_body s @ [CHR 0x22]) = Inr (o' @ k @ s)"
      using 2(3) by auto
    show ?thesis
    proof (cases c rule: html_char_cases)
      case (html a b)
      have valid: "utf8_valid chunk" "utf8_valid ([] @ s)" using 2(4) utf8_valid_ascii_split [OF html(4)] by auto
      have "push_code (byte c) o' = o' @ [c]" "\<not> high_surrogate (byte c)" "\<not> low_surrogate (byte c)" for o'
        using html(4) by (simp_all add: push_code_def scalar_value_def utf8_encode_def high_surrogate_def low_surrogate_def byte_def)
      then show ?thesis using decode_code [OF html(3) _ _ valid(1)] ih [OF valid(2)] unfolding body html(1) by simp
    next
      case other
      obtain chunk' out' where "decode_loop out chunk (quoted_char c @ html_body s @ [CHR 0x22])
            = decode_loop out' chunk' (html_body s @ [CHR 0x22])"
        "utf8_valid (chunk' @ s)" "out' @ chunk' = out @ chunk @ [c]"
        by (rule decode_quoted_char [OF 2(4), where t = "html_body s @ [CHR 0x22]" and out = out]) simp
      then show ?thesis unfolding body other using ih [of chunk' out'] by simp
    qed
  qed
qed (simp add: decode_end)

lemma plain_html: "plain_string s \<Longrightarrow> html_body s = s"
proof (induction s rule: html_body.induct)
  case (2 c s)
  then have "c \<noteq> CHR 0xE2" "html_char c = [c]" "plain_string s"
    by (auto simp: plain_string_def html_char_def byte_def)
  then show ?case using 2(3) by simp
qed simp

text \<open>The escaped spelling is one that the repository's decoder reads back.\<close>

interpretation html: string_spelling html_quote
proof
  show "\<exists>u. html_quote s = CHR 0x22 # u" for s by (simp add: html_quote_body)
  show "parse_string (html_quote s @ r) = Inr (s, r)" if "utf8_valid s" for s r
  proof -
    have "take (length (html_quote s @ r) - length r) (html_quote s @ r) = html_quote s" by simp
    moreover have "skip_string (html_quote s @ r) = Inr r"
      by (simp add: skip_string_def html_quote_body expect_def peek_is_def skip_html_body)
    moreover have "decode_go_json_string (html_quote s) = Inr s"
      using decode_html_body [of "[]" s "[]"] that by (simp add: decode_go_json_string_def html_quote_body)
    ultimately show ?thesis by (simp add: parse_string_def del: take_append)
  qed
  show "plain_string s \<Longrightarrow> html_quote s = CHR 0x22 # s @ [CHR 0x22]" for s by (simp add: html_quote_body plain_html)
qed

section \<open>Escaped documents\<close>

text \<open>Numbers are written without any character that is escaped.\<close>

definition plain_numbers :: "('n \<Rightarrow> string) \<Rightarrow> bool" where
  "plain_numbers pn \<longleftrightarrow> (\<forall>n. list_all untouched (pn n))"

lemma escape_compact:
  assumes "plain_numbers pn"
  shows "escape_go_json_for_html (json_text pn v @ t) = json_text_with html_quote pn v @ escape_go_json_for_html t"
proof (induction v arbitrary: t)
  case (Number n)
  then show ?case using assms by (simp add: plain_numbers_def escape_untouched)
next
  case (String s)
  show ?case by (simp add: escape_quote)
next
  case (Array vs)
  have "escape_go_json_for_html (concat (map (\<lambda>w. CHR '','' # json_text pn w) ws) @ CHR '']'' # t) =
      concat (map (\<lambda>w. CHR '','' # json_text_with html_quote pn w) ws) @ CHR '']'' # escape_go_json_for_html t"
    if "set ws \<subseteq> set vs" for ws
    using that Array by (induction ws) simp_all
  from this [of "tl vs"] show ?case using Array by (cases vs) auto
next
  case (Object es)
  have vals: "escape_go_json_for_html (json_text pn (snd e) @ t) =
      json_text_with html_quote pn (snd e) @ escape_go_json_for_html t" if "e \<in> set es" for e t
    using Object that by (cases e) (auto intro: snds.intros)
  have "escape_go_json_for_html (concat (map (\<lambda>e. CHR '','' # quote (fst e) @ CHR '':'' # json_text pn (snd e)) xs) @ CHR ''}'' # t) =
      concat (map (\<lambda>e. CHR '','' # html_quote (fst e) @ CHR '':'' # json_text_with html_quote pn (snd e)) xs) @
        CHR ''}'' # escape_go_json_for_html t"
    if "set xs \<subseteq> set es" for xs
    using that by (induction xs) (simp_all add: escape_quote vals)
  from this [of "tl es"] show ?case using vals by (cases es) (auto simp: escape_quote)
qed simp_all

text \<open>
  The indented text of \<open>serde_json::to_string_pretty\<close>, by two blanks a level.
\<close>

definition indent :: "nat \<Rightarrow> string" where
  "indent k = CHR 0x0A # replicate (2 * k) CHR '' ''"

fun json_pretty :: "(string \<Rightarrow> string) \<Rightarrow> ('n \<Rightarrow> string) \<Rightarrow> nat \<Rightarrow> 'n Value \<Rightarrow> string" where
  "json_pretty q pn k (Array []) = ''[]''"
| "json_pretty q pn k (Array (v # vs)) =
     CHR ''['' # indent (k + 1) @ json_pretty q pn (k + 1) v @
     concat (map (\<lambda>w. CHR '','' # indent (k + 1) @ json_pretty q pn (k + 1) w) vs) @ indent k @ '']''"
| "json_pretty q pn k (Object []) = ''{}''"
| "json_pretty q pn k (Object (e # es)) =
     CHR ''{'' # indent (k + 1) @ q (fst e) @ '': '' @ json_pretty q pn (k + 1) (snd e) @
     concat (map (\<lambda>e. CHR '','' # indent (k + 1) @ q (fst e) @ '': '' @ json_pretty q pn (k + 1) (snd e)) es) @
     indent k @ ''}''"
| "json_pretty q pn k v = json_text_with q pn v"

lemma escape_indent: "escape_go_json_for_html (indent k @ t) = indent k @ escape_go_json_for_html t"
  by (rule escape_untouched) (auto simp: indent_def untouched_def list_all_iff)

lemma escape_pretty:
  assumes "plain_numbers pn"
  shows "escape_go_json_for_html (json_pretty quote pn k v @ t) = json_pretty html_quote pn k v @ escape_go_json_for_html t"
proof (induction v arbitrary: k t)
  case (Array vs)
  have "escape_go_json_for_html (concat (map (\<lambda>w. CHR '','' # indent k @ json_pretty quote pn k w) ws) @ t) =
      concat (map (\<lambda>w. CHR '','' # indent k @ json_pretty html_quote pn k w) ws) @ escape_go_json_for_html t"
    if "set ws \<subseteq> set vs" for ws k t
    using that Array by (induction ws) (simp_all add: escape_indent)
  from this [of "tl vs" "Suc k" "indent k @ CHR '']'' # t"] show ?case
    using Array by (cases vs) (auto simp: escape_indent)
next
  case (Object es)
  have vals: "escape_go_json_for_html (json_pretty quote pn k (snd e) @ t) =
      json_pretty html_quote pn k (snd e) @ escape_go_json_for_html t" if "e \<in> set es" for e k t
    using Object that by (cases e) (auto intro: snds.intros)
  have "escape_go_json_for_html (concat (map (\<lambda>e. CHR '','' # indent k @ quote (fst e) @ '': '' @ json_pretty quote pn k (snd e)) xs) @ t) =
      concat (map (\<lambda>e. CHR '','' # indent k @ html_quote (fst e) @ '': '' @ json_pretty html_quote pn k (snd e)) xs) @
        escape_go_json_for_html t"
    if "set xs \<subseteq> set es" for xs k t
    using that by (induction xs) (simp_all add: escape_quote escape_indent vals)
  from this [of "tl es" "Suc k" "indent k @ CHR ''}'' # t"] show ?case
    using vals by (cases es) (auto simp: escape_quote escape_indent)
next
  case (Bool b)
  then show ?case using escape_compact [OF assms, of "Bool b" t] by simp
next
  case (Number n)
  then show ?case using escape_compact [OF assms, of "Number n" t] by simp
next
  case (String s)
  then show ?case using escape_compact [OF assms, of "String s" t] by simp
qed simp

section \<open>What JSON lets a string be spelled as\<close>

text \<open>
  A character stands for itself, unless it is a control character, a quotation mark or a backslash; it can
  be escaped by a letter, or by the four hexadecimal digits of its code. Both spellings that the code
  writes are of this kind, whatever the string.
\<close>

inductive spelled :: "string \<Rightarrow> string \<Rightarrow> bool" where
  nothing: "spelled [] []"
| itself: "32 \<le> byte c \<Longrightarrow> c \<noteq> CHR 0x22 \<Longrightarrow> c \<noteq> CHR 0x5C \<Longrightarrow> spelled t s \<Longrightarrow> spelled (c # t) (c # s)"
| letter: "short_escape c = Some e \<Longrightarrow> spelled t s \<Longrightarrow> spelled (CHR 0x5C # e # t) (c # s)"
| code: "length ds = 4 \<Longrightarrow> list_all hexdigit ds \<Longrightarrow> scalar_value (parse_hex_u16 ds) \<Longrightarrow> spelled t s \<Longrightarrow>
    spelled (CHR 0x5C # CHR ''u'' # ds @ t) (utf8_encode (parse_hex_u16 ds) @ s)"

definition json_spelling :: "(string \<Rightarrow> string) \<Rightarrow> bool" where
  "json_spelling q \<longleftrightarrow> (\<forall>s. \<exists>t. q s = CHR 0x22 # t @ [CHR 0x22] \<and> spelled t s)"

lemma spelled_ascii:
  assumes "list_all hexdigit [a, b, x, y]" "parse_hex_u16 [a, b, x, y] = byte c" "byte c < 128" "spelled t s"
  shows "spelled (CHR 0x5C # CHR ''u'' # a # b # x # y # t) (c # s)"
proof -
  have "scalar_value (byte c)" "utf8_encode (byte c) = [c]"
    using assms(3) by (simp_all add: scalar_value_def utf8_encode_def byte_def)
  then show ?thesis using spelled.code [of "[a, b, x, y]" t s] assms by simp
qed

lemma spelled_quoted: "spelled t s \<Longrightarrow> spelled (quoted_char c @ t) (c # s)"
proof (cases c rule: quoted_char_cases)
  case (escape e)
  moreover assume "spelled t s"
  ultimately show ?thesis by (simp add: spelled.letter)
next
  case code
  moreover assume "spelled t s"
  ultimately show ?thesis
    using spelled_ascii [of "CHR ''0''" "CHR ''0''" "hex_digit (byte c div 16)" "hex_digit (byte c mod 16)" c t s]
      control_digits [of "byte c"] control_code [of "byte c"] by simp
next
  case plain
  moreover assume "spelled t s"
  ultimately show ?thesis using short_escape_None [of c] by (simp add: spelled.itself)
qed

lemma quote_spelling: "json_spelling quote"
proof -
  have "spelled (concat (map quoted_char s)) s" for s
    by (induction s) (simp_all add: spelled.nothing spelled_quoted)
  then show ?thesis by (auto simp: json_spelling_def quote_def)
qed

lemma spelled_separators:
  assumes "spelled t s"
  shows "spelled (CHR 0x5C # ''u2028'' @ t) (CHR 0xE2 # CHR 0x80 # CHR 0xA8 # s)"
    "spelled (CHR 0x5C # ''u2029'' @ t) (CHR 0xE2 # CHR 0x80 # CHR 0xA9 # s)"
proof -
  have "scalar_value 8232" "scalar_value 8233" by (simp_all add: scalar_value_def)
  moreover from this have "utf8_encode 8232 = [CHR 0xE2, CHR 0x80, CHR 0xA8]" "utf8_encode 8233 = [CHR 0xE2, CHR 0x80, CHR 0xA9]"
    using push_separator(1,2) [of "[]"] by (simp_all add: push_code_def)
  moreover have "list_all hexdigit ''2028''" "list_all hexdigit ''2029''"
    by (simp_all add: hexdigit_def is_digit_def byte_def)
  ultimately show "spelled (CHR 0x5C # ''u2028'' @ t) (CHR 0xE2 # CHR 0x80 # CHR 0xA8 # s)"
    "spelled (CHR 0x5C # ''u2029'' @ t) (CHR 0xE2 # CHR 0x80 # CHR 0xA9 # s)"
    using spelled.code [of "''2028''" t s] spelled.code [of "''2029''" t s] assms by (simp_all add: push_separator)
qed

lemma spelled_html: "spelled (html_body s) s"
proof (induction s rule: html_body.induct)
  case (2 c s)
  show ?case
  proof (cases "starts_with (c # s) [CHR 0xE2, CHR 0x80, CHR 0xA8] \<or> starts_with (c # s) [CHR 0xE2, CHR 0x80, CHR 0xA9]")
    case True
    then obtain d u where s: "c = CHR 0xE2" "s = CHR 0x80 # d # u" "d = CHR 0xA8 \<or> d = CHR 0xA9"
      by (cases s; cases "tl s") auto
    have "spelled (html_body u) u" using 2(1,2) s by auto
    then show ?thesis using s spelled_separators [of "html_body u" u] by auto
  next
    case False
    then have body: "html_body (c # s) = html_char c @ html_body s" and ih: "spelled (html_body s) s" using 2(3) by auto
    show ?thesis
    proof (cases c rule: html_char_cases)
      case (html a b)
      then show ?thesis using spelled_ascii [OF html(2-4) ih] unfolding body by simp
    next
      case other
      then show ?thesis using spelled_quoted [OF ih] unfolding body by simp
    qed
  qed
qed (simp add: spelled.nothing)

lemma html_spelling: "json_spelling html_quote"
  using spelled_html by (auto simp: json_spelling_def html_quote_body)

end
