(* ===== verification/Go_Observed.thy ===== *)
theory Go_Observed
  imports Go_Events Event_Log Json_Html
begin

text \<open>
  What the Go-compatible readers make of printed JSON: the tokenizers return the members and
  elements in source order with their exact bytes, and a written event is observed
  in its current form, whichever of serde's and the escaped spelling its strings have.
\<close>

section \<open>What is observed of a document\<close>

text \<open>The text of the members of an object, up to and with its closing brace.\<close>

fun members_text :: "(string \<Rightarrow> string) \<Rightarrow> ('n \<Rightarrow> string) \<Rightarrow> (string \<times> 'n Value) list \<Rightarrow> string \<Rightarrow> string" where
  "members_text q pn [] r = CHR ''}'' # r"
| "members_text q pn [e] r = q (fst e) @ CHR '':'' # json_text_with q pn (snd e) @ CHR ''}'' # r"
| "members_text q pn (e # e' # es) r =
     q (fst e) @ CHR '':'' # json_text_with q pn (snd e) @ CHR '','' # members_text q pn (e' # es) r"

fun elements_text :: "(string \<Rightarrow> string) \<Rightarrow> ('n \<Rightarrow> string) \<Rightarrow> 'n Value list \<Rightarrow> string \<Rightarrow> string" where
  "elements_text q pn [] r = CHR '']'' # r"
| "elements_text q pn [v] r = json_text_with q pn v @ CHR '']'' # r"
| "elements_text q pn (v # w # vs) r = json_text_with q pn v @ CHR '','' # elements_text q pn (w # vs) r"

text \<open>The values of a document whose root is a container nest one level less.\<close>

definition inner_ok :: "'n Value \<Rightarrow> bool" where
  "inner_ok v \<longleftrightarrow> value_ok (GO_JSON_MAX_NESTING_DEPTH - 1) v"

text \<open>What a member with a fitting value does to the state; \<open>sq\<close> reads a sequence number.\<close>

definition observe ::
    "('n \<Rightarrow> int option) \<Rightarrow> string \<times> 'n Value \<Rightarrow> 'n GoObservedState \<Rightarrow> 'n GoObservedState" where
  "observe sq e st =
     (case (go_observed_field (fst e), snd e) of
        (None, v) \<Rightarrow> st\<lparr>gs_extra := bt_insert (fst e) v (gs_extra st)\<rparr>
      | (Some FId, String s) \<Rightarrow> st\<lparr>gs_id := s\<rparr>
      | (Some FType, String s) \<Rightarrow> st\<lparr>gs_event_type := s\<rparr>
      | (Some FTimestamp, String s) \<Rightarrow> st\<lparr>gs_timestamp := the (normalize_go_time_unmarshal_rfc3339 s)\<rparr>
      | (Some FSequence, Number n) \<Rightarrow> st\<lparr>gs_sequence := the (sq n)\<rparr>
      | (Some FMissionId, String s) \<Rightarrow> st\<lparr>gs_mission_id := s\<rparr>
      | (Some FPhaseId, String s) \<Rightarrow> st\<lparr>gs_phase_id := s\<rparr>
      | (Some FWorkerId, String s) \<Rightarrow> st\<lparr>gs_worker_id := s\<rparr>
      | (Some FData, Object d) \<Rightarrow>
          st\<lparr>gs_data := Some (case gs_data st of Some c \<Rightarrow> event_map_extend d c | None \<Rightarrow> event_map_from_iter d)\<rparr>
      | _ \<Rightarrow> st)"

fun observable :: "('n \<Rightarrow> int option) \<Rightarrow> GoObservedField option \<Rightarrow> 'n Value \<Rightarrow> bool" where
  "observable sq None v = True"
| "observable sq (Some FSequence) v = (case v of Number n \<Rightarrow> sq n \<noteq> None | _ \<Rightarrow> False)"
| "observable sq (Some FData) v = (case v of Object d \<Rightarrow> True | _ \<Rightarrow> False)"
| "observable sq (Some FTimestamp) v =
     (case v of String s \<Rightarrow> plain_string s \<and> normalize_go_time_unmarshal_rfc3339 s \<noteq> None | _ \<Rightarrow> False)"
| "observable sq (Some _) v = (case v of String s \<Rightarrow> True | _ \<Rightarrow> False)"

text \<open>
  The records whose text is within what the readers accept: strings are UTF-8, nesting is within the
  bound, and no extra key is one of the envelope's up to case folding.
\<close>

definition record_observable :: "'n EventRecord \<Rightarrow> bool" where
  "record_observable r \<longleftrightarrow>
     utf8_valid (er_id r) \<and> utf8_valid (er_event_type r) \<and> utf8_valid (er_timestamp r) \<and>
     utf8_valid (er_mission_id r) \<and>
     pred_option utf8_valid (er_phase_id r) \<and> pred_option utf8_valid (er_worker_id r) \<and>
     pred_option (\<lambda>d. inner_ok (Object d)) (er_data r) \<and>
     list_all (\<lambda>e. utf8_valid (fst e) \<and> inner_ok (snd e) \<and>
         (event_reserved (fst e) \<or> go_observed_field (fst e) = None)) (er_extra r)"

lemma skip_whitespace_Cons: "\<not> json_space c \<Longrightarrow> skip_whitespace (c # s) = c # s"
  by (simp add: skip_whitespace_def)

lemma delimiters_no_space [simp]:
  "skip_whitespace (CHR '','' # s) = CHR '','' # s" "skip_whitespace (CHR ''}'' # s) = CHR ''}'' # s"
  "skip_whitespace (CHR '']'' # s) = CHR '']'' # s" "skip_whitespace (CHR ''{'' # s) = CHR ''{'' # s"
  "skip_whitespace (CHR ''['' # s) = CHR ''['' # s" "skip_whitespace [] = []"
  by (simp_all add: skip_whitespace_def json_space_def)

lemma nullable_sequence_text:
  assumes numbers: "numbers_read_back num pn" and "parse_i64 (pn n) = Some i" "stops r"
  shows "parse_nullable_sequence d (pn n @ r) = Inr (i, r)"
proof -
  have range: "parse_number_range (pn n) = Inr []" using numbers by (simp add: numbers_read_back_def)
  obtain c u where c: "pn n = c # u" "c = CHR ''-'' \<or> is_digit c" using number_text_starts [OF range] by blast
  have "consume_null (pn n @ r) = Inr (False, pn n @ r)"
    using c digit_not [of c] by (auto simp: consume_null_def)
  moreover have "parse_number_range (pn n @ r) = Inr r"
    using parse_number_range_append [OF range assms(3)] by simp
  moreover have "take (length (pn n @ r) - length r) (pn n @ r) = pn n" by simp
  ultimately show ?thesis
    unfolding parse_nullable_sequence_def Let_def and_then_def by (simp add: assms(2))
qed

lemma value_ok_mono: "value_ok k v \<Longrightarrow> k \<le> k' \<Longrightarrow> value_ok k' v"
proof (induction k v arbitrary: k' rule: value_ok.induct)
  case (1 k vs)
  then show ?case using diff_le_mono by fastforce
next
  case (2 k es)
  then show ?case using diff_le_mono by fastforce
qed simp_all

lemma envelope_fields [simp]:
  "go_observed_field ''id'' = Some FId" "go_observed_field ''type'' = Some FType"
  "go_observed_field ''timestamp'' = Some FTimestamp" "go_observed_field ''sequence'' = Some FSequence"
  "go_observed_field ''mission_id'' = Some FMissionId" "go_observed_field ''phase_id'' = Some FPhaseId"
  "go_observed_field ''worker_id'' = Some FWorkerId" "go_observed_field ''data'' = Some FData"
  by (simp_all add: go_observed_field_def GO_OBSERVED_FIELDS_def)

lemma observe_extras:
  "\<forall>e\<in>set es. go_observed_field (fst e) = None \<Longrightarrow>
     fold (observe sq) es st = st\<lparr>gs_extra := fold (\<lambda>(k, v) m. bt_insert k v m) es (gs_extra st)\<rparr>"
proof (induction es arbitrary: st)
  case (Cons e es)
  then have "observe sq e st = st\<lparr>gs_extra := bt_insert (fst e) (snd e) (gs_extra st)\<rparr>"
    by (simp add: observe_def)
  then show ?case using Cons by (simp add: split_beta)
qed simp

lemma envelope_keys_valid [simp]:
  "utf8_valid ''id''" "utf8_valid ''type''" "utf8_valid ''timestamp''" "utf8_valid ''sequence''"
  "utf8_valid ''mission_id''" "utf8_valid ''phase_id''" "utf8_valid ''worker_id''" "utf8_valid ''data''"
  by (simp_all add: utf8_ascii_head byte_def)

lemma entries_ball:
  "(\<forall>e\<in>set (optional_entry key v). P e) \<longleftrightarrow> pred_option (\<lambda>s. s \<noteq> [] \<longrightarrow> P (key, String s)) v"
  "(\<forall>e\<in>set (data_entry d). P e) \<longleftrightarrow> pred_option (\<lambda>d. d \<noteq> [] \<longrightarrow> P (''data'', Object d)) d"
  by (cases v; simp add: optional_entry_def) (cases d; simp add: data_entry_def)

lemma observe_optional:
  "fold (observe sq) (optional_entry ''phase_id'' v) st
     = st\<lparr>gs_phase_id := (case drop_empty v of Some s \<Rightarrow> s | None \<Rightarrow> gs_phase_id st)\<rparr>"
  "fold (observe sq) (optional_entry ''worker_id'' v) st
     = st\<lparr>gs_worker_id := (case drop_empty v of Some s \<Rightarrow> s | None \<Rightarrow> gs_worker_id st)\<rparr>"
  by (auto simp: optional_entry_def drop_empty_def observe_def split: option.split list.split)

lemma observe_data:
  "gs_data st = None \<Longrightarrow> \<forall>d\<in>set_option v. event_map_from_iter d = d \<Longrightarrow>
     fold (observe sq) (data_entry v) st = st\<lparr>gs_data := drop_empty v\<rparr>"
  by (cases v) (auto simp: data_entry_def drop_empty_def observe_def split: list.split)

section \<open>Whatever the spelling of strings\<close>

context string_spelling
begin

lemma printed_value_parses:
  assumes "numbers_read_back num pn" "value_ok (GO_JSON_MAX_NESTING_DEPTH - d) v" "stops r"
  shows "parse_value num d (json_text_with q pn v @ r) = Inr (v, r)"
  using reads_backD [OF value_reads_back [OF assms(1)], of d "[]" v r] assms(2,3)
  by (simp add: parse_value_def parse_unwind.simps)

lemma printed_value_skips:
  assumes "numbers_read_back num pn" "value_ok (GO_JSON_MAX_NESTING_DEPTH - d) v" "stops r"
  shows "skip_value d (json_text_with q pn v @ r) = Inr r"
  using printed_value_parses [OF assms] parse_skip(1) [of num d "[]" "json_text_with q pn v @ r"]
  by (auto simp: parse_value_def skip_value_def)

lemma object_text: "json_text_with q pn (Object es) @ r = CHR ''{'' # members_text q pn es r"
proof (cases es)
  case (Cons e es')
  have "q (fst e) @ CHR '':'' # json_text_with q pn (snd e) @
      concat (map (\<lambda>e. CHR '','' # q (fst e) @ CHR '':'' # json_text_with q pn (snd e)) es') @ CHR ''}'' # r
      = members_text q pn (e # es') r"
    by (induction es' arbitrary: e) simp_all
  then show ?thesis by (simp add: Cons)
qed simp

lemma array_text: "json_text_with q pn (Array vs) @ r = CHR ''['' # elements_text q pn vs r"
proof (cases vs)
  case (Cons v vs')
  have "json_text_with q pn v @ concat (map (\<lambda>w. CHR '','' # json_text_with q pn w) vs') @ CHR '']'' # r
      = elements_text q pn (v # vs') r"
    by (induction vs' arbitrary: v) simp_all
  then show ?thesis by (simp add: Cons)
qed simp

lemma members_text_no_space:
  "es \<noteq> [] \<Longrightarrow> skip_whitespace (members_text q pn es r) = members_text q pn es r"
  "es \<noteq> [] \<Longrightarrow> \<not> peek_is CHR ''}'' (members_text q pn es r)"
  by (induction es rule: induct_list012) (simp_all add: quote_no_space peek_quote)

lemma elements_text_no_space:
  assumes "numbers_read_back num pn" "vs \<noteq> []"
  shows "skip_whitespace (elements_text q pn vs r) = elements_text q pn vs r"
    "\<not> peek_is CHR '']'' (elements_text q pn vs r)"
proof -
  obtain v vs' where vs: "vs = v # vs'" using assms(2) by (cases vs) auto
  show "skip_whitespace (elements_text q pn vs r) = elements_text q pn vs r"
    "\<not> peek_is CHR '']'' (elements_text q pn vs r)"
    by (cases vs'; simp add: vs json_text_no_space [OF assms(1)])+
qed

lemma object_members_text:
  assumes numbers: "numbers_read_back num pn"
    and "\<forall>e\<in>set es. utf8_valid (fst e) \<and> inner_ok (snd e)" "es \<noteq> []"
  shows "object_members (members_text q pn es []) = Inr (map (\<lambda>e. (fst e, json_text_with q pn (snd e))) es, [])"
  using assms(2,3)
proof (induction es)
  case (Cons e es)
  then have key: "utf8_valid (fst e)" and ok: "value_ok (GO_JSON_MAX_NESTING_DEPTH - 1) (snd e)"
    by (simp_all add: inner_ok_def)
  have skip: "skip_value 1 (json_text_with q pn (snd e) @ r) = Inr r" if "stops r" for r
    by (rule printed_value_skips [OF numbers ok that])
  show ?case
    using Cons
    by (cases es) (simp_all add: object_members.simps [of "q (fst e) @ x" for x] parse_object_key_quote [OF key]
        json_text_no_space [OF numbers] skip members_text_no_space and_then_def finish_def
        del: One_nat_def)
qed simp

lemma array_elements_text:
  assumes numbers: "numbers_read_back num pn" and "\<forall>v\<in>set vs. inner_ok v" "vs \<noteq> []"
  shows "array_elements (elements_text q pn vs []) = Inr (map (json_text_with q pn) vs, [])"
  using assms(2,3)
proof (induction vs)
  case (Cons v vs)
  then have ok: "value_ok (GO_JSON_MAX_NESTING_DEPTH - 1) v" by (simp add: inner_ok_def)
  have skip: "skip_value 1 (json_text_with q pn v @ r) = Inr r" if "stops r" for r
    by (rule printed_value_skips [OF numbers ok that])
  show ?case
    using Cons
    by (cases vs) (simp_all add: array_elements.simps [of "json_text_with q pn v @ x" for x]
        elements_text_no_space [OF numbers] skip and_then_def finish_def del: One_nat_def)
qed simp

lemma tokenized_object:
  assumes numbers: "numbers_read_back num pn" and "\<forall>e\<in>set es. utf8_valid (fst e) \<and> inner_ok (snd e)"
  shows "decode_go_json_object_members (json_text_with q pn (Object es))
    = Inr (Some (map (\<lambda>e. (fst e, json_text_with q pn (snd e))) es))"
proof -
  have doc: "json_text_with q pn (Object es) = CHR ''{'' # members_text q pn es []"
    using object_text [of pn es "[]"] by simp
  show ?thesis
    using object_members_text [OF numbers assms(2)]
    by (cases "es = []")
      (simp_all add: decode_go_json_object_members_def doc consume_null_def and_then_def finish_def
        members_text_no_space del: members_text.simps(2,3))
qed

lemma tokenized_array:
  assumes numbers: "numbers_read_back num pn" and "\<forall>v\<in>set vs. inner_ok v"
  shows "decode_go_json_array_elements (json_text_with q pn (Array vs)) = Inr (Some (map (json_text_with q pn) vs))"
proof -
  have doc: "json_text_with q pn (Array vs) = CHR ''['' # elements_text q pn vs []"
    using array_text [of pn vs "[]"] by simp
  show ?thesis
    using array_elements_text [OF numbers assms(2)]
    by (cases "vs = []")
      (simp_all add: decode_go_json_array_elements_def doc consume_null_def and_then_def finish_def
        elements_text_no_space [OF numbers] del: elements_text.simps(2,3))
qed

lemma consume_null_quote: "consume_null (q s @ r) = Inr (False, q s @ r)"
  by (simp add: consume_null_def peek_quote)

lemma nullable_string_quote:
  "utf8_valid s \<Longrightarrow> parse_nullable_string d f (q s @ r) = Inr (s, r)"
  by (simp add: parse_nullable_string_def consume_null_quote and_then_def peek_quote reads)

lemma nullable_timestamp_quote:
  assumes "plain_string s" "normalize_go_time_unmarshal_rfc3339 s = Some t"
  shows "parse_nullable_timestamp d (q s @ r) = Inr (t, r)"
proof -
  have "take (length (q s @ r) - length r) (q s @ r) = CHR 0x22 # s @ [CHR 0x22]"
    using bare [OF assms(1)] by simp
  then have raw: "butlast (tl (take (length (q s @ r) - length r) (q s @ r))) = s" by simp
  show ?thesis
    unfolding parse_nullable_timestamp_def consume_null_quote and_then_def sum.case prod.case skips [OF plain_valid [OF assms(1)]] Let_def raw
    by (simp add: peek_quote assms(2))
qed

lemma nullable_data_text:
  assumes numbers: "numbers_read_back num pn" and "inner_ok (Object d)" "stops r"
  shows "parse_nullable_data num dest (json_text_with q pn (Object d) @ r)
    = Inr (Some (case dest of Some c \<Rightarrow> event_map_extend d c | None \<Rightarrow> event_map_from_iter d), r)"
proof -
  have parse: "parse_value num 1 (json_text_with q pn (Object d) @ r) = Inr (Object d, r)"
    using printed_value_parses [OF numbers _ assms(3)] assms(2) unfolding inner_ok_def by blast
  have "consume_null (json_text_with q pn (Object d) @ r) = Inr (False, json_text_with q pn (Object d) @ r)"
    "peek_is CHR ''{'' (json_text_with q pn (Object d) @ r)"
    by (simp_all add: object_text consume_null_def)
  then show ?thesis
    unfolding parse_nullable_data_def and_then_def by (simp only: sum.case prod.case if_False not_True_eq_False parse Value.case)
qed

lemma retained_extra:
  assumes numbers: "numbers_read_back num pn" and "inner_ok v"
  shows "retain_extra_value num key (json_text_with q pn v) st = st\<lparr>gs_extra := bt_insert key v (gs_extra st)\<rparr>"
proof -
  have "value_ok GO_JSON_MAX_NESTING_DEPTH v"
    using value_ok_mono [OF assms(2) [unfolded inner_ok_def]] by simp
  then have "parse_value num 0 (json_text_with q pn v @ []) = Inr (v, [])"
    by (intro printed_value_parses [OF numbers]) (simp_all add: stops_def)
  then show ?thesis by (simp add: retain_extra_value_def finish_def event_map_insert_def)
qed

lemma event_member_observed:
  fixes pn :: "'n \<Rightarrow> string"
  defines "sq \<equiv> \<lambda>n. parse_i64 (pn n)"
  assumes numbers: "numbers_read_back num pn" and ok: "inner_ok (snd e)"
    and fits: "observable sq (go_observed_field (fst e)) (snd e)" and "stops r"
  shows "event_member num True (fst e) st (json_text_with q pn (snd e) @ r) = Inr (observe sq e st, r)"
proof (cases "go_observed_field (fst e)")
  case None
  have "skip_value 1 (json_text_with q pn (snd e) @ r) = Inr r"
    using printed_value_skips [OF numbers _ assms(5)] ok unfolding inner_ok_def by blast
  moreover have "take (length (json_text_with q pn (snd e) @ r) - length r) (json_text_with q pn (snd e) @ r) = json_text_with q pn (snd e)"
    by simp
  ultimately show ?thesis
    unfolding event_member_def None option.case and_then_def
    by (simp add: observe_def None retained_extra [OF numbers ok])
next
  case (Some f)
  consider (str) s where "snd e = String s" "f \<noteq> FSequence" "f \<noteq> FData"
      "f = FTimestamp \<Longrightarrow> plain_string s \<and> normalize_go_time_unmarshal_rfc3339 s \<noteq> None"
    | (number) n i where "snd e = Number n" "f = FSequence" "sq n = Some i"
    | (object) d where "snd e = Object d" "f = FData"
    using fits Some by (cases f; cases "snd e") auto
  then show ?thesis
  proof cases
    case (str s)
    have "utf8_valid s" using ok str(1) by (simp add: inner_ok_def)
    show ?thesis
    proof (cases "f = FTimestamp")
      case True
      then obtain t where "plain_string s" "normalize_go_time_unmarshal_rfc3339 s = Some t" using str(4) by blast
      then show ?thesis
        using True by (simp add: event_member_def observe_def Some str(1) nullable_timestamp_quote and_then_def)
    next
      case False
      then show ?thesis
        using str(2,3)
        by (cases f) (simp_all add: event_member_def observe_def Some str(1)
            nullable_string_quote [OF \<open>utf8_valid s\<close>] and_then_def)
    qed
  next
    case (number n i)
    then show ?thesis
      using nullable_sequence_text [OF numbers, of n i r] assms(5)
      by (simp add: event_member_def observe_def Some and_then_def sq_def)
  next
    case (object d)
    then show ?thesis
      using nullable_data_text [OF numbers _ assms(5), of d] ok
      by (simp add: event_member_def observe_def Some and_then_def del: json_text_with.simps)
  qed
qed

lemma event_members_text:
  fixes pn :: "'n \<Rightarrow> string"
  defines "sq \<equiv> \<lambda>n. parse_i64 (pn n)"
  assumes numbers: "numbers_read_back num pn"
    and "\<forall>e\<in>set es. utf8_valid (fst e) \<and> inner_ok (snd e) \<and> observable sq (go_observed_field (fst e)) (snd e)"
    and "es \<noteq> []"
  shows "event_members num True st (members_text q pn es r) = Inr (fold (observe sq) es st, r)"
  using assms(3,4)
proof (induction es arbitrary: st)
  case (Cons e es)
  then have key: "utf8_valid (fst e)" and "inner_ok (snd e)"
    and "observable sq (go_observed_field (fst e)) (snd e)" by simp_all
  then have member: "event_member num True (fst e) st (json_text_with q pn (snd e) @ r) = Inr (observe sq e st, r)"
    if "stops r" for r
    using event_member_observed [OF numbers] that unfolding sq_def by blast
  show ?case
    using Cons
    by (cases es) (simp_all add: event_members.simps [of num True st "q (fst e) @ x" for x]
        parse_object_key_quote [OF key] json_text_no_space [OF numbers] member members_text_no_space)
qed simp

lemma observed_document:
  fixes pn :: "'n \<Rightarrow> string"
  defines "sq \<equiv> \<lambda>n. parse_i64 (pn n)"
  assumes numbers: "numbers_read_back num pn"
    and "\<forall>e\<in>set es. utf8_valid (fst e) \<and> inner_ok (snd e) \<and> observable sq (go_observed_field (fst e)) (snd e)"
  shows "parse_go_observed_event num True (json_text_with q pn (Object es))
    = Inr (into_record (fold (observe sq) es GoObservedState_new))"
proof -
  have doc: "json_text_with q pn (Object es) = CHR ''{'' # members_text q pn es []"
    using object_text [of pn es "[]"] by simp
  have "parse_event_object num True (CHR ''{'' # members_text q pn es [])
      = Inr (fold (observe sq) es GoObservedState_new, [])"
    using event_members_text [OF numbers, of es GoObservedState_new "[]"] assms(3)
    by (cases "es = []")
      (simp_all add: parse_event_object_def expect_def and_then_def members_text_no_space sq_def
        del: members_text.simps(2,3))
  then show ?thesis
    by (simp add: parse_go_observed_event_def doc and_then_def finish_def)
qed

lemma written_event_observed:
  fixes pn :: "'n \<Rightarrow> string"
  assumes numbers: "numbers_read_back num pn" and wf: "record_wf r" and observable: "record_observable r"
    and time: "plain_string (er_timestamp r)" "normalize_go_time_unmarshal_rfc3339 (er_timestamp r) = Some t"
    and number: "parse_i64 (pn (of_i64 (er_sequence r))) = Some (er_sequence r)"
  shows "parse_go_observed_event num True (json_text_with q pn (Object (current_event_entries of_i64 r)))
    = Inr ((current_form r)\<lparr>er_timestamp := t\<rparr>)"
proof -
  let ?sq = "\<lambda>n. parse_i64 (pn n)"
  let ?kept = "filter (\<lambda>e. \<not> event_reserved (fst e)) (er_extra r)"
  let ?envelope = "[(''id'', String (er_id r)), (''type'', String (er_event_type r)),
      (''timestamp'', String (er_timestamp r)), (''sequence'', Number (of_i64 (er_sequence r))),
      (''mission_id'', String (er_mission_id r))]"
  let ?optional = "optional_entry ''phase_id'' (er_phase_id r) @ optional_entry ''worker_id'' (er_worker_id r) @
      data_entry (er_data r)"
  let ?entries = "current_event_entries of_i64 r"
  have kept: "\<forall>e\<in>set ?kept. utf8_valid (fst e) \<and> inner_ok (snd e) \<and> go_observed_field (fst e) = None"
    using observable by (auto simp: record_observable_def list_all_iff)
  have "bt_wf ?kept" using wf by (simp add: record_wf_def bt_wf_filter)
  then have extras: "fold (observe ?sq) ?kept GoObservedState_new = GoObservedState_new\<lparr>gs_extra := ?kept\<rparr>"
    using observe_extras [of ?kept ?sq GoObservedState_new] kept bt_collect_sorted [of ?kept]
    by (simp add: GoObservedState_new_def bt_collect_def)
  have "\<forall>e\<in>set (?envelope @ ?optional). utf8_valid (fst e) \<and> inner_ok (snd e) \<and>
      observable ?sq (go_observed_field (fst e)) (snd e)"
    using observable time number
    unfolding record_observable_def set_append ball_Un entries_ball
    by (cases "er_phase_id r"; cases "er_worker_id r"; cases "er_data r") (simp_all add: inner_ok_def)
  with kept have entries: "\<forall>e\<in>set ?entries. utf8_valid (fst e) \<and> inner_ok (snd e) \<and>
      observable ?sq (go_observed_field (fst e)) (snd e)"
    unfolding current_event_entries_alt by auto
  have data: "\<forall>d\<in>set_option (er_data r). event_map_from_iter d = d" using wf by (simp add: record_wf_def)
  have "fold (observe ?sq) (?envelope @ ?optional) (GoObservedState_new\<lparr>gs_extra := ?kept\<rparr>)
      = \<lparr>gs_id = er_id r, gs_event_type = er_event_type r, gs_timestamp = t, gs_sequence = er_sequence r,
         gs_mission_id = er_mission_id r,
         gs_phase_id = (case er_phase_id r of Some s \<Rightarrow> s | None \<Rightarrow> []),
         gs_worker_id = (case er_worker_id r of Some s \<Rightarrow> s | None \<Rightarrow> []),
         gs_data = drop_empty (er_data r), gs_extra = ?kept\<rparr>"
    using time number
    by (simp add: observe_optional observe_data [OF _ data] observe_def [of _ "(k, v)" for k v]
        GoObservedState_new_def drop_empty_def split: option.split list.split)
  then have "fold (observe ?sq) ?entries GoObservedState_new = \<dots>"
    unfolding current_event_entries_alt by (simp only: fold_append o_apply extras)
  then have "into_record (fold (observe ?sq) ?entries GoObservedState_new) = (current_form r)\<lparr>er_timestamp := t\<rparr>"
    by (simp add: into_record_def current_form_def non_empty_def drop_empty_def split: option.split list.split)
  then show ?thesis using observed_document [OF numbers entries] by simp
qed

end

end
