(* ===== verification/Json_Properties.thy ===== *)
theory Json_Properties
  imports Go_Observed
begin

text \<open>
  The properties of the JSON reader, the stack-safe value operations, the timestamps and the
  event log.
\<close>

section \<open>The steps of the iterative clone\<close>

fun clone_machine :: "'n JsonCloneFrame list \<times> 'n Value list \<Rightarrow> 'n JsonCloneFrame list \<times> 'n Value list" where
  "clone_machine ([], results) = ([], results)"
| "clone_machine (f # pending, results) = clone_step f (pending, results)"

abbreviation clone_steps where
  "clone_steps n \<equiv> clone_machine ^^ n"

lemma clone_steps_add: "clone_steps m c = d \<Longrightarrow> clone_steps n d = e \<Longrightarrow> clone_steps (m + n) c = e"
  by (simp add: add.commute [of m] funpow_add)

lemma clone_steps_Suc: "clone_steps (Suc n) c = clone_steps n (clone_machine c)"
  by (simp add: funpow_swap1)

lemma clone_steps_values:
  assumes "\<And>v p r. v \<in> set vs \<Longrightarrow> clone_steps (value_size v) (CloneValue v # p, r) = (p, r @ [v])"
  shows "clone_steps (sum_list (map value_size vs)) (map CloneValue vs @ pending, results) = (pending, results @ vs)"
  using assms
proof (induction vs arbitrary: results)
  case (Cons v vs)
  have "clone_steps (value_size v) (map CloneValue (v # vs) @ pending, results)
      = (map CloneValue vs @ pending, results @ [v])"
    using Cons.prems [of v] by simp
  moreover have "clone_steps (sum_list (map value_size vs)) (map CloneValue vs @ pending, results @ [v])
      = (pending, (results @ [v]) @ vs)"
    by (rule Cons.IH) (rule Cons.prems, simp)
  ultimately show ?case using clone_steps_add by fastforce
qed simp

lemma clone_steps_value:
  "maps_wf v \<Longrightarrow> clone_steps (value_size v) (CloneValue v # pending, results) = (pending, results @ [v])"
proof (induction v arbitrary: pending results)
  case (Array vs)
  have "clone_steps (sum_list (map value_size vs)) (map CloneValue vs @ CloneArray (length results) # pending, results)
      = (CloneArray (length results) # pending, results @ vs)"
    using Array by (intro clone_steps_values) auto
  then have "clone_steps (sum_list (map value_size vs) + 1)
      (map CloneValue vs @ CloneArray (length results) # pending, results) = (pending, results @ [Array vs])"
    by (rule clone_steps_add) simp
  then show ?case by (simp add: clone_steps_Suc del: funpow.simps)
next
  case (Object es)
  have "clone_steps (sum_list (map value_size (map snd es)))
      (map CloneValue (map snd es) @ CloneObject (length results) (map fst es) # pending, results)
      = (CloneObject (length results) (map fst es) # pending, results @ map snd es)"
    using Object by (intro clone_steps_values) (auto simp del: map_map)
  moreover have "zip (map fst es) (map snd es) = es" by (rule zip_map_fst_snd)
  ultimately have "clone_steps (sum_list (map value_size (map snd es)) + 1)
      (map CloneValue (map snd es) @ CloneObject (length results) (map fst es) # pending, results)
      = (pending, results @ [Object es])"
    using Object.prems by (intro clone_steps_add) (auto simp: bt_collect_sorted)
  then show ?case by (simp add: clone_steps_Suc comp_def del: funpow.simps)
qed simp_all

section \<open>Properties\<close>

text \<open>
  C19. The scanner that skips one JSON value without recursion accepts exactly the values of the
  grammar nested at most \<open>GO_JSON_MAX_NESTING_DEPTH\<close> deep, and stops exactly behind the value.
\<close>

theorem skip_value_exact:
  "skip_value 0 s = Inr r \<longleftrightarrow> json_value GO_JSON_MAX_NESTING_DEPTH s r"
  using skip_value_iff [of 0 s r] by simp

text \<open>
  C20. Parsing a value succeeds exactly where skipping it does and stops at the same place, apart
  from a number the number reader rejects, which is reported as invalid data; the value it builds
  is within the nesting limit, its strings and keys are valid UTF-8 and the keys of each of its
  objects are in order and distinct.
\<close>

theorem parse_value_typed:
  "case parse_value num 0 s of
     Inl e \<Rightarrow> skip_value 0 s = Inl e \<or> e = InvalidData \<and> (\<exists>t. num t = None)
   | Inr (v, r) \<Rightarrow> skip_value 0 s = Inr r \<and> value_ok GO_JSON_MAX_NESTING_DEPTH v"
proof (cases "parse_value num 0 s")
  case (Inl e)
  then show ?thesis
    using parse_skip(1) [of num 0 "[]" s] by (auto simp: parse_value_def skip_value_def)
next
  case (Inr x)
  obtain v r where x: "x = (v, r)" by (cases x)
  have "skip_value 0 s = Inr r"
    using parse_skip(1) [of num 0 "[]" s] Inr x by (auto simp: parse_value_def skip_value_def)
  moreover have "value_ok GO_JSON_MAX_NESTING_DEPTH v"
    using parse_ok(1) [of num 0 "[]" s v r] Inr x by (simp add: parse_value_def)
  ultimately show ?thesis using Inr x by simp
qed

text \<open>
  C21. Whatever the reference printer prints, the parser reads back as the same value and stops behind
  it: escapes, control characters, surrounding text, member order and nesting up to the bound included.
\<close>

theorem json_text_roundtrip:
  assumes "numbers_read_back num pn" and "value_ok GO_JSON_MAX_NESTING_DEPTH v" and "stops r"
  shows "parse_value num 0 (json_text pn v @ r) = Inr (v, r)"
  by (rule plain.parse_json_text [OF assms])

definition digit_text :: "bool \<Rightarrow> string" where
  "digit_text b = (if b then ''7'' else ''0'')"

definition read_digit :: "string \<Rightarrow> bool option" where
  "read_digit s = Some (s = ''7'')"

lemma digits_read_back: "numbers_read_back read_digit digit_text"
  by (simp add: numbers_read_back_def digit_text_def read_digit_def) code_simp

lemma within_nesting_bound: "k \<le> 10000 \<Longrightarrow> value_ok k v \<Longrightarrow> value_ok GO_JSON_MAX_NESTING_DEPTH v"
  using value_ok_mono [of k v GO_JSON_MAX_NESTING_DEPTH] by (simp add: GO_JSON_MAX_NESTING_DEPTH_def)

theorem json_text_roundtrip_witness:
  "parse_value read_digit 0
     (json_text digit_text (Object [(''a'', Array [Number True, String [CHR 0x0A, CHR 0x22]]), (''b'', Null)]) @ '', 1'')
   = Inr (Object [(''a'', Array [Number True, String [CHR 0x0A, CHR 0x22]]), (''b'', Null)], '', 1'')"
proof (rule json_text_roundtrip [OF digits_read_back])
  show "value_ok GO_JSON_MAX_NESTING_DEPTH (Object [(''a'', Array [Number True, String [CHR 0x0A, CHR 0x22]]), (''b'', Null)])"
    by (rule within_nesting_bound [of 2]) (simp, code_simp)
  show "stops '', 1''" by code_simp
qed

text \<open>
  The tokenizers return the members of a printed object, duplicates included, and the elements of a
  printed array in source order, each with exactly its own bytes.
\<close>

theorem go_tokenizers_exact:
  assumes "numbers_read_back num pn" and "\<forall>e\<in>set es. utf8_valid (fst e) \<and> inner_ok (snd e)"
    and "\<forall>v\<in>set vs. inner_ok v"
  shows "decode_go_json_object_members (json_text pn (Object es))
      = Inr (Some (map (\<lambda>e. (fst e, json_text pn (snd e))) es)) \<and>
    decode_go_json_array_elements (json_text pn (Array vs)) = Inr (Some (map (json_text pn) vs))"
  using plain.tokenized_object [OF assms(1,2)] plain.tokenized_array [OF assms(1,3)] by blast

lemma within_inner_bound: "k \<le> 9999 \<Longrightarrow> value_ok k v \<Longrightarrow> inner_ok v"
  using value_ok_mono [of k v "GO_JSON_MAX_NESTING_DEPTH - 1"]
  by (simp add: GO_JSON_MAX_NESTING_DEPTH_def inner_ok_def)

theorem go_tokenizers_exact_witness:
  "decode_go_json_object_members
       (json_text digit_text (Object [(''a'', Null), (''a'', Number True)]))
     = Inr (Some [(''a'', ''null''), (''a'', ''7'')]) \<and>
   decode_go_json_array_elements (json_text digit_text (Array [Bool True, Array []]))
     = Inr (Some [''true'', ''[]''])"
proof -
  have "\<forall>e\<in>set [(''a'', Null), (''a'', Number True)]. utf8_valid (fst e) \<and> inner_ok (snd e)"
    by (simp add: inner_ok_def) code_simp
  moreover have "\<forall>v\<in>set [Bool True, Array []]. inner_ok (v :: bool Value)"
    by (auto intro: within_inner_bound [of 1])
  ultimately show ?thesis
    using go_tokenizers_exact [OF digits_read_back, of "[(''a'', Null), (''a'', Number True)]" "[Bool True, Array []]"]
    by (simp add: digit_text_def)
qed

text \<open>
  C23. The iterative clone of a value stops after exactly as many steps as the value has parts (two
  for a container, one for a scalar), returns the value itself, and the iterative comparison tells
  the clone from every other value.
\<close>

theorem clone_and_compare:
  assumes "maps_wf v"
  shows "clone_steps (value_size v) ([CloneValue v], []) = ([], [v]) \<and>
    clone_json_value_iteratively v = v \<and>
    (json_values_equal_iteratively (=) (clone_json_value_iteratively v) w \<longleftrightarrow> v = w)"
  using clone_steps_value [OF assms, of "[]" "[]"] clone_exact [OF assms]
  by (simp add: equal_exact value_eq_eq)

theorem clone_and_compare_witness:
  "clone_json_value_iteratively (Object [(''a'', Array [Number (1::int), Null]), (''b'', String ''x'')])
     = Object [(''a'', Array [Number 1, Null]), (''b'', String ''x'')] \<and>
   \<not> json_values_equal_iteratively (=)
       (clone_json_value_iteratively (Object [(''a'', Array [Number (1::int), Null]), (''b'', String ''x'')])) Null"
proof -
  have "maps_wf (Object [(''a'', Array [Number (1::int), Null]), (''b'', String ''x'')])" by code_simp
  moreover have "Object [(''a'', Array [Number (1::int), Null]), (''b'', String ''x'')] \<noteq> Null" by simp
  ultimately show ?thesis using clone_and_compare by blast
qed

text \<open>
  A timestamp the strict check accepts, with a numeric year and no sign in a numeric field, is
  read by the Go-compatible normaliser.
\<close>

theorem strict_timestamps_normalize:
  assumes "is_rfc3339 s" and "list_all is_digit (take 4 s)"
    and "\<forall>i\<in>{5, 8, 11, 14, 17, length s - 5, length s - 2}. s ! i \<noteq> CHR ''+''"
  shows "\<exists>t. normalize_go_time_unmarshal_rfc3339 s = Some t"
  using rfc3339_readable [OF assms] .

theorem strict_timestamps_normalize_witness:
  "\<exists>t. normalize_go_time_unmarshal_rfc3339 ''2024-02-29T23:59:59.5+05:30'' = Some t"
proof (rule strict_timestamps_normalize)
  show "is_rfc3339 ''2024-02-29T23:59:59.5+05:30''" by code_simp
  show "list_all is_digit (take 4 ''2024-02-29T23:59:59.5+05:30'')" by code_simp
  show "\<forall>i\<in>{5, 8, 11, 14, 17, length ''2024-02-29T23:59:59.5+05:30'' - 5, length ''2024-02-29T23:59:59.5+05:30'' - 2}.
      ''2024-02-29T23:59:59.5+05:30'' ! i \<noteq> CHR ''+''"
    by simp
qed

text \<open>The strict check lets through a year that is no number and a signed field.\<close>

lemma strict_check_accepts_bad_year:
  "is_rfc3339 ''abcd-01-01T00:00:00Z'' \<and> normalize_go_time_unmarshal_rfc3339 ''abcd-01-01T00:00:00Z'' = None"
  by code_simp

lemma strict_check_accepts_signs:
  "is_rfc3339 ''2024-+1-01T00:00:00Z'' \<and> normalize_go_time_unmarshal_rfc3339 ''2024-+1-01T00:00:00Z'' = None"
  by code_simp

text \<open>
  Writing a valid event record and decoding the object gives the record back, with empty
  optional fields absent and the extra fields that collide with an envelope field gone.
\<close>

theorem event_record_roundtrip:
  assumes "encode_current_event to_string of_i64 r = Inr bytes" and "record_wf r"
    and "as_i64 (of_i64 (er_sequence r)) = Some (er_sequence r)"
  shows "decode_event_object as_i64 (bt_collect (current_event_entries of_i64 r)) = Inr (current_form r)"
proof -
  have "validate_event_record r = Inr ()" using assms(1) by (auto simp: encode_current_event_def result_simps)
  then show ?thesis using decode_current_entries [OF _ assms(2), of as_i64 of_i64] assms(3) by simp
qed

definition sample_event :: "int EventRecord" where
  "sample_event =
     \<lparr>er_id = ''e1'', er_event_type = ''phase.started'', er_timestamp = ''2024-02-29T23:59:59Z'',
      er_sequence = 7, er_mission_id = ''m1'', er_phase_id = Some ''phase-1'', er_worker_id = Some [],
      er_data = Some [(''k'', Number 3)], er_extra = [(''id'', Null), (''note'', String ''kept'')]\<rparr>"

theorem event_record_roundtrip_witness:
  "decode_event_object Some (bt_collect (current_event_entries id sample_event))
     = Inr (sample_event\<lparr>er_worker_id := None, er_extra := [(''note'', String ''kept'')]\<rparr>)"
proof -
  have "encode_current_event (\<lambda>_. Some []) id sample_event = Inr []" by code_simp
  moreover have "record_wf sample_event" by (simp add: record_wf_def sample_event_def bt_wf_def)
  moreover have "Some (id (er_sequence sample_event)) = Some (er_sequence sample_event)" by simp
  ultimately have "decode_event_object Some (bt_collect (current_event_entries id sample_event))
      = Inr (current_form sample_event)"
    by (rule event_record_roundtrip)
  moreover have "current_form sample_event
      = sample_event\<lparr>er_worker_id := None, er_extra := [(''note'', String ''kept'')]\<rparr>"
    by (simp add: current_form_def sample_event_def drop_empty_def event_reserved_def)
  ultimately show ?thesis by simp
qed





lemma line_event_or_diagnostic: "line_event fs ai raw = None \<longleftrightarrow> line_diagnostic fs ai (i, raw) \<noteq> None"
  by (auto simp: line_event_def line_diagnostic_def split: sum.split)

lemma events_and_diagnostics:
  "length (List.map_filter (line_event fs ai) ls) + length (List.map_filter (line_diagnostic fs ai) (enumerate k ls))
     = length ls"
proof (induction ls arbitrary: k)
  case (Cons l ls)
  then show ?case using line_event_or_diagnostic [of fs ai l k] Cons.IH [of "Suc k"]
    by (cases "line_event fs ai l"; cases "line_diagnostic fs ai (k, l)") (simp_all add: map_filter_simps)
qed (simp add: map_filter_simps)

text \<open>
  C24. A scan accounts for every byte of the log: its lines, joined, are the log; each line is either
  an event, kept with its exact bytes, or a diagnostic with its line number; and the next sequence
  is one above the greatest event's, absent when that is the greatest 64-bit integer.
\<close>

theorem scan_event_log_complete:
  "concat (log_lines bytes) = bytes \<and>
   es_events (scan_event_log fs ai bytes) = List.map_filter (line_event fs ai) (log_lines bytes) \<and>
   es_diagnostics (scan_event_log fs ai bytes) =
     List.map_filter (line_diagnostic fs ai) (enumerate 1 (log_lines bytes)) \<and>
   length (es_events (scan_event_log fs ai bytes)) + length (es_diagnostics (scan_event_log fs ai bytes))
     = length (log_lines bytes) \<and>
   es_next_sequence (scan_event_log fs ai bytes) =
     (let is = sequences (es_events (scan_event_log fs ai bytes))
      in if is = [] then Some 1 else if Max (set is) = I64_MAX then None else Some (Max (set is) + 1))"
  using log_lines_concat scan_event_log_parts(3) events_and_diagnostics [of fs ai "log_lines bytes" 1]
  by (simp add: scan_event_log_parts(1,2))

end
