(* ===== verification/Checkpoint.thy ===== *)
theory Checkpoint
  imports Event_Codec
begin

text \<open>
  The checkpoint codec (\<^verbatim>\<open>orchestrator-core/src/codec.rs\<close>): the legacy and the envelope shape are
  decoded field by field from a JSON object, every field read is removed and the rest is carried
  forward, and the current writer emits the envelope with the unknown fields first. serde's reader
  and its number conversions are parameters; the writers are modelled by the entries they emit.
\<close>

section \<open>Data\<close>

definition CHECKPOINT_ENVELOPE_VERSION :: int where
  "CHECKPOINT_ENVELOPE_VERSION = 1"

definition CHECKPOINT_PAYLOAD_VERSION :: int where
  "CHECKPOINT_PAYLOAD_VERSION = 2"

definition GO_ZERO_TIME :: string where
  "GO_ZERO_TIME = ''0001-01-01T00:00:00Z''"

type_synonym 'n JsonMap = "(string, 'n Value) btree_map"

text \<open>What serde makes of numbers; \<open>'f\<close> stands for \<open>f64\<close>.\<close>

record ('n, 'f) number_ops =
  num_as_i64 :: "'n \<Rightarrow> int option"
  num_as_u64 :: "'n \<Rightarrow> int option"
  num_of_int :: "int \<Rightarrow> 'n"
  num_as_f64 :: "'n \<Rightarrow> 'f option"
  value_of_f64 :: "'f \<Rightarrow> 'n Value"
  f64_zero :: 'f
  f64_is_zero :: "'f \<Rightarrow> bool"

datatype CheckpointSourceShape = LegacyDirect | EnvelopeV1

record ('n, 'f) CheckpointPhase =
  cp_id :: string
  cp_name :: string
  cp_objective :: string
  cp_persona :: string
  cp_model_tier :: string
  cp_skills :: "string list"
  cp_constraints :: "string list"
  cp_dependencies :: "string list"
  cp_expected :: string
  cp_role :: string
  cp_target_dir :: string
  cp_priority :: string
  cp_runtime :: string
  cp_runtime_policy_applied :: bool
  cp_stall_timeout :: int
  cp_status :: string
  cp_output :: string
  cp_error :: string
  cp_start_time :: string
  cp_end_time :: string
  cp_signal_remainder :: string
  cp_retries :: int
  cp_gate_passed :: bool
  cp_output_len :: int
  cp_parsed_skills :: "string list"
  cp_learnings_retrieved :: int
  cp_session_id :: string
  cp_persona_selection_method :: string
  cp_model :: string
  cp_tokens_in :: int
  cp_tokens_out :: int
  cp_tokens_cache_creation :: int
  cp_tokens_cache_read :: int
  cp_cost_usd :: 'f
  cp_review_iteration :: int
  cp_origin_phase_id :: string
  cp_max_review_loops :: int
  cp_parse_retry_count :: int
  cp_review_blockers :: "string list"
  cp_review_warnings :: "string list"
  cp_changed_files :: "string list"
  cp_output_bytes :: int
  cp_worker :: string
  cp_barok_applied :: int
  cp_barok_retry :: int
  cp_barok_validator_ms :: int
  cp_barok_retry_validator_ms :: int
  cp_barok_first_run_session_id :: string
  cp_extra :: "'n JsonMap"

record ('n, 'f) CheckpointPlan =
  cl_id :: string
  cl_task :: string
  cl_phases :: "('n, 'f) CheckpointPhase list"
  cl_execution_mode :: string
  cl_decomp_source :: string
  cl_created_at :: string
  cl_extra :: "'n JsonMap"

record ('n, 'f) CheckpointProjection =
  ck_workspace_id :: string
  ck_domain :: string
  ck_plan :: "('n, 'f) CheckpointPlan option"
  ck_status :: string
  ck_started_at :: string
  ck_git_repo_root :: string
  ck_worktree_path :: string
  ck_branch_name :: string
  ck_base_branch :: string
  ck_extra :: "'n JsonMap"
  ck_envelope_extra :: "'n JsonMap"

record ('n, 'f) DecodedCheckpoint =
  dc_source_shape :: CheckpointSourceShape
  dc_projection :: "('n, 'f) CheckpointProjection"
  dc_original :: "'n Value"

text \<open>
  The text of \<open>UnsupportedShape\<close> is kept as what it reports: the error of the legacy attempt, if
  there was one, and the envelope version found.
\<close>

datatype CheckpointError =
    CheckpointJson
  | CheckpointRootNotObject
  | UnsupportedShape UnsupportedReason
  | CheckpointInvalidField string string
and UnsupportedReason =
    NeitherShape "CheckpointError option" "int option"
  | PayloadWorkspaceIdEmpty
  | CurrentWorkspaceIdEmpty

section \<open>Reading fields\<close>

type_synonym ('a, 'n) field_reader = "string \<Rightarrow> 'n JsonMap \<Rightarrow> CheckpointError + 'a \<times> 'n JsonMap"

definition is_string :: "'n Value \<Rightarrow> bool" where
  "is_string v = (case v of String _ \<Rightarrow> True | _ \<Rightarrow> False)"

definition non_empty_string :: "'n Value option \<Rightarrow> bool" where
  "non_empty_string v = (case v of Some (String s) \<Rightarrow> s \<noteq> [] | _ \<Rightarrow> False)"

definition take_string :: "(string, 'n) field_reader" where
  "take_string name m =
     (case bt_get m name of
        None \<Rightarrow> Inr ([], remove_field name m)
      | Some Null \<Rightarrow> Inr ([], remove_field name m)
      | Some (String v) \<Rightarrow> Inr (v, remove_field name m)
      | Some _ \<Rightarrow> Inl (CheckpointInvalidField name ''string''))"

fun strings_of :: "string \<Rightarrow> 'n Value list \<Rightarrow> CheckpointError + string list" where
  "strings_of name [] = Inr []"
| "strings_of name (String v # vs) = and_then (strings_of name vs) (\<lambda>ss. Inr (v # ss))"
| "strings_of name (_ # vs) = Inl (CheckpointInvalidField name ''array of strings'')"

definition take_strings :: "(string list, 'n) field_reader" where
  "take_strings name m =
     (case bt_get m name of
        None \<Rightarrow> Inr ([], remove_field name m)
      | Some Null \<Rightarrow> Inr ([], remove_field name m)
      | Some (Array vs) \<Rightarrow> and_then (strings_of name vs) (\<lambda>ss. Inr (ss, remove_field name m))
      | Some _ \<Rightarrow> Inl (CheckpointInvalidField name ''array of strings''))"

definition take_optional_time :: "string \<Rightarrow> string \<Rightarrow> 'n JsonMap \<Rightarrow> CheckpointError + string \<times> 'n JsonMap" where
  "take_optional_time name field m =
     (case bt_get m name of
        None \<Rightarrow> Inr ([], remove_field name m)
      | Some Null \<Rightarrow> Inr ([], remove_field name m)
      | Some v \<Rightarrow>
          (case v of
             String s \<Rightarrow>
               if is_rfc3339 s then Inr (s, remove_field name m)
               else Inl (CheckpointInvalidField field ''RFC3339 string'')
           | _ \<Rightarrow> Inl (CheckpointInvalidField field ''RFC3339 string'')))"

definition as_i64 :: "('n, 'f) number_ops \<Rightarrow> 'n Value \<Rightarrow> int option" where
  "as_i64 ops v = (case v of Number n \<Rightarrow> num_as_i64 ops n | _ \<Rightarrow> None)"

definition take_optional_integer ::
    "('n, 'f) number_ops \<Rightarrow> string \<Rightarrow> 'n JsonMap \<Rightarrow> CheckpointError + 'n JsonMap" where
  "take_optional_integer ops name m =
     (case bt_get m name of
        None \<Rightarrow> Inr (remove_field name m)
      | Some Null \<Rightarrow> Inr (remove_field name m)
      | Some v \<Rightarrow>
          if as_i64 ops v \<noteq> None then Inr (remove_field name m)
          else Inl (CheckpointInvalidField name ''integer''))"

definition take_bool :: "(bool, 'n) field_reader" where
  "take_bool name m =
     (case bt_get m name of
        None \<Rightarrow> Inr (False, remove_field name m)
      | Some Null \<Rightarrow> Inr (False, remove_field name m)
      | Some (Bool b) \<Rightarrow> Inr (b, remove_field name m)
      | Some _ \<Rightarrow> Inl (CheckpointInvalidField name ''boolean''))"

definition take_i64 :: "('n, 'f) number_ops \<Rightarrow> (int, 'n) field_reader" where
  "take_i64 ops name m =
     (case bt_get m name of
        None \<Rightarrow> Inr (0, remove_field name m)
      | Some Null \<Rightarrow> Inr (0, remove_field name m)
      | Some v \<Rightarrow>
          (case as_i64 ops v of
             Some i \<Rightarrow> Inr (i, remove_field name m)
           | None \<Rightarrow> Inl (CheckpointInvalidField name ''signed integer'')))"

definition take_f64 :: "('n, 'f) number_ops \<Rightarrow> ('f, 'n) field_reader" where
  "take_f64 ops name m =
     (case bt_get m name of
        None \<Rightarrow> Inr (f64_zero ops, remove_field name m)
      | Some Null \<Rightarrow> Inr (f64_zero ops, remove_field name m)
      | Some v \<Rightarrow>
          (case (case v of Number n \<Rightarrow> num_as_f64 ops n | _ \<Rightarrow> None) of
             Some x \<Rightarrow> Inr (x, remove_field name m)
           | None \<Rightarrow> Inl (CheckpointInvalidField name ''number'')))"

section \<open>Phases\<close>

definition validate_optional ::
    "'n JsonMap \<Rightarrow> string \<Rightarrow> string \<Rightarrow> ('n Value \<Rightarrow> bool) \<Rightarrow> CheckpointError + unit" where
  "validate_optional m field expected predicate =
     (case bt_get m field of
        None \<Rightarrow> Inr ()
      | Some v \<Rightarrow>
          if v \<noteq> Null \<and> \<not> predicate v
          then Inl (CheckpointInvalidField (''plan.phases[].'' @ field) expected) else Inr ())"

definition STRINGS :: "string list" where
  "STRINGS =
     [''role'', ''target_dir'', ''priority'', ''runtime'', ''output'', ''error'', ''signal_remainder'',
      ''session_id'', ''persona_selection_method'', ''model'', ''origin_phase_id'', ''worker'',
      ''barok_first_run_session_id'']"

definition BOOLEANS :: "string list" where
  "BOOLEANS = [''runtime_policy_applied'', ''gate_passed'']"

definition INTEGERS :: "string list" where
  "INTEGERS =
     [''stall_timeout'', ''retries'', ''output_len'', ''learnings_retrieved'', ''tokens_in'', ''tokens_out'',
      ''tokens_cache_creation'', ''tokens_cache_read'', ''review_iteration'', ''max_review_loops'',
      ''parse_retry_count'', ''output_bytes'', ''barok_applied'', ''barok_retry'', ''barok_validator_ms'',
      ''barok_retry_validator_ms'']"

definition STRING_ARRAYS :: "string list" where
  "STRING_ARRAYS = [''parsed_skills'', ''review_blockers'', ''review_warnings'', ''changed_files'']"

definition validate_phase_fields :: "('n, 'f) number_ops \<Rightarrow> 'n JsonMap \<Rightarrow> CheckpointError + unit" where
  "validate_phase_fields ops m =
     and_then (try_each (\<lambda>field. validate_optional m field ''string'' is_string) STRINGS) (\<lambda>_.
     and_then (try_each (\<lambda>field. validate_optional m field ''boolean''
         (\<lambda>v. case v of Bool _ \<Rightarrow> True | _ \<Rightarrow> False)) BOOLEANS) (\<lambda>_.
     and_then (try_each (\<lambda>field. validate_optional m field ''signed integer''
         (\<lambda>v. as_i64 ops v \<noteq> None)) INTEGERS) (\<lambda>_.
     and_then (try_each (\<lambda>field. validate_optional m field ''array of strings''
         (\<lambda>v. case v of Array vs \<Rightarrow> list_all is_string vs | _ \<Rightarrow> False)) STRING_ARRAYS) (\<lambda>_.
     and_then (validate_optional m ''cost_usd'' ''number'' (\<lambda>v. case v of Number _ \<Rightarrow> True | _ \<Rightarrow> False)) (\<lambda>_.
       try_each (\<lambda>field. validate_optional m field ''RFC3339 string''
         (\<lambda>v. case v of String s \<Rightarrow> is_rfc3339 s | _ \<Rightarrow> False)) [''start_time'', ''end_time''])))))"

definition parse_phase ::
    "('n, 'f) number_ops \<Rightarrow> 'n JsonMap \<Rightarrow> CheckpointError + ('n, 'f) CheckpointPhase" where
  "parse_phase ops m =
     and_then (validate_phase_fields ops m) (\<lambda>_.
     and_then (take_string ''id'' m) (\<lambda>(pid, m).
     and_then (take_string ''name'' m) (\<lambda>(name, m).
     and_then (take_string ''objective'' m) (\<lambda>(objective, m).
     and_then (take_string ''persona'' m) (\<lambda>(persona, m).
     and_then (take_string ''model_tier'' m) (\<lambda>(model_tier, m).
     and_then (take_strings ''skills'' m) (\<lambda>(skills, m).
     and_then (take_strings ''constraints'' m) (\<lambda>(constraints, m).
     and_then (take_strings ''dependencies'' m) (\<lambda>(dependencies, m).
     and_then (take_string ''expected'' m) (\<lambda>(expected, m).
     and_then (take_string ''role'' m) (\<lambda>(role, m).
     and_then (take_string ''target_dir'' m) (\<lambda>(target_dir, m).
     and_then (take_string ''priority'' m) (\<lambda>(priority, m).
     and_then (take_string ''runtime'' m) (\<lambda>(runtime, m).
     and_then (take_bool ''runtime_policy_applied'' m) (\<lambda>(runtime_policy_applied, m).
     and_then (take_i64 ops ''stall_timeout'' m) (\<lambda>(stall_timeout, m).
     and_then (take_string ''status'' m) (\<lambda>(status, m).
     and_then (take_string ''output'' m) (\<lambda>(output, m).
     and_then (take_string ''error'' m) (\<lambda>(error, m).
     and_then (take_optional_time ''start_time'' ''start_time'' m) (\<lambda>(start_time, m).
     and_then (take_optional_time ''end_time'' ''end_time'' m) (\<lambda>(end_time, m).
     and_then (take_string ''signal_remainder'' m) (\<lambda>(signal_remainder, m).
     and_then (take_i64 ops ''retries'' m) (\<lambda>(retries, m).
     and_then (take_bool ''gate_passed'' m) (\<lambda>(gate_passed, m).
     and_then (take_i64 ops ''output_len'' m) (\<lambda>(output_len, m).
     and_then (take_strings ''parsed_skills'' m) (\<lambda>(parsed_skills, m).
     and_then (take_i64 ops ''learnings_retrieved'' m) (\<lambda>(learnings_retrieved, m).
     and_then (take_string ''session_id'' m) (\<lambda>(session_id, m).
     and_then (take_string ''persona_selection_method'' m) (\<lambda>(persona_selection_method, m).
     and_then (take_string ''model'' m) (\<lambda>(model, m).
     and_then (take_i64 ops ''tokens_in'' m) (\<lambda>(tokens_in, m).
     and_then (take_i64 ops ''tokens_out'' m) (\<lambda>(tokens_out, m).
     and_then (take_i64 ops ''tokens_cache_creation'' m) (\<lambda>(tokens_cache_creation, m).
     and_then (take_i64 ops ''tokens_cache_read'' m) (\<lambda>(tokens_cache_read, m).
     and_then (take_f64 ops ''cost_usd'' m) (\<lambda>(cost_usd, m).
     and_then (take_i64 ops ''review_iteration'' m) (\<lambda>(review_iteration, m).
     and_then (take_string ''origin_phase_id'' m) (\<lambda>(origin_phase_id, m).
     and_then (take_i64 ops ''max_review_loops'' m) (\<lambda>(max_review_loops, m).
     and_then (take_i64 ops ''parse_retry_count'' m) (\<lambda>(parse_retry_count, m).
     and_then (take_strings ''review_blockers'' m) (\<lambda>(review_blockers, m).
     and_then (take_strings ''review_warnings'' m) (\<lambda>(review_warnings, m).
     and_then (take_strings ''changed_files'' m) (\<lambda>(changed_files, m).
     and_then (take_i64 ops ''output_bytes'' m) (\<lambda>(output_bytes, m).
     and_then (take_string ''worker'' m) (\<lambda>(worker, m).
     and_then (take_i64 ops ''barok_applied'' m) (\<lambda>(barok_applied, m).
     and_then (take_i64 ops ''barok_retry'' m) (\<lambda>(barok_retry, m).
     and_then (take_i64 ops ''barok_validator_ms'' m) (\<lambda>(barok_validator_ms, m).
     and_then (take_i64 ops ''barok_retry_validator_ms'' m) (\<lambda>(barok_retry_validator_ms, m).
     and_then (take_string ''barok_first_run_session_id'' m) (\<lambda>(barok_first_run_session_id, m).
       Inr \<lparr>cp_id = pid,
         cp_name = name,
         cp_objective = objective,
         cp_persona = persona,
         cp_model_tier = model_tier,
         cp_skills = skills,
         cp_constraints = constraints,
         cp_dependencies = dependencies,
         cp_expected = expected,
         cp_role = role,
         cp_target_dir = target_dir,
         cp_priority = priority,
         cp_runtime = runtime,
         cp_runtime_policy_applied = runtime_policy_applied,
         cp_stall_timeout = stall_timeout,
         cp_status = status,
         cp_output = output,
         cp_error = error,
         cp_start_time = start_time,
         cp_end_time = end_time,
         cp_signal_remainder = signal_remainder,
         cp_retries = retries,
         cp_gate_passed = gate_passed,
         cp_output_len = output_len,
         cp_parsed_skills = parsed_skills,
         cp_learnings_retrieved = learnings_retrieved,
         cp_session_id = session_id,
         cp_persona_selection_method = persona_selection_method,
         cp_model = model,
         cp_tokens_in = tokens_in,
         cp_tokens_out = tokens_out,
         cp_tokens_cache_creation = tokens_cache_creation,
         cp_tokens_cache_read = tokens_cache_read,
         cp_cost_usd = cost_usd,
         cp_review_iteration = review_iteration,
         cp_origin_phase_id = origin_phase_id,
         cp_max_review_loops = max_review_loops,
         cp_parse_retry_count = parse_retry_count,
         cp_review_blockers = review_blockers,
         cp_review_warnings = review_warnings,
         cp_changed_files = changed_files,
         cp_output_bytes = output_bytes,
         cp_worker = worker,
         cp_barok_applied = barok_applied,
         cp_barok_retry = barok_retry,
         cp_barok_validator_ms = barok_validator_ms,
         cp_barok_retry_validator_ms = barok_retry_validator_ms,
         cp_barok_first_run_session_id = barok_first_run_session_id,
         cp_extra = m\<rparr>)))))))))))))))))))))))))))))))))))))))))))))))))"

section \<open>Plans and payloads\<close>

fun parse_phases ::
    "('n, 'f) number_ops \<Rightarrow> nat \<Rightarrow> 'n Value list \<Rightarrow> CheckpointError + ('n, 'f) CheckpointPhase list" where
  "parse_phases ops index [] = Inr []"
| "parse_phases ops index (v # vs) =
     and_then
       (case v of
          Object m \<Rightarrow> parse_phase ops m
        | _ \<Rightarrow> Inl (CheckpointInvalidField (''plan.phases['' @ decimal index @ '']'') ''object''))
       (\<lambda>p. and_then (parse_phases ops (index + 1) vs) (\<lambda>ps. Inr (p # ps)))"

definition plan_phases ::
    "('n, 'f) number_ops \<Rightarrow> 'n JsonMap \<Rightarrow> CheckpointError + ('n, 'f) CheckpointPhase list \<times> 'n JsonMap" where
  "plan_phases ops m =
     (case bt_get m ''phases'' of
        None \<Rightarrow> Inr ([], remove_field ''phases'' m)
      | Some Null \<Rightarrow> Inr ([], remove_field ''phases'' m)
      | Some (Array vs) \<Rightarrow> and_then (parse_phases ops 0 vs) (\<lambda>ps. Inr (ps, remove_field ''phases'' m))
      | Some _ \<Rightarrow> Inl (CheckpointInvalidField ''plan.phases'' ''array''))"

definition parse_plan ::
    "('n, 'f) number_ops \<Rightarrow> 'n JsonMap \<Rightarrow> CheckpointError + ('n, 'f) CheckpointPlan" where
  "parse_plan ops m =
     and_then (take_string ''id'' m) (\<lambda>(pid, m).
     and_then (take_string ''task'' m) (\<lambda>(task, m).
     and_then (take_string ''execution_mode'' m) (\<lambda>(execution_mode, m).
     and_then (take_string ''decomp_source'' m) (\<lambda>(decomp_source, m).
     and_then (take_optional_time ''created_at'' ''plan.created_at'' m) (\<lambda>(created_at, m).
     and_then (plan_phases ops m) (\<lambda>(phases, m).
       Inr \<lparr>cl_id = pid, cl_task = task, cl_phases = phases, cl_execution_mode = execution_mode,
            cl_decomp_source = decomp_source, cl_created_at = created_at, cl_extra = m\<rparr>))))))"

definition payload_plan ::
    "('n, 'f) number_ops \<Rightarrow> 'n JsonMap \<Rightarrow> CheckpointError + ('n, 'f) CheckpointPlan option \<times> 'n JsonMap" where
  "payload_plan ops m =
     (case bt_get m ''plan'' of
        None \<Rightarrow> Inr (None, remove_field ''plan'' m)
      | Some Null \<Rightarrow> Inr (None, remove_field ''plan'' m)
      | Some (Object plan) \<Rightarrow> and_then (parse_plan ops plan) (\<lambda>p. Inr (Some p, remove_field ''plan'' m))
      | Some _ \<Rightarrow> Inl (CheckpointInvalidField ''plan'' ''object or null''))"

definition parse_checkpoint_payload ::
    "('n, 'f) number_ops \<Rightarrow> 'n JsonMap \<Rightarrow> 'n JsonMap \<Rightarrow> CheckpointError + ('n, 'f) CheckpointProjection" where
  "parse_checkpoint_payload ops m envelope_extra =
     and_then (take_optional_integer ops ''version'' m) (\<lambda>m.
     and_then (take_string ''workspace_id'' m) (\<lambda>(workspace_id, m).
     and_then (take_string ''domain'' m) (\<lambda>(domain, m).
     and_then (take_string ''status'' m) (\<lambda>(status, m).
     and_then (take_optional_time ''started_at'' ''started_at'' m) (\<lambda>(started_at, m).
     and_then (take_string ''git_repo_root'' m) (\<lambda>(git_repo_root, m).
     and_then (take_string ''worktree_path'' m) (\<lambda>(worktree_path, m).
     and_then (take_string ''branch_name'' m) (\<lambda>(branch_name, m).
     and_then (take_string ''base_branch'' m) (\<lambda>(base_branch, m).
     and_then (payload_plan ops (remove_field ''mission_path'' (remove_field ''linear_issue_id'' m))) (\<lambda>(plan, m).
       Inr \<lparr>ck_workspace_id = workspace_id, ck_domain = domain, ck_plan = plan, ck_status = status,
            ck_started_at = started_at, ck_git_repo_root = git_repo_root, ck_worktree_path = worktree_path,
            ck_branch_name = branch_name, ck_base_branch = base_branch, ck_extra = m,
            ck_envelope_extra = envelope_extra\<rparr>))))))))))"

definition decode_checkpoint ::
    "(string \<Rightarrow> 'n Value option) \<Rightarrow> ('n, 'f) number_ops \<Rightarrow> string \<Rightarrow> CheckpointError + ('n, 'f) DecodedCheckpoint" where
  "decode_checkpoint from_slice ops bytes =
     (case from_slice bytes of
        None \<Rightarrow> Inl CheckpointJson
      | Some (Object root) \<Rightarrow>
          (case (if non_empty_string (bt_get root ''workspace_id'')
                 then map_sum Some id (parse_checkpoint_payload ops root []) else Inl None) of
             Inr projection \<Rightarrow>
               Inr \<lparr>dc_source_shape = LegacyDirect, dc_projection = projection, dc_original = Object root\<rparr>
           | Inl legacy_error \<Rightarrow>
               let version = (case bt_get root ''version'' of Some (Number n) \<Rightarrow> num_as_u64 ops n | _ \<Rightarrow> None) in
               if version \<noteq> Some CHECKPOINT_ENVELOPE_VERSION
               then Inl (UnsupportedShape (NeitherShape legacy_error version))
               else
                 (case bt_get root ''payload'' of
                    Some (Object payload) \<Rightarrow>
                      if \<not> non_empty_string (bt_get payload ''workspace_id'')
                      then Inl (UnsupportedShape PayloadWorkspaceIdEmpty)
                      else
                        and_then
                          (parse_checkpoint_payload ops payload
                             (remove_field ''payload'' (remove_field ''version'' root)))
                          (\<lambda>projection.
                             Inr \<lparr>dc_source_shape = EnvelopeV1, dc_projection = projection,
                                  dc_original = Object root\<rparr>)
                  | _ \<Rightarrow> Inl (CheckpointInvalidField ''payload'' ''object'')))
      | Some _ \<Rightarrow> Inl CheckpointRootNotObject)"

section \<open>The current writer\<close>

text \<open>
  Each \<open>serialize_*\<close> helper yields the value it would write, or nothing; \<open>written\<close> are the entries in
  order.
\<close>

definition serialize_non_empty :: "string \<Rightarrow> 'n Value option" where
  "serialize_non_empty v = (if v \<noteq> [] then Some (String v) else None)"

definition serialize_non_empty_strings :: "string list \<Rightarrow> 'n Value option" where
  "serialize_non_empty_strings v = (if v \<noteq> [] then Some (Array (map String v)) else None)"

definition serialize_non_zero_i64 :: "('n, 'f) number_ops \<Rightarrow> int \<Rightarrow> 'n Value option" where
  "serialize_non_zero_i64 ops v = (if v \<noteq> 0 then Some (Number (num_of_int ops v)) else None)"

definition serialize_non_zero_f64 :: "('n, 'f) number_ops \<Rightarrow> 'f \<Rightarrow> 'n Value option" where
  "serialize_non_zero_f64 ops v = (if \<not> f64_is_zero ops v then Some (value_of_f64 ops v) else None)"

definition serialize_if_true :: "bool \<Rightarrow> 'n Value option" where
  "serialize_if_true v = (if v then Some (Bool True) else None)"

definition written :: "(string \<times> 'n Value option) list \<Rightarrow> (string \<times> 'n Value) list" where
  "written fs = List.map_filter (\<lambda>(k, v). map_option (Pair k) v) fs"

definition phase_fields :: "('n, 'f) number_ops \<Rightarrow> ('n, 'f) CheckpointPhase \<Rightarrow> (string \<times> 'n Value option) list" where
  "phase_fields ops p =
     [(''id'', Some (String (cp_id p))),
      (''name'', Some (String (cp_name p))),
      (''objective'', Some (String (cp_objective p))),
      (''persona'', Some (String (cp_persona p))),
      (''model_tier'', Some (String (cp_model_tier p))),
      (''skills'', Some (Array (map String (cp_skills p)))),
      (''constraints'', Some (Array (map String (cp_constraints p)))),
      (''dependencies'', Some (Array (map String (cp_dependencies p)))),
      (''expected'', Some (String (cp_expected p))),
      (''role'', serialize_non_empty (cp_role p)),
      (''target_dir'', serialize_non_empty (cp_target_dir p)),
      (''priority'', serialize_non_empty (cp_priority p)),
      (''runtime'', serialize_non_empty (cp_runtime p)),
      (''runtime_policy_applied'', serialize_if_true (cp_runtime_policy_applied p)),
      (''stall_timeout'', serialize_non_zero_i64 ops (cp_stall_timeout p)),
      (''status'', Some (String (cp_status p))),
      (''output'', serialize_non_empty (cp_output p)),
      (''error'', serialize_non_empty (cp_error p)),
      (''start_time'', serialize_non_empty (cp_start_time p)),
      (''end_time'', serialize_non_empty (cp_end_time p)),
      (''signal_remainder'', serialize_non_empty (cp_signal_remainder p)),
      (''retries'', serialize_non_zero_i64 ops (cp_retries p)),
      (''gate_passed'', serialize_if_true (cp_gate_passed p)),
      (''output_len'', serialize_non_zero_i64 ops (cp_output_len p)),
      (''parsed_skills'', serialize_non_empty_strings (cp_parsed_skills p)),
      (''learnings_retrieved'', serialize_non_zero_i64 ops (cp_learnings_retrieved p)),
      (''session_id'', serialize_non_empty (cp_session_id p)),
      (''persona_selection_method'', serialize_non_empty (cp_persona_selection_method p)),
      (''model'', serialize_non_empty (cp_model p)),
      (''tokens_in'', serialize_non_zero_i64 ops (cp_tokens_in p)),
      (''tokens_out'', serialize_non_zero_i64 ops (cp_tokens_out p)),
      (''tokens_cache_creation'', serialize_non_zero_i64 ops (cp_tokens_cache_creation p)),
      (''tokens_cache_read'', serialize_non_zero_i64 ops (cp_tokens_cache_read p)),
      (''cost_usd'', serialize_non_zero_f64 ops (cp_cost_usd p)),
      (''review_iteration'', serialize_non_zero_i64 ops (cp_review_iteration p)),
      (''origin_phase_id'', serialize_non_empty (cp_origin_phase_id p)),
      (''max_review_loops'', serialize_non_zero_i64 ops (cp_max_review_loops p)),
      (''parse_retry_count'', serialize_non_zero_i64 ops (cp_parse_retry_count p)),
      (''review_blockers'', serialize_non_empty_strings (cp_review_blockers p)),
      (''review_warnings'', serialize_non_empty_strings (cp_review_warnings p)),
      (''changed_files'', serialize_non_empty_strings (cp_changed_files p)),
      (''output_bytes'', serialize_non_zero_i64 ops (cp_output_bytes p)),
      (''worker'', serialize_non_empty (cp_worker p)),
      (''barok_applied'', serialize_non_zero_i64 ops (cp_barok_applied p)),
      (''barok_retry'', serialize_non_zero_i64 ops (cp_barok_retry p)),
      (''barok_validator_ms'', serialize_non_zero_i64 ops (cp_barok_validator_ms p)),
      (''barok_retry_validator_ms'', serialize_non_zero_i64 ops (cp_barok_retry_validator_ms p)),
      (''barok_first_run_session_id'', serialize_non_empty (cp_barok_first_run_session_id p))]"

definition phase_reserved :: "string \<Rightarrow> bool" where
  "phase_reserved key \<longleftrightarrow>
     key \<in> {''id'', ''name'', ''objective'', ''persona'', ''model_tier'',
       ''skills'', ''constraints'', ''dependencies'', ''expected'', ''role'',
       ''target_dir'', ''priority'', ''runtime'', ''runtime_policy_applied'', ''stall_timeout'',
       ''status'', ''output'', ''error'', ''start_time'', ''end_time'',
       ''signal_remainder'', ''retries'', ''gate_passed'', ''output_len'', ''parsed_skills'',
       ''learnings_retrieved'', ''session_id'', ''persona_selection_method'', ''model'', ''tokens_in'',
       ''tokens_out'', ''tokens_cache_creation'', ''tokens_cache_read'', ''cost_usd'', ''review_iteration'',
       ''origin_phase_id'', ''max_review_loops'', ''parse_retry_count'', ''review_blockers'', ''review_warnings'',
       ''changed_files'', ''output_bytes'', ''worker'', ''barok_applied'', ''barok_retry'',
       ''barok_validator_ms'', ''barok_retry_validator_ms'', ''barok_first_run_session_id''}"


definition CurrentPhase :: "('n, 'f) number_ops \<Rightarrow> ('n, 'f) CheckpointPhase \<Rightarrow> (string \<times> 'n Value) list" where
  "CurrentPhase ops p =
     filter (\<lambda>e. \<not> phase_reserved (fst e)) (cp_extra p) @ written (phase_fields ops p)"

definition plan_reserved :: "string \<Rightarrow> bool" where
  "plan_reserved key \<longleftrightarrow>
     key \<in> {''id'', ''task'', ''phases'', ''execution_mode'', ''decomp_source'', ''created_at''}"

definition or_zero_time :: "string \<Rightarrow> string" where
  "or_zero_time t = (if t = [] then GO_ZERO_TIME else t)"

definition plan_fields :: "('n, 'f) number_ops \<Rightarrow> ('n, 'f) CheckpointPlan \<Rightarrow> (string \<times> 'n Value option) list" where
  "plan_fields ops p =
     [(''id'', Some (String (cl_id p))), (''task'', Some (String (cl_task p))),
      (''phases'', Some (Array (map (\<lambda>ph. Object (CurrentPhase ops ph)) (cl_phases p)))),
      (''execution_mode'', Some (String (cl_execution_mode p))),
      (''decomp_source'', Some (String (cl_decomp_source p))),
      (''created_at'', Some (String (or_zero_time (cl_created_at p))))]"

definition CurrentPlan :: "('n, 'f) number_ops \<Rightarrow> ('n, 'f) CheckpointPlan \<Rightarrow> (string \<times> 'n Value) list" where
  "CurrentPlan ops p =
     filter (\<lambda>e. \<not> plan_reserved (fst e)) (cl_extra p) @ written (plan_fields ops p)"

definition checkpoint_payload_reserved :: "string \<Rightarrow> bool" where
  "checkpoint_payload_reserved key \<longleftrightarrow>
     key \<in> {''version'', ''workspace_id'', ''domain'', ''plan'', ''status'', ''started_at'', ''git_repo_root'',
       ''worktree_path'', ''branch_name'', ''base_branch'', ''linear_issue_id'', ''mission_path''}"

definition payload_fields ::
    "('n, 'f) number_ops \<Rightarrow> ('n, 'f) CheckpointProjection \<Rightarrow> (string \<times> 'n Value option) list" where
  "payload_fields ops c =
     [(''version'', Some (Number (num_of_int ops CHECKPOINT_PAYLOAD_VERSION))),
      (''workspace_id'', Some (String (ck_workspace_id c))), (''domain'', Some (String (ck_domain c))),
      (''plan'', Some (case ck_plan c of Some p \<Rightarrow> Object (CurrentPlan ops p) | None \<Rightarrow> Null)),
      (''status'', Some (String (ck_status c))),
      (''started_at'', Some (String (or_zero_time (ck_started_at c)))),
      (''git_repo_root'', serialize_non_empty (ck_git_repo_root c)),
      (''worktree_path'', serialize_non_empty (ck_worktree_path c)),
      (''branch_name'', serialize_non_empty (ck_branch_name c)),
      (''base_branch'', serialize_non_empty (ck_base_branch c))]"

definition CurrentPayload ::
    "('n, 'f) number_ops \<Rightarrow> ('n, 'f) CheckpointProjection \<Rightarrow> (string \<times> 'n Value) list" where
  "CurrentPayload ops c =
     filter (\<lambda>e. \<not> checkpoint_payload_reserved (fst e)) (ck_extra c) @ written (payload_fields ops c)"

definition CurrentCheckpoint ::
    "('n, 'f) number_ops \<Rightarrow> ('n, 'f) CheckpointProjection \<Rightarrow> (string \<times> 'n Value) list" where
  "CurrentCheckpoint ops c =
     filter (\<lambda>e. fst e \<noteq> ''version'' \<and> fst e \<noteq> ''payload'') (ck_envelope_extra c) @
     [(''version'', Number (num_of_int ops CHECKPOINT_ENVELOPE_VERSION)),
      (''payload'', Object (CurrentPayload ops c))]"

definition validate_current_plan_fields ::
    "('n, 'f) number_ops \<Rightarrow> ('n, 'f) CheckpointPlan \<Rightarrow> CheckpointError + unit" where
  "validate_current_plan_fields ops plan =
     (if cl_created_at plan \<noteq> [] \<and> \<not> is_rfc3339 (cl_created_at plan)
      then Inl (CheckpointInvalidField ''plan.created_at'' ''RFC3339 string'')
      else
        try_each (\<lambda>phase.
            and_then
              (try_each (\<lambda>(field, v).
                   if v \<noteq> [] \<and> \<not> is_rfc3339 v
                   then Inl (CheckpointInvalidField (''plan.phases[].'' @ field) ''RFC3339 string'') else Inr ())
                 [(''start_time'', cp_start_time phase), (''end_time'', cp_end_time phase)])
              (\<lambda>_. validate_phase_fields ops (cp_extra phase)))
          (cl_phases plan))"

text \<open>
  The writers: serde's text of the entries in their order, indented (\<open>serde_json::to_string_pretty\<close> is the
  parameter \<open>to_string_pretty\<close>, \<open>None\<close> its error), escaped as Go escapes it.
\<close>

definition written_text :: "('n Value \<Rightarrow> string option) \<Rightarrow> 'n Value \<Rightarrow> CheckpointError + string" where
  "written_text to_string_pretty v =
     (case to_string_pretty v of None \<Rightarrow> Inl CheckpointJson | Some json \<Rightarrow> Inr (escape_go_json_for_html json))"

definition encode_current_checkpoint ::
    "('n Value \<Rightarrow> string option) \<Rightarrow> ('n, 'f) number_ops \<Rightarrow> ('n, 'f) CheckpointProjection \<Rightarrow> CheckpointError + string" where
  "encode_current_checkpoint to_string_pretty ops c =
     (if ck_workspace_id c = [] then Inl (UnsupportedShape CurrentWorkspaceIdEmpty)
      else if ck_started_at c \<noteq> [] \<and> \<not> is_rfc3339 (ck_started_at c)
      then Inl (CheckpointInvalidField ''started_at'' ''RFC3339 string'')
      else
        and_then (case ck_plan c of Some plan \<Rightarrow> validate_current_plan_fields ops plan | None \<Rightarrow> Inr ()) (\<lambda>_.
          written_text to_string_pretty (Object (CurrentCheckpoint ops c))))"

definition encode_current_plan ::
    "('n Value \<Rightarrow> string option) \<Rightarrow> ('n, 'f) number_ops \<Rightarrow> ('n, 'f) CheckpointPlan \<Rightarrow> CheckpointError + string" where
  "encode_current_plan to_string_pretty ops plan =
     and_then (validate_current_plan_fields ops plan) (\<lambda>_. written_text to_string_pretty (Object (CurrentPlan ops plan)))"

text \<open>The preserving writer emits the value that was read (\<open>serde_json::to_vec\<close>), without that escaping.\<close>

definition encode_preserved_checkpoint ::
    "('n Value \<Rightarrow> string option) \<Rightarrow> ('n, 'f) DecodedCheckpoint \<Rightarrow> CheckpointError + string" where
  "encode_preserved_checkpoint to_vec d =
     (case to_vec (dc_original d) of None \<Rightarrow> Inl CheckpointJson | Some bytes \<Rightarrow> Inr bytes)"

end
