(* ===== verification/Checkpoint_Correct.thy ===== *)
theory Checkpoint_Correct
  imports Checkpoint Event_Log
begin

text \<open>
  What the checkpoint writer writes, the decoder reads back: the same projection with zero times
  filled in and the unknown fields that collide with known ones dropped.
\<close>

section \<open>Values as they are read\<close>

text \<open>
  Reading a written object sorts its members, at every level. A number that was printed and read need
  not be the same number: serde reads a fraction with a rounding of its own unless told otherwise. What
  becomes of a number is \<open>rd\<close>.
\<close>

fun as_read :: "('n \<Rightarrow> 'n) \<Rightarrow> 'n Value \<Rightarrow> 'n Value" where
  "as_read rd (Array vs) = Array (map (as_read rd) vs)"
| "as_read rd (Object es) = Object (bt_collect (map (\<lambda>e. (fst e, as_read rd (snd e))) es))"
| "as_read rd (Number n) = Number (rd n)"
| "as_read rd v = v"

definition reread :: "('n \<Rightarrow> 'n) \<Rightarrow> 'n JsonMap \<Rightarrow> 'n JsonMap" where
  "reread rd m = map (map_prod id (map_Value rd)) m"

lemma reread_get: "bt_get (reread rd m) k = map_option (map_Value rd) (bt_get m k)"
  by (induction m) (auto simp: reread_def bt_get_def)

lemma reread_filter: "filter (\<lambda>e. P (fst e)) (reread rd m) = reread rd (filter (\<lambda>e. P (fst e)) m)"
  by (induction m) (auto simp: reread_def)

lemma reread_wf: "bt_wf (reread rd m) \<longleftrightarrow> bt_wf m"
  by (simp add: reread_def bt_wf_def comp_def)

definition read_object :: "('n \<Rightarrow> 'n) \<Rightarrow> (string \<times> 'n Value) list \<Rightarrow> 'n JsonMap" where
  "read_object rd es = bt_collect (map (\<lambda>e. (fst e, as_read rd (snd e))) es)"

lemma as_read_Object: "as_read rd (Object es) = Object (read_object rd es)"
  by (simp add: read_object_def)

lemma as_read_wf: "maps_wf v \<Longrightarrow> as_read rd v = map_Value rd v"
proof (induction v)
  case (Object es)
  have "map (\<lambda>e. (fst e, as_read rd (snd e))) es = reread rd es"
    using Object unfolding reread_def by (intro map_cong) (auto simp: prod_eq_iff snds.simps intro: snds.intros)
  then show ?case using Object.prems by (simp add: bt_collect_sorted reread_wf) (simp add: reread_def)
qed simp_all

definition carried :: "'n JsonMap \<Rightarrow> bool" where
  "carried m \<longleftrightarrow> bt_wf m \<and> (\<forall>e\<in>set m. maps_wf (snd e))"

lemma carried_wf: "carried m \<Longrightarrow> bt_wf m"
  by (simp add: carried_def)

lemma written_get:
  "distinct (map fst fs) \<Longrightarrow>
     map_of (written fs) k = (case map_of fs k of Some v \<Rightarrow> v | None \<Rightarrow> None)"
proof (induction fs)
  case (Cons f fs)
  obtain k' v where f: "f = (k', v)" by (cases f)
  have "k' \<notin> set (map fst fs)" using Cons.prems f by simp
  then have "map_of fs k' = None" by (simp add: map_of_eq_None_iff)
  then show ?case using Cons by (cases v) (auto simp: f written_def map_filter_simps)
qed (simp add: written_def map_filter_simps)

lemma written_keys: "set (map fst (written fs)) \<subseteq> set (map fst fs)"
  by (induction fs) (auto simp: written_def map_filter_simps split: option.splits)

lemma written_Cons:
  "written ((k, v) # fs) = (case v of Some x \<Rightarrow> (k, x) # written fs | None \<Rightarrow> written fs)"
  by (cases v) (simp_all add: written_def map_filter_simps)

lemma written_distinct: "distinct (map fst fs) \<Longrightarrow> distinct (map fst (written fs))"
proof (induction fs)
  case (Cons f fs)
  obtain k v where f: "f = (k, v)" by (cases f)
  have "k \<notin> set (map fst (written fs))" using written_keys [of fs] Cons.prems f by auto
  then show ?case using Cons f by (cases v) (simp_all add: written_Cons)
qed (simp add: written_def map_filter_simps)

lemma written_object_get:
  assumes "carried extra" "distinct (map fst fs)" "\<forall>k\<in>set (map fst fs). reserved k"
  shows "bt_get (read_object rd (filter (\<lambda>e. \<not> reserved (fst e)) extra @ written fs)) k
    = (case map_of fs k of
         Some v \<Rightarrow> map_option (as_read rd) v
       | None \<Rightarrow> if reserved k then None else bt_get (reread rd extra) k)"
proof -
  let ?kept = "filter (\<lambda>e. \<not> reserved (fst e)) extra"
  let ?read = "map (\<lambda>e. (fst e, as_read rd (snd e)))"
  have wf: "bt_wf ?kept" using assms(1) by (simp add: carried_def bt_wf_filter)
  have kept: "?read ?kept = reread rd ?kept"
    using assms(1) unfolding reread_def by (intro map_cong) (auto simp: carried_def as_read_wf prod_eq_iff)
  have "distinct (map fst (?kept @ written fs))"
    using wf written_distinct [OF assms(2)] written_keys [of fs] assms(3)
    by (fastforce simp: bt_wf_def strict_sorted_iff)
  then have "distinct (map fst (?read (?kept @ written fs)))" by (simp add: comp_def)
  then have "bt_get (read_object rd (?kept @ written fs)) k = map_of (?read (?kept @ written fs)) k"
    unfolding read_object_def by (rule bt_collect_get_distinct)
  also have "\<dots> = (case map_of (reread rd ?kept) k of Some v \<Rightarrow> Some v | None \<Rightarrow> map_of (?read (written fs)) k)"
    by (simp add: kept map_add_def split: option.split)
  also have "map_of (?read (written fs)) k = map_option (as_read rd) (map_of (written fs) k)"
    by (induction fs) (auto simp: written_Cons split: option.split simp: written_def map_filter_simps(2))
  also have "map_of (reread rd ?kept) k = (if reserved k then None else bt_get (reread rd extra) k)"
    by (induction extra) (auto simp: reread_def bt_get_def)
  finally have get: "bt_get (read_object rd (?kept @ written fs)) k
      = (case if reserved k then None else bt_get (reread rd extra) k of
           Some v \<Rightarrow> Some v | None \<Rightarrow> map_option (as_read rd) (map_of (written fs) k))" .
  show ?thesis
  proof (cases "map_of fs k")
    case None
    then show ?thesis by (simp add: get written_get [OF assms(2)] split: option.split)
  next
    case (Some v)
    then have "reserved k" using assms(3) by (auto dest!: map_of_SomeD)
    then show ?thesis by (simp add: get written_get [OF assms(2)] Some)
  qed
qed

lemma remaining_fields:
  assumes "carried extra" "bt_wf m"
    and "\<And>k. bt_get m k = (if reserved k then None else bt_get (reread rd extra) k)"
  shows "m = reread rd (filter (\<lambda>e. \<not> reserved (fst e)) extra)"
proof (rule sorted_entries_eq [OF assms(2)])
  show "bt_wf (reread rd (filter (\<lambda>e. \<not> reserved (fst e)) extra))"
    using assms(1) by (simp add: carried_def reread_wf bt_wf_filter)
  show "bt_get m k = bt_get (reread rd (filter (\<lambda>e. \<not> reserved (fst e)) extra)) k" for k
    unfolding assms(3) reread_get by (induction extra) (auto simp: bt_get_def)
qed

section \<open>Reading a written field\<close>

text \<open>Each reader of a field, applied to any map that agrees with the written one on that field.\<close>

definition is_i64 :: "int \<Rightarrow> bool" where
  "is_i64 i \<longleftrightarrow> - I64_MAX - 1 \<le> i \<and> i \<le> I64_MAX"

definition number_ops_ok :: "('n \<Rightarrow> 'n) \<Rightarrow> ('n, 'f) number_ops \<Rightarrow> bool" where
  "number_ops_ok rd ops \<longleftrightarrow>
     (\<forall>i. is_i64 i \<longrightarrow> num_as_i64 ops (num_of_int ops i) = Some i \<and> rd (num_of_int ops i) = num_of_int ops i) \<and>
     num_as_u64 ops (num_of_int ops CHECKPOINT_ENVELOPE_VERSION) = Some CHECKPOINT_ENVELOPE_VERSION"

lemma take_string_written:
  "bt_get m0 n = Some (String v) \<Longrightarrow> bt_get m n = bt_get m0 n \<Longrightarrow> take_string n m = Inr (v, remove_field n m)"
  "bt_get m0 n = serialize_non_empty v \<Longrightarrow> bt_get m n = bt_get m0 n \<Longrightarrow> take_string n m = Inr (v, remove_field n m)"
  by (simp_all add: take_string_def serialize_non_empty_def)

lemma strings_of_map: "strings_of n (map String ss) = Inr ss"
  by (induction ss) (simp_all add: and_then_def)

lemma take_strings_written:
  "bt_get m0 n = Some (Array (map String v)) \<Longrightarrow> bt_get m n = bt_get m0 n \<Longrightarrow>
     take_strings n m = Inr (v, remove_field n m)"
  "bt_get m0 n = serialize_non_empty_strings v \<Longrightarrow> bt_get m n = bt_get m0 n \<Longrightarrow>
     take_strings n m = Inr (v, remove_field n m)"
  by (simp_all add: take_strings_def serialize_non_empty_strings_def strings_of_map and_then_def)

lemma take_time_written:
  "bt_get m0 n = serialize_non_empty v \<Longrightarrow> bt_get m n = bt_get m0 n \<Longrightarrow> v = [] \<or> is_rfc3339 v \<Longrightarrow>
     take_optional_time n f m = Inr (v, remove_field n m)"
  by (auto simp: take_optional_time_def serialize_non_empty_def)

lemma take_bool_written:
  "bt_get m0 n = serialize_if_true v \<Longrightarrow> bt_get m n = bt_get m0 n \<Longrightarrow> take_bool n m = Inr (v, remove_field n m)"
  by (simp add: take_bool_def serialize_if_true_def)

lemma take_i64_written:
  "bt_get m0 n = serialize_non_zero_i64 ops v \<Longrightarrow> bt_get m n = bt_get m0 n \<Longrightarrow>
     number_ops_ok rd ops \<Longrightarrow> is_i64 v \<Longrightarrow> take_i64 ops n m = Inr (v, remove_field n m)"
  by (simp add: take_i64_def serialize_non_zero_i64_def as_i64_def number_ops_ok_def)

text \<open>A cost other than zero is written as a number, and what that number becomes is read as a cost.\<close>

definition cost_ok :: "('n \<Rightarrow> 'n) \<Rightarrow> ('n, 'f) number_ops \<Rightarrow> 'f \<Rightarrow> bool" where
  "cost_ok rd ops x \<longleftrightarrow>
     f64_is_zero ops x \<or> (case value_of_f64 ops x of Number n \<Rightarrow> num_as_f64 ops (rd n) \<noteq> None | _ \<Rightarrow> False)"

definition read_cost :: "('n \<Rightarrow> 'n) \<Rightarrow> ('n, 'f) number_ops \<Rightarrow> 'f \<Rightarrow> 'f" where
  "read_cost rd ops x =
     (if f64_is_zero ops x then f64_zero ops
      else case value_of_f64 ops x of Number n \<Rightarrow> (case num_as_f64 ops (rd n) of Some y \<Rightarrow> y | None \<Rightarrow> x) | _ \<Rightarrow> x)"

lemma take_f64_written:
  "bt_get m0 n = map_option (as_read rd) (serialize_non_zero_f64 ops v) \<Longrightarrow> bt_get m n = bt_get m0 n \<Longrightarrow>
     cost_ok rd ops v \<Longrightarrow> take_f64 ops n m = Inr (read_cost rd ops v, remove_field n m)"
  by (auto simp: take_f64_def serialize_non_zero_f64_def cost_ok_def read_cost_def split: Value.splits)

section \<open>Phases\<close>

definition phase_object :: "('n \<Rightarrow> 'n) \<Rightarrow> ('n, 'f) number_ops \<Rightarrow> ('n, 'f) CheckpointPhase \<Rightarrow> 'n JsonMap" where
  "phase_object rd ops p = read_object rd (CurrentPhase ops p)"

definition phase_ints :: "('n, 'f) CheckpointPhase \<Rightarrow> int list" where
  "phase_ints p =
     [cp_stall_timeout p,
      cp_retries p,
      cp_output_len p,
      cp_learnings_retrieved p,
      cp_tokens_in p,
      cp_tokens_out p,
      cp_tokens_cache_creation p,
      cp_tokens_cache_read p,
      cp_review_iteration p,
      cp_max_review_loops p,
      cp_parse_retry_count p,
      cp_output_bytes p,
      cp_barok_applied p,
      cp_barok_retry p,
      cp_barok_validator_ms p,
      cp_barok_retry_validator_ms p]"

definition phase_wf :: "('n \<Rightarrow> 'n) \<Rightarrow> ('n, 'f) number_ops \<Rightarrow> ('n, 'f) CheckpointPhase \<Rightarrow> bool" where
  "phase_wf rd ops p \<longleftrightarrow> carried (cp_extra p) \<and> list_all is_i64 (phase_ints p) \<and> cost_ok rd ops (cp_cost_usd p)"

definition phase_times :: "('n, 'f) CheckpointPhase \<Rightarrow> bool" where
  "phase_times p \<longleftrightarrow>
     (cp_start_time p = [] \<or> is_rfc3339 (cp_start_time p)) \<and> (cp_end_time p = [] \<or> is_rfc3339 (cp_end_time p))"

lemma phase_keys: "distinct (map fst (phase_fields ops p))"
  "k \<in> set (map fst (phase_fields ops p)) \<longleftrightarrow> phase_reserved k"
  by (simp add: phase_fields_def) (auto simp: phase_fields_def phase_reserved_def)

lemma phase_object_get:
  assumes "carried (cp_extra p)"
  shows "bt_get (phase_object rd ops p) k
    = (case map_of (phase_fields ops p) k of Some v \<Rightarrow> map_option (as_read rd) v | None \<Rightarrow> bt_get (reread rd (cp_extra p)) k)"
proof -
  have "\<forall>k\<in>set (map fst (phase_fields ops p)). phase_reserved k" using phase_keys(2) by blast
  note get = written_object_get [OF assms phase_keys(1) [of ops p] this, of rd k]
  show ?thesis
  proof (cases "map_of (phase_fields ops p) k")
    case None
    then have "\<not> phase_reserved k" using phase_keys(2) [of k ops p] by (simp add: map_of_eq_None_iff)
    then show ?thesis using get None by (simp add: phase_object_def CurrentPhase_def)
  next
    case (Some v)
    then show ?thesis using get by (simp add: phase_object_def CurrentPhase_def)
  qed
qed

lemma as_read_written [simp]:
  "map_option (as_read rd) (serialize_non_empty v) = serialize_non_empty v"
  "map_option (as_read rd) (serialize_non_empty_strings w) = serialize_non_empty_strings w"
  "map_option (as_read rd) (serialize_if_true b) = serialize_if_true b"
  "number_ops_ok rd ops \<Longrightarrow> is_i64 i \<Longrightarrow>
     map_option (as_read rd) (serialize_non_zero_i64 ops i) = serialize_non_zero_i64 ops i"
  by (simp_all add: serialize_non_empty_def serialize_non_empty_strings_def serialize_non_zero_i64_def
      serialize_if_true_def number_ops_ok_def)

lemma as_read_strings [simp]: "as_read rd \<circ> String = String"
  by (rule ext) simp

lemma phase_extra: "phase_wf rd ops p \<Longrightarrow> carried (cp_extra p)"
  by (simp add: phase_wf_def)

lemma phase_numbers:
  assumes "number_ops_ok rd ops" "phase_wf rd ops p"
  shows "list_all (\<lambda>i. map_option (as_read rd) (serialize_non_zero_i64 ops i) = serialize_non_zero_i64 ops i) (phase_ints p)"
  using assms by (simp add: phase_wf_def list_all_iff)

lemma phase_fields_read:
  assumes "phase_wf rd ops p"
  shows "list_all (\<lambda>(k, v). bt_get (phase_object rd ops p) k = map_option (as_read rd) v) (phase_fields ops p)"
  unfolding phase_object_get [OF phase_extra [OF assms]] list_all_iff
  by (auto simp: map_of_is_SomeI [OF phase_keys(1)])

lemma phase_lookup:
  assumes "number_ops_ok rd ops" "phase_wf rd ops p"
  shows
    "bt_get (phase_object rd ops p) ''id'' = Some (String (cp_id p))"
    "bt_get (phase_object rd ops p) ''name'' = Some (String (cp_name p))"
    "bt_get (phase_object rd ops p) ''objective'' = Some (String (cp_objective p))"
    "bt_get (phase_object rd ops p) ''persona'' = Some (String (cp_persona p))"
    "bt_get (phase_object rd ops p) ''model_tier'' = Some (String (cp_model_tier p))"
    "bt_get (phase_object rd ops p) ''skills'' = Some (Array (map String (cp_skills p)))"
    "bt_get (phase_object rd ops p) ''constraints'' = Some (Array (map String (cp_constraints p)))"
    "bt_get (phase_object rd ops p) ''dependencies'' = Some (Array (map String (cp_dependencies p)))"
    "bt_get (phase_object rd ops p) ''expected'' = Some (String (cp_expected p))"
    "bt_get (phase_object rd ops p) ''role'' = serialize_non_empty (cp_role p)"
    "bt_get (phase_object rd ops p) ''target_dir'' = serialize_non_empty (cp_target_dir p)"
    "bt_get (phase_object rd ops p) ''priority'' = serialize_non_empty (cp_priority p)"
    "bt_get (phase_object rd ops p) ''runtime'' = serialize_non_empty (cp_runtime p)"
    "bt_get (phase_object rd ops p) ''runtime_policy_applied'' = serialize_if_true (cp_runtime_policy_applied p)"
    "bt_get (phase_object rd ops p) ''stall_timeout'' = serialize_non_zero_i64 ops (cp_stall_timeout p)"
    "bt_get (phase_object rd ops p) ''status'' = Some (String (cp_status p))"
    "bt_get (phase_object rd ops p) ''output'' = serialize_non_empty (cp_output p)"
    "bt_get (phase_object rd ops p) ''error'' = serialize_non_empty (cp_error p)"
    "bt_get (phase_object rd ops p) ''start_time'' = serialize_non_empty (cp_start_time p)"
    "bt_get (phase_object rd ops p) ''end_time'' = serialize_non_empty (cp_end_time p)"
    "bt_get (phase_object rd ops p) ''signal_remainder'' = serialize_non_empty (cp_signal_remainder p)"
    "bt_get (phase_object rd ops p) ''retries'' = serialize_non_zero_i64 ops (cp_retries p)"
    "bt_get (phase_object rd ops p) ''gate_passed'' = serialize_if_true (cp_gate_passed p)"
    "bt_get (phase_object rd ops p) ''output_len'' = serialize_non_zero_i64 ops (cp_output_len p)"
    "bt_get (phase_object rd ops p) ''parsed_skills'' = serialize_non_empty_strings (cp_parsed_skills p)"
    "bt_get (phase_object rd ops p) ''learnings_retrieved'' = serialize_non_zero_i64 ops (cp_learnings_retrieved p)"
    "bt_get (phase_object rd ops p) ''session_id'' = serialize_non_empty (cp_session_id p)"
    "bt_get (phase_object rd ops p) ''persona_selection_method'' = serialize_non_empty (cp_persona_selection_method p)"
    "bt_get (phase_object rd ops p) ''model'' = serialize_non_empty (cp_model p)"
    "bt_get (phase_object rd ops p) ''tokens_in'' = serialize_non_zero_i64 ops (cp_tokens_in p)"
    "bt_get (phase_object rd ops p) ''tokens_out'' = serialize_non_zero_i64 ops (cp_tokens_out p)"
    "bt_get (phase_object rd ops p) ''tokens_cache_creation'' = serialize_non_zero_i64 ops (cp_tokens_cache_creation p)"
    "bt_get (phase_object rd ops p) ''tokens_cache_read'' = serialize_non_zero_i64 ops (cp_tokens_cache_read p)"
    "bt_get (phase_object rd ops p) ''cost_usd'' = map_option (as_read rd) (serialize_non_zero_f64 ops (cp_cost_usd p))"
    "bt_get (phase_object rd ops p) ''review_iteration'' = serialize_non_zero_i64 ops (cp_review_iteration p)"
    "bt_get (phase_object rd ops p) ''origin_phase_id'' = serialize_non_empty (cp_origin_phase_id p)"
    "bt_get (phase_object rd ops p) ''max_review_loops'' = serialize_non_zero_i64 ops (cp_max_review_loops p)"
    "bt_get (phase_object rd ops p) ''parse_retry_count'' = serialize_non_zero_i64 ops (cp_parse_retry_count p)"
    "bt_get (phase_object rd ops p) ''review_blockers'' = serialize_non_empty_strings (cp_review_blockers p)"
    "bt_get (phase_object rd ops p) ''review_warnings'' = serialize_non_empty_strings (cp_review_warnings p)"
    "bt_get (phase_object rd ops p) ''changed_files'' = serialize_non_empty_strings (cp_changed_files p)"
    "bt_get (phase_object rd ops p) ''output_bytes'' = serialize_non_zero_i64 ops (cp_output_bytes p)"
    "bt_get (phase_object rd ops p) ''worker'' = serialize_non_empty (cp_worker p)"
    "bt_get (phase_object rd ops p) ''barok_applied'' = serialize_non_zero_i64 ops (cp_barok_applied p)"
    "bt_get (phase_object rd ops p) ''barok_retry'' = serialize_non_zero_i64 ops (cp_barok_retry p)"
    "bt_get (phase_object rd ops p) ''barok_validator_ms'' = serialize_non_zero_i64 ops (cp_barok_validator_ms p)"
    "bt_get (phase_object rd ops p) ''barok_retry_validator_ms'' = serialize_non_zero_i64 ops (cp_barok_retry_validator_ms p)"
    "bt_get (phase_object rd ops p) ''barok_first_run_session_id'' = serialize_non_empty (cp_barok_first_run_session_id p)"
  using phase_fields_read [OF assms(2), unfolded phase_fields_def list.pred_inject prod.case,
    simplified as_read_written(1-3) phase_numbers [OF assms, unfolded phase_ints_def list.pred_inject], simplified]
  by - (elim conjE, assumption)+

lemmas phase_readers =
  take_string_written(1) [OF phase_lookup(1)]
  take_string_written(1) [OF phase_lookup(2)]
  take_string_written(1) [OF phase_lookup(3)]
  take_string_written(1) [OF phase_lookup(4)]
  take_string_written(1) [OF phase_lookup(5)]
  take_strings_written(1) [OF phase_lookup(6)]
  take_strings_written(1) [OF phase_lookup(7)]
  take_strings_written(1) [OF phase_lookup(8)]
  take_string_written(1) [OF phase_lookup(9)]
  take_string_written(2) [OF phase_lookup(10)]
  take_string_written(2) [OF phase_lookup(11)]
  take_string_written(2) [OF phase_lookup(12)]
  take_string_written(2) [OF phase_lookup(13)]
  take_bool_written [OF phase_lookup(14)]
  take_i64_written [OF phase_lookup(15)]
  take_string_written(1) [OF phase_lookup(16)]
  take_string_written(2) [OF phase_lookup(17)]
  take_string_written(2) [OF phase_lookup(18)]
  take_time_written [OF phase_lookup(19)]
  take_time_written [OF phase_lookup(20)]
  take_string_written(2) [OF phase_lookup(21)]
  take_i64_written [OF phase_lookup(22)]
  take_bool_written [OF phase_lookup(23)]
  take_i64_written [OF phase_lookup(24)]
  take_strings_written(2) [OF phase_lookup(25)]
  take_i64_written [OF phase_lookup(26)]
  take_string_written(2) [OF phase_lookup(27)]
  take_string_written(2) [OF phase_lookup(28)]
  take_string_written(2) [OF phase_lookup(29)]
  take_i64_written [OF phase_lookup(30)]
  take_i64_written [OF phase_lookup(31)]
  take_i64_written [OF phase_lookup(32)]
  take_i64_written [OF phase_lookup(33)]
  take_f64_written [OF phase_lookup(34)]
  take_i64_written [OF phase_lookup(35)]
  take_string_written(2) [OF phase_lookup(36)]
  take_i64_written [OF phase_lookup(37)]
  take_i64_written [OF phase_lookup(38)]
  take_strings_written(2) [OF phase_lookup(39)]
  take_strings_written(2) [OF phase_lookup(40)]
  take_strings_written(2) [OF phase_lookup(41)]
  take_i64_written [OF phase_lookup(42)]
  take_string_written(2) [OF phase_lookup(43)]
  take_i64_written [OF phase_lookup(44)]
  take_i64_written [OF phase_lookup(45)]
  take_i64_written [OF phase_lookup(46)]
  take_i64_written [OF phase_lookup(47)]
  take_string_written(2) [OF phase_lookup(48)]

end
