(* ===== verification/Checkpoint_Roundtrip.thy ===== *)
theory Checkpoint_Roundtrip
  imports Checkpoint_Correct Json_Html
begin

text \<open>
  Whole phases, plans and checkpoints through the writer and back: the fields validate, every reader
  returns what was written, and what remains is the carried map without the keys the writer owns.
\<close>

section \<open>Phases\<close>

lemma fold_remove_field:
  "bt_get (fold remove_field ks m) k = (if k \<in> set ks then None else bt_get m k)"
  "bt_wf m \<Longrightarrow> bt_wf (fold remove_field ks m)"
  by (induction ks arbitrary: m) auto

lemma removed_fields:
  assumes "carried extra" "distinct (map fst fs)" "\<And>k. k \<in> set (map fst fs) \<Longrightarrow> reserved k"
    and "set ks = {k. reserved k}"
  shows "fold remove_field ks (read_object rd (filter (\<lambda>e. \<not> reserved (fst e)) extra @ written fs))
    = reread rd (filter (\<lambda>e. \<not> reserved (fst e)) extra)"
    (is "fold remove_field ks ?m = _")
proof (rule remaining_fields [OF assms(1)])
  show "bt_wf (fold remove_field ks ?m)" by (rule fold_remove_field(2)) (simp add: read_object_def bt_collect_wf)
  show "bt_get (fold remove_field ks ?m) k = (if reserved k then None else bt_get (reread rd extra) k)" for k
  proof (cases "reserved k")
    case True
    then show ?thesis using assms(4) by (simp add: fold_remove_field(1))
  next
    case False
    then have "map_of fs k = None" using assms(3) by (auto simp: map_of_eq_None_iff)
    then show ?thesis
      using written_object_get [OF assms(1,2), of reserved rd k] assms(3,4) False
      by (simp add: fold_remove_field(1))
  qed
qed

definition current_phase :: "('n \<Rightarrow> 'n) \<Rightarrow> ('n, 'f) number_ops \<Rightarrow> ('n, 'f) CheckpointPhase \<Rightarrow> ('n, 'f) CheckpointPhase" where
  "current_phase rd ops p =
     p\<lparr>cp_cost_usd := read_cost rd ops (cp_cost_usd p),
       cp_extra := reread rd (filter (\<lambda>e. \<not> phase_reserved (fst e)) (cp_extra p))\<rparr>"

lemma validate_written:
  "bt_get m f = serialize_non_empty v \<Longrightarrow> validate_optional m f x is_string = Inr ()"
  "bt_get m f = serialize_if_true b \<Longrightarrow>
     validate_optional m f x (\<lambda>v. case v of Bool _ \<Rightarrow> True | _ \<Rightarrow> False) = Inr ()"
  "bt_get m f = serialize_non_zero_i64 ops i \<Longrightarrow> number_ops_ok rd ops \<Longrightarrow> is_i64 i \<Longrightarrow>
     validate_optional m f x (\<lambda>v. as_i64 ops v \<noteq> None) = Inr ()"
  "bt_get m f = serialize_non_empty_strings w \<Longrightarrow>
     validate_optional m f x (\<lambda>v. case v of Array vs \<Rightarrow> list_all is_string vs | _ \<Rightarrow> False) = Inr ()"
  "bt_get m f = map_option (as_read rd) (serialize_non_zero_f64 ops c) \<Longrightarrow> cost_ok rd ops c \<Longrightarrow>
     validate_optional m f x (\<lambda>v. case v of Number _ \<Rightarrow> True | _ \<Rightarrow> False) = Inr ()"
  "bt_get m f = serialize_non_empty v \<Longrightarrow> v = [] \<or> is_rfc3339 v \<Longrightarrow>
     validate_optional m f x (\<lambda>v. case v of String s \<Rightarrow> is_rfc3339 s | _ \<Rightarrow> False) = Inr ()"
  by (auto simp: validate_optional_def serialize_non_empty_def serialize_if_true_def serialize_non_zero_i64_def
      serialize_non_empty_strings_def serialize_non_zero_f64_def number_ops_ok_def as_i64_def is_string_def
      list_all_iff cost_ok_def split: Value.splits)

lemma each_ok:
  "try_each f [] = Inr ()"
  "f x = Inr () \<Longrightarrow> try_each f xs = Inr () \<Longrightarrow> try_each f (x # xs) = Inr ()"
  by (simp_all add: and_then_def)

lemma phase_object_valid:
  assumes ops: "number_ops_ok rd ops" and wf: "phase_wf rd ops p" and times: "phase_times p"
  shows "validate_phase_fields ops (phase_object rd ops p) = Inr ()"
proof -
  note get = phase_lookup [OF ops wf]
  have ints: "list_all is_i64 (phase_ints p)" and cost: "cost_ok rd ops (cp_cost_usd p)"
    using wf by (simp_all add: phase_wf_def)
  have "try_each (\<lambda>field. validate_optional (phase_object rd ops p) field x is_string) STRINGS = Inr ()" for x
    unfolding STRINGS_def by (intro each_ok; rule validate_written(1); rule get)
  moreover have "try_each (\<lambda>field. validate_optional (phase_object rd ops p) field x
      (\<lambda>v. case v of Bool _ \<Rightarrow> True | _ \<Rightarrow> False)) BOOLEANS = Inr ()" for x
    unfolding BOOLEANS_def by (intro each_ok; rule validate_written(2); rule get)
  moreover have "try_each (\<lambda>field. validate_optional (phase_object rd ops p) field x
      (\<lambda>v. as_i64 ops v \<noteq> None)) INTEGERS = Inr ()" for x
    unfolding INTEGERS_def
    by (intro each_ok; rule validate_written(3) [OF _ ops]; (rule get)?)
      (use ints in \<open>simp_all add: phase_ints_def\<close>)
  moreover have "try_each (\<lambda>field. validate_optional (phase_object rd ops p) field x
      (\<lambda>v. case v of Array vs \<Rightarrow> list_all is_string vs | _ \<Rightarrow> False)) STRING_ARRAYS = Inr ()" for x
    unfolding STRING_ARRAYS_def by (intro each_ok; rule validate_written(4); rule get)
  moreover have "validate_optional (phase_object rd ops p) ''cost_usd'' x
      (\<lambda>v. case v of Number _ \<Rightarrow> True | _ \<Rightarrow> False) = Inr ()" for x
    by (rule validate_written(5) [OF _ cost]) (rule get)
  moreover have "try_each (\<lambda>field. validate_optional (phase_object rd ops p) field x
      (\<lambda>v. case v of String s \<Rightarrow> is_rfc3339 s | _ \<Rightarrow> False)) [''start_time'', ''end_time''] = Inr ()" for x
    by (intro each_ok; rule validate_written(6); (rule get)?)
      (use times in \<open>simp_all add: phase_times_def\<close>)
  ultimately show ?thesis unfolding validate_phase_fields_def by (simp add: and_then_def)
qed


lemma phase_rest:
  assumes "phase_wf rd ops p"
  shows "fold remove_field (map fst (phase_fields ops p)) (phase_object rd ops p)
    = reread rd (filter (\<lambda>e. \<not> phase_reserved (fst e)) (cp_extra p))"
  unfolding phase_object_def CurrentPhase_def
proof (rule removed_fields)
  show "carried (cp_extra p)" using assms by (simp add: phase_wf_def)
  show "distinct (map fst (phase_fields ops p))" by (rule phase_keys(1))
  show "set (map fst (phase_fields ops p)) = {k. phase_reserved k}" using phase_keys(2) by blast
  show "phase_reserved k" if "k \<in> set (map fst (phase_fields ops p))" for k using that phase_keys(2) by blast
qed

lemma parse_phase_written:
  assumes ops: "number_ops_ok rd ops" and wf: "phase_wf rd ops p" and times: "phase_times p"
  shows "parse_phase ops (phase_object rd ops p) = Inr (current_phase rd ops p)"
proof -
  have ints: "list_all is_i64 (phase_ints p)" and cost: "cost_ok rd ops (cp_cost_usd p)"
    using wf by (simp_all add: phase_wf_def)
  have wf': "bt_wf (phase_object rd ops p)" by (simp add: phase_object_def read_object_def bt_collect_wf)
  note read = phase_readers [where rd = rd and ops = ops and p = p, OF ops wf]
  note rest = phase_rest [OF wf, unfolded phase_fields_def, simplified]
  show ?thesis
    unfolding parse_phase_def phase_object_valid [OF assms]
    using ints times ops cost wf'
    by (simp add: read and_then_simps remove_field_get phase_ints_def phase_times_def rest current_phase_def)
qed

section \<open>Plans\<close>

lemma zero_time_valid: "is_rfc3339 GO_ZERO_TIME"
  by code_simp

lemma take_written_time:
  "bt_get m n = Some (String (or_zero_time t)) \<Longrightarrow> t = [] \<or> is_rfc3339 t \<Longrightarrow>
     take_optional_time n f m = Inr (or_zero_time t, remove_field n m)"
  using zero_time_valid by (auto simp: take_optional_time_def or_zero_time_def)

lemma parse_phases_written:
  assumes "number_ops_ok rd ops" "list_all (phase_wf rd ops) ps" "list_all phase_times ps"
  shows "parse_phases ops i (map (\<lambda>p. Object (phase_object rd ops p)) ps) = Inr (map (current_phase rd ops) ps)"
  using assms by (induction ps arbitrary: i) (simp_all add: parse_phase_written)

definition plan_wf :: "('n \<Rightarrow> 'n) \<Rightarrow> ('n, 'f) number_ops \<Rightarrow> ('n, 'f) CheckpointPlan \<Rightarrow> bool" where
  "plan_wf rd ops p \<longleftrightarrow> carried (cl_extra p) \<and> list_all (phase_wf rd ops) (cl_phases p)"

definition current_plan :: "('n \<Rightarrow> 'n) \<Rightarrow> ('n, 'f) number_ops \<Rightarrow> ('n, 'f) CheckpointPlan \<Rightarrow> ('n, 'f) CheckpointPlan" where
  "current_plan rd ops p =
     p\<lparr>cl_phases := map (current_phase rd ops) (cl_phases p),
       cl_created_at := or_zero_time (cl_created_at p),
       cl_extra := reread rd (filter (\<lambda>e. \<not> plan_reserved (fst e)) (cl_extra p))\<rparr>"

lemma try_each_ok: "try_each f xs = Inr () \<longleftrightarrow> list_all (\<lambda>x. f x = Inr ()) xs"
  by (induction xs) (auto simp: and_then_def split: sum.splits)

lemma validated_plan_times:
  assumes "validate_current_plan_fields ops plan = Inr ()"
  shows "cl_created_at plan = [] \<or> is_rfc3339 (cl_created_at plan)" "list_all phase_times (cl_phases plan)"
  using assms
  by (auto simp: validate_current_plan_fields_def try_each_ok list_all_iff phase_times_def and_then_def
      split: if_splits sum.splits)

definition plan_object :: "('n \<Rightarrow> 'n) \<Rightarrow> ('n, 'f) number_ops \<Rightarrow> ('n, 'f) CheckpointPlan \<Rightarrow> 'n JsonMap" where
  "plan_object rd ops p = read_object rd (CurrentPlan ops p)"

lemma plan_keys: "distinct (map fst (plan_fields ops p))"
  "set (map fst (plan_fields ops p)) = {k. plan_reserved k}"
  by (simp add: plan_fields_def) (auto simp: plan_fields_def plan_reserved_def)

lemma plan_object_get:
  assumes "carried (cl_extra p)" "plan_reserved k"
  shows "bt_get (plan_object rd ops p) k = (case map_of (plan_fields ops p) k of Some v \<Rightarrow> map_option (as_read rd) v | None \<Rightarrow> None)"
proof -
  have "\<forall>k\<in>set (map fst (plan_fields ops p)). plan_reserved k" using plan_keys(2) by blast
  from written_object_get [OF assms(1) plan_keys(1) [of ops p] this, of rd k] assms(2)
  show ?thesis by (simp add: plan_object_def CurrentPlan_def)
qed

lemma plan_lookup:
  assumes "carried (cl_extra p)"
  shows
    "bt_get (plan_object rd ops p) ''id'' = Some (String (cl_id p))"
    "bt_get (plan_object rd ops p) ''task'' = Some (String (cl_task p))"
    "bt_get (plan_object rd ops p) ''phases'' = Some (Array (map (\<lambda>ph. Object (phase_object rd ops ph)) (cl_phases p)))"
    "bt_get (plan_object rd ops p) ''execution_mode'' = Some (String (cl_execution_mode p))"
    "bt_get (plan_object rd ops p) ''decomp_source'' = Some (String (cl_decomp_source p))"
    "bt_get (plan_object rd ops p) ''created_at'' = Some (String (or_zero_time (cl_created_at p)))"
  by (simp_all add: plan_object_get [OF assms] plan_reserved_def plan_fields_def phase_object_def as_read_Object
      del: as_read.simps(2))

lemma plan_rest:
  assumes "carried (cl_extra p)"
  shows "fold remove_field (map fst (plan_fields ops p)) (plan_object rd ops p)
    = reread rd (filter (\<lambda>e. \<not> plan_reserved (fst e)) (cl_extra p))"
  unfolding plan_object_def CurrentPlan_def
  by (rule removed_fields [OF assms plan_keys(1) _ plan_keys(2)]) (use plan_keys(2) in blast)

lemma parse_plan_written:
  assumes ops: "number_ops_ok rd ops" and wf: "plan_wf rd ops p" and valid: "validate_current_plan_fields ops p = Inr ()"
  shows "parse_plan ops (plan_object rd ops p) = Inr (current_plan rd ops p)"
proof -
  have extra: "carried (cl_extra p)" and phases: "list_all (phase_wf rd ops) (cl_phases p)"
    using wf by (simp_all add: plan_wf_def)
  have wf': "bt_wf (plan_object rd ops p)" by (simp add: plan_object_def read_object_def bt_collect_wf)
  note times = validated_plan_times [OF valid]
  have rest: "remove_field ''phases'' (remove_field ''created_at'' (remove_field ''decomp_source''
      (remove_field ''execution_mode'' (remove_field ''task'' (remove_field ''id'' (plan_object rd ops p))))))
    = reread rd (filter (\<lambda>e. \<not> plan_reserved (fst e)) (cl_extra p))"
    unfolding plan_rest [OF extra, where rd = rd and ops = ops, symmetric]
    by (rule sorted_entries_eq) (simp_all add: wf' plan_fields_def)
  show ?thesis
    unfolding parse_plan_def
    by (simp add: plan_lookup [OF extra] take_string_written(1) [OF plan_lookup(1) [OF extra]]
        take_string_written(1) [OF plan_lookup(2) [OF extra]] take_string_written(1) [OF plan_lookup(4) [OF extra]]
        take_string_written(1) [OF plan_lookup(5) [OF extra]] take_written_time [OF _ times(1)] plan_phases_def
        parse_phases_written [OF ops phases times(2)] wf' rest current_plan_def)
qed

section \<open>Payloads and the envelope\<close>

definition current_projection ::
    "('n \<Rightarrow> 'n) \<Rightarrow> ('n, 'f) number_ops \<Rightarrow> ('n, 'f) CheckpointProjection \<Rightarrow> ('n, 'f) CheckpointProjection" where
  "current_projection rd ops c =
     c\<lparr>ck_plan := map_option (current_plan rd ops) (ck_plan c),
       ck_started_at := or_zero_time (ck_started_at c),
       ck_extra := reread rd (filter (\<lambda>e. \<not> checkpoint_payload_reserved (fst e)) (ck_extra c)),
       ck_envelope_extra := reread rd (filter (\<lambda>e. fst e \<noteq> ''version'' \<and> fst e \<noteq> ''payload'') (ck_envelope_extra c))\<rparr>"

definition projection_wf :: "('n \<Rightarrow> 'n) \<Rightarrow> ('n, 'f) number_ops \<Rightarrow> ('n, 'f) CheckpointProjection \<Rightarrow> bool" where
  "projection_wf rd ops c \<longleftrightarrow>
     carried (ck_extra c) \<and> carried (ck_envelope_extra c) \<and> pred_option (plan_wf rd ops) (ck_plan c)"

definition payload_object :: "('n \<Rightarrow> 'n) \<Rightarrow> ('n, 'f) number_ops \<Rightarrow> ('n, 'f) CheckpointProjection \<Rightarrow> 'n JsonMap" where
  "payload_object rd ops c = read_object rd (CurrentPayload ops c)"

lemma payload_keys: "distinct (map fst (payload_fields ops c))"
  "set (map fst (payload_fields ops c)) \<subseteq> {k. checkpoint_payload_reserved k}"
  by (simp add: payload_fields_def) (auto simp: payload_fields_def checkpoint_payload_reserved_def)

lemma payload_object_get:
  assumes "carried (ck_extra c)" "checkpoint_payload_reserved k"
  shows "bt_get (payload_object rd ops c) k
    = (case map_of (payload_fields ops c) k of Some v \<Rightarrow> map_option (as_read rd) v | None \<Rightarrow> None)"
proof -
  have "\<forall>k\<in>set (map fst (payload_fields ops c)). checkpoint_payload_reserved k" using payload_keys(2) by blast
  from written_object_get [OF assms(1) payload_keys(1) [of ops c] this, of rd k] assms(2)
  show ?thesis by (simp add: payload_object_def CurrentPayload_def)
qed

lemma version_numbers:
  assumes "number_ops_ok rd ops"
  shows "rd (num_of_int ops CHECKPOINT_PAYLOAD_VERSION) = num_of_int ops CHECKPOINT_PAYLOAD_VERSION"
    "rd (num_of_int ops CHECKPOINT_ENVELOPE_VERSION) = num_of_int ops CHECKPOINT_ENVELOPE_VERSION"
  using assms
  by (simp_all add: number_ops_ok_def is_i64_def CHECKPOINT_PAYLOAD_VERSION_def CHECKPOINT_ENVELOPE_VERSION_def I64_MAX_def)

lemma payload_lookup:
  assumes "carried (ck_extra c)" "number_ops_ok rd ops"
  shows
    "bt_get (payload_object rd ops c) ''version'' = Some (Number (num_of_int ops CHECKPOINT_PAYLOAD_VERSION))"
    "bt_get (payload_object rd ops c) ''workspace_id'' = Some (String (ck_workspace_id c))"
    "bt_get (payload_object rd ops c) ''domain'' = Some (String (ck_domain c))"
    "bt_get (payload_object rd ops c) ''status'' = Some (String (ck_status c))"
    "bt_get (payload_object rd ops c) ''started_at'' = Some (String (or_zero_time (ck_started_at c)))"
    "bt_get (payload_object rd ops c) ''git_repo_root'' = serialize_non_empty (ck_git_repo_root c)"
    "bt_get (payload_object rd ops c) ''worktree_path'' = serialize_non_empty (ck_worktree_path c)"
    "bt_get (payload_object rd ops c) ''branch_name'' = serialize_non_empty (ck_branch_name c)"
    "bt_get (payload_object rd ops c) ''base_branch'' = serialize_non_empty (ck_base_branch c)"
    "bt_get (payload_object rd ops c) ''plan''
       = Some (case ck_plan c of Some p \<Rightarrow> Object (plan_object rd ops p) | None \<Rightarrow> Null)"
  by (simp_all add: payload_object_get [OF assms(1)] version_numbers [OF assms(2)] checkpoint_payload_reserved_def payload_fields_def
      plan_object_def as_read_Object del: as_read.simps(2) split: option.split)

lemma payload_rest:
  assumes "carried (ck_extra c)" "bt_wf m"
    and "\<And>k. bt_get m k = (if checkpoint_payload_reserved k then None else bt_get (payload_object rd ops c) k)"
  shows "m = reread rd (filter (\<lambda>e. \<not> checkpoint_payload_reserved (fst e)) (ck_extra c))"
proof (rule remaining_fields [OF assms(1)])
  have reserved: "\<forall>k\<in>set (map fst (payload_fields ops c)). checkpoint_payload_reserved k"
    using payload_keys(2) by blast
  show "bt_wf m" by fact
  show "bt_get m k = (if checkpoint_payload_reserved k then None else bt_get (reread rd (ck_extra c)) k)" for k
  proof (cases "checkpoint_payload_reserved k")
    case False
    then have "map_of (payload_fields ops c) k = None" using payload_keys(2) by (force simp: map_of_eq_None_iff)
    then show ?thesis
      using False written_object_get [OF assms(1) payload_keys(1) [of ops c] reserved, of rd k]
      by (simp add: assms(3) payload_object_def CurrentPayload_def)
  qed (simp add: assms(3))
qed

lemma encoded_text:
  assumes "encode_current_checkpoint to_string_pretty ops c = Inr bytes"
  shows "ck_workspace_id c \<noteq> []" "ck_started_at c = [] \<or> is_rfc3339 (ck_started_at c)"
    "ck_plan c = Some p \<Longrightarrow> validate_current_plan_fields ops p = Inr ()"
    "map_option escape_go_json_for_html (to_string_pretty (Object (CurrentCheckpoint ops c))) = Some bytes"
  using assms
  by (auto simp: encode_current_checkpoint_def written_text_def and_then_def split: if_splits sum.splits option.splits)

lemma parse_payload_written:
  assumes ops: "number_ops_ok rd ops" and wf: "projection_wf rd ops c"
    and started: "ck_started_at c = [] \<or> is_rfc3339 (ck_started_at c)"
    and plan_valid: "\<And>p. ck_plan c = Some p \<Longrightarrow> validate_current_plan_fields ops p = Inr ()"
  shows "parse_checkpoint_payload ops (payload_object rd ops c)
      (reread rd (filter (\<lambda>e. fst e \<noteq> ''version'' \<and> fst e \<noteq> ''payload'') (ck_envelope_extra c)))
    = Inr (current_projection rd ops c)"
proof -
  have extra: "carried (ck_extra c)" and plan: "pred_option (plan_wf rd ops) (ck_plan c)"
    using wf by (simp_all add: projection_wf_def)
  have wf': "bt_wf (payload_object rd ops c)" by (simp add: payload_object_def read_object_def bt_collect_wf)
  have version: "as_i64 ops (Number (num_of_int ops CHECKPOINT_PAYLOAD_VERSION)) = Some CHECKPOINT_PAYLOAD_VERSION"
    using ops by (simp add: number_ops_ok_def as_i64_def is_i64_def CHECKPOINT_PAYLOAD_VERSION_def I64_MAX_def)
  define r where "r = remove_field ''mission_path'' (remove_field ''linear_issue_id'' (remove_field ''base_branch''
      (remove_field ''branch_name'' (remove_field ''worktree_path'' (remove_field ''git_repo_root''
      (remove_field ''started_at'' (remove_field ''status'' (remove_field ''domain''
      (remove_field ''workspace_id'' (remove_field ''version'' (payload_object rd ops c)))))))))))"
  have rest: "remove_field ''plan'' r = reread rd (filter (\<lambda>e. \<not> checkpoint_payload_reserved (fst e)) (ck_extra c))"
    unfolding r_def
    by (rule payload_rest [OF extra, where ops = ops]) (simp_all add: wf' checkpoint_payload_reserved_def)
  have "bt_get r ''plan'' = Some (case ck_plan c of Some p \<Rightarrow> Object (plan_object rd ops p) | None \<Rightarrow> Null)"
    by (simp add: r_def wf' payload_lookup(10) [OF extra ops])
  then have plan_read: "payload_plan ops r = Inr (map_option (current_plan rd ops) (ck_plan c),
      reread rd (filter (\<lambda>e. \<not> checkpoint_payload_reserved (fst e)) (ck_extra c)))"
    using plan by (cases "ck_plan c") (simp_all add: payload_plan_def rest parse_plan_written ops plan_valid)
  show ?thesis
    unfolding parse_checkpoint_payload_def
    by (simp add: payload_lookup [OF extra ops] take_string_written(1) [OF payload_lookup(2) [OF extra ops]]
        take_string_written(1) [OF payload_lookup(3) [OF extra ops]] take_string_written(1) [OF payload_lookup(4) [OF extra ops]]
        take_string_written(2) [OF payload_lookup(6) [OF extra ops]] take_string_written(2) [OF payload_lookup(7) [OF extra ops]]
        take_string_written(2) [OF payload_lookup(8) [OF extra ops]] take_string_written(2) [OF payload_lookup(9) [OF extra ops]]
        take_written_time [OF _ started] take_optional_integer_def version wf'
        plan_read [unfolded r_def] current_projection_def)
qed

lemma checkpoint_root:
  fixes ops :: "('n, 'f) number_ops" and c :: "('n, 'f) CheckpointProjection"
  assumes "carried (ck_envelope_extra c)" "number_ops_ok rd ops"
  defines "root \<equiv> read_object rd (CurrentCheckpoint ops c)"
  shows "bt_get root ''version'' = Some (Number (num_of_int ops CHECKPOINT_ENVELOPE_VERSION))"
    and "bt_get root ''payload'' = Some (Object (payload_object rd ops c))"
    and "k \<noteq> ''version'' \<Longrightarrow> k \<noteq> ''payload'' \<Longrightarrow> bt_get root k = bt_get (reread rd (ck_envelope_extra c)) k"
    and "remove_field ''payload'' (remove_field ''version'' root)
      = reread rd (filter (\<lambda>e. fst e \<noteq> ''version'' \<and> fst e \<noteq> ''payload'') (ck_envelope_extra c))"
proof -
  let ?reserved = "\<lambda>k. k = ''version'' \<or> k = ''payload''"
  let ?fs = "[(''version'', Some (Number (num_of_int ops CHECKPOINT_ENVELOPE_VERSION))),
      (''payload'', Some (Object (CurrentPayload ops c)))]"
  have eq: "root = read_object rd (filter (\<lambda>e. \<not> ?reserved (fst e)) (ck_envelope_extra c) @ written ?fs)"
    by (simp add: root_def CurrentCheckpoint_def written_def map_filter_simps)
  have get: "bt_get root k = (case map_of ?fs k of Some v \<Rightarrow> map_option (as_read rd) v
      | None \<Rightarrow> if ?reserved k then None else bt_get (reread rd (ck_envelope_extra c)) k)" for k
    unfolding eq by (rule written_object_get [OF assms(1)]) simp_all
  show "bt_get root ''version'' = Some (Number (num_of_int ops CHECKPOINT_ENVELOPE_VERSION))"
    by (simp add: get version_numbers [OF assms(2)])
  show "bt_get root ''payload'' = Some (Object (payload_object rd ops c))"
    by (simp add: get payload_object_def as_read_Object del: as_read.simps(2))
  show "k \<noteq> ''version'' \<Longrightarrow> k \<noteq> ''payload'' \<Longrightarrow> bt_get root k = bt_get (reread rd (ck_envelope_extra c)) k" by (simp add: get)
  have "fold remove_field [''version'', ''payload''] root
      = reread rd (filter (\<lambda>e. \<not> ?reserved (fst e)) (ck_envelope_extra c))"
    unfolding eq by (rule removed_fields [OF assms(1)]) auto
  then show "remove_field ''payload'' (remove_field ''version'' root)
      = reread rd (filter (\<lambda>e. fst e \<noteq> ''version'' \<and> fst e \<noteq> ''payload'') (ck_envelope_extra c))" by simp
qed

lemma reread_non_empty: "non_empty_string (bt_get (reread rd m) k) \<longleftrightarrow> non_empty_string (bt_get m k)"
  by (auto simp: reread_get non_empty_string_def split: option.split Value.split)

lemma decoded_original:
  "decode_checkpoint from_slice ops bytes = Inr d \<Longrightarrow> from_slice bytes = Some (dc_original d)"
  by (auto simp: decode_checkpoint_def Let_def and_then_def
      split: option.splits Value.splits sum.splits if_splits)

lemma preserved_checkpoint_decodes:
  assumes "decode_checkpoint from_slice ops bytes = Inr d" and "encode_preserved_checkpoint to_vec d = Inr bytes'"
    and serde: "\<And>v u. to_vec v = Some u \<Longrightarrow> from_slice u = Some v"
  shows "decode_checkpoint from_slice ops bytes' = Inr d"
proof -
  have "from_slice bytes' = Some (dc_original d)"
    using assms(2) by (intro serde) (simp add: encode_preserved_checkpoint_def split: option.splits)
  then show ?thesis using decoded_original [OF assms(1)] assms(1) unfolding decode_checkpoint_def by simp
qed

text \<open>
  C25. The bytes the current writer emits for a checkpoint, serde's indented text with Go's escaping, are
  read back as an envelope: the same workspace, plan and phases in full, empty times as the zero time, and
  every unknown field at its level but those that collide with a name the writer owns. Integers come back
  exactly; a cost and the numbers of the unknown fields come back as what serde's reader makes of the
  number that was printed, which need not be the same one, and an unset cost as zero. The checkpoint's
  maps must be sorted, its integers within 64 bits and its costs finite, and the envelope's own unknown
  fields must hold no workspace id, for then the legacy reading is tried first. Of serde it is assumed
  that its text is the indented JSON of the entries with numbers in digits, and that it reads such a text
  of this checkpoint (UTF-8, nested within serde's limit) as those entries with their numbers read, in
  whatever way that JSON allows its strings are spelled; that the escaped text is of this kind is proved.
\<close>

theorem encoded_checkpoint_decodes:
  assumes "number_ops_ok rd ops" "projection_wf rd ops c" "encode_current_checkpoint to_string_pretty ops c = Inr bytes"
    and "plain_numbers pn" and writer: "\<And>v. to_string_pretty v = Some (json_pretty quote pn 0 v)"
    and reader: "\<And>q. json_spelling q \<Longrightarrow>
      from_slice (json_pretty q pn 0 (Object (CurrentCheckpoint ops c))) = Some (as_read rd (Object (CurrentCheckpoint ops c)))"
    and "\<not> non_empty_string (bt_get (ck_envelope_extra c) ''workspace_id'')"
  shows "decode_checkpoint from_slice ops bytes
    = Inr \<lparr>dc_source_shape = EnvelopeV1, dc_projection = current_projection rd ops c,
           dc_original = as_read rd (Object (CurrentCheckpoint ops c))\<rparr>"
proof -
  note encoded = encoded_text [OF assms(3)]
  have "bytes = json_pretty html_quote pn 0 (Object (CurrentCheckpoint ops c))"
    using encoded(4) escape_pretty [OF assms(4), of 0 _ "[]"] by (simp add: writer)
  then have read: "from_slice bytes = Some (as_read rd (Object (CurrentCheckpoint ops c)))"
    using reader [OF html_spelling] by simp
  have extra: "carried (ck_envelope_extra c)" "carried (ck_extra c)" using assms(2) by (simp_all add: projection_wf_def)
  note root = checkpoint_root [OF extra(1) assms(1)]
  have payload: "non_empty_string (bt_get (payload_object rd ops c) ''workspace_id'')"
    using encoded(1) by (simp add: payload_lookup [OF extra(2) assms(1)] non_empty_string_def)
  have version: "num_as_u64 ops (num_of_int ops CHECKPOINT_ENVELOPE_VERSION) = Some CHECKPOINT_ENVELOPE_VERSION"
    using assms(1) by (simp add: number_ops_ok_def)
  show ?thesis
    unfolding decode_checkpoint_def read as_read_Object
    using assms(7) by (simp add: root reread_non_empty payload version parse_payload_written [OF assms(1,2) encoded(2,3)])
qed

text \<open>A checkpoint with a phase, unknown fields at each level and one that collides with a known name.\<close>

definition demo_ops :: "(int, int) number_ops" where
  "demo_ops = \<lparr>num_as_i64 = (\<lambda>n. if is_i64 n then Some n else None), num_as_u64 = (\<lambda>n. if 0 \<le> n then Some n else None),
     num_of_int = (\<lambda>i. i), num_as_f64 = Some, value_of_f64 = Number, f64_zero = 0, f64_is_zero = (\<lambda>x. x = 0)\<rparr>"

definition demo_phase :: "(int, int) CheckpointPhase" where
  "demo_phase = \<lparr>cp_id = ''p1'', cp_name = ''build'', cp_objective = ''o'', cp_persona = ''dev'', cp_model_tier = ''think'',
     cp_skills = [''rust''], cp_constraints = [], cp_dependencies = [], cp_expected = [], cp_role = [],
     cp_target_dir = ''/w'', cp_priority = [], cp_runtime = ''claude'', cp_runtime_policy_applied = True,
     cp_stall_timeout = 7, cp_status = ''completed'', cp_output = ''done'', cp_error = [],
     cp_start_time = ''2024-01-02T03:04:05Z'', cp_end_time = [], cp_signal_remainder = [], cp_retries = 1,
     cp_gate_passed = True, cp_output_len = 4, cp_parsed_skills = [''rust''], cp_learnings_retrieved = 0,
     cp_session_id = ''s'', cp_persona_selection_method = [], cp_model = [], cp_tokens_in = 10, cp_tokens_out = -1,
     cp_tokens_cache_creation = 0, cp_tokens_cache_read = 0, cp_cost_usd = 9223372036854775810, cp_review_iteration = 0,
     cp_origin_phase_id = [], cp_max_review_loops = 0, cp_parse_retry_count = 0, cp_review_blockers = [],
     cp_review_warnings = [], cp_changed_files = [''a.rs''], cp_output_bytes = 0, cp_worker = [], cp_barok_applied = 0,
     cp_barok_retry = 0, cp_barok_validator_ms = 0, cp_barok_retry_validator_ms = 0, cp_barok_first_run_session_id = [],
     cp_extra = [(''name'', Null), (''zz'', Bool True)]\<rparr>"

definition demo_checkpoint :: "(int, int) CheckpointProjection" where
  "demo_checkpoint = \<lparr>ck_workspace_id = ''w1'', ck_domain = ''dev'',
     ck_plan = Some \<lparr>cl_id = ''plan'', cl_task = ''t'', cl_phases = [demo_phase], cl_execution_mode = ''sequential'',
       cl_decomp_source = [], cl_created_at = [], cl_extra = []\<rparr>,
     ck_status = ''running'', ck_started_at = [], ck_git_repo_root = [], ck_worktree_path = [], ck_branch_name = ''b'',
     ck_base_branch = [], ck_extra = [(''x'', Array [Null])], ck_envelope_extra = [(''sig'', String ''y'')]\<rparr>"

definition demo_number :: "int \<Rightarrow> string" where
  "demo_number i = (if i < 0 then CHR ''-'' # decimal (nat (- i)) else decimal (nat i))"

text \<open>A reader that is exact on integers of 64 bits only.\<close>

definition demo_rd :: "int \<Rightarrow> int" where
  "demo_rd i = (if is_i64 i then i else i - 1)"

lemma demo_numbers: "plain_numbers demo_number"
proof -
  have "is_digit c \<Longrightarrow> untouched c" for c by (auto simp: is_digit_def untouched_def byte_def)
  then have "list_all untouched (decimal n)" for n using decimal_digits [of n] by (auto simp: list_all_iff)
  then show ?thesis by (simp add: plain_numbers_def demo_number_def) (simp add: untouched_def)
qed

theorem encoded_checkpoint_decodes_witness:
  "decode_checkpoint (\<lambda>_. Some (as_read demo_rd (Object (CurrentCheckpoint demo_ops demo_checkpoint)))) demo_ops
      (escape_go_json_for_html (json_pretty quote demo_number 0 (Object (CurrentCheckpoint demo_ops demo_checkpoint))))
    = Inr \<lparr>dc_source_shape = EnvelopeV1, dc_projection = current_projection demo_rd demo_ops demo_checkpoint,
           dc_original = as_read demo_rd (Object (CurrentCheckpoint demo_ops demo_checkpoint))\<rparr>"
proof (rule encoded_checkpoint_decodes [OF _ _ _ demo_numbers refl refl])
  show "number_ops_ok demo_rd demo_ops"
    by (simp add: number_ops_ok_def demo_ops_def demo_rd_def CHECKPOINT_ENVELOPE_VERSION_def)
  have "carried (ck_extra demo_checkpoint) \<and> carried (ck_envelope_extra demo_checkpoint) \<and>
      plan_wf demo_rd demo_ops (the (ck_plan demo_checkpoint))" by code_simp
  then show "projection_wf demo_rd demo_ops demo_checkpoint" by (simp add: projection_wf_def demo_checkpoint_def)
  have "validate_current_plan_fields demo_ops (the (ck_plan demo_checkpoint)) = Inr ()" by code_simp
  then show "encode_current_checkpoint (\<lambda>v. Some (json_pretty quote demo_number 0 v)) demo_ops demo_checkpoint
      = Inr (escape_go_json_for_html (json_pretty quote demo_number 0 (Object (CurrentCheckpoint demo_ops demo_checkpoint))))"
    unfolding encode_current_checkpoint_def written_text_def by (simp add: demo_checkpoint_def)
  show "\<not> non_empty_string (bt_get (ck_envelope_extra demo_checkpoint) ''workspace_id'')" by code_simp
qed

end
