(* ===== verification/Router.thy ===== *)
theory Router
  imports Rust_Text "HOL-Library.Sublist"
begin

text \<open>
  Provider routing (\<^verbatim>\<open>orchestrator-core/src/router.rs\<close>): model tiers, the tier tables, effort,
  escalation, the keyword classifiers and the choice of a runtime. Texts are UTF-8 bytes; the
  Unicode tables of the standard library that the phrase matcher uses are a parameter.
\<close>

section \<open>Tiers\<close>

datatype ModelTier = Think | Work | General | Quick | BudgetDeep | Apex

fun tier_as_str :: "ModelTier \<Rightarrow> string" where
  "tier_as_str Think = ''think''"
| "tier_as_str Work = ''work''"
| "tier_as_str General = ''general''"
| "tier_as_str Quick = ''quick''"
| "tier_as_str BudgetDeep = ''budget-deep''"
| "tier_as_str Apex = ''apex''"

definition tier_parse :: "string \<Rightarrow> ModelTier option" where
  "tier_parse v =
     (if v = ''think'' then Some Think
      else if v = ''work'' then Some Work
      else if v = ''general'' then Some General
      else if v = ''quick'' then Some Quick
      else if v = ''budget-deep'' then Some BudgetDeep
      else if v = ''apex'' then Some Apex
      else None)"

definition effective_runtime :: "string \<Rightarrow> string" where
  "effective_runtime r = (if r = [] then ''claude'' else r)"

fun claude_model :: "ModelTier \<Rightarrow> string" where
  "claude_model Think = ''opus''"
| "claude_model BudgetDeep = ''opus''"
| "claude_model Apex = ''opus''"
| "claude_model Work = ''sonnet''"
| "claude_model General = ''sonnet''"
| "claude_model Quick = ''haiku''"

fun codex_model :: "ModelTier \<Rightarrow> string" where
  "codex_model Think = ''gpt-5.6-sol''"
| "codex_model Work = ''gpt-5.6-sol''"
| "codex_model Apex = ''gpt-5.6-sol''"
| "codex_model General = ''gpt-5.6-terra''"
| "codex_model Quick = ''gpt-5.6-luna''"
| "codex_model BudgetDeep = ''gpt-5.6-luna''"

definition resolve_model_for_runtime :: "ModelTier \<Rightarrow> string \<Rightarrow> string" where
  "resolve_model_for_runtime tier runtime =
     (if effective_runtime runtime = ''codex'' then codex_model tier else claude_model tier)"

definition is_high_effort_persona :: "string \<Rightarrow> bool" where
  "is_high_effort_persona persona \<longleftrightarrow>
     persona \<in> {''architect'', ''security-auditor'', ''staff-code-reviewer''}"

definition resolve_effort :: "ModelTier \<Rightarrow> string \<Rightarrow> string" where
  "resolve_effort tier persona =
     (if is_high_effort_persona persona then ''high''
      else case tier of
          Think \<Rightarrow> ''high''
        | Apex \<Rightarrow> ''high''
        | Quick \<Rightarrow> ''low''
        | _ \<Rightarrow> ''medium'')"

definition resolve_effort_for_runtime :: "ModelTier \<Rightarrow> string \<Rightarrow> string \<Rightarrow> string" where
  "resolve_effort_for_runtime tier persona runtime =
     (if effective_runtime runtime = ''codex'' then
        (case tier of
           Apex \<Rightarrow> ''xhigh''
         | BudgetDeep \<Rightarrow> ''xhigh''
         | Think \<Rightarrow> ''high''
         | Quick \<Rightarrow> ''low''
         | _ \<Rightarrow> ''medium'')
      else resolve_effort tier persona)"

fun escalate_tier :: "ModelTier \<Rightarrow> ModelTier" where
  "escalate_tier Quick = Work"
| "escalate_tier General = Work"
| "escalate_tier Work = Think"
| "escalate_tier Think = Apex"
| "escalate_tier BudgetDeep = Apex"
| "escalate_tier Apex = Apex"

section \<open>Keyword classification\<close>

definition THINK_SIGNALS :: "string list" where
  "THINK_SIGNALS =
     [''architect'', ''design'', ''plan'', ''security'', ''audit'', ''threat model'', ''vulnerability'',
      ''review architecture'', ''system design'', ''data model'', ''api design'']"

definition GENERAL_SIGNALS :: "string list" where
  "GENERAL_SIGNALS =
     [''research'', ''summarize'', ''synthes'', ''write article'', ''write post'', ''write documentation'',
      ''document'', ''compare'', ''explain'', ''translate'']"

definition QUICK_SIGNALS :: "string list" where
  "QUICK_SIGNALS =
     [''format'', ''rename'', ''fix typo'', ''update comment'', ''add docstring'', ''simple fix'', ''minor change'']"

definition any_signal :: "string list \<Rightarrow> string \<Rightarrow> bool" where
  "any_signal signals lower \<longleftrightarrow> list_ex (str_contains lower) signals"

definition classify_tier :: "string \<Rightarrow> string \<Rightarrow> ModelTier" where
  "classify_tier task persona =
     (let lower = to_ascii_lowercase task in
      if any_signal THINK_SIGNALS lower then Think
      else if persona \<in> {''architect'', ''security-auditor'', ''staff-code-reviewer''} then Think
      else if persona = ''reviewer''
      then (if str_contains lower ''security'' \<or> str_contains lower ''vulnerab'' then Think else Work)
      else if \<not> str_contains lower ''write code'' \<and> any_signal GENERAL_SIGNALS lower then General
      else if any_signal QUICK_SIGNALS lower then Quick
      else Work)"

text \<open>
  \<open>split_whitespace\<close> on UTF-8 bytes; \<open>skip\<close> bytes of a multi-byte space remain to be dropped.
\<close>

fun split_whitespace :: "nat \<Rightarrow> string \<Rightarrow> string \<Rightarrow> string list" where
  "split_whitespace skip w [] = (if w = [] then [] else [rev w])"
| "split_whitespace (Suc n) w (c # s) = split_whitespace n w s"
| "split_whitespace 0 w (c # s) =
     (case find (starts_with (c # s)) unicode_spaces of
        Some sp \<Rightarrow> (if w = [] then [] else [rev w]) @ split_whitespace (length sp - 1) [] s
      | None \<Rightarrow> split_whitespace 0 (c # w) s)"

definition COMPLEX_SIGNALS :: "string list" where
  "COMPLEX_SIGNALS =
     [''and then'', ''then '', ''after that'', ''first '', ''finally '', ''research and'', ''write and'',
      ''implement and'', ''build and'', ''multiple'', ''several'', ''phases'', ''steps'', ''plan and execute'',
      ''design and implement'']"

definition classify_complexity :: "string \<Rightarrow> bool" where
  "classify_complexity task =
     (let lower = to_ascii_lowercase task in
      if 20 < length (split_whitespace 0 [] task) then True
      else any_signal COMPLEX_SIGNALS lower)"

section \<open>Phrases on word boundaries\<close>

text \<open>
  Characters are code points. \<open>lowercase_chars\<close> are those of \<open>str::to_lowercase\<close> and
  \<open>alphanumeric\<close> is \<open>char::is_alphanumeric\<close>; \<open>char::is_whitespace\<close>, which \<open>str::trim\<close> uses, is written
  out.
\<close>

record unicode_tables =
  lowercase_chars :: "string \<Rightarrow> nat list"
  alphanumeric :: "nat \<Rightarrow> bool"

definition is_whitespace :: "nat \<Rightarrow> bool" where
  "is_whitespace c \<longleftrightarrow>
     9 \<le> c \<and> c \<le> 13 \<or> c = 32 \<or> c = 0x85 \<or> c = 0xA0 \<or> c = 0x1680 \<or> 0x2000 \<le> c \<and> c \<le> 0x200A \<or>
     c = 0x2028 \<or> c = 0x2029 \<or> c = 0x202F \<or> c = 0x205F \<or> c = 0x3000"

definition trim_chars :: "nat list \<Rightarrow> nat list" where
  "trim_chars s = rev (dropWhile is_whitespace (rev (dropWhile is_whitespace s)))"

fun normalize_runes :: "(nat \<Rightarrow> bool) \<Rightarrow> bool \<Rightarrow> nat list \<Rightarrow> nat list" where
  "normalize_runes alnum last_space [] = []"
| "normalize_runes alnum last_space (r # rs) =
     (if alnum r then r # normalize_runes alnum False rs
      else if \<not> last_space then 32 # normalize_runes alnum True rs
      else normalize_runes alnum True rs)"

definition normalize_heuristic_text :: "unicode_tables \<Rightarrow> string \<Rightarrow> nat list" where
  "normalize_heuristic_text u v = trim_chars (normalize_runes (alphanumeric u) True (lowercase_chars u v))"

fun chars_contain :: "nat list \<Rightarrow> nat list \<Rightarrow> bool" where
  "chars_contain [] n = (n = [])"
| "chars_contain (x # s) n = (take (length n) (x # s) = n \<or> chars_contain s n)"

definition contains_heuristic_phrase :: "unicode_tables \<Rightarrow> string \<Rightarrow> string \<Rightarrow> bool" where
  "contains_heuristic_phrase u text phrase =
     (let t = normalize_heuristic_text u text; p = normalize_heuristic_text u phrase in
      if t = [] \<or> p = [] then False
      else chars_contain (32 # t @ [32]) (32 # p @ [32]))"

definition contains_any_heuristic_phrase :: "unicode_tables \<Rightarrow> string \<Rightarrow> string list \<Rightarrow> bool" where
  "contains_any_heuristic_phrase u text phrases \<longleftrightarrow> list_ex (contains_heuristic_phrase u text) phrases"

section \<open>The runtime\<close>

definition NON_CODE_TASK_KEYWORDS :: "string list" where
  "NON_CODE_TASK_KEYWORDS =
     [''research'', ''investigate'', ''analyze'', ''analyse'', ''explore'', ''study'', ''document'',
      ''documentation'', ''readme'', ''changelog'', ''design doc'', ''blog post'', ''newsletter'', ''article'',
      ''write blog'', ''draft post'', ''content creation'', ''narration'', ''linkedin post'', ''reddit post'',
      ''deploy'', ''release'', ''rollout'']"

definition CODE_TASK_KEYWORDS :: "string list" where
  "CODE_TASK_KEYWORDS =
     [''implement'', ''build'', ''create'', ''fix'', ''refactor'', ''optimize'', ''write code'', ''add'', ''update'',
      ''parser'', ''handler'', ''endpoint'', ''api'', ''component'', ''service'', ''function'', ''integration'',
      ''test'', ''bug'', ''cache'', ''cli'', ''schema'', ''migration'', ''migrate'']"

definition LANGUAGE_SPECIALIST_TOKENS :: "string list" where
  "LANGUAGE_SPECIALIST_TOKENS =
     [''golang'', ''go'', ''python'', ''typescript'', ''javascript'', ''rust'', ''java'', ''ruby'', ''swift'',
      ''kotlin'', ''cpp'', ''csharp'']"

definition select_for_implementer :: "unicode_tables \<Rightarrow> string \<Rightarrow> string \<Rightarrow> string \<Rightarrow> string" where
  "select_for_implementer u persona task auto_mode =
     (if auto_mode \<in> {[], ''0'', ''false'', ''no''} then ''claude''
      else if contains_any_heuristic_phrase u task NON_CODE_TASK_KEYWORDS then ''claude''
      else if auto_mode \<in> {''aggressive'', ''2''}
      then (if contains_any_heuristic_phrase u task CODE_TASK_KEYWORDS then ''codex'' else ''claude'')
      else if contains_any_heuristic_phrase u persona LANGUAGE_SPECIALIST_TOKENS \<and>
        contains_any_heuristic_phrase u task CODE_TASK_KEYWORDS then ''codex''
      else ''claude'')"

definition select_runtime :: "unicode_tables \<Rightarrow> string \<Rightarrow> string \<Rightarrow> string \<Rightarrow> string \<Rightarrow> string" where
  "select_runtime u role persona task codex_auto_env =
     (if role = ''reviewer'' \<or> role = ''planner'' then ''claude''
      else if role = ''implementer'' then select_for_implementer u persona task codex_auto_env
      else ''claude'')"

end
