(* ===== verification/Router_Correct.thy ===== *)
theory Router_Correct
  imports Router
begin

text \<open>
  What the router promises: tier names round-trip, escalation climbs to the top and stays there, the
  phrase matcher finds a phrase exactly when its words stand next to each other in the text, and codex
  is chosen exactly under the stated conditions.
\<close>

section \<open>Tiers\<close>

lemma tier_parse_iff: "tier_parse v = Some t \<longleftrightarrow> v = tier_as_str t"
  by (cases t) (auto simp: tier_parse_def)

lemma tier_as_str_inj: "tier_as_str s = tier_as_str t \<longleftrightarrow> s = t"
  by (cases s; cases t) simp_all

text \<open>The height of a tier on the escalation ladder.\<close>

fun tier_steps :: "ModelTier \<Rightarrow> nat" where
  "tier_steps Quick = 3"
| "tier_steps General = 3"
| "tier_steps Work = 2"
| "tier_steps Think = 1"
| "tier_steps BudgetDeep = 1"
| "tier_steps Apex = 0"

lemma escalation_reaches_apex: "(escalate_tier ^^ n) t = Apex \<longleftrightarrow> tier_steps t \<le> n"
proof (induction n arbitrary: t)
  case 0
  show ?case by (cases t) simp_all
next
  case (Suc n)
  have "(escalate_tier ^^ Suc n) t = (escalate_tier ^^ n) (escalate_tier t)" by (simp add: funpow_swap1)
  then show ?case using Suc [of "escalate_tier t"] by (cases t) simp_all
qed

lemma classified_tier: "classify_tier task persona \<in> {Think, Work, General, Quick}"
  by (simp add: classify_tier_def Let_def)

section \<open>Words of a text\<close>

text \<open>The maximal runs of alphanumeric characters.\<close>

function rune_words :: "(nat \<Rightarrow> bool) \<Rightarrow> nat list \<Rightarrow> nat list list" where
  "rune_words al s =
     (case dropWhile (\<lambda>c. \<not> al c) s of
        [] \<Rightarrow> []
      | c # r \<Rightarrow> (c # takeWhile al r) # rune_words al (dropWhile al r))"
  by pat_completeness auto
termination
proof (relation "measure (length \<circ> snd)", goal_cases)
  case (2 al s c r)
  have "length (dropWhile al r) < length (dropWhile (\<lambda>c. \<not> al c) s)"
    using 2 length_dropWhile_le [of al r] by simp
  also have "\<dots> \<le> length s" by (rule length_dropWhile_le)
  finally show ?case by simp
qed simp

declare rune_words.simps [simp del]

lemma rune_words_step:
  "dropWhile (\<lambda>c. \<not> al c) s = [] \<Longrightarrow> rune_words al s = []"
  "dropWhile (\<lambda>c. \<not> al c) s = c # r \<Longrightarrow>
     rune_words al s = (c # takeWhile al r) # rune_words al (dropWhile al r)"
  by (simp_all add: rune_words.simps [of al s] del: dropWhile_eq_Nil_conv)

lemma rune_words_Nil [simp]: "rune_words al [] = []"
  by (simp add: rune_words.simps)

lemma rune_words_skip: "\<not> al c \<Longrightarrow> rune_words al (c # s) = rune_words al s"
  by (simp add: rune_words.simps [of al "c # s"] rune_words.simps [of al s])

lemma rune_words_run:
  "al c \<Longrightarrow> rune_words al (c # s) = (c # takeWhile al s) # rune_words al (dropWhile al s)"
  by (simp add: rune_words.simps [of al "c # s"])

lemma rune_words_set: "w \<in> set (rune_words al s) \<Longrightarrow> w \<noteq> [] \<and> list_all al w"
proof (induction al s rule: rune_words.induct)
  case (1 al s)
  show ?case
  proof (cases "dropWhile (\<lambda>c. \<not> al c) s")
    case Nil
    then show ?thesis using 1(2) rune_words_step(1) [OF Nil] by simp
  next
    case (Cons c r)
    then have "al c" using dropWhile_eq_Cons_conv [of "\<lambda>c. \<not> al c" s c r] by auto
    then have first: "list_all al (c # takeWhile al r)" by (auto simp: list_all_iff dest: set_takeWhileD)
    have "w = c # takeWhile al r \<or> w \<in> set (rune_words al (dropWhile al r))"
      using 1(2) rune_words_step(2) [OF Cons] by simp
    then show ?thesis
    proof
      assume "w = c # takeWhile al r"
      with first show ?thesis by simp
    next
      assume "w \<in> set (rune_words al (dropWhile al r))"
      from 1(1) [OF Cons this] show ?thesis .
    qed
  qed
qed

lemma rune_words_cong:
  "(\<And>c. c \<in> set s \<Longrightarrow> al c = al' c) \<Longrightarrow> rune_words al s = rune_words al' s"
proof (induction al s rule: rune_words.induct)
  case (1 al s)
  have drop: "dropWhile (\<lambda>c. \<not> al c) s = dropWhile (\<lambda>c. \<not> al' c) s" by (rule dropWhile_cong) (simp_all add: 1(2))
  show ?case
  proof (cases "dropWhile (\<lambda>c. \<not> al c) s")
    case Nil
    then show ?thesis using rune_words_step(1) [OF Nil] rune_words_step(1) [of al' s] drop by simp
  next
    case (Cons c r)
    have sub: "set r \<subseteq> set s"
    proof
      fix x assume "x \<in> set r"
      then have "x \<in> set (dropWhile (\<lambda>c. \<not> al c) s)" by (simp add: Cons)
      then show "x \<in> set s" by (rule set_dropWhileD)
    qed
    have "takeWhile al r = takeWhile al' r" "dropWhile al r = dropWhile al' r"
      using sub 1(2) by (auto intro!: takeWhile_cong dropWhile_cong)
    moreover have "rune_words al (dropWhile al r) = rune_words al' (dropWhile al r)"
      using sub 1(2) by (intro 1(1) [OF Cons]) (auto dest!: set_dropWhileD)
    ultimately show ?thesis
      using rune_words_step(2) [OF Cons] rune_words_step(2) [of al' s c r] Cons drop by simp
  qed
qed

text \<open>Each word followed by a space.\<close>

definition spaced :: "nat list list \<Rightarrow> nat list" where
  "spaced ws = concat (map (\<lambda>w. w @ [32]) ws)"

lemma spaced_simps [simp]:
  "spaced [] = []" "spaced (w # ws) = w @ 32 # spaced ws" "spaced (vs @ ws) = spaced vs @ spaced ws"
  by (simp_all add: spaced_def)

lemma spaced_last: "ws \<noteq> [] \<Longrightarrow> \<exists>x. spaced ws = x @ [32]"
  by (induction ws rule: rev_induct) auto

lemma normalize_spaced:
  assumes "\<not> al 32"
  shows "\<exists>tail. tail \<in> {[], [32]} \<and> normalize_runes al True s @ tail = spaced (rune_words al s)
    \<and> (tail = [] \<longrightarrow> normalize_runes al True s = [] \<or> last (normalize_runes al True s) = 32)"
proof (induction al s rule: rune_words.induct)
  case (1 al s)
  have skip: "normalize_runes al True s = normalize_runes al True (dropWhile (\<lambda>c. \<not> al c) s)"
    by (induction s) simp_all
  have run: "normalize_runes al False r = takeWhile al r @
      (if dropWhile al r = [] then [] else 32 # normalize_runes al True (dropWhile al r))" for r
    by (induction r) auto
  show ?case
  proof (cases "dropWhile (\<lambda>c. \<not> al c) s")
    case Nil
    then show ?thesis using skip rune_words_step(1) [OF Nil] by (intro exI [of _ "[]"]) (simp only: normalize_runes.simps; simp)
  next
    case (Cons c r)
    then have al: "al c" using dropWhile_eq_Cons_conv [of "\<lambda>c. \<not> al c" s c r] by auto
    have norm: "normalize_runes al True s = c # takeWhile al r @
      (if dropWhile al r = [] then [] else 32 # normalize_runes al True (dropWhile al r))"
      unfolding skip Cons using al run [of r] by simp
    have words: "rune_words al s = (c # takeWhile al r) # rune_words al (dropWhile al r)"
      by (rule rune_words_step(2) [OF Cons])
    obtain t where t: "t \<in> {[], [32]}"
        "normalize_runes al True (dropWhile al r) @ t = spaced (rune_words al (dropWhile al r))"
        "t = [] \<longrightarrow> normalize_runes al True (dropWhile al r) = [] \<or>
          last (normalize_runes al True (dropWhile al r)) = 32"
      using 1 [OF Cons] by blast
    show ?thesis
    proof (cases "dropWhile al r = []")
      case True
      then have "normalize_runes al True s @ [32] = spaced (rune_words al s)" by (simp add: norm words del: dropWhile_eq_Nil_conv)
      then show ?thesis by (intro exI [of _ "[32]"]) simp
    next
      case False
      have "normalize_runes al True s @ t = spaced (rune_words al s)"
        using False t(2) by (simp add: norm words del: dropWhile_eq_Nil_conv)
      moreover have "t = [] \<longrightarrow> last (normalize_runes al True s) = 32"
        using False t(3) by (auto simp: norm simp del: dropWhile_eq_Nil_conv)
      ultimately show ?thesis using t(1) by blast
    qed
  qed
qed

section \<open>The phrase matcher\<close>

lemma chars_contain_iff: "chars_contain s n \<longleftrightarrow> (\<exists>p q. s = p @ n @ q)"
proof (induction s)
  case (Cons x s)
  have "take (length n) (x # s) = n \<longleftrightarrow> (\<exists>q. x # s = n @ q)"
    by (metis append_eq_conv_conj append_take_drop_id)
  then show ?case using Cons by (auto simp: Cons_eq_append_conv)
qed simp

lemma after_separator:
  "w @ c # a = p @ c # b \<Longrightarrow> c \<notin> set w \<Longrightarrow> \<exists>p'. c # a = p' @ c # b"
  by (induction w arbitrary: p) (auto simp: Cons_eq_append_conv)

lemma spaced_boundary:
  assumes "32 # spaced ws = p @ 32 # s" "\<And>w. w \<in> set ws \<Longrightarrow> 32 \<notin> set w"
  shows "\<exists>a b. ws = a @ b \<and> s = spaced b"
  using assms
proof (induction ws arbitrary: p)
  case Nil
  then show ?case by (auto simp: Cons_eq_append_conv)
next
  case (Cons w ws)
  show ?case
  proof (cases p)
    case Nil
    then have "w # ws = [] @ (w # ws) \<and> s = spaced (w # ws)" using Cons.prems(1) by simp
    then show ?thesis by blast
  next
    case p: (Cons x p')
    then have eq: "w @ 32 # spaced ws = p' @ 32 # s" using Cons.prems(1) by simp
    have "32 \<notin> set w" using Cons.prems(2) by simp
    then obtain p'' where "32 # spaced ws = p'' @ 32 # s"
      using after_separator [OF eq] by blast
    from Cons.IH [OF this] Cons.prems(2) obtain a b where "ws = a @ b" "s = spaced b" by auto
    then have "w # ws = (w # a) @ b \<and> s = spaced b" by simp
    then show ?thesis by blast
  qed
qed

lemma spaced_prefix:
  assumes "spaced ws = spaced vs @ q" "\<And>w. w \<in> set ws \<union> set vs \<Longrightarrow> 32 \<notin> set w"
  shows "\<exists>us. ws = vs @ us"
  using assms
proof (induction vs arbitrary: ws)
  case (Cons v vs)
  obtain w ws' where ws: "ws = w # ws'" using Cons.prems(1) by (cases ws) auto
  have no: "32 \<notin> set w" "32 \<notin> set v" using Cons.prems(2) ws by simp_all
  have "w @ 32 # spaced ws' = v @ 32 # (spaced vs @ q)" using Cons.prems(1) ws by simp
  then have "w = v" "spaced ws' = spaced vs @ q"
    using no by (auto simp: append_eq_append_conv2 Cons_eq_append_conv append_eq_Cons_conv)
  with Cons.IH [of ws'] Cons.prems(2) ws show ?case by auto
qed simp

lemma spaced_contains:
  assumes "\<And>w. w \<in> set ws \<union> set vs \<Longrightarrow> 32 \<notin> set w"
  shows "chars_contain (32 # spaced ws) (32 # spaced vs) \<longleftrightarrow> sublist vs ws"
proof
  assume "chars_contain (32 # spaced ws) (32 # spaced vs)"
  then obtain p q where "32 # spaced ws = p @ 32 # (spaced vs @ q)" by (auto simp: chars_contain_iff)
  from spaced_boundary [OF this] assms obtain a b where ws: "ws = a @ b" and b: "spaced b = spaced vs @ q"
    by (metis UnCI)
  from spaced_prefix [OF b] assms ws obtain us where "b = vs @ us" by auto
  with ws show "sublist vs ws" by (simp add: sublist_appendI)
next
  assume "sublist vs ws"
  then obtain a b where ws: "ws = a @ vs @ b" by (auto simp: sublist_def)
  show "chars_contain (32 # spaced ws) (32 # spaced vs)"
  proof (cases "a = []")
    case True
    then have "32 # spaced ws = [] @ (32 # spaced vs) @ spaced b" by (simp add: ws)
    then show ?thesis unfolding chars_contain_iff by blast
  next
    case False
    then obtain x where "spaced a = x @ [32]" using spaced_last by blast
    then have "32 # spaced ws = (32 # x) @ (32 # spaced vs) @ spaced b" by (simp add: ws)
    then show ?thesis unfolding chars_contain_iff by blast
  qed
qed

text \<open>
  What the matcher relies on of the Unicode tables: no character is both alphanumeric and white space,
  and ASCII text is treated as ASCII.
\<close>

definition ascii_alnum :: "nat \<Rightarrow> bool" where
  "ascii_alnum c \<longleftrightarrow> 48 \<le> c \<and> c \<le> 57 \<or> 65 \<le> c \<and> c \<le> 90 \<or> 97 \<le> c \<and> c \<le> 122"

definition unicode_ok :: "unicode_tables \<Rightarrow> bool" where
  "unicode_ok u \<longleftrightarrow>
     (\<forall>c. alphanumeric u c \<longrightarrow> \<not> is_whitespace c) \<and>
     (\<forall>c. c < 128 \<longrightarrow> alphanumeric u c = ascii_alnum c) \<and>
     (\<forall>s. list_all (\<lambda>c. byte c < 128) s \<longrightarrow> lowercase_chars u s = map byte (to_ascii_lowercase s))"

definition heuristic_words :: "unicode_tables \<Rightarrow> string \<Rightarrow> nat list list" where
  "heuristic_words u v = rune_words (alphanumeric u) (lowercase_chars u v)"

lemma trim_chars_body:
  assumes "body \<noteq> []" "\<not> is_whitespace (hd body)" "\<not> is_whitespace (last body)"
  shows "trim_chars body = body" "trim_chars (body @ [32]) = body"
proof -
  have front: "dropWhile is_whitespace (body @ t) = body @ t" for t using assms(1,2) by (cases body) simp_all
  have rear: "rev (dropWhile is_whitespace (rev body)) = body"
    using assms(1,3) by (cases body rule: rev_cases) simp_all
  show "trim_chars body = body" using front [of "[]"] rear by (simp add: trim_chars_def)
  show "trim_chars (body @ [32]) = body"
    using front [of "[32]"] rear by (simp add: trim_chars_def is_whitespace_def)
qed

lemma normalized_words:
  assumes "unicode_ok u"
  shows "heuristic_words u v = [] \<Longrightarrow> normalize_heuristic_text u v = []"
    and "heuristic_words u v \<noteq> [] \<Longrightarrow> normalize_heuristic_text u v \<noteq> [] \<and>
      normalize_heuristic_text u v @ [32] = spaced (heuristic_words u v)"
proof -
  let ?al = "alphanumeric u" and ?ws = "heuristic_words u v"
  let ?n = "normalize_runes ?al True (lowercase_chars u v)"
  have al: "?al c \<Longrightarrow> \<not> is_whitespace c" for c using assms by (simp add: unicode_ok_def)
  have "\<not> ?al 32" using al [of 32] by (auto simp: is_whitespace_def)
  then obtain tail where tail: "tail \<in> {[], [32]}" "?n @ tail = spaced ?ws"
    using normalize_spaced [of ?al] unfolding heuristic_words_def by blast
  have word: "w \<noteq> [] \<and> list_all ?al w" if "w \<in> set ?ws" for w
    using rune_words_set that unfolding heuristic_words_def by blast
  show "normalize_heuristic_text u v = []" if "?ws = []"
    using tail that by (simp add: normalize_heuristic_text_def trim_chars_def)
  assume ne: "?ws \<noteq> []"
  obtain first rest where first: "?ws = first # rest" using ne by (cases ?ws) auto
  then have "first \<noteq> []" "list_all ?al first" using word [of first] by auto
  then have hd: "spaced ?ws \<noteq> [] \<and> ?al (hd (spaced ?ws))" unfolding first by (cases first) simp_all
  obtain vs w where ws: "?ws = vs @ [w]" using ne by (cases ?ws rule: rev_cases) auto
  define body where "body = spaced vs @ w"
  have body: "spaced ?ws = body @ [32]" by (simp add: ws body_def)
  have w: "w \<noteq> []" "list_all ?al w" using word [of w] ws by auto
  have "body \<noteq> []" using w by (simp add: body_def)
  moreover have "\<not> is_whitespace (hd body)" using hd al body \<open>body \<noteq> []\<close> by (metis hd_append2)
  moreover have "\<not> is_whitespace (last body)" using w al by (simp add: body_def list_all_iff)
  moreover have "?n = body \<or> ?n = body @ [32]" using tail body by auto
  ultimately have "normalize_heuristic_text u v = body"
    unfolding normalize_heuristic_text_def using trim_chars_body [of body] by auto
  then show "normalize_heuristic_text u v \<noteq> [] \<and> normalize_heuristic_text u v @ [32] = spaced ?ws"
    using \<open>body \<noteq> []\<close> body by simp
qed

text \<open>A phrase is found exactly when its words occur next to each other among the words of the text.\<close>

lemma heuristic_phrase_iff:
  assumes "unicode_ok u"
  shows "contains_heuristic_phrase u text phrase \<longleftrightarrow>
    heuristic_words u phrase \<noteq> [] \<and> sublist (heuristic_words u phrase) (heuristic_words u text)"
proof -
  note norm = normalized_words [OF assms]
  have space: "\<not> alphanumeric u 32" using assms by (simp add: unicode_ok_def ascii_alnum_def)
  have no: "32 \<notin> set w" if "w \<in> set (heuristic_words u v)" for w v
    using that rune_words_set [of w "alphanumeric u"] space
    unfolding heuristic_words_def by (auto simp: list_all_iff)
  show ?thesis
  proof (cases "heuristic_words u text = [] \<or> heuristic_words u phrase = []")
    case True
    then show ?thesis using norm(1) by (auto simp: contains_heuristic_phrase_def Let_def)
  next
    case False
    then have "contains_heuristic_phrase u text phrase
      \<longleftrightarrow> chars_contain (32 # spaced (heuristic_words u text)) (32 # spaced (heuristic_words u phrase))"
      using norm(2) by (simp add: contains_heuristic_phrase_def Let_def)
    also have "\<dots> \<longleftrightarrow> sublist (heuristic_words u phrase) (heuristic_words u text)"
      by (rule spaced_contains) (use no in blast)
    finally show ?thesis using False by simp
  qed
qed

text \<open>A keyword of the tables, in ASCII, is mentioned in a text.\<close>

definition mentions :: "unicode_tables \<Rightarrow> string \<Rightarrow> string \<Rightarrow> bool" where
  "mentions u text keyword \<longleftrightarrow> sublist (rune_words ascii_alnum (map byte keyword)) (heuristic_words u text)"

lemma ascii_heuristic_words:
  assumes "unicode_ok u" "list_all (\<lambda>c. byte c < 128 \<and> ascii_lower c = c) kw"
  shows "heuristic_words u kw = rune_words ascii_alnum (map byte kw)"
proof -
  have "list_all (\<lambda>c. byte c < 128) kw" using assms(2) by (simp add: list_all_iff)
  moreover have "to_ascii_lowercase kw = kw"
    using assms(2) by (simp add: to_ascii_lowercase_def list_all_iff map_idI)
  ultimately have "lowercase_chars u kw = map byte kw" using assms(1) by (simp add: unicode_ok_def)
  moreover have "rune_words (alphanumeric u) (map byte kw) = rune_words ascii_alnum (map byte kw)"
    using assms by (intro rune_words_cong) (auto simp: unicode_ok_def list_all_iff)
  ultimately show ?thesis by (simp add: heuristic_words_def)
qed

definition plain_keyword :: "string \<Rightarrow> bool" where
  "plain_keyword kw \<longleftrightarrow>
     list_all (\<lambda>c. byte c = 32 \<or> 97 \<le> byte c \<and> byte c \<le> 122) kw \<and> kw \<noteq> [] \<and> byte (hd kw) \<noteq> 32"

lemma plain_keyword_words:
  assumes "plain_keyword kw"
  shows "list_all (\<lambda>c. byte c < 128 \<and> ascii_lower c = c) kw" "rune_words ascii_alnum (map byte kw) \<noteq> []"
proof -
  show "list_all (\<lambda>c. byte c < 128 \<and> ascii_lower c = c) kw"
    using assms by (auto simp: plain_keyword_def list_all_iff ascii_lower_def)
  obtain c s where "kw = c # s" "ascii_alnum (byte c)"
    using assms by (cases kw) (auto simp: plain_keyword_def ascii_alnum_def)
  then show "rune_words ascii_alnum (map byte kw) \<noteq> []" by (simp add: rune_words_run)
qed

lemma any_phrase_iff:
  assumes "unicode_ok u" "list_all plain_keyword kws"
  shows "contains_any_heuristic_phrase u text kws \<longleftrightarrow> (\<exists>kw\<in>set kws. mentions u text kw)"
proof -
  have "contains_heuristic_phrase u text kw \<longleftrightarrow> mentions u text kw" if "kw \<in> set kws" for kw
  proof -
    have kw: "plain_keyword kw" using assms(2) that by (simp add: list_all_iff)
    show ?thesis
      unfolding heuristic_phrase_iff [OF assms(1)] mentions_def
        ascii_heuristic_words [OF assms(1) plain_keyword_words(1) [OF kw]]
      using plain_keyword_words(2) [OF kw] by simp
  qed
  then show ?thesis by (simp add: contains_any_heuristic_phrase_def list_ex_iff)
qed

lemma keyword_tables_plain:
  "list_all plain_keyword NON_CODE_TASK_KEYWORDS" "list_all plain_keyword CODE_TASK_KEYWORDS"
  "list_all plain_keyword LANGUAGE_SPECIALIST_TOKENS"
  by (simp_all add: NON_CODE_TASK_KEYWORDS_def CODE_TASK_KEYWORDS_def LANGUAGE_SPECIALIST_TOKENS_def
      plain_keyword_def byte_def)

text \<open>
  Codex is chosen exactly for an implementer whose task mentions a code keyword and no non-code
  keyword, on word boundaries and in order, with the automatic mode on, and, outside the aggressive
  mode, a persona that names a language; every other phase runs on claude.
\<close>

theorem select_runtime_exact:
  assumes "unicode_ok u"
  shows "select_runtime u role persona task auto =
    (if role = ''implementer'' \<and> auto \<notin> {[], ''0'', ''false'', ''no''} \<and>
        (\<forall>kw\<in>set NON_CODE_TASK_KEYWORDS. \<not> mentions u task kw) \<and>
        (\<exists>kw\<in>set CODE_TASK_KEYWORDS. mentions u task kw) \<and>
        (auto \<in> {''aggressive'', ''2''} \<or> (\<exists>kw\<in>set LANGUAGE_SPECIALIST_TOKENS. mentions u persona kw))
     then ''codex'' else ''claude'')"
  unfolding select_runtime_def select_for_implementer_def
    any_phrase_iff [OF assms keyword_tables_plain(1)] any_phrase_iff [OF assms keyword_tables_plain(2)]
    any_phrase_iff [OF assms keyword_tables_plain(3)]
  by auto

definition ascii_tables :: unicode_tables where
  "ascii_tables = \<lparr>lowercase_chars = (\<lambda>s. map byte (to_ascii_lowercase s)), alphanumeric = ascii_alnum\<rparr>"

theorem select_runtime_exact_witness:
  "select_runtime ascii_tables ''implementer'' [] ''Fix CLI'' ''2'' = ''codex''"
proof -
  have ok: "unicode_ok ascii_tables"
    by (auto simp: unicode_ok_def ascii_tables_def ascii_alnum_def is_whitespace_def)
  show ?thesis unfolding select_runtime_exact [OF ok] by code_simp
qed

end
