(* ===== verification/Sanitize.thy ===== *)
theory Sanitize
  imports Rust_Text "HOL-Library.Sublist"
begin

text \<open>
  Sanitizing untrusted text (\<^verbatim>\<open>orchestrator-core/src/sanitize.rs\<close>). A text is the list of its
  characters, each the code point of a Unicode scalar value; positions are byte offsets of its UTF-8
  form. The NFKC normalization, a third-party crate, is a parameter.
\<close>

section \<open>Characters\<close>

definition between :: "nat \<Rightarrow> nat \<Rightarrow> nat \<Rightarrow> bool" where
  "between r lo hi \<longleftrightarrow> lo \<le> r \<and> r \<le> hi"

definition len_utf8 :: "nat \<Rightarrow> nat" where
  "len_utf8 r = (if r < 0x80 then 1 else if r < 0x800 then 2 else if r < 0x10000 then 3 else 4)"

record Finding =
  fi_position :: nat
  fi_rune :: nat
  fi_description :: string

definition is_cf :: "nat \<Rightarrow> bool" where
  "is_cf r \<longleftrightarrow>
     r = 0x00AD \<or> between r 0x0600 0x0605 \<or> r = 0x061C \<or> r = 0x06DD \<or> r = 0x070F \<or>
     between r 0x0890 0x0891 \<or> r = 0x08E2 \<or> r = 0x180E \<or> between r 0x200B 0x200F \<or>
     between r 0x202A 0x202E \<or> between r 0x2060 0x2064 \<or> between r 0x2066 0x206F \<or>
     r = 0xFEFF \<or> between r 0xFFF9 0xFFFB \<or> r = 0x110BD \<or> r = 0x110CD \<or>
     between r 0x13430 0x1343F \<or> between r 0x1BCA0 0x1BCA3 \<or> between r 0x1D173 0x1D17A \<or>
     r = 0xE0001 \<or> between r 0xE0020 0xE007F"

definition is_latin :: "nat \<Rightarrow> bool" where
  "is_latin r \<longleftrightarrow>
     between r 0x0041 0x005A \<or> between r 0x0061 0x007A \<or> r = 0x00AA \<or> r = 0x00BA \<or>
     between r 0x00C0 0x00D6 \<or> between r 0x00D8 0x00F6 \<or> between r 0x00F8 0x02B8 \<or>
     between r 0x1E00 0x1EFF \<or> between r 0x2C60 0x2C7F \<or> between r 0xA720 0xA7FF"

definition is_cyrillic :: "nat \<Rightarrow> bool" where
  "is_cyrillic r \<longleftrightarrow>
     between r 0x0400 0x04FF \<or> between r 0x0500 0x052F \<or> between r 0x2DE0 0x2DFF \<or>
     between r 0xA640 0xA69F"

definition is_armenian :: "nat \<Rightarrow> bool" where
  "is_armenian r \<longleftrightarrow>
     between r 0x0531 0x0556 \<or> between r 0x0559 0x058A \<or> between r 0x058D 0x058F \<or>
     between r 0xFB13 0xFB17"

definition should_strip :: "nat \<Rightarrow> bool" where
  "should_strip r =
     (if r \<le> 0x1F then r \<noteq> 9 \<and> r \<noteq> 10 \<and> r \<noteq> 13
      else if r = 0x7F then True
      else if between r 0x80 0x9F then True
      else if is_cf r then True
      else if r = 0xFFFE then True
      else if r = 0x2028 \<or> r = 0x2029 then True
      else if between r 0xFE00 0xFE0F then True
      else if between r 0xE0100 0xE01EF then True
      else if between r 0xE0001 0xE007F then True
      else False)"

section \<open>Descriptions\<close>

definition hex_digit :: "nat \<Rightarrow> char" where
  "hex_digit d = ''0123456789ABCDEF'' ! d"

fun hex_upper :: "nat \<Rightarrow> string" where
  "hex_upper n = (if n < 16 then [hex_digit n] else hex_upper (n div 16) @ [hex_digit (n mod 16)])"

declare hex_upper.simps [simp del]

definition hex_padded :: "nat \<Rightarrow> nat \<Rightarrow> string" where
  "hex_padded width n = replicate (width - length (hex_upper n)) (CHR ''0'') @ hex_upper n"

definition rune_hex :: "nat \<Rightarrow> string" where
  "rune_hex r = (if r < 0x10000 then hex_padded 4 r else hex_padded 5 r)"

definition known_runes :: "(nat \<times> string) list" where
  "known_runes =
     [(0x00AD, ''soft hyphen (U+00AD)''),
      (0x180E, ''Mongolian vowel separator (U+180E)''),
      (0x200B, ''zero-width space (U+200B)''),
      (0x200C, ''zero-width non-joiner (U+200C)''),
      (0x200D, ''zero-width joiner (U+200D)''),
      (0x200E, ''left-to-right mark (U+200E)''),
      (0x200F, ''right-to-left mark (U+200F)''),
      (0x2028, ''line separator (U+2028)''),
      (0x2029, ''paragraph separator (U+2029)''),
      (0x202A, ''left-to-right embedding (U+202A)''),
      (0x202B, ''right-to-left embedding (U+202B)''),
      (0x202C, ''pop directional formatting (U+202C)''),
      (0x202D, ''left-to-right override (U+202D)''),
      (0x202E, ''right-to-left override (U+202E)''),
      (0x2060, ''word joiner (U+2060)''),
      (0x2066, ''left-to-right isolate (U+2066)''),
      (0x2067, ''right-to-left isolate (U+2067)''),
      (0x2068, ''first strong isolate (U+2068)''),
      (0x2069, ''pop directional isolate (U+2069)''),
      (0xFEFF, ''byte order mark / zero-width no-break space (U+FEFF)''),
      (0xFFFE, ''reversed BOM / noncharacter (U+FFFE)''),
      (0xFFF9, ''interlinear annotation anchor (U+FFF9)''),
      (0xFFFA, ''interlinear annotation separator (U+FFFA)''),
      (0xFFFB, ''interlinear annotation terminator (U+FFFB)'')]"

definition describe_rune :: "nat \<Rightarrow> string" where
  "describe_rune r =
     (case map_of known_runes r of
        Some d \<Rightarrow> d
      | None \<Rightarrow>
          if r \<le> 0x1F then ''C0 control character (U+'' @ rune_hex r @ '')''
          else if r = 0x7F then ''DEL (U+007F)''
          else if between r 0x80 0x9F then ''C1 control character (U+'' @ rune_hex r @ '')''
          else if between r 0x2061 0x2064 then ''invisible math operator (U+'' @ rune_hex r @ '')''
          else if between r 0x206A 0x206F then ''deprecated formatting character (U+'' @ rune_hex r @ '')''
          else if between r 0xFE00 0xFE0F then ''variation selector (U+'' @ rune_hex r @ '')''
          else if between r 0xE0001 0xE007F then ''tag character (U+'' @ rune_hex r @ '')''
          else if between r 0xE0100 0xE01EF then ''variation selector supplement (U+'' @ rune_hex r @ '')''
          else ''invisible character (U+'' @ rune_hex r @ '')'')"

section \<open>Scans\<close>

definition sanitize_text :: "(nat list \<Rightarrow> nat list) \<Rightarrow> nat list \<Rightarrow> nat list" where
  "sanitize_text nfkc s = nfkc (filter (\<lambda>r. \<not> should_strip r) s)"

definition has_invisible :: "nat list \<Rightarrow> bool" where
  "has_invisible s \<longleftrightarrow> list_ex should_strip s"

fun invisible_from :: "nat \<Rightarrow> nat list \<Rightarrow> Finding list" where
  "invisible_from pos [] = []"
| "invisible_from pos (r # s) =
     (if should_strip r
      then [\<lparr>fi_position = pos, fi_rune = r, fi_description = describe_rune r\<rparr>] else [])
     @ invisible_from (pos + len_utf8 r) s"

definition detect_invisible :: "nat list \<Rightarrow> Finding list" where
  "detect_invisible s = invisible_from 0 s"

text \<open>The three flags of the first pass: Latin, Cyrillic, Armenian.\<close>

definition script_flags :: "nat list \<Rightarrow> bool \<times> bool \<times> bool" where
  "script_flags s =
     fold (\<lambda>r (latin, cyrillic, armenian).
         if is_latin r then (True, cyrillic, armenian)
         else if is_cyrillic r then (latin, True, armenian)
         else if is_armenian r then (latin, cyrillic, True)
         else (latin, cyrillic, armenian))
       s (False, False, False)"

definition homoglyph_script :: "nat \<Rightarrow> string option" where
  "homoglyph_script r =
     (if is_cyrillic r then Some ''Cyrillic'' else if is_armenian r then Some ''Armenian'' else None)"

definition homoglyph_description :: "string \<Rightarrow> nat \<Rightarrow> string" where
  "homoglyph_description script r =
     ''potential homoglyph: '' @ script @ '' character in Latin text (U+'' @ rune_hex r @ '')''"

fun homoglyphs_from :: "nat \<Rightarrow> nat list \<Rightarrow> Finding list" where
  "homoglyphs_from pos [] = []"
| "homoglyphs_from pos (r # s) =
     (case homoglyph_script r of
        Some script \<Rightarrow>
          [\<lparr>fi_position = pos, fi_rune = r, fi_description = homoglyph_description script r\<rparr>]
      | None \<Rightarrow> [])
     @ homoglyphs_from (pos + len_utf8 r) s"

definition detect_homoglyphs :: "nat list \<Rightarrow> Finding list" where
  "detect_homoglyphs s =
     (let (has_latin, has_cyrillic, has_armenian) = script_flags s in
      if \<not> has_latin \<or> (\<not> has_cyrillic \<and> \<not> has_armenian) then [] else homoglyphs_from 0 s)"

section \<open>What the scans report\<close>

definition byte_length :: "nat list \<Rightarrow> nat" where
  "byte_length s = sum_list (map len_utf8 s)"

text \<open>The findings of a scan: each flagged character at the byte offset of its first byte.\<close>

definition flagged :: "(nat \<Rightarrow> string option) \<Rightarrow> nat list \<Rightarrow> Finding list" where
  "flagged label s =
     map (\<lambda>i. \<lparr>fi_position = byte_length (take i s), fi_rune = s ! i, fi_description = the (label (s ! i))\<rparr>)
       (filter (\<lambda>i. label (s ! i) \<noteq> None) [0..<length s])"

lemma flagged_Cons:
  "flagged label (r # s) =
     (if label r \<noteq> None then [\<lparr>fi_position = 0, fi_rune = r, fi_description = the (label r)\<rparr>] else [])
     @ map (\<lambda>f. f\<lparr>fi_position := len_utf8 r + fi_position f\<rparr>) (flagged label s)"
proof -
  have "[0..<length (r # s)] = 0 # map Suc [0..<length s]" by (simp add: upt_conv_Cons map_Suc_upt del: upt_Suc)
  then show ?thesis by (simp add: flagged_def filter_map comp_def byte_length_def)
qed

lemma invisible_flagged:
  "invisible_from pos s =
     map (\<lambda>f. f\<lparr>fi_position := pos + fi_position f\<rparr>)
       (flagged (\<lambda>r. if should_strip r then Some (describe_rune r) else None) s)"
proof (induction s arbitrary: pos)
  case Nil
  show ?case by (simp add: flagged_def)
next
  case (Cons r s)
  show ?case unfolding flagged_Cons invisible_from.simps Cons.IH by (simp add: comp_def add.assoc)
qed

lemma homoglyphs_flagged:
  "homoglyphs_from pos s =
     map (\<lambda>f. f\<lparr>fi_position := pos + fi_position f\<rparr>)
       (flagged (\<lambda>r. map_option (\<lambda>script. homoglyph_description script r) (homoglyph_script r)) s)"
proof (induction s arbitrary: pos)
  case Nil
  show ?case by (simp add: flagged_def)
next
  case (Cons r s)
  show ?case
    unfolding flagged_Cons homoglyphs_from.simps Cons.IH by (simp add: comp_def add.assoc split: option.split)
qed

lemma detect_invisible_flagged:
  "detect_invisible s = flagged (\<lambda>r. if should_strip r then Some (describe_rune r) else None) s"
  unfolding detect_invisible_def invisible_flagged by (simp add: map_idI)

lemma has_invisible_iff: "has_invisible s \<longleftrightarrow> detect_invisible s \<noteq> []"
proof -
  have "has_invisible s \<longleftrightarrow> (\<exists>i<length s. should_strip (s ! i))"
    by (simp add: has_invisible_def list_ex_length)
  then show ?thesis by (auto simp: detect_invisible_flagged flagged_def filter_empty_conv)
qed

lemma script_flags_iff:
  "script_flags s =
     (list_ex is_latin s, list_ex (\<lambda>r. \<not> is_latin r \<and> is_cyrillic r) s,
      list_ex (\<lambda>r. \<not> is_latin r \<and> \<not> is_cyrillic r \<and> is_armenian r) s)"
proof -
  have "fold (\<lambda>r (latin, cyrillic, armenian).
         if is_latin r then (True, cyrillic, armenian)
         else if is_cyrillic r then (latin, True, armenian)
         else if is_armenian r then (latin, cyrillic, True)
         else (latin, cyrillic, armenian)) s (l, c, a)
     = (l \<or> list_ex is_latin s, c \<or> list_ex (\<lambda>r. \<not> is_latin r \<and> is_cyrillic r) s,
        a \<or> list_ex (\<lambda>r. \<not> is_latin r \<and> \<not> is_cyrillic r \<and> is_armenian r) s)" for l c a
    by (induction s arbitrary: l c a) auto
  then show ?thesis by (simp add: script_flags_def)
qed

text \<open>The ranges of the three scripts do not meet.\<close>

lemma scripts_disjoint:
  "is_latin r \<Longrightarrow> \<not> is_cyrillic r \<and> \<not> is_armenian r" "is_cyrillic r \<Longrightarrow> \<not> is_armenian r"
  by (auto simp: is_latin_def is_cyrillic_def is_armenian_def between_def)

section \<open>Properties\<close>

lemma few_copies: "replicate 2 x = [x, x]" "replicate 3 x = [x, x, x]"
  by (simp_all add: numeral_2_eq_2 numeral_3_eq_3)

lemmas rune_text = rune_hex_def hex_padded_def hex_upper.simps [of "numeral n" for n]
  hex_upper.simps [of 0] hex_upper.simps [of "Suc 0"] hex_digit_def few_copies

lemma known_runes_named: "list_all (\<lambda>(r, d). suffix (''(U+'' @ rune_hex r @ '')'') d) known_runes"
  by (simp add: known_runes_def rune_text suffix_to_prefix)

lemma description_names_rune: "suffix (''(U+'' @ rune_hex r @ '')'') (describe_rune r)"
proof (cases "map_of known_runes r")
  case (Some d)
  then have "suffix (''(U+'' @ rune_hex r @ '')'') d"
    using known_runes_named map_of_SomeD [OF Some] by (auto simp: list_all_iff)
  then show ?thesis by (simp add: describe_rune_def Some)
next
  case None
  have del: "suffix (''(U+'' @ rune_hex 127 @ '')'') ''DEL (U+007F)''" by (simp add: rune_text suffix_to_prefix)
  have labelled: "suffix (''(U+'' @ rune_hex r @ '')'') (label @ '' (U+'' @ rune_hex r @ '')'')" for label
    by (rule suffixI [of _ "label @ '' ''"]) simp
  show ?thesis
    unfolding describe_rune_def None option.case
    using del labelled [of "''C0 control character''"] labelled [of "''C1 control character''"]
      labelled [of "''invisible math operator''"] labelled [of "''deprecated formatting character''"]
      labelled [of "''variation selector''"] labelled [of "''tag character''"]
      labelled [of "''variation selector supplement''"] labelled [of "''invisible character''"]
    by simp
qed

lemma len_utf8_pos: "0 < len_utf8 r"
  by (simp add: len_utf8_def)

lemma byte_length_append [simp]: "byte_length (s @ t) = byte_length s + byte_length t"
  by (simp add: byte_length_def)

lemma flagged_iff:
  "f \<in> set (flagged label s) \<longleftrightarrow>
     (\<exists>pre r post d. s = pre @ r # post \<and> label r = Some d \<and>
        f = \<lparr>fi_position = byte_length pre, fi_rune = r, fi_description = d\<rparr>)" (is "_ \<longleftrightarrow> ?split")
proof
  assume "f \<in> set (flagged label s)"
  then obtain i d where i: "i < length s" "label (s ! i) = Some d"
      "f = \<lparr>fi_position = byte_length (take i s), fi_rune = s ! i, fi_description = d\<rparr>"
    by (auto simp: flagged_def)
  then show ?split using id_take_nth_drop [OF i(1)] by blast
next
  assume ?split
  then obtain pre r post d where split: "s = pre @ r # post" "label r = Some d"
      "f = \<lparr>fi_position = byte_length pre, fi_rune = r, fi_description = d\<rparr>" by blast
  have i: "length pre \<in> set (filter (\<lambda>i. label (s ! i) \<noteq> None) [0..<length s])"
    by (simp add: split(1,2))
  have "f = (\<lambda>i. \<lparr>fi_position = byte_length (take i s), fi_rune = s ! i,
      fi_description = the (label (s ! i))\<rparr>) (length pre)" using split by simp
  then show "f \<in> set (flagged label s)" unfolding flagged_def set_map using i by (rule image_eqI)
qed

lemma flagged_ordered: "sorted_wrt (<) (map fi_position (flagged label s))"
proof (induction s)
  case Nil
  show ?case by (simp add: flagged_def)
next
  case (Cons r s)
  have "sorted_wrt (<) (map (\<lambda>f. len_utf8 r + fi_position f) (flagged label s))"
    using Cons by (simp add: sorted_wrt_map)
  then show ?case
    using len_utf8_pos [of r] by (auto simp: flagged_Cons comp_def sorted_wrt_append)
qed

text \<open>
  The scan for invisible characters reports exactly the characters the sanitizer removes, in text
  order, each at the byte offset of its encoding and with a description that names its code point.
\<close>

theorem invisible_report_exact:
  "set (detect_invisible s) =
     {\<lparr>fi_position = byte_length pre, fi_rune = r, fi_description = describe_rune r\<rparr> | pre r post.
        s = pre @ r # post \<and> should_strip r} \<and>
   sorted_wrt (<) (map fi_position (detect_invisible s)) \<and>
   (\<forall>r. suffix (''(U+'' @ rune_hex r @ '')'') (describe_rune r)) \<and>
   (has_invisible s \<longleftrightarrow> detect_invisible s \<noteq> []) \<and>
   (sanitize_text nfkc s = nfkc s \<or> has_invisible s)"
proof (intro conjI allI)
  show "set (detect_invisible s) =
     {\<lparr>fi_position = byte_length pre, fi_rune = r, fi_description = describe_rune r\<rparr> | pre r post.
        s = pre @ r # post \<and> should_strip r}"
    unfolding detect_invisible_flagged by (rule set_eqI) (simp add: flagged_iff, metis)
  show "sorted_wrt (<) (map fi_position (detect_invisible s))"
    unfolding detect_invisible_flagged by (rule flagged_ordered)
  show "suffix (''(U+'' @ rune_hex r @ '')'') (describe_rune r)" for r by (rule description_names_rune)
  show "has_invisible s \<longleftrightarrow> detect_invisible s \<noteq> []" by (rule has_invisible_iff)
  show "sanitize_text nfkc s = nfkc s \<or> has_invisible s"
    by (cases "has_invisible s") (simp_all add: sanitize_text_def has_invisible_def list_ex_iff filter_id_conv)
qed

lemma sanitized_clean: "\<not> has_invisible (sanitize_text id s)"
  by (simp add: sanitize_text_def has_invisible_def list_ex_iff)

lemma homoglyph_report_exact:
  "f \<in> set (detect_homoglyphs s) \<longleftrightarrow>
     list_ex is_latin s \<and>
     (\<exists>pre r post script. s = pre @ r # post \<and> homoglyph_script r = Some script \<and>
        f = \<lparr>fi_position = byte_length pre, fi_rune = r, fi_description = homoglyph_description script r\<rparr>)"
proof -
  let ?label = "\<lambda>r. map_option (\<lambda>script. homoglyph_description script r) (homoglyph_script r)"
  have report: "homoglyphs_from 0 s = flagged ?label s" by (simp add: homoglyphs_flagged map_idI)
  have scripts: "homoglyph_script r \<noteq> None \<longleftrightarrow>
      \<not> is_latin r \<and> is_cyrillic r \<or> \<not> is_latin r \<and> \<not> is_cyrillic r \<and> is_armenian r" for r
    using scripts_disjoint [of r] by (auto simp: homoglyph_script_def)
  show ?thesis
  proof (cases "list_ex is_latin s \<and> list_ex (\<lambda>r. homoglyph_script r \<noteq> None) s")
    case True
    then have "detect_homoglyphs s = flagged ?label s"
      using scripts by (simp add: detect_homoglyphs_def script_flags_iff report list_ex_iff) blast
    then show ?thesis using True by (auto simp: flagged_iff)
  next
    case False
    then consider "\<not> list_ex is_latin s" | "\<forall>r\<in>set s. homoglyph_script r = None"
      by (auto simp: list_ex_iff)
    then have "detect_homoglyphs s = []"
    proof cases
      case 2
      then have "\<forall>r\<in>set s. \<not> (\<not> is_latin r \<and> is_cyrillic r) \<and> \<not> (\<not> is_latin r \<and> \<not> is_cyrillic r \<and> is_armenian r)"
        using scripts by meson
      then show ?thesis by (simp add: detect_homoglyphs_def script_flags_iff list_ex_iff)
    qed (simp add: detect_homoglyphs_def script_flags_iff)
    moreover have "homoglyph_script r = None" if "list_ex is_latin s" "s = pre @ r # post" for pre r post
      using False that by (auto simp: list_ex_iff)
    ultimately show ?thesis by auto
  qed
qed

end
