(* ===== verification/Persona.thy ===== *)
theory Persona
  imports Rust_Text
begin

text \<open>
  Persona files (\<^verbatim>\<open>orchestrator-core/src/persona.rs\<close>): loading a prompt body, stripping the
  frontmatter, listing the names. The file system is a parameter; paths and texts are bytes.
\<close>

section \<open>Files\<close>

text \<open>
  \<open>fs_read_dir\<close> yields the file names of the entries that could be read, in some order; a name that is
  not UTF-8 is \<open>None\<close>.
\<close>

record file_system =
  fs_is_file :: "string \<Rightarrow> bool"
  fs_is_dir :: "string \<Rightarrow> bool"
  fs_read_to_string :: "string \<Rightarrow> string option"
  fs_read_dir :: "string \<Rightarrow> string option list option"

text \<open>\<open>Path::join\<close> on Unix.\<close>

definition path_join :: "string \<Rightarrow> string \<Rightarrow> string" where
  "path_join dir name =
     (if starts_with name ''/'' then name
      else if dir = [] \<or> last dir = CHR ''/'' then dir @ name
      else dir @ ''/'' @ name)"

definition PERSONAS_SUBDIR :: string where
  "PERSONAS_SUBDIR = ''personas''"

definition default_personas_dir :: "string \<Rightarrow> string" where
  "default_personas_dir nanika_dir = path_join nanika_dir PERSONAS_SUBDIR"

fun str_find :: "string \<Rightarrow> string \<Rightarrow> nat option" where
  "str_find [] n = (if n = [] then Some 0 else None)"
| "str_find (c # s) n = (if starts_with (c # s) n then Some 0 else map_option Suc (str_find s n))"

definition opening_fence :: string where
  "opening_fence = ''---'' @ [CHR 0x0A]"

definition closing_fence :: string where
  "closing_fence = CHR 0x0A # ''---'' @ [CHR 0x0A]"

definition strip_frontmatter :: "string \<Rightarrow> string" where
  "strip_frontmatter content =
     (let content = (case strip_prefix opening_fence content of Some rest \<Rightarrow> rest | None \<Rightarrow> content) in
      case str_find content closing_fence of
        Some end_ \<Rightarrow> dropWhile (\<lambda>c. c = CHR 0x0A) (drop (end_ + length closing_fence) content)
      | None \<Rightarrow> content)"

definition load_persona_prompt :: "file_system \<Rightarrow> string \<Rightarrow> string \<Rightarrow> string option" where
  "load_persona_prompt fs personas_dir name =
     (let flat = path_join personas_dir (name @ ''.md'') in
      if fs_is_file fs flat then map_option strip_frontmatter (fs_read_to_string fs flat)
      else
        let nested = path_join (path_join personas_dir name) (name @ ''.md'') in
        if fs_is_file fs nested then map_option strip_frontmatter (fs_read_to_string fs nested)
        else None)"

function trim_end_matches :: "string \<Rightarrow> string \<Rightarrow> string" where
  "trim_end_matches suf s =
     (if suf \<noteq> [] \<and> starts_with (rev s) (rev suf)
      then trim_end_matches suf (take (length s - length suf) s) else s)"
  by pat_completeness auto
termination
proof (relation "measure (\<lambda>(suf, s). length s)", goal_cases)
  case (2 suf s)
  then have "0 < length suf" "length suf \<le> length s" using starts_with_length [of "rev s" "rev suf"] by auto
  then have "length s - length suf < length s" by linarith
  then show ?case by simp
qed simp

declare trim_end_matches.simps [simp del]

definition persona_entry :: "file_system \<Rightarrow> string \<Rightarrow> string option \<Rightarrow> string list" where
  "persona_entry fs personas_dir entry =
     (case entry of
        None \<Rightarrow> []
      | Some name \<Rightarrow>
          let path = path_join personas_dir name in
          if fs_is_file fs path \<and> starts_with (rev name) (rev ''.md'') then [trim_end_matches ''.md'' name]
          else if fs_is_dir fs path
          then (if fs_is_file fs (path_join path (name @ ''.md'')) then [name] else [])
          else [])"

definition list_persona_names :: "file_system \<Rightarrow> string \<Rightarrow> string list" where
  "list_persona_names fs personas_dir =
     sort (case fs_read_dir fs personas_dir of
             Some entries \<Rightarrow> concat (map (persona_entry fs personas_dir) entries)
           | None \<Rightarrow> [])"

section \<open>Properties\<close>

lemma str_find_iff:
  "str_find s n = Some i \<longleftrightarrow>
     i \<le> length s \<and> starts_with (drop i s) n \<and> (\<forall>j<i. \<not> starts_with (drop j s) n)"
proof (induction s arbitrary: i)
  case Nil
  show ?case by (cases n) (auto simp: starts_with_def)
next
  case (Cons c s)
  show ?case
  proof (cases i)
    case 0
    then show ?thesis by (simp add: split: option.split)
  next
    case (Suc i')
    have "(\<forall>j<Suc i'. \<not> starts_with (drop j (c # s)) n) \<longleftrightarrow>
        \<not> starts_with (c # s) n \<and> (\<forall>j<i'. \<not> starts_with (drop j s) n)"
      by (simp add: less_Suc_eq_0_disj all_conj_distrib imp_conjR)
        (metis drop0 drop_Suc_Cons)
    then show ?thesis using Suc Cons [of i'] by auto
  qed
qed

lemma str_find_None: "str_find s n = None \<longleftrightarrow> \<not> str_contains s n"
  by (induction s) auto

text \<open>Well-formed frontmatter is removed with its fences and the blank lines after it.\<close>

lemma frontmatter_removed:
  assumes "content = opening_fence @ meta @ closing_fence @ body"
    and "str_find (meta @ closing_fence @ body) closing_fence = Some (length meta)"
  shows "strip_frontmatter content = dropWhile (\<lambda>c. c = CHR 0x0A) body"
  using assms(2) unfolding strip_frontmatter_def assms(1) by (simp add: strip_prefix_def Let_def)

lemma no_frontmatter_kept:
  "\<not> starts_with content opening_fence \<Longrightarrow> \<not> str_contains content closing_fence \<Longrightarrow>
     strip_frontmatter content = content"
  by (simp add: strip_frontmatter_def strip_prefix_def str_find_None [symmetric])

text \<open>A horizontal rule in a file without frontmatter loses the text before it.\<close>

lemma rule_in_plain_file:
  "strip_frontmatter (''a'' @ closing_fence @ ''b'') = ''b''"
  by code_simp

text \<open>Every listed persona has a file to load, unless a file name repeats the extension.\<close>

lemma listed_persona_loads:
  assumes "fs_read_dir fs dir = Some entries" "name \<in> set (list_persona_names fs dir)"
    and single: "\<And>n. Some n \<in> set entries \<Longrightarrow> starts_with (rev n) (rev ''.md'') \<Longrightarrow>
      n = trim_end_matches ''.md'' n @ ''.md''"
  shows "fs_is_file fs (path_join dir (name @ ''.md'')) \<or>
    fs_is_file fs (path_join (path_join dir name) (name @ ''.md''))"
proof -
  obtain entry where entry: "entry \<in> set entries" "name \<in> set (persona_entry fs dir entry)"
    using assms(1,2) by (auto simp: list_persona_names_def)
  then have "entry \<noteq> None" by (auto simp: persona_entry_def)
  then obtain n where n: "entry = Some n" by blast
  show ?thesis
  proof (cases "fs_is_file fs (path_join dir n) \<and> starts_with (rev n) (rev ''.md'')")
    case True
    then have "name = trim_end_matches ''.md'' n" using entry(2) by (simp add: n persona_entry_def Let_def)
    then show ?thesis using True single [of n] entry(1) n by simp
  next
    case False
    then show ?thesis using entry(2) by (auto simp: n persona_entry_def Let_def split: if_splits)
  qed
qed

lemma repeated_extension: "trim_end_matches ''.md'' ''a.md.md'' = ''a''"
  by (simp add: trim_end_matches.simps starts_with_def)

lemma listed_names_sorted: "sorted (list_persona_names fs dir)"
  by (simp add: list_persona_names_def)

end
