(* ===== verification/Prompt_Cards.thy ===== *)
theory Prompt_Cards
  imports Rust_Text
begin

text \<open>
  The texts the worker layer adds to a prompt: barok (\<^verbatim>\<open>orchestrator-core/src/barok.rs\<close>), the
  reasoning discipline (\<^verbatim>\<open>discipline.rs\<close>) and ponytail (\<^verbatim>\<open>ponytail.rs\<close>). Each environment
  variable is an argument; texts are UTF-8 bytes.
\<close>

section \<open>Barok\<close>

definition BAROK_PERSONAS :: "string list" where
  "BAROK_PERSONAS =
     [''technical-writer'', ''academic-researcher'', ''architect'', ''data-analyst'', ''staff-code-reviewer'']"

datatype BarokIntensity = Fragment | Sentence | Narrative

record BarokRule =
  ba_intensity :: BarokIntensity
  ba_special_compress :: string
  ba_special_preserve :: string

definition barok_rules :: "(string \<times> BarokRule) list" where
  "barok_rules =
     [(''technical-writer'',
       \<lparr>ba_intensity = Fragment,
        ba_special_compress = ''Drop subject pronouns ('' @ [CHR 0x22] @ ''System returns X'' @ [CHR 0x22] @ '' '' @
          [CHR 0xE2, CHR 0x86, CHR 0x92] @ '' '' @ [CHR 0x22] @ ''Returns X'' @ [CHR 0x22] @
          ''); drop linking verbs in declaratives.'',
        ba_special_preserve = []\<rparr>),
      (''academic-researcher'',
       \<lparr>ba_intensity = Fragment,
        ba_special_compress = ''Drop subject pronouns ('' @ [CHR 0x22] @ ''System returns X'' @ [CHR 0x22] @ '' '' @
          [CHR 0xE2, CHR 0x86, CHR 0x92] @ '' '' @ [CHR 0x22] @ ''Returns X'' @ [CHR 0x22] @
          ''); compress hedged clauses ('' @ [CHR 0x22] @ ''It is plausible that X may Y'' @ [CHR 0x22] @
          '' '' @ [CHR 0xE2, CHR 0x86, CHR 0x92] @ '' '' @ [CHR 0x22] @ ''X may Y'' @ [CHR 0x22] @ '').'',
        ba_special_preserve = ''Citation patterns ('' @ [CHR 0x60] @ ''[Author YYYY]'' @ [CHR 0x60] @ '', '' @ [CHR 0x60] @
          ''(Author, YYYY)'' @ [CHR 0x60] @ '', DOI strings) verbatim.''\<rparr>),
      (''architect'',
       \<lparr>ba_intensity = Sentence,
        ba_special_compress = ''Articles, pleasantries, and hedges only. No fragments '' @ [CHR 0xE2, CHR 0x80, CHR 0x94] @
          '' preserve rationale chains intact.'',
        ba_special_preserve = ''ADR section headers (Context, Decision, Candidates Considered, Component Map, Interfaces, Risks, Trade-offs Accepted) verbatim.''\<rparr>),
      (''data-analyst'',
       \<lparr>ba_intensity = Sentence,
        ba_special_compress = ''Articles, pleasantries, and hedges only. No fragments '' @ [CHR 0xE2, CHR 0x80, CHR 0x94] @
          '' preserve quantitative claims intact.'',
        ba_special_preserve = ''Numeric expressions with units (e.g. '' @ [CHR 0x60] @ ''94.17%'' @ [CHR 0x60] @ '', '' @
          [CHR 0x60] @ ''$15/M'' @ [CHR 0x60] @ '', '' @ [CHR 0x60] @ ''7d'' @ [CHR 0x60] @ '', '' @
          [CHR 0x60] @ ''12.5'' @ [CHR 0xC3, CHR 0x97, CHR 0x60] @ '') verbatim.''\<rparr>),
      (''staff-code-reviewer'',
       \<lparr>ba_intensity = Narrative,
        ba_special_compress = ''Compress narrative explanation prose only. Verdict-shaped lines and code citations pass through.'',
        ba_special_preserve = ''Verdict markers ('' @ [CHR 0x60] @ ''APPROVE:'' @ [CHR 0x60] @ '', '' @ [CHR 0x60] @
          ''REJECT:'' @ [CHR 0x60] @ '', '' @ [CHR 0x60] @ ''BLOCK:'' @ [CHR 0x60] @ '', '' @ [CHR 0x60] @
          ''NEEDS-CHANGES:'' @ [CHR 0x60] @ '', '' @ [CHR 0x60] @ ''NIT:'' @ [CHR 0x60] @ '', '' @
          [CHR 0x60] @ ''BLOCKING:'' @ [CHR 0x60] @ '') verbatim '' @ [CHR 0xE2, CHR 0x80, CHR 0x94] @
          '' including any leading whitespace or bullet prefix.''\<rparr>)]"

definition barok_rule :: "string \<Rightarrow> BarokRule option" where
  "barok_rule persona = map_of barok_rules persona"

definition is_barok_eligible_persona :: "string \<Rightarrow> bool" where
  "is_barok_eligible_persona persona \<longleftrightarrow> barok_rule persona \<noteq> None"

definition barok_intensity_tier :: "string \<Rightarrow> string" where
  "barok_intensity_tier persona =
     (case barok_rule persona of
        Some rule \<Rightarrow>
          (case ba_intensity rule of
             Fragment \<Rightarrow> ''LiteFragment''
           | Sentence \<Rightarrow> ''LiteSentence''
           | Narrative \<Rightarrow> ''LiteNarrative'')
      | None \<Rightarrow> [])"

definition barok_disabled_for :: "string option \<Rightarrow> bool" where
  "barok_disabled_for v \<longleftrightarrow> v = Some ''1''"

definition barok_compress :: string where
  "barok_compress = concat
     [''## Output Compression'' @ [CHR 0x0A, CHR 0x0A],
      ''This phase produces terminal output (no dependent worker phase will read it). '',
      ''Compress your generated prose using the rules below. '',
      ''The orchestrator runs a mechanical validator on every artifact you write '' @
       [CHR 0xE2, CHR 0x80, CHR 0x94] @ '' '',
      ''if compression strips a preserved surface, the artifact is regenerated once without compression. '',
      ''Stay inside the rules and your output ships on the first pass.'' @ [CHR 0x0A, CHR 0x0A],
      ''### COMPRESS (apply to prose surfaces only)'' @ [CHR 0x0A, CHR 0x0A],
      ''- Paragraph prose: narrative explanation, rationale, commentary, summaries.'' @ [CHR 0x0A],
      ''- Bulleted-list and numbered-list items whose body is a prose sentence.'' @ [CHR 0x0A],
      ''- Inline parenthetical asides and hedging ('' @ [CHR 0x22] @ ''roughly'' @ [CHR 0x22] @ '', '' @
       [CHR 0x22] @ ''it should be noted'' @ [CHR 0x22] @ '', '' @ [CHR 0x22] @ ''in practice'' @
       [CHR 0x22] @ '', '' @ [CHR 0x22] @ ''for the most part'' @ [CHR 0x22] @ '').'' @ [CHR 0x0A],
      ''- Articles, pleasantries, filler '' @ [CHR 0xE2, CHR 0x80, CHR 0x94] @ '' the upstream '' @
       [CHR 0x60] @ ''lite'' @ [CHR 0x60] @ '' baseline.'' @ [CHR 0x0A]]"

definition barok_preserve :: string where
  "barok_preserve = concat
     [''### PRESERVE VERBATIM (never compress, abbreviate, or rewrite)'' @ [CHR 0x0A, CHR 0x0A],
      ''- Fenced code blocks ('' @ [CHR 0x60, CHR 0x60, CHR 0x60] @ '' any language tag) '' @
       [CHR 0xE2, CHR 0x80, CHR 0x94] @ '' bytes equal.'' @ [CHR 0x0A],
      ''- Inline code (single backticks) '' @ [CHR 0xE2, CHR 0x80, CHR 0x94] @ '' bytes equal.'' @
       [CHR 0x0A],
      ''- Indented (4-space) code blocks '' @ [CHR 0xE2, CHR 0x80, CHR 0x94] @ '' bytes equal.'' @
       [CHR 0x0A],
      ''- Markdown headings (all levels) '' @ [CHR 0xE2, CHR 0x80, CHR 0x94] @ '' text and order.'' @
       [CHR 0x0A],
      ''- Tables: pipe structure, column count, row count, header row preserved.'' @ [CHR 0x0A],
      ''- YAML frontmatter (top-of-file '' @ [CHR 0x60] @ ''---'' @ [CHR 0x60] @
       '' block and any embedded YAML).'' @ [CHR 0x0A],
      ''- Scratch blocks (everything between '' @ [CHR 0x60] @ ''<!-- scratch -->'' @ [CHR 0x60] @
       '' and '' @ [CHR 0x60] @ ''<!-- /scratch -->'' @ [CHR 0x60] @ '') '' @
       [CHR 0xE2, CHR 0x80, CHR 0x94] @ '' bytes equal.'' @ [CHR 0x0A],
      ''- Context-bundle sections ('' @ [CHR 0x60] @ ''## Context from Prior Work'' @ [CHR 0x60] @
       '', '' @ [CHR 0x60] @ ''## Prior Phase Notes'' @ [CHR 0x60] @ '', '' @ [CHR 0x60] @
       ''## Lessons from Past Missions'' @ [CHR 0x60] @ '', '' @ [CHR 0x60] @ ''## Worker Identity'' @
       [CHR 0x60] @ '').'' @ [CHR 0x0A],
      ''- Learning markers: lines beginning with '' @ [CHR 0x60] @ ''LEARNING:'' @ [CHR 0x60] @ '', '' @
       [CHR 0x60] @ ''FINDING:'' @ [CHR 0x60] @ '', '' @ [CHR 0x60] @ ''PATTERN:'' @ [CHR 0x60] @
       '', '' @ [CHR 0x60] @ ''GOTCHA:'' @ [CHR 0x60] @ '', '' @ [CHR 0x60] @ ''DECISION:'' @
       [CHR 0x60] @ ''.'' @ [CHR 0x0A],
      ''- URLs (any scheme: '' @ [CHR 0x60] @ ''http://'' @ [CHR 0x60] @ '', '' @ [CHR 0x60] @
       ''https://'' @ [CHR 0x60] @ '', '' @ [CHR 0x60] @ ''ftp://'' @ [CHR 0x60] @ '', '' @ [CHR 0x60] @
       ''file://'' @ [CHR 0x60] @ '', '' @ [CHR 0x60] @ ''git@'' @
       [CHR 0xE2, CHR 0x80, CHR 0xA6, CHR 0x60] @ '', naked domains).'' @ [CHR 0x0A],
      ''- File paths, shell commands, CLI invocations.'' @ [CHR 0x0A],
      ''- JSON / structured payloads inside code blocks or tool-result bodies.'' @ [CHR 0x0A],
      ''- Verdict markers if present: '' @ [CHR 0x60] @ ''APPROVE:'' @ [CHR 0x60] @ '', '' @
       [CHR 0x60] @ ''REJECT:'' @ [CHR 0x60] @ '', '' @ [CHR 0x60] @ ''BLOCK:'' @ [CHR 0x60] @ '', '' @
       [CHR 0x60] @ ''NEEDS-CHANGES:'' @ [CHR 0x60] @ '', '' @ [CHR 0x60] @ ''NIT:'' @ [CHR 0x60] @
       '', '' @ [CHR 0x60] @ ''BLOCKING:'' @ [CHR 0x60] @ ''.'' @ [CHR 0x0A]]"

definition barok_reference :: string where
  "barok_reference = concat
     [''### IDENTIFIER-AWARE RULE'' @ [CHR 0x0A, CHR 0x0A],
      ''Tokens matching '' @ [CHR 0x60] @ ''[a-z]+_[a-z_]+'' @ [CHR 0x60] @ '' (snake_case) or '' @
       [CHR 0x60] @ ''[A-Z][a-z]+[A-Z][a-zA-Z]*'' @ [CHR 0x60] @ '' (CamelCase) '',
      ''pass through verbatim. Function names, file paths, and identifiers must not be '',
      ''decomposed under aggressive compression.'' @ [CHR 0x0A, CHR 0x0A],
      ''### QUICK REFERENCE'' @ [CHR 0x0A, CHR 0x0A],
      [CHR 0x60, CHR 0x60, CHR 0x60, CHR 0x0A],
      ''COMPRESS: prose paragraphs, bullet-body prose, list-item prose, parenthetical hedges.'' @
       [CHR 0x0A],
      ''PRESERVE: '' @ [CHR 0x60, CHR 0x60, CHR 0x60] @ '' fenced '' @ [CHR 0x60, CHR 0x60, CHR 0x60] @
       '', '' @ [CHR 0x60] @ ''inline code'' @ [CHR 0x60] @ '', 4-space indented code, # headings,'' @
       [CHR 0x0A],
      ''          | tables | (structure), YAML frontmatter, <!-- scratch --> blocks,'' @ [CHR 0x0A],
      ''          ## Context/Prior/Lessons/Identity sections,'' @ [CHR 0x0A],
      ''          LEARNING:/FINDING:/PATTERN:/GOTCHA:/DECISION: marker lines,'' @ [CHR 0x0A],
      ''          URLs, file paths, shell commands, JSON/structured payloads,'' @ [CHR 0x0A],
      ''          APPROVE:/REJECT:/BLOCK:/NEEDS-CHANGES: verdict lines,'' @ [CHR 0x0A],
      ''          snake_case + CamelCase identifiers.'' @ [CHR 0x0A],
      [CHR 0x60, CHR 0x60, CHR 0x60, CHR 0x0A, CHR 0x0A]]"

definition optional_bullet :: "string \<Rightarrow> string" where
  "optional_bullet s = (if s \<noteq> [] then ''- '' @ s @ [CHR 0x0A] else [])"

definition inject_barok_with_disabled :: "string \<Rightarrow> bool \<Rightarrow> bool \<Rightarrow> string" where
  "inject_barok_with_disabled persona is_terminal disabled =
     (if disabled then []
      else if \<not> is_terminal then []
      else case barok_rule persona of
          None \<Rightarrow> []
        | Some rule \<Rightarrow>
            barok_compress @ optional_bullet (ba_special_compress rule) @ [CHR 0x0A] @
            barok_preserve @ optional_bullet (ba_special_preserve rule) @ [CHR 0x0A] @ barok_reference)"

definition inject_barok :: "string option \<Rightarrow> string \<Rightarrow> bool \<Rightarrow> string" where
  "inject_barok env persona is_terminal = inject_barok_with_disabled persona is_terminal (barok_disabled_for env)"

definition barok_rule_card_bytes :: "string option \<Rightarrow> string \<Rightarrow> nat" where
  "barok_rule_card_bytes env persona = length (inject_barok env persona True)"

section \<open>Discipline\<close>

definition discipline_disabled_for :: "string option \<Rightarrow> bool" where
  "discipline_disabled_for v \<longleftrightarrow> v = Some ''1''"

definition discipline_card :: string where
  "discipline_card = concat
     [''## Reasoning Discipline'' @ [CHR 0x0A, CHR 0x0A],
      ''Before writing any output, run through these five gates in order. '',
      ''Each gate constrains the next '' @ [CHR 0xE2, CHR 0x80, CHR 0x94] @ '' do not skip ahead.'' @
       [CHR 0x0A, CHR 0x0A],
      ''### 1. Scope before working'' @ [CHR 0x0A, CHR 0x0A],
      ''State what the task is asking, what it is NOT asking, and what constraints '',
      ''already exist (existing patterns, prior phase output, project conventions). '',
      ''If the task is ambiguous, make the most reasonable interpretation and proceed '' @
       [CHR 0xE2, CHR 0x80, CHR 0x94] @ '' '',
      ''do not ask for clarification unless the ambiguity is truly blocking. '',
      ''One question maximum, and only after attempting an answer.'' @ [CHR 0x0A, CHR 0x0A],
      ''### 2. Evidence before reasoning'' @ [CHR 0x0A, CHR 0x0A],
      ''Read the actual files, code, or data before forming opinions. '',
      ''Check that referenced things exist (imports, functions, config keys, prior phase artifacts). '',
      ''A prompt implying a file is present does not mean one is '' @ [CHR 0xE2, CHR 0x80, CHR 0x94] @
       '' verify. '',
      ''Partial recognition from training does not mean current knowledge '' @
       [CHR 0xE2, CHR 0x80, CHR 0x94] @ '' confirm. '',
      ''Ground every claim in something you just read, not something you remember.'' @
       [CHR 0x0A, CHR 0x0A],
      ''### 3. Reason adversarially'' @ [CHR 0x0A, CHR 0x0A],
      ''Challenge your first instinct. Before committing to an approach, ask: '',
      [CHR 0x22] @ ''What'' @ [CHR 0x27] @
       ''s the simplest thing that could work? What would break if I'' @ [CHR 0x27] @ ''m wrong? '',
      ''What am I assuming that might not be true?'' @ [CHR 0x22] @ '' '',
      ''If two approaches seem equally valid, pick the one that is easier to undo. '',
      ''Prefer the boring solution that you understand over the clever one you don'' @ [CHR 0x27] @
       ''t. '',
      ''If a Prior Attempt Failures note is present, treat every approach it lists as proven dead '' @
       [CHR 0xE2, CHR 0x80, CHR 0x94] @ '' '',
      ''diagnose why it failed and take a genuinely different path, do not retry it with cosmetic changes.'' @
       [CHR 0x0A, CHR 0x0A],
      ''### 4. Verify before declaring done'' @ [CHR 0x0A, CHR 0x0A],
      ''Run the code. Execute the commands. Check the output matches your claims. '',
      ''Do not describe what should happen '' @ [CHR 0xE2, CHR 0x80, CHR 0x94] @
       '' show what did happen. '',
      ''If you wrote code, compile it. If you wrote queries, run them. '',
      ''If you made a claim about behavior, demonstrate it. '',
      ''Acknowledge what went wrong and fix it '' @ [CHR 0xE2, CHR 0x80, CHR 0x94] @
       '' stay on the problem until it actually works, '',
      ''with one exception: if the root cause lives in an earlier phase'' @ [CHR 0x27] @
       ''s decision (wrong tool, '',
      ''incompatible dependency), do not build shims around it '' @ [CHR 0xE2, CHR 0x80, CHR 0x94] @
       '' signal '' @ [CHR 0x60] @ ''blocked_by_upstream'' @ [CHR 0x60] @ '' '',
      ''with a concrete remedy instead. Persistence on your own work is a virtue; '',
      ''persistence against an upstream mistake is waste.'' @ [CHR 0x0A, CHR 0x0A],
      ''### 5. Calibrate effort to task weight'' @ [CHR 0x0A, CHR 0x0A],
      ''Match your effort to the task'' @ [CHR 0x27] @ ''s complexity and stakes. '',
      ''Signal facts need one check. Medium tasks need three to five supporting checks. '',
      ''Deep research or comparison needs five to ten sources or angles. '',
      ''Do not over-invest in trivial tasks; do not under-invest in critical ones. '',
      ''When in doubt, spend more time understanding and less time producing.'' @ [CHR 0x0A, CHR 0x0A],
      ''### Standing habits'' @ [CHR 0x0A, CHR 0x0A],
      ''- Answer first, then provide context. Lead with the finding, not the process.'' @ [CHR 0x0A],
      ''- When something breaks, acknowledge it plainly. No deflection, no blame-shifting.'' @
       [CHR 0x0A],
      ''- Maintain self-respect in corrections: fix the error, don'' @ [CHR 0x27] @
       ''t grovel about it.'' @ [CHR 0x0A],
      ''- If you don'' @ [CHR 0x27] @
       ''t know something, say so and then find out. Do not confabulate.'' @ [CHR 0x0A],
      ''- Leave a check behind for non-trivial logic '' @ [CHR 0xE2, CHR 0x80, CHR 0x94] @
       '' the smallest thing that fails if the logic breaks.'' @ [CHR 0x0A, CHR 0x0A]]"

definition inject_discipline_with_disabled :: "bool \<Rightarrow> bool \<Rightarrow> string" where
  "inject_discipline_with_disabled skip disabled = (if skip \<or> disabled then [] else discipline_card)"

definition inject_discipline :: "string option \<Rightarrow> bool \<Rightarrow> string" where
  "inject_discipline env skip = inject_discipline_with_disabled skip (discipline_disabled_for env)"

definition discipline_rule_card_bytes :: "string option \<Rightarrow> nat" where
  "discipline_rule_card_bytes env = length (inject_discipline env False)"

section \<open>Ponytail\<close>

definition ponytail_enabled :: "string option \<Rightarrow> bool" where
  "ponytail_enabled env \<longleftrightarrow> env = Some ''1''"

definition PONYTAIL_SECTION :: string where
  "PONYTAIL_SECTION = concat
     [''## Minimal Code Rules (ponytail)'' @ [CHR 0x0A],
      [CHR 0x0A],
      ''You are a lazy senior developer. Lazy means efficient, not careless. The best code is the code never written.'' @
       [CHR 0x0A],
      [CHR 0x0A],
      ''Before writing any code, stop at the first rung that holds:'' @ [CHR 0x0A],
      [CHR 0x0A],
      ''1. Does this need to be built at all? (YAGNI)'' @ [CHR 0x0A],
      ''2. Does it already exist in this codebase? Reuse the helper, util, or pattern that'' @
       [CHR 0x27] @ ''s already here.'' @ [CHR 0x0A],
      ''3. Does the standard library already do this? Use it.'' @ [CHR 0x0A],
      ''4. Does a native platform feature cover it? Use it.'' @ [CHR 0x0A],
      ''5. Does an already-installed dependency solve it? Use it.'' @ [CHR 0x0A],
      ''6. Can this be one line? Make it one line.'' @ [CHR 0x0A],
      ''7. Only then: write the minimum code that works.'' @ [CHR 0x0A],
      [CHR 0x0A],
      ''The ladder runs after you understand the problem, not instead of it: read the task and the code it touches, trace the real flow end to end, then climb.'' @
       [CHR 0x0A],
      [CHR 0x0A],
      ''Rules:'' @ [CHR 0x0A],
      [CHR 0x0A],
      ''- No abstractions that weren'' @ [CHR 0x27] @ ''t explicitly requested.'' @ [CHR 0x0A],
      ''- No new dependency if it can be avoided.'' @ [CHR 0x0A],
      ''- BUT: framework-standard tooling (e.g., jest-expo for Expo, vitest for Vite) is not a '' @
       [CHR 0x22] @ ''new dependency'' @ [CHR 0x22] @ '' '' @ [CHR 0xE2, CHR 0x80, CHR 0x94] @
       '' it is the correct tool. If the current tool cannot do the job, swap to the framework-standard one instead of writing shims to force it. Mocking out the runtime to make a wrong tool work is the anti-pattern this rule guards against.'' @
       [CHR 0x0A],
      ''- No boilerplate nobody asked for.'' @ [CHR 0x0A],
      ''- Deletion over addition. Boring over clever. Fewest files possible.'' @ [CHR 0x0A],
      ''- Shortest working diff wins, but only once you understand the problem. The smallest change in the wrong place isn'' @
       [CHR 0x27] @ ''t lazy, it'' @ [CHR 0x27] @ ''s a second bug.'' @ [CHR 0x0A],
      ''- Question complex requests: '' @ [CHR 0x22] @ ''Do you actually need X, or does Y cover it?'' @
       [CHR 0x22, CHR 0x0A],
      ''- Pick the edge-case-correct option when two stdlib approaches are the same size.'' @ [CHR 0x0A],
      ''- Mark intentional simplifications with a '' @ [CHR 0x60] @ ''ponytail:'' @ [CHR 0x60] @
       '' comment. If the shortcut has a known ceiling (global lock, O(n'' @ [CHR 0xC2, CHR 0xB2] @
       '') scan, naive heuristic), the comment names the ceiling and the upgrade path.'' @ [CHR 0x0A],
      [CHR 0x0A],
      ''Not lazy about: understanding the problem (read it fully and trace the real flow before picking a rung), input validation at trust boundaries, error handling that prevents data loss, security, accessibility, calibration real hardware needs, anything explicitly requested. Non-trivial logic leaves ONE runnable check behind '' @
       [CHR 0xE2, CHR 0x80, CHR 0x94] @
       '' the smallest thing that fails if the logic breaks (an assert-based demo/self-check or one small test file; no frameworks, no fixtures). Trivial one-liners need no test.'' @
       [CHR 0x0A],
      [CHR 0x0A]]"

definition inject_ponytail :: "string option \<Rightarrow> bool \<Rightarrow> string" where
  "inject_ponytail env skip = (if skip \<or> \<not> ponytail_enabled env then [] else PONYTAIL_SECTION)"

definition ponytail_rule_card_bytes :: "string option \<Rightarrow> nat" where
  "ponytail_rule_card_bytes env = length (inject_ponytail env False)"

section \<open>Properties\<close>

lemma barok_rule_allow_list: "barok_rule persona \<noteq> None \<longleftrightarrow> persona \<in> set BAROK_PERSONAS"
  unfolding barok_rule_def barok_rules_def BAROK_PERSONAS_def by auto

text \<open>The card is injected exactly for a terminal phase of a persona on the allow-list.\<close>

lemma barok_injected_iff:
  "inject_barok env persona is_terminal \<noteq> [] \<longleftrightarrow>
     env \<noteq> Some ''1'' \<and> is_terminal \<and> persona \<in> set BAROK_PERSONAS"
  unfolding barok_rule_allow_list [symmetric]
  by (simp add: inject_barok_def inject_barok_with_disabled_def barok_disabled_for_def split: option.split)

lemma barok_tier_iff: "barok_intensity_tier persona \<noteq> [] \<longleftrightarrow> is_barok_eligible_persona persona"
  by (simp add: barok_intensity_tier_def is_barok_eligible_persona_def split: option.split BarokIntensity.split)

text \<open>A section ends with an empty line: two line feeds, not one.\<close>

lemma barok_reference_end: "\<exists>s. barok_reference = s @ [CHR 0x0A, CHR 0x0A]"
proof -
  have "concat (xs @ [y @ [CHR 0x0A, CHR 0x0A]]) = (concat xs @ y) @ [CHR 0x0A, CHR 0x0A]" for xs y by simp
  note this [of _ "[CHR 0x60, CHR 0x60, CHR 0x60]"]
  then show ?thesis unfolding barok_reference_def by (simp only: concat.simps append_assoc) (rule exI, simp)
qed

lemma barok_card_end:
  assumes "inject_barok env persona is_terminal \<noteq> []"
  shows "\<exists>s. inject_barok env persona is_terminal = s @ [CHR 0x0A, CHR 0x0A]"
proof -
  obtain rule where rule: "barok_rule persona = Some rule"
    using assms by (auto simp: inject_barok_def inject_barok_with_disabled_def split: if_splits option.splits)
  obtain s where "barok_reference = s @ [CHR 0x0A, CHR 0x0A]" using barok_reference_end by blast
  then have "inject_barok env persona is_terminal = (barok_compress @ optional_bullet (ba_special_compress rule) @
      [CHR 0x0A] @ barok_preserve @ optional_bullet (ba_special_preserve rule) @ [CHR 0x0A] @ s) @
      [CHR 0x0A, CHR 0x0A]"
    using assms by (simp add: inject_barok_def inject_barok_with_disabled_def rule split: if_splits)
  then show ?thesis by blast
qed

lemma discipline_injected_iff:
  "inject_discipline env skip = (if skip \<or> env = Some ''1'' then [] else discipline_card)"
  by (simp add: inject_discipline_def inject_discipline_with_disabled_def discipline_disabled_for_def)

end
