(* ===== verification/Exec_Values.thy ===== *)
theory Exec_Values
  imports Rust_Text "HOL-Library.Word"
begin

text \<open>
  The values of the execution boundary (\<^verbatim>\<open>orchestrator-exec/src/contract.rs\<close>): runtime families,
  effort, sessions and the validators of its texts, and the length-framed byte strings its
  fingerprints are digests of.
\<close>

section \<open>Byte strings\<close>

text \<open>\<open>k\<close> bytes, big endian.\<close>

fun be_bytes :: "nat \<Rightarrow> nat \<Rightarrow> string" where
  "be_bytes 0 n = []"
| "be_bytes (Suc k) n = be_bytes k (n div 256) @ [char_of (n mod 256)]"

definition U64_MAX :: nat where
  "U64_MAX = 18446744073709551615"

text \<open>\<open>u64::try_from(len).unwrap_or(u64::MAX)\<close>.\<close>

definition len_u64 :: "'a list \<Rightarrow> nat" where
  "len_u64 xs = (if length xs \<le> U64_MAX then length xs else U64_MAX)"

text \<open>Control characters but line feed, carriage return and tab.\<close>

definition content_control_byte :: "char \<Rightarrow> bool" where
  "content_control_byte c \<longleftrightarrow> (byte c < 32 \<or> byte c = 127) \<and> byte c \<notin> {9, 10, 13}"

fun has_content_control :: "string \<Rightarrow> bool" where
  "has_content_control [] = False"
| "has_content_control [c] = content_control_byte c"
| "has_content_control (c # d # s) =
     (content_control_byte c \<or> (byte c = 194 \<and> 128 \<le> byte d \<and> byte d \<le> 159)
      \<or> has_content_control (d # s))"

lemma has_content_control_le: "has_content_control s \<Longrightarrow> has_control s"
  by (induction s rule: has_content_control.induct) (auto simp: content_control_byte_def)

section \<open>Errors and validators\<close>

datatype ContractError =
    ContractEmpty string
  | ContractTooLong string nat
  | ContractControlCharacter string
  | ZeroOrdinal string
  | ContractTooManyItems string nat
  | ValueTooLarge string nat
  | ContractNul string
  | InvalidRuntimeFamily
  | SessionRuntimeMismatch
  | InvalidCost
  | UnnormalizedArtifactPath

definition MAX_RUNTIME_FAMILY_BYTES :: nat where "MAX_RUNTIME_FAMILY_BYTES = 64"
definition MAX_SESSION_ID_BYTES :: nat where "MAX_SESSION_ID_BYTES = 4 * 1024"
definition MAX_LABEL_BYTES :: nat where "MAX_LABEL_BYTES = 4 * 1024"
definition MAX_REQUEST_LIST_ITEMS :: nat where "MAX_REQUEST_LIST_ITEMS = 512"
definition MAX_PATH_BYTES :: nat where "MAX_PATH_BYTES = 16 * 1024"

definition validate_length :: "string \<Rightarrow> string \<Rightarrow> nat \<Rightarrow> ContractError + unit" where
  "validate_length field v limit = (if limit < length v then Inl (ContractTooLong field limit) else Inr ())"

definition validate_content :: "string \<Rightarrow> string \<Rightarrow> nat \<Rightarrow> ContractError + unit" where
  "validate_content field v limit =
     (if has_content_control v then Inl (ContractControlCharacter field) else validate_length field v limit)"

definition validate_required_content :: "string \<Rightarrow> string \<Rightarrow> nat \<Rightarrow> ContractError + unit" where
  "validate_required_content field v limit =
     (if v = [] then Inl (ContractEmpty field) else validate_content field v limit)"

definition validate_required_label :: "string \<Rightarrow> string \<Rightarrow> nat \<Rightarrow> ContractError + unit" where
  "validate_required_label field v limit =
     (if v = [] then Inl (ContractEmpty field)
      else if has_control v then Inl (ContractControlCharacter field)
      else validate_length field v limit)"

definition validate_list :: "string \<Rightarrow> string list \<Rightarrow> ContractError + unit" where
  "validate_list field vs =
     (if MAX_REQUEST_LIST_ITEMS < length vs then Inl (ContractTooManyItems field MAX_REQUEST_LIST_ITEMS)
      else try_each (\<lambda>v. validate_required_content field v MAX_LABEL_BYTES) vs)"

text \<open>A path is its native bytes.\<close>

definition validate_path :: "string \<Rightarrow> string \<Rightarrow> ContractError + unit" where
  "validate_path field path =
     (if path = [] then Inl (ContractEmpty field)
      else if MAX_PATH_BYTES < length path then Inl (ContractTooLong field MAX_PATH_BYTES)
      else if CHR 0x00 \<in> set path then Inl (ContractNul field)
      else Inr ())"

section \<open>Runtimes and sessions\<close>

datatype Effort = Low | Medium | High | XHigh

fun effort_as_str :: "Effort \<Rightarrow> string" where
  "effort_as_str Low = ''low''"
| "effort_as_str Medium = ''medium''"
| "effort_as_str High = ''high''"
| "effort_as_str XHigh = ''xhigh''"

datatype RuntimeFamily = RuntimeFamily (runtime_as_str: string)

definition ascii_lowercase :: "char \<Rightarrow> bool" where
  "ascii_lowercase c \<longleftrightarrow> 97 \<le> byte c \<and> byte c \<le> 122"

definition RuntimeFamily_parse :: "string \<Rightarrow> ContractError + RuntimeFamily" where
  "RuntimeFamily_parse v =
     (case v of
        [] \<Rightarrow> Inl (ContractEmpty ''runtime_family'')
      | first # rest \<Rightarrow>
          if MAX_RUNTIME_FAMILY_BYTES < length v
          then Inl (ContractTooLong ''runtime_family'' MAX_RUNTIME_FAMILY_BYTES)
          else if \<not> ascii_lowercase first \<and> \<not> is_digit first then Inl InvalidRuntimeFamily
          else if list_ex (\<lambda>c. \<not> ascii_lowercase c \<and> \<not> is_digit c \<and> c \<notin> {CHR ''.'', CHR ''_'', CHR ''-''}) rest
          then Inl InvalidRuntimeFamily
          else Inr (RuntimeFamily v))"

record SessionHandle =
  sh_runtime_family :: RuntimeFamily
  sh_session_id :: string

definition SessionHandle_new :: "RuntimeFamily \<Rightarrow> string \<Rightarrow> ContractError + SessionHandle" where
  "SessionHandle_new runtime_family session_id =
     and_then (validate_required_content ''session_id'' session_id MAX_SESSION_ID_BYTES) (\<lambda>_.
       Inr \<lparr>sh_runtime_family = runtime_family, sh_session_id = session_id\<rparr>)"

definition can_resume_into :: "SessionHandle \<Rightarrow> RuntimeFamily \<Rightarrow> bool" where
  "can_resume_into session runtime \<longleftrightarrow> sh_runtime_family session = runtime"

section \<open>What the validators accept\<close>

named_theorems valid_iff \<open>when a validator accepts\<close>

lemma validate_length_iff [valid_iff]: "validate_length f v m = Inr () \<longleftrightarrow> length v \<le> m"
  by (simp add: validate_length_def)

lemma validate_content_iff [valid_iff]:
  "validate_content f v m = Inr () \<longleftrightarrow> \<not> has_content_control v \<and> length v \<le> m"
  by (simp add: validate_content_def validate_length_iff)

lemma validate_required_content_iff [valid_iff]:
  "validate_required_content f v m = Inr () \<longleftrightarrow> v \<noteq> [] \<and> \<not> has_content_control v \<and> length v \<le> m"
  by (simp add: validate_required_content_def validate_content_iff)

lemma validate_required_label_iff [valid_iff]:
  "validate_required_label f v m = Inr () \<longleftrightarrow> v \<noteq> [] \<and> \<not> has_control v \<and> length v \<le> m"
  by (simp add: validate_required_label_def validate_length_iff)

lemma validate_list_iff [valid_iff]:
  "validate_list f vs = Inr () \<longleftrightarrow>
     length vs \<le> MAX_REQUEST_LIST_ITEMS \<and>
     list_all (\<lambda>v. v \<noteq> [] \<and> \<not> has_content_control v \<and> length v \<le> MAX_LABEL_BYTES) vs"
  by (simp add: validate_list_def try_each_ok_iff validate_required_content_iff list_all_iff)

lemma validate_path_iff [valid_iff]:
  "validate_path f p = Inr () \<longleftrightarrow> p \<noteq> [] \<and> length p \<le> MAX_PATH_BYTES \<and> CHR 0x00 \<notin> set p"
  by (simp add: validate_path_def)

definition runtime_text :: "string \<Rightarrow> bool" where
  "runtime_text v \<longleftrightarrow>
     v \<noteq> [] \<and> length v \<le> MAX_RUNTIME_FAMILY_BYTES \<and> (ascii_lowercase (hd v) \<or> is_digit (hd v)) \<and>
     list_all (\<lambda>c. ascii_lowercase c \<or> is_digit c \<or> c \<in> {CHR ''.'', CHR ''_'', CHR ''-''}) v"

lemma RuntimeFamily_parse_iff: "RuntimeFamily_parse v = Inr r \<longleftrightarrow> runtime_text v \<and> r = RuntimeFamily v"
  by (cases v) (auto simp: RuntimeFamily_parse_def runtime_text_def list_ex_iff list_all_iff)

definition runtime_valid :: "RuntimeFamily \<Rightarrow> bool" where
  "runtime_valid r \<longleftrightarrow> RuntimeFamily_parse (runtime_as_str r) = Inr r"

definition session_valid :: "SessionHandle \<Rightarrow> bool" where
  "session_valid s \<longleftrightarrow>
     runtime_valid (sh_runtime_family s) \<and> SessionHandle_new (sh_runtime_family s) (sh_session_id s) = Inr s"

section \<open>Self-delimiting encodings\<close>

text \<open>An encoding whose words can be read off the front of any text.\<close>

locale prefix_code =
  fixes enc :: "'a \<Rightarrow> string" and valid :: "'a \<Rightarrow> bool"
  assumes cut: "valid a \<Longrightarrow> valid b \<Longrightarrow> enc a @ x = enc b @ y \<Longrightarrow> a = b \<and> x = y"
begin

lemma injective: "valid a \<Longrightarrow> valid b \<Longrightarrow> enc a = enc b \<Longrightarrow> a = b"
  using cut [of a b "[]" "[]"] by simp

lemma sequence:
  "list_all valid as \<Longrightarrow> list_all valid bs \<Longrightarrow> length as = length bs \<Longrightarrow>
     concat (map enc as) @ x = concat (map enc bs) @ y \<Longrightarrow> as = bs \<and> x = y"
proof (induction as arbitrary: bs)
  case (Cons a as)
  then obtain b bs' where bs: "bs = b # bs'" by (cases bs) auto
  have "a = b \<and> concat (map enc as) @ x = concat (map enc bs') @ y"
    using Cons.prems bs by (intro cut) simp_all
  then show ?case using Cons bs by simp
qed simp

end

lemma be_bytes_length [simp]: "length (be_bytes k n) = k"
  by (induction k arbitrary: n) simp_all

lemma be_bytes_inj: "m < 256 ^ k \<Longrightarrow> n < 256 ^ k \<Longrightarrow> be_bytes k m = be_bytes k n \<Longrightarrow> m = n"
proof (induction k arbitrary: m n)
  case (Suc k)
  have "m div 256 < 256 ^ k" "n div 256 < 256 ^ k" using Suc.prems by (simp_all add: less_mult_imp_div_less)
  then have "m div 256 = n div 256" using Suc by simp
  moreover have "of_char (char_of (m mod 256)) = (of_char (char_of (n mod 256)) :: nat)"
    using Suc.prems(3) by simp
  then have "m mod 256 = n mod 256" by simp
  ultimately show ?case by (metis div_mult_mod_eq)
qed simp

lemma be_bytes_cut:
  "m < 256 ^ k \<Longrightarrow> n < 256 ^ k \<Longrightarrow> be_bytes k m @ x = be_bytes k n @ y \<Longrightarrow> m = n \<and> x = y"
  using be_bytes_inj [of m k n] by (simp add: append_eq_append_conv)

interpretation count: prefix_code "\<lambda>n. be_bytes 8 n" "\<lambda>n. n \<le> U64_MAX"
  by unfold_locales (rule be_bytes_cut; simp add: U64_MAX_def)

text \<open>A byte string behind its length.\<close>

definition frame :: "string \<Rightarrow> string" where
  "frame bytes = be_bytes 8 (len_u64 bytes) @ bytes"

interpretation frame: prefix_code frame "\<lambda>b. length b \<le> U64_MAX"
proof
  fix a b x y
  assume short: "length a \<le> U64_MAX" "length b \<le> U64_MAX" and eq: "frame a @ x = frame b @ y"
  then have "length a = length b \<and> a @ x = b @ y"
    by (intro count.cut) (simp_all add: frame_def len_u64_def)
  then show "a = b \<and> x = y" by (auto simp: append_eq_append_conv)
qed

subsection \<open>Building encodings from parts\<close>

lemma prefix_code_map:
  assumes "prefix_code enc valid" "\<And>a. ok a \<Longrightarrow> valid (f a)" "\<And>a b. ok a \<Longrightarrow> ok b \<Longrightarrow> f a = f b \<Longrightarrow> a = b"
  shows "prefix_code (\<lambda>a. enc (f a)) ok"
proof
  fix a b x y
  assume "ok a" "ok b" "enc (f a) @ x = enc (f b) @ y"
  then have "f a = f b \<and> x = y" using prefix_code.cut [OF assms(1)] assms(2) by blast
  then show "a = b \<and> x = y" using assms(3) \<open>ok a\<close> \<open>ok b\<close> by blast
qed

lemma prefix_code_constant:
  assumes "prefix_code enc valid"
  shows "prefix_code (\<lambda>a. c @ enc a) valid"
proof
  fix a b x y
  assume "valid a" "valid b" "(c @ enc a) @ x = (c @ enc b) @ y"
  then show "a = b \<and> x = y" using prefix_code.cut [OF assms, of a b x y] by simp
qed

lemma prefix_code_pair:
  assumes "prefix_code e1 v1" "prefix_code e2 v2"
  shows "prefix_code (\<lambda>(a, b). e1 a @ e2 b) (\<lambda>(a, b). v1 a \<and> v2 b)"
proof
  fix p q x y
  assume valid: "case p of (a, b) \<Rightarrow> v1 a \<and> v2 b" "case q of (a, b) \<Rightarrow> v1 a \<and> v2 b"
    and eq: "(case p of (a, b) \<Rightarrow> e1 a @ e2 b) @ x = (case q of (a, b) \<Rightarrow> e1 a @ e2 b) @ y"
  obtain a b c d where pq: "p = (a, b)" "q = (c, d)" by (cases p, cases q) blast
  have "a = c \<and> e2 b @ x = e2 d @ y"
    using valid eq by (intro prefix_code.cut [OF assms(1)]) (simp_all add: pq)
  then show "p = q \<and> x = y" using prefix_code.cut [OF assms(2), of b d x y] valid by (simp add: pq)
qed

text \<open>A count of items, then the items.\<close>

lemma prefix_code_list:
  assumes "prefix_code enc valid"
  shows "prefix_code (\<lambda>xs. be_bytes 8 (length xs) @ concat (map enc xs)) (\<lambda>xs. length xs \<le> U64_MAX \<and> list_all valid xs)"
proof
  fix as bs x y
  assume valid: "length as \<le> U64_MAX \<and> list_all valid as" "length bs \<le> U64_MAX \<and> list_all valid bs"
    and "(be_bytes 8 (length as) @ concat (map enc as)) @ x = (be_bytes 8 (length bs) @ concat (map enc bs)) @ y"
  then have "length as = length bs \<and> concat (map enc as) @ x = concat (map enc bs) @ y"
    by (intro count.cut) simp_all
  then show "as = bs \<and> x = y" using prefix_code.sequence [OF assms] valid by blast
qed

text \<open>A text that tells the two cases apart, then what the present case holds.\<close>

lemma prefix_code_option:
  assumes "prefix_code enc valid" "length n = length s" "n \<noteq> s"
  shows "prefix_code (\<lambda>v. case v of None \<Rightarrow> n | Some a \<Rightarrow> s @ enc a) (pred_option valid)"
proof
  fix v w x y
  assume valid: "pred_option valid v" "pred_option valid w"
    and eq: "(case v of None \<Rightarrow> n | Some a \<Rightarrow> s @ enc a) @ x = (case w of None \<Rightarrow> n | Some a \<Rightarrow> s @ enc a) @ y"
  have differ: "n @ p \<noteq> s @ q" for p q using assms(2,3) append_eq_append_conv [of n s p q] by simp
  show "v = w \<and> x = y"
  proof (cases v)
    case None
    with eq differ [of x] show ?thesis by (cases w) simp_all
  next
    case (Some a)
    obtain b where w: "w = Some b"
    proof (cases w)
      case None
      have "s @ (enc a @ x) = n @ y" using eq by (simp add: None Some)
      then show ?thesis using differ [of y "enc a @ x"] by simp
    qed
    have "enc a @ x = enc b @ y" using eq by (simp add: Some w)
    then show ?thesis using prefix_code.cut [OF assms(1), of a b x y] valid by (simp add: Some w)
  qed
qed

lemmas frame_code = frame.prefix_code_axioms
lemmas count_code = count.prefix_code_axioms

lemma word_bytes_code:
  assumes "LENGTH('w::len) = 8 * k"
  shows "prefix_code (\<lambda>w::'w word. be_bytes k (unat w)) (\<lambda>_. True)"
proof
  fix a b :: "'w word" and x y
  assume eq: "be_bytes k (unat a) @ x = be_bytes k (unat b) @ y"
  have "(256::nat) ^ k = 2 ^ LENGTH('w)" by (simp add: assms power_mult)
  then have "unat a < 256 ^ k" "unat b < 256 ^ k" by (simp_all add: unsigned_less)
  then show "a = b \<and> x = y" using be_bytes_cut [OF _ _ eq] by (simp add: word_unat_eq_iff)
qed

end
