(* ===== verification/Worker_Events.thy ===== *)
theory Worker_Events
  imports Exec_Values Json_Parser Timestamps
begin

text \<open>
  Worker events (\<^verbatim>\<open>orchestrator-exec/src/event.rs\<close>): identities, the four payloads with their
  validated constructors, receipts, drafts and envelopes, and the conversion to and from the wire
  structures. What serde makes of the wire structures is a parameter.
\<close>

section \<open>Errors and validators\<close>

datatype WorkerEventError =
    EventEmpty string
  | EventTooLong string nat
  | EventControlCharacter string
  | EmptyPayload
  | InvalidEventId
  | InvalidTimestamp
  | InvalidSequence
  | InvalidAttempt

definition MAX_EVENT_ID_BYTES :: nat where "MAX_EVENT_ID_BYTES = 256"
definition MAX_TIMESTAMP_BYTES :: nat where "MAX_TIMESTAMP_BYTES = 64"
definition MAX_EVENT_MODEL_BYTES :: nat where "MAX_EVENT_MODEL_BYTES = 256"
definition MAX_PERSONA_BYTES :: nat where "MAX_PERSONA_BYTES = 256"
definition MAX_DIRECTORY_BYTES :: nat where "MAX_DIRECTORY_BYTES = 4 * 1024"
definition MAX_CHUNK_BYTES :: nat where "MAX_CHUNK_BYTES = 256 * 1024"
definition MAX_TOOL_NAME_BYTES :: nat where "MAX_TOOL_NAME_BYTES = 256"
definition MAX_DURATION_BYTES :: nat where "MAX_DURATION_BYTES = 64"
definition MAX_ERROR_BYTES :: nat where "MAX_ERROR_BYTES = 16 * 1024"
definition MAX_STDERR_BYTES :: nat where "MAX_STDERR_BYTES = 16 * 1024"

definition validate_bounded :: "string \<Rightarrow> string \<Rightarrow> nat \<Rightarrow> WorkerEventError + unit" where
  "validate_bounded field v limit =
     (if limit < length v then Inl (EventTooLong field limit)
      else if has_content_control v then Inl (EventControlCharacter field)
      else Inr ())"

definition validate_required :: "string \<Rightarrow> string \<Rightarrow> nat \<Rightarrow> WorkerEventError + unit" where
  "validate_required field v limit =
     (if v = [] then Inl (EventEmpty field) else validate_bounded field v limit)"

definition validate_scalar :: "string \<Rightarrow> string \<Rightarrow> nat \<Rightarrow> WorkerEventError + unit" where
  "validate_scalar field v limit =
     (if v = [] then Inl (EventEmpty field)
      else if limit < length v then Inl (EventTooLong field limit)
      else if has_control v then Inl (EventControlCharacter field)
      else Inr ())"

definition validate_event_optional :: "string \<Rightarrow> string option \<Rightarrow> nat \<Rightarrow> WorkerEventError + unit" where
  "validate_event_optional field v limit =
     (case v of Some s \<Rightarrow> validate_bounded field s limit | None \<Rightarrow> Inr ())"

definition validate_identifier :: "string \<Rightarrow> string \<Rightarrow> WorkerEventError + unit" where
  "validate_identifier field v =
     (if v = [] then Inl (EventEmpty field)
      else if MAX_EVENT_ID_BYTES < length v then Inl (EventTooLong field MAX_EVENT_ID_BYTES)
      else if has_control v then Inl (EventControlCharacter field)
      else Inr ())"

definition validate_legacy_identifier :: "string \<Rightarrow> string \<Rightarrow> WorkerEventError + unit" where
  "validate_legacy_identifier field v = (if v = [] then Inr () else validate_identifier field v)"

section \<open>Identities and payloads\<close>

record WorkerIdentity =
  wi_mission_id :: string
  wi_phase_id :: string
  wi_worker_id :: string

definition WorkerIdentity_new :: "string \<Rightarrow> string \<Rightarrow> string \<Rightarrow> WorkerEventError + WorkerIdentity" where
  "WorkerIdentity_new mission_id phase_id worker_id =
     and_then (validate_identifier ''mission_id'' mission_id) (\<lambda>_.
     and_then (validate_identifier ''phase_id'' phase_id) (\<lambda>_.
     and_then (validate_identifier ''worker_id'' worker_id) (\<lambda>_.
       Inr \<lparr>wi_mission_id = mission_id, wi_phase_id = phase_id, wi_worker_id = worker_id\<rparr>)))"

definition WorkerIdentity_from_persisted ::
    "string \<Rightarrow> string \<Rightarrow> string \<Rightarrow> WorkerEventError + WorkerIdentity" where
  "WorkerIdentity_from_persisted mission_id phase_id worker_id =
     and_then (validate_identifier ''mission_id'' mission_id) (\<lambda>_.
     and_then (validate_legacy_identifier ''phase_id'' phase_id) (\<lambda>_.
     and_then (validate_legacy_identifier ''worker_id'' worker_id) (\<lambda>_.
       Inr \<lparr>wi_mission_id = mission_id, wi_phase_id = phase_id, wi_worker_id = worker_id\<rparr>)))"

definition is_live :: "WorkerIdentity \<Rightarrow> bool" where
  "is_live w \<longleftrightarrow> wi_mission_id w \<noteq> [] \<and> wi_phase_id w \<noteq> [] \<and> wi_worker_id w \<noteq> []"

record WorkerSpawned =
  sp_model :: string
  sp_runtime :: "RuntimeFamily option"
  sp_effort_level :: "Effort option"
  sp_persona :: "string option"
  sp_directory :: string

definition WorkerSpawned_new :: "WorkerSpawned \<Rightarrow> WorkerEventError + WorkerSpawned" where
  "WorkerSpawned_new fs =
     and_then (validate_bounded ''model'' (sp_model fs) MAX_EVENT_MODEL_BYTES) (\<lambda>_.
     and_then (validate_event_optional ''persona'' (sp_persona fs) MAX_PERSONA_BYTES) (\<lambda>_.
     and_then (validate_required ''dir'' (sp_directory fs) MAX_DIRECTORY_BYTES) (\<lambda>_.
       Inr fs)))"

datatype WorkerOutputKind = OutputText | ToolUse | ToolResult

fun output_kind_as_go_str :: "WorkerOutputKind \<Rightarrow> string" where
  "output_kind_as_go_str OutputText = ''text''"
| "output_kind_as_go_str ToolUse = ''tool_use''"
| "output_kind_as_go_str ToolResult = ''tool_result''"

record WorkerOutput =
  wo_chunk :: "string option"
  wo_event_kind :: "WorkerOutputKind option"
  wo_streaming :: "bool option"
  wo_tool_name :: "string option"
  wo_is_error :: "bool option"
  wo_output_len :: "nat option"
  wo_duration :: "string option"

definition WorkerOutput_from_persisted :: "WorkerOutput \<Rightarrow> WorkerEventError + WorkerOutput" where
  "WorkerOutput_from_persisted fs =
     and_then (validate_event_optional ''chunk'' (wo_chunk fs) MAX_CHUNK_BYTES) (\<lambda>_.
     and_then (validate_event_optional ''tool_name'' (wo_tool_name fs) MAX_TOOL_NAME_BYTES) (\<lambda>_.
     and_then (validate_event_optional ''duration'' (wo_duration fs) MAX_DURATION_BYTES) (\<lambda>_.
       Inr fs)))"

definition WorkerOutput_new :: "WorkerOutput \<Rightarrow> WorkerEventError + WorkerOutput" where
  "WorkerOutput_new fs =
     (if wo_chunk fs = None \<and> wo_event_kind fs = None \<and> wo_streaming fs = None \<and> wo_tool_name fs = None \<and>
         wo_is_error fs = None \<and> wo_output_len fs = None \<and> wo_duration fs = None
      then Inl EmptyPayload
      else WorkerOutput_from_persisted fs)"

record WorkerCompleted =
  wc_output_len :: nat
  wc_duration :: string

definition WorkerCompleted_new :: "nat \<Rightarrow> string \<Rightarrow> WorkerEventError + WorkerCompleted" where
  "WorkerCompleted_new output_len duration =
     and_then (validate_required ''duration'' duration MAX_DURATION_BYTES) (\<lambda>_.
       Inr \<lparr>wc_output_len = output_len, wc_duration = duration\<rparr>)"

record WorkerFailed =
  wf_error :: string
  wf_duration :: "string option"
  wf_output_len :: "nat option"
  wf_exit_code :: "int option"
  wf_stderr_tail :: "string option"

definition WorkerFailed_new :: "WorkerFailed \<Rightarrow> WorkerEventError + WorkerFailed" where
  "WorkerFailed_new fs =
     and_then (validate_required ''error'' (wf_error fs) MAX_ERROR_BYTES) (\<lambda>_.
     and_then (validate_event_optional ''duration'' (wf_duration fs) MAX_DURATION_BYTES) (\<lambda>_.
     and_then (validate_event_optional ''stderr_tail'' (wf_stderr_tail fs) MAX_STDERR_BYTES) (\<lambda>_.
       Inr fs)))"

datatype WorkerEventKind = KindSpawned | KindOutput | KindCompleted | KindFailed

fun event_kind_as_go_str :: "WorkerEventKind \<Rightarrow> string" where
  "event_kind_as_go_str KindSpawned = ''worker.spawned''"
| "event_kind_as_go_str KindOutput = ''worker.output''"
| "event_kind_as_go_str KindCompleted = ''worker.completed''"
| "event_kind_as_go_str KindFailed = ''worker.failed''"

datatype WorkerEventPayload =
    Spawned WorkerSpawned
  | Output WorkerOutput
  | Completed WorkerCompleted
  | Failed WorkerFailed

fun payload_kind :: "WorkerEventPayload \<Rightarrow> WorkerEventKind" where
  "payload_kind (Spawned _) = KindSpawned"
| "payload_kind (Output _) = KindOutput"
| "payload_kind (Completed _) = KindCompleted"
| "payload_kind (Failed _) = KindFailed"

definition requires_streaming_capability :: "WorkerEventPayload \<Rightarrow> bool" where
  "requires_streaming_capability p =
     (case p of Output out \<Rightarrow> wo_streaming out = Some True | _ \<Rightarrow> False)"

section \<open>Receipts, drafts and envelopes\<close>

record EventReceipt =
  ev_id :: string
  ev_timestamp :: string
  ev_sequence :: int

definition EventReceipt_from_persisted :: "string \<Rightarrow> string \<Rightarrow> int \<Rightarrow> WorkerEventError + EventReceipt" where
  "EventReceipt_from_persisted eid timestamp sequence =
     and_then (validate_identifier ''id'' eid) (\<lambda>_.
     and_then (validate_scalar ''timestamp'' timestamp MAX_TIMESTAMP_BYTES) (\<lambda>_.
       if \<not> is_rfc3339 timestamp then Inl InvalidTimestamp
       else if sequence \<le> 0 then Inl InvalidSequence
       else Inr \<lparr>ev_id = eid, ev_timestamp = timestamp, ev_sequence = sequence\<rparr>))"

definition EventReceipt_new :: "string \<Rightarrow> string \<Rightarrow> int \<Rightarrow> WorkerEventError + EventReceipt" where
  "EventReceipt_new eid timestamp sequence =
     and_then (validate_identifier ''id'' eid) (\<lambda>_.
       if \<not> starts_with eid ''evt_'' then Inl InvalidEventId
       else EventReceipt_from_persisted eid timestamp sequence)"

text \<open>An attempt is a \<open>u32\<close>.\<close>

record WorkerEventDraft =
  wd_identity :: WorkerIdentity
  wd_attempt :: "32 word"
  wd_payload :: WorkerEventPayload

record WorkerEventEnvelope =
  we_receipt :: EventReceipt
  we_identity :: WorkerIdentity
  we_attempt :: "32 word option"
  we_payload :: WorkerEventPayload
  we_source_json :: "string option"

definition into_envelope ::
    "WorkerEventDraft \<Rightarrow> EventReceipt \<Rightarrow> 32 word \<Rightarrow> WorkerEventError + WorkerEventEnvelope" where
  "into_envelope draft receipt attempt =
     (if attempt = 0 \<or> attempt \<noteq> wd_attempt draft then Inl InvalidAttempt
      else Inr \<lparr>we_receipt = receipt, we_identity = wd_identity draft, we_attempt = Some attempt,
                we_payload = wd_payload draft, we_source_json = None\<rparr>)"

datatype EventSinkErrorKind = Backpressure | Persistence | Indeterminate | Rejected | SinkUnavailable

record EventSinkError =
  es_kind :: EventSinkErrorKind
  es_detail :: string

definition EventSinkError_new :: "EventSinkErrorKind \<Rightarrow> string \<Rightarrow> WorkerEventError + EventSinkError" where
  "EventSinkError_new kind detail =
     and_then (validate_required ''event_sink_detail'' detail MAX_ERROR_BYTES) (\<lambda>_.
       Inr \<lparr>es_kind = kind, es_detail = detail\<rparr>)"

section \<open>Wire structures\<close>

datatype WorkerEventCodecError =
    EventTooLarge nat
  | EventJson
  | EventContract WorkerEventError
  | EventRuntime ContractError
  | UnsupportedEventType
  | MissingData
  | InvalidWireValue string

definition parse_event_kind :: "string \<Rightarrow> WorkerEventCodecError + WorkerEventKind" where
  "parse_event_kind v =
     (if v = ''worker.spawned'' then Inr KindSpawned
      else if v = ''worker.output'' then Inr KindOutput
      else if v = ''worker.completed'' then Inr KindCompleted
      else if v = ''worker.failed'' then Inr KindFailed
      else Inl UnsupportedEventType)"

definition parse_output_kind :: "string \<Rightarrow> WorkerEventCodecError + WorkerOutputKind" where
  "parse_output_kind v =
     (if v = ''text'' then Inr OutputText
      else if v = ''tool_use'' then Inr ToolUse
      else if v = ''tool_result'' then Inr ToolResult
      else Inl (InvalidWireValue ''event_kind''))"

definition parse_effort :: "string \<Rightarrow> WorkerEventCodecError + Effort" where
  "parse_effort v =
     (if v = ''low'' then Inr Low
      else if v = ''medium'' then Inr Medium
      else if v = ''high'' then Inr High
      else if v = ''xhigh'' then Inr XHigh
      else Inl (InvalidWireValue ''effort_level''))"

record 'v WireEnvelope =
  we_id :: string
  we_event_type :: string
  we_timestamp :: string
  we_sequence :: int
  we_mission_id :: string
  we_phase_id :: string
  we_worker_id :: string
  we_data :: "'v option"

record WireSpawned =
  ws_model :: string
  ws_runtime :: "string option"
  ws_effort_level :: "string option"
  ws_persona :: "string option"
  ws_directory :: string
  ws_attempt :: "32 word option"

record WireOutput =
  wr_chunk :: "string option"
  wr_event_kind :: "string option"
  wr_streaming :: "bool option"
  wr_tool_name :: "string option"
  wr_is_error :: "bool option"
  wr_output_len :: "nat option"
  wr_duration :: "string option"
  wr_attempt :: "32 word option"

record WireCompleted =
  wm_output_len :: nat
  wm_duration :: string
  wm_attempt :: "32 word option"

record WireFailed =
  wl_error :: string
  wl_duration :: "string option"
  wl_output_len :: "nat option"
  wl_exit_code :: "int option"
  wl_stderr_tail :: "string option"
  wl_attempt :: "32 word option"

text \<open>
  What serde makes of them: \<open>to_value\<close> and \<open>from_value\<close> of the four data structures, \<open>to_string\<close> and
  \<open>from_str\<close> of the envelope, and the tree of a JSON text in which an object keeps every member it is
  written with.
\<close>

record ('v, 'n) wire_codec =
  spawned_to_value :: "WireSpawned \<Rightarrow> 'v"
  spawned_from_value :: "'v \<Rightarrow> WireSpawned option"
  output_to_value :: "WireOutput \<Rightarrow> 'v"
  output_from_value :: "'v \<Rightarrow> WireOutput option"
  completed_to_value :: "WireCompleted \<Rightarrow> 'v"
  completed_from_value :: "'v \<Rightarrow> WireCompleted option"
  failed_to_value :: "WireFailed \<Rightarrow> 'v"
  failed_from_value :: "'v \<Rightarrow> WireFailed option"
  envelope_to_string :: "'v WireEnvelope \<Rightarrow> string"
  envelope_from_str :: "string \<Rightarrow> 'v WireEnvelope option"
  json_tree :: "string \<Rightarrow> 'n Value option"

text \<open>The visitor that rejects an object with two members of the same name, at any depth.\<close>

fun unique_json :: "'n Value \<Rightarrow> bool" where
  "unique_json (Array vs) = list_all unique_json vs"
| "unique_json (Object es) \<longleftrightarrow> distinct (map fst es) \<and> list_all (\<lambda>e. unique_json (snd e)) es"
| "unique_json v = True"

definition reject_duplicate_object_keys ::
    "('v, 'n) wire_codec \<Rightarrow> string \<Rightarrow> WorkerEventCodecError + unit" where
  "reject_duplicate_object_keys c json =
     (case json_tree c json of
        Some v \<Rightarrow> if unique_json v then Inr () else Inl EventJson
      | None \<Rightarrow> Inl EventJson)"

definition wire_data :: "('v, 'n) wire_codec \<Rightarrow> WorkerEventPayload \<Rightarrow> 32 word option \<Rightarrow> 'v" where
  "wire_data c payload attempt =
     (case payload of
        Spawned p \<Rightarrow> spawned_to_value c
          \<lparr>ws_model = sp_model p, ws_runtime = map_option runtime_as_str (sp_runtime p),
           ws_effort_level = map_option effort_as_str (sp_effort_level p), ws_persona = sp_persona p,
           ws_directory = sp_directory p, ws_attempt = attempt\<rparr>
      | Output p \<Rightarrow> output_to_value c
          \<lparr>wr_chunk = wo_chunk p, wr_event_kind = map_option output_kind_as_go_str (wo_event_kind p),
           wr_streaming = wo_streaming p, wr_tool_name = wo_tool_name p, wr_is_error = wo_is_error p,
           wr_output_len = wo_output_len p, wr_duration = wo_duration p, wr_attempt = attempt\<rparr>
      | Completed p \<Rightarrow> completed_to_value c
          \<lparr>wm_output_len = wc_output_len p, wm_duration = wc_duration p, wm_attempt = attempt\<rparr>
      | Failed p \<Rightarrow> failed_to_value c
          \<lparr>wl_error = wf_error p, wl_duration = wf_duration p, wl_output_len = wf_output_len p,
           wl_exit_code = wf_exit_code p, wl_stderr_tail = wf_stderr_tail p, wl_attempt = attempt\<rparr>)"

definition envelope_to_wire :: "('v, 'n) wire_codec \<Rightarrow> WorkerEventEnvelope \<Rightarrow> 'v WireEnvelope" where
  "envelope_to_wire c event =
     \<lparr>we_id = ev_id (we_receipt event), we_event_type = event_kind_as_go_str (payload_kind (we_payload event)),
      we_timestamp = ev_timestamp (we_receipt event), we_sequence = ev_sequence (we_receipt event),
      we_mission_id = wi_mission_id (we_identity event), we_phase_id = wi_phase_id (we_identity event),
      we_worker_id = wi_worker_id (we_identity event),
      we_data = Some (wire_data c (we_payload event) (we_attempt event))\<rparr>"

definition validate_wire_attempt :: "32 word option \<Rightarrow> WorkerEventCodecError + 32 word option" where
  "validate_wire_attempt attempt =
     (if attempt = Some 0 then Inl (InvalidWireValue ''attempt'') else Inr attempt)"

definition transpose_option :: "('a \<Rightarrow> 'e + 'b) \<Rightarrow> 'a option \<Rightarrow> 'e + 'b option" where
  "transpose_option f v =
     (case v of None \<Rightarrow> Inr None | Some x \<Rightarrow> and_then (f x) (\<lambda>y. Inr (Some y)))"

definition read_data :: "'a option \<Rightarrow> WorkerEventCodecError + 'a" where
  "read_data v = ok_or v EventJson"

definition wire_payload ::
    "('v, 'n) wire_codec \<Rightarrow> WorkerEventKind \<Rightarrow> 'v \<Rightarrow>
       WorkerEventCodecError + WorkerEventPayload \<times> 32 word option" where
  "wire_payload c kind data =
     (case kind of
        KindSpawned \<Rightarrow>
          and_then (read_data (spawned_from_value c data)) (\<lambda>raw.
          and_then (transpose_option (\<lambda>r. map_err EventRuntime (RuntimeFamily_parse r)) (ws_runtime raw)) (\<lambda>runtime.
          and_then (transpose_option parse_effort (ws_effort_level raw)) (\<lambda>effort_level.
          and_then (validate_wire_attempt (ws_attempt raw)) (\<lambda>attempt.
          and_then (map_err EventContract (WorkerSpawned_new
              \<lparr>sp_model = ws_model raw, sp_runtime = runtime, sp_effort_level = effort_level,
               sp_persona = ws_persona raw, sp_directory = ws_directory raw\<rparr>)) (\<lambda>p.
            Inr (Spawned p, attempt))))))
      | KindOutput \<Rightarrow>
          and_then (read_data (output_from_value c data)) (\<lambda>raw.
          and_then (transpose_option parse_output_kind (wr_event_kind raw)) (\<lambda>event_kind.
          and_then (validate_wire_attempt (wr_attempt raw)) (\<lambda>attempt.
          and_then (map_err EventContract (WorkerOutput_from_persisted
              \<lparr>wo_chunk = wr_chunk raw, wo_event_kind = event_kind, wo_streaming = wr_streaming raw,
               wo_tool_name = wr_tool_name raw, wo_is_error = wr_is_error raw,
               wo_output_len = wr_output_len raw, wo_duration = wr_duration raw\<rparr>)) (\<lambda>p.
            Inr (Output p, attempt)))))
      | KindCompleted \<Rightarrow>
          and_then (read_data (completed_from_value c data)) (\<lambda>raw.
          and_then (validate_wire_attempt (wm_attempt raw)) (\<lambda>attempt.
          and_then (map_err EventContract (WorkerCompleted_new (wm_output_len raw) (wm_duration raw))) (\<lambda>p.
            Inr (Completed p, attempt))))
      | KindFailed \<Rightarrow>
          and_then (read_data (failed_from_value c data)) (\<lambda>raw.
          and_then (validate_wire_attempt (wl_attempt raw)) (\<lambda>attempt.
          and_then (map_err EventContract (WorkerFailed_new
              \<lparr>wf_error = wl_error raw, wf_duration = wl_duration raw, wf_output_len = wl_output_len raw,
               wf_exit_code = wl_exit_code raw, wf_stderr_tail = wl_stderr_tail raw\<rparr>)) (\<lambda>p.
            Inr (Failed p, attempt)))))"

definition envelope_from_wire ::
    "('v, 'n) wire_codec \<Rightarrow> 'v WireEnvelope \<Rightarrow> WorkerEventCodecError + WorkerEventEnvelope" where
  "envelope_from_wire c wire =
     and_then (parse_event_kind (we_event_type wire)) (\<lambda>kind.
     and_then (ok_or (we_data wire) MissingData) (\<lambda>data.
     and_then (wire_payload c kind data) (\<lambda>(payload, attempt).
     and_then (map_err EventContract
         (EventReceipt_from_persisted (we_id wire) (we_timestamp wire) (we_sequence wire))) (\<lambda>receipt.
     and_then (map_err EventContract
         (WorkerIdentity_from_persisted (we_mission_id wire) (we_phase_id wire) (we_worker_id wire))) (\<lambda>identity.
       Inr \<lparr>we_receipt = receipt, we_identity = identity, we_attempt = attempt, we_payload = payload,
            we_source_json = None\<rparr>)))))"

definition envelope_to_json :: "('v, 'n) wire_codec \<Rightarrow> WorkerEventEnvelope \<Rightarrow> string" where
  "envelope_to_json c event =
     (case we_source_json event of
        Some source_json \<Rightarrow> source_json
      | None \<Rightarrow> envelope_to_string c (envelope_to_wire c event))"

definition strip_newline :: "string \<Rightarrow> string" where
  "strip_newline json =
     (let content = (if json \<noteq> [] \<and> last json = CHR 0x0A then butlast json else json) in
      if content \<noteq> [] \<and> last content = CHR 0x0D then butlast content else content)"

definition EVENT_CONTENT_MAX_BYTES :: nat where
  "EVENT_CONTENT_MAX_BYTES = 1024 * 1024 - 1"

definition envelope_from_json ::
    "('v, 'n) wire_codec \<Rightarrow> string \<Rightarrow> WorkerEventCodecError + WorkerEventEnvelope" where
  "envelope_from_json c json =
     (if EVENT_CONTENT_MAX_BYTES < length (strip_newline json) then Inl (EventTooLarge EVENT_CONTENT_MAX_BYTES)
      else
        and_then (reject_duplicate_object_keys c json) (\<lambda>_.
        and_then (read_data (envelope_from_str c json)) (\<lambda>wire.
        and_then (envelope_from_wire c wire) (\<lambda>envelope.
          Inr (envelope\<lparr>we_source_json := Some json\<rparr>)))))"

end
