(* ===== verification/Worker_Events_Correct.thy ===== *)
theory Worker_Events_Correct
  imports Worker_Events
begin

text \<open>
  What the validated constructors of worker events guarantee, and the round trip of a live event
  through its wire form.
\<close>

section \<open>Validated values\<close>

lemma validate_bounded_iff [valid_iff]:
  "validate_bounded f v m = Inr () \<longleftrightarrow> length v \<le> m \<and> \<not> has_content_control v"
  by (simp add: validate_bounded_def)

lemma validate_required_iff [valid_iff]:
  "validate_required f v m = Inr () \<longleftrightarrow> v \<noteq> [] \<and> length v \<le> m \<and> \<not> has_content_control v"
  by (simp add: validate_required_def validate_bounded_iff)

lemma validate_scalar_iff [valid_iff]:
  "validate_scalar f v m = Inr () \<longleftrightarrow> v \<noteq> [] \<and> length v \<le> m \<and> \<not> has_control v"
  by (simp add: validate_scalar_def)

lemma validate_event_optional_iff [valid_iff]:
  "validate_event_optional f v m = Inr () \<longleftrightarrow> pred_option (\<lambda>s. length s \<le> m \<and> \<not> has_content_control s) v"
  by (cases v) (simp_all add: validate_event_optional_def validate_bounded_iff)

lemma validate_event_identifier_iff [valid_iff]:
  "validate_identifier f v = Inr () \<longleftrightarrow> v \<noteq> [] \<and> length v \<le> MAX_EVENT_ID_BYTES \<and> \<not> has_control v"
  by (simp add: validate_identifier_def)

lemma validate_legacy_identifier_iff [valid_iff]:
  "validate_legacy_identifier f v = Inr () \<longleftrightarrow> length v \<le> MAX_EVENT_ID_BYTES \<and> \<not> has_control v"
  by (simp add: validate_legacy_identifier_def validate_event_identifier_iff)

definition identity_valid :: "WorkerIdentity \<Rightarrow> bool" where
  "identity_valid w \<longleftrightarrow> WorkerIdentity_new (wi_mission_id w) (wi_phase_id w) (wi_worker_id w) = Inr w"

definition receipt_valid :: "EventReceipt \<Rightarrow> bool" where
  "receipt_valid r \<longleftrightarrow> EventReceipt_new (ev_id r) (ev_timestamp r) (ev_sequence r) = Inr r"

definition payload_valid :: "WorkerEventPayload \<Rightarrow> bool" where
  "payload_valid p =
     (case p of
        Spawned s \<Rightarrow> WorkerSpawned_new s = Inr s \<and> pred_option runtime_valid (sp_runtime s)
      | Output out \<Rightarrow> WorkerOutput_new out = Inr out
      | Completed d \<Rightarrow> WorkerCompleted_new (wc_output_len d) (wc_duration d) = Inr d
      | Failed f \<Rightarrow> WorkerFailed_new f = Inr f)"

lemma identity_new_valid: "WorkerIdentity_new m p w = Inr i \<Longrightarrow> identity_valid i \<and> is_live i"
  by (auto simp: WorkerIdentity_new_def identity_valid_def and_then_Inr_iff is_live_def valid_iff)

lemma identity_persisted: "identity_valid w \<Longrightarrow>
    WorkerIdentity_from_persisted (wi_mission_id w) (wi_phase_id w) (wi_worker_id w) = Inr w"
  by (simp add: identity_valid_def WorkerIdentity_new_def WorkerIdentity_from_persisted_def
      and_then_Inr_iff valid_iff)

lemma receipt_persisted: "receipt_valid r \<Longrightarrow>
    EventReceipt_from_persisted (ev_id r) (ev_timestamp r) (ev_sequence r) = Inr r"
  by (auto simp: receipt_valid_def EventReceipt_new_def and_then_Inr_iff split: if_splits)

lemma output_new_persisted: "WorkerOutput_new out = Inr out \<Longrightarrow> WorkerOutput_from_persisted out = Inr out"
  by (simp add: WorkerOutput_new_def split: if_splits)

lemma parse_names [simp]:
  "parse_event_kind (event_kind_as_go_str k) = Inr k"
  "parse_output_kind (output_kind_as_go_str t) = Inr t"
  "parse_effort (effort_as_str e) = Inr e"
  by (cases k; simp add: parse_event_kind_def; fail)
    (cases t; simp add: parse_output_kind_def; fail | cases e; simp add: parse_effort_def)+

lemma transpose_map [simp]:
  "(\<And>x. x \<in> set_option v \<Longrightarrow> f (g x) = Inr x) \<Longrightarrow> transpose_option f (map_option g v) = Inr v"
  by (cases v) (simp_all add: transpose_option_def)

section \<open>The round trip\<close>

definition wire_values_ok :: "('v, 'n) wire_codec \<Rightarrow> bool" where
  "wire_values_ok c \<longleftrightarrow>
     (\<forall>w. spawned_from_value c (spawned_to_value c w) = Some w) \<and>
     (\<forall>w. output_from_value c (output_to_value c w) = Some w) \<and>
     (\<forall>w. completed_from_value c (completed_to_value c w) = Some w) \<and>
     (\<forall>w. failed_from_value c (failed_to_value c w) = Some w)"

lemma payload_eta:
  "\<lparr>sp_model = sp_model s, sp_runtime = sp_runtime s, sp_effort_level = sp_effort_level s,
     sp_persona = sp_persona s, sp_directory = sp_directory s\<rparr> = s"
  "\<lparr>wo_chunk = wo_chunk out, wo_event_kind = wo_event_kind out, wo_streaming = wo_streaming out,
     wo_tool_name = wo_tool_name out, wo_is_error = wo_is_error out, wo_output_len = wo_output_len out,
     wo_duration = wo_duration out\<rparr> = out"
  "\<lparr>wf_error = wf_error f, wf_duration = wf_duration f, wf_output_len = wf_output_len f,
     wf_exit_code = wf_exit_code f, wf_stderr_tail = wf_stderr_tail f\<rparr> = f"
  by simp_all

lemma wire_payload_roundtrip:
  assumes "wire_values_ok c" "payload_valid p" "attempt \<noteq> Some 0"
  shows "wire_payload c (payload_kind p) (wire_data c p attempt) = Inr (p, attempt)"
proof (cases p)
  case (Spawned s)
  have "transpose_option (\<lambda>r. map_err EventRuntime (RuntimeFamily_parse r)) (map_option runtime_as_str (sp_runtime s))
      = Inr (sp_runtime s)"
    using assms(2) Spawned by (cases "sp_runtime s") (simp_all add: payload_valid_def runtime_valid_def transpose_option_def)
  then show ?thesis
    using assms Spawned
    by (simp add: payload_eta wire_payload_def wire_data_def wire_values_ok_def read_data_def validate_wire_attempt_def payload_valid_def)
next
  case (Output out)
  then show ?thesis
    using assms output_new_persisted [of out]
    by (simp add: payload_eta wire_payload_def wire_data_def wire_values_ok_def read_data_def validate_wire_attempt_def payload_valid_def)
qed (use assms in \<open>simp_all add: payload_eta wire_payload_def wire_data_def wire_values_ok_def read_data_def
    validate_wire_attempt_def payload_valid_def\<close>)

lemma envelope_wire_roundtrip:
  assumes "wire_values_ok c" "payload_valid (we_payload e)" "identity_valid (we_identity e)"
    and "receipt_valid (we_receipt e)" "we_attempt e \<noteq> Some 0" "we_source_json e = None"
  shows "envelope_from_wire c (envelope_to_wire c e) = Inr e"
  using assms
  by (simp add: envelope_from_wire_def envelope_to_wire_def wire_payload_roundtrip receipt_persisted identity_persisted)

text \<open>
  C29. A live event that a context hands to its sink is read back from its JSON text with the same
  identity, receipt, attempt and payload, and keeps that text as its source, so writing it again gives
  the same bytes.
\<close>

theorem live_event_roundtrip:
  assumes "into_envelope draft receipt attempt = Inr event"
    and "identity_valid (wd_identity draft)" "receipt_valid receipt" "payload_valid (wd_payload draft)"
    and "wire_values_ok c" "envelope_from_str c (envelope_to_json c event) = Some (envelope_to_wire c event)"
    and "json_tree c (envelope_to_json c event) = Some tree" "unique_json tree"
    and "length (envelope_to_json c event) \<le> EVENT_CONTENT_MAX_BYTES"
  shows "\<exists>read. envelope_from_json c (envelope_to_json c event) = Inr read \<and>
    read = event\<lparr>we_source_json := Some (envelope_to_json c event)\<rparr> \<and>
    envelope_to_json c read = envelope_to_json c event"
proof -
  have event: "we_identity event = wd_identity draft" "we_receipt event = receipt"
      "we_payload event = wd_payload draft" "we_attempt event \<noteq> Some 0" "we_source_json event = None"
    using assms(1) by (auto simp: into_envelope_def split: if_splits)
  have "length (strip_newline (envelope_to_json c event)) \<le> length (envelope_to_json c event)"
    by (simp add: strip_newline_def Let_def)
  then have "\<not> EVENT_CONTENT_MAX_BYTES < length (strip_newline (envelope_to_json c event))"
    using assms(9) by simp
  moreover have "envelope_from_wire c (envelope_to_wire c event) = Inr event"
    using assms(2-5) event by (intro envelope_wire_roundtrip) simp_all
  ultimately have "envelope_from_json c (envelope_to_json c event)
      = Inr (event\<lparr>we_source_json := Some (envelope_to_json c event)\<rparr>)"
    using assms(6-8) by (simp add: envelope_from_json_def reject_duplicate_object_keys_def read_data_def)
  then show ?thesis by (simp add: envelope_to_json_def)
qed

text \<open>A codec of four tagged values and one text.\<close>

datatype wire_value =
    VSpawned WireSpawned
  | VOutput WireOutput
  | VCompleted WireCompleted
  | VFailed WireFailed

definition demo_draft :: WorkerEventDraft where
  "demo_draft = \<lparr>wd_identity = \<lparr>wi_mission_id = ''m'', wi_phase_id = ''p'', wi_worker_id = ''w''\<rparr>, wd_attempt = 2,
     wd_payload = Failed \<lparr>wf_error = ''exit'', wf_duration = Some ''3s'', wf_output_len = None,
       wf_exit_code = Some 1, wf_stderr_tail = None\<rparr>\<rparr>"

definition demo_receipt :: EventReceipt where
  "demo_receipt = \<lparr>ev_id = ''evt_1'', ev_timestamp = ''2024-01-02T03:04:05Z'', ev_sequence = 7\<rparr>"

definition demo_event :: WorkerEventEnvelope where
  "demo_event = \<lparr>we_receipt = demo_receipt, we_identity = wd_identity demo_draft, we_attempt = Some 2,
     we_payload = wd_payload demo_draft, we_source_json = None\<rparr>"

definition demo_values :: "(wire_value, unit) wire_codec" where
  "demo_values =
     \<lparr>spawned_to_value = VSpawned, spawned_from_value = (\<lambda>v. case v of VSpawned w \<Rightarrow> Some w | _ \<Rightarrow> None),
      output_to_value = VOutput, output_from_value = (\<lambda>v. case v of VOutput w \<Rightarrow> Some w | _ \<Rightarrow> None),
      completed_to_value = VCompleted, completed_from_value = (\<lambda>v. case v of VCompleted w \<Rightarrow> Some w | _ \<Rightarrow> None),
      failed_to_value = VFailed, failed_from_value = (\<lambda>v. case v of VFailed w \<Rightarrow> Some w | _ \<Rightarrow> None),
      envelope_to_string = (\<lambda>_. ''event''), envelope_from_str = (\<lambda>_. None),
      json_tree = (\<lambda>_. Some (Object [(''a'', Null)]))\<rparr>"

definition demo_codec :: "(wire_value, unit) wire_codec" where
  "demo_codec = demo_values\<lparr>envelope_from_str := (\<lambda>_. Some (envelope_to_wire demo_values demo_event))\<rparr>"

theorem live_event_roundtrip_witness:
  "\<exists>read. envelope_from_json demo_codec (envelope_to_json demo_codec demo_event) = Inr read \<and>
    read = demo_event\<lparr>we_source_json := Some (envelope_to_json demo_codec demo_event)\<rparr> \<and>
    envelope_to_json demo_codec read = envelope_to_json demo_codec demo_event"
proof (rule live_event_roundtrip)
  have stamp: "is_rfc3339 ''2024-01-02T03:04:05Z''" by code_simp
  show "into_envelope demo_draft demo_receipt 2 = Inr demo_event"
    by (simp add: into_envelope_def demo_event_def demo_draft_def)
  show "identity_valid (wd_identity demo_draft)"
    by (simp add: demo_draft_def identity_valid_def WorkerIdentity_new_def validate_identifier_def
        MAX_EVENT_ID_BYTES_def byte_def)
  show "receipt_valid demo_receipt"
    using stamp
    by (simp add: demo_receipt_def receipt_valid_def EventReceipt_new_def EventReceipt_from_persisted_def
        validate_identifier_def validate_scalar_def MAX_EVENT_ID_BYTES_def MAX_TIMESTAMP_BYTES_def byte_def)
  show "payload_valid (wd_payload demo_draft)"
    by (simp add: demo_draft_def payload_valid_def WorkerFailed_new_def validate_required_def validate_bounded_def
        validate_event_optional_def MAX_ERROR_BYTES_def MAX_DURATION_BYTES_def content_control_byte_def byte_def)
  show "wire_values_ok demo_codec" by (simp add: wire_values_ok_def demo_codec_def demo_values_def)
  show "envelope_from_str demo_codec (envelope_to_json demo_codec demo_event)
      = Some (envelope_to_wire demo_codec demo_event)"
    by (simp add: demo_codec_def demo_values_def envelope_to_wire_def wire_data_def demo_event_def demo_draft_def)
  show "json_tree demo_codec (envelope_to_json demo_codec demo_event) = Some (Object [(''a'', Null)])"
    by (simp add: demo_codec_def demo_values_def)
  show "unique_json (Object [(''a'', Null)] :: unit Value)" by simp
  show "length (envelope_to_json demo_codec demo_event) \<le> EVENT_CONTENT_MAX_BYTES"
    by (simp add: envelope_to_json_def demo_event_def demo_codec_def demo_values_def EVENT_CONTENT_MAX_BYTES_def)
qed

end
