(* ===== verification/Exec_Authority.thy ===== *)
theory Exec_Authority
  imports Exec_Values
begin

text \<open>
  The service boundary of an attempt (\<^verbatim>\<open>orchestrator-exec/src/authority.rs\<close>): process requests with
  their bounds and fingerprint, preflight proofs, receipts, effect requests and admission, and the
  errors of the services. SHA-256 and the identity of a service object are parameters; a time is in
  nanoseconds.
\<close>

section \<open>Errors and validators\<close>

datatype ServiceContractError =
    ServiceEmpty string
  | ServiceTooLong string nat
  | ServiceTooManyItems string nat
  | ServiceNul string
  | ServiceControlCharacter string
  | InvalidEnvironmentKey
  | InvalidExitStatus

definition MAX_SERVICE_DETAIL_BYTES :: nat where "MAX_SERVICE_DETAIL_BYTES = 4 * 1024"
definition MAX_EXECUTABLE_ID_BYTES :: nat where "MAX_EXECUTABLE_ID_BYTES = 512"
definition MAX_ARGUMENTS :: nat where "MAX_ARGUMENTS = 128"
definition MAX_ARGUMENT_BYTES :: nat where "MAX_ARGUMENT_BYTES = 8 * 1024"
definition MAX_ARGUMENT_TOTAL_BYTES :: nat where "MAX_ARGUMENT_TOTAL_BYTES = 64 * 1024"
definition MAX_ENVIRONMENT_ENTRIES :: nat where "MAX_ENVIRONMENT_ENTRIES = 64"
definition MAX_ENVIRONMENT_TOTAL_BYTES :: nat where "MAX_ENVIRONMENT_TOTAL_BYTES = 64 * 1024"
definition MAX_STDIN_BYTES :: nat where "MAX_STDIN_BYTES = 16 * 1024 * 1024"
definition MAX_PROCESS_OUTPUT_BYTES :: nat where "MAX_PROCESS_OUTPUT_BYTES = 64 * 1024 * 1024"
definition DEFAULT_PROCESS_OUTPUT_BYTES :: nat where "DEFAULT_PROCESS_OUTPUT_BYTES = 256 * 1024"
definition MAX_EFFECT_RESOURCE_BYTES :: nat where "MAX_EFFECT_RESOURCE_BYTES = 4 * 1024"
definition MAX_EFFECT_ID_BYTES :: nat where "MAX_EFFECT_ID_BYTES = 256"
definition MAX_EFFECT_INPUT_BYTES :: nat where "MAX_EFFECT_INPUT_BYTES = 16 * 1024 * 1024"
definition MAX_EFFECT_OUTPUT_BYTES :: nat where "MAX_EFFECT_OUTPUT_BYTES = 16 * 1024 * 1024"
definition MAX_VERIFIED_ARTIFACTS :: nat where "MAX_VERIFIED_ARTIFACTS = 4096"

definition validate_label :: "string \<Rightarrow> string \<Rightarrow> nat \<Rightarrow> ServiceContractError + unit" where
  "validate_label field v limit =
     (if v = [] then Inl (ServiceEmpty field)
      else if limit < length v then Inl (ServiceTooLong field limit)
      else if has_control v then Inl (ServiceControlCharacter field)
      else Inr ())"

definition validate_service_path :: "string \<Rightarrow> string \<Rightarrow> ServiceContractError + unit" where
  "validate_service_path field path =
     (if path = [] then Inl (ServiceEmpty field)
      else if MAX_PATH_BYTES < length path then Inl (ServiceTooLong field MAX_PATH_BYTES)
      else if CHR 0x00 \<in> set path then Inl (ServiceNul field)
      else Inr ())"

definition validate_process_value :: "string \<Rightarrow> string \<Rightarrow> nat \<Rightarrow> ServiceContractError + unit" where
  "validate_process_value field v limit =
     (if limit < length v then Inl (ServiceTooLong field limit)
      else if CHR 0x00 \<in> set v then Inl (ServiceNul field)
      else Inr ())"

definition ascii_alphabetic :: "char \<Rightarrow> bool" where
  "ascii_alphabetic c \<longleftrightarrow> 65 \<le> byte c \<and> byte c \<le> 90 \<or> 97 \<le> byte c \<and> byte c \<le> 122"

definition validate_environment_key :: "string \<Rightarrow> ServiceContractError + unit" where
  "validate_environment_key key =
     (case key of
        [] \<Rightarrow> Inl (ServiceEmpty ''environment_key'')
      | first # rest \<Rightarrow>
          if \<not> ascii_alphabetic first \<and> first \<noteq> CHR ''_'' then Inl InvalidEnvironmentKey
          else if list_ex (\<lambda>c. \<not> ascii_alphanumeric c \<and> c \<noteq> CHR ''_'') rest then Inl InvalidEnvironmentKey
          else Inr ())"

definition validate_bytes :: "string \<Rightarrow> string \<Rightarrow> nat \<Rightarrow> ServiceContractError + unit" where
  "validate_bytes field v limit = (if limit < length v then Inl (ServiceTooLong field limit) else Inr ())"

section \<open>Process requests\<close>

datatype ProcessPurpose = ProviderWorker | Git | Tool | Plugin | Verification

record ProcessRequest =
  pr_purpose :: ProcessPurpose
  pr_executable_id :: string
  pr_working_root :: string
  pr_arguments :: "string list"
  pr_environment :: "(string \<times> string) list"
  pr_stdin :: "string option"
  pr_max_output_bytes :: nat
  pr_truncated_output_acknowledged :: bool

definition ProcessRequest_new ::
    "ProcessPurpose \<Rightarrow> string \<Rightarrow> string \<Rightarrow> ServiceContractError + ProcessRequest" where
  "ProcessRequest_new purpose executable_id working_root =
     and_then (validate_label ''executable_id'' executable_id MAX_EXECUTABLE_ID_BYTES) (\<lambda>_.
     and_then (validate_service_path ''working_root'' working_root) (\<lambda>_.
       Inr \<lparr>pr_purpose = purpose, pr_executable_id = executable_id, pr_working_root = working_root,
            pr_arguments = [], pr_environment = [], pr_stdin = None,
            pr_max_output_bytes = DEFAULT_PROCESS_OUTPUT_BYTES, pr_truncated_output_acknowledged = False\<rparr>))"

definition with_argument :: "string \<Rightarrow> ProcessRequest \<Rightarrow> ServiceContractError + ProcessRequest" where
  "with_argument argument r =
     and_then (validate_process_value ''argument'' argument MAX_ARGUMENT_BYTES) (\<lambda>_.
       if MAX_ARGUMENTS \<le> length (pr_arguments r) then Inl (ServiceTooManyItems ''arguments'' MAX_ARGUMENTS)
       else if MAX_ARGUMENT_TOTAL_BYTES < sum_list (map length (pr_arguments r)) + length argument
       then Inl (ServiceTooLong ''arguments'' MAX_ARGUMENT_TOTAL_BYTES)
       else Inr (r\<lparr>pr_arguments := pr_arguments r @ [argument]\<rparr>))"

definition environment_bytes :: "(string \<times> string) list \<Rightarrow> nat" where
  "environment_bytes env = sum_list (map (\<lambda>(key, v). length key + length v) env)"

definition with_environment :: "string \<Rightarrow> string \<Rightarrow> ProcessRequest \<Rightarrow> ServiceContractError + ProcessRequest" where
  "with_environment key v r =
     and_then (validate_environment_key key) (\<lambda>_.
     and_then (validate_process_value ''environment_value'' v MAX_ARGUMENT_TOTAL_BYTES) (\<lambda>_.
       if MAX_ENVIRONMENT_ENTRIES \<le> length (pr_environment r)
       then Inl (ServiceTooManyItems ''environment'' MAX_ENVIRONMENT_ENTRIES)
       else if MAX_ENVIRONMENT_TOTAL_BYTES < environment_bytes (pr_environment r) + length key + length v
       then Inl (ServiceTooLong ''environment'' MAX_ENVIRONMENT_TOTAL_BYTES)
       else Inr (r\<lparr>pr_environment := pr_environment r @ [(key, v)]\<rparr>)))"

definition with_stdin :: "string \<Rightarrow> ProcessRequest \<Rightarrow> ServiceContractError + ProcessRequest" where
  "with_stdin stdin r =
     (if MAX_STDIN_BYTES < length stdin then Inl (ServiceTooLong ''stdin'' MAX_STDIN_BYTES)
      else Inr (r\<lparr>pr_stdin := Some stdin\<rparr>))"

definition with_max_output_bytes :: "nat \<Rightarrow> ProcessRequest \<Rightarrow> ServiceContractError + ProcessRequest" where
  "with_max_output_bytes limit r =
     (if limit = 0 then Inl (ServiceEmpty ''max_output_bytes'')
      else if MAX_PROCESS_OUTPUT_BYTES < limit then Inl (ServiceTooLong ''max_output_bytes'' MAX_PROCESS_OUTPUT_BYTES)
      else Inr (r\<lparr>pr_max_output_bytes := limit\<rparr>))"

definition request_truncated_output_acknowledged :: "ProcessRequest \<Rightarrow> ProcessRequest" where
  "request_truncated_output_acknowledged r = r\<lparr>pr_truncated_output_acknowledged := True\<rparr>"

subsection \<open>The fingerprint\<close>

definition PROCESS_REQUEST_FINGERPRINT_DOMAIN :: string where
  "PROCESS_REQUEST_FINGERPRINT_DOMAIN =
     ''nanika.orchestrator.process-request-fingerprint.v1'' @ [CHR 0x00]"

fun process_purpose_tag :: "ProcessPurpose \<Rightarrow> nat" where
  "process_purpose_tag ProviderWorker = 1"
| "process_purpose_tag Git = 2"
| "process_purpose_tag Tool = 3"
| "process_purpose_tag Plugin = 4"
| "process_purpose_tag Verification = 5"

text \<open>\<open>as u64\<close> of a length, which is at most 64 bits wide.\<close>

definition digest_len :: "nat \<Rightarrow> string" where
  "digest_len n = be_bytes 8 n"

definition digest_field :: "string \<Rightarrow> string \<Rightarrow> string" where
  "digest_field name v = digest_len (length name) @ name @ digest_len (length v) @ v"

definition digest_sequence :: "string \<Rightarrow> string list \<Rightarrow> string" where
  "digest_sequence name vs =
     digest_len (length name) @ name @ digest_len (length vs) @ concat (map (digest_field ''item'') vs)"

definition process_request_bytes :: "ProcessRequest \<Rightarrow> string" where
  "process_request_bytes r =
     PROCESS_REQUEST_FINGERPRINT_DOMAIN @
     digest_field ''purpose'' [char_of (process_purpose_tag (pr_purpose r))] @
     digest_field ''executable_id'' (pr_executable_id r) @
     digest_field ''working_root'' (pr_working_root r) @
     digest_sequence ''arguments'' (pr_arguments r) @
     digest_len (length ''environment'') @ ''environment'' @ digest_len (length (pr_environment r)) @
     concat (map (\<lambda>(key, v). digest_field ''key'' key @ digest_field ''value'' v) (pr_environment r)) @
     (case pr_stdin r of
        None \<Rightarrow> digest_field ''stdin_presence'' [CHR 0x00]
      | Some stdin \<Rightarrow> digest_field ''stdin_presence'' [CHR 0x01] @ digest_field ''stdin'' stdin) @
     digest_field ''max_output_bytes'' (be_bytes 8 (pr_max_output_bytes r)) @
     digest_field ''truncated_output_acknowledged''
       [char_of (if pr_truncated_output_acknowledged r then 1 else 0 :: nat)]"

definition process_request_fingerprint :: "(string \<Rightarrow> 'd) \<Rightarrow> ProcessRequest \<Rightarrow> 'd" where
  "process_request_fingerprint sha256 r = sha256 (process_request_bytes r)"

section \<open>Preflight proofs\<close>

datatype ProcessPreflightReason = PreflightCancelled | PreflightDeadlineExceeded

record ('d, 'i) ProcessPreflight =
  pp_reason :: ProcessPreflightReason
  pp_request_fingerprint :: 'd
  pp_service_identity :: 'i

record 'd BoundProcessPreflight =
  bp_reason :: ProcessPreflightReason
  bp_request_fingerprint :: 'd

datatype ProcessServiceErrorKind =
    ProcessDenied | ProcessUnavailable | ProcessOutsideRoot | NotEnrolled | ProcessInvalidRequest | Spawn
  | OutcomeIndeterminate

record ProcessServiceError =
  pe_kind :: ProcessServiceErrorKind
  pe_detail :: string

definition zero_sized_capability :: ProcessServiceError where
  "zero_sized_capability =
     \<lparr>pe_kind = ProcessInvalidRequest,
      pe_detail = ''zero-sized process service capabilities are unsupported''\<rparr>"

definition ProcessServiceError_new ::
    "ProcessServiceErrorKind \<Rightarrow> string \<Rightarrow> ServiceContractError + ProcessServiceError" where
  "ProcessServiceError_new kind detail =
     and_then (validate_label ''process_service_detail'' detail MAX_SERVICE_DETAIL_BYTES) (\<lambda>_.
       Inr \<lparr>pe_kind = kind, pe_detail = detail\<rparr>)"

text \<open>A service has no identity when its type has no size.\<close>

definition ProcessPreflight_new ::
    "(string \<Rightarrow> 'd) \<Rightarrow> 'i option \<Rightarrow> ProcessRequest \<Rightarrow> ProcessPreflightReason \<Rightarrow>
       ProcessServiceError + ('d, 'i) ProcessPreflight" where
  "ProcessPreflight_new sha256 service_identity r reason =
     (case service_identity of
        None \<Rightarrow> Inl zero_sized_capability
      | Some i \<Rightarrow> Inr \<lparr>pp_reason = reason, pp_request_fingerprint = process_request_fingerprint sha256 r,
                      pp_service_identity = i\<rparr>)"

definition preflight_bind ::
    "(string \<Rightarrow> 'd) \<Rightarrow> ('d, 'i) ProcessPreflight \<Rightarrow> 'i option \<Rightarrow> ProcessRequest \<Rightarrow>
       'd BoundProcessPreflight option" where
  "preflight_bind sha256 p service_identity r =
     (case service_identity of
        None \<Rightarrow> None
      | Some i \<Rightarrow>
          if pp_service_identity p = i \<and> pp_request_fingerprint p = process_request_fingerprint sha256 r
          then Some \<lparr>bp_reason = pp_reason p, bp_request_fingerprint = pp_request_fingerprint p\<rparr>
          else None)"

definition matches_request :: "(string \<Rightarrow> 'd) \<Rightarrow> 'd BoundProcessPreflight \<Rightarrow> ProcessRequest \<Rightarrow> bool" where
  "matches_request sha256 b r \<longleftrightarrow> bp_request_fingerprint b = process_request_fingerprint sha256 r"

section \<open>Receipts\<close>

datatype ProcessExitStatus = ExitCode int | ExitSignal int

definition exit_code :: "int \<Rightarrow> ServiceContractError + ProcessExitStatus" where
  "exit_code code = (if code < 0 then Inl InvalidExitStatus else Inr (ExitCode code))"

definition exit_signal :: "int \<Rightarrow> ServiceContractError + ProcessExitStatus" where
  "exit_signal signal = (if signal \<le> 0 then Inl InvalidExitStatus else Inr (ExitSignal signal))"

fun as_code :: "ProcessExitStatus \<Rightarrow> int option" where
  "as_code (ExitCode code) = Some code"
| "as_code (ExitSignal _) = None"

fun as_signal :: "ProcessExitStatus \<Rightarrow> int option" where
  "as_signal (ExitCode _) = None"
| "as_signal (ExitSignal signal) = Some signal"

datatype ProcessTerminationReceipt =
    Exited ProcessExitStatus
  | ReceiptCancelled
  | ReceiptDeadlineExceeded
  | Stalled
  | OutputLimit
  | ReceiptSupervisorFailure
  | UnresolvedOwnership

record ProcessReceipt =
  rc_termination :: ProcessTerminationReceipt
  rc_stdout :: string
  rc_stderr :: string
  rc_stdout_discarded :: nat
  rc_stderr_discarded :: nat
  rc_truncated_output_acknowledged :: bool
  rc_ownership_released :: bool
  rc_elapsed :: nat

definition ProcessReceipt_new ::
    "ProcessTerminationReceipt \<Rightarrow> string \<Rightarrow> string \<Rightarrow> nat \<Rightarrow> nat \<Rightarrow> bool \<Rightarrow> nat \<Rightarrow>
       ServiceContractError + ProcessReceipt" where
  "ProcessReceipt_new termination_receipt stdout stderr stdout_discarded stderr_discarded ownership_released elapsed =
     and_then (validate_bytes ''stdout'' stdout MAX_PROCESS_OUTPUT_BYTES) (\<lambda>_.
     and_then (validate_bytes ''stderr'' stderr MAX_PROCESS_OUTPUT_BYTES) (\<lambda>_.
       Inr \<lparr>rc_termination = termination_receipt, rc_stdout = stdout, rc_stderr = stderr,
            rc_stdout_discarded = stdout_discarded, rc_stderr_discarded = stderr_discarded,
            rc_truncated_output_acknowledged = False, rc_ownership_released = ownership_released,
            rc_elapsed = elapsed\<rparr>))"

definition preflight_receipt :: "ProcessTerminationReceipt \<Rightarrow> ProcessReceipt" where
  "preflight_receipt termination_receipt =
     \<lparr>rc_termination = termination_receipt, rc_stdout = [], rc_stderr = [], rc_stdout_discarded = 0,
      rc_stderr_discarded = 0, rc_truncated_output_acknowledged = False, rc_ownership_released = True,
      rc_elapsed = 0\<rparr>"

definition receipt_truncated_output_acknowledged :: "ProcessReceipt \<Rightarrow> ProcessReceipt" where
  "receipt_truncated_output_acknowledged r = r\<lparr>rc_truncated_output_acknowledged := True\<rparr>"

definition receipt_is_success :: "ProcessReceipt \<Rightarrow> bool" where
  "receipt_is_success r \<longleftrightarrow>
     (case rc_termination r of Exited status \<Rightarrow> as_code status = Some 0 | _ \<Rightarrow> False) \<and> rc_ownership_released r \<and>
     (rc_stdout_discarded r = 0 \<and> rc_stderr_discarded r = 0 \<or> rc_truncated_output_acknowledged r)"

section \<open>Effects\<close>

datatype EffectKind = FileRead | FileWrite | ArtifactWrite | NetworkRequest | GitMutation | PluginAction

record EffectRequest =
  ef_kind :: EffectKind
  ef_resource :: string
  ef_idempotency_key :: string
  ef_input :: "string option"

definition EffectRequest_new :: "EffectKind \<Rightarrow> string \<Rightarrow> string \<Rightarrow> ServiceContractError + EffectRequest" where
  "EffectRequest_new kind resource idempotency_key =
     and_then (validate_label ''resource'' resource MAX_EFFECT_RESOURCE_BYTES) (\<lambda>_.
     and_then (validate_label ''idempotency_key'' idempotency_key MAX_EFFECT_ID_BYTES) (\<lambda>_.
       Inr \<lparr>ef_kind = kind, ef_resource = resource, ef_idempotency_key = idempotency_key, ef_input = None\<rparr>))"

definition with_input :: "string \<Rightarrow> EffectRequest \<Rightarrow> ServiceContractError + EffectRequest" where
  "with_input input r =
     and_then (validate_bytes ''effect_input'' input MAX_EFFECT_INPUT_BYTES) (\<lambda>_.
       Inr (r\<lparr>ef_input := Some input\<rparr>))"

datatype EffectStatus = Applied | AlreadyApplied | ReadOnly

record EffectReceipt =
  er_operation_id :: string
  er_idempotency_key :: string
  er_status :: EffectStatus
  er_output :: "string option"

definition EffectReceipt_new ::
    "string \<Rightarrow> string \<Rightarrow> EffectStatus \<Rightarrow> string option \<Rightarrow> ServiceContractError + EffectReceipt" where
  "EffectReceipt_new operation_id idempotency_key status output =
     and_then (validate_label ''operation_id'' operation_id MAX_EFFECT_ID_BYTES) (\<lambda>_.
     and_then (validate_label ''idempotency_key'' idempotency_key MAX_EFFECT_ID_BYTES) (\<lambda>_.
     and_then (case output of
         Some v \<Rightarrow> validate_bytes ''effect_output'' v MAX_EFFECT_OUTPUT_BYTES
       | None \<Rightarrow> Inr ()) (\<lambda>_.
       Inr \<lparr>er_operation_id = operation_id, er_idempotency_key = idempotency_key, er_status = status,
            er_output = output\<rparr>)))"

datatype EffectServiceErrorKind =
    EffectDenied | EffectUnavailable | EffectOutsideRoot | ApprovalRequired | EffectInvalidRequest | Execution
  | EffectCancelled | EffectDeadlineExceeded

record EffectServiceError =
  ee_kind :: EffectServiceErrorKind
  ee_detail :: string

definition EffectServiceError_new ::
    "EffectServiceErrorKind \<Rightarrow> string \<Rightarrow> ServiceContractError + EffectServiceError" where
  "EffectServiceError_new kind detail =
     and_then (validate_label ''effect_service_detail'' detail MAX_SERVICE_DETAIL_BYTES) (\<lambda>_.
       Inr \<lparr>ee_kind = kind, ee_detail = detail\<rparr>)"

definition effect_cancelled :: EffectServiceError where
  "effect_cancelled =
     \<lparr>ee_kind = EffectCancelled, ee_detail = ''attempt was cancelled before effect execution''\<rparr>"

definition effect_deadline_exceeded :: EffectServiceError where
  "effect_deadline_exceeded =
     \<lparr>ee_kind = EffectDeadlineExceeded, ee_detail = ''attempt deadline elapsed before effect execution''\<rparr>"

text \<open>The admission of an effect, on what the cancellation source and the clock show.\<close>

record EffectAdmission =
  ea_admitted_at :: nat
  ea_hard_deadline :: nat

definition effect_admit :: "bool \<Rightarrow> nat \<Rightarrow> nat \<Rightarrow> EffectServiceError + EffectAdmission" where
  "effect_admit cancelled now hard_deadline =
     (if cancelled then Inl effect_cancelled
      else if hard_deadline \<le> now then Inl effect_deadline_exceeded
      else Inr \<lparr>ea_admitted_at = now, ea_hard_deadline = hard_deadline\<rparr>)"

section \<open>Evidence verification\<close>

datatype EvidenceVerifierErrorKind =
    EvidenceMissing | Mismatch | EvidenceDenied | EvidenceUnavailable | InvalidExpectation

record EvidenceVerifierError =
  ve_kind :: EvidenceVerifierErrorKind
  ve_detail :: string

definition EvidenceVerifierError_new ::
    "EvidenceVerifierErrorKind \<Rightarrow> string \<Rightarrow> ServiceContractError + EvidenceVerifierError" where
  "EvidenceVerifierError_new kind detail =
     and_then (validate_label ''evidence_verifier_detail'' detail MAX_SERVICE_DETAIL_BYTES) (\<lambda>_.
       Inr \<lparr>ve_kind = kind, ve_detail = detail\<rparr>)"

definition EvidenceVerification_new :: "'a list \<Rightarrow> ServiceContractError + 'a list" where
  "EvidenceVerification_new artifacts =
     (if MAX_VERIFIED_ARTIFACTS < length artifacts
      then Inl (ServiceTooManyItems ''verified_artifacts'' MAX_VERIFIED_ARTIFACTS)
      else Inr artifacts)"

end
