(* ===== verification/Exec_Authority_Correct.thy ===== *)
theory Exec_Authority_Correct
  imports Exec_Authority
begin

text \<open>
  The bounds every process request keeps, and its fingerprint: the digested bytes determine the
  request, so a preflight proof binds to one service and one request only.
\<close>

section \<open>Requests that the builders make\<close>

inductive built :: "ProcessRequest \<Rightarrow> bool" where
  built_new: "ProcessRequest_new purpose executable_id working_root = Inr r \<Longrightarrow> built r"
| built_argument: "built r \<Longrightarrow> with_argument argument r = Inr r' \<Longrightarrow> built r'"
| built_environment: "built r \<Longrightarrow> with_environment key v r = Inr r' \<Longrightarrow> built r'"
| built_stdin: "built r \<Longrightarrow> with_stdin stdin r = Inr r' \<Longrightarrow> built r'"
| built_max_output: "built r \<Longrightarrow> with_max_output_bytes limit r = Inr r' \<Longrightarrow> built r'"
| built_acknowledged: "built r \<Longrightarrow> built (request_truncated_output_acknowledged r)"

definition request_bounds :: "ProcessRequest \<Rightarrow> bool" where
  "request_bounds r \<longleftrightarrow>
     length (pr_executable_id r) \<le> MAX_EXECUTABLE_ID_BYTES \<and>
     pr_working_root r \<noteq> [] \<and> length (pr_working_root r) \<le> MAX_PATH_BYTES \<and>
     length (pr_arguments r) \<le> MAX_ARGUMENTS \<and>
     sum_list (map length (pr_arguments r)) \<le> MAX_ARGUMENT_TOTAL_BYTES \<and>
     length (pr_environment r) \<le> MAX_ENVIRONMENT_ENTRIES \<and>
     environment_bytes (pr_environment r) \<le> MAX_ENVIRONMENT_TOTAL_BYTES \<and>
     pred_option (\<lambda>s. length s \<le> MAX_STDIN_BYTES) (pr_stdin r) \<and>
     0 < pr_max_output_bytes r \<and> pr_max_output_bytes r \<le> MAX_PROCESS_OUTPUT_BYTES"

lemma validate_label_iff [valid_iff]:
  "validate_label f v m = Inr () \<longleftrightarrow> v \<noteq> [] \<and> length v \<le> m \<and> \<not> has_control v"
  by (simp add: validate_label_def)

lemma validate_service_path_iff [valid_iff]:
  "validate_service_path f p = Inr () \<longleftrightarrow> p \<noteq> [] \<and> length p \<le> MAX_PATH_BYTES \<and> CHR 0x00 \<notin> set p"
  by (simp add: validate_service_path_def)

lemma environment_bytes_append [simp]:
  "environment_bytes (env @ [(key, v)]) = environment_bytes env + length key + length v"
  by (simp add: environment_bytes_def)

lemma built_bounds: "built r \<Longrightarrow> request_bounds r"
proof (induction rule: built.induct)
  case (built_new purpose executable_id working_root r)
  then show ?case
    by (auto simp: ProcessRequest_new_def and_then_Inr_iff valid_iff request_bounds_def environment_bytes_def
        DEFAULT_PROCESS_OUTPUT_BYTES_def MAX_PROCESS_OUTPUT_BYTES_def)
next
  case (built_argument r argument r')
  then show ?case
    by (auto simp: with_argument_def and_then_Inr_iff request_bounds_def split: if_splits)
next
  case (built_environment r key v r')
  then show ?case
    by (auto simp: with_environment_def and_then_Inr_iff request_bounds_def split: if_splits)
next
  case (built_stdin r stdin r')
  then show ?case by (auto simp: with_stdin_def request_bounds_def split: if_splits)
next
  case (built_max_output r limit r')
  then show ?case by (auto simp: with_max_output_bytes_def request_bounds_def split: if_splits)
qed (simp add: request_truncated_output_acknowledged_def request_bounds_def)

section \<open>The digested bytes\<close>

lemma field_code: "prefix_code (digest_field name) (\<lambda>v. length v \<le> U64_MAX)"
proof
  fix a b x y
  assume short: "length a \<le> U64_MAX" "length b \<le> U64_MAX" and "digest_field name a @ x = digest_field name b @ y"
  then have "frame a @ x = frame b @ y" by (simp add: digest_field_def frame_def digest_len_def len_u64_def)
  then show "a = b \<and> x = y" by (rule prefix_code.cut [OF frame_code short])
qed

lemma sequence_code: "prefix_code (digest_sequence name) (\<lambda>vs. length vs \<le> U64_MAX \<and> list_all (\<lambda>v. length v \<le> U64_MAX) vs)"
  using prefix_code_constant [OF prefix_code_list [OF field_code [of "''item''"]], of "digest_len (length name) @ name"]
  by (simp add: digest_sequence_def [abs_def] digest_len_def)

definition environment_code :: "(string \<times> string) list \<Rightarrow> string" where
  "environment_code env =
     be_bytes 8 (length env) @ concat (map (\<lambda>(key, v). digest_field ''key'' key @ digest_field ''value'' v) env)"

definition stdin_code :: "string option \<Rightarrow> string" where
  "stdin_code v =
     (case v of
        None \<Rightarrow> digest_field ''stdin_presence'' [CHR 0x00]
      | Some stdin \<Rightarrow> digest_field ''stdin_presence'' [CHR 0x01] @ digest_field ''stdin'' stdin)"

lemma stdin_code: "prefix_code stdin_code (pred_option (\<lambda>v. length v \<le> U64_MAX))"
  unfolding stdin_code_def [abs_def]
  by (rule prefix_code_option [OF field_code]) (simp_all add: digest_field_def)

lemma environment_code: "prefix_code environment_code
    (\<lambda>env. length env \<le> U64_MAX \<and> list_all (\<lambda>(key, v). length key \<le> U64_MAX \<and> length v \<le> U64_MAX) env)"
  unfolding environment_code_def [abs_def]
  using prefix_code_list [OF prefix_code_pair [OF field_code field_code]] by simp

definition purpose_code :: "ProcessPurpose \<Rightarrow> string" where
  "purpose_code p = digest_field ''purpose'' [char_of (process_purpose_tag p)]"

lemma purpose_code: "prefix_code purpose_code (\<lambda>_. True)"
  unfolding purpose_code_def [abs_def]
proof (rule prefix_code_map [OF field_code])
  fix a b :: ProcessPurpose
  assume "[char_of (process_purpose_tag a)] = ([char_of (process_purpose_tag b)] :: string)"
  then have "of_char (char_of (process_purpose_tag a)) = (of_char (char_of (process_purpose_tag b)) :: nat)" by simp
  then show "a = b" by (cases a; cases b) simp_all
qed (simp add: U64_MAX_def)

definition flag_code :: "bool \<Rightarrow> string" where
  "flag_code b = digest_field ''truncated_output_acknowledged'' [char_of (if b then 1 else 0 :: nat)]"

lemma flag_code: "prefix_code flag_code (\<lambda>_. True)"
  unfolding flag_code_def [abs_def]
proof (rule prefix_code_map [OF field_code])
  fix a b :: bool
  assume "[char_of (if a then 1 else 0 :: nat)] = ([char_of (if b then 1 else 0 :: nat)] :: string)"
  then have "of_char (char_of (if a then 1 else 0 :: nat)) = (of_char (char_of (if b then 1 else 0 :: nat)) :: nat)" by simp
  then show "a = b" by (cases a; cases b) simp_all
qed (simp add: U64_MAX_def)

definition limit_code :: "nat \<Rightarrow> string" where
  "limit_code n = digest_field ''max_output_bytes'' (be_bytes 8 n)"

lemma limit_code: "prefix_code limit_code (\<lambda>n. n \<le> U64_MAX)"
  unfolding limit_code_def [abs_def]
  by (rule prefix_code_map [OF field_code]) (simp_all add: U64_MAX_def be_bytes_inj [where k = 8])

lemmas request_code =
  prefix_code_pair [OF purpose_code prefix_code_pair [OF field_code [of "''executable_id''"]
    prefix_code_pair [OF field_code [of "''working_root''"]
    prefix_code_pair [OF sequence_code [of "''arguments''"]
    prefix_code_pair [OF prefix_code_constant [OF environment_code, of "digest_len (length ''environment'') @ ''environment''"]
    prefix_code_pair [OF stdin_code prefix_code_pair [OF limit_code flag_code]]]]]]]

definition request_parts ::
    "ProcessRequest \<Rightarrow> ProcessPurpose \<times> string \<times> string \<times> string list \<times> (string \<times> string) list \<times>
       string option \<times> nat \<times> bool" where
  "request_parts r =
     (pr_purpose r, pr_executable_id r, pr_working_root r, pr_arguments r, pr_environment r, pr_stdin r,
      pr_max_output_bytes r, pr_truncated_output_acknowledged r)"

lemma sum_list_bound: "x \<in> set xs \<Longrightarrow> f x \<le> (sum_list (map f xs) :: nat)"
  by (induction xs) auto

lemma process_request_bytes_inj:
  assumes "request_bounds r" "request_bounds s" "process_request_bytes r = process_request_bytes s"
  shows "r = s"
proof -
  have small: "MAX_EXECUTABLE_ID_BYTES \<le> U64_MAX" "MAX_PATH_BYTES \<le> U64_MAX" "MAX_ARGUMENTS \<le> U64_MAX"
      "MAX_ARGUMENT_TOTAL_BYTES \<le> U64_MAX" "MAX_ENVIRONMENT_ENTRIES \<le> U64_MAX"
      "MAX_ENVIRONMENT_TOTAL_BYTES \<le> U64_MAX" "MAX_STDIN_BYTES \<le> U64_MAX" "MAX_PROCESS_OUTPUT_BYTES \<le> U64_MAX"
    by (simp_all add: MAX_EXECUTABLE_ID_BYTES_def MAX_PATH_BYTES_def MAX_ARGUMENTS_def MAX_ARGUMENT_TOTAL_BYTES_def
        MAX_ENVIRONMENT_ENTRIES_def MAX_ENVIRONMENT_TOTAL_BYTES_def MAX_STDIN_BYTES_def MAX_PROCESS_OUTPUT_BYTES_def
        U64_MAX_def)
  have arguments: "list_all (\<lambda>v. length v \<le> U64_MAX) (pr_arguments q)" if "request_bounds q" for q
    using that small(4) sum_list_bound [of _ "pr_arguments q" length]
    by (fastforce simp: request_bounds_def list_all_iff)
  have environment: "list_all (\<lambda>(key, v). length key \<le> U64_MAX \<and> length v \<le> U64_MAX) (pr_environment q)"
    if "request_bounds q" for q
    using that small(6) sum_list_bound [of _ "pr_environment q" "\<lambda>(key, v). length key + length v"]
    by (fastforce simp: request_bounds_def environment_bytes_def list_all_iff)
  have bytes: "process_request_bytes q = PROCESS_REQUEST_FINGERPRINT_DOMAIN @
      (case request_parts q of (p, e, w, as, env, i, m, t) \<Rightarrow>
         purpose_code p @ digest_field ''executable_id'' e @ digest_field ''working_root'' w @
         digest_sequence ''arguments'' as @
         ((digest_len (length ''environment'') @ ''environment'') @ environment_code env) @ stdin_code i @
         limit_code m @ flag_code t)" for q
    by (simp add: process_request_bytes_def request_parts_def purpose_code_def environment_code_def stdin_code_def
        limit_code_def flag_code_def digest_len_def split: option.split)
  have valid: "case request_parts q of (p, e, w, as, env, i, m, t) \<Rightarrow>
      True \<and> length e \<le> U64_MAX \<and> length w \<le> U64_MAX \<and>
      (length as \<le> U64_MAX \<and> list_all (\<lambda>v. length v \<le> U64_MAX) as) \<and>
      (length env \<le> U64_MAX \<and> list_all (\<lambda>(key, v). length key \<le> U64_MAX \<and> length v \<le> U64_MAX) env) \<and>
      pred_option (\<lambda>v. length v \<le> U64_MAX) i \<and> m \<le> U64_MAX \<and> True" if "request_bounds q" for q
    using that arguments [OF that] environment [OF that] small
    by (auto simp: request_bounds_def request_parts_def option.pred_set intro: order_trans)
  have "request_parts r = request_parts s"
    by (rule prefix_code.injective [OF request_code])
      (use valid [OF assms(1)] valid [OF assms(2)] assms(3) in \<open>simp_all add: bytes case_prod_beta\<close>)
  then show ?thesis by (simp add: request_parts_def)
qed

text \<open>
  A preflight proof made for one process request binds to exactly that service and a request equal
  in every field: the digested bytes of two requests that the builders can make are the same only for
  the same request, so only a collision of the digest itself could confuse them.
\<close>

theorem preflight_binds_exactly:
  assumes "built r" "built s"
    and "sha256 (process_request_bytes r) = sha256 (process_request_bytes s) \<Longrightarrow>
      process_request_bytes r = process_request_bytes s"
    and "ProcessPreflight_new sha256 (Some i) r reason = Inr proof_token"
  shows "preflight_bind sha256 proof_token j s =
    (if j = Some i \<and> s = r
     then Some \<lparr>bp_reason = reason, bp_request_fingerprint = process_request_fingerprint sha256 r\<rparr> else None)"
proof -
  have "process_request_fingerprint sha256 r = process_request_fingerprint sha256 s \<longleftrightarrow> r = s"
    using assms(3) process_request_bytes_inj [OF built_bounds [OF assms(1)] built_bounds [OF assms(2)]]
    by (auto simp: process_request_fingerprint_def)
  then show ?thesis
    using assms(4) by (auto simp: ProcessPreflight_new_def preflight_bind_def split: option.split)
qed

definition demo_process :: ProcessRequest where
  "demo_process = \<lparr>pr_purpose = Git, pr_executable_id = ''git'', pr_working_root = ''/w'', pr_arguments = [],
     pr_environment = [], pr_stdin = None, pr_max_output_bytes = DEFAULT_PROCESS_OUTPUT_BYTES,
     pr_truncated_output_acknowledged = False\<rparr>"

lemma demo_process_built: "built demo_process" "built (demo_process\<lparr>pr_arguments := [''status'']\<rparr>)"
proof -
  have new: "ProcessRequest_new Git ''git'' ''/w'' = Inr demo_process"
    by (simp add: ProcessRequest_new_def demo_process_def validate_label_def validate_service_path_def byte_def
        MAX_EXECUTABLE_ID_BYTES_def MAX_PATH_BYTES_def)
  then show git: "built demo_process" by (rule built_new)
  have "with_argument ''status'' demo_process = Inr (demo_process\<lparr>pr_arguments := [''status'']\<rparr>)"
    by (simp add: with_argument_def demo_process_def validate_process_value_def MAX_ARGUMENT_BYTES_def
        MAX_ARGUMENTS_def MAX_ARGUMENT_TOTAL_BYTES_def)
  then show "built (demo_process\<lparr>pr_arguments := [''status'']\<rparr>)" by (rule built_argument [OF git])
qed

theorem preflight_binds_exactly_witness:
  "preflight_bind id \<lparr>pp_reason = PreflightCancelled, pp_request_fingerprint = process_request_bytes demo_process,
     pp_service_identity = (1 :: nat)\<rparr> (Some 1) (demo_process\<lparr>pr_arguments := [''status'']\<rparr>) = None"
proof -
  have "ProcessPreflight_new id (Some (1 :: nat)) demo_process PreflightCancelled
      = Inr \<lparr>pp_reason = PreflightCancelled, pp_request_fingerprint = process_request_bytes demo_process,
        pp_service_identity = 1\<rparr>"
    by (simp add: ProcessPreflight_new_def process_request_fingerprint_def)
  from preflight_binds_exactly [OF demo_process_built(1,2) _ this, of "Some 1"]
  show ?thesis by (simp add: demo_process_def)
qed

lemma effect_admit_iff:
  "effect_admit cancelled now deadline = Inr a \<longleftrightarrow>
     \<not> cancelled \<and> now < deadline \<and> a = \<lparr>ea_admitted_at = now, ea_hard_deadline = deadline\<rparr>"
  by (auto simp: effect_admit_def)

lemma preflight_receipt_fails: "t \<noteq> Exited (ExitCode 0) \<Longrightarrow> \<not> receipt_is_success (preflight_receipt t)"
  by (auto simp: receipt_is_success_def preflight_receipt_def elim: as_code.elims
      split: ProcessTerminationReceipt.split)

end
