(* ===== verification/Exec_Request.thy ===== *)
theory Exec_Request
  imports Worker_Events_Correct
begin

text \<open>
  The request of one phase attempt (\<^verbatim>\<open>orchestrator-exec/src/contract.rs\<close>): its validation and the
  fingerprint that binds a worker to every input. The lossy text of a path and SHA-256 are parameters.
\<close>

section \<open>Requests\<close>

definition MAX_ID_BYTES :: nat where "MAX_ID_BYTES = 256"
definition MAX_MODEL_BYTES :: nat where "MAX_MODEL_BYTES = 256"
definition MAX_REQUEST_TEXT_BYTES :: nat where "MAX_REQUEST_TEXT_BYTES = 1024 * 1024"
definition MAX_TURNS :: nat where "MAX_TURNS = 1000000"

record ExecutionRequestDraft =
  rq_mission :: string
  rq_phase :: string
  rq_attempt :: "32 word"
  rq_revision :: "32 word"
  rq_objective :: string
  rq_persona :: string
  rq_role :: string
  rq_domain :: string
  rq_skills :: "string list"
  rq_dependencies :: "string list"
  rq_expected_evidence :: "string list"
  rq_constraints :: "string list"
  rq_prior_context :: string
  rq_runtime :: RuntimeFamily
  rq_model :: string
  rq_effort :: Effort
  rq_max_turns :: "64 word"
  rq_worker_dir :: string
  rq_target_dir :: "string option"
  rq_resume_from :: "SessionHandle option"
  rq_hook_script :: "string option"

record ExecutionRequest = ExecutionRequestDraft +
  rq_worker_spawned :: WorkerSpawned

fun worker_spawned_contract_error :: "WorkerEventError \<Rightarrow> ContractError" where
  "worker_spawned_contract_error (EventEmpty field) = ContractEmpty field"
| "worker_spawned_contract_error (EventTooLong field limit) = ContractTooLong field limit"
| "worker_spawned_contract_error (EventControlCharacter field) = ContractControlCharacter field"
| "worker_spawned_contract_error EmptyPayload = ContractEmpty ''worker_spawned''"
| "worker_spawned_contract_error InvalidEventId = ContractControlCharacter ''worker_spawned.id''"
| "worker_spawned_contract_error InvalidTimestamp = ContractControlCharacter ''worker_spawned.timestamp''"
| "worker_spawned_contract_error InvalidSequence = ZeroOrdinal ''worker_spawned.sequence''"
| "worker_spawned_contract_error InvalidAttempt = ZeroOrdinal ''worker_spawned.attempt''"

definition validate_optional_path :: "string \<Rightarrow> string option \<Rightarrow> ContractError + unit" where
  "validate_optional_path field path = (case path of Some p \<Rightarrow> validate_path field p | None \<Rightarrow> Inr ())"

definition spawned_fields :: "(string \<Rightarrow> string) \<Rightarrow> ExecutionRequestDraft \<Rightarrow> WorkerSpawned" where
  "spawned_fields to_string_lossy d =
     \<lparr>sp_model = rq_model d, sp_runtime = Some (rq_runtime d), sp_effort_level = Some (rq_effort d),
      sp_persona = Some (rq_persona d), sp_directory = to_string_lossy (rq_worker_dir d)\<rparr>"

definition ExecutionRequest_new ::
    "(string \<Rightarrow> string) \<Rightarrow> ExecutionRequestDraft \<Rightarrow> ContractError + ExecutionRequest" where
  "ExecutionRequest_new to_string_lossy d =
     and_then (validate_required_label ''mission'' (rq_mission d) MAX_ID_BYTES) (\<lambda>_.
     and_then (validate_required_label ''phase'' (rq_phase d) MAX_ID_BYTES) (\<lambda>_.
     and_then (if rq_attempt d = 0 then Inl (ZeroOrdinal ''attempt'') else Inr ()) (\<lambda>_.
     and_then (if rq_revision d = 0 then Inl (ZeroOrdinal ''revision'') else Inr ()) (\<lambda>_.
     and_then (validate_required_content ''objective'' (rq_objective d) MAX_REQUEST_TEXT_BYTES) (\<lambda>_.
     and_then (validate_required_label ''persona'' (rq_persona d) MAX_LABEL_BYTES) (\<lambda>_.
     and_then (validate_required_label ''role'' (rq_role d) MAX_LABEL_BYTES) (\<lambda>_.
     and_then (validate_required_label ''domain'' (rq_domain d) MAX_LABEL_BYTES) (\<lambda>_.
     and_then (validate_list ''skills'' (rq_skills d)) (\<lambda>_.
     and_then (validate_list ''dependencies'' (rq_dependencies d)) (\<lambda>_.
     and_then (validate_list ''expected_evidence'' (rq_expected_evidence d)) (\<lambda>_.
     and_then (validate_list ''constraints'' (rq_constraints d)) (\<lambda>_.
     and_then (validate_content ''prior_context'' (rq_prior_context d) MAX_REQUEST_TEXT_BYTES) (\<lambda>_.
     and_then (validate_content ''model'' (rq_model d) MAX_MODEL_BYTES) (\<lambda>_.
     and_then (if MAX_TURNS < unat (rq_max_turns d) then Inl (ValueTooLarge ''max_turns'' MAX_TURNS) else Inr ()) (\<lambda>_.
     and_then (validate_path ''worker_dir'' (rq_worker_dir d)) (\<lambda>_.
     and_then (validate_optional_path ''target_dir'' (rq_target_dir d)) (\<lambda>_.
     and_then (validate_optional_path ''hook_script'' (rq_hook_script d)) (\<lambda>_.
     and_then (case rq_resume_from d of
         Some session \<Rightarrow>
           if can_resume_into session (rq_runtime d) then Inr () else Inl SessionRuntimeMismatch
       | None \<Rightarrow> Inr ()) (\<lambda>_.
     and_then (map_err worker_spawned_contract_error
         (WorkerSpawned_new (spawned_fields to_string_lossy d))) (\<lambda>worker_spawned.
       Inr (ExecutionRequestDraft.extend d \<lparr>rq_worker_spawned = worker_spawned\<rparr>)))))))))))))))))))))"

section \<open>The fingerprint\<close>

definition EXECUTION_REQUEST_FINGERPRINT_DOMAIN :: string where
  "EXECUTION_REQUEST_FINGERPRINT_DOMAIN = ''nanika-hermetic-execution-binding/v1''"

definition hash_execution_frame :: "string \<Rightarrow> string" where
  "hash_execution_frame bytes = be_bytes 8 (len_u64 bytes) @ bytes"

definition hash_execution_named :: "string \<Rightarrow> string \<Rightarrow> string" where
  "hash_execution_named name v = hash_execution_frame name @ hash_execution_frame v"

definition hash_execution_string_list :: "string \<Rightarrow> string list \<Rightarrow> string" where
  "hash_execution_string_list name vs =
     hash_execution_frame name @ hash_execution_frame (be_bytes 8 (len_u64 vs)) @
     concat (map hash_execution_frame vs)"

definition hash_execution_optional_path :: "string \<Rightarrow> string option \<Rightarrow> string" where
  "hash_execution_optional_path name path =
     hash_execution_frame name @
     (case path of
        None \<Rightarrow> hash_execution_frame [CHR 0x00]
      | Some p \<Rightarrow> hash_execution_frame [CHR 0x01] @ hash_execution_frame p)"

definition hash_resume :: "SessionHandle option \<Rightarrow> string" where
  "hash_resume resume_from =
     (case resume_from of
        None \<Rightarrow> hash_execution_named ''resume_from'' [CHR 0x00]
      | Some session \<Rightarrow>
          hash_execution_named ''resume_from'' [CHR 0x01] @
          hash_execution_named ''resume_runtime'' (runtime_as_str (sh_runtime_family session)) @
          hash_execution_named ''resume_session_id'' (sh_session_id session))"

definition execution_fingerprint_bytes ::
    "('a ExecutionRequestDraft_scheme) \<Rightarrow> string \<Rightarrow> string \<Rightarrow> string" where
  "execution_fingerprint_bytes r worker_id requested_runtime =
     hash_execution_frame EXECUTION_REQUEST_FINGERPRINT_DOMAIN @
     hash_execution_named ''worker_id'' worker_id @
     hash_execution_named ''requested_runtime'' requested_runtime @
     hash_execution_named ''mission'' (rq_mission r) @
     hash_execution_named ''phase'' (rq_phase r) @
     hash_execution_named ''attempt'' (be_bytes 4 (unat (rq_attempt r))) @
     hash_execution_named ''revision'' (be_bytes 4 (unat (rq_revision r))) @
     hash_execution_named ''objective'' (rq_objective r) @
     hash_execution_named ''persona'' (rq_persona r) @
     hash_execution_named ''role'' (rq_role r) @
     hash_execution_named ''domain'' (rq_domain r) @
     hash_execution_string_list ''skills'' (rq_skills r) @
     hash_execution_string_list ''dependencies'' (rq_dependencies r) @
     hash_execution_string_list ''expected_evidence'' (rq_expected_evidence r) @
     hash_execution_string_list ''constraints'' (rq_constraints r) @
     hash_execution_named ''prior_context'' (rq_prior_context r) @
     hash_execution_named ''runtime'' (runtime_as_str (rq_runtime r)) @
     hash_execution_named ''model'' (rq_model r) @
     hash_execution_named ''effort'' (effort_as_str (rq_effort r)) @
     hash_execution_named ''max_turns'' (be_bytes 8 (unat (rq_max_turns r))) @
     hash_execution_named ''worker_dir'' (rq_worker_dir r) @
     hash_execution_optional_path ''target_dir'' (rq_target_dir r) @
     hash_resume (rq_resume_from r) @
     hash_execution_optional_path ''hook_script'' (rq_hook_script r)"

definition execution_fingerprint ::
    "(string \<Rightarrow> 'd) \<Rightarrow> ('a ExecutionRequestDraft_scheme) \<Rightarrow> string \<Rightarrow> string \<Rightarrow> 'd" where
  "execution_fingerprint sha256 r worker_id requested_runtime =
     sha256 (execution_fingerprint_bytes r worker_id requested_runtime)"

text \<open>The hexadecimal form of a digest.\<close>

definition hex_pair :: "char \<Rightarrow> string" where
  "hex_pair c = [''0123456789abcdef'' ! (byte c div 16), ''0123456789abcdef'' ! (byte c mod 16)]"

definition to_lowercase_hex :: "string \<Rightarrow> string" where
  "to_lowercase_hex digest = concat (map hex_pair digest)"

text \<open>
  What an accepted request satisfies, and the fingerprint: its digested bytes determine the worker, the
  requested runtime and every field of the request.
\<close>

section \<open>Accepted requests\<close>

definition label_ok :: "nat \<Rightarrow> string \<Rightarrow> bool" where
  "label_ok m v \<longleftrightarrow> v \<noteq> [] \<and> \<not> has_control v \<and> length v \<le> m"

definition content_ok :: "nat \<Rightarrow> string \<Rightarrow> bool" where
  "content_ok m v \<longleftrightarrow> \<not> has_content_control v \<and> length v \<le> m"

definition items_ok :: "string list \<Rightarrow> bool" where
  "items_ok vs \<longleftrightarrow> length vs \<le> MAX_REQUEST_LIST_ITEMS \<and> list_all (\<lambda>v. v \<noteq> [] \<and> content_ok MAX_LABEL_BYTES v) vs"

definition path_ok :: "string \<Rightarrow> bool" where
  "path_ok p \<longleftrightarrow> p \<noteq> [] \<and> length p \<le> MAX_PATH_BYTES \<and> CHR 0x00 \<notin> set p"

definition request_accepted :: "(string \<Rightarrow> string) \<Rightarrow> ExecutionRequestDraft \<Rightarrow> bool" where
  "request_accepted lossy d \<longleftrightarrow>
     label_ok MAX_ID_BYTES (rq_mission d) \<and> label_ok MAX_ID_BYTES (rq_phase d) \<and>
     rq_attempt d \<noteq> 0 \<and> rq_revision d \<noteq> 0 \<and>
     (rq_objective d \<noteq> [] \<and> content_ok MAX_REQUEST_TEXT_BYTES (rq_objective d)) \<and>
     label_ok MAX_LABEL_BYTES (rq_persona d) \<and> label_ok MAX_LABEL_BYTES (rq_role d) \<and>
     label_ok MAX_LABEL_BYTES (rq_domain d) \<and>
     items_ok (rq_skills d) \<and> items_ok (rq_dependencies d) \<and> items_ok (rq_expected_evidence d) \<and>
     items_ok (rq_constraints d) \<and>
     content_ok MAX_REQUEST_TEXT_BYTES (rq_prior_context d) \<and> content_ok MAX_MODEL_BYTES (rq_model d) \<and>
     unat (rq_max_turns d) \<le> MAX_TURNS \<and>
     path_ok (rq_worker_dir d) \<and> pred_option path_ok (rq_target_dir d) \<and> pred_option path_ok (rq_hook_script d) \<and>
     pred_option (\<lambda>s. sh_runtime_family s = rq_runtime d) (rq_resume_from d) \<and>
     WorkerSpawned_new (spawned_fields lossy d) = Inr (spawned_fields lossy d)"

lemma checks_ok:
  "validate_required_label f v m = Inr () \<longleftrightarrow> label_ok m v"
  "validate_required_content f v m = Inr () \<longleftrightarrow> v \<noteq> [] \<and> content_ok m v"
  "validate_content f v m = Inr () \<longleftrightarrow> content_ok m v"
  "validate_list f vs = Inr () \<longleftrightarrow> items_ok vs"
  "validate_path f p = Inr () \<longleftrightarrow> path_ok p"
  "validate_optional_path f path = Inr () \<longleftrightarrow> pred_option path_ok path"
  "(if c then Inl e else Inr ()) = Inr () \<longleftrightarrow> \<not> c"
  by (simp_all add: valid_iff label_ok_def content_ok_def items_ok_def path_ok_def
      validate_optional_path_def conj_ac split: option.split)

lemma and_then_unit: "and_then f g = Inr r \<longleftrightarrow> f = Inr () \<and> g () = Inr r"
  by (auto simp: and_then_Inr_iff)

lemma spawned_new_eq: "WorkerSpawned_new fs = Inr w \<Longrightarrow> w = fs"
  by (auto simp: WorkerSpawned_new_def and_then_Inr_iff)

lemma execution_request_accepted:
  "ExecutionRequest_new lossy d = Inr r \<longleftrightarrow>
     request_accepted lossy d \<and> r = ExecutionRequestDraft.extend d \<lparr>rq_worker_spawned = spawned_fields lossy d\<rparr>"
proof -
  have resume: "(case rq_resume_from d of
      Some s \<Rightarrow> if can_resume_into s (rq_runtime d) then Inr () else Inl SessionRuntimeMismatch
    | None \<Rightarrow> Inr ()) = Inr () \<longleftrightarrow> pred_option (\<lambda>s. sh_runtime_family s = rq_runtime d) (rq_resume_from d)"
    by (simp add: can_resume_into_def split: option.split)
  have spawned: "and_then (map_err worker_spawned_contract_error (WorkerSpawned_new (spawned_fields lossy d)))
      (\<lambda>w. Inr (ExecutionRequestDraft.extend d \<lparr>rq_worker_spawned = w\<rparr>)) = Inr r \<longleftrightarrow>
      WorkerSpawned_new (spawned_fields lossy d) = Inr (spawned_fields lossy d) \<and>
      r = ExecutionRequestDraft.extend d \<lparr>rq_worker_spawned = spawned_fields lossy d\<rparr>"
    using spawned_new_eq [of "spawned_fields lossy d"]
    by (cases "WorkerSpawned_new (spawned_fields lossy d)") auto
  show ?thesis
    unfolding ExecutionRequest_new_def request_accepted_def and_then_unit checks_ok resume spawned not_less
    by (simp only: conj_assoc)
qed

text \<open>The spawn event of an accepted request can always be written.\<close>

lemma accepted_spawn_valid:
  "ExecutionRequest_new lossy d = Inr r \<Longrightarrow> runtime_valid (rq_runtime d) \<Longrightarrow>
     payload_valid (Spawned (rq_worker_spawned r))"
  by (auto simp: execution_request_accepted request_accepted_def payload_valid_def spawned_fields_def
      ExecutionRequestDraft.extend_def)

text \<open>The other errors of a worker event cannot come from the spawn fields.\<close>

lemma spawned_errors:
  "WorkerSpawned_new fs = Inl e \<Longrightarrow> \<exists>f m. e = EventEmpty f \<or> e = EventTooLong f m \<or> e = EventControlCharacter f"
  by (auto simp: WorkerSpawned_new_def and_then_Inl_iff validate_bounded_def validate_event_optional_def
      validate_required_def split: if_splits option.splits)

section \<open>The fingerprint\<close>

lemma hash_frame: "hash_execution_frame = frame"
  by (simp add: fun_eq_iff hash_execution_frame_def frame_def)

lemma named_code: "prefix_code (hash_execution_named name) (\<lambda>v. length v \<le> U64_MAX)"
  unfolding hash_execution_named_def [abs_def] hash_frame by (rule prefix_code_constant [OF frame_code])

lemma string_list_code:
  "prefix_code (hash_execution_string_list name) (\<lambda>vs. length vs \<le> U64_MAX \<and> list_all (\<lambda>v. length v \<le> U64_MAX) vs)"
proof
  fix as bs x y
  assume valid: "length as \<le> U64_MAX \<and> list_all (\<lambda>v. length v \<le> U64_MAX) as"
      "length bs \<le> U64_MAX \<and> list_all (\<lambda>v. length v \<le> U64_MAX) bs"
    and eq: "hash_execution_string_list name as @ x = hash_execution_string_list name bs @ y"
  have "be_bytes 8 (len_u64 as) = be_bytes 8 (len_u64 bs) \<and> concat (map frame as) @ x = concat (map frame bs) @ y"
    using eq by (intro prefix_code.cut [OF frame_code]) (simp_all add: hash_execution_string_list_def hash_frame U64_MAX_def)
  moreover from this have "length as = length bs"
    using valid be_bytes_inj [of "length as" 8 "length bs"] by (simp add: len_u64_def U64_MAX_def)
  ultimately show "as = bs \<and> x = y" using prefix_code.sequence [OF frame_code, of as bs x y] valid by simp
qed

lemma optional_path_code: "prefix_code (hash_execution_optional_path name) (pred_option (\<lambda>p. length p \<le> U64_MAX))"
  unfolding hash_execution_optional_path_def [abs_def] hash_frame
  by (rule prefix_code_constant, rule prefix_code_option [OF frame_code]) (simp_all add: frame_def)

lemma runtime_code: "prefix_code (\<lambda>r. hash_execution_named name (runtime_as_str r)) (\<lambda>r. length (runtime_as_str r) \<le> U64_MAX)"
  by (rule prefix_code_map [OF named_code]) (simp_all add: RuntimeFamily.expand)

lemma word_code:
  assumes "LENGTH('w::len) = 8 * k" "k \<le> 8"
  shows "prefix_code (\<lambda>w::'w word. hash_execution_named name (be_bytes k (unat w))) (\<lambda>_. True)"
proof (rule prefix_code_map [OF named_code])
  fix a b :: "'w word"
  show "length (be_bytes k (unat a)) \<le> U64_MAX" using assms(2) by (simp add: U64_MAX_def)
  assume "be_bytes k (unat a) = be_bytes k (unat b)"
  then show "a = b" using prefix_code.injective [OF word_bytes_code [OF assms(1)]] by simp
qed

lemma effort_code: "prefix_code (\<lambda>e. hash_execution_named name (effort_as_str e)) (\<lambda>_. True)"
proof (rule prefix_code_map [OF named_code])
  show "length (effort_as_str e) \<le> U64_MAX" for e by (cases e) (simp_all add: U64_MAX_def)
  show "effort_as_str a = effort_as_str b \<Longrightarrow> a = b" for a b by (cases a; cases b) simp_all
qed

definition session_short :: "SessionHandle \<Rightarrow> bool" where
  "session_short s \<longleftrightarrow> length (runtime_as_str (sh_runtime_family s)) \<le> U64_MAX \<and> length (sh_session_id s) \<le> U64_MAX"

lemma resume_code: "prefix_code hash_resume (pred_option session_short)"
  unfolding hash_resume_def [abs_def]
proof (rule prefix_code_option)
  show "prefix_code (\<lambda>s. hash_execution_named ''resume_runtime'' (runtime_as_str (sh_runtime_family s)) @
      hash_execution_named ''resume_session_id'' (sh_session_id s)) session_short"
  proof -
    have "prefix_code (\<lambda>s. (\<lambda>(r, i). hash_execution_named ''resume_runtime'' (runtime_as_str r) @
        hash_execution_named ''resume_session_id'' i) (sh_runtime_family s, sh_session_id s)) session_short"
      by (rule prefix_code_map [OF prefix_code_pair [OF runtime_code named_code]]) (simp_all add: session_short_def)
    then show ?thesis by simp
  qed
qed (simp_all add: hash_execution_named_def hash_frame frame_def)

text \<open>The parts of a binding, in the order they are digested.\<close>

definition binding_parts where
  "binding_parts r w q =
     (w, q, rq_mission r, rq_phase r, rq_attempt r, rq_revision r, rq_objective r, rq_persona r, rq_role r,
      rq_domain r, rq_skills r, rq_dependencies r, rq_expected_evidence r, rq_constraints r, rq_prior_context r,
      rq_runtime r, rq_model r, rq_effort r, rq_max_turns r, rq_worker_dir r, rq_target_dir r, rq_resume_from r,
      rq_hook_script r)"

lemmas binding_code =
  prefix_code_pair [OF named_code [of "''worker_id''"]
    prefix_code_pair [OF named_code [of "''requested_runtime''"]
    prefix_code_pair [OF named_code [of "''mission''"]
    prefix_code_pair [OF named_code [of "''phase''"]
    prefix_code_pair [OF word_code [where k = 4 and name = "''attempt''" and 'w = 32, simplified]
    prefix_code_pair [OF word_code [where k = 4 and name = "''revision''" and 'w = 32, simplified]
    prefix_code_pair [OF named_code [of "''objective''"]
    prefix_code_pair [OF named_code [of "''persona''"]
    prefix_code_pair [OF named_code [of "''role''"]
    prefix_code_pair [OF named_code [of "''domain''"]
    prefix_code_pair [OF string_list_code [of "''skills''"]
    prefix_code_pair [OF string_list_code [of "''dependencies''"]
    prefix_code_pair [OF string_list_code [of "''expected_evidence''"]
    prefix_code_pair [OF string_list_code [of "''constraints''"]
    prefix_code_pair [OF named_code [of "''prior_context''"]
    prefix_code_pair [OF runtime_code [of "''runtime''"]
    prefix_code_pair [OF named_code [of "''model''"]
    prefix_code_pair [OF effort_code [of "''effort''"]
    prefix_code_pair [OF word_code [where k = 8 and name = "''max_turns''" and 'w = 64, simplified]
    prefix_code_pair [OF named_code [of "''worker_dir''"]
    prefix_code_pair [OF optional_path_code [of "''target_dir''"]
    prefix_code_pair [OF resume_code
    optional_path_code [of "''hook_script''"]]]]]]]]]]]]]]]]]]]]]]]

definition binding_short :: "'a ExecutionRequestDraft_scheme \<Rightarrow> bool" where
  "binding_short r \<longleftrightarrow>
     list_all (\<lambda>v. length v \<le> U64_MAX)
       [rq_mission r, rq_phase r, rq_objective r, rq_persona r, rq_role r, rq_domain r, rq_prior_context r,
        runtime_as_str (rq_runtime r), rq_model r, rq_worker_dir r] \<and>
     list_all (\<lambda>vs. length vs \<le> U64_MAX \<and> list_all (\<lambda>v. length v \<le> U64_MAX) vs)
       [rq_skills r, rq_dependencies r, rq_expected_evidence r, rq_constraints r] \<and>
     pred_option (\<lambda>p. length p \<le> U64_MAX) (rq_target_dir r) \<and>
     pred_option (\<lambda>p. length p \<le> U64_MAX) (rq_hook_script r) \<and> pred_option session_short (rq_resume_from r)"

lemma fingerprint_parts_inj:
  assumes "binding_short r" "binding_short s" "length w \<le> U64_MAX" "length q \<le> U64_MAX"
    and "length w' \<le> U64_MAX" "length q' \<le> U64_MAX"
    and "execution_fingerprint_bytes r w q = execution_fingerprint_bytes s w' q'"
  shows "binding_parts r w q = binding_parts s w' q'"
  by (rule prefix_code.injective [OF binding_code])
    (use assms in \<open>simp_all add: binding_parts_def binding_short_def execution_fingerprint_bytes_def\<close>)

text \<open>The values of a draft that have types of their own.\<close>

definition draft_types :: "ExecutionRequestDraft \<Rightarrow> bool" where
  "draft_types d \<longleftrightarrow> runtime_valid (rq_runtime d) \<and> pred_option session_valid (rq_resume_from d)"

lemma limits_small:
  "MAX_ID_BYTES \<le> U64_MAX" "MAX_LABEL_BYTES \<le> U64_MAX" "MAX_REQUEST_TEXT_BYTES \<le> U64_MAX" "MAX_MODEL_BYTES \<le> U64_MAX"
  "MAX_REQUEST_LIST_ITEMS \<le> U64_MAX" "MAX_PATH_BYTES \<le> U64_MAX" "MAX_RUNTIME_FAMILY_BYTES \<le> U64_MAX"
  "MAX_SESSION_ID_BYTES \<le> U64_MAX"
  by (simp_all add: MAX_ID_BYTES_def MAX_LABEL_BYTES_def MAX_REQUEST_TEXT_BYTES_def MAX_MODEL_BYTES_def
      MAX_REQUEST_LIST_ITEMS_def MAX_PATH_BYTES_def MAX_RUNTIME_FAMILY_BYTES_def MAX_SESSION_ID_BYTES_def U64_MAX_def)

lemma items_short: "items_ok vs \<Longrightarrow> length vs \<le> U64_MAX \<and> list_all (\<lambda>v. length v \<le> U64_MAX) vs"
  using limits_small(2,5) by (auto simp: items_ok_def content_ok_def list_all_iff)

lemma path_short: "path_ok p \<Longrightarrow> length p \<le> U64_MAX"
  using limits_small(6) by (auto simp: path_ok_def)

lemma runtime_short: "runtime_valid r \<Longrightarrow> length (runtime_as_str r) \<le> U64_MAX"
  using limits_small(7) by (auto simp: runtime_valid_def RuntimeFamily_parse_iff runtime_text_def)

lemma session_is_short: "session_valid s \<Longrightarrow> session_short s"
  using limits_small(8) runtime_short [of "sh_runtime_family s"]
  by (auto simp: session_valid_def session_short_def SessionHandle_new_def and_then_unit checks_ok content_ok_def)

lemma accepted_short:
  assumes "request_accepted lossy d" "draft_types d"
  shows "binding_short d"
proof -
  have labels: "label_ok m v \<Longrightarrow> m \<le> U64_MAX \<Longrightarrow> length v \<le> U64_MAX"
    and contents: "content_ok m v \<Longrightarrow> m \<le> U64_MAX \<Longrightarrow> length v \<le> U64_MAX" for m v
    by (simp_all add: label_ok_def content_ok_def)
  show ?thesis
    using assms limits_small
    by (auto simp: request_accepted_def draft_types_def binding_short_def items_short path_short runtime_short
        option.pred_set intro: session_is_short labels contents)
qed

text \<open>
  Two accepted requests with the same fingerprint are the same request for the same worker and the
  same requested runtime, field by field, unless the digest itself collides: the digested bytes can be
  parsed back.
\<close>

theorem execution_fingerprint_exact:
  assumes "ExecutionRequest_new lossy d = Inr r" "ExecutionRequest_new lossy e = Inr s"
    and "draft_types d" "draft_types e"
    and "length w \<le> U64_MAX" "length q \<le> U64_MAX" "length w' \<le> U64_MAX" "length q' \<le> U64_MAX"
    and "execution_fingerprint digest r w q = execution_fingerprint digest s w' q'"
    and "digest (execution_fingerprint_bytes r w q) = digest (execution_fingerprint_bytes s w' q') \<Longrightarrow>
      execution_fingerprint_bytes r w q = execution_fingerprint_bytes s w' q'"
  shows "r = s \<and> w = w' \<and> q = q'"
proof -
  have d: "request_accepted lossy d" "r = ExecutionRequestDraft.extend d \<lparr>rq_worker_spawned = spawned_fields lossy d\<rparr>"
    and e: "request_accepted lossy e" "s = ExecutionRequestDraft.extend e \<lparr>rq_worker_spawned = spawned_fields lossy e\<rparr>"
    using assms(1,2) by (simp_all add: execution_request_accepted)
  have "binding_short r" "binding_short s"
    using accepted_short [OF d(1) assms(3)] accepted_short [OF e(1) assms(4)]
    by (simp_all add: d(2) e(2) binding_short_def ExecutionRequestDraft.extend_def)
  moreover have "execution_fingerprint_bytes r w q = execution_fingerprint_bytes s w' q'"
    using assms(9,10) by (simp add: execution_fingerprint_def)
  ultimately have "binding_parts r w q = binding_parts s w' q'"
    by (intro fingerprint_parts_inj assms(5-8))
  then have "d = e \<and> w = w' \<and> q = q'"
    by (simp add: binding_parts_def d(2) e(2) ExecutionRequestDraft.extend_def)
  then show ?thesis by (simp add: d(2) e(2))
qed

definition demo_request :: ExecutionRequestDraft where
  "demo_request = \<lparr>rq_mission = ''m1'', rq_phase = ''p1'', rq_attempt = 1, rq_revision = 1, rq_objective = ''o'',
     rq_persona = ''dev'', rq_role = ''implementer'', rq_domain = ''dev'', rq_skills = [''rust''], rq_dependencies = [],
     rq_expected_evidence = [], rq_constraints = [], rq_prior_context = [], rq_runtime = RuntimeFamily ''codex'',
     rq_model = ''m'', rq_effort = High, rq_max_turns = 5, rq_worker_dir = ''/w'', rq_target_dir = None,
     rq_resume_from = None, rq_hook_script = Some ''/h''\<rparr>"

definition demo_accepted :: ExecutionRequest where
  "demo_accepted = ExecutionRequestDraft.extend demo_request \<lparr>rq_worker_spawned = spawned_fields id demo_request\<rparr>"

lemma demo_request_accepted:
  "ExecutionRequest_new id demo_request = Inr demo_accepted"
  "draft_types demo_request"
proof -
  have "request_accepted id demo_request"
    by (simp add: request_accepted_def demo_request_def label_ok_def content_ok_def items_ok_def path_ok_def
        spawned_fields_def WorkerSpawned_new_def validate_bounded_def validate_event_optional_def validate_required_def
        MAX_ID_BYTES_def MAX_LABEL_BYTES_def MAX_REQUEST_TEXT_BYTES_def MAX_MODEL_BYTES_def MAX_PATH_BYTES_def
        MAX_REQUEST_LIST_ITEMS_def MAX_TURNS_def MAX_EVENT_MODEL_BYTES_def MAX_PERSONA_BYTES_def MAX_DIRECTORY_BYTES_def
        content_control_byte_def byte_def)
  then show "ExecutionRequest_new id demo_request = Inr demo_accepted"
    by (simp add: execution_request_accepted demo_accepted_def)
  show "draft_types demo_request"
    by (simp add: draft_types_def demo_request_def runtime_valid_def RuntimeFamily_parse_def ascii_lowercase_def byte_def
        is_digit_def MAX_RUNTIME_FAMILY_BYTES_def)
qed

theorem execution_fingerprint_exact_witness:
  "execution_fingerprint id demo_accepted ''w'' ''codex'' \<noteq> execution_fingerprint id demo_accepted ''w'' ''claude''"
proof
  assume "execution_fingerprint id demo_accepted ''w'' ''codex'' = execution_fingerprint id demo_accepted ''w'' ''claude''"
  then have "demo_accepted = demo_accepted \<and> ''w'' = ''w'' \<and> ''codex'' = ''claude''"
    by (rule execution_fingerprint_exact [OF demo_request_accepted(1) demo_request_accepted(1)
          demo_request_accepted(2) demo_request_accepted(2), rotated 4])
      (simp_all add: U64_MAX_def)
  then show False by simp
qed

end
