(* ===== verification/Exec_Outcome.thy ===== *)
theory Exec_Outcome
  imports Exec_Request Exec_Authority
begin

text \<open>
  Outcomes of an attempt (\<^verbatim>\<open>orchestrator-exec/src/contract.rs\<close>): cost, tool and artifact evidence,
  failures, partial work, and the operations by which the dispatch boundary overrides what a provider
  returned. A cost is a value of type \<open>'f\<close>; a time is in nanoseconds.
\<close>

definition MAX_FINAL_OUTPUT_BYTES :: nat where "MAX_FINAL_OUTPUT_BYTES = 16 * 1024 * 1024"
definition MAX_TOOL_SUMMARY_BYTES :: nat where "MAX_TOOL_SUMMARY_BYTES = 16 * 1024"
definition MAX_TOOL_OBSERVATIONS :: nat where "MAX_TOOL_OBSERVATIONS = 4096"
definition MAX_ARTIFACT_RECEIPTS :: nat where "MAX_ARTIFACT_RECEIPTS = 4096"
definition MAX_EFFECT_RECEIPTS :: nat where "MAX_EFFECT_RECEIPTS = 4096"
definition MAX_DIGEST_BYTES :: nat where "MAX_DIGEST_BYTES = 512"
definition MAX_FAILURE_DETAIL_BYTES :: nat where "MAX_FAILURE_DETAIL_BYTES = 16 * 1024"

section \<open>Evidence\<close>

text \<open>The tests of \<open>f64\<close> are parameters.\<close>

record 'f CostInfo =
  co_input_tokens :: "64 word"
  co_output_tokens :: "64 word"
  co_total_cost_usd :: 'f
  co_cache_creation_tokens :: "64 word"
  co_cache_read_tokens :: "64 word"

definition CostInfo_new ::
    "('f \<Rightarrow> bool) \<Rightarrow> ('f \<Rightarrow> bool) \<Rightarrow> 64 word \<Rightarrow> 64 word \<Rightarrow> 'f \<Rightarrow> 64 word \<Rightarrow> 64 word \<Rightarrow>
       ContractError + 'f CostInfo" where
  "CostInfo_new is_finite is_negative input_tokens output_tokens total_cost_usd cache_creation cache_read =
     (if \<not> is_finite total_cost_usd \<or> is_negative total_cost_usd then Inl InvalidCost
      else Inr \<lparr>co_input_tokens = input_tokens, co_output_tokens = output_tokens,
                co_total_cost_usd = total_cost_usd, co_cache_creation_tokens = cache_creation,
                co_cache_read_tokens = cache_read\<rparr>)"

record ToolObservation =
  to_tool_name :: string
  to_exit_status :: "int option"
  to_summary :: string

definition ToolObservation_new :: "string \<Rightarrow> int option \<Rightarrow> string \<Rightarrow> ContractError + ToolObservation" where
  "ToolObservation_new tool_name exit_status summary =
     and_then (validate_required_label ''tool_name'' tool_name MAX_LABEL_BYTES) (\<lambda>_.
     and_then (validate_content ''tool_summary'' summary MAX_TOOL_SUMMARY_BYTES) (\<lambda>_.
       Inr \<lparr>to_tool_name = tool_name, to_exit_status = exit_status, to_summary = summary\<rparr>))"

text \<open>\<open>Path::components\<close> on Unix.\<close>

datatype Component = RootDir | CurDir | ParentDir | Normal string

definition path_component :: "string \<Rightarrow> Component option" where
  "path_component s =
     (if s = [] \<or> s = ''.'' then None else if s = ''..'' then Some ParentDir else Some (Normal s))"

definition path_components :: "string \<Rightarrow> Component list" where
  "path_components path =
     (let parts = split_on (CHR ''/'') path in
      (if starts_with path ''/'' then [RootDir] else if hd parts = ''.'' then [CurDir] else []) @
      List.map_filter path_component parts)"

record ArtifactReceipt =
  ar_path :: string
  ar_digest :: string
  ar_bytes :: "64 word"
  ar_authority_verified :: bool

definition is_normal :: "Component \<Rightarrow> bool" where
  "is_normal c = (case c of Normal _ \<Rightarrow> True | _ \<Rightarrow> False)"

definition ArtifactReceipt_new :: "string \<Rightarrow> string \<Rightarrow> 64 word \<Rightarrow> ContractError + ArtifactReceipt" where
  "ArtifactReceipt_new path digest bytes =
     and_then (validate_path ''artifact_path'' path) (\<lambda>_.
       if starts_with path ''/'' \<or> list_ex (\<lambda>c. \<not> is_normal c) (path_components path)
       then Inl UnnormalizedArtifactPath
       else
         and_then (validate_required_label ''artifact_digest'' digest MAX_DIGEST_BYTES) (\<lambda>_.
           Inr \<lparr>ar_path = path, ar_digest = digest, ar_bytes = bytes, ar_authority_verified = False\<rparr>))"

definition mark_authority_verified :: "ArtifactReceipt \<Rightarrow> ArtifactReceipt" where
  "mark_authority_verified a = a\<lparr>ar_authority_verified := True\<rparr>"

definition mark_unverified :: "ArtifactReceipt \<Rightarrow> ArtifactReceipt" where
  "mark_unverified a = a\<lparr>ar_authority_verified := False\<rparr>"

record 'f AttemptEvidence =
  ae_session :: "SessionHandle option"
  ae_cost :: "'f CostInfo option"
  ae_tool_observations :: "ToolObservation list"
  ae_artifact_receipts :: "ArtifactReceipt list"
  ae_effect_receipts :: "EffectReceipt list"

definition AttemptEvidence_new :: "'f AttemptEvidence" where
  "AttemptEvidence_new =
     \<lparr>ae_session = None, ae_cost = None, ae_tool_observations = [], ae_artifact_receipts = [],
      ae_effect_receipts = []\<rparr>"

definition with_session :: "SessionHandle \<Rightarrow> 'f AttemptEvidence \<Rightarrow> 'f AttemptEvidence" where
  "with_session session e = e\<lparr>ae_session := Some session\<rparr>"

definition with_cost :: "'f CostInfo \<Rightarrow> 'f AttemptEvidence \<Rightarrow> 'f AttemptEvidence" where
  "with_cost cost e = e\<lparr>ae_cost := Some cost\<rparr>"

definition push_tool_observation ::
    "ToolObservation \<Rightarrow> 'f AttemptEvidence \<Rightarrow> ContractError + 'f AttemptEvidence" where
  "push_tool_observation observation e =
     (if MAX_TOOL_OBSERVATIONS \<le> length (ae_tool_observations e)
      then Inl (ContractTooManyItems ''tool_observations'' MAX_TOOL_OBSERVATIONS)
      else Inr (e\<lparr>ae_tool_observations := ae_tool_observations e @ [observation]\<rparr>))"

definition push_artifact_receipt ::
    "ArtifactReceipt \<Rightarrow> 'f AttemptEvidence \<Rightarrow> ContractError + 'f AttemptEvidence" where
  "push_artifact_receipt receipt e =
     (if MAX_ARTIFACT_RECEIPTS \<le> length (ae_artifact_receipts e)
      then Inl (ContractTooManyItems ''artifact_receipts'' MAX_ARTIFACT_RECEIPTS)
      else Inr (e\<lparr>ae_artifact_receipts := ae_artifact_receipts e @ [mark_unverified receipt]\<rparr>))"

definition push_effect_receipt ::
    "EffectReceipt \<Rightarrow> 'f AttemptEvidence \<Rightarrow> ContractError + 'f AttemptEvidence" where
  "push_effect_receipt receipt e =
     (if MAX_EFFECT_RECEIPTS \<le> length (ae_effect_receipts e)
      then Inl (ContractTooManyItems ''effect_receipts'' MAX_EFFECT_RECEIPTS)
      else Inr (e\<lparr>ae_effect_receipts := ae_effect_receipts e @ [receipt]\<rparr>))"

definition strip_session :: "'f AttemptEvidence \<Rightarrow> 'f AttemptEvidence" where
  "strip_session e = e\<lparr>ae_session := None\<rparr>"

definition replace_with_verified_artifacts ::
    "ArtifactReceipt list \<Rightarrow> 'f AttemptEvidence \<Rightarrow> 'f AttemptEvidence" where
  "replace_with_verified_artifacts receipts e =
     e\<lparr>ae_artifact_receipts := map mark_authority_verified receipts\<rparr>"

section \<open>Failures\<close>

datatype FailureKind =
    Capacity | Authentication | Permission | Transport | MissingTool | DependencyMissing | UpstreamInvalidated
  | ArtifactConflict | GitConflict | HumanDecisionRequired | ParseFailure | Protocol | Semantic
  | VerificationFailure | Infrastructure

record Failure =
  fa_kind :: FailureKind
  fa_detail :: string

definition Failure_new :: "FailureKind \<Rightarrow> string \<Rightarrow> ContractError + Failure" where
  "Failure_new kind detail =
     and_then (validate_required_content ''failure_detail'' detail MAX_FAILURE_DETAIL_BYTES) (\<lambda>_.
       Inr \<lparr>fa_kind = kind, fa_detail = detail\<rparr>)"

datatype RuntimeCap = CapToolUse | SessionResume | Streaming | CostReport | Artifacts

fun cap_as_str :: "RuntimeCap \<Rightarrow> string" where
  "cap_as_str CapToolUse = ''tool_use''"
| "cap_as_str SessionResume = ''session_resume''"
| "cap_as_str Streaming = ''streaming''"
| "cap_as_str CostReport = ''cost_report''"
| "cap_as_str Artifacts = ''artifacts''"

record RuntimeCaps =
  rc_tool_use :: bool
  rc_session_resume :: bool
  rc_streaming :: bool
  rc_cost_report :: bool
  rc_artifacts :: bool

fun caps_supports :: "RuntimeCaps \<Rightarrow> RuntimeCap \<Rightarrow> bool" where
  "caps_supports caps CapToolUse = rc_tool_use caps"
| "caps_supports caps SessionResume = rc_session_resume caps"
| "caps_supports caps Streaming = rc_streaming caps"
| "caps_supports caps CostReport = rc_cost_report caps"
| "caps_supports caps Artifacts = rc_artifacts caps"

definition advertised :: "RuntimeCaps \<Rightarrow> string list" where
  "advertised caps =
     (if rc_tool_use caps then [''tool_use''] else []) @
     (if rc_session_resume caps then [''session_resume''] else []) @
     (if rc_streaming caps then [''streaming''] else []) @
     (if rc_cost_report caps then [''cost_report''] else []) @
     (if rc_artifacts caps then [''artifacts''] else [])"

record RuntimeDescriptor =
  de_runtime :: RuntimeFamily
  de_caps :: RuntimeCaps

definition failure_event_delivery :: "EventSinkError \<Rightarrow> Failure" where
  "failure_event_delivery error = \<lparr>fa_kind = Infrastructure, fa_detail = es_detail error\<rparr>"

definition failure_provider_session_mismatch :: Failure where
  "failure_provider_session_mismatch =
     \<lparr>fa_kind = Protocol, fa_detail = ''provider returned a session for a different runtime family''\<rparr>"

definition failure_provider_panicked :: Failure where
  "failure_provider_panicked =
     \<lparr>fa_kind = Infrastructure, fa_detail = ''provider executor unwound across the dispatch boundary''\<rparr>"

definition failure_process_service :: "ProcessServiceError \<Rightarrow> Failure" where
  "failure_process_service error =
     \<lparr>fa_kind = (case pe_kind error of
          ProcessDenied \<Rightarrow> Permission | ProcessOutsideRoot \<Rightarrow> Permission | NotEnrolled \<Rightarrow> Permission
        | _ \<Rightarrow> Infrastructure),
      fa_detail = pe_detail error\<rparr>"

definition failure_effect_service :: "EffectServiceError \<Rightarrow> Failure" where
  "failure_effect_service error =
     \<lparr>fa_kind = (case ee_kind error of
          EffectDenied \<Rightarrow> Permission | EffectOutsideRoot \<Rightarrow> Permission | ApprovalRequired \<Rightarrow> Permission
        | _ \<Rightarrow> Infrastructure),
      fa_detail = ee_detail error\<rparr>"

definition failure_supervisor_receipt :: "string \<Rightarrow> Failure" where
  "failure_supervisor_receipt detail = \<lparr>fa_kind = Infrastructure, fa_detail = detail\<rparr>"

definition failure_unsupported_capability :: "RuntimeCap \<Rightarrow> Failure" where
  "failure_unsupported_capability cap =
     \<lparr>fa_kind = Protocol, fa_detail = ''runtime emitted unadvertised capability: '' @ cap_as_str cap\<rparr>"

definition failure_effect_receipt_mismatch :: Failure where
  "failure_effect_receipt_mismatch =
     \<lparr>fa_kind = Protocol, fa_detail = ''effect receipt idempotency key does not match the request''\<rparr>"

definition failure_evidence_verification :: "EvidenceVerifierError \<Rightarrow> Failure" where
  "failure_evidence_verification error =
     \<lparr>fa_kind = (case ve_kind error of
          EvidenceDenied \<Rightarrow> Permission | EvidenceUnavailable \<Rightarrow> Infrastructure | _ \<Rightarrow> VerificationFailure),
      fa_detail = ve_detail error\<rparr>"

definition failure_evidence_authority_missing :: Failure where
  "failure_evidence_authority_missing =
     \<lparr>fa_kind = VerificationFailure,
      fa_detail = ''completion supplied expected or claimed evidence without an independent verifier''\<rparr>"

fun purpose_failure_kind :: "ProcessPurpose \<Rightarrow> FailureKind" where
  "purpose_failure_kind Verification = VerificationFailure"
| "purpose_failure_kind Git = GitConflict"
| "purpose_failure_kind _ = Infrastructure"

text \<open>The derived \<open>Debug\<close> texts.\<close>

fun purpose_debug :: "ProcessPurpose \<Rightarrow> string" where
  "purpose_debug ProviderWorker = ''ProviderWorker''"
| "purpose_debug Git = ''Git''"
| "purpose_debug Tool = ''Tool''"
| "purpose_debug Plugin = ''Plugin''"
| "purpose_debug Verification = ''Verification''"

definition decimal_int :: "int \<Rightarrow> string" where
  "decimal_int i = (if i < 0 then ''-'' @ decimal (nat (- i)) else decimal (nat i))"

fun status_debug :: "ProcessExitStatus \<Rightarrow> string" where
  "status_debug (ExitCode code) = ''Code('' @ decimal_int code @ '')''"
| "status_debug (ExitSignal signal) = ''Signal('' @ decimal_int signal @ '')''"

definition failure_process_exit :: "ProcessPurpose \<Rightarrow> ProcessExitStatus \<Rightarrow> Failure" where
  "failure_process_exit purpose status =
     \<lparr>fa_kind = purpose_failure_kind purpose,
      fa_detail = purpose_debug purpose @ '' process returned non-success status '' @ status_debug status\<rparr>"

definition failure_unacknowledged_process_truncation :: "ProcessPurpose \<Rightarrow> Failure" where
  "failure_unacknowledged_process_truncation purpose =
     \<lparr>fa_kind = purpose_failure_kind purpose,
      fa_detail = purpose_debug purpose @ '' process discarded unacknowledged output''\<rparr>"

definition failure_event_protocol :: "string \<Rightarrow> Failure" where
  "failure_event_protocol detail = \<lparr>fa_kind = Protocol, fa_detail = detail\<rparr>"

definition failure_effect_receipt_overflow :: Failure where
  "failure_effect_receipt_overflow =
     \<lparr>fa_kind = Protocol, fa_detail = ''effect receipts exceeded the attempt evidence bound''\<rparr>"

definition failure_authoritative_overflow :: "nat \<Rightarrow> Failure" where
  "failure_authoritative_overflow count =
     \<lparr>fa_kind = Infrastructure,
      fa_detail = decimal count @ '' additional authoritative failures were coalesced''\<rparr>"

definition failure_progress_overflow :: "nat \<Rightarrow> Failure" where
  "failure_progress_overflow count =
     \<lparr>fa_kind = Protocol, fa_detail = decimal count @ '' context progress receipts exceeded the merge bound''\<rparr>"

section \<open>Outcomes\<close>

datatype MechanicalTermination =
    AttemptCancelled
  | HardDeadlineExceeded
  | WatchdogStalled
  | ProcessExited ProcessExitStatus
  | ProviderStreamEnded
  | SupervisorFailure
  | EventDeliveryFailure
  | ContractViolation

record 'f PartialWork =
  pw_partial_output :: "string option"
  pw_evidence :: "'f AttemptEvidence"

definition PartialWork_new :: "string option \<Rightarrow> 'f AttemptEvidence \<Rightarrow> ContractError + 'f PartialWork" where
  "PartialWork_new partial_output evidence =
     and_then (case partial_output of
         Some output \<Rightarrow> validate_required_content ''partial_output'' output MAX_FINAL_OUTPUT_BYTES
       | None \<Rightarrow> Inr ()) (\<lambda>_.
       Inr \<lparr>pw_partial_output = partial_output, pw_evidence = evidence\<rparr>)"

definition PartialWork_empty :: "'f PartialWork" where
  "PartialWork_empty = \<lparr>pw_partial_output = None, pw_evidence = AttemptEvidence_new\<rparr>"

record 'f CompletedAttempt =
  ca_final_output :: string
  ca_evidence :: "'f AttemptEvidence"
  ca_elapsed :: nat

record 'f IncompleteAttempt =
  ia_termination :: MechanicalTermination
  ia_failures :: "Failure list"
  ia_partial_work :: "'f PartialWork"
  ia_elapsed :: nat

datatype 'f AttemptOutcome =
    CompletedOutcome "'f CompletedAttempt"
  | IncompleteOutcome "'f IncompleteAttempt"

definition outcome_completed :: "string \<Rightarrow> 'f AttemptEvidence \<Rightarrow> nat \<Rightarrow> ContractError + 'f AttemptOutcome" where
  "outcome_completed final_output evidence elapsed =
     and_then (validate_required_content ''final_output'' final_output MAX_FINAL_OUTPUT_BYTES) (\<lambda>_.
       Inr (CompletedOutcome \<lparr>ca_final_output = final_output, ca_evidence = evidence, ca_elapsed = elapsed\<rparr>))"

definition option_to_list :: "'a option \<Rightarrow> 'a list" where
  "option_to_list v = (case v of None \<Rightarrow> [] | Some x \<Rightarrow> [x])"

definition outcome_incomplete ::
    "MechanicalTermination \<Rightarrow> Failure option \<Rightarrow> 'f PartialWork \<Rightarrow> nat \<Rightarrow> 'f AttemptOutcome" where
  "outcome_incomplete termination_kind failure partial_work elapsed =
     IncompleteOutcome \<lparr>ia_termination = termination_kind, ia_failures = option_to_list failure,
       ia_partial_work = partial_work, ia_elapsed = elapsed\<rparr>"

fun is_completed :: "'f AttemptOutcome \<Rightarrow> bool" where
  "is_completed (CompletedOutcome _) = True"
| "is_completed (IncompleteOutcome _) = False"

fun outcome_evidence :: "'f AttemptOutcome \<Rightarrow> 'f AttemptEvidence" where
  "outcome_evidence (CompletedOutcome c) = ca_evidence c"
| "outcome_evidence (IncompleteOutcome i) = pw_evidence (ia_partial_work i)"

fun outcome_output :: "'f AttemptOutcome \<Rightarrow> string option" where
  "outcome_output (CompletedOutcome c) = Some (ca_final_output c)"
| "outcome_output (IncompleteOutcome i) = pw_partial_output (ia_partial_work i)"

fun outcome_termination :: "'f AttemptOutcome \<Rightarrow> MechanicalTermination option" where
  "outcome_termination (CompletedOutcome _) = None"
| "outcome_termination (IncompleteOutcome i) = Some (ia_termination i)"

fun outcome_failures :: "'f AttemptOutcome \<Rightarrow> Failure list" where
  "outcome_failures (CompletedOutcome _) = []"
| "outcome_failures (IncompleteOutcome i) = ia_failures i"

fun outcome_elapsed :: "'f AttemptOutcome \<Rightarrow> nat" where
  "outcome_elapsed (CompletedOutcome c) = ca_elapsed c"
| "outcome_elapsed (IncompleteOutcome i) = ia_elapsed i"

fun termination_precedence :: "MechanicalTermination \<Rightarrow> nat" where
  "termination_precedence ContractViolation = 8"
| "termination_precedence EventDeliveryFailure = 7"
| "termination_precedence SupervisorFailure = 6"
| "termination_precedence HardDeadlineExceeded = 5"
| "termination_precedence AttemptCancelled = 4"
| "termination_precedence WatchdogStalled = 3"
| "termination_precedence (ProcessExited _) = 2"
| "termination_precedence ProviderStreamEnded = 1"

fun terminate_authoritatively ::
    "'f AttemptOutcome \<Rightarrow> MechanicalTermination \<Rightarrow> Failure option \<Rightarrow> bool \<Rightarrow> 'f AttemptOutcome" where
  "terminate_authoritatively (CompletedOutcome c) completed_termination failure strip =
     IncompleteOutcome \<lparr>ia_termination = completed_termination, ia_failures = option_to_list failure,
       ia_partial_work =
         \<lparr>pw_partial_output = Some (ca_final_output c),
          pw_evidence = (if strip then strip_session (ca_evidence c) else ca_evidence c)\<rparr>,
       ia_elapsed = ca_elapsed c\<rparr>"
| "terminate_authoritatively (IncompleteOutcome i) completed_termination failure strip =
     IncompleteOutcome (i\<lparr>ia_termination :=
         (if termination_precedence (ia_termination i) \<le> termination_precedence completed_termination
          then completed_termination else ia_termination i),
       ia_failures := ia_failures i @ option_to_list failure,
       ia_partial_work :=
         (if strip then (ia_partial_work i)\<lparr>pw_evidence := strip_session (pw_evidence (ia_partial_work i))\<rparr>
          else ia_partial_work i)\<rparr>)"

definition returned_session_matches :: "'f AttemptOutcome \<Rightarrow> RuntimeFamily \<Rightarrow> bool" where
  "returned_session_matches out runtime =
     (case ae_session (outcome_evidence out) of None \<Rightarrow> True | Some session \<Rightarrow> can_resume_into session runtime)"

definition reject_provider_session :: "'f AttemptOutcome \<Rightarrow> 'f AttemptOutcome" where
  "reject_provider_session out =
     terminate_authoritatively out ContractViolation (Some failure_provider_session_mismatch) True"

definition reject_capability :: "RuntimeCap \<Rightarrow> 'f AttemptOutcome \<Rightarrow> 'f AttemptOutcome" where
  "reject_capability cap out =
     terminate_authoritatively out ContractViolation (Some (failure_unsupported_capability cap)) (cap = SessionResume)"

definition reject_authoritative ::
    "MechanicalTermination \<Rightarrow> Failure option \<Rightarrow> 'f AttemptOutcome \<Rightarrow> 'f AttemptOutcome" where
  "reject_authoritative termination_kind failure out = terminate_authoritatively out termination_kind failure False"

definition provider_panic :: "'f PartialWork \<Rightarrow> nat \<Rightarrow> 'f AttemptOutcome" where
  "provider_panic partial_work elapsed =
     IncompleteOutcome \<lparr>ia_termination = SupervisorFailure, ia_failures = [failure_provider_panicked],
       ia_partial_work = partial_work, ia_elapsed = elapsed\<rparr>"

text \<open>The receipts of the context first, then what the provider adds to them, up to the bound.\<close>

fun merge_receipts :: "nat \<Rightarrow> 'a list \<Rightarrow> 'a list \<Rightarrow> 'a list \<times> nat" where
  "merge_receipts bound acc [] = (acc, 0)"
| "merge_receipts bound acc (x # xs) =
     (if x \<in> set acc then merge_receipts bound acc xs
      else if length acc < bound then merge_receipts bound (acc @ [x]) xs
      else (let (merged, overflow) = merge_receipts bound acc xs in (merged, overflow + 1)))"

definition merge_context_evidence :: "'f AttemptEvidence \<Rightarrow> 'f AttemptEvidence \<Rightarrow> 'f AttemptEvidence \<times> nat" where
  "merge_context_evidence target context =
     (let (tools, o1) = merge_receipts MAX_TOOL_OBSERVATIONS (ae_tool_observations context) (ae_tool_observations target);
          (artifacts, o2) =
            merge_receipts MAX_ARTIFACT_RECEIPTS (ae_artifact_receipts context) (ae_artifact_receipts target);
          (effects, o3) = merge_receipts MAX_EFFECT_RECEIPTS (ae_effect_receipts context) (ae_effect_receipts target)
      in (\<lparr>ae_session = (if ae_session context \<noteq> None then ae_session context else ae_session target),
           ae_cost = (if ae_cost context \<noteq> None then ae_cost context else ae_cost target),
           ae_tool_observations = tools, ae_artifact_receipts = artifacts, ae_effect_receipts = effects\<rparr>,
          o1 + o2 + o3))"

fun merge_progress :: "'f AttemptOutcome \<Rightarrow> 'f PartialWork \<Rightarrow> 'f AttemptOutcome \<times> nat" where
  "merge_progress (CompletedOutcome c) progress =
     (let (evidence, overflow) = merge_context_evidence (ca_evidence c) (pw_evidence progress)
      in (CompletedOutcome (c\<lparr>ca_evidence := evidence\<rparr>), overflow))"
| "merge_progress (IncompleteOutcome i) progress =
     (let (evidence, overflow) = merge_context_evidence (pw_evidence (ia_partial_work i)) (pw_evidence progress);
          output = (if pw_partial_output progress \<noteq> None then pw_partial_output progress
                    else pw_partial_output (ia_partial_work i))
      in (IncompleteOutcome (i\<lparr>ia_partial_work := \<lparr>pw_partial_output = output, pw_evidence = evidence\<rparr>\<rparr>), overflow))"

definition reconcile_progress :: "'f AttemptOutcome \<Rightarrow> 'f PartialWork \<Rightarrow> 'f AttemptOutcome" where
  "reconcile_progress out progress =
     (let (merged, overflow) = merge_progress out progress in
      if 0 < overflow
      then terminate_authoritatively merged ContractViolation (Some (failure_progress_overflow overflow)) False
      else merged)"

definition demote_artifacts :: "'f AttemptEvidence \<Rightarrow> 'f AttemptEvidence" where
  "demote_artifacts e = e\<lparr>ae_artifact_receipts := map mark_unverified (ae_artifact_receipts e)\<rparr>"

fun demote_provider_artifacts :: "'f AttemptOutcome \<Rightarrow> 'f AttemptOutcome" where
  "demote_provider_artifacts (CompletedOutcome c) =
     CompletedOutcome (c\<lparr>ca_evidence := demote_artifacts (ca_evidence c)\<rparr>)"
| "demote_provider_artifacts (IncompleteOutcome i) =
     IncompleteOutcome (i\<lparr>ia_partial_work :=
       (ia_partial_work i)\<lparr>pw_evidence := demote_artifacts (pw_evidence (ia_partial_work i))\<rparr>\<rparr>)"

section \<open>The terminal event\<close>

definition format_event_duration :: "nat \<Rightarrow> string" where
  "format_event_duration nanos =
     (if nanos = 0 then ''0s''
      else if nanos mod 1000000000 = 0 then decimal (nanos div 1000000000) @ ''s''
      else decimal nanos @ ''ns'')"

fun termination_debug :: "MechanicalTermination \<Rightarrow> string" where
  "termination_debug AttemptCancelled = ''Cancelled''"
| "termination_debug HardDeadlineExceeded = ''HardDeadlineExceeded''"
| "termination_debug WatchdogStalled = ''WatchdogStalled''"
| "termination_debug (ProcessExited status) = ''ProcessExited('' @ status_debug status @ '')''"
| "termination_debug ProviderStreamEnded = ''ProviderStreamEnded''"
| "termination_debug SupervisorFailure = ''SupervisorFailure''"
| "termination_debug EventDeliveryFailure = ''EventDeliveryFailure''"
| "termination_debug ContractViolation = ''ContractViolation''"

fun terminal_payload :: "'f AttemptOutcome \<Rightarrow> WorkerEventError + WorkerEventPayload" where
  "terminal_payload (CompletedOutcome c) =
     and_then (WorkerCompleted_new (length (ca_final_output c)) (format_event_duration (ca_elapsed c))) (\<lambda>p.
       Inr (Completed p))"
| "terminal_payload (IncompleteOutcome i) =
     and_then (WorkerFailed_new
         \<lparr>wf_error = (case ia_failures i of
              [] \<Rightarrow> ''attempt ended: '' @ termination_debug (ia_termination i)
            | failure # _ \<Rightarrow> fa_detail failure),
          wf_duration = Some (format_event_duration (ia_elapsed i)),
          wf_output_len = map_option length (pw_partial_output (ia_partial_work i)),
          wf_exit_code = (case ia_termination i of ProcessExited status \<Rightarrow> as_code status | _ \<Rightarrow> None),
          wf_stderr_tail = None\<rparr>) (\<lambda>p. Inr (Failed p))"

end
