(* ===== verification/Exec_Context.thy ===== *)
theory Exec_Context
  imports Exec_Outcome "HOL-Library.State_Monad"
begin

text \<open>
  The context of one attempt (\<^verbatim>\<open>ExecutionContext\<close> of \<^verbatim>\<open>orchestrator-exec/src/contract.rs\<close>), as a state
  monad. The services an attempt may use (process, clock, watchdog, effects, event sink, evidence
  verifier) are functions on a world of type \<open>'w\<close>: each call gives an answer and the next world. What
  the sink answered to every draft is recorded beside the fields of the context.
\<close>

section \<open>Services\<close>

record ProcessBudget =
  pb_hard_deadline :: nat
  pb_remaining :: nat
  pb_stall_window :: nat

record EffectBudget =
  eb_hard_deadline :: nat
  eb_remaining_at_dispatch :: nat

record EvidenceVerificationRequest =
  vr_mission_id :: string
  vr_phase_id :: string
  vr_attempt :: "32 word"
  vr_worker_root :: string
  vr_target_root :: "string option"
  vr_expected :: "string list"
  vr_claimed_artifacts :: "ArtifactReceipt list"

record ('w, 'd, 'i) Services =
  sv_is_cancelled :: "'w \<Rightarrow> bool \<times> 'w"
  sv_now :: "'w \<Rightarrow> nat \<times> 'w"
  sv_stall_window :: "'w \<Rightarrow> nat \<times> 'w"
  sv_sha256 :: "string \<Rightarrow> 'd"
  sv_service_identity :: "'i option"
  sv_finish_preflight ::
    "ProcessRequest \<Rightarrow> ('d, 'i) ProcessPreflight \<Rightarrow> 'w \<Rightarrow> (ProcessServiceError + unit) \<times> 'w"
  sv_process_execute :: "ProcessRequest \<Rightarrow> ProcessBudget \<Rightarrow> 'w \<Rightarrow> (ProcessServiceError + ProcessReceipt) \<times> 'w"
  sv_effect_execute :: "EffectRequest \<Rightarrow> EffectBudget \<Rightarrow> 'w \<Rightarrow> (EffectServiceError + EffectReceipt) \<times> 'w"
  sv_emit :: "WorkerEventDraft \<Rightarrow> 'w \<Rightarrow> (EventSinkError + EventReceipt) \<times> 'w"
  sv_verify ::
    "(EvidenceVerificationRequest \<Rightarrow> 'w \<Rightarrow> (EvidenceVerifierError + ArtifactReceipt list) \<times> 'w) option"

section \<open>The context\<close>

datatype EventLifecycle = AwaitingSpawn | Active | Terminal WorkerEventKind

record ('w, 'f) Context =
  cx_world :: 'w
  cx_hard_deadline :: nat
  cx_worker_identity :: WorkerIdentity
  cx_event_spawn :: "WorkerSpawned option"
  cx_event_lifecycle :: EventLifecycle
  cx_progress :: "'f PartialWork"
  cx_authoritative_failures :: "(MechanicalTermination \<times> Failure option) list"
  cx_authoritative_overflow :: nat
  cx_observed_streaming :: bool
  cx_started_at :: nat
  cx_dispatched :: bool
  cx_attempt :: "32 word option"
  cx_sink_calls :: "(WorkerEventDraft \<times> (EventSinkError + EventReceipt)) list"

type_synonym ('w, 'f, 'a) attempt = "(('w, 'f) Context, 'a) State_Monad.state"

definition call :: "('w \<Rightarrow> 'a \<times> 'w) \<Rightarrow> ('w, 'f, 'a) attempt" where
  "call f = State (\<lambda>c. case f (cx_world c) of (a, w) \<Rightarrow> (a, c\<lparr>cx_world := w\<rparr>))"

definition reads :: "(('w, 'f) Context \<Rightarrow> 'a) \<Rightarrow> ('w, 'f, 'a) attempt" where
  "reads f = State (\<lambda>c. (f c, c))"

definition modify :: "(('w, 'f) Context \<Rightarrow> ('w, 'f) Context) \<Rightarrow> ('w, 'f, unit) attempt" where
  "modify f = State (\<lambda>c. ((), f c))"

text \<open>\<open>?\<close> on a call.\<close>

definition try_bind ::
    "('w, 'f, 'e + 'a) attempt \<Rightarrow> ('a \<Rightarrow> ('w, 'f, 'e + 'b) attempt) \<Rightarrow> ('w, 'f, 'e + 'b) attempt" where
  "try_bind m f = m \<bind> (\<lambda>r. case r of Inl e \<Rightarrow> State_Monad.return (Inl e) | Inr a \<Rightarrow> f a)"

definition ExecutionContext_new ::
    "('w, 'd, 'i) Services \<Rightarrow> 'w \<Rightarrow> WorkerIdentity \<Rightarrow> nat \<Rightarrow> ('w, 'f) Context" where
  "ExecutionContext_new sv w worker_identity hard_deadline =
     (case sv_now sv w of (started_at, w') \<Rightarrow>
        \<lparr>cx_world = w', cx_hard_deadline = hard_deadline, cx_worker_identity = worker_identity,
         cx_event_spawn = None, cx_event_lifecycle = AwaitingSpawn, cx_progress = PartialWork_empty,
         cx_authoritative_failures = [], cx_authoritative_overflow = 0, cx_observed_streaming = False,
         cx_started_at = started_at, cx_dispatched = False, cx_attempt = None, cx_sink_calls = []\<rparr>)"

definition remaining :: "('w, 'd, 'i) Services \<Rightarrow> ('w, 'f, nat) attempt" where
  "remaining sv = do {
     now \<leftarrow> call (sv_now sv);
     reads (\<lambda>c. cx_hard_deadline c - now) }"

subsection \<open>Authoritative failures\<close>

definition MAX_AUTHORITATIVE_FAILURES :: nat where "MAX_AUTHORITATIVE_FAILURES = 32"

definition remember ::
    "MechanicalTermination \<Rightarrow> Failure option \<Rightarrow> ('w, 'f) Context \<Rightarrow> ('w, 'f) Context" where
  "remember termination_kind failure c =
     (if length (cx_authoritative_failures c) < MAX_AUTHORITATIVE_FAILURES
      then c\<lparr>cx_authoritative_failures := cx_authoritative_failures c @ [(termination_kind, failure)]\<rparr>
      else c\<lparr>cx_authoritative_overflow :=
               (if cx_authoritative_overflow c < U64_MAX then cx_authoritative_overflow c + 1 else U64_MAX)\<rparr>)"

definition remember_authoritative ::
    "MechanicalTermination \<Rightarrow> Failure option \<Rightarrow> ('w, 'f, unit) attempt" where
  "remember_authoritative termination_kind failure = modify (remember termination_kind failure)"

definition current_attempt_termination ::
    "('w, 'd, 'i) Services \<Rightarrow> ('w, 'f, MechanicalTermination option) attempt" where
  "current_attempt_termination sv = do {
     cancelled \<leftarrow> call (sv_is_cancelled sv);
     if cancelled then State_Monad.return (Some AttemptCancelled)
     else do {
       left \<leftarrow> remaining sv;
       State_Monad.return (if left = 0 then Some HardDeadlineExceeded else None) } }"

definition current_process_preflight_reason ::
    "('w, 'd, 'i) Services \<Rightarrow> ('w, 'f, ProcessPreflightReason option) attempt" where
  "current_process_preflight_reason sv = do {
     cancelled \<leftarrow> call (sv_is_cancelled sv);
     if cancelled then State_Monad.return (Some PreflightCancelled)
     else do {
       left \<leftarrow> remaining sv;
       State_Monad.return (if left = 0 then Some PreflightDeadlineExceeded else None) } }"

definition remember_current_attempt_termination :: "('w, 'd, 'i) Services \<Rightarrow> ('w, 'f, unit) attempt" where
  "remember_current_attempt_termination sv = do {
     observed \<leftarrow> current_attempt_termination sv;
     case observed of
       Some termination_kind \<Rightarrow> remember_authoritative termination_kind None
     | None \<Rightarrow> State_Monad.return () }"

definition finalize_attempt_state :: "('w, 'd, 'i) Services \<Rightarrow> ('w, 'f, unit) attempt" where
  "finalize_attempt_state sv = remember_current_attempt_termination sv"

definition apply_failures ::
    "(MechanicalTermination \<times> Failure option) list \<Rightarrow> 'f AttemptOutcome \<Rightarrow> 'f AttemptOutcome" where
  "apply_failures fs out = foldl (\<lambda>acc (t, failure). reject_authoritative t failure acc) out fs"

definition apply_authoritative_failures :: "'f AttemptOutcome \<Rightarrow> ('w, 'f, 'f AttemptOutcome) attempt" where
  "apply_authoritative_failures out = State (\<lambda>c.
     (let applied = apply_failures (cx_authoritative_failures c) out in
      (if 0 < cx_authoritative_overflow c
       then reject_authoritative ContractViolation
              (Some (failure_authoritative_overflow (cx_authoritative_overflow c))) applied
       else applied,
       c\<lparr>cx_authoritative_failures := [], cx_authoritative_overflow := 0\<rparr>)))"

subsection \<open>Processes and effects\<close>

definition remember_if :: "bool \<Rightarrow> MechanicalTermination \<Rightarrow> Failure option \<Rightarrow> ('w, 'f, unit) attempt" where
  "remember_if b termination_kind failure =
     (if b then remember_authoritative termination_kind failure else State_Monad.return ())"

definition receipt_termination ::
    "ProcessPurpose \<Rightarrow> ProcessTerminationReceipt \<Rightarrow> (MechanicalTermination \<times> Failure option) option" where
  "receipt_termination purpose receipt =
     (case receipt of
        Exited status \<Rightarrow>
          if as_code status \<noteq> Some 0
          then Some (ProcessExited status, Some (failure_process_exit purpose status)) else None
      | ReceiptCancelled \<Rightarrow> Some (AttemptCancelled, None)
      | ReceiptDeadlineExceeded \<Rightarrow> Some (HardDeadlineExceeded, None)
      | Stalled \<Rightarrow> Some (WatchdogStalled, None)
      | OutputLimit \<Rightarrow>
          Some (SupervisorFailure,
            Some (failure_supervisor_receipt ''process exceeded its bounded output receipt''))
      | ReceiptSupervisorFailure \<Rightarrow>
          Some (SupervisorFailure,
            Some (failure_supervisor_receipt ''process supervisor reported infrastructure failure''))
      | UnresolvedOwnership \<Rightarrow>
          Some (SupervisorFailure,
            Some (failure_supervisor_receipt ''process supervisor could not prove ownership cleanup'')))"

definition observe_process_receipt :: "ProcessRequest \<Rightarrow> ProcessReceipt \<Rightarrow> ('w, 'f, unit) attempt" where
  "observe_process_receipt r receipt = do {
     (case receipt_termination (pr_purpose r) (rc_termination receipt) of
        Some (termination_kind, failure) \<Rightarrow> remember_authoritative termination_kind failure
      | None \<Rightarrow> State_Monad.return ());
     remember_if (pr_max_output_bytes r < length (rc_stdout receipt) \<or>
                  pr_max_output_bytes r < length (rc_stderr receipt))
       SupervisorFailure
       (Some (failure_supervisor_receipt ''process receipt exceeded the request output bound''));
     remember_if (rc_truncated_output_acknowledged receipt \<and> \<not> pr_truncated_output_acknowledged r)
       SupervisorFailure
       (Some (failure_supervisor_receipt ''process receipt exceeded the request truncation policy''));
     remember_if ((0 < rc_stdout_discarded receipt \<or> 0 < rc_stderr_discarded receipt) \<and>
                  \<not> rc_truncated_output_acknowledged receipt)
       SupervisorFailure (Some (failure_unacknowledged_process_truncation (pr_purpose r)));
     remember_if (\<not> rc_ownership_released receipt \<and> rc_termination receipt \<noteq> UnresolvedOwnership)
       SupervisorFailure
       (Some (failure_supervisor_receipt ''process receipt did not prove ownership release'')) }"

definition process_failed ::
    "('w, 'd, 'i) Services \<Rightarrow> ProcessServiceError \<Rightarrow> ('w, 'f, ProcessServiceError + ProcessReceipt) attempt" where
  "process_failed sv error = do {
     remember_authoritative SupervisorFailure (Some (failure_process_service error));
     remember_current_attempt_termination sv;
     State_Monad.return (Inl error) }"

fun preflight_terminations ::
    "ProcessPreflightReason \<Rightarrow> MechanicalTermination \<times> ProcessTerminationReceipt" where
  "preflight_terminations PreflightCancelled = (AttemptCancelled, ReceiptCancelled)"
| "preflight_terminations PreflightDeadlineExceeded = (HardDeadlineExceeded, ReceiptDeadlineExceeded)"

definition run_process ::
    "('w, 'd, 'i) Services \<Rightarrow> ProcessRequest \<Rightarrow> ('w, 'f, ProcessServiceError + ProcessReceipt) attempt" where
  "run_process sv r = do {
     reason \<leftarrow> current_process_preflight_reason sv;
     case reason of
       Some reason \<Rightarrow>
         (case ProcessPreflight_new (sv_sha256 sv) (sv_service_identity sv) r reason of
            Inl error \<Rightarrow> process_failed sv error
          | Inr preflight \<Rightarrow> do {
              finished \<leftarrow> call (sv_finish_preflight sv r preflight);
              case finished of
                Inl error \<Rightarrow> process_failed sv error
              | Inr _ \<Rightarrow> do {
                  remember_authoritative (fst (preflight_terminations reason)) None;
                  State_Monad.return (Inr (preflight_receipt (snd (preflight_terminations reason)))) } })
     | None \<Rightarrow> do {
         deadline \<leftarrow> reads cx_hard_deadline;
         left \<leftarrow> remaining sv;
         window \<leftarrow> call (sv_stall_window sv);
         result \<leftarrow> call (sv_process_execute sv r
           \<lparr>pb_hard_deadline = deadline, pb_remaining = left, pb_stall_window = window\<rparr>);
         case result of
           Inr receipt \<Rightarrow> do {
             observe_process_receipt r receipt;
             remember_current_attempt_termination sv;
             State_Monad.return (Inr receipt) }
         | Inl error \<Rightarrow> process_failed sv error } }"

definition accept_effect_receipt :: "EffectRequest \<Rightarrow> EffectReceipt \<Rightarrow> ('w, 'f, unit) attempt" where
  "accept_effect_receipt r receipt =
     (if er_idempotency_key receipt \<noteq> ef_idempotency_key r
      then remember_authoritative ContractViolation (Some failure_effect_receipt_mismatch)
      else do {
        pushed \<leftarrow> reads (\<lambda>c. push_effect_receipt receipt (pw_evidence (cx_progress c)));
        case pushed of
          Inr evidence \<Rightarrow> modify (\<lambda>c. c\<lparr>cx_progress := (cx_progress c)\<lparr>pw_evidence := evidence\<rparr>\<rparr>)
        | Inl _ \<Rightarrow> remember_authoritative ContractViolation (Some failure_effect_receipt_overflow) })"

definition observe_effect_error :: "EffectServiceError \<Rightarrow> ('w, 'f, unit) attempt" where
  "observe_effect_error error =
     (case ee_kind error of
        EffectCancelled \<Rightarrow> remember_authoritative AttemptCancelled None
      | EffectDeadlineExceeded \<Rightarrow> remember_authoritative HardDeadlineExceeded None
      | _ \<Rightarrow> remember_authoritative SupervisorFailure (Some (failure_effect_service error)))"

definition run_effect ::
    "('w, 'd, 'i) Services \<Rightarrow> EffectRequest \<Rightarrow> ('w, 'f, EffectServiceError + EffectReceipt) attempt" where
  "run_effect sv r = do {
     observed \<leftarrow> current_attempt_termination sv;
     case observed of
       Some termination_kind \<Rightarrow> do {
         remember_authoritative termination_kind None;
         State_Monad.return (Inl (case termination_kind of
             AttemptCancelled \<Rightarrow> effect_cancelled | _ \<Rightarrow> effect_deadline_exceeded)) }
     | None \<Rightarrow> do {
         deadline \<leftarrow> reads cx_hard_deadline;
         left \<leftarrow> remaining sv;
         result \<leftarrow> call (sv_effect_execute sv r
           \<lparr>eb_hard_deadline = deadline, eb_remaining_at_dispatch = left\<rparr>);
         case result of
           Inr receipt \<Rightarrow> do {
             accept_effect_receipt r receipt;
             remember_current_attempt_termination sv;
             State_Monad.return (Inr receipt) }
         | Inl error \<Rightarrow> do {
             observe_effect_error error;
             remember_current_attempt_termination sv;
             State_Monad.return (Inl error) } } }"

subsection \<open>Events\<close>

definition reject_event_protocol :: "string \<Rightarrow> ('w, 'f, EventSinkError) attempt" where
  "reject_event_protocol detail = do {
     remember_authoritative ContractViolation (Some (failure_event_protocol detail));
     State_Monad.return \<lparr>es_kind = Rejected, es_detail = detail\<rparr> }"

definition rejected :: "string \<Rightarrow> ('w, 'f, EventSinkError + 'a) attempt" where
  "rejected detail = do { error \<leftarrow> reject_event_protocol detail; State_Monad.return (Inl error) }"

definition sink_call ::
    "('w, 'd, 'i) Services \<Rightarrow> WorkerEventDraft \<Rightarrow> ('w, 'f, EventSinkError + EventReceipt) attempt" where
  "sink_call sv draft = do {
     answer \<leftarrow> call (sv_emit sv draft);
     modify (\<lambda>c. c\<lparr>cx_sink_calls := cx_sink_calls c @ [(draft, answer)]\<rparr>);
     State_Monad.return answer }"

definition commit_event ::
    "('w, 'd, 'i) Services \<Rightarrow> WorkerEventPayload \<Rightarrow> ('w, 'f, EventSinkError + EventReceipt) attempt" where
  "commit_event sv payload = do {
     bound \<leftarrow> reads cx_attempt;
     case bound of
       None \<Rightarrow> rejected ''event stream was used before execution attempt binding''
     | Some attempt \<Rightarrow> do {
         identity \<leftarrow> reads cx_worker_identity;
         answer \<leftarrow> sink_call sv \<lparr>wd_identity = identity, wd_attempt = attempt, wd_payload = payload\<rparr>;
         case answer of
           Inr receipt \<Rightarrow> State_Monad.return (Inr receipt)
         | Inl error \<Rightarrow> do {
             remember_authoritative EventDeliveryFailure (Some (failure_event_delivery error));
             State_Monad.return (Inl error) } } }"

definition ensure_spawned :: "('w, 'd, 'i) Services \<Rightarrow> ('w, 'f, EventSinkError + unit) attempt" where
  "ensure_spawned sv = do {
     lifecycle \<leftarrow> reads cx_event_lifecycle;
     case lifecycle of
       AwaitingSpawn \<Rightarrow> do {
         spawned \<leftarrow> reads cx_event_spawn;
         case spawned of
           None \<Rightarrow> rejected ''event stream was used before request binding''
         | Some spawned \<Rightarrow> try_bind (commit_event sv (Spawned spawned)) (\<lambda>_. do {
             modify (\<lambda>c. c\<lparr>cx_event_lifecycle := Active\<rparr>);
             State_Monad.return (Inr ()) }) }
     | Active \<Rightarrow> State_Monad.return (Inr ())
     | Terminal _ \<Rightarrow> rejected ''event stream already reached terminal'' }"

definition emit ::
    "('w, 'd, 'i) Services \<Rightarrow> WorkerEventPayload \<Rightarrow> ('w, 'f, EventSinkError + EventReceipt) attempt" where
  "emit sv payload =
     (case payload of
        Output _ \<Rightarrow> do {
          modify (\<lambda>c. c\<lparr>cx_observed_streaming := cx_observed_streaming c \<or> requires_streaming_capability payload\<rparr>);
          try_bind (ensure_spawned sv) (\<lambda>_. do {
            lifecycle \<leftarrow> reads cx_event_lifecycle;
            if lifecycle \<noteq> Active then rejected ''worker.output was emitted after terminal''
            else commit_event sv payload }) }
      | _ \<Rightarrow> rejected ''providers may emit worker.output only; lifecycle events are context owned'')"

definition emit_terminal ::
    "('w, 'd, 'i) Services \<Rightarrow> 'f AttemptOutcome \<Rightarrow> ('w, 'f, EventSinkError + unit) attempt" where
  "emit_terminal sv out =
     try_bind (ensure_spawned sv) (\<lambda>_. do {
       lifecycle \<leftarrow> reads cx_event_lifecycle;
       if lifecycle \<noteq> Active
       then rejected ''attempt attempted more than one worker terminal event''
       else
         (case terminal_payload out of
            Inl _ \<Rightarrow> rejected ''attempt outcome cannot be represented as a worker event''
          | Inr payload \<Rightarrow> try_bind (commit_event sv payload) (\<lambda>_. do {
              modify (\<lambda>c. c\<lparr>cx_event_lifecycle := Terminal (payload_kind payload)\<rparr>);
              State_Monad.return (Inr ()) })) })"

subsection \<open>Progress\<close>

definition record_partial_output :: "string \<Rightarrow> ('w, 'f, ContractError + unit) attempt" where
  "record_partial_output output =
     (case validate_required_content ''partial_output'' output MAX_FINAL_OUTPUT_BYTES of
        Inl error \<Rightarrow> State_Monad.return (Inl error)
      | Inr _ \<Rightarrow> do {
          modify (\<lambda>c. c\<lparr>cx_progress := (cx_progress c)\<lparr>pw_partial_output := Some output\<rparr>\<rparr>);
          State_Monad.return (Inr ()) })"

definition update_evidence :: "('f AttemptEvidence \<Rightarrow> 'f AttemptEvidence) \<Rightarrow> ('w, 'f, unit) attempt" where
  "update_evidence f =
     modify (\<lambda>c. c\<lparr>cx_progress := (cx_progress c)\<lparr>pw_evidence := f (pw_evidence (cx_progress c))\<rparr>\<rparr>)"

definition try_evidence ::
    "('f AttemptEvidence \<Rightarrow> ContractError + 'f AttemptEvidence) \<Rightarrow> ('w, 'f, ContractError + unit) attempt" where
  "try_evidence f = do {
     pushed \<leftarrow> reads (\<lambda>c. f (pw_evidence (cx_progress c)));
     case pushed of
       Inl error \<Rightarrow> State_Monad.return (Inl error)
     | Inr evidence \<Rightarrow> do { update_evidence (\<lambda>_. evidence); State_Monad.return (Inr ()) } }"

definition record_session :: "SessionHandle \<Rightarrow> ('w, 'f, unit) attempt" where
  "record_session session = update_evidence (with_session session)"

definition record_cost :: "'f CostInfo \<Rightarrow> ('w, 'f, unit) attempt" where
  "record_cost cost = update_evidence (with_cost cost)"

definition record_tool_observation :: "ToolObservation \<Rightarrow> ('w, 'f, ContractError + unit) attempt" where
  "record_tool_observation observation = try_evidence (push_tool_observation observation)"

definition record_artifact_receipt :: "ArtifactReceipt \<Rightarrow> ('w, 'f, ContractError + unit) attempt" where
  "record_artifact_receipt receipt = try_evidence (push_artifact_receipt receipt)"

subsection \<open>Opening and closing\<close>

definition bind_event_stream :: "ExecutionRequest \<Rightarrow> ('w, 'f, unit) attempt" where
  "bind_event_stream r = modify (\<lambda>c. c\<lparr>cx_event_spawn := Some (rq_worker_spawned r)\<rparr>)"

definition identity_matches :: "ExecutionRequest \<Rightarrow> ('w, 'f) Context \<Rightarrow> bool" where
  "identity_matches r c \<longleftrightarrow>
     is_live (cx_worker_identity c) \<and> wi_mission_id (cx_worker_identity c) = rq_mission r \<and>
     wi_phase_id (cx_worker_identity c) = rq_phase r"

definition begin_dispatch :: "32 word \<Rightarrow> ('w, 'f, bool) attempt" where
  "begin_dispatch attempt = do {
     dispatched \<leftarrow> reads cx_dispatched;
     if dispatched then State_Monad.return False
     else do {
       modify (\<lambda>c. c\<lparr>cx_dispatched := True, cx_attempt := Some attempt\<rparr>);
       State_Monad.return True } }"

definition elapsed_since_start :: "('w, 'd, 'i) Services \<Rightarrow> ('w, 'f, nat) attempt" where
  "elapsed_since_start sv = do {
     now \<leftarrow> call (sv_now sv);
     reads (\<lambda>c. now - cx_started_at c) }"

definition preflight_outcome :: "('w, 'd, 'i) Services \<Rightarrow> ('w, 'f, 'f AttemptOutcome option) attempt" where
  "preflight_outcome sv = do {
     observed \<leftarrow> current_attempt_termination sv;
     case observed of
       None \<Rightarrow> State_Monad.return None
     | Some termination_kind \<Rightarrow> do {
         progress \<leftarrow> reads cx_progress;
         elapsed \<leftarrow> elapsed_since_start sv;
         State_Monad.return (Some (outcome_incomplete termination_kind None progress elapsed)) } }"

definition panic_outcome :: "('w, 'd, 'i) Services \<Rightarrow> ('w, 'f, 'f AttemptOutcome) attempt" where
  "panic_outcome sv = do {
     progress \<leftarrow> reads cx_progress;
     elapsed \<leftarrow> elapsed_since_start sv;
     State_Monad.return (provider_panic progress elapsed) }"

definition finish_without_provider ::
    "('w, 'd, 'i) Services \<Rightarrow> 'f AttemptOutcome \<Rightarrow> ('w, 'f, 'f AttemptOutcome) attempt" where
  "finish_without_provider sv out = do {
     finalize_attempt_state sv;
     out \<leftarrow> apply_authoritative_failures out;
     emit_terminal sv out;
     apply_authoritative_failures out }"

fun verifier_termination :: "EvidenceVerifierErrorKind \<Rightarrow> MechanicalTermination" where
  "verifier_termination EvidenceMissing = ContractViolation"
| "verifier_termination Mismatch = ContractViolation"
| "verifier_termination InvalidExpectation = ContractViolation"
| "verifier_termination EvidenceDenied = SupervisorFailure"
| "verifier_termination EvidenceUnavailable = SupervisorFailure"

definition verification_request ::
    "ExecutionRequest \<Rightarrow> ArtifactReceipt list \<Rightarrow> EvidenceVerificationRequest" where
  "verification_request r claimed =
     \<lparr>vr_mission_id = rq_mission r, vr_phase_id = rq_phase r, vr_attempt = rq_attempt r,
      vr_worker_root = rq_worker_dir r, vr_target_root = rq_target_dir r, vr_expected = rq_expected_evidence r,
      vr_claimed_artifacts = claimed\<rparr>"

fun qualify_completion_evidence ::
    "('w, 'd, 'i) Services \<Rightarrow> ExecutionRequest \<Rightarrow> 'f AttemptOutcome \<Rightarrow> ('w, 'f, 'f AttemptOutcome) attempt" where
  "qualify_completion_evidence sv r (IncompleteOutcome i) = State_Monad.return (IncompleteOutcome i)"
| "qualify_completion_evidence sv r (CompletedOutcome c) =
     (if rq_expected_evidence r = [] \<and> ae_artifact_receipts (ca_evidence c) = []
      then State_Monad.return (CompletedOutcome c)
      else case sv_verify sv of
        None \<Rightarrow> State_Monad.return
          (reject_authoritative ContractViolation (Some failure_evidence_authority_missing) (CompletedOutcome c))
      | Some verify \<Rightarrow> do {
          answer \<leftarrow> call (verify (verification_request r (ae_artifact_receipts (ca_evidence c))));
          case answer of
            Inr verified \<Rightarrow> State_Monad.return
              (CompletedOutcome (c\<lparr>ca_evidence := replace_with_verified_artifacts verified (ca_evidence c)\<rparr>))
          | Inl error \<Rightarrow> State_Monad.return
              (reject_authoritative (verifier_termination (ve_kind error))
                 (Some (failure_evidence_verification error)) (CompletedOutcome c)) })"

end
