(* ===== verification/Dispatch.thy ===== *)
theory Dispatch
  imports Exec_Context
begin

text \<open>
  Runtime registry and dispatch (\<^verbatim>\<open>orchestrator-exec/src/registry.rs\<close>). A provider is code outside
  this crate: it is any well-founded tree of calls on the context, of looks at the world and of
  changes to it, which ends with an outcome or unwinds.
\<close>

section \<open>Providers\<close>

datatype ('w, 'f) Provider =
    Returns "'f AttemptOutcome"
  | Unwinds
  | Looks "'w \<Rightarrow> ('w, 'f) Provider"
  | Acts "'w \<Rightarrow> 'w" "('w, 'f) Provider"
  | RunsProcess ProcessRequest "ProcessServiceError + ProcessReceipt \<Rightarrow> ('w, 'f) Provider"
  | RunsEffect EffectRequest "EffectServiceError + EffectReceipt \<Rightarrow> ('w, 'f) Provider"
  | Emits WorkerEventPayload "EventSinkError + EventReceipt \<Rightarrow> ('w, 'f) Provider"
  | RecordsPartialOutput string "ContractError + unit \<Rightarrow> ('w, 'f) Provider"
  | RecordsSession SessionHandle "('w, 'f) Provider"
  | RecordsCost "'f CostInfo" "('w, 'f) Provider"
  | RecordsTool ToolObservation "ContractError + unit \<Rightarrow> ('w, 'f) Provider"
  | RecordsArtifact ArtifactReceipt "ContractError + unit \<Rightarrow> ('w, 'f) Provider"

text \<open>What runs of it under \<open>catch_unwind\<close>: no outcome when it unwinds.\<close>

primrec run_provider ::
    "('w, 'd, 'i) Services \<Rightarrow> ('w, 'f) Provider \<Rightarrow> ('w, 'f, 'f AttemptOutcome option) attempt" where
  "run_provider sv (Returns out) = State_Monad.return (Some out)"
| "run_provider sv Unwinds = State_Monad.return None"
| "run_provider sv (Looks k) = reads cx_world \<bind> (\<lambda>w. run_provider sv (k w))"
| "run_provider sv (Acts f k) = modify (\<lambda>c. c\<lparr>cx_world := f (cx_world c)\<rparr>) \<bind> (\<lambda>_. run_provider sv k)"
| "run_provider sv (RunsProcess r k) = run_process sv r \<bind> (\<lambda>a. run_provider sv (k a))"
| "run_provider sv (RunsEffect r k) = run_effect sv r \<bind> (\<lambda>a. run_provider sv (k a))"
| "run_provider sv (Emits p k) = emit sv p \<bind> (\<lambda>a. run_provider sv (k a))"
| "run_provider sv (RecordsPartialOutput s k) = record_partial_output s \<bind> (\<lambda>a. run_provider sv (k a))"
| "run_provider sv (RecordsSession s k) = record_session s \<bind> (\<lambda>_. run_provider sv k)"
| "run_provider sv (RecordsCost x k) = record_cost x \<bind> (\<lambda>_. run_provider sv k)"
| "run_provider sv (RecordsTool x k) = record_tool_observation x \<bind> (\<lambda>a. run_provider sv (k a))"
| "run_provider sv (RecordsArtifact x k) = record_artifact_receipt x \<bind> (\<lambda>a. run_provider sv (k a))"

record DispatchRequest =
  dr_request :: ExecutionRequest
  dr_requested_runtime :: RuntimeFamily
  dr_effective_runtime :: RuntimeFamily

record ('w, 'f) PhaseExecutor =
  px_execute :: "DispatchRequest \<Rightarrow> ('w, 'f) Provider"
  px_descriptor :: "RuntimeDescriptor option"

section \<open>Dispatch\<close>

datatype ResolutionKind = Direct | Defaulted | Fallback

datatype RuntimeRegistryError =
    InvalidRuntime ContractError
  | MissingDefault
  | DescriptorMismatch

datatype DispatchError =
    EffectiveRuntimeMismatch
  | DispatchSessionRuntimeMismatch
  | WorkerIdentityMismatch
  | ContextAlreadyUsed
  | UnsupportedCapability RuntimeCap

record ('w, 'f) ResolvedExecutor =
  rx_executor :: "('w, 'f) PhaseExecutor"
  rx_descriptor :: "RuntimeDescriptor option"
  rx_requested_runtime :: RuntimeFamily
  rx_effective_runtime :: RuntimeFamily
  rx_resolution :: ResolutionKind

definition fell_back_to_claude :: "('w, 'f) ResolvedExecutor \<Rightarrow> bool" where
  "fell_back_to_claude rx \<longleftrightarrow> rx_resolution rx = Fallback"

definition descriptor_supports :: "RuntimeDescriptor \<Rightarrow> RuntimeCap \<Rightarrow> bool" where
  "descriptor_supports d cap = caps_supports (de_caps d) cap"

text \<open>What an outcome uses, in the order the capabilities are checked.\<close>

definition used_capabilities :: "'f AttemptOutcome \<Rightarrow> bool \<Rightarrow> (bool \<times> RuntimeCap) list" where
  "used_capabilities out observed_streaming =
     [(ae_session (outcome_evidence out) \<noteq> None, SessionResume),
      (ae_cost (outcome_evidence out) \<noteq> None, CostReport),
      (ae_tool_observations (outcome_evidence out) \<noteq> [], CapToolUse),
      (ae_artifact_receipts (outcome_evidence out) \<noteq> [], Artifacts),
      (observed_streaming, Streaming)]"

definition check_capabilities ::
    "RuntimeDescriptor option \<Rightarrow> (bool \<times> RuntimeCap) list \<Rightarrow> 'f AttemptOutcome \<Rightarrow> 'f AttemptOutcome" where
  "check_capabilities descriptor used out =
     (case descriptor of
        None \<Rightarrow> out
      | Some d \<Rightarrow>
          foldl (\<lambda>acc (u, cap). if u \<and> \<not> descriptor_supports d cap then reject_capability cap acc else acc) out used)"

definition check_session :: "RuntimeFamily \<Rightarrow> 'f AttemptOutcome \<Rightarrow> 'f AttemptOutcome" where
  "check_session runtime out =
     (if \<not> returned_session_matches out runtime then reject_provider_session out else out)"

text \<open>What the first guards refuse.\<close>

definition dispatch_refusal ::
    "('w, 'f) ResolvedExecutor \<Rightarrow> ExecutionRequest \<Rightarrow> ('w, 'f) Context \<Rightarrow> DispatchError option" where
  "dispatch_refusal rx r c =
     (if rq_runtime r \<noteq> rx_effective_runtime rx then Some EffectiveRuntimeMismatch
      else if (case rq_resume_from r of
                 Some session \<Rightarrow> \<not> can_resume_into session (rx_effective_runtime rx) | None \<Rightarrow> False)
      then Some DispatchSessionRuntimeMismatch
      else if \<not> identity_matches r c then Some WorkerIdentityMismatch
      else if rq_resume_from r \<noteq> None \<and>
              (case rx_descriptor rx of Some d \<Rightarrow> \<not> descriptor_supports d SessionResume | None \<Rightarrow> False)
      then Some (UnsupportedCapability SessionResume)
      else None)"

text \<open>The stages of \<open>execute\<close> after its guards.\<close>

definition spawn_failed ::
    "('w, 'd, 'i) Services \<Rightarrow> EventSinkError \<Rightarrow> ('w, 'f, 'f AttemptOutcome) attempt" where
  "spawn_failed sv error = do {
     progress \<leftarrow> reads cx_progress;
     let out = outcome_incomplete EventDeliveryFailure None progress 0;
     if es_kind error = Indeterminate
     then do { finalize_attempt_state sv; apply_authoritative_failures out }
     else finish_without_provider sv out }"

definition invoke_provider ::
    "('w, 'd, 'i) Services \<Rightarrow> ('w, 'f) ResolvedExecutor \<Rightarrow> ExecutionRequest \<Rightarrow>
       ('w, 'f, 'f AttemptOutcome) attempt" where
  "invoke_provider sv rx r = do {
     returned \<leftarrow> run_provider sv (px_execute (rx_executor rx)
       \<lparr>dr_request = r, dr_requested_runtime = rx_requested_runtime rx,
        dr_effective_runtime = rx_effective_runtime rx\<rparr>);
     case returned of
       Some out \<Rightarrow> State_Monad.return out
     | None \<Rightarrow> panic_outcome sv }"

definition qualify_outcome ::
    "('w, 'd, 'i) Services \<Rightarrow> ('w, 'f) ResolvedExecutor \<Rightarrow> ExecutionRequest \<Rightarrow> 'f AttemptOutcome \<Rightarrow>
       ('w, 'f, 'f AttemptOutcome) attempt" where
  "qualify_outcome sv rx r out = do {
     let out = demote_provider_artifacts out;
     finalize_attempt_state sv;
     progress \<leftarrow> reads cx_progress;
     let out = reconcile_progress out progress;
     out \<leftarrow> qualify_completion_evidence sv r out;
     observed_streaming \<leftarrow> reads cx_observed_streaming;
     let used = used_capabilities out observed_streaming;
     let out = check_session (rx_effective_runtime rx) out;
     State_Monad.return (check_capabilities (rx_descriptor rx) used out) }"

definition close_attempt ::
    "('w, 'd, 'i) Services \<Rightarrow> 'f AttemptOutcome \<Rightarrow> ('w, 'f, 'f AttemptOutcome) attempt" where
  "close_attempt sv out = do {
     finalize_attempt_state sv;
     out \<leftarrow> apply_authoritative_failures out;
     emit_terminal sv out;
     apply_authoritative_failures out }"

definition run_attempt ::
    "('w, 'd, 'i) Services \<Rightarrow> ('w, 'f) ResolvedExecutor \<Rightarrow> ExecutionRequest \<Rightarrow>
       ('w, 'f, 'f AttemptOutcome) attempt" where
  "run_attempt sv rx r = do {
     started \<leftarrow> ensure_spawned sv;
     case started of
       Inl error \<Rightarrow> spawn_failed sv error
     | Inr _ \<Rightarrow> do {
         preflight \<leftarrow> preflight_outcome sv;
         case preflight of
           Some out \<Rightarrow> finish_without_provider sv out
         | None \<Rightarrow> do {
             out \<leftarrow> invoke_provider sv rx r;
             out \<leftarrow> qualify_outcome sv rx r out;
             close_attempt sv out } } }"

definition execute ::
    "('w, 'd, 'i) Services \<Rightarrow> ('w, 'f) ResolvedExecutor \<Rightarrow> ExecutionRequest \<Rightarrow>
       ('w, 'f, DispatchError + 'f AttemptOutcome) attempt" where
  "execute sv rx r = do {
     refused \<leftarrow> reads (dispatch_refusal rx r);
     case refused of
       Some error \<Rightarrow> State_Monad.return (Inl error)
     | None \<Rightarrow> do {
         begun \<leftarrow> begin_dispatch (rq_attempt r);
         if \<not> begun then State_Monad.return (Inl ContextAlreadyUsed)
         else do {
           bind_event_stream r;
           out \<leftarrow> run_attempt sv rx r;
           State_Monad.return (Inr out) } } }"

section \<open>The registry\<close>

record ('w, 'f) RegisteredExecutor =
  re_executor :: "('w, 'f) PhaseExecutor"
  re_descriptor :: "RuntimeDescriptor option"

type_synonym ('w, 'f) ExecutorRegistry = "RuntimeFamily \<rightharpoonup> ('w, 'f) RegisteredExecutor"

definition ExecutorRegistry_new :: "('w, 'f) ExecutorRegistry" where
  "ExecutorRegistry_new = (\<lambda>_. None)"

definition CLAUDE_RUNTIME :: string where "CLAUDE_RUNTIME = ''claude''"

definition register ::
    "('w, 'f) ExecutorRegistry \<Rightarrow> string \<Rightarrow> ('w, 'f) PhaseExecutor \<Rightarrow>
       RuntimeRegistryError + ('w, 'f) ExecutorRegistry \<times> ('w, 'f) PhaseExecutor option" where
  "register reg runtime executor =
     and_then (map_err InvalidRuntime (RuntimeFamily_parse runtime)) (\<lambda>family.
       if (case px_descriptor executor of Some d \<Rightarrow> de_runtime d \<noteq> family | None \<Rightarrow> False)
       then Inl DescriptorMismatch
       else Inr (reg(family \<mapsto> \<lparr>re_executor = executor, re_descriptor = px_descriptor executor\<rparr>),
                 map_option re_executor (reg family)))"

definition resolve ::
    "('w, 'f) ExecutorRegistry \<Rightarrow> string \<Rightarrow> RuntimeRegistryError + ('w, 'f) ResolvedExecutor" where
  "resolve reg requested_runtime =
     and_then (map_err InvalidRuntime
         (RuntimeFamily_parse (if requested_runtime = [] then CLAUDE_RUNTIME else requested_runtime))) (\<lambda>requested.
     case reg requested of
       Some registered \<Rightarrow>
         Inr \<lparr>rx_executor = re_executor registered, rx_descriptor = re_descriptor registered,
              rx_requested_runtime = requested, rx_effective_runtime = requested,
              rx_resolution = (if requested_runtime = [] then Defaulted else Direct)\<rparr>
     | None \<Rightarrow>
         and_then (map_err InvalidRuntime (RuntimeFamily_parse CLAUDE_RUNTIME)) (\<lambda>effective.
         and_then (ok_or (reg effective) MissingDefault) (\<lambda>registered.
           Inr \<lparr>rx_executor = re_executor registered, rx_descriptor = re_descriptor registered,
                rx_requested_runtime = requested, rx_effective_runtime = effective,
                rx_resolution = Fallback\<rparr>)))"

end
