(* ===== verification/Attempt_Logic.thy ===== *)
theory Attempt_Logic
  imports Dispatch
begin

text \<open>
  Reasoning about attempts. A relation on contexts that is reflexive, transitive and blind to the
  world holds between the two ends of every operation built from the small ones that respect it; the
  locales below prove that once for all operations, and each invariant of the context interprets them.
\<close>

section \<open>Running\<close>

named_theorems runs \<open>running the operations of a context\<close>
named_theorems moving \<open>the operations that stay within a relation\<close>

lemma run_return [runs, simp]: "run_state (State_Monad.return x) c = (x, c)"
  by (simp add: State_Monad.return_def)

lemma run_bind [runs, simp]:
  "run_state (State_Monad.bind m f) c = (case run_state m c of (a, c') \<Rightarrow> run_state (f a) c')"
  by (simp add: State_Monad.bind_def)

lemma run_reads [runs, simp]: "run_state (reads f) c = (f c, c)"
  by (simp add: reads_def)

lemma run_modify [runs, simp]: "run_state (modify f) c = ((), f c)"
  by (simp add: modify_def)

lemma run_call [runs]:
  "run_state (call f) c = (case f (cx_world c) of (a, w) \<Rightarrow> (a, c\<lparr>cx_world := w\<rparr>))"
  by (simp add: call_def)

lemma run_try_bind [runs]:
  "run_state (try_bind m f) c =
     (case run_state m c of (Inl e, c') \<Rightarrow> (Inl e, c') | (Inr a, c') \<Rightarrow> run_state (f a) c')"
  by (simp add: try_bind_def split: prod.splits sum.splits)

section \<open>Relations an operation stays within\<close>

definition moves :: "('c \<Rightarrow> 'c \<Rightarrow> bool) \<Rightarrow> ('c, 'a) State_Monad.state \<Rightarrow> bool" where
  "moves R m \<longleftrightarrow> (\<forall>c. R c (snd (run_state m c)))"

lemma movesD: "moves R m \<Longrightarrow> run_state m c = (a, c') \<Longrightarrow> R c c'"
  unfolding moves_def by (metis snd_conv)

lemma movesI: "(\<And>c a c'. run_state m c = (a, c') \<Longrightarrow> R c c') \<Longrightarrow> moves R m"
  unfolding moves_def by (metis prod.collapse)

locale world_blind =
  fixes R :: "('w, 'f) Context \<Rightarrow> ('w, 'f) Context \<Rightarrow> bool"
  assumes still: "R c c"
    and chain: "R a b \<Longrightarrow> R b c \<Longrightarrow> R a c"
    and world: "R c (c\<lparr>cx_world := w\<rparr>)"
begin

lemma moves_return [moving]: "moves R (State_Monad.return x)"
  by (simp add: moves_def still)

lemma moves_reads [moving]: "moves R (reads f)"
  by (simp add: moves_def still)

lemma moves_call [moving]: "moves R (call f)"
  by (simp add: moves_def run_call world split: prod.split)

lemma moves_bind [moving]:
  assumes "moves R m" "\<And>a. moves R (f a)"
  shows "moves R (State_Monad.bind m f)"
proof (rule movesI)
  fix c a c' assume run: "run_state (State_Monad.bind m f) c = (a, c')"
  then obtain b d where "run_state m c = (b, d)" "run_state (f b) d = (a, c')"
    by (cases "run_state m c") simp
  with assms show "R c c'" by (meson chain movesD)
qed

lemma moves_modify: "(\<And>c. R c (f c)) \<Longrightarrow> moves R (modify f)"
  by (simp add: moves_def)

lemma moves_try_bind [moving]: "moves R m \<Longrightarrow> (\<And>a. moves R (f a)) \<Longrightarrow> moves R (try_bind m f)"
  unfolding try_bind_def by (intro moves_bind) (auto intro: moves_return split: sum.split)

lemma moves_remaining [moving]: "moves R (remaining sv)"
  unfolding remaining_def by (intro moving)

lemma moves_current_attempt_termination [moving]: "moves R (current_attempt_termination sv)"
  unfolding current_attempt_termination_def by (auto intro!: moving)

lemma moves_current_process_preflight_reason [moving]: "moves R (current_process_preflight_reason sv)"
  unfolding current_process_preflight_reason_def by (auto intro!: moving)

lemma moves_elapsed_since_start [moving]: "moves R (elapsed_since_start sv)"
  unfolding elapsed_since_start_def by (intro moving)

lemma moves_preflight_outcome [moving]: "moves R (preflight_outcome sv)"
  unfolding preflight_outcome_def by (auto intro!: moving split: option.split)

lemma moves_panic_outcome [moving]: "moves R (panic_outcome sv)"
  unfolding panic_outcome_def by (intro moving)

lemma moves_qualify [moving]: "moves R (qualify_completion_evidence sv r out)"
  by (cases out) (auto intro!: moving split: option.split sum.split)

end

text \<open>What is remembered as authoritative may change.\<close>

locale failure_blind = world_blind R
  for R :: "('w, 'f) Context \<Rightarrow> ('w, 'f) Context \<Rightarrow> bool" +
  assumes remembers: "R c (remember t failure c)"
begin

lemma moves_remember_authoritative [moving]: "moves R (remember_authoritative t failure)"
  unfolding remember_authoritative_def by (intro moves_modify remembers)

lemma moves_remember_if [moving]: "moves R (remember_if b t failure)"
  unfolding remember_if_def by (auto intro: moving)

lemma moves_remember_current [moving]: "moves R (remember_current_attempt_termination sv)"
  unfolding remember_current_attempt_termination_def by (auto intro!: moving split: option.split)

lemma moves_finalize [moving]: "moves R (finalize_attempt_state sv)"
  unfolding finalize_attempt_state_def by (intro moving)

lemma moves_observe [moving]: "moves R (observe_process_receipt r receipt)"
  unfolding observe_process_receipt_def by (auto intro!: moving split: option.split prod.split)

lemma moves_process_failed [moving]: "moves R (process_failed sv error)"
  unfolding process_failed_def by (intro moving)

lemma moves_run_process [moving]: "moves R (run_process sv r)"
  unfolding run_process_def by (auto intro!: moving split: option.split sum.split)

lemma moves_observe_effect_error [moving]: "moves R (observe_effect_error error)"
  unfolding observe_effect_error_def by (auto intro!: moving split: EffectServiceErrorKind.split)

lemma moves_rejected [moving]: "moves R (rejected detail)"
  unfolding rejected_def reject_event_protocol_def by (intro moving)

end

text \<open>So may the progress recorded so far.\<close>

locale progress_blind = failure_blind R
  for R :: "('w, 'f) Context \<Rightarrow> ('w, 'f) Context \<Rightarrow> bool" +
  assumes progresses: "R c (c\<lparr>cx_progress := p\<rparr>)"
begin

lemma moves_update_evidence [moving]: "moves R (update_evidence f)"
  unfolding update_evidence_def by (intro moves_modify progresses)

lemma moves_try_evidence [moving]: "moves R (try_evidence f)"
  unfolding try_evidence_def by (auto intro!: moving split: sum.split)

lemma moves_accept_effect_receipt [moving]: "moves R (accept_effect_receipt r receipt)"
  unfolding accept_effect_receipt_def
  by (auto intro!: moving moves_modify progresses split: sum.split)

lemma moves_run_effect [moving]: "moves R (run_effect sv r)"
  unfolding run_effect_def by (auto intro!: moving split: option.split sum.split)

lemma moves_record_partial_output [moving]: "moves R (record_partial_output s)"
  unfolding record_partial_output_def by (auto intro!: moving moves_modify progresses split: sum.split)

lemma moves_records [moving]:
  "moves R (record_session session)" "moves R (record_cost cost)"
  "moves R (record_tool_observation observation)" "moves R (record_artifact_receipt receipt)"
  unfolding record_session_def record_cost_def record_tool_observation_def record_artifact_receipt_def
  by (intro moving)+

text \<open>A provider stays within the relation when what it emits does.\<close>

lemma moves_run_provider:
  assumes "\<And>payload. moves R (emit sv payload)"
  shows "moves R (run_provider sv p)"
proof (induction p)
  case (Acts f k)
  then show ?case by (auto intro!: moving moves_modify world)
qed (auto intro!: moving assms)

lemma moves_qualify_outcome:
  "moves R (qualify_outcome sv rx r out)"
  unfolding qualify_outcome_def Let_def by (intro moving)

lemma moves_invoke_provider:
  assumes "\<And>payload. moves R (emit sv payload)"
  shows "moves R (invoke_provider sv rx r)"
  unfolding invoke_provider_def
  by (auto intro!: moving moves_run_provider assms split: option.split)

end

text \<open>
  The events of an attempt: the drafts the sink acknowledged are a path of the lifecycle automaton that
  ends in the lifecycle of the context, they carry its identity and attempt, and the terminal event
  says what \<open>execute\<close> returns.
\<close>

section \<open>The automaton\<close>

fun advance :: "EventLifecycle \<Rightarrow> WorkerEventPayload \<Rightarrow> EventLifecycle option" where
  "advance AwaitingSpawn (Spawned _) = Some Active"
| "advance Active (Output _) = Some Active"
| "advance Active (Completed _) = Some (Terminal KindCompleted)"
| "advance Active (Failed _) = Some (Terminal KindFailed)"
| "advance _ _ = None"

fun replay :: "EventLifecycle \<Rightarrow> WorkerEventPayload list \<Rightarrow> EventLifecycle option" where
  "replay l [] = Some l"
| "replay l (p # ps) = (case advance l p of Some l' \<Rightarrow> replay l' ps | None \<Rightarrow> None)"

lemma replay_append [simp]:
  "replay l (ps @ qs) = (case replay l ps of Some l' \<Rightarrow> replay l' qs | None \<Rightarrow> None)"
  by (induction ps arbitrary: l) (auto split: option.splits)

lemma replay_last [simp]: "(case x of None \<Rightarrow> None | Some l \<Rightarrow> replay l []) = x"
  by (cases x) simp_all

definition acknowledged :: "'a \<times> ('e + 'b) \<Rightarrow> bool" where
  "acknowledged x = (case snd x of Inr _ \<Rightarrow> True | Inl _ \<Rightarrow> False)"

definition committed ::
    "(WorkerEventDraft \<times> (EventSinkError + EventReceipt)) list \<Rightarrow> WorkerEventPayload list" where
  "committed calls = map (\<lambda>x. wd_payload (fst x)) (filter acknowledged calls)"

lemma committed_simps [simp]:
  "committed [] = []"
  "committed (xs @ ys) = committed xs @ committed ys"
  "committed [(d, Inr r)] = [wd_payload d]"
  "committed [(d, Inl e)] = []"
  by (simp_all add: committed_def acknowledged_def)

definition in_step :: "('w, 'f) Context \<Rightarrow> bool" where
  "in_step c \<longleftrightarrow> replay AwaitingSpawn (committed (cx_sink_calls c)) = Some (cx_event_lifecycle c)"

definition calls_stamped :: "WorkerIdentity \<Rightarrow> 32 word option \<Rightarrow> (WorkerEventDraft \<times> 'b) list \<Rightarrow> bool" where
  "calls_stamped identity attempt calls \<longleftrightarrow>
     list_all (\<lambda>(d, answer). wd_identity d = identity \<and> attempt = Some (wd_attempt d)) calls"

lemma calls_stamped_simps [simp]:
  "calls_stamped i n []"
  "calls_stamped i n (xs @ ys) \<longleftrightarrow> calls_stamped i n xs \<and> calls_stamped i n ys"
  "calls_stamped i n [(d, a)] \<longleftrightarrow> wd_identity d = i \<and> n = Some (wd_attempt d)"
  by (simp_all add: calls_stamped_def)

definition stamped :: "('w, 'f) Context \<Rightarrow> bool" where
  "stamped c \<longleftrightarrow> calls_stamped (cx_worker_identity c) (cx_attempt c) (cx_sink_calls c)"

section \<open>Running the event operations\<close>

lemma remember_fields [simp]:
  "cx_world (remember t f c) = cx_world c"
  "cx_hard_deadline (remember t f c) = cx_hard_deadline c"
  "cx_worker_identity (remember t f c) = cx_worker_identity c"
  "cx_event_spawn (remember t f c) = cx_event_spawn c"
  "cx_event_lifecycle (remember t f c) = cx_event_lifecycle c"
  "cx_progress (remember t f c) = cx_progress c"
  "cx_observed_streaming (remember t f c) = cx_observed_streaming c"
  "cx_started_at (remember t f c) = cx_started_at c"
  "cx_dispatched (remember t f c) = cx_dispatched c"
  "cx_attempt (remember t f c) = cx_attempt c"
  "cx_sink_calls (remember t f c) = cx_sink_calls c"
  by (simp_all add: remember_def)

lemma run_remember [runs]: "run_state (remember_authoritative t f) c = ((), remember t f c)"
  by (simp add: remember_authoritative_def)

lemma run_rejected [runs]:
  "run_state (rejected detail) c =
     (Inl \<lparr>es_kind = Rejected, es_detail = detail\<rparr>,
      remember ContractViolation (Some (failure_event_protocol detail)) c)"
  by (simp add: rejected_def reject_event_protocol_def run_remember)

definition draft_of :: "('w, 'f) Context \<Rightarrow> 32 word \<Rightarrow> WorkerEventPayload \<Rightarrow> WorkerEventDraft" where
  "draft_of c attempt payload =
     \<lparr>wd_identity = cx_worker_identity c, wd_attempt = attempt, wd_payload = payload\<rparr>"

lemma draft_of_simps [simp]:
  "wd_payload (draft_of c a p) = p" "wd_identity (draft_of c a p) = cx_worker_identity c"
  "wd_attempt (draft_of c a p) = a"
  by (simp_all add: draft_of_def)

definition called ::
    "WorkerEventDraft \<Rightarrow> (EventSinkError + EventReceipt) \<times> 'w \<Rightarrow> ('w, 'f) Context \<Rightarrow> ('w, 'f) Context" where
  "called draft answer c =
     c\<lparr>cx_world := snd answer, cx_sink_calls := cx_sink_calls c @ [(draft, fst answer)]\<rparr>"

lemma called_fields [simp]:
  "cx_event_lifecycle (called d a c) = cx_event_lifecycle c"
  "cx_sink_calls (called d a c) = cx_sink_calls c @ [(d, fst a)]"
  "cx_worker_identity (called d a c) = cx_worker_identity c"
  "cx_attempt (called d a c) = cx_attempt c"
  "cx_event_spawn (called d a c) = cx_event_spawn c"
  "cx_dispatched (called d a c) = cx_dispatched c"
  "cx_authoritative_failures (called d a c) = cx_authoritative_failures c"
  "cx_authoritative_overflow (called d a c) = cx_authoritative_overflow c"
  "cx_progress (called d a c) = cx_progress c"
  by (simp_all add: called_def)

lemma run_commit [runs]:
  "run_state (commit_event sv payload) c =
     (case cx_attempt c of
        None \<Rightarrow> run_state (rejected ''event stream was used before execution attempt binding'') c
      | Some attempt \<Rightarrow>
          (let draft = draft_of c attempt payload;
               answer = sv_emit sv draft (cx_world c)
           in case fst answer of
                Inr receipt \<Rightarrow> (Inr receipt, called draft answer c)
              | Inl error \<Rightarrow> (Inl error,
                  remember EventDeliveryFailure (Some (failure_event_delivery error)) (called draft answer c))))"
  by (auto simp: commit_event_def sink_call_def run_call run_remember draft_of_def called_def Let_def
      split: option.split prod.split sum.split)

lemma run_ensure_spawned:
  "run_state (ensure_spawned sv) c =
     (case cx_event_lifecycle c of
        AwaitingSpawn \<Rightarrow>
          (case cx_event_spawn c of
             None \<Rightarrow> run_state (rejected ''event stream was used before request binding'') c
           | Some spawned \<Rightarrow>
               (case run_state (commit_event sv (Spawned spawned)) c of
                  (Inl e, c') \<Rightarrow> (Inl e, c')
                | (Inr _, c') \<Rightarrow> (Inr (), c'\<lparr>cx_event_lifecycle := Active\<rparr>)))
      | Active \<Rightarrow> (Inr (), c)
      | Terminal _ \<Rightarrow> run_state (rejected ''event stream already reached terminal'') c)"
  by (auto simp: ensure_spawned_def run_try_bind split: EventLifecycle.split option.split prod.split sum.split)

text \<open>After \<open>ensure_spawned\<close> succeeds the stream is open.\<close>

lemma ensure_spawned_active:
  "run_state (ensure_spawned sv) c = (Inr u, c') \<Longrightarrow> cx_event_lifecycle c' = Active"
  by (auto simp: run_ensure_spawned run_rejected split: EventLifecycle.splits option.splits prod.splits sum.splits)

lemma run_emit_terminal:
  "run_state (emit_terminal sv out) c =
     (case run_state (ensure_spawned sv) c of
        (Inl e, c') \<Rightarrow> (Inl e, c')
      | (Inr _, c') \<Rightarrow>
          (case terminal_payload out of
             Inl _ \<Rightarrow> run_state (rejected ''attempt outcome cannot be represented as a worker event'') c'
           | Inr payload \<Rightarrow>
               (case run_state (commit_event sv payload) c' of
                  (Inl e, c'') \<Rightarrow> (Inl e, c'')
                | (Inr _, c'') \<Rightarrow> (Inr (), c''\<lparr>cx_event_lifecycle := Terminal (payload_kind payload)\<rparr>))))"
  by (auto simp: emit_terminal_def run_try_bind ensure_spawned_active split: prod.split sum.split)

section \<open>The events follow the automaton\<close>

definition keeps_step :: "('w, 'f) Context \<Rightarrow> ('w, 'f) Context \<Rightarrow> bool" where
  "keeps_step c c' \<longleftrightarrow> (in_step c \<longrightarrow> in_step c')"

interpretation step: progress_blind keeps_step
  by unfold_locales (auto simp: keeps_step_def in_step_def)

lemma commit_in_step:
  assumes "run_state (commit_event sv payload) c = (answer, c')" "in_step c"
  shows "(\<exists>e. answer = Inl e) \<and> in_step c' \<and> cx_event_lifecycle c' = cx_event_lifecycle c \<or>
         (\<exists>r. answer = Inr r) \<and> cx_event_lifecycle c' = cx_event_lifecycle c \<and>
           replay AwaitingSpawn (committed (cx_sink_calls c')) = advance (cx_event_lifecycle c) payload"
proof (cases "cx_attempt c")
  case (Some attempt)
  obtain b w where "sv_emit sv (draft_of c attempt payload) (cx_world c) = (b, w)" by force
  then show ?thesis using assms Some by (cases b) (auto simp: run_commit in_step_def)
qed (use assms in \<open>auto simp: run_commit run_rejected in_step_def\<close>)

lemma ensure_spawned_step: "moves keeps_step (ensure_spawned sv)"
proof (rule movesI, unfold keeps_step_def, rule impI)
  fix c a c' assume run: "run_state (ensure_spawned sv) c = (a, c')" and ok: "in_step c"
  show "in_step c'"
  proof (cases "cx_event_lifecycle c = AwaitingSpawn \<and> cx_event_spawn c \<noteq> None")
    case True
    then obtain spawned where l: "cx_event_lifecycle c = AwaitingSpawn" "cx_event_spawn c = Some spawned" by auto
    obtain b d where commit: "run_state (commit_event sv (Spawned spawned)) c = (b, d)" by force
    show ?thesis using commit_in_step [OF commit ok] run l commit
      by (auto simp: run_ensure_spawned in_step_def)
  next
    case False
    then show ?thesis using run ok
      by (auto simp: run_ensure_spawned run_rejected in_step_def split: EventLifecycle.splits)
  qed
qed

lemma emit_step: "moves keeps_step (emit sv payload)"
proof (cases payload)
  case (Output out)
  have "moves keeps_step (do {
      lifecycle \<leftarrow> reads cx_event_lifecycle;
      if lifecycle \<noteq> Active then rejected ''worker.output was emitted after terminal''
      else commit_event sv payload })"
  proof (rule movesI, unfold keeps_step_def, rule impI)
    fix c a c'
    assume run: "run_state (do {
        lifecycle \<leftarrow> reads cx_event_lifecycle;
        if lifecycle \<noteq> Active then rejected ''worker.output was emitted after terminal''
        else commit_event sv payload }) c = (a, c')" and ok: "in_step c"
    show "in_step c'"
    proof (cases "cx_event_lifecycle c = Active")
      case True
      then have "run_state (commit_event sv payload) c = (a, c')" using run by simp
      from commit_in_step [OF this ok] show ?thesis using True Output by (auto simp: in_step_def)
    next
      case False
      then show ?thesis using run ok by (auto simp: run_rejected in_step_def)
    qed
  qed
  note inner = this
  show ?thesis unfolding Output emit_def WorkerEventPayload.case
  proof (rule step.moves_bind, rule step.moves_modify)
    show "moves keeps_step (try_bind (ensure_spawned sv) (\<lambda>_. do {
        lifecycle \<leftarrow> reads cx_event_lifecycle;
        if lifecycle \<noteq> Active then rejected ''worker.output was emitted after terminal''
        else commit_event sv (Output out) }))"
      by (rule step.moves_try_bind, rule ensure_spawned_step, rule inner [unfolded Output])
  qed (simp add: keeps_step_def in_step_def)
qed (auto simp: emit_def intro!: moving)

lemma terminal_payload_kind:
  "terminal_payload out = Inr payload \<Longrightarrow>
     payload_kind payload = (if is_completed out then KindCompleted else KindFailed) \<and>
     advance Active payload = Some (Terminal (payload_kind payload))"
  by (cases out) (auto simp: and_then_def split: sum.splits)

lemma emit_terminal_step: "moves keeps_step (emit_terminal sv out)"
proof (rule movesI, unfold keeps_step_def, rule impI)
  fix c a c' assume run: "run_state (emit_terminal sv out) c = (a, c')" and ok: "in_step c"
  obtain b d where spawn: "run_state (ensure_spawned sv) c = (b, d)" by force
  have d: "in_step d" using movesD [OF ensure_spawned_step spawn] ok by (simp add: keeps_step_def)
  show "in_step c'"
  proof (cases b)
    case (Inr u)
    then have active: "cx_event_lifecycle d = Active" using ensure_spawned_active spawn by auto
    show ?thesis
    proof (cases "terminal_payload out")
      case (Inl e)
      then show ?thesis using run spawn Inr \<open>b = Inr u\<close> d
        by (auto simp: run_emit_terminal run_rejected in_step_def)
    next
      case payload: (Inr payload)
      obtain b' d' where commit: "run_state (commit_event sv payload) d = (b', d')" by force
      show ?thesis
        using commit_in_step [OF commit d] run spawn payload \<open>b = Inr u\<close> commit active
          terminal_payload_kind [OF payload]
        by (auto simp: run_emit_terminal in_step_def)
    qed
  qed (use run spawn d in \<open>auto simp: run_emit_terminal\<close>)
qed

lemma apply_step: "moves keeps_step (apply_authoritative_failures out)"
  by (simp add: moves_def keeps_step_def in_step_def apply_authoritative_failures_def Let_def)

lemma finish_step: "moves keeps_step (finish_without_provider sv out)"
  unfolding finish_without_provider_def by (intro moving apply_step emit_terminal_step)

lemma close_is_finish: "close_attempt sv out = finish_without_provider sv out"
  by (simp add: close_attempt_def finish_without_provider_def)

lemma begin_step: "moves keeps_step (begin_dispatch n)" "moves keeps_step (bind_event_stream r)"
  by (simp_all add: moves_def begin_dispatch_def bind_event_stream_def keeps_step_def in_step_def)

lemma execute_step: "moves keeps_step (execute sv rx r)"
  unfolding execute_def run_attempt_def spawn_failed_def close_is_finish Let_def
  by (auto intro!: moving ensure_spawned_step begin_step finish_step apply_step
      step.moves_invoke_provider step.moves_qualify_outcome emit_step split: option.split sum.split)

end
