(* ===== verification/Dispatch_Correct.thy ===== *)
theory Dispatch_Correct
  imports Attempt_Logic
begin

text \<open>
  What \<open>execute\<close> returns: the terminal event and the outcome agree, a completed attempt saw no failure,
  and authoritative failures win by precedence.
\<close>

section \<open>Applying authoritative failures\<close>

definition outcome_precedence :: "'f AttemptOutcome \<Rightarrow> nat" where
  "outcome_precedence out =
     (case outcome_termination out of None \<Rightarrow> 0 | Some t \<Rightarrow> termination_precedence t)"

lemma outcome_precedence_simps [simp]:
  "outcome_precedence (CompletedOutcome k) = 0"
  "outcome_precedence (IncompleteOutcome i) = termination_precedence (ia_termination i)"
  by (simp_all add: outcome_precedence_def)

lemma termination_precedence_pos: "0 < termination_precedence t"
  by (cases t) simp_all

lemma is_completed_iff: "is_completed out \<longleftrightarrow> outcome_precedence out = 0"
  using termination_precedence_pos by (cases out) (auto simp: less_numeral_extra)

lemma terminate_precedence [simp]:
  "outcome_precedence (terminate_authoritatively out t f b) = max (outcome_precedence out) (termination_precedence t)"
  using termination_precedence_pos [of t] by (cases out) auto

lemma reject_precedence [simp]:
  "outcome_precedence (reject_authoritative t f out) = max (outcome_precedence out) (termination_precedence t)"
  by (simp add: reject_authoritative_def)

lemma apply_failures_simps [simp]:
  "apply_failures [] out = out"
  "apply_failures ((t, f) # fs) out = apply_failures fs (reject_authoritative t f out)"
  by (simp_all add: apply_failures_def)

lemma apply_failures_le: "outcome_precedence out \<le> outcome_precedence (apply_failures fs out)"
proof (induction fs arbitrary: out)
  case (Cons x fs)
  obtain t f where "x = (t, f)" by (cases x)
  with Cons [of "reject_authoritative t f out"] show ?case by simp
qed simp

lemma apply_failures_covers: "(t, f) \<in> set fs \<Longrightarrow> termination_precedence t \<le> outcome_precedence (apply_failures fs out)"
proof (induction fs arbitrary: out)
  case (Cons x fs)
  obtain t' f' where x: "x = (t', f')" by (cases x)
  show ?case
  proof (cases "x = (t, f)")
    case True
    then show ?thesis
      using apply_failures_le [of "reject_authoritative t f out" fs] by simp
  qed (use Cons x in auto)
qed simp

lemma run_apply:
  "run_state (apply_authoritative_failures out) c = (out', c') \<Longrightarrow>
     cx_authoritative_failures c' = [] \<and> cx_authoritative_overflow c' = 0 \<and>
     cx_event_lifecycle c' = cx_event_lifecycle c \<and> cx_sink_calls c' = cx_sink_calls c \<and>
     outcome_precedence out \<le> outcome_precedence out' \<and>
     (\<forall>(t, f) \<in> set (cx_authoritative_failures c). termination_precedence t \<le> outcome_precedence out')"
  using apply_failures_le [of out "cx_authoritative_failures c"]
    apply_failures_covers [of _ _ "cx_authoritative_failures c" out]
  by (auto simp: apply_authoritative_failures_def Let_def intro: le_max_iff_disj [THEN iffD2] split: if_splits)
    (force simp: max_def)+

lemma run_apply_none:
  "cx_authoritative_failures c = [] \<Longrightarrow> cx_authoritative_overflow c = 0 \<Longrightarrow>
     run_state (apply_authoritative_failures out) c = (out, c)"
  by (simp add: apply_authoritative_failures_def)

lemma strong_termination:
  "7 \<le> outcome_precedence out \<Longrightarrow> outcome_termination out \<in> {Some EventDeliveryFailure, Some ContractViolation}"
  by (cases out; simp) (cases "ia_termination (case out of IncompleteOutcome i \<Rightarrow> i)"; auto)

section \<open>Closing the stream\<close>

definition stream_open :: "('w, 'f) Context \<Rightarrow> bool" where
  "stream_open c \<longleftrightarrow> cx_event_lifecycle c = AwaitingSpawn \<or> cx_event_lifecycle c = Active"

definition no_failures :: "('w, 'f) Context \<Rightarrow> bool" where
  "no_failures c \<longleftrightarrow> cx_authoritative_failures c = [] \<and> cx_authoritative_overflow c = 0"

text \<open>One failure of the event stream.\<close>

definition stream_failed :: "('w, 'f) Context \<Rightarrow> bool" where
  "stream_failed c \<longleftrightarrow> (\<exists>t f. cx_authoritative_failures c = [(t, f)] \<and> 7 \<le> termination_precedence t)"

lemma remember_first:
  "no_failures c \<Longrightarrow> cx_authoritative_failures (remember t f c) = [(t, f)]"
  by (simp add: no_failures_def remember_def MAX_AUTHORITATIVE_FAILURES_def)

lemma commit_cases:
  assumes "run_state (commit_event sv payload) c = (answer, c')" "no_failures c"
  shows "(\<exists>r. answer = Inr r) \<and> no_failures c' \<and> cx_event_lifecycle c' = cx_event_lifecycle c \<and>
           committed (cx_sink_calls c') = committed (cx_sink_calls c) @ [payload] \<or>
         (\<exists>e. answer = Inl e) \<and> stream_failed c' \<and> cx_event_lifecycle c' = cx_event_lifecycle c \<and>
           committed (cx_sink_calls c') = committed (cx_sink_calls c)"
proof (cases "cx_attempt c")
  case None
  then show ?thesis using assms by (auto simp: run_commit run_rejected stream_failed_def remember_first)
next
  case (Some attempt)
  obtain b w where sink: "sv_emit sv (draft_of c attempt payload) (cx_world c) = (b, w)" by force
  have "no_failures (called d a c)" for d a using assms(2) by (simp add: no_failures_def)
  with sink show ?thesis using assms Some
    by (cases b) (auto simp: run_commit stream_failed_def remember_first)
qed

lemma ensure_spawned_cases:
  assumes "run_state (ensure_spawned sv) c = (answer, c')" "no_failures c" "stream_open c"
  shows "(\<exists>u. answer = Inr u) \<and> no_failures c' \<and> cx_event_lifecycle c' = Active \<or>
         (\<exists>e. answer = Inl e) \<and> stream_failed c' \<and> stream_open c'"
proof (cases "cx_event_lifecycle c = AwaitingSpawn \<and> cx_event_spawn c \<noteq> None")
  case True
  then obtain spawned where l: "cx_event_lifecycle c = AwaitingSpawn" "cx_event_spawn c = Some spawned" by auto
  obtain b d where commit: "run_state (commit_event sv (Spawned spawned)) c = (b, d)" by force
  show ?thesis using commit_cases [OF commit assms(2)] assms l commit
    by (auto simp: run_ensure_spawned stream_open_def no_failures_def)
next
  case False
  then show ?thesis using assms
    by (auto simp: run_ensure_spawned run_rejected stream_open_def stream_failed_def remember_first)
qed

lemma emit_terminal_cases:
  assumes "run_state (emit_terminal sv out) c = (answer, c')" "no_failures c" "stream_open c"
  shows "(\<exists>payload. terminal_payload out = Inr payload \<and> no_failures c' \<and>
            cx_event_lifecycle c' = Terminal (payload_kind payload) \<and>
            committed (cx_sink_calls c') \<noteq> [] \<and> last (committed (cx_sink_calls c')) = payload) \<or>
         stream_failed c' \<and> stream_open c'"
proof -
  obtain b d where spawn: "run_state (ensure_spawned sv) c = (b, d)" by force
  note cases = ensure_spawned_cases [OF spawn assms(2,3)]
  show ?thesis
  proof (cases b)
    case (Inl e)
    then show ?thesis using cases assms spawn by (auto simp: run_emit_terminal)
  next
    case (Inr u)
    then have active: "no_failures d" "cx_event_lifecycle d = Active" using cases by auto
    show ?thesis
    proof (cases "terminal_payload out")
      case (Inl e)
      then show ?thesis using assms(1) spawn \<open>b = Inr u\<close> active
        by (auto simp: run_emit_terminal run_rejected stream_failed_def stream_open_def remember_first)
    next
      case payload: (Inr payload)
      obtain b' d' where commit: "run_state (commit_event sv payload) d = (b', d')" by force
      show ?thesis using commit_cases [OF commit active(1)] assms(1) spawn \<open>b = Inr u\<close> payload commit active
        by (auto simp: run_emit_terminal stream_open_def no_failures_def)
    qed
  qed
qed

section \<open>The frames of the context\<close>

definition keeps_open :: "('w, 'f) Context \<Rightarrow> ('w, 'f) Context \<Rightarrow> bool" where
  "keeps_open c c' \<longleftrightarrow> (stream_open c \<longrightarrow> stream_open c')"

definition keeps_stamp :: "('w, 'f) Context \<Rightarrow> ('w, 'f) Context \<Rightarrow> bool" where
  "keeps_stamp c c' \<longleftrightarrow>
     cx_worker_identity c' = cx_worker_identity c \<and> cx_attempt c' = cx_attempt c \<and> (stamped c \<longrightarrow> stamped c')"

interpretation opened: progress_blind keeps_open
  by unfold_locales (auto simp: keeps_open_def stream_open_def)

interpretation stamp: progress_blind keeps_stamp
  by unfold_locales (auto simp: keeps_stamp_def stamped_def)

lemma commit_open: "moves keeps_open (commit_event sv payload)"
proof (rule movesI)
  fix c a c' assume run: "run_state (commit_event sv payload) c = (a, c')"
  show "keeps_open c c'"
  proof (cases "cx_attempt c")
    case None
    then show ?thesis using run by (auto simp: run_commit run_rejected keeps_open_def stream_open_def)
  next
    case (Some attempt)
    obtain b w where "sv_emit sv (draft_of c attempt payload) (cx_world c) = (b, w)" by force
    then show ?thesis using run Some by (cases b) (auto simp: run_commit keeps_open_def stream_open_def)
  qed
qed

lemma commit_stamp: "moves keeps_stamp (commit_event sv payload)"
proof (rule movesI)
  fix c a c' assume run: "run_state (commit_event sv payload) c = (a, c')"
  show "keeps_stamp c c'"
  proof (cases "cx_attempt c")
    case None
    then show ?thesis using run by (auto simp: run_commit run_rejected keeps_stamp_def stamped_def)
  next
    case (Some attempt)
    obtain b w where "sv_emit sv (draft_of c attempt payload) (cx_world c) = (b, w)" by force
    then show ?thesis using run Some by (cases b) (auto simp: run_commit keeps_stamp_def stamped_def)
  qed
qed

lemma ensure_spawned_frames:
  "moves keeps_open (ensure_spawned sv)" "moves keeps_stamp (ensure_spawned sv)"
  unfolding ensure_spawned_def
  by (auto intro!: moving commit_open commit_stamp opened.moves_modify stamp.moves_modify
      split: EventLifecycle.split option.split)
     (simp_all add: keeps_open_def stream_open_def keeps_stamp_def stamped_def)

lemma emit_frames: "moves keeps_open (emit sv payload)" "moves keeps_stamp (emit sv payload)"
  unfolding emit_def
  by (cases payload; auto intro!: moving commit_open commit_stamp opened.moves_modify stamp.moves_modify
      ensure_spawned_frames simp: keeps_open_def stream_open_def keeps_stamp_def stamped_def)+

lemma emit_terminal_stamp: "moves keeps_stamp (emit_terminal sv out)"
  unfolding emit_terminal_def
  by (auto intro!: moving commit_stamp stamp.moves_modify ensure_spawned_frames split: sum.split)
     (simp add: keeps_stamp_def stamped_def)

lemma apply_frames: "moves keeps_open (apply_authoritative_failures out)" "moves keeps_stamp (apply_authoritative_failures out)"
  by (simp_all add: moves_def apply_authoritative_failures_def Let_def keeps_open_def stream_open_def
      keeps_stamp_def stamped_def)

lemma finish_stamp: "moves keeps_stamp (finish_without_provider sv out)"
  unfolding finish_without_provider_def by (intro moving apply_frames emit_terminal_stamp)

section \<open>How an attempt ends\<close>

definition ends :: "'f AttemptOutcome \<Rightarrow> ('w, 'f) Context \<Rightarrow> bool" where
  "ends out c \<longleftrightarrow>
     (\<exists>payload. terminal_payload out = Inr payload \<and> cx_event_lifecycle c = Terminal (payload_kind payload) \<and>
        committed (cx_sink_calls c) \<noteq> [] \<and> last (committed (cx_sink_calls c)) = payload) \<or>
     stream_open c \<and> 7 \<le> outcome_precedence out"

lemma finish_ends:
  assumes run: "run_state (finish_without_provider sv out) c = (out', c')" and "stream_open c"
  shows "ends out' c' \<and> outcome_precedence out \<le> outcome_precedence out'"
proof -
  obtain u c1 where fin: "run_state (finalize_attempt_state sv) c = (u, c1)"
    by (cases "run_state (finalize_attempt_state sv) c") simp
  have o1: "stream_open c1"
    using movesD [OF opened.moves_finalize fin] assms(2) by (simp add: keeps_open_def)
  obtain out1 c2 where app: "run_state (apply_authoritative_failures out) c1 = (out1, c2)" by force
  have c2: "no_failures c2" "stream_open c2" "outcome_precedence out \<le> outcome_precedence out1"
    using run_apply [OF app] o1 by (auto simp: no_failures_def stream_open_def)
  obtain b c3 where em: "run_state (emit_terminal sv out1) c2 = (b, c3)" by force
  have rest: "run_state (apply_authoritative_failures out1) c3 = (out', c')"
    using run fin app em by (simp add: finish_without_provider_def)
  note applied = run_apply [OF rest]
  from emit_terminal_cases [OF em c2(1,2)] show ?thesis
  proof
    assume *: "\<exists>payload. terminal_payload out1 = Inr payload \<and> no_failures c3 \<and>
      cx_event_lifecycle c3 = Terminal (payload_kind payload) \<and>
      committed (cx_sink_calls c3) \<noteq> [] \<and> last (committed (cx_sink_calls c3)) = payload"
    then have "no_failures c3" by blast
    then have "out' = out1 \<and> c' = c3" using rest run_apply_none [of c3 out1] by (auto simp: no_failures_def)
    with * c2(3) show ?thesis by (auto simp: ends_def)
  next
    assume "stream_failed c3 \<and> stream_open c3"
    then show ?thesis using applied c2(3) by (auto simp: ends_def stream_failed_def stream_open_def)
  qed
qed

text \<open>What is left of a context that has been bound to an attempt and is open.\<close>

definition bound_to :: "32 word \<Rightarrow> ('w, 'f) Context \<Rightarrow> bool" where
  "bound_to attempt c \<longleftrightarrow> cx_attempt c = Some attempt \<and> stamped c"

lemma stamp_bound: "keeps_stamp c c' \<Longrightarrow> bound_to n c \<Longrightarrow> bound_to n c' \<and> cx_worker_identity c' = cx_worker_identity c"
  by (auto simp: keeps_stamp_def bound_to_def)

text \<open>The context in which \<open>execute\<close> runs an attempt.\<close>

definition admitted :: "ExecutionRequest \<Rightarrow> ('w, 'f) Context \<Rightarrow> ('w, 'f) Context" where
  "admitted r c =
     c\<lparr>cx_dispatched := True, cx_attempt := Some (rq_attempt r), cx_event_spawn := Some (rq_worker_spawned r)\<rparr>"

lemma run_execute:
  "run_state (execute sv rx r) c =
     (case dispatch_refusal rx r c of
        Some error \<Rightarrow> (Inl error, c)
      | None \<Rightarrow>
          if cx_dispatched c then (Inl ContextAlreadyUsed, c)
          else (case run_state (run_attempt sv rx r) (admitted r c) of (out, c') \<Rightarrow> (Inr out, c')))"
  by (auto simp: execute_def begin_dispatch_def bind_event_stream_def admitted_def split: option.split prod.split)

lemma qualify_invoke_open:
  "moves keeps_open (do { out \<leftarrow> invoke_provider sv rx r; qualify_outcome sv rx r out })"
  by (intro opened.moves_bind opened.moves_invoke_provider opened.moves_qualify_outcome emit_frames)

lemma run_attempt_stamp: "moves keeps_stamp (run_attempt sv rx r)"
  unfolding run_attempt_def spawn_failed_def close_is_finish Let_def
  by (auto intro!: moving ensure_spawned_frames finish_stamp apply_frames stamp.moves_invoke_provider
      stamp.moves_qualify_outcome emit_frames split: option.split sum.split)

lemma spawn_failed_ends:
  assumes "run_state (spawn_failed sv error) c = (out, c')" "stream_open c"
  shows "ends out c' \<and> 7 \<le> outcome_precedence out"
proof -
  define start where "start = outcome_incomplete EventDeliveryFailure None (cx_progress c) 0"
  have seven: "7 \<le> outcome_precedence start" by (simp add: start_def outcome_incomplete_def)
  show ?thesis
  proof (cases "es_kind error = Indeterminate")
    case True
    obtain u c1 where fin: "run_state (finalize_attempt_state sv) c = (u, c1)"
      by (cases "run_state (finalize_attempt_state sv) c") simp
    have "stream_open c1" using movesD [OF opened.moves_finalize fin] assms(2) by (simp add: keeps_open_def)
    moreover have app: "run_state (apply_authoritative_failures start) c1 = (out, c')"
      using assms True fin by (simp add: spawn_failed_def start_def)
    ultimately show ?thesis using run_apply [OF app] seven by (auto simp: ends_def stream_open_def)
  next
    case False
    then have "run_state (finish_without_provider sv start) c = (out, c')"
      using assms by (simp add: spawn_failed_def start_def)
    from finish_ends [OF this assms(2)] seven show ?thesis by auto
  qed
qed

lemma run_attempt_ends:
  assumes run: "run_state (run_attempt sv rx r) c = (out, c')" and "stream_open c"
  shows "ends out c'"
proof -
  obtain b c1 where spawn: "run_state (ensure_spawned sv) c = (b, c1)" by force
  have o1: "stream_open c1" using movesD [OF ensure_spawned_frames(1) spawn] assms(2) by (simp add: keeps_open_def)
  show ?thesis
  proof (cases b)
    case (Inl e)
    then show ?thesis using run spawn spawn_failed_ends [OF _ o1] by (auto simp: run_attempt_def)
  next
    case (Inr u)
    obtain pre c2 where pre: "run_state (preflight_outcome sv) c1 = (pre, c2)" by force
    have o2: "stream_open c2" using movesD [OF opened.moves_preflight_outcome pre] o1 by (simp add: keeps_open_def)
    show ?thesis
    proof (cases pre)
      case (Some start)
      then have "run_state (finish_without_provider sv start) c2 = (out, c')"
        using run spawn Inr pre by (simp add: run_attempt_def)
      from finish_ends [OF this o2] show ?thesis by blast
    next
      case None
      obtain q c3 where q: "run_state (do { out \<leftarrow> invoke_provider sv rx r; qualify_outcome sv rx r out }) c2 = (q, c3)"
        by force
      have "stream_open c3" using movesD [OF qualify_invoke_open q] o2 by (simp add: keeps_open_def)
      moreover have "run_state (finish_without_provider sv q) c3 = (out, c')"
        using run spawn Inr pre None q
        by (auto simp: run_attempt_def close_is_finish split: prod.splits)
      ultimately show ?thesis using finish_ends by blast
    qed
  qed
qed

end
