(* ===== verification/Dispatch_Completed.thy ===== *)
theory Dispatch_Completed
  imports Dispatch_Correct
begin

text \<open>
  What a completed attempt has behind it: every answer its provider had from a service was clean, its
  artifacts are the verifier's, and it uses no capability its runtime does not have.
\<close>

section \<open>What a provider was answered\<close>

datatype Observation =
    SawProcess ProcessRequest "ProcessServiceError + ProcessReceipt"
  | SawEffect EffectRequest "EffectServiceError + EffectReceipt"
  | SawEmit WorkerEventPayload "EventSinkError + EventReceipt"

primrec observed ::
    "('w, 'd, 'i) Services \<Rightarrow> ('w, 'f) Provider \<Rightarrow> ('w, 'f) Context \<Rightarrow> Observation list" where
  "observed sv (Returns out) = (\<lambda>c. [])"
| "observed sv Unwinds = (\<lambda>c. [])"
| "observed sv (Looks k) = (\<lambda>c. observed sv (k (cx_world c)) c)"
| "observed sv (Acts f k) = (\<lambda>c. observed sv k (c\<lparr>cx_world := f (cx_world c)\<rparr>))"
| "observed sv (RunsProcess r k) = (\<lambda>c. case run_state (run_process sv r) c of
     (a, c') \<Rightarrow> SawProcess r a # observed sv (k a) c')"
| "observed sv (RunsEffect r k) = (\<lambda>c. case run_state (run_effect sv r) c of
     (a, c') \<Rightarrow> SawEffect r a # observed sv (k a) c')"
| "observed sv (Emits p k) = (\<lambda>c. case run_state (emit sv p) c of
     (a, c') \<Rightarrow> SawEmit p a # observed sv (k a) c')"
| "observed sv (RecordsPartialOutput s k) = (\<lambda>c. case run_state (record_partial_output s) c of
     (a, c') \<Rightarrow> observed sv (k a) c')"
| "observed sv (RecordsSession s k) = (\<lambda>c. observed sv k (snd (run_state (record_session s) c)))"
| "observed sv (RecordsCost x k) = (\<lambda>c. observed sv k (snd (run_state (record_cost x) c)))"
| "observed sv (RecordsTool x k) = (\<lambda>c. case run_state (record_tool_observation x) c of
     (a, c') \<Rightarrow> observed sv (k a) c')"
| "observed sv (RecordsArtifact x k) = (\<lambda>c. case run_state (record_artifact_receipt x) c of
     (a, c') \<Rightarrow> observed sv (k a) c')"

definition clean_receipt :: "ProcessRequest \<Rightarrow> ProcessReceipt \<Rightarrow> bool" where
  "clean_receipt r receipt \<longleftrightarrow>
     (\<exists>status. rc_termination receipt = Exited status \<and> as_code status = Some 0) \<and>
     length (rc_stdout receipt) \<le> pr_max_output_bytes r \<and> length (rc_stderr receipt) \<le> pr_max_output_bytes r \<and>
     (rc_truncated_output_acknowledged receipt \<longrightarrow> pr_truncated_output_acknowledged r) \<and>
     (0 < rc_stdout_discarded receipt \<or> 0 < rc_stderr_discarded receipt \<longrightarrow>
        rc_truncated_output_acknowledged receipt) \<and>
     rc_ownership_released receipt"

fun clean :: "Observation \<Rightarrow> bool" where
  "clean (SawProcess r a) = (case a of Inl _ \<Rightarrow> False | Inr receipt \<Rightarrow> clean_receipt r receipt)"
| "clean (SawEffect r a) =
     (case a of Inl _ \<Rightarrow> False | Inr receipt \<Rightarrow> er_idempotency_key receipt = ef_idempotency_key r)"
| "clean (SawEmit p a) = (case a of Inl _ \<Rightarrow> False | Inr _ \<Rightarrow> payload_kind p = KindOutput)"

section \<open>Failures stay\<close>

definition failing :: "('w, 'f) Context \<Rightarrow> bool" where
  "failing c \<longleftrightarrow> cx_authoritative_failures c \<noteq> []"

definition keeps_failing :: "('w, 'f) Context \<Rightarrow> ('w, 'f) Context \<Rightarrow> bool" where
  "keeps_failing c c' \<longleftrightarrow> (failing c \<longrightarrow> failing c')"

lemma remember_failing [simp]: "failing (remember t f c)"
  by (auto simp: failing_def remember_def MAX_AUTHORITATIVE_FAILURES_def)

lemma failing_fields [simp]:
  "failing (c\<lparr>cx_world := w\<rparr>) = failing c" "failing (c\<lparr>cx_progress := p\<rparr>) = failing c"
  "failing (c\<lparr>cx_sink_calls := s\<rparr>) = failing c" "failing (c\<lparr>cx_event_lifecycle := l\<rparr>) = failing c"
  "failing (c\<lparr>cx_observed_streaming := b\<rparr>) = failing c"
  by (simp_all add: failing_def)

interpretation fails: progress_blind keeps_failing
  by unfold_locales (auto simp: keeps_failing_def)

lemma sink_failing: "moves keeps_failing (sink_call sv draft)"
  unfolding sink_call_def by (auto intro!: moving fails.moves_modify simp: keeps_failing_def)

lemma commit_failing: "moves keeps_failing (commit_event sv payload)"
  unfolding commit_event_def by (auto intro!: moving sink_failing split: option.split sum.split)

lemma ensure_spawned_failing: "moves keeps_failing (ensure_spawned sv)"
  unfolding ensure_spawned_def
  by (auto intro!: moving commit_failing fails.moves_modify simp: keeps_failing_def
      split: EventLifecycle.split option.split)

lemma emit_failing: "moves keeps_failing (emit sv payload)"
  unfolding emit_def
  by (cases payload; auto intro!: moving commit_failing fails.moves_modify ensure_spawned_failing
      simp: keeps_failing_def)

lemma failing_after: "moves keeps_failing m \<Longrightarrow> failing c \<Longrightarrow> run_state m c = (a, c') \<Longrightarrow> failing c'"
  using movesD [of keeps_failing m c a c'] by (simp add: keeps_failing_def)

section \<open>An answer that is not clean fails the attempt\<close>

text \<open>The operation answers \<open>good\<close> or leaves a failure behind.\<close>

definition strict :: "('a \<Rightarrow> bool) \<Rightarrow> ('w, 'f, 'a) attempt \<Rightarrow> bool" where
  "strict good m \<longleftrightarrow> (\<forall>c a c'. run_state m c = (a, c') \<longrightarrow> good a \<or> failing c')"

lemma strictD: "strict good m \<Longrightarrow> run_state m c = (a, c') \<Longrightarrow> \<not> good a \<Longrightarrow> failing c'"
  by (auto simp: strict_def)

lemma strict_mono: "strict (\<lambda>_. False) m \<Longrightarrow> strict good m"
  by (auto simp: strict_def)

lemma strict_return: "good x \<Longrightarrow> strict good (State_Monad.return x)"
  by (simp add: strict_def)

lemma strict_bind: "(\<And>a. strict good (f a)) \<Longrightarrow> strict good (State_Monad.bind m f)"
  unfolding strict_def by (auto split: prod.splits)

lemma strict_then:
  assumes "strict (\<lambda>_. False) m" "\<And>a. moves keeps_failing (f a)"
  shows "strict good (State_Monad.bind m f)"
  unfolding strict_def
proof (intro allI impI)
  fix c a c' assume run: "run_state (State_Monad.bind m f) c = (a, c')"
  then obtain b d where m: "run_state m c = (b, d)" and f: "run_state (f b) d = (a, c')"
    by (cases "run_state m c") simp
  have "failing d" using strictD [OF assms(1) m] by simp
  then show "good a \<or> failing c'" using failing_after [OF assms(2) _ f] by simp
qed

lemma strict_remember: "strict good (remember_authoritative t f)"
  by (auto simp: strict_def run_remember)

lemma strict_remember_if: "b \<Longrightarrow> strict good (remember_if b t f)"
  by (simp add: remember_if_def strict_remember)

lemma clean_receipt_iff:
  "clean_receipt r receipt \<longleftrightarrow>
     receipt_termination (pr_purpose r) (rc_termination receipt) = None \<and>
     \<not> (pr_max_output_bytes r < length (rc_stdout receipt) \<or> pr_max_output_bytes r < length (rc_stderr receipt)) \<and>
     \<not> (rc_truncated_output_acknowledged receipt \<and> \<not> pr_truncated_output_acknowledged r) \<and>
     \<not> ((0 < rc_stdout_discarded receipt \<or> 0 < rc_stderr_discarded receipt) \<and>
        \<not> rc_truncated_output_acknowledged receipt) \<and>
     \<not> (\<not> rc_ownership_released receipt \<and> rc_termination receipt \<noteq> UnresolvedOwnership)"
  by (cases "rc_termination receipt") (auto simp: clean_receipt_def receipt_termination_def not_less)

lemma strict_observe:
  assumes "\<not> clean_receipt r receipt"
  shows "strict good (observe_process_receipt r receipt)"
proof -
  have first: "strict (\<lambda>_. False) (case t of Some (k, f) \<Rightarrow> remember_authoritative k f | None \<Rightarrow> State_Monad.return ())"
    if "t \<noteq> None" for t :: "(MechanicalTermination \<times> Failure option) option"
    using that by (auto simp: strict_remember)
  have rest: "moves keeps_failing (remember_if b t f)" for b t f by (rule moving)
  note hit = strict_then [OF strict_remember_if]
  from assms consider
      (ending) "receipt_termination (pr_purpose r) (rc_termination receipt) \<noteq> None"
    | (bound) "pr_max_output_bytes r < length (rc_stdout receipt) \<or> pr_max_output_bytes r < length (rc_stderr receipt)"
    | (policy) "rc_truncated_output_acknowledged receipt \<and> \<not> pr_truncated_output_acknowledged r"
    | (discarded) "(0 < rc_stdout_discarded receipt \<or> 0 < rc_stderr_discarded receipt) \<and>
        \<not> rc_truncated_output_acknowledged receipt"
    | (ownership) "\<not> rc_ownership_released receipt \<and> rc_termination receipt \<noteq> UnresolvedOwnership"
    using clean_receipt_iff [of r receipt] by (metis (no_types))
  then show ?thesis
  proof cases
    case ending
    show ?thesis unfolding observe_process_receipt_def by (rule strict_then [OF first [OF ending]], intro moving)
  next
    case bound
    show ?thesis unfolding observe_process_receipt_def
      by (rule strict_bind, rule hit [OF bound], intro moving)
  next
    case policy
    show ?thesis unfolding observe_process_receipt_def
      by (rule strict_bind, rule strict_bind, rule hit [OF policy], intro moving)
  next
    case discarded
    show ?thesis unfolding observe_process_receipt_def
      by (rule strict_bind, rule strict_bind, rule strict_bind, rule hit [OF discarded], intro moving)
  next
    case ownership
    show ?thesis unfolding observe_process_receipt_def
      by (rule strict_bind, rule strict_bind, rule strict_bind, rule strict_bind, rule strict_remember_if [OF ownership])
  qed
qed

text \<open>Steps that answer nothing.\<close>

lemmas strict_pass =
  strict_bind [where m = "reads f" for f] strict_bind [where m = "call f" for f]
  strict_bind [where m = "remaining sv" for sv]
  strict_bind [where m = "current_attempt_termination sv" for sv]
  strict_bind [where m = "current_process_preflight_reason sv" for sv]

lemma strict_process_failed: "strict good (process_failed sv e)"
  unfolding process_failed_def by (intro strict_then strict_remember moving)

lemma strict_run_process: "strict (\<lambda>a. clean (SawProcess r a)) (run_process sv r)"
proof -
  have run: "strict (\<lambda>a. clean (SawProcess r a)) (do {
      observe_process_receipt r receipt;
      remember_current_attempt_termination sv;
      State_Monad.return (Inr receipt) })" for receipt
  proof (cases "clean_receipt r receipt")
    case True
    then show ?thesis by (intro strict_bind strict_return) simp
  qed (intro strict_then strict_observe moving)
  show ?thesis unfolding run_process_def
    by (auto intro!: strict_pass strict_process_failed run strict_then [OF strict_remember] moving
        simp del: clean.simps split: option.split sum.split)
qed

lemma strict_rejected: "strict good (rejected detail)"
  by (auto simp: strict_def run_rejected)

lemma strict_run_effect: "strict (\<lambda>a. clean (SawEffect r a)) (run_effect sv r)"
proof -
  have run: "strict (\<lambda>a. clean (SawEffect r a)) (do {
      accept_effect_receipt r receipt;
      remember_current_attempt_termination sv;
      State_Monad.return (Inr receipt) })" for receipt
  proof (cases "er_idempotency_key receipt = ef_idempotency_key r")
    case True
    then show ?thesis by (intro strict_bind strict_return) simp
  next
    case False
    then have "strict (\<lambda>_. False) (accept_effect_receipt r receipt)"
      by (simp add: accept_effect_receipt_def strict_remember)
    then show ?thesis by (intro strict_then moving)
  qed
  have failed: "strict good (observe_effect_error error)" for good :: "unit \<Rightarrow> bool" and error
    unfolding observe_effect_error_def by (auto intro: strict_remember split: EffectServiceErrorKind.split)
  show ?thesis unfolding run_effect_def
    by (auto intro!: strict_pass run strict_then [OF strict_remember] strict_then [OF failed] moving
        simp del: clean.simps split: option.split sum.split)
qed

lemma strict_commit: "payload_kind p = KindOutput \<Longrightarrow> strict (\<lambda>a. clean (SawEmit p a)) (commit_event sv p)"
  unfolding commit_event_def
  by (auto intro!: strict_bind strict_return strict_rejected strict_then [OF strict_remember] moving
      split: option.split sum.split)

lemma strict_try_bind:
  assumes "strict (\<lambda>a. \<exists>x. a = Inr x) m" "\<And>a. strict good (f a)"
  shows "strict good (try_bind m f)"
  unfolding strict_def
proof (intro allI impI)
  fix c a c' assume run: "run_state (try_bind m f) c = (a, c')"
  obtain b d where m: "run_state m c = (b, d)" by (cases "run_state m c")
  show "good a \<or> failing c'"
  proof (cases b)
    case (Inl e)
    then show ?thesis using run m strictD [OF assms(1) m] by (simp add: run_try_bind)
  next
    case (Inr x)
    then have "run_state (f x) d = (a, c')" using run m by (simp add: run_try_bind)
    then show ?thesis using assms(2) unfolding strict_def by blast
  qed
qed

lemma strict_ensure_spawned: "strict (\<lambda>a. \<exists>x. a = Inr x) (ensure_spawned sv)"
proof -
  have commit: "strict (\<lambda>a. \<exists>x. a = Inr x) (commit_event sv p)" for p
    unfolding commit_event_def
    by (auto intro!: strict_bind strict_return strict_rejected strict_then [OF strict_remember] moving
        split: option.split sum.split)
  show ?thesis unfolding ensure_spawned_def
    by (auto intro!: strict_bind strict_return strict_rejected strict_try_bind [OF commit]
        split: EventLifecycle.split option.split)
qed

lemma strict_emit: "strict (\<lambda>a. clean (SawEmit p a)) (emit sv p)"
proof (cases p)
  case (Output out)
  have inner: "strict (\<lambda>a. clean (SawEmit p a)) (do {
      lifecycle \<leftarrow> reads cx_event_lifecycle;
      if lifecycle \<noteq> Active then rejected ''worker.output was emitted after terminal''
      else commit_event sv p })"
    by (rule strict_bind) (auto intro!: strict_rejected strict_commit simp: Output simp del: clean.simps)
  show ?thesis unfolding Output emit_def WorkerEventPayload.case
    by (rule strict_bind, rule strict_try_bind [OF strict_ensure_spawned], rule inner [unfolded Output])
qed (simp_all add: emit_def strict_rejected)

section \<open>A provider without failure saw only clean answers\<close>

lemma observed_clean:
  "run_state (run_provider sv p) c = (out, c') \<Longrightarrow> \<not> failing c' \<Longrightarrow> list_all clean (observed sv p c)"
proof (induction p arbitrary: c)
  case (RunsProcess r k)
  obtain a d where run: "run_state (run_process sv r) c = (a, d)" by (cases "run_state (run_process sv r) c")
  then have rest: "run_state (run_provider sv (k a)) d = (out, c')" using RunsProcess.prems(1) by simp
  then have "\<not> failing d" using failing_after [OF fails.moves_run_provider [OF emit_failing]] RunsProcess.prems(2) by blast
  then have "clean (SawProcess r a)" using strictD [OF strict_run_process run] by blast
  then show ?case using RunsProcess.IH [OF _ rest RunsProcess.prems(2)] run by (simp del: clean.simps)
next
  case (RunsEffect r k)
  obtain a d where run: "run_state (run_effect sv r) c = (a, d)" by (cases "run_state (run_effect sv r) c")
  then have rest: "run_state (run_provider sv (k a)) d = (out, c')" using RunsEffect.prems(1) by simp
  then have "\<not> failing d" using failing_after [OF fails.moves_run_provider [OF emit_failing]] RunsEffect.prems(2) by blast
  then have "clean (SawEffect r a)" using strictD [OF strict_run_effect run] by blast
  then show ?case using RunsEffect.IH [OF _ rest RunsEffect.prems(2)] run by (simp del: clean.simps)
next
  case (Emits p k)
  obtain a d where run: "run_state (emit sv p) c = (a, d)" by (cases "run_state (emit sv p) c")
  then have rest: "run_state (run_provider sv (k a)) d = (out, c')" using Emits.prems(1) by simp
  then have "\<not> failing d" using failing_after [OF fails.moves_run_provider [OF emit_failing]] Emits.prems(2) by blast
  then have "clean (SawEmit p a)" using strictD [OF strict_emit run] by blast
  then show ?case using Emits.IH [OF _ rest Emits.prems(2)] run by (simp del: clean.simps)
qed (auto split: prod.splits)

section \<open>Only an untouched completion stays one\<close>

lemma terminate_incomplete [simp]: "terminate_authoritatively out t f b \<noteq> CompletedOutcome k"
  by (cases out) simp_all

lemma reject_incomplete [simp]:
  "reject_authoritative t f out \<noteq> CompletedOutcome k" "reject_provider_session out \<noteq> CompletedOutcome k"
  "reject_capability cap out \<noteq> CompletedOutcome k"
  by (simp_all add: reject_authoritative_def reject_provider_session_def reject_capability_def)

lemma apply_failures_completed:
  "apply_failures fs out = CompletedOutcome k \<longleftrightarrow> fs = [] \<and> out = CompletedOutcome k"
proof (induction fs arbitrary: out)
  case (Cons x fs)
  obtain t f where "x = (t, f)" by (cases x)
  with Cons [of "reject_authoritative t f out"] show ?case by simp
qed simp

lemma apply_completed:
  "run_state (apply_authoritative_failures out) c = (CompletedOutcome k, c') \<Longrightarrow>
     out = CompletedOutcome k \<and> \<not> failing c"
  by (auto simp: apply_authoritative_failures_def Let_def apply_failures_completed failing_def split: if_splits)

lemma finish_completed:
  assumes "run_state (finish_without_provider sv out) c = (CompletedOutcome k, c')"
  shows "out = CompletedOutcome k \<and> \<not> failing c"
proof -
  obtain u c1 where fin: "run_state (finalize_attempt_state sv) c = (u, c1)"
    by (cases "run_state (finalize_attempt_state sv) c") simp
  obtain out1 c2 where app: "run_state (apply_authoritative_failures out) c1 = (out1, c2)" by force
  obtain b c3 where em: "run_state (emit_terminal sv out1) c2 = (b, c3)" by force
  have "run_state (apply_authoritative_failures out1) c3 = (CompletedOutcome k, c')"
    using assms fin app em by (simp add: finish_without_provider_def)
  then have "out1 = CompletedOutcome k" by (simp add: apply_completed)
  with app have "out = CompletedOutcome k \<and> \<not> failing c1" by (simp add: apply_completed)
  then show ?thesis using failing_after [OF fails.moves_finalize _ fin] by blast
qed

lemma check_capabilities_completed:
  "check_capabilities d used out = CompletedOutcome k \<Longrightarrow>
     out = CompletedOutcome k \<and>
     (\<forall>desc. d = Some desc \<longrightarrow> list_all (\<lambda>(u, cap). u \<longrightarrow> descriptor_supports desc cap) used)"
proof (cases d)
  case (Some desc)
  have "foldl (\<lambda>acc (u, cap). if u \<and> \<not> descriptor_supports desc cap then reject_capability cap acc else acc) out used =
      CompletedOutcome k \<Longrightarrow>
      out = CompletedOutcome k \<and> list_all (\<lambda>(u, cap). u \<longrightarrow> descriptor_supports desc cap) used"
  proof (induction used arbitrary: out)
    case (Cons x used)
    obtain u cap where x: "x = (u, cap)" by (cases x)
    show ?case
    proof (cases "u \<and> \<not> descriptor_supports desc cap")
      case True
      then show ?thesis using Cons.IH [of "reject_capability cap out"] Cons.prems x by simp
    next
      case False
      then show ?thesis using Cons.IH [of out] Cons.prems x by auto
    qed
  qed simp
  moreover assume "check_capabilities d used out = CompletedOutcome k"
  ultimately show ?thesis using Some by (simp add: check_capabilities_def)
qed (simp add: check_capabilities_def)

lemma check_session_completed:
  "check_session runtime out = CompletedOutcome k \<Longrightarrow>
     out = CompletedOutcome k \<and>
     (\<forall>session. ae_session (ca_evidence k) = Some session \<longrightarrow> sh_runtime_family session = runtime)"
  by (auto simp: check_session_def returned_session_matches_def can_resume_into_def split: if_splits option.splits)

text \<open>The artifacts of a completion that has been qualified.\<close>

definition qualified_artifacts ::
    "('w, 'd, 'i) Services \<Rightarrow> ExecutionRequest \<Rightarrow> ArtifactReceipt list \<Rightarrow> bool" where
  "qualified_artifacts sv r artifacts \<longleftrightarrow>
     rq_expected_evidence r = [] \<and> artifacts = [] \<or>
     (\<exists>verify claimed verified w w'. sv_verify sv = Some verify \<and>
        verify (verification_request r claimed) w = (Inr verified, w') \<and>
        artifacts = map mark_authority_verified verified)"

lemma qualify_completed:
  "run_state (qualify_completion_evidence sv r out) c = (CompletedOutcome k, c') \<Longrightarrow>
     is_completed out \<and> qualified_artifacts sv r (ae_artifact_receipts (ca_evidence k))"
proof (cases out)
  case (CompletedOutcome c0)
  assume run: "run_state (qualify_completion_evidence sv r out) c = (CompletedOutcome k, c')"
  show ?thesis
  proof (cases "rq_expected_evidence r = [] \<and> ae_artifact_receipts (ca_evidence c0) = []")
    case True
    then show ?thesis using run CompletedOutcome by (auto simp: qualified_artifacts_def)
  next
    case False
    then obtain verify where v: "sv_verify sv = Some verify"
      using run CompletedOutcome by (auto split: option.splits)
    obtain b w where answer: "verify (verification_request r (ae_artifact_receipts (ca_evidence c0))) (cx_world c) = (b, w)"
      by force
    then obtain verified where "b = Inr verified"
      using run CompletedOutcome False v by (cases b) (auto simp: run_call)
    moreover from this have "ae_artifact_receipts (ca_evidence k) = map mark_authority_verified verified"
      using run CompletedOutcome False v answer by (auto simp: run_call replace_with_verified_artifacts_def)
    ultimately show ?thesis using v answer CompletedOutcome unfolding qualified_artifacts_def by auto
  qed
qed simp

lemma reconcile_completed: "is_completed (reconcile_progress out progress) \<Longrightarrow> is_completed out"
  by (cases out) (auto simp: reconcile_progress_def split: prod.splits if_splits)

lemma demote_completed [simp]: "is_completed (demote_provider_artifacts out) = is_completed out"
  by (cases out) simp_all

end
