(* ===== verification/Dispatch_Properties.thy ===== *)
theory Dispatch_Properties
  imports Dispatch_Completed
begin

text \<open>
  The guarantees of dispatch, put together from the stages of \<open>execute\<close>, and the laws of the registry.
\<close>

section \<open>The stages of a completed attempt\<close>

text \<open>The executor's program and the context it starts in.\<close>

definition provider_of ::
    "('w, 'f) ResolvedExecutor \<Rightarrow> ExecutionRequest \<Rightarrow> ('w, 'f) Provider" where
  "provider_of rx r =
     px_execute (rx_executor rx)
       \<lparr>dr_request = r, dr_requested_runtime = rx_requested_runtime rx,
        dr_effective_runtime = rx_effective_runtime rx\<rparr>"

definition provider_context ::
    "('w, 'd, 'i) Services \<Rightarrow> ExecutionRequest \<Rightarrow> ('w, 'f) Context \<Rightarrow> ('w, 'f) Context" where
  "provider_context sv r c =
     snd (run_state (do { ensure_spawned sv; preflight_outcome sv }) (admitted r c))"

lemma preflight_incomplete:
  "run_state (preflight_outcome sv) c = (Some out, c') \<Longrightarrow> \<not> is_completed out"
  by (auto simp: preflight_outcome_def outcome_incomplete_def split: prod.splits option.splits)

lemma run_attempt_completed:
  assumes "run_state (run_attempt sv rx r) c = (CompletedOutcome k, c')" "stream_open c"
  obtains u c1 c2 out c3 c4 where
    "run_state (ensure_spawned sv) c = (Inr u, c1)" "run_state (preflight_outcome sv) c1 = (None, c2)"
    "run_state (invoke_provider sv rx r) c2 = (out, c3)"
    "run_state (qualify_outcome sv rx r out) c3 = (CompletedOutcome k, c4)"
    "run_state (finish_without_provider sv (CompletedOutcome k)) c4 = (CompletedOutcome k, c')"
    "\<not> failing c4"
proof -
  obtain b c1 where spawn: "run_state (ensure_spawned sv) c = (b, c1)" by force
  have o1: "stream_open c1" using movesD [OF ensure_spawned_frames(1) spawn] assms(2) by (simp add: keeps_open_def)
  show ?thesis
  proof (cases b)
    case (Inl e)
    then have "run_state (spawn_failed sv e) c1 = (CompletedOutcome k, c')"
      using assms(1) spawn by (simp add: run_attempt_def)
    from spawn_failed_ends [OF this o1] show ?thesis by simp
  next
    case (Inr u)
    obtain pre c2 where pre: "run_state (preflight_outcome sv) c1 = (pre, c2)" by force
    show ?thesis
    proof (cases pre)
      case (Some start)
      then have "run_state (finish_without_provider sv start) c2 = (CompletedOutcome k, c')"
        using assms(1) spawn Inr pre by (simp add: run_attempt_def)
      with preflight_incomplete [of sv c1 start c2] pre Some show ?thesis by (auto dest: finish_completed)
    next
      case None
      obtain out c3 where inv: "run_state (invoke_provider sv rx r) c2 = (out, c3)" by force
      obtain q c4 where q: "run_state (qualify_outcome sv rx r out) c3 = (q, c4)" by force
      have fin: "run_state (finish_without_provider sv q) c4 = (CompletedOutcome k, c')"
        using assms(1) spawn Inr pre None inv q by (simp add: run_attempt_def close_is_finish)
      then have "q = CompletedOutcome k \<and> \<not> failing c4" by (rule finish_completed)
      with that spawn Inr pre None inv q fin show ?thesis by blast
    qed
  qed
qed

lemma qualify_outcome_completed:
  assumes "run_state (qualify_outcome sv rx r out) c = (CompletedOutcome k, c')"
  shows "is_completed out \<and> qualified_artifacts sv r (ae_artifact_receipts (ca_evidence k)) \<and>
    (\<forall>session. ae_session (ca_evidence k) = Some session \<longrightarrow> sh_runtime_family session = rx_effective_runtime rx) \<and>
    (\<forall>d. rx_descriptor rx = Some d \<longrightarrow>
       list_all (\<lambda>(u, cap). u \<longrightarrow> descriptor_supports d cap)
         (used_capabilities (CompletedOutcome k) (cx_observed_streaming c')))"
proof -
  obtain u c1 where fin: "run_state (finalize_attempt_state sv) c = (u, c1)"
    by (cases "run_state (finalize_attempt_state sv) c") simp
  define rec where "rec = reconcile_progress (demote_provider_artifacts out) (cx_progress c1)"
  obtain q c2 where q: "run_state (qualify_completion_evidence sv r rec) c1 = (q, c2)" by force
  have fin2: "check_capabilities (rx_descriptor rx) (used_capabilities q (cx_observed_streaming c2))
      (check_session (rx_effective_runtime rx) q) = CompletedOutcome k \<and> c' = c2"
    using assms fin q by (auto simp: qualify_outcome_def Let_def rec_def)
  note caps = check_capabilities_completed [OF conjunct1 [OF fin2]]
  then have session: "check_session (rx_effective_runtime rx) q = CompletedOutcome k" by blast
  note sess = check_session_completed [OF session]
  then have "q = CompletedOutcome k" by blast
  with q have "is_completed rec \<and> qualified_artifacts sv r (ae_artifact_receipts (ca_evidence k))"
    by (auto dest: qualify_completed)
  moreover from this have "is_completed out"
    using reconcile_completed [of "demote_provider_artifacts out" "cx_progress c1"] by (simp add: rec_def)
  ultimately show ?thesis using caps sess fin2 \<open>q = CompletedOutcome k\<close> by simp
qed

lemma invoke_completed:
  assumes "run_state (invoke_provider sv rx r) c = (out, c')" "is_completed out"
  shows "run_state (run_provider sv (provider_of rx r)) c = (Some out, c')"
proof -
  obtain b d where run: "run_state (run_provider sv (provider_of rx r)) c = (b, d)" by force
  show ?thesis
  proof (cases b)
    case None
    then have "run_state (panic_outcome sv) d = (out, c')"
      using assms(1) run by (simp add: invoke_provider_def provider_of_def)
    then show ?thesis using assms(2)
      by (auto simp: panic_outcome_def provider_panic_def split: prod.splits)
  qed (use assms run in \<open>simp add: invoke_provider_def provider_of_def\<close>)
qed

section \<open>Frames of the flags\<close>

definition keeps_streaming :: "('w, 'f) Context \<Rightarrow> ('w, 'f) Context \<Rightarrow> bool" where
  "keeps_streaming c c' \<longleftrightarrow> cx_observed_streaming c' = cx_observed_streaming c"

definition keeps_dispatched :: "('w, 'f) Context \<Rightarrow> ('w, 'f) Context \<Rightarrow> bool" where
  "keeps_dispatched c c' \<longleftrightarrow> cx_dispatched c' = cx_dispatched c"

interpretation streams: progress_blind keeps_streaming
  by unfold_locales (auto simp: keeps_streaming_def)

interpretation dispatched: progress_blind keeps_dispatched
  by unfold_locales (auto simp: keeps_dispatched_def)

lemma sink_flags: "moves keeps_streaming (sink_call sv draft)" "moves keeps_dispatched (sink_call sv draft)"
  unfolding sink_call_def
  by (auto intro!: moving streams.moves_modify dispatched.moves_modify simp: keeps_streaming_def keeps_dispatched_def)

lemma commit_flags: "moves keeps_streaming (commit_event sv p)" "moves keeps_dispatched (commit_event sv p)"
  unfolding commit_event_def by (auto intro!: moving sink_flags split: option.split sum.split)

lemma ensure_spawned_flags: "moves keeps_streaming (ensure_spawned sv)" "moves keeps_dispatched (ensure_spawned sv)"
  unfolding ensure_spawned_def
  by (auto intro!: moving commit_flags streams.moves_modify dispatched.moves_modify
      simp: keeps_streaming_def keeps_dispatched_def split: EventLifecycle.split option.split)

lemma emit_dispatched: "moves keeps_dispatched (emit sv p)"
  unfolding emit_def
  by (cases p; auto intro!: moving commit_flags dispatched.moves_modify ensure_spawned_flags
      simp: keeps_dispatched_def)

lemma emit_terminal_flags: "moves keeps_streaming (emit_terminal sv out)" "moves keeps_dispatched (emit_terminal sv out)"
  unfolding emit_terminal_def
  by (auto intro!: moving commit_flags streams.moves_modify dispatched.moves_modify ensure_spawned_flags
      simp: keeps_streaming_def keeps_dispatched_def split: sum.split)

lemma apply_flags:
  "moves keeps_streaming (apply_authoritative_failures out)" "moves keeps_dispatched (apply_authoritative_failures out)"
  by (simp_all add: moves_def apply_authoritative_failures_def Let_def keeps_streaming_def keeps_dispatched_def)

lemma finish_flags:
  "moves keeps_streaming (finish_without_provider sv out)" "moves keeps_dispatched (finish_without_provider sv out)"
  unfolding finish_without_provider_def by (intro moving apply_flags emit_terminal_flags)+

lemma run_attempt_dispatched: "moves keeps_dispatched (run_attempt sv rx r)"
  unfolding run_attempt_def spawn_failed_def close_is_finish Let_def
  by (auto intro!: moving ensure_spawned_flags finish_flags apply_flags dispatched.moves_invoke_provider
      dispatched.moves_qualify_outcome emit_dispatched split: option.split sum.split)

section \<open>From a new context\<close>

lemma new_context:
  "stream_open (admitted r (ExecutionContext_new sv w identity deadline))"
  "in_step (ExecutionContext_new sv w identity deadline)"
  "bound_to (rq_attempt r) (admitted r (ExecutionContext_new sv w identity deadline))"
  "cx_worker_identity (admitted r (ExecutionContext_new sv w identity deadline)) = identity"
  "cx_worker_identity (ExecutionContext_new sv w identity deadline) = identity"
  by (simp_all add: ExecutionContext_new_def admitted_def stream_open_def in_step_def bound_to_def stamped_def
      split: prod.split)

lemma execute_run:
  "run_state (execute sv rx r) c = (Inr out, c') \<Longrightarrow>
     run_state (run_attempt sv rx r) (admitted r c) = (out, c') \<and> dispatch_refusal rx r c = None \<and> \<not> cx_dispatched c"
  by (auto simp: run_execute split: option.splits if_splits prod.splits)

section \<open>One attempt, run\<close>

text \<open>A process that exits with status 0, one output, a completed outcome; the sink accepts all.\<close>

definition demo_services :: "(nat, string, nat) Services" where
  "demo_services =
     \<lparr>sv_is_cancelled = (\<lambda>w. (False, w)), sv_now = (\<lambda>w. (w, w)), sv_stall_window = (\<lambda>w. (5, w)),
      sv_sha256 = (\<lambda>s. s), sv_service_identity = Some 1, sv_finish_preflight = (\<lambda>r p w. (Inr (), w)),
      sv_process_execute = (\<lambda>r b w. (Inr \<lparr>rc_termination = Exited (ExitCode 0), rc_stdout = ''ok'', rc_stderr = [],
        rc_stdout_discarded = 0, rc_stderr_discarded = 0, rc_truncated_output_acknowledged = False,
        rc_ownership_released = True, rc_elapsed = 0\<rparr>, w)),
      sv_effect_execute = (\<lambda>r b w. (Inr \<lparr>er_operation_id = ''op'', er_idempotency_key = ef_idempotency_key r,
        er_status = Applied, er_output = None\<rparr>, w)),
      sv_emit = (\<lambda>d w. (Inr \<lparr>ev_id = ''evt_1'', ev_timestamp = ''t'', ev_sequence = 1\<rparr>, w)),
      sv_verify = None\<rparr>"

definition demo_process :: ProcessRequest where
  "demo_process =
     \<lparr>pr_purpose = Tool, pr_executable_id = ''sh'', pr_working_root = ''/w'', pr_arguments = [],
      pr_environment = [], pr_stdin = None, pr_max_output_bytes = 8, pr_truncated_output_acknowledged = False\<rparr>"

definition demo_output :: WorkerEventPayload where
  "demo_output = Output \<lparr>wo_chunk = Some ''hi'', wo_event_kind = None, wo_streaming = Some True, wo_tool_name = None,
     wo_is_error = None, wo_output_len = None, wo_duration = None\<rparr>"

definition demo_outcome :: "nat CompletedAttempt" where
  "demo_outcome = \<lparr>ca_final_output = ''hi'', ca_evidence = AttemptEvidence_new, ca_elapsed = 0\<rparr>"

definition demo_executor :: "(nat, nat) ResolvedExecutor" where
  "demo_executor =
     \<lparr>rx_executor = \<lparr>px_execute = (\<lambda>_. RunsProcess demo_process (\<lambda>_. Emits demo_output (\<lambda>_. Returns (CompletedOutcome demo_outcome)))),
        px_descriptor = None\<rparr>,
      rx_descriptor = Some \<lparr>de_runtime = RuntimeFamily ''claude'',
        de_caps = \<lparr>rc_tool_use = False, rc_session_resume = False, rc_streaming = True, rc_cost_report = False,
          rc_artifacts = False\<rparr>\<rparr>,
      rx_requested_runtime = RuntimeFamily ''claude'', rx_effective_runtime = RuntimeFamily ''claude'',
      rx_resolution = Direct\<rparr>"

definition demo_identity :: WorkerIdentity where
  "demo_identity = \<lparr>wi_mission_id = ''m'', wi_phase_id = ''p'', wi_worker_id = ''w''\<rparr>"

definition demo_request :: ExecutionRequest where
  "demo_request =
     \<lparr>rq_mission = ''m'', rq_phase = ''p'', rq_attempt = 1, rq_revision = 1, rq_objective = ''o'', rq_persona = ''x'',
      rq_role = ''r'', rq_domain = ''d'', rq_skills = [], rq_dependencies = [], rq_expected_evidence = [],
      rq_constraints = [], rq_prior_context = [], rq_runtime = RuntimeFamily ''claude'', rq_model = [],
      rq_effort = Low, rq_max_turns = 0, rq_worker_dir = ''/w'', rq_target_dir = None, rq_resume_from = None,
      rq_hook_script = None,
      rq_worker_spawned = \<lparr>sp_model = [], sp_runtime = Some (RuntimeFamily ''claude''), sp_effort_level = Some Low,
        sp_persona = Some ''x'', sp_directory = ''/w''\<rparr>\<rparr>"

abbreviation demo_run :: "(DispatchError + nat AttemptOutcome) \<times> (nat, nat) Context" where
  "demo_run \<equiv> run_state (execute demo_services demo_executor demo_request)
     (ExecutionContext_new demo_services 0 demo_identity 9)"

lemma demo_completes: "demo_run = (Inr (CompletedOutcome demo_outcome), snd demo_run)"
proof -
  have event: "terminal_payload (CompletedOutcome demo_outcome) = Inr (Completed \<lparr>wc_output_len = 2, wc_duration = ''0s''\<rparr>)"
    by code_simp
  have merged: "reconcile_progress (CompletedOutcome demo_outcome) PartialWork_empty = CompletedOutcome demo_outcome"
    by (simp add: reconcile_progress_def demo_outcome_def merge_context_evidence_def PartialWork_empty_def
        AttemptEvidence_new_def)
  have demoted: "demote_provider_artifacts (CompletedOutcome demo_outcome) = CompletedOutcome demo_outcome"
    by (simp add: demo_outcome_def demote_artifacts_def AttemptEvidence_new_def)
  have kept: "run_state (qualify_completion_evidence sv demo_request (CompletedOutcome demo_outcome)) c =
      (CompletedOutcome demo_outcome, c)" for sv :: "(nat, string, nat) Services" and c :: "(nat, nat) Context"
    by (simp add: demo_outcome_def demo_request_def AttemptEvidence_new_def)
  have plain: "outcome_evidence (CompletedOutcome demo_outcome) = AttemptEvidence_new"
    by (simp add: demo_outcome_def)
  have refused: "dispatch_refusal demo_executor demo_request c = None"
    if "cx_worker_identity c = demo_identity" for c :: "(nat, nat) Context"
    using that by (simp add: dispatch_refusal_def demo_executor_def demo_request_def identity_matches_def
        demo_identity_def is_live_def)
  have "demo_run = (case run_state (run_attempt demo_services demo_executor demo_request)
      (admitted demo_request (ExecutionContext_new demo_services 0 demo_identity 9)) of (out, c') \<Rightarrow> (Inr out, c'))"
    by (simp add: run_execute refused new_context(5))
       (simp add: ExecutionContext_new_def split: prod.split)
  moreover have "fst (run_state (run_attempt demo_services demo_executor demo_request)
      (admitted demo_request (ExecutionContext_new demo_services 0 demo_identity 9))) = CompletedOutcome demo_outcome"
    by (simp add: ExecutionContext_new_def admitted_def run_attempt_def run_ensure_spawned
        run_commit run_call run_remember run_try_bind preflight_outcome_def current_attempt_termination_def
        current_process_preflight_reason_def remaining_def invoke_provider_def run_process_def
        observe_process_receipt_def receipt_termination_def remember_if_def
        remember_current_attempt_termination_def finalize_attempt_state_def emit_def called_def
        qualify_outcome_def merged demoted event close_attempt_def apply_authoritative_failures_def
        run_emit_terminal check_session_def check_capabilities_def used_capabilities_def
        returned_session_matches_def descriptor_supports_def requires_streaming_capability_def
        kept plain AttemptEvidence_new_def
        demo_services_def demo_executor_def demo_output_def demo_process_def
        del: terminal_payload.simps demote_provider_artifacts.simps outcome_evidence.simps
          qualify_completion_evidence.simps)
  ultimately show ?thesis by (auto split: prod.splits)
qed

text \<open>
  C26. A dispatched attempt leaves a well-formed event stream that says what it returns. From a new
  context, when \<open>execute\<close> returns an outcome, the events the sink acknowledged are a path of the
  lifecycle automaton from \<open>AwaitingSpawn\<close> to the lifecycle of the context (\<open>worker.spawned\<close>, then
  \<open>worker.output\<close>s, then at most one terminal event); every draft carries the identity of the context
  and the attempt of the request; and either the last acknowledged event is the terminal event made of
  the returned outcome, or the stream was left open and the outcome says so: it ends by a failed
  delivery or a contract violation, and is not completed.
\<close>

theorem attempt_stream_exact:
  assumes "run_state (execute sv rx r) (ExecutionContext_new sv w identity deadline) = (Inr out, c')"
  shows "replay AwaitingSpawn (committed (cx_sink_calls c')) = Some (cx_event_lifecycle c') \<and>
    calls_stamped identity (Some (rq_attempt r)) (cx_sink_calls c') \<and>
    ((\<exists>payload. terminal_payload out = Inr payload \<and>
        cx_event_lifecycle c' = Terminal (payload_kind payload) \<and>
        committed (cx_sink_calls c') \<noteq> [] \<and> last (committed (cx_sink_calls c')) = payload) \<or>
     stream_open c' \<and> outcome_termination out \<in> {Some EventDeliveryFailure, Some ContractViolation})"
proof -
  let ?c = "ExecutionContext_new sv w identity deadline"
  have run: "run_state (run_attempt sv rx r) (admitted r ?c) = (out, c')" using execute_run [OF assms] by blast
  have "in_step c'" using movesD [OF execute_step assms] by (simp add: keeps_step_def new_context(2))
  moreover have "bound_to (rq_attempt r) c' \<and> cx_worker_identity c' = identity"
    using stamp_bound [OF movesD [OF run_attempt_stamp run] new_context(3)] by (simp add: new_context(4))
  moreover have "ends out c'" by (rule run_attempt_ends [OF run new_context(1)])
  ultimately show ?thesis
    using strong_termination [of out] by (auto simp: in_step_def bound_to_def stamped_def ends_def)
qed

lemma attempt_stream_exact_witness:
  "fst demo_run = Inr (CompletedOutcome demo_outcome) \<and>
   replay AwaitingSpawn (committed (cx_sink_calls (snd demo_run))) = Some (cx_event_lifecycle (snd demo_run)) \<and>
   calls_stamped demo_identity (Some 1) (cx_sink_calls (snd demo_run))"
proof -
  have "rq_attempt demo_request = 1" by (simp add: demo_request_def)
  then show ?thesis using attempt_stream_exact [OF demo_completes] by (metis demo_completes fst_conv)
qed

text \<open>
  C27. An attempt completes only when nothing failed while it ran. From a new context, when \<open>execute\<close>
  returns a completed outcome, the provider was run from the context after the spawn event and the
  preflight check, it returned a completed outcome (it did not unwind), and every answer it was given was
  clean: each process exited with status 0 within its output bounds and truncation policy and released
  its ownership, each effect receipt carries the key of its request, and each event it emitted was a
  \<open>worker.output\<close> the sink acknowledged. A provider cannot hide a failure by ignoring an answer.
\<close>

theorem completed_attempt_clean:
  assumes "run_state (execute sv rx r) (ExecutionContext_new sv w identity deadline) = (Inr (CompletedOutcome k), c')"
  shows "list_all clean (observed sv (provider_of rx r)
      (provider_context sv r (ExecutionContext_new sv w identity deadline))) \<and>
    (\<exists>out. fst (run_state (run_provider sv (provider_of rx r))
        (provider_context sv r (ExecutionContext_new sv w identity deadline))) = Some out \<and> is_completed out)"
proof -
  let ?c = "ExecutionContext_new sv w identity deadline"
  have run: "run_state (run_attempt sv rx r) (admitted r ?c) = (CompletedOutcome k, c')" using execute_run [OF assms] by blast
  obtain u c1 c2 out c3 c4 where stages:
      "run_state (ensure_spawned sv) (admitted r ?c) = (Inr u, c1)" "run_state (preflight_outcome sv) c1 = (None, c2)"
      "run_state (invoke_provider sv rx r) c2 = (out, c3)"
      "run_state (qualify_outcome sv rx r out) c3 = (CompletedOutcome k, c4)" "\<not> failing c4"
    by (rule run_attempt_completed [OF run new_context(1)])
  have start: "provider_context sv r ?c = c2" using stages by (simp add: provider_context_def)
  have "is_completed out" using qualify_outcome_completed [OF stages(4)] by blast
  then have provider: "run_state (run_provider sv (provider_of rx r)) c2 = (Some out, c3)"
    by (rule invoke_completed [OF stages(3)])
  moreover have "\<not> failing c3" using failing_after [OF fails.moves_qualify_outcome _ stages(4)] stages(5) by blast
  ultimately have "list_all clean (observed sv (provider_of rx r) c2)" by (rule observed_clean)
  then show ?thesis using start provider \<open>is_completed out\<close> by simp
qed

lemma completed_attempt_clean_witness:
  "list_all clean (observed demo_services (provider_of demo_executor demo_request)
     (provider_context demo_services demo_request (ExecutionContext_new demo_services 0 demo_identity 9)))"
  using completed_attempt_clean [OF demo_completes] by blast

text \<open>
  C28. What a completed outcome carries was checked. When \<open>execute\<close> returns a completed outcome from a new
  context, its artifacts are exactly what the evidence verifier answered, marked as verified (or there
  were none and none were expected); its session, if any, is of the effective runtime; the request was
  for that runtime and for the identity of the context; and, when the runtime has a descriptor, the
  descriptor has every capability the outcome uses: session, cost, tools, artifacts and streaming.
\<close>

theorem completed_evidence_exact:
  assumes "run_state (execute sv rx r) (ExecutionContext_new sv w identity deadline) = (Inr (CompletedOutcome k), c')"
  shows "qualified_artifacts sv r (ae_artifact_receipts (ca_evidence k)) \<and>
    list_all ar_authority_verified (ae_artifact_receipts (ca_evidence k)) \<and>
    (\<forall>session. ae_session (ca_evidence k) = Some session \<longrightarrow> sh_runtime_family session = rx_effective_runtime rx) \<and>
    rq_runtime r = rx_effective_runtime rx \<and> wi_mission_id identity = rq_mission r \<and> wi_phase_id identity = rq_phase r \<and>
    (\<forall>d. rx_descriptor rx = Some d \<longrightarrow>
       list_all (\<lambda>(u, cap). u \<longrightarrow> descriptor_supports d cap)
         (used_capabilities (CompletedOutcome k) (cx_observed_streaming c')))"
proof -
  let ?c = "ExecutionContext_new sv w identity deadline"
  have go: "run_state (run_attempt sv rx r) (admitted r ?c) = (CompletedOutcome k, c')"
      "dispatch_refusal rx r ?c = None"
    using execute_run [OF assms] by blast+
  obtain u c1 c2 out c3 c4 where
      "run_state (qualify_outcome sv rx r out) c3 = (CompletedOutcome k, c4)"
      and fin: "run_state (finish_without_provider sv (CompletedOutcome k)) c4 = (CompletedOutcome k, c')"
    by (rule run_attempt_completed [OF go(1) new_context(1)])
  note checked = qualify_outcome_completed [OF this(1)]
  have "cx_observed_streaming c' = cx_observed_streaming c4"
    using movesD [OF finish_flags(1) fin] by (simp add: keeps_streaming_def)
  moreover have "rq_runtime r = rx_effective_runtime rx \<and> wi_mission_id identity = rq_mission r \<and>
      wi_phase_id identity = rq_phase r"
    using go(2) by (auto simp: dispatch_refusal_def identity_matches_def new_context(5) split: if_splits)
  moreover have "list_all ar_authority_verified (ae_artifact_receipts (ca_evidence k))"
    using checked by (auto simp: qualified_artifacts_def list_all_iff mark_authority_verified_def)
  ultimately show ?thesis using checked by simp
qed

lemma completed_evidence_exact_witness:
  "qualified_artifacts demo_services demo_request (ae_artifact_receipts (ca_evidence demo_outcome)) \<and>
   rq_runtime demo_request = rx_effective_runtime demo_executor"
  using completed_evidence_exact [OF demo_completes] by blast

text \<open>
  C0. A context dispatches once. After \<open>execute\<close> has returned an outcome on a context, any further
  \<open>execute\<close> on it, with whatever executor, request and services, is refused and changes nothing.
\<close>

theorem context_dispatches_once:
  assumes "run_state (execute sv rx r) c = (Inr out, c')"
  shows "\<exists>error. run_state (execute sv' rx' r') c' = (Inl error, c')"
proof -
  have "run_state (run_attempt sv rx r) (admitted r c) = (out, c')" using execute_run [OF assms] by blast
  from movesD [OF run_attempt_dispatched this] have "cx_dispatched c'"
    by (simp add: keeps_dispatched_def admitted_def)
  then show ?thesis by (cases "dispatch_refusal rx' r' c'") (simp_all add: run_execute)
qed

lemma context_dispatches_once_witness:
  "\<exists>error. run_state (execute demo_services demo_executor demo_request) (snd demo_run) = (Inl error, snd demo_run)"
  using context_dispatches_once [OF demo_completes] by blast

text \<open>
  Cancellation and the deadline are checked before the provider. When the spawn event is acknowledged
  and the preflight check of the attempt observes a cancellation or an elapsed deadline, the executor has
  no part in the attempt: any other executor of the same resolution gives the same outcome and context,
  and the outcome is incomplete by at least the termination that was observed.
\<close>

theorem preflight_skips_provider:
  fixes sv :: "('w, 'd, 'i) Services" and rx :: "('w, 'f) ResolvedExecutor" and start :: "'f AttemptOutcome"
  assumes "run_state (ensure_spawned sv) (admitted r (ExecutionContext_new sv w identity deadline)) = (Inr u, c1)"
    and "run_state (preflight_outcome sv) c1 = (Some start, c2)"
  shows "run_state (execute sv (rx\<lparr>rx_executor := executor\<rparr>) r) (ExecutionContext_new sv w identity deadline) =
      run_state (execute sv rx r) (ExecutionContext_new sv w identity deadline) \<and>
    (\<forall>out c'. run_state (execute sv rx r) (ExecutionContext_new sv w identity deadline) = (Inr out, c') \<longrightarrow>
       0 < outcome_precedence start \<and> outcome_precedence start \<le> outcome_precedence out)"
proof -
  let ?c = "ExecutionContext_new sv w identity deadline"
  have same: "run_state (run_attempt sv rx' r) (admitted r ?c) = run_state (finish_without_provider sv start) c2" for rx'
    using assms by (simp add: run_attempt_def)
  have refusal: "dispatch_refusal (rx\<lparr>rx_executor := executor\<rparr>) r c = dispatch_refusal rx r c" for c :: "('w, 'f) Context"
    by (cases "rq_resume_from r"; cases "rx_descriptor rx") (simp_all add: dispatch_refusal_def)
  have "stream_open c1"
    using movesD [OF ensure_spawned_frames(1) assms(1)] by (simp add: keeps_open_def new_context(1))
  then have begun: "stream_open c2"
    using movesD [OF opened.moves_preflight_outcome assms(2)] by (simp add: keeps_open_def)
  have "0 < outcome_precedence start"
    using preflight_incomplete [OF assms(2)] by (simp add: is_completed_iff)
  moreover have "outcome_precedence start \<le> outcome_precedence out"
    if "run_state (execute sv rx r) ?c = (Inr out, c')" for out c'
  proof -
    have "run_state (finish_without_provider sv start) c2 = (out, c')"
      using execute_run [OF that] same by simp
    then show ?thesis using finish_ends [OF _ begun] by blast
  qed
  moreover have "run_state (execute sv (rx\<lparr>rx_executor := executor\<rparr>) r) ?c = run_state (execute sv rx r) ?c"
    by (cases "dispatch_refusal rx r ?c") (simp_all add: run_execute refusal same)
  ultimately show ?thesis by blast
qed

lemma preflight_skips_provider_witness:
  "run_state (execute (demo_services\<lparr>sv_is_cancelled := \<lambda>w. (True, w)\<rparr>)
       (demo_executor\<lparr>rx_executor := \<lparr>px_execute = \<lambda>_. Unwinds, px_descriptor = None\<rparr>\<rparr>) demo_request)
     (ExecutionContext_new (demo_services\<lparr>sv_is_cancelled := \<lambda>w. (True, w)\<rparr>) 0 demo_identity 9) =
   run_state (execute (demo_services\<lparr>sv_is_cancelled := \<lambda>w. (True, w)\<rparr>) demo_executor demo_request)
     (ExecutionContext_new (demo_services\<lparr>sv_is_cancelled := \<lambda>w. (True, w)\<rparr>) 0 demo_identity 9)"
proof -
  let ?sv = "demo_services\<lparr>sv_is_cancelled := \<lambda>w. (True, w)\<rparr>"
  let ?c = "admitted demo_request (ExecutionContext_new ?sv 0 demo_identity 9) :: (nat, nat) Context"
  have "\<exists>c1. run_state (ensure_spawned ?sv) ?c = (Inr (), c1)"
    by (simp add: ExecutionContext_new_def admitted_def run_ensure_spawned run_commit demo_services_def)
  then obtain c1 where spawn: "run_state (ensure_spawned ?sv) ?c = (Inr (), c1)" by blast
  have "\<exists>start c2. run_state (preflight_outcome ?sv) c1 = (Some start, c2)"
    by (simp add: preflight_outcome_def current_attempt_termination_def elapsed_since_start_def run_call demo_services_def)
  then obtain start c2 where "run_state (preflight_outcome ?sv) c1 = (Some start, c2)" by blast
  from preflight_skips_provider [OF spawn this] show ?thesis by blast
qed

section \<open>The registry\<close>

lemma claude_parses: "RuntimeFamily_parse CLAUDE_RUNTIME = Inr (RuntimeFamily ''claude'')"
  by code_simp

lemma parse_family: "RuntimeFamily_parse v = Inr f \<Longrightarrow> v \<noteq> [] \<and> f = RuntimeFamily v"
  by (auto simp: RuntimeFamily_parse_iff runtime_text_def)

text \<open>
  C37. What is registered is what is resolved. When \<open>register\<close> accepts an executor under a name, \<open>resolve\<close> of
  that name gives the executor directly, with the descriptor taken at registration, which names that
  runtime; the executor it replaced is returned, and no other runtime changes. A name that parses and has
  no executor falls back to \<open>claude\<close>, and the empty name defaults to it.
\<close>

theorem registered_runtime_resolves:
  assumes "register reg name executor = Inr (reg', previous)"
  shows "resolve reg' name = Inr \<lparr>rx_executor = executor, rx_descriptor = px_descriptor executor,
      rx_requested_runtime = RuntimeFamily name, rx_effective_runtime = RuntimeFamily name,
      rx_resolution = Direct\<rparr> \<and>
    (\<forall>d. px_descriptor executor = Some d \<longrightarrow> de_runtime d = RuntimeFamily name) \<and>
    previous = map_option re_executor (reg (RuntimeFamily name)) \<and>
    (\<forall>other. other \<noteq> RuntimeFamily name \<longrightarrow> reg' other = reg other) \<and>
    (name = CLAUDE_RUNTIME \<longrightarrow>
       map_option rx_resolution (case resolve reg' [] of Inr rx \<Rightarrow> Some rx | Inl _ \<Rightarrow> None) = Some Defaulted \<and>
       (\<forall>unknown. runtime_text unknown \<and> reg' (RuntimeFamily unknown) = None \<longrightarrow>
          resolve reg' unknown = Inr \<lparr>rx_executor = executor, rx_descriptor = px_descriptor executor,
            rx_requested_runtime = RuntimeFamily unknown, rx_effective_runtime = RuntimeFamily ''claude'',
            rx_resolution = Fallback\<rparr>))"
proof -
  obtain f where f: "RuntimeFamily_parse name = Inr f"
    using assms by (auto simp: register_def and_then_def map_err_def split: sum.splits)
  then have name: "name \<noteq> []" "f = RuntimeFamily name" using parse_family by blast+
  have reg': "reg' = reg(f \<mapsto> \<lparr>re_executor = executor, re_descriptor = px_descriptor executor\<rparr>)"
      "previous = map_option re_executor (reg f)"
      "\<forall>d. px_descriptor executor = Some d \<longrightarrow> de_runtime d = f"
    using assms f by (auto simp: register_def and_then_def map_err_def split: if_splits option.splits)
  have parsed: "runtime_text s \<Longrightarrow> s \<noteq> [] \<and> RuntimeFamily_parse s = Inr (RuntimeFamily s)" for s
    by (auto simp: RuntimeFamily_parse_iff runtime_text_def)
  have "name = CLAUDE_RUNTIME \<Longrightarrow> f = RuntimeFamily ''claude''" using f claude_parses by simp
  then show ?thesis using name f reg' parsed
    by (auto simp: resolve_def and_then_def map_err_def claude_parses ok_or_def split: option.split)
qed

lemma registered_runtime_resolves_witness:
  "\<exists>reg' :: (nat, nat) ExecutorRegistry. \<exists>previous.
     register ExecutorRegistry_new ''codex'' (rx_executor demo_executor) = Inr (reg', previous) \<and>
     map_option rx_resolution (case resolve reg' ''codex'' of Inr rx \<Rightarrow> Some rx | Inl _ \<Rightarrow> None) = Some Direct"
proof -
  have "RuntimeFamily_parse ''codex'' = Inr (RuntimeFamily ''codex'')" by code_simp
  then obtain reg' :: "(nat, nat) ExecutorRegistry" and previous
    where reg: "register ExecutorRegistry_new ''codex'' (rx_executor demo_executor) = Inr (reg', previous)"
    by (simp add: register_def and_then_def map_err_def demo_executor_def)
  with registered_runtime_resolves [OF reg] show ?thesis by auto
qed

end
