(* ===== verification/Log_Reader.thy ===== *)
theory Log_Reader
  imports Go_Events Event_Log
begin

text \<open>
  The read side of the event log (\<^verbatim>\<open>orchestrator-exec/src/event_log.rs\<close>): line readers with the
  delimiter and size rules of Go's scanners, the replay of a log into a snapshot of its mission, and
  the batches of a tail. A reader is the list of what its reads give; past its end a read gives no
  bytes. The bytes of a chunk are at most one buffer; nothing depends on how many they are.
\<close>

section \<open>Readers\<close>

datatype 'e ReadStep = Chunk string | Interrupted | ReadFails 'e

datatype 'e EventLogIoError =
    EventLogIo string 'e
  | InvalidEntry
  | LogNotFound
  | OversizedLine

definition GO_EVENT_SCANNER_MAX_TOKEN_BYTES :: nat where
  "GO_EVENT_SCANNER_MAX_TOKEN_BYTES = GO_EVENT_JSON_CONTENT_MAX_BYTES + 1"
definition GO_DEFAULT_SCANNER_MAX_TOKEN_BYTES :: nat where
  "GO_DEFAULT_SCANNER_MAX_TOKEN_BYTES = 64 * 1024"
definition GO_REPLAY_SCANNER_MAX_TOKEN_BYTES :: nat where
  "GO_REPLAY_SCANNER_MAX_TOKEN_BYTES = 64 * 1024"
definition TAIL_BATCH_TARGET_BYTES :: nat where "TAIL_BATCH_TARGET_BYTES = 256 * 1024"
definition TAIL_BATCH_MAX_RECORDS :: nat where "TAIL_BATCH_MAX_RECORDS = 256"

definition drop_cr :: "string \<Rightarrow> string" where
  "drop_cr s = (if s \<noteq> [] \<and> last s = CHR 0x0D then butlast s else s)"

section \<open>The visiting scanner\<close>

text \<open>A visitor takes the content, the line, whether it was ended, its number and its state.\<close>

type_synonym 's visitor = "string \<Rightarrow> string \<Rightarrow> bool \<Rightarrow> nat \<Rightarrow> 's \<Rightarrow> 's"

fun scan_bytes ::
    "'s visitor \<Rightarrow> nat \<Rightarrow> string \<Rightarrow> nat \<Rightarrow> string \<Rightarrow> 's \<Rightarrow> ('e EventLogIoError + string \<times> nat) \<times> 's" where
  "scan_bytes visit max_bytes raw i [] st = (Inr (raw, i), st)"
| "scan_bytes visit max_bytes raw i (b # bs) st =
     (if b = newline_char then scan_bytes visit max_bytes [] (i + 1) bs (visit (drop_cr raw) raw True i st)
      else if max_bytes \<le> length raw + 1 then (Inl OversizedLine, st)
      else scan_bytes visit max_bytes (raw @ [b]) i bs st)"

definition flush_line :: "'s visitor \<Rightarrow> string \<Rightarrow> nat \<Rightarrow> 's \<Rightarrow> 's" where
  "flush_line visit raw i st = (if raw \<noteq> [] then visit (drop_cr raw) raw False i st else st)"

fun scan_steps ::
    "'s visitor \<Rightarrow> nat \<Rightarrow> string \<Rightarrow> nat \<Rightarrow> 'e ReadStep list \<Rightarrow> 's \<Rightarrow> ('e EventLogIoError + unit) \<times> 's" where
  "scan_steps visit max_bytes raw i [] st = (Inr (), flush_line visit raw i st)"
| "scan_steps visit max_bytes raw i (Interrupted # steps) st = scan_steps visit max_bytes raw i steps st"
| "scan_steps visit max_bytes raw i (ReadFails e # steps) st =
     (Inl (EventLogIo ''read event log'' e), flush_line visit raw i st)"
| "scan_steps visit max_bytes raw i (Chunk bs # steps) st =
     (if bs = [] then (Inr (), flush_line visit raw i st)
      else case scan_bytes visit max_bytes raw i bs st of
             (Inl e, st') \<Rightarrow> (Inl e, st')
           | (Inr (raw', i'), st') \<Rightarrow> scan_steps visit max_bytes raw' i' steps st')"

definition scan_lines_like_go ::
    "'e ReadStep list \<Rightarrow> nat \<Rightarrow> 's visitor \<Rightarrow> 's \<Rightarrow> ('e EventLogIoError + unit) \<times> 's" where
  "scan_lines_like_go reader max_bytes visit st = scan_steps visit max_bytes [] 1 reader st"

section \<open>The snapshot of a mission\<close>

record PhaseSnap =
  pn_id :: string
  pn_name :: string
  pn_status :: string
  pn_started_at :: string
  pn_ended_at :: string

record MissionSnap =
  mn_mission_id :: string
  mn_status :: string
  mn_started_at :: string
  mn_ended_at :: string
  mn_phases :: "string \<rightharpoonup> PhaseSnap"

type_synonym Projection = "string \<rightharpoonup> MissionSnap"

definition data_string :: "'n EventJsonMap option \<Rightarrow> string \<Rightarrow> string" where
  "data_string data key =
     (case data of
        None \<Rightarrow> []
      | Some m \<Rightarrow> (case bt_get m key of Some (String s) \<Rightarrow> s | _ \<Rightarrow> []))"

definition new_mission_snap :: "string \<Rightarrow> string \<Rightarrow> MissionSnap" where
  "new_mission_snap mission_id timestamp =
     \<lparr>mn_mission_id = mission_id, mn_status = ''in_progress'', mn_started_at = timestamp, mn_ended_at = [],
      mn_phases = Map.empty\<rparr>"

definition get_or_create_mission :: "string \<Rightarrow> string \<Rightarrow> Projection \<Rightarrow> MissionSnap" where
  "get_or_create_mission mission_id timestamp p =
     (case p mission_id of Some m \<Rightarrow> m | None \<Rightarrow> new_mission_snap mission_id timestamp)"

definition set_mission_status :: "string \<Rightarrow> string \<Rightarrow> string \<Rightarrow> Projection \<Rightarrow> Projection" where
  "set_mission_status mission_id status timestamp p =
     (case p mission_id of
        Some m \<Rightarrow> p(mission_id \<mapsto> m\<lparr>mn_status := status, mn_ended_at := timestamp\<rparr>)
      | None \<Rightarrow> p)"

definition start_phase_snap :: "string \<Rightarrow> 'n EventRecord \<Rightarrow> Projection \<Rightarrow> Projection" where
  "start_phase_snap mission_id event p =
     (case er_phase_id event of
        None \<Rightarrow> p
      | Some phase_id \<Rightarrow>
          (let m = get_or_create_mission mission_id (er_timestamp event) p;
               phase = \<lparr>pn_id = phase_id, pn_name = data_string (er_data event) ''name'',
                 pn_status = ''running'', pn_started_at = er_timestamp event, pn_ended_at = []\<rparr>
           in p(mission_id \<mapsto> m\<lparr>mn_phases := (mn_phases m)(phase_id \<mapsto> phase)\<rparr>)))"

definition set_phase_status :: "string \<Rightarrow> 'n EventRecord \<Rightarrow> string \<Rightarrow> Projection \<Rightarrow> Projection" where
  "set_phase_status mission_id event status p =
     (case er_phase_id event of
        None \<Rightarrow> p
      | Some phase_id \<Rightarrow>
          (let timestamp = er_timestamp event;
               m = get_or_create_mission mission_id timestamp p;
               phase = (case mn_phases m phase_id of
                   Some phase \<Rightarrow> phase\<lparr>pn_status := status, pn_ended_at := timestamp\<rparr>
                 | None \<Rightarrow> \<lparr>pn_id = phase_id, pn_name = data_string (er_data event) ''name'', pn_status = status,
                     pn_started_at = [], pn_ended_at = timestamp\<rparr>)
           in p(mission_id \<mapsto> m\<lparr>mn_phases := (mn_phases m)(phase_id \<mapsto> phase)\<rparr>)))"

definition start_mission_snap :: "string \<Rightarrow> 'n EventRecord \<Rightarrow> Projection \<Rightarrow> Projection" where
  "start_mission_snap mission_id event p =
     (case p mission_id of
        Some m \<Rightarrow> p(mission_id \<mapsto> m\<lparr>mn_status := ''in_progress''\<rparr>)
      | None \<Rightarrow> p(mission_id \<mapsto> new_mission_snap mission_id (er_timestamp event)))"

definition apply_event :: "'n EventRecord \<Rightarrow> Projection \<Rightarrow> Projection" where
  "apply_event event p =
     (let mission_id = er_mission_id event; kind = er_event_type event in
      if mission_id = [] then p
      else if kind = ''mission.started'' then start_mission_snap mission_id event p
      else if kind = ''mission.completed'' then set_mission_status mission_id ''completed'' (er_timestamp event) p
      else if kind = ''mission.failed'' then set_mission_status mission_id ''failed'' (er_timestamp event) p
      else if kind = ''mission.cancelled'' then set_mission_status mission_id ''cancelled'' (er_timestamp event) p
      else if kind = ''phase.started'' then start_phase_snap mission_id event p
      else if kind = ''phase.completed'' then set_phase_status mission_id event ''completed'' p
      else if kind = ''phase.failed'' then set_phase_status mission_id event ''failed'' p
      else if kind = ''phase.skipped'' then set_phase_status mission_id event ''skipped'' p
      else if kind = ''phase.retrying'' then set_phase_status mission_id event ''retrying'' p
      else p)"

definition project_visitor :: "(string \<Rightarrow> 'n option) \<Rightarrow> Projection visitor" where
  "project_visitor num content raw ended i p =
     (case decode_go_observed_event_record num content of Inr event \<Rightarrow> apply_event event p | Inl _ \<Rightarrow> p)"

definition project_mission_in_reader ::
    "(string \<Rightarrow> 'n option) \<Rightarrow> 'e ReadStep list \<Rightarrow> string \<Rightarrow> 'e EventLogIoError + MissionSnap option" where
  "project_mission_in_reader num reader mission_id =
     (case scan_lines_like_go reader GO_EVENT_SCANNER_MAX_TOKEN_BYTES (project_visitor num) Map.empty of
        (Inl e, _) \<Rightarrow> Inl e
      | (Inr _, p) \<Rightarrow> Inr (p mission_id))"

definition project_mission_in_bytes ::
    "(string \<Rightarrow> 'n option) \<Rightarrow> string \<Rightarrow> string \<Rightarrow> 'e EventLogIoError + MissionSnap option" where
  "project_mission_in_bytes num bytes mission_id = project_mission_in_reader num [Chunk bytes] mission_id"

definition sequence_visitor :: "(string \<Rightarrow> 'n option) \<Rightarrow> int visitor" where
  "sequence_visitor num content raw ended i greatest =
     (case decode_go_observed_event_record num content of
        Inr event \<Rightarrow> max greatest (er_sequence event) | Inl _ \<Rightarrow> greatest)"

definition last_sequence_in_reader ::
    "(string \<Rightarrow> 'n option) \<Rightarrow> 'e ReadStep list \<Rightarrow> 'e EventLogIoError + int" where
  "last_sequence_in_reader num reader =
     (case scan_lines_like_go reader GO_EVENT_SCANNER_MAX_TOKEN_BYTES (sequence_visitor num) 0 of
        (Inl e, _) \<Rightarrow> Inl e
      | (Inr _, greatest) \<Rightarrow> Inr greatest)"

definition last_sequence_in_bytes :: "(string \<Rightarrow> 'n option) \<Rightarrow> string \<Rightarrow> 'e EventLogIoError + int" where
  "last_sequence_in_bytes num bytes = last_sequence_in_reader num [Chunk bytes]"

definition count_visitor :: "nat visitor" where
  "count_visitor content raw ended i count = (if content \<noteq> [] then count + 1 else count)"

definition count_non_empty_lines_like_go_scanner :: "'e ReadStep list \<Rightarrow> nat" where
  "count_non_empty_lines_like_go_scanner reader =
     snd (scan_lines_like_go reader GO_DEFAULT_SCANNER_MAX_TOKEN_BYTES count_visitor 0)"

end
