(* ===== verification/Log_Tail.thy ===== *)
theory Log_Tail
  imports Log_Reader
begin

text \<open>
  Record-at-a-time readers of the event log (\<^verbatim>\<open>orchestrator-exec/src/event_log.rs\<close>): the line reader
  that owns its lines, replay, tail batches, and the listing of the logs of a directory. The file
  system is a parameter.
\<close>

section \<open>The line reader\<close>

record ScannedLine =
  sl_raw :: string
  sl_line_index :: nat

definition scanned_content :: "ScannedLine \<Rightarrow> string" where
  "scanned_content line = line_content (sl_raw line)"

record 'e GoLineReader =
  gl_buffer :: string
  gl_steps :: "'e ReadStep list"
  gl_max_token_bytes :: "nat option"
  gl_raw_line :: string
  gl_next_line_index :: nat
  gl_finished :: bool
  gl_deferred_error :: "'e EventLogIoError option"
  gl_operation :: string

definition GoLineReader_new :: "'e ReadStep list \<Rightarrow> nat option \<Rightarrow> string \<Rightarrow> 'e GoLineReader" where
  "GoLineReader_new reader max_token_bytes operation =
     \<lparr>gl_buffer = [], gl_steps = reader, gl_max_token_bytes = max_token_bytes, gl_raw_line = [],
      gl_next_line_index = 1, gl_finished = False, gl_deferred_error = None, gl_operation = operation\<rparr>"

definition take_line :: "'e GoLineReader \<Rightarrow> ScannedLine \<times> 'e GoLineReader" where
  "take_line r =
     (\<lparr>sl_raw = gl_raw_line r, sl_line_index = gl_next_line_index r\<rparr>,
      r\<lparr>gl_raw_line := [], gl_next_line_index := gl_next_line_index r + 1\<rparr>)"

definition take_some_line ::
    "'e GoLineReader \<Rightarrow> ('e EventLogIoError + ScannedLine option) \<times> 'e GoLineReader" where
  "take_some_line r = (case take_line r of (line, r') \<Rightarrow> (Inr (Some line), r'))"

definition at_end :: "'e GoLineReader \<Rightarrow> ('e EventLogIoError + ScannedLine option) \<times> 'e GoLineReader" where
  "at_end r =
     (let r' = r\<lparr>gl_finished := True\<rparr> in
      if gl_raw_line r' = [] then (Inr None, r') else take_some_line r')"

definition read_failed ::
    "'e \<Rightarrow> 'e GoLineReader \<Rightarrow> ('e EventLogIoError + ScannedLine option) \<times> 'e GoLineReader" where
  "read_failed e r =
     (let r' = r\<lparr>gl_finished := True\<rparr>; error = EventLogIo (gl_operation r) e in
      if gl_raw_line r' = [] then (Inl error, r')
      else take_some_line (r'\<lparr>gl_deferred_error := Some error\<rparr>))"

text \<open>The loop of \<open>next_line\<close>: fill an empty buffer, then take from it up to a line feed.\<close>

function next_line_loop ::
    "'e GoLineReader \<Rightarrow> ('e EventLogIoError + ScannedLine option) \<times> 'e GoLineReader" where
  "next_line_loop r =
     (if gl_buffer r = [] then
        (case gl_steps r of
           [] \<Rightarrow> at_end r
         | Interrupted # steps \<Rightarrow> next_line_loop (r\<lparr>gl_steps := steps\<rparr>)
         | ReadFails e # steps \<Rightarrow> read_failed e (r\<lparr>gl_steps := steps\<rparr>)
         | Chunk bs # steps \<Rightarrow>
             if bs = [] then at_end (r\<lparr>gl_steps := steps\<rparr>)
             else next_line_loop (r\<lparr>gl_buffer := bs, gl_steps := steps\<rparr>))
      else
        (let available = gl_buffer r;
             token = takeWhile (\<lambda>b. b \<noteq> newline_char) available;
             found = length token < length available;
             line = first_line available
         in if (case gl_max_token_bytes r of Some m \<Rightarrow> m \<le> length (gl_raw_line r) + length token | None \<Rightarrow> False)
            then (Inl OversizedLine, r\<lparr>gl_finished := True\<rparr>)
            else
              (let r' = r\<lparr>gl_raw_line := gl_raw_line r @ line, gl_buffer := drop (length line) available\<rparr>
               in if found then take_some_line r' else next_line_loop r')))"
  by pat_completeness auto
termination
  by (relation "measures [\<lambda>r. length (gl_steps r), \<lambda>r. length (gl_buffer r)]")
     (simp_all add: after_first_line_shorter)

declare next_line_loop.simps [simp del]

definition next_line ::
    "'e GoLineReader \<Rightarrow> ('e EventLogIoError + ScannedLine option) \<times> 'e GoLineReader" where
  "next_line r =
     (case gl_deferred_error r of
        Some error \<Rightarrow> (Inl error, r\<lparr>gl_deferred_error := None\<rparr>)
      | None \<Rightarrow> if gl_finished r then (Inr None, r) else next_line_loop r)"

definition take_deferred_error :: "'e GoLineReader \<Rightarrow> 'e EventLogIoError option \<times> 'e GoLineReader" where
  "take_deferred_error r = (gl_deferred_error r, r\<lparr>gl_deferred_error := None\<rparr>)"

text \<open>The bytes a reader still has; every line takes some of them.\<close>

fun step_bytes :: "'e ReadStep \<Rightarrow> nat" where
  "step_bytes (Chunk bs) = length bs"
| "step_bytes _ = 0"

definition bytes_left :: "'e GoLineReader \<Rightarrow> nat" where
  "bytes_left r = length (gl_raw_line r) + length (gl_buffer r) + sum_list (map step_bytes (gl_steps r))"

lemma take_some_line_bytes:
  "take_some_line r = (Inr (Some line), r') \<Longrightarrow> gl_raw_line r \<noteq> [] \<Longrightarrow> bytes_left r' < bytes_left r"
  by (auto simp: take_some_line_def take_line_def bytes_left_def)

lemma first_line_neq: "s \<noteq> [] \<Longrightarrow> first_line s \<noteq> []"
  using first_line_length [of s] by auto

lemma next_line_loop_bytes:
  "next_line_loop r = (Inr (Some line), r') \<Longrightarrow> bytes_left r' < bytes_left r"
proof (induction r rule: next_line_loop.induct)
  case (1 r)
  show ?case
  proof (cases "gl_buffer r = []")
    case True
    show ?thesis
    proof (cases "gl_steps r")
      case Nil
      then show ?thesis using 1(4) True take_some_line_bytes [of "r\<lparr>gl_finished := True\<rparr>" line r']
        by (auto simp: next_line_loop.simps [of r] at_end_def Let_def bytes_left_def split: if_splits)
    next
      case (Cons step steps)
      show ?thesis
      proof (cases step)
        case (Chunk bs)
        show ?thesis
        proof (cases "bs = []")
          case True
          let ?r = "r\<lparr>gl_steps := steps, gl_finished := True\<rparr>"
          have "take_some_line ?r = (Inr (Some line), r')" "gl_raw_line ?r \<noteq> []"
            using 1(4) \<open>gl_buffer r = []\<close> Cons Chunk True
            by (auto simp: next_line_loop.simps [of r] at_end_def Let_def split: if_splits)
          from take_some_line_bytes [OF this] show ?thesis
            using \<open>gl_buffer r = []\<close> Cons Chunk True by (simp add: bytes_left_def)
        next
          case False
          then have "next_line_loop (r\<lparr>gl_buffer := bs, gl_steps := steps\<rparr>) = (Inr (Some line), r')"
            using 1(4) \<open>gl_buffer r = []\<close> Cons Chunk by (simp add: next_line_loop.simps [of r])
          then have "bytes_left r' < bytes_left (r\<lparr>gl_buffer := bs, gl_steps := steps\<rparr>)"
            using "1.IH"(1) [OF \<open>gl_buffer r = []\<close> Cons Chunk False] by simp
          then show ?thesis using \<open>gl_buffer r = []\<close> Cons Chunk by (simp add: bytes_left_def)
        qed
      next
        case Interrupted
        then have "next_line_loop (r\<lparr>gl_steps := steps\<rparr>) = (Inr (Some line), r')"
          using 1(4) True Cons by (simp add: next_line_loop.simps [of r])
        then have "bytes_left r' < bytes_left (r\<lparr>gl_steps := steps\<rparr>)"
          using "1.IH"(2) [OF True Cons Interrupted] by simp
        then show ?thesis using Cons Interrupted by (simp add: bytes_left_def)
      next
        case (ReadFails e)
        let ?r = "r\<lparr>gl_steps := steps, gl_finished := True,
          gl_deferred_error := Some (EventLogIo (gl_operation r) e)\<rparr>"
        have "take_some_line ?r = (Inr (Some line), r')" "gl_raw_line ?r \<noteq> []"
          using 1(4) True Cons ReadFails
          by (auto simp: next_line_loop.simps [of r] read_failed_def Let_def split: if_splits)
        from take_some_line_bytes [OF this] show ?thesis
          using True Cons ReadFails by (simp add: bytes_left_def)
      qed
    qed
  next
    case False
    let ?line = "first_line (gl_buffer r)"
    let ?r = "r\<lparr>gl_raw_line := gl_raw_line r @ ?line, gl_buffer := drop (length ?line) (gl_buffer r)\<rparr>"
    have same: "bytes_left ?r = bytes_left r"
      using arg_cong [where f = length, OF first_line_prefix [of "gl_buffer r"]]
      by (simp add: bytes_left_def)
    from False 1(4) consider "take_some_line ?r = (Inr (Some line), r')"
      | "next_line_loop ?r = (Inr (Some line), r')"
        "\<not> (case gl_max_token_bytes r of Some m \<Rightarrow> m \<le> length (gl_raw_line r) +
            length (takeWhile (\<lambda>b. b \<noteq> newline_char) (gl_buffer r)) | None \<Rightarrow> False)"
        "\<not> length (takeWhile (\<lambda>b. b \<noteq> newline_char) (gl_buffer r)) < length (gl_buffer r)"
      by (auto simp: next_line_loop.simps [of r] Let_def split: if_splits)
    then show ?thesis
    proof cases
      case 1
      from take_some_line_bytes [OF this] show ?thesis using first_line_neq [OF False] same by simp
    next
      case 2
      then have "bytes_left r' < bytes_left ?r"
        using "1.IH"(3) [OF False refl refl refl refl] by simp
      then show ?thesis using same by simp
    qed
  qed
qed

lemma next_line_bytes: "next_line r = (Inr (Some line), r') \<Longrightarrow> bytes_left r' < bytes_left r"
  by (auto simp: next_line_def dest: next_line_loop_bytes split: option.splits if_splits)

section \<open>Records\<close>

definition decoded_event :: "'n EventRecord \<Rightarrow> string \<Rightarrow> 'n DecodedEvent" where
  "decoded_event r raw_line =
     \<lparr>de_record = r, de_is_stable_type = (er_event_type r \<in> set STABLE_EVENT_TYPES), de_raw_line = raw_line\<rparr>"

definition corrupt_line :: "nat \<Rightarrow> EventError \<Rightarrow> EventScanDiagnostic" where
  "corrupt_line line_index error = \<lparr>diag_line_index = line_index, diag_kind = Corrupt error\<rparr>"

datatype 'n ReplayRecord =
    ReplayEvent "'n DecodedEvent"
  | ReplayCorrupt EventScanDiagnostic string

definition replay_record :: "(string \<Rightarrow> 'n option) \<Rightarrow> ScannedLine \<Rightarrow> 'n ReplayRecord" where
  "replay_record num line =
     (case decode_go_observed_event_record num (scanned_content line) of
        Inr r \<Rightarrow> ReplayEvent (decoded_event r (sl_raw line))
      | Inl error \<Rightarrow> ReplayCorrupt (corrupt_line (sl_line_index line) error) (sl_raw line))"

datatype 'n TailRecord =
    TailEvent "'n DecodedEvent" nat nat
  | TailCorrupt EventScanDiagnostic string nat nat

fun tail_start_offset :: "'n TailRecord \<Rightarrow> nat" where
  "tail_start_offset (TailEvent _ start_offset _) = start_offset"
| "tail_start_offset (TailCorrupt _ _ start_offset _) = start_offset"

fun tail_next_offset :: "'n TailRecord \<Rightarrow> nat" where
  "tail_next_offset (TailEvent _ _ next_offset) = next_offset"
| "tail_next_offset (TailCorrupt _ _ _ next_offset) = next_offset"

definition tail_record :: "(string \<Rightarrow> 'n option) \<Rightarrow> ScannedLine \<Rightarrow> nat \<Rightarrow> nat \<Rightarrow> 'n TailRecord" where
  "tail_record num line start_offset next_offset =
     (case decode_go_observed_event_record num (scanned_content line) of
        Inr r \<Rightarrow> TailEvent (decoded_event r (sl_raw line)) start_offset next_offset
      | Inl error \<Rightarrow>
          TailCorrupt (corrupt_line (sl_line_index line) error) (sl_raw line) start_offset next_offset)"

section \<open>Tails\<close>

text \<open>Offsets are \<open>u64\<close> and saturate.\<close>

definition U64_LIMIT :: nat where "U64_LIMIT = 18446744073709551615"

definition saturating_add :: "nat \<Rightarrow> nat \<Rightarrow> nat" where
  "saturating_add a b = min (a + b) U64_LIMIT"

record ('n, 'e) TailRead =
  tr_records :: "'n TailRecord list"
  tr_next_offset :: nat
  tr_deferred_error :: "'e EventLogIoError option"

text \<open>The loop of \<open>read_tail_batch\<close>, with its locals; each turn adds one record or leaves.\<close>

function tail_loop ::
    "(string \<Rightarrow> 'n option) \<Rightarrow> nat \<Rightarrow> 'e GoLineReader \<Rightarrow> 'n TailRecord list \<Rightarrow> nat \<Rightarrow>
       'e EventLogIoError + 'n TailRecord list \<times> nat \<times> 'e EventLogIoError option" where
  "tail_loop num base_offset r records consumed =
     (if TAIL_BATCH_MAX_RECORDS \<le> length records then Inr (records, consumed, None)
      else case next_line r of
        (Inr None, r') \<Rightarrow> Inr (records, consumed, None)
      | (Inl error, r') \<Rightarrow> if records = [] then Inl error else Inr (records, consumed, Some error)
      | (Inr (Some line), r') \<Rightarrow>
          (let consumed' = saturating_add consumed (length (sl_raw line));
               records' = records @ [tail_record num line (saturating_add base_offset consumed)
                                       (saturating_add base_offset consumed')]
           in case take_deferred_error r' of
                (Some error, r'') \<Rightarrow> Inr (records', consumed', Some error)
              | (None, r'') \<Rightarrow>
                  if TAIL_BATCH_TARGET_BYTES \<le> consumed' then Inr (records', consumed', None)
                  else tail_loop num base_offset r'' records' consumed'))"
  by pat_completeness auto
termination
  by (relation "measure (\<lambda>(_, _, _, records, _). TAIL_BATCH_MAX_RECORDS - length records)") auto

declare tail_loop.simps [simp del]

definition read_tail_batch ::
    "(string \<Rightarrow> 'n option) \<Rightarrow> 'e ReadStep list \<Rightarrow> nat \<Rightarrow> 'e EventLogIoError + ('n, 'e) TailRead" where
  "read_tail_batch num reader base_offset =
     and_then (tail_loop num base_offset (GoLineReader_new reader None ''read event log for tail'') [] 0)
       (\<lambda>(records, consumed, deferred).
         Inr \<lparr>tr_records = records, tr_next_offset = saturating_add base_offset consumed,
              tr_deferred_error = deferred\<rparr>)"

text \<open>\<open>seek\<close> gives the reader from an offset on.\<close>

definition tail_reader ::
    "(string \<Rightarrow> 'n option) \<Rightarrow> (nat \<Rightarrow> 'e + 'e ReadStep list) \<Rightarrow> nat \<Rightarrow> 'e EventLogIoError + ('n, 'e) TailRead" where
  "tail_reader num seek offset =
     and_then (map_err (EventLogIo ''seek event log for tail'') (seek offset)) (\<lambda>reader.
       read_tail_batch num reader offset)"

text \<open>The loop of \<open>tail_chunk\<close> over the rest of the bytes, from a start and a line number.\<close>

function tail_chunk_loop :: "(string \<Rightarrow> 'n option) \<Rightarrow> nat \<Rightarrow> nat \<Rightarrow> nat \<Rightarrow> string \<Rightarrow> 'n TailRecord list" where
  "tail_chunk_loop num base_offset start line_index s =
     (if s = [] then []
      else let raw = first_line s; fin = start + length raw in
        tail_record num \<lparr>sl_raw = raw, sl_line_index = line_index\<rparr> (saturating_add base_offset start)
          (saturating_add base_offset fin) #
        tail_chunk_loop num base_offset fin (line_index + 1) (drop (length raw) s))"
  by pat_completeness auto
termination
  by (relation "measure (\<lambda>(_, _, _, _, s). length s)") (simp_all add: after_first_line_shorter)

declare tail_chunk_loop.simps [simp del]

definition tail_chunk :: "(string \<Rightarrow> 'n option) \<Rightarrow> string \<Rightarrow> nat \<Rightarrow> ('n, 'e) TailRead" where
  "tail_chunk num new_bytes base_offset =
     \<lparr>tr_records = tail_chunk_loop num base_offset 0 1 new_bytes,
      tr_next_offset = saturating_add base_offset (length new_bytes), tr_deferred_error = None\<rparr>"

text \<open>The items of the consuming iterator of a batch.\<close>

definition tail_items :: "('n, 'e) TailRead \<Rightarrow> ('e EventLogIoError + 'n TailRecord) list" where
  "tail_items read =
     map Inr (tr_records read) @ (case tr_deferred_error read of Some error \<Rightarrow> [Inl error] | None \<Rightarrow> [])"

section \<open>Replay\<close>

text \<open>The next item of a replay: empty lines are passed over.\<close>

function replay_next ::
    "(string \<Rightarrow> 'n option) \<Rightarrow> 'e GoLineReader \<Rightarrow>
       ('e EventLogIoError + 'n ReplayRecord) option \<times> 'e GoLineReader" where
  "replay_next num r =
     (case next_line r of
        (Inr None, r') \<Rightarrow> (None, r')
      | (Inl error, r') \<Rightarrow> (Some (Inl error), r')
      | (Inr (Some line), r') \<Rightarrow>
          if scanned_content line = [] then replay_next num r'
          else (Some (Inr (replay_record num line)), r'))"
  by pat_completeness auto
termination
  by (relation "measure (\<lambda>(_, r). bytes_left r)") (auto dest: next_line_bytes [OF sym])

declare replay_next.simps [simp del]

definition replay_reader :: "'e ReadStep list \<Rightarrow> 'e GoLineReader" where
  "replay_reader reader =
     GoLineReader_new reader (Some GO_REPLAY_SCANNER_MAX_TOKEN_BYTES) ''read event log for replay''"

lemma replay_next_bytes: "replay_next num r = (Some (Inr x), r') \<Longrightarrow> bytes_left r' < bytes_left r"
proof (induction num r rule: replay_next.induct)
  case (1 num r)
  obtain a r1 where step: "next_line r = (a, r1)" by force
  show ?case
  proof (cases a)
    case (Inl e)
    then show ?thesis using 1(2) step by (simp add: replay_next.simps [of num r])
  next
    case (Inr m)
    show ?thesis
    proof (cases m)
      case None
      then show ?thesis using 1(2) step Inr by (simp add: replay_next.simps [of num r])
    next
      case (Some line)
      then have less: "bytes_left r1 < bytes_left r" using next_line_bytes [of r line r1] step Inr by simp
      show ?thesis
      proof (cases "scanned_content line = []")
        case True
        then have "replay_next num r1 = (Some (Inr x), r')"
          using 1(2) step Inr Some by (simp add: replay_next.simps [of num r])
        then have "bytes_left r' < bytes_left r1" using 1(1) step Inr Some True by simp
        then show ?thesis using less by simp
      next
        case False
        then show ?thesis using 1(2) step Inr Some less by (simp add: replay_next.simps [of num r])
      qed
    qed
  qed
qed

text \<open>The collecting wrapper stops at the first error.\<close>

function replay_collect ::
    "(string \<Rightarrow> 'n option) \<Rightarrow> 'e GoLineReader \<Rightarrow> 'n DecodedEvent list \<Rightarrow> EventScanDiagnostic list \<Rightarrow>
       'e EventLogIoError + 'n DecodedEvent list \<times> EventScanDiagnostic list" where
  "replay_collect num r events diagnostics =
     (case replay_next num r of
        (None, r') \<Rightarrow> Inr (events, diagnostics)
      | (Some (Inl error), r') \<Rightarrow> Inl error
      | (Some (Inr (ReplayEvent event)), r') \<Rightarrow> replay_collect num r' (events @ [event]) diagnostics
      | (Some (Inr (ReplayCorrupt diagnostic raw)), r') \<Rightarrow>
          replay_collect num r' events (diagnostics @ [diagnostic]))"
  by pat_completeness auto
termination
  by (relation "measure (\<lambda>(_, r, _, _). bytes_left r)") (auto dest: replay_next_bytes [OF sym])

declare replay_collect.simps [simp del]

text \<open>
  The event logs below a directory (\<^verbatim>\<open>orchestrator-exec/src/event_log.rs\<close>): opening the events
  directory and a log without following links, the readers over a log, and the listing of all logs.
  What the file system answers is a value of the records below; \<^verbatim>\<open>absent\<close> tells the errors of a
  missing entry.
\<close>

section \<open>Directories and files\<close>

record FileMetadata =
  fm_is_file :: bool
  fm_len :: nat

record 'e LogFile =
  lf_metadata :: "'e + FileMetadata"
  lf_read :: "'e ReadStep list"
  lf_seek :: "nat \<Rightarrow> 'e + 'e ReadStep list"

record 'e DirEntry =
  en_file_name :: "string option"
  en_is_file :: "'e + bool"

record 'e EventsDir =
  ed_is_dir :: "'e + bool"
  ed_entries :: "'e + ('e + 'e DirEntry) list"
  ed_open_file :: "string \<Rightarrow> 'e + 'e LogFile"

text \<open>A root is what opening its events directory gives.\<close>

type_synonym 'e LogRoot = "'e + 'e EventsDir"

definition open_events_directory ::
    "('e \<Rightarrow> bool) \<Rightarrow> 'e LogRoot \<Rightarrow> 'e EventLogIoError + 'e EventsDir option" where
  "open_events_directory absent root =
     (case root of
        Inr directory \<Rightarrow>
          and_then (map_err (EventLogIo ''inspect events directory'') (ed_is_dir directory)) (\<lambda>is_dir.
            if \<not> is_dir then Inl InvalidEntry else Inr (Some directory))
      | Inl error \<Rightarrow> if absent error then Inr None else Inl (EventLogIo ''open events directory'' error))"

definition log_file_name :: "string \<Rightarrow> string" where
  "log_file_name mission_id = mission_id @ ''.jsonl''"

definition open_log_file ::
    "('e \<Rightarrow> bool) \<Rightarrow> 'e EventsDir \<Rightarrow> string \<Rightarrow> 'e EventLogIoError + 'e LogFile option" where
  "open_log_file absent directory mission_id =
     (case ed_open_file directory (log_file_name mission_id) of
        Inr file \<Rightarrow>
          and_then (map_err (EventLogIo ''inspect event log'') (lf_metadata file)) (\<lambda>metadata.
            if \<not> fm_is_file metadata then Inl InvalidEntry else Inr (Some file))
      | Inl error \<Rightarrow> if absent error then Inr None else Inl (EventLogIo ''open event log'' error))"

section \<open>Readers over a log\<close>

definition last_sequence ::
    "(string \<Rightarrow> 'n option) \<Rightarrow> ('e \<Rightarrow> bool) \<Rightarrow> 'e LogRoot \<Rightarrow> string \<Rightarrow> 'e EventLogIoError + int" where
  "last_sequence num absent root mission_id =
     and_then (open_events_directory absent root) (\<lambda>directory.
       case directory of
         None \<Rightarrow> Inr 0
       | Some events_directory \<Rightarrow>
           and_then (open_log_file absent events_directory mission_id) (\<lambda>file.
             case file of None \<Rightarrow> Inr 0 | Some file \<Rightarrow> last_sequence_in_reader num (lf_read file)))"

definition project_from_log ::
    "(string \<Rightarrow> 'n option) \<Rightarrow> ('e \<Rightarrow> bool) \<Rightarrow> 'e LogRoot \<Rightarrow> string \<Rightarrow> 'e EventLogIoError + MissionSnap option" where
  "project_from_log num absent root mission_id =
     and_then (open_events_directory absent root) (\<lambda>directory.
       case directory of
         None \<Rightarrow> Inr None
       | Some events_directory \<Rightarrow>
           and_then (open_log_file absent events_directory mission_id) (\<lambda>file.
             case file of
               None \<Rightarrow> Inr None
             | Some file \<Rightarrow> project_mission_in_reader num (lf_read file) mission_id))"

definition replay_records ::
    "('e \<Rightarrow> bool) \<Rightarrow> 'e LogRoot \<Rightarrow> string \<Rightarrow> 'e EventLogIoError + 'e GoLineReader" where
  "replay_records absent root mission_id =
     and_then (open_events_directory absent root) (\<lambda>directory.
     and_then (ok_or directory LogNotFound) (\<lambda>events_directory.
     and_then (open_log_file absent events_directory mission_id) (\<lambda>file.
     and_then (ok_or file LogNotFound) (\<lambda>file. Inr (replay_reader (lf_read file))))))"

definition replay ::
    "(string \<Rightarrow> 'n option) \<Rightarrow> ('e \<Rightarrow> bool) \<Rightarrow> 'e LogRoot \<Rightarrow> string \<Rightarrow>
       'e EventLogIoError + 'n DecodedEvent list \<times> EventScanDiagnostic list" where
  "replay num absent root mission_id =
     and_then (replay_records absent root mission_id) (\<lambda>r. replay_collect num r [] [])"

definition tail_since ::
    "(string \<Rightarrow> 'n option) \<Rightarrow> ('e \<Rightarrow> bool) \<Rightarrow> 'e LogRoot \<Rightarrow> string \<Rightarrow> nat \<Rightarrow>
       'e EventLogIoError + ('n, 'e) TailRead" where
  "tail_since num absent root mission_id offset =
     and_then (open_events_directory absent root) (\<lambda>directory.
     and_then (ok_or directory LogNotFound) (\<lambda>events_directory.
     case ed_open_file events_directory (log_file_name mission_id) of
       Inl error \<Rightarrow> Inl (if absent error then LogNotFound else EventLogIo ''open event log for tail'' error)
     | Inr file \<Rightarrow>
         and_then (map_err (EventLogIo ''inspect event log for tail'') (lf_metadata file)) (\<lambda>metadata.
           if \<not> fm_is_file metadata then Inl InvalidEntry
           else tail_reader num (lf_seek file) offset)))"

section \<open>The listing\<close>

record MissionLogSummary =
  ms_mission_id :: string
  ms_event_count :: nat
  ms_size_bytes :: nat

definition strip_suffix :: "string \<Rightarrow> string \<Rightarrow> string option" where
  "strip_suffix ending s =
     (if length ending \<le> length s \<and> drop (length s - length ending) s = ending
      then Some (take (length s - length ending) s) else None)"

definition entry_summary ::
    "'e EventsDir \<Rightarrow> 'e + 'e DirEntry \<Rightarrow> MissionLogSummary option" where
  "entry_summary directory entry =
     (case entry of Inl _ \<Rightarrow> None | Inr entry \<Rightarrow>
     (case en_file_name entry of None \<Rightarrow> None | Some file_name \<Rightarrow>
     (case strip_suffix ''.jsonl'' file_name of None \<Rightarrow> None | Some mission_id \<Rightarrow>
     (case en_is_file entry of Inl _ \<Rightarrow> None | Inr is_file \<Rightarrow>
      if \<not> is_file then None
      else
     (case ed_open_file directory file_name of Inl _ \<Rightarrow> None | Inr file \<Rightarrow>
     (case lf_metadata file of Inl _ \<Rightarrow> None | Inr metadata \<Rightarrow>
      if \<not> fm_is_file metadata then None
      else Some \<lparr>ms_mission_id = mission_id,
             ms_event_count = count_non_empty_lines_like_go_scanner (lf_read file),
             ms_size_bytes = fm_len metadata\<rparr>))))))"

definition list_mission_logs ::
    "('e \<Rightarrow> bool) \<Rightarrow> 'e LogRoot \<Rightarrow> 'e EventLogIoError + MissionLogSummary list" where
  "list_mission_logs absent root =
     and_then (open_events_directory absent root) (\<lambda>directory.
       case directory of
         None \<Rightarrow> Inr []
       | Some events_directory \<Rightarrow>
           and_then (map_err (EventLogIo ''list events directory'') (ed_entries events_directory)) (\<lambda>entries.
             Inr (sort_key ms_mission_id (List.map_filter (entry_summary events_directory) entries))))"

end
