(* ===== verification/Log_Lines.thy ===== *)
theory Log_Lines
  imports Log_Tail
begin

text \<open>
  What the readers of the event log see: the bytes a reader delivers before its end or its first
  failure, cut into lines. The visiting scanner is proved to depend on nothing else, so its result
  is a fold over the lines that fit, however the reads are cut into chunks.
\<close>

section \<open>The bytes of a reader\<close>

fun delivered :: "'e ReadStep list \<Rightarrow> string \<times> 'e option" where
  "delivered [] = ([], None)"
| "delivered (Interrupted # steps) = delivered steps"
| "delivered (ReadFails e # steps) = ([], Some e)"
| "delivered (Chunk bs # steps) =
     (if bs = [] then ([], None) else (bs @ fst (delivered steps), snd (delivered steps)))"

section \<open>Lines\<close>

definition line_token :: "string \<Rightarrow> string" where
  "line_token raw = (if raw \<noteq> [] \<and> last raw = newline_char then butlast raw else raw)"

definition line_ended :: "string \<Rightarrow> bool" where
  "line_ended raw = (raw \<noteq> [] \<and> last raw = newline_char)"

lemma line_content_token: "line_content raw = drop_cr (line_token raw)"
  by (simp add: line_content_def drop_cr_def line_token_def Let_def)

lemma clean_takeWhile:
  assumes "newline_char \<notin> set raw"
  shows "takeWhile (\<lambda>b. b \<noteq> newline_char) (raw @ s) = raw @ takeWhile (\<lambda>b. b \<noteq> newline_char) s"
    "takeWhile (\<lambda>b. b \<noteq> newline_char) raw = raw"
  using assms by (induction raw) auto

lemma clean_last: "newline_char \<notin> set raw \<Longrightarrow> raw \<noteq> [] \<Longrightarrow> last raw \<noteq> newline_char"
  using last_in_set [of raw] by metis

lemma first_line_ended: "newline_char \<notin> set raw \<Longrightarrow> first_line (raw @ newline_char # s) = raw @ [newline_char]"
  by (simp add: first_line_def clean_takeWhile Let_def)

lemma first_line_unended: "newline_char \<notin> set raw \<Longrightarrow> first_line raw = raw"
  by (simp add: first_line_def Let_def clean_takeWhile)

lemma log_lines_ended:
  "newline_char \<notin> set raw \<Longrightarrow> log_lines (raw @ newline_char # s) = (raw @ [newline_char]) # log_lines s"
  by (simp add: log_lines.simps [of "raw @ newline_char # s"] first_line_ended)

lemma log_lines_unended: "newline_char \<notin> set raw \<Longrightarrow> log_lines raw = (if raw = [] then [] else [raw])"
  by (simp add: log_lines.simps [of raw] first_line_unended log_lines.simps [of "[]"])

lemma line_token_first: "line_token (first_line s) = takeWhile (\<lambda>b. b \<noteq> newline_char) s"
proof (cases "newline_char \<in> set s")
  case True
  then obtain raw rest where "s = raw @ newline_char # rest" "newline_char \<notin> set raw"
    by (meson split_list_first)
  then show ?thesis by (simp add: first_line_ended line_token_def clean_takeWhile)
next
  case False
  then show ?thesis by (auto simp: first_line_unended line_token_def clean_takeWhile dest: clean_last)
qed

lemma line_ended_first: "line_ended (first_line s) \<longleftrightarrow> newline_char \<in> set s"
proof (cases "newline_char \<in> set s")
  case True
  then obtain raw rest where "s = raw @ newline_char # rest" "newline_char \<notin> set raw"
    by (meson split_list_first)
  then show ?thesis by (simp add: first_line_ended line_ended_def)
next
  case False
  then show ?thesis by (auto simp: first_line_unended line_ended_def dest: clean_last)
qed

section \<open>The scan of the lines\<close>

text \<open>Whether a line was too long, and the visitor's state after the lines before it.\<close>

fun visit_lines :: "'s visitor \<Rightarrow> nat \<Rightarrow> nat \<Rightarrow> string list \<Rightarrow> 's \<Rightarrow> bool \<times> 's" where
  "visit_lines visit max_bytes i [] st = (False, st)"
| "visit_lines visit max_bytes i (l # ls) st =
     (if max_bytes \<le> length (line_token l) then (True, st)
      else visit_lines visit max_bytes (i + 1) ls (visit (line_content l) (line_token l) (line_ended l) i st))"

text \<open>A beginning of a line: no line feed, and not yet too long.\<close>

definition line_begun :: "nat \<Rightarrow> string \<Rightarrow> bool" where
  "line_begun max_bytes raw \<longleftrightarrow> newline_char \<notin> set raw \<and> length raw < max_bytes"

lemma visit_ended_line:
  assumes "line_begun max_bytes raw"
  shows "visit_lines visit max_bytes i (log_lines (raw @ newline_char # s)) st =
    visit_lines visit max_bytes (i + 1) (log_lines s) (visit (drop_cr raw) raw True i st)"
  using assms
  by (simp add: line_begun_def log_lines_ended line_token_def line_content_token line_ended_def)

lemma visit_last_line:
  assumes "line_begun max_bytes raw"
  shows "visit_lines visit max_bytes i (log_lines raw) st = (False, flush_line visit raw i st)"
proof -
  have token: "raw \<noteq> [] \<Longrightarrow> line_token raw = raw" "\<not> line_ended raw"
    using assms by (auto simp: line_begun_def line_token_def line_ended_def dest: clean_last)
  show ?thesis
    using assms token by (auto simp: line_begun_def log_lines_unended flush_line_def line_content_token)
qed

lemma visit_long_line:
  assumes "newline_char \<notin> set raw" "raw \<noteq> []" "max_bytes \<le> length raw"
  shows "visit_lines visit max_bytes i (log_lines (raw @ s)) st = (True, st)"
proof -
  have "length raw \<le> length (takeWhile (\<lambda>b. b \<noteq> newline_char) (raw @ s))"
    using assms(1) by (simp add: clean_takeWhile)
  then have "max_bytes \<le> length (line_token (first_line (raw @ s)))"
    using assms(3) by (simp only: line_token_first)
  then show ?thesis using assms(2) by (simp add: log_lines.simps [of "raw @ s"])
qed

lemma scan_bytes_long:
  "scan_bytes visit max_bytes raw i bs st = (Inl e, st') \<Longrightarrow> line_begun max_bytes raw \<Longrightarrow>
   e = OversizedLine \<and> visit_lines visit max_bytes i (log_lines (raw @ bs @ s)) st = (True, st')"
proof (induction visit max_bytes raw i bs st rule: scan_bytes.induct)
  case (2 visit max_bytes raw i b bs st)
  consider "b = newline_char" | "b \<noteq> newline_char" "max_bytes \<le> length raw + 1"
    | "b \<noteq> newline_char" "\<not> max_bytes \<le> length raw + 1" by blast
  then show ?case
  proof cases
    case 1
    moreover have "line_begun max_bytes []" using "2.prems" by (auto simp: line_begun_def)
    ultimately show ?thesis using "2.IH"(1) "2.prems" visit_ended_line [of max_bytes raw visit i "bs @ s" st] by simp
  next
    case 2
    have "visit_lines visit max_bytes i (log_lines ((raw @ [b]) @ bs @ s)) st = (True, st)"
      using "2.prems" 2 by (intro visit_long_line) (auto simp: line_begun_def)
    then show ?thesis using "2.prems" 2 by simp
  next
    case 3
    then have "line_begun max_bytes (raw @ [b])" using "2.prems" by (auto simp: line_begun_def)
    then show ?thesis using "2.IH"(2) "2.prems" 3 by simp
  qed
qed simp

lemma scan_bytes_short:
  "scan_bytes visit max_bytes raw i bs st = (Inr (raw', i'), st') \<Longrightarrow> line_begun max_bytes raw \<Longrightarrow>
   line_begun max_bytes raw' \<and>
   visit_lines visit max_bytes i (log_lines (raw @ bs @ s)) st = visit_lines visit max_bytes i' (log_lines (raw' @ s)) st'"
proof (induction visit max_bytes raw i bs st rule: scan_bytes.induct)
  case (2 visit max_bytes raw i b bs st)
  show ?case
  proof (cases "b = newline_char")
    case True
    moreover have "line_begun max_bytes []" using "2.prems" by (auto simp: line_begun_def)
    ultimately show ?thesis using "2.IH"(1) "2.prems" visit_ended_line [of max_bytes raw visit i "bs @ s" st] by simp
  next
    case False
    then have "\<not> max_bytes \<le> length raw + 1" using "2.prems" by (auto split: if_splits)
    moreover from this have "line_begun max_bytes (raw @ [b])"
      using "2.prems" False by (auto simp: line_begun_def)
    ultimately show ?thesis using "2.IH"(2) "2.prems" False by simp
  qed
qed simp

text \<open>The result of a scan, from whether a line was too long and the failure of the reader.\<close>

definition scan_outcome :: "bool \<Rightarrow> 'e option \<Rightarrow> 'e EventLogIoError + unit" where
  "scan_outcome oversized fault =
     (if oversized then Inl OversizedLine
      else case fault of Some e \<Rightarrow> Inl (EventLogIo ''read event log'' e) | None \<Rightarrow> Inr ())"

lemma scan_steps_visits:
  "line_begun max_bytes raw \<Longrightarrow>
   scan_steps visit max_bytes raw i (steps :: 'e ReadStep list) st =
     (case visit_lines visit max_bytes i (log_lines (raw @ fst (delivered steps))) st of
        (oversized, st') \<Rightarrow> (scan_outcome oversized (snd (delivered steps)), st'))"
proof (induction visit max_bytes raw i steps st rule: scan_steps.induct)
  case (4 visit max_bytes raw i bs steps st)
  show ?case
  proof (cases "bs = []")
    case True
    then show ?thesis by (simp add: scan_outcome_def visit_last_line [OF "4.prems"])
  next
    case False
    obtain a :: "'e EventLogIoError + string \<times> nat" and st'
      where scan: "scan_bytes visit max_bytes raw i bs st = (a, st')" by force
    show ?thesis
    proof (cases a)
      case (Inl e)
      note scan = scan [unfolded Inl]
      show ?thesis
        using scan_bytes_long [OF scan "4.prems"] by (simp add: scan False scan_outcome_def)
    next
      case (Inr p)
      obtain raw' i' where p: "p = (raw', i')" by force
      note short = scan_bytes_short [OF scan [unfolded Inr p] "4.prems"]
      show ?thesis
        using "4.IH" [OF False scan [symmetric] Inr p [symmetric]] short by (simp add: scan Inr p False)
    qed
  qed
qed (simp_all add: visit_last_line scan_outcome_def)

text \<open>The lines that are visited, as a fold.\<close>

definition fitting :: "nat \<Rightarrow> string list \<Rightarrow> string list" where
  "fitting max_bytes lines = takeWhile (\<lambda>l. length (line_token l) < max_bytes) lines"

definition visit_line :: "'s visitor \<Rightarrow> nat \<times> string \<Rightarrow> 's \<Rightarrow> 's" where
  "visit_line visit = (\<lambda>(i, l). visit (line_content l) (line_token l) (line_ended l) i)"

lemma visit_lines_fold:
  "visit_lines visit max_bytes i ls st =
     (length (fitting max_bytes ls) < length ls,
      fold (visit_line visit) (enumerate i (fitting max_bytes ls)) st)"
  by (induction visit max_bytes i ls st rule: visit_lines.induct)
     (simp_all add: fitting_def visit_line_def)

lemma scan_fold_lines:
  assumes "0 < max_bytes"
  shows "scan_lines_like_go reader max_bytes visit st =
    (let lines = log_lines (fst (delivered reader)); fit = fitting max_bytes lines
     in (scan_outcome (length fit < length lines) (snd (delivered reader)),
         fold (visit_line visit) (enumerate 1 fit) st))"
proof -
  have "line_begun max_bytes []" using assms by (simp add: line_begun_def)
  then show ?thesis
    by (simp add: scan_lines_like_go_def scan_steps_visits visit_lines_fold Let_def)
qed

text \<open>
  The record-at-a-time reader hands out the lines of the bytes its reader delivers, one at a time;
  replay and tail batches are therefore described by those lines alone.
\<close>

section \<open>One line\<close>

definition too_long :: "nat option \<Rightarrow> nat \<Rightarrow> bool" where
  "too_long bound n = (case bound of Some m \<Rightarrow> m \<le> n | None \<Rightarrow> False)"

text \<open>A reader in the middle of a line, of which \<open>raw\<close> is read; the rest of the bytes is \<open>bs\<close>.\<close>

definition reading :: "'e GoLineReader \<Rightarrow> string \<Rightarrow> string \<Rightarrow> 'e option \<Rightarrow> nat \<Rightarrow> bool" where
  "reading r raw bs f i \<longleftrightarrow>
     \<not> gl_finished r \<and> gl_deferred_error r = None \<and> gl_next_line_index r = i \<and> gl_raw_line r = raw \<and>
     newline_char \<notin> set raw \<and> (raw = [] \<or> \<not> too_long (gl_max_token_bytes r) (length raw)) \<and>
     gl_buffer r @ fst (delivered (gl_steps r)) = bs \<and> snd (delivered (gl_steps r)) = f"

text \<open>What a reader with the bytes \<open>s\<close> before it gives, and the state it is left in.\<close>

definition line_taken ::
    "'e GoLineReader \<Rightarrow> string \<Rightarrow> 'e option \<Rightarrow> nat \<Rightarrow>
       ('e EventLogIoError + ScannedLine option) \<times> 'e GoLineReader \<Rightarrow> bool" where
  "line_taken r s f i res =
     (case res of (out, r') \<Rightarrow>
        gl_max_token_bytes r' = gl_max_token_bytes r \<and> gl_operation r' = gl_operation r \<and>
        (if s = [] then
           out = (case f of None \<Rightarrow> Inr None | Some e \<Rightarrow> Inl (EventLogIo (gl_operation r) e))
         else if too_long (gl_max_token_bytes r) (length (line_token (first_line s))) then
           out = Inl OversizedLine
         else out = Inr (Some \<lparr>sl_raw = first_line s, sl_line_index = i\<rparr>) \<and>
           (if line_ended (first_line s) then reading r' [] (drop (length (first_line s)) s) f (i + 1)
            else gl_finished r' \<and> gl_deferred_error r' = map_option (EventLogIo (gl_operation r)) f)))"

lemma unended_token: "newline_char \<notin> set raw \<Longrightarrow> line_token raw = raw \<and> \<not> line_ended raw"
  by (auto simp: line_token_def line_ended_def dest: clean_last)

lemma at_end_taken:
  assumes "reading r raw bs None i" "bs = []"
  shows "line_taken r raw None i (at_end r)"
  using assms unended_token [of raw]
  by (auto simp: reading_def line_taken_def at_end_def take_some_line_def take_line_def Let_def
      first_line_unended)

lemma read_failed_taken:
  assumes "reading r raw bs (Some e) i" "bs = []"
  shows "line_taken r raw (Some e) i (read_failed e r)"
  using assms unended_token [of raw]
  by (auto simp: reading_def line_taken_def read_failed_def take_some_line_def take_line_def Let_def
      first_line_unended)

lemma line_taken_update:
  assumes "gl_max_token_bytes r' = gl_max_token_bytes r" "gl_operation r' = gl_operation r"
  shows "line_taken r' s f i res = line_taken r s f i res"
  by (simp only: line_taken_def assms)

lemma line_taken_long:
  assumes "s \<noteq> []" "too_long (gl_max_token_bytes r) (length (line_token (first_line s)))"
    "gl_max_token_bytes r' = gl_max_token_bytes r" "gl_operation r' = gl_operation r"
  shows "line_taken r s f i (Inl OversizedLine, r')"
  using assms by (simp add: line_taken_def)

lemma line_taken_ended:
  assumes "s \<noteq> []" "\<not> too_long (gl_max_token_bytes r) (length (line_token (first_line s)))"
    "line_ended (first_line s)" "reading r' [] (drop (length (first_line s)) s) f (i + 1)"
    "gl_max_token_bytes r' = gl_max_token_bytes r" "gl_operation r' = gl_operation r"
  shows "line_taken r s f i (Inr (Some \<lparr>sl_raw = first_line s, sl_line_index = i\<rparr>), r')"
  using assms by (simp add: line_taken_def)

lemma first_line_found:
  assumes "newline_char \<notin> set raw" "newline_char \<in> set s"
  shows "first_line (raw @ s @ t) = raw @ first_line s"
proof -
  obtain u v where s: "s = u @ newline_char # v" and u: "newline_char \<notin> set u"
    using assms(2) by (meson split_list_first)
  then have "newline_char \<notin> set (raw @ u)" using assms(1) by simp
  from first_line_ended [OF this, of "v @ t"] first_line_ended [OF u, of v] s
  show ?thesis by simp
qed

lemma found_iff:
  "length (takeWhile (\<lambda>b. b \<noteq> newline_char) s) < length s \<longleftrightarrow> newline_char \<in> set s"
proof (cases "newline_char \<in> set s")
  case True
  then obtain u v where "s = u @ newline_char # v" "newline_char \<notin> set u" by (meson split_list_first)
  then show ?thesis by (simp add: clean_takeWhile)
qed (simp add: clean_takeWhile)

lemma line_ended_append: "s \<noteq> [] \<Longrightarrow> line_ended (raw @ s) = line_ended s"
  by (simp add: line_ended_def)

lemma line_token_append: "s \<noteq> [] \<Longrightarrow> line_token (raw @ s) = raw @ line_token s"
  by (simp add: line_token_def butlast_append)

text \<open>A buffer that holds a line feed completes the line.\<close>

lemma found_taken:
  assumes r: "reading r raw bs f i" and found: "newline_char \<in> set (gl_buffer r)"
    and fits: "\<not> too_long (gl_max_token_bytes r)
      (length raw + length (takeWhile (\<lambda>b. b \<noteq> newline_char) (gl_buffer r)))"
  shows "line_taken r (raw @ bs) f i
    (take_some_line (r\<lparr>gl_raw_line := gl_raw_line r @ first_line (gl_buffer r),
       gl_buffer := drop (length (first_line (gl_buffer r))) (gl_buffer r)\<rparr>))"
proof -
  let ?b = "gl_buffer r"
  let ?t = "fst (delivered (gl_steps r))"
  have nonempty: "?b \<noteq> []" and bs: "bs = ?b @ ?t" and raw: "gl_raw_line r = raw" "newline_char \<notin> set raw"
    using r found by (auto simp: reading_def)
  have line: "first_line (raw @ bs) = raw @ first_line ?b"
    using first_line_found [OF raw(2) found] bs by simp
  have ne: "first_line ?b \<noteq> []" by (rule first_line_neq [OF nonempty])
  have token: "line_token (first_line (raw @ bs)) = raw @ takeWhile (\<lambda>b. b \<noteq> newline_char) ?b"
    unfolding line using line_token_append [OF ne] line_token_first [of ?b] by simp
  have ended: "line_ended (first_line (raw @ bs))"
    unfolding line using line_ended_append [OF ne] line_ended_first [of ?b] found by simp
  have dropped: "drop (length (first_line (raw @ bs))) (raw @ bs) = drop (length (first_line ?b)) ?b @ ?t"
  proof -
    have "length (first_line ?b) \<le> length ?b"
      using arg_cong [where f = length, OF first_line_prefix [of ?b]] by simp
    then show ?thesis unfolding line by (simp add: bs)
  qed
  let ?r = "r\<lparr>gl_buffer := drop (length (first_line ?b)) ?b, gl_raw_line := [], gl_next_line_index := i + 1\<rparr>"
  have "raw @ bs \<noteq> []" using nonempty bs by simp
  moreover have "\<not> too_long (gl_max_token_bytes r) (length (line_token (first_line (raw @ bs))))"
    using fits token by simp
  moreover have "reading ?r [] (drop (length (first_line (raw @ bs))) (raw @ bs)) f (i + 1)"
    using r unfolding dropped by (simp add: reading_def)
  ultimately have "line_taken r (raw @ bs) f i
      (Inr (Some \<lparr>sl_raw = first_line (raw @ bs), sl_line_index = i\<rparr>), ?r)"
    using ended by (intro line_taken_ended) simp_all
  then show ?thesis using r by (simp add: take_some_line_def take_line_def line raw(1) reading_def)
qed

lemma long_taken:
  assumes r: "reading r raw bs f i" and nonempty: "gl_buffer r \<noteq> []"
    and long: "too_long (gl_max_token_bytes r)
      (length raw + length (takeWhile (\<lambda>b. b \<noteq> newline_char) (gl_buffer r)))"
  shows "line_taken r (raw @ bs) f i (Inl OversizedLine, r\<lparr>gl_finished := True\<rparr>)"
proof -
  let ?b = "gl_buffer r"
  have bs: "bs = ?b @ fst (delivered (gl_steps r))" and raw: "newline_char \<notin> set raw"
    using r by (auto simp: reading_def)
  have "length (takeWhile (\<lambda>b. b \<noteq> newline_char) ?b) \<le> length (takeWhile (\<lambda>b. b \<noteq> newline_char) bs)"
    unfolding bs by (cases "newline_char \<in> set ?b") (auto simp: takeWhile_append clean_takeWhile)
  then have "length raw + length (takeWhile (\<lambda>b. b \<noteq> newline_char) ?b) \<le>
      length (line_token (first_line (raw @ bs)))"
    by (simp add: line_token_first clean_takeWhile(1) [OF raw])
  then have "too_long (gl_max_token_bytes r) (length (line_token (first_line (raw @ bs))))"
    using long by (auto simp: too_long_def split: option.splits)
  moreover have "raw @ bs \<noteq> []" using nonempty bs by simp
  ultimately show ?thesis by (intro line_taken_long) simp_all
qed

lemma next_line_loop_taken: "reading r raw bs f i \<Longrightarrow> line_taken r (raw @ bs) f i (next_line_loop r)"
proof (induction r arbitrary: raw bs rule: next_line_loop.induct)
  case (1 r)
  show ?case
  proof (cases "gl_buffer r = []")
    case empty: True
    show ?thesis
    proof (cases "gl_steps r")
      case Nil
      then show ?thesis
        using "1.prems" at_end_taken [of r raw bs i] empty
        by (auto simp: reading_def next_line_loop.simps [of r])
    next
      case (Cons step steps)
      let ?r = "r\<lparr>gl_steps := steps\<rparr>"
      show ?thesis
      proof (cases step)
        case (Chunk chunk)
        show ?thesis
        proof (cases "chunk = []")
          case True
          have "f = None" "bs = []" using "1.prems" empty Cons Chunk True by (auto simp: reading_def)
          then show ?thesis
            using "1.prems" empty Cons Chunk True unended_token [of raw]
            by (auto simp: reading_def line_taken_def at_end_def take_some_line_def take_line_def Let_def
                first_line_unended next_line_loop.simps [of r])
        next
          case False
          let ?r = "r\<lparr>gl_buffer := chunk, gl_steps := steps\<rparr>"
          have "reading ?r raw bs f i" using "1.prems" empty Cons Chunk False by (simp add: reading_def)
          from "1.IH"(1) [OF empty Cons Chunk False this] show ?thesis
            by (simp add: next_line_loop.simps [of r] empty Cons Chunk False line_taken_update [of ?r r])
        qed
      next
        case Interrupted
        have "reading ?r raw bs f i" using "1.prems" empty Cons Interrupted by (simp add: reading_def)
        from "1.IH"(2) [OF empty Cons Interrupted this] show ?thesis
          by (simp add: next_line_loop.simps [of r] empty Cons Interrupted line_taken_update [of ?r r])
      next
        case (ReadFails e)
        have "f = Some e" "bs = []" using "1.prems" empty Cons ReadFails by (auto simp: reading_def)
        then show ?thesis
          using "1.prems" empty Cons ReadFails unended_token [of raw]
          by (auto simp: reading_def line_taken_def read_failed_def take_some_line_def take_line_def Let_def
              first_line_unended next_line_loop.simps [of r])
      qed
    qed
  next
    case nonempty: False
    let ?b = "gl_buffer r"
    let ?token = "takeWhile (\<lambda>b. b \<noteq> newline_char) ?b"
    let ?r = "r\<lparr>gl_raw_line := gl_raw_line r @ first_line ?b, gl_buffer := drop (length (first_line ?b)) ?b\<rparr>"
    have raw: "gl_raw_line r = raw" "newline_char \<notin> set raw" using "1.prems" by (auto simp: reading_def)
    have unfold: "next_line_loop r =
        (if too_long (gl_max_token_bytes r) (length raw + length ?token)
         then (Inl OversizedLine, r\<lparr>gl_finished := True\<rparr>)
         else if newline_char \<in> set ?b then take_some_line ?r else next_line_loop ?r)"
      by (simp add: next_line_loop.simps [of r] nonempty found_iff too_long_def [symmetric] raw Let_def)
    consider "too_long (gl_max_token_bytes r) (length raw + length ?token)"
      | "\<not> too_long (gl_max_token_bytes r) (length raw + length ?token)" "newline_char \<in> set ?b"
      | "\<not> too_long (gl_max_token_bytes r) (length raw + length ?token)" "newline_char \<notin> set ?b"
      by blast
    then show ?thesis
    proof cases
      case 1
      then show ?thesis using long_taken [OF "1.prems" nonempty] by (simp add: unfold)
    next
      case 2
      then show ?thesis using found_taken [OF "1.prems"] by (simp add: unfold)
    next
      case 3
      then have clean: "?token = ?b" "first_line ?b = ?b" by (simp_all add: clean_takeWhile first_line_unended)
      have next_r: "reading ?r (raw @ ?b) (fst (delivered (gl_steps r))) f i"
        using "1.prems" 3 clean raw by (simp add: reading_def)
      have "\<not> (case gl_max_token_bytes r of Some m \<Rightarrow> m \<le> length (gl_raw_line r) + length ?token | None \<Rightarrow> False)"
        using 3(1) unfolding too_long_def raw(1) .
      moreover have "\<not> length ?token < length ?b" using 3(2) by (simp only: found_iff simp_thms)
      ultimately have "line_taken ?r ((raw @ ?b) @ fst (delivered (gl_steps r))) f i (next_line_loop ?r)"
        using "1.IH"(3) [OF nonempty refl refl refl refl _ refl _ next_r] by blast
      moreover have "(raw @ ?b) @ fst (delivered (gl_steps r)) = raw @ bs"
        using "1.prems" by (simp add: reading_def)
      ultimately show ?thesis using 3 by (simp add: unfold line_taken_update [of ?r r])
    qed
  qed
qed

lemma next_line_taken: "reading r [] s f i \<Longrightarrow> line_taken r s f i (next_line r)"
  using next_line_loop_taken [of r "[]" s f i] by (simp add: next_line_def reading_def)

lemma new_reading:
  "reading (GoLineReader_new reader bound operation) [] (fst (delivered reader)) (snd (delivered reader)) 1"
  by (simp add: reading_def GoLineReader_new_def)

end
