(* ===== verification/Log_Correct.thy ===== *)
theory Log_Correct
  imports Log_Lines
begin

text \<open>
  Replay and tail batches as functions of the lines of a log: every non-empty line becomes one record
  of a replay, and a tail batch is a prefix of the records of its bytes.
\<close>

section \<open>Replay\<close>

definition replay_items :: "(string \<Rightarrow> 'n option) \<Rightarrow> (nat \<times> string) list \<Rightarrow> 'n ReplayRecord list" where
  "replay_items num lines =
     map (\<lambda>(i, l). replay_record num \<lparr>sl_raw = l, sl_line_index = i\<rparr>) (filter (\<lambda>(_, l). line_content l \<noteq> []) lines)"

fun replayed_events :: "'n ReplayRecord list \<Rightarrow> 'n DecodedEvent list" where
  "replayed_events [] = []"
| "replayed_events (ReplayEvent event # items) = event # replayed_events items"
| "replayed_events (ReplayCorrupt _ _ # items) = replayed_events items"

fun replayed_diagnostics :: "'n ReplayRecord list \<Rightarrow> EventScanDiagnostic list" where
  "replayed_diagnostics [] = []"
| "replayed_diagnostics (ReplayEvent _ # items) = replayed_diagnostics items"
| "replayed_diagnostics (ReplayCorrupt diagnostic _ # items) = diagnostic # replayed_diagnostics items"

lemma replay_collect_step:
  "replay_collect num r events diagnostics =
     (case next_line r of
        (Inr None, r') \<Rightarrow> Inr (events, diagnostics)
      | (Inl error, r') \<Rightarrow> Inl error
      | (Inr (Some line), r') \<Rightarrow>
          if scanned_content line = [] then replay_collect num r' events diagnostics
          else case replay_record num line of
            ReplayEvent event \<Rightarrow> replay_collect num r' (events @ [event]) diagnostics
          | ReplayCorrupt diagnostic raw \<Rightarrow> replay_collect num r' events (diagnostics @ [diagnostic]))"
  by (simp add: replay_collect.simps [of num r] replay_next.simps [of num r]
      replay_collect.simps [of num _ events diagnostics] split: prod.split sum.split option.split ReplayRecord.split)

definition replay_outcome ::
    "(string \<Rightarrow> 'n option) \<Rightarrow> nat option \<Rightarrow> string \<Rightarrow> 'e option \<Rightarrow> (nat \<times> string) list \<Rightarrow>
       'n DecodedEvent list \<Rightarrow> EventScanDiagnostic list \<Rightarrow>
       'e EventLogIoError + 'n DecodedEvent list \<times> EventScanDiagnostic list" where
  "replay_outcome num bound operation f lines events diagnostics =
     (if list_ex (\<lambda>(_, l). too_long bound (length (line_token l))) lines then Inl OversizedLine
      else case f of
        Some e \<Rightarrow> Inl (EventLogIo operation e)
      | None \<Rightarrow> Inr (events @ replayed_events (replay_items num lines),
                    diagnostics @ replayed_diagnostics (replay_items num lines)))"

lemma replay_outcome_Cons:
  "replay_outcome num bound operation f ((i, l) # lines) events diagnostics =
     (if too_long bound (length (line_token l)) then Inl OversizedLine
      else if line_content l = [] then replay_outcome num bound operation f lines events diagnostics
      else case replay_record num \<lparr>sl_raw = l, sl_line_index = i\<rparr> of
        ReplayEvent event \<Rightarrow> replay_outcome num bound operation f lines (events @ [event]) diagnostics
      | ReplayCorrupt diagnostic raw \<Rightarrow>
          replay_outcome num bound operation f lines events (diagnostics @ [diagnostic]))"
  by (cases "replay_record num \<lparr>sl_raw = l, sl_line_index = i\<rparr>")
     (simp_all add: replay_outcome_def replay_items_def split: option.split)

lemma replay_finished:
  assumes "gl_finished r" "gl_deferred_error r = map_option (EventLogIo operation) f"
  shows "replay_collect num r events diagnostics = replay_outcome num bound operation f [] events diagnostics"
  using assms
  by (cases f) (simp_all add: replay_collect_step [of num r] next_line_def replay_outcome_def replay_items_def)

lemma replay_collect_outcome:
  "reading r [] s f i \<Longrightarrow>
   replay_collect num r events diagnostics =
     replay_outcome num (gl_max_token_bytes r) (gl_operation r) f (enumerate i (log_lines s)) events diagnostics"
proof (induction s arbitrary: r i events diagnostics rule: log_lines.induct)
  case (1 s)
  obtain out r' where step: "next_line r = (out, r')" by force
  have taken: "line_taken r s f i (out, r')" using next_line_taken [OF "1.prems"] step by simp
  show ?case
  proof (cases "s = []")
    case True
    then show ?thesis
      using taken step
      by (cases f) (simp_all add: line_taken_def replay_collect_step [of num r] log_lines.simps [of "[]"]
          replay_outcome_def replay_items_def)
  next
    case nonempty: False
    let ?l = "first_line s"
    let ?rest = "drop (length ?l) s"
    let ?line = "\<lparr>sl_raw = ?l, sl_line_index = i\<rparr>"
    note lines = log_lines.simps [of s]
    show ?thesis
    proof (cases "too_long (gl_max_token_bytes r) (length (line_token ?l))")
      case True
      then show ?thesis
        using taken step nonempty
        by (simp add: line_taken_def replay_collect_step [of num r] lines replay_outcome_Cons)
    next
      case short: False
      have same: "gl_max_token_bytes r' = gl_max_token_bytes r" "gl_operation r' = gl_operation r"
        and out: "out = Inr (Some ?line)"
        using taken nonempty short by (auto simp: line_taken_def)
      have rest: "replay_collect num r' es ds =
          replay_outcome num (gl_max_token_bytes r) (gl_operation r) f (enumerate (i + 1) (log_lines ?rest)) es ds"
        for es ds
      proof (cases "line_ended ?l")
        case True
        then have "reading r' [] ?rest f (i + 1)" using taken nonempty short by (simp add: line_taken_def)
        from "1.IH" [OF nonempty this] show ?thesis by (simp add: same)
      next
        case False
        then have "newline_char \<notin> set s" by (simp add: line_ended_first)
        then have "log_lines ?rest = []" by (simp add: first_line_unended log_lines.simps [of "[]"])
        moreover have "gl_finished r'" "gl_deferred_error r' = map_option (EventLogIo (gl_operation r)) f"
          using taken nonempty short False by (simp_all add: line_taken_def)
        ultimately show ?thesis by (simp add: replay_finished)
      qed
      show ?thesis
        using nonempty short
        by (cases "replay_record num ?line")
           (simp_all add: replay_collect_step [of num r] step out lines replay_outcome_Cons rest scanned_content_def)
    qed
  qed
qed

section \<open>The records of a chunk\<close>

lemma saturating_add_saturated [simp]:
  "saturating_add b (saturating_add c n) = saturating_add b (c + n)"
  by (simp add: saturating_add_def)

lemma target_saturating: "TAIL_BATCH_TARGET_BYTES \<le> saturating_add c n \<longleftrightarrow> TAIL_BATCH_TARGET_BYTES \<le> c + n"
  by (simp add: saturating_add_def TAIL_BATCH_TARGET_BYTES_def U64_LIMIT_def)

lemma chunk_loop_length: "length (tail_chunk_loop num base_offset c i s) = length (log_lines s)"
proof (induction num base_offset c i s rule: tail_chunk_loop.induct)
  case (1 num base_offset c i s)
  then show ?case
    by (simp add: tail_chunk_loop.simps [of num base_offset c i s] log_lines.simps [of s] Let_def)
qed

section \<open>Batches\<close>

text \<open>How many of the lines are taken, with \<open>n\<close> records and \<open>c\<close> bytes already in the batch.\<close>

fun batch_count :: "nat \<Rightarrow> nat \<Rightarrow> string list \<Rightarrow> nat" where
  "batch_count n c [] = 0"
| "batch_count n c (l # ls) =
     (if TAIL_BATCH_MAX_RECORDS \<le> n \<or> TAIL_BATCH_TARGET_BYTES \<le> c then 0
      else Suc (batch_count (n + 1) (c + length l) ls))"

text \<open>Whether the batch meets the failure behind its lines.\<close>

definition fault_met :: "nat \<Rightarrow> nat \<Rightarrow> string list \<Rightarrow> bool" where
  "fault_met n c lines \<longleftrightarrow>
     (let k = batch_count n c lines in
      k = length lines \<and>
      (lines \<noteq> [] \<and> \<not> line_ended (last lines) \<or>
       n + k < TAIL_BATCH_MAX_RECORDS \<and> c + length (concat lines) < TAIL_BATCH_TARGET_BYTES))"

definition batch_outcome ::
    "'n TailRecord list \<Rightarrow> nat \<Rightarrow> 'e EventLogIoError option \<Rightarrow>
       'e EventLogIoError + 'n TailRecord list \<times> nat \<times> 'e EventLogIoError option" where
  "batch_outcome records consumed deferred =
     (case deferred of
        Some error \<Rightarrow> if records = [] then Inl error else Inr (records, consumed, deferred)
      | None \<Rightarrow> Inr (records, consumed, None))"

lemma batch_full: "TAIL_BATCH_MAX_RECORDS \<le> n \<Longrightarrow> batch_count n c lines = 0"
  by (cases lines) simp_all

lemma batch_reached: "TAIL_BATCH_TARGET_BYTES \<le> c \<Longrightarrow> batch_count n c lines = 0"
  by (cases lines) simp_all

lemma fault_met_Nil: "fault_met n c [] \<longleftrightarrow> n < TAIL_BATCH_MAX_RECORDS \<and> c < TAIL_BATCH_TARGET_BYTES"
  by (simp add: fault_met_def)

lemma fault_met_Cons:
  assumes "n < TAIL_BATCH_MAX_RECORDS" "c < TAIL_BATCH_TARGET_BYTES"
  shows "fault_met n c (l # ls) = (ls = [] \<and> \<not> line_ended l \<or> fault_met (n + 1) (c + length l) ls)"
proof (cases ls)
  case Nil
  then show ?thesis using assms by (simp add: fault_met_def)
next
  case (Cons m ms)
  then show ?thesis using assms by (simp add: fault_met_def Let_def add.assoc)
qed

lemma fault_unmet:
  "TAIL_BATCH_MAX_RECORDS \<le> n \<or> TAIL_BATCH_TARGET_BYTES \<le> c \<Longrightarrow> \<not> fault_met n c lines"
  by (auto simp: fault_met_def batch_full batch_reached)

definition batch_deferred :: "string \<Rightarrow> nat \<Rightarrow> nat \<Rightarrow> string list \<Rightarrow> 'e option \<Rightarrow> 'e EventLogIoError option" where
  "batch_deferred operation n c lines f =
     (if fault_met n c lines then map_option (EventLogIo operation) f else None)"

lemma tail_loop_finished:
  assumes "gl_finished r" "gl_deferred_error r = None"
  shows "tail_loop num base_offset r records c = Inr (records, c, None)"
  using assms by (simp add: tail_loop.simps [of num base_offset r] next_line_def)

lemma take_deferred_reading:
  assumes "reading r [] s f i"
  shows "take_deferred_error r = (None, r\<lparr>gl_deferred_error := None\<rparr>) \<and>
    reading (r\<lparr>gl_deferred_error := None\<rparr>) [] s f i"
  using assms by (simp add: take_deferred_error_def reading_def)

lemma tail_loop_outcome:
  "reading r [] s f i \<Longrightarrow> gl_max_token_bytes r = None \<Longrightarrow> c < TAIL_BATCH_TARGET_BYTES \<Longrightarrow>
   tail_loop num base_offset r records c =
     (let lines = log_lines s; k = batch_count (length records) c lines in
      batch_outcome (records @ take k (tail_chunk_loop num base_offset c i s))
        (saturating_add c (length (concat (take k lines))))
        (batch_deferred (gl_operation r) (length records) c lines f))"
proof (induction s arbitrary: r i records c rule: log_lines.induct)
  case (1 s)
  have saturated: "saturating_add c 0 = c"
    using "1.prems"(3) by (simp add: saturating_add_def TAIL_BATCH_TARGET_BYTES_def U64_LIMIT_def)
  note loop = tail_loop.simps [of num base_offset r records c]
  show ?case
  proof (cases "TAIL_BATCH_MAX_RECORDS \<le> length records")
    case True
    then show ?thesis
      by (simp add: loop batch_full batch_outcome_def batch_deferred_def fault_unmet saturated)
  next
    case room: False
    obtain out r' where step: "next_line r = (out, r')" by force
    have taken: "line_taken r s f i (out, r')" using next_line_taken [OF "1.prems"(1)] step by simp
    show ?thesis
    proof (cases "s = []")
      case True
      then show ?thesis
        using taken step room "1.prems"(3)
        by (cases f) (simp_all add: line_taken_def loop log_lines.simps [of "[]"] tail_chunk_loop.simps [of _ _ _ _ "[]"]
            batch_outcome_def batch_deferred_def fault_met_Nil saturated)
    next
      case nonempty: False
      let ?l = "first_line s"
      let ?rest = "drop (length ?l) s"
      let ?line = "\<lparr>sl_raw = ?l, sl_line_index = i\<rparr>"
      let ?c = "saturating_add c (length ?l)"
      let ?rec = "tail_record num ?line (saturating_add base_offset c) (saturating_add base_offset (c + length ?l))"
      have same: "gl_max_token_bytes r' = None" "gl_operation r' = gl_operation r"
        and out: "out = Inr (Some ?line)"
        and after: "if line_ended ?l then reading r' [] ?rest f (i + 1)
          else gl_finished r' \<and> gl_deferred_error r' = map_option (EventLogIo (gl_operation r)) f"
        using taken nonempty "1.prems"(2) by (auto simp: line_taken_def too_long_def)
      have loop': "tail_loop num base_offset r records c =
          (case take_deferred_error r' of
             (Some error, r'') \<Rightarrow> Inr (records @ [?rec], ?c, Some error)
           | (None, r'') \<Rightarrow>
               if TAIL_BATCH_TARGET_BYTES \<le> c + length ?l then Inr (records @ [?rec], ?c, None)
               else tail_loop num base_offset r'' (records @ [?rec]) ?c)"
        using room by (simp add: loop step out Let_def target_saturating split: prod.split option.split)
      have count: "batch_count (length records) c (log_lines s) =
          Suc (batch_count (length records + 1) (c + length ?l) (log_lines ?rest))"
        using nonempty room "1.prems"(3) by (simp add: log_lines.simps [of s])
      have chunk: "tail_chunk_loop num base_offset c i s =
          ?rec # tail_chunk_loop num base_offset (c + length ?l) (i + 1) ?rest"
        using nonempty by (simp add: tail_chunk_loop.simps [of num base_offset c i s] Let_def)
      have lines: "log_lines s = ?l # log_lines ?rest" using nonempty by (simp add: log_lines.simps [of s])
      have met: "fault_met (length records) c (log_lines s) =
          (log_lines ?rest = [] \<and> \<not> line_ended ?l \<or>
           fault_met (length records + 1) (c + length ?l) (log_lines ?rest))"
        unfolding lines using room "1.prems"(3) by (intro fault_met_Cons) simp_all
      show ?thesis
      proof (cases "line_ended ?l")
        case True
        let ?r = "r'\<lparr>gl_deferred_error := None\<rparr>"
        have ready: "reading r' [] ?rest f (i + 1)" using after True by simp
        note deferred = take_deferred_reading [OF ready]
        show ?thesis
        proof (cases "TAIL_BATCH_TARGET_BYTES \<le> c + length ?l")
          case full: True
          have "batch_count (length records) c (log_lines s) = 1" using full by (simp add: count batch_reached)
          moreover have "\<not> fault_met (length records) c (log_lines s)"
            using full True by (simp add: met fault_unmet)
          ultimately show ?thesis
            using full by (simp add: loop' deferred chunk batch_outcome_def batch_deferred_def Let_def)
               (simp add: lines)
        next
          case short: False
          have c: "?c = c + length ?l"
            using short by (simp add: saturating_add_def TAIL_BATCH_TARGET_BYTES_def U64_LIMIT_def)
          have "tail_loop num base_offset r records c = tail_loop num base_offset ?r (records @ [?rec]) (c + length ?l)"
            using short deferred by (simp add: loop' c)
          also have "\<dots> = (let ls = log_lines ?rest; k = batch_count (length (records @ [?rec])) (c + length ?l) ls in
              batch_outcome ((records @ [?rec]) @ take k (tail_chunk_loop num base_offset (c + length ?l) (i + 1) ?rest))
                (saturating_add (c + length ?l) (length (concat (take k ls))))
                (batch_deferred (gl_operation ?r) (length (records @ [?rec])) (c + length ?l) ls f))"
            by (rule "1.IH" [OF nonempty]) (use deferred short same in simp_all)
          finally show ?thesis
            using True unfolding Let_def batch_deferred_def count met chunk unfolding lines
            by (simp add: same saturating_add_def add.assoc)
        qed
      next
        case False
        then have "newline_char \<notin> set s" by (simp add: line_ended_first)
        then have rest: "?rest = []" by (simp add: first_line_unended)
        have none: "log_lines [] = []" by (simp add: log_lines.simps [of "[]"])
        have count1: "batch_count (length records) c (log_lines s) = 1" unfolding count rest none by simp
        have fault: "fault_met (length records) c (log_lines s)" unfolding met rest none using False by simp
        have finished: "gl_finished r'" "gl_deferred_error r' = map_option (EventLogIo (gl_operation r)) f"
          using after False by simp_all
        have "tail_loop num base_offset r records c =
            Inr (records @ [?rec], ?c, map_option (EventLogIo (gl_operation r)) f)"
          using finished by (cases f) (simp_all add: loop' take_deferred_error_def tail_loop_finished)
        then show ?thesis
          using fault unfolding Let_def batch_deferred_def count1 chunk unfolding lines
          by (cases f) (simp_all add: batch_outcome_def)
      qed
    qed
  qed
qed

end
