(* ===== verification/Log_Properties.thy ===== *)
theory Log_Properties
  imports Log_Correct
begin

text \<open>
  The event log as its callers see it: the scan, the snapshot of a mission, replay and tail batches,
  each as a function of the lines the reader delivers.
\<close>

section \<open>Scans\<close>

text \<open>C30. A scan depends only on the bytes its reader delivers, not on how reads cut them or were
  interrupted: the visitor sees, in order and numbered from 1, the lines before the first one of
  \<open>max_bytes\<close> or more; the result is the size error when there is one, else the read failure.\<close>

theorem scan_visits_lines:
  assumes "0 < max_bytes"
  shows "scan_lines_like_go reader max_bytes visit st =
    (let lines = log_lines (fst (delivered reader)); fit = fitting max_bytes lines
     in (scan_outcome (length fit < length lines) (snd (delivered reader)),
         fold (visit_line visit) (enumerate 1 fit) st))"
  by (rule scan_fold_lines [OF assms])

theorem scan_visits_lines_witness:
  "scan_lines_like_go [Chunk ''ab'', Interrupted, Chunk [CHR 0x0A, CHR ''c''], ReadFails ()] 3
     (\<lambda>content raw ended i st. st @ [(content, ended, i)]) [] =
   (Inl (EventLogIo ''read event log'' ()), [(''ab'', True, 1), (''c'', False, 2)])"
  using scan_visits_lines [of 3 "[Chunk ''ab'', Interrupted, Chunk [CHR 0x0A, CHR ''c''], ReadFails ()]"
      "\<lambda>content raw ended i st. st @ [(content, ended, i)]" "[]"]
  by (simp add: log_lines.simps first_line_def newline_char_def fitting_def line_token_def visit_line_def
      line_content_def line_ended_def scan_outcome_def)

section \<open>Snapshots\<close>

definition observed_event :: "(string \<Rightarrow> 'n option) \<Rightarrow> string \<Rightarrow> 'n EventRecord option" where
  "observed_event num raw =
     (case decode_go_observed_event_record num (line_content raw) of Inr event \<Rightarrow> Some event | Inl _ \<Rightarrow> None)"

definition observed_events :: "(string \<Rightarrow> 'n option) \<Rightarrow> string list \<Rightarrow> 'n EventRecord list" where
  "observed_events num lines = List.map_filter (observed_event num) lines"

lemma scanner_bounds [simp]:
  "0 < GO_EVENT_SCANNER_MAX_TOKEN_BYTES" "0 < GO_DEFAULT_SCANNER_MAX_TOKEN_BYTES"
  by (simp_all add: GO_EVENT_SCANNER_MAX_TOKEN_BYTES_def GO_DEFAULT_SCANNER_MAX_TOKEN_BYTES_def)

lemma enumerate_fold:
  "(\<And>i l st. visit_line visit (i, l) st = g l st) \<Longrightarrow> fold (visit_line visit) (enumerate k ls) st = fold g ls st"
  by (induction ls arbitrary: k st) simp_all

lemma project_fold:
  "fold (visit_line (project_visitor num)) (enumerate k ls) p = fold apply_event (observed_events num ls) p"
proof -
  have "fold (visit_line (project_visitor num)) (enumerate k ls) p =
      fold (\<lambda>l p. case observed_event num l of Some event \<Rightarrow> apply_event event p | None \<Rightarrow> p) ls p"
    by (rule enumerate_fold) (simp add: visit_line_def project_visitor_def observed_event_def split: sum.split)
  also have "\<dots> = fold apply_event (observed_events num ls) p"
    by (induction ls arbitrary: p) (simp_all add: observed_events_def map_filter_simps split: option.split)
  finally show ?thesis .
qed

text \<open>An event changes the snapshot of its own mission only, and as a function of that snapshot.\<close>

lemma apply_event_own:
  "p (er_mission_id event) = q (er_mission_id event) \<Longrightarrow>
   apply_event event p (er_mission_id event) = apply_event event q (er_mission_id event)"
  by (auto simp: apply_event_def start_mission_snap_def set_mission_status_def start_phase_snap_def
      set_phase_status_def get_or_create_mission_def Let_def split: option.split)

lemma apply_event_frame: "er_mission_id event \<noteq> m \<Longrightarrow> apply_event event p m = p m"
  by (simp add: apply_event_def start_mission_snap_def set_mission_status_def start_phase_snap_def
      set_phase_status_def get_or_create_mission_def Let_def split: option.split)

lemma own_events_only:
  "p m = q m \<Longrightarrow>
   fold apply_event events p m = fold apply_event (filter (\<lambda>e. er_mission_id e = m) events) q m"
proof (induction events arbitrary: p q)
  case (Cons e es)
  show ?case
  proof (cases "er_mission_id e = m")
    case True
    then have "apply_event e p m = apply_event e q m" using apply_event_own [of p e q] Cons.prems by simp
    then show ?thesis using Cons.IH True by simp
  next
    case False
    then show ?thesis using Cons apply_event_frame [of e m p] by simp
  qed
qed simp

text \<open>C31. The snapshot of a mission is the replay, in order, of exactly those events of the log that
  name the mission; lines that decode to no event and events of other missions leave no trace. A line
  too long or a read failure gives no snapshot at all.\<close>

theorem snapshot_of_own_events:
  "project_mission_in_reader num reader mission_id =
    (let lines = log_lines (fst (delivered reader)) in
     and_then (scan_outcome (length (fitting GO_EVENT_SCANNER_MAX_TOKEN_BYTES lines) < length lines)
         (snd (delivered reader))) (\<lambda>_.
       Inr (fold apply_event (filter (\<lambda>e. er_mission_id e = mission_id) (observed_events num lines))
              Map.empty mission_id)))"
proof -
  let ?lines = "log_lines (fst (delivered reader))"
  let ?fit = "fitting GO_EVENT_SCANNER_MAX_TOKEN_BYTES ?lines"
  have all: "\<not> length ?fit < length ?lines \<Longrightarrow> ?fit = ?lines"
    by (metis fitting_def length_takeWhile_le linorder_neqE_nat not_less takeWhile_eq_take take_all order_refl)
  show ?thesis
    using own_events_only [of Map.empty mission_id Map.empty "observed_events num ?lines"] all
    by (cases "length ?fit < length ?lines"; cases "snd (delivered reader)")
       (simp_all add: project_mission_in_reader_def scan_fold_lines project_fold scan_outcome_def and_then_def Let_def)
qed

text \<open>The snapshots the comments of the source promise.\<close>

definition phase_snap_ok :: "string \<Rightarrow> PhaseSnap \<Rightarrow> bool" where
  "phase_snap_ok phase_id phase \<longleftrightarrow> pn_id phase = phase_id \<and>
     (pn_status phase = ''running'' \<and> pn_ended_at phase = [] \<or>
      pn_status phase \<in> {''completed'', ''failed'', ''skipped'', ''retrying''})"

definition mission_snap_ok :: "string \<Rightarrow> MissionSnap \<Rightarrow> bool" where
  "mission_snap_ok mission_id m \<longleftrightarrow> mn_mission_id m = mission_id \<and> mission_id \<noteq> [] \<and>
     mn_status m \<in> {''in_progress'', ''completed'', ''failed'', ''cancelled''} \<and>
     (\<forall>phase_id phase. mn_phases m phase_id = Some phase \<longrightarrow> phase_snap_ok phase_id phase)"

definition projection_ok :: "Projection \<Rightarrow> bool" where
  "projection_ok p \<longleftrightarrow> (\<forall>mission_id m. p mission_id = Some m \<longrightarrow> mission_snap_ok mission_id m)"

lemma projection_ok_upd:
  "projection_ok p \<Longrightarrow> mission_snap_ok mission_id m \<Longrightarrow> projection_ok (p(mission_id \<mapsto> m))"
  by (simp add: projection_ok_def)

lemma created_ok: "projection_ok p \<Longrightarrow> mission_id \<noteq> [] \<Longrightarrow> mission_snap_ok mission_id (get_or_create_mission mission_id t p)"
  by (auto simp: projection_ok_def get_or_create_mission_def new_mission_snap_def mission_snap_ok_def
      split: option.split)

lemma phase_upd_ok:
  "mission_snap_ok mission_id m \<Longrightarrow> phase_snap_ok phase_id phase \<Longrightarrow>
   mission_snap_ok mission_id (m\<lparr>mn_phases := (mn_phases m)(phase_id \<mapsto> phase)\<rparr>)"
  by (simp add: mission_snap_ok_def)

lemma set_mission_status_ok:
  "projection_ok p \<Longrightarrow> status \<in> {''completed'', ''failed'', ''cancelled''} \<Longrightarrow>
   projection_ok (set_mission_status mission_id status t p)"
  by (auto simp: set_mission_status_def projection_ok_def mission_snap_ok_def split: option.split)

lemma start_mission_snap_ok:
  "projection_ok p \<Longrightarrow> mission_id \<noteq> [] \<Longrightarrow> projection_ok (start_mission_snap mission_id event p)"
  by (auto simp: start_mission_snap_def projection_ok_def mission_snap_ok_def new_mission_snap_def
      split: option.split)

lemma start_phase_snap_ok:
  "projection_ok p \<Longrightarrow> mission_id \<noteq> [] \<Longrightarrow> projection_ok (start_phase_snap mission_id event p)"
  by (auto simp: start_phase_snap_def Let_def phase_snap_ok_def split: option.split
      intro!: projection_ok_upd phase_upd_ok created_ok)

lemma set_phase_status_ok:
  assumes "projection_ok p" "mission_id \<noteq> []" "status \<in> {''completed'', ''failed'', ''skipped'', ''retrying''}"
  shows "projection_ok (set_phase_status mission_id event status p)"
proof (cases "er_phase_id event")
  case (Some phase_id)
  let ?m = "get_or_create_mission mission_id (er_timestamp event) p"
  have m: "mission_snap_ok mission_id ?m" using assms(1,2) by (rule created_ok)
  show ?thesis
  proof (cases "mn_phases ?m phase_id")
    case None
    then show ?thesis using assms m
      by (auto simp: set_phase_status_def Some Let_def phase_snap_ok_def intro!: projection_ok_upd phase_upd_ok)
  next
    case phase: (Some phase)
    then have "pn_id phase = phase_id" using m by (auto simp: mission_snap_ok_def phase_snap_ok_def)
    then show ?thesis using assms m phase
      by (auto simp: set_phase_status_def Some Let_def phase_snap_ok_def intro!: projection_ok_upd phase_upd_ok)
  qed
qed (simp add: set_phase_status_def assms)

lemma apply_event_ok: "projection_ok p \<Longrightarrow> projection_ok (apply_event event p)"
  by (simp add: apply_event_def Let_def start_mission_snap_ok set_mission_status_ok start_phase_snap_ok
      set_phase_status_ok)

lemma apply_events_ok: "projection_ok p \<Longrightarrow> projection_ok (fold apply_event events p)"
  by (induction events arbitrary: p) (simp_all add: apply_event_ok)

text \<open>C32. Whatever events are replayed, in any order and also when the log lacks its first ones, a
  snapshot carries the mission it is kept for, a non-empty identifier, one of the four statuses, and
  phases under their own identifiers with one of the five statuses; a running phase has no end.\<close>

theorem snapshots_well_formed:
  assumes "fold apply_event events Map.empty mission_id = Some snapshot"
  shows "mission_snap_ok mission_id snapshot"
  using apply_events_ok [of Map.empty events] assms by (simp add: projection_ok_def)

definition sample_observed :: "string \<Rightarrow> string \<Rightarrow> unit EventRecord" where
  "sample_observed kind timestamp =
     \<lparr>er_id = ''e'', er_event_type = kind, er_timestamp = timestamp, er_sequence = 1, er_mission_id = ''m'',
      er_phase_id = Some ''p'', er_worker_id = None, er_data = None, er_extra = []\<rparr>"

theorem snapshots_well_formed_witness:
  "mission_snap_ok ''m''
     \<lparr>mn_mission_id = ''m'', mn_status = ''failed'', mn_started_at = ''t1'', mn_ended_at = ''t3'',
      mn_phases = [''p'' \<mapsto> \<lparr>pn_id = ''p'', pn_name = [], pn_status = ''retrying'', pn_started_at = ''t1'',
        pn_ended_at = ''t2''\<rparr>]\<rparr>"
  by (rule snapshots_well_formed [of
        "[sample_observed ''phase.started'' ''t1'', sample_observed ''phase.retrying'' ''t2'',
          sample_observed ''mission.failed'' ''t3'']"])
     (simp add: sample_observed_def apply_event_def start_phase_snap_def set_phase_status_def
        set_mission_status_def get_or_create_mission_def new_mission_snap_def data_string_def Let_def)

section \<open>Replay\<close>

lemma new_reader_parts [simp]:
  "gl_max_token_bytes (GoLineReader_new reader bound operation) = bound"
  "gl_operation (GoLineReader_new reader bound operation) = operation"
  by (simp_all add: GoLineReader_new_def)


text \<open>C33. Replay gives every non-empty line of the log once and in order: the events it observes with
  their exact bytes, the others as diagnostics under their line numbers, however reads cut the log.
  A line of 64 KiB or more fails the whole replay, else a read failure does.\<close>

theorem replay_of_lines:
  "replay_collect num (replay_reader reader) [] [] =
    (let lines = log_lines (fst (delivered reader));
         items = map (\<lambda>(i, l). replay_record num \<lparr>sl_raw = l, sl_line_index = i\<rparr>)
                   (filter (\<lambda>(i, l). line_content l \<noteq> []) (enumerate 1 lines))
     in if list_ex (\<lambda>l. GO_REPLAY_SCANNER_MAX_TOKEN_BYTES \<le> length (line_token l)) lines then Inl OversizedLine
        else case snd (delivered reader) of
          Some e \<Rightarrow> Inl (EventLogIo ''read event log for replay'' e)
        | None \<Rightarrow> Inr (replayed_events items, replayed_diagnostics items))"
proof -
  have long: "list_ex (\<lambda>(_, l). too_long (Some m) (length (line_token l))) (enumerate i ls) =
      list_ex (\<lambda>l. m \<le> length (line_token l)) ls" for m i ls
    by (induction ls arbitrary: i) (simp_all add: too_long_def)
  show ?thesis
    unfolding replay_reader_def
    by (simp add: replay_collect_outcome [OF new_reading] replay_outcome_def replay_items_def long Let_def
        split: option.split)
qed

section \<open>Tails\<close>

lemma read_tail_batch_lines:
  "read_tail_batch num (reader :: 'e ReadStep list) base_offset =
    (let bytes = fst (delivered reader); lines = log_lines bytes; k = batch_count 0 0 lines;
         deferred = batch_deferred ''read event log for tail'' 0 0 lines (snd (delivered reader));
         all = tr_records (tail_chunk num bytes base_offset :: ('n, 'e) TailRead)
     in case (bytes, deferred) of
          ([], Some error) \<Rightarrow> Inl error
        | _ \<Rightarrow> Inr \<lparr>tr_records = take k all,
                    tr_next_offset = saturating_add base_offset (length (concat (take k lines))),
                    tr_deferred_error = deferred\<rparr>)"
proof -
  let ?bytes = "fst (delivered reader)"
  let ?lines = "log_lines ?bytes"
  have positive: "0 < TAIL_BATCH_TARGET_BYTES" "0 < TAIL_BATCH_MAX_RECORDS"
    by (simp_all add: TAIL_BATCH_TARGET_BYTES_def TAIL_BATCH_MAX_RECORDS_def)
  have new: "reading (GoLineReader_new reader None ''read event log for tail'') [] ?bytes (snd (delivered reader)) 1"
    by (rule new_reading)
  have saturated: "saturating_add b (saturating_add 0 n) = saturating_add b n" for b n by simp
  have "read_tail_batch num reader base_offset =
      and_then (batch_outcome (take (batch_count 0 0 ?lines) (tail_chunk_loop num base_offset 0 1 ?bytes))
        (saturating_add 0 (length (concat (take (batch_count 0 0 ?lines) ?lines))))
        (batch_deferred ''read event log for tail'' 0 0 ?lines (snd (delivered reader))))
      (\<lambda>(records, consumed, deferred).
         Inr \<lparr>tr_records = records, tr_next_offset = saturating_add base_offset consumed,
              tr_deferred_error = deferred\<rparr>)"
    unfolding read_tail_batch_def
    using tail_loop_outcome [OF new, of 0 num base_offset "[]"] positive
    by (simp add: Let_def)
  moreover have "take (batch_count 0 0 ?lines) (tail_chunk_loop num base_offset 0 1 ?bytes) = [] \<longleftrightarrow> ?bytes = []"
    using chunk_loop_length [of num base_offset 0 1 ?bytes] positive
    by (cases "?bytes = []") (auto simp: log_lines.simps [of ?bytes] log_lines.simps [of "[]"])
  ultimately show ?thesis
    by (auto simp: tail_chunk_def batch_outcome_def and_then_def Let_def split: option.split list.split)
qed

fun tail_raw :: "'n TailRecord \<Rightarrow> string" where
  "tail_raw (TailEvent event _ _) = de_raw_line event"
| "tail_raw (TailCorrupt _ raw_line _ _) = raw_line"

lemma tail_record_parts [simp]:
  "tail_raw (tail_record num line a b) = sl_raw line"
  "tail_start_offset (tail_record num line a b) = a" "tail_next_offset (tail_record num line a b) = b"
  by (simp_all add: tail_record_def decoded_event_def split: sum.split)

lemma chunk_loop_raw: "map tail_raw (tail_chunk_loop num base_offset c i s) = log_lines s"
proof (induction num base_offset c i s rule: tail_chunk_loop.induct)
  case (1 num base_offset c i s)
  then show ?case
    by (simp add: tail_chunk_loop.simps [of num base_offset c i s] log_lines.simps [of s] Let_def)
qed

lemma no_lines [simp]: "log_lines [] = []" "tail_chunk_loop num base_offset c i [] = []"
  by (simp_all add: log_lines.simps [of "[]"] tail_chunk_loop.simps [of num base_offset c i "[]"])

lemma chunk_loop_offsets:
  "map tail_start_offset (tail_chunk_loop num base_offset c i s) =
     map (\<lambda>j. saturating_add base_offset (c + length (concat (take j (log_lines s))))) [0..<length (log_lines s)]"
  "map tail_next_offset (tail_chunk_loop num base_offset c i s) =
     map (\<lambda>j. saturating_add base_offset (c + length (concat (take (Suc j) (log_lines s))))) [0..<length (log_lines s)]"
proof (induction num base_offset c i s rule: tail_chunk_loop.induct)
  case (1 num base_offset c i s)
  have upt: "[0..<Suc n] = 0 # map Suc [0..<n]" for n by (simp add: upt_conv_Cons map_Suc_upt del: upt_Suc)
  {
    case 1
    then show ?case
      using "1.IH"(1) by (cases "s = []")
        (simp_all add: tail_chunk_loop.simps [of num base_offset c i s] log_lines.simps [of s] Let_def upt o_def
          add.assoc del: upt_Suc)
  next
    case 2
    then show ?case
      using "1.IH"(2) by (cases "s = []")
        (simp_all add: tail_chunk_loop.simps [of num base_offset c i s] log_lines.simps [of s] Let_def upt o_def
          add.assoc del: upt_Suc)
  }
qed

lemma log_lines_drop:
  "log_lines (drop (length (concat (take k (log_lines s)))) s) = drop k (log_lines s)"
proof (induction k arbitrary: s)
  case (Suc k)
  show ?case
  proof (cases "s = []")
    case False
    then have "log_lines s = first_line s # log_lines (drop (length (first_line s)) s)"
      by (simp add: log_lines.simps [of s])
    then show ?thesis using Suc [of "drop (length (first_line s)) s"] by (simp add: add.commute)
  qed (simp add: log_lines.simps [of "[]"])
qed simp

lemma take_map_upt: "k \<le> n \<Longrightarrow> take k (map f [0..<n]) = map f [0..<k]"
  by (simp add: take_map take_upt)

lemma batch_count_bounds:
  "batch_count n c lines \<le> length lines"
  "batch_count n c lines \<le> TAIL_BATCH_MAX_RECORDS - n"
  by (induction n c lines rule: batch_count.induct) auto

lemma batch_count_bytes:
  "c < TAIL_BATCH_TARGET_BYTES \<Longrightarrow>
     c + length (concat (butlast (take (batch_count n c lines) lines))) < TAIL_BATCH_TARGET_BYTES"
proof (induction n c lines rule: batch_count.induct)
  case (2 n c l ls)
  show ?case
  proof (cases "TAIL_BATCH_MAX_RECORDS \<le> n \<or> TAIL_BATCH_TARGET_BYTES \<le> c + length l")
    case True
    then show ?thesis using "2.prems" by (auto simp: batch_reached)
  next
    case False
    then show ?thesis using 2 by (simp add: add.assoc)
  qed
qed simp

text \<open>C34. A tail batch is a prefix of the records of the delivered bytes with their offsets: a line is
  taken while fewer than 256 records and fewer than 256 KiB precede it. The next offset is the end of
  the last line taken. A read failure is reported after the lines before it, or at once if there are none.\<close>

theorem tail_batch_exact:
  "read_tail_batch num (reader :: 'e ReadStep list) base_offset =
    (let bytes = fst (delivered reader); lines = log_lines bytes; k = batch_count 0 0 lines;
         deferred = batch_deferred ''read event log for tail'' 0 0 lines (snd (delivered reader));
         all = tr_records (tail_chunk num bytes base_offset :: ('n, 'e) TailRead)
     in case (bytes, deferred) of
          ([], Some error) \<Rightarrow> Inl error
        | _ \<Rightarrow> Inr \<lparr>tr_records = take k all,
                    tr_next_offset = saturating_add base_offset (length (concat (take k lines))),
                    tr_deferred_error = deferred\<rparr>)"
  by (rule read_tail_batch_lines)

text \<open>C35. A batch cuts the bytes at a line end: its raw lines are the first lines of the bytes, the rest of
  the bytes holds exactly the remaining lines, and the next offset lies between them, so tails at
  successive offsets give every line once. Records carry consecutive byte ranges. A batch has at most
  256 records, all but the last under 256 KiB together, and none only at the end.\<close>

theorem tail_resumes:
  assumes "read_tail_batch num reader base_offset = Inr batch"
  shows "let bytes = fst (delivered reader); records = tr_records batch; raws = map tail_raw records;
             rest = drop (length (concat raws)) bytes;
             offset = (\<lambda>j. saturating_add base_offset (length (concat (take j raws))))
    in bytes = concat raws @ rest \<and> log_lines bytes = raws @ log_lines rest \<and>
       map tail_start_offset records = map offset [0..<length records] \<and>
       map tail_next_offset records = map (\<lambda>j. offset (j + 1)) [0..<length records] \<and>
       tr_next_offset batch = offset (length records) \<and>
       length records \<le> TAIL_BATCH_MAX_RECORDS \<and>
       length (concat (butlast raws)) < TAIL_BATCH_TARGET_BYTES \<and> (records = []) = (bytes = [])"
proof -
  let ?bytes = "fst (delivered reader)"
  let ?lines = "log_lines ?bytes"
  let ?k = "batch_count 0 0 ?lines"
  let ?records = "take ?k (tail_chunk_loop num base_offset 0 1 ?bytes)"
  have positive: "0 < TAIL_BATCH_TARGET_BYTES" "0 < TAIL_BATCH_MAX_RECORDS"
    by (simp_all add: TAIL_BATCH_TARGET_BYTES_def TAIL_BATCH_MAX_RECORDS_def)
  have batch: "tr_records batch = ?records"
    "tr_next_offset batch = saturating_add base_offset (length (concat (take ?k ?lines)))"
    using assms read_tail_batch_lines [of num reader base_offset]
    by (auto simp: tail_chunk_def Let_def split: list.splits option.splits)
  have k: "?k \<le> length ?lines" "?k \<le> TAIL_BATCH_MAX_RECORDS" using batch_count_bounds [of 0 0 ?lines] by simp_all
  have raws: "map tail_raw ?records = take ?k ?lines" by (simp add: take_map [symmetric] chunk_loop_raw)
  have len: "length ?records = ?k" using k by (simp add: chunk_loop_length)
  have rest: "log_lines (drop (length (concat (take ?k ?lines))) ?bytes) = drop ?k ?lines" by (rule log_lines_drop)
  have bytes: "?bytes = concat (take ?k ?lines) @ drop (length (concat (take ?k ?lines))) ?bytes"
  proof -
    have "?bytes = concat (take ?k ?lines) @ concat (drop ?k ?lines)"
      using log_lines_concat [of ?bytes] by (metis append_take_drop_id concat_append)
    then show ?thesis by (metis append_eq_conv_conj)
  qed
  have starts: "map tail_start_offset ?records =
      map (\<lambda>j. saturating_add base_offset (length (concat (take j (take ?k ?lines))))) [0..<?k]"
    using k by (auto simp: take_map [symmetric] chunk_loop_offsets(1) take_map_upt min_absorb1)
  have nexts: "map tail_next_offset ?records =
      map (\<lambda>j. saturating_add base_offset (length (concat (take (j + 1) (take ?k ?lines))))) [0..<?k]"
    using k by (auto simp: take_map [symmetric] chunk_loop_offsets(2) take_map_upt min_absorb1)
  have empty: "?k = 0 \<longleftrightarrow> ?bytes = []" using positive by (auto simp: log_lines.simps [of ?bytes])
  have none: "(?records = []) = (?bytes = [])" using len empty by (metis length_0_conv)
  have less: "length (concat (butlast (take ?k ?lines))) < TAIL_BATCH_TARGET_BYTES"
    using batch_count_bytes [OF positive(1), of 0 ?lines] by simp
  show ?thesis
    unfolding Let_def batch(1) raws len
    by (intro conjI; (rule bytes starts nexts k(2) less none)?) (simp_all add: rest batch(2))
qed

definition sample_batch :: "(unit, unit) TailRead" where
  "sample_batch =
     \<lparr>tr_records = [tail_record (\<lambda>_. None) \<lparr>sl_raw = [CHR ''a'', CHR 0x0A], sl_line_index = 1\<rparr> 5 7,
        tail_record (\<lambda>_. None) \<lparr>sl_raw = ''b'', sl_line_index = 2\<rparr> 7 8],
      tr_next_offset = 8, tr_deferred_error = Some (EventLogIo ''read event log for tail'' ())\<rparr>"

theorem tail_resumes_witness:
  "read_tail_batch (\<lambda>_. None) [Chunk ''a'', Chunk [CHR 0x0A, CHR ''b''], ReadFails ()] 5 = Inr sample_batch \<and>
   map tail_raw (tr_records sample_batch) = log_lines [CHR ''a'', CHR 0x0A, CHR ''b''] \<and>
   map tail_start_offset (tr_records sample_batch) = [5, 7]"
proof -
  let ?steps = "[Chunk ''a'', Chunk [CHR 0x0A, CHR ''b''], ReadFails ()]"
  have lines: "log_lines [CHR ''a'', CHR 0x0A, CHR ''b''] = [[CHR ''a'', CHR 0x0A], ''b'']"
    by (simp add: log_lines.simps first_line_def newline_char_def)
  have read: "read_tail_batch (\<lambda>_. None) ?steps 5 = Inr sample_batch"
    by (simp add: read_tail_batch_lines lines batch_deferred_def fault_met_def line_ended_def newline_char_def
        TAIL_BATCH_MAX_RECORDS_def TAIL_BATCH_TARGET_BYTES_def tail_chunk_def tail_chunk_loop.simps
        first_line_def sample_batch_def saturating_add_def U64_LIMIT_def Let_def
        numeral_2_eq_2 [symmetric])
  from tail_resumes [OF read] show ?thesis
    using read by (simp add: sample_batch_def lines saturating_add_def U64_LIMIT_def upt_rec Let_def)
qed

end
