(* ===== verification/Audit_Chain.thy ===== *)
theory Audit_Chain
  imports Event_Codec Exec_Values
begin

text \<open>
  The audit chain (\<^verbatim>\<open>orchestrator-app/src/audit_chain.rs\<close>) and its tables
  (\<^verbatim>\<open>orchestrator-app/src/runtime_store.rs\<close>): digests as hexadecimal text, the append of an entry with
  the head claim, and the verification of a chain from its beginning or from a checkpoint. SHA-256 is
  a parameter; so is everything by which the database can fail.
\<close>

section \<open>Digests\<close>

text \<open>A digest is its 32 bytes.\<close>

type_synonym ChainDigest = string

datatype 'e RuntimeStoreError =
    InvalidIntent string
  | CorruptDatabase
  | Operation string 'e
  | OtherStoreError 'e

datatype 'e AuditChainError =
    Store "'e RuntimeStoreError"
  | MalformedDigest
  | CheckpointBeyondHead

definition GENESIS :: ChainDigest where "GENESIS = replicate 32 (CHR 0x00)"
definition GENESIS_DIGEST_HEX :: string where "GENESIS_DIGEST_HEX = replicate 64 (CHR ''0'')"

definition is_genesis :: "ChainDigest \<Rightarrow> bool" where
  "is_genesis d \<longleftrightarrow> d = GENESIS"

definition hex_digit :: "nat \<Rightarrow> char" where
  "hex_digit nibble = (if nibble \<le> 9 then char_of (48 + nibble) else char_of (97 + nibble - 10))"

definition hex_value :: "char \<Rightarrow> 'e AuditChainError + nat" where
  "hex_value b =
     (if 48 \<le> byte b \<and> byte b \<le> 57 then Inr (byte b - 48)
      else if 97 \<le> byte b \<and> byte b \<le> 102 then Inr (byte b - 97 + 10)
      else Inl MalformedDigest)"

fun parse_pairs :: "string \<Rightarrow> 'e AuditChainError + string" where
  "parse_pairs (a # b # s) =
     and_then (hex_value a) (\<lambda>high.
     and_then (hex_value b) (\<lambda>low.
     and_then (parse_pairs s) (\<lambda>bytes. Inr (char_of (high * 16 + low) # bytes))))"
| "parse_pairs _ = Inr []"

definition ChainDigest_parse :: "string \<Rightarrow> 'e AuditChainError + ChainDigest" where
  "ChainDigest_parse s = (if length s \<noteq> 64 then Inl MalformedDigest else parse_pairs s)"

definition to_hex :: "ChainDigest \<Rightarrow> string" where
  "to_hex d = concat (map (\<lambda>b. [hex_digit (byte b div 16), hex_digit (byte b mod 16)]) d)"

definition digest_payload :: "(string \<Rightarrow> string) \<Rightarrow> string \<Rightarrow> ChainDigest" where
  "digest_payload sha256 payload_json = sha256 payload_json"

text \<open>\<open>field\<close> digests a length and the bytes.\<close>

definition chain_field :: "string \<Rightarrow> string" where
  "chain_field bytes = be_bytes 8 (len_u64 bytes) @ bytes"

definition link_bytes :: "ChainDigest \<Rightarrow> ChainDigest \<Rightarrow> nat \<Rightarrow> string \<Rightarrow> string" where
  "link_bytes prev payload sequence recorded_at =
     chain_field prev @ chain_field payload @ chain_field (be_bytes 8 sequence) @ chain_field recorded_at"

definition link_digest :: "(string \<Rightarrow> string) \<Rightarrow> ChainDigest \<Rightarrow> ChainDigest \<Rightarrow> nat \<Rightarrow> string \<Rightarrow> ChainDigest" where
  "link_digest sha256 prev payload sequence recorded_at = sha256 (link_bytes prev payload sequence recorded_at)"

section \<open>Tables\<close>

record StoredAuditRow =
  sr_sequence :: int
  sr_prev_digest :: string
  sr_namespace :: string
  sr_type_name :: string
  sr_identity :: string
  sr_payload_json :: string
  sr_payload_digest :: string
  sr_recorded_at_utc :: string
  sr_link_digest :: string

text \<open>
  The two tables, and the greatest row number ever given, which \<open>AUTOINCREMENT\<close> remembers. The second
  record says what fails: whether the store holds a connection, an operation by its name, what the checks
  of the retained files (before and after a transaction) and of the schema answer, and with what error the
  database rejects a statement that a constraint or a trigger forbids. Its last field is serde's writer,
  which the check of a timestamp runs.
\<close>

record AuditTables =
  at_rows :: "StoredAuditRow list"
  at_head :: "(int \<times> string) option"
  at_last_rowid :: int

record 'e StoreEnv =
  se_connected :: bool
  se_fails :: "string \<Rightarrow> 'e option"
  se_retained :: "'e RuntimeStoreError option"
  se_schema :: "'e RuntimeStoreError option"
  se_retained_after :: "'e RuntimeStoreError option"
  se_to_string :: "int Value \<Rightarrow> string option"
  se_rejected :: 'e

definition I64_LIMIT :: int where "I64_LIMIT = 9223372036854775807"
definition MAX_IDENTIFIER_BYTES :: nat where "MAX_IDENTIFIER_BYTES = 256"
definition MAX_JSON_BYTES :: nat where "MAX_JSON_BYTES = 1024 * 1024 - 1"
definition MAX_AUDIT_CHAIN_PAGE :: nat where "MAX_AUDIT_CHAIN_PAGE = 1024"

definition connection :: "'e StoreEnv \<Rightarrow> 'e RuntimeStoreError + unit" where
  "connection env = (if se_connected env then Inr () else Inl CorruptDatabase)"

definition store_check :: "'e RuntimeStoreError option \<Rightarrow> 'e RuntimeStoreError + unit" where
  "store_check failure = (case failure of Some e \<Rightarrow> Inl e | None \<Rightarrow> Inr ())"

definition operation :: "'e StoreEnv \<Rightarrow> string \<Rightarrow> 'e RuntimeStoreError + unit" where
  "operation env name = (case se_fails env name of Some e \<Rightarrow> Inl (Operation name e) | None \<Rightarrow> Inr ())"

definition runtime_probe :: "string \<Rightarrow> int EventRecord" where
  "runtime_probe timestamp =
     \<lparr>er_id = ''runtime-probe'', er_event_type = ''runtime.probe'', er_timestamp = timestamp, er_sequence = 1,
      er_mission_id = ''runtime-probe'', er_phase_id = None, er_worker_id = None, er_data = None, er_extra = []\<rparr>"

definition validate_timestamp :: "'e StoreEnv \<Rightarrow> string \<Rightarrow> 'e RuntimeStoreError + unit" where
  "validate_timestamp env v =
     (if \<not> (v \<noteq> [] \<and> last v = CHR ''Z'') then Inl (InvalidIntent ''timestamp must use canonical UTC with a Z suffix'')
      else case encode_current_event (se_to_string env) (\<lambda>i. i) (runtime_probe v) of
             Inl _ \<Rightarrow> Inl (InvalidIntent ''timestamp is not valid RFC3339'')
           | Inr _ \<Rightarrow> Inr ())"

definition validate_atom :: "string \<Rightarrow> nat \<Rightarrow> 'e RuntimeStoreError + unit" where
  "validate_atom v maximum =
     (if v = [] \<or> maximum < length v \<or> \<not> is_ascii v \<or> has_control v
      then Inl (InvalidIntent ''an identifier or kind is empty, oversized, or contains control text'')
      else Inr ())"

record AuditChainAppend =
  ap_prev_digest :: string
  ap_namespace :: string
  ap_type_name :: string
  ap_identity :: string
  ap_payload_json :: string
  ap_payload_digest :: string
  ap_recorded_at_utc :: string
  ap_link_digest :: string

definition validate_append :: "'e StoreEnv \<Rightarrow> AuditChainAppend \<Rightarrow> 'e RuntimeStoreError + unit" where
  "validate_append env a =
     and_then (validate_timestamp env (ap_recorded_at_utc a)) (\<lambda>_.
     and_then (try_each (\<lambda>v. validate_atom v MAX_IDENTIFIER_BYTES)
       [ap_namespace a, ap_type_name a, ap_identity a, ap_prev_digest a, ap_payload_digest a, ap_link_digest a]) (\<lambda>_.
     if ap_payload_json a = [] \<or> MAX_JSON_BYTES < length (ap_payload_json a)
     then Inl (InvalidIntent ''audit chain payload is empty or exceeds the JSON bound'')
     else Inr ()))"

definition appended_row :: "int \<Rightarrow> AuditChainAppend \<Rightarrow> StoredAuditRow" where
  "appended_row sequence a =
     \<lparr>sr_sequence = sequence, sr_prev_digest = ap_prev_digest a, sr_namespace = ap_namespace a,
      sr_type_name = ap_type_name a, sr_identity = ap_identity a, sr_payload_json = ap_payload_json a,
      sr_payload_digest = ap_payload_digest a, sr_recorded_at_utc = ap_recorded_at_utc a,
      sr_link_digest = ap_link_digest a\<rparr>"

text \<open>The insertion: row numbers never repeat, and links are unique.\<close>

definition insert_row ::
    "'e StoreEnv \<Rightarrow> AuditChainAppend \<Rightarrow> AuditTables \<Rightarrow> 'e RuntimeStoreError + int \<times> AuditTables" where
  "insert_row env a t =
     and_then (operation env ''append audit chain entry'') (\<lambda>_.
       let sequence = at_last_rowid t + 1 in
       if ap_link_digest a \<in> set (map sr_link_digest (at_rows t)) \<or> I64_LIMIT < sequence
       then Inl (Operation ''append audit chain entry'' (se_rejected env))
       else Inr (sequence, t\<lparr>at_rows := at_rows t @ [appended_row sequence a], at_last_rowid := sequence\<rparr>))"

text \<open>The head claim: a trigger rejects an update that does not advance it; the first claim is inserted.\<close>

definition advance_head ::
    "'e StoreEnv \<Rightarrow> int \<Rightarrow> string \<Rightarrow> AuditTables \<Rightarrow> 'e RuntimeStoreError + AuditTables" where
  "advance_head env sequence link t =
     and_then (operation env ''advance audit chain head'') (\<lambda>_.
       case at_head t of
         Some (old, _) \<Rightarrow>
           if sequence \<le> old then Inl (Operation ''advance audit chain head'' (se_rejected env))
           else Inr (t\<lparr>at_head := Some (sequence, link)\<rparr>)
       | None \<Rightarrow>
           and_then (operation env ''open audit chain head'') (\<lambda>_. Inr (t\<lparr>at_head := Some (sequence, link)\<rparr>)))"

text \<open>The body of the transaction; an error rolls it back.\<close>

definition append_transaction ::
    "'e StoreEnv \<Rightarrow> AuditChainAppend \<Rightarrow> AuditTables \<Rightarrow> 'e RuntimeStoreError + int \<times> AuditTables" where
  "append_transaction env a t =
     and_then (operation env ''begin audit chain append transaction'') (\<lambda>_.
     and_then (store_check (se_schema env)) (\<lambda>_.
     and_then (operation env ''read audit chain head'') (\<lambda>_.
     let head = (case at_head t of Some (sequence, _) \<Rightarrow> sequence | None \<Rightarrow> 0) in
     and_then (insert_row env a t) (\<lambda>(sequence, t).
       if sequence \<noteq> min (head + 1) I64_LIMIT
       then and_then (operation env ''close audit chain append transaction'') (\<lambda>_. Inl CorruptDatabase)
       else
         and_then (advance_head env sequence (ap_link_digest a) t) (\<lambda>t.
         and_then (operation env ''commit audit chain append transaction'') (\<lambda>_. Inr (sequence, t)))))))"

definition append_audit_chain ::
    "'e StoreEnv \<Rightarrow> AuditChainAppend \<Rightarrow> AuditTables \<Rightarrow> ('e RuntimeStoreError + nat) \<times> AuditTables" where
  "append_audit_chain env a t =
     (case and_then (validate_append env a) (\<lambda>_.
        and_then (store_check (se_retained env)) (\<lambda>_.
        and_then (connection env) (\<lambda>_. append_transaction env a t))) of
        Inl e \<Rightarrow> (Inl e, t)
      | Inr (sequence, t') \<Rightarrow>
          (and_then (store_check (se_retained_after env)) (\<lambda>_.
             if sequence < 0 then Inl CorruptDatabase else Inr (nat sequence)), t'))"

definition audit_chain_head :: "'e StoreEnv \<Rightarrow> AuditTables \<Rightarrow> 'e RuntimeStoreError + nat \<times> string" where
  "audit_chain_head env t =
     and_then (connection env) (\<lambda>_.
     and_then (operation env ''read audit chain head'') (\<lambda>_.
       case at_head t of
         None \<Rightarrow> Inr (0, GENESIS_DIGEST_HEX)
       | Some (sequence, digest) \<Rightarrow> if sequence < 0 then Inl CorruptDatabase else Inr (nat sequence, digest)))"

definition audit_chain_rows ::
    "'e StoreEnv \<Rightarrow> AuditTables \<Rightarrow> nat \<Rightarrow> nat \<Rightarrow> 'e RuntimeStoreError + StoredAuditRow list" where
  "audit_chain_rows env t from_sequence limit =
     (if limit = 0 \<or> MAX_AUDIT_CHAIN_PAGE < limit
      then Inl (InvalidIntent ''audit chain page is zero or exceeds the page bound'')
      else if I64_LIMIT < int from_sequence then Inl CorruptDatabase
      else
        and_then (connection env) (\<lambda>_.
        and_then (operation env ''prepare audit chain scan'') (\<lambda>_.
        and_then (operation env ''query audit chain scan'') (\<lambda>_.
        and_then (operation env ''decode audit chain'') (\<lambda>_.
          Inr (take limit (sort_key sr_sequence (filter (\<lambda>r. int from_sequence \<le> sr_sequence r) (at_rows t)))))))))"

section \<open>Append\<close>

record AuditChainEntry =
  ae_sequence :: nat
  ae_prev_digest :: ChainDigest
  ae_payload_digest :: ChainDigest
  ae_recorded_at :: string
  ae_link_digest :: ChainDigest

text \<open>What \<open>append\<close> reads of the evidence of a publication.\<close>

record AuditEvidence =
  ev_namespace :: string
  ev_type_name :: string
  ev_identity :: string

text \<open>\<open>saturating_add(1)\<close> on \<open>u64\<close>.\<close>

definition chain_sequence :: "nat \<Rightarrow> nat" where
  "chain_sequence n = (if n < U64_MAX then n + 1 else n)"

definition AuditChain_append ::
    "(string \<Rightarrow> string) \<Rightarrow> 'e StoreEnv \<Rightarrow> AuditEvidence \<Rightarrow> string \<Rightarrow> string \<Rightarrow> AuditTables \<Rightarrow>
       ('e AuditChainError + AuditChainEntry) \<times> AuditTables" where
  "AuditChain_append sha256 env evidence payload_json recorded_at_utc t =
     (case and_then (map_err Store (audit_chain_head env t)) (\<lambda>(head_sequence, head_digest).
        and_then (ChainDigest_parse head_digest) (\<lambda>prev. Inr (head_sequence, prev))) of
        Inl e \<Rightarrow> (Inl e, t)
      | Inr (head_sequence, prev) \<Rightarrow>
          (let payload = digest_payload sha256 payload_json;
               sequence = chain_sequence head_sequence;
               link = link_digest sha256 prev payload sequence recorded_at_utc;
               a = \<lparr>ap_prev_digest = to_hex prev, ap_namespace = ev_namespace evidence,
                 ap_type_name = ev_type_name evidence, ap_identity = ev_identity evidence,
                 ap_payload_json = payload_json, ap_payload_digest = to_hex payload,
                 ap_recorded_at_utc = recorded_at_utc, ap_link_digest = to_hex link\<rparr>
           in case append_audit_chain env a t of
                (Inl e, t') \<Rightarrow> (Inl (Store e), t')
              | (Inr assigned, t') \<Rightarrow>
                  if assigned \<noteq> sequence then (Inl (Store CorruptDatabase), t')
                  else (Inr \<lparr>ae_sequence = sequence, ae_prev_digest = prev, ae_payload_digest = payload,
                          ae_recorded_at = recorded_at_utc, ae_link_digest = link\<rparr>, t')))"

section \<open>Verification\<close>

record VerifiedChainHead =
  vh_sequence :: nat
  vh_link_digest :: ChainDigest

datatype ChainRange = FromGenesis | FromCheckpoint VerifiedChainHead

datatype ChainFault =
    GenesisMismatch ChainDigest
  | SequenceGap nat nat
  | LinkMismatch nat
  | PayloadMutated nat
  | Truncated nat nat
  | ForgedLink nat
  | CheckpointNotOnChain nat

datatype ChainVerification = Intact VerifiedChainHead | Faulted ChainFault

text \<open>The locals of the walk over the rows.\<close>

record ChainWalk =
  cw_expected :: nat
  cw_previous :: ChainDigest
  cw_last_verified :: nat
  cw_walked :: bool

text \<open>One row: an error, a fault, or the walk behind the row.\<close>

definition walk_row ::
    "(string \<Rightarrow> string) \<Rightarrow> StoredAuditRow \<Rightarrow> ChainWalk \<Rightarrow> 'e AuditChainError + ChainFault + ChainWalk" where
  "walk_row sha256 row w =
     (if sr_sequence row < 0 then Inl MalformedDigest
      else let sequence = nat (sr_sequence row) in
        if sequence \<noteq> cw_expected w then Inr (Inl (SequenceGap (cw_expected w) sequence))
        else
          and_then (ChainDigest_parse (sr_prev_digest row)) (\<lambda>prev.
            if sequence = 1 \<and> \<not> is_genesis prev then Inr (Inl (GenesisMismatch prev))
            else if prev \<noteq> cw_previous w then Inr (Inl (LinkMismatch sequence))
            else
              and_then (ChainDigest_parse (sr_payload_digest row)) (\<lambda>recorded.
                if digest_payload sha256 (sr_payload_json row) \<noteq> recorded then Inr (Inl (PayloadMutated sequence))
                else
                  and_then (ChainDigest_parse (sr_link_digest row)) (\<lambda>stored.
                    if stored \<noteq> link_digest sha256 prev recorded sequence (sr_recorded_at_utc row)
                    then Inr (Inl (ForgedLink sequence))
                    else Inr (Inr \<lparr>cw_expected = chain_sequence sequence, cw_previous = stored,
                                   cw_last_verified = sequence, cw_walked = True\<rparr>)))))"

fun walk_rows ::
    "(string \<Rightarrow> string) \<Rightarrow> StoredAuditRow list \<Rightarrow> ChainWalk \<Rightarrow> 'e AuditChainError + ChainFault + ChainWalk" where
  "walk_rows sha256 [] w = Inr (Inr w)"
| "walk_rows sha256 (row # rows) w =
     (case walk_row sha256 row w of
        Inl e \<Rightarrow> Inl e
      | Inr (Inl fault) \<Rightarrow> Inr (Inl fault)
      | Inr (Inr w') \<Rightarrow> walk_rows sha256 rows w')"

lemma walk_row_expected:
  "walk_row sha256 row w = Inr (Inr w') \<Longrightarrow>
   sr_sequence row = int (cw_expected w) \<and> cw_expected w' = chain_sequence (cw_expected w)"
  by (auto simp: walk_row_def and_then_def Let_def split: if_splits sum.splits)

lemma chain_sequence_le: "n \<le> chain_sequence n"
  by (simp add: chain_sequence_def)

lemma walk_rows_Cons:
  "(walk_rows sha256 (row # rows) w :: 'e AuditChainError + ChainFault + ChainWalk) = Inr (Inr w') \<longleftrightarrow>
   (\<exists>v. (walk_row sha256 row w :: 'e AuditChainError + ChainFault + ChainWalk) = Inr (Inr v) \<and>
      (walk_rows sha256 rows v :: 'e AuditChainError + ChainFault + ChainWalk) = Inr (Inr w'))"
  by (auto split: sum.splits)

lemma walk_rows_expected: "(walk_rows sha256 rows w :: 'e AuditChainError + ChainFault + ChainWalk) = Inr (Inr w') \<Longrightarrow> cw_expected w \<le> cw_expected w'"
proof (induction rows arbitrary: w)
  case (Cons row rows)
  then obtain v where row: "walk_row sha256 row w = (Inr (Inr v) :: 'e AuditChainError + ChainFault + ChainWalk)"
    and rest: "walk_rows sha256 rows v = (Inr (Inr w') :: 'e AuditChainError + ChainFault + ChainWalk)"
    by (auto simp only: walk_rows_Cons)
  have "cw_expected v \<le> cw_expected w'" using Cons.IH [OF rest] .
  then show ?case using walk_row_expected [OF row] chain_sequence_le [of "cw_expected w"] by simp
qed simp

lemma page_read:
  assumes "audit_chain_rows env t from limit = Inr rows"
  shows "rows = take limit (sort_key sr_sequence (filter (\<lambda>r. int from \<le> sr_sequence r) (at_rows t)))"
    "int from \<le> I64_LIMIT" "0 < limit"
  using assms by (auto simp: audit_chain_rows_def and_then_def split: if_splits sum.splits)

text \<open>Every page that is walked leaves fewer rows to read.\<close>

lemma page_advances:
  assumes page: "audit_chain_rows env t (cw_expected w) limit = Inr (row # rows)"
    and walk: "walk_rows sha256 (row # rows) w = (Inr (Inr w') :: 'f AuditChainError + ChainFault + ChainWalk)"
  shows "length (filter (\<lambda>r. int (cw_expected w') \<le> sr_sequence r) (at_rows t)) <
    length (filter (\<lambda>r. int (cw_expected w) \<le> sr_sequence r) (at_rows t))"
proof -
  obtain v where first: "walk_row sha256 row w = (Inr (Inr v) :: 'f AuditChainError + ChainFault + ChainWalk)"
    and rest: "walk_rows sha256 rows v = (Inr (Inr w') :: 'f AuditChainError + ChainFault + ChainWalk)"
    using walk by (auto simp only: walk_rows_Cons)
  note first = walk_row_expected [OF first]
  have "cw_expected w < U64_MAX" using page_read(2) [OF page] by (simp add: I64_LIMIT_def U64_MAX_def)
  then have less: "cw_expected w < cw_expected w'"
    using first walk_rows_expected [OF rest] by (simp add: chain_sequence_def)
  have "row \<in> set (take limit (sort_key sr_sequence (filter (\<lambda>r. int (cw_expected w) \<le> sr_sequence r) (at_rows t))))"
    using page_read(1) [OF page] by (metis list.set_intros(1))
  then have row: "row \<in> set (at_rows t)" by (auto dest: in_set_takeD)
  have imp: "int (cw_expected w') \<le> sr_sequence r \<Longrightarrow> int (cw_expected w) \<le> sr_sequence r" for r
    using less by simp
  have sub: "filter (\<lambda>r. int (cw_expected w') \<le> sr_sequence r) (at_rows t) =
      filter (\<lambda>r. int (cw_expected w') \<le> sr_sequence r) (filter (\<lambda>r. int (cw_expected w) \<le> sr_sequence r) (at_rows t))"
    using less by (auto intro: filter_cong)
  show ?thesis unfolding sub
    by (rule length_filter_less [of row]) (use row first less in auto)
qed

function verify_pages ::
    "(string \<Rightarrow> string) \<Rightarrow> 'e StoreEnv \<Rightarrow> AuditTables \<Rightarrow> ChainWalk \<Rightarrow> 'e AuditChainError + ChainFault + ChainWalk" where
  "verify_pages sha256 env t w =
     (case audit_chain_rows env t (cw_expected w) MAX_AUDIT_CHAIN_PAGE of
        Inl e \<Rightarrow> Inl (Store e)
      | Inr [] \<Rightarrow> Inr (Inr w)
      | Inr (row # rows) \<Rightarrow>
          (case walk_rows sha256 (row # rows) w of
             Inl e \<Rightarrow> Inl e
           | Inr (Inl fault) \<Rightarrow> Inr (Inl fault)
           | Inr (Inr w') \<Rightarrow> verify_pages sha256 env t w'))"
  by pat_completeness auto
termination
  by (relation "measure (\<lambda>(_, _, t, w). length (filter (\<lambda>r. int (cw_expected w) \<le> sr_sequence r) (at_rows t)))")
     (auto intro: page_advances)

declare verify_pages.simps [simp del]

definition start_walk :: "VerifiedChainHead option \<Rightarrow> ChainWalk" where
  "start_walk checkpoint =
     (let (expected, previous) = (case checkpoint of
          None \<Rightarrow> (1, GENESIS)
        | Some head \<Rightarrow> (chain_sequence (vh_sequence head), vh_link_digest head))
      in \<lparr>cw_expected = expected, cw_previous = previous, cw_last_verified = expected - 1, cw_walked = False\<rparr>)"

text \<open>The row a checkpoint names, when no row behind it was walked.\<close>

definition on_this_chain :: "VerifiedChainHead \<Rightarrow> StoredAuditRow list \<Rightarrow> 'e AuditChainError + bool" where
  "on_this_chain head anchor =
     (case anchor of
        [] \<Rightarrow> Inr False
      | row # _ \<Rightarrow>
          if 0 \<le> sr_sequence row \<and> nat (sr_sequence row) = vh_sequence head
          then and_then (ChainDigest_parse (sr_link_digest row)) (\<lambda>d. Inr (d = vh_link_digest head))
          else Inr False)"

definition check_anchor ::
    "'e StoreEnv \<Rightarrow> AuditTables \<Rightarrow> VerifiedChainHead option \<Rightarrow> ChainWalk \<Rightarrow> 'e AuditChainError + ChainFault option" where
  "check_anchor env t checkpoint w =
     (case checkpoint of
        None \<Rightarrow> Inr None
      | Some head \<Rightarrow>
          if \<not> cw_walked w \<and> 0 < vh_sequence head then
            and_then (map_err Store (audit_chain_rows env t (vh_sequence head) 1)) (\<lambda>anchor.
            and_then (on_this_chain head anchor) (\<lambda>ok.
              Inr (if ok then None else Some (CheckpointNotOnChain (vh_sequence head)))))
          else Inr None)"

definition finish_walk :: "nat \<Rightarrow> ChainWalk \<Rightarrow> ChainVerification" where
  "finish_walk head_claim w =
     (if cw_last_verified w < head_claim then Faulted (Truncated (cw_last_verified w) head_claim)
      else Intact \<lparr>vh_sequence = cw_last_verified w, vh_link_digest = cw_previous w\<rparr>)"

definition admit_range :: "ChainRange \<Rightarrow> nat \<Rightarrow> 'e AuditChainError + VerifiedChainHead option" where
  "admit_range requested head_claim =
     (case requested of
        FromGenesis \<Rightarrow> Inr None
      | FromCheckpoint head \<Rightarrow> if head_claim < vh_sequence head then Inl CheckpointBeyondHead else Inr (Some head))"

definition AuditChain_verify ::
    "(string \<Rightarrow> string) \<Rightarrow> 'e StoreEnv \<Rightarrow> AuditTables \<Rightarrow> ChainRange \<Rightarrow> 'e AuditChainError + ChainVerification" where
  "AuditChain_verify sha256 env t requested =
     and_then (map_err Store (audit_chain_head env t)) (\<lambda>(head_claim, _).
     and_then (admit_range requested head_claim) (\<lambda>checkpoint.
     and_then (verify_pages sha256 env t (start_walk checkpoint)) (\<lambda>walk.
       case walk of
         Inl fault \<Rightarrow> Inr (Faulted fault)
       | Inr w \<Rightarrow>
           and_then (check_anchor env t checkpoint w) (\<lambda>off_chain.
             case off_chain of
               Some fault \<Rightarrow> Inr (Faulted fault)
             | None \<Rightarrow> Inr (finish_walk head_claim w)))))"

definition verification_head :: "ChainVerification \<Rightarrow> VerifiedChainHead option" where
  "verification_head v = (case v of Intact head \<Rightarrow> Some head | Faulted _ \<Rightarrow> None)"

definition verification_fault :: "ChainVerification \<Rightarrow> ChainFault option" where
  "verification_fault v = (case v of Intact _ \<Rightarrow> None | Faulted fault \<Rightarrow> Some fault)"

end
