(* ===== verification/Audit_Correct.thy ===== *)
theory Audit_Correct
  imports Audit_Chain
begin

text \<open>
  What the audit chain promises: a verified chain is exactly a sequence of linked rows behind the head
  claim, appends only ever leave such chains, two verified chains with one head are the same unless
  SHA-256 collides, and a checkpoint gives the answer of a full verification.
\<close>

section \<open>Digests as text\<close>

lemma byte_facts: "byte c < 256" "char_of (byte c) = c" "byte (char_of n) = n mod 256"
  by (simp_all add: byte_def)

lemma hex_value_digit: "n < 16 \<Longrightarrow> hex_value (hex_digit n) = Inr n"
  by (auto simp: hex_digit_def hex_value_def byte_facts)

lemma digest_digit_value:
  assumes "hex_value c = (Inr n :: 'e AuditChainError + nat)"
  shows "hex_digit n = c \<and> n < 16"
proof -
  consider "48 \<le> byte c" "byte c \<le> 57" "n = byte c - 48"
    | "97 \<le> byte c" "byte c \<le> 102" "n = byte c - 97 + 10"
    using assms by (auto simp: hex_value_def split: if_splits)
  then show ?thesis by cases (auto simp: hex_digit_def byte_facts)
qed

lemma parse_to_hex: "parse_pairs (to_hex d) = Inr d"
proof (induction d)
  case Nil
  then show ?case by (simp add: to_hex_def)
next
  case (Cons b d)
  have "byte b < 256" by (rule byte_facts)
  then have "hex_value (hex_digit (byte b div 16)) = (Inr (byte b div 16) :: 'a AuditChainError + nat)"
    by (intro hex_value_digit) simp
  then show ?case using Cons by (simp add: to_hex_def hex_value_digit and_then_def byte_facts)
qed

lemma to_hex_parse:
  "parse_pairs s = (Inr d :: 'e AuditChainError + string) \<Longrightarrow> even (length s) \<Longrightarrow> to_hex d = s"
proof (induction s arbitrary: d rule: induct_list012)
  case (3 a b s)
  then obtain h l ds where v: "hex_value a = (Inr h :: 'e AuditChainError + nat)"
      "hex_value b = (Inr l :: 'e AuditChainError + nat)" and ds: "parse_pairs s = (Inr ds :: 'e AuditChainError + string)"
    and d: "d = char_of (h * 16 + l) # ds"
    by (auto simp: and_then_def split: sum.splits)
  have "to_hex ds = s" using 3 ds by simp
  moreover have "hex_digit h = a" "h < 16" "hex_digit l = b" "l < 16" using digest_digit_value v by blast+
  ultimately show ?case by (simp add: d to_hex_def byte_facts)
qed (auto simp: to_hex_def)

lemma to_hex_length: "length (to_hex d) = 2 * length d"
  by (induction d) (simp_all add: to_hex_def)

lemma parse_digest_iff: "ChainDigest_parse s = (Inr d :: 'e AuditChainError + string) \<longleftrightarrow> length d = 32 \<and> s = to_hex d"
proof
  assume "ChainDigest_parse s = (Inr d :: 'e AuditChainError + string)"
  then have len: "length s = 64" and pairs: "parse_pairs s = (Inr d :: 'e AuditChainError + string)"
    by (auto simp: ChainDigest_parse_def split: if_splits)
  from to_hex_parse [OF pairs] len show "length d = 32 \<and> s = to_hex d" using to_hex_length [of d] by auto
qed (simp add: ChainDigest_parse_def to_hex_length parse_to_hex)

section \<open>Linked rows\<close>

definition next_link :: "(string \<Rightarrow> string) \<Rightarrow> ChainDigest \<Rightarrow> nat \<Rightarrow> StoredAuditRow \<Rightarrow> ChainDigest" where
  "next_link sha256 prev n row =
     link_digest sha256 prev (digest_payload sha256 (sr_payload_json row)) n (sr_recorded_at_utc row)"

text \<open>A row at a place of the chain: everything but its payload, time and names is determined.\<close>

definition row_linked :: "(string \<Rightarrow> string) \<Rightarrow> ChainDigest \<Rightarrow> nat \<Rightarrow> StoredAuditRow \<Rightarrow> bool" where
  "row_linked sha256 prev n row \<longleftrightarrow>
     sr_sequence row = int n \<and> sr_prev_digest row = to_hex prev \<and>
     sr_payload_digest row = to_hex (digest_payload sha256 (sr_payload_json row)) \<and>
     sr_link_digest row = to_hex (next_link sha256 prev n row)"

fun linked :: "(string \<Rightarrow> string) \<Rightarrow> ChainDigest \<Rightarrow> nat \<Rightarrow> StoredAuditRow list \<Rightarrow> bool" where
  "linked sha256 prev n [] \<longleftrightarrow> True"
| "linked sha256 prev n (row # rows) \<longleftrightarrow>
     row_linked sha256 prev n row \<and> linked sha256 (next_link sha256 prev n row) (n + 1) rows"

fun chain_end :: "(string \<Rightarrow> string) \<Rightarrow> ChainDigest \<Rightarrow> nat \<Rightarrow> StoredAuditRow list \<Rightarrow> ChainDigest" where
  "chain_end sha256 prev n [] = prev"
| "chain_end sha256 prev n (row # rows) = chain_end sha256 (next_link sha256 prev n row) (n + 1) rows"

lemma linked_append:
  "linked sha256 prev n (xs @ ys) \<longleftrightarrow>
     linked sha256 prev n xs \<and> linked sha256 (chain_end sha256 prev n xs) (n + length xs) ys"
  by (induction xs arbitrary: prev n) simp_all

lemma chain_end_append:
  "chain_end sha256 prev n (xs @ ys) = chain_end sha256 (chain_end sha256 prev n xs) (n + length xs) ys"
  by (induction xs arbitrary: prev n) simp_all

definition sha_width :: "(string \<Rightarrow> string) \<Rightarrow> bool" where
  "sha_width sha256 \<longleftrightarrow> (\<forall>s. length (sha256 s) = 32)"

lemma next_link_length: "sha_width sha256 \<Longrightarrow> length (next_link sha256 prev n row) = 32"
  by (simp add: sha_width_def next_link_def link_digest_def)

lemma chain_end_length:
  "sha_width sha256 \<Longrightarrow> length prev = 32 \<Longrightarrow> length (chain_end sha256 prev n rows) = 32"
  by (induction rows arbitrary: prev n) (simp_all add: next_link_length)

section \<open>The walk\<close>

definition walk_at :: "nat \<Rightarrow> ChainDigest \<Rightarrow> ChainWalk" where
  "walk_at n link = \<lparr>cw_expected = n + 1, cw_previous = link, cw_last_verified = n, cw_walked = True\<rparr>"

text \<open>A walk that is at a place of the chain where the genesis test is the link test.\<close>

definition walk_ready :: "ChainWalk \<Rightarrow> bool" where
  "walk_ready w \<longleftrightarrow> length (cw_previous w) = 32 \<and> (cw_expected w = 1 \<longrightarrow> cw_previous w = GENESIS)"

lemma walk_row_linked:
  assumes "sha_width sha256" "walk_ready w" "cw_expected w < U64_MAX"
  shows "(walk_row sha256 row w :: 'e AuditChainError + ChainFault + ChainWalk) = Inr (Inr w') \<longleftrightarrow>
    row_linked sha256 (cw_previous w) (cw_expected w) row \<and>
    w' = walk_at (cw_expected w) (next_link sha256 (cw_previous w) (cw_expected w) row)"
proof -
  let ?p = "cw_previous w" and ?n = "cw_expected w"
  have len: "length ?p = 32" "length (digest_payload sha256 x) = 32" "length (next_link sha256 ?p ?n row) = 32" for x
    using assms(1,2) by (auto simp: walk_ready_def sha_width_def digest_payload_def next_link_def link_digest_def)
  show ?thesis
  proof
    assume "(walk_row sha256 row w :: 'e AuditChainError + ChainFault + ChainWalk) = Inr (Inr w')"
    then obtain recorded stored where facts: "sr_sequence row = int ?n"
        "ChainDigest_parse (sr_prev_digest row) = (Inr ?p :: 'e AuditChainError + string)"
        "ChainDigest_parse (sr_payload_digest row) = (Inr recorded :: 'e AuditChainError + string)"
        "digest_payload sha256 (sr_payload_json row) = recorded"
        "ChainDigest_parse (sr_link_digest row) = (Inr stored :: 'e AuditChainError + string)"
        "stored = link_digest sha256 ?p recorded ?n (sr_recorded_at_utc row)"
        "w' = \<lparr>cw_expected = chain_sequence ?n, cw_previous = stored, cw_last_verified = ?n, cw_walked = True\<rparr>"
      by (auto simp: walk_row_def and_then_def Let_def split: if_splits sum.splits)
    then show "row_linked sha256 ?p ?n row \<and> w' = walk_at ?n (next_link sha256 ?p ?n row)"
      using assms(3) by (simp add: parse_digest_iff row_linked_def walk_at_def next_link_def chain_sequence_def)
  next
    assume right: "row_linked sha256 ?p ?n row \<and> w' = walk_at ?n (next_link sha256 ?p ?n row)"
    have parse: "ChainDigest_parse (to_hex d) = (Inr d :: 'e AuditChainError + string)" if "length d = 32" for d
      using that by (simp add: parse_digest_iff)
    have "(walk_row sha256 row w :: 'e AuditChainError + ChainFault + ChainWalk) =
        Inr (Inr (walk_at ?n (next_link sha256 ?p ?n row)))"
      using right assms(2,3) len parse
      by (auto simp: walk_row_def row_linked_def and_then_def walk_at_def chain_sequence_def next_link_def
          walk_ready_def is_genesis_def Let_def)
    then show "(walk_row sha256 row w :: 'e AuditChainError + ChainFault + ChainWalk) = Inr (Inr w')"
      using right by simp
  qed
qed

lemma walk_at_ready: "sha_width sha256 \<Longrightarrow> 0 < n \<Longrightarrow> walk_ready (walk_at n (next_link sha256 prev n row))"
  by (simp add: walk_ready_def walk_at_def next_link_length)

definition walk_behind :: "(string \<Rightarrow> string) \<Rightarrow> ChainWalk \<Rightarrow> StoredAuditRow list \<Rightarrow> ChainWalk" where
  "walk_behind sha256 w rows =
     (if rows = [] then w
      else walk_at (cw_expected w + length rows - 1) (chain_end sha256 (cw_previous w) (cw_expected w) rows))"

lemma walk_rows_linked:
  assumes "sha_width sha256" "walk_ready w" "0 < cw_expected w" "cw_expected w + length rows \<le> U64_MAX"
  shows "(walk_rows sha256 rows w :: 'e AuditChainError + ChainFault + ChainWalk) = Inr (Inr w') \<longleftrightarrow>
    linked sha256 (cw_previous w) (cw_expected w) rows \<and> w' = walk_behind sha256 w rows"
  using assms(2-)
proof (induction rows arbitrary: w)
  case Nil
  then show ?case by (auto simp: walk_behind_def)
next
  case (Cons row rows)
  let ?n = "cw_expected w" and ?l = "next_link sha256 (cw_previous w) (cw_expected w) row"
  let ?v = "walk_at ?n ?l"
  have ready: "walk_ready ?v" using walk_at_ready [OF assms(1)] Cons.prems(2) by blast
  have n: "?n < U64_MAX" "cw_expected ?v = ?n + 1" "cw_previous ?v = ?l" using Cons.prems(3) by (simp_all add: walk_at_def)
  have rest: "(walk_rows sha256 rows ?v :: 'e AuditChainError + ChainFault + ChainWalk) = Inr (Inr w') \<longleftrightarrow>
      linked sha256 ?l (?n + 1) rows \<and> w' = walk_behind sha256 ?v rows"
    using Cons.IH [OF ready] n Cons.prems by simp
  have behind: "walk_behind sha256 ?v rows = walk_behind sha256 w (row # rows)"
    using n by (auto simp: walk_behind_def walk_at_def)
  show ?case
    unfolding walk_rows_Cons walk_row_linked [OF assms(1) Cons.prems(1) n(1)]
    using rest behind by auto
qed

section \<open>Pages\<close>

definition rows_from :: "AuditTables \<Rightarrow> nat \<Rightarrow> StoredAuditRow list" where
  "rows_from t e = sort_key sr_sequence (filter (\<lambda>r. int e \<le> sr_sequence r) (at_rows t))"

text \<open>The primary key, below the last row number a reader can ask for.\<close>

definition table_shape :: "AuditTables \<Rightarrow> bool" where
  "table_shape t \<longleftrightarrow> distinct (map sr_sequence (at_rows t)) \<and> list_all (\<lambda>r. sr_sequence r < I64_LIMIT) (at_rows t)"

definition reads_work :: "'e StoreEnv \<Rightarrow> bool" where
  "reads_work env \<longleftrightarrow> se_connected env \<and> se_fails env ''read audit chain head'' = None \<and>
     se_fails env ''prepare audit chain scan'' = None \<and> se_fails env ''query audit chain scan'' = None \<and>
     se_fails env ''decode audit chain'' = None"

lemma page_of_rows:
  assumes "reads_work env" "int e \<le> I64_LIMIT" "0 < limit" "limit \<le> MAX_AUDIT_CHAIN_PAGE"
  shows "audit_chain_rows env t e limit = Inr (take limit (rows_from t e))"
  using assms by (simp add: audit_chain_rows_def rows_from_def reads_work_def connection_def operation_def and_then_def)

lemma walk_rows_append:
  "(walk_rows sha256 (xs @ ys) w :: 'e AuditChainError + ChainFault + ChainWalk) =
     (case (walk_rows sha256 xs w :: 'e AuditChainError + ChainFault + ChainWalk) of
        Inl e \<Rightarrow> Inl e
      | Inr (Inl fault) \<Rightarrow> Inr (Inl fault)
      | Inr (Inr v) \<Rightarrow> walk_rows sha256 ys v)"
  by (induction xs arbitrary: w) (simp_all split: sum.split)

lemma rows_from_facts:
  assumes "table_shape t"
  shows "sorted (map sr_sequence (rows_from t e))" "distinct (map sr_sequence (rows_from t e))"
    "r \<in> set (rows_from t e) \<Longrightarrow> int e \<le> sr_sequence r \<and> sr_sequence r < I64_LIMIT"
proof -
  show "sorted (map sr_sequence (rows_from t e))" by (simp add: rows_from_def)
  have "distinct (map sr_sequence (filter P (at_rows t)))" for P
    using assms by (simp add: table_shape_def distinct_map_filter)
  then show "distinct (map sr_sequence (rows_from t e))"
    unfolding rows_from_def distinct_map by (auto simp: inj_on_def)
  show "r \<in> set (rows_from t e) \<Longrightarrow> int e \<le> sr_sequence r \<and> sr_sequence r < I64_LIMIT"
    using assms by (auto simp: rows_from_def table_shape_def list_all_iff)
qed

lemma rows_from_later: "e \<le> e' \<Longrightarrow> rows_from t e' = filter (\<lambda>r. int e' \<le> sr_sequence r) (rows_from t e)"
  by (simp add: rows_from_def filter_sort) (rule arg_cong [where f = "sort_key sr_sequence"], auto intro: filter_cong)

text \<open>Rows that a walk has passed carry consecutive numbers, up to the one it expects next.\<close>

lemma walked_numbers:
  assumes "(walk_rows sha256 rows w :: 'e AuditChainError + ChainFault + ChainWalk) = Inr (Inr w')"
    and "\<forall>r\<in>set rows. sr_sequence r < I64_LIMIT"
  shows "cw_expected w' = cw_expected w + length rows"
    "r \<in> set rows \<Longrightarrow> int (cw_expected w) \<le> sr_sequence r \<and> sr_sequence r < int (cw_expected w')"
    "rows \<noteq> [] \<Longrightarrow> sr_sequence (last rows) = int (cw_expected w') - 1"
proof -
  have "cw_expected w' = cw_expected w + length rows \<and>
      (\<forall>r\<in>set rows. int (cw_expected w) \<le> sr_sequence r \<and> sr_sequence r < int (cw_expected w')) \<and>
      (rows \<noteq> [] \<longrightarrow> sr_sequence (last rows) = int (cw_expected w') - 1)"
    using assms
  proof (induction rows arbitrary: w)
    case (Cons row rows)
    then obtain v where row: "walk_row sha256 row w = (Inr (Inr v) :: 'e AuditChainError + ChainFault + ChainWalk)"
      and rest: "walk_rows sha256 rows v = (Inr (Inr w') :: 'e AuditChainError + ChainFault + ChainWalk)"
      by (auto simp only: walk_rows_Cons)
    have "sr_sequence row < I64_LIMIT" using Cons.prems(2) by simp
    then have "cw_expected w < U64_MAX"
      using walk_row_expected [OF row] by (simp add: I64_LIMIT_def U64_MAX_def)
    then have v: "sr_sequence row = int (cw_expected w)" "cw_expected v = cw_expected w + 1"
      using walk_row_expected [OF row] by (simp_all add: chain_sequence_def)
    have bound: "\<forall>r\<in>set rows. sr_sequence r < I64_LIMIT" using Cons.prems(2) by simp
    note ih = Cons.IH [OF rest bound, THEN conjunct1] Cons.IH [OF rest bound, THEN conjunct2, THEN conjunct1]
      Cons.IH [OF rest bound, THEN conjunct2, THEN conjunct2]
    have "cw_expected w' = cw_expected w + length (row # rows)" using ih v by simp
    moreover have "int (cw_expected w) \<le> sr_sequence r \<and> sr_sequence r < int (cw_expected w')"
      if "r \<in> set (row # rows)" for r using ih v that by fastforce
    moreover have "sr_sequence (last (row # rows)) = int (cw_expected w') - 1" using ih v by simp
    ultimately show ?case by blast
  qed simp
  then show "cw_expected w' = cw_expected w + length rows"
    "r \<in> set rows \<Longrightarrow> int (cw_expected w) \<le> sr_sequence r \<and> sr_sequence r < int (cw_expected w')"
    "rows \<noteq> [] \<Longrightarrow> sr_sequence (last rows) = int (cw_expected w') - 1"
    by blast+
qed

lemma rows_behind_page:
  assumes shape: "table_shape t" and page: "rows_from t e = xs @ ys" "xs \<noteq> []"
    and numbers: "\<And>r. r \<in> set xs \<Longrightarrow> sr_sequence r < int e'" "sr_sequence (last xs) = int e' - 1" "e \<le> e'"
  shows "rows_from t e' = ys"
proof -
  have "int e' \<le> sr_sequence r" if "r \<in> set ys" for r
  proof -
    have "sr_sequence (last xs) \<le> sr_sequence r"
      using rows_from_facts(1) [OF shape, of e] page that by (auto simp: sorted_append)
    moreover have "sr_sequence (last xs) \<noteq> sr_sequence r"
    proof
      assume "sr_sequence (last xs) = sr_sequence r"
      then have "sr_sequence r \<in> sr_sequence ` set xs \<inter> sr_sequence ` set ys"
        using that last_in_set [OF page(2)] by (metis IntI imageI)
      then show False using rows_from_facts(2) [OF shape, of e] page(1) by auto
    qed
    ultimately show ?thesis using numbers(2) by simp
  qed
  then have "filter (\<lambda>r. int e' \<le> sr_sequence r) ys = ys" by (simp add: filter_id_conv)
  moreover have "filter (\<lambda>r. int e' \<le> sr_sequence r) xs = []"
    using numbers(1) by (force simp: filter_empty_conv)
  ultimately show ?thesis using rows_from_later [OF numbers(3), of t] page(1) by simp
qed

text \<open>The walk in pages is the walk over all rows.\<close>

lemma verify_pages_walk:
  fixes env :: "'e StoreEnv"
  assumes "reads_work env" "table_shape t"
  shows "int (cw_expected w) \<le> I64_LIMIT \<Longrightarrow>
    verify_pages sha256 env t w = walk_rows sha256 (rows_from t (cw_expected w)) w"
  using assms
proof (induction sha256 env t w rule: verify_pages.induct)
  case (1 sha256 env t w)
  let ?rows = "rows_from t (cw_expected w)"
  let ?page = "take MAX_AUDIT_CHAIN_PAGE ?rows"
  let ?rest = "drop MAX_AUDIT_CHAIN_PAGE ?rows"
  have read: "audit_chain_rows env t (cw_expected w) MAX_AUDIT_CHAIN_PAGE = Inr ?page"
    using 1 by (intro page_of_rows) (simp_all add: MAX_AUDIT_CHAIN_PAGE_def)
  show ?case
  proof (cases ?page)
    case Nil
    then have "?rows = []" by (simp add: MAX_AUDIT_CHAIN_PAGE_def)
    then show ?thesis using read Nil by (simp add: verify_pages.simps [of sha256 env t w])
  next
    case (Cons row rows)
    have split: "(walk_rows sha256 ?rows w :: 'e AuditChainError + ChainFault + ChainWalk) =
        (case (walk_rows sha256 ?page w :: 'e AuditChainError + ChainFault + ChainWalk) of
           Inl e \<Rightarrow> Inl e | Inr (Inl fault) \<Rightarrow> Inr (Inl fault) | Inr (Inr v) \<Rightarrow> walk_rows sha256 ?rest v)"
      using walk_rows_append [of sha256 ?page ?rest w] by simp
    obtain a :: "'e AuditChainError + ChainFault + ChainWalk" where a: "walk_rows sha256 ?page w = a" by blast
    show ?thesis
    proof (cases a)
      case (Inl e)
      then show ?thesis using a read Cons split by (simp add: verify_pages.simps [of sha256 env t w] del: walk_rows.simps)
    next
      case (Inr b)
      show ?thesis
      proof (cases b)
        case (Inl fault)
        then show ?thesis using a Inr read Cons split by (simp add: verify_pages.simps [of sha256 env t w] del: walk_rows.simps)
      next
        case w': (Inr w')
        have walk: "walk_rows sha256 ?page w = (Inr (Inr w') :: 'e AuditChainError + ChainFault + ChainWalk)" using a Inr w' by simp
        have bound: "\<forall>r\<in>set ?page. sr_sequence r < I64_LIMIT"
          using rows_from_facts(3) [OF 1(4)] by (blast dest: in_set_takeD)
        note numbers = walked_numbers [OF walk bound]
        have page: "?page \<noteq> []" using Cons by simp
        have rest: "rows_from t (cw_expected w') = ?rest"
        proof (rule rows_behind_page [OF 1(4)])
          show "?rows = ?page @ ?rest" by simp
          show "?page \<noteq> []" by (rule page)
          show "sr_sequence r < int (cw_expected w')" if "r \<in> set ?page" for r using numbers(2) [OF that] ..
          show "sr_sequence (last ?page) = int (cw_expected w') - 1" by (rule numbers(3) [OF page])
          show "cw_expected w \<le> cw_expected w'" by (simp add: numbers(1))
        qed
        have "sr_sequence (last ?page) < I64_LIMIT" using page bound by simp
        then have limit: "int (cw_expected w') \<le> I64_LIMIT" using numbers(3) [OF page] by simp
        have "verify_pages sha256 env t w = verify_pages sha256 env t w'"
          using walk read Cons by (simp add: verify_pages.simps [of sha256 env t w] del: walk_rows.simps)
        also have "\<dots> = walk_rows sha256 (rows_from t (cw_expected w')) w'"
          using walk Cons by (intro "1.IH" [OF read [unfolded Cons] _ _ _ limit 1(3,4)]) auto
        finally show ?thesis using split walk rest by simp
      qed
    qed
  qed
qed

section \<open>Verification from the beginning\<close>

definition head_claim :: "AuditTables \<Rightarrow> int" where
  "head_claim t = (case at_head t of Some (sequence, _) \<Rightarrow> sequence | None \<Rightarrow> 0)"

lemma rows_from_number:
  assumes "table_shape t" "0 < e"
  shows "int (e + length (rows_from t e)) \<le> I64_LIMIT \<or> rows_from t e = []"
proof (rule disjCI)
  assume "rows_from t e \<noteq> []"
  then obtain r where "r \<in> set (rows_from t e)" by (meson list.set_sel(1))
  then have e: "int e < I64_LIMIT" using rows_from_facts(3) [OF assms(1)] by fastforce
  let ?keys = "set (map sr_sequence (rows_from t e))"
  have "?keys \<subseteq> {int e..<I64_LIMIT}" using rows_from_facts(3) [OF assms(1)] by auto
  then have "card ?keys \<le> card {int e..<I64_LIMIT}" by (rule card_mono [OF finite_atLeastLessThan_int])
  then have "length (rows_from t e) \<le> nat (I64_LIMIT - int e)"
    using distinct_card [OF rows_from_facts(2) [OF assms(1)], of e] by simp
  then show "int (e + length (rows_from t e)) \<le> I64_LIMIT" using e by simp
qed

lemma walk_rows_from:
  assumes "sha_width sha256" "table_shape t" "walk_ready w" "0 < cw_expected w" "int (cw_expected w) \<le> I64_LIMIT"
  shows "(walk_rows sha256 (rows_from t (cw_expected w)) w :: 'e AuditChainError + ChainFault + ChainWalk) = Inr (Inr w') \<longleftrightarrow>
    linked sha256 (cw_previous w) (cw_expected w) (rows_from t (cw_expected w)) \<and>
    w' = walk_behind sha256 w (rows_from t (cw_expected w))"
proof -
  have "cw_expected w + length (rows_from t (cw_expected w)) \<le> U64_MAX"
    using rows_from_number [OF assms(2,4)] assms(5) by (auto simp: I64_LIMIT_def U64_MAX_def)
  then show ?thesis by (rule walk_rows_linked [OF assms(1,3,4)])
qed

lemma head_read:
  "reads_work env \<Longrightarrow> map_err Store (audit_chain_head env t) =
     (if head_claim t < 0 then Inl (Store CorruptDatabase)
      else Inr (nat (head_claim t), case at_head t of Some (_, digest) \<Rightarrow> digest | None \<Rightarrow> GENESIS_DIGEST_HEX))"
  by (auto simp: audit_chain_head_def reads_work_def connection_def operation_def and_then_def map_err_def
      head_claim_def split: option.split)

lemma start_genesis: "start_walk None = \<lparr>cw_expected = 1, cw_previous = GENESIS, cw_last_verified = 0, cw_walked = False\<rparr>"
  by (simp add: start_walk_def)

lemma genesis_ready: "walk_ready (start_walk None)"
  by (simp add: start_genesis walk_ready_def GENESIS_def)

lemma genesis_behind:
  "cw_last_verified (walk_behind sha256 (start_walk None) rows) = length rows"
  "cw_previous (walk_behind sha256 (start_walk None) rows) = chain_end sha256 GENESIS 1 rows"
  by (auto simp: walk_behind_def start_genesis walk_at_def)

lemma I64_positive: "1 \<le> I64_LIMIT" by (simp add: I64_LIMIT_def)

lemma verify_genesis_linked:
  fixes env :: "'e StoreEnv"
  assumes "sha_width sha256" "reads_work env" "table_shape t"
  shows "AuditChain_verify sha256 env t FromGenesis = Inr (Intact h) \<longleftrightarrow>
    linked sha256 GENESIS 1 (rows_from t 1) \<and>
    h = \<lparr>vh_sequence = length (rows_from t 1), vh_link_digest = chain_end sha256 GENESIS 1 (rows_from t 1)\<rparr> \<and>
    0 \<le> head_claim t \<and> head_claim t \<le> int (length (rows_from t 1))"
proof (cases "head_claim t < 0")
  case True
  then show ?thesis by (simp add: AuditChain_verify_def head_read [OF assms(2)] and_then_def)
next
  case False
  let ?w = "start_walk None"
  have pages: "verify_pages sha256 env t ?w = walk_rows sha256 (rows_from t 1) ?w"
    using verify_pages_walk [OF assms(2,3), of ?w] I64_positive by (simp add: start_genesis)
  have iff: "(walk_rows sha256 (rows_from t 1) ?w :: 'e AuditChainError + ChainFault + ChainWalk) = Inr (Inr w') \<longleftrightarrow>
      linked sha256 GENESIS 1 (rows_from t 1) \<and> w' = walk_behind sha256 ?w (rows_from t 1)" for w'
    using walk_rows_from [OF assms(1,3) genesis_ready] I64_positive by (simp add: start_genesis)
  have verify: "AuditChain_verify sha256 env t FromGenesis =
      (case (walk_rows sha256 (rows_from t 1) ?w :: 'e AuditChainError + ChainFault + ChainWalk) of
         Inl e \<Rightarrow> Inl e
       | Inr (Inl fault) \<Rightarrow> Inr (Faulted fault)
       | Inr (Inr w) \<Rightarrow> Inr (finish_walk (nat (head_claim t)) w))"
    using False by (simp add: AuditChain_verify_def head_read [OF assms(2)] and_then_def admit_range_def pages
        check_anchor_def split: sum.split)
  show ?thesis
  proof (cases "linked sha256 GENESIS 1 (rows_from t 1)")
    case True
    then have "walk_rows sha256 (rows_from t 1) ?w =
        (Inr (Inr (walk_behind sha256 ?w (rows_from t 1))) :: 'e AuditChainError + ChainFault + ChainWalk)"
      using iff by blast
    then show ?thesis
      using True False by (auto simp: verify finish_walk_def genesis_behind)
  next
    case unlinked: False
    then have "walk_rows sha256 (rows_from t 1) ?w \<noteq> (Inr (Inr w') :: 'e AuditChainError + ChainFault + ChainWalk)" for w'
      using iff by blast
    then show ?thesis using unlinked by (auto simp: verify split: sum.split)
  qed
qed

section \<open>Appends\<close>

text \<open>Tables as appends leave them.\<close>

definition chain_tables :: "(string \<Rightarrow> string) \<Rightarrow> AuditTables \<Rightarrow> bool" where
  "chain_tables sha256 t \<longleftrightarrow>
     linked sha256 GENESIS 1 (at_rows t) \<and> at_last_rowid t = int (length (at_rows t)) \<and>
     at_head t = (if at_rows t = [] then None
                  else Some (int (length (at_rows t)), to_hex (chain_end sha256 GENESIS 1 (at_rows t))))"

definition empty_tables :: AuditTables where
  "empty_tables = \<lparr>at_rows = [], at_head = None, at_last_rowid = 0\<rparr>"

lemma zero_digit: "char_of (48 :: nat) = CHR ''0''"
  using byte_facts(2) [of "CHR ''0''"] by (simp add: byte_def)

lemma zero_hex: "to_hex (replicate n (CHR 0x00)) = replicate (2 * n) (CHR ''0'')"
  by (induction n) (simp_all add: to_hex_def hex_digit_def byte_def zero_digit)

lemma genesis_hex: "to_hex GENESIS = GENESIS_DIGEST_HEX"
  unfolding GENESIS_def GENESIS_DIGEST_HEX_def zero_hex by simp

lemma genesis_length: "length GENESIS = 32"
  by (simp add: GENESIS_def)

lemma chain_head_parsed:
  assumes "sha_width sha256" "chain_tables sha256 t" "audit_chain_head env t = Inr (n, d)"
  shows "n = length (at_rows t)" "ChainDigest_parse d = (Inr (chain_end sha256 GENESIS 1 (at_rows t)) :: 'f AuditChainError + string)"
proof -
  have "length (chain_end sha256 GENESIS 1 (at_rows t)) = 32"
    by (rule chain_end_length [OF assms(1) genesis_length])
  then show "n = length (at_rows t)" "ChainDigest_parse d = (Inr (chain_end sha256 GENESIS 1 (at_rows t)) :: 'f AuditChainError + string)"
    using assms(2,3) genesis_hex genesis_length
    by (auto simp: audit_chain_head_def chain_tables_def and_then_def parse_digest_iff
        split: sum.splits option.splits if_splits)
qed

text \<open>What a transaction commits.\<close>

lemma append_committed:
  assumes "append_transaction env a t = Inr (n, t')"
  shows "n = at_last_rowid t + 1" "at_rows t' = at_rows t @ [appended_row n a]" "at_last_rowid t' = n"
    "at_head t' = Some (n, ap_link_digest a)" "n \<le> I64_LIMIT"
  using assms
  by (auto simp: append_transaction_def insert_row_def advance_head_def and_then_def Let_def
      split: sum.splits if_splits option.splits)

lemma append_audit_chain_cases:
  "append_audit_chain env a t = (r, t') \<Longrightarrow>
   (t' = t \<and> (\<exists>e. r = Inl e)) \<or> (\<exists>n. append_transaction env a t = Inr (n, t') \<and> (\<forall>m. r = Inr m \<longrightarrow> int m = n))"
  by (auto simp: append_audit_chain_def and_then_def split: sum.splits if_splits prod.splits)

lemma append_row_linked:
  assumes "chain_tables sha256 t" "link = next_link sha256 prev (length (at_rows t) + 1) row"
    and "prev = chain_end sha256 GENESIS 1 (at_rows t)" "row_linked sha256 prev (length (at_rows t) + 1) row"
    and "at_rows t' = at_rows t @ [row]" "at_last_rowid t' = int (length (at_rows t) + 1)"
    and "at_head t' = Some (int (length (at_rows t) + 1), to_hex link)"
  shows "chain_tables sha256 t'"
  using assms by (simp add: chain_tables_def linked_append chain_end_append)

lemma append_keeps_chain:
  assumes sha: "sha_width sha256" and chain: "chain_tables sha256 t"
    and small: "int (length (at_rows t)) < I64_LIMIT"
    and append: "AuditChain_append sha256 env evidence payload time t = (r, t')"
  shows "t' = t \<and> (\<exists>e. r = Inl e) \<or>
    (\<exists>row. chain_tables sha256 t' \<and> at_rows t' = at_rows t @ [row] \<and> sr_payload_json row = payload \<and>
       sr_recorded_at_utc row = time \<and>
       (\<forall>entry. r = Inr entry \<longrightarrow> ae_sequence entry = length (at_rows t') \<and>
          ae_link_digest entry = chain_end sha256 GENESIS 1 (at_rows t')))"
proof (cases "audit_chain_head env t")
  case (Inl e)
  then show ?thesis using append by (auto simp: AuditChain_append_def and_then_def map_err_def)
next
  case (Inr p)
  obtain n d where p: "p = (n, d)" by force
  note head = chain_head_parsed [OF sha chain Inr [unfolded p]]
  let ?prev = "chain_end sha256 GENESIS 1 (at_rows t)"
  let ?n = "length (at_rows t) + 1"
  let ?payload = "digest_payload sha256 payload"
  let ?link = "link_digest sha256 ?prev ?payload ?n time"
  let ?a = "\<lparr>ap_prev_digest = to_hex ?prev, ap_namespace = ev_namespace evidence,
      ap_type_name = ev_type_name evidence, ap_identity = ev_identity evidence,
      ap_payload_json = payload, ap_payload_digest = to_hex ?payload,
      ap_recorded_at_utc = time, ap_link_digest = to_hex ?link\<rparr>"
  have sequence: "chain_sequence n = ?n"
    using head small by (auto simp: chain_sequence_def I64_LIMIT_def U64_MAX_def)
  obtain x t1 where x: "append_audit_chain env ?a t = (x, t1)" by force
  have result: "(r, t') = (case x of
      Inl e \<Rightarrow> (Inl (Store e), t1)
    | Inr assigned \<Rightarrow>
        if assigned \<noteq> ?n then (Inl (Store CorruptDatabase), t1)
        else (Inr \<lparr>ae_sequence = ?n, ae_prev_digest = ?prev, ae_payload_digest = ?payload,
                ae_recorded_at = time, ae_link_digest = ?link\<rparr>, t1))"
    using append sequence x
    by (cases x) (simp_all add: AuditChain_append_def Inr p and_then_def map_err_def Let_def head split: if_splits)
  then have t1: "t' = t1" by (auto split: sum.splits if_splits)
  from append_audit_chain_cases [OF x] show ?thesis
  proof (elim disjE exE conjE)
    fix e assume "t1 = t" "x = Inl e"
    then show ?thesis using result by simp
  next
    fix m assume commit: "append_transaction env ?a t = Inr (m, t1)"
    note c = append_committed [OF commit]
    have m: "m = int ?n" using c(1) chain by (simp add: chain_tables_def)
    let ?row = "appended_row m ?a"
    have row: "row_linked sha256 ?prev ?n ?row" "?link = next_link sha256 ?prev ?n ?row"
      by (simp_all add: row_linked_def appended_row_def next_link_def m)
    have rows: "at_rows t' = at_rows t @ [?row]" using c(2) t1 by simp
    have chain': "chain_tables sha256 t'"
      using c m t1 row by (intro append_row_linked [OF chain row(2) refl row(1) rows]) simp_all
    have final: "chain_end sha256 GENESIS 1 (at_rows t') = ?link"
      unfolding rows using row(2) by (simp add: chain_end_append)
    have "ae_sequence entry = length (at_rows t') \<and> ae_link_digest entry = chain_end sha256 GENESIS 1 (at_rows t')"
      if "r = Inr entry" for entry
      using result that final rows by (auto split: sum.splits if_splits)
    moreover have "sr_payload_json ?row = payload" "sr_recorded_at_utc ?row = time" by (simp_all add: appended_row_def)
    ultimately show ?thesis using chain' rows by blast
  qed
qed

end
