(* ===== verification/Audit_Properties.thy ===== *)
theory Audit_Properties
  imports Audit_Correct
begin

text \<open>
  The guarantees of the audit chain, over tables that anyone may have written and over any sequence of
  appends.
\<close>

section \<open>What a verification establishes\<close>

text \<open>A digest that tells short texts from links and keeps the start of a text, or of the payload digest in a link.\<close>

definition sample_sha :: "string \<Rightarrow> string" where
  "sample_sha s =
     (if length s < 48 then CHR ''P'' # take 31 (s @ replicate 31 (CHR ''x''))
      else CHR ''L'' # take 31 (drop 48 s @ replicate 31 (CHR ''x'')))"

lemma sample_sha_width: "sha_width sample_sha"
  by (auto simp: sha_width_def sample_sha_def min_def)

lemma sample_sha_link:
  "length d = 32 \<Longrightarrow> sample_sha (link_bytes GENESIS d n time) = CHR ''L'' # take 31 d"
  by (simp add: sample_sha_def link_bytes_def chain_field_def be_bytes_length genesis_length)

definition sample_env :: "unit StoreEnv" where
  "sample_env = \<lparr>se_connected = True, se_fails = (\<lambda>_. None), se_retained = None, se_schema = None, se_retained_after = None, se_to_string = (\<lambda>_. Some []), se_rejected = ()\<rparr>"

lemma sample_env_reads: "reads_work sample_env"
  by (simp add: reads_work_def sample_env_def)

definition row_content :: "StoredAuditRow \<Rightarrow> string \<times> string" where
  "row_content row = (sr_payload_json row, sr_recorded_at_utc row)"

text \<open>A row of a chain with a given payload, and a table of one row.\<close>

definition sealed_row :: "(string \<Rightarrow> string) \<Rightarrow> ChainDigest \<Rightarrow> nat \<Rightarrow> string \<Rightarrow> StoredAuditRow \<Rightarrow> StoredAuditRow" where
  "sealed_row sha256 prev n payload row =
     (let row = row\<lparr>sr_sequence := int n, sr_prev_digest := to_hex prev, sr_payload_json := payload,
        sr_payload_digest := to_hex (digest_payload sha256 payload)\<rparr>
      in row\<lparr>sr_link_digest := to_hex (next_link sha256 prev n row)\<rparr>)"

lemma sealed_row_facts:
  "row_linked sha256 prev n (sealed_row sha256 prev n payload row)"
  "sr_sequence (sealed_row sha256 prev n payload row) = int n"
  "row_content (sealed_row sha256 prev n payload row) = (payload, sr_recorded_at_utc row)"
  by (simp_all add: row_linked_def sealed_row_def next_link_def row_content_def Let_def)

definition sample_row :: "string \<Rightarrow> StoredAuditRow" where
  "sample_row name = sealed_row sample_sha GENESIS 1 ''{}''
     \<lparr>sr_sequence = 1, sr_prev_digest = [], sr_namespace = name, sr_type_name = [], sr_identity = [],
      sr_payload_json = [], sr_payload_digest = [], sr_recorded_at_utc = ''2026'', sr_link_digest = []\<rparr>"

definition sample_tables :: "string \<Rightarrow> AuditTables" where
  "sample_tables name = \<lparr>at_rows = [sample_row name], at_head = None, at_last_rowid = 1\<rparr>"

lemma sample_tables_facts:
  "table_shape (sample_tables name)" "rows_from (sample_tables name) 1 = [sample_row name]"
  by (simp_all add: table_shape_def sample_tables_def rows_from_def sample_row_def sealed_row_facts I64_LIMIT_def)

lemma sample_verified:
  "AuditChain_verify sample_sha sample_env (sample_tables name) FromGenesis =
     Inr (Intact \<lparr>vh_sequence = 1, vh_link_digest = next_link sample_sha GENESIS 1 (sample_row ''a'')\<rparr>)"
proof -
  have "next_link sample_sha GENESIS 1 (sample_row name) = next_link sample_sha GENESIS 1 (sample_row ''a'')"
    by (simp add: next_link_def sample_row_def sealed_row_def Let_def)
  moreover have "row_linked sample_sha GENESIS 1 (sample_row name)" unfolding sample_row_def by (rule sealed_row_facts)
  ultimately show ?thesis
    using verify_genesis_linked [OF sample_sha_width sample_env_reads sample_tables_facts(1)]
    by (simp add: sample_tables_facts(2) del: One_nat_def) (simp add: head_claim_def sample_tables_def)
qed

definition sample_claimed :: AuditTables where
  "sample_claimed = (sample_tables ''a'')
     \<lparr>at_head := Some (1, to_hex (next_link sample_sha GENESIS 1 (sample_row ''a'')))\<rparr>"

lemma sample_claimed_facts:
  "table_shape sample_claimed" "rows_from sample_claimed 1 = [sample_row ''a'']" "head_claim sample_claimed = 1"
  "chain_tables sample_sha sample_claimed" "at_rows sample_claimed = [sample_row ''a'']"
proof -
  have "row_linked sample_sha GENESIS 1 (sample_row ''a'')" unfolding sample_row_def by (rule sealed_row_facts)
  then show "chain_tables sample_sha sample_claimed" by (simp add: chain_tables_def sample_claimed_def sample_tables_def)
  show "table_shape sample_claimed" "rows_from sample_claimed 1 = [sample_row ''a'']"
    using sample_tables_facts [of "''a''"] by (simp_all add: table_shape_def rows_from_def sample_claimed_def)
qed (simp_all add: sample_claimed_def head_claim_def sample_tables_def)

text \<open>C36. A verification from the beginning says intact exactly when the rows numbered from 1 on are
  consecutive and each carries the digest of its payload, the link of its predecessor and the digest of
  the whole, and the head claims no more rows than there are; the head it returns is then the last
  row's. Nothing depends on the order the rows are stored in or on the size of a page, nor on the digest
  kept with the claim, and rows beyond the claim are no fault.\<close>

theorem verification_exact:
  assumes "sha_width sha256" "reads_work env" "table_shape t"
  shows "AuditChain_verify sha256 env t FromGenesis = Inr (Intact h) \<longleftrightarrow>
    linked sha256 GENESIS 1 (rows_from t 1) \<and>
    h = \<lparr>vh_sequence = length (rows_from t 1), vh_link_digest = chain_end sha256 GENESIS 1 (rows_from t 1)\<rparr> \<and>
    0 \<le> head_claim t \<and> head_claim t \<le> int (length (rows_from t 1))"
  by (rule verify_genesis_linked [OF assms])

theorem verification_exact_witness:
  "AuditChain_verify sample_sha sample_env sample_claimed FromGenesis =
     Inr (Intact \<lparr>vh_sequence = 1, vh_link_digest = next_link sample_sha GENESIS 1 (sample_row ''a'')\<rparr>)"
proof -
  have "row_linked sample_sha GENESIS 1 (sample_row ''a'')" unfolding sample_row_def by (rule sealed_row_facts)
  then show ?thesis
    using verification_exact [OF sample_sha_width sample_env_reads sample_claimed_facts(1)]
    by (simp add: sample_claimed_facts del: One_nat_def)
qed

section \<open>Appends\<close>

text \<open>Appends in a row, each with what fails in it.\<close>

definition run_appends ::
    "(string \<Rightarrow> string) \<Rightarrow> ('e StoreEnv \<times> AuditEvidence \<times> string \<times> string) list \<Rightarrow> AuditTables \<Rightarrow> AuditTables" where
  "run_appends sha256 calls t =
     fold (\<lambda>(env, evidence, payload, time) t. snd (AuditChain_append sha256 env evidence payload time t)) calls t"

lemma run_appends_chain:
  "sha_width sha256 \<Longrightarrow> chain_tables sha256 t \<Longrightarrow> int (length (at_rows t) + length calls) \<le> I64_LIMIT \<Longrightarrow>
   chain_tables sha256 (run_appends sha256 calls t) \<and>
   length (at_rows (run_appends sha256 calls t)) \<le> length (at_rows t) + length calls"
proof (induction calls arbitrary: t)
  case Nil
  then show ?case by (simp add: run_appends_def)
next
  case (Cons call calls)
  obtain env evidence payload time where call: "call = (env, evidence, payload, time)" by (cases call)
  obtain r t' where step: "AuditChain_append sha256 env evidence payload time t = (r, t')" by force
  have "int (length (at_rows t)) < I64_LIMIT" using Cons.prems(3) by simp
  from append_keeps_chain [OF Cons.prems(1,2) this step]
  have "chain_tables sha256 t'" "length (at_rows t') \<le> length (at_rows t) + 1" using Cons.prems(2) by auto
  with Cons.IH [OF Cons.prems(1), of t'] Cons.prems(3) show ?case by (simp add: run_appends_def call step)
qed

lemma linked_numbers:
  "linked sha256 prev n rows \<Longrightarrow> map sr_sequence rows = map int [n..<n + length rows]"
proof (induction rows arbitrary: prev n)
  case (Cons row rows)
  then have "map sr_sequence rows = map int [Suc n..<Suc n + length rows]"
    using Cons.IH [of "next_link sha256 prev n row" "Suc n"] by (simp del: upt_Suc)
  with Cons.prems show ?case by (simp add: row_linked_def upt_conv_Cons del: upt_Suc)
qed simp

lemma chain_tables_shape:
  assumes "chain_tables sha256 t" "int (length (at_rows t)) < I64_LIMIT"
  shows "table_shape t" "rows_from t 1 = at_rows t"
proof -
  have linked: "linked sha256 GENESIS 1 (at_rows t)" using assms(1) by (simp add: chain_tables_def)
  note numbers = linked_numbers [OF linked]
  have bounds: "1 \<le> sr_sequence r \<and> sr_sequence r < I64_LIMIT" if "r \<in> set (at_rows t)" for r
  proof -
    have "sr_sequence r \<in> set (map sr_sequence (at_rows t))" using that by simp
    then have "sr_sequence r \<in> int ` {1..<1 + length (at_rows t)}" unfolding numbers by auto
    then show ?thesis using assms(2) by auto
  qed
  have "distinct (map sr_sequence (at_rows t))" unfolding numbers by (simp add: distinct_map)
  then show "table_shape t" using bounds by (auto simp: table_shape_def list_all_iff)
  have "filter (\<lambda>r. int 1 \<le> sr_sequence r) (at_rows t) = at_rows t" using bounds by (simp add: filter_id_conv)
  moreover have "sorted (map sr_sequence (at_rows t))" unfolding numbers
    by (simp add: sorted_map del: upt_Suc)
  ultimately show "rows_from t 1 = at_rows t" by (simp add: rows_from_def sort_key_id_if_sorted)
qed

text \<open>C37. Appends never break a chain: after any appends to empty tables, whichever fail and at
  whichever operation, the whole chain verifies, and the verified head is exactly the persisted claim.\<close>

theorem appended_chain_verifies:
  assumes "sha_width sha256" "reads_work env" "int (length calls) < I64_LIMIT"
  shows "let t = run_appends sha256 calls empty_tables; n = length (at_rows t) in
    \<exists>link. AuditChain_verify sha256 env t FromGenesis = Inr (Intact \<lparr>vh_sequence = n, vh_link_digest = link\<rparr>) \<and>
      at_head t = (if n = 0 then None else Some (int n, to_hex link))"
proof -
  let ?t = "run_appends sha256 calls empty_tables"
  have "chain_tables sha256 empty_tables" by (simp add: chain_tables_def empty_tables_def)
  then have chain: "chain_tables sha256 ?t" "int (length (at_rows ?t)) < I64_LIMIT"
    using run_appends_chain [OF assms(1), of empty_tables calls] assms(3) by (auto simp: empty_tables_def)
  note shape = chain_tables_shape [OF chain]
  have "head_claim ?t = int (length (at_rows ?t))" using chain(1) by (auto simp: chain_tables_def head_claim_def)
  then have "AuditChain_verify sha256 env ?t FromGenesis = Inr (Intact
      \<lparr>vh_sequence = length (at_rows ?t), vh_link_digest = chain_end sha256 GENESIS 1 (at_rows ?t)\<rparr>)"
    using verify_genesis_linked [OF assms(1,2) shape(1)] chain(1) shape(2) by (simp add: chain_tables_def)
  then show ?thesis using chain(1) by (auto simp: chain_tables_def Let_def)
qed

theorem appended_chain_verifies_witness:
  "let t = run_appends sample_sha [(sample_env, \<lparr>ev_namespace = ''n'', ev_type_name = ''t'', ev_identity = ''i''\<rparr>,
         ''{}'', ''2026-01-02T03:04:05Z'')] empty_tables; n = length (at_rows t) in
    \<exists>link. AuditChain_verify sample_sha sample_env t FromGenesis =
        Inr (Intact \<lparr>vh_sequence = n, vh_link_digest = link\<rparr>) \<and>
      at_head t = (if n = 0 then None else Some (int n, to_hex link))"
  using appended_chain_verifies [OF sample_sha_width sample_env_reads, of "[(sample_env,
      \<lparr>ev_namespace = ''n'', ev_type_name = ''t'', ev_identity = ''i''\<rparr>, ''{}'', ''2026-01-02T03:04:05Z'')]"]
  by (simp add: I64_LIMIT_def)

section \<open>Tampering\<close>

lemma field_cut:
  "length a \<le> U64_MAX \<Longrightarrow> length b \<le> U64_MAX \<Longrightarrow> chain_field a @ x = chain_field b @ y \<Longrightarrow> a = b \<and> x = y"
  using frame.cut [of a b x y] by (simp add: chain_field_def frame_def)

lemma link_bytes_inj:
  assumes "length p = 32" "length q = 32" "length a = 32" "length b = 32" "length s \<le> U64_MAX" "length u \<le> U64_MAX"
    and "link_bytes p a n s = link_bytes q b n u"
  shows "p = q \<and> a = b \<and> s = u"
proof -
  have small: "length x \<le> U64_MAX" if "length x = 32" for x :: string using that by (simp add: U64_MAX_def)
  have eq: "chain_field p @ chain_field a @ chain_field (be_bytes 8 n) @ chain_field s @ [] =
      chain_field q @ chain_field b @ chain_field (be_bytes 8 n) @ chain_field u @ []"
    using assms(7) by (simp add: link_bytes_def)
  from field_cut [OF small [OF assms(1)] small [OF assms(2)] eq] have p: "p = q"
    and eq: "chain_field a @ chain_field (be_bytes 8 n) @ chain_field s @ [] =
      chain_field b @ chain_field (be_bytes 8 n) @ chain_field u @ []" by simp_all
  from field_cut [OF small [OF assms(3)] small [OF assms(4)] eq] have a: "a = b"
    and eq: "chain_field s @ [] = chain_field u @ []" by simp_all
  from field_cut [OF assms(5,6) eq] p a show ?thesis by simp
qed

text \<open>The byte strings that are digested for the rows of a chain: each payload and each link.\<close>

fun digested :: "(string \<Rightarrow> string) \<Rightarrow> ChainDigest \<Rightarrow> nat \<Rightarrow> StoredAuditRow list \<Rightarrow> string list" where
  "digested sha256 prev n [] = []"
| "digested sha256 prev n (row # rows) =
     sr_payload_json row #
     link_bytes prev (digest_payload sha256 (sr_payload_json row)) n (sr_recorded_at_utc row) #
     digested sha256 (next_link sha256 prev n row) (n + 1) rows"

text \<open>Two different byte strings with one digest, one of the first list and one of the second.\<close>

definition collision :: "(string \<Rightarrow> string) \<Rightarrow> string list \<Rightarrow> string list \<Rightarrow> bool" where
  "collision sha256 xs ys \<longleftrightarrow> list_ex (\<lambda>x. list_ex (\<lambda>y. x \<noteq> y \<and> sha256 x = sha256 y) ys) xs"

lemma no_collision: "\<not> collision sha256 xs ys \<Longrightarrow> x \<in> set xs \<Longrightarrow> y \<in> set ys \<Longrightarrow> sha256 x = sha256 y \<Longrightarrow> x = y"
  by (auto simp: collision_def list_ex_iff)

lemma next_link_inj:
  assumes "sha_width sha256" "\<not> collision sha256 (digested sha256 p n [r]) (digested sha256 q n [s])"
    and "length p = 32" "length q = 32"
    and "length (sr_recorded_at_utc r) \<le> U64_MAX" "length (sr_recorded_at_utc s) \<le> U64_MAX"
    and "next_link sha256 p n r = next_link sha256 q n s"
  shows "p = q \<and> row_content r = row_content s"
proof -
  note inj = no_collision [OF assms(2)]
  have len: "length (digest_payload sha256 x) = 32" for x using assms(1) by (simp add: sha_width_def digest_payload_def)
  have "link_bytes p (digest_payload sha256 (sr_payload_json r)) n (sr_recorded_at_utc r) =
      link_bytes q (digest_payload sha256 (sr_payload_json s)) n (sr_recorded_at_utc s)"
    by (rule inj) (use assms(7) in \<open>simp_all add: next_link_def link_digest_def\<close>)
  note parts = link_bytes_inj [OF assms(3,4) len len assms(5,6) this]
  have "sr_payload_json r = sr_payload_json s"
    by (rule inj) (use parts in \<open>simp_all add: digest_payload_def\<close>)
  then show ?thesis using parts by (simp add: row_content_def)
qed

lemma chain_end_inj:
  assumes "sha_width sha256"
  shows "length xs = length ys \<Longrightarrow> length p = 32 \<Longrightarrow> length q = 32 \<Longrightarrow>
    \<not> collision sha256 (digested sha256 p n xs) (digested sha256 q n ys) \<Longrightarrow>
    list_all (\<lambda>r. length (sr_recorded_at_utc r) \<le> U64_MAX) (xs @ ys) \<Longrightarrow>
    chain_end sha256 p n xs = chain_end sha256 q n ys \<Longrightarrow> p = q \<and> map row_content xs = map row_content ys"
proof (induction xs arbitrary: ys p q n)
  case (Cons x xs)
  then obtain y ys' where ys: "ys = y # ys'" by (cases ys) auto
  have len: "length (next_link sha256 p n x) = 32" "length (next_link sha256 q n y) = 32"
    using next_link_length [OF assms(1)] by auto
  have free: "\<not> collision sha256 (digested sha256 (next_link sha256 p n x) (n + 1) xs)
        (digested sha256 (next_link sha256 q n y) (n + 1) ys')"
    "\<not> collision sha256 (digested sha256 p n [x]) (digested sha256 q n [y])"
    using Cons.prems(4) by (auto simp: ys collision_def list_ex_iff)
  have "next_link sha256 p n x = next_link sha256 q n y \<and> map row_content xs = map row_content ys'"
    by (rule Cons.IH [OF _ len free(1)]) (use Cons.prems in \<open>auto simp: ys\<close>)
  then show ?case using next_link_inj [OF assms free(2) Cons.prems(2,3)] Cons.prems(5) by (auto simp: ys)
qed simp

text \<open>C38. The head of a verified chain commits to everything before it: two tables that verify with the
  same head hold the same payloads and times in the same order, unless SHA-256 gives one digest to two
  different byte strings among those digested for the two tables, their payloads and the bytes of their
  links. Timestamps are below the length a \<open>u64\<close> can count.\<close>

theorem verified_head_commits:
  assumes "sha_width sha256" "reads_work env" "table_shape t" "table_shape u"
    and "list_all (\<lambda>r. length (sr_recorded_at_utc r) \<le> U64_MAX) (at_rows t @ at_rows u)"
    and "AuditChain_verify sha256 env t FromGenesis = Inr (Intact h)"
    and "AuditChain_verify sha256 env u FromGenesis = Inr (Intact h)"
    and free: "\<not> collision sha256 (digested sha256 GENESIS 1 (rows_from t 1)) (digested sha256 GENESIS 1 (rows_from u 1))"
  shows "map row_content (rows_from t 1) = map row_content (rows_from u 1)"
proof -
  note v = verify_genesis_linked [OF assms(1,2,3), THEN iffD1, OF assms(6)]
    verify_genesis_linked [OF assms(1,2,4), THEN iffD1, OF assms(7)]
  have "list_all (\<lambda>r. length (sr_recorded_at_utc r) \<le> U64_MAX) (rows_from t 1 @ rows_from u 1)"
    using assms(5) by (auto simp: rows_from_def list_all_iff)
  moreover have "length (rows_from t 1) = length (rows_from u 1)"
    "chain_end sha256 GENESIS 1 (rows_from t 1) = chain_end sha256 GENESIS 1 (rows_from u 1)"
    using v by auto
  ultimately show ?thesis using chain_end_inj [OF assms(1) _ genesis_length genesis_length free] by blast
qed

lemma sample_digested:
  "digested sample_sha GENESIS 1 [sealed_row sample_sha GENESIS 1 payload row] =
     [payload, link_bytes GENESIS (digest_payload sample_sha payload) 1 (sr_recorded_at_utc row)]"
  by (simp add: sealed_row_def Let_def)

lemma sample_digests:
  "sample_sha ''{}'' = CHR ''P'' # ''{}'' @ replicate 29 (CHR ''x'')" "sample_sha ''[]'' = CHR ''P'' # ''[]'' @ replicate 29 (CHR ''x'')"
  "sample_sha (link_bytes GENESIS (digest_payload sample_sha ''{}'') n time) = ''LP{}'' @ replicate 28 (CHR ''x'')"
  "sample_sha (link_bytes GENESIS (digest_payload sample_sha ''[]'') n time) = ''LP[]'' @ replicate 28 (CHR ''x'')"
  using sample_sha_width
  by (simp_all add: sample_sha_link sha_width_def digest_payload_def) (simp_all add: sample_sha_def)

theorem verified_head_commits_witness:
  "map row_content (rows_from (sample_tables ''a'') 1) = map row_content (rows_from (sample_tables ''b'') 1)"
proof (rule verified_head_commits [OF sample_sha_width sample_env_reads sample_tables_facts(1) sample_tables_facts(1)])
  show "list_all (\<lambda>r. length (sr_recorded_at_utc r) \<le> U64_MAX) (at_rows (sample_tables ''a'') @ at_rows (sample_tables ''b''))"
    by (simp add: sample_tables_def sample_row_def sealed_row_def U64_MAX_def Let_def)
  show "\<not> collision sample_sha (digested sample_sha GENESIS 1 (rows_from (sample_tables ''a'') 1))
      (digested sample_sha GENESIS 1 (rows_from (sample_tables ''b'') 1))"
    unfolding sample_tables_facts(2) sample_row_def sample_digested by (simp add: collision_def sample_digests)
qed (rule sample_verified)+

section \<open>Checkpoints\<close>

lemma rows_from_drop:
  assumes "table_shape t" "rows_from t 1 = xs @ ys" "map sr_sequence xs = map int [1..<1 + length xs]"
    and "k \<le> length xs"
  shows "rows_from t (k + 1) = drop k (xs @ ys)"
proof (cases "k = 0")
  case True
  then show ?thesis using assms(2) by simp
next
  case False
  have number: "sr_sequence (xs ! i) = int (i + 1)" if "i < length xs" for i
  proof -
    have "map sr_sequence xs ! i = map int [1..<1 + length xs] ! i" by (simp only: assms(3))
    then show ?thesis using that by (simp del: upt_Suc)
  qed
  show ?thesis
  proof (rule rows_behind_page [OF assms(1)])
    show "rows_from t 1 = take k (xs @ ys) @ drop k (xs @ ys)"
      using assms(2) by (simp only: append_take_drop_id)
    show "take k (xs @ ys) \<noteq> []" using False assms(4) by auto
    show "sr_sequence r < int (k + 1)" if "r \<in> set (take k (xs @ ys))" for r
      using that assms(4) number by (auto simp: in_set_conv_nth)
    show "sr_sequence (last (take k (xs @ ys))) = int (k + 1) - 1"
    proof -
      have "take k xs \<noteq> []" using False assms(4) by auto
      then show ?thesis using False assms(4) number [of "k - 1"] by (simp add: last_conv_nth min_absorb2)
    qed
  qed simp
qed

lemma walk_row_flag:
  "walk_row sha256 row (w\<lparr>cw_walked := b\<rparr>) = walk_row sha256 row w"
  by (cases w) (simp add: walk_row_def Let_def cong: if_cong)

lemma walk_row_walked: "walk_row sha256 row w = Inr (Inr w') \<Longrightarrow> cw_walked w'"
  by (auto simp: walk_row_def and_then_def Let_def split: if_splits sum.splits)

lemma walk_rows_walked:
  "(walk_rows sha256 rows w :: 'e AuditChainError + ChainFault + ChainWalk) = Inr (Inr w') \<Longrightarrow> cw_walked w \<or> rows \<noteq> [] \<Longrightarrow>
   cw_walked w'"
proof (induction rows arbitrary: w)
  case (Cons row rows)
  then obtain v where row: "walk_row sha256 row w = (Inr (Inr v) :: 'e AuditChainError + ChainFault + ChainWalk)"
    and rest: "walk_rows sha256 rows v = (Inr (Inr w') :: 'e AuditChainError + ChainFault + ChainWalk)"
    by (auto simp only: walk_rows_Cons)
  show ?case using Cons.IH [OF rest] walk_row_walked [OF row] by simp
qed simp

lemma genesis_walk:
  assumes "sha_width sha256" "table_shape t"
  shows "(walk_rows sha256 (rows_from t 1) (start_walk None) :: 'e AuditChainError + ChainFault + ChainWalk) =
      Inr (Inr (walk_behind sha256 (start_walk None) (rows_from t 1))) \<longleftrightarrow> linked sha256 GENESIS 1 (rows_from t 1)"
proof -
  have e: "cw_expected (start_walk None) = 1" "cw_previous (start_walk None) = GENESIS" by (simp_all add: start_genesis)
  have bounds: "0 < cw_expected (start_walk None)" "int (cw_expected (start_walk None)) \<le> I64_LIMIT"
    using I64_positive by (simp_all add: e)
  show ?thesis using walk_rows_from [OF assms genesis_ready bounds, unfolded e] by blast
qed

text \<open>C39. A checkpoint is as good as the walk that earned it: on any later state of the same chain, one
  whose rows begin with the rows the head was verified on, resuming from the head gives exactly the
  answer of a verification from the beginning, be it intact, a fault or an error.\<close>

theorem checkpoint_resumes:
  fixes env :: "'e StoreEnv"
  assumes "sha_width sha256" "reads_work env" "table_shape t0" "table_shape t"
    and earned: "AuditChain_verify sha256 env t0 FromGenesis = Inr (Intact h)"
    and grown: "rows_from t 1 = rows_from t0 1 @ later" "int (vh_sequence h) \<le> head_claim t"
  shows "AuditChain_verify sha256 env t (FromCheckpoint h) = AuditChain_verify sha256 env t FromGenesis"
proof -
  let ?xs = "rows_from t0 1"
  have linked: "linked sha256 GENESIS 1 ?xs" and h: "vh_sequence h = length ?xs" "vh_link_digest h = chain_end sha256 GENESIS 1 ?xs"
    using verify_genesis_linked [OF assms(1-3), THEN iffD1, OF earned] by auto
  note numbers = linked_numbers [OF linked]
  let ?n = "length ?xs"
  let ?w = "start_walk None" and ?v = "start_walk (Some h)"
  have n: "int (?n + 1) \<le> I64_LIMIT" using rows_from_number [OF assms(3), of 1] I64_positive by auto
  then have seq: "chain_sequence ?n = ?n + 1" by (simp add: chain_sequence_def I64_LIMIT_def U64_MAX_def)
  have v: "?v = \<lparr>cw_expected = ?n + 1, cw_previous = chain_end sha256 GENESIS 1 ?xs, cw_last_verified = ?n, cw_walked = False\<rparr>"
    by (simp add: start_walk_def h seq del: One_nat_def)
  have rest: "rows_from t (?n + 1) = later"
    using rows_from_drop [OF assms(4) grown(1) numbers, of ?n] by simp
  let ?behind = "walk_behind sha256 ?w ?xs"
  have flags: "?behind = ?v\<lparr>cw_walked := ?xs \<noteq> []\<rparr>"
    by (auto simp: walk_behind_def v walk_at_def start_genesis)
  have "(walk_rows sha256 ?xs ?w :: 'e AuditChainError + ChainFault + ChainWalk) = Inr (Inr ?behind)"
    using genesis_walk [OF assms(1,3)] linked by blast
  then have genesis: "verify_pages sha256 env t ?w = walk_rows sha256 later ?behind"
    using verify_pages_walk [OF assms(2,4), of ?w sha256] I64_positive
    by (simp add: start_genesis grown(1) walk_rows_append del: One_nat_def)
  have resumed: "verify_pages sha256 env t ?v = walk_rows sha256 later ?v"
    using verify_pages_walk [OF assms(2,4), of ?v sha256] n rest by (simp add: v del: One_nat_def)
  have admitted: "admit_range (FromCheckpoint h) (nat (head_claim t)) = (Inr (Some h) :: 'e AuditChainError + VerifiedChainHead option)"
    "admit_range FromGenesis (nat (head_claim t)) = (Inr None :: 'e AuditChainError + VerifiedChainHead option)"
    using grown(2) by (simp_all add: admit_range_def)
  have claim: "\<not> head_claim t < 0" using grown(2) by linarith
  note verify = AuditChain_verify_def head_read [OF assms(2)] admitted
  show ?thesis
  proof (cases later)
    case Nil
    have anchor: "check_anchor env t (Some h) ?v = (Inr None :: 'e AuditChainError + ChainFault option)"
    proof (cases "?xs = []")
      case False
      then obtain ys r where xs: "?xs = ys @ [r]" by (metis rev_exhaust)
      have length: "?n = length ys + 1" unfolding xs by simp
      have "rows_from t (length ys + 1) = [r]"
        using rows_from_drop [OF assms(4) grown(1) numbers, of "length ys"] xs Nil by (simp del: One_nat_def)
      then have "rows_from t ?n = [r]" by (simp only: length)
      then have read: "audit_chain_rows env t ?n 1 = Inr [r]"
        using page_of_rows [OF assms(2), of ?n 1 t] n by (simp add: MAX_AUDIT_CHAIN_PAGE_def del: One_nat_def)
      have "row_linked sha256 (chain_end sha256 GENESIS 1 ys) ?n r"
        using linked xs by (simp add: linked_append)
      moreover have "chain_end sha256 GENESIS 1 ?xs = next_link sha256 (chain_end sha256 GENESIS 1 ys) ?n r"
        using xs by (simp add: chain_end_append)
      ultimately have "sr_sequence r = int ?n" "sr_link_digest r = to_hex (vh_link_digest h)"
        by (simp_all add: row_linked_def h)
      moreover have "length (vh_link_digest h) = 32"
        unfolding h by (rule chain_end_length [OF assms(1) genesis_length])
      ultimately have "on_this_chain h [r] = (Inr True :: 'e AuditChainError + bool)"
        by (simp add: on_this_chain_def h(1) and_then_def parse_digest_iff [THEN iffD2])
      then show ?thesis using read by (simp add: check_anchor_def h(1) and_then_def map_err_def)
    qed (simp add: check_anchor_def h(1))
    have "finish_walk c ?behind = finish_walk c ?v" for c unfolding flags by (simp add: finish_walk_def)
    then show ?thesis
      using claim anchor by (simp add: verify and_then_def genesis resumed Nil check_anchor_def [of _ _ None])
  next
    case (Cons row rows)
    have same: "walk_rows sha256 later ?behind = (walk_rows sha256 later ?v :: 'e AuditChainError + ChainFault + ChainWalk)"
      unfolding flags by (simp add: Cons walk_row_flag)
    have walked: "cw_walked w" if "walk_rows sha256 later ?v = (Inr (Inr w) :: 'e AuditChainError + ChainFault + ChainWalk)" for w
      using walk_rows_walked [OF that] by (simp add: Cons)
    show ?thesis
      using claim walked by (auto simp: verify and_then_def genesis [unfolded same] resumed check_anchor_def split: sum.split)
  qed
qed

theorem checkpoint_resumes_witness:
  "AuditChain_verify sample_sha sample_env sample_claimed (FromCheckpoint
       \<lparr>vh_sequence = 1, vh_link_digest = next_link sample_sha GENESIS 1 (sample_row ''a'')\<rparr>) =
   AuditChain_verify sample_sha sample_env sample_claimed FromGenesis"
  by (rule checkpoint_resumes [OF sample_sha_width sample_env_reads sample_tables_facts(1) sample_claimed_facts(1)
        sample_verified, where later = "[]"])
     (simp_all add: sample_claimed_facts sample_tables_facts del: One_nat_def)

section \<open>The last entry\<close>

text \<open>C40. The last entry has no successor, and the link that is kept with the head claim is not compared:
  when its payload is replaced by another and its two digests are computed anew, the chain still verifies
  from the beginning, though the head it verifies with is not the one the tables claim, unless SHA-256
  gives one digest to two of the four byte strings digested for the entry before and after.\<close>

theorem last_entry_rewrite_passes:
  fixes payload :: string
  assumes "sha_width sha256" "reads_work env" "chain_tables sha256 t" "int (length (at_rows t)) < I64_LIMIT"
    and rows: "at_rows t = rows @ [row]"
  defines "n \<equiv> length (at_rows t)" and "prev \<equiv> chain_end sha256 GENESIS 1 rows"
  defines "forged \<equiv> sealed_row sha256 prev n payload row"
  assumes other: "payload \<noteq> sr_payload_json row" and time: "length (sr_recorded_at_utc row) \<le> U64_MAX"
    and free: "\<not> collision sha256 (digested sha256 prev n [forged]) (digested sha256 prev n [row])"
  shows "\<exists>verified claimed.
    AuditChain_verify sha256 env (t\<lparr>at_rows := rows @ [forged]\<rparr>) FromGenesis =
      Inr (Intact \<lparr>vh_sequence = n, vh_link_digest = verified\<rparr>) \<and>
    audit_chain_head env (t\<lparr>at_rows := rows @ [forged]\<rparr>) = Inr (n, to_hex claimed) \<and>
    verified \<noteq> claimed"
proof -
  let ?t = "t\<lparr>at_rows := rows @ [forged]\<rparr>"
  have n: "n = 1 + length rows" by (simp add: n_def rows)
  have linked: "linked sha256 GENESIS 1 rows" and head: "at_head t = Some (int n, to_hex (next_link sha256 prev n row))"
    using assms(3) by (auto simp: chain_tables_def rows linked_append chain_end_append n prev_def)
  have sealed: "linked sha256 GENESIS 1 (at_rows ?t)"
    using linked sealed_row_facts(1) [of sha256 prev n payload row]
    by (simp add: linked_append n forged_def prev_def)
  have tables: "chain_tables sha256 (?t\<lparr>at_head := Some (int n, to_hex (next_link sha256 prev n forged))\<rparr>)"
    using sealed assms(3) by (simp add: chain_tables_def chain_end_append n prev_def rows)
  have same: "table_shape ?t \<and> rows_from ?t 1 = at_rows ?t"
    using chain_tables_shape [OF tables] assms(4) by (simp add: table_shape_def rows_from_def n rows)
  have "head_claim ?t = int n" by (simp add: head_claim_def head)
  then have verified: "AuditChain_verify sha256 env ?t FromGenesis =
      Inr (Intact \<lparr>vh_sequence = n, vh_link_digest = next_link sha256 prev n forged\<rparr>)"
    using verify_genesis_linked [OF assms(1,2), of ?t] same sealed by (simp add: chain_end_append n prev_def)
  have content: "row_content forged = (payload, sr_recorded_at_utc row)" by (simp add: forged_def sealed_row_facts)
  then have times: "length (sr_recorded_at_utc forged) \<le> U64_MAX" using time by (simp add: row_content_def)
  have "length prev = 32" unfolding prev_def by (rule chain_end_length [OF assms(1) genesis_length])
  from next_link_inj [OF assms(1) free this this times time] content other
  have "next_link sha256 prev n forged \<noteq> next_link sha256 prev n row" by (auto simp: row_content_def)
  moreover have "audit_chain_head env ?t = Inr (n, to_hex (next_link sha256 prev n row))"
    using assms(2) by (simp add: audit_chain_head_def reads_work_def connection_def operation_def and_then_def head)
  ultimately show ?thesis using verified by blast
qed

theorem last_entry_rewrite_passes_witness:
  "\<exists>verified claimed.
    AuditChain_verify sample_sha sample_env (sample_claimed\<lparr>at_rows := [sealed_row sample_sha GENESIS 1 ''[]'' (sample_row ''a'')]\<rparr>)
      FromGenesis = Inr (Intact \<lparr>vh_sequence = 1, vh_link_digest = verified\<rparr>) \<and>
    audit_chain_head sample_env (sample_claimed\<lparr>at_rows := [sealed_row sample_sha GENESIS 1 ''[]'' (sample_row ''a'')]\<rparr>)
      = Inr (1, to_hex claimed) \<and> verified \<noteq> claimed"
proof -
  have "\<not> collision sample_sha (digested sample_sha GENESIS 1 [sealed_row sample_sha GENESIS 1 ''[]'' (sample_row ''a'')])
      (digested sample_sha GENESIS 1 [sample_row ''a''])"
    unfolding sample_row_def sample_digested by (simp add: collision_def sample_digests)
  moreover have "''[]'' \<noteq> sr_payload_json (sample_row ''a'')" "length (sr_recorded_at_utc (sample_row ''a'')) \<le> U64_MAX"
    by (simp_all add: sample_row_def sealed_row_def Let_def U64_MAX_def)
  ultimately show ?thesis
    using last_entry_rewrite_passes [OF sample_sha_width sample_env_reads sample_claimed_facts(4),
      where rows = "[]" and row = "sample_row ''a''" and payload = "''[]''"]
    by (simp add: sample_claimed_facts(5) I64_LIMIT_def)
qed

end
