(* ===== verification/Spec2Isabelle.thy ===== *)
theory Spec2Isabelle
  imports Mission_Events Watchdog Verification_Gate Durations Adaptive_Properties Authored_Correct
    Json_Properties Checkpoint_Roundtrip
    Router_Correct Sanitize Persona Prompt_Cards
    Worker_Events_Correct Exec_Authority_Correct Exec_Request Dispatch_Properties
    Log_Properties
    Audit_Properties
begin

text \<open>
  Verification library of the nanika orchestrator, the Rust workspace
  \<^verbatim>\<open>src/skills/orchestrator-rs\<close>. It models the deterministic kernel of the program: the crate
  \<^verbatim>\<open>crates/orchestrator-core\<close>, the execution boundary \<^verbatim>\<open>crates/orchestrator-exec\<close>, and of
  \<^verbatim>\<open>crates/orchestrator-app\<close> the audit chain. File names below are relative to these crates' \<^verbatim>\<open>src\<close>. Definitions keep the source's names; a field of a record has a
  short prefix for its structure.

  \<^bold>\<open>The program.\<close> A mission is written by hand (\<^verbatim>\<open>mission.rs\<close>) or proposed by a model
  (\<^verbatim>\<open>mission_proposal.rs\<close>); either way it becomes a plan, a list of phases with dependencies. The reducer
  (\<^verbatim>\<open>reducer.rs\<close>) runs the plan: events start, complete, fail and skip phases. For each phase a route is
  chosen (\<^verbatim>\<open>router.rs\<close>, \<^verbatim>\<open>adaptive_routing.rs\<close>, \<^verbatim>\<open>configuration.rs\<close>), a prompt is assembled from persona files and
  rule cards, sanitized, and an executor is dispatched through one context per attempt (exec
  \<^verbatim>\<open>contract.rs\<close>, \<^verbatim>\<open>registry.rs\<close>), which owns the worker events (\<^verbatim>\<open>event.rs\<close>) and reaches processes, effects and
  verifiers only through \<^verbatim>\<open>authority.rs\<close>. A watchdog and a supervisor turn (\<^verbatim>\<open>watchdog.rs\<close>) bound the
  attempt, a gate (\<^verbatim>\<open>verification.rs\<close>) judges its checks. Events and checkpoints are stored as JSON that
  the earlier Go program must be able to read (\<^verbatim>\<open>codec.rs\<close>); the logs are read back for snapshots and tails
  (exec \<^verbatim>\<open>event_log.rs\<close>). What leaves the machine is entered in a chain of digests that can be verified later
  (app \<^verbatim>\<open>audit_chain.rs\<close>).

  \<^bold>\<open>Shared vocabulary.\<close> \<open>Prelude\<close> has \<open>Result\<close> as a sum (the error on the left), \<open>?\<close> as \<open>and_then\<close>,
  checked arithmetic and the control-character test; \<open>Collections\<close> has ordered maps and sets behind the
  locale \<open>ordered_map\<close>; \<open>Machine\<close> has the locales of a component that consumes a stream of inputs;
  \<open>Rust_Strings\<close> and \<open>Rust_Text\<close> have the string operations of the standard library on UTF-8 bytes, since
  a \<open>String\<close> is modelled as its bytes (\<open>Sanitize\<close> and parts of \<open>Router\<close>, which look at characters, use
  lists of code points). A \<open>u64\<close>, \<open>u32\<close> or \<open>i64\<close> whose wrap-around or overflow the code has to avoid is a
  word or checked; a length is a natural number.

  \<^bold>\<open>Theories and sources.\<close>
  \<^item> \<open>Identifiers\<close>: \<^verbatim>\<open>lib.rs\<close>.
  \<^item> \<open>Dependency_Graph\<close>, \<open>Reducer\<close>: \<^verbatim>\<open>reducer.rs\<close>. \<open>Lifecycle_Spec\<close> is the abstract lifecycle over a
    dependency graph with the fixpoint loop of the skips, \<open>Reducer_Correct\<close> the refinement,
    \<open>Mission_Runs\<close> the invariant of runs, \<open>Mission_Guarantees\<close> and \<open>Mission_Events\<close> the guarantees over
    plans, logs and single events.
  \<^item> \<open>Watchdog\<close>, \<open>Verification_Gate\<close>, \<open>Configuration\<close> with \<open>Durations\<close>: the files of the same names.
  \<^item> \<open>Adaptive_Values\<close>, \<open>Adaptive_Budget\<close>, \<open>Adaptive_Decision\<close>, \<open>Adaptive_Replay\<close>:
    \<^verbatim>\<open>adaptive_routing.rs\<close>. The other \<open>Adaptive_\<close> theories prove that the arithmetic is exact and what
    validation establishes (\<open>Scoring\<close>), what an evaluation and the selection mean (\<open>Evaluation\<close>,
    \<open>Selection\<close>), when a decision is made and that order does not matter (\<open>Decide\<close>), and replay (\<open>Shape\<close>,
    \<open>Replay_Roundtrip\<close>, which also computes the one decision the witnesses use).
  \<^item> \<open>Mission\<close>: \<^verbatim>\<open>mission.rs\<close> and \<^verbatim>\<open>mission_proposal.rs\<close>, with \<open>Authored_Correct\<close>, \<open>Proposal_Correct\<close> and
    \<open>Mission_Planning\<close>: what is parsed or compiled, and that the reducer accepts it.
  \<^item> \<open>Json_Scanner\<close>, \<open>Json_Skip\<close>, \<open>Json_Strings\<close>, \<open>Json_Parser\<close>, \<open>Json_Values\<close>, \<open>Timestamps\<close>,
    \<open>Event_Codec\<close>, \<open>Go_Events\<close>, \<open>Checkpoint\<close>: \<^verbatim>\<open>codec.rs\<close>. \<open>Json_Printer\<close> is the
    compact text as serde prints it, with the locale \<open>string_spelling\<close> of what a reader needs of the
    spelling of strings, and \<open>Json_Html\<close> shows that Go's escaping of a finished text, compact or indented,
    gives another such spelling and changes nothing else;
    \<open>Event_Log\<close>, \<open>Go_Observed\<close>, \<open>Checkpoint_Correct\<close> and \<open>Checkpoint_Roundtrip\<close> prove
    what the decoders give back; \<open>Json_Properties\<close> states the properties.
  \<^item> \<open>Router\<close> with \<open>Router_Correct\<close>, \<open>Sanitize\<close>, \<open>Persona\<close>: the files of the same names; \<open>Prompt_Cards\<close>:
    \<^verbatim>\<open>barok.rs\<close>, \<^verbatim>\<open>discipline.rs\<close>, \<^verbatim>\<open>ponytail.rs\<close>.
  \<^item> \<open>Exec_Values\<close>, \<open>Exec_Request\<close>, \<open>Exec_Outcome\<close>, \<open>Exec_Context\<close>: exec \<^verbatim>\<open>contract.rs\<close>; \<open>Exec_Authority\<close>:
    \<^verbatim>\<open>authority.rs\<close>; \<open>Worker_Events\<close>: \<^verbatim>\<open>event.rs\<close>; \<open>Dispatch\<close>: \<^verbatim>\<open>registry.rs\<close>. The context is a record, its
    operations are a state monad over it; the services are functions on a world of any type, a provider
    is any well-founded program of calls on the context. \<open>Attempt_Logic\<close> has the locales by which a
    relation between contexts is carried through every operation, and the first of them; \<open>Dispatch_Correct\<close>
    and \<open>Dispatch_Completed\<close> interpret them, \<open>Dispatch_Properties\<close> states the guarantees.
  \<^item> \<open>Log_Reader\<close>, \<open>Log_Tail\<close>: exec \<^verbatim>\<open>event_log.rs\<close>; a reader is the list of what its reads give. \<open>Log_Lines\<close>
    relates the two line readers to the lines of the delivered bytes, \<open>Log_Correct\<close> and \<open>Log_Properties\<close>
    describe replay, tail batches and snapshots by those lines.
  \<^item> \<open>Audit_Chain\<close>: app \<^verbatim>\<open>audit_chain.rs\<close> and the audit tables of \<^verbatim>\<open>runtime_store.rs\<close> with their constraints;
    whatever fails in the database, in decoding a row or in the checks of the store, is a parameter of
    each operation. \<open>Audit_Correct\<close> describes the tables an append leaves and the walk over pages by the
    list of rows, \<open>Audit_Properties\<close> states what a verification means and what it misses.

  \<^bold>\<open>What is shown.\<close> The reducer refines the abstract lifecycle, keeps its invariant over every log, never
  gets stuck, and replays are idempotent. The cycle detector, the proposal compiler, the verification
  gate, the routing decision and the choice of a runtime are characterised exactly, errors included. The
  routing arithmetic on words equals the one in the naturals, a decision replays to itself and does not
  depend on the order of its inputs. The JSON scanner accepts exactly the grammar up to its depth bound,
  the parser agrees with it, and every writer is read back by its reader, the text of events and checkpoints
  with the escaping the code applies to it: values, events, checkpoints, worker events, durations. Replay,
  tail and snapshots of a log are functions of its lines, however the bytes are delivered. A fingerprint's digested bytes determine the request they are taken of. An
  attempt leaves a well-formed event stream that says what it returns, and completes only when every
  service answer was clean and its evidence was verified, whatever its provider does. The audit chain
  verifies exactly when its rows are linked and cover the claim, appends keep it so, and the verified head
  determines the payloads; that the claimed digest is never compared is shown as well.

  \<^bold>\<open>Bounds and fuel.\<close> No definition runs on fuel: the loops are recursions with proved termination
  (the skip loop by the number of pending phases, the scanners by the remaining bytes and the open
  containers, the log scan by the rest of the log). The bounds of the code (JSON depth, line and field
  lengths, list sizes, output sizes) are definitions with the source's values.

  \<^bold>\<open>What is a parameter.\<close> SHA-256, SQLite, serde's reader and printer, numbers and \<open>f64\<close>, Unicode normalization
  and lower-casing, the file system and the environment are arguments of the definitions that use them.
  Where a property needs a law of one (a printed number is read back, for instance) it is a hypothesis,
  and its witness gives a concrete function with the law.

  \<^bold>\<open>Not modelled.\<close> Derived \<open>Debug\<close>, \<open>Display\<close> and serde code; the crates that are mainly effects: the
  rest of the runtime store, the workspaces and services of \<^verbatim>\<open>orchestrator-app\<close> (SQL and files), process supervision
  (\<^verbatim>\<open>orchestrator-process\<close>: pipes and signals), the daemon (sockets and HTTP), the command line, git and gh
  calls, the plugin host, the Claude provider and the first-use pilot. Concurrency between operating-system
  threads is not modelled; a service answers one call at a time.
\<close>

end
